(* ===== verification/Py_Prelude.thy ===== *)
theory Py_Prelude
  imports Complex_Main "HOL-Library.Multiset"
begin

text \<open>
  Shared vocabulary of the development: the Python values the program computes with, and the
  generic lemmas the components use.

  \<^item> \<open>float\<close> is modelled by \<open>real\<close> (no rounding error, no NaN, no infinities), \<open>int\<close> by \<open>int\<close>;
    \<open>py_int\<close> is Python's \<open>int(x)\<close> (truncation towards zero) and \<open>py_round n\<close> its
    \<open>round(x, n)\<close> (ties to even).
  \<^item> \<open>str\<close> is \<open>string\<close>; a literal of the source that is not ASCII stands as its UTF-8 bytes.
  \<^item> an exception is a value of \<open>py_exn\<close>; a call that may raise returns \<open>'a res\<close>.
  \<^item> a \<open>datetime\<close> is a wall-clock instant in microseconds together with whether it carries a
    time zone. The program only ever attaches KST, so the flag is the whole of the zone; the
    difference of an aware and a naive value raises, as it does in Python.
\<close>

section \<open>Collections of hints\<close>

named_theorems py_eval "equations that evaluate the string and number helpers"
named_theorems store_simps "how the row store answers queries after an update"

section \<open>Exceptions\<close>

datatype exn_kind =
  TypeError | ValueError | ZeroDivisionError | IntegrityError | RuntimeError | ServiceException | ExternalError

datatype py_exn = Exn (exn_kind: exn_kind) (exn_text: string)

type_synonym 'a res = "py_exn + 'a"

definition rbind :: "'a res \<Rightarrow> ('a \<Rightarrow> 'b res) \<Rightarrow> 'b res" where
  "rbind m f = (case m of Inl e \<Rightarrow> Inl e | Inr x \<Rightarrow> f x)"

lemma rbind_simps [simp]:
  "rbind (Inl e) f = Inl e"
  "rbind (Inr x) f = f x"
  by (simp_all add: rbind_def)

lemma rbind_eq_Inr: "rbind m f = Inr y \<longleftrightarrow> (\<exists>x. m = Inr x \<and> f x = Inr y)"
  by (cases m) (auto simp: rbind_def)

lemma rbind_eq_Inl: "rbind m f = Inl e \<longleftrightarrow> m = Inl e \<or> (\<exists>x. m = Inr x \<and> f x = Inl e)"
  by (cases m) (auto simp: rbind_def)

definition is_ok :: "'a res \<Rightarrow> bool" where
  "is_ok r = (case r of Inl _ \<Rightarrow> False | Inr _ \<Rightarrow> True)"

lemma is_ok_simps [simp]: "\<not> is_ok (Inl e)" "is_ok (Inr x)"
  by (simp_all add: is_ok_def)

lemma is_ok_iff: "is_ok r \<longleftrightarrow> (\<exists>x. r = Inr x)"
  by (cases r) auto

section \<open>Numbers\<close>

text \<open>Python's \<open>int(x)\<close> of a float.\<close>

definition py_int :: "real \<Rightarrow> int" where
  "py_int x = (if x < 0 then \<lceil>x\<rceil> else \<lfloor>x\<rfloor>)"

lemma py_int_nonneg: "0 \<le> x \<Longrightarrow> py_int x = \<lfloor>x\<rfloor>"
  by (simp add: py_int_def)

lemma py_int_le: "0 \<le> x \<Longrightarrow> real_of_int (py_int x) \<le> x"
  by (simp add: py_int_def)

lemma py_int_ge0: "0 \<le> x \<Longrightarrow> 0 \<le> py_int x"
  by (simp add: py_int_def)

lemma py_int_mono: "x \<le> y \<Longrightarrow> py_int x \<le> py_int y"
proof -
  assume le: "x \<le> y"
  show "py_int x \<le> py_int y"
  proof (cases "x < 0")
    case True
    show ?thesis
    proof (cases "y < 0")
      case True
      then show ?thesis using le \<open>x < 0\<close> by (simp add: py_int_def ceiling_mono)
    next
      case False
      have "\<lceil>x\<rceil> \<le> 0" using \<open>x < 0\<close> by (simp add: ceiling_le_iff)
      also have "0 \<le> \<lfloor>y\<rfloor>" using False by simp
      finally show ?thesis using \<open>x < 0\<close> False by (simp add: py_int_def)
    qed
  next
    case False
    then show ?thesis using le by (simp add: py_int_def floor_mono)
  qed
qed

text \<open>A quantity bought with a budget at a price: \<open>int(budget / price)\<close> never costs more.\<close>

lemma py_int_div_cost:
  assumes "0 < p" and "0 \<le> b"
  shows "p * real_of_int (py_int (b / p)) \<le> b"
proof -
  have "real_of_int (py_int (b / p)) \<le> b / p"
    using assms by (intro py_int_le) simp
  then have "p * real_of_int (py_int (b / p)) \<le> p * (b / p)"
    using assms by (intro mult_left_mono) auto
  then show ?thesis using assms by simp
qed

text \<open>Python's \<open>round\<close>: to the nearest integer, ties to the even one; \<open>round(x, n)\<close> scales.\<close>

definition round_even :: "real \<Rightarrow> int" where
  "round_even x =
     (let f = \<lfloor>x\<rfloor>; d = x - of_int f
      in if d < 1 / 2 then f else if d > 1 / 2 then f + 1 else if even f then f else f + 1)"

definition py_round :: "nat \<Rightarrow> real \<Rightarrow> real" where
  "py_round n x = of_int (round_even (x * 10 ^ n)) / 10 ^ n"

lemma round_even_of_int [simp]: "round_even (of_int k) = k"
  by (simp add: round_even_def)

lemma round_even_error: "\<bar>of_int (round_even x) - x\<bar> \<le> 1 / 2"
proof -
  have "of_int \<lfloor>x\<rfloor> \<le> x" and "x < of_int \<lfloor>x\<rfloor> + 1" by linarith+
  then show ?thesis by (auto simp: round_even_def Let_def abs_le_iff)
qed

lemma py_round_0 [simp]: "py_round n 0 = 0"
  using round_even_of_int [of 0] by (simp add: py_round_def)

lemma py_round_error: "\<bar>py_round n x - x\<bar> \<le> 1 / (2 * 10 ^ n)"
proof -
  have "py_round n x - x = (of_int (round_even (x * 10 ^ n)) - x * 10 ^ n) / 10 ^ n"
    by (simp add: py_round_def field_simps)
  then have "\<bar>py_round n x - x\<bar> = \<bar>of_int (round_even (x * 10 ^ n)) - x * 10 ^ n\<bar> / 10 ^ n"
    by (simp add: abs_divide)
  also have "\<dots> \<le> (1 / 2) / 10 ^ n"
    by (intro divide_right_mono round_even_error) simp
  finally show ?thesis by (simp add: field_simps)
qed

lemma round_even_mono: "x \<le> y \<Longrightarrow> round_even x \<le> round_even y"
proof -
  assume xy: "x \<le> y"
  show ?thesis
  proof (cases "\<lfloor>x\<rfloor> = \<lfloor>y\<rfloor>")
    case True
    then show ?thesis using xy by (auto simp: round_even_def Let_def)
  next
    case False
    with xy have "\<lfloor>x\<rfloor> + 1 \<le> \<lfloor>y\<rfloor>"
      using floor_mono [OF xy] by linarith
    moreover have "round_even x \<le> \<lfloor>x\<rfloor> + 1" by (auto simp: round_even_def Let_def)
    moreover have "\<lfloor>y\<rfloor> \<le> round_even y" by (auto simp: round_even_def Let_def)
    ultimately show ?thesis by linarith
  qed
qed

lemma py_round_mono: "x \<le> y \<Longrightarrow> py_round n x \<le> py_round n y"
  by (auto simp: py_round_def intro!: divide_right_mono round_even_mono mult_right_mono)

lemma py_round_nonneg: "0 \<le> x \<Longrightarrow> 0 \<le> py_round n x"
  using py_round_mono [of 0 x n] by simp

text \<open>\<open>x or d\<close> of a number: zero is falsy.\<close>

definition num_or :: "'a::zero \<Rightarrow> 'a \<Rightarrow> 'a" where
  "num_or x d = (if x = 0 then d else x)"

lemma num_or_simps [simp]: "num_or 0 d = d" "x \<noteq> 0 \<Longrightarrow> num_or x d = x"
  by (simp_all add: num_or_def)

text \<open>\<open>x or d\<close> of an optional number.\<close>

definition opt_or :: "'a::zero option \<Rightarrow> 'a \<Rightarrow> 'a" where
  "opt_or x d = (case x of None \<Rightarrow> d | Some v \<Rightarrow> num_or v d)"

lemma opt_or_simps [simp]: "opt_or None d = d" "opt_or (Some v) d = num_or v d"
  by (simp_all add: opt_or_def)

text \<open>\<open>s or d\<close> of a string: the empty string is falsy.\<close>

definition str_or :: "string \<Rightarrow> string \<Rightarrow> string" where
  "str_or s d = (if s = [] then d else s)"

definition ostr :: "string option \<Rightarrow> string" where
  "ostr s = (case s of None \<Rightarrow> [] | Some t \<Rightarrow> t)"

lemma ostr_simps [simp]: "ostr None = []" "ostr (Some t) = t"
  by (simp_all add: ostr_def)

section \<open>Strings\<close>

definition upper_char :: "char \<Rightarrow> char" where
  "upper_char c = (let n = (of_char c :: nat) in if 97 \<le> n \<and> n \<le> 122 then char_of (n - 32) else c)"

definition upper :: "string \<Rightarrow> string" where
  "upper = map upper_char"

definition is_space :: "char \<Rightarrow> bool" where
  "is_space c = (let n = (of_char c :: nat) in n = 32 \<or> (9 \<le> n \<and> n \<le> 13) \<or> (28 \<le> n \<and> n \<le> 31))"

definition is_digit :: "char \<Rightarrow> bool" where
  "is_digit c = (let n = (of_char c :: nat) in 48 \<le> n \<and> n \<le> 57)"

definition strip :: "string \<Rightarrow> string" where
  "strip s = rev (dropWhile is_space (rev (dropWhile is_space s)))"

fun is_prefix :: "'a list \<Rightarrow> 'a list \<Rightarrow> bool" where
  "is_prefix [] ys = True"
| "is_prefix (x # xs) [] = False"
| "is_prefix (x # xs) (y # ys) = (x = y \<and> is_prefix xs ys)"

text \<open>\<open>needle in hay\<close>.\<close>

fun contains :: "string \<Rightarrow> string \<Rightarrow> bool" where
  "contains needle [] = (needle = [])"
| "contains needle (c # cs) = (is_prefix needle (c # cs) \<or> contains needle cs)"

lemma contains_append: "contains p (xs @ p @ ys)"
proof -
  have pre: "is_prefix p (p @ ys)" by (induction p) auto
  show ?thesis
  proof (induction xs)
    case Nil
    show ?case using pre by (cases "p @ ys") auto
  qed simp
qed

lemma upper_Nil [simp]: "upper [] = []" and upper_Cons [simp]: "upper (c # s) = upper_char c # upper s"
  and upper_eq_Nil [simp]: "upper s = [] \<longleftrightarrow> s = []"
  by (simp_all add: upper_def)

lemma upper_char_idem: "upper_char (upper_char c) = upper_char c"
proof (cases "97 \<le> (of_char c :: nat) \<and> (of_char c :: nat) \<le> 122")
  case True
  then have "((of_char c :: nat) - 32) mod 256 = of_char c - 32"
    by (intro mod_less) linarith
  moreover have "\<not> (97 \<le> (of_char c :: nat) - 32)" using True by linarith
  ultimately show ?thesis using True by (simp add: upper_char_def Let_def)
next
  case False
  then show ?thesis by (auto simp: upper_char_def Let_def)
qed

lemma upper_idem [simp]: "upper (upper s) = upper s"
  by (induction s) (simp_all add: upper_char_idem)

lemma dropWhile_rev_dropWhile:
  "dropWhile P (rev (dropWhile P (rev (dropWhile P s)))) = rev (dropWhile P (rev (dropWhile P s)))"
proof -
  let ?t = "dropWhile P s"
  let ?u = "rev (dropWhile P (rev ?t))"
  have "?u = [] \<or> \<not> P (hd ?u)"
  proof (cases "?u = []")
    case False
    obtain r where r: "?t = ?u @ r"
      by (metis rev_append rev_rev_ident takeWhile_dropWhile_id)
    from False have "?t \<noteq> []" by (metis dropWhile.simps(1) rev.simps(1))
    moreover from False have "hd ?t = hd ?u" by (metis r hd_append2)
    ultimately show ?thesis using hd_dropWhile [of P s] by metis
  qed blast
  then show ?thesis by (simp only: dropWhile_eq_self_iff)
qed

lemma strip_idem [simp]: "strip (strip s) = strip s"
proof -
  have "dropWhile is_space (strip s) = strip s"
    by (simp only: strip_def dropWhile_rev_dropWhile)
  then have "strip (strip s) = rev (dropWhile is_space (rev (strip s)))"
    by (simp only: strip_def [of "strip s"])
  also have "rev (strip s) = dropWhile is_space (rev (dropWhile is_space s))"
    by (simp add: strip_def)
  also have "rev (dropWhile is_space (dropWhile is_space (rev (dropWhile is_space s)))) = strip s"
    by (simp add: strip_def)
  finally show ?thesis .
qed

lemma set_strip: "set (strip s) \<subseteq> set s"
proof
  fix x
  assume "x \<in> set (strip s)"
  then have "x \<in> set (rev (dropWhile is_space s))"
    unfolding strip_def set_rev [of "dropWhile is_space (rev (dropWhile is_space s))"] by (blast dest: set_dropWhileD)
  then have "x \<in> set (dropWhile is_space s)" unfolding set_rev .
  then show "x \<in> set s" by (blast dest: set_dropWhileD)
qed

section \<open>Time\<close>

datatype pydt = PyDT (wall: int) (aware: bool)

definition day_us :: int where "day_us = 86400000000"
definition minute_us :: int where "minute_us = 60000000"

lemma day_us_pos [simp]: "0 < day_us" by (simp add: day_us_def)
lemma minute_us_pos [simp]: "0 < minute_us" by (simp add: minute_us_def)

text \<open>\<open>a - b\<close> as a \<open>timedelta\<close> in microseconds; mixing naive and aware raises.\<close>

definition dt_sub :: "pydt \<Rightarrow> pydt \<Rightarrow> int res" where
  "dt_sub a b =
     (if aware a = aware b then Inr (wall a - wall b)
      else Inl (Exn TypeError ''can't subtract offset-naive and offset-aware datetimes''))"

text \<open>\<open>timedelta.days\<close> rounds down.\<close>

definition td_days :: "int \<Rightarrow> int" where "td_days us = us div day_us"

definition dt_date :: "pydt \<Rightarrow> int" where "dt_date d = wall d div day_us"
definition dt_tod :: "pydt \<Rightarrow> int" where "dt_tod d = wall d mod day_us"

text \<open>What a \<open>DateTime\<close> column of SQLite gives back: the wall clock, without its zone.\<close>

definition strip_tz :: "pydt \<Rightarrow> pydt" where "strip_tz d = PyDT (wall d) False"

definition ensure_kst :: "pydt \<Rightarrow> pydt" where "ensure_kst d = PyDT (wall d) True"

lemma strip_tz_simps [simp]:
  "wall (strip_tz d) = wall d" "\<not> aware (strip_tz d)" "strip_tz (strip_tz d) = strip_tz d"
  by (simp_all add: strip_tz_def)

lemma ensure_kst_simps [simp]: "wall (ensure_kst d) = wall d" "aware (ensure_kst d)"
  by (simp_all add: ensure_kst_def)

lemma dt_sub_ok [simp]: "aware a = aware b \<Longrightarrow> dt_sub a b = Inr (wall a - wall b)"
  by (simp add: dt_sub_def)

lemma dt_sub_mixed: "aware a \<noteq> aware b \<Longrightarrow> \<not> is_ok (dt_sub a b)"
  by (simp add: dt_sub_def)

section \<open>Lists\<close>

lemma sum_list_filter_split:
  "sum_list (map f (filter P xs)) + sum_list (map f (filter (\<lambda>x. \<not> P x) xs)) =
     (sum_list (map f xs) :: 'a::comm_monoid_add)"
  by (induction xs) (simp_all add: ac_simps)

lemma sum_list_nonneg_map:
  "(\<And>x. x \<in> set xs \<Longrightarrow> 0 \<le> f x) \<Longrightarrow> 0 \<le> (sum_list (map f xs) :: 'a::ordered_comm_monoid_add)"
  by (induction xs) (auto intro!: add_nonneg_nonneg)

text \<open>The last \<open>n\<close> elements: \<open>xs[-n:]\<close>.\<close>

definition take_last :: "nat \<Rightarrow> 'a list \<Rightarrow> 'a list" where
  "take_last n xs = drop (length xs - n) xs"

lemma length_take_last [simp]: "length (take_last n xs) = min n (length xs)"
  by (simp add: take_last_def)

lemma set_take_last: "set (take_last n xs) \<subseteq> set xs"
  by (simp add: take_last_def set_drop_subset)

lemma take_last_all [simp]: "length xs \<le> n \<Longrightarrow> take_last n xs = xs"
  by (simp add: take_last_def)

end
