(* ===== verification/Interfaces.thy ===== *)
theory Interfaces
  imports Py_Prelude
begin

text \<open>
  The contracts the components offer one another, as locales. Each is stated over the operations
  a client calls and the laws it relies on; the theory of the component that provides the
  operations interprets the locale on its own definitions. Nothing here mentions the program's
  state: a law is stated over an observation (the last pass of a key, the set of held locks,
  the cash still available).
\<close>

section \<open>A window that keeps the latest entries\<close>

text \<open>
  A history that is trimmed after every insertion: the volume history of the event detector
  (newest last, 20 entries) and its list of recent events (newest first, 40 entries).
\<close>

locale bounded_window =
  fixes push :: "'a \<Rightarrow> 'w \<Rightarrow> 'w" and contents :: "'w \<Rightarrow> 'a list" and cap :: nat
  assumes cap_pos: "0 < cap"
    and push_length: "length (contents w) \<le> cap \<Longrightarrow> length (contents (push x w)) \<le> cap"
    and push_member: "length (contents w) \<le> cap \<Longrightarrow> x \<in> set (contents (push x w))"
    and push_subset: "set (contents (push x w)) \<subseteq> insert x (set (contents w))"
begin

lemma fold_push_length:
  "length (contents w) \<le> cap \<Longrightarrow> length (contents (fold push xs w)) \<le> cap"
  by (induction xs arbitrary: w) (simp_all add: push_length)

lemma fold_push_subset: "set (contents (fold push xs w)) \<subseteq> set xs \<union> set (contents w)"
proof (induction xs arbitrary: w)
  case Nil
  then show ?case by simp
next
  case (Cons x xs)
  have "set (contents (fold push xs (push x w))) \<subseteq> set xs \<union> set (contents (push x w))"
    by (rule Cons.IH)
  also have "\<dots> \<subseteq> set xs \<union> insert x (set (contents w))" using push_subset by blast
  finally show ?case by auto
qed

end

section \<open>A cooldown gate\<close>

text \<open>
  A gate that lets an event with key \<open>k\<close> through at time \<open>t\<close> only if the previous pass of \<open>k\<close>
  lies at least \<open>window\<close> back: the duplicate filter of the event detector and the per-symbol
  cooldown of the trading agent. \<open>last_pass s k\<close> is the time the state remembers for \<open>k\<close>.
\<close>

locale cooldown_gate =
  fixes gate :: "'k \<Rightarrow> real \<Rightarrow> 's \<Rightarrow> bool \<times> 's"
    and last_pass :: "'s \<Rightarrow> 'k \<Rightarrow> real option"
    and window :: real
  assumes window_pos: "0 < window"
    and pass_spaced: "fst (gate k t s) \<Longrightarrow> last_pass s k = Some l \<Longrightarrow> window \<le> t - l"
    and pass_records: "fst (gate k t s) \<Longrightarrow> last_pass (snd (gate k t s)) = (last_pass s)(k \<mapsto> t)"
    and block_keeps: "\<not> fst (gate k t s) \<Longrightarrow> last_pass (snd (gate k t s)) = last_pass s"

text \<open>The passes of a whole sequence of attempts, and the state it leaves.\<close>

fun gate_run :: "('k \<Rightarrow> real \<Rightarrow> 's \<Rightarrow> bool \<times> 's) \<Rightarrow> ('k \<times> real) list \<Rightarrow> 's \<Rightarrow> ('k \<times> real) list \<times> 's" where
  "gate_run g [] s = ([], s)"
| "gate_run g ((k, t) # es) s =
     (let (ok, s') = g k t s; (ps, s'') = gate_run g es s'
      in (if ok then (k, t) # ps else ps, s''))"

lemma gate_run_passes:
  "fst (gate_run g ((k, t) # es) s) =
     (if fst (g k t s) then (k, t) # fst (gate_run g es (snd (g k t s)))
      else fst (gate_run g es (snd (g k t s))))"
  by (simp add: Let_def split: prod.splits)

declare gate_run.simps(2) [simp del]

definition pass_times :: "'k \<Rightarrow> ('k \<times> real) list \<Rightarrow> real list" where
  "pass_times k ps = map snd (filter (\<lambda>p. fst p = k) ps)"

lemma pass_times_simps [simp]:
  "pass_times k [] = []"
  "pass_times k ((k', t) # ps) = (if k' = k then t # pass_times k ps else pass_times k ps)"
  by (simp_all add: pass_times_def)

context cooldown_gate begin

lemma run_after_last:
  "last_pass s k = Some l \<Longrightarrow> x \<in> set (pass_times k (fst (gate_run gate es s))) \<Longrightarrow> l + window \<le> x"
proof (induction es arbitrary: s l)
  case Nil
  then show ?case by simp
next
  case (Cons e es)
  obtain k' t where e: "e = (k', t)" by (cases e)
  show ?case
  proof (cases "fst (gate k' t s)")
    case True
    note rec = pass_records [OF True]
    show ?thesis
    proof (cases "k' = k")
      case same: True
      have lt: "window \<le> t - l" using pass_spaced [OF True] Cons.prems(1) same by simp
      from Cons.prems(2) e True same
      have "x = t \<or> x \<in> set (pass_times k (fst (gate_run gate es (snd (gate k' t s)))))"
        by (simp add: gate_run_passes)
      moreover have "last_pass (snd (gate k' t s)) k = Some t" using rec same by simp
      ultimately show ?thesis using Cons.IH [of "snd (gate k' t s)" t] lt window_pos by fastforce
    next
      case False
      with Cons.prems(2) e True
      have "x \<in> set (pass_times k (fst (gate_run gate es (snd (gate k' t s)))))"
        by (simp add: gate_run_passes)
      moreover have "last_pass (snd (gate k' t s)) k = Some l" using rec False Cons.prems(1) by simp
      ultimately show ?thesis by (intro Cons.IH)
    qed
  next
    case False
    with Cons.prems(2) e have "x \<in> set (pass_times k (fst (gate_run gate es (snd (gate k' t s)))))"
      by (simp add: gate_run_passes)
    moreover have "last_pass (snd (gate k' t s)) k = Some l" using block_keeps [OF False] Cons.prems(1) by simp
    ultimately show ?thesis by (intro Cons.IH)
  qed
qed

text \<open>Any two passes of one key lie at least a window apart, in the order they happened.\<close>

lemma passes_spaced:
  "sorted_wrt (\<lambda>a b. a + window \<le> b) (pass_times k (fst (gate_run gate es s)))"
proof (induction es arbitrary: s)
  case Nil
  then show ?case by simp
next
  case (Cons e es)
  obtain k' t where e: "e = (k', t)" by (cases e)
  show ?case
  proof (cases "fst (gate k' t s) \<and> k' = k")
    case True
    then have "last_pass (snd (gate k' t s)) = (last_pass s)(k' \<mapsto> t)" using pass_records by blast
    then have "last_pass (snd (gate k' t s)) k = Some t" using True by simp
    then have "\<forall>x \<in> set (pass_times k (fst (gate_run gate es (snd (gate k' t s))))). t + window \<le> x"
      using run_after_last by blast
    with True Cons.IH [of "snd (gate k' t s)"] e show ?thesis by (simp add: gate_run_passes)
  next
    case False
    with Cons.IH [of "snd (gate k' t s)"] e show ?thesis by (auto simp: gate_run_passes)
  qed
qed

end
section \<open>A cash ledger\<close>

text \<open>
  A ledger that hands out parts of a budget: a request \<open>q\<close> asks for \<open>amount q\<close> under the
  identifier \<open>ident q\<close>; \<open>free i\<close> gives a reservation back. \<open>active\<close> holds the amounts now
  outstanding, \<open>known\<close> every identifier ever used, \<open>avail\<close> the cash still free, and \<open>invar\<close> is
  the ledger's own well-formedness.
\<close>

locale cash_ledger =
  fixes reserve :: "'q \<Rightarrow> 's \<Rightarrow> bool \<times> 's"
    and free :: "'i \<Rightarrow> 's \<Rightarrow> bool \<times> 's"
    and ident :: "'q \<Rightarrow> 'i"
    and amount :: "'q \<Rightarrow> real"
    and admissible :: "'q \<Rightarrow> bool"
    and active :: "'s \<Rightarrow> 'i \<Rightarrow> real option"
    and known :: "'s \<Rightarrow> 'i set"
    and avail :: "'s \<Rightarrow> real"
    and invar :: "'s \<Rightarrow> bool"
  assumes avail_nonneg: "0 \<le> avail s"
    and reserve_iff: "fst (reserve q s) \<longleftrightarrow> admissible q \<and> amount q \<le> avail s"
    and reserve_no: "\<not> fst (reserve q s) \<Longrightarrow> snd (reserve q s) = s"
    and reserve_avail: "invar s \<Longrightarrow> ident q \<notin> known s \<Longrightarrow> fst (reserve q s) \<Longrightarrow>
      avail (snd (reserve q s)) = avail s - amount q"
    and reserve_active: "invar s \<Longrightarrow> ident q \<notin> known s \<Longrightarrow> fst (reserve q s) \<Longrightarrow>
      active (snd (reserve q s)) = (active s)(ident q \<mapsto> amount q)"
    and reserve_known: "fst (reserve q s) \<Longrightarrow> known (snd (reserve q s)) = insert (ident q) (known s)"
    and reserve_invar: "invar s \<Longrightarrow> ident q \<notin> known s \<Longrightarrow> invar (snd (reserve q s))"
    and free_iff: "invar s \<Longrightarrow> fst (free i s) \<longleftrightarrow> active s i \<noteq> None"
    and free_no: "\<not> fst (free i s) \<Longrightarrow> snd (free i s) = s"
    and free_avail: "invar s \<Longrightarrow> active s i = Some a \<Longrightarrow> avail (snd (free i s)) = avail s + a"
    and free_active: "invar s \<Longrightarrow> active s i = Some a \<Longrightarrow> active (snd (free i s)) = (active s)(i := None)"
    and free_invar: "invar s \<Longrightarrow> invar (snd (free i s))"

text \<open>The requests of a sequence that are granted, and the ledger it leaves.\<close>

fun reserve_all :: "('q \<Rightarrow> 's \<Rightarrow> bool \<times> 's) \<Rightarrow> 'q list \<Rightarrow> 's \<Rightarrow> 'q list \<times> 's" where
  "reserve_all r [] s = ([], s)"
| "reserve_all r (q # qs) s =
     (if fst (r q s) then (q # fst (reserve_all r qs (snd (r q s))), snd (reserve_all r qs (snd (r q s))))
      else reserve_all r qs (snd (r q s)))"

context cash_ledger begin

text \<open>
  However many candidates of one cycle ask, in whatever order, what they are granted together is
  exactly what the budget lost, so it never exceeds the cash that was free.
\<close>

lemma reserve_all_spends:
  "invar s \<Longrightarrow> distinct (map ident qs) \<Longrightarrow> set (map ident qs) \<inter> known s = {} \<Longrightarrow>
     avail (snd (reserve_all reserve qs s)) =
       avail s - sum_list (map amount (fst (reserve_all reserve qs s)))"
proof (induction qs arbitrary: s)
  case Nil
  then show ?case by simp
next
  case (Cons q qs)
  let ?s' = "snd (reserve q s)"
  have fresh: "ident q \<notin> known s" using Cons.prems(3) by simp
  show ?case
  proof (cases "fst (reserve q s)")
    case True
    have "avail (snd (reserve_all reserve qs ?s')) =
        avail ?s' - sum_list (map amount (fst (reserve_all reserve qs ?s')))"
      using Cons.prems fresh reserve_invar [OF Cons.prems(1) fresh] reserve_known [OF True]
      by (intro Cons.IH) auto
    with True reserve_avail [OF Cons.prems(1) fresh True] show ?thesis by simp
  next
    case False
    with reserve_no [OF False] Cons.prems show ?thesis using Cons.IH [of s] by simp
  qed
qed

lemma reserve_all_within:
  assumes "invar s" and "distinct (map ident qs)" and "set (map ident qs) \<inter> known s = {}"
  shows "sum_list (map amount (fst (reserve_all reserve qs s))) \<le> avail s"
  using reserve_all_spends [OF assms] avail_nonneg [of "snd (reserve_all reserve qs s)"] by linarith

text \<open>Giving a reservation back restores the budget exactly, and only once.\<close>

lemma free_restores:
  assumes "invar s" and "ident q \<notin> known s" and "fst (reserve q s)"
  shows "avail (snd (free (ident q) (snd (reserve q s)))) = avail s"
    and "\<not> fst (free (ident q) (snd (free (ident q) (snd (reserve q s)))))"
proof -
  let ?s = "snd (reserve q s)"
  have inv: "invar ?s" using assms by (intro reserve_invar)
  have act: "active ?s (ident q) = Some (amount q)" using reserve_active [OF assms] by simp
  show "avail (snd (free (ident q) ?s)) = avail s"
    using free_avail [OF inv act] reserve_avail [OF assms] by simp
  show "\<not> fst (free (ident q) (snd (free (ident q) ?s)))"
    using free_active [OF inv act] free_invar [OF inv] by (simp add: free_iff)
qed

end

section \<open>A lock per key\<close>

text \<open>
  Mutual exclusion of tasks by a set of held keys: \<open>acquire k\<close> succeeds iff the canonical form of
  \<open>k\<close> is free, and \<open>clear\<close> drops all keys at once, whoever is inside. A task that was refused
  never releases; a task that entered releases its key when it leaves.
\<close>

locale keyed_lock =
  fixes acquire :: "'k \<Rightarrow> 's \<Rightarrow> bool \<times> 's"
    and unlock :: "'k \<Rightarrow> 's \<Rightarrow> 's"
    and clear :: "'s \<Rightarrow> 's"
    and held :: "'s \<Rightarrow> 'k set"
    and canon :: "'k \<Rightarrow> 'k"
  assumes canon_idem: "canon (canon k) = canon k"
    and acquire_iff: "fst (acquire k s) \<longleftrightarrow> canon k \<notin> held s"
    and acquire_held: "held (snd (acquire k s)) = insert (canon k) (held s)"
    and unlock_held: "held (unlock k s) = held s - {canon k}"
    and clear_held: "held (clear s) = {}"

text \<open>
  A configuration: which task is inside the section of which key, the lock's state, and the keys
  whose section was occupied when the keys were cleared. Any interleaving of the tasks' atomic
  steps, of clearings and of steps that leave the held keys alone is a run of this relation.
\<close>

inductive lock_step ::
  "('k \<Rightarrow> 's \<Rightarrow> bool \<times> 's) \<Rightarrow> ('k \<Rightarrow> 's \<Rightarrow> 's) \<Rightarrow> ('s \<Rightarrow> 's) \<Rightarrow> ('s \<Rightarrow> 'k set) \<Rightarrow> ('k \<Rightarrow> 'k) \<Rightarrow>
     ('t \<times> 'k) set \<times> 's \<times> 'k set \<Rightarrow> ('t \<times> 'k) set \<times> 's \<times> 'k set \<Rightarrow> bool"
  for acq :: "'k \<Rightarrow> 's \<Rightarrow> bool \<times> 's" and rel :: "'k \<Rightarrow> 's \<Rightarrow> 's" and clr :: "'s \<Rightarrow> 's" and hld :: "'s \<Rightarrow> 'k set"
    and canon :: "'k \<Rightarrow> 'k" where
  enter: "fst (acq k s) \<Longrightarrow> lock_step acq rel clr hld canon (inside, s, lost) (insert (t, canon k) inside, snd (acq k s), lost)"
| refused: "\<not> fst (acq k s) \<Longrightarrow> lock_step acq rel clr hld canon (inside, s, lost) (inside, snd (acq k s), lost)"
| leave: "(t, k) \<in> inside \<Longrightarrow> lock_step acq rel clr hld canon (inside, s, lost) (inside - {(t, k)}, rel k s, lost)"
| cleared: "lock_step acq rel clr hld canon (inside, s, lost) (inside, clr s, lost \<union> snd ` inside)"
| other: "hld s' = hld s \<Longrightarrow> lock_step acq rel clr hld canon (inside, s, lost) (inside, s', lost)"

inductive lock_run ::
  "('k \<Rightarrow> 's \<Rightarrow> bool \<times> 's) \<Rightarrow> ('k \<Rightarrow> 's \<Rightarrow> 's) \<Rightarrow> ('s \<Rightarrow> 's) \<Rightarrow> ('s \<Rightarrow> 'k set) \<Rightarrow> ('k \<Rightarrow> 'k) \<Rightarrow> 's \<Rightarrow>
     ('t \<times> 'k) set \<times> 's \<times> 'k set \<Rightarrow> bool"
  for acq :: "'k \<Rightarrow> 's \<Rightarrow> bool \<times> 's" and rel :: "'k \<Rightarrow> 's \<Rightarrow> 's" and clr :: "'s \<Rightarrow> 's" and hld :: "'s \<Rightarrow> 'k set"
    and canon :: "'k \<Rightarrow> 'k" and s0 :: 's where
  run_start: "lock_run acq rel clr hld canon s0 ({}, s0, {})"
| run_step: "lock_run acq rel clr hld canon s0 c \<Longrightarrow> lock_step acq rel clr hld canon c c' \<Longrightarrow> lock_run acq rel clr hld canon s0 c'"

context keyed_lock begin

definition lock_inv :: "('t \<times> 'k) set \<times> 's \<times> 'k set \<Rightarrow> bool" where
  "lock_inv c \<longleftrightarrow> (case c of (inside, s, lost) \<Rightarrow>
     snd ` inside - lost \<subseteq> held s \<and> (\<forall>k \<in> snd ` inside. canon k = k) \<and>
     (\<forall>t t' k. (t, k) \<in> inside \<longrightarrow> (t', k) \<in> inside \<longrightarrow> k \<notin> lost \<longrightarrow> t = t'))"

lemma step_inv: "lock_step acquire unlock clear held canon c c' \<Longrightarrow> lock_inv c \<Longrightarrow> lock_inv c'"
proof (induction rule: lock_step.induct)
  case (enter k s inside lost t)
  then have "canon k \<notin> snd ` inside - lost" by (auto simp: lock_inv_def acquire_iff)
  with enter.prems show ?case by (auto simp: lock_inv_def acquire_held canon_idem image_iff)
next
  case (refused k s inside lost)
  then show ?case by (auto simp: lock_inv_def acquire_held)
next
  case (leave t k inside s lost)
  then show ?case by (fastforce simp: lock_inv_def unlock_held)
next
  case (cleared inside s lost)
  then show ?case by (force simp: lock_inv_def)
next
  case (other s' s inside lost)
  then show ?case by (simp add: lock_inv_def)
qed

lemma run_inv: "lock_run acquire unlock clear held canon s0 c \<Longrightarrow> lock_inv c"
  by (induction rule: lock_run.induct) (auto simp: lock_inv_def [of "({}, s0, {})"] intro: step_inv)

text \<open>No interleaving puts two tasks into the section of a key that no clearing met occupied.\<close>

lemma mutual_exclusion:
  "lock_run acquire unlock clear held canon s0 (inside, s, lost) \<Longrightarrow> (t, k) \<in> inside \<Longrightarrow> (t', k) \<in> inside \<Longrightarrow> k \<notin> lost \<Longrightarrow> t = t'"
  by (drule run_inv) (simp add: lock_inv_def)

lemma inside_held:
  "lock_run acquire unlock clear held canon s0 (inside, s, lost) \<Longrightarrow> (t, k) \<in> inside \<Longrightarrow> k \<notin> lost \<Longrightarrow> k \<in> held s"
  by (drule run_inv) (force simp: lock_inv_def)

text \<open>A clearing while a task is inside lets a second task in beside it.\<close>

lemma cleared_admits_second:
  assumes "lock_run acquire unlock clear held canon s0 (inside, s, lost)" and "(t, canon k) \<in> inside"
  shows "\<exists>s' lost'. lock_run acquire unlock clear held canon s0 (insert (t', canon k) inside, s', lost')"
proof -
  have "lock_run acquire unlock clear held canon s0 (inside, clear s, lost \<union> snd ` inside)"
    using assms(1) by (rule run_step) (rule lock_step.cleared)
  then have "lock_run acquire unlock clear held canon s0
      (insert (t', canon k) inside, snd (acquire k (clear s)), lost \<union> snd ` inside)"
    by (rule run_step) (rule lock_step.enter, simp add: acquire_iff clear_held)
  then show ?thesis by blast
qed

end

section \<open>A feed of subscriptions\<close>

text \<open>
  What the stream manager expects of a realtime adapter: an accepted subscription is in the set of
  feeds, a refused one changes nothing, and the set stays within the limit of a session. \<open>fine\<close>
  marks the markets whose keys are unambiguous.
\<close>

locale quote_feed =
  fixes sub :: "string \<Rightarrow> string \<Rightarrow> 'a \<Rightarrow> bool \<times> 'a"
    and unsub :: "string \<Rightarrow> string \<Rightarrow> 'a \<Rightarrow> 'a"
    and cnt :: "'a \<Rightarrow> nat"
    and feeds :: "'a \<Rightarrow> 'k set"
    and key :: "string \<Rightarrow> string \<Rightarrow> 'k"
    and fine :: "string \<Rightarrow> bool"
    and limit :: nat
  assumes cnt_feeds: "cnt a = card (feeds a)"
    and krx_fine: "fine ''KRX''"
    and key_inj: "fine m \<Longrightarrow> fine m' \<Longrightarrow> key s m = key s' m' \<Longrightarrow> s = s' \<and> m = m'"
    and sub_feeds: "fst (sub s m a) \<Longrightarrow> feeds (snd (sub s m a)) = insert (key s m) (feeds a)"
    and sub_refused: "\<not> fst (sub s m a) \<Longrightarrow> feeds (snd (sub s m a)) = feeds a"
    and sub_limit: "card (feeds a) \<le> limit \<Longrightarrow> card (feeds (snd (sub s m a))) \<le> limit"
    and unsub_feeds: "feeds (unsub s m a) = feeds a - {key s m}"

end
