(* ===== verification/Trading_Types.thy ===== *)
theory Trading_Types
  imports Py_Prelude
begin

text \<open>
  The data the trading core passes around: the enumerations of \<open>trading/enums.py\<close>, the API
  models of \<open>trading/models.py\<close> with the validator of \<open>OrderRequest\<close>, the trade signal of
  \<open>strategy/signal.py\<close>, and the symbol normalisation of \<open>trading/symbols.py\<close>.
\<close>

section \<open>Enumerations\<close>

datatype market = KRX | NXT | KOSPI | KOSDAQ | NASDAQ | NYSE | AMEX
datatype broker_provider = KIS | KIWOOM
datatype order_side = Side_BUY | Side_SELL
datatype order_type = MARKET | LIMIT
datatype order_session =
  REGULAR | Session_NXT_PRE | KRX_CLOSE_AUCTION | Session_NXT_AFTER | PRE_MARKET_CLOSE |
  POST_MARKET_CLOSE | AFTER_HOURS_SINGLE
datatype signal_action = BUY | SELL | HOLD
datatype signal_urgency = IMMEDIATE | WAIT
datatype autonomy_mode = AUTONOMOUS | SEMI_AUTO
datatype order_confirm_status = PENDING_CONFIRM | CONFIRMED | CONFIRM_FAILED

fun action_value :: "signal_action \<Rightarrow> string" where
  "action_value BUY = ''BUY''"
| "action_value SELL = ''SELL''"
| "action_value HOLD = ''HOLD''"

fun status_value :: "order_confirm_status \<Rightarrow> string" where
  "status_value PENDING_CONFIRM = ''PENDING_CONFIRM''"
| "status_value CONFIRMED = ''CONFIRMED''"
| "status_value CONFIRM_FAILED = ''CONFIRM_FAILED''"

text \<open>\<open>Market(code)\<close>, \<open>OrderSide(value)\<close> and \<open>AutonomyMode(value)\<close>: an unknown value raises.\<close>

definition enum_error :: "string \<Rightarrow> py_exn" where
  "enum_error v = Exn ValueError (v @ '' is not a valid enum value'')"

definition market_of :: "string \<Rightarrow> market res" where
  "market_of v =
     (if v = ''KRX'' then Inr KRX else if v = ''NXT'' then Inr NXT
      else if v = ''KOSPI'' then Inr KOSPI else if v = ''KOSDAQ'' then Inr KOSDAQ
      else if v = ''NASDAQ'' then Inr NASDAQ else if v = ''NYSE'' then Inr NYSE
      else if v = ''AMEX'' then Inr AMEX else Inl (enum_error v))"

definition order_side_of :: "string \<Rightarrow> order_side res" where
  "order_side_of v =
     (if v = ''BUY'' then Inr Side_BUY else if v = ''SELL'' then Inr Side_SELL else Inl (enum_error v))"

definition autonomy_mode_of :: "string \<Rightarrow> autonomy_mode res" where
  "autonomy_mode_of v =
     (if v = ''AUTONOMOUS'' then Inr AUTONOMOUS else if v = ''SEMI_AUTO'' then Inr SEMI_AUTO
      else Inl (enum_error v))"

lemma order_side_of_action:
  "order_side_of (action_value a) =
     (case a of BUY \<Rightarrow> Inr Side_BUY | SELL \<Rightarrow> Inr Side_SELL | HOLD \<Rightarrow> Inl (enum_error ''HOLD''))"
  by (cases a) (simp_all add: order_side_of_def)

section \<open>Symbols\<close>

text \<open>
  \<open>normalize_krx_symbol\<close>: strips white space and the Kiwoom \<open>A\<close> prefix of a six digit code.
  \<open>None\<close> is passed as the empty string (\<open>symbol or ""\<close>).
\<close>

definition prefixed_code :: "string \<Rightarrow> string option" where
  "prefixed_code raw =
     (case raw of [] \<Rightarrow> None
      | c # ds \<Rightarrow> (if (c = CHR ''A'' \<or> c = CHR ''a'') \<and> length ds = 6 \<and> list_all is_digit ds
                   then Some ds else None))"

definition normalize_krx_symbol :: "string \<Rightarrow> string" where
  "normalize_krx_symbol symbol =
     (let raw = strip symbol in case prefixed_code raw of Some code \<Rightarrow> code | None \<Rightarrow> raw)"

lemma digit_not_space: "is_digit c \<Longrightarrow> \<not> is_space c"
  by (auto simp: is_digit_def is_space_def Let_def)

lemma digit_not_prefix: "is_digit c \<Longrightarrow> c \<noteq> CHR ''A'' \<and> c \<noteq> CHR ''a''"
  by (auto simp: is_digit_def Let_def)

lemma strip_digits: "list_all is_digit ds \<Longrightarrow> strip ds = ds"
proof -
  assume d: "list_all is_digit ds"
  have *: "dropWhile is_space xs = xs" if "list_all is_digit xs" for xs
    using that by (cases xs) (simp_all add: digit_not_space)
  from d have "list_all is_digit (rev ds)" by (simp add: list_all_iff)
  then have "dropWhile is_space (rev ds) = rev ds" by (rule *)
  with * [OF d] show ?thesis by (simp add: strip_def)
qed

lemma prefixed_code_digits: "prefixed_code raw = Some ds \<Longrightarrow> list_all is_digit ds \<and> length ds = 6"
  by (auto simp: prefixed_code_def split: list.splits if_splits)

lemma prefixed_code_of_digits: "list_all is_digit ds \<Longrightarrow> prefixed_code ds = None"
  by (auto simp: prefixed_code_def is_digit_def Let_def split: list.splits)

text \<open>Normalising twice is normalising once: symbols that went through it compare reliably.\<close>

lemma normalize_idem [simp]: "normalize_krx_symbol (normalize_krx_symbol s) = normalize_krx_symbol s"
proof (cases "prefixed_code (strip s)")
  case None
  then show ?thesis by (simp add: normalize_krx_symbol_def)
next
  case (Some ds)
  then have "list_all is_digit ds" by (simp add: prefixed_code_digits)
  with Some show ?thesis
    by (simp add: normalize_krx_symbol_def strip_digits prefixed_code_of_digits)
qed

section \<open>API models\<close>

record order_request =
  or_symbol :: string
  or_market :: market
  or_side :: order_side
  or_type :: order_type
  or_session :: order_session
  or_quantity :: int
  or_price :: "real option"

text \<open>The pydantic validator: quantity and limit price checked, the price of a market order dropped.\<close>

definition validate_order_request :: "order_request \<Rightarrow> order_request res" where
  "validate_order_request r =
     (if or_quantity r \<le> 0 then Inl (Exn ValueError ''quantity must be at least 1'')
      else if or_type r = LIMIT \<and> (case or_price r of None \<Rightarrow> True | Some p \<Rightarrow> p \<le> 0)
      then Inl (Exn ValueError ''a limit order needs a valid price'')
      else if or_type r = MARKET then Inr (r\<lparr>or_price := None\<rparr>) else Inr r)"

record order_result =
  ores_success :: bool
  ores_order_id :: "string option"
  ores_message :: string

record order_status_info =
  os_order_id :: string
  os_symbol :: string
  os_filled_qty :: "int option"
  os_filled_price :: real
  os_remaining_qty :: int
  os_order_price :: real

record account_balance =
  bal_total_asset :: real
  bal_cash :: real
  bal_stock_value :: real
  bal_total_pnl :: real
  bal_total_pnl_rate :: real
  bal_is_valid :: bool

record holding_info =
  hi_symbol :: string
  hi_name :: string
  hi_quantity :: int
  hi_avg_buy_price :: real
  hi_current_price :: real

record pending_order_info =
  po_order_id :: string
  po_symbol :: string
  po_name :: string
  po_side :: string
  po_order_qty :: int
  po_filled_qty :: int
  po_remaining_qty :: int
  po_order_price :: real
  po_order_time :: string

section \<open>Trade signals\<close>

text \<open>
  \<open>TradeSignal\<close>: of the free-form \<open>metadata\<close> the core reads the keys \<open>market\<close> and
  \<open>trade_horizon\<close> and writes the two reservation keys. \<open>reason\<close> is display text and left out.
\<close>

record trade_signal =
  sig_symbol :: string
  sig_stock_id :: string
  sig_action :: signal_action
  sig_strength :: real
  sig_price :: "real option"
  sig_quantity :: "int option"
  sig_target :: "real option"
  sig_stop :: "real option"
  sig_urgency :: signal_urgency
  sig_strategy :: string
  sig_confidence :: real
  sig_market :: "string option"
  sig_horizon :: "string option"
  sig_reservation_id :: "string option"
  sig_reserved_amount :: real

lemma validate_ok:
  "validate_order_request r = Inr r' \<Longrightarrow>
     0 < or_quantity r' \<and> (or_type r' = LIMIT \<longrightarrow> (\<exists>p > 0. or_price r' = Some p)) \<and>
     (or_type r' = MARKET \<longrightarrow> or_price r' = None)"
  by (auto simp: validate_order_request_def split: if_splits option.splits)

end
