(* ===== verification/Settings_Model.thy ===== *)
theory Settings_Model
  imports Trading_Types
begin

text \<open>
  The runtime settings of \<open>core/config.py\<close> the trading core reads, with their defaults, and the
  order submission gate of \<open>core/order_submission.py\<close> that every order of the program passes.
  The global \<open>settings\<close> object is an argument of the definitions that read it.
\<close>

section \<open>Settings\<close>

record agent_settings =
  AUTONOMY_MODE :: string
  RECOMMENDATION_EXPIRE_MIN :: int
  MIN_BUY_QUANTITY :: int
  TRADING_ENABLED :: bool
  ORDER_SUBMISSION_MODE :: string
  DAY_TRADING_ONLY :: bool
  BUY_CUTOFF_HOUR :: int
  BUY_CUTOFF_MINUTE :: int
  MAX_HOLD_DAYS_STABLE :: int
  MAX_HOLD_DAYS_AGGRESSIVE :: int
  MAX_DAILY_TRADES :: int
  MAX_SINGLE_ORDER_KRW :: int
  ABS_MAX_DAILY_TRADES :: int
  ABS_MAX_SINGLE_ORDER_KRW :: int
  ABS_MAX_POSITION_PCT :: real
  BUY_ORDER_EXECUTION_MODE :: string
  BUY_SLIPPAGE_GUARD_BPS :: int
  ORDER_RESERVATION_ENFORCEMENT :: string

record settings = agent_settings +
  AUTO_RISK_KILL_SWITCH_ENABLED :: bool
  MAX_DAILY_DRAWDOWN_PCT :: real
  MAX_CONSECUTIVE_LOSSES :: int
  MIN_STRATEGY_EXPECTANCY :: real
  EXPECTANCY_SAMPLE_SIZE :: int
  VOLATILITY_POSITION_SIZING_ENABLED :: bool
  RISK_PER_TRADE_PCT :: real
  RISK_MULTIPLIER_SHORT :: real
  RISK_MULTIPLIER_MID :: real
  RISK_MULTIPLIER_LONG :: real
  COST_GATE_ENABLED :: bool
  ESTIMATED_ENTRY_COST_BPS :: int
  ESTIMATED_EXIT_COST_BPS :: int
  ESTIMATED_SLIPPAGE_BPS_SHORT :: int
  ESTIMATED_SLIPPAGE_BPS_MID :: int
  ESTIMATED_SLIPPAGE_BPS_LONG :: int
  MIN_EDGE_TO_COST_RATIO_SHORT :: real
  MIN_EDGE_TO_COST_RATIO_MID :: real
  MIN_EDGE_TO_COST_RATIO_LONG :: real
  MIN_CASH_RATIO :: real

definition default_settings :: settings where
  "default_settings = \<lparr>
     AUTONOMY_MODE = ''AUTONOMOUS'', RECOMMENDATION_EXPIRE_MIN = 60, MIN_BUY_QUANTITY = 1,
     TRADING_ENABLED = True, ORDER_SUBMISSION_MODE = ''FULL'', DAY_TRADING_ONLY = False,
     BUY_CUTOFF_HOUR = 14, BUY_CUTOFF_MINUTE = 30,
     MAX_HOLD_DAYS_STABLE = 5, MAX_HOLD_DAYS_AGGRESSIVE = 3,
     MAX_DAILY_TRADES = 0, MAX_SINGLE_ORDER_KRW = 0,
     ABS_MAX_DAILY_TRADES = 8, ABS_MAX_SINGLE_ORDER_KRW = 50000000, ABS_MAX_POSITION_PCT = 15,
     BUY_ORDER_EXECUTION_MODE = ''LIMIT_GUARD'', BUY_SLIPPAGE_GUARD_BPS = 20,
     ORDER_RESERVATION_ENFORCEMENT = ''SHADOW'',
     AUTO_RISK_KILL_SWITCH_ENABLED = True, MAX_DAILY_DRAWDOWN_PCT = 5 / 2,
     MAX_CONSECUTIVE_LOSSES = 4, MIN_STRATEGY_EXPECTANCY = 0, EXPECTANCY_SAMPLE_SIZE = 12,
     VOLATILITY_POSITION_SIZING_ENABLED = True, RISK_PER_TRADE_PCT = 1 / 2,
     RISK_MULTIPLIER_SHORT = 7 / 10, RISK_MULTIPLIER_MID = 1, RISK_MULTIPLIER_LONG = 12 / 10,
     COST_GATE_ENABLED = True, ESTIMATED_ENTRY_COST_BPS = 8, ESTIMATED_EXIT_COST_BPS = 8,
     ESTIMATED_SLIPPAGE_BPS_SHORT = 12, ESTIMATED_SLIPPAGE_BPS_MID = 8, ESTIMATED_SLIPPAGE_BPS_LONG = 6,
     MIN_EDGE_TO_COST_RATIO_SHORT = 15 / 10, MIN_EDGE_TO_COST_RATIO_MID = 13 / 10,
     MIN_EDGE_TO_COST_RATIO_LONG = 11 / 10, MIN_CASH_RATIO = 0\<rparr>"

section \<open>Order submission gate\<close>

definition valid_submission_modes :: "string list" where
  "valid_submission_modes = [''FULL'', ''SELL_ONLY'', ''READ_ONLY'']"

record submission_decision =
  sd_allowed :: bool
  sd_mode :: string
  sd_reason :: string

definition normalize_order_submission_mode :: "string \<Rightarrow> string" where
  "normalize_order_submission_mode value =
     (let mode = upper (str_or value ''FULL'')
      in if mode \<in> set valid_submission_modes then mode else ''FULL'')"

definition current_order_submission_mode :: "settings \<Rightarrow> string" where
  "current_order_submission_mode cfg = normalize_order_submission_mode (ORDER_SUBMISSION_MODE cfg)"

text \<open>\<open>side\<close> is the enum member's value or the plain string; \<open>None\<close> is passed as the empty string.\<close>

definition decide_order_submission :: "settings \<Rightarrow> string \<Rightarrow> submission_decision" where
  "decide_order_submission cfg side =
     (if \<not> TRADING_ENABLED cfg then
        \<lparr>sd_allowed = False, sd_mode = current_order_submission_mode cfg,
         sd_reason = ''TRADING_ENABLED=false''\<rparr>
      else
        let mode = current_order_submission_mode cfg; side_value = upper side
        in if mode = ''READ_ONLY'' then
             \<lparr>sd_allowed = False, sd_mode = mode, sd_reason = ''ORDER_SUBMISSION_MODE=READ_ONLY''\<rparr>
           else if mode = ''SELL_ONLY'' \<and> side_value = ''BUY'' then
             \<lparr>sd_allowed = False, sd_mode = mode,
              sd_reason = ''ORDER_SUBMISSION_MODE=SELL_ONLY blocks BUY''\<rparr>
           else \<lparr>sd_allowed = True, sd_mode = mode, sd_reason = []\<rparr>)"

definition effective_order_submission_mode :: "settings \<Rightarrow> string" where
  "effective_order_submission_mode cfg =
     (if \<not> TRADING_ENABLED cfg then ''DISABLED'' else current_order_submission_mode cfg)"

definition runtime_order_override_active :: "settings \<Rightarrow> bool" where
  "runtime_order_override_active cfg \<longleftrightarrow> current_order_submission_mode cfg \<noteq> ''FULL''"

lemma normalize_mode_valid: "normalize_order_submission_mode v \<in> set valid_submission_modes"
  by (simp add: normalize_order_submission_mode_def valid_submission_modes_def Let_def)

lemma decision_mode: "sd_mode (decide_order_submission cfg side) = current_order_submission_mode cfg"
  by (simp add: decide_order_submission_def Let_def)

text \<open>
  The gate in one equation: an order goes out exactly when trading is enabled, the mode is not
  read-only, and a buy is not submitted in the sell-only mode.
\<close>

lemma submission_allowed_iff:
  "sd_allowed (decide_order_submission cfg side) \<longleftrightarrow>
     TRADING_ENABLED cfg \<and> current_order_submission_mode cfg \<noteq> ''READ_ONLY'' \<and>
     \<not> (current_order_submission_mode cfg = ''SELL_ONLY'' \<and> upper side = ''BUY'')"
  by (simp add: decide_order_submission_def Let_def)

lemma submission_reason_iff: "sd_allowed (decide_order_submission cfg side) \<longleftrightarrow>
    sd_reason (decide_order_submission cfg side) = []"
  by (simp add: decide_order_submission_def Let_def)

end
