(* ===== verification/Reservation.thy ===== *)
theory Reservation
  imports Interfaces Settings_Model "HOL-Library.AList"
begin

text \<open>
  The cycle-local cash ledger of \<open>agent/order_reservation.py\<close> and the two steps of the trading
  agent that prepare a buy order: the execution policy (market or guarded limit) and the cash
  reservation. The dict of reservations is an association list in insertion order; the uuid of
  a new reservation is an argument.
\<close>

section \<open>The ledger\<close>

record reservation =
  res_id :: string
  res_symbol :: string
  res_amount :: real
  res_quantity :: int
  res_active :: bool

record ledger =
  led_starting_cash :: real
  led_reservations :: "(string \<times> reservation) list"

datatype reservation_reason = Invalid_Request | Insufficient_Cash | Reserved | No_Ledger

record reservation_decision =
  rd_approved :: bool
  rd_symbol :: string
  rd_requested_amount :: real
  rd_reserved_amount :: real
  rd_available_cash :: real
  rd_reservation_id :: "string option"
  rd_reason :: reservation_reason

definition new_ledger :: "real \<Rightarrow> ledger" where
  "new_ledger starting_cash = \<lparr>led_starting_cash = max (num_or starting_cash 0) 0, led_reservations = []\<rparr>"

definition active_amounts :: "(string \<times> reservation) list \<Rightarrow> real list" where
  "active_amounts items = map res_amount (filter res_active (map snd items))"

definition reserved_cash :: "ledger \<Rightarrow> real" where
  "reserved_cash l = sum_list (active_amounts (led_reservations l))"

definition available_cash :: "ledger \<Rightarrow> real" where
  "available_cash l = max (led_starting_cash l - reserved_cash l) 0"

definition reserve :: "string \<Rightarrow> string \<Rightarrow> real \<Rightarrow> int \<Rightarrow> ledger \<Rightarrow> reservation_decision \<times> ledger" where
  "reserve uuid symbol amount quantity l =
     (let normalized_symbol = normalize_krx_symbol symbol;
          requested_amount = max (num_or amount 0) 0
      in if requested_amount \<le> 0 \<or> num_or quantity 0 \<le> 0 then
           (\<lparr>rd_approved = False, rd_symbol = normalized_symbol, rd_requested_amount = requested_amount,
             rd_reserved_amount = 0, rd_available_cash = available_cash l, rd_reservation_id = None,
             rd_reason = Invalid_Request\<rparr>, l)
         else let available = available_cash l
         in if requested_amount > available then
              (\<lparr>rd_approved = False, rd_symbol = normalized_symbol, rd_requested_amount = requested_amount,
                rd_reserved_amount = 0, rd_available_cash = available, rd_reservation_id = None,
                rd_reason = Insufficient_Cash\<rparr>, l)
            else
              let l' = l\<lparr>led_reservations := AList.update uuid
                     \<lparr>res_id = uuid, res_symbol = normalized_symbol, res_amount = requested_amount,
                      res_quantity = quantity, res_active = True\<rparr> (led_reservations l)\<rparr>
              in (\<lparr>rd_approved = True, rd_symbol = normalized_symbol,
                   rd_requested_amount = requested_amount, rd_reserved_amount = requested_amount,
                   rd_available_cash = available_cash l', rd_reservation_id = Some uuid,
                   rd_reason = Reserved\<rparr>, l'))"

text \<open>\<open>release\<close>: \<open>reservation_id\<close> is \<open>None\<close> or a string, both falsy when empty.\<close>

definition release :: "string option \<Rightarrow> ledger \<Rightarrow> bool \<times> ledger" where
  "release reservation_id l =
     (if ostr reservation_id = [] then (False, l)
      else case map_of (led_reservations l) (ostr reservation_id) of
        None \<Rightarrow> (False, l)
      | Some r \<Rightarrow>
          (if \<not> res_active r then (False, l)
           else (True, l\<lparr>led_reservations :=
                   AList.update (ostr reservation_id) (r\<lparr>res_active := False\<rparr>) (led_reservations l)\<rparr>)))"

section \<open>The agent's reservation and execution policy\<close>

definition order_reservation_mode :: "settings \<Rightarrow> string" where
  "order_reservation_mode cfg =
     (let mode = upper (str_or (ORDER_RESERVATION_ENFORCEMENT cfg) ''SHADOW'')
      in if mode = ''ENFORCE'' then ''ENFORCE'' else ''SHADOW'')"

definition reserve_buy_cash_for_cycle ::
  "string \<Rightarrow> trade_signal \<Rightarrow> ledger option \<Rightarrow> reservation_decision \<times> trade_signal \<times> ledger option" where
  "reserve_buy_cash_for_cycle uuid signal led =
     (let amount = opt_or (sig_price signal) 0 * of_int (opt_or (sig_quantity signal) 0)
      in case led of
        None \<Rightarrow>
          (\<lparr>rd_approved = True, rd_symbol = normalize_krx_symbol (sig_symbol signal),
            rd_requested_amount = amount, rd_reserved_amount = 0, rd_available_cash = 0,
            rd_reservation_id = None, rd_reason = No_Ledger\<rparr>, signal, None)
      | Some l \<Rightarrow>
          (let (decision, l') = reserve uuid (sig_symbol signal) amount (opt_or (sig_quantity signal) 0) l
           in if \<not> rd_approved decision then (decision, signal, Some l')
              else (decision,
                    signal\<lparr>sig_reservation_id := rd_reservation_id decision,
                           sig_reserved_amount := rd_reserved_amount decision\<rparr>, Some l')))"

definition apply_buy_execution_policy :: "settings \<Rightarrow> trade_signal \<Rightarrow> real \<Rightarrow> trade_signal" where
  "apply_buy_execution_policy cfg signal current_price =
     (let mode = upper (str_or (BUY_ORDER_EXECUTION_MODE cfg) ''LIMIT_GUARD'')
      in if mode = ''MARKET'' then signal\<lparr>sig_price := None\<rparr>
         else if 0 < opt_or (sig_price signal) 0 then signal
         else if current_price \<le> 0 then signal\<lparr>sig_price := None\<rparr>
         else let bps = max (BUY_SLIPPAGE_GUARD_BPS cfg) 0;
                  guarded_price = round_even (current_price * (1 + of_int bps / 10000))
              in signal\<lparr>sig_price := Some (of_int (max guarded_price 1))\<rparr>)"

section \<open>Lemmas on the dict of reservations\<close>

lemma active_amounts_simps [simp]:
  "active_amounts [] = []"
  "active_amounts ((k, r) # items) = (if res_active r then res_amount r # active_amounts items else active_amounts items)"
  by (simp_all add: active_amounts_def)

lemma active_sum_update_fresh:
  "k \<notin> fst ` set items \<Longrightarrow>
     sum_list (active_amounts (AList.update k r items)) =
       sum_list (active_amounts items) + (if res_active r then res_amount r else 0)"
  by (induction items) auto

lemma active_sum_update_known:
  "distinct (map fst items) \<Longrightarrow> map_of items k = Some r0 \<Longrightarrow>
     sum_list (active_amounts (AList.update k r items)) =
       sum_list (active_amounts items) - (if res_active r0 then res_amount r0 else 0)
         + (if res_active r then res_amount r else 0)"
  by (induction items) (auto simp: map_of_eq_None_iff [symmetric] update_nonempty split: if_splits)

text \<open>A ledger the program can build: unique keys, positive amounts, no overdraft.\<close>

definition ledger_ok :: "ledger \<Rightarrow> bool" where
  "ledger_ok l \<longleftrightarrow> distinct (map fst (led_reservations l)) \<and> [] \<notin> fst ` set (led_reservations l) \<and>
     list_all (\<lambda>(k, r). 0 < res_amount r) (led_reservations l) \<and> reserved_cash l \<le> led_starting_cash l"

lemma ledger_ok_new: "ledger_ok (new_ledger c)"
  by (simp add: ledger_ok_def new_ledger_def reserved_cash_def)

lemma ledger_available: "ledger_ok l \<Longrightarrow> available_cash l = led_starting_cash l - reserved_cash l"
  by (simp add: ledger_ok_def available_cash_def)

lemma reserve_approved_iff:
  "rd_approved (fst (reserve uuid symbol amount quantity l)) \<longleftrightarrow>
     0 < amount \<and> 0 < quantity \<and> amount \<le> available_cash l"
  by (auto simp: reserve_def Let_def num_or_def max_def)

lemma reserve_refused: "\<not> rd_approved (fst (reserve uuid symbol amount quantity l)) \<Longrightarrow>
    snd (reserve uuid symbol amount quantity l) = l"
  by (auto simp: reserve_def Let_def split: if_splits)

lemma reserve_granted:
  "rd_approved (fst (reserve uuid symbol amount quantity l)) \<Longrightarrow>
     snd (reserve uuid symbol amount quantity l) =
       l\<lparr>led_reservations := AList.update uuid
          \<lparr>res_id = uuid, res_symbol = normalize_krx_symbol symbol, res_amount = amount,
           res_quantity = quantity, res_active = True\<rparr> (led_reservations l)\<rparr>"
  by (auto simp: reserve_def Let_def num_or_def max_def split: if_splits)

section \<open>The ledger keeps the cash ledger contract\<close>

record reserve_request =
  rq_uuid :: string
  rq_symbol :: string
  rq_amount :: real
  rq_quantity :: int

definition reserve_req :: "reserve_request \<Rightarrow> ledger \<Rightarrow> bool \<times> ledger" where
  "reserve_req q l =
     (rd_approved (fst (reserve (rq_uuid q) (rq_symbol q) (rq_amount q) (rq_quantity q) l)),
      snd (reserve (rq_uuid q) (rq_symbol q) (rq_amount q) (rq_quantity q) l))"

definition release_id :: "string \<Rightarrow> ledger \<Rightarrow> bool \<times> ledger" where
  "release_id i l = release (Some i) l"

definition active_of :: "ledger \<Rightarrow> string \<Rightarrow> real option" where
  "active_of l i = (case map_of (led_reservations l) i of None \<Rightarrow> None
     | Some r \<Rightarrow> if res_active r then Some (res_amount r) else None)"

definition known_ids :: "ledger \<Rightarrow> string set" where
  "known_ids l = insert [] (fst ` set (led_reservations l))"

lemma active_of_release:
  assumes "ledger_ok l" and "active_of l i = Some a"
  obtains r where "map_of (led_reservations l) i = Some r" and "res_active r" and "res_amount r = a"
    and "i \<noteq> []" and "0 < a"
    and "release (Some i) l = (True, l\<lparr>led_reservations :=
           AList.update i (r\<lparr>res_active := False\<rparr>) (led_reservations l)\<rparr>)"
proof -
  from assms(2) obtain r where r: "map_of (led_reservations l) i = Some r" "res_active r" "res_amount r = a"
    by (auto simp: active_of_def split: option.splits if_splits)
  then have mem: "(i, r) \<in> set (led_reservations l)" by (simp add: map_of_SomeD)
  with assms(1) have "i \<noteq> []" and "0 < res_amount r"
    by (force simp: ledger_ok_def list_all_iff)+
  with r that show thesis by (simp add: release_def)
qed

lemma active_sum_release:
  assumes "ledger_ok l" and "map_of (led_reservations l) i = Some r" and "res_active r"
  shows "reserved_cash (l\<lparr>led_reservations := AList.update i (r\<lparr>res_active := False\<rparr>) (led_reservations l)\<rparr>)
           = reserved_cash l - res_amount r"
  using assms by (simp add: reserved_cash_def ledger_ok_def active_sum_update_known)

lemma list_all_update:
  "list_all P items \<Longrightarrow> P (k, v) \<Longrightarrow> list_all P (AList.update k v items)"
  by (induction items) auto

lemma ledger_ok_reserve:
  assumes "ledger_ok l" and "uuid \<notin> known_ids l"
  shows "ledger_ok (snd (reserve uuid symbol amount quantity l))"
proof (cases "rd_approved (fst (reserve uuid symbol amount quantity l))")
  case True
  with assms show ?thesis
    by (auto simp: reserve_granted ledger_ok_def known_ids_def reserved_cash_def distinct_update
        dom_update active_sum_update_fresh reserve_approved_iff ledger_available list_all_update
        available_cash_def)
next
  case False
  with assms show ?thesis by (simp add: reserve_refused)
qed

lemma ledger_ok_release:
  assumes "ledger_ok l"
  shows "ledger_ok (snd (release i l))"
proof (cases "fst (release i l)")
  case True
  then obtain r where r: "map_of (led_reservations l) (ostr i) = Some r" "res_active r"
    and eq: "snd (release i l) = l\<lparr>led_reservations :=
           AList.update (ostr i) (r\<lparr>res_active := False\<rparr>) (led_reservations l)\<rparr>" and "ostr i \<noteq> []"
    by (auto simp: release_def split: if_splits option.splits)
  have "0 < res_amount r"
    using assms map_of_SomeD [OF r(1)] by (force simp: ledger_ok_def list_all_iff)
  with assms r \<open>ostr i \<noteq> []\<close> show ?thesis
    unfolding eq by (auto simp: ledger_ok_def active_sum_release [OF assms r] distinct_update dom_update
        list_all_update)
next
  case False
  with assms show ?thesis by (auto simp: release_def split: if_splits option.splits)
qed

interpretation orl: cash_ledger reserve_req release_id "rq_uuid :: reserve_request \<Rightarrow> string"
  "rq_amount :: reserve_request \<Rightarrow> real" "\<lambda>q :: reserve_request. 0 < rq_amount q \<and> 0 < rq_quantity q" active_of known_ids available_cash ledger_ok
proof unfold_locales
  fix l :: ledger show "0 \<le> available_cash l" by (simp add: available_cash_def)
next
  fix q :: reserve_request and l :: ledger show "fst (reserve_req q l) \<longleftrightarrow> (0 < rq_amount q \<and> 0 < rq_quantity q) \<and> rq_amount q \<le> available_cash l"
    by (simp add: reserve_req_def reserve_approved_iff)
next
  fix q :: reserve_request and l :: ledger assume "\<not> fst (reserve_req q l)"
  then show "snd (reserve_req q l) = l" by (simp add: reserve_req_def reserve_refused)
next
  fix l :: ledger and q :: reserve_request assume "ledger_ok l" "rq_uuid q \<notin> known_ids l" "fst (reserve_req q l)"
  then show "available_cash (snd (reserve_req q l)) = available_cash l - rq_amount q"
    by (auto simp: reserve_req_def reserve_granted ledger_available known_ids_def available_cash_def
        reserved_cash_def active_sum_update_fresh reserve_approved_iff)
next
  fix l :: ledger and q :: reserve_request assume "ledger_ok l" "rq_uuid q \<notin> known_ids l" "fst (reserve_req q l)"
  then show "active_of (snd (reserve_req q l)) = (active_of l)(rq_uuid q \<mapsto> rq_amount q)"
    by (auto simp: reserve_req_def reserve_granted active_of_def update_conv fun_eq_iff)
next
  fix q :: reserve_request and l :: ledger assume "fst (reserve_req q l)"
  then show "known_ids (snd (reserve_req q l)) = insert (rq_uuid q) (known_ids l)"
    by (auto simp: reserve_req_def reserve_granted known_ids_def dom_update)
next
  fix l :: ledger and q :: reserve_request assume "ledger_ok l" "rq_uuid q \<notin> known_ids l"
  then show "ledger_ok (snd (reserve_req q l))" by (simp add: reserve_req_def ledger_ok_reserve)
next
  fix l :: ledger and i :: string assume "ledger_ok l"
  then show "fst (release_id i l) \<longleftrightarrow> active_of l i \<noteq> None"
    by (auto simp: release_id_def release_def active_of_def ledger_ok_def dest: map_of_SomeD
        split: option.splits) (force dest: map_of_SomeD)+
next
  fix i :: string and l :: ledger assume "\<not> fst (release_id i l)"
  then show "snd (release_id i l) = l"
    by (auto simp: release_id_def release_def split: if_splits option.splits)
next
  fix l :: ledger and i :: string and a assume ok: "ledger_ok l" and act: "active_of l i = Some a"
  obtain r where r: "map_of (led_reservations l) i = Some r" "res_active r" "res_amount r = a"
    and rel: "release (Some i) l = (True, l\<lparr>led_reservations :=
           AList.update i (r\<lparr>res_active := False\<rparr>) (led_reservations l)\<rparr>)"
    using active_of_release [OF ok act] .
  have "ledger_ok (snd (release (Some i) l))" using ok by (rule ledger_ok_release)
  then show "available_cash (snd (release_id i l)) = available_cash l + a"
    using ok r by (simp add: release_id_def rel ledger_available active_sum_release)
next
  fix l :: ledger and i :: string and a assume "ledger_ok l" "active_of l i = Some a"
  then show "active_of (snd (release_id i l)) = (active_of l)(i := None)"
    by (elim active_of_release) (auto simp: release_id_def active_of_def update_conv fun_eq_iff)
next
  fix l :: ledger and i :: string assume "ledger_ok l"
  then show "ledger_ok (snd (release_id i l))" by (simp add: release_id_def ledger_ok_release)
qed

section \<open>Runs of the ledger\<close>

text \<open>What one cycle does to its ledger: reservations and releases, in any order.\<close>

datatype ledger_op = Reserve_op reserve_request | Release_op "string option"

fun ledger_step :: "ledger_op \<Rightarrow> ledger \<Rightarrow> ledger" where
  "ledger_step (Reserve_op q) l = snd (reserve_req q l)"
| "ledger_step (Release_op i) l = snd (release i l)"

fun op_uuids :: "ledger_op list \<Rightarrow> string list" where
  "op_uuids [] = []"
| "op_uuids (Reserve_op q # ops) = rq_uuid q # op_uuids ops"
| "op_uuids (Release_op i # ops) = op_uuids ops"

lemma known_ids_release: "known_ids (snd (release i l)) = known_ids l"
  by (auto simp: release_def known_ids_def dom_update dest: map_of_SomeD split: if_splits option.splits)
    (force dest: map_of_SomeD)+

lemma known_ids_reserve: "known_ids (snd (reserve_req q l)) \<subseteq> insert (rq_uuid q) (known_ids l)"
  by (cases "fst (reserve_req q l)") (auto simp: orl.reserve_known orl.reserve_no)

lemma starting_cash_step: "led_starting_cash (ledger_step op l) = led_starting_cash l"
  by (cases op) (auto simp: reserve_req_def reserve_def release_def Let_def split: if_splits option.splits)

lemma starting_cash_run: "led_starting_cash (fold ledger_step ops l) = led_starting_cash l"
  by (induction ops arbitrary: l) (simp_all add: starting_cash_step)

lemma ledger_ok_run:
  "ledger_ok l \<Longrightarrow> distinct (op_uuids ops) \<Longrightarrow> set (op_uuids ops) \<inter> known_ids l = {} \<Longrightarrow>
     ledger_ok (fold ledger_step ops l)"
proof (induction ops arbitrary: l)
  case Nil
  then show ?case by simp
next
  case (Cons op ops)
  show ?case
  proof (cases op)
    case (Reserve_op q)
    with Cons.prems known_ids_reserve [of q l] show ?thesis
      by (auto intro!: Cons.IH orl.reserve_invar)
  next
    case (Release_op i)
    with Cons.prems show ?thesis by (auto intro!: Cons.IH ledger_ok_release simp: known_ids_release)
  qed
qed

section \<open>Properties\<close>

definition sample_buy :: trade_signal where
  "sample_buy = \<lparr>sig_symbol = ''005930'', sig_stock_id = ''S1'', sig_action = BUY, sig_strength = 8 / 10,
     sig_price = Some 70000, sig_quantity = Some 10, sig_target = Some 75000, sig_stop = Some 68000,
     sig_urgency = IMMEDIATE, sig_strategy = ''STABLE_SHORT'', sig_confidence = 8 / 10,
     sig_market = None, sig_horizon = None, sig_reservation_id = None, sig_reserved_amount = 0\<rparr>"

text \<open>
  C35: whatever reservations and releases one trading cycle makes, and in whatever order, the cash
  held by its active reservations never exceeds the cash the ledger started with, and the cash it
  still offers is exactly the rest.
\<close>

theorem cycle_reservations_within_cash:
  assumes "distinct (op_uuids ops)" and "[] \<notin> set (op_uuids ops)"
  shows "reserved_cash (fold ledger_step ops (new_ledger c)) \<le> max c 0 \<and>
    available_cash (fold ledger_step ops (new_ledger c)) =
      max c 0 - reserved_cash (fold ledger_step ops (new_ledger c))"
proof -
  have "set (op_uuids ops) \<inter> known_ids (new_ledger c) = {}"
    using assms(2) by (simp add: known_ids_def new_ledger_def)
  with assms(1) have ok: "ledger_ok (fold ledger_step ops (new_ledger c))"
    by (intro ledger_ok_run ledger_ok_new)
  have "led_starting_cash (fold ledger_step ops (new_ledger c)) = max c 0"
    unfolding starting_cash_run by (simp add: new_ledger_def num_or_def)
  with ok show ?thesis by (simp add: ledger_available) (simp add: ledger_ok_def)
qed

definition sample_request :: "string \<Rightarrow> real \<Rightarrow> reserve_request" where
  "sample_request uuid amount = \<lparr>rq_uuid = uuid, rq_symbol = ''A005930'', rq_amount = amount, rq_quantity = 10\<rparr>"

lemma cycle_reservations_within_cash_witness:
  "reserved_cash (fold ledger_step [Reserve_op (sample_request ''u1'' 700), Reserve_op (sample_request ''u2'' 500),
      Release_op (Some ''u1''), Reserve_op (sample_request ''u3'' 500)] (new_ledger 1000)) \<le> max 1000 0"
  by (rule cycle_reservations_within_cash [THEN conjunct1]) (simp_all add: sample_request_def)

text \<open>
  Releasing the reservation a buy order holds gives exactly its amount back to the cycle, and a
  second release of the same identifier is refused and changes nothing.
\<close>

lemma release_restores_cash:
  assumes "ledger_ok l" and "rq_uuid q \<notin> known_ids l" and "fst (reserve_req q l)"
  shows "available_cash (snd (release_id (rq_uuid q) (snd (reserve_req q l)))) = available_cash l \<and>
    \<not> fst (release_id (rq_uuid q) (snd (release_id (rq_uuid q) (snd (reserve_req q l)))))"
  using orl.free_restores [OF assms] by (rule conjI)

lemma release_restores_cash_witness:
  "available_cash (snd (release_id (rq_uuid (sample_request ''u1'' 700))
      (snd (reserve_req (sample_request ''u1'' 700) (new_ledger 1000))))) = available_cash (new_ledger 1000)"
  by (rule release_restores_cash [THEN conjunct1])
    (simp_all only: ledger_ok_new,
     simp_all add: sample_request_def reserve_req_def reserve_approved_iff known_ids_def
      new_ledger_def available_cash_def reserved_cash_def)

text \<open>
  In the market execution mode the order price is dropped before the cash is reserved, so the
  reservation of every market buy asks for nothing, is refused and leaves the ledger as it was.
\<close>

lemma market_buy_never_reserves:
  assumes "upper (str_or (BUY_ORDER_EXECUTION_MODE cfg) ''LIMIT_GUARD'') = ''MARKET''"
  shows "\<not> rd_approved (fst (reserve_buy_cash_for_cycle uuid (apply_buy_execution_policy cfg signal price) (Some l))) \<and>
    snd (snd (reserve_buy_cash_for_cycle uuid (apply_buy_execution_policy cfg signal price) (Some l))) = Some l"
  using assms by (auto simp: reserve_buy_cash_for_cycle_def apply_buy_execution_policy_def Let_def
      reserve_approved_iff reserve_refused split: prod.splits)
    (auto simp: reserve_def Let_def)

lemma market_buy_never_reserves_witness:
  "\<not> rd_approved (fst (reserve_buy_cash_for_cycle ''u1''
     (apply_buy_execution_policy (default_settings\<lparr>BUY_ORDER_EXECUTION_MODE := ''MARKET''\<rparr>) sample_buy 70000)
     (Some (new_ledger 1000000))))"
  by (rule market_buy_never_reserves [THEN conjunct1]) (simp add: default_settings_def str_or_def upper_char_def)

end
