(* ===== verification/Trade_Store.thy ===== *)
theory Trade_Store
  imports Trading_Types "HOL-Library.Option_ord"
begin

text \<open>
  The \<open>trade_results\<close> table (\<open>models/trade_result.py\<close>) and the queries of
  \<open>repositories/trade_result_repository.py\<close>. A table is its rows in insertion order with the next
  fresh row number; a session works on a copy of the table that becomes the new table when its
  transaction commits. A \<open>DateTime\<close> column of SQLite stores the wall clock only, so a commit
  strips the time zone of every stored value. An \<open>ORDER BY\<close> is a stable sort, \<open>NULL\<close> first.
\<close>

section \<open>Instants are ordered by their wall clock\<close>

instantiation pydt :: linorder
begin

definition less_eq_pydt :: "pydt \<Rightarrow> pydt \<Rightarrow> bool" where
  "less_eq_pydt a b \<longleftrightarrow> wall a < wall b \<or> wall a = wall b \<and> (aware a \<longrightarrow> aware b)"

definition less_pydt :: "pydt \<Rightarrow> pydt \<Rightarrow> bool" where
  "less_pydt a b \<longleftrightarrow> wall a < wall b \<or> wall a = wall b \<and> \<not> aware a \<and> aware b"

instance
  by standard (auto simp: less_eq_pydt_def less_pydt_def intro: pydt.expand)

end

lemma naive_le: "\<not> aware a \<Longrightarrow> a \<le> b \<longleftrightarrow> wall a \<le> wall b"
  by (auto simp: less_eq_pydt_def)

section \<open>Rows\<close>

text \<open>
  The \<open>notes\<close> column: the JSON objects the program writes there are kept as constructors, any
  other text as \<open>Note_text\<close>.
\<close>

datatype trade_note =
  Note_waiting
| Note_context bool "(string \<times> string) list"
| Note_partial_exit (np_filled: int) (np_requested: int) (np_remaining: int) (np_lots: int)
| Note_failed string
| Note_backfill int int
| Note_text string

record trade_result =
  tr_id :: nat
  tr_order_id :: "string option"
  tr_symbol :: string
  tr_name :: string
  tr_side :: string
  tr_strategy :: string
  tr_entry_price :: real
  tr_exit_price :: real
  tr_quantity :: int
  tr_pnl :: real
  tr_return_pct :: real
  tr_is_win :: bool
  tr_hold_days :: int
  tr_exit_reason :: string
  tr_ai_recommendation :: string
  tr_ai_confidence :: real
  tr_ai_target :: "real option"
  tr_ai_stop :: "real option"
  tr_entry_rsi :: "real option"
  tr_entry_macd_hist :: "real option"
  tr_entry_bb_position :: "string option"
  tr_entry_pattern :: "string option"
  tr_market :: string
  tr_market_regime :: string
  tr_notes :: "trade_note option"
  tr_status :: order_confirm_status
  tr_entry_at :: "pydt option"
  tr_exit_at :: "pydt option"
  tr_created_at :: pydt

text \<open>The column defaults; \<open>created_at\<close> is the clock at the insertion.\<close>

definition default_trade :: "pydt \<Rightarrow> trade_result" where
  "default_trade now = \<lparr>tr_id = 0, tr_order_id = None, tr_symbol = [], tr_name = [], tr_side = [],
     tr_strategy = [], tr_entry_price = 0, tr_exit_price = 0, tr_quantity = 0, tr_pnl = 0,
     tr_return_pct = 0, tr_is_win = False, tr_hold_days = 0, tr_exit_reason = [],
     tr_ai_recommendation = [], tr_ai_confidence = 0, tr_ai_target = None, tr_ai_stop = None,
     tr_entry_rsi = None, tr_entry_macd_hist = None, tr_entry_bb_position = None,
     tr_entry_pattern = None, tr_market = ''KRX'', tr_market_regime = [], tr_notes = None, tr_status = CONFIRMED,
     tr_entry_at = None, tr_exit_at = None, tr_created_at = now\<rparr>"

section \<open>The table\<close>

record db =
  db_rows :: "trade_result list"
  db_seq :: nat

definition empty_db :: db where "empty_db = \<lparr>db_rows = [], db_seq = 1\<rparr>"

text \<open>\<open>session.add\<close> and the flush: a duplicate order id violates the unique index.\<close>

definition db_insert :: "trade_result \<Rightarrow> db \<Rightarrow> (nat \<times> db) res" where
  "db_insert r s =
     (if tr_order_id r \<noteq> None \<and> tr_order_id r \<in> tr_order_id ` set (db_rows s)
      then Inl (Exn IntegrityError ''UNIQUE constraint failed: trade_results.order_id'')
      else Inr (db_seq s, \<lparr>db_rows = db_rows s @ [r\<lparr>tr_id := db_seq s\<rparr>], db_seq = Suc (db_seq s)\<rparr>))"

text \<open>Assigning attributes of a loaded row.\<close>

definition db_modify :: "nat \<Rightarrow> (trade_result \<Rightarrow> trade_result) \<Rightarrow> db \<Rightarrow> db" where
  "db_modify i f s = s\<lparr>db_rows := map (\<lambda>r. if tr_id r = i then f r else r) (db_rows s)\<rparr>"

definition stored_row :: "trade_result \<Rightarrow> trade_result" where
  "stored_row r = r\<lparr>tr_entry_at := map_option strip_tz (tr_entry_at r),
     tr_exit_at := map_option strip_tz (tr_exit_at r), tr_created_at := strip_tz (tr_created_at r)\<rparr>"

definition db_commit :: "db \<Rightarrow> db" where
  "db_commit s = s\<lparr>db_rows := map stored_row (db_rows s)\<rparr>"

text \<open>\<open>async with session.begin()\<close>: commit on success; on an exception roll back and re-raise.\<close>

definition transaction :: "(db \<Rightarrow> ('a \<times> db) res) \<Rightarrow> db \<Rightarrow> 'a res \<times> db" where
  "transaction body s = (case body s of Inl e \<Rightarrow> (Inl e, s) | Inr (a, s') \<Rightarrow> (Inr a, db_commit s'))"

section \<open>The repository\<close>

definition newest_first :: "trade_result list \<Rightarrow> trade_result list" where
  "newest_first = sort_key (\<lambda>r. - wall (tr_created_at r))"

definition get_by_symbol :: "string \<Rightarrow> nat \<Rightarrow> db \<Rightarrow> trade_result list" where
  "get_by_symbol symbol limit s =
     take limit (newest_first (filter (\<lambda>r. tr_symbol r = symbol) (db_rows s)))"

definition get_by_strategy :: "string \<Rightarrow> nat \<Rightarrow> db \<Rightarrow> trade_result list" where
  "get_by_strategy strategy_type limit s =
     take limit (newest_first (filter (\<lambda>r. tr_strategy r = strategy_type) (db_rows s)))"

definition get_recent :: "nat \<Rightarrow> db \<Rightarrow> trade_result list" where
  "get_recent limit s = take limit (newest_first (db_rows s))"

definition is_open_buy :: "trade_result \<Rightarrow> bool" where
  "is_open_buy r \<longleftrightarrow> tr_side r = ''BUY'' \<and> tr_exit_at r = None \<and> tr_status r = CONFIRMED"

definition first_of :: "'a list \<Rightarrow> 'a option" where
  "first_of xs = (case xs of [] \<Rightarrow> None | x # _ \<Rightarrow> Some x)"

definition get_open_buy :: "string \<Rightarrow> db \<Rightarrow> trade_result option" where
  "get_open_buy symbol s =
     first_of (newest_first (filter (\<lambda>r. tr_symbol r = symbol \<and> is_open_buy r) (db_rows s)))"

definition get_all_open_buys :: "string \<Rightarrow> db \<Rightarrow> trade_result list" where
  "get_all_open_buys symbol s =
     sort_key tr_entry_at (filter (\<lambda>r. tr_symbol r = symbol \<and> is_open_buy r) (db_rows s))"

text \<open>
  The bounds \<open>datetime.combine(target_date, time.min/time.max)\<close>: a value of the column lies
  between them iff its wall clock falls on that day; \<open>NULL\<close> never does.
\<close>

definition on_day :: "int \<Rightarrow> pydt option \<Rightarrow> bool" where
  "on_day target_date t = (case t of None \<Rightarrow> False | Some d \<Rightarrow>
     target_date * day_us \<le> wall d \<and> wall d \<le> target_date * day_us + day_us - 1)"

definition get_completed_by_date :: "int \<Rightarrow> db \<Rightarrow> trade_result list" where
  "get_completed_by_date target_date s =
     sort_key tr_exit_at (filter (\<lambda>r. tr_side r = ''BUY'' \<and> tr_exit_at r \<noteq> None \<and>
       on_day target_date (tr_exit_at r) \<and> tr_status r = CONFIRMED) (db_rows s))"

definition get_sell_executions_by_date :: "int \<Rightarrow> db \<Rightarrow> trade_result list" where
  "get_sell_executions_by_date target_date s =
     sort_key tr_exit_at (filter (\<lambda>r. tr_side r = ''SELL'' \<and> tr_exit_at r \<noteq> None \<and>
       on_day target_date (tr_exit_at r) \<and> tr_status r = CONFIRMED) (db_rows s))"

definition get_sell_count_by_date :: "int \<Rightarrow> db \<Rightarrow> nat" where
  "get_sell_count_by_date target_date s =
     length (filter (\<lambda>r. tr_side r = ''SELL'' \<and> tr_exit_at r \<noteq> None \<and>
       on_day target_date (tr_exit_at r) \<and> tr_status r = CONFIRMED) (db_rows s))"

definition get_opened_by_date :: "int \<Rightarrow> db \<Rightarrow> trade_result list" where
  "get_opened_by_date target_date s =
     sort_key tr_entry_at (filter (\<lambda>r. tr_side r = ''BUY'' \<and> on_day target_date (tr_entry_at r) \<and>
       tr_status r = CONFIRMED) (db_rows s))"

definition get_pending_confirms_by_date :: "int \<Rightarrow> db \<Rightarrow> trade_result list" where
  "get_pending_confirms_by_date target_date s =
     sort_key tr_entry_at (filter (\<lambda>r. tr_side r = ''BUY'' \<and> on_day target_date (tr_entry_at r) \<and>
       tr_status r = PENDING_CONFIRM) (db_rows s))"

definition get_all_open :: "db \<Rightarrow> trade_result list" where
  "get_all_open s = newest_first (filter is_open_buy (db_rows s))"

definition get_by_order_id :: "string \<Rightarrow> db \<Rightarrow> trade_result option" where
  "get_by_order_id order_id s =
     (if order_id = [] then None
      else first_of (filter (\<lambda>r. tr_order_id r = Some order_id) (db_rows s)))"

definition get_by_id :: "nat \<Rightarrow> db \<Rightarrow> trade_result option" where
  "get_by_id i s = first_of (filter (\<lambda>r. tr_id r = i) (db_rows s))"

definition get_pending_confirms :: "db \<Rightarrow> trade_result list" where
  "get_pending_confirms s =
     sort_key tr_created_at (filter (\<lambda>r. tr_status r = PENDING_CONFIRM) (db_rows s))"

definition get_confirmed_open_buys_with_zero_entry_price :: "db \<Rightarrow> trade_result list" where
  "get_confirmed_open_buys_with_zero_entry_price s =
     sort_key (\<lambda>r. tr_entry_at r) (sort_key tr_created_at
       (filter (\<lambda>r. is_open_buy r \<and> tr_entry_price r \<le> 0) (db_rows s)))"

section \<open>Lemmas\<close>

lemma first_of_simps [simp]: "first_of [] = None" "first_of (x # xs) = Some x"
  by (simp_all add: first_of_def)

lemma first_of_filter: "first_of (filter P xs) = find P xs"
  by (induction xs) simp_all

lemma stored_row_simps [simp]:
  "tr_id (stored_row r) = tr_id r" "tr_order_id (stored_row r) = tr_order_id r"
  "tr_symbol (stored_row r) = tr_symbol r" "tr_side (stored_row r) = tr_side r"
  "tr_quantity (stored_row r) = tr_quantity r" "tr_status (stored_row r) = tr_status r"
  "tr_entry_price (stored_row r) = tr_entry_price r" "tr_exit_price (stored_row r) = tr_exit_price r"
  "tr_pnl (stored_row r) = tr_pnl r" "tr_notes (stored_row r) = tr_notes r"
  "tr_exit_reason (stored_row r) = tr_exit_reason r"
  "tr_entry_at (stored_row r) = map_option strip_tz (tr_entry_at r)"
  "tr_exit_at (stored_row r) = map_option strip_tz (tr_exit_at r)"
  "is_open_buy (stored_row r) = is_open_buy r"
  by (simp_all add: stored_row_def is_open_buy_def)

text \<open>Every row the program loads is naive: the fact behind the mixed subtraction.\<close>

definition row_naive :: "trade_result \<Rightarrow> bool" where
  "row_naive r \<longleftrightarrow> (case tr_entry_at r of None \<Rightarrow> True | Some d \<Rightarrow> \<not> aware d) \<and>
     (case tr_exit_at r of None \<Rightarrow> True | Some d \<Rightarrow> \<not> aware d) \<and> \<not> aware (tr_created_at r)"

lemma stored_row_naive: "row_naive (stored_row r)"
  by (simp add: row_naive_def stored_row_def split: option.splits)

lemma stored_row_of_naive: "row_naive r \<Longrightarrow> stored_row r = r"
  by (cases r) (auto simp: row_naive_def stored_row_def strip_tz_def split: option.splits intro: pydt.expand)

text \<open>The invariant of the table: row numbers below the counter and unique, order ids unique, all naive.\<close>

definition ids_ok :: "db \<Rightarrow> bool" where
  "ids_ok s \<longleftrightarrow> distinct (map tr_id (db_rows s)) \<and> (\<forall>r \<in> set (db_rows s). tr_id r < db_seq s)"

definition orders_ok :: "db \<Rightarrow> bool" where
  "orders_ok s \<longleftrightarrow> distinct (filter (\<lambda>i. i \<noteq> None) (map tr_order_id (db_rows s)))"

definition session_ok :: "db \<Rightarrow> bool" where
  "session_ok s \<longleftrightarrow> ids_ok s \<and> orders_ok s"

definition db_ok :: "db \<Rightarrow> bool" where
  "db_ok s \<longleftrightarrow> session_ok s \<and> list_all row_naive (db_rows s)"

lemma empty_db_ok: "db_ok empty_db"
  by (simp add: db_ok_def session_ok_def ids_ok_def orders_ok_def empty_db_def)

lemma session_ok_insert:
  "session_ok s \<Longrightarrow> db_insert r s = Inr (i, s') \<Longrightarrow> session_ok s'"
  by (fastforce simp: db_insert_def session_ok_def ids_ok_def orders_ok_def less_Suc_eq split: if_splits)

lemma session_ok_modify:
  assumes "session_ok s" and "\<And>r. tr_id (f r) = tr_id r" and "\<And>r. tr_order_id (f r) = tr_order_id r"
  shows "session_ok (db_modify i f s)"
proof -
  have "map tr_id (db_rows (db_modify i f s)) = map tr_id (db_rows s)"
    and "map tr_order_id (db_rows (db_modify i f s)) = map tr_order_id (db_rows s)"
    using assms by (auto simp: db_modify_def)
  moreover from assms have "\<forall>r \<in> set (db_rows (db_modify i f s)). tr_id r < db_seq (db_modify i f s)"
    by (auto simp: db_modify_def session_ok_def ids_ok_def)
  ultimately show ?thesis using assms(1)
    by (simp add: session_ok_def ids_ok_def orders_ok_def)
qed

lemma session_ok_commit: "session_ok s \<Longrightarrow> db_ok (db_commit s)"
  by (simp add: db_ok_def session_ok_def ids_ok_def orders_ok_def db_commit_def comp_def list_all_iff
      stored_row_naive)

lemma db_ok_session: "db_ok s \<Longrightarrow> session_ok s"
  by (simp add: db_ok_def)

text \<open>A transaction keeps the table's invariant if its body keeps the session's.\<close>

lemma transaction_ok:
  assumes "db_ok s" and "\<And>a s'. body s = Inr (a, s') \<Longrightarrow> session_ok s'"
  shows "db_ok (snd (transaction body s))"
  using assms by (auto simp: transaction_def intro!: session_ok_commit split: sum.splits)

lemma transaction_rollback: "body s = Inl e \<Longrightarrow> transaction body s = (Inl e, s)"
  by (simp add: transaction_def)

lemma mem_get_all_open_buys:
  "r \<in> set (get_all_open_buys symbol s) \<longleftrightarrow> r \<in> set (db_rows s) \<and> tr_symbol r = symbol \<and> is_open_buy r"
  by (auto simp: get_all_open_buys_def)

lemma mset_get_all_open_buys:
  "mset (get_all_open_buys symbol s) =
     filter_mset (\<lambda>r. tr_symbol r = symbol \<and> is_open_buy r) (mset (db_rows s))"
  by (simp add: get_all_open_buys_def)

lemma mem_pending_confirms:
  "r \<in> set (get_pending_confirms s) \<longleftrightarrow> r \<in> set (db_rows s) \<and> tr_status r = PENDING_CONFIRM"
  by (auto simp: get_pending_confirms_def)

lemma on_day_iff: "on_day target_date (Some d) \<longleftrightarrow> dt_date d = target_date"
proof
  assume "on_day target_date (Some d)"
  then have "target_date * day_us \<le> wall d" "wall d < target_date * day_us + day_us"
    by (auto simp: on_day_def)
  then show "dt_date d = target_date" unfolding dt_date_def day_us_def by linarith
next
  assume "dt_date d = target_date"
  then show "on_day target_date (Some d)"
    unfolding dt_date_def day_us_def on_day_def option.case by linarith
qed

lemma get_by_id_Some: "get_by_id i s = Some r \<Longrightarrow> r \<in> set (db_rows s) \<and> tr_id r = i"
  by (auto simp: get_by_id_def first_of_filter find_Some_iff)

lemma get_by_id_None: "get_by_id i s = None \<longleftrightarrow> i \<notin> tr_id ` set (db_rows s)"
  by (auto simp: get_by_id_def first_of_filter find_None_iff)

lemma get_by_id_mem:
  assumes "ids_ok s" and "r \<in> set (db_rows s)"
  shows "get_by_id (tr_id r) s = Some r"
proof -
  from assms(2) obtain r' where r': "get_by_id (tr_id r) s = Some r'"
    using get_by_id_None [of "tr_id r" s] by (cases "get_by_id (tr_id r) s") auto
  then have "r' \<in> set (db_rows s)" "tr_id r' = tr_id r" by (auto dest: get_by_id_Some)
  with assms have "r' = r" by (auto simp: ids_ok_def distinct_map dest: inj_onD)
  with r' show ?thesis by simp
qed

lemma get_by_order_id_Some: "get_by_order_id oid s = Some r \<Longrightarrow> r \<in> set (db_rows s) \<and> tr_order_id r = Some oid"
  by (auto simp: get_by_order_id_def first_of_filter find_Some_iff split: if_splits)

lemma get_by_order_id_None:
  "get_by_order_id oid s = None \<longleftrightarrow> oid = [] \<or> Some oid \<notin> tr_order_id ` set (db_rows s)"
  by (auto simp: get_by_order_id_def first_of_filter find_None_iff image_iff)

end
