(* ===== verification/Sell_Fill.thy ===== *)
theory Sell_Fill
  imports Trade_Store
begin

text \<open>
  How a sell fill closes the open buy lots of a symbol: \<open>_apply_sell_fill_to_open_buys\<close> and its
  helpers in \<open>agent/decision_maker.py\<close>. The loop over the lots is a recursion that returns the
  lots as they are afterwards, the clones it adds to the session, and the accumulated figures.
  A lot whose \<open>entry_at\<close> cannot be subtracted from \<open>closed_at\<close> makes it raise.
\<close>

section \<open>Notes and the clone of a partly closed lot\<close>

definition build_sell_fill_notes :: "bool \<Rightarrow> int \<Rightarrow> int \<Rightarrow> int \<Rightarrow> int \<Rightarrow> trade_note option" where
  "build_sell_fill_notes partial_exit filled_quantity requested_quantity remaining_open closed_lots =
     (if \<not> partial_exit then None
      else Some (Note_partial_exit filled_quantity requested_quantity remaining_open closed_lots))"

definition build_partial_close_clone :: "pydt \<Rightarrow> string \<Rightarrow> int \<Rightarrow> trade_result \<Rightarrow> trade_result" where
  "build_partial_close_clone now symbol close_qty open_buy =
     \<lparr>tr_id = 0, tr_order_id = None,
       tr_symbol = str_or (tr_symbol open_buy) symbol, tr_name = str_or (tr_name open_buy) symbol,
       tr_side = ''BUY'', tr_strategy = tr_strategy open_buy, tr_entry_price = tr_entry_price open_buy,
       tr_exit_price = 0, tr_quantity = close_qty, tr_pnl = 0, tr_return_pct = 0, tr_is_win = False,
       tr_hold_days = 0, tr_exit_reason = [], tr_ai_recommendation = tr_ai_recommendation open_buy,
       tr_ai_confidence = tr_ai_confidence open_buy, tr_ai_target = tr_ai_target open_buy,
       tr_ai_stop = tr_ai_stop open_buy, tr_entry_rsi = tr_entry_rsi open_buy,
       tr_entry_macd_hist = tr_entry_macd_hist open_buy,
       tr_entry_bb_position = tr_entry_bb_position open_buy,
       tr_entry_pattern = tr_entry_pattern open_buy, tr_market = str_or (tr_market open_buy) ''KRX'',
       tr_market_regime = tr_market_regime open_buy, tr_notes = tr_notes open_buy,
       tr_status = tr_status open_buy, tr_entry_at = tr_entry_at open_buy, tr_exit_at = None,
       tr_created_at = now\<rparr>"

section \<open>The loop over the lots\<close>

record fill_acc =
  fa_remaining :: int
  fa_lots :: int
  fa_pnl :: real
  fa_return :: real
  fa_partial :: bool

record sell_fill =
  sf_applied :: int
  sf_lots :: int
  sf_remaining_open :: int
  sf_pnl :: real
  sf_return :: real
  sf_partial :: bool

definition hold_days_of :: "pydt \<Rightarrow> pydt option \<Rightarrow> int res" where
  "hold_days_of closed_at entry_at =
     (case entry_at of None \<Rightarrow> Inr 0 | Some e \<Rightarrow> rbind (dt_sub closed_at e) (\<lambda>us. Inr (td_days us)))"

definition lot_return_pct :: "real \<Rightarrow> real \<Rightarrow> real" where
  "lot_return_pct filled_price entry_price =
     (if entry_price > 0 then (filled_price - entry_price) / entry_price * 100 else 0)"

text \<open>The exit fields of the record that is closed (the lot itself or its clone).\<close>

definition close_record ::
  "real \<Rightarrow> string \<Rightarrow> pydt \<Rightarrow> int \<Rightarrow> real \<Rightarrow> int \<Rightarrow> trade_result \<Rightarrow> trade_result" where
  "close_record filled_price exit_reason closed_at close_qty entry_price days target =
     target\<lparr>tr_exit_price := filled_price, tr_pnl := (filled_price - entry_price) * of_int close_qty,
       tr_return_pct := py_round 2 (lot_return_pct filled_price entry_price),
       tr_is_win := 0 < (filled_price - entry_price) * of_int close_qty,
       tr_hold_days := days, tr_exit_reason := str_or exit_reason ''SIGNAL'',
       tr_exit_at := Some closed_at\<rparr>"

definition close_lot ::
  "pydt \<Rightarrow> string \<Rightarrow> real \<Rightarrow> string \<Rightarrow> pydt \<Rightarrow> int \<Rightarrow> trade_result \<Rightarrow> (trade_result \<times> trade_result list) res" where
  "close_lot now symbol filled_price exit_reason closed_at close_qty open_buy =
     rbind (hold_days_of closed_at (tr_entry_at open_buy)) (\<lambda>days.
       Inr (if close_qty < tr_quantity open_buy
            then (open_buy\<lparr>tr_quantity := tr_quantity open_buy - close_qty\<rparr>,
                  [close_record filled_price exit_reason closed_at close_qty (tr_entry_price open_buy) days
                     (build_partial_close_clone now symbol close_qty open_buy)])
            else (close_record filled_price exit_reason closed_at close_qty (tr_entry_price open_buy) days open_buy,
                  [])))"

definition acc_step :: "real \<Rightarrow> int \<Rightarrow> trade_result \<Rightarrow> fill_acc \<Rightarrow> fill_acc" where
  "acc_step filled_price close_qty open_buy acc =
     \<lparr>fa_remaining = fa_remaining acc - close_qty, fa_lots = fa_lots acc + 1,
      fa_pnl = fa_pnl acc + (filled_price - tr_entry_price open_buy) * of_int close_qty,
      fa_return = fa_return acc + py_round 2 (lot_return_pct filled_price (tr_entry_price open_buy)),
      fa_partial = (fa_partial acc \<or> close_qty < tr_quantity open_buy)\<rparr>"

fun close_lots ::
  "pydt \<Rightarrow> string \<Rightarrow> real \<Rightarrow> string \<Rightarrow> pydt \<Rightarrow> trade_result list \<Rightarrow> fill_acc \<Rightarrow>
     (trade_result list \<times> trade_result list \<times> fill_acc) res" where
  "close_lots now symbol price reason closed_at [] acc = Inr ([], [], acc)"
| "close_lots now symbol price reason closed_at (b # bs) acc =
     (if fa_remaining acc \<le> 0 then Inr (b # bs, [], acc)
      else if tr_quantity b \<le> 0 then
        rbind (close_lots now symbol price reason closed_at bs acc) (\<lambda>(bs', cs, acc'). Inr (b # bs', cs, acc'))
      else
        let close_qty = min (tr_quantity b) (fa_remaining acc)
        in rbind (close_lot now symbol price reason closed_at close_qty b) (\<lambda>(b', c).
             rbind (close_lots now symbol price reason closed_at bs (acc_step price close_qty b acc))
               (\<lambda>(bs', cs, acc'). Inr (b' # bs', c @ cs, acc'))))"

definition start_acc :: "int \<Rightarrow> fill_acc" where
  "start_acc filled_qty = \<lparr>fa_remaining = max filled_qty 0, fa_lots = 0, fa_pnl = 0, fa_return = 0, fa_partial = False\<rparr>"

definition open_quantity :: "trade_result list \<Rightarrow> int" where
  "open_quantity rows = sum_list (map tr_quantity (filter (\<lambda>r. tr_exit_at r = None) rows))"

definition apply_sell_fill_to_open_buys ::
  "pydt \<Rightarrow> string \<Rightarrow> int \<Rightarrow> real \<Rightarrow> string \<Rightarrow> pydt \<Rightarrow> trade_result list \<Rightarrow>
     (trade_result list \<times> trade_result list \<times> sell_fill) res" where
  "apply_sell_fill_to_open_buys now symbol filled_qty filled_price exit_reason closed_at open_buys =
     rbind (close_lots now symbol filled_price exit_reason closed_at open_buys (start_acc filled_qty))
       (\<lambda>(bs, cs, acc). Inr (bs, cs,
          \<lparr>sf_applied = max filled_qty 0 - max (fa_remaining acc) 0, sf_lots = fa_lots acc,
           sf_remaining_open = open_quantity bs, sf_pnl = fa_pnl acc, sf_return = fa_return acc,
           sf_partial = fa_partial acc\<rparr>))"

section \<open>The same inside a session\<close>

text \<open>The loaded lots are attached to the session, so what the loop assigns reaches the table.\<close>

definition db_put :: "trade_result \<Rightarrow> db \<Rightarrow> db" where
  "db_put r = db_modify (tr_id r) (\<lambda>_. r)"

fun db_insert_all :: "trade_result list \<Rightarrow> db \<Rightarrow> db res" where
  "db_insert_all [] s = Inr s"
| "db_insert_all (r # rs) s = rbind (db_insert r s) (\<lambda>(_, s'). db_insert_all rs s')"

definition session_sell_fill ::
  "pydt \<Rightarrow> string \<Rightarrow> int \<Rightarrow> real \<Rightarrow> string \<Rightarrow> pydt \<Rightarrow> db \<Rightarrow> (sell_fill \<times> db) res" where
  "session_sell_fill now symbol filled_qty filled_price exit_reason closed_at s =
     rbind (apply_sell_fill_to_open_buys now symbol filled_qty filled_price exit_reason closed_at
              (get_all_open_buys symbol s))
       (\<lambda>(bs, cs, sf). rbind (db_insert_all cs (fold db_put bs s)) (\<lambda>s'. Inr (sf, s')))"

section \<open>Lemmas\<close>

definition lots_fresh :: "trade_result list \<Rightarrow> bool" where
  "lots_fresh bs \<longleftrightarrow> list_all (\<lambda>b. tr_exit_at b = None \<and> 0 \<le> tr_quantity b) bs"

definition lots_quantity :: "trade_result list \<Rightarrow> int" where
  "lots_quantity bs = sum_list (map tr_quantity bs)"

definition closed_records :: "trade_result list \<Rightarrow> trade_result list \<Rightarrow> trade_result list" where
  "closed_records bs cs = filter (\<lambda>r. tr_exit_at r \<noteq> None) (bs @ cs)"

lemma lots_fresh_simps [simp]:
  "lots_fresh []" "lots_fresh (b # bs) \<longleftrightarrow> tr_exit_at b = None \<and> 0 \<le> tr_quantity b \<and> lots_fresh bs"
  by (auto simp: lots_fresh_def)

lemma lots_quantity_simps [simp]:
  "lots_quantity [] = 0" "lots_quantity (b # bs) = tr_quantity b + lots_quantity bs"
  by (simp_all add: lots_quantity_def)

lemma lots_quantity_nonneg: "lots_fresh bs \<Longrightarrow> 0 \<le> lots_quantity bs"
  by (induction bs) auto

lemma open_quantity_simps [simp]:
  "open_quantity [] = 0"
  "open_quantity (b # bs) = (if tr_exit_at b = None then tr_quantity b else 0) + open_quantity bs"
  by (simp_all add: open_quantity_def)

lemma open_quantity_fresh: "lots_fresh bs \<Longrightarrow> open_quantity bs = lots_quantity bs"
  by (induction bs) auto

lemma close_record_simps [simp]:
  "tr_exit_at (close_record p r t q e d b) = Some t" "tr_quantity (close_record p r t q e d b) = tr_quantity b"
  "tr_pnl (close_record p r t q e d b) = (p - e) * of_int q" "tr_id (close_record p r t q e d b) = tr_id b"
  "tr_entry_price (close_record p r t q e d b) = tr_entry_price b"
  "tr_exit_price (close_record p r t q e d b) = p"
  "tr_order_id (close_record p r t q e d b) = tr_order_id b"
  "tr_side (close_record p r t q e d b) = tr_side b" "tr_symbol (close_record p r t q e d b) = tr_symbol b"
  "tr_status (close_record p r t q e d b) = tr_status b"
  by (simp_all add: close_record_def)

lemma clone_simps [simp]:
  "tr_quantity (build_partial_close_clone now symbol q b) = q"
  "tr_entry_price (build_partial_close_clone now symbol q b) = tr_entry_price b"
  "tr_order_id (build_partial_close_clone now symbol q b) = None"
  "tr_side (build_partial_close_clone now symbol q b) = ''BUY''"
  "tr_status (build_partial_close_clone now symbol q b) = tr_status b"
  by (simp_all add: build_partial_close_clone_def)

lemma close_lot_cases:
  assumes "close_lot now symbol price reason closed_at q b = Inr (b', cs)"
  obtains d where "q < tr_quantity b" and "b' = b\<lparr>tr_quantity := tr_quantity b - q\<rparr>"
      and "cs = [close_record price reason closed_at q (tr_entry_price b) d (build_partial_close_clone now symbol q b)]"
  | d where "tr_quantity b \<le> q" and "b' = close_record price reason closed_at q (tr_entry_price b) d b" and "cs = []"
  using assms by (auto simp: close_lot_def rbind_eq_Inr split: if_splits)

text \<open>What the loop does to the quantities: nothing is lost, nothing is closed twice.\<close>

lemma close_lots_quantities:
  "close_lots now symbol price reason closed_at bs acc = Inr (bs', cs, acc') \<Longrightarrow> lots_fresh bs \<Longrightarrow>
     0 \<le> fa_remaining acc \<Longrightarrow>
     fa_remaining acc' = fa_remaining acc - min (fa_remaining acc) (lots_quantity bs) \<and>
     open_quantity bs' = lots_quantity bs - min (fa_remaining acc) (lots_quantity bs) \<and>
     lots_quantity (closed_records bs' cs) = min (fa_remaining acc) (lots_quantity bs)"
proof (induction bs arbitrary: acc bs' cs acc')
  case Nil
  then show ?case by (simp add: closed_records_def)
next
  case (Cons b bs)
  note fresh = Cons.prems(2) and run = Cons.prems(1)
  have nonneg: "0 \<le> lots_quantity bs" using fresh by (simp add: lots_quantity_nonneg)
  consider "fa_remaining acc \<le> 0" | "0 < fa_remaining acc" "tr_quantity b \<le> 0"
    | "0 < fa_remaining acc" "0 < tr_quantity b" by linarith
  then show ?case
  proof cases
    case 1
    then have eqs: "bs' = b # bs" "cs = []" "acc' = acc" "fa_remaining acc = 0"
      using run Cons.prems(3) by auto
    have "filter (\<lambda>r. tr_exit_at r \<noteq> None) (b # bs) = []"
      using fresh by (auto simp: lots_fresh_def list_all_iff filter_empty_conv)
    then show ?thesis using fresh nonneg eqs by (simp add: closed_records_def open_quantity_fresh)
  next
    case 2
    then obtain bs2 where rest: "close_lots now symbol price reason closed_at bs acc = Inr (bs2, cs, acc')"
      and eqs: "bs' = b # bs2" using run by (auto simp: rbind_eq_Inr)
    have "tr_quantity b = 0" "tr_exit_at b = None" using fresh 2(2) by auto
    then show ?thesis using Cons.IH [OF rest] fresh eqs 2(1) by (simp add: closed_records_def)
  next
    case 3
    let ?q = "min (tr_quantity b) (fa_remaining acc)"
    from run 3 obtain b' c bs2 cs2 where
      lot: "close_lot now symbol price reason closed_at ?q b = Inr (b', c)"
      and rest: "close_lots now symbol price reason closed_at bs (acc_step price ?q b acc) = Inr (bs2, cs2, acc')"
      and eqs: "bs' = b' # bs2" "cs = c @ cs2"
      by (auto simp: rbind_eq_Inr Let_def)
    let ?m = "min (fa_remaining acc - ?q) (lots_quantity bs)"
    have IH: "fa_remaining acc' = (fa_remaining acc - ?q) - ?m" "open_quantity bs2 = lots_quantity bs - ?m"
       "lots_quantity (closed_records bs2 cs2) = ?m"
      using Cons.IH [OF rest] fresh by (simp_all add: acc_step_def)
    have m: "?q + ?m = min (fa_remaining acc) (tr_quantity b + lots_quantity bs)"
      using nonneg 3 by linarith
    have closed: "lots_quantity (closed_records bs' cs) =
        lots_quantity (closed_records [b'] c) + lots_quantity (closed_records bs2 cs2)"
      by (simp add: eqs closed_records_def lots_quantity_def)
    have "open_quantity [b'] = tr_quantity b - ?q \<and> lots_quantity (closed_records [b'] c) = ?q"
      using lot fresh by (cases rule: close_lot_cases) (auto simp: closed_records_def)
    then show ?thesis using IH m closed by (simp add: eqs split: if_splits)
  qed
qed

text \<open>The profit it reports is the profit of the records it closed, each at its own entry price.\<close>

lemma close_lots_pnl:
  "close_lots now symbol price reason closed_at bs acc = Inr (bs', cs, acc') \<Longrightarrow> lots_fresh bs \<Longrightarrow>
     fa_pnl acc' = fa_pnl acc + sum_list (map tr_pnl (closed_records bs' cs)) \<and>
     list_all (\<lambda>r. tr_pnl r = (price - tr_entry_price r) * of_int (tr_quantity r) \<and> tr_exit_price r = price \<and>
       tr_exit_at r = Some closed_at) (closed_records bs' cs)"
proof (induction bs arbitrary: acc bs' cs acc')
  case Nil
  then show ?case by (simp add: closed_records_def)
next
  case (Cons b bs)
  note fresh = Cons.prems(2) and run = Cons.prems(1)
  consider "fa_remaining acc \<le> 0" | "0 < fa_remaining acc" "tr_quantity b \<le> 0"
    | "0 < fa_remaining acc" "0 < tr_quantity b" by linarith
  then show ?case
  proof cases
    case 1
    then have eqs: "bs' = b # bs" "cs = []" "acc' = acc" using run by auto
    have "filter (\<lambda>r. tr_exit_at r \<noteq> None) (b # bs) = []"
      using fresh by (auto simp: lots_fresh_def list_all_iff filter_empty_conv)
    then show ?thesis using eqs by (simp add: closed_records_def)
  next
    case 2
    then obtain bs2 where rest: "close_lots now symbol price reason closed_at bs acc = Inr (bs2, cs, acc')"
      and eqs: "bs' = b # bs2" using run by (auto simp: rbind_eq_Inr)
    then show ?thesis using Cons.IH [OF rest] fresh by (simp add: closed_records_def)
  next
    case 3
    let ?q = "min (tr_quantity b) (fa_remaining acc)"
    from run 3 obtain b' c bs2 cs2 where
      lot: "close_lot now symbol price reason closed_at ?q b = Inr (b', c)"
      and rest: "close_lots now symbol price reason closed_at bs (acc_step price ?q b acc) = Inr (bs2, cs2, acc')"
      and eqs: "bs' = b' # bs2" "cs = c @ cs2"
      by (auto simp: rbind_eq_Inr Let_def)
    have IH: "fa_pnl acc' = fa_pnl acc + (price - tr_entry_price b) * of_int ?q +
        sum_list (map tr_pnl (closed_records bs2 cs2))"
      "list_all (\<lambda>r. tr_pnl r = (price - tr_entry_price r) * of_int (tr_quantity r) \<and> tr_exit_price r = price \<and>
       tr_exit_at r = Some closed_at) (closed_records bs2 cs2)"
      using Cons.IH [OF rest] fresh by (simp_all add: acc_step_def)
    from lot show ?thesis
    proof (cases rule: close_lot_cases)
      case (1 d)
      then have "min (tr_quantity b) (fa_remaining acc) = fa_remaining acc" by linarith
      then show ?thesis using 1 IH fresh by (simp add: eqs closed_records_def)
    next
      case (2 d)
      then have "min (tr_quantity b) (fa_remaining acc) = tr_quantity b" by linarith
      then show ?thesis using 2 IH fresh by (simp add: eqs closed_records_def)
    qed
  qed
qed

text \<open>
  The lots stay the same lots (identifier, order, symbol, side, status), only the one at the
  boundary may be cloned, and a clone is a closed record without an order id.
\<close>

definition same_lot :: "trade_result \<Rightarrow> trade_result \<Rightarrow> bool" where
  "same_lot b b' \<longleftrightarrow> tr_id b' = tr_id b \<and> tr_order_id b' = tr_order_id b \<and> tr_symbol b' = tr_symbol b \<and>
     tr_side b' = tr_side b \<and> tr_status b' = tr_status b \<and> tr_entry_price b' = tr_entry_price b"

lemma close_lots_same:
  "close_lots now symbol price reason closed_at bs acc = Inr (bs', cs, acc') \<Longrightarrow>
     list_all2 same_lot bs bs' \<and> list_all (\<lambda>c. tr_exit_at c \<noteq> None \<and> tr_order_id c = None) cs"
proof (induction bs arbitrary: acc bs' cs acc')
  case (Cons b bs)
  consider "fa_remaining acc \<le> 0" | "0 < fa_remaining acc" "tr_quantity b \<le> 0"
    | "0 < fa_remaining acc" "0 < tr_quantity b" by linarith
  then show ?case
  proof cases
    case 1
    with Cons.prems show ?thesis by (auto simp: same_lot_def intro: list_all2_refl)
  next
    case 2
    then obtain bs2 where rest: "close_lots now symbol price reason closed_at bs acc = Inr (bs2, cs, acc')"
      and eqs: "bs' = b # bs2" using Cons.prems by (auto simp: rbind_eq_Inr)
    then show ?thesis using Cons.IH [OF rest] by (simp add: same_lot_def)
  next
    case 3
    let ?q = "min (tr_quantity b) (fa_remaining acc)"
    from Cons.prems 3 obtain b' c bs2 cs2 where
      lot: "close_lot now symbol price reason closed_at ?q b = Inr (b', c)"
      and rest: "close_lots now symbol price reason closed_at bs (acc_step price ?q b acc) = Inr (bs2, cs2, acc')"
      and eqs: "bs' = b' # bs2" "cs = c @ cs2"
      by (auto simp: rbind_eq_Inr Let_def)
    have "same_lot b b' \<and> list_all (\<lambda>c. tr_exit_at c \<noteq> None \<and> tr_order_id c = None) c"
      using lot by (cases rule: close_lot_cases) (simp_all add: same_lot_def)
    then show ?thesis using Cons.IH [OF rest] by (simp add: eqs)
  qed
qed simp

text \<open>First in, first out: the lots before some position are closed, the ones behind it untouched.\<close>

lemma close_lots_fifo:
  "close_lots now symbol price reason closed_at bs acc = Inr (bs', cs, acc') \<Longrightarrow> lots_fresh bs \<Longrightarrow>
     \<exists>k. list_all (\<lambda>b. tr_exit_at b \<noteq> None \<or> tr_quantity b = 0) (take k bs') \<and> drop (Suc k) bs' = drop (Suc k) bs
        \<and> length cs \<le> 1"
proof (induction bs arbitrary: acc bs' cs acc')
  case (Cons b bs)
  note run = Cons.prems(1) and fresh = Cons.prems(2)
  consider "fa_remaining acc \<le> 0" | "0 < fa_remaining acc" "tr_quantity b \<le> 0"
    | "0 < fa_remaining acc" "0 < tr_quantity b" by linarith
  then show ?case
  proof cases
    case 1
    with run show ?thesis by (intro exI [of _ 0]) auto
  next
    case 2
    then obtain bs2 where rest: "close_lots now symbol price reason closed_at bs acc = Inr (bs2, cs, acc')"
      and eqs: "bs' = b # bs2" using run by (auto simp: rbind_eq_Inr)
    obtain k where k: "list_all (\<lambda>b. tr_exit_at b \<noteq> None \<or> tr_quantity b = 0) (take k bs2)"
      "drop (Suc k) bs2 = drop (Suc k) bs" "length cs \<le> 1"
      using Cons.IH [OF rest] fresh by auto
    have "tr_quantity b = 0" using fresh 2 by simp
    with k show ?thesis by (intro exI [of _ "Suc k"]) (simp add: eqs)
  next
    case 3
    let ?q = "min (tr_quantity b) (fa_remaining acc)"
    from run 3 obtain b' c bs2 cs2 where
      lot: "close_lot now symbol price reason closed_at ?q b = Inr (b', c)"
      and rest: "close_lots now symbol price reason closed_at bs (acc_step price ?q b acc) = Inr (bs2, cs2, acc')"
      and eqs: "bs' = b' # bs2" "cs = c @ cs2"
      by (auto simp: rbind_eq_Inr Let_def)
    from lot show ?thesis
    proof (cases rule: close_lot_cases)
      case (1 d)
      then have "fa_remaining (acc_step price ?q b acc) \<le> 0" by (simp add: acc_step_def)
      with rest have "bs2 = bs" "cs2 = []" by (cases bs; auto)+
      with 1 show ?thesis by (intro exI [of _ 0]) (simp add: eqs)
    next
      case (2 d)
      obtain k where "list_all (\<lambda>b. tr_exit_at b \<noteq> None \<or> tr_quantity b = 0) (take k bs2)"
        "drop (Suc k) bs2 = drop (Suc k) bs" "length cs2 \<le> 1"
        using Cons.IH [OF rest] fresh by auto
      with 2 show ?thesis by (intro exI [of _ "Suc k"]) (simp add: eqs)
    qed
  qed
qed auto

text \<open>When it can raise: only at a lot whose entry time cannot be subtracted from the closing time.\<close>

definition closable :: "pydt \<Rightarrow> trade_result \<Rightarrow> bool" where
  "closable closed_at b \<longleftrightarrow> (case tr_entry_at b of None \<Rightarrow> True | Some e \<Rightarrow> aware e = aware closed_at)"

lemma hold_days_ok: "closable closed_at b \<Longrightarrow> \<exists>d. hold_days_of closed_at (tr_entry_at b) = Inr d"
  by (auto simp: closable_def hold_days_of_def split: option.splits)

lemma hold_days_mixed: "\<not> closable closed_at b \<Longrightarrow> \<exists>m. hold_days_of closed_at (tr_entry_at b) = Inl (Exn TypeError m)"
  by (auto simp: closable_def hold_days_of_def dt_sub_def split: option.splits)

lemma close_lots_total:
  "list_all (closable closed_at) bs \<Longrightarrow> is_ok (close_lots now symbol price reason closed_at bs acc)"
proof (induction bs arbitrary: acc)
  case (Cons b bs)
  obtain d where "hold_days_of closed_at (tr_entry_at b) = Inr d"
    using hold_days_ok Cons.prems by fastforce
  moreover obtain r where "close_lots now symbol price reason closed_at bs acc = Inr r"
    using Cons.IH [of acc] Cons.prems by (auto simp: is_ok_iff)
  moreover obtain r2 where "close_lots now symbol price reason closed_at bs
      (acc_step price (min (tr_quantity b) (fa_remaining acc)) b acc) = Inr r2"
    using Cons.IH Cons.prems by (fastforce simp: is_ok_iff)
  ultimately show ?case by (auto simp: Let_def close_lot_def split: prod.splits)
qed simp

lemma close_lots_mixed:
  assumes "0 < fa_remaining acc" and "0 < tr_quantity b" and "\<not> closable closed_at b"
  shows "\<exists>m. close_lots now symbol price reason closed_at (b # bs) acc = Inl (Exn TypeError m)"
  using assms hold_days_mixed [OF assms(3)] by (auto simp: Let_def close_lot_def)

section \<open>The table after a fill\<close>

definition row_sum :: "(trade_result \<Rightarrow> int) \<Rightarrow> db \<Rightarrow> int" where
  "row_sum w s = sum_list (map w (db_rows s))"

text \<open>The open quantity of a symbol, as the program sums it.\<close>

definition open_qty_of :: "string \<Rightarrow> db \<Rightarrow> int" where
  "open_qty_of symbol s = lots_quantity (get_all_open_buys symbol s)"

definition open_weight :: "string \<Rightarrow> trade_result \<Rightarrow> int" where
  "open_weight symbol r = (if tr_symbol r = symbol \<and> is_open_buy r then tr_quantity r else 0)"

lemma open_qty_row_sum: "open_qty_of symbol s = row_sum (open_weight symbol) s"
proof -
  have "open_qty_of symbol s = sum_mset (image_mset tr_quantity (mset (get_all_open_buys symbol s)))"
    by (simp add: open_qty_of_def lots_quantity_def flip: sum_mset_sum_list)
  also have "\<dots> = sum_list (map tr_quantity (filter (\<lambda>r. tr_symbol r = symbol \<and> is_open_buy r) (db_rows s)))"
    by (simp add: mset_get_all_open_buys flip: sum_mset_sum_list)
  also have "\<dots> = row_sum (open_weight symbol) s"
    unfolding row_sum_def open_weight_def sum_list_map_filter' ..
  finally show ?thesis .
qed

lemma sum_list_put:
  "distinct (map tr_id rows) \<Longrightarrow> r \<in> set rows \<Longrightarrow> tr_id r' = tr_id r \<Longrightarrow>
     sum_list (map w (map (\<lambda>x. if tr_id x = tr_id r' then r' else x) rows)) =
       sum_list (map w rows) - w r + (w r' :: int)"
proof (induction rows)
  case (Cons x rows)
  show ?case
  proof (cases "r = x")
    case True
    then have "map (\<lambda>x. if tr_id x = tr_id r' then r' else x) rows = rows"
      using Cons.prems by (intro map_idI) (auto simp: image_iff)
    then show ?thesis using True Cons.prems by simp
  next
    case False
    then have "tr_id x \<noteq> tr_id r'" using Cons.prems by auto
    with False Cons show ?thesis by simp
  qed
qed simp

lemma row_sum_put:
  assumes "ids_ok s" and "r \<in> set (db_rows s)" and "tr_id r' = tr_id r"
  shows "row_sum w (db_put r' s) = row_sum w s - w r + w r'"
  using assms sum_list_put [of "db_rows s" r r' w]
  by (simp add: row_sum_def db_put_def db_modify_def ids_ok_def)

lemma ids_ok_put: "ids_ok s \<Longrightarrow> ids_ok (db_put r s)"
proof -
  assume "ids_ok s"
  moreover have "map tr_id (db_rows (db_put r s)) = map tr_id (db_rows s)"
    by (simp add: db_put_def db_modify_def)
  moreover have "db_seq (db_put r s) = db_seq s" by (simp add: db_put_def db_modify_def)
  ultimately show ?thesis by (auto simp: ids_ok_def) (simp add: db_put_def db_modify_def image_iff, fastforce)
qed

lemma row_sum_puts:
  "list_all2 same_lot bs bs' \<Longrightarrow> ids_ok s \<Longrightarrow> distinct (map tr_id bs) \<Longrightarrow> set bs \<subseteq> set (db_rows s) \<Longrightarrow>
     row_sum w (fold db_put bs' s) = row_sum w s - sum_list (map w bs) + sum_list (map w bs')"
proof (induction bs bs' arbitrary: s rule: list_all2_induct)
  case Nil
  then show ?case by simp
next
  case (Cons b bs b' bs')
  from Cons.hyps have id: "tr_id b' = tr_id b" by (simp add: same_lot_def)
  have "set bs \<subseteq> set (db_rows (db_put b' s))"
    using Cons.prems id by (auto simp: db_put_def db_modify_def image_iff)
  then have "row_sum w (fold db_put bs' (db_put b' s)) =
      row_sum w (db_put b' s) - sum_list (map w bs) + sum_list (map w bs')"
    using Cons.prems by (intro Cons.IH) (auto intro: ids_ok_put)
  moreover have "row_sum w (db_put b' s) = row_sum w s - w b + w b'"
    using Cons.prems id by (intro row_sum_put) auto
  ultimately show ?case by simp
qed

lemma row_sum_insert_all:
  "db_insert_all cs s = Inr s' \<Longrightarrow> (\<And>c i. c \<in> set cs \<Longrightarrow> w (c\<lparr>tr_id := i\<rparr>) = 0) \<Longrightarrow> row_sum w s' = row_sum w s"
proof (induction cs arbitrary: s)
  case (Cons c cs)
  from Cons.prems(1) obtain i s1 where "db_insert c s = Inr (i, s1)" "db_insert_all cs s1 = Inr s'"
    by (auto simp: rbind_eq_Inr)
  then show ?case using Cons.IH [of s1] Cons.prems(2)
    by (auto simp: db_insert_def row_sum_def split: if_splits)
qed simp

lemma distinct_open_buys: "ids_ok s \<Longrightarrow> distinct (map tr_id (get_all_open_buys symbol s))"
proof -
  assume "ids_ok s"
  then have "distinct (map tr_id (filter (\<lambda>r. tr_symbol r = symbol \<and> is_open_buy r) (db_rows s)))"
    by (simp add: ids_ok_def distinct_map_filter)
  then show ?thesis
    by (auto simp: get_all_open_buys_def distinct_map)
qed

lemma open_buys_open: "r \<in> set (get_all_open_buys symbol s) \<Longrightarrow> tr_exit_at r = None"
  by (simp add: mem_get_all_open_buys is_open_buy_def)

lemma open_weight_same:
  "list_all2 same_lot bs bs' \<Longrightarrow> list_all (\<lambda>r. tr_symbol r = symbol \<and> is_open_buy r) bs \<Longrightarrow>
     sum_list (map (open_weight symbol) bs') = open_quantity bs'"
  by (induction bs bs' rule: list_all2_induct) (auto simp: open_weight_def is_open_buy_def same_lot_def)

text \<open>A successful fill takes exactly what it applies out of the open quantity of its symbol.\<close>

lemma session_sell_fill_qty:
  assumes run: "session_sell_fill now symbol qty price reason closed_at s = Inr (sf, s')"
    and ids: "ids_ok s" and nonneg: "\<forall>r \<in> set (db_rows s). 0 \<le> tr_quantity r"
  shows "sf_applied sf = min (max qty 0) (open_qty_of symbol s) \<and>
    open_qty_of symbol s' = open_qty_of symbol s - sf_applied sf \<and>
    sf_remaining_open sf = open_qty_of symbol s'"
proof -
  let ?bs = "get_all_open_buys symbol s" and ?w = "open_weight symbol"
  from run obtain bs cs acc where
    loop: "close_lots now symbol price reason closed_at ?bs (start_acc qty) = Inr (bs, cs, acc)"
    and ins: "db_insert_all cs (fold db_put bs s) = Inr s'"
    and sf: "sf_applied sf = max qty 0 - max (fa_remaining acc) 0" "sf_remaining_open sf = open_quantity bs"
    by (auto simp: session_sell_fill_def apply_sell_fill_to_open_buys_def rbind_eq_Inr)
  have fresh: "lots_fresh ?bs"
    using nonneg by (auto simp: lots_fresh_def list_all_iff mem_get_all_open_buys is_open_buy_def)
  have q: "fa_remaining acc = max qty 0 - min (max qty 0) (lots_quantity ?bs)"
    "open_quantity bs = lots_quantity ?bs - min (max qty 0) (lots_quantity ?bs)"
    using close_lots_quantities [OF loop fresh] by (simp_all add: start_acc_def)
  note same = close_lots_same [OF loop]
  have sub: "set ?bs \<subseteq> set (db_rows s)" by (auto simp: mem_get_all_open_buys)
  have wb: "sum_list (map ?w ?bs) = lots_quantity ?bs"
    by (auto simp: lots_quantity_def open_weight_def mem_get_all_open_buys intro!: arg_cong [where f = sum_list])
  have P: "list_all (\<lambda>r. tr_symbol r = symbol \<and> is_open_buy r) ?bs"
    by (simp add: list_all_iff mem_get_all_open_buys)
  have wb': "sum_list (map ?w bs) = open_quantity bs"
    using same [THEN conjunct1] P by (rule open_weight_same)
  have wc: "?w (c\<lparr>tr_id := i\<rparr>) = 0" if "c \<in> set cs" for c i
    using same that by (auto simp: open_weight_def is_open_buy_def list_all_iff)
  have "row_sum ?w s' = row_sum ?w s - lots_quantity ?bs + open_quantity bs"
    using row_sum_insert_all [of cs _ s' ?w, OF ins wc] row_sum_puts [OF same [THEN conjunct1] ids distinct_open_buys [OF ids] sub, of ?w]
    by (simp add: wb wb')
  then show ?thesis using q sf lots_quantity_nonneg [OF fresh]
    by (simp add: open_qty_row_sum [of symbol s'] open_qty_of_def [of symbol s] flip: open_qty_row_sum [of symbol s])
qed

lemma insert_all_total: "list_all (\<lambda>c. tr_order_id c = None) cs \<Longrightarrow> is_ok (db_insert_all cs s)"
  by (induction cs arbitrary: s) (auto simp: db_insert_def is_ok_iff)

lemma session_sell_fill_total:
  assumes "list_all (closable closed_at) (get_all_open_buys symbol s)"
  shows "is_ok (session_sell_fill now symbol qty price reason closed_at s)"
proof -
  have "is_ok (close_lots now symbol price reason closed_at (get_all_open_buys symbol s) (start_acc qty))"
    using assms by (rule close_lots_total)
  then obtain bs cs acc where
    loop: "close_lots now symbol price reason closed_at (get_all_open_buys symbol s) (start_acc qty) = Inr (bs, cs, acc)"
    by (auto simp: is_ok_iff)
  have "list_all (\<lambda>c. tr_order_id c = None) cs" using close_lots_same [OF loop] by (auto simp: list_all_iff)
  then have "is_ok (db_insert_all cs (fold db_put bs s))" by (rule insert_all_total)
  with loop show ?thesis
    by (auto simp: session_sell_fill_def apply_sell_fill_to_open_buys_def is_ok_iff)
qed

section \<open>Properties\<close>

definition sample_lot :: "nat \<Rightarrow> int \<Rightarrow> real \<Rightarrow> int \<Rightarrow> trade_result" where
  "sample_lot i q p day = (default_trade (PyDT (day * day_us) False))\<lparr>tr_id := i, tr_order_id := None,
     tr_symbol := ''005930'', tr_side := ''BUY'', tr_entry_price := p, tr_quantity := q,
     tr_entry_at := Some (PyDT (day * day_us) False)\<rparr>"

definition sample_lots_db :: db where
  "sample_lots_db = \<lparr>db_rows = [sample_lot 1 10 70000 1, sample_lot 2 5 72000 2], db_seq = 3\<rparr>"

lemma sample_lot_simps [simp]:
  "tr_id (sample_lot i q p d) = i" "tr_quantity (sample_lot i q p d) = q"
  "tr_entry_price (sample_lot i q p d) = p" "tr_exit_at (sample_lot i q p d) = None"
  "tr_symbol (sample_lot i q p d) = ''005930''" "tr_side (sample_lot i q p d) = ''BUY''"
  "tr_status (sample_lot i q p d) = CONFIRMED" "tr_order_id (sample_lot i q p d) = None"
  "tr_entry_at (sample_lot i q p d) = Some (PyDT (d * day_us) False)"
  by (simp_all add: sample_lot_def default_trade_def)

lemma sample_lots_closable:
  "list_all (closable (PyDT t False)) (get_all_open_buys ''005930'' sample_lots_db)"
  by (auto simp: list_all_iff mem_get_all_open_buys sample_lots_db_def closable_def)

text \<open>
  A sell fill takes out of the open lots of its symbol exactly the quantity it reports as
  applied, which is the filled quantity or, when less is open, all of it; the quantity it reports
  as still open is the quantity open afterwards.
\<close>

lemma sell_fill_conserves_quantity:
  assumes "session_sell_fill now symbol qty price reason closed_at s = Inr (sf, s')"
    and "ids_ok s" and "\<forall>r \<in> set (db_rows s). 0 \<le> tr_quantity r"
  shows "sf_applied sf = min (max qty 0) (open_qty_of symbol s) \<and>
    open_qty_of symbol s' = open_qty_of symbol s - sf_applied sf \<and>
    sf_remaining_open sf = open_qty_of symbol s'"
  using assms by (rule session_sell_fill_qty)

lemma sell_fill_conserves_quantity_witness:
  "\<exists>sf s'. session_sell_fill (PyDT 0 True) ''005930'' 12 75000 [] (PyDT (9 * day_us) False) sample_lots_db = Inr (sf, s') \<and>
     open_qty_of ''005930'' s' = open_qty_of ''005930'' sample_lots_db - sf_applied sf"
proof -
  obtain sf s' where run: "session_sell_fill (PyDT 0 True) ''005930'' 12 75000 [] (PyDT (9 * day_us) False)
      sample_lots_db = Inr (sf, s')"
    using session_sell_fill_total [OF sample_lots_closable, of "PyDT 0 True" 12 75000 "[]" "9 * day_us"]
    by (auto simp: is_ok_iff)
  have "ids_ok sample_lots_db" by (simp add: ids_ok_def sample_lots_db_def)
  with sell_fill_conserves_quantity [OF run] run show ?thesis by (auto simp: sample_lots_db_def)
qed

text \<open>
  C31: lots are closed first in, first out: every lot before some position is closed (or was empty),
  every lot behind it is untouched, at most one lot is split, and each closed record carries the
  exit price and the profit of its own quantity at its own entry price, which add up to the
  reported total.
\<close>

theorem sell_fill_fifo_and_profit:
  assumes "apply_sell_fill_to_open_buys now symbol qty price reason closed_at bs = Inr (bs', cs, sf)"
    and "lots_fresh bs"
  shows "(\<exists>k. list_all (\<lambda>b. tr_exit_at b \<noteq> None \<or> tr_quantity b = 0) (take k bs') \<and>
            drop (Suc k) bs' = drop (Suc k) bs) \<and> length cs \<le> 1 \<and>
     list_all (\<lambda>r. tr_pnl r = (price - tr_entry_price r) * of_int (tr_quantity r) \<and> tr_exit_price r = price)
       (closed_records bs' cs) \<and>
     sf_pnl sf = sum_list (map tr_pnl (closed_records bs' cs)) \<and>
     lots_quantity (closed_records bs' cs) = sf_applied sf"
proof -
  from assms(1) obtain acc where
    loop: "close_lots now symbol price reason closed_at bs (start_acc qty) = Inr (bs', cs, acc)"
    and sf: "sf_pnl sf = fa_pnl acc" "sf_applied sf = max qty 0 - max (fa_remaining acc) 0"
    by (auto simp: apply_sell_fill_to_open_buys_def rbind_eq_Inr)
  have q: "fa_remaining acc = max qty 0 - min (max qty 0) (lots_quantity bs)"
     "lots_quantity (closed_records bs' cs) = min (max qty 0) (lots_quantity bs)"
    using close_lots_quantities [OF loop assms(2)] by (simp_all add: start_acc_def)
  have "lots_quantity (closed_records bs' cs) = sf_applied sf" using q sf(2) by linarith
  then show ?thesis
    using close_lots_fifo [OF loop assms(2)] close_lots_pnl [OF loop assms(2)] sf(1)
    by (auto simp: start_acc_def list_all_iff)
qed

lemma sell_fill_fifo_and_profit_witness:
  "\<exists>bs' cs sf. apply_sell_fill_to_open_buys (PyDT 0 True) ''005930'' 12 75000 [] (PyDT (9 * day_us) False)
      [sample_lot 1 10 70000 1, sample_lot 2 5 72000 2] = Inr (bs', cs, sf) \<and>
     sf_pnl sf = sum_list (map tr_pnl (closed_records bs' cs))"
proof -
  have "list_all (closable (PyDT (9 * day_us) False)) [sample_lot 1 10 70000 1, sample_lot 2 5 72000 2]"
    by (simp add: closable_def)
  then have "is_ok (close_lots (PyDT 0 True) ''005930'' 75000 [] (PyDT (9 * day_us) False)
      [sample_lot 1 10 70000 1, sample_lot 2 5 72000 2] (start_acc 12))"
    by (rule close_lots_total)
  then obtain bs' cs acc where "close_lots (PyDT 0 True) ''005930'' 75000 [] (PyDT (9 * day_us) False)
      [sample_lot 1 10 70000 1, sample_lot 2 5 72000 2] (start_acc 12) = Inr (bs', cs, acc)"
    unfolding is_ok_iff by (metis prod_cases3)
  then obtain sf where run: "apply_sell_fill_to_open_buys (PyDT 0 True) ''005930'' 12 75000 []
      (PyDT (9 * day_us) False) [sample_lot 1 10 70000 1, sample_lot 2 5 72000 2] = Inr (bs', cs, sf)"
    by (simp only: apply_sell_fill_to_open_buys_def rbind_simps prod.case)
  have "sf_pnl sf = sum_list (map tr_pnl (closed_records bs' cs))"
    using sell_fill_fifo_and_profit [OF run] by simp
  with run show ?thesis by blast
qed

end
