(* ===== verification/Decision.thy ===== *)
theory Decision
  imports Sell_Fill Settings_Model
begin

text \<open>
  The decision maker (\<open>agent/decision_maker.py\<close>): order submission in the autonomous mode, the
  record it writes before the fill is known, and the background task that confirms the fill. The
  state holds the table and everything the handlers do to the outside, in order: orders placed,
  cancellations asked, callbacks called, events published, tasks started. The broker's answers and
  the clock are arguments.
\<close>

section \<open>Texts\<close>

text \<open>The Korean word for a buy, as the brokers report the side of an order, and the broker's
  phrase for a symbol that cannot be traded (UTF-8).\<close>

definition kr_buy :: string where
  "kr_buy = [CHR 0xEB, CHR 0xA7, CHR 0xA4, CHR 0xEC, CHR 0x88, CHR 0x98]"

definition kr_untradeable :: string where
  "kr_untradeable = [CHR 0xEB, CHR 0xA7, CHR 0xA4, CHR 0xEB, CHR 0xA7, CHR 0xA4,
     CHR 0xEB, CHR 0xB6, CHR 0x88, CHR 0xEA, CHR 0xB0, CHR 0x80]"

section \<open>State and environment\<close>

text \<open>
  The analysis context: the keys the decision maker reads. \<open>ctx_notes\<close> holds the remaining keys it
  copies into the notes, with their rendered values, absent keys left out.
\<close>

record analysis_context =
  ctx_stock_name :: "string option"
  ctx_strategy_type :: string
  ctx_ai_recommendation :: string
  ctx_ai_confidence :: real
  ctx_ai_target :: "real option"
  ctx_ai_stop :: "real option"
  ctx_entry_rsi :: "real option"
  ctx_entry_macd_hist :: "real option"
  ctx_entry_pattern :: "string option"
  ctx_market_regime :: string
  ctx_horizon :: "string option"
  ctx_notes :: "(string \<times> string) list"

definition empty_context :: analysis_context where
  "empty_context = \<lparr>ctx_stock_name = None, ctx_strategy_type = [], ctx_ai_recommendation = [],
     ctx_ai_confidence = 0, ctx_ai_target = None, ctx_ai_stop = None, ctx_entry_rsi = None,
     ctx_entry_macd_hist = None, ctx_entry_pattern = None, ctx_market_regime = [],
     ctx_horizon = None, ctx_notes = []\<rparr>"

datatype exec_reason =
  Bad_quantity
| Blocked submission_decision
| Pending_buy_exists string int real
| Accepted
| Rejected string

record exec_result =
  ex_symbol :: string
  ex_action :: signal_action
  ex_success :: bool
  ex_order_id :: string
  ex_reason :: exec_reason

record recommendation_draft =
  rec_stock_id :: string
  rec_analysis_id :: string
  rec_action :: signal_action
  rec_price :: real
  rec_quantity :: int
  rec_confidence :: real
  rec_expires_at :: pydt

text \<open>
  The callback of the caller, if there is one: what its calls for this order answer, the first and,
  when it raises, the second.
\<close>

type_synonym settle_callback = "(nat \<Rightarrow> unit res) option"

record confirm_task =
  ct_symbol :: string
  ct_side :: string
  ct_order_id :: string
  ct_quantity :: int
  ct_expected_price :: real
  ct_context :: analysis_context
  ct_exit_reason :: string
  ct_pending_id :: "nat option"
  ct_callback :: settle_callback

record dm_env =
  env_now :: pydt
  env_db_up :: bool
  env_place :: "order_request \<Rightarrow> order_result res"
  env_pending :: "pending_order_info list res"
  env_status :: "string \<Rightarrow> order_status_info option res"

record dm_state =
  dm_db :: db
  dm_placed :: "order_request list"
  dm_cancelled :: "string list"
  dm_settled :: "(string \<times> bool) list"
  dm_events :: "exec_result list"
  dm_recommended :: "recommendation_draft list"
  dm_tasks :: "confirm_task list"
  dm_untradeable :: "string list"
  dm_cache_invalidations :: nat

section \<open>Submission\<close>

definition matches_pending_buy :: "string \<Rightarrow> pending_order_info \<Rightarrow> bool" where
  "matches_pending_buy normalized_symbol order \<longleftrightarrow>
     normalize_krx_symbol (po_symbol order) = normalized_symbol \<and>
     (contains kr_buy (po_side order) \<or> upper (po_side order) = ''BUY'') \<and> 0 < po_remaining_qty order"

text \<open>A failing query of the pending orders skips the check for a duplicate.\<close>

definition find_existing_pending_buy :: "dm_env \<Rightarrow> string \<Rightarrow> pending_order_info option" where
  "find_existing_pending_buy env symbol =
     (case env_pending env of
        Inl _ \<Rightarrow> None
      | Inr orders \<Rightarrow> find (matches_pending_buy (normalize_krx_symbol symbol)) orders)"

definition build_order_request :: "trade_signal \<Rightarrow> order_request res" where
  "build_order_request signal =
     (let market_code = upper (case sig_market signal of None \<Rightarrow> ''KRX'' | Some m \<Rightarrow> m);
          mkt = (case market_of market_code of Inl _ \<Rightarrow> KRX | Inr m \<Rightarrow> m)
      in rbind (order_side_of (action_value (sig_action signal))) (\<lambda>side.
           validate_order_request
             \<lparr>or_symbol = sig_symbol signal, or_market = mkt, or_side = side,
              or_type = (if opt_or (sig_price signal) 0 \<noteq> 0 then LIMIT else MARKET),
              or_session = REGULAR, or_quantity = opt_or (sig_quantity signal) 0,
              or_price = sig_price signal\<rparr>))"

definition build_trade_notes :: "analysis_context \<Rightarrow> bool \<Rightarrow> trade_note option" where
  "build_trade_notes ctx pending =
     (let payload = filter (\<lambda>(k, v). v \<noteq> []) ((''trade_horizon'', upper (ostr (ctx_horizon ctx))) #
            ctx_notes ctx @ [(''entry_pattern'', ostr (ctx_entry_pattern ctx))])
      in if payload = [] then (if pending then Some Note_waiting else None)
         else Some (Note_context pending payload))"

definition pending_row :: "dm_env \<Rightarrow> string \<Rightarrow> string \<Rightarrow> string \<Rightarrow> int \<Rightarrow> real \<Rightarrow> analysis_context \<Rightarrow> trade_result" where
  "pending_row env symbol side order_id quantity expected_price ctx =
     (default_trade (env_now env))\<lparr>tr_order_id := Some order_id, tr_symbol := symbol,
       tr_name := (case ctx_stock_name ctx of None \<Rightarrow> symbol | Some n \<Rightarrow> n), tr_side := side,
       tr_strategy := ctx_strategy_type ctx,
       tr_entry_price := (if side = ''BUY'' then expected_price else 0),
       tr_exit_price := (if side = ''SELL'' then expected_price else 0),
       tr_quantity := quantity, tr_status := PENDING_CONFIRM,
       tr_ai_recommendation := ctx_ai_recommendation ctx, tr_ai_confidence := ctx_ai_confidence ctx,
       tr_ai_target := ctx_ai_target ctx, tr_ai_stop := ctx_ai_stop ctx,
       tr_entry_pattern := ctx_entry_pattern ctx, tr_market_regime := ctx_market_regime ctx,
       tr_entry_at := (if side = ''BUY'' then Some (env_now env) else None),
       tr_exit_at := (if side = ''SELL'' then Some (env_now env) else None),
       tr_notes := build_trade_notes ctx True\<rparr>"

text \<open>A database fault is any exception of the driver; it is logged and the id is lost.\<close>

definition db_session :: "dm_env \<Rightarrow> (db \<Rightarrow> ('a \<times> db) res) \<Rightarrow> db \<Rightarrow> 'a res \<times> db" where
  "db_session env body s =
     (if env_db_up env then transaction body s else (Inl (Exn ExternalError ''database''), s))"

definition create_pending_record ::
  "dm_env \<Rightarrow> string \<Rightarrow> string \<Rightarrow> string \<Rightarrow> int \<Rightarrow> real \<Rightarrow> analysis_context \<Rightarrow> db \<Rightarrow> nat option \<times> db" where
  "create_pending_record env symbol side order_id quantity expected_price ctx s =
     (let (r, s') = db_session env (\<lambda>s. case get_by_order_id order_id s of
                Some existing \<Rightarrow> Inr (tr_id existing, s)
              | None \<Rightarrow> db_insert (pending_row env symbol side order_id quantity expected_price ctx) s) s
      in (case r of Inl _ \<Rightarrow> None | Inr i \<Rightarrow> Some i, s'))"

definition publish :: "exec_result \<Rightarrow> dm_state \<Rightarrow> dm_state" where
  "publish r st = st\<lparr>dm_events := dm_events st @ [r]\<rparr>"

definition refusal :: "trade_signal \<Rightarrow> exec_reason \<Rightarrow> exec_result" where
  "refusal signal reason = \<lparr>ex_symbol = sig_symbol signal, ex_action = sig_action signal,
     ex_success = False, ex_order_id = [], ex_reason = reason\<rparr>"

text \<open>What happens once the broker has answered the order.\<close>

definition after_place_order ::
  "dm_env \<Rightarrow> trade_signal \<Rightarrow> analysis_context \<Rightarrow> settle_callback \<Rightarrow> order_result \<Rightarrow> dm_state \<Rightarrow> exec_result \<times> dm_state" where
  "after_place_order env signal ctx callback ores st =
     (let order_id = ostr (ores_order_id ores);
          is_submitted = (ores_success ores \<and> order_id \<noteq> []);
          qty = opt_or (sig_quantity signal) 0; price = opt_or (sig_price signal) 0;
          side = action_value (sig_action signal)
      in if is_submitted then
           (let (pending_id, db') = create_pending_record env (sig_symbol signal) side order_id qty price ctx (dm_db st);
                result = \<lparr>ex_symbol = sig_symbol signal, ex_action = sig_action signal, ex_success = True,
                          ex_order_id = order_id, ex_reason = Accepted\<rparr>;
                task = \<lparr>ct_symbol = sig_symbol signal, ct_side = side, ct_order_id = order_id,
                        ct_quantity = qty, ct_expected_price = price, ct_context = ctx,
                        ct_exit_reason = [], ct_pending_id = pending_id, ct_callback = callback\<rparr>
            in (result, publish result (st\<lparr>dm_db := db', dm_tasks := dm_tasks st @ [task]\<rparr>)))
         else
           (let result = \<lparr>ex_symbol = sig_symbol signal, ex_action = sig_action signal, ex_success = False,
                          ex_order_id = order_id, ex_reason = Rejected (ores_message ores)\<rparr>;
                st' = (if contains kr_untradeable (ores_message ores)
                       then st\<lparr>dm_untradeable := List.insert (sig_symbol signal) (dm_untradeable st)\<rparr> else st)
            in (result, publish result st')))"

definition execute_autonomous ::
  "settings \<Rightarrow> dm_env \<Rightarrow> trade_signal \<Rightarrow> analysis_context \<Rightarrow> settle_callback \<Rightarrow> dm_state \<Rightarrow> (exec_result \<times> dm_state) res" where
  "execute_autonomous cfg env signal ctx callback st =
     (if opt_or (sig_quantity signal) 0 \<le> 0 then
        Inr (refusal signal Bad_quantity, publish (refusal signal Bad_quantity) st)
      else
        let sd = decide_order_submission cfg (action_value (sig_action signal))
        in if \<not> sd_allowed sd then
             Inr (refusal signal (Blocked sd), publish (refusal signal (Blocked sd)) st)
           else
             case (if sig_action signal = BUY then find_existing_pending_buy env (sig_symbol signal) else None) of
               Some o1 \<Rightarrow>
                 (let reason = Pending_buy_exists (po_order_id o1) (po_remaining_qty o1) (po_order_price o1)
                  in Inr (refusal signal reason, publish (refusal signal reason) st))
             | None \<Rightarrow>
                 rbind (build_order_request signal) (\<lambda>req.
                 rbind (env_place env req) (\<lambda>ores.
                   Inr (after_place_order env signal ctx callback ores
                          (st\<lparr>dm_placed := dm_placed st @ [req]\<rparr>)))))"

section \<open>Confirmation\<close>

definition cancel_unfilled_order :: "string \<Rightarrow> dm_state \<Rightarrow> dm_state" where
  "cancel_unfilled_order order_id st =
     (if order_id = [] then st else st\<lparr>dm_cancelled := dm_cancelled st @ [order_id]\<rparr>)"

text \<open>The \<open>n\<close>-th call of the callback; it may raise.\<close>

definition settle :: "nat \<Rightarrow> confirm_task \<Rightarrow> bool \<Rightarrow> dm_state \<Rightarrow> unit res \<times> dm_state" where
  "settle n t ok st =
     (case ct_callback t of
        None \<Rightarrow> (Inr (), st)
      | Some answer \<Rightarrow> (answer n, st\<lparr>dm_settled := dm_settled st @ [(ct_order_id t, ok)]\<rparr>))"

text \<open>\<open>_record_trade_result\<close>: the path without a pending record.\<close>

definition buy_row :: "dm_env \<Rightarrow> string \<Rightarrow> string \<Rightarrow> int \<Rightarrow> real \<Rightarrow> analysis_context \<Rightarrow> trade_result" where
  "buy_row env symbol order_id filled_qty filled_price ctx =
     (default_trade (env_now env))\<lparr>tr_order_id := Some order_id, tr_symbol := symbol,
       tr_name := (case ctx_stock_name ctx of None \<Rightarrow> symbol | Some n \<Rightarrow> n), tr_side := ''BUY'',
       tr_strategy := ctx_strategy_type ctx, tr_entry_price := filled_price, tr_quantity := filled_qty,
       tr_ai_recommendation := ctx_ai_recommendation ctx, tr_ai_confidence := ctx_ai_confidence ctx,
       tr_ai_target := ctx_ai_target ctx, tr_ai_stop := ctx_ai_stop ctx,
       tr_entry_rsi := ctx_entry_rsi ctx, tr_entry_macd_hist := ctx_entry_macd_hist ctx,
       tr_entry_pattern := ctx_entry_pattern ctx, tr_market_regime := ctx_market_regime ctx,
       tr_entry_at := Some (env_now env), tr_notes := build_trade_notes ctx False\<rparr>"

definition lone_sell_row :: "dm_env \<Rightarrow> string \<Rightarrow> string \<Rightarrow> int \<Rightarrow> real \<Rightarrow> string \<Rightarrow> analysis_context \<Rightarrow> trade_result" where
  "lone_sell_row env symbol order_id filled_qty filled_price exit_reason ctx =
     (default_trade (env_now env))\<lparr>tr_order_id := Some order_id, tr_symbol := symbol,
       tr_name := (case ctx_stock_name ctx of None \<Rightarrow> symbol | Some n \<Rightarrow> n), tr_side := ''SELL'',
       tr_strategy := ctx_strategy_type ctx, tr_exit_price := filled_price, tr_quantity := filled_qty,
       tr_exit_reason := str_or exit_reason ''SIGNAL'', tr_exit_at := Some (env_now env),
       tr_entry_at := Some (env_now env)\<rparr>"

definition record_body ::
  "dm_env \<Rightarrow> string \<Rightarrow> string \<Rightarrow> string \<Rightarrow> int \<Rightarrow> real \<Rightarrow> analysis_context \<Rightarrow> string \<Rightarrow> db \<Rightarrow> (unit \<times> db) res" where
  "record_body env symbol side order_id filled_qty filled_price ctx exit_reason s =
     (if order_id \<noteq> [] \<and> get_by_order_id order_id s \<noteq> None then Inr ((), s)
      else if side = ''BUY'' then
        rbind (db_insert (buy_row env symbol order_id filled_qty filled_price ctx) s) (\<lambda>(_, s'). Inr ((), s'))
      else if side = ''SELL'' then
        (if get_all_open_buys symbol s = [] then
           rbind (db_insert (lone_sell_row env symbol order_id filled_qty filled_price exit_reason ctx) s)
             (\<lambda>(_, s'). Inr ((), s'))
         else
           rbind (session_sell_fill (env_now env) symbol filled_qty filled_price exit_reason (env_now env) s)
             (\<lambda>(_, s'). Inr ((), s')))
      else Inr ((), s))"

definition record_trade_result ::
  "dm_env \<Rightarrow> string \<Rightarrow> string \<Rightarrow> string \<Rightarrow> int \<Rightarrow> real \<Rightarrow> analysis_context \<Rightarrow> string \<Rightarrow> db \<Rightarrow> db" where
  "record_trade_result env symbol side order_id filled_qty filled_price ctx exit_reason s =
     snd (db_session env (record_body env symbol side order_id filled_qty filled_price ctx exit_reason) s)"

text \<open>\<open>_confirm_pending_record\<close>: the path that updates the pending record.\<close>

definition confirm_body ::
  "dm_env \<Rightarrow> nat \<Rightarrow> string \<Rightarrow> string \<Rightarrow> int \<Rightarrow> real \<Rightarrow> analysis_context \<Rightarrow> string \<Rightarrow> db \<Rightarrow> (unit \<times> db) res" where
  "confirm_body env i symbol side filled_qty filled_price ctx exit_reason s =
     (let now = env_now env;
          s1 = db_modify i (\<lambda>r. r\<lparr>tr_status := CONFIRMED, tr_quantity := filled_qty\<rparr>) s
      in if side = ''BUY'' then
           Inr ((), db_modify i (\<lambda>r. r\<lparr>tr_entry_price := filled_price,
              tr_entry_at := Some (case tr_entry_at r of None \<Rightarrow> now | Some e \<Rightarrow> e),
              tr_entry_pattern := (if ostr (tr_entry_pattern r) \<noteq> [] then tr_entry_pattern r else ctx_entry_pattern ctx),
              tr_notes := build_trade_notes ctx False\<rparr>) s1)
         else if side = ''SELL'' then
           (let s2 = db_modify i (\<lambda>r. r\<lparr>tr_exit_price := filled_price, tr_exit_at := Some now,
                       tr_exit_reason := str_or exit_reason ''SIGNAL''\<rparr>) s1
            in rbind (session_sell_fill now symbol filled_qty filled_price exit_reason now s2) (\<lambda>(sf, s3).
                 let applied_qty = num_or (sf_applied sf) filled_qty
                 in Inr ((), db_modify i (\<lambda>r. r\<lparr>tr_quantity := applied_qty,
                      tr_notes := build_sell_fill_notes (sf_partial sf) applied_qty filled_qty
                        (sf_remaining_open sf) (sf_lots sf)\<rparr>) s3)))
         else Inr ((), s1))"

definition confirm_pending_record ::
  "dm_env \<Rightarrow> nat \<Rightarrow> string \<Rightarrow> string \<Rightarrow> int \<Rightarrow> real \<Rightarrow> analysis_context \<Rightarrow> string \<Rightarrow> db \<Rightarrow> db" where
  "confirm_pending_record env i symbol side filled_qty filled_price ctx exit_reason s =
     (if \<not> env_db_up env then s
      else case get_by_id i s of
        None \<Rightarrow> record_trade_result env symbol side [] filled_qty filled_price ctx exit_reason s
      | Some _ \<Rightarrow>
          snd (db_session env (confirm_body env i symbol side filled_qty filled_price ctx exit_reason) s))"

definition fail_row :: "string \<Rightarrow> trade_result \<Rightarrow> trade_result" where
  "fail_row reason r =
     (if tr_status r = PENDING_CONFIRM
      then r\<lparr>tr_status := CONFIRM_FAILED, tr_notes := Some (Note_failed (take 200 reason))\<rparr> else r)"

definition mark_pending_failed :: "dm_env \<Rightarrow> nat option \<Rightarrow> string \<Rightarrow> db \<Rightarrow> db" where
  "mark_pending_failed env pending_id reason s =
     (case pending_id of None \<Rightarrow> s
      | Some i \<Rightarrow> snd (db_session env (\<lambda>s. Inr ((), db_modify i (fail_row reason) s)) s))"

text \<open>
  The handler around the whole confirmation: the pending record is marked as failed and the callback
  is told so. An exception of this call leaves \<open>confirm_and_record\<close>, with the same state.
\<close>

definition confirmation_failed :: "dm_env \<Rightarrow> nat \<Rightarrow> confirm_task \<Rightarrow> py_exn \<Rightarrow> dm_state \<Rightarrow> dm_state" where
  "confirmation_failed env n t e st =
     snd (settle n t False (st\<lparr>dm_db := mark_pending_failed env (ct_pending_id t) (exn_text e) (dm_db st)\<rparr>))"

text \<open>A call of the callback inside the handler: when it raises, the handler calls it once more.\<close>

definition settle_guarded :: "dm_env \<Rightarrow> confirm_task \<Rightarrow> bool \<Rightarrow> dm_state \<Rightarrow> dm_state" where
  "settle_guarded env t ok st =
     (let (r, st1) = settle 0 t ok st
      in case r of Inl e \<Rightarrow> confirmation_failed env 1 t e st1 | Inr _ \<Rightarrow> st1)"

definition confirm_and_record :: "dm_env \<Rightarrow> confirm_task \<Rightarrow> dm_state \<Rightarrow> dm_state" where
  "confirm_and_record env t st =
     (case env_status env (ct_order_id t) of
        Inl e \<Rightarrow> confirmation_failed env 0 t e st
      | Inr None \<Rightarrow> settle_guarded env t False (cancel_unfilled_order (ct_order_id t) st)
      | Inr (Some os) \<Rightarrow>
          (let filled_qty = (case os_filled_qty os of None \<Rightarrow> ct_quantity t | Some q \<Rightarrow> q);
               filled_price = (if os_filled_price os > 0 then os_filled_price os
                               else num_or (os_order_price os) (ct_expected_price t))
           in if filled_qty \<le> 0 then settle_guarded env t False (cancel_unfilled_order (ct_order_id t) st)
              else
                let db' = (case ct_pending_id t of
                       Some i \<Rightarrow> confirm_pending_record env i (ct_symbol t) (ct_side t) filled_qty filled_price
                                   (ct_context t) (ct_exit_reason t) (dm_db st)
                     | None \<Rightarrow> record_trade_result env (ct_symbol t) (ct_side t) (ct_order_id t) filled_qty
                                   filled_price (ct_context t) (ct_exit_reason t) (dm_db st))
                in settle_guarded env t True (st\<lparr>dm_db := db',
                     dm_cache_invalidations := dm_cache_invalidations st + 1\<rparr>)))"

section \<open>Recommendations\<close>

datatype decision_outcome = Executed exec_result | Recommended recommendation_draft

definition create_recommendation :: "settings \<Rightarrow> dm_env \<Rightarrow> trade_signal \<Rightarrow> string \<Rightarrow> recommendation_draft" where
  "create_recommendation cfg env signal analysis_id =
     \<lparr>rec_stock_id = sig_stock_id signal, rec_analysis_id = analysis_id, rec_action = sig_action signal,
      rec_price = opt_or (sig_price signal) 0, rec_quantity = opt_or (sig_quantity signal) 0,
      rec_confidence = sig_confidence signal,
      rec_expires_at = PyDT (wall (env_now env) + RECOMMENDATION_EXPIRE_MIN cfg * minute_us) (aware (env_now env))\<rparr>"

definition execute_signal ::
  "settings \<Rightarrow> dm_env \<Rightarrow> trade_signal \<Rightarrow> string \<Rightarrow> analysis_context \<Rightarrow> settle_callback \<Rightarrow> dm_state \<Rightarrow>
     (decision_outcome \<times> dm_state) res" where
  "execute_signal cfg env signal analysis_id ctx callback st =
     rbind (autonomy_mode_of (AUTONOMY_MODE cfg)) (\<lambda>mode.
       if mode = AUTONOMOUS then
         rbind (execute_autonomous cfg env signal ctx callback st) (\<lambda>(r, st'). Inr (Executed r, st'))
       else
         let draft = create_recommendation cfg env signal analysis_id
         in Inr (Recommended draft, st\<lparr>dm_recommended := dm_recommended st @ [draft]\<rparr>))"

text \<open>
  A submission that raises: nothing is recorded, but the order was handed to the broker if it could be
  built, and then it is the broker's call that raised.
\<close>

definition attempted_order :: "settings \<Rightarrow> trade_signal \<Rightarrow> dm_state \<Rightarrow> dm_state" where
  "attempted_order cfg signal dm =
     (case (autonomy_mode_of (AUTONOMY_MODE cfg), build_order_request signal) of
        (Inr AUTONOMOUS, Inr req) \<Rightarrow> dm\<lparr>dm_placed := dm_placed dm @ [req]\<rparr>
      | _ \<Rightarrow> dm)"

section \<open>Lemmas\<close>

lemma db_session_ok:
  "db_ok s \<Longrightarrow> (\<And>a s'. body s = Inr (a, s') \<Longrightarrow> session_ok s') \<Longrightarrow> db_ok (snd (db_session env body s))"
  by (simp add: db_session_def transaction_ok)

lemma session_ok_put:
  assumes "session_ok s" and "\<And>x. x \<in> set (db_rows s) \<Longrightarrow> tr_id x = tr_id r \<Longrightarrow> tr_order_id x = tr_order_id r"
  shows "session_ok (db_put r s)"
proof -
  have ids: "map tr_id (db_rows (db_put r s)) = map tr_id (db_rows s)"
    and orders: "map tr_order_id (db_rows (db_put r s)) = map tr_order_id (db_rows s)"
    using assms(2) by (auto simp: db_put_def db_modify_def)
  moreover have "ids_ok (db_put r s)" using assms(1) by (simp add: session_ok_def ids_ok_put)
  ultimately show ?thesis using assms(1) by (simp add: session_ok_def orders_ok_def)
qed

lemma session_ok_puts:
  "list_all2 same_lot bs bs' \<Longrightarrow> session_ok s \<Longrightarrow> distinct (map tr_id bs) \<Longrightarrow> set bs \<subseteq> set (db_rows s) \<Longrightarrow>
     session_ok (fold db_put bs' s)"
proof (induction bs bs' arbitrary: s rule: list_all2_induct)
  case Nil
  then show ?case by simp
next
  case (Cons b bs b' bs')
  from Cons.hyps have id: "tr_id b' = tr_id b" and oid: "tr_order_id b' = tr_order_id b"
    by (simp_all add: same_lot_def)
  have "set bs \<subseteq> set (db_rows (db_put b' s))"
    using Cons.prems id by (auto simp: db_put_def db_modify_def image_iff)
  moreover have "tr_order_id x = tr_order_id b'" if "x \<in> set (db_rows s)" "tr_id x = tr_id b'" for x
  proof -
    have "x = b" using that id Cons.prems by (auto simp: session_ok_def ids_ok_def distinct_map dest: inj_onD)
    then show ?thesis by (simp add: oid)
  qed
  ultimately show ?case using Cons.prems by (auto intro!: Cons.IH session_ok_put)
qed

lemma session_ok_insert_all: "session_ok s \<Longrightarrow> db_insert_all cs s = Inr s' \<Longrightarrow> session_ok s'"
  by (induction cs arbitrary: s) (auto simp: rbind_eq_Inr dest: session_ok_insert)

lemma session_ok_sell_fill:
  assumes "session_ok s" and "session_sell_fill now symbol qty price reason closed_at s = Inr (sf, s')"
  shows "session_ok s'"
proof -
  from assms(2) obtain bs cs acc where
    loop: "close_lots now symbol price reason closed_at (get_all_open_buys symbol s) (start_acc qty) = Inr (bs, cs, acc)"
    and ins: "db_insert_all cs (fold db_put bs s) = Inr s'"
    by (auto simp: session_sell_fill_def apply_sell_fill_to_open_buys_def rbind_eq_Inr)
  have "session_ok (fold db_put bs s)"
    using assms(1) close_lots_same [OF loop]
    by (intro session_ok_puts [of "get_all_open_buys symbol s"])
      (auto simp: mem_get_all_open_buys session_ok_def intro: distinct_open_buys)
  then show ?thesis using ins by (rule session_ok_insert_all)
qed

lemma record_body_ok:
  "session_ok s \<Longrightarrow> record_body env symbol side oid qty price ctx reason s = Inr (u, s') \<Longrightarrow> session_ok s'"
  by (auto simp: record_body_def rbind_eq_Inr split: if_splits intro: session_ok_insert session_ok_sell_fill)

lemma confirm_body_ok:
  "session_ok s \<Longrightarrow> confirm_body env i symbol side qty price ctx reason s = Inr (u, s') \<Longrightarrow> session_ok s'"
  by (auto simp: confirm_body_def Let_def rbind_eq_Inr split: if_splits
      intro!: session_ok_modify dest!: session_ok_sell_fill [rotated])

lemma record_trade_result_ok: "db_ok s \<Longrightarrow> db_ok (record_trade_result env symbol side oid qty price ctx reason s)"
  unfolding record_trade_result_def by (rule db_session_ok) (auto intro: record_body_ok db_ok_session)

lemma confirm_pending_record_ok:
  "db_ok s \<Longrightarrow> db_ok (confirm_pending_record env i symbol side qty price ctx reason s)"
  by (auto simp: confirm_pending_record_def record_trade_result_ok split: option.splits
      intro!: db_session_ok intro: confirm_body_ok db_ok_session)

lemma mark_pending_failed_ok: "db_ok s \<Longrightarrow> db_ok (mark_pending_failed env pid reason s)"
  by (auto simp: mark_pending_failed_def fail_row_def split: option.splits
      intro!: db_session_ok session_ok_modify intro: db_ok_session)

lemma create_pending_record_ok:
  "db_ok s \<Longrightarrow> db_ok (snd (create_pending_record env symbol side oid qty price ctx s))"
  unfolding create_pending_record_def Let_def case_prod_beta snd_conv
  by (rule db_session_ok) (auto split: option.splits intro: session_ok_insert db_ok_session)

text \<open>What a step leaves alone.\<close>

lemma settle_simps [simp]:
  "dm_db (snd (settle n t ok st)) = dm_db st" "dm_placed (snd (settle n t ok st)) = dm_placed st"
  "dm_events (snd (settle n t ok st)) = dm_events st" "dm_tasks (snd (settle n t ok st)) = dm_tasks st"
  "dm_cancelled (snd (settle n t ok st)) = dm_cancelled st"
  "dm_settled (snd (settle n t ok st)) = dm_settled st @ (if ct_callback t = None then [] else [(ct_order_id t, ok)])"
  by (simp_all add: settle_def split: option.split)

lemma settle_guarded_simps [simp]:
  "dm_placed (settle_guarded env t ok st) = dm_placed st"
  "dm_events (settle_guarded env t ok st) = dm_events st" "dm_tasks (settle_guarded env t ok st) = dm_tasks st"
  "dm_cancelled (settle_guarded env t ok st) = dm_cancelled st"
  "dm_settled (settle_guarded env t ok st) = dm_settled st @
     (case ct_callback t of None \<Rightarrow> []
      | Some answer \<Rightarrow> (ct_order_id t, ok) # (if is_ok (answer 0) then [] else [(ct_order_id t, False)]))"
  by (auto simp: settle_guarded_def confirmation_failed_def settle_def split: option.split sum.split)

lemma settle_guarded_db:
  "dm_db (settle_guarded env t ok st) = dm_db st \<or>
   (\<exists>answer e. ct_callback t = Some answer \<and> answer 0 = Inl e \<and>
      dm_db (settle_guarded env t ok st) = mark_pending_failed env (ct_pending_id t) (exn_text e) (dm_db st))"
  by (auto simp: settle_guarded_def confirmation_failed_def settle_def split: option.split sum.split)

lemma cancel_simps [simp]:
  "dm_db (cancel_unfilled_order i st) = dm_db st" "dm_placed (cancel_unfilled_order i st) = dm_placed st"
  "dm_events (cancel_unfilled_order i st) = dm_events st" "dm_tasks (cancel_unfilled_order i st) = dm_tasks st"
  "dm_settled (cancel_unfilled_order i st) = dm_settled st"
  "dm_cancelled (cancel_unfilled_order i st) = dm_cancelled st @ (if i = [] then [] else [i])"
  by (simp_all add: cancel_unfilled_order_def)

lemma publish_simps [simp]:
  "dm_db (publish r st) = dm_db st" "dm_placed (publish r st) = dm_placed st"
  "dm_events (publish r st) = dm_events st @ [r]" "dm_tasks (publish r st) = dm_tasks st"
  "dm_settled (publish r st) = dm_settled st"
  by (simp_all add: publish_def)

definition fill_seen :: "dm_env \<Rightarrow> confirm_task \<Rightarrow> bool" where
  "fill_seen env t \<longleftrightarrow> (case env_status env (ct_order_id t) of Inr (Some os) \<Rightarrow>
     0 < (case os_filled_qty os of None \<Rightarrow> ct_quantity t | Some q \<Rightarrow> q) | _ \<Rightarrow> False)"

text \<open>The calls of the callback: a first one that raises inside the handler is followed by a second.\<close>

definition settle_calls :: "dm_env \<Rightarrow> confirm_task \<Rightarrow> (string \<times> bool) list" where
  "settle_calls env t =
     (case ct_callback t of None \<Rightarrow> []
      | Some answer \<Rightarrow> (ct_order_id t, fill_seen env t) #
          (if is_ok (env_status env (ct_order_id t)) \<and> \<not> is_ok (answer 0) then [(ct_order_id t, False)] else []))"

lemma confirm_settled: "dm_settled (confirm_and_record env t st) = dm_settled st @ settle_calls env t"
  by (auto simp: confirm_and_record_def settle_calls_def fill_seen_def confirmation_failed_def Let_def
      split: sum.splits option.splits)

lemma confirm_frame:
  "dm_events (confirm_and_record env t st) = dm_events st" "dm_tasks (confirm_and_record env t st) = dm_tasks st"
  "dm_placed (confirm_and_record env t st) = dm_placed st"
  by (auto simp: confirm_and_record_def confirmation_failed_def Let_def split: sum.splits option.splits)

lemma settle_guarded_ok: "db_ok (dm_db st) \<Longrightarrow> db_ok (dm_db (settle_guarded env t ok st))"
  using settle_guarded_db [of env t ok st] by (auto simp: mark_pending_failed_ok)

lemma confirm_db_ok: "db_ok (dm_db st) \<Longrightarrow> db_ok (dm_db (confirm_and_record env t st))"
  by (auto simp: confirm_and_record_def confirmation_failed_def Let_def mark_pending_failed_ok confirm_pending_record_ok
      record_trade_result_ok intro!: settle_guarded_ok split: sum.splits option.splits)

text \<open>The four ways the autonomous submission ends.\<close>

lemma execute_autonomous_cases:
  assumes "execute_autonomous cfg env signal ctx cb st = Inr (r, st')"
  obtains reason where "r = refusal signal reason" and "st' = publish r st"
  | req ores where "0 < opt_or (sig_quantity signal) 0"
      and "sd_allowed (decide_order_submission cfg (action_value (sig_action signal)))"
      and "sig_action signal = BUY \<longrightarrow> find_existing_pending_buy env (sig_symbol signal) = None"
      and "build_order_request signal = Inr req" and "env_place env req = Inr ores"
      and "(r, st') = after_place_order env signal ctx cb ores (st\<lparr>dm_placed := dm_placed st @ [req]\<rparr>)"
  using assms
  by (auto simp: execute_autonomous_def Let_def rbind_eq_Inr split: if_splits option.splits)

lemma after_place_order_cases:
  assumes "(r, st') = after_place_order env signal ctx cb ores st"
  obtains (accepted) oid where "ores_success ores" and "ores_order_id ores = Some oid" and "oid \<noteq> []"
      and "ex_success r" and "ex_order_id r = oid" and "dm_placed st' = dm_placed st"
      and "dm_events st' = dm_events st @ [r]" and "dm_settled st' = dm_settled st"
      and "dm_db st' = snd (create_pending_record env (sig_symbol signal) (action_value (sig_action signal)) oid
             (opt_or (sig_quantity signal) 0) (opt_or (sig_price signal) 0) ctx (dm_db st))"
      and "dm_tasks st' = dm_tasks st @ [\<lparr>ct_symbol = sig_symbol signal, ct_side = action_value (sig_action signal),
             ct_order_id = oid, ct_quantity = opt_or (sig_quantity signal) 0,
             ct_expected_price = opt_or (sig_price signal) 0, ct_context = ctx, ct_exit_reason = [],
             ct_pending_id = fst (create_pending_record env (sig_symbol signal) (action_value (sig_action signal))
               oid (opt_or (sig_quantity signal) 0) (opt_or (sig_price signal) 0) ctx (dm_db st)),
             ct_callback = cb\<rparr>]"
  | (rejected) "\<not> ex_success r" and "dm_placed st' = dm_placed st" and "dm_events st' = dm_events st @ [r]"
      and "dm_settled st' = dm_settled st" and "dm_db st' = dm_db st" and "dm_tasks st' = dm_tasks st"
proof (cases "ores_success ores \<and> ostr (ores_order_id ores) \<noteq> []")
  case True
  then obtain oid where "ores_order_id ores = Some oid" "oid \<noteq> []"
    by (cases "ores_order_id ores") auto
  with True assms show ?thesis by (intro accepted) (auto simp: after_place_order_def Let_def case_prod_beta)
next
  case False
  with assms show ?thesis
    by (intro rejected) (auto simp: after_place_order_def Let_def split: if_splits)
qed

lemma execute_db_ok:
  assumes "execute_autonomous cfg env signal ctx cb st = Inr (r, st')" and "db_ok (dm_db st)"
  shows "db_ok (dm_db st')"
  using assms(1)
proof (cases rule: execute_autonomous_cases)
  case (1 reason)
  then show ?thesis using assms(2) by simp
next
  case (2 req ores)
  from 2(6) show ?thesis
    by (cases rule: after_place_order_cases) (use assms(2) create_pending_record_ok in auto)
qed

section \<open>Runs\<close>

text \<open>
  One step of the decision maker: a signal is executed (with any settings, clock and broker, and any
  callback of the allowed ones), raises on the way, or one of the background tasks finishes its
  confirmation.
\<close>

inductive dm_step :: "(settle_callback \<Rightarrow> bool) \<Rightarrow> dm_state \<Rightarrow> dm_state \<Rightarrow> bool" for allowed :: "settle_callback \<Rightarrow> bool" where
  submit: "allowed cb \<Longrightarrow> execute_signal cfg env signal analysis_id ctx cb st = Inr (r, st') \<Longrightarrow> dm_step allowed st st'"
| submit_raised: "execute_signal cfg env signal analysis_id ctx cb st = Inl e \<Longrightarrow>
     dm_step allowed st (attempted_order cfg signal st)"
| confirm: "t \<in> set (dm_tasks st) \<Longrightarrow>
     dm_step allowed st (confirm_and_record env t (st\<lparr>dm_tasks := remove1 t (dm_tasks st)\<rparr>))"

inductive dm_run :: "(settle_callback \<Rightarrow> bool) \<Rightarrow> dm_state \<Rightarrow> dm_state \<Rightarrow> bool" for allowed :: "settle_callback \<Rightarrow> bool" where
  dm_refl: "dm_run allowed st st"
| dm_trans: "dm_run allowed st st' \<Longrightarrow> dm_step allowed st' st'' \<Longrightarrow> dm_run allowed st st''"

inductive_cases dm_stepE: "dm_step allowed st st'"
inductive_simps dm_step_simps: "dm_step allowed st st'"

definition fresh_dm :: dm_state where
  "fresh_dm = \<lparr>dm_db = empty_db, dm_placed = [], dm_cancelled = [], dm_settled = [], dm_events = [],
     dm_recommended = [], dm_tasks = [], dm_untradeable = [], dm_cache_invalidations = 0\<rparr>"

text \<open>
  Order identifiers the broker accepted, those whose task is still running, those the callback was
  called for, and those it was told to be filled.
\<close>

definition accepted_ids :: "dm_state \<Rightarrow> string multiset" where
  "accepted_ids st = mset (map ex_order_id (filter ex_success (dm_events st)))"

definition running_ids :: "dm_state \<Rightarrow> string multiset" where
  "running_ids st = mset (map ct_order_id (dm_tasks st))"

definition called_ids :: "dm_state \<Rightarrow> string multiset" where
  "called_ids st = mset (map fst (dm_settled st))"

definition filled_ids :: "dm_state \<Rightarrow> string multiset" where
  "filled_ids st = mset (map fst (filter snd (dm_settled st)))"

text \<open>A callback whose first call does not raise.\<close>

definition calm :: "settle_callback \<Rightarrow> bool" where
  "calm cb \<longleftrightarrow> (case cb of None \<Rightarrow> True | Some answer \<Rightarrow> is_ok (answer 0))"

definition dm_ok :: "(settle_callback \<Rightarrow> bool) \<Rightarrow> dm_state \<Rightarrow> bool" where
  "dm_ok allowed st \<longleftrightarrow> db_ok (dm_db st) \<and> (\<forall>t \<in> set (dm_tasks st). allowed (ct_callback t)) \<and>
     filled_ids st + running_ids st \<subseteq># accepted_ids st \<and>
     called_ids st + (running_ids st + running_ids st) \<subseteq># accepted_ids st + accepted_ids st \<and>
     ((\<forall>cb. allowed cb \<longrightarrow> calm cb) \<longrightarrow> called_ids st + running_ids st \<subseteq># accepted_ids st)"

lemmas ids_defs = accepted_ids_def running_ids_def called_ids_def filled_ids_def

lemma dm_ok_same:
  "dm_ok allowed st \<Longrightarrow> db_ok (dm_db st') \<Longrightarrow> dm_tasks st' = dm_tasks st \<Longrightarrow> dm_settled st' = dm_settled st \<Longrightarrow>
     accepted_ids st' = accepted_ids st \<Longrightarrow> dm_ok allowed st'"
  by (simp add: dm_ok_def running_ids_def called_ids_def filled_ids_def)

lemma dm_ok_started:
  assumes "dm_ok allowed st" and "db_ok (dm_db st')" and "dm_tasks st' = dm_tasks st @ [t]" and "allowed (ct_callback t)"
    and "dm_settled st' = dm_settled st" and "accepted_ids st' = add_mset (ct_order_id t) (accepted_ids st)"
  shows "dm_ok allowed st'"
  using assms by (auto simp: dm_ok_def running_ids_def called_ids_def filled_ids_def)

lemma dm_ok_execute:
  assumes "execute_autonomous cfg env signal ctx cb st = Inr (r, st')" and "dm_ok allowed st" and "allowed cb"
  shows "dm_ok allowed st'"
proof -
  have db: "db_ok (dm_db st')" using execute_db_ok [OF assms(1)] assms(2) by (simp add: dm_ok_def)
  show ?thesis using assms(1)
  proof (cases rule: execute_autonomous_cases)
    case (1 reason)
    then show ?thesis using db by (intro dm_ok_same [OF assms(2)]) (simp_all add: accepted_ids_def refusal_def)
  next
    case (2 req ores)
    from 2(6) show ?thesis
    proof (cases rule: after_place_order_cases)
      case (accepted oid)
      then show ?thesis using db assms(3)
        by (intro dm_ok_started [OF assms(2) db, of "last (dm_tasks st')"]) (simp_all add: accepted_ids_def)
    next
      case rejected
      then show ?thesis using db by (intro dm_ok_same [OF assms(2)]) (simp_all add: accepted_ids_def)
    qed
  qed
qed

lemma settle_guarded_calm [simp]: "calm (ct_callback t) \<Longrightarrow> dm_db (settle_guarded env t ok st) = dm_db st"
  using settle_guarded_db [of env t ok st] by (auto simp: calm_def is_ok_def)

text \<open>The calls of one confirmation: at most two, at most one of them for a fill.\<close>

lemma settle_calls_ids:
  "mset (map fst (filter snd (settle_calls env t))) \<subseteq># {#ct_order_id t#}"
  "mset (map fst (settle_calls env t)) \<subseteq># {#ct_order_id t#} + {#ct_order_id t#}"
  "calm (ct_callback t) \<Longrightarrow> mset (map fst (settle_calls env t)) \<subseteq># {#ct_order_id t#}"
  by (auto simp: settle_calls_def calm_def split: option.splits)

lemma settle_pays:
  assumes "F \<subseteq># K" and "A + (K + T) \<subseteq># C"
  shows "(A + F) + T \<subseteq># (C :: 'a multiset)"
proof -
  have "(A + F) + T \<subseteq># A + (K + T)" using assms(1) by (simp add: add.assoc)
  then show ?thesis using assms(2) by (rule subset_mset.order_trans)
qed

lemma dm_ok_confirm:
  assumes "t \<in> set (dm_tasks st)" and "dm_ok allowed st"
  shows "dm_ok allowed (confirm_and_record env t (st\<lparr>dm_tasks := remove1 t (dm_tasks st)\<rparr>))" (is "dm_ok allowed ?st")
proof -
  let ?i = "{#ct_order_id t#}" and ?C = "settle_calls env t"
  have "mset (dm_tasks st) = add_mset t (mset (remove1 t (dm_tasks st)))" using assms(1) by simp
  then have run: "running_ids st = ?i + running_ids ?st"
    by (simp only: running_ids_def mset_map image_mset_add_mset confirm_frame) simp
  have acc: "accepted_ids ?st = accepted_ids st" by (simp add: accepted_ids_def confirm_frame)
  have called: "called_ids ?st = called_ids st + mset (map fst ?C)" by (simp add: called_ids_def confirm_settled)
  have filled: "filled_ids ?st = filled_ids st + mset (map fst (filter snd ?C))" by (simp add: filled_ids_def confirm_settled)
  have ok: "filled_ids st + (?i + running_ids ?st) \<subseteq># accepted_ids st"
    "called_ids st + ((?i + ?i) + (running_ids ?st + running_ids ?st)) \<subseteq># accepted_ids st + accepted_ids st"
    "(\<forall>cb. allowed cb \<longrightarrow> calm cb) \<longrightarrow> called_ids st + (?i + running_ids ?st) \<subseteq># accepted_ids st"
    "allowed (ct_callback t)"
    using assms unfolding dm_ok_def run by (simp_all add: ac_simps)
  have "db_ok (dm_db ?st)" using assms(2) by (intro confirm_db_ok) (simp add: dm_ok_def)
  moreover have "\<forall>t \<in> set (dm_tasks ?st). allowed (ct_callback t)"
    using assms(2) set_remove1_subset by (fastforce simp: dm_ok_def confirm_frame)
  moreover have "filled_ids ?st + running_ids ?st \<subseteq># accepted_ids st"
    unfolding filled by (rule settle_pays [OF settle_calls_ids(1) ok(1)])
  moreover have "called_ids ?st + (running_ids ?st + running_ids ?st) \<subseteq># accepted_ids st + accepted_ids st"
    unfolding called by (rule settle_pays [OF settle_calls_ids(2) ok(2)])
  moreover have "(\<forall>cb. allowed cb \<longrightarrow> calm cb) \<longrightarrow> called_ids ?st + running_ids ?st \<subseteq># accepted_ids st"
    unfolding called using ok(3,4) settle_pays [OF settle_calls_ids(3)] by blast
  ultimately show ?thesis unfolding dm_ok_def acc by blast
qed

lemma attempted_order_frame:
  "dm_db (attempted_order cfg s st) = dm_db st" "dm_tasks (attempted_order cfg s st) = dm_tasks st"
  "dm_settled (attempted_order cfg s st) = dm_settled st" "dm_events (attempted_order cfg s st) = dm_events st"
  by (simp_all add: attempted_order_def split: sum.split autonomy_mode.split)

lemma dm_ok_signal:
  assumes "execute_signal cfg env signal analysis_id ctx cb st = Inr (r, st')" and "dm_ok allowed st" and "allowed cb"
  shows "dm_ok allowed st'"
proof -
  from assms(1) obtain mode where "autonomy_mode_of (AUTONOMY_MODE cfg) = Inr mode"
    and run: "(if mode = AUTONOMOUS then
         rbind (execute_autonomous cfg env signal ctx cb st) (\<lambda>(r, st'). Inr (Executed r, st'))
       else
         let draft = create_recommendation cfg env signal analysis_id
         in Inr (Recommended draft, st\<lparr>dm_recommended := dm_recommended st @ [draft]\<rparr>)) = Inr (r, st')"
    by (auto simp: execute_signal_def rbind_eq_Inr)
  show ?thesis
  proof (cases "mode = AUTONOMOUS")
    case True
    with run obtain r2 where "execute_autonomous cfg env signal ctx cb st = Inr (r2, st')"
      by (auto simp: rbind_eq_Inr)
    then show ?thesis using assms(2,3) by (rule dm_ok_execute)
  next
    case False
    with run have "st' = st\<lparr>dm_recommended := dm_recommended st @ [create_recommendation cfg env signal analysis_id]\<rparr>"
      by (simp add: Let_def)
    then show ?thesis using assms(2) by (intro dm_ok_same [OF assms(2)]) (simp_all add: accepted_ids_def dm_ok_def)
  qed
qed

lemma dm_ok_step: "dm_step allowed st st' \<Longrightarrow> dm_ok allowed st \<Longrightarrow> dm_ok allowed st'"
proof (induction rule: dm_step.induct)
  case (submit cb cfg env signal analysis_id ctx st r st')
  then show ?case by (blast intro: dm_ok_signal)
next
  case (submit_raised cfg env signal analysis_id ctx cb st e)
  then show ?case using dm_ok_same [of allowed st "attempted_order cfg signal st"]
    by (simp add: attempted_order_frame accepted_ids_def dm_ok_def)
next
  case (confirm t st env)
  then show ?case by (rule dm_ok_confirm)
qed

lemma dm_ok_run: "dm_run allowed st st' \<Longrightarrow> dm_ok allowed st \<Longrightarrow> dm_ok allowed st'"
  by (induction rule: dm_run.induct) (auto intro: dm_ok_step)

lemma dm_ok_fresh: "dm_ok allowed fresh_dm"
  by (simp add: dm_ok_def fresh_dm_def ids_defs empty_db_ok)

section \<open>Confirmed records stay confirmed\<close>

definition keeps_confirmed :: "db \<Rightarrow> db \<Rightarrow> bool" where
  "keeps_confirmed s s' \<longleftrightarrow> (\<forall>r \<in> set (db_rows s). tr_status r = CONFIRMED \<longrightarrow>
     (\<exists>r' \<in> set (db_rows s'). tr_id r' = tr_id r \<and> tr_status r' = CONFIRMED))"

lemma keeps_refl [intro]: "keeps_confirmed s s"
  by (auto simp: keeps_confirmed_def)

lemma keeps_trans [trans]: "keeps_confirmed s s' \<Longrightarrow> keeps_confirmed s' s'' \<Longrightarrow> keeps_confirmed s s''"
  unfolding keeps_confirmed_def by metis

lemma keeps_modify:
  "(\<And>r. tr_status r = CONFIRMED \<Longrightarrow> tr_status (f r) = CONFIRMED) \<Longrightarrow> (\<And>r. tr_id (f r) = tr_id r) \<Longrightarrow>
     keeps_confirmed s (db_modify i f s)"
  unfolding keeps_confirmed_def
proof (intro ballI impI)
  fix x assume f: "\<And>r. tr_status r = CONFIRMED \<Longrightarrow> tr_status (f r) = CONFIRMED" "\<And>r. tr_id (f r) = tr_id r"
    and x: "x \<in> set (db_rows s)" "tr_status x = CONFIRMED"
  let ?x = "if tr_id x = i then f x else x"
  have "?x \<in> set (db_rows (db_modify i f s))" using x(1) by (force simp: db_modify_def)
  moreover have "tr_id ?x = tr_id x \<and> tr_status ?x = CONFIRMED" using x f by simp
  ultimately show "\<exists>r' \<in> set (db_rows (db_modify i f s)). tr_id r' = tr_id x \<and> tr_status r' = CONFIRMED" by blast
qed

lemma keeps_insert: "db_insert r s = Inr (i, s') \<Longrightarrow> keeps_confirmed s s'"
  by (auto simp: db_insert_def keeps_confirmed_def split: if_splits)

lemma keeps_insert_all: "db_insert_all cs s = Inr s' \<Longrightarrow> keeps_confirmed s s'"
  by (induction cs arbitrary: s) (auto simp: rbind_eq_Inr dest: keeps_insert intro: keeps_trans)

lemma keeps_put:
  assumes "tr_status r = CONFIRMED" shows "keeps_confirmed s (db_put r s)"
  unfolding keeps_confirmed_def
proof (intro ballI impI)
  fix x assume x: "x \<in> set (db_rows s)" "tr_status x = CONFIRMED"
  let ?x = "if tr_id x = tr_id r then r else x"
  have "?x \<in> set (db_rows (db_put r s))" using x(1) by (force simp: db_put_def db_modify_def)
  moreover have "tr_id ?x = tr_id x \<and> tr_status ?x = CONFIRMED" using x assms by simp
  ultimately show "\<exists>r' \<in> set (db_rows (db_put r s)). tr_id r' = tr_id x \<and> tr_status r' = CONFIRMED" by blast
qed

lemma keeps_puts: "list_all (\<lambda>r. tr_status r = CONFIRMED) bs \<Longrightarrow> keeps_confirmed s (fold db_put bs s)"
  by (induction bs arbitrary: s) (auto intro: keeps_trans keeps_put)

lemma keeps_sell_fill:
  assumes "session_sell_fill now symbol qty price reason closed_at s = Inr (sf, s')"
  shows "keeps_confirmed s s'"
proof -
  from assms obtain bs cs acc where
    loop: "close_lots now symbol price reason closed_at (get_all_open_buys symbol s) (start_acc qty) = Inr (bs, cs, acc)"
    and ins: "db_insert_all cs (fold db_put bs s) = Inr s'"
    by (auto simp: session_sell_fill_def apply_sell_fill_to_open_buys_def rbind_eq_Inr)
  have "list_all (\<lambda>r. tr_status r = CONFIRMED) (get_all_open_buys symbol s)"
    by (simp add: list_all_iff mem_get_all_open_buys is_open_buy_def)
  with close_lots_same [OF loop] have "list_all (\<lambda>r. tr_status r = CONFIRMED) bs"
    by (auto simp: same_lot_def list_all2_conv_all_nth list_all_length)
  then show ?thesis using ins by (blast intro: keeps_trans keeps_puts keeps_insert_all)
qed

lemma keeps_commit: "keeps_confirmed s (db_commit s)"
  by (force simp: keeps_confirmed_def db_commit_def)

lemma keeps_session:
  "(\<And>a s'. body s = Inr (a, s') \<Longrightarrow> keeps_confirmed s s') \<Longrightarrow> keeps_confirmed s (snd (db_session env body s))"
  by (auto simp: db_session_def transaction_def split: sum.splits intro: keeps_trans keeps_commit)

lemma keeps_record: "keeps_confirmed s (record_trade_result env symbol side oid qty price ctx reason s)"
  unfolding record_trade_result_def
  by (rule keeps_session) (auto simp: record_body_def rbind_eq_Inr split: if_splits
      intro: keeps_insert keeps_sell_fill)

lemma keeps_confirm_body:
  assumes "confirm_body env i symbol side qty price ctx reason s = Inr (u, s')"
  shows "keeps_confirmed s s'"
proof -
  let ?s1 = "db_modify i (\<lambda>r. r\<lparr>tr_status := CONFIRMED, tr_quantity := qty\<rparr>) s"
  have s1: "keeps_confirmed s ?s1" by (rule keeps_modify) simp_all
  consider "side = ''BUY''" | "side = ''SELL''" | "side \<noteq> ''BUY''" "side \<noteq> ''SELL''" by blast
  then show ?thesis
  proof cases
    case 1
    with assms have "keeps_confirmed ?s1 s'"
      by (auto simp: confirm_body_def Let_def intro: keeps_modify)
    with s1 show ?thesis by (rule keeps_trans)
  next
    case 2
    let ?s2 = "db_modify i (\<lambda>r. r\<lparr>tr_exit_price := price, tr_exit_at := Some (env_now env),
                 tr_exit_reason := str_or reason ''SIGNAL''\<rparr>) ?s1"
    from 2 assms obtain sf s3 where
      fill: "session_sell_fill (env_now env) symbol qty price reason (env_now env) ?s2 = Inr (sf, s3)"
      and last: "s' = db_modify i (\<lambda>r. r\<lparr>tr_quantity := num_or (sf_applied sf) qty,
                      tr_notes := build_sell_fill_notes (sf_partial sf) (num_or (sf_applied sf) qty) qty
                        (sf_remaining_open sf) (sf_lots sf)\<rparr>) s3"
      by (auto simp: confirm_body_def Let_def rbind_eq_Inr)
    have "keeps_confirmed ?s1 ?s2" by (rule keeps_modify) simp_all
    moreover have "keeps_confirmed ?s2 s3" using fill by (rule keeps_sell_fill)
    moreover have "keeps_confirmed s3 s'" unfolding last by (rule keeps_modify) simp_all
    ultimately show ?thesis using s1 by (blast intro: keeps_trans)
  next
    case 3
    with assms s1 show ?thesis by (simp add: confirm_body_def)
  qed
qed

lemma keeps_fail: "keeps_confirmed s (mark_pending_failed env pid reason s)"
  by (auto simp: mark_pending_failed_def fail_row_def split: option.splits intro!: keeps_session keeps_modify)

lemma keeps_pending: "keeps_confirmed s (snd (create_pending_record env symbol side oid qty price ctx s))"
  unfolding create_pending_record_def Let_def case_prod_beta snd_conv
  by (rule keeps_session) (auto split: option.splits intro: keeps_insert)

lemma keeps_confirm_pending:
  "keeps_confirmed s (confirm_pending_record env i symbol side qty price ctx reason s)"
proof -
  have "keeps_confirmed s
      (snd (db_session env (confirm_body env i symbol side qty price ctx reason) s))"
    by (rule keeps_session) (rule keeps_confirm_body)
  then show ?thesis
    by (auto simp: confirm_pending_record_def split: option.splits intro: keeps_record)
qed

lemma keeps_settle: "keeps_confirmed s (dm_db st) \<Longrightarrow> keeps_confirmed s (dm_db (settle_guarded env t ok st))"
  using settle_guarded_db [of env t ok st] keeps_trans [OF _ keeps_fail] by auto

lemma keeps_confirm: "keeps_confirmed (dm_db st) (dm_db (confirm_and_record env t st))"
  using keeps_refl keeps_fail keeps_record keeps_confirm_pending
  by (simp add: confirm_and_record_def confirmation_failed_def Let_def keeps_settle split: sum.split option.split)

lemma keeps_execute:
  assumes "execute_autonomous cfg env signal ctx cb st = Inr (r, st')"
  shows "keeps_confirmed (dm_db st) (dm_db st')"
  using assms
proof (cases rule: execute_autonomous_cases)
  case (1 reason)
  then show ?thesis by auto
next
  case (2 req ores)
  from 2(6) show ?thesis by (cases rule: after_place_order_cases) (auto simp: keeps_pending)
qed

lemma keeps_step: "dm_step allowed st st' \<Longrightarrow> keeps_confirmed (dm_db st) (dm_db st')"
proof (induction rule: dm_step.induct)
  case (submit cb cfg env signal analysis_id ctx st r st')
  then show ?case
    by (auto simp: execute_signal_def rbind_eq_Inr Let_def split: if_splits intro: keeps_execute)
next
  case (submit_raised cfg env signal analysis_id ctx cb st e)
  show ?case by (auto simp: attempted_order_frame)
next
  case (confirm t st env)
  show ?case using keeps_confirm [of "st\<lparr>dm_tasks := remove1 t (dm_tasks st)\<rparr>"] by simp
qed

section \<open>Properties\<close>

definition sample_env :: dm_env where
  "sample_env = \<lparr>env_now = PyDT (9 * day_us) True, env_db_up = True,
     env_place = (\<lambda>_. Inr \<lparr>ores_success = True, ores_order_id = Some ''B1'', ores_message = []\<rparr>),
     env_pending = Inr [],
     env_status = (\<lambda>oid. Inr (Some \<lparr>os_order_id = oid, os_symbol = ''005930'', os_filled_qty = Some 10,
       os_filled_price = 71000, os_remaining_qty = 0, os_order_price = 71000\<rparr>))\<rparr>"

definition sample_signal :: "signal_action \<Rightarrow> trade_signal" where
  "sample_signal a = \<lparr>sig_symbol = ''005930'', sig_stock_id = ''S1'', sig_action = a, sig_strength = 8 / 10,
     sig_price = Some 70000, sig_quantity = Some 10, sig_target = Some 75000, sig_stop = Some 68000,
     sig_urgency = IMMEDIATE, sig_strategy = ''STABLE_SHORT'', sig_confidence = 8 / 10,
     sig_market = None, sig_horizon = None, sig_reservation_id = None, sig_reserved_amount = 0\<rparr>"

lemma sample_buy_request:
  "build_order_request (sample_signal BUY) = Inr \<lparr>or_symbol = ''005930'', or_market = KRX, or_side = Side_BUY,
     or_type = LIMIT, or_session = REGULAR, or_quantity = 10, or_price = Some 70000\<rparr>"
  by (simp add: build_order_request_def sample_signal_def market_of_def order_side_of_def
      validate_order_request_def upper_char_def Let_def)

lemma sample_buy_allowed: "sd_allowed (decide_order_submission default_settings ''BUY'')"
  by (simp add: submission_allowed_iff default_settings_def current_order_submission_mode_def
      normalize_order_submission_mode_def valid_submission_modes_def str_or_def upper_char_def)

lemma sample_buy_run:
  "execute_autonomous default_settings sample_env (sample_signal BUY) empty_context (Some (\<lambda>_. Inr ())) fresh_dm =
     Inr (after_place_order sample_env (sample_signal BUY) empty_context (Some (\<lambda>_. Inr ()))
       \<lparr>ores_success = True, ores_order_id = Some ''B1'', ores_message = []\<rparr>
       (fresh_dm\<lparr>dm_placed := [\<lparr>or_symbol = ''005930'', or_market = KRX, or_side = Side_BUY,
          or_type = LIMIT, or_session = REGULAR, or_quantity = 10, or_price = Some 70000\<rparr>]\<rparr>))"
  using sample_buy_allowed sample_buy_request
  by (simp add: execute_autonomous_def find_existing_pending_buy_def sample_env_def sample_signal_def fresh_dm_def)

text \<open>
  C1: an order reaches the broker only through every gate: a positive quantity, an allowed
  submission mode and, for a buy, no buy order of the same symbol still pending; then exactly one
  valid request is placed, for the signal's symbol, side and quantity.
\<close>

theorem order_placed_only_through_gates:
  assumes "execute_autonomous cfg env signal ctx cb st = Inr (r, st')" and "dm_placed st' \<noteq> dm_placed st"
  shows "TRADING_ENABLED cfg \<and> current_order_submission_mode cfg \<noteq> ''READ_ONLY'' \<and>
    \<not> (current_order_submission_mode cfg = ''SELL_ONLY'' \<and> sig_action signal = BUY) \<and>
    (sig_action signal = BUY \<longrightarrow> (\<forall>orders o1. env_pending env = Inr orders \<longrightarrow> o1 \<in> set orders \<longrightarrow>
       \<not> matches_pending_buy (normalize_krx_symbol (sig_symbol signal)) o1)) \<and>
    (\<exists>req. dm_placed st' = dm_placed st @ [req] \<and> or_symbol req = sig_symbol signal \<and> 0 < or_quantity req \<and>
       sig_quantity signal = Some (or_quantity req) \<and> (or_side req = Side_BUY \<longleftrightarrow> sig_action signal = BUY))"
  using assms(1)
proof (cases rule: execute_autonomous_cases)
  case (1 reason)
  then show ?thesis using assms(2) by simp
next
  case (2 req ores)
  have placed: "dm_placed st' = dm_placed st @ [req]"
    using 2(6) by (cases rule: after_place_order_cases) simp_all
  have "or_symbol req = sig_symbol signal \<and> or_quantity req = opt_or (sig_quantity signal) 0 \<and>
      (or_side req = Side_BUY \<longleftrightarrow> sig_action signal = BUY)"
    using 2(4) by (cases "sig_action signal")
      (auto simp: build_order_request_def Let_def rbind_eq_Inr order_side_of_def validate_order_request_def
        split: if_splits)
  moreover have "sig_quantity signal = Some (opt_or (sig_quantity signal) 0)"
    using 2(1) by (cases "sig_quantity signal") (auto simp: num_or_def split: if_splits)
  moreover have "upper (action_value (sig_action signal)) = action_value (sig_action signal)"
    by (cases "sig_action signal") (simp_all add: upper_char_def)
  moreover have "\<forall>orders o1. env_pending env = Inr orders \<longrightarrow> o1 \<in> set orders \<longrightarrow>
       \<not> matches_pending_buy (normalize_krx_symbol (sig_symbol signal)) o1" if "sig_action signal = BUY"
    using 2(3) that by (auto simp: find_existing_pending_buy_def find_None_iff)
  ultimately show ?thesis using placed 2(1,2) by (auto simp: submission_allowed_iff)
qed

lemma order_placed_only_through_gates_witness:
  "TRADING_ENABLED default_settings \<and> (\<exists>st' :: dm_state. dm_placed st' \<noteq> dm_placed fresh_dm \<and>
     (\<exists>req :: order_request. dm_placed st' = dm_placed fresh_dm @ [req] \<and> sig_quantity (sample_signal BUY) = Some (or_quantity req)))"
proof -
  obtain r st' where run: "execute_autonomous default_settings sample_env (sample_signal BUY) empty_context (Some (\<lambda>_. Inr ()))
      fresh_dm = Inr (r, st')" and after: "(r, st') = after_place_order sample_env (sample_signal BUY) empty_context (Some (\<lambda>_. Inr ()))
       \<lparr>ores_success = True, ores_order_id = Some ''B1'', ores_message = []\<rparr>
       (fresh_dm\<lparr>dm_placed := [\<lparr>or_symbol = ''005930'', or_market = KRX, or_side = Side_BUY,
          or_type = LIMIT, or_session = REGULAR, or_quantity = 10, or_price = Some 70000\<rparr>]\<rparr>)"
    using sample_buy_run by (metis prod.exhaust)
  have "dm_placed st' \<noteq> dm_placed fresh_dm"
    using after by (cases rule: after_place_order_cases) (simp_all add: fresh_dm_def)
  with order_placed_only_through_gates [OF run] show ?thesis by blast
qed

text \<open>
  C2: Whatever signals are executed, raise on the way or are refused, and whichever confirmations
  finish, in any interleaving, with any answers of the broker and any callbacks, the table keeps its
  invariant (unique row and order ids, naive times), no order is reported as filled more often than
  the broker accepted it, and the callback is called at most twice per accepted order: once, unless
  its first call raises.
\<close>

theorem runs_keep_books:
  assumes "dm_run allowed fresh_dm st"
  defines "accepted \<equiv> mset (map ex_order_id (filter ex_success (dm_events st)))"
  shows "db_ok (dm_db st) \<and> mset (map fst (filter snd (dm_settled st))) \<subseteq># accepted \<and>
    mset (map fst (dm_settled st)) \<subseteq># accepted + accepted \<and>
    ((\<forall>answer. allowed (Some answer) \<longrightarrow> (\<exists>u. answer 0 = Inr u)) \<longrightarrow> mset (map fst (dm_settled st)) \<subseteq># accepted)"
proof -
  have "dm_ok allowed st" using dm_ok_run [OF assms(1) dm_ok_fresh] .
  then have ok: "db_ok (dm_db st)" "filled_ids st + running_ids st \<subseteq># accepted"
    "called_ids st + (running_ids st + running_ids st) \<subseteq># accepted + accepted"
    "(\<forall>cb. allowed cb \<longrightarrow> calm cb) \<longrightarrow> called_ids st + running_ids st \<subseteq># accepted"
    by (simp_all add: dm_ok_def accepted_def accepted_ids_def)
  have calm: "\<forall>cb. allowed cb \<longrightarrow> calm cb" if "\<forall>answer. allowed (Some answer) \<longrightarrow> (\<exists>u. answer 0 = Inr u)"
    using that by (force simp: calm_def is_ok_def split: option.split sum.split)
  note left = subset_mset.order_trans [OF mset_subset_eq_add_left]
  show ?thesis using ok(1) left [OF ok(2)] left [OF ok(3)] ok(4) calm left
    unfolding called_ids_def filled_ids_def by blast
qed

lemma sample_run: "\<exists>st. dm_run calm fresh_dm st \<and> dm_placed st \<noteq> []"
proof -
  obtain r st' where run: "execute_autonomous default_settings sample_env (sample_signal BUY) empty_context (Some (\<lambda>_. Inr ()))
      fresh_dm = Inr (r, st')" and after: "(r, st') = after_place_order sample_env (sample_signal BUY) empty_context (Some (\<lambda>_. Inr ()))
       \<lparr>ores_success = True, ores_order_id = Some ''B1'', ores_message = []\<rparr>
       (fresh_dm\<lparr>dm_placed := [\<lparr>or_symbol = ''005930'', or_market = KRX, or_side = Side_BUY,
          or_type = LIMIT, or_session = REGULAR, or_quantity = 10, or_price = Some 70000\<rparr>]\<rparr>)"
    using sample_buy_run by (metis prod.exhaust)
  have "dm_step calm fresh_dm st'"
    using run by (intro dm_step.submit [of calm "Some (\<lambda>_. Inr ())" default_settings sample_env "sample_signal BUY" "[]" empty_context])
      (simp_all add: execute_signal_def autonomy_mode_of_def default_settings_def calm_def is_ok_def)
  then have "dm_run calm fresh_dm st'" by (blast intro: dm_run.intros)
  moreover have "dm_placed st' \<noteq> []"
    using after by (cases rule: after_place_order_cases) (simp_all add: fresh_dm_def)
  ultimately show ?thesis by blast
qed

lemma runs_keep_books_witness:
  "\<exists>st :: dm_state. dm_placed st \<noteq> [] \<and> db_ok (dm_db st) \<and>
     mset (map fst (dm_settled st)) \<subseteq># mset (map ex_order_id (filter ex_success (dm_events st)))"
proof -
  obtain st where st: "dm_run calm fresh_dm st" "dm_placed st \<noteq> []" using sample_run by blast
  have "\<forall>answer. calm (Some answer) \<longrightarrow> (\<exists>u. answer 0 = Inr u)"
    by (auto simp: calm_def is_ok_def split: sum.splits)
  with runs_keep_books [OF st(1)] st(2) show ?thesis by blast
qed

text \<open>
  The second call: a fill whose callback raises is settled with success and then without, although the
  order was filled and its record is confirmed.
\<close>

lemma raising_callback_settles_twice:
  assumes "env_status env (ct_order_id t) = Inr (Some os)" and "fill_seen env t"
    and "ct_callback t = Some answer" and "answer 0 = Inl e"
  shows "dm_settled (confirm_and_record env t st) = dm_settled st @ [(ct_order_id t, True), (ct_order_id t, False)]"
  using assms by (simp add: confirm_settled settle_calls_def is_ok_def)

text \<open>
  No step of the decision maker takes a confirmed record back: in every run a record that is
  CONFIRMED keeps its row and its status, whatever fails later.
\<close>

lemma confirmed_is_final:
  assumes "dm_run allowed st st'" and "r \<in> set (db_rows (dm_db st))" and "tr_status r = CONFIRMED"
  shows "\<exists>r' \<in> set (db_rows (dm_db st')). tr_id r' = tr_id r \<and> tr_status r' = CONFIRMED"
proof -
  from assms(1) have "keeps_confirmed (dm_db st) (dm_db st')"
    by (induction rule: dm_run.induct) (auto intro: keeps_trans keeps_step)
  with assms(2,3) show ?thesis by (auto simp: keeps_confirmed_def)
qed

lemma confirmed_is_final_witness:
  "\<exists>r' \<in> set (db_rows (dm_db (fresh_dm\<lparr>dm_db := sample_lots_db\<rparr>))). tr_id r' = 1 \<and> tr_status r' = CONFIRMED"
proof -
  have "\<exists>r' \<in> set (db_rows (dm_db (fresh_dm\<lparr>dm_db := sample_lots_db\<rparr>))).
      tr_id r' = tr_id (sample_lot 1 10 70000 1) \<and> tr_status r' = CONFIRMED"
    by (rule confirmed_is_final [OF dm_refl]) (simp_all add: sample_lots_db_def)
  then show ?thesis by simp
qed

text \<open>
  A confirmation task calls its callback with success first exactly when the broker reported a fill,
  a second time only when the first call raised, and asks the broker to cancel the order exactly when
  the broker answered without a fill.
\<close>

lemma confirmation_outcome:
  "dm_settled (confirm_and_record env t st) = dm_settled st @ settle_calls env t \<and>
   dm_cancelled (confirm_and_record env t st) =
     dm_cancelled st @ (if ct_order_id t \<noteq> [] \<and> is_ok (env_status env (ct_order_id t)) \<and> \<not> fill_seen env t
                        then [ct_order_id t] else [])"
  by (rule conjI, rule confirm_settled)
    (auto simp: confirm_and_record_def fill_seen_def confirmation_failed_def is_ok_def Let_def
      split: sum.splits option.splits)

lemma create_pending_record_spec:
  assumes "env_db_up env" and "oid \<noteq> []"
  shows "\<exists>row \<in> set (db_rows (snd (create_pending_record env symbol side oid qty price ctx s))).
    tr_order_id row = Some oid \<and> fst (create_pending_record env symbol side oid qty price ctx s) = Some (tr_id row) \<and>
    (get_by_order_id oid s = None \<longrightarrow> tr_status row = PENDING_CONFIRM)"
proof (cases "get_by_order_id oid s")
  case None
  then have none: "Some oid \<notin> tr_order_id ` set (db_rows s)" using assms(2) by (simp add: get_by_order_id_None)
  let ?row = "(pending_row env symbol side oid qty price ctx)\<lparr>tr_id := db_seq s\<rparr>"
  have p: "tr_order_id (pending_row env symbol side oid qty price ctx) = Some oid"
    "tr_status (pending_row env symbol side oid qty price ctx) = PENDING_CONFIRM"
    by (simp_all add: pending_row_def)
  have "create_pending_record env symbol side oid qty price ctx s =
      (Some (db_seq s), db_commit \<lparr>db_rows = db_rows s @ [?row], db_seq = Suc (db_seq s)\<rparr>)"
    using None none assms(1) p(1) by (simp add: create_pending_record_def db_session_def transaction_def db_insert_def)
  then show ?thesis using p by (simp add: db_commit_def)
next
  case (Some row)
  then have "row \<in> set (db_rows s)" "tr_order_id row = Some oid" by (auto dest: get_by_order_id_Some)
  moreover have "create_pending_record env symbol side oid qty price ctx s = (Some (tr_id row), db_commit s)"
    using Some assms(1) by (simp add: create_pending_record_def db_session_def transaction_def)
  ultimately show ?thesis using Some by (force simp: db_commit_def)
qed

text \<open>
  C36: once the broker has accepted an order and the database answers, the table holds a record with
  that order id (a PENDING_CONFIRM one unless it was there before), and a confirmation task for that
  record and order is started.
\<close>

theorem accepted_order_is_recorded:
  assumes "execute_autonomous cfg env signal ctx cb st = Inr (r, st')" and "ex_success r" and "env_db_up env"
  shows "\<exists>row t. row \<in> set (db_rows (dm_db st')) \<and> tr_order_id row = Some (ex_order_id r) \<and>
     t \<in> set (dm_tasks st') \<and> ct_order_id t = ex_order_id r \<and> ct_pending_id t = Some (tr_id row) \<and>
     ct_callback t = cb \<and>
     (get_by_order_id (ex_order_id r) (dm_db st) = None \<longrightarrow> tr_status row = PENDING_CONFIRM)"
  using assms(1)
proof (cases rule: execute_autonomous_cases)
  case (1 reason)
  then show ?thesis using assms(2) by (simp add: refusal_def)
next
  case (2 req ores)
  from 2(6) show ?thesis
  proof (cases rule: after_place_order_cases)
    case (accepted oid)
    let ?rec = "create_pending_record env (sig_symbol signal) (action_value (sig_action signal)) oid
        (opt_or (sig_quantity signal) 0) (opt_or (sig_price signal) 0) ctx (dm_db st)"
    obtain row where row: "row \<in> set (db_rows (snd ?rec))" "tr_order_id row = Some oid"
      "fst ?rec = Some (tr_id row)" "get_by_order_id oid (dm_db st) = None \<longrightarrow> tr_status row = PENDING_CONFIRM"
      using create_pending_record_spec [OF assms(3) accepted(3)] by blast
    have "\<exists>t \<in> set (dm_tasks st'). ct_order_id t = oid \<and> ct_pending_id t = fst ?rec \<and> ct_callback t = cb"
      unfolding accepted(10) by simp
    then obtain t where t: "t \<in> set (dm_tasks st')" "ct_order_id t = oid" "ct_pending_id t = fst ?rec"
      "ct_callback t = cb" by blast
    have db: "dm_db st' = snd ?rec" using accepted(9) by simp
    show ?thesis using row t unfolding db accepted(5) by (intro exI [of _ row] exI [of _ t]) simp
  qed (use assms(2) in simp)
qed

lemma accepted_order_is_recorded_witness:
  "\<exists>(st' :: dm_state) row t. row \<in> set (db_rows (dm_db st')) \<and> t \<in> set (dm_tasks st') \<and>
     ct_pending_id t = Some (tr_id row)"
proof -
  obtain r st' where run: "execute_autonomous default_settings sample_env (sample_signal BUY) empty_context (Some (\<lambda>_. Inr ()))
      fresh_dm = Inr (r, st')" and after: "(r, st') = after_place_order sample_env (sample_signal BUY) empty_context (Some (\<lambda>_. Inr ()))
       \<lparr>ores_success = True, ores_order_id = Some ''B1'', ores_message = []\<rparr>
       (fresh_dm\<lparr>dm_placed := [\<lparr>or_symbol = ''005930'', or_market = KRX, or_side = Side_BUY,
          or_type = LIMIT, or_session = REGULAR, or_quantity = 10, or_price = Some 70000\<rparr>]\<rparr>)"
    using sample_buy_run by (metis prod.exhaust)
  have "ex_success r" using after by (simp add: after_place_order_def Let_def case_prod_beta)
  moreover have "env_db_up sample_env" by (simp add: sample_env_def)
  ultimately show ?thesis using accepted_order_is_recorded [OF run] by blast
qed

text \<open>
  A confirmed buy becomes an open lot of the filled quantity at the filled price (the order price,
  then the expected price, when the broker reports none); no other row changes.
\<close>

lemma buy_fill_opens_lot:
  assumes "env_status env (ct_order_id t) = Inr (Some os)" and "os_filled_qty os = Some q" and "0 < q"
    and "ct_side t = ''BUY''" and "ct_pending_id t = Some i" and "env_db_up env"
    and "db_ok (dm_db st)" and "get_by_id i (dm_db st) = Some r" and "tr_side r = ''BUY''" and "tr_exit_at r = None"
    and "calm (ct_callback t)"
  shows "\<exists>r'. get_by_id i (dm_db (confirm_and_record env t st)) = Some r' \<and> is_open_buy r' \<and> tr_quantity r' = q \<and>
     tr_entry_price r' = (if os_filled_price os > 0 then os_filled_price os
                          else if os_order_price os \<noteq> 0 then os_order_price os else ct_expected_price t) \<and>
     db_rows (dm_db (confirm_and_record env t st)) =
       map (\<lambda>x. if tr_id x = i then r' else x) (db_rows (dm_db st))"
proof -
  let ?p = "if os_filled_price os > 0 then os_filled_price os else num_or (os_order_price os) (ct_expected_price t)"
  let ?f = "\<lambda>x. (x\<lparr>tr_status := CONFIRMED, tr_quantity := q\<rparr>)\<lparr>tr_entry_price := ?p,
              tr_entry_at := Some (case tr_entry_at x of None \<Rightarrow> env_now env | Some e \<Rightarrow> e),
              tr_entry_pattern := (if ostr (tr_entry_pattern x) \<noteq> [] then tr_entry_pattern x
                                   else ctx_entry_pattern (ct_context t)),
              tr_notes := build_trade_notes (ct_context t) False\<rparr>"
  let ?r = "stored_row (?f r)"
  have rin: "r \<in> set (db_rows (dm_db st))" and rid: "tr_id r = i"
    using assms(8) by (auto dest: get_by_id_Some)
  have naive: "\<And>x. x \<in> set (db_rows (dm_db st)) \<Longrightarrow> stored_row x = x"
    using assms(7) by (auto simp: db_ok_def list_all_iff stored_row_of_naive)
  have uniq: "\<And>x. x \<in> set (db_rows (dm_db st)) \<Longrightarrow> tr_id x = i \<Longrightarrow> x = r"
    using assms(7) rin rid by (auto simp: db_ok_def session_ok_def ids_ok_def distinct_map dest: inj_onD)
  have "confirm_body env i (ct_symbol t) ''BUY'' q ?p (ct_context t) (ct_exit_reason t) (dm_db st) =
      Inr ((), dm_db st\<lparr>db_rows := map (\<lambda>x. if tr_id x = i then ?f x else x) (db_rows (dm_db st))\<rparr>)"
    by (simp add: confirm_body_def db_modify_def comp_def if_distrib cong: if_cong)
  then have "dm_db (confirm_and_record env t st) = db_commit
      (dm_db st\<lparr>db_rows := map (\<lambda>x. if tr_id x = i then ?f x else x) (db_rows (dm_db st))\<rparr>)"
    using assms by (simp add: confirm_and_record_def confirm_pending_record_def db_session_def transaction_def)
  moreover have "map stored_row (map (\<lambda>x. if tr_id x = i then ?f x else x) (db_rows (dm_db st))) =
      map (\<lambda>x. if tr_id x = i then ?r else x) (db_rows (dm_db st))"
    unfolding map_map by (intro map_cong refl) (auto simp: naive dest: uniq)
  ultimately have rows: "db_rows (dm_db (confirm_and_record env t st)) =
       map (\<lambda>x. if tr_id x = i then ?r else x) (db_rows (dm_db st))"
    by (simp add: db_commit_def)
  have "?r \<in> set (db_rows (dm_db (confirm_and_record env t st)))"
    unfolding rows set_map by (rule rev_image_eqI [OF rin]) (simp add: rid)
  moreover have "ids_ok (dm_db (confirm_and_record env t st))"
    using confirm_db_ok [OF assms(7), of env t] by (simp add: db_ok_def session_ok_def)
  ultimately have "get_by_id (tr_id ?r) (dm_db (confirm_and_record env t st)) = Some ?r"
    by (rule get_by_id_mem [rotated])
  moreover have "tr_id ?r = i" using rid by simp
  moreover have "is_open_buy ?r" using assms(9,10) by (simp add: is_open_buy_def)
  ultimately show ?thesis using rows by (intro exI [of _ ?r]) (simp add: num_or_def)
qed

definition pending_sample :: "string \<Rightarrow> nat \<Rightarrow> trade_result" where
  "pending_sample side i = (default_trade (PyDT (8 * day_us) False))\<lparr>tr_id := i, tr_order_id := Some ''B1'',
     tr_symbol := ''005930'', tr_side := side, tr_quantity := 10, tr_status := PENDING_CONFIRM\<rparr>"

definition sample_task :: "string \<Rightarrow> nat \<Rightarrow> confirm_task" where
  "sample_task side i = \<lparr>ct_symbol = ''005930'', ct_side = side, ct_order_id = ''B1'', ct_quantity = 10,
     ct_expected_price = 70000, ct_context = empty_context, ct_exit_reason = [], ct_pending_id = Some i,
     ct_callback = Some (\<lambda>_. Inr ())\<rparr>"

definition sample_state :: "trade_result list \<Rightarrow> dm_state" where
  "sample_state rows = fresh_dm\<lparr>dm_db := \<lparr>db_rows = rows, db_seq = 5\<rparr>\<rparr>"

lemma pending_sample_simps [simp]:
  "tr_id (pending_sample side i) = i" "tr_side (pending_sample side i) = side"
  "tr_status (pending_sample side i) = PENDING_CONFIRM" "tr_exit_at (pending_sample side i) = None"
  "tr_order_id (pending_sample side i) = Some ''B1''" "row_naive (pending_sample side i)"
  by (simp_all add: pending_sample_def default_trade_def row_naive_def)

lemma sample_lot_naive [simp]: "row_naive (sample_lot i q p d)"
  by (simp add: row_naive_def) (simp add: sample_lot_def default_trade_def)

lemma sample_status: "env_status sample_env oid = Inr (Some \<lparr>os_order_id = oid, os_symbol = ''005930'',
    os_filled_qty = Some 10, os_filled_price = 71000, os_remaining_qty = 0, os_order_price = 71000\<rparr>)"
  "env_db_up sample_env" "aware (env_now sample_env)"
  by (simp_all add: sample_env_def)

lemma sample_task_simps [simp]:
  "ct_order_id (sample_task side i) = ''B1''" "ct_side (sample_task side i) = side"
  "ct_pending_id (sample_task side i) = Some i" "ct_symbol (sample_task side i) = ''005930''"
  "ct_callback (sample_task side i) = Some (\<lambda>_. Inr ())"
  by (simp_all add: sample_task_def)

lemma buy_fill_opens_lot_witness:
  "\<exists>r'. get_by_id 1 (dm_db (confirm_and_record sample_env (sample_task ''BUY'' 1)
      (sample_state [pending_sample ''BUY'' 1]))) = Some r' \<and> is_open_buy r' \<and> tr_quantity r' = 10"
proof -
  have "db_ok (dm_db (sample_state [pending_sample ''BUY'' 1]))"
    by (simp add: sample_state_def db_ok_def session_ok_def ids_ok_def orders_ok_def)
  moreover have "get_by_id 1 (dm_db (sample_state [pending_sample ''BUY'' 1])) = Some (pending_sample ''BUY'' 1)"
    by (simp add: sample_state_def get_by_id_def)
  ultimately show ?thesis
    using buy_fill_opens_lot [of sample_env "sample_task ''BUY'' 1" _ 10 1 "sample_state [pending_sample ''BUY'' 1]"
        "pending_sample ''BUY'' 1", unfolded sample_task_simps, OF sample_status(1)] sample_status(2)
    by (auto simp: calm_def is_ok_def)
qed

text \<open>Confirming a sell record does not change which lots are open.\<close>

lemma open_buys_modify_sell:
  assumes "\<forall>x \<in> set (db_rows s). tr_id x = i \<longrightarrow> tr_side x \<noteq> ''BUY''" and "\<And>x. tr_side (f x) = tr_side x"
  shows "get_all_open_buys symbol (db_modify i f s) = get_all_open_buys symbol s"
proof -
  let ?P = "\<lambda>r. tr_symbol r = symbol \<and> is_open_buy r" and ?g = "\<lambda>x. if tr_id x = i then f x else x"
  have "filter ?P (map ?g rows) = filter ?P rows"
    if "\<forall>x \<in> set rows. tr_id x = i \<longrightarrow> tr_side x \<noteq> ''BUY''" for rows
    using that assms(2) by (induction rows) (auto simp: is_open_buy_def)
  with assms(1) show ?thesis by (simp add: get_all_open_buys_def db_modify_def)
qed

lemma not_buy_modify:
  assumes "\<forall>x \<in> set (db_rows s). tr_id x = i \<longrightarrow> tr_side x \<noteq> ''BUY''"
    and "\<And>x. tr_side (f x) = tr_side x" and "\<And>x. tr_id (f x) = tr_id x"
  shows "\<forall>x \<in> set (db_rows (db_modify i f s)). tr_id x = i \<longrightarrow> tr_side x \<noteq> ''BUY''"
proof
  fix x assume "x \<in> set (db_rows (db_modify i f s))"
  then obtain y where "y \<in> set (db_rows s)" "x = (if tr_id y = i then f y else y)"
    by (auto simp: db_modify_def)
  with assms show "tr_id x = i \<longrightarrow> tr_side x \<noteq> ''BUY''" by (simp split: if_splits)
qed

lemma session_sell_fill_mixed:
  assumes "get_all_open_buys symbol s = b # bs" and "0 < qty" and "0 < tr_quantity b"
    and "\<not> closable closed_at b"
  shows "\<exists>m. session_sell_fill now symbol qty price reason closed_at s = Inl (Exn TypeError m)"
proof -
  have "0 < fa_remaining (start_acc qty)" using assms(2) by (simp add: start_acc_def)
  from close_lots_mixed [OF this assms(3,4)] obtain m where
    "close_lots now symbol price reason closed_at (b # bs) (start_acc qty) = Inl (Exn TypeError m)" by blast
  then show ?thesis
    by (simp add: session_sell_fill_def apply_sell_fill_to_open_buys_def assms(1))
qed

lemma not_closable: "row_naive b \<Longrightarrow> tr_entry_at b = Some e \<Longrightarrow> aware closed_at \<Longrightarrow> \<not> closable closed_at b"
  by (auto simp: row_naive_def closable_def)

text \<open>
  With the clock the program uses (\<open>now_kst()\<close>, which carries a zone) and lots loaded from the
  table (whose times carry none) the confirmation of a filled sell raises inside its transaction: the
  table stays as it was, so no lot is closed and the sell stays PENDING_CONFIRM, while the callback
  reports success.
\<close>

lemma sell_fill_lost_on_mixed_times:
  assumes "env_status env (ct_order_id t) = Inr (Some os)" and "os_filled_qty os = Some q" and "0 < q"
    and "ct_side t = ''SELL''" and "ct_pending_id t = Some i"
    and "aware (env_now env)" and "db_ok (dm_db st)"
    and "get_by_id i (dm_db st) = Some r" and "tr_side r = ''SELL''"
    and "get_all_open_buys (ct_symbol t) (dm_db st) = b # bs" and "0 < tr_quantity b" and "tr_entry_at b = Some e"
    and "ct_callback t = Some answer" and "answer 0 = Inr u"
  shows "dm_db (confirm_and_record env t st) = dm_db st \<and>
    dm_settled (confirm_and_record env t st) = dm_settled st @ [(ct_order_id t, True)]"
proof -
  have "\<forall>x \<in> set (db_rows (dm_db st)). tr_id x = i \<longrightarrow> tr_side x \<noteq> ''BUY''"
  proof (intro ballI impI)
    fix x assume x: "x \<in> set (db_rows (dm_db st))" "tr_id x = i"
    have "get_by_id (tr_id x) (dm_db st) = Some x"
      using assms(7) x(1) by (intro get_by_id_mem) (simp_all add: db_ok_def session_ok_def)
    then show "tr_side x \<noteq> ''BUY''" using x assms(8,9) by simp
  qed
  note not_buy = this
  have "row_naive b"
    using assms(7,10) mem_get_all_open_buys [of b "ct_symbol t" "dm_db st"]
    by (auto simp: db_ok_def list_all_iff)
  then have nc: "\<not> closable (env_now env) b" using assms(6,12) by (intro not_closable)
  let ?s1 = "db_modify i (\<lambda>r. r\<lparr>tr_status := CONFIRMED, tr_quantity := q\<rparr>) (dm_db st)"
  have "\<exists>m. confirm_body env i (ct_symbol t) ''SELL'' q p (ct_context t) (ct_exit_reason t) (dm_db st) =
      Inl (Exn TypeError m)" for p
  proof -
    let ?s2 = "db_modify i (\<lambda>r. r\<lparr>tr_exit_price := p, tr_exit_at := Some (env_now env),
                 tr_exit_reason := str_or (ct_exit_reason t) ''SIGNAL''\<rparr>) ?s1"
    have "get_all_open_buys (ct_symbol t) ?s1 = b # bs"
      by (subst open_buys_modify_sell [OF not_buy]) (simp_all add: assms(10))
    moreover have "\<forall>x \<in> set (db_rows ?s1). tr_id x = i \<longrightarrow> tr_side x \<noteq> ''BUY''"
      by (rule not_buy_modify [OF not_buy]) simp_all
    ultimately have "get_all_open_buys (ct_symbol t) ?s2 = b # bs"
      by (subst open_buys_modify_sell) simp_all
    from session_sell_fill_mixed [OF this assms(3,11) nc] obtain m where
      "session_sell_fill (env_now env) (ct_symbol t) q p (ct_exit_reason t) (env_now env) ?s2 = Inl (Exn TypeError m)"
      by blast
    then show ?thesis by (simp add: confirm_body_def Let_def)
  qed
  then have body: "snd (transaction (confirm_body env i (ct_symbol t) ''SELL'' q p (ct_context t) (ct_exit_reason t))
      (dm_db st)) = dm_db st" for p
    by (metis transaction_rollback snd_conv)
  have "dm_db (confirm_and_record env t st) = dm_db st"
    using assms(1-5,8) body assms(13,14) by (simp add: calm_def is_ok_def confirm_and_record_def confirm_pending_record_def db_session_def Let_def)
  moreover have "fill_seen env t" using assms(1-3) by (simp add: fill_seen_def)
  ultimately show ?thesis using assms(1,13,14) by (simp add: confirm_settled settle_calls_def is_ok_def)
qed

lemma sell_fill_lost_on_mixed_times_witness:
  "dm_db (confirm_and_record sample_env (sample_task ''SELL'' 2) (sample_state [sample_lot 1 10 70000 1,
     pending_sample ''SELL'' 2])) = dm_db (sample_state [sample_lot 1 10 70000 1, pending_sample ''SELL'' 2])"
proof -
  let ?st = "sample_state [sample_lot 1 10 70000 1, pending_sample ''SELL'' 2]"
  have "db_ok (dm_db ?st)"
    by (simp add: sample_state_def db_ok_def session_ok_def ids_ok_def orders_ok_def)
  moreover have "get_by_id 2 (dm_db ?st) = Some (pending_sample ''SELL'' 2)"
    by (simp add: sample_state_def get_by_id_def)
  moreover have "get_all_open_buys ''005930'' (dm_db ?st) = [sample_lot 1 10 70000 1]"
    by (simp add: sample_state_def get_all_open_buys_def is_open_buy_def)
  ultimately show ?thesis
    using sample_status(3)
    by (intro sell_fill_lost_on_mixed_times [of sample_env "sample_task ''SELL'' 2" _ 10 2 ?st "pending_sample ''SELL'' 2"
        "sample_lot 1 10 70000 1" "[]", unfolded sample_task_simps, OF sample_status(1), THEN conjunct1]) simp_all
qed

end
