(* ===== verification/Strategies.thy ===== *)
theory Strategies
  imports Trade_Store Settings_Model
begin

text \<open>
  The two strategies (\<open>strategy/stable_short.py\<close>, \<open>strategy/aggressive_short.py\<close>) behind the protocol
  of \<open>strategy/base.py\<close>, the trade horizon (\<open>strategy/trade_horizon.py\<close>) and the overnight policy
  (\<open>strategy/holding_policy.py\<close>). Of the analysis dict the strategies read the recommendation, the
  confidence, the symbol, the price and the cross signal; what only feeds the reason text is left out.
\<close>

section \<open>Strategies\<close>

record analysis =
  an_recommendation :: string
  an_confidence :: real
  an_symbol :: string
  an_stock_id :: string
  an_price :: real
  an_cross_signal :: "string option"

record strategy_params =
  sp_stop_loss_pct :: real
  sp_take_profit_pct :: real
  sp_min_confidence :: real

definition stable_default :: strategy_params where
  "stable_default = \<lparr>sp_stop_loss_pct = - (5 / 2), sp_take_profit_pct = 4, sp_min_confidence = 1 / 2\<rparr>"

definition aggressive_default :: strategy_params where
  "aggressive_default = \<lparr>sp_stop_loss_pct = - 4, sp_take_profit_pct = 8, sp_min_confidence = 55 / 100\<rparr>"

text \<open>\<open>REGIME_PARAMS\<close>: stop loss and take profit of the known market regimes.\<close>

definition stable_regime :: "string \<Rightarrow> (real \<times> real) option" where
  "stable_regime = map_of [(''BULL'', (- (5 / 2), 5)), (''THEME'', (- 3, 6)), (''BEAR'', (- 2, 3))]"

definition aggressive_regime :: "string \<Rightarrow> (real \<times> real) option" where
  "aggressive_regime = map_of [(''BULL'', (- 4, 10)), (''THEME'', (- 5, 12)), (''BEAR'', (- 3, 6))]"

definition effective_levels :: "(string \<Rightarrow> (real \<times> real) option) \<Rightarrow> strategy_params \<Rightarrow> string \<Rightarrow> real \<times> real" where
  "effective_levels regimes p market_regime =
     (case regimes market_regime of None \<Rightarrow> (sp_stop_loss_pct p, sp_take_profit_pct p) | Some lv \<Rightarrow> lv)"

definition strategy_signal ::
  "analysis \<Rightarrow> signal_action \<Rightarrow> real \<Rightarrow> real \<Rightarrow> real \<Rightarrow> signal_urgency \<Rightarrow> string \<Rightarrow> trade_signal" where
  "strategy_signal a action strength target stop urgency strategy_type =
     \<lparr>sig_symbol = an_symbol a, sig_stock_id = an_stock_id a, sig_action = action, sig_strength = strength,
      sig_price = Some (an_price a), sig_quantity = None, sig_target = Some target, sig_stop = Some stop,
      sig_urgency = urgency, sig_strategy = strategy_type, sig_confidence = an_confidence a,
      sig_market = None, sig_horizon = None, sig_reservation_id = None, sig_reserved_amount = 0\<rparr>"

definition stable_evaluate :: "strategy_params \<Rightarrow> analysis \<Rightarrow> string \<Rightarrow> trade_signal option" where
  "stable_evaluate p a market_regime =
     (let (eff_stop, eff_target) = effective_levels stable_regime p market_regime
      in if an_confidence a < sp_min_confidence p \<and> an_recommendation a \<noteq> ''SELL'' then None
         else if an_recommendation a = ''HOLD'' then None
         else if an_recommendation a = ''BUY'' then
           Some (strategy_signal a BUY (an_confidence a) (an_price a * (1 + eff_target / 100))
                   (an_price a * (1 + eff_stop / 100)) WAIT ''STABLE_SHORT'')
         else if an_recommendation a = ''SELL'' then
           Some (strategy_signal a SELL (an_confidence a) (an_price a * (1 + eff_stop / 100))
                   (an_price a * (1 - eff_stop / 100)) WAIT ''STABLE_SHORT'')
         else None)"

definition aggressive_evaluate :: "strategy_params \<Rightarrow> analysis \<Rightarrow> string \<Rightarrow> trade_signal option" where
  "aggressive_evaluate p a market_regime =
     (let (eff_stop, eff_target) = effective_levels aggressive_regime p market_regime
      in if an_confidence a < sp_min_confidence p \<and> an_recommendation a \<noteq> ''SELL'' then None
         else if an_recommendation a = ''HOLD'' then None
         else if an_recommendation a = ''BUY'' then
           Some (strategy_signal a BUY (an_confidence a) (an_price a * (1 + eff_target / 100))
                   (an_price a * (1 + eff_stop / 100)) IMMEDIATE ''AGGRESSIVE_SHORT'')
         else if an_recommendation a = ''SELL'' \<or> an_cross_signal a = Some ''DEAD_CROSS'' then
           Some (strategy_signal a SELL
                   (if an_recommendation a = ''SELL'' then an_confidence a else 6 / 10)
                   (an_price a * (1 + eff_stop / 100)) (an_price a * (1 - eff_stop / 100))
                   IMMEDIATE ''AGGRESSIVE_SHORT'')
         else None)"

section \<open>The strategy protocol\<close>

text \<open>
  What the agent relies on: a strategy never emits HOLD, a buy is recommended and confident enough,
  and the levels lie on the right sides of the price, with the reward of a buy at least \<open>ratio\<close>
  times its risk.
\<close>

locale trading_strategy =
  fixes evaluate :: "analysis \<Rightarrow> string \<Rightarrow> trade_signal option" and min_confidence ratio :: real
  assumes ratio_pos: "0 < ratio"
    and no_hold: "evaluate a regime = Some s \<Longrightarrow> sig_action s \<noteq> HOLD"
    and buy_confident: "evaluate a regime = Some s \<Longrightarrow> sig_action s = BUY \<Longrightarrow>
      an_recommendation a = ''BUY'' \<and> min_confidence \<le> an_confidence a"
    and about: "evaluate a regime = Some s \<Longrightarrow>
      sig_symbol s = an_symbol a \<and> sig_price s = Some (an_price a) \<and> sig_confidence s = an_confidence a"
    and buy_levels: "evaluate a regime = Some s \<Longrightarrow> sig_action s = BUY \<Longrightarrow> 0 < an_price a \<Longrightarrow>
      \<exists>t l. sig_target s = Some t \<and> sig_stop s = Some l \<and> 0 < l \<and> l < an_price a \<and>
        ratio * (an_price a - l) \<le> t - an_price a"
begin

lemma buy_reward:
  assumes "evaluate a regime = Some s" and "sig_action s = BUY" and "0 < an_price a"
  obtains t l where "sig_target s = Some t" and "sig_stop s = Some l" and "0 < l" and "l < an_price a"
    and "an_price a < t" and "ratio \<le> \<bar>t - an_price a\<bar> / \<bar>an_price a - l\<bar>"
proof -
  from buy_levels [OF assms] obtain t l where
    *: "sig_target s = Some t" "sig_stop s = Some l" "0 < l" "l < an_price a"
       "ratio * (an_price a - l) \<le> t - an_price a" by blast
  have "0 < ratio * (an_price a - l)" using ratio_pos *(4) by simp
  with *(5) have up: "an_price a < t" by linarith
  moreover have "ratio \<le> \<bar>t - an_price a\<bar> / \<bar>an_price a - l\<bar>"
    using *(4,5) up by (simp add: pos_le_divide_eq)
  ultimately show thesis using that * by blast
qed

end

lemma stable_levels:
  assumes "effective_levels stable_regime stable_default regime = (st, tg)"
  shows "- 100 < st" and "st < 0" and "- (15 / 10) * st \<le> tg"
  using assms by (auto simp: effective_levels_def stable_regime_def stable_default_def split: if_splits)

lemma aggressive_levels:
  assumes "effective_levels aggressive_regime aggressive_default regime = (st, tg)"
  shows "- 100 < st" and "st < 0" and "- 2 * st \<le> tg"
  using assms by (auto simp: effective_levels_def aggressive_regime_def aggressive_default_def split: if_splits)

lemma levels_of_pct:
  assumes "0 < (p::real)" and "- 100 < st" and "st < 0" and "- r * st \<le> tg"
  shows "0 < p * (1 + st / 100)" and "p * (1 + st / 100) < p"
    and "r * (p - p * (1 + st / 100)) \<le> p * (1 + tg / 100) - p"
proof -
  show "0 < p * (1 + st / 100)" using assms by (intro mult_pos_pos) simp_all
  show "p * (1 + st / 100) < p" using assms by (simp add: algebra_simps mult_pos_neg)
  have "r * (p - p * (1 + st / 100)) = p / 100 * (- r * st)" by (simp add: algebra_simps)
  also have "\<dots> \<le> p / 100 * tg" using assms by (intro mult_left_mono) auto
  also have "\<dots> = p * (1 + tg / 100) - p" by (simp add: algebra_simps)
  finally show "r * (p - p * (1 + st / 100)) \<le> p * (1 + tg / 100) - p" .
qed

interpretation stable: trading_strategy "stable_evaluate stable_default" "1 / 2" "15 / 10"
proof unfold_locales
  show "0 < (15 / 10 :: real)" by simp
next
  fix a regime s assume "stable_evaluate stable_default a regime = Some s"
  then show "sig_action s \<noteq> HOLD"
    by (auto simp: stable_evaluate_def strategy_signal_def split: if_splits prod.splits)
next
  fix a regime s assume "stable_evaluate stable_default a regime = Some s" "sig_action s = BUY"
  then show "an_recommendation a = ''BUY'' \<and> 1 / 2 \<le> an_confidence a"
    by (auto simp: stable_evaluate_def strategy_signal_def stable_default_def split: if_splits prod.splits)
next
  fix a regime s assume "stable_evaluate stable_default a regime = Some s"
  then show "sig_symbol s = an_symbol a \<and> sig_price s = Some (an_price a) \<and> sig_confidence s = an_confidence a"
    by (auto simp: stable_evaluate_def strategy_signal_def split: if_splits prod.splits)
next
  fix a regime s assume sig: "stable_evaluate stable_default a regime = Some s" "sig_action s = BUY"
    and pos: "0 < an_price a"
  obtain st tg where lv: "effective_levels stable_regime stable_default regime = (st, tg)" by fastforce
  from sig lv have "sig_target s = Some (an_price a * (1 + tg / 100))" "sig_stop s = Some (an_price a * (1 + st / 100))"
    by (auto simp: stable_evaluate_def strategy_signal_def split: if_splits)
  with levels_of_pct [OF pos stable_levels [OF lv]]
  show "\<exists>t l. sig_target s = Some t \<and> sig_stop s = Some l \<and> 0 < l \<and> l < an_price a \<and>
      15 / 10 * (an_price a - l) \<le> t - an_price a" by blast
qed

interpretation aggressive: trading_strategy "aggressive_evaluate aggressive_default" "55 / 100" 2
proof unfold_locales
  show "0 < (2 :: real)" by simp
next
  fix a regime s assume "aggressive_evaluate aggressive_default a regime = Some s"
  then show "sig_action s \<noteq> HOLD"
    by (auto simp: aggressive_evaluate_def strategy_signal_def split: if_splits prod.splits)
next
  fix a regime s assume "aggressive_evaluate aggressive_default a regime = Some s" "sig_action s = BUY"
  then show "an_recommendation a = ''BUY'' \<and> 55 / 100 \<le> an_confidence a"
    by (auto simp: aggressive_evaluate_def strategy_signal_def aggressive_default_def split: if_splits prod.splits)
next
  fix a regime s assume "aggressive_evaluate aggressive_default a regime = Some s"
  then show "sig_symbol s = an_symbol a \<and> sig_price s = Some (an_price a) \<and> sig_confidence s = an_confidence a"
    by (auto simp: aggressive_evaluate_def strategy_signal_def split: if_splits prod.splits)
next
  fix a regime s assume sig: "aggressive_evaluate aggressive_default a regime = Some s" "sig_action s = BUY"
    and pos: "0 < an_price a"
  obtain st tg where lv: "effective_levels aggressive_regime aggressive_default regime = (st, tg)" by fastforce
  from sig lv have "sig_target s = Some (an_price a * (1 + tg / 100))" "sig_stop s = Some (an_price a * (1 + st / 100))"
    by (auto simp: aggressive_evaluate_def strategy_signal_def split: if_splits)
  with levels_of_pct [OF pos aggressive_levels [OF lv]]
  show "\<exists>t l. sig_target s = Some t \<and> sig_stop s = Some l \<and> 0 < l \<and> l < an_price a \<and>
      2 * (an_price a - l) \<le> t - an_price a" by blast
qed

section \<open>Trade horizon\<close>

datatype trade_horizon = SHORT | MID | LONG

definition decide_trade_horizon :: "string \<Rightarrow> string \<Rightarrow> real \<Rightarrow> real \<Rightarrow> string \<Rightarrow> trade_horizon" where
  "decide_trade_horizon strategy_type trigger change_rate confidence market_regime =
     (let strategy_key = upper strategy_type; trigger_key = upper trigger; regime_key = upper market_regime
      in if contains ''AGGRESSIVE'' strategy_key \<or>
            trigger_key \<in> {''PRICE_SURGE'', ''PRICE_DROP'', ''VOLUME_SPIKE''} \<or> 6 \<le> \<bar>change_rate\<bar>
         then SHORT
         else if regime_key \<in> {''BULL'', ''THEME''} \<and> 78 / 100 \<le> confidence then LONG
         else MID)"

definition get_horizon_risk_multiplier :: "string \<Rightarrow> real" where
  "get_horizon_risk_multiplier horizon =
     (let key = upper horizon
      in if key = ''SHORT'' then 7 / 10 else if key = ''LONG'' then 12 / 10 else 1)"

section \<open>Overnight policy\<close>

datatype hold_action = Hold | Sell

datatype hold_reason =
  No_trade_result | No_buy_price | Big_loss real | Too_long int int | Low_confidence real
| Target_reached real real | Keep real real int int

definition calc_hold_days :: "pydt \<Rightarrow> trade_result \<Rightarrow> int" where
  "calc_hold_days now tr =
     (let entry_at = (case tr_entry_at tr of None \<Rightarrow> tr_created_at tr | Some e \<Rightarrow> e)
      in max 0 (dt_date now - dt_date entry_at))"

definition get_max_hold_days :: "settings \<Rightarrow> string \<Rightarrow> int" where
  "get_max_hold_days cfg strategy_type =
     (if contains ''AGGRESSIVE'' (upper strategy_type) then MAX_HOLD_DAYS_AGGRESSIVE cfg
      else MAX_HOLD_DAYS_STABLE cfg)"

definition evaluate_overnight_hold ::
  "settings \<Rightarrow> pydt \<Rightarrow> holding_info \<Rightarrow> trade_result option \<Rightarrow> real \<Rightarrow> hold_action \<times> hold_reason" where
  "evaluate_overnight_hold cfg now holding trade current_price =
     (case trade of None \<Rightarrow> (Sell, No_trade_result)
      | Some tr \<Rightarrow>
          (let avg_price = hi_avg_buy_price holding
           in if avg_price \<le> 0 then (Sell, No_buy_price)
              else
                let pnl_rate = (current_price - avg_price) / avg_price * 100
                in if pnl_rate < - 3 then (Sell, Big_loss pnl_rate)
                   else
                     let hold_days = calc_hold_days now tr; max_days = get_max_hold_days cfg (tr_strategy tr)
                     in if max_days \<le> hold_days then (Sell, Too_long hold_days max_days)
                        else
                          let confidence = num_or (tr_ai_confidence tr) 0
                          in if confidence < 45 / 100 then (Sell, Low_confidence confidence)
                             else if 0 < opt_or (tr_ai_target tr) 0 \<and> opt_or (tr_ai_target tr) 0 \<le> current_price
                             then (Sell, Target_reached current_price (opt_or (tr_ai_target tr) 0))
                             else (Hold, Keep pnl_rate confidence hold_days max_days)))"

lemma loss_rate_iff: "0 < (a::real) \<Longrightarrow> - 3 \<le> (p - a) / a * 100 \<longleftrightarrow> 97 / 100 * a \<le> p"
  by (simp add: field_simps)

text \<open>
  A position is kept overnight exactly when the program bought it, it lost at most three
  percent of its purchase price, it is younger than its strategy's limit, its confidence is at least
  0.45 and it has not reached a positive target.
\<close>

lemma overnight_hold_iff:
  "fst (evaluate_overnight_hold cfg now holding trade price) = Hold \<longleftrightarrow>
     (\<exists>tr. trade = Some tr \<and> 0 < hi_avg_buy_price holding \<and> 97 / 100 * hi_avg_buy_price holding \<le> price \<and>
        calc_hold_days now tr < get_max_hold_days cfg (tr_strategy tr) \<and> 45 / 100 \<le> tr_ai_confidence tr \<and>
        \<not> (\<exists>t. tr_ai_target tr = Some t \<and> 0 < t \<and> t \<le> price))"
proof (cases trade)
  case None
  then show ?thesis by (simp add: evaluate_overnight_hold_def)
next
  case (Some tr)
  have target: "0 < opt_or (tr_ai_target tr) 0 \<and> opt_or (tr_ai_target tr) 0 \<le> price \<longleftrightarrow>
      (\<exists>t. tr_ai_target tr = Some t \<and> 0 < t \<and> t \<le> price)"
    by (cases "tr_ai_target tr") (auto simp: num_or_def)
  have conf: "num_or (tr_ai_confidence tr) 0 = tr_ai_confidence tr" by (simp add: num_or_def)
  show ?thesis
  proof (cases "0 < hi_avg_buy_price holding")
    case True
    let ?loss = "(price - hi_avg_buy_price holding) / hi_avg_buy_price holding * 100 < - 3"
    let ?hit = "0 < opt_or (tr_ai_target tr) 0 \<and> opt_or (tr_ai_target tr) 0 \<le> price"
    have "fst (evaluate_overnight_hold cfg now holding trade price) = Hold \<longleftrightarrow>
        \<not> ?loss \<and> \<not> get_max_hold_days cfg (tr_strategy tr) \<le> calc_hold_days now tr \<and>
        \<not> num_or (tr_ai_confidence tr) 0 < 45 / 100 \<and> \<not> ?hit"
      using True unfolding Some evaluate_overnight_hold_def Let_def option.case
      by (simp only: if_False not_le [symmetric] fst_conv if_distrib [of fst] split: if_split) simp
    moreover have "\<not> ?loss \<longleftrightarrow> 97 / 100 * hi_avg_buy_price holding \<le> price"
      using loss_rate_iff [OF True, of price] by linarith
    ultimately show ?thesis using True by (simp only: Some conf target option.inject not_le not_less simp_thms ex_simps)
  next
    case False
    then show ?thesis using Some by (simp add: evaluate_overnight_hold_def)
  qed
qed

text \<open>
  A buy signal of either strategy, in any market regime, was recommended with at least the
  strategy's confidence, and its levels bracket a positive price with at least one and a half times
  as much to gain as to lose.
\<close>

lemma strategy_buy_is_sound:
  assumes "stable_evaluate stable_default a regime = Some s \<or> aggressive_evaluate aggressive_default a regime = Some s"
    and "sig_action s = BUY" and "0 < an_price a"
  shows "an_recommendation a = ''BUY'' \<and> 1 / 2 \<le> sig_confidence s \<and>
    (\<exists>t l. sig_target s = Some t \<and> sig_stop s = Some l \<and> 0 < l \<and> l < an_price a \<and> an_price a < t \<and>
       15 / 10 \<le> \<bar>t - an_price a\<bar> / \<bar>an_price a - l\<bar>)"
  using assms(1)
proof
  assume s: "stable_evaluate stable_default a regime = Some s"
  from stable.buy_reward [OF s assms(2,3)] stable.buy_confident [OF s assms(2)] stable.about [OF s]
  show ?thesis by metis
next
  assume s: "aggressive_evaluate aggressive_default a regime = Some s"
  obtain t l where *: "sig_target s = Some t" "sig_stop s = Some l" "0 < l" "l < an_price a" "an_price a < t"
    "2 \<le> \<bar>t - an_price a\<bar> / \<bar>an_price a - l\<bar>"
    by (rule aggressive.buy_reward [OF s assms(2,3)])
  moreover have "an_recommendation a = ''BUY'' \<and> 1 / 2 \<le> sig_confidence s"
    using aggressive.buy_confident [OF s assms(2)] aggressive.about [OF s] by simp
  moreover have "15 / 10 \<le> \<bar>t - an_price a\<bar> / \<bar>an_price a - l\<bar>" using *(6) by linarith
  ultimately show ?thesis by blast
qed

definition sample_analysis :: analysis where
  "sample_analysis = \<lparr>an_recommendation = ''BUY'', an_confidence = 8 / 10, an_symbol = ''005930'',
     an_stock_id = ''S1'', an_price = 70000, an_cross_signal = None\<rparr>"

definition sample_stable_buy :: trade_signal where
  "sample_stable_buy = strategy_signal sample_analysis BUY (8 / 10) 73500 68250 WAIT ''STABLE_SHORT''"

lemma sample_stable_run: "stable_evaluate stable_default sample_analysis ''BULL'' = Some sample_stable_buy"
  by (simp add: stable_evaluate_def stable_default_def sample_analysis_def effective_levels_def stable_regime_def
      sample_stable_buy_def strategy_signal_def)

lemma strategy_buy_is_sound_witness:
  "\<exists>t l. sig_target sample_stable_buy = Some t \<and> sig_stop sample_stable_buy = Some l \<and> l < 70000 \<and> 70000 < t"
  using strategy_buy_is_sound [OF disjI1, OF sample_stable_run]
  by (auto simp: sample_stable_buy_def strategy_signal_def sample_analysis_def)

end
