(* ===== verification/Performance.thy ===== *)
theory Performance
  imports Trade_Store "HOL-Library.AList"
begin

text \<open>
  The feedback statistics: \<open>analysis/feedback/performance_tracker.py\<close> (statistics over the closed
  positions) and \<open>analysis/feedback/strategy_tuner.py\<close> (suggested parameter changes; the advice
  texts are left out, the parameters, values and counts kept).
\<close>

section \<open>Statistics\<close>

record performance_stat =
  ps_total :: nat
  ps_wins :: nat
  ps_losses :: nat
  ps_win_rate :: real
  ps_avg_return :: real
  ps_avg_pnl :: real
  ps_total_pnl :: real
  ps_avg_hold_days :: real
  ps_best_return :: real
  ps_worst_return :: real

definition empty_stat :: performance_stat where
  "empty_stat = \<lparr>ps_total = 0, ps_wins = 0, ps_losses = 0, ps_win_rate = 0, ps_avg_return = 0,
     ps_avg_pnl = 0, ps_total_pnl = 0, ps_avg_hold_days = 0, ps_best_return = 0, ps_worst_return = 0\<rparr>"

definition mean :: "real list \<Rightarrow> real" where
  "mean xs = (if xs = [] then 0 else sum_list xs / of_nat (length xs))"

fun max_of :: "real list \<Rightarrow> real" where
  "max_of [] = 0"
| "max_of [x] = x"
| "max_of (x # y # xs) = max x (max_of (y # xs))"

fun min_of :: "real list \<Rightarrow> real" where
  "min_of [] = 0"
| "min_of [x] = x"
| "min_of (x # y # xs) = min x (min_of (y # xs))"

definition calc_stat :: "trade_result list \<Rightarrow> performance_stat" where
  "calc_stat trades =
     (if trades = [] then empty_stat
      else
        let total = length trades; wins = length (filter tr_is_win trades);
            returns = map tr_return_pct trades; pnls = map tr_pnl trades;
            hold_days = map (\<lambda>t. of_int (tr_hold_days t)) (filter (\<lambda>t. 0 < tr_hold_days t) trades)
        in \<lparr>ps_total = total, ps_wins = wins, ps_losses = total - wins,
            ps_win_rate = (if 0 < total then of_nat wins / of_nat total else 0),
            ps_avg_return = mean returns, ps_avg_pnl = mean pnls, ps_total_pnl = sum_list pnls,
            ps_avg_hold_days = mean hold_days, ps_best_return = max_of returns,
            ps_worst_return = min_of returns\<rparr>)"

section \<open>Queries\<close>

definition is_closed_position :: "trade_result \<Rightarrow> bool" where
  "is_closed_position r \<longleftrightarrow> tr_side r = ''BUY'' \<and> tr_exit_at r \<noteq> None \<and> tr_status r = CONFIRMED"

definition latest_exit_first :: "trade_result list \<Rightarrow> trade_result list" where
  "latest_exit_first = sort_key (\<lambda>r. case tr_exit_at r of None \<Rightarrow> 0 | Some d \<Rightarrow> - wall d)"

definition closed_where :: "(trade_result \<Rightarrow> bool) \<Rightarrow> nat \<Rightarrow> db \<Rightarrow> trade_result list" where
  "closed_where P limit s =
     take limit (latest_exit_first (filter (\<lambda>r. is_closed_position r \<and> P r) (db_rows s)))"

definition get_strategy_stats :: "string \<Rightarrow> nat \<Rightarrow> db \<Rightarrow> performance_stat" where
  "get_strategy_stats strategy_type limit s = calc_stat (closed_where (\<lambda>r. tr_strategy r = strategy_type) limit s)"

definition get_symbol_stats :: "string \<Rightarrow> nat \<Rightarrow> db \<Rightarrow> performance_stat" where
  "get_symbol_stats symbol limit s = calc_stat (closed_where (\<lambda>r. tr_symbol r = symbol) limit s)"

definition get_pattern_stats :: "string \<Rightarrow> nat \<Rightarrow> db \<Rightarrow> performance_stat" where
  "get_pattern_stats pattern limit s = calc_stat (closed_where (\<lambda>r. tr_entry_pattern r = Some pattern) limit s)"

definition get_rsi_range_stats :: "real \<Rightarrow> real \<Rightarrow> db \<Rightarrow> performance_stat" where
  "get_rsi_range_stats rsi_low rsi_high s =
     calc_stat (closed_where (\<lambda>r. case tr_entry_rsi r of None \<Rightarrow> False | Some v \<Rightarrow> rsi_low \<le> v \<and> v < rsi_high) 100 s)"

definition get_market_regime_stats :: "string \<Rightarrow> db \<Rightarrow> performance_stat" where
  "get_market_regime_stats regime s = calc_stat (closed_where (\<lambda>r. tr_market_regime r = regime) 100 s)"

definition get_recent_losses :: "nat \<Rightarrow> db \<Rightarrow> trade_result list" where
  "get_recent_losses limit s = closed_where (\<lambda>r. \<not> tr_is_win r) limit s"

definition get_recent_wins :: "nat \<Rightarrow> db \<Rightarrow> trade_result list" where
  "get_recent_wins limit s = closed_where tr_is_win limit s"

definition get_consecutive_losses :: "db \<Rightarrow> nat" where
  "get_consecutive_losses s = length (takeWhile (\<lambda>t. \<not> tr_is_win t) (closed_where (\<lambda>_. True) 20 s))"

text \<open>The per-strategy groups, a dict in order of first appearance.\<close>

definition group_step :: "trade_result \<Rightarrow> (string \<times> trade_result list) list \<Rightarrow> (string \<times> trade_result list) list" where
  "group_step t groups =
     AList.update (tr_strategy t)
       ((case map_of groups (tr_strategy t) of None \<Rightarrow> [] | Some ts \<Rightarrow> ts) @ [t]) groups"

definition group_by_strategy :: "trade_result list \<Rightarrow> (string \<times> trade_result list) list" where
  "group_by_strategy trades = fold group_step trades []"

record overall_stats =
  os_overall :: performance_stat
  os_by_strategy :: "(string \<times> performance_stat) list"
  os_total_records :: nat

definition get_overall_stats :: "db \<Rightarrow> overall_stats" where
  "get_overall_stats s =
     (let trades = closed_where (\<lambda>_. True) 200 s
      in \<lparr>os_overall = calc_stat trades,
          os_by_strategy = map (\<lambda>(k, v). (k, calc_stat v)) (group_by_strategy trades),
          os_total_records = length trades\<rparr>)"

section \<open>The strategy tuner\<close>

datatype adjustment =
  Stop_loss (adj_value: real) (adj_avg: real) nat
| Stop_loss_fine nat
| Take_profit (adj_value: real) (adj_avg: real) nat
| Shorter_hold nat
| Longer_hold nat
| Min_confidence (adj_value: real)

definition frac :: "nat \<Rightarrow> nat \<Rightarrow> real" where
  "frac a b = of_nat a / of_nat b"

definition analyze_stop_loss :: "trade_result list \<Rightarrow> adjustment option" where
  "analyze_stop_loss trades =
     (let sl_trades = filter (\<lambda>t. tr_exit_reason t = ''STOP_LOSS'') trades
      in if length sl_trades < 3 then None
         else
           let avg_sl = mean (map tr_return_pct sl_trades);
               near_miss = filter (\<lambda>t. tr_is_win t \<and> tr_return_pct t < 2 \<and> 3 \<le> tr_hold_days t) trades
           in if 4 / 10 < frac (length sl_trades) (length trades) then
                Some (Stop_loss (max (- 8) (min (- 1) (py_round 1 (avg_sl * (12 / 10)))))
                        (py_round 2 avg_sl) (length sl_trades))
              else if of_nat (length trades) * (2 / 10 :: real) < of_nat (length near_miss) then
                Some (Stop_loss_fine (length near_miss))
              else None)"

definition analyze_take_profit :: "trade_result list \<Rightarrow> adjustment option" where
  "analyze_take_profit trades =
     (let tp_trades = filter (\<lambda>t. tr_exit_reason t = ''TAKE_PROFIT'') trades
      in if length tp_trades < 3 then None
         else
           let avg_tp = mean (map tr_return_pct tp_trades)
           in if 3 / 10 < frac (length tp_trades) (length trades) \<and> avg_tp < 3 then
                Some (Take_profit (max 2 (min 15 (py_round 1 (avg_tp * (15 / 10)))))
                        (py_round 2 avg_tp) (length tp_trades))
              else None)"

definition analyze_hold_period :: "trade_result list \<Rightarrow> adjustment option" where
  "analyze_hold_period trades =
     (let exits = filter (\<lambda>t. tr_exit_reason t = ''MAX_HOLD_DAYS'') trades
      in if length exits < 3 then None
         else
           let avg = mean (map tr_return_pct exits);
               win_rate = frac (length (filter (\<lambda>t. 0 < tr_return_pct t) exits)) (length exits)
           in if avg < 0 \<and> win_rate < 4 / 10 then Some (Shorter_hold (length exits))
              else if 1 < avg \<and> 6 / 10 < win_rate then Some (Longer_hold (length exits))
              else None)"

definition analyze_confidence :: "trade_result list \<Rightarrow> adjustment option" where
  "analyze_confidence trades =
     (let with_conf = filter (\<lambda>t. 0 < tr_ai_confidence t) trades
      in if length with_conf < 10 then None
         else
           let low_conf = filter (\<lambda>t. tr_ai_confidence t < 6 / 10) with_conf
           in if low_conf \<noteq> [] \<and> frac (length (filter tr_is_win low_conf)) (length low_conf) < 35 / 100 \<and>
                 5 \<le> length low_conf
              then Some (Min_confidence (65 / 100)) else None)"

datatype tuning =
  Insufficient_data nat
| Tuned (tuned_total: nat) (tuned_win_rate: real) (tuned_return: real) (tuned_adjustments: "adjustment list")

definition opt_list :: "'a option \<Rightarrow> 'a list" where
  "opt_list x = (case x of None \<Rightarrow> [] | Some v \<Rightarrow> [v])"

definition suggest_adjustments :: "string \<Rightarrow> db \<Rightarrow> tuning" where
  "suggest_adjustments strategy_type s =
     (let trades = take 200 (newest_first (filter (\<lambda>r. tr_strategy r = strategy_type) (db_rows s)))
      in if length trades < 20 then Insufficient_data (length trades)
         else
           let stat = calc_stat trades
           in Tuned (length trades) (py_round 1 (ps_win_rate stat * 100)) (py_round 2 (ps_avg_return stat))
                (opt_list (analyze_stop_loss trades) @ opt_list (analyze_take_profit trades) @
                 opt_list (analyze_hold_period trades) @ opt_list (analyze_confidence trades)))"

section \<open>Lemmas\<close>

lemma max_of_ge: "x \<in> set xs \<Longrightarrow> x \<le> max_of xs"
  by (induction xs rule: max_of.induct) auto

lemma min_of_le: "x \<in> set xs \<Longrightarrow> min_of xs \<le> x"
  by (induction xs rule: min_of.induct) auto

lemma sum_list_upper: "(\<And>x. x \<in> set xs \<Longrightarrow> x \<le> (b::real)) \<Longrightarrow> sum_list xs \<le> of_nat (length xs) * b"
proof (induction xs)
  case (Cons x xs)
  then have "sum_list xs \<le> of_nat (length xs) * b" and "x \<le> b" by auto
  then show ?case by (simp add: distrib_right)
qed simp

lemma sum_list_lower: "(\<And>x. x \<in> set xs \<Longrightarrow> (b::real) \<le> x) \<Longrightarrow> of_nat (length xs) * b \<le> sum_list xs"
proof (induction xs)
  case (Cons x xs)
  then have "of_nat (length xs) * b \<le> sum_list xs" and "b \<le> x" by auto
  then show ?case by (simp add: distrib_right)
qed simp

lemma mean_between: "min_of xs \<le> mean xs \<and> mean xs \<le> max_of xs"
proof (cases "xs = []")
  case False
  then have pos: "0 < (of_nat (length xs) :: real)" by simp
  have "sum_list xs \<le> of_nat (length xs) * max_of xs" by (intro sum_list_upper max_of_ge)
  moreover have "of_nat (length xs) * min_of xs \<le> sum_list xs" by (intro sum_list_lower min_of_le)
  ultimately show ?thesis using pos False by (simp add: mean_def pos_divide_le_eq pos_le_divide_eq mult.commute)
qed (simp add: mean_def)

lemma frac_le_one: "a \<le> b \<Longrightarrow> 0 \<le> frac a b \<and> frac a b \<le> 1"
  by (cases "b = 0") (auto simp: frac_def divide_le_eq_1)

text \<open>Grouping loses and duplicates nothing.\<close>

definition group_total :: "(string \<times> trade_result list) list \<Rightarrow> nat" where
  "group_total groups = sum_list (map (\<lambda>g. length (snd g)) groups)"

lemma group_total_update_new: "k \<notin> fst ` set groups \<Longrightarrow>
    group_total (AList.update k ts groups) = group_total groups + length ts"
  by (induction groups) (auto simp: group_total_def)

lemma group_total_update_old:
  "distinct (map fst groups) \<Longrightarrow> map_of groups k = Some old \<Longrightarrow>
     group_total (AList.update k ts groups) + length old = group_total groups + length ts"
  by (induction groups) (auto simp: group_total_def update_nonempty split: if_splits)

lemma group_step_total:
  "distinct (map fst groups) \<Longrightarrow> group_total (group_step t groups) = group_total groups + 1 \<and>
     distinct (map fst (group_step t groups))"
proof (cases "map_of groups (tr_strategy t)")
  case None
  then show "distinct (map fst groups) \<Longrightarrow> ?thesis"
    using map_of_eq_None_iff [THEN iffD1, OF None]
    by (simp add: group_step_def None group_total_update_new distinct_update)
next
  case (Some ts)
  assume d: "distinct (map fst groups)"
  have "group_total (AList.update (tr_strategy t) (ts @ [t]) groups) + length ts =
      group_total groups + length (ts @ [t])"
    using d Some by (rule group_total_update_old)
  then show ?thesis using Some d by (simp add: group_step_def distinct_update)
qed

lemma group_fold_total:
  "distinct (map fst groups) \<Longrightarrow> group_total (fold group_step ts groups) = group_total groups + length ts \<and>
     distinct (map fst (fold group_step ts groups))"
proof (induction ts arbitrary: groups)
  case (Cons t ts)
  note step = group_step_total [OF Cons.prems, of t]
  show ?case using Cons.IH [of "group_step t groups"] step by simp
qed simp

lemma calc_stat_total [simp]: "ps_total (calc_stat ts) = length ts"
  by (simp add: calc_stat_def empty_stat_def Let_def)

lemma stat_groups_total:
  "sum_list (map (\<lambda>g. ps_total (snd g)) (map (\<lambda>(k, v). (k, calc_stat v)) gs)) = group_total gs"
  by (induction gs) (auto simp: group_total_def)

lemma stat_groups_keys: "map fst (map (\<lambda>(k, v). (k, calc_stat v)) gs) = map fst gs"
  by (induction gs) auto

definition adj_in_range :: "adjustment \<Rightarrow> bool" where
  "adj_in_range a \<longleftrightarrow> (case a of Stop_loss v _ _ \<Rightarrow> - 8 \<le> v \<and> v \<le> - 1 | Take_profit v _ _ \<Rightarrow> 2 \<le> v \<and> v \<le> 15
     | Min_confidence v \<Rightarrow> v = 65 / 100 | _ \<Rightarrow> True)"

lemma stop_loss_in_range: "analyze_stop_loss ts = Some a \<Longrightarrow> adj_in_range a"
  unfolding analyze_stop_loss_def Let_def by (auto simp: adj_in_range_def split: if_split_asm)

lemma take_profit_in_range: "analyze_take_profit ts = Some a \<Longrightarrow> adj_in_range a"
  unfolding analyze_take_profit_def Let_def by (auto simp: adj_in_range_def split: if_split_asm)

lemma hold_period_in_range: "analyze_hold_period ts = Some a \<Longrightarrow> adj_in_range a"
  unfolding analyze_hold_period_def Let_def by (auto simp: adj_in_range_def split: if_split_asm)

lemma confidence_in_range: "analyze_confidence ts = Some a \<Longrightarrow> adj_in_range a"
  unfolding analyze_confidence_def Let_def by (auto simp: adj_in_range_def split: if_split_asm)

lemmas adjustments_in_range =
  stop_loss_in_range take_profit_in_range hold_period_in_range confidence_in_range

lemma in_opt_list: "a \<in> set (opt_list x) \<longleftrightarrow> x = Some a"
  by (auto simp: opt_list_def split: option.splits)

section \<open>Properties\<close>

text \<open>
  The statistics of any list of trades are consistent: wins and losses add up to the total, the
  win rate is a proportion, the average return lies between the worst and the best, and the total
  profit is the average times the number of trades.
\<close>

lemma stats_consistent:
  "ps_wins (calc_stat ts) + ps_losses (calc_stat ts) = ps_total (calc_stat ts) \<and>
   0 \<le> ps_win_rate (calc_stat ts) \<and> ps_win_rate (calc_stat ts) \<le> 1 \<and>
   ps_worst_return (calc_stat ts) \<le> ps_avg_return (calc_stat ts) \<and>
   ps_avg_return (calc_stat ts) \<le> ps_best_return (calc_stat ts) \<and>
   ps_total_pnl (calc_stat ts) = ps_avg_pnl (calc_stat ts) * of_nat (ps_total (calc_stat ts))"
proof (cases "ts = []")
  case True
  then show ?thesis by (simp add: calc_stat_def empty_stat_def)
next
  case False
  have "length (filter tr_is_win ts) \<le> length ts" by simp
  with False mean_between [of "map tr_return_pct ts"] frac_le_one [of "length (filter tr_is_win ts)" "length ts"]
  show ?thesis by (simp add: calc_stat_def Let_def mean_def [of "map tr_pnl ts"] frac_def)
qed

text \<open>
  The per-strategy statistics of the overview split the trades of the overall statistics without
  loss or overlap: their trade counts add up to the overall count, one entry per strategy.
\<close>

lemma overall_stats_partition:
  "sum_list (map (\<lambda>g. ps_total (snd g)) (os_by_strategy (get_overall_stats s))) =
     ps_total (os_overall (get_overall_stats s)) \<and>
   distinct (map fst (os_by_strategy (get_overall_stats s))) \<and>
   os_total_records (get_overall_stats s) \<le> 200"
proof -
  let ?ts = "closed_where (\<lambda>_. True) 200 s"
  have "group_total (group_by_strategy ?ts) = length ?ts" "distinct (map fst (group_by_strategy ?ts))"
    using group_fold_total [of "[]" ?ts] by (simp_all add: group_by_strategy_def group_total_def)
  then show ?thesis
    unfolding get_overall_stats_def Let_def overall_stats.simps stat_groups_total stat_groups_keys calc_stat_total
    by (simp add: closed_where_def)
qed

text \<open>
  The tuner suggests nothing from fewer than twenty trades, and whatever the trades were, the
  values it suggests stay in their safe ranges: a stop loss between -8 and -1 percent, a take profit
  between 2 and 15 percent, a minimum confidence of 0.65.
\<close>

lemma tuner_within_bounds:
  assumes "suggest_adjustments strategy_type s = Tuned n w r adjs" and "a \<in> set adjs"
  shows "20 \<le> n \<and> n \<le> 200 \<and> (case a of Stop_loss v _ _ \<Rightarrow> - 8 \<le> v \<and> v \<le> - 1 | Take_profit v _ _ \<Rightarrow> 2 \<le> v \<and> v \<le> 15
     | Min_confidence v \<Rightarrow> v = 65 / 100 | _ \<Rightarrow> True)"
proof -
  let ?ts = "take 200 (newest_first (filter (\<lambda>r. tr_strategy r = strategy_type) (db_rows s)))"
  from assms have n: "\<not> length ?ts < 20" "n = length ?ts"
    and "a \<in> set (opt_list (analyze_stop_loss ?ts) @ opt_list (analyze_take_profit ?ts) @
        opt_list (analyze_hold_period ?ts) @ opt_list (analyze_confidence ?ts))"
    unfolding suggest_adjustments_def Let_def by (auto simp only: tuning.simps split: if_split_asm)
  then have "adj_in_range a" by (auto simp only: set_append Un_iff in_opt_list dest: adjustments_in_range)
  then show ?thesis using n by (simp add: adj_in_range_def)
qed

definition sample_trade :: "bool \<Rightarrow> real \<Rightarrow> string \<Rightarrow> trade_result" where
  "sample_trade win ret reason = (default_trade (PyDT day_us False))\<lparr>tr_side := ''BUY'', tr_strategy := ''S'',
     tr_is_win := win, tr_return_pct := ret, tr_exit_reason := reason, tr_ai_confidence := 5 / 10\<rparr>"

definition sample_losses_db :: db where
  "sample_losses_db = \<lparr>db_rows = replicate 20 (sample_trade False (- 2) ''STOP_LOSS''), db_seq = 21\<rparr>"

lemma insort_same: "insort_key f x (replicate n x) = replicate (Suc n) x"
  by (induction n) simp_all

lemma sort_same: "sort_key f (replicate n x) = replicate n x"
  by (induction n) (simp_all add: insort_same)

lemma tuner_within_bounds_witness:
  "\<exists>n w r adjs a. suggest_adjustments ''S'' sample_losses_db = Tuned n w r adjs \<and> a \<in> set adjs \<and> 20 \<le> n"
proof -
  let ?t = "sample_trade False (- 2) ''STOP_LOSS''"
  have t: "tr_strategy ?t = ''S''" "tr_ai_confidence ?t = 5 / 10" "\<not> tr_is_win ?t"
    by (simp_all add: sample_trade_def)
  have rows: "take 200 (newest_first (filter (\<lambda>r. tr_strategy r = ''S'') (db_rows sample_losses_db))) = replicate 20 ?t"
    using sort_same [of "\<lambda>r. - wall (tr_created_at r)" 20 ?t] t(1)
    by (simp only: sample_losses_db_def db.simps filter_replicate if_True newest_first_def simp_thms
        take_replicate) simp
  have "analyze_confidence (replicate 20 ?t) = Some (Min_confidence (65 / 100))"
    using t(2,3) by (simp only: analyze_confidence_def Let_def filter_replicate) (simp add: frac_def)
  then obtain n w r adjs where run: "suggest_adjustments ''S'' sample_losses_db = Tuned n w r adjs"
    and a: "Min_confidence (65 / 100) \<in> set adjs"
    unfolding suggest_adjustments_def rows by (simp add: Let_def opt_list_def)
  from tuner_within_bounds [OF run a] run a show ?thesis by blast
qed

end
