(* ===== verification/Risk.thy ===== *)
theory Risk
  imports Strategies Performance
begin

text \<open>
  The gates in front of a buy: the trading guard (\<open>strategy/trading_guard.py\<close>), the limits the AI may
  set (\<open>strategy/ai_risk_tuner.py\<close>, the clamping of its answer) and the risk manager
  (\<open>strategy/risk_manager.py\<close>). The risk manager copies three settings when it is created, so it has
  a state of its own; the guard may switch trading off, so the settings are passed through.
\<close>

section \<open>Trading guard\<close>

datatype guard_trigger = No_trigger | Daily_drawdown real | Consecutive_losses nat | Negative_expectancy real

record guard_result =
  gr_approved :: bool
  gr_trigger :: guard_trigger
  gr_kill_switched :: bool

definition daily_realized_pnl_pct :: "pydt \<Rightarrow> real \<Rightarrow> db \<Rightarrow> real" where
  "daily_realized_pnl_pct now portfolio_budget s =
     (if portfolio_budget \<le> 0 then 0
      else sum_list (map tr_pnl (filter (\<lambda>r. is_closed_position r \<and> on_day (dt_date now) (tr_exit_at r))
             (db_rows s))) / portfolio_budget * 100)"

definition expectancy_of :: "real list \<Rightarrow> real" where
  "expectancy_of pnls =
     (let wins = filter (\<lambda>p. 0 < p) pnls; losses = filter (\<lambda>p. p < 0) pnls;
          win_rate = (if pnls = [] then 0 else frac (length wins) (length pnls));
          loss_rate = 1 - win_rate
      in win_rate * mean wins + loss_rate * mean losses)"

definition strategy_expectancy :: "settings \<Rightarrow> string \<Rightarrow> db \<Rightarrow> real option" where
  "strategy_expectancy cfg strategy_type s =
     (if strategy_type = [] then None
      else
        let sample_size = nat (max (EXPECTANCY_SAMPLE_SIZE cfg) 1);
            pnls = map tr_pnl (closed_where (\<lambda>r. tr_strategy r = strategy_type) sample_size s)
        in if length pnls < sample_size then None else Some (expectancy_of pnls))"

definition guard_block :: "settings \<Rightarrow> guard_trigger \<Rightarrow> guard_result \<times> settings" where
  "guard_block cfg trigger =
     (\<lparr>gr_approved = False, gr_trigger = trigger, gr_kill_switched = AUTO_RISK_KILL_SWITCH_ENABLED cfg\<rparr>,
      if AUTO_RISK_KILL_SWITCH_ENABLED cfg then cfg\<lparr>TRADING_ENABLED := False\<rparr> else cfg)"

definition evaluate_buy_guard :: "settings \<Rightarrow> pydt \<Rightarrow> db \<Rightarrow> string \<Rightarrow> real \<Rightarrow> guard_result \<times> settings" where
  "evaluate_buy_guard cfg now s strategy_type portfolio_budget =
     (let drawdown_pct = daily_realized_pnl_pct now portfolio_budget s;
          max_drawdown = \<bar>MAX_DAILY_DRAWDOWN_PCT cfg\<bar>
      in if 0 < max_drawdown \<and> drawdown_pct \<le> - max_drawdown then guard_block cfg (Daily_drawdown drawdown_pct)
         else
           let losses = get_consecutive_losses s
           in if 0 < MAX_CONSECUTIVE_LOSSES cfg \<and> MAX_CONSECUTIVE_LOSSES cfg \<le> int losses
              then guard_block cfg (Consecutive_losses losses)
              else case strategy_expectancy cfg strategy_type s of
                  Some e \<Rightarrow>
                    (if e < MIN_STRATEGY_EXPECTANCY cfg then guard_block cfg (Negative_expectancy e)
                     else (\<lparr>gr_approved = True, gr_trigger = No_trigger, gr_kill_switched = False\<rparr>, cfg))
                | None \<Rightarrow> (\<lparr>gr_approved = True, gr_trigger = No_trigger, gr_kill_switched = False\<rparr>, cfg))"

section \<open>Limits\<close>

definition normalize_cash_ratio :: "real \<Rightarrow> real" where
  "normalize_cash_ratio v = (let ratio = max v 0 in if 1 < ratio then ratio / 100 else ratio)"

definition clamp_unlimited_cap :: "int \<Rightarrow> int \<Rightarrow> int" where
  "clamp_unlimited_cap v absolute_cap =
     (let normalized = max v 0; cap = max absolute_cap 0
      in if cap \<le> 0 then normalized else if normalized \<le> 0 then cap else min normalized cap)"

definition clamp_position_pct :: "real \<Rightarrow> real \<Rightarrow> real" where
  "clamp_position_pct v absolute_cap = (let cap = max absolute_cap 5 in min (max v 5) cap)"

text \<open>The parsed answer of the model: any of the five numbers may be missing.\<close>

record limits_answer =
  la_max_daily_trades :: "real option"
  la_max_single_order_krw :: "real option"
  la_min_buy_quantity :: "real option"
  la_max_position_pct :: "real option"
  la_min_cash_ratio :: "real option"

record dynamic_limits =
  dl_max_daily_trades :: "int option"
  dl_max_single_order_krw :: "int option"
  dl_min_buy_quantity :: "int option"
  dl_max_position_pct :: "real option"
  dl_min_cash_ratio :: "real option"

definition int_key :: "real option \<Rightarrow> int \<Rightarrow> int" where
  "int_key v d = (case v of None \<Rightarrow> d | Some x \<Rightarrow> py_int x)"

definition real_key :: "real option \<Rightarrow> real \<Rightarrow> real" where
  "real_key v d = (case v of None \<Rightarrow> d | Some x \<Rightarrow> x)"

definition clamp_limits :: "settings \<Rightarrow> limits_answer \<Rightarrow> dynamic_limits" where
  "clamp_limits cfg parsed =
     \<lparr>dl_max_daily_trades = Some (clamp_unlimited_cap (int_key (la_max_daily_trades parsed) (MAX_DAILY_TRADES cfg))
        (ABS_MAX_DAILY_TRADES cfg)),
      dl_max_single_order_krw = Some (clamp_unlimited_cap
        (int_key (la_max_single_order_krw parsed) (MAX_SINGLE_ORDER_KRW cfg)) (ABS_MAX_SINGLE_ORDER_KRW cfg)),
      dl_min_buy_quantity = Some (max (int_key (la_min_buy_quantity parsed) (MIN_BUY_QUANTITY cfg)) 1),
      dl_max_position_pct = Some (clamp_position_pct (real_key (la_max_position_pct parsed) 25)
        (ABS_MAX_POSITION_PCT cfg)),
      dl_min_cash_ratio = Some (normalize_cash_ratio (real_key (la_min_cash_ratio parsed) 0))\<rparr>"

definition default_limits :: "settings \<Rightarrow> dynamic_limits" where
  "default_limits cfg =
     \<lparr>dl_max_daily_trades = Some (clamp_unlimited_cap (MAX_DAILY_TRADES cfg) (ABS_MAX_DAILY_TRADES cfg)),
      dl_max_single_order_krw = Some (clamp_unlimited_cap (MAX_SINGLE_ORDER_KRW cfg) (ABS_MAX_SINGLE_ORDER_KRW cfg)),
      dl_min_buy_quantity = Some (MIN_BUY_QUANTITY cfg),
      dl_max_position_pct = Some (clamp_position_pct 25 (ABS_MAX_POSITION_PCT cfg)),
      dl_min_cash_ratio = Some 0\<rparr>"

section \<open>Risk manager\<close>

datatype risk_reason =
  Sell_order | Trading_disabled | Guard_blocked guard_trigger | Daily_limit | Bad_price_or_quantity
| Poor_reward_risk real | Volatility_below_minimum | Volatility_adjusted | Order_below_minimum | Order_adjusted
| No_cash | Cash_below_minimum | Cash_adjusted | Cash_ratio_reached | Cash_ratio_below_minimum
| Cash_ratio_adjusted | Position_below_minimum | Position_adjusted | Passed

record risk_result =
  rk_approved :: bool
  rk_reason :: risk_reason
  rk_adjusted :: "int option"

record risk_manager =
  rm_max_daily_trades :: int
  rm_max_single_order_krw :: int
  rm_min_cash_ratio :: real
  rm_rr_floor :: "(string \<times> real) list"

definition new_risk_manager :: "settings \<Rightarrow> risk_manager" where
  "new_risk_manager cfg = \<lparr>rm_max_daily_trades = MAX_DAILY_TRADES cfg,
     rm_max_single_order_krw = MAX_SINGLE_ORDER_KRW cfg, rm_min_cash_ratio = MIN_CASH_RATIO cfg,
     rm_rr_floor = [(''THEME'', 1), (''BULL'', 1)]\<rparr>"

text \<open>\<open>RR_FLOOR\<close> is a dict the trading rules may write; a regime it does not name has the floor 1.2.\<close>

definition rr_floor :: "risk_manager \<Rightarrow> string \<Rightarrow> real" where
  "rr_floor rm market_regime = (case map_of (rm_rr_floor rm) market_regime of None \<Rightarrow> 12 / 10 | Some v \<Rightarrow> v)"

definition resolve_horizon_multiplier :: "settings \<Rightarrow> trade_signal \<Rightarrow> real" where
  "resolve_horizon_multiplier cfg signal =
     (let horizon = upper (ostr (sig_horizon signal))
      in if horizon = ''SHORT'' then num_or (RISK_MULTIPLIER_SHORT cfg) 1
         else if horizon = ''LONG'' then num_or (RISK_MULTIPLIER_LONG cfg) 1
         else num_or (RISK_MULTIPLIER_MID cfg) 1)"

record effective_limits =
  ef_max_daily :: int
  ef_max_order :: int
  ef_min_qty :: int
  ef_min_cash_ratio :: real
  ef_max_pos_pct :: real

definition effective_limits_of :: "risk_manager \<Rightarrow> settings \<Rightarrow> real \<Rightarrow> dynamic_limits option \<Rightarrow> effective_limits" where
  "effective_limits_of rm cfg max_position_pct dl =
     (let base = \<lparr>ef_max_daily = rm_max_daily_trades rm, ef_max_order = rm_max_single_order_krw rm,
                  ef_min_qty = MIN_BUY_QUANTITY cfg,
                  ef_min_cash_ratio = normalize_cash_ratio (rm_min_cash_ratio rm),
                  ef_max_pos_pct = max_position_pct\<rparr>
      in case dl of None \<Rightarrow> base
         | Some d \<Rightarrow>
             \<lparr>ef_max_daily = (case dl_max_daily_trades d of None \<Rightarrow> ef_max_daily base | Some v \<Rightarrow> v),
              ef_max_order = (case dl_max_single_order_krw d of None \<Rightarrow> ef_max_order base | Some v \<Rightarrow> v),
              ef_min_qty = (case dl_min_buy_quantity d of None \<Rightarrow> ef_min_qty base | Some v \<Rightarrow> v),
              ef_min_cash_ratio = normalize_cash_ratio
                (case dl_min_cash_ratio d of None \<Rightarrow> ef_min_cash_ratio base | Some v \<Rightarrow> v),
              ef_max_pos_pct = (case dl_max_position_pct d of None \<Rightarrow> ef_max_pos_pct base | Some v \<Rightarrow> v)\<rparr>)"

definition refuse :: "risk_reason \<Rightarrow> risk_result" where
  "refuse r = \<lparr>rk_approved = False, rk_reason = r, rk_adjusted = None\<rparr>"

definition approve :: "risk_reason \<Rightarrow> int option \<Rightarrow> risk_result" where
  "approve r q = \<lparr>rk_approved = True, rk_reason = r, rk_adjusted = q\<rparr>"

text \<open>A cap on the quantity: refuse below the minimum, else approve the smaller quantity.\<close>

definition adjust :: "int \<Rightarrow> int \<Rightarrow> risk_reason \<Rightarrow> risk_reason \<Rightarrow> risk_result" where
  "adjust q min_qty low ok = (if q < min_qty then refuse low else approve ok (Some q))"

text \<open>The last three checks: order amount, cash and the two ratios.\<close>

definition check_amounts :: "effective_limits \<Rightarrow> real \<Rightarrow> real \<Rightarrow> real \<Rightarrow> int \<Rightarrow> risk_result" where
  "check_amounts ef portfolio_cash portfolio_budget price quantity =
     (let total_amount = price * of_int quantity
      in if 0 < ef_max_order ef \<and> of_int (ef_max_order ef) < total_amount then
           adjust (py_int (of_int (ef_max_order ef) / price)) (ef_min_qty ef) Order_below_minimum Order_adjusted
         else if portfolio_cash \<le> 0 then refuse No_cash
         else if portfolio_cash < total_amount then
           adjust (py_int (portfolio_cash / price)) (ef_min_qty ef) Cash_below_minimum Cash_adjusted
         else if 0 < portfolio_budget \<and>
                 (portfolio_cash - total_amount) / portfolio_budget < ef_min_cash_ratio ef then
           (let max_spend = portfolio_cash - portfolio_budget * ef_min_cash_ratio ef
            in if max_spend \<le> 0 then refuse Cash_ratio_reached
               else adjust (py_int (max_spend / price)) (ef_min_qty ef) Cash_ratio_below_minimum Cash_ratio_adjusted)
         else if 0 < portfolio_budget \<and> ef_max_pos_pct ef < total_amount / portfolio_budget * 100 then
           adjust (py_int (portfolio_budget * ef_max_pos_pct ef / 100 / price)) (ef_min_qty ef)
             Position_below_minimum Position_adjusted
         else approve Passed None)"

text \<open>The volatility sizing: \<open>Some\<close> when it decides.\<close>

definition check_volatility ::
  "settings \<Rightarrow> effective_limits \<Rightarrow> real \<Rightarrow> real \<Rightarrow> real \<Rightarrow> real \<Rightarrow> int \<Rightarrow> risk_result option" where
  "check_volatility cfg ef multiplier portfolio_budget entry stop quantity =
     (let risk_per_share = \<bar>entry - stop\<bar>;
          risk_budget = portfolio_budget * (RISK_PER_TRADE_PCT cfg / 100) * multiplier
      in if VOLATILITY_POSITION_SIZING_ENABLED cfg \<and> 0 < stop \<and> 0 < entry \<and> 0 < risk_per_share \<and> 0 < risk_budget
         then
           let sized_qty = py_int (risk_budget / risk_per_share)
           in if sized_qty < ef_min_qty ef then Some (refuse Volatility_below_minimum)
              else if sized_qty < quantity then Some (approve Volatility_adjusted (Some sized_qty))
              else None
         else None)"

definition poor_reward_risk :: "risk_manager \<Rightarrow> string \<Rightarrow> real \<Rightarrow> real \<Rightarrow> real \<Rightarrow> bool" where
  "poor_reward_risk rm market_regime entry target stop \<longleftrightarrow>
     0 < entry \<and> 0 < target \<and> 0 < stop \<and> 0 < \<bar>entry - stop\<bar> \<and>
     \<bar>target - entry\<bar> / \<bar>entry - stop\<bar> < rr_floor rm market_regime"

definition risk_check ::
  "risk_manager \<Rightarrow> settings \<Rightarrow> pydt \<Rightarrow> db \<Rightarrow> trade_signal \<Rightarrow> real \<Rightarrow> real \<Rightarrow> int \<Rightarrow> real \<Rightarrow>
     dynamic_limits option \<Rightarrow> string \<Rightarrow> risk_result \<times> settings" where
  "risk_check rm cfg now s signal portfolio_cash portfolio_budget today_trade_count max_position_pct dl market_regime =
     (let ef = effective_limits_of rm cfg max_position_pct dl
      in if sig_action signal = SELL then (approve Sell_order None, cfg)
         else if \<not> TRADING_ENABLED cfg then (refuse Trading_disabled, cfg)
         else
           let (guard, cfg') = evaluate_buy_guard cfg now s (sig_strategy signal) portfolio_budget;
               price = opt_or (sig_price signal) 0; quantity = opt_or (sig_quantity signal) 0;
               target = opt_or (sig_target signal) 0; stop = opt_or (sig_stop signal) 0
           in if \<not> gr_approved guard then (refuse (Guard_blocked (gr_trigger guard)), cfg')
              else if 0 < ef_max_daily ef \<and> ef_max_daily ef \<le> today_trade_count then (refuse Daily_limit, cfg')
              else if price \<le> 0 \<or> quantity \<le> 0 then (refuse Bad_price_or_quantity, cfg')
              else if poor_reward_risk rm market_regime price target stop then
                (refuse (Poor_reward_risk (\<bar>target - price\<bar> / \<bar>price - stop\<bar>)), cfg')
              else case check_volatility cfg' ef (resolve_horizon_multiplier cfg signal) portfolio_budget price stop quantity of
                  Some r \<Rightarrow> (r, cfg')
                | None \<Rightarrow> (check_amounts ef portfolio_cash portfolio_budget price quantity, cfg'))"

section \<open>Lemmas\<close>

lemma guard_approved_cfg:
  "evaluate_buy_guard cfg now s strategy budget = (g, cfg') \<Longrightarrow> gr_approved g \<Longrightarrow> cfg' = cfg"
  by (auto simp: evaluate_buy_guard_def guard_block_def Let_def split: if_splits option.splits)

lemma refuse_approve_simps [simp]:
  "\<not> rk_approved (refuse r)" "rk_approved (approve r q)" "rk_adjusted (approve r q) = q"
  "rk_reason (approve r q) = r" "rk_reason (refuse r) = r"
  by (simp_all add: refuse_def approve_def)

lemma adjust_cases:
  assumes "rk_approved (adjust q m low ok)"
  shows "rk_adjusted (adjust q m low ok) = Some q \<and> rk_reason (adjust q m low ok) = ok \<and> m \<le> q"
  using assms by (simp add: adjust_def split: if_splits)

text \<open>The quantity an approved buy goes on with.\<close>

definition final_quantity :: "risk_result \<Rightarrow> int \<Rightarrow> int" where
  "final_quantity r quantity = (case rk_adjusted r of None \<Rightarrow> quantity | Some q \<Rightarrow> q)"

lemma adjusted_smaller:
  assumes "0 < price" and "b < price * of_int quantity" and "0 \<le> b"
  shows "py_int (b / price) < quantity" and "price * of_int (py_int (b / price)) \<le> b"
proof -
  show cost: "price * of_int (py_int (b / price)) \<le> b" using assms by (intro py_int_div_cost) auto
  then have "price * of_int (py_int (b / price)) < price * of_int quantity" using assms by linarith
  then show "py_int (b / price) < quantity" using assms(1) by simp
qed

text \<open>
  What the amount checks leave: a quantity no larger than asked and within the order limit. The
  checks end with the first that cuts the quantity, so each further limit is kept unless an
  earlier one cut, and a limit cuts only an order that is above it.
\<close>

definition within_amounts :: "effective_limits \<Rightarrow> real \<Rightarrow> real \<Rightarrow> real \<Rightarrow> int \<Rightarrow> risk_result \<Rightarrow> bool" where
  "within_amounts ef cash budget price quantity r \<longleftrightarrow>
     (let cost = price * of_int (final_quantity r quantity)
      in final_quantity r quantity \<le> quantity \<and>
         (0 < ef_max_order ef \<longrightarrow> cost \<le> of_int (ef_max_order ef)) \<and>
         (rk_reason r \<noteq> Order_adjusted \<longrightarrow> cost \<le> cash) \<and>
         (rk_reason r \<notin> {Order_adjusted, Cash_adjusted} \<longrightarrow> 0 < budget \<longrightarrow> cost \<le> cash - budget * ef_min_cash_ratio ef) \<and>
         (rk_reason r \<notin> {Order_adjusted, Cash_adjusted, Cash_ratio_adjusted} \<longrightarrow> 0 < budget \<longrightarrow>
            cost \<le> budget * ef_max_pos_pct ef / 100) \<and>
         (rk_reason r = Order_adjusted \<longrightarrow> 0 < ef_max_order ef \<and> of_int (ef_max_order ef) < price * of_int quantity) \<and>
         (rk_reason r = Cash_adjusted \<longrightarrow> cash < price * of_int quantity) \<and>
         (rk_reason r = Cash_ratio_adjusted \<longrightarrow> 0 < budget \<and> cash - budget * ef_min_cash_ratio ef < price * of_int quantity) \<and>
         (rk_adjusted r \<noteq> None \<longrightarrow> ef_min_qty ef \<le> final_quantity r quantity))"

lemma within_adjusted:
  assumes "0 < price" and "0 \<le> b" and "b < price * of_int quantity"
    and "rk_approved (adjust (py_int (b / price)) (ef_min_qty ef) low ok)"
    and "0 < ef_max_order ef \<Longrightarrow> b \<le> of_int (ef_max_order ef)"
    and "ok \<noteq> Order_adjusted \<Longrightarrow> b \<le> cash"
    and "ok \<notin> {Order_adjusted, Cash_adjusted} \<Longrightarrow> 0 < budget \<Longrightarrow> b \<le> cash - budget * ef_min_cash_ratio ef"
    and "ok \<notin> {Order_adjusted, Cash_adjusted, Cash_ratio_adjusted} \<Longrightarrow> 0 < budget \<Longrightarrow> b \<le> budget * ef_max_pos_pct ef / 100"
    and "ok = Order_adjusted \<Longrightarrow> 0 < ef_max_order ef \<and> b = of_int (ef_max_order ef)"
    and "ok = Cash_adjusted \<Longrightarrow> b = cash"
    and "ok = Cash_ratio_adjusted \<Longrightarrow> 0 < budget \<and> b = cash - budget * ef_min_cash_ratio ef"
  shows "within_amounts ef cash budget price quantity (adjust (py_int (b / price)) (ef_min_qty ef) low ok)"
proof -
  note smaller = adjusted_smaller [OF assms(1,3,2)]
  note adj = adjust_cases [OF assms(4)]
  then have q: "final_quantity (adjust (py_int (b / price)) (ef_min_qty ef) low ok) quantity = py_int (b / price)"
    by (simp add: final_quantity_def)
  show ?thesis unfolding within_amounts_def Let_def q
  proof (intro conjI impI)
    show "py_int (b / price) \<le> quantity" using smaller(1) by simp
    show "price * of_int (py_int (b / price)) \<le> of_int (ef_max_order ef)" if "0 < ef_max_order ef"
      using smaller(2) assms(5) [OF that] by linarith
    show "price * of_int (py_int (b / price)) \<le> cash"
      if "rk_reason (adjust (py_int (b / price)) (ef_min_qty ef) low ok) \<noteq> Order_adjusted"
      using smaller(2) assms(6) that adj by force
    show "price * of_int (py_int (b / price)) \<le> cash - budget * ef_min_cash_ratio ef"
      if "rk_reason (adjust (py_int (b / price)) (ef_min_qty ef) low ok) \<notin> {Order_adjusted, Cash_adjusted}" "0 < budget"
      using smaller(2) assms(7) [OF _ that(2)] that(1) adj by force
    show "price * of_int (py_int (b / price)) \<le> budget * ef_max_pos_pct ef / 100"
      if "rk_reason (adjust (py_int (b / price)) (ef_min_qty ef) low ok) \<notin> {Order_adjusted, Cash_adjusted, Cash_ratio_adjusted}" "0 < budget"
      using smaller(2) assms(8) [OF _ that(2)] that(1) adj by force
    show "ef_min_qty ef \<le> py_int (b / price)" using adj by simp
  qed (use adj assms(3,9-11) in auto)
qed

lemma check_amounts_sound:
  assumes "0 < price" and "rk_approved (check_amounts ef cash budget price quantity)"
    and "0 \<le> ef_max_pos_pct ef" and "0 \<le> ef_min_cash_ratio ef"
  shows "within_amounts ef cash budget price quantity (check_amounts ef cash budget price quantity)"
proof -
  let ?total = "price * of_int quantity"
  let ?spend = "cash - budget * ef_min_cash_ratio ef" and ?pos = "budget * ef_max_pos_pct ef / 100"
  let ?order = "0 < ef_max_order ef \<and> of_int (ef_max_order ef) < ?total"
  let ?ratio = "0 < budget \<and> (cash - ?total) / budget < ef_min_cash_ratio ef"
  let ?position = "0 < budget \<and> ef_max_pos_pct ef < ?total / budget * 100"
  have kept: "0 < budget \<Longrightarrow> (cash - ?total) / budget < ef_min_cash_ratio ef \<longleftrightarrow> ?spend < ?total"
    by (simp add: pos_divide_less_eq algebra_simps)
  consider (order) ?order | (cash) "\<not> ?order" "0 < cash" "cash < ?total"
    | (ratio) "\<not> ?order" "?total \<le> cash" ?ratio
    | (position) "\<not> ?order" "?total \<le> cash" "\<not> ?ratio" ?position
    | (passed) "\<not> ?order" "0 < cash" "?total \<le> cash" "\<not> ?ratio" "\<not> ?position"
    using assms(2) by (fastforce simp: check_amounts_def Let_def split: if_splits)
  then show ?thesis
  proof cases
    case order
    then have r: "check_amounts ef cash budget price quantity =
        adjust (py_int (of_int (ef_max_order ef) / price)) (ef_min_qty ef) Order_below_minimum Order_adjusted"
      by (simp add: check_amounts_def)
    show ?thesis using assms order unfolding r by (intro within_adjusted) auto
  next
    case cash
    then have r: "check_amounts ef cash budget price quantity =
        adjust (py_int (cash / price)) (ef_min_qty ef) Cash_below_minimum Cash_adjusted"
      by (auto simp: check_amounts_def)
    show ?thesis using assms cash unfolding r by (intro within_adjusted) auto
  next
    case ratio
    have c: "0 < cash" and sp: "0 < ?spend" and r: "check_amounts ef cash budget price quantity =
        adjust (py_int (?spend / price)) (ef_min_qty ef) Cash_ratio_below_minimum Cash_ratio_adjusted"
      using ratio assms(2) by (auto simp: check_amounts_def Let_def split: if_splits)
    have "?spend < ?total" "0 \<le> budget * ef_min_cash_ratio ef" using ratio kept assms(4) by auto
    then show ?thesis using assms ratio sp unfolding r by (intro within_adjusted) auto
  next
    case position
    have r: "check_amounts ef cash budget price quantity =
        adjust (py_int (?pos / price)) (ef_min_qty ef) Position_below_minimum Position_adjusted"
      using position assms(2) by (auto simp: check_amounts_def Let_def split: if_splits)
    have "?pos < ?total" "0 \<le> ?pos" "?total \<le> ?spend"
      using position kept assms(3) by (auto simp: field_simps)
    then show ?thesis using assms position unfolding r by (intro within_adjusted) auto
  next
    case passed
    then have "check_amounts ef cash budget price quantity = approve Passed None"
      by (auto simp: check_amounts_def Let_def)
    moreover have "0 < budget \<Longrightarrow> ?total \<le> ?pos" using passed(5) by (simp add: field_simps)
    ultimately show ?thesis using passed kept
      by (auto simp: within_amounts_def final_quantity_def Let_def)
  qed
qed

lemma normalize_cash_ratio_range: "0 \<le> normalize_cash_ratio v"
  by (simp add: normalize_cash_ratio_def Let_def max_def)

lemma effective_ratio_nonneg: "0 \<le> ef_min_cash_ratio (effective_limits_of rm cfg p dl)"
  by (simp add: effective_limits_of_def Let_def normalize_cash_ratio_range split: option.splits)

lemma risk_check_approved:
  assumes "risk_check rm cfg now s signal cash budget trades pct dl regime = (r, cfg')" and "rk_approved r"
    and "sig_action signal \<noteq> SELL"
  shows "cfg' = cfg \<and> TRADING_ENABLED cfg \<and> gr_approved (fst (evaluate_buy_guard cfg now s (sig_strategy signal) budget)) \<and>
    0 < opt_or (sig_price signal) 0 \<and> 0 < opt_or (sig_quantity signal) 0 \<and>
    \<not> poor_reward_risk rm regime (opt_or (sig_price signal) 0) (opt_or (sig_target signal) 0) (opt_or (sig_stop signal) 0) \<and>
    \<not> (0 < ef_max_daily (effective_limits_of rm cfg pct dl) \<and> ef_max_daily (effective_limits_of rm cfg pct dl) \<le> trades) \<and>
    (check_volatility cfg (effective_limits_of rm cfg pct dl) (resolve_horizon_multiplier cfg signal) budget
       (opt_or (sig_price signal) 0) (opt_or (sig_stop signal) 0) (opt_or (sig_quantity signal) 0) = Some r \<or>
     r = check_amounts (effective_limits_of rm cfg pct dl) cash budget (opt_or (sig_price signal) 0)
       (opt_or (sig_quantity signal) 0))"
proof -
  obtain g cfg2 where g: "evaluate_buy_guard cfg now s (sig_strategy signal) budget = (g, cfg2)" by fastforce
  show ?thesis
  proof (cases "gr_approved g")
    case True
    then have "cfg2 = cfg" using guard_approved_cfg [OF g] by simp
    then show ?thesis using assms g True
      by (auto simp: risk_check_def Let_def not_le refuse_def split: if_splits option.splits)
  next
    case False
    then show ?thesis using assms g by (auto simp: risk_check_def Let_def split: if_splits)
  qed
qed

lemma volatility_sound:
  assumes "check_volatility cfg ef m budget entry stop quantity = Some r" and "rk_approved r"
  shows "\<exists>q. rk_reason r = Volatility_adjusted \<and> rk_adjusted r = Some q \<and> ef_min_qty ef \<le> q \<and> q < quantity \<and>
    \<bar>entry - stop\<bar> * of_int q \<le> budget * (RISK_PER_TRADE_PCT cfg / 100) * m"
proof -
  let ?b = "budget * (RISK_PER_TRADE_PCT cfg / 100) * m"
  from assms have *: "0 < \<bar>entry - stop\<bar>" "0 < ?b"
    "r = approve Volatility_adjusted (Some (py_int (?b / \<bar>entry - stop\<bar>)))"
    "ef_min_qty ef \<le> py_int (?b / \<bar>entry - stop\<bar>)" "py_int (?b / \<bar>entry - stop\<bar>) < quantity"
    by (auto simp: check_volatility_def Let_def split: if_splits)
  have "\<bar>entry - stop\<bar> * of_int (py_int (?b / \<bar>entry - stop\<bar>)) \<le> ?b"
    using *(1,2) by (intro py_int_div_cost) auto
  with * show ?thesis by auto
qed

lemma amounts_reason: "rk_reason (check_amounts ef cash budget price quantity) \<noteq> Volatility_adjusted"
  by (simp add: check_amounts_def adjust_def Let_def)

lemma risk_disabled:
  "\<not> TRADING_ENABLED cfg \<Longrightarrow> sig_action signal = BUY \<Longrightarrow>
     risk_check rm cfg now s signal cash budget trades pct dl regime = (refuse Trading_disabled, cfg)"
  by (simp add: risk_check_def Let_def)

lemma guard_switch:
  assumes "evaluate_buy_guard cfg now s strategy budget = (g, cfg')"
  shows "gr_kill_switched g = (\<not> gr_approved g \<and> AUTO_RISK_KILL_SWITCH_ENABLED cfg) \<and>
    cfg' = (if gr_kill_switched g then cfg\<lparr>TRADING_ENABLED := False\<rparr> else cfg)"
proof -
  have block: "gr_kill_switched h = (\<not> gr_approved h \<and> AUTO_RISK_KILL_SWITCH_ENABLED cfg) \<and>
      c = (if gr_kill_switched h then cfg\<lparr>TRADING_ENABLED := False\<rparr> else cfg)"
    if "guard_block cfg t = (h, c)" for t h c
    using that by (auto simp: guard_block_def)
  have "(\<exists>t. guard_block cfg t = (g, cfg')) \<or>
      (g, cfg') = (\<lparr>gr_approved = True, gr_trigger = No_trigger, gr_kill_switched = False\<rparr>, cfg)"
    using assms unfolding evaluate_buy_guard_def Let_def by (auto split: if_split_asm option.splits)
  then show ?thesis
  proof
    assume "\<exists>t. guard_block cfg t = (g, cfg')"
    then show ?thesis using block by blast
  qed simp
qed

section \<open>Properties\<close>

text \<open>
  The limits the model proposes can only tighten the configured absolute caps: with a positive
  cap the daily trades and the order size end between one and the cap (zero, unlimited, becomes the
  cap), the minimum quantity is positive, the position share lies between five percent and the cap
  (or five, if the cap is smaller) and the cash ratio is not negative.
\<close>

lemma ai_limits_within_caps:
  assumes "0 < ABS_MAX_DAILY_TRADES cfg" and "0 < ABS_MAX_SINGLE_ORDER_KRW cfg"
  shows "\<exists>t o1 q p c. clamp_limits cfg answer = \<lparr>dl_max_daily_trades = Some t, dl_max_single_order_krw = Some o1,
      dl_min_buy_quantity = Some q, dl_max_position_pct = Some p, dl_min_cash_ratio = Some c\<rparr> \<and>
    1 \<le> t \<and> t \<le> ABS_MAX_DAILY_TRADES cfg \<and> 1 \<le> o1 \<and> o1 \<le> ABS_MAX_SINGLE_ORDER_KRW cfg \<and> 1 \<le> q \<and>
    5 \<le> p \<and> p \<le> max (ABS_MAX_POSITION_PCT cfg) 5 \<and> 0 \<le> c"
  using assms normalize_cash_ratio_range
  by (simp add: clamp_limits_def clamp_unlimited_cap_def clamp_position_pct_def Let_def)

lemma ai_limits_within_caps_witness:
  "\<exists>t. dl_max_daily_trades (clamp_limits default_settings \<lparr>la_max_daily_trades = Some 50, la_max_single_order_krw = None,
     la_min_buy_quantity = None, la_max_position_pct = Some 80, la_min_cash_ratio = None\<rparr>) = Some t \<and> t \<le> 8"
  using ai_limits_within_caps [of default_settings "\<lparr>la_max_daily_trades = Some 50, la_max_single_order_krw = None,
     la_min_buy_quantity = None, la_max_position_pct = Some 80, la_min_cash_ratio = None\<rparr>"]
  by (auto simp: default_settings_def)

text \<open>
  C34: an approved buy has a positive price and quantity and has passed the switch, the guard, the daily
  limit and the reward/risk floor: with a target and a stop away from the price, the distance to the
  target is at least the floor of the regime times the distance to the stop. It goes on with no
  more than it asked for. Cut by the volatility sizing it risks at most the risk budget; otherwise
  it stays within the order limit and, unless an earlier limit cut it, within the cash, the cash
  kept back and the share of one position.
\<close>

theorem approved_buy_obeys_limits:
  assumes "risk_check rm cfg now s signal cash budget trades pct dl regime = (r, cfg')" and "rk_approved r"
    and "sig_action signal = BUY" and "sig_price signal = Some price" and "sig_quantity signal = Some quantity"
    and "0 \<le> ef_max_pos_pct (effective_limits_of rm cfg pct dl)"
  defines "ef \<equiv> effective_limits_of rm cfg pct dl" and "q \<equiv> final_quantity r quantity"
    and "target \<equiv> opt_or (sig_target signal) 0" and "stop \<equiv> opt_or (sig_stop signal) 0"
  shows "TRADING_ENABLED cfg \<and> gr_approved (fst (evaluate_buy_guard cfg now s (sig_strategy signal) budget)) \<and>
    (0 < ef_max_daily ef \<longrightarrow> trades < ef_max_daily ef) \<and> 0 < price \<and> 0 < quantity \<and> q \<le> quantity \<and>
    (0 < target \<and> 0 < stop \<and> stop \<noteq> price \<longrightarrow> rr_floor rm regime * \<bar>price - stop\<bar> \<le> \<bar>target - price\<bar>) \<and>
    (rk_reason r = Volatility_adjusted \<and> VOLATILITY_POSITION_SIZING_ENABLED cfg \<and> q < quantity \<and> ef_min_qty ef \<le> q \<and>
       \<bar>price - stop\<bar> * of_int q \<le>
         budget * (RISK_PER_TRADE_PCT cfg / 100) * resolve_horizon_multiplier cfg signal \<or>
     within_amounts ef cash budget price quantity r)"
proof -
  have ne: "sig_action signal \<noteq> SELL" using assms(3) by simp
  have ops: "opt_or (sig_price signal) 0 = price" "opt_or (sig_quantity signal) 0 = quantity"
    using assms(4,5) by (simp_all add: num_or_def)
  note ok = risk_check_approved [OF assms(1,2) ne, unfolded ops, folded ef_def target_def stop_def]
  then have floor: "0 < target \<and> 0 < stop \<and> stop \<noteq> price \<longrightarrow> rr_floor rm regime * \<bar>price - stop\<bar> \<le> \<bar>target - price\<bar>"
    by (auto simp: poor_reward_risk_def not_less pos_le_divide_eq)
  from ok consider (vol) "check_volatility cfg ef (resolve_horizon_multiplier cfg signal) budget price stop quantity = Some r"
    | (amounts) "r = check_amounts ef cash budget price quantity" by blast
  then have "q \<le> quantity \<and> (rk_reason r = Volatility_adjusted \<and> VOLATILITY_POSITION_SIZING_ENABLED cfg \<and> q < quantity \<and>
       ef_min_qty ef \<le> q \<and> \<bar>price - stop\<bar> * of_int q \<le>
         budget * (RISK_PER_TRADE_PCT cfg / 100) * resolve_horizon_multiplier cfg signal \<or>
     within_amounts ef cash budget price quantity r)"
  proof cases
    case vol
    moreover from vol have "VOLATILITY_POSITION_SIZING_ENABLED cfg"
      by (auto simp: check_volatility_def Let_def split: if_splits)
    ultimately show ?thesis using volatility_sound [OF vol assms(2)] by (auto simp: q_def final_quantity_def)
  next
    case amounts
    have "within_amounts ef cash budget price quantity r"
      using ok assms(2,6) effective_ratio_nonneg unfolding amounts ef_def by (intro check_amounts_sound) auto
    then show ?thesis by (auto simp: q_def within_amounts_def Let_def)
  qed
  then show ?thesis using ok floor by auto
qed

definition sized_signal :: trade_signal where
  "sized_signal = sample_stable_buy\<lparr>sig_quantity := Some 100\<rparr>"

lemma sized_signal_simps [simp]:
  "sig_action sized_signal = BUY" "sig_price sized_signal = Some 70000" "sig_quantity sized_signal = Some 100"
  "sig_target sized_signal = Some 73500" "sig_stop sized_signal = Some 68250" "sig_horizon sized_signal = None"
  "sig_strategy sized_signal = ''STABLE_SHORT''"
  by (simp_all add: sized_signal_def sample_stable_buy_def strategy_signal_def sample_analysis_def)

lemma guard_of_empty: "evaluate_buy_guard default_settings now empty_db ''STABLE_SHORT'' budget =
    (\<lparr>gr_approved = True, gr_trigger = No_trigger, gr_kill_switched = False\<rparr>, default_settings)"
  by (simp add: evaluate_buy_guard_def daily_realized_pnl_pct_def get_consecutive_losses_def closed_where_def
      latest_exit_first_def strategy_expectancy_def empty_db_def default_settings_def Let_def)

text \<open>Ten million won of budget risk 50000 won, so at 1750 won a share 28 shares are bought.\<close>

lemma sized_run:
  "risk_check (new_risk_manager default_settings) default_settings (PyDT 0 True) empty_db sized_signal cash 10000000
     0 20 None ''BULL'' = (approve Volatility_adjusted (Some 28), default_settings)"
proof -
  let ?ef = "effective_limits_of (new_risk_manager default_settings) default_settings 20 None"
  have ef: "ef_max_daily ?ef = 0" "ef_min_qty ?ef = 1"
    by (simp_all add: effective_limits_of_def new_risk_manager_def default_settings_def Let_def)
  have "py_int (200 / 7) = 28" by (simp add: py_int_def floor_eq_iff)
  then have vol: "check_volatility default_settings ?ef (resolve_horizon_multiplier default_settings sized_signal)
      10000000 70000 68250 100 = Some (approve Volatility_adjusted (Some 28))"
    by (simp add: check_volatility_def resolve_horizon_multiplier_def ef Let_def)
      (simp add: default_settings_def)
  have rr: "\<not> poor_reward_risk (new_risk_manager default_settings) ''BULL'' 70000 73500 68250"
    by (simp add: poor_reward_risk_def rr_floor_def new_risk_manager_def)
  have en: "TRADING_ENABLED default_settings" by (simp add: default_settings_def)
  show ?thesis
    unfolding risk_check_def Let_def sized_signal_simps guard_of_empty prod.case
    using vol rr en ef by simp
qed

lemma approved_buy_obeys_limits_witness:
  "final_quantity (approve Volatility_adjusted (Some 28)) 100 < 100 \<and> TRADING_ENABLED default_settings \<and>
   rr_floor (new_risk_manager default_settings) ''BULL'' * 1750 \<le> 3500"
proof -
  have "0 \<le> ef_max_pos_pct (effective_limits_of (new_risk_manager default_settings) default_settings 20 None)"
    by (simp add: effective_limits_of_def Let_def)
  from approved_buy_obeys_limits [OF sized_run [of 1000000] _ _ _ _ this] show ?thesis
    by (simp add: num_or_def final_quantity_def)
qed

text \<open>
  A quantity cut by the volatility sizing leaves the checks early: it is approved whatever cash
  the account has, so the order limit, the cash, the cash ratio and the position share are not
  checked for it.
\<close>

lemma volatility_sizing_skips_cash:
  assumes "risk_check rm cfg now s signal cash budget trades pct dl regime = (r, cfg')"
    and "rk_reason r = Volatility_adjusted"
  shows "risk_check rm cfg now s signal other_cash budget trades pct dl regime = (r, cfg')"
proof -
  obtain g cfg2 where g: "evaluate_buy_guard cfg now s (sig_strategy signal) budget = (g, cfg2)" by fastforce
  show ?thesis using assms g amounts_reason
    by (auto simp: risk_check_def Let_def split: if_splits option.splits)
qed

lemma volatility_sizing_skips_cash_witness:
  "risk_check (new_risk_manager default_settings) default_settings (PyDT 0 True) empty_db sized_signal 0 10000000
     0 20 None ''BULL'' = (approve Volatility_adjusted (Some 28), default_settings)"
  by (rule volatility_sizing_skips_cash [OF sized_run [of 1000000]]) simp

text \<open>
  The two strategies and the risk manager fit together: a buy signal of either strategy at a
  positive price, its levels unchanged, never fails the reward/risk floor the risk manager starts with,
  in any market regime.
\<close>

lemma strategy_passes_reward_floor:
  assumes "stable_evaluate stable_default a regime = Some signal \<or> aggressive_evaluate aggressive_default a regime = Some signal"
    and "sig_action signal = BUY" and "0 < an_price a"
  shows "\<not> poor_reward_risk (new_risk_manager cfg) market_regime (an_price a) (opt_or (sig_target signal) 0) (opt_or (sig_stop signal) 0)"
proof -
  have "\<exists>t l. sig_target signal = Some t \<and> sig_stop signal = Some l \<and> 15 / 10 \<le> \<bar>t - an_price a\<bar> / \<bar>an_price a - l\<bar>"
    using assms(1)
  proof
    assume s: "stable_evaluate stable_default a regime = Some signal"
    show ?thesis by (rule stable.buy_reward [OF s assms(2,3)]) blast
  next
    assume s: "aggressive_evaluate aggressive_default a regime = Some signal"
    obtain t l where "sig_target signal = Some t" "sig_stop signal = Some l"
      "2 \<le> \<bar>t - an_price a\<bar> / \<bar>an_price a - l\<bar>" by (rule aggressive.buy_reward [OF s assms(2,3)])
    moreover from this(3) have "15 / 10 \<le> \<bar>t - an_price a\<bar> / \<bar>an_price a - l\<bar>" by linarith
    ultimately show ?thesis by blast
  qed
  then obtain t l where "sig_target signal = Some t" "sig_stop signal = Some l"
    and ratio: "15 / 10 \<le> \<bar>t - an_price a\<bar> / \<bar>an_price a - l\<bar>" by blast
  moreover have "rr_floor (new_risk_manager cfg) market_regime \<le> 12 / 10" by (simp add: rr_floor_def new_risk_manager_def)
  ultimately show ?thesis using ratio by (auto simp: poor_reward_risk_def num_or_def)
qed

lemma strategy_passes_reward_floor_witness:
  "\<not> poor_reward_risk (new_risk_manager default_settings) ''BEAR'' 70000 73500 68250"
  using strategy_passes_reward_floor [OF disjI1, OF sample_stable_run, of default_settings "''BEAR''"]
  by (simp add: sample_stable_buy_def strategy_signal_def sample_analysis_def num_or_def)

text \<open>
  The kill switch: the guard turns trading off exactly when it blocks and the switch is enabled,
  changes no other setting, and from then on every buy is refused before the guard runs.
\<close>

lemma kill_switch:
  assumes "evaluate_buy_guard cfg now s strategy budget = (g, cfg')"
  shows "gr_kill_switched g = (\<not> gr_approved g \<and> AUTO_RISK_KILL_SWITCH_ENABLED cfg) \<and>
    cfg' = (if gr_kill_switched g then cfg\<lparr>TRADING_ENABLED := False\<rparr> else cfg) \<and>
    (gr_kill_switched g \<longrightarrow> sig_action signal = BUY \<longrightarrow>
       risk_check rm cfg' now' s' signal cash b trades pct dl regime = (refuse Trading_disabled, cfg'))"
  using guard_switch [OF assms] risk_disabled [of cfg' signal] by auto

lemma kill_switch_witness:
  "\<not> gr_kill_switched \<lparr>gr_approved = True, gr_trigger = No_trigger, gr_kill_switched = False\<rparr>"
  using kill_switch [OF guard_of_empty] by simp

end
