(* ===== verification/Event_Detector.thy ===== *)
theory Event_Detector
  imports Interfaces "HOL-Library.AList" "HOL-Library.Product_Lexorder"
begin

text \<open>
  The event detector (\<open>realtime/event_detector.py\<close>): per symbol thresholds with a trailing stop,
  the detection of spikes, moves, stop losses and take profits on every tick, the duplicate filter,
  and the list of recent events with its radar view. The clock (seconds) and the two answers of the
  market calendar are arguments; the events handed to the bus are collected in the state.
\<close>

section \<open>Data\<close>

datatype event_type = PRICE_UPDATE | VOLUME_SPIKE | PRICE_SURGE | PRICE_DROP | STOP_LOSS_HIT | TAKE_PROFIT_HIT

record stock_thresholds =
  th_surge_pct :: real
  th_drop_pct :: real
  th_volume_spike_ratio :: real
  th_stop_loss :: real
  th_take_profit :: real
  th_trailing_stop_pct :: real
  th_highest_price :: real

definition default_thresholds :: stock_thresholds where
  "default_thresholds = \<lparr>th_surge_pct = 3, th_drop_pct = - 3, th_volume_spike_ratio = 3, th_stop_loss = 0,
     th_take_profit = 0, th_trailing_stop_pct = 0, th_highest_price = 0\<rparr>"

datatype threshold_key =
  Surge_pct | Drop_pct | Volume_spike_ratio | Stop_loss_price | Take_profit_price | Trailing_stop_pct | Highest_price

record tick =
  tk_symbol :: string
  tk_price :: real
  tk_volume :: int
  tk_change_rate :: real

record detected_event =
  de_type :: event_type
  de_symbol :: string
  de_price :: real
  de_change_rate :: real
  de_spike_ratio :: real
  de_order_allowed :: bool
  de_at :: real

datatype radar_state = ACTIONABLE | TRIGGERED | COOLDOWN
datatype radar_direction = Dir_BUY | Dir_SELL | Dir_WATCH

record radar_item =
  ri_symbol :: string
  ri_type :: event_type
  ri_score :: int
  ri_state :: radar_state
  ri_direction :: radar_direction
  ri_occurred_at :: real
  ri_cooldown_until :: real
  ri_remaining :: int
  ri_price :: real
  ri_change_rate :: real
  ri_volume_ratio :: real

record detector =
  ed_thresholds :: "(string \<times> stock_thresholds) list"
  ed_prev_prices :: "string \<Rightarrow> real option"
  ed_volume :: "string \<Rightarrow> int list"
  ed_last_events :: "string \<Rightarrow> real option"
  ed_recent :: "radar_item list"
  ed_published :: "detected_event list"

definition new_detector :: detector where
  "new_detector = \<lparr>ed_thresholds = [], ed_prev_prices = (\<lambda>_. None), ed_volume = (\<lambda>_. []),
     ed_last_events = (\<lambda>_. None), ed_recent = [], ed_published = []\<rparr>"

definition event_dedup_sec :: real where "event_dedup_sec = 60"
definition max_recent_events :: nat where "max_recent_events = 40"
definition volume_history_cap :: nat where "volume_history_cap = 20"

section \<open>Thresholds\<close>

definition set_threshold_key :: "threshold_key \<times> real \<Rightarrow> stock_thresholds \<Rightarrow> stock_thresholds" where
  "set_threshold_key kv th =
     (let v = snd kv in case fst kv of
        Surge_pct \<Rightarrow> th\<lparr>th_surge_pct := v\<rparr> | Drop_pct \<Rightarrow> th\<lparr>th_drop_pct := v\<rparr>
      | Volume_spike_ratio \<Rightarrow> th\<lparr>th_volume_spike_ratio := v\<rparr> | Stop_loss_price \<Rightarrow> th\<lparr>th_stop_loss := v\<rparr>
      | Take_profit_price \<Rightarrow> th\<lparr>th_take_profit := v\<rparr> | Trailing_stop_pct \<Rightarrow> th\<lparr>th_trailing_stop_pct := v\<rparr>
      | Highest_price \<Rightarrow> th\<lparr>th_highest_price := v\<rparr>)"

text \<open>The highest price is seeded from the stop loss, so that the trailing stop starts at it.\<close>

definition init_highest :: "stock_thresholds \<Rightarrow> stock_thresholds" where
  "init_highest th =
     (if 0 < th_trailing_stop_pct th \<and> th_trailing_stop_pct th < 100 \<and> th_highest_price th = 0 \<and> 0 < th_stop_loss th
      then th\<lparr>th_highest_price := th_stop_loss th / (1 - th_trailing_stop_pct th / 100)\<rparr> else th)"

text \<open>\<open>set_thresholds\<close>: a value that is no number (\<open>None\<close> here) is ignored.\<close>

definition validated :: "(threshold_key \<times> real option) list \<Rightarrow> (threshold_key \<times> real) list" where
  "validated kwargs = concat (map (\<lambda>(k, v). case v of None \<Rightarrow> [] | Some x \<Rightarrow> [(k, x)]) kwargs)"

definition set_thresholds :: "string \<Rightarrow> (threshold_key \<times> real option) list \<Rightarrow> detector \<Rightarrow> detector" where
  "set_thresholds symbol kwargs d =
     (let base = (case map_of (ed_thresholds d) symbol of None \<Rightarrow> default_thresholds | Some th \<Rightarrow> th)
      in d\<lparr>ed_thresholds := AList.update symbol
             (init_highest (fold set_threshold_key (validated kwargs) base)) (ed_thresholds d)\<rparr>)"

definition get_thresholds :: "string \<Rightarrow> detector \<Rightarrow> stock_thresholds" where
  "get_thresholds symbol d = (case map_of (ed_thresholds d) symbol of None \<Rightarrow> default_thresholds | Some th \<Rightarrow> th)"

definition set_stop_loss :: "string \<Rightarrow> real \<Rightarrow> detector \<Rightarrow> detector" where
  "set_stop_loss symbol price = set_thresholds symbol [(Stop_loss_price, Some price)]"

definition set_take_profit :: "string \<Rightarrow> real \<Rightarrow> detector \<Rightarrow> detector" where
  "set_take_profit symbol price = set_thresholds symbol [(Take_profit_price, Some price)]"

definition remove_levels :: "string \<Rightarrow> detector \<Rightarrow> detector" where
  "remove_levels symbol d = d\<lparr>ed_thresholds := AList.delete symbol (ed_thresholds d)\<rparr>"

definition clear_all :: "detector \<Rightarrow> detector" where
  "clear_all d = d\<lparr>ed_thresholds := [], ed_prev_prices := (\<lambda>_. None), ed_volume := (\<lambda>_. []),
     ed_last_events := (\<lambda>_. None), ed_recent := []\<rparr>"

definition monitored_symbols :: "detector \<Rightarrow> string list" where
  "monitored_symbols d = map fst (ed_thresholds d)"

section \<open>Recent events\<close>

definition event_state :: "event_type \<Rightarrow> radar_state" where
  "event_state e = (if e \<in> {STOP_LOSS_HIT, TAKE_PROFIT_HIT} then ACTIONABLE else TRIGGERED)"

definition event_direction :: "event_type \<Rightarrow> radar_direction" where
  "event_direction e =
     (if e \<in> {STOP_LOSS_HIT, TAKE_PROFIT_HIT, PRICE_DROP} then Dir_SELL
      else if e = PRICE_SURGE then Dir_BUY else Dir_WATCH)"

definition score_event :: "event_type \<Rightarrow> real \<Rightarrow> real \<Rightarrow> int" where
  "score_event e change_rate volume_ratio =
     (if e \<in> {STOP_LOSS_HIT, TAKE_PROFIT_HIT} then 92
      else min 99 (max 0 (40 + min 30 (py_int (\<bar>change_rate\<bar> * 6)) + min 20 (py_int (max 0 (volume_ratio - 1) * 8))
             + (if e = VOLUME_SPIKE then 8 else 0))))"

definition radar_item_of :: "detected_event \<Rightarrow> radar_item" where
  "radar_item_of e =
     \<lparr>ri_symbol = strip (de_symbol e), ri_type = de_type e,
      ri_score = score_event (de_type e) (de_change_rate e) (de_spike_ratio e),
      ri_state = event_state (de_type e), ri_direction = event_direction (de_type e),
      ri_occurred_at = de_at e, ri_cooldown_until = de_at e + event_dedup_sec,
      ri_remaining = max 0 (py_int event_dedup_sec), ri_price = de_price e,
      ri_change_rate = de_change_rate e, ri_volume_ratio = de_spike_ratio e\<rparr>"

definition push_recent :: "radar_item \<Rightarrow> radar_item list \<Rightarrow> radar_item list" where
  "push_recent item recent =
     take max_recent_events (item # filter (\<lambda>i. \<not> (ri_symbol i = ri_symbol item \<and> ri_type i = ri_type item)) recent)"

definition record_recent_event :: "detected_event \<Rightarrow> detector \<Rightarrow> detector" where
  "record_recent_event e d =
     (if strip (de_symbol e) = [] then d else d\<lparr>ed_recent := push_recent (radar_item_of e) (ed_recent d)\<rparr>)"

definition refresh_item :: "real \<Rightarrow> radar_item \<Rightarrow> radar_item" where
  "refresh_item now item =
     (let remaining = max 0 (py_int (ri_cooldown_until item - now))
      in item\<lparr>ri_state := (if remaining \<le> 0 then ri_state item else COOLDOWN), ri_remaining := remaining\<rparr>)"

record radar_snapshot =
  rs_total :: nat
  rs_actionable :: nat
  rs_cooldown :: nat
  rs_buy :: nat
  rs_sell :: nat
  rs_events :: "radar_item list"

definition radar_key :: "radar_item \<Rightarrow> int \<times> int \<times> real" where
  "radar_key i = (- (if ri_state i = ACTIONABLE then 1 else 0), - ri_score i, - ri_occurred_at i)"

definition get_radar_snapshot :: "real \<Rightarrow> detector \<Rightarrow> radar_snapshot" where
  "get_radar_snapshot now d =
     (let events = sort_key radar_key (map (refresh_item now) (ed_recent d));
          n = \<lambda>P. length (filter P events)
      in \<lparr>rs_total = length events, rs_actionable = n (\<lambda>i. ri_state i = ACTIONABLE),
          rs_cooldown = n (\<lambda>i. ri_state i = COOLDOWN), rs_buy = n (\<lambda>i. ri_direction i = Dir_BUY),
          rs_sell = n (\<lambda>i. ri_direction i = Dir_SELL), rs_events = events\<rparr>)"

section \<open>Duplicates\<close>

text \<open>The gate of one key: a pass is remembered, a duplicate changes nothing.\<close>

definition dedup_gate :: "string \<Rightarrow> real \<Rightarrow> detector \<Rightarrow> bool \<times> detector" where
  "dedup_gate key now d =
     (case ed_last_events d key of
        Some prev \<Rightarrow> (if now - prev < event_dedup_sec then (False, d)
                      else (True, d\<lparr>ed_last_events := (ed_last_events d)(key \<mapsto> now)\<rparr>))
      | None \<Rightarrow> (True, d\<lparr>ed_last_events := (ed_last_events d)(key \<mapsto> now)\<rparr>))"

definition should_dedup :: "string \<Rightarrow> string \<Rightarrow> real \<Rightarrow> detector \<Rightarrow> bool \<times> detector" where
  "should_dedup symbol event_type now d =
     (let (passed, d') = dedup_gate (symbol @ '':'' @ event_type) now d in (\<not> passed, d'))"

section \<open>A tick\<close>

definition emit :: "detected_event \<Rightarrow> detector \<Rightarrow> detector" where
  "emit e d = (record_recent_event e d)\<lparr>ed_published := ed_published d @ [e]\<rparr>"

text \<open>Emit unless the key fired within the last minute.\<close>

definition emit_once :: "string \<Rightarrow> detected_event \<Rightarrow> detector \<Rightarrow> detector" where
  "emit_once event_type e d =
     (let (dup, d') = should_dedup (de_symbol e) event_type (de_at e) d in if dup then d' else emit e d')"

definition tick_event :: "event_type \<Rightarrow> real \<Rightarrow> bool \<Rightarrow> real \<Rightarrow> tick \<Rightarrow> detected_event" where
  "tick_event e ratio allowed now t =
     \<lparr>de_type = e, de_symbol = tk_symbol t, de_price = tk_price t, de_change_rate = tk_change_rate t,
      de_spike_ratio = ratio, de_order_allowed = allowed, de_at = now\<rparr>"

definition avg_volume_of :: "int list \<Rightarrow> real" where
  "avg_volume_of history = of_int (sum_list (take_last 10 history)) / of_nat (length (take_last 10 history))"

definition check_volume_spike :: "real \<Rightarrow> tick \<Rightarrow> stock_thresholds \<Rightarrow> bool \<Rightarrow> detector \<Rightarrow> detector" where
  "check_volume_spike now t th allowed d =
     (let history = ed_volume d (tk_symbol t); avg = avg_volume_of history
      in if length history < 5 then d
         else if 0 < avg \<and> avg * th_volume_spike_ratio th < of_int (tk_volume t) then
           emit_once ''VOLUME_SPIKE'' (tick_event VOLUME_SPIKE (of_int (tk_volume t) / avg) allowed now t) d
         else d)"

definition check_price_movement :: "real \<Rightarrow> tick \<Rightarrow> stock_thresholds \<Rightarrow> bool \<Rightarrow> detector \<Rightarrow> detector" where
  "check_price_movement now t th allowed d =
     (if th_surge_pct th \<le> tk_change_rate t then
        emit_once ''PRICE_SURGE'' (tick_event PRICE_SURGE 0 allowed now t) d
      else if tk_change_rate t \<le> th_drop_pct th then
        emit_once ''PRICE_DROP'' (tick_event PRICE_DROP 0 allowed now t) d
      else d)"

definition check_stop_take :: "real \<Rightarrow> tick \<Rightarrow> stock_thresholds \<Rightarrow> bool \<Rightarrow> detector \<Rightarrow> detector" where
  "check_stop_take now t th allowed d =
     (let d' = (if 0 < th_stop_loss th \<and> tk_price t \<le> th_stop_loss th
                then emit_once ''STOP_LOSS'' (tick_event STOP_LOSS_HIT 0 allowed now t) d else d)
      in if 0 < th_take_profit th \<and> th_take_profit th \<le> tk_price t
         then emit_once ''TAKE_PROFIT'' (tick_event TAKE_PROFIT_HIT 0 allowed now t) d' else d')"

definition trail :: "real \<Rightarrow> stock_thresholds \<Rightarrow> stock_thresholds" where
  "trail price th =
     (if 0 < th_trailing_stop_pct th \<and> th_highest_price th < price then
        let new_stop = price * (1 - th_trailing_stop_pct th / 100)
        in th\<lparr>th_highest_price := price,
              th_stop_loss := (if th_stop_loss th < new_stop then new_stop else th_stop_loss th)\<rparr>
      else th)"

text \<open>The thresholds of a symbol are an object of the dict, updated in place.\<close>

definition trail_symbol :: "string \<Rightarrow> real \<Rightarrow> detector \<Rightarrow> detector" where
  "trail_symbol symbol price d =
     (case map_of (ed_thresholds d) symbol of
        None \<Rightarrow> d
      | Some th \<Rightarrow> d\<lparr>ed_thresholds := AList.update symbol (trail price th) (ed_thresholds d)\<rparr>)"

definition push_volume :: "int \<Rightarrow> int list \<Rightarrow> int list" where
  "push_volume volume history =
     (let history' = history @ [volume]
      in if volume_history_cap < length history' then take_last volume_history_cap history' else history')"

definition update_cache :: "tick \<Rightarrow> detector \<Rightarrow> detector" where
  "update_cache t d = d\<lparr>ed_prev_prices := (ed_prev_prices d)(tk_symbol t \<mapsto> tk_price t),
     ed_volume := (ed_volume d)(tk_symbol t := push_volume (tk_volume t) (ed_volume d (tk_symbol t)))\<rparr>"

definition on_price_update :: "bool \<Rightarrow> bool \<Rightarrow> real \<Rightarrow> tick \<Rightarrow> detector \<Rightarrow> detector" where
  "on_price_update trading_hours allowed now t d =
     (if \<not> trading_hours then d
      else if tk_symbol t = [] \<or> tk_price t \<le> 0 then d
      else
        let d1 = d\<lparr>ed_published := ed_published d @ [tick_event PRICE_UPDATE 0 allowed now t]\<rparr>;
            d2 = trail_symbol (tk_symbol t) (tk_price t) d1;
            th = get_thresholds (tk_symbol t) d2
        in if \<not> allowed then update_cache t d2
           else update_cache t
             (check_stop_take now t th allowed
               (check_price_movement now t th allowed (check_volume_spike now t th allowed d2))))"

section \<open>Interfaces\<close>

lemma dedup_gate_pass: "fst (dedup_gate k t d) \<Longrightarrow> snd (dedup_gate k t d) = d\<lparr>ed_last_events := (ed_last_events d)(k \<mapsto> t)\<rparr>"
  by (auto simp: dedup_gate_def split: option.splits if_splits)

lemma dedup_gate_block: "\<not> fst (dedup_gate k t d) \<Longrightarrow> snd (dedup_gate k t d) = d"
  by (auto simp: dedup_gate_def split: option.splits if_splits)

interpretation dedup: cooldown_gate dedup_gate ed_last_events event_dedup_sec
proof unfold_locales
  show "0 < event_dedup_sec" by (simp add: event_dedup_sec_def)
next
  fix k t and d :: detector and l assume "fst (dedup_gate k t d)" "ed_last_events d k = Some l"
  then show "event_dedup_sec \<le> t - l" by (simp add: dedup_gate_def split: if_splits)
next
  fix k t and d :: detector assume "fst (dedup_gate k t d)"
  then show "ed_last_events (snd (dedup_gate k t d)) = (ed_last_events d)(k \<mapsto> t)" by (simp add: dedup_gate_pass)
next
  fix k t and d :: detector assume "\<not> fst (dedup_gate k t d)"
  then show "ed_last_events (snd (dedup_gate k t d)) = ed_last_events d" by (simp add: dedup_gate_block)
qed

interpretation volume_window: bounded_window push_volume "\<lambda>h. h" volume_history_cap
proof unfold_locales
  show "0 < volume_history_cap" by (simp add: volume_history_cap_def)
next
  fix w :: "int list" and x assume "length w \<le> volume_history_cap"
  then show "length (push_volume x w) \<le> volume_history_cap"
    by (simp add: push_volume_def Let_def)
next
  fix w :: "int list" and x assume "length w \<le> volume_history_cap"
  then show "x \<in> set (push_volume x w)"
    by (simp add: push_volume_def take_last_def Let_def volume_history_cap_def)
next
  fix w :: "int list" and x show "set (push_volume x w) \<subseteq> insert x (set w)"
    using set_take_last [of volume_history_cap "w @ [x]"] by (auto simp: push_volume_def Let_def)
qed

interpretation recent_window: bounded_window push_recent "\<lambda>r. r" max_recent_events
proof unfold_locales
  show "0 < max_recent_events" by (simp add: max_recent_events_def)
next
  fix w :: "radar_item list" and x show "length (push_recent x w) \<le> max_recent_events"
    by (simp add: push_recent_def)
next
  fix w :: "radar_item list" and x show "x \<in> set (push_recent x w)"
    by (simp add: push_recent_def max_recent_events_def)
next
  fix w :: "radar_item list" and x show "set (push_recent x w) \<subseteq> insert x (set w)"
    by (auto simp: push_recent_def dest: in_set_takeD)
qed

section \<open>Runs of ticks\<close>

text \<open>A tick with the clock and the two answers of the calendar at that moment.\<close>

record market_tick =
  mt_hours :: bool
  mt_allowed :: bool
  mt_now :: real
  mt_tick :: tick

definition step_tick :: "market_tick \<Rightarrow> detector \<Rightarrow> detector" where
  "step_tick m = on_price_update (mt_hours m) (mt_allowed m) (mt_now m) (mt_tick m)"

definition event_name :: "event_type \<Rightarrow> string" where
  "event_name e = (case e of PRICE_UPDATE \<Rightarrow> ''PRICE_UPDATE'' | VOLUME_SPIKE \<Rightarrow> ''VOLUME_SPIKE''
     | PRICE_SURGE \<Rightarrow> ''PRICE_SURGE'' | PRICE_DROP \<Rightarrow> ''PRICE_DROP'' | STOP_LOSS_HIT \<Rightarrow> ''STOP_LOSS''
     | TAKE_PROFIT_HIT \<Rightarrow> ''TAKE_PROFIT'')"

definition event_key :: "detected_event \<Rightarrow> string" where
  "event_key e = de_symbol e @ '':'' @ event_name (de_type e)"

text \<open>When the events of a key were published, price updates (which have no key) left out.\<close>

definition key_times :: "string \<Rightarrow> detected_event list \<Rightarrow> real list" where
  "key_times k es = map de_at (filter (\<lambda>e. de_type e \<noteq> PRICE_UPDATE \<and> event_key e = k) es)"

definition spaced :: "detector \<Rightarrow> bool" where
  "spaced d \<longleftrightarrow> (\<forall>k. sorted_wrt (\<lambda>a b. a + event_dedup_sec \<le> b) (key_times k (ed_published d)) \<and>
     (key_times k (ed_published d) \<noteq> [] \<longrightarrow> ed_last_events d k = Some (last (key_times k (ed_published d)))))"

definition recent_ok :: "detector \<Rightarrow> bool" where
  "recent_ok d \<longleftrightarrow> length (ed_recent d) \<le> max_recent_events \<and>
     distinct (map (\<lambda>i. (ri_symbol i, ri_type i)) (ed_recent d)) \<and>
     (\<forall>s. length (ed_volume d s) \<le> volume_history_cap)"

lemma key_times_append [simp]:
  "key_times k [] = []"
  "key_times k (es @ [e]) = key_times k es @ (if de_type e \<noteq> PRICE_UPDATE \<and> event_key e = k then [de_at e] else [])"
  by (simp_all add: key_times_def)

lemma emit_simps [simp]:
  "ed_published (emit e d) = ed_published d @ [e]" "ed_last_events (emit e d) = ed_last_events d"
  "ed_thresholds (emit e d) = ed_thresholds d" "ed_volume (emit e d) = ed_volume d"
  by (simp_all add: emit_def record_recent_event_def)

lemma emit_once_cases:
  obtains (duplicate) "\<not> fst (dedup_gate (de_symbol e @ '':'' @ n) (de_at e) d)" and "emit_once n e d = d"
  | (fresh) "fst (dedup_gate (de_symbol e @ '':'' @ n) (de_at e) d)"
      and "emit_once n e d = emit e (snd (dedup_gate (de_symbol e @ '':'' @ n) (de_at e) d))"
  by (cases "fst (dedup_gate (de_symbol e @ '':'' @ n) (de_at e) d)")
    (auto simp: emit_once_def should_dedup_def case_prod_beta dedup_gate_block)

lemma spaced_emit_once:
  assumes "spaced d" and "n = event_name (de_type e)" and "de_type e \<noteq> PRICE_UPDATE"
  shows "spaced (emit_once n e d)"
proof (cases rule: emit_once_cases [of e n d])
  case duplicate
  then show ?thesis using assms by simp
next
  case fresh
  let ?k = "de_symbol e @ '':'' @ n"
  have key: "event_key e = ?k" using assms(2) by (simp add: event_key_def)
  have rec: "ed_last_events (snd (dedup_gate ?k (de_at e) d)) = (ed_last_events d)(?k \<mapsto> de_at e)"
    using fresh(1) by (rule dedup.pass_records)
  have pub: "ed_published (snd (dedup_gate ?k (de_at e) d)) = ed_published d"
    using dedup_gate_pass [OF fresh(1)] by simp
  have gap: "x + event_dedup_sec \<le> de_at e" if "x \<in> set (key_times ?k (ed_published d))" for x
  proof -
    let ?ts = "key_times ?k (ed_published d)"
    have "?ts \<noteq> []" using that by auto
    with assms(1) have l: "ed_last_events d ?k = Some (last ?ts)" and
      srt: "sorted_wrt (\<lambda>a b. a + event_dedup_sec \<le> b) ?ts" by (auto simp: spaced_def)
    have "event_dedup_sec \<le> de_at e - last ?ts" using dedup.pass_spaced [OF fresh(1) l] .
    moreover have "x \<le> last ?ts"
    proof -
      have "sorted_wrt (\<lambda>a b. a + event_dedup_sec \<le> b) (butlast ?ts @ [last ?ts])"
        using srt \<open>?ts \<noteq> []\<close> by simp
      then have "\<forall>y \<in> set (butlast ?ts). y + event_dedup_sec \<le> last ?ts" by (simp only: sorted_wrt_append list.set) simp
      moreover have "x \<in> set (butlast ?ts) \<or> x = last ?ts"
        using that \<open>?ts \<noteq> []\<close> by (metis append_butlast_last_id in_set_conv_decomp_last insert_iff list.set(2) rotate1.simps(2) set_rotate1)
      ultimately show ?thesis by (auto simp: event_dedup_sec_def)
    qed
    ultimately show ?thesis by linarith
  qed
  show ?thesis unfolding spaced_def
  proof
    fix k
    show "sorted_wrt (\<lambda>a b. a + event_dedup_sec \<le> b) (key_times k (ed_published (emit_once n e d))) \<and>
       (key_times k (ed_published (emit_once n e d)) \<noteq> [] \<longrightarrow>
          ed_last_events (emit_once n e d) k = Some (last (key_times k (ed_published (emit_once n e d)))))"
    proof (cases "k = ?k")
      case True
      then show ?thesis using assms(1,3) gap key rec pub by (simp add: fresh(2) sorted_wrt_append spaced_def)
    next
      case False
      then show ?thesis using assms(1) key rec pub by (simp add: fresh(2) spaced_def)
    qed
  qed
qed

lemma tick_event_simps [simp]:
  "de_type (tick_event e r a now t) = e" "de_symbol (tick_event e r a now t) = tk_symbol t"
  "de_at (tick_event e r a now t) = now"
  by (simp_all add: tick_event_def)

lemma spaced_checks:
  "spaced d \<Longrightarrow> spaced (check_volume_spike now t th a d)"
  "spaced d \<Longrightarrow> spaced (check_price_movement now t th a d)"
  "spaced d \<Longrightarrow> spaced (check_stop_take now t th a d)"
  by (simp_all add: check_volume_spike_def check_price_movement_def check_stop_take_def Let_def
      spaced_emit_once event_name_def)

lemma spaced_frame:
  "spaced (update_cache t d) = spaced d" "spaced (trail_symbol s p d) = spaced d"
  "de_type e = PRICE_UPDATE \<Longrightarrow> spaced (d\<lparr>ed_published := ed_published d @ [e]\<rparr>) = spaced d"
  by (simp_all add: spaced_def update_cache_def trail_symbol_def split: option.split)

lemma spaced_tick: "spaced d \<Longrightarrow> spaced (step_tick m d)"
  by (simp add: step_tick_def on_price_update_def Let_def spaced_frame spaced_checks)

lemma spaced_run: "spaced d \<Longrightarrow> spaced (fold step_tick ms d)"
  by (induction ms arbitrary: d) (simp_all add: spaced_tick)

lemma distinct_map_filter_cons:
  "distinct (map f r) \<Longrightarrow> distinct (map f (x # filter (\<lambda>i. f i \<noteq> f x) r))"
  by (auto simp: distinct_map_filter)

lemma distinct_push_recent:
  assumes "distinct (map (\<lambda>i. (ri_symbol i, ri_type i)) r)"
  shows "distinct (map (\<lambda>i. (ri_symbol i, ri_type i)) (push_recent x r))"
proof -
  let ?f = "\<lambda>i. (ri_symbol i, ri_type i)"
  have "push_recent x r = take max_recent_events (x # filter (\<lambda>i. ?f i \<noteq> ?f x) r)"
    by (simp add: push_recent_def)
  then show ?thesis using distinct_map_filter_cons [OF assms, of x]
    by (simp only: take_map [symmetric] distinct_take)
qed

lemma recent_ok_emit: "recent_ok d \<Longrightarrow> recent_ok (emit e d)"
  by (auto simp: recent_ok_def emit_def record_recent_event_def distinct_push_recent recent_window.push_length)

lemma recent_ok_last: "recent_ok (d\<lparr>ed_last_events := l\<rparr>) = recent_ok d"
  by (simp add: recent_ok_def)

lemma recent_ok_emit_once: "recent_ok d \<Longrightarrow> recent_ok (emit_once n e d)"
  by (cases rule: emit_once_cases [of e n d]) (simp_all add: dedup_gate_pass recent_ok_last recent_ok_emit)

lemma recent_ok_frame:
  "recent_ok d \<Longrightarrow> recent_ok (update_cache t d)" "recent_ok (trail_symbol s p d) = recent_ok d"
  "recent_ok (d\<lparr>ed_published := es\<rparr>) = recent_ok d"
  by (simp_all add: recent_ok_def update_cache_def trail_symbol_def volume_window.push_length split: option.split)

lemma recent_ok_tick: "recent_ok d \<Longrightarrow> recent_ok (step_tick m d)"
  by (simp add: step_tick_def on_price_update_def check_volume_spike_def check_price_movement_def
      check_stop_take_def Let_def recent_ok_frame recent_ok_emit_once)

lemma recent_ok_run: "recent_ok d \<Longrightarrow> recent_ok (fold step_tick ms d)"
  by (induction ms arbitrary: d) (simp_all add: recent_ok_tick)

section \<open>The trailing stop\<close>

lemma thresholds_emit_once [simp]: "ed_thresholds (emit_once n e d) = ed_thresholds d"
  by (cases rule: emit_once_cases [of e n d]) (simp_all add: dedup_gate_pass)

lemma thresholds_checks [simp]:
  "ed_thresholds (check_volume_spike now t th a d) = ed_thresholds d"
  "ed_thresholds (check_price_movement now t th a d) = ed_thresholds d"
  "ed_thresholds (check_stop_take now t th a d) = ed_thresholds d"
  "ed_thresholds (update_cache t d) = ed_thresholds d"
  by (simp_all add: check_volume_spike_def check_price_movement_def check_stop_take_def update_cache_def Let_def)

definition live :: "market_tick \<Rightarrow> bool" where
  "live m \<longleftrightarrow> mt_hours m \<and> tk_symbol (mt_tick m) \<noteq> [] \<and> 0 < tk_price (mt_tick m)"

lemma thresholds_tick:
  "ed_thresholds (step_tick m d) =
     (if live m then ed_thresholds (trail_symbol (tk_symbol (mt_tick m)) (tk_price (mt_tick m)) d)
      else ed_thresholds d)"
  by (auto simp: step_tick_def on_price_update_def live_def Let_def trail_symbol_def split: option.split)

lemma map_of_tick:
  "map_of (ed_thresholds (step_tick m d)) s =
     (case map_of (ed_thresholds d) s of None \<Rightarrow> None
      | Some th \<Rightarrow> Some (if live m \<and> tk_symbol (mt_tick m) = s then trail (tk_price (mt_tick m)) th else th))"
  by (auto simp: thresholds_tick trail_symbol_def update_conv' split: option.split)

lemma get_thresholds_tick:
  "get_thresholds s (step_tick m d) =
     (if live m \<and> tk_symbol (mt_tick m) = s then trail (tk_price (mt_tick m)) (get_thresholds s d)
      else get_thresholds s d)"
proof -
  have "trail p default_thresholds = default_thresholds" for p
    by (simp add: trail_def default_thresholds_def)
  then show ?thesis by (simp add: get_thresholds_def map_of_tick split: option.split)
qed

definition trail_ok :: "stock_thresholds \<Rightarrow> bool" where
  "trail_ok th \<longleftrightarrow> th_highest_price th * (1 - th_trailing_stop_pct th / 100) \<le> th_stop_loss th"

lemma trail_simps [simp]: "th_trailing_stop_pct (trail p th) = th_trailing_stop_pct th"
  "th_take_profit (trail p th) = th_take_profit th"
  by (simp_all add: trail_def Let_def)

lemma trail_up: "th_stop_loss th \<le> th_stop_loss (trail p th)" "th_highest_price th \<le> th_highest_price (trail p th)"
  by (simp_all add: trail_def Let_def)

lemma trail_seen: "0 < th_trailing_stop_pct th \<Longrightarrow> p \<le> th_highest_price (trail p th)"
  by (simp add: trail_def Let_def)

lemma trail_ok_trail: "trail_ok th \<Longrightarrow> trail_ok (trail p th)"
  by (simp add: trail_ok_def trail_def Let_def)

lemma trail_ok_init: "0 < th_trailing_stop_pct th \<Longrightarrow> th_trailing_stop_pct th < 100 \<Longrightarrow> th_highest_price th = 0 \<Longrightarrow>
    0 \<le> th_stop_loss th \<Longrightarrow> trail_ok (init_highest th)"
  by (simp add: trail_ok_def init_highest_def)

lemma trail_run:
  "th_stop_loss (get_thresholds s d) \<le> th_stop_loss (get_thresholds s (fold step_tick ms d)) \<and>
   th_highest_price (get_thresholds s d) \<le> th_highest_price (get_thresholds s (fold step_tick ms d)) \<and>
   th_trailing_stop_pct (get_thresholds s (fold step_tick ms d)) = th_trailing_stop_pct (get_thresholds s d) \<and>
   (trail_ok (get_thresholds s d) \<longrightarrow> trail_ok (get_thresholds s (fold step_tick ms d))) \<and>
   (0 < th_trailing_stop_pct (get_thresholds s d) \<longrightarrow>
     (\<forall>m \<in> set ms. live m \<and> tk_symbol (mt_tick m) = s \<longrightarrow>
        tk_price (mt_tick m) \<le> th_highest_price (get_thresholds s (fold step_tick ms d))))"
proof (induction ms arbitrary: d)
  case (Cons m ms)
  show ?case using Cons [of "step_tick m d"] trail_up [of "get_thresholds s d" "tk_price (mt_tick m)"]
      trail_seen [of "get_thresholds s d" "tk_price (mt_tick m)"] trail_ok_trail [of "get_thresholds s d"]
    by (auto simp: get_thresholds_tick split: if_splits)
qed simp

section \<open>When a stop loss fires\<close>

lemma emit_once_published:
  "ed_published (emit_once n e d) =
     ed_published d @ (if fst (dedup_gate (de_symbol e @ '':'' @ n) (de_at e) d) then [e] else [])"
  by (cases rule: emit_once_cases [of e n d]) (simp_all add: dedup_gate_pass)

lemma emit_once_last:
  "k \<noteq> de_symbol e @ '':'' @ n \<Longrightarrow> ed_last_events (emit_once n e d) k = ed_last_events d k"
  by (cases rule: emit_once_cases [of e n d]) (simp_all add: dedup_gate_pass)

text \<open>The events a step appends, and the stop loss events among them.\<close>

definition stop_losses :: "detected_event list \<Rightarrow> detected_event list" where
  "stop_losses es = filter (\<lambda>e. de_type e = STOP_LOSS_HIT) es"

lemma stop_losses_simps [simp]:
  "stop_losses [] = []" "stop_losses (xs @ ys) = stop_losses xs @ stop_losses ys"
  "stop_losses (e # es) = (if de_type e = STOP_LOSS_HIT then e # stop_losses es else stop_losses es)"
  by (simp_all add: stop_losses_def)

lemma early_checks_frame:
  "stop_losses (ed_published (check_volume_spike now t th a d)) = stop_losses (ed_published d)"
  "stop_losses (ed_published (check_price_movement now t th a d)) = stop_losses (ed_published d)"
  "ed_last_events (check_volume_spike now t th a d) (tk_symbol t @ '':STOP_LOSS'') = ed_last_events d (tk_symbol t @ '':STOP_LOSS'')"
  "ed_last_events (check_price_movement now t th a d) (tk_symbol t @ '':STOP_LOSS'') = ed_last_events d (tk_symbol t @ '':STOP_LOSS'')"
  by (simp_all add: check_volume_spike_def check_price_movement_def emit_once_published emit_once_last Let_def)

lemma gate_iff:
  "fst (dedup_gate k now d) \<longleftrightarrow> (\<forall>l. ed_last_events d k = Some l \<longrightarrow> event_dedup_sec \<le> now - l)"
  by (simp add: dedup_gate_def split: option.split)

lemma stop_take_stop_losses:
  "stop_losses (ed_published (check_stop_take now t th a d)) = stop_losses (ed_published d) @
     (if 0 < th_stop_loss th \<and> tk_price t \<le> th_stop_loss th \<and>
         (\<forall>l. ed_last_events d (tk_symbol t @ '':STOP_LOSS'') = Some l \<longrightarrow> event_dedup_sec \<le> now - l)
      then [tick_event STOP_LOSS_HIT 0 a now t] else [])"
  by (auto simp add: check_stop_take_def emit_once_published Let_def gate_iff)

section \<open>Properties\<close>

text \<open>
  A tick publishes a stop loss exactly when the market is in trading hours and automated trading
  is allowed, the symbol's stop (after the trailing stop moved with this very price) is set and
  reached, and no stop loss of the symbol was published within the last sixty seconds.
\<close>

lemma stop_loss_fires_iff:
  "stop_losses (ed_published (step_tick m d)) = stop_losses (ed_published d) @
     (if live m \<and> mt_allowed m \<and>
         0 < th_stop_loss (trail (tk_price (mt_tick m)) (get_thresholds (tk_symbol (mt_tick m)) d)) \<and>
         tk_price (mt_tick m) \<le> th_stop_loss (trail (tk_price (mt_tick m)) (get_thresholds (tk_symbol (mt_tick m)) d)) \<and>
         (case ed_last_events d (tk_symbol (mt_tick m) @ '':STOP_LOSS'') of None \<Rightarrow> True | Some l \<Rightarrow> event_dedup_sec \<le> mt_now m - l)
      then [tick_event STOP_LOSS_HIT 0 True (mt_now m) (mt_tick m)] else [])"
proof (cases "live m")
  case False
  then show ?thesis by (auto simp: step_tick_def on_price_update_def live_def)
next
  case True
  let ?t = "mt_tick m" and ?now = "mt_now m" and ?a = "mt_allowed m"
  let ?d1 = "d\<lparr>ed_published := ed_published d @ [tick_event PRICE_UPDATE 0 ?a ?now ?t]\<rparr>"
  let ?d2 = "trail_symbol (tk_symbol ?t) (tk_price ?t) ?d1"
  have same: "ed_published (trail_symbol x y z) = ed_published z" "ed_last_events (trail_symbol x y z) = ed_last_events z"
    for x y z by (simp_all add: trail_symbol_def split: option.split)
  have th: "get_thresholds (tk_symbol ?t) ?d2 = trail (tk_price ?t) (get_thresholds (tk_symbol ?t) d)"
    using True get_thresholds_tick [of "tk_symbol ?t" m d]
    by (simp add: get_thresholds_def thresholds_tick trail_symbol_def split: option.splits)
  have pub: "ed_published (update_cache ?t x) = ed_published x" for x by (simp add: update_cache_def)
  have step: "step_tick m d = (if \<not> ?a then update_cache ?t ?d2 else update_cache ?t
      (check_stop_take ?now ?t (get_thresholds (tk_symbol ?t) ?d2) ?a
        (check_price_movement ?now ?t (get_thresholds (tk_symbol ?t) ?d2) ?a
          (check_volume_spike ?now ?t (get_thresholds (tk_symbol ?t) ?d2) ?a ?d2))))"
    using True by (simp add: step_tick_def on_price_update_def live_def Let_def)
  show ?thesis unfolding step
    unfolding th by (cases ?a) (simp_all add: pub stop_take_stop_losses early_checks_frame same True split: option.split)
qed

text \<open>
  However ticks arrive, the detector never publishes two events of the same kind for the same
  symbol less than sixty seconds apart.
\<close>

lemma no_duplicate_within_a_minute:
  "sorted_wrt (\<lambda>a b. a + 60 \<le> b) (key_times k (ed_published (fold step_tick ms new_detector)))"
proof -
  have "spaced new_detector" by (simp add: spaced_def new_detector_def)
  from spaced_run [OF this, of ms] show ?thesis by (simp add: spaced_def event_dedup_sec_def)
qed

text \<open>
  Whatever ticks arrive, the list of recent events keeps at most forty entries, one per symbol
  and kind, and every volume history at most twenty.
\<close>

lemma detector_memory_bounded:
  "length (ed_recent (fold step_tick ms new_detector)) \<le> 40 \<and>
   distinct (map (\<lambda>i. (ri_symbol i, ri_type i)) (ed_recent (fold step_tick ms new_detector))) \<and>
   length (ed_volume (fold step_tick ms new_detector) s) \<le> 20"
proof -
  have "recent_ok new_detector" by (simp add: recent_ok_def new_detector_def)
  from recent_ok_run [OF this, of ms] show ?thesis
    by (simp add: recent_ok_def max_recent_events_def volume_history_cap_def)
qed

text \<open>
  The trailing stop: over any run of ticks the stop of a symbol never goes down, and once it
  trails the highest price it stays within its percentage of every price seen in trading hours.
\<close>

lemma trailing_stop_follows_price:
  assumes "0 < th_trailing_stop_pct (get_thresholds s d)" and "th_trailing_stop_pct (get_thresholds s d) < 100"
    and "trail_ok (get_thresholds s d)" and "m \<in> set ms" and "live m" and "tk_symbol (mt_tick m) = s"
  shows "th_stop_loss (get_thresholds s d) \<le> th_stop_loss (get_thresholds s (fold step_tick ms d)) \<and>
    tk_price (mt_tick m) * (1 - th_trailing_stop_pct (get_thresholds s d) / 100) \<le>
      th_stop_loss (get_thresholds s (fold step_tick ms d))"
proof -
  let ?th = "get_thresholds s (fold step_tick ms d)"
  have "tk_price (mt_tick m) \<le> th_highest_price ?th" using trail_run [of s d ms] assms by blast
  moreover have pct: "th_trailing_stop_pct ?th = th_trailing_stop_pct (get_thresholds s d)"
    and up: "th_stop_loss (get_thresholds s d) \<le> th_stop_loss ?th" and ok: "trail_ok ?th"
    using trail_run [of s d ms] assms(3) by auto
  ultimately have "tk_price (mt_tick m) * (1 - th_trailing_stop_pct ?th / 100) \<le>
      th_highest_price ?th * (1 - th_trailing_stop_pct ?th / 100)"
    using assms(2) by (intro mult_right_mono) auto
  also have "\<dots> \<le> th_stop_loss ?th" using ok by (simp add: trail_ok_def)
  finally show ?thesis using up pct by simp
qed

definition sample_market_tick :: market_tick where
  "sample_market_tick = \<lparr>mt_hours = True, mt_allowed = True, mt_now = 1000,
     mt_tick = \<lparr>tk_symbol = ''005930'', tk_price = 80000, tk_volume = 10, tk_change_rate = 1\<rparr>\<rparr>"

definition sample_detector :: detector where
  "sample_detector = set_thresholds ''005930'' [(Stop_loss_price, Some 68600), (Trailing_stop_pct, Some 2)] new_detector"

lemma sample_detector_thresholds:
  "get_thresholds ''005930'' sample_detector = default_thresholds\<lparr>th_stop_loss := 68600,
     th_trailing_stop_pct := 2, th_highest_price := 70000\<rparr>"
  by (simp add: sample_detector_def set_thresholds_def get_thresholds_def new_detector_def validated_def
      set_threshold_key_def init_highest_def default_thresholds_def)

lemma trailing_stop_follows_price_witness:
  "80000 * (1 - 2 / 100) \<le> th_stop_loss (get_thresholds ''005930'' (fold step_tick [sample_market_tick] sample_detector))"
  using trailing_stop_follows_price [of "''005930''" sample_detector sample_market_tick "[sample_market_tick]"]
  unfolding sample_detector_thresholds
  by (simp add: default_thresholds_def trail_ok_def live_def sample_market_tick_def)

end
