(* ===== verification/Calendar.thy ===== *)
theory Calendar
  imports Py_Prelude
begin

text \<open>
  The market calendar (\<open>scheduler/market_calendar.py\<close>). Day 0 is Monday 0001-01-01, so that the
  weekday of a day is the day modulo seven. The Korean holidays come from a package and are an
  argument: the name of the holiday on a day, if any. The search for the next trading day is a loop
  without a bound, modelled by a partial function: no value means that it does not return.
\<close>

section \<open>Days and times\<close>

type_synonym holiday_names = "int \<Rightarrow> string option"

definition hm :: "int \<Rightarrow> int \<Rightarrow> int" where "hm h m = (h * 60 + m) * minute_us"

definition at_time :: "pydt \<Rightarrow> int \<Rightarrow> pydt" where
  "at_time d tod = PyDT (dt_date d * day_us + tod) (aware d)"

definition add_us :: "pydt \<Rightarrow> int \<Rightarrow> pydt" where "add_us d us = PyDT (wall d + us) (aware d)"

definition weekday :: "int \<Rightarrow> int" where "weekday day = day mod 7"

definition is_holiday_date :: "holiday_names \<Rightarrow> int \<Rightarrow> bool" where
  "is_holiday_date hol day \<longleftrightarrow> 5 \<le> weekday day \<or> hol day \<noteq> None"

section \<open>The predicates\<close>

definition is_krx_holiday :: "holiday_names \<Rightarrow> pydt \<Rightarrow> bool" where
  "is_krx_holiday hol d \<longleftrightarrow> is_holiday_date hol (dt_date d)"

definition is_krx_trading_day :: "holiday_names \<Rightarrow> pydt \<Rightarrow> bool" where
  "is_krx_trading_day hol d \<longleftrightarrow> \<not> is_krx_holiday hol d"

definition is_krx_trading_hours :: "holiday_names \<Rightarrow> pydt \<Rightarrow> bool" where
  "is_krx_trading_hours hol d \<longleftrightarrow> \<not> is_krx_holiday hol d \<and> hm 9 0 \<le> dt_tod d \<and> dt_tod d \<le> hm 15 30"

definition is_nxt_pre_market :: "holiday_names \<Rightarrow> pydt \<Rightarrow> bool" where
  "is_nxt_pre_market hol d \<longleftrightarrow> \<not> is_krx_holiday hol d \<and> hm 8 0 \<le> dt_tod d \<and> dt_tod d \<le> hm 8 50"

definition is_nxt_after_market :: "holiday_names \<Rightarrow> pydt \<Rightarrow> bool" where
  "is_nxt_after_market hol d \<longleftrightarrow> \<not> is_krx_holiday hol d \<and> hm 15 30 \<le> dt_tod d \<and> dt_tod d \<le> hm 20 0"

definition is_nxt_trading_hours :: "holiday_names \<Rightarrow> pydt \<Rightarrow> bool" where
  "is_nxt_trading_hours hol d \<longleftrightarrow> \<not> is_krx_holiday hol d \<and> hm 8 0 \<le> dt_tod d \<and> dt_tod d \<le> hm 20 0"

definition is_domestic_trading_hours :: "holiday_names \<Rightarrow> pydt \<Rightarrow> bool" where
  "is_domestic_trading_hours = is_nxt_trading_hours"

definition is_us_trading_hours :: "pydt \<Rightarrow> bool" where
  "is_us_trading_hours d \<longleftrightarrow> hm 22 30 \<le> dt_tod d \<or> dt_tod d \<le> hm 5 0"

definition is_any_market_open :: "holiday_names \<Rightarrow> pydt \<Rightarrow> bool" where
  "is_any_market_open hol d \<longleftrightarrow> is_domestic_trading_hours hol d \<or> is_us_trading_hours d"

datatype market_session = NXT_PRE | KRX_NXT | KRX_CLOSE | NXT_AFTER | CLOSED

definition get_market_session :: "holiday_names \<Rightarrow> pydt \<Rightarrow> market_session" where
  "get_market_session hol d =
     (let t = dt_tod d
      in if is_krx_holiday hol d then CLOSED
         else if hm 8 0 \<le> t \<and> t < hm 8 50 then NXT_PRE
         else if hm 9 0 \<le> t \<and> t < hm 15 20 then KRX_NXT
         else if hm 15 20 \<le> t \<and> t \<le> hm 15 30 then KRX_CLOSE
         else if hm 15 30 < t \<and> t \<le> hm 20 0 then NXT_AFTER
         else CLOSED)"

definition supports_automated_trading :: "market_session \<Rightarrow> bool" where
  "supports_automated_trading s \<longleftrightarrow> s = KRX_NXT"

definition is_automated_trading_session :: "holiday_names \<Rightarrow> pydt \<Rightarrow> bool" where
  "is_automated_trading_session hol d \<longleftrightarrow> supports_automated_trading (get_market_session hol d)"

definition get_holiday_name :: "holiday_names \<Rightarrow> pydt \<Rightarrow> string option" where
  "get_holiday_name hol d = hol (dt_date d)"

section \<open>The next opening\<close>

partial_function (option) skip_holidays :: "holiday_names \<Rightarrow> pydt \<Rightarrow> pydt option" where
  "skip_holidays hol d = (if is_krx_holiday hol d then skip_holidays hol (add_us d day_us) else Some d)"

definition next_opening :: "int \<Rightarrow> holiday_names \<Rightarrow> pydt \<Rightarrow> pydt option" where
  "next_opening tod hol d =
     (if dt_tod d < tod \<and> is_krx_trading_day hol d then Some (at_time d tod)
      else map_option (\<lambda>n. at_time n tod) (skip_holidays hol (add_us d day_us)))"

definition next_krx_open :: "holiday_names \<Rightarrow> pydt \<Rightarrow> pydt option" where
  "next_krx_open = next_opening (hm 9 0)"

definition next_market_open :: "holiday_names \<Rightarrow> pydt \<Rightarrow> pydt option" where
  "next_market_open = next_opening (hm 8 0)"

definition next_session_start :: "holiday_names \<Rightarrow> pydt \<Rightarrow> pydt option" where
  "next_session_start hol d =
     (if is_krx_holiday hol d then next_market_open hol d
      else case get_market_session hol d of
        NXT_PRE \<Rightarrow> Some (at_time d (hm 9 0))
      | KRX_NXT \<Rightarrow> Some (at_time d (hm 15 20))
      | KRX_CLOSE \<Rightarrow> Some (at_time d (hm 15 30))
      | NXT_AFTER \<Rightarrow> next_market_open hol (add_us d minute_us)
      | CLOSED \<Rightarrow> next_market_open hol d)"

record session_info =
  si_code :: market_session
  si_holiday :: "string option"
  si_domestic_open :: bool
  si_regular_open :: bool
  si_automated :: bool
  si_next :: "pydt option"

definition get_market_session_info :: "holiday_names \<Rightarrow> pydt \<Rightarrow> session_info" where
  "get_market_session_info hol d =
     \<lparr>si_code = get_market_session hol d, si_holiday = get_holiday_name hol d,
      si_domestic_open = is_domestic_trading_hours hol d, si_regular_open = is_krx_trading_hours hol d,
      si_automated = supports_automated_trading (get_market_session hol d), si_next = next_session_start hol d\<rparr>"

section \<open>Lemmas\<close>

lemma day_parts: "wall d = dt_date d * day_us + dt_tod d" "0 \<le> dt_tod d" "dt_tod d < day_us"
  by (simp_all add: dt_date_def dt_tod_def)

lemma at_time_parts: "0 \<le> tod \<Longrightarrow> tod < day_us \<Longrightarrow> dt_date (at_time d tod) = dt_date d \<and> dt_tod (at_time d tod) = tod"
  by (simp add: at_time_def dt_date_def dt_tod_def)

lemma add_day_parts [simp]: "dt_date (add_us d (n * day_us)) = dt_date d + n" "dt_tod (add_us d (n * day_us)) = dt_tod d"
  by (simp_all add: add_us_def dt_date_def dt_tod_def day_us_def)

lemma add_one_day [simp]: "dt_date (add_us d day_us) = dt_date d + 1" "dt_tod (add_us d day_us) = dt_tod d"
  using add_day_parts [of d 1] by simp_all

lemma add_add [simp]: "add_us (add_us d a) b = add_us d (a + b)"
  by (simp add: add_us_def)

lemma hm_simps: "hm h m < hm h' m' \<longleftrightarrow> h * 60 + m < h' * 60 + m'" "hm h m \<le> hm h' m' \<longleftrightarrow> h * 60 + m \<le> h' * 60 + m'"
  by (simp_all add: hm_def)

lemma hm_day: "0 \<le> h * 60 + m \<Longrightarrow> h * 60 + m < 1440 \<Longrightarrow> 0 \<le> hm h m \<and> hm h m < day_us"
  by (simp add: hm_def minute_us_def day_us_def)

lemma holiday_of_date: "is_krx_holiday hol d \<longleftrightarrow> is_holiday_date hol (dt_date d)"
  by (simp add: is_krx_holiday_def)

text \<open>The loop returns the first trading day at or after its start, whenever there is one.\<close>

lemma skip_holidays_first:
  "(\<forall>j < k. is_holiday_date hol (dt_date d + int j)) \<Longrightarrow> \<not> is_holiday_date hol (dt_date d + int k) \<Longrightarrow>
     skip_holidays hol d = Some (add_us d (int k * day_us))"
proof (induction k arbitrary: d)
  case 0
  then show ?case by (subst skip_holidays.simps) (simp add: holiday_of_date add_us_def)
next
  case (Suc k)
  have now: "is_krx_holiday hol d" using Suc.prems(1) by (auto simp: holiday_of_date dest: spec [of _ 0])
  have "\<forall>j < k. is_holiday_date hol (dt_date (add_us d day_us) + int j)"
  proof (intro allI impI)
    fix j assume "j < k"
    then have "is_holiday_date hol (dt_date d + int (Suc j))" using Suc.prems(1) by blast
    then show "is_holiday_date hol (dt_date (add_us d day_us) + int j)" by (simp add: ac_simps)
  qed
  moreover have "\<not> is_holiday_date hol (dt_date (add_us d day_us) + int k)"
    using Suc.prems(2) by (simp add: ac_simps)
  ultimately have "skip_holidays hol (add_us d day_us) = Some (add_us (add_us d day_us) (int k * day_us))"
    by (rule Suc.IH)
  then show ?case using now by (subst skip_holidays.simps) (simp add: algebra_simps)
qed

lemma skip_holidays_total:
  assumes "\<not> is_holiday_date hol (dt_date d + int k)"
  obtains k' where "k' \<le> k" and "skip_holidays hol d = Some (add_us d (int k' * day_us))"
    and "\<not> is_holiday_date hol (dt_date d + int k')" and "\<forall>j < k'. is_holiday_date hol (dt_date d + int j)"
proof -
  let ?P = "\<lambda>j. \<not> is_holiday_date hol (dt_date d + int j)"
  have least: "?P (LEAST j. ?P j)" using assms by (rule LeastI)
  have le: "(LEAST j. ?P j) \<le> k" using assms by (rule Least_le)
  have less: "\<forall>j < (LEAST j. ?P j). is_holiday_date hol (dt_date d + int j)" using not_less_Least by blast
  from that [OF le skip_holidays_first [OF less least] least less] show thesis .
qed

lemma next_opening_spec:
  assumes tod: "0 \<le> tod" "tod < day_us" and ex: "\<not> is_holiday_date hol (dt_date d + 1 + int k)"
  obtains r where "next_opening tod hol d = Some r" and "wall d < wall r" and "dt_tod r = tod"
    and "is_krx_trading_day hol r"
    and "\<And>day. dt_date d < day \<Longrightarrow> day < dt_date r \<Longrightarrow> is_holiday_date hol day"
    and "dt_date r = dt_date d \<longleftrightarrow> dt_tod d < tod \<and> is_krx_trading_day hol d" and "dt_date d \<le> dt_date r"
proof (cases "dt_tod d < tod \<and> is_krx_trading_day hol d")
  case True
  have p: "dt_date (at_time d tod) = dt_date d" "dt_tod (at_time d tod) = tod" using at_time_parts [OF tod] by auto
  show thesis
  proof (rule that [of "at_time d tod"])
    show "next_opening tod hol d = Some (at_time d tod)" using True by (simp add: next_opening_def)
    show "wall d < wall (at_time d tod)" using day_parts [of d] True by (simp add: at_time_def)
    show "is_krx_trading_day hol (at_time d tod)" using True p by (simp add: is_krx_trading_day_def holiday_of_date)
    show "is_holiday_date hol day" if "dt_date d < day" "day < dt_date (at_time d tod)" for day using that p by simp
    show "dt_date (at_time d tod) = dt_date d \<longleftrightarrow> dt_tod d < tod \<and> is_krx_trading_day hol d" using p True by blast
  qed (use p True in simp_all)
next
  case False
  obtain k' where k': "skip_holidays hol (add_us d day_us) = Some (add_us (add_us d day_us) (int k' * day_us))"
    "\<not> is_holiday_date hol (dt_date (add_us d day_us) + int k')"
    "\<forall>j < k'. is_holiday_date hol (dt_date (add_us d day_us) + int j)"
    by (rule skip_holidays_total [of hol "add_us d day_us" k]) (use ex in auto)
  let ?n = "add_us d (int (Suc k') * day_us)"
  have n: "skip_holidays hol (add_us d day_us) = Some ?n" using k'(1) by (simp add: algebra_simps)
  have date: "dt_date ?n = dt_date d + 1 + int k'" by (simp only: add_day_parts)
  have p: "dt_date (at_time ?n tod) = dt_date d + 1 + int k'" "dt_tod (at_time ?n tod) = tod"
    using at_time_parts [OF tod, of ?n] date by auto
  show thesis
  proof (rule that [of "at_time ?n tod"])
    show "next_opening tod hol d = Some (at_time ?n tod)" using False n by (auto simp: next_opening_def)
    have k0: "0 \<le> day_us * int k'" by (simp add: day_us_def)
    have "wall (at_time ?n tod) = dt_date d * day_us + (day_us + day_us * int k' + tod)"
      unfolding at_time_def date by (simp add: algebra_simps)
    then show "wall d < wall (at_time ?n tod)" using day_parts [of d] tod k0 by linarith
    show "is_krx_trading_day hol (at_time ?n tod)"
      using k'(2) p by (simp add: is_krx_trading_day_def holiday_of_date)
    fix day assume "dt_date d < day" "day < dt_date (at_time ?n tod)"
    then have "day = dt_date d + 1 + int (nat (day - dt_date d - 1))" "nat (day - dt_date d - 1) < k'" using p by auto
    then show "is_holiday_date hol day" using k'(3) by (metis add_one_day(1))
  qed (use p False in simp_all)
qed

section \<open>Properties\<close>

text \<open>
  C40: The next market opening is always found (the loop over closed days ends) as soon as one later
  trading day exists; it is strictly in the future, at 08:00 of a trading day, and no trading day
  between the two is skipped.
\<close>

theorem next_market_open_first:
  assumes "\<not> is_holiday_date hol (dt_date d + 1 + int k)"
  shows "\<exists>r. next_market_open hol d = Some r \<and> wall d < wall r \<and> dt_tod r = hm 8 0 \<and>
    is_krx_trading_day hol r \<and> (\<forall>day. dt_date d < day \<and> day < dt_date r \<longrightarrow> is_holiday_date hol day) \<and>
    (dt_date r = dt_date d \<longleftrightarrow> dt_tod d < hm 8 0 \<and> is_krx_trading_day hol d)"
proof -
  have "0 \<le> hm 8 0" "hm 8 0 < day_us" using hm_day [of 8 0] by auto
  then show ?thesis unfolding next_market_open_def by (rule next_opening_spec [OF _ _ assms]) blast
qed

theorem next_market_open_first_witness:
  "\<exists>r. next_market_open (\<lambda>_. None) (PyDT (4 * day_us + hm 9 0) True) = Some r \<and> dt_date r = 7"
proof -
  let ?d = "PyDT (4 * day_us + hm 9 0) True" and ?h = "\<lambda>_::int. None :: string option"
  have date: "dt_date ?d = 4" "dt_tod ?d = hm 9 0" by (simp_all add: dt_date_def dt_tod_def hm_def day_us_def minute_us_def)
  have "\<not> is_holiday_date ?h (dt_date ?d + 1 + int 2)" by (simp add: date is_holiday_date_def weekday_def)
  from next_market_open_first [OF this] obtain r where r: "next_market_open ?h ?d = Some r" "wall ?d < wall r"
    "is_krx_trading_day ?h r" "\<forall>day. dt_date ?d < day \<and> day < dt_date r \<longrightarrow> is_holiday_date ?h day"
    "dt_date r = dt_date ?d \<longleftrightarrow> dt_tod ?d < hm 8 0 \<and> is_krx_trading_day ?h ?d" by blast
  have open7: "\<not> is_holiday_date ?h 7" by (simp add: is_holiday_date_def weekday_def)
  have closed: "is_holiday_date ?h 5" "is_holiday_date ?h 6" by (simp_all add: is_holiday_date_def weekday_def)
  have trading: "\<not> is_holiday_date ?h (dt_date r)" using r(3) by (simp add: is_krx_trading_day_def holiday_of_date)
  have late: "\<not> hm 9 0 < hm 8 0" by (simp add: hm_simps)
  have "dt_date ?d \<le> dt_date r" using r(2) by (simp only: dt_date_def zdiv_mono1 day_us_def less_imp_le zero_less_numeral)
  then have "4 \<le> dt_date r" unfolding date .
  moreover have "dt_date r \<noteq> 4" using r(5) late unfolding date by blast
  moreover have "dt_date r \<noteq> 5" "dt_date r \<noteq> 6" using trading closed by metis+
  moreover have "\<not> 7 < dt_date r" using r(4) open7 unfolding date by (auto dest: spec [of _ 7])
  ultimately have "dt_date r = 7" by linarith
  then show ?thesis using r(1) by blast
qed

text \<open>
  Automated orders are allowed exactly from 09:00 up to, not including, 15:20 of a trading day;
  the exchange's regular hours and the domestic hours (with the alternative exchange) contain that
  window, and no automated session falls on a weekend or a holiday.
\<close>

lemma automated_session_window:
  "is_automated_trading_session hol d \<longleftrightarrow>
     is_krx_trading_day hol d \<and> hm 9 0 \<le> dt_tod d \<and> dt_tod d < hm 15 20 \<and>
     is_krx_trading_hours hol d \<and> is_domestic_trading_hours hol d \<and> is_any_market_open hol d \<and>
     weekday (dt_date d) < 5 \<and> get_holiday_name hol d = None"
proof (cases "is_krx_holiday hol d")
  case True
  then show ?thesis
    by (simp add: is_automated_trading_session_def supports_automated_trading_def get_market_session_def is_krx_trading_day_def)
next
  case False
  have day: "weekday (dt_date d) < 5" "get_holiday_name hol d = None"
    using False by (simp_all add: is_krx_holiday_def is_holiday_date_def get_holiday_name_def)
  have wide: "hm 9 0 \<le> t \<Longrightarrow> t < hm 15 20 \<Longrightarrow> t \<le> hm 15 30 \<and> hm 8 0 \<le> t \<and> t \<le> hm 20 0 \<and> \<not> t < hm 8 50" for t
    by (simp add: hm_def minute_us_def)
  have "is_automated_trading_session hol d \<longleftrightarrow> hm 9 0 \<le> dt_tod d \<and> dt_tod d < hm 15 20"
    using False wide [of "dt_tod d"]
    by (simp add: is_automated_trading_session_def supports_automated_trading_def get_market_session_def Let_def)
  then show ?thesis
    using False day wide [of "dt_tod d"]
    by (fastforce simp: is_krx_trading_day_def is_krx_trading_hours_def is_domestic_trading_hours_def
        is_nxt_trading_hours_def is_any_market_open_def)
qed

text \<open>
  The five sessions and the hour predicates: a domestic minute outside every session is exactly the
  gap between 08:50 and 09:00; and in that gap the announced next session is not the regular session
  of that day, which opens minutes later, but a pre-market of a later day.
\<close>

lemma morning_gap_skips_regular_session:
  assumes "\<not> is_holiday_date hol (dt_date d + 1 + int k)" "is_domestic_trading_hours hol d"
    "get_market_session hol d = CLOSED"
  shows "hm 8 50 \<le> dt_tod d \<and> dt_tod d < hm 9 0 \<and> is_krx_trading_hours hol (at_time d (hm 9 0)) \<and>
    (\<exists>r. next_session_start hol d = Some r \<and> dt_date d < dt_date r \<and> dt_tod r = hm 8 0)"
proof -
  have gap: "hm 8 50 \<le> dt_tod d" "dt_tod d < hm 9 0" "\<not> is_krx_holiday hol d"
    using assms(2,3) by (auto simp: is_domestic_trading_hours_def is_nxt_trading_hours_def get_market_session_def
        Let_def hm_def minute_us_def split: if_splits)
  have tod: "0 \<le> hm 8 0" "hm 8 0 < day_us" using hm_day [of 8 0] by auto
  have p: "dt_date (at_time d (hm 9 0)) = dt_date d" "dt_tod (at_time d (hm 9 0)) = hm 9 0"
    using at_time_parts [of "hm 9 0" d] hm_day [of 9 0] by auto
  have open9: "is_krx_trading_hours hol (at_time d (hm 9 0))"
    using gap(3) p by (simp add: is_krx_trading_hours_def holiday_of_date hm_simps)
  obtain r where r: "next_opening (hm 8 0) hol d = Some r" "dt_tod r = hm 8 0"
    "dt_date r = dt_date d \<longleftrightarrow> dt_tod d < hm 8 0 \<and> is_krx_trading_day hol d" "dt_date d \<le> dt_date r"
    by (rule next_opening_spec [OF tod assms(1)]) blast
  have "\<not> dt_tod d < hm 8 0" using gap(1) hm_simps(1) [of 8 0 8 50] by linarith
  then have "dt_date d < dt_date r" using r(3,4) by auto
  moreover have "next_session_start hol d = Some r"
    using gap(3) assms(3) r(1) by (simp add: next_session_start_def next_market_open_def)
  ultimately show ?thesis using gap open9 r(2) by blast
qed

theorem morning_gap_skips_regular_session_witness:
  "\<exists>r. next_session_start (\<lambda>_. None) (PyDT (hm 8 55) True) = Some r \<and> 0 < dt_date r"
proof -
  let ?d = "PyDT (hm 8 55) True" and ?h = "\<lambda>_::int. None :: string option"
  have date: "dt_date ?d = 0" "dt_tod ?d = hm 8 55" by (simp_all add: dt_date_def dt_tod_def hm_def day_us_def minute_us_def)
  have a: "\<not> is_holiday_date ?h (dt_date ?d + 1 + int 0)" by (simp add: date is_holiday_date_def weekday_def)
  have nh: "\<not> is_krx_holiday ?h ?d" by (simp add: holiday_of_date date is_holiday_date_def weekday_def)
  have b: "is_domestic_trading_hours ?h ?d"
    using nh by (simp add: is_domestic_trading_hours_def is_nxt_trading_hours_def date hm_simps)
  have c: "get_market_session ?h ?d = CLOSED" using nh by (simp add: get_market_session_def date hm_simps)
  show ?thesis using morning_gap_skips_regular_session [OF a b c] date by auto
qed

text \<open>
  The announced start of the next session is always found, never in the past, and strictly in the
  future except at 15:30:00 itself.
\<close>

lemma next_session_not_past:
  assumes "\<not> is_holiday_date hol (dt_date d + 1 + int k)"
  shows "\<exists>r. next_session_start hol d = Some r \<and> wall d \<le> wall r \<and> (dt_tod d \<noteq> hm 15 30 \<longrightarrow> wall d < wall r)"
proof -
  have open_later: "\<exists>r. next_market_open hol d' = Some r \<and> wall d' < wall r" if "dt_date d' = dt_date d" for d'
  proof -
    have tod: "0 \<le> hm 8 0" "hm 8 0 < day_us" using hm_day [of 8 0] by auto
    have "\<not> is_holiday_date hol (dt_date d' + 1 + int k)" using assms that by simp
    then show ?thesis unfolding next_market_open_def by (rule next_opening_spec [OF tod]) blast
  qed
  have later: "wall d < wall (at_time d tod)" if "dt_tod d < tod" for tod
    using that day_parts [of d] by (simp add: at_time_def)
  show ?thesis
  proof (cases "is_krx_holiday hol d")
    case True
    then show ?thesis using open_later [of d] by (auto simp: next_session_start_def)
  next
    case False
    note nh = False
    show ?thesis
    proof (cases "get_market_session hol d")
      case NXT_PRE
      then have "dt_tod d < hm 9 0" by (auto simp: get_market_session_def Let_def hm_def minute_us_def split: if_splits)
      from later [OF this] show ?thesis using nh NXT_PRE by (simp add: next_session_start_def)
    next
      case KRX_NXT
      then have "dt_tod d < hm 15 20" by (auto simp: get_market_session_def Let_def split: if_splits)
      from later [OF this] show ?thesis using nh KRX_NXT by (simp add: next_session_start_def)
    next
      case KRX_CLOSE
      then have "dt_tod d \<le> hm 15 30" by (auto simp: get_market_session_def Let_def split: if_splits)
      then show ?thesis using nh KRX_CLOSE later [of "hm 15 30"] day_parts [of d]
        by (auto simp: next_session_start_def at_time_def)
    next
      case NXT_AFTER
      then have t: "dt_tod d \<le> hm 20 0" by (auto simp: get_market_session_def Let_def split: if_splits)
      let ?d = "add_us d minute_us"
      have w: "wall ?d = dt_date d * day_us + (dt_tod d + minute_us)" using day_parts [of d] by (simp add: add_us_def)
      have "0 \<le> dt_tod d + minute_us" "dt_tod d + minute_us < day_us"
        using t day_parts [of d] by (auto simp: hm_def minute_us_def day_us_def)
      then have "dt_date ?d = dt_date d" unfolding dt_date_def w by (simp add: dt_date_def [symmetric])
      then obtain r where "next_market_open hol ?d = Some r" "wall ?d < wall r" using open_later by blast
      then show ?thesis using nh NXT_AFTER by (auto simp: next_session_start_def add_us_def minute_us_def)
    next
      case CLOSED
      then show ?thesis using nh open_later [of d] by (auto simp: next_session_start_def)
    qed
  qed
qed

theorem next_session_not_past_witness:
  "\<exists>r. next_session_start (\<lambda>_. None) (PyDT (4 * day_us + hm 16 0) True) = Some r \<and> 4 * day_us + hm 16 0 \<le> wall r"
proof -
  let ?d = "PyDT (4 * day_us + hm 16 0) True"
  have date: "dt_date ?d = 4" by (simp add: dt_date_def hm_def day_us_def minute_us_def)
  have "\<not> is_holiday_date (\<lambda>_. None) (dt_date ?d + 1 + int 2)" by (simp add: date is_holiday_date_def weekday_def)
  from next_session_not_past [OF this] show ?thesis by auto
qed

end
