(* ===== verification/Agent.thy ===== *)
theory Agent
  imports Decision Event_Detector Strategies
begin

text \<open>
  The trading agent's own state and handlers (\<open>agent/trading_agent.py\<close>): the lock per symbol that
  keeps two sells apart, the gate in front of a real time analysis, the exits on a stop loss or a
  take profit, the checks on the prices the model answers, the thresholds set from its answers and
  the cost gate. The calendar's answers, the clock and the broker are arguments; display names,
  logs and activity records are left out.
\<close>

section \<open>State\<close>

record agent_state =
  ag_running :: bool
  ag_cycle_locked :: bool
  ag_analyzing :: "string set"
  ag_cooldowns :: "string \<Rightarrow> real option"
  ag_selling :: "string set"

definition new_agent :: agent_state where
  "new_agent = \<lparr>ag_running = False, ag_cycle_locked = False, ag_analyzing = {}, ag_cooldowns = (\<lambda>_. None),
     ag_selling = {}\<rparr>"

definition agent_start :: "agent_state \<Rightarrow> agent_state" where
  "agent_start ag = ag\<lparr>ag_running := True\<rparr>"

definition agent_stop :: "agent_state \<Rightarrow> agent_state" where
  "agent_stop ag = ag\<lparr>ag_running := False, ag_analyzing := {}, ag_selling := {}\<rparr>"

definition event_cooldown_sec :: real where "event_cooldown_sec = 120"

section \<open>The sell lock\<close>

definition acquire_sell :: "string \<Rightarrow> agent_state \<Rightarrow> bool \<times> agent_state" where
  "acquire_sell symbol ag =
     (let s = normalize_krx_symbol symbol
      in if s \<in> ag_selling ag then (False, ag) else (True, ag\<lparr>ag_selling := insert s (ag_selling ag)\<rparr>))"

definition release_sell :: "string \<Rightarrow> agent_state \<Rightarrow> agent_state" where
  "release_sell symbol ag = ag\<lparr>ag_selling := ag_selling ag - {normalize_krx_symbol symbol}\<rparr>"

interpretation sell_lock: keyed_lock acquire_sell release_sell agent_stop ag_selling normalize_krx_symbol
  by unfold_locales (auto simp: acquire_sell_def release_sell_def agent_stop_def Let_def)

text \<open>
  The tasks that take the lock: the exits on a level and the sells of the scheduler. A manual sell and
  a sell the analysis decides on take no lock.
\<close>

abbreviation sell_tasks :: "agent_state \<Rightarrow> ('t \<times> string) set \<times> agent_state \<times> string set \<Rightarrow> bool" where
  "sell_tasks \<equiv> lock_run acquire_sell release_sell agent_stop ag_selling normalize_krx_symbol"

section \<open>The start of a cycle\<close>

datatype cycle_start = Reconfiguring | Cycle_already_running | Buy_cutoff | Trading_cycle | After_hours_cycle

definition buy_cutoff :: "settings \<Rightarrow> int" where
  "buy_cutoff cfg = (BUY_CUTOFF_HOUR cfg * 60 + BUY_CUTOFF_MINUTE cfg) * minute_us"

definition run_cycle_start :: "settings \<Rightarrow> bool \<Rightarrow> bool \<Rightarrow> pydt \<Rightarrow> agent_state \<Rightarrow> cycle_start" where
  "run_cycle_start cfg reconfiguring trading_hours now ag =
     (if reconfiguring then Reconfiguring
      else if ag_cycle_locked ag then Cycle_already_running
      else if trading_hours then
        (if DAY_TRADING_ONLY cfg \<and> buy_cutoff cfg \<le> dt_tod now then Buy_cutoff else Trading_cycle)
      else After_hours_cycle)"

section \<open>Real time events\<close>

text \<open>
  The guards of \<open>_on_market_event\<close>: when they let an event pass, the symbol's cooldown starts and the
  symbol is marked as being analysed, until \<open>market_event_end\<close> (the \<open>finally\<close> block).
\<close>

definition market_event_begin ::
  "settings \<Rightarrow> bool \<Rightarrow> bool \<Rightarrow> pydt \<Rightarrow> real \<Rightarrow> string \<Rightarrow> agent_state \<Rightarrow> bool \<times> agent_state" where
  "market_event_begin cfg reconfiguring trading_hours now now_ts event_symbol ag =
     (if \<not> ag_running ag \<or> reconfiguring \<or> \<not> trading_hours then (False, ag)
      else if DAY_TRADING_ONLY cfg \<and> buy_cutoff cfg \<le> dt_tod now then (False, ag)
      else
        let symbol = normalize_krx_symbol event_symbol;
            last_ts = (case ag_cooldowns ag symbol of None \<Rightarrow> 0 | Some t \<Rightarrow> t)
        in if symbol = [] \<or> symbol \<in> ag_selling ag \<or> now_ts - last_ts < event_cooldown_sec \<or> symbol \<in> ag_analyzing ag
           then (False, ag)
           else (True, ag\<lparr>ag_cooldowns := (ag_cooldowns ag)(symbol \<mapsto> now_ts),
                          ag_analyzing := insert symbol (ag_analyzing ag)\<rparr>))"

definition market_event_end :: "string \<Rightarrow> agent_state \<Rightarrow> agent_state" where
  "market_event_end event_symbol ag = ag\<lparr>ag_analyzing := ag_analyzing ag - {normalize_krx_symbol event_symbol}\<rparr>"

section \<open>Exits\<close>

definition exit_request :: "string \<Rightarrow> int \<Rightarrow> order_request" where
  "exit_request symbol quantity = \<lparr>or_symbol = symbol, or_market = KRX, or_side = Side_SELL, or_type = MARKET,
     or_session = REGULAR, or_quantity = quantity, or_price = None\<rparr>"

definition exit_task :: "string \<Rightarrow> string \<Rightarrow> int \<Rightarrow> real \<Rightarrow> string \<Rightarrow> confirm_task" where
  "exit_task symbol order_id quantity expected_price exit_reason =
     \<lparr>ct_symbol = symbol, ct_side = ''SELL'', ct_order_id = order_id, ct_quantity = quantity,
      ct_expected_price = expected_price, ct_context = empty_context, ct_exit_reason = exit_reason,
      ct_pending_id = None, ct_callback = None\<rparr>"

definition find_holding :: "string \<Rightarrow> holding_info list \<Rightarrow> holding_info option" where
  "find_holding symbol holdings = find (\<lambda>h. normalize_krx_symbol (hi_symbol h) = symbol) holdings"

text \<open>
  \<open>_execute_exit_order\<close>: sells the whole holding at the market price and waits for the confirmation;
  \<open>Inr None\<close> when there is nothing to sell. The answer comes with the decision maker's state.
\<close>

definition execute_exit_order ::
  "dm_env \<Rightarrow> holding_info list res \<Rightarrow> string \<Rightarrow> real \<Rightarrow> string \<Rightarrow> dm_state \<Rightarrow> order_result option res \<times> dm_state" where
  "execute_exit_order env holdings event_symbol expected_price exit_reason st =
     (let symbol = normalize_krx_symbol event_symbol
      in case holdings of
        Inl e \<Rightarrow> (Inl e, st)
      | Inr hs \<Rightarrow>
          (case find_holding symbol hs of
             None \<Rightarrow> (Inr None, st)
           | Some h \<Rightarrow>
               if hi_quantity h \<le> 0 then (Inr None, st)
               else
                 case validate_order_request (exit_request symbol (hi_quantity h)) of
                   Inl e \<Rightarrow> (Inl e, st)
                 | Inr req \<Rightarrow>
                     (let st' = st\<lparr>dm_placed := dm_placed st @ [req]\<rparr>
                      in case env_place env req of
                        Inl e \<Rightarrow> (Inl e, st')
                      | Inr ores \<Rightarrow>
                          (Inr (Some ores),
                           if ores_success ores \<and> ostr (ores_order_id ores) \<noteq> []
                           then confirm_and_record env (exit_task symbol (ostr (ores_order_id ores)) (hi_quantity h)
                                  expected_price exit_reason) st'
                           else st'))))"

record exit_state =
  xs_agent :: agent_state
  xs_detector :: detector
  xs_dm :: dm_state

text \<open>
  \<open>_on_stop_loss\<close> and \<open>_on_take_profit\<close> are the same handler but for the exit reason. Any exception
  of the order is logged; the lock is released in every case.
\<close>

definition on_exit_level ::
  "string \<Rightarrow> settings \<Rightarrow> bool \<Rightarrow> dm_env \<Rightarrow> holding_info list res \<Rightarrow> string \<Rightarrow> real \<Rightarrow> exit_state \<Rightarrow> exit_state" where
  "on_exit_level exit_reason cfg trading_hours env holdings event_symbol price x =
     (if \<not> ag_running (xs_agent x) \<or> \<not> trading_hours then x
      else
        let symbol = normalize_krx_symbol event_symbol;
            (ok, ag) = acquire_sell symbol (xs_agent x)
        in if \<not> ok then x
           else
             let (r, dm) = (if TRADING_ENABLED cfg
                            then execute_exit_order env holdings symbol price exit_reason (xs_dm x)
                            else (Inr None, xs_dm x));
                 sold = (case r of Inr (Some ores) \<Rightarrow> ores_success ores | _ \<Rightarrow> False)
             in \<lparr>xs_agent = release_sell symbol ag,
                 xs_detector = (if sold then remove_levels symbol (xs_detector x) else xs_detector x),
                 xs_dm = dm\<rparr>)"

definition on_stop_loss ::
  "settings \<Rightarrow> bool \<Rightarrow> dm_env \<Rightarrow> holding_info list res \<Rightarrow> string \<Rightarrow> real \<Rightarrow> exit_state \<Rightarrow> exit_state" where
  "on_stop_loss = on_exit_level ''STOP_LOSS''"

definition on_take_profit ::
  "settings \<Rightarrow> bool \<Rightarrow> dm_env \<Rightarrow> holding_info list res \<Rightarrow> string \<Rightarrow> real \<Rightarrow> exit_state \<Rightarrow> exit_state" where
  "on_take_profit = on_exit_level ''TAKE_PROFIT''"

section \<open>The model's prices\<close>

text \<open>A value of the parsed answer, by what \<open>float()\<close> makes of it: absent, null, a number, the
  JSON token NaN, or anything it rejects.\<close>

datatype json_num = J_absent | J_null | J_num real | J_nan | J_bad

record llm_prices =
  lp_confidence :: json_num
  lp_target :: json_num
  lp_stop :: json_num

definition validate_confidence :: "json_num \<Rightarrow> json_num" where
  "validate_confidence c =
     (case c of
        J_num x \<Rightarrow> (let conf = (if 1 < x then (if x \<le> 100 then x / 100 else 1) else x)
                    in J_num (max 0 (min 1 conf)))
      | J_nan \<Rightarrow> J_num 1
      | _ \<Rightarrow> J_num 0)"

definition validate_target :: "real \<Rightarrow> json_num \<Rightarrow> json_num" where
  "validate_target current_price t =
     (case t of
        J_num tp \<Rightarrow> (if tp \<le> 0 \<or> tp < current_price * (1 / 2) \<or> current_price * 2 < tp then J_null else J_num tp)
      | J_bad \<Rightarrow> J_null
      | _ \<Rightarrow> t)"

definition validate_stop :: "real \<Rightarrow> json_num \<Rightarrow> json_num" where
  "validate_stop current_price s =
     (case s of
        J_num sl \<Rightarrow> (if sl \<le> 0 \<or> sl < current_price * (1 / 2) \<or> current_price \<le> sl then J_null else J_num sl)
      | J_bad \<Rightarrow> J_null
      | _ \<Rightarrow> s)"

text \<open>\<open>None\<close> is the empty or missing answer.\<close>

definition validate_llm_prices :: "llm_prices option \<Rightarrow> real \<Rightarrow> llm_prices option" where
  "validate_llm_prices analysis current_price =
     (case analysis of
        None \<Rightarrow> None
      | Some a \<Rightarrow>
          if current_price \<le> 0 then Some a
          else
            let tp = validate_target current_price (lp_target a); sl = validate_stop current_price (lp_stop a);
                crossed = (case (tp, sl) of (J_num t, J_num s) \<Rightarrow> t \<le> s | _ \<Rightarrow> False)
            in Some \<lparr>lp_confidence = validate_confidence (lp_confidence a),
                     lp_target = (if crossed then J_null else tp), lp_stop = (if crossed then J_null else sl)\<rparr>)"

section \<open>Thresholds from the answers\<close>

record scan_candidate =
  sc_symbol :: string
  sc_monitoring :: "(json_num \<times> json_num \<times> json_num) option"

text \<open>\<open>float(v)\<close> of a present key; an absent key adds nothing.\<close>

definition float_key :: "threshold_key \<Rightarrow> json_num \<Rightarrow> (threshold_key \<times> real option) list res" where
  "float_key k v =
     (case v of
        J_absent \<Rightarrow> Inr []
      | J_num x \<Rightarrow> Inr [(k, Some x)]
      | J_nan \<Rightarrow> Inr [(k, None)]
      | J_null \<Rightarrow> Inl (Exn TypeError ''float() argument must be a string or a real number'')
      | J_bad \<Rightarrow> Inl (Exn ValueError ''could not convert to float''))"

definition scan_kwargs :: "json_num \<times> json_num \<times> json_num \<Rightarrow> (threshold_key \<times> real option) list res" where
  "scan_kwargs m =
     rbind (float_key Surge_pct (fst m)) (\<lambda>a.
     rbind (float_key Drop_pct (fst (snd m))) (\<lambda>b.
     rbind (float_key Volume_spike_ratio (snd (snd m))) (\<lambda>c. Inr (a @ b @ c))))"

text \<open>The symbols before a raising candidate keep their new thresholds.\<close>

fun apply_scan_thresholds :: "scan_candidate list \<Rightarrow> detector \<Rightarrow> unit res \<times> detector" where
  "apply_scan_thresholds [] d = (Inr (), d)"
| "apply_scan_thresholds (c # cs) d =
     (case sc_monitoring c of
        None \<Rightarrow> apply_scan_thresholds cs d
      | Some m \<Rightarrow>
          if sc_symbol c = [] then apply_scan_thresholds cs d
          else case scan_kwargs m of
              Inl e \<Rightarrow> (Inl e, d)
            | Inr kwargs \<Rightarrow>
                apply_scan_thresholds cs (if kwargs = [] then d else set_thresholds (sc_symbol c) kwargs d))"

record price_levels =
  pl_stop :: "real option"
  pl_target :: "real option"
  pl_trailing :: "real option"

definition first_truthy :: "real option \<Rightarrow> real option \<Rightarrow> real option" where
  "first_truthy a b = (if opt_or a 0 \<noteq> 0 then a else b)"

definition positive_level :: "real option \<Rightarrow> real option" where
  "positive_level v = (if 0 < opt_or v 0 then v else None)"

definition max_risk_pct :: "string \<Rightarrow> real option" where
  "max_risk_pct = map_of [(''SHORT'', 18 / 10), (''MID'', 28 / 10), (''LONG'', 45 / 10)]"

definition min_reward_pct :: "string \<Rightarrow> real option" where
  "min_reward_pct = map_of [(''SHORT'', 12 / 10), (''MID'', 2), (''LONG'', 4)]"

definition default_trailing :: "string \<Rightarrow> real option" where
  "default_trailing = map_of [(''SHORT'', 8 / 10), (''MID'', 15 / 10), (''LONG'', 25 / 10)]"

definition trade_levels :: "price_levels \<Rightarrow> price_levels \<Rightarrow> real \<Rightarrow> string \<Rightarrow> price_levels" where
  "trade_levels tier1 tier2 current_price horizon =
     (let stop = positive_level (first_truthy (pl_stop tier2) (pl_stop tier1));
          target = positive_level (first_truthy (pl_target tier2) (pl_target tier1));
          trailing = positive_level (first_truthy (pl_trailing tier2) (pl_trailing tier1));
          key = upper horizon
      in if current_price \<le> 0 then \<lparr>pl_stop = stop, pl_target = target, pl_trailing = trailing\<rparr>
         else
           \<lparr>pl_stop = (case (stop, max_risk_pct key) of
                (Some s, Some m) \<Rightarrow> (if m < (current_price - s) / current_price * 100
                                    then Some (current_price * (1 - m / 100)) else stop)
              | _ \<Rightarrow> stop),
            pl_target = (case (target, min_reward_pct key) of
                (Some t, Some m) \<Rightarrow> (if (t - current_price) / current_price * 100 < m
                                    then Some (current_price * (1 + m / 100)) else target)
              | _ \<Rightarrow> target),
            pl_trailing = (case trailing of None \<Rightarrow> default_trailing key | Some p \<Rightarrow> trailing)\<rparr>)"

definition level_kwargs :: "price_levels \<Rightarrow> (threshold_key \<times> real option) list" where
  "level_kwargs l =
     concat (map (\<lambda>(k, v). case v of None \<Rightarrow> [] | Some x \<Rightarrow> [(k, Some x)])
       [(Stop_loss_price, pl_stop l), (Take_profit_price, pl_target l), (Trailing_stop_pct, pl_trailing l)])"

definition apply_trade_thresholds ::
  "string \<Rightarrow> price_levels \<Rightarrow> price_levels \<Rightarrow> real \<Rightarrow> string \<Rightarrow> detector \<Rightarrow> detector" where
  "apply_trade_thresholds symbol tier1 tier2 current_price horizon d =
     (let kwargs = level_kwargs (trade_levels tier1 tier2 current_price horizon)
      in if kwargs = [] then d else set_thresholds symbol kwargs d)"

section \<open>The cost gate\<close>

record cost_gate =
  cg_approved :: bool
  cg_edge_bps :: "real option"
  cg_cost_bps :: "int option"

definition slippage_bps :: "settings \<Rightarrow> string \<Rightarrow> int" where
  "slippage_bps cfg key =
     (if key = ''SHORT'' then ESTIMATED_SLIPPAGE_BPS_SHORT cfg
      else if key = ''LONG'' then ESTIMATED_SLIPPAGE_BPS_LONG cfg else ESTIMATED_SLIPPAGE_BPS_MID cfg)"

definition min_edge_ratio :: "settings \<Rightarrow> string \<Rightarrow> real" where
  "min_edge_ratio cfg key =
     (if key = ''SHORT'' then num_or (MIN_EDGE_TO_COST_RATIO_SHORT cfg) 1
      else if key = ''LONG'' then num_or (MIN_EDGE_TO_COST_RATIO_LONG cfg) 1
      else num_or (MIN_EDGE_TO_COST_RATIO_MID cfg) 1)"

definition total_cost_bps :: "settings \<Rightarrow> string \<Rightarrow> int" where
  "total_cost_bps cfg key = ESTIMATED_ENTRY_COST_BPS cfg + ESTIMATED_EXIT_COST_BPS cfg + slippage_bps cfg key"

definition evaluate_cost_gate :: "settings \<Rightarrow> trade_signal \<Rightarrow> real \<Rightarrow> string option \<Rightarrow> cost_gate" where
  "evaluate_cost_gate cfg signal current_price horizon =
     (if \<not> COST_GATE_ENABLED cfg \<or> sig_action signal \<noteq> BUY
      then \<lparr>cg_approved = True, cg_edge_bps = None, cg_cost_bps = None\<rparr>
      else
        let entry_price = opt_or (sig_price signal) current_price; target_price = opt_or (sig_target signal) 0
        in if entry_price \<le> 0 \<or> target_price \<le> entry_price
           then \<lparr>cg_approved = True, cg_edge_bps = None, cg_cost_bps = None\<rparr>
           else
             let key = upper (str_or (ostr horizon) ''MID'');
                 edge = (target_price - entry_price) / entry_price * 10000
             in \<lparr>cg_approved = (of_int (total_cost_bps cfg key) * min_edge_ratio cfg key \<le> edge),
                 cg_edge_bps = Some edge, cg_cost_bps = Some (total_cost_bps cfg key)\<rparr>)"

section \<open>Lemmas\<close>

lemma exit_request_valid: "0 < q \<Longrightarrow> validate_order_request (exit_request s q) = Inr (exit_request s q)"
  by (simp add: validate_order_request_def exit_request_def)

lemma release_acquired: "fst (acquire_sell s ag) \<Longrightarrow> release_sell s (snd (acquire_sell s ag)) = ag"
  by (auto simp: acquire_sell_def release_sell_def Let_def)

lemma find_holding_symbol: "find_holding s hs = Some h \<Longrightarrow> h \<in> set hs \<and> normalize_krx_symbol (hi_symbol h) = s"
  by (auto simp: find_holding_def find_Some_iff in_set_conv_nth)

lemma upper_horizon [simp]:
  "upper ''SHORT'' = ''SHORT''" "upper ''MID'' = ''MID''" "upper ''LONG'' = ''LONG''"
  by (simp_all add: upper_char_def)

lemma positive_levelD: "positive_level v = Some x \<Longrightarrow> 0 < x"
  by (auto simp: positive_level_def opt_or_def num_or_def split: option.splits if_splits)

lemma execute_exit_placed:
  "dm_placed (snd (execute_exit_order env holdings s price reason st)) = dm_placed st @
     (case holdings of Inl _ \<Rightarrow> []
      | Inr hs \<Rightarrow> (case find_holding (normalize_krx_symbol s) hs of
          None \<Rightarrow> []
        | Some h \<Rightarrow> if 0 < hi_quantity h then [exit_request (normalize_krx_symbol s) (hi_quantity h)] else []))"
  by (auto simp: execute_exit_order_def Let_def exit_request_valid confirm_frame split: sum.splits option.splits)

text \<open>
  The run of the agent's own actions, with the times at which an event of each symbol was let through
  to an analysis.
\<close>

datatype agent_action =
  Start | Stop | Event_begin settings bool bool pydt real string | Event_end string | Sell_begin string | Sell_end string

fun agent_act :: "agent_action \<Rightarrow> agent_state \<times> (string \<times> real) list \<Rightarrow> agent_state \<times> (string \<times> real) list" where
  "agent_act Start (ag, hist) = (agent_start ag, hist)"
| "agent_act Stop (ag, hist) = (agent_stop ag, hist)"
| "agent_act (Event_begin cfg reconf hours now ts s) (ag, hist) =
     (let (ok, ag') = market_event_begin cfg reconf hours now ts s ag
      in (ag', if ok then hist @ [(normalize_krx_symbol s, ts)] else hist))"
| "agent_act (Event_end s) (ag, hist) = (market_event_end s ag, hist)"
| "agent_act (Sell_begin s) (ag, hist) = (snd (acquire_sell s ag), hist)"
| "agent_act (Sell_end s) (ag, hist) = (release_sell s ag, hist)"

definition times_of :: "string \<Rightarrow> (string \<times> real) list \<Rightarrow> real list" where
  "times_of k hist = map snd (filter (\<lambda>p. fst p = k) hist)"

lemma times_of_simps [simp]:
  "times_of k [] = []" "times_of k (hist @ [(k', t)]) = times_of k hist @ (if k' = k then [t] else [])"
  by (simp_all add: times_of_def)

definition spaced_log :: "agent_state \<times> (string \<times> real) list \<Rightarrow> bool" where
  "spaced_log c \<longleftrightarrow> (\<forall>k. sorted_wrt (\<lambda>a b. a + event_cooldown_sec \<le> b) (times_of k (snd c)) \<and>
     (\<forall>t \<in> set (times_of k (snd c)). \<exists>l. ag_cooldowns (fst c) k = Some l \<and> t \<le> l))"

lemma market_event_begin_cases:
  assumes "market_event_begin cfg reconf hours now ts s ag = (ok, ag')"
  obtains (pass) "ok" and "ag_cooldowns ag' = (ag_cooldowns ag)(normalize_krx_symbol s \<mapsto> ts)"
      and "\<And>l. ag_cooldowns ag (normalize_krx_symbol s) = Some l \<Longrightarrow> l + event_cooldown_sec \<le> ts"
  | (block) "\<not> ok" and "ag' = ag"
  using assms by (auto simp: market_event_begin_def Let_def split: if_splits option.splits)

lemma spaced_log_frame:
  "spaced_log (ag, hist) \<Longrightarrow> ag_cooldowns ag' = ag_cooldowns ag \<Longrightarrow> spaced_log (ag', hist)"
  by (simp add: spaced_log_def)

lemma spaced_log_begin:
  assumes inv: "spaced_log (ag, hist)"
  shows "spaced_log (agent_act (Event_begin cfg reconf hours now ts s) (ag, hist))"
proof -
  obtain ok ag' where step: "market_event_begin cfg reconf hours now ts s ag = (ok, ag')" by (cases "market_event_begin cfg reconf hours now ts s ag")
  from step show ?thesis
  proof (cases rule: market_event_begin_cases)
    case pass
    have late: "t + event_cooldown_sec \<le> ts" if "t \<in> set (times_of (normalize_krx_symbol s) hist)" for t
    proof -
      from inv that obtain l where "ag_cooldowns ag (normalize_krx_symbol s) = Some l" "t \<le> l"
        by (force simp: spaced_log_def)
      with pass(3) show ?thesis by fastforce
    qed
    have "0 < event_cooldown_sec" by (simp add: event_cooldown_sec_def)
    then have before: "t \<le> ts" if "t \<in> set (times_of (normalize_krx_symbol s) hist)" for t
      using late [OF that] by linarith
    show ?thesis using inv pass(1) late before
      by (simp add: spaced_log_def step pass(2) sorted_wrt_append)
  next
    case block
    then show ?thesis using inv by (simp add: step)
  qed
qed

lemma spaced_log_act: "spaced_log c \<Longrightarrow> spaced_log (agent_act a c)"
proof (cases c)
  fix ag hist
  assume inv: "spaced_log c" and c: "c = (ag, hist)"
  have sell: "ag_cooldowns (snd (acquire_sell s ag)) = ag_cooldowns ag" for s by (simp add: acquire_sell_def Let_def)
  show "spaced_log (agent_act a c)"
  proof (cases a)
    case (Event_begin cfg reconf hours now ts s)
    then show ?thesis using spaced_log_begin inv c by blast
  qed (use inv c sell in \<open>auto intro: spaced_log_frame simp: agent_start_def agent_stop_def market_event_end_def
      release_sell_def\<close>)
qed

lemma spaced_log_run: "spaced_log c \<Longrightarrow> spaced_log (fold agent_act as c)"
  by (induction as arbitrary: c) (simp_all add: spaced_log_act)

section \<open>Properties\<close>

text \<open>
  C14: Whatever the interleaving of the tasks that take the sell lock (the exits on a level and the
  sells of the scheduler) with starts, stops and the other steps of the agent: for a symbol that no
  stop of the agent met while it was being sold, at most one task is inside, whichever spelling of
  the code it uses, and while one is inside, every other attempt for the symbol is turned away and
  an exit event for it changes nothing. Manual sells and the sells of the analysis take no lock.
\<close>

theorem one_sell_per_symbol:
  assumes "lock_run acquire_sell release_sell agent_stop ag_selling normalize_krx_symbol ag0 (inside, ag, lost)"
    and "(t, k) \<in> inside" and "k \<notin> lost" and "normalize_krx_symbol s = k" and "xs_agent x = ag"
  shows "{t'. (t', k) \<in> inside} = {t} \<and> \<not> fst (acquire_sell s ag) \<and>
    on_exit_level reason cfg hours env holdings s price x = x"
proof -
  have "\<forall>t'. (t', k) \<in> inside \<longrightarrow> t' = t" using sell_lock.mutual_exclusion [OF assms(1) _ assms(2,3)] by blast
  then have "{t'. (t', k) \<in> inside} = {t}" using assms(2) by blast
  moreover have "k \<in> ag_selling ag" by (rule sell_lock.inside_held [OF assms(1-3)])
  moreover have "normalize_krx_symbol k = k" using assms(4) normalize_idem by metis
  ultimately show ?thesis using assms(4,5)
    by (simp add: sell_lock.acquire_iff on_exit_level_def acquire_sell_def Let_def)
qed

lemma one_sell_run:
  "sell_tasks new_agent ({(7 :: nat, ''005930'')}, snd (acquire_sell ''005930'' new_agent), {})"
proof -
  have n: "normalize_krx_symbol ''005930'' = ''005930''"
    by (simp add: normalize_krx_symbol_def prefixed_code_def strip_def is_space_def is_digit_def)
  let ?ag = "snd (acquire_sell ''005930'' new_agent)"
  have "fst (acquire_sell ''005930'' new_agent)" by (simp add: acquire_sell_def new_agent_def n)
  then have "lock_step acquire_sell release_sell agent_stop ag_selling normalize_krx_symbol ({}, new_agent, {})
      (insert (7 :: nat, normalize_krx_symbol ''005930'') {}, ?ag, {})"
    by (rule lock_step.enter)
  then show ?thesis by (intro run_step [OF run_start]) (simp add: n)
qed

lemma one_sell_per_symbol_witness:
  "\<exists>ag. sell_tasks new_agent ({(7 :: nat, ''005930'')}, ag, {}) \<and> \<not> fst (acquire_sell ''A005930'' ag)"
proof -
  have n: "normalize_krx_symbol ''A005930'' = ''005930''"
    by (simp add: normalize_krx_symbol_def prefixed_code_def strip_def is_space_def is_digit_def)
  from one_sell_per_symbol [OF one_sell_run, of 7 "''005930''" "''A005930''"
      "\<lparr>xs_agent = snd (acquire_sell ''005930'' new_agent), xs_detector = undefined, xs_dm = undefined\<rparr>"] n
  show ?thesis using one_sell_run by auto
qed

text \<open>A stop of the agent while a symbol is being sold lets a second seller in beside the first.\<close>

lemma stop_admits_second_seller:
  "\<exists>ag lost. sell_tasks new_agent ({(8 :: nat, ''005930''), (7, ''005930'')}, ag, lost)"
proof -
  have "normalize_krx_symbol ''005930'' = ''005930''"
    by (simp add: normalize_krx_symbol_def prefixed_code_def strip_def is_space_def is_digit_def)
  then show ?thesis using sell_lock.cleared_admits_second [OF one_sell_run, of 7 "''005930''" 8] by simp
qed

text \<open>
  A stop loss or take profit event leaves the agent's state as it was (its lock is released on
  every path, the failing ones included) and places at most one order: a market sell of the whole
  holding, exactly when the agent runs, the market is open, trading is enabled, no other sell of the
  symbol is in progress and something is held.
\<close>

lemma exit_sells_whole_holding:
  "xs_agent (on_exit_level reason cfg hours env holdings s price x) = xs_agent x \<and>
   dm_placed (xs_dm (on_exit_level reason cfg hours env holdings s price x)) = dm_placed (xs_dm x) @
     (if ag_running (xs_agent x) \<and> hours \<and> TRADING_ENABLED cfg \<and> normalize_krx_symbol s \<notin> ag_selling (xs_agent x)
      then (case holdings of Inl _ \<Rightarrow> []
        | Inr hs \<Rightarrow> (case find_holding (normalize_krx_symbol s) hs of
            None \<Rightarrow> []
          | Some h \<Rightarrow> if 0 < hi_quantity h then [exit_request (normalize_krx_symbol s) (hi_quantity h)] else []))
      else [])"
proof -
  have free: "fst (acquire_sell k ag) \<Longrightarrow> release_sell k (snd (acquire_sell k ag)) = ag" for k ag
    by (rule release_acquired)
  show ?thesis
    by (auto simp: on_exit_level_def Let_def case_prod_beta free execute_exit_placed sell_lock.acquire_iff
        split: sum.split option.split)
qed

text \<open>
  The exits do not ask the order submission gate: in the read-only mode, which refuses every sell
  of the other paths, a stop loss still sends its market order.
\<close>

lemma exit_order_ignores_read_only:
  assumes "TRADING_ENABLED cfg" and "current_order_submission_mode cfg = ''READ_ONLY''"
    and "ag_running (xs_agent x)" and "normalize_krx_symbol s \<notin> ag_selling (xs_agent x)"
    and "find_holding (normalize_krx_symbol s) hs = Some h" and "0 < hi_quantity h"
  shows "\<not> sd_allowed (decide_order_submission cfg ''SELL'') \<and>
    dm_placed (xs_dm (on_stop_loss cfg True env (Inr hs) s price x)) =
      dm_placed (xs_dm x) @ [exit_request (normalize_krx_symbol s) (hi_quantity h)]"
  using assms
  by (auto simp: submission_allowed_iff on_stop_loss_def on_exit_level_def Let_def case_prod_beta
      execute_exit_placed sell_lock.acquire_iff)

definition sample_exit_state :: exit_state where
  "sample_exit_state = \<lparr>xs_agent = agent_start new_agent, xs_detector = new_detector, xs_dm = fresh_dm\<rparr>"

definition sample_holding :: holding_info where
  "sample_holding = \<lparr>hi_symbol = ''A005930'', hi_name = ''Samsung'', hi_quantity = 10, hi_avg_buy_price = 70000,
     hi_current_price = 68000\<rparr>"

lemma exit_order_ignores_read_only_witness:
  "dm_placed (xs_dm (on_stop_loss (default_settings\<lparr>ORDER_SUBMISSION_MODE := ''READ_ONLY''\<rparr>) True
     \<lparr>env_now = PyDT 0 True, env_db_up = True, env_place = (\<lambda>_. Inl (Exn ExternalError ''broker'')),
      env_pending = Inr [], env_status = (\<lambda>_. Inr None)\<rparr> (Inr [sample_holding]) ''005930'' 68000 sample_exit_state))
   = [exit_request ''005930'' 10]"
proof -
  let ?cfg = "default_settings\<lparr>ORDER_SUBMISSION_MODE := ''READ_ONLY''\<rparr>"
  have n: "normalize_krx_symbol ''005930'' = ''005930''" "normalize_krx_symbol ''A005930'' = ''005930''"
    by (simp_all add: normalize_krx_symbol_def prefixed_code_def strip_def is_space_def is_digit_def)
  have m: "current_order_submission_mode ?cfg = ''READ_ONLY''"
    by (simp add: current_order_submission_mode_def normalize_order_submission_mode_def default_settings_def
        str_or_def upper_char_def valid_submission_modes_def)
  have "find_holding ''005930'' [sample_holding] = Some sample_holding"
    by (simp add: find_holding_def sample_holding_def n)
  moreover have "TRADING_ENABLED ?cfg" by (simp add: default_settings_def)
  moreover have "ag_running (xs_agent sample_exit_state)" "normalize_krx_symbol ''005930'' \<notin> ag_selling (xs_agent sample_exit_state)"
    "dm_placed (xs_dm sample_exit_state) = []" "0 < hi_quantity sample_holding" "hi_quantity sample_holding = 10"
    by (simp_all add: sample_exit_state_def agent_start_def new_agent_def sample_holding_def fresh_dm_def)
  ultimately show ?thesis
    using exit_order_ignores_read_only [of ?cfg sample_exit_state "''005930''" "[sample_holding]" sample_holding] m n
    by simp
qed

text \<open>
  However events, sells, restarts and ends of analyses interleave, the agent never starts two event
  analyses of one symbol within two minutes.
\<close>

lemma event_analyses_spaced:
  "sorted_wrt (\<lambda>a b. a + 120 \<le> b) (times_of k (snd (fold agent_act acts (new_agent, []))))"
proof -
  have "spaced_log (new_agent, [])" by (simp add: spaced_log_def)
  from spaced_log_run [OF this] show ?thesis by (simp add: spaced_log_def event_cooldown_sec_def)
qed

text \<open>
  Whatever the model answers for the three numbers, short of the JSON token NaN for a price, after
  validation at a positive price the confidence is a number between 0 and 1, a target lies between half
  and twice the price, a stop loss between half the price and the price, below the target, and what is
  no number is gone.
\<close>

definition level_within :: "json_num \<Rightarrow> (real \<Rightarrow> bool) \<Rightarrow> bool" where
  "level_within v P = (case v of J_num x \<Rightarrow> P x | J_bad \<Rightarrow> False | J_nan \<Rightarrow> False | _ \<Rightarrow> True)"

lemma validated_prices_sound:
  assumes "0 < price" and "lp_target a \<noteq> J_nan" and "lp_stop a \<noteq> J_nan"
  shows "\<exists>r c. validate_llm_prices (Some a) price = Some r \<and> lp_confidence r = J_num c \<and> 0 \<le> c \<and> c \<le> 1 \<and>
    level_within (lp_target r) (\<lambda>t. price / 2 \<le> t \<and> t \<le> 2 * price \<and> level_within (lp_stop r) (\<lambda>s. s < t)) \<and>
    level_within (lp_stop r) (\<lambda>s. price / 2 \<le> s \<and> s < price)"
proof -
  have conf: "\<exists>c. validate_confidence (lp_confidence a) = J_num c \<and> 0 \<le> c \<and> c \<le> 1"
    by (cases "lp_confidence a") (auto simp: validate_confidence_def Let_def)
  have t: "level_within (validate_target price (lp_target a)) (\<lambda>t. price / 2 \<le> t \<and> t \<le> 2 * price)"
    using assms(2) by (cases "lp_target a") (auto simp: validate_target_def level_within_def)
  have s: "level_within (validate_stop price (lp_stop a)) (\<lambda>s. price / 2 \<le> s \<and> s < price)"
    using assms(3) by (cases "lp_stop a") (auto simp: validate_stop_def level_within_def)
  show ?thesis
    using assms(1) conf t s
    by (cases "validate_target price (lp_target a)"; cases "validate_stop price (lp_stop a)")
      (auto simp: validate_llm_prices_def Let_def level_within_def not_le)
qed

lemma validated_prices_sound_witness:
  "\<exists>r c. validate_llm_prices (Some \<lparr>lp_confidence = J_num 85, lp_target = J_num 76000, lp_stop = J_bad\<rparr>) 70000 = Some r \<and>
     lp_confidence r = J_num c \<and> c \<le> 1"
  using validated_prices_sound [of 70000 "\<lparr>lp_confidence = J_num 85, lp_target = J_num 76000, lp_stop = J_bad\<rparr>"]
  by auto

text \<open>
  The levels the agent watches after an analysis keep to the trade horizon: the stop loss risks at
  most the horizon's share of the price, the target earns at least its share, and a trailing stop is
  always set.
\<close>

lemma trade_levels_respect_horizon:
  assumes "0 < price" and "max_risk_pct (upper horizon) = Some m" and "min_reward_pct (upper horizon) = Some r"
    and "pl_stop (trade_levels tier1 tier2 price horizon) = Some sl"
    and "pl_target (trade_levels tier1 tier2 price horizon) = Some tp"
  shows "price * (1 - m / 100) \<le> sl \<and> price * (1 + r / 100) \<le> tp \<and> 0 < sl \<and>
    pl_trailing (trade_levels tier1 tier2 price horizon) \<noteq> None"
proof -
  let ?l = "trade_levels tier1 tier2 price horizon"
  let ?s = "positive_level (first_truthy (pl_stop tier2) (pl_stop tier1))"
  let ?t = "positive_level (first_truthy (pl_target tier2) (pl_target tier1))"
  have m: "0 < m" "m < 100" using assms(2) by (auto simp: max_risk_pct_def split: if_splits)
  have "upper horizon = ''SHORT'' \<or> upper horizon = ''MID'' \<or> upper horizon = ''LONG''"
    using assms(2) by (auto simp: max_risk_pct_def split: if_splits)
  moreover have "default_trailing ''SHORT'' = Some (8 / 10)" "default_trailing ''MID'' = Some (15 / 10)"
    "default_trailing ''LONG'' = Some (25 / 10)" by (simp_all add: default_trailing_def)
  ultimately have key: "default_trailing (upper horizon) \<noteq> None" by (metis option.distinct(1))
  obtain s where s: "?s = Some s" using assms(1,4) by (cases ?s) (auto simp: trade_levels_def Let_def)
  obtain t where t: "?t = Some t" using assms(1,5) by (cases ?t) (auto simp: trade_levels_def Let_def)
  have sl: "sl = (if m < (price - s) / price * 100 then price * (1 - m / 100) else s)"
    using assms(1,2,4) s by (auto simp: trade_levels_def Let_def split: if_splits)
  have tp: "tp = (if (t - price) / price * 100 < r then price * (1 + r / 100) else t)"
    using assms(1,3,5) t by (auto simp: trade_levels_def Let_def split: if_splits)
  have "price * (1 - m / 100) \<le> sl" using assms(1) sl by (auto simp: field_simps)
  moreover have "price * (1 + r / 100) \<le> tp" using assms(1) tp by (auto simp: field_simps)
  moreover have "0 < sl" using assms(1) sl m positive_levelD [OF s] by (auto simp: field_simps)
  moreover have "pl_trailing ?l \<noteq> None" using assms(1) key by (auto simp: trade_levels_def Let_def split: option.splits)
  ultimately show ?thesis by blast
qed

lemma trade_levels_respect_horizon_witness:
  "pl_stop (trade_levels \<lparr>pl_stop = Some 60000, pl_target = Some 70100, pl_trailing = None\<rparr>
      \<lparr>pl_stop = None, pl_target = None, pl_trailing = None\<rparr> 70000 ''SHORT'') = Some 68740 \<and>
   70000 * (1 - (18 / 10) / 100) \<le> (68740 :: real) \<and> 70000 * (1 + (12 / 10) / 100) \<le> (70840 :: real)"
proof -
  let ?a = "\<lparr>pl_stop = Some 60000, pl_target = Some 70100, pl_trailing = None\<rparr>"
  let ?b = "\<lparr>pl_stop = None, pl_target = None, pl_trailing = None\<rparr>"
  have "max_risk_pct (upper ''SHORT'') = Some (18 / 10)" "min_reward_pct (upper ''SHORT'') = Some (12 / 10)"
    by (simp_all only: upper_horizon) (simp_all add: max_risk_pct_def min_reward_pct_def)
  moreover have s: "pl_stop (trade_levels ?a ?b 70000 ''SHORT'') = Some 68740"
    and "pl_target (trade_levels ?a ?b 70000 ''SHORT'') = Some 70840"
    unfolding trade_levels_def upper_horizon
    by (simp_all add: Let_def first_truthy_def positive_level_def max_risk_pct_def min_reward_pct_def)
  ultimately show ?thesis
    using trade_levels_respect_horizon [of 70000 "''SHORT''" "18 / 10" "12 / 10" ?a ?b 68740 70840] by simp
qed

end
