(* ===== verification/Trading_Rules.thy ===== *)
theory Trading_Rules
  imports Risk "HOL-Library.AList" "HOL-Library.List_Lexorder" "HOL-Library.Char_ord"
begin

text \<open>
  The trading rule engine (\<open>analysis/feedback/trading_rules.py\<close>, table \<open>models/trading_rule.py\<close>): rules
  made from the action items of the daily review, clamped to safety bounds; the bootstrap rules; the
  load of the active rules into overrides; their application to the strategies and to the risk
  manager; the expiry. The table is the list of its rows in insertion order; the engine's clock is
  an argument. \<open>reason\<close>, the report date and the update stamps are not kept.
\<close>

section \<open>Data\<close>

record trading_rule =
  ru_rule_type :: string
  ru_strategy :: string
  ru_param :: string
  ru_value :: real
  ru_source :: string
  ru_priority :: string
  ru_active :: bool
  ru_expires_at :: pydt
  ru_created_at :: pydt
  ru_applied_count :: nat

type_synonym rule_table = "trading_rule list"

definition safety_bounds :: "(string \<times> real \<times> real) list" where
  "safety_bounds =
     [(''min_confidence'', 1 / 2, 3 / 4), (''stop_loss_pct'', - 8, - 1), (''take_profit_pct'', 2, 15),
      (''rr_floor'', 8 / 10, 3), (''revalidate_rr_ratio'', 0, 1), (''require_stop_loss_logging'', 0, 1)]"

definition max_active_rules :: nat where "max_active_rules = 20"
definition default_expiry_days :: int where "default_expiry_days = 2"

text \<open>An action item of the review: absent keys take the defaults of the code.\<close>

record action_item =
  ai_param :: string
  ai_value :: real
  ai_expires_days :: "int option"
  ai_rule_type :: "string option"
  ai_strategy :: "string option"
  ai_priority :: "string option"

section \<open>Rules from a review\<close>

definition get_default :: "'a option \<Rightarrow> 'a \<Rightarrow> 'a" where
  "get_default v d = (case v of None \<Rightarrow> d | Some x \<Rightarrow> x)"

definition rule_of_item :: "pydt \<Rightarrow> action_item \<Rightarrow> trading_rule option" where
  "rule_of_item now item =
     (case map_of safety_bounds (ai_param item) of
        None \<Rightarrow> None
      | Some (lo, hi) \<Rightarrow>
          (let days = (case ai_expires_days item of Some d \<Rightarrow> max 1 (min 5 d) | None \<Rightarrow> default_expiry_days)
           in Some \<lparr>ru_rule_type = get_default (ai_rule_type item) ''PARAM_OVERRIDE'',
                    ru_strategy = get_default (ai_strategy item) ''ALL'', ru_param = ai_param item,
                    ru_value = max lo (min hi (ai_value item)), ru_source = ''DAILY_REVIEW'',
                    ru_priority = get_default (ai_priority item) ''MEDIUM'', ru_active = True,
                    ru_expires_at = PyDT (wall now + days * day_us) (aware now), ru_created_at = now,
                    ru_applied_count = 0\<rparr>))"

definition rules_of_items :: "pydt \<Rightarrow> action_item list \<Rightarrow> trading_rule list" where
  "rules_of_items now items = concat (map (\<lambda>i. case rule_of_item now i of None \<Rightarrow> [] | Some r \<Rightarrow> [r]) items)"

definition deactivate_same :: "trading_rule \<Rightarrow> trading_rule \<Rightarrow> trading_rule" where
  "deactivate_same r x =
     (if ru_param x = ru_param r \<and> ru_strategy x = ru_strategy r \<and> ru_active x then x\<lparr>ru_active := False\<rparr> else x)"

text \<open>The update runs after the pending row of the previous item was flushed.\<close>

definition add_rule :: "trading_rule \<Rightarrow> rule_table \<Rightarrow> rule_table" where
  "add_rule r t = map (deactivate_same r) t @ [r]"

text \<open>
  The excess over the cap: the active rows in the order \<open>priority DESC, created_at ASC\<close> (priorities
  compare as strings), the first ones deactivated. A row is named by its position.
\<close>

definition active_positions :: "rule_table \<Rightarrow> nat list" where
  "active_positions t = filter (\<lambda>i. ru_active (t ! i)) [0..<length t]"

definition eviction_order :: "rule_table \<Rightarrow> nat list" where
  "eviction_order t =
     rev (sort_key (\<lambda>i. ru_priority (t ! i))
       (rev (sort_key (\<lambda>i. wall (ru_created_at (t ! i))) (active_positions t))))"

definition deactivate_at :: "nat \<Rightarrow> rule_table \<Rightarrow> rule_table" where
  "deactivate_at i t = t[i := (t ! i)\<lparr>ru_active := False\<rparr>]"

definition cap_active :: "rule_table \<Rightarrow> rule_table" where
  "cap_active t =
     (let n = length (active_positions t)
      in if max_active_rules < n then fold deactivate_at (take (n - max_active_rules) (eviction_order t)) t else t)"

definition generate_rules_from_review :: "pydt \<Rightarrow> action_item list \<Rightarrow> rule_table \<Rightarrow> rule_table" where
  "generate_rules_from_review now items t =
     (let rules = rules_of_items now items
      in if rules = [] then t else cap_active (fold add_rule rules t))"

section \<open>Active rules\<close>

definition bootstrap_rule :: "pydt \<Rightarrow> string \<Rightarrow> trading_rule" where
  "bootstrap_rule now param = \<lparr>ru_rule_type = ''VALIDATION_TOGGLE'', ru_strategy = ''ALL'', ru_param = param,
     ru_value = 1, ru_source = ''BOOTSTRAP'', ru_priority = ''HIGH'', ru_active = True,
     ru_expires_at = PyDT (wall now + 365 * day_us) (aware now), ru_created_at = now, ru_applied_count = 0\<rparr>"

definition ensure_bootstrap_rule :: "pydt \<Rightarrow> string \<Rightarrow> rule_table \<Rightarrow> rule_table" where
  "ensure_bootstrap_rule now param t =
     (if list_ex (\<lambda>r. ru_param r = param \<and> ru_rule_type r = ''VALIDATION_TOGGLE'' \<and> ru_active r) t then t
      else t @ [bootstrap_rule now param])"

definition ensure_bootstrap_rules :: "pydt \<Rightarrow> rule_table \<Rightarrow> rule_table" where
  "ensure_bootstrap_rules now t =
     ensure_bootstrap_rule now ''require_stop_loss_logging'' (ensure_bootstrap_rule now ''revalidate_rr_ratio'' t)"

record active_rules =
  ar_params :: "(string \<times> (string \<times> real) list) list"
  ar_flags :: "(string \<times> bool) list"
  ar_rr_floors :: "(string \<times> real) list"
  ar_rules :: "trading_rule list"

definition no_rules :: active_rules where
  "no_rules = \<lparr>ar_params = [], ar_flags = [], ar_rr_floors = [], ar_rules = []\<rparr>"

definition scope_params :: "string \<Rightarrow> active_rules \<Rightarrow> (string \<times> real) list" where
  "scope_params scope ar = get_default (map_of (ar_params ar) scope) []"

definition load_rule :: "trading_rule \<Rightarrow> active_rules \<Rightarrow> active_rules" where
  "load_rule r ar =
     (if ru_rule_type r = ''VALIDATION_TOGGLE'' then ar\<lparr>ar_flags := AList.update (ru_param r) (1 \<le> ru_value r) (ar_flags ar)\<rparr>
      else if ru_param r = ''rr_floor'' then ar\<lparr>ar_rr_floors := AList.update (ru_strategy r) (ru_value r) (ar_rr_floors ar)\<rparr>
      else let scope = str_or (ru_strategy r) ''ALL''
           in ar\<lparr>ar_params := AList.update scope (AList.update (ru_param r) (ru_value r) (scope_params scope ar)) (ar_params ar)\<rparr>)"

definition load_active_rules :: "pydt \<Rightarrow> rule_table \<Rightarrow> active_rules \<times> rule_table" where
  "load_active_rules now t =
     (let t' = ensure_bootstrap_rules now t;
          rules = filter (\<lambda>r. ru_active r \<and> wall now < wall (ru_expires_at r)) t'
      in (fold load_rule rules (no_rules\<lparr>ar_rules := rules\<rparr>), t'))"

section \<open>Application\<close>

definition set_param :: "string \<Rightarrow> real \<Rightarrow> strategy_params \<Rightarrow> strategy_params" where
  "set_param name v p =
     (if name = ''stop_loss_pct'' then p\<lparr>sp_stop_loss_pct := v\<rparr>
      else if name = ''take_profit_pct'' then p\<lparr>sp_take_profit_pct := v\<rparr>
      else if name = ''min_confidence'' then p\<lparr>sp_min_confidence := v\<rparr> else p)"

definition apply_to_strategy :: "active_rules \<Rightarrow> string \<Rightarrow> strategy_params \<Rightarrow> strategy_params" where
  "apply_to_strategy ar strategy_key p =
     fold (\<lambda>(name, v). set_param name v) (scope_params ''ALL'' ar @ scope_params strategy_key ar) p"

definition apply_to_strategies :: "active_rules \<Rightarrow> (string \<times> strategy_params) list \<Rightarrow> (string \<times> strategy_params) list" where
  "apply_to_strategies ar ss = map (\<lambda>(k, p). (k, apply_to_strategy ar k p)) ss"

definition apply_to_risk_manager :: "active_rules \<Rightarrow> risk_manager \<Rightarrow> risk_manager" where
  "apply_to_risk_manager ar rm = rm\<lparr>rm_rr_floor := fold (\<lambda>(k, v). AList.update k v) (ar_rr_floors ar) (rm_rr_floor rm)\<rparr>"

definition expire_old_rules :: "pydt \<Rightarrow> rule_table \<Rightarrow> nat \<times> rule_table" where
  "expire_old_rules now t =
     (length (filter (\<lambda>r. ru_active r \<and> wall (ru_expires_at r) \<le> wall now) t),
      map (\<lambda>r. if ru_active r \<and> wall (ru_expires_at r) \<le> wall now then r\<lparr>ru_active := False\<rparr> else r) t)"

text \<open>Rows are named by their position instead of their identifier.\<close>

definition record_application :: "nat list \<Rightarrow> rule_table \<Rightarrow> rule_table" where
  "record_application ids t =
     fold (\<lambda>i t. if i < length t then t[i := (t ! i)\<lparr>ru_applied_count := ru_applied_count (t ! i) + 1\<rparr>] else t) ids t"

section \<open>Lemmas\<close>

definition in_bounds :: "string \<Rightarrow> real \<Rightarrow> bool" where
  "in_bounds k v \<longleftrightarrow> (case map_of safety_bounds k of None \<Rightarrow> False | Some (lo, hi) \<Rightarrow> lo \<le> v \<and> v \<le> hi)"

definition rule_bounded :: "trading_rule \<Rightarrow> bool" where
  "rule_bounded r \<longleftrightarrow> in_bounds (ru_param r) (ru_value r)"

definition param_bounded :: "string \<times> real \<Rightarrow> bool" where
  "param_bounded kv \<longleftrightarrow> in_bounds (fst kv) (snd kv)"

lemma safety_bounds_order: "map_of safety_bounds k = Some (lo, hi) \<Longrightarrow> lo \<le> hi"
  by (auto simp: safety_bounds_def split: if_splits)

lemma rule_of_item_bounded: "rule_of_item now i = Some r \<Longrightarrow> rule_bounded r"
  by (auto simp: rule_of_item_def rule_bounded_def in_bounds_def Let_def split: option.splits dest: safety_bounds_order)

lemma rules_of_items_bounded: "r \<in> set (rules_of_items now items) \<Longrightarrow> rule_bounded r"
  by (auto simp: rules_of_items_def rule_of_item_bounded split: option.splits)

lemma bounded_inactive [simp]: "rule_bounded (r\<lparr>ru_active := b\<rparr>) = rule_bounded r"
  by (simp add: rule_bounded_def)

lemma list_all_add_rule: "list_all rule_bounded t \<Longrightarrow> rule_bounded r \<Longrightarrow> list_all rule_bounded (add_rule r t)"
  by (auto simp: add_rule_def deactivate_same_def list_all_iff)

lemma list_all_add_rules:
  "list_all rule_bounded t \<Longrightarrow> list_all rule_bounded rs \<Longrightarrow> list_all rule_bounded (fold add_rule rs t)"
  by (induction rs arbitrary: t) (simp_all add: list_all_add_rule)

lemma list_all_deactivate_at: "list_all rule_bounded t \<Longrightarrow> list_all rule_bounded (deactivate_at i t)"
  by (cases "i < length t") (auto simp: deactivate_at_def list_all_length nth_list_update)

lemma list_all_cap: "list_all rule_bounded t \<Longrightarrow> list_all rule_bounded (cap_active t)"
proof -
  have "list_all rule_bounded (fold deactivate_at js t)" if "list_all rule_bounded t" for js t
    using that by (induction js arbitrary: t) (simp_all add: list_all_deactivate_at)
  then show "list_all rule_bounded t \<Longrightarrow> list_all rule_bounded (cap_active t)" by (simp add: cap_active_def Let_def)
qed

lemma generate_bounded: "list_all rule_bounded t \<Longrightarrow> list_all rule_bounded (generate_rules_from_review now items t)"
proof -
  assume t: "list_all rule_bounded t"
  have "list_all rule_bounded (rules_of_items now items)" by (simp add: list_all_iff rules_of_items_bounded)
  with t show ?thesis by (simp add: generate_rules_from_review_def Let_def list_all_cap list_all_add_rules)
qed

lemma bootstrap_bounded: "list_all rule_bounded t \<Longrightarrow> list_all rule_bounded (ensure_bootstrap_rules now t)"
  by (auto simp: ensure_bootstrap_rules_def ensure_bootstrap_rule_def bootstrap_rule_def rule_bounded_def in_bounds_def safety_bounds_def)

definition floor_ok :: "string \<times> real \<Rightarrow> bool" where
  "floor_ok kv \<longleftrightarrow> 8 / 10 \<le> snd kv \<and> snd kv \<le> 3"

lemma floors_update: "list_all floor_ok fl \<Longrightarrow> floor_ok (k, v) \<Longrightarrow> list_all floor_ok (AList.update k v fl)"
  by (induction fl) (simp_all split: prod.split)

definition active_rules_ok :: "active_rules \<Rightarrow> bool" where
  "active_rules_ok ar \<longleftrightarrow> (\<forall>(scope, ps) \<in> set (ar_params ar). list_all param_bounded ps) \<and>
     list_all floor_ok (ar_rr_floors ar)"

lemma mem_update: "kv \<in> set (AList.update k v xs) \<Longrightarrow> kv = (k, v) \<or> kv \<in> set xs"
  by (induction xs) (auto split: if_splits)

lemma scope_params_ok: "active_rules_ok ar \<Longrightarrow> list_all param_bounded (scope_params s ar)"
  by (cases "map_of (ar_params ar) s")
    (auto simp: scope_params_def get_default_def active_rules_ok_def dest!: map_of_SomeD)

lemma load_rule_ok:
  assumes "active_rules_ok ar" and "rule_bounded r"
  shows "active_rules_ok (load_rule r ar)"
proof -
  have kv: "param_bounded (ru_param r, ru_value r)" using assms(2) by (simp add: rule_bounded_def param_bounded_def)
  have upd: "list_all param_bounded (AList.update (ru_param r) (ru_value r) (scope_params s ar))" for s
    using scope_params_ok [OF assms(1), of s] kv by (auto simp: list_all_iff dest!: mem_update)
  have floor: "ru_param r = ''rr_floor'' \<Longrightarrow> floor_ok (k, ru_value r)" for k
    using assms(2) by (simp add: rule_bounded_def in_bounds_def safety_bounds_def floor_ok_def)
  show ?thesis using assms(1) upd floor
    by (auto simp: load_rule_def active_rules_ok_def Let_def floors_update dest!: mem_update)
qed

lemma load_rules_ok: "active_rules_ok ar \<Longrightarrow> list_all rule_bounded rs \<Longrightarrow> active_rules_ok (fold load_rule rs ar)"
  by (induction rs arbitrary: ar) (simp_all add: load_rule_ok)

lemma load_active_ok: "list_all rule_bounded t \<Longrightarrow> active_rules_ok (fst (load_active_rules now t))"
proof -
  assume t: "list_all rule_bounded t"
  let ?rs = "filter (\<lambda>r. ru_active r \<and> wall now < wall (ru_expires_at r)) (ensure_bootstrap_rules now t)"
  have "active_rules_ok (no_rules\<lparr>ar_rules := ?rs\<rparr>)" by (simp add: active_rules_ok_def no_rules_def)
  moreover have "list_all rule_bounded ?rs" using bootstrap_bounded [OF t, of now] by (auto simp: list_all_iff)
  ultimately show "active_rules_ok (fst (load_active_rules now t))"
    by (simp add: load_active_rules_def Let_def load_rules_ok)
qed

definition params_bounded :: "strategy_params \<Rightarrow> bool" where
  "params_bounded p \<longleftrightarrow> 1 / 2 \<le> sp_min_confidence p \<and> sp_min_confidence p \<le> 3 / 4 \<and>
     - 8 \<le> sp_stop_loss_pct p \<and> sp_stop_loss_pct p \<le> - 1 \<and> 2 \<le> sp_take_profit_pct p \<and> sp_take_profit_pct p \<le> 15"

lemma set_param_ok: "params_bounded p \<Longrightarrow> param_bounded (k, v) \<Longrightarrow> params_bounded (set_param k v p)"
  by (auto simp: params_bounded_def param_bounded_def in_bounds_def set_param_def safety_bounds_def split: if_splits)

lemma set_params_ok:
  "params_bounded p \<Longrightarrow> list_all param_bounded kvs \<Longrightarrow> params_bounded (fold (\<lambda>(k, v). set_param k v) kvs p)"
  by (induction kvs arbitrary: p) (auto simp: set_param_ok)

lemma apply_to_strategy_ok: "active_rules_ok ar \<Longrightarrow> params_bounded p \<Longrightarrow> params_bounded (apply_to_strategy ar k p)"
  unfolding apply_to_strategy_def
  by (rule set_params_ok) (simp_all add: scope_params_ok)

definition floors_bounded :: "risk_manager \<Rightarrow> bool" where
  "floors_bounded rm \<longleftrightarrow> list_all floor_ok (rm_rr_floor rm)"

lemma floors_updates:
  "list_all floor_ok kvs \<Longrightarrow> list_all floor_ok fl \<Longrightarrow> list_all floor_ok (fold (\<lambda>(k, v). AList.update k v) kvs fl)"
  by (induction kvs arbitrary: fl) (auto simp: floors_update)

lemma apply_to_risk_manager_ok: "active_rules_ok ar \<Longrightarrow> floors_bounded rm \<Longrightarrow> floors_bounded (apply_to_risk_manager ar rm)"
  by (simp add: active_rules_ok_def floors_bounded_def apply_to_risk_manager_def floors_updates)

lemma rr_floor_bounded: "floors_bounded rm \<Longrightarrow> 8 / 10 \<le> rr_floor rm regime \<and> rr_floor rm regime \<le> 3"
  by (auto simp: floors_bounded_def floor_ok_def rr_floor_def list_all_iff split: option.splits dest!: map_of_SomeD)

text \<open>The cap: exactly the excess is deactivated.\<close>

lemma active_positions_mem: "i \<in> set (active_positions t) \<longleftrightarrow> i < length t \<and> ru_active (t ! i)"
  by (auto simp: active_positions_def)

lemma eviction_order_perm: "mset (eviction_order t) = mset (active_positions t)"
  by (simp add: eviction_order_def)

lemma eviction_order_set: "set (eviction_order t) = set (active_positions t)"
  by (rule mset_eq_setD [OF eviction_order_perm])

lemma eviction_order_distinct: "distinct (eviction_order t)"
  using mset_eq_imp_distinct_iff [OF eviction_order_perm, of t] by (simp add: active_positions_def)

lemma length_deactivate [simp]: "length (deactivate_at i t) = length t"
  by (simp add: deactivate_at_def)

lemma deactivate_at_nth: "j < length t \<Longrightarrow>
    deactivate_at i t ! j = (if j = i then (t ! i)\<lparr>ru_active := False\<rparr> else t ! j)"
  by (simp add: deactivate_at_def nth_list_update)

lemma deactivated_all:
  "length (fold deactivate_at js t) = length t \<and>
   (j < length t \<longrightarrow> ru_active (fold deactivate_at js t ! j) = (ru_active (t ! j) \<and> j \<notin> set js))"
  by (induction js arbitrary: t) (auto simp: deactivate_at_nth)

lemma active_after_cap:
  assumes "max_active_rules < length (active_positions t)"
  shows "set (active_positions (cap_active t)) =
    set (drop (length (active_positions t) - max_active_rules) (eviction_order t))"
proof -
  let ?k = "length (active_positions t) - max_active_rules" and ?o = "eviction_order t"
  have d: "distinct (take ?k ?o @ drop ?k ?o)" using eviction_order_distinct by simp
  have all: "set (take ?k ?o) \<union> set (drop ?k ?o) = set (active_positions t)"
    using eviction_order_set [of t] by (metis append_take_drop_id set_append)
  have "i \<in> set (active_positions (cap_active t)) \<longleftrightarrow> i \<in> set (active_positions t) \<and> i \<notin> set (take ?k ?o)" for i
    using assms deactivated_all [of "take ?k ?o" t i] by (auto simp: cap_active_def active_positions_mem)
  moreover have "set (take ?k ?o) \<inter> set (drop ?k ?o) = {}" using d by (simp only: distinct_append)
  ultimately show ?thesis using all by blast
qed

lemma cap_count: "length (active_positions (cap_active t)) \<le> max_active_rules"
proof (cases "max_active_rules < length (active_positions t)")
  case True
  have "length (active_positions (cap_active t)) = card (set (active_positions (cap_active t)))"
    by (rule sym, rule distinct_card) (simp add: active_positions_def)
  also have "\<dots> \<le> length (drop (length (active_positions t) - max_active_rules) (eviction_order t))"
    unfolding active_after_cap [OF True] by (rule card_length)
  also have "\<dots> = max_active_rules"
    using True eviction_order_perm [of t] by (simp add: mset_eq_length [OF eviction_order_perm])
  finally show ?thesis .
next
  case False
  then show ?thesis by (simp add: cap_active_def)
qed

lemma eviction_order_priority:
  "p < q \<Longrightarrow> q < length (eviction_order t) \<Longrightarrow>
     ru_priority (t ! (eviction_order t ! q)) \<le> ru_priority (t ! (eviction_order t ! p))"
proof -
  assume pq: "p < q" "q < length (eviction_order t)"
  have "sorted (rev (map (\<lambda>i. ru_priority (t ! i)) (eviction_order t)))"
    by (simp add: eviction_order_def rev_map)
  then show ?thesis using pq sorted_rev_nth_mono [of "map (\<lambda>i. ru_priority (t ! i)) (eviction_order t)" p q] by simp
qed

lemma evicted_by_priority:
  assumes "max_active_rules < length (active_positions t)"
    and "i \<in> set (active_positions t)" "i \<notin> set (active_positions (cap_active t))"
    and "j \<in> set (active_positions t)" "ru_priority (t ! i) < ru_priority (t ! j)"
  shows "j \<notin> set (active_positions (cap_active t))"
proof
  let ?k = "length (active_positions t) - max_active_rules" and ?o = "eviction_order t"
  assume "j \<in> set (active_positions (cap_active t))"
  then have "j \<in> set (drop ?k ?o)" using active_after_cap [OF assms(1)] by simp
  then obtain n where n: "n < length (drop ?k ?o)" "j = drop ?k ?o ! n" by (auto simp: in_set_conv_nth)
  have "i \<in> set (take ?k ?o)"
    using assms(2,3) active_after_cap [OF assms(1)] eviction_order_set [of t] by (metis append_take_drop_id set_append UnE)
  then obtain m where m: "m < ?k" "m < length ?o" "i = ?o ! m" by (auto simp: in_set_conv_nth)
  have "ru_priority (t ! j) \<le> ru_priority (t ! i)"
    using eviction_order_priority [of m "?k + n" t] n m by simp
  then show False using assms(5) by simp
qed

section \<open>Properties\<close>

text \<open>
  Whatever the reviews answered so far, the parameters the loaded rules give a strategy and the
  reward floors they give the risk manager stay within the safety bounds.
\<close>

lemma rules_stay_in_bounds:
  assumes "params_bounded p" and "floors_bounded rm"
  shows "params_bounded (apply_to_strategy (fst (load_active_rules now
      (fold (\<lambda>(d, items). generate_rules_from_review d items) reviews []))) key p) \<and>
    8 / 10 \<le> rr_floor (apply_to_risk_manager (fst (load_active_rules now
      (fold (\<lambda>(d, items). generate_rules_from_review d items) reviews []))) rm) regime \<and>
    rr_floor (apply_to_risk_manager (fst (load_active_rules now
      (fold (\<lambda>(d, items). generate_rules_from_review d items) reviews []))) rm) regime \<le> 3"
proof -
  have "list_all rule_bounded (fold (\<lambda>(d, items). generate_rules_from_review d items) rs t)" if "list_all rule_bounded t" for rs t
    using that by (induction rs arbitrary: t) (auto simp: generate_bounded)
  then have "active_rules_ok (fst (load_active_rules now
      (fold (\<lambda>(d, items). generate_rules_from_review d items) reviews [])))"
    by (intro load_active_ok) simp
  then show ?thesis using assms apply_to_strategy_ok rr_floor_bounded [OF apply_to_risk_manager_ok] by blast
qed

lemma rules_stay_in_bounds_witness:
  "params_bounded (apply_to_strategy (fst (load_active_rules (PyDT 0 True)
     (generate_rules_from_review (PyDT 0 True) [\<lparr>ai_param = ''stop_loss_pct'', ai_value = - 50, ai_expires_days = None,
        ai_rule_type = None, ai_strategy = None, ai_priority = None\<rparr>] []))) ''STABLE_SHORT'' stable_default)"
  using rules_stay_in_bounds [of stable_default "new_risk_manager default_settings" "PyDT 0 True"
      "[(PyDT 0 True, [\<lparr>ai_param = ''stop_loss_pct'', ai_value = - 50, ai_expires_days = None,
        ai_rule_type = None, ai_strategy = None, ai_priority = None\<rparr>])]"]
  by (simp add: params_bounded_def stable_default_def floors_bounded_def floor_ok_def new_risk_manager_def)

text \<open>
  A review that adds rules leaves at most twenty active ones; but the excess is taken in the
  reverse alphabetical order of the priorities: when the cap removes a LOW rule, no MEDIUM rule is
  left, so the MEDIUM rules go before the LOW ones.
\<close>

lemma rule_cap_evicts_medium_first:
  assumes "rules_of_items now items \<noteq> []" and "u = fold add_rule (rules_of_items now items) t"
    and "i \<in> set (active_positions u)" and "ru_priority (u ! i) = ''LOW''"
    and "i \<notin> set (active_positions (generate_rules_from_review now items t))"
  shows "length (active_positions (generate_rules_from_review now items t)) \<le> 20 \<and>
    (\<forall>j \<in> set (active_positions u). ru_priority (u ! j) = ''MEDIUM'' \<longrightarrow>
       j \<notin> set (active_positions (generate_rules_from_review now items t)))"
proof -
  have g: "generate_rules_from_review now items t = cap_active u"
    using assms(1,2) by (simp add: generate_rules_from_review_def)
  have over: "max_active_rules < length (active_positions u)"
    using assms(3,5) g by (cases "max_active_rules < length (active_positions u)") (auto simp: cap_active_def)
  have "''LOW'' < ''MEDIUM''" by (simp add: less_char_def)
  then show ?thesis using cap_count [of u] evicted_by_priority [OF over assms(3)] assms(4,5) unfolding g
    by (auto simp: max_active_rules_def)
qed

definition low_item :: action_item where
  "low_item = \<lparr>ai_param = ''min_confidence'', ai_value = 6 / 10, ai_expires_days = None, ai_rule_type = None,
     ai_strategy = None, ai_priority = Some ''LOW''\<rparr>"

definition low_rule :: "nat \<Rightarrow> trading_rule" where
  "low_rule n = \<lparr>ru_rule_type = ''PARAM_OVERRIDE'', ru_strategy = replicate n (CHR ''x''), ru_param = ''min_confidence'',
     ru_value = 6 / 10, ru_source = ''DAILY_REVIEW'', ru_priority = ''LOW'', ru_active = True,
     ru_expires_at = PyDT day_us True, ru_created_at = PyDT (int n) True, ru_applied_count = 0\<rparr>"

lemma rule_cap_evicts_medium_first_witness:
  "length (active_positions (generate_rules_from_review (PyDT 0 True) [low_item] (map low_rule [0..<20]))) \<le> 20"
proof -
  let ?now = "PyDT 0 True" and ?t = "map low_rule [0..<20]"
  obtain r where r: "rules_of_items ?now [low_item] = [r]" "ru_active r" "ru_strategy r = ''ALL''" "ru_priority r = ''LOW''"
    by (simp add: rules_of_items_def rule_of_item_def low_item_def safety_bounds_def get_default_def)
  define u where "u = fold add_rule (rules_of_items ?now [low_item]) ?t"
  have "deactivate_same r (low_rule n) = low_rule n" for n
    by (cases n) (auto simp: deactivate_same_def low_rule_def r(3))
  then have u: "u = ?t @ [r]" by (simp add: u_def r(1) add_rule_def comp_def)
  have low: "ru_active (u ! i) \<and> ru_priority (u ! i) = ''LOW''" if "i < 21" for i
    using that r by (cases "i = 20") (auto simp: u nth_append low_rule_def)
  then have act: "set (active_positions u) = {0..<21}" by (auto simp: active_positions_mem u)
  have g: "generate_rules_from_review ?now [low_item] ?t = cap_active u"
    by (simp add: generate_rules_from_review_def u_def r(1))
  have "card (set (active_positions (cap_active u))) \<le> 20"
    using cap_count [of u] card_length [of "active_positions (cap_active u)"] by (simp add: max_active_rules_def)
  then have small: "card (set (active_positions (cap_active u))) < card {0..<21 :: nat}" by simp
  have "\<not> {0..<21} \<subseteq> set (active_positions (cap_active u))"
  proof
    assume "{0..<21} \<subseteq> set (active_positions (cap_active u))"
    from card_mono [OF finite_set this] small show False by linarith
  qed
  then obtain i where i: "i \<in> {0..<21}" "i \<notin> set (active_positions (cap_active u))" by blast
  then show ?thesis
    using rule_cap_evicts_medium_first [of ?now "[low_item]" u ?t i] act low [of i] g r(1) u_def by simp
qed

end
