(* ===== verification/Pipeline.thy ===== *)
theory Pipeline
  imports Agent Trading_Rules Reservation
begin

text \<open>
  The path of one symbol through the agent (\<open>_analyze_and_trade\<close> of \<open>agent/trading_agent.py\<close>): hard
  rule, market data, first model answer, rule gates, second model answer, signal, watched levels, cost
  gate, news gate, holdings, risk check, buying power, execution policy, cash reservation, order. The
  market data, the two model answers (already validated), the news gate's verdict and the broker are
  arguments, and so are the rendered notes of the analysis context. Chart analysis, prompts, logs and the activity records are left out. Exceptions of the
  broker leave the function and are the \<open>Inl\<close> of the result.
\<close>

section \<open>Inputs\<close>

record portfolio =
  pf_cash :: real
  pf_total_asset :: real
  pf_holding_count :: int
  pf_today_trades :: int
  pf_holding_symbols :: "string list"
  pf_holding_quantities :: "(string \<times> int) list"

definition empty_portfolio :: portfolio where
  "empty_portfolio = \<lparr>pf_cash = 0, pf_total_asset = 0, pf_holding_count = 0, pf_today_trades = 0,
     pf_holding_symbols = [], pf_holding_quantities = []\<rparr>"

text \<open>\<open>_build_portfolio_snapshot\<close>: an invalid balance raises. Of two holdings with one normalised symbol
  the dict keeps the later quantity.\<close>

definition build_portfolio_snapshot ::
  "account_balance res \<Rightarrow> holding_info list res \<Rightarrow> int \<Rightarrow> portfolio res" where
  "build_portfolio_snapshot balance holdings today_trades =
     rbind balance (\<lambda>b. rbind holdings (\<lambda>hs.
       if \<not> bal_is_valid b then Inl (Exn RuntimeError ''account query failed'')
       else Inr \<lparr>pf_cash = bal_cash b, pf_total_asset = bal_total_asset b, pf_holding_count = int (length hs),
                 pf_today_trades = today_trades,
                 pf_holding_symbols = map (\<lambda>h. normalize_krx_symbol (hi_symbol h)) hs,
                 pf_holding_quantities =
                   fold (\<lambda>h. AList.update (normalize_krx_symbol (hi_symbol h)) (hi_quantity h)) hs []\<rparr>))"

record stock_info =
  st_symbol :: string
  st_name :: string
  st_stock_id :: string
  st_strategy :: string
  st_direction :: "string option"
  st_trigger :: string
  st_market :: string
  st_buying_power :: "(bool \<times> int) option"

text \<open>What the market data and the chart analysis give: the price is 0 when the query failed.\<close>

record market_view =
  mv_price :: real
  mv_change_rate :: real
  mv_daily_empty :: bool
  mv_entry_rsi :: "real option"
  mv_entry_macd_hist :: "real option"
  mv_entry_pattern :: "string option"
  mv_cross_signal :: "string option"

record tier1_answer =
  t1_recommendation :: string
  t1_confidence :: "real option"
  t1_target :: "real option"
  t1_stop :: "real option"
  t1_trailing :: "real option"

record tier2_answer =
  t2_approved :: bool
  t2_action :: "string option"
  t2_quantity :: "int option"
  t2_entry :: "real option"
  t2_target :: "real option"
  t2_stop :: "real option"
  t2_trailing :: "real option"

record pipeline_env =
  pe_dm :: dm_env
  pe_consecutive_losses :: "nat res"
  pe_market :: market_view
  pe_tier1 :: "tier1_answer option"
  pe_tier2 :: "tier2_answer option"
  pe_news_approved :: bool
  pe_buying_power :: "(bool \<times> int) res"
  pe_uuid :: string
  pe_notes :: "(string \<times> string) list"

record pipeline_agent =
  pa_strategies :: "(string \<times> strategy_params) list"
  pa_rules :: active_rules
  pa_market_regime :: string
  pa_risk_manager :: risk_manager

section \<open>The gates before the second answer\<close>

definition min_buy_quantity :: "settings \<Rightarrow> dynamic_limits option \<Rightarrow> int" where
  "min_buy_quantity cfg dl =
     (case dl of None \<Rightarrow> MIN_BUY_QUANTITY cfg
      | Some d \<Rightarrow> (case dl_min_buy_quantity d of None \<Rightarrow> MIN_BUY_QUANTITY cfg | Some q \<Rightarrow> q))"

definition holds :: "portfolio \<Rightarrow> string \<Rightarrow> bool" where
  "holds pf symbol \<longleftrightarrow> symbol \<in> set (pf_holding_symbols pf)"

text \<open>The hard rule on consecutive losses; a failing query lets the analysis go on.\<close>

definition loss_block :: "pipeline_env \<Rightarrow> stock_info \<Rightarrow> portfolio \<Rightarrow> bool" where
  "loss_block env si pf \<longleftrightarrow>
     (case pe_consecutive_losses env of
        Inl _ \<Rightarrow> False
      | Inr n \<Rightarrow> 5 \<le> n \<and> get_default (st_direction si) ''BUY'' \<noteq> ''SELL'' \<and> \<not> holds pf (st_symbol si))"

definition no_cash_block :: "settings \<Rightarrow> pipeline_env \<Rightarrow> stock_info \<Rightarrow> dynamic_limits option \<Rightarrow> portfolio \<Rightarrow> bool" where
  "no_cash_block cfg env si dl pf \<longleftrightarrow>
     \<not> holds pf (st_symbol si) \<and> 0 < mv_price (pe_market env) \<and>
     pf_cash pf < mv_price (pe_market env) * of_int (min_buy_quantity cfg dl)"

definition rule_min_confidence :: "active_rules \<Rightarrow> string \<Rightarrow> real option" where
  "rule_min_confidence ar strategy_type =
     (case (map_of (scope_params strategy_type ar) ''min_confidence'', map_of (scope_params ''ALL'' ar) ''min_confidence'') of
        (None, v) \<Rightarrow> v
      | (Some a, None) \<Rightarrow> Some a
      | (Some a, Some b) \<Rightarrow> Some (if a < b then b else a))"

definition regime_adjustment :: "string \<Rightarrow> real" where
  "regime_adjustment regime =
     get_default (map_of [(''BULL'', - 5 / 100), (''THEME'', - 3 / 100), (''SIDEWAYS'', 0), (''BEAR'', 3 / 100)] regime) 0"

definition confidence_block :: "pipeline_agent \<Rightarrow> stock_info \<Rightarrow> portfolio \<Rightarrow> tier1_answer \<Rightarrow> bool" where
  "confidence_block ag si pf t1 \<longleftrightarrow>
     (case rule_min_confidence (pa_rules ag) (st_strategy si) of
        None \<Rightarrow> False
      | Some m \<Rightarrow> m \<noteq> 0 \<and> \<not> (t1_recommendation t1 = ''SELL'' \<or> holds pf (st_symbol si)) \<and>
          opt_or (t1_confidence t1) 0 <
            max (1 / 2) (min (85 / 100) (m + regime_adjustment (pa_market_regime ag))))"

definition flag_set :: "active_rules \<Rightarrow> string \<Rightarrow> bool" where
  "flag_set ar flag = get_default (map_of (ar_flags ar) flag) False"

definition reward_risk_block :: "pipeline_agent \<Rightarrow> real \<Rightarrow> tier1_answer \<Rightarrow> bool" where
  "reward_risk_block ag price t1 \<longleftrightarrow>
     (let target = opt_or (t1_target t1) 0; stop = opt_or (t1_stop t1) 0;
          reward = \<bar>target - price\<bar>; risk = \<bar>price - stop\<bar>
      in flag_set (pa_rules ag) ''revalidate_rr_ratio'' \<and> 0 < price \<and> 0 < target \<and> 0 < stop \<and>
         (if 0 < risk
          then reward / risk < get_default (map_of (ar_rr_floors (pa_rules ag)) (pa_market_regime ag))
                 (rr_floor (pa_risk_manager ag) (pa_market_regime ag))
          else t1_recommendation t1 = ''BUY''))"

definition stop_required_block :: "pipeline_agent \<Rightarrow> tier1_answer \<Rightarrow> bool" where
  "stop_required_block ag t1 \<longleftrightarrow>
     flag_set (pa_rules ag) ''require_stop_loss_logging'' \<and> t1_recommendation t1 = ''BUY'' \<and> opt_or (t1_stop t1) 0 \<le> 0"

definition buying_power_block :: "settings \<Rightarrow> dynamic_limits option \<Rightarrow> stock_info \<Rightarrow> tier1_answer \<Rightarrow> bool" where
  "buying_power_block cfg dl si t1 \<longleftrightarrow>
     t1_recommendation t1 = ''BUY'' \<and>
     (case st_buying_power si of None \<Rightarrow> False | Some (ok, max_qty) \<Rightarrow> ok \<and> max_qty < min_buy_quantity cfg dl)"

text \<open>The first answer, when the symbol gets past every gate to the second review.\<close>

definition tier1_stage ::
  "settings \<Rightarrow> pipeline_agent \<Rightarrow> pipeline_env \<Rightarrow> stock_info \<Rightarrow> dynamic_limits option \<Rightarrow> portfolio \<Rightarrow> tier1_answer option" where
  "tier1_stage cfg ag env si dl pf =
     (if loss_block env si pf \<or> no_cash_block cfg env si dl pf \<or>
         mv_price (pe_market env) = 0 \<and> mv_daily_empty (pe_market env) then None
      else
        case pe_tier1 env of
          None \<Rightarrow> None
        | Some t1 \<Rightarrow>
            if t1_recommendation t1 = ''SELL'' \<and> \<not> holds pf (st_symbol si) then None
            else if t1_recommendation t1 = ''HOLD'' then None
            else if confidence_block ag si pf t1 then None
            else if reward_risk_block ag (mv_price (pe_market env)) t1 then None
            else if stop_required_block ag t1 then None
            else if buying_power_block cfg dl si t1 then None
            else Some t1)"

section \<open>The signal\<close>

definition evaluate_strategy :: "string \<Rightarrow> strategy_params \<Rightarrow> analysis \<Rightarrow> string \<Rightarrow> trade_signal option" where
  "evaluate_strategy key = (if key = ''AGGRESSIVE_SHORT'' then aggressive_evaluate else stable_evaluate)"

definition horizon_name :: "trade_horizon \<Rightarrow> string" where
  "horizon_name h = (case h of SHORT \<Rightarrow> ''SHORT'' | MID \<Rightarrow> ''MID'' | LONG \<Rightarrow> ''LONG'')"

definition horizon_of :: "pipeline_agent \<Rightarrow> pipeline_env \<Rightarrow> stock_info \<Rightarrow> tier1_answer \<Rightarrow> string" where
  "horizon_of ag env si t1 =
     horizon_name (decide_trade_horizon (st_strategy si) (st_trigger si) (mv_change_rate (pe_market env))
       (opt_or (t1_confidence t1) 0) (pa_market_regime ag))"

definition truthy_or :: "'a::zero option \<Rightarrow> 'a option \<Rightarrow> 'a option" where
  "truthy_or a b = (if opt_or a 0 \<noteq> 0 then a else b)"

text \<open>The second answer names quantity and price: the signal is built from it.\<close>

definition direct_signal ::
  "pipeline_agent \<Rightarrow> pipeline_env \<Rightarrow> stock_info \<Rightarrow> tier1_answer \<Rightarrow> tier2_answer \<Rightarrow> trade_signal" where
  "direct_signal ag env si t1 t2 =
     (let action = (if upper (get_default (t2_action t2) (t1_recommendation t1)) \<in> {''BUY'', ''CAUTIOUS BUY''} then BUY else SELL);
          entry = opt_or (t2_entry t2) 0;
          strategy = map_of (pa_strategies ag) (st_strategy si);
          level = (\<lambda>given pct d. truthy_or given (case strategy of None \<Rightarrow> given
                     | Some p \<Rightarrow> Some (entry * (1 + num_or (pct p) d / 100))));
          confidence = get_default (t1_confidence t1) (7 / 10)
      in \<lparr>sig_symbol = st_symbol si, sig_stock_id = st_stock_id si, sig_action = action, sig_strength = confidence,
          sig_price = t2_entry t2, sig_quantity = t2_quantity t2,
          sig_target = level (t2_target t2) sp_take_profit_pct 5, sig_stop = level (t2_stop t2) sp_stop_loss_pct (- 3),
          sig_urgency = IMMEDIATE, sig_strategy = st_strategy si, sig_confidence = confidence, sig_market = None,
          sig_horizon = Some (horizon_of ag env si t1), sig_reservation_id = None, sig_reserved_amount = 0\<rparr>)"

definition strategy_signal_of ::
  "pipeline_agent \<Rightarrow> pipeline_env \<Rightarrow> stock_info \<Rightarrow> tier1_answer \<Rightarrow> tier2_answer \<Rightarrow> trade_signal option" where
  "strategy_signal_of ag env si t1 t2 =
     (case map_of (pa_strategies ag) (st_strategy si) of
        None \<Rightarrow> None
      | Some p \<Rightarrow>
          (case evaluate_strategy (st_strategy si) p
                  \<lparr>an_recommendation = t1_recommendation t1, an_confidence = opt_or (t1_confidence t1) 0,
                   an_symbol = st_symbol si, an_stock_id = st_stock_id si, an_price = mv_price (pe_market env),
                   an_cross_signal = mv_cross_signal (pe_market env)\<rparr> (pa_market_regime ag) of
             None \<Rightarrow> None
           | Some s \<Rightarrow>
               if sig_action s = HOLD then None
               else Some (s\<lparr>sig_quantity := truthy_or (t2_quantity t2) (sig_quantity s),
                            sig_price := truthy_or (t2_entry t2) (sig_price s),
                            sig_target := truthy_or (t2_target t2) (sig_target s),
                            sig_stop := truthy_or (t2_stop t2) (sig_stop s),
                            sig_horizon := Some (horizon_of ag env si t1)\<rparr>)))"

definition signal_of ::
  "pipeline_agent \<Rightarrow> pipeline_env \<Rightarrow> stock_info \<Rightarrow> tier1_answer \<Rightarrow> tier2_answer \<Rightarrow> trade_signal option" where
  "signal_of ag env si t1 t2 =
     (if opt_or (t2_quantity t2) 0 \<noteq> 0 \<and> opt_or (t2_entry t2) 0 \<noteq> 0 then Some (direct_signal ag env si t1 t2)
      else strategy_signal_of ag env si t1 t2)"

definition tier_levels :: "real option \<Rightarrow> real option \<Rightarrow> real option \<Rightarrow> price_levels" where
  "tier_levels stop target trailing = \<lparr>pl_stop = stop, pl_target = target, pl_trailing = trailing\<rparr>"

section \<open>The gates in front of the order\<close>

text \<open>The quantity of a sell is the holding's; \<open>None\<close> stops.\<close>

definition resolve_sell_quantity :: "portfolio \<Rightarrow> trade_signal \<Rightarrow> int" where
  "resolve_sell_quantity pf signal =
     max (get_default (map_of (pf_holding_quantities pf) (normalize_krx_symbol (sig_symbol signal))) 0) 0"

definition sell_stage :: "portfolio \<Rightarrow> stock_info \<Rightarrow> trade_signal \<Rightarrow> trade_signal option" where
  "sell_stage pf si signal =
     (if sig_action signal \<noteq> SELL then Some signal
      else if \<not> holds pf (st_symbol si) then None
      else
        let holding_qty = resolve_sell_quantity pf signal
        in if holding_qty \<le> 0 then None
           else Some (if opt_or (sig_quantity signal) 0 \<noteq> holding_qty
                      then signal\<lparr>sig_quantity := Some holding_qty\<rparr> else signal))"

text \<open>The last query of the buying power: a refused one leaves the quantity, a raised one leaves the
  function.\<close>

definition buying_power_stage :: "settings \<Rightarrow> dynamic_limits option \<Rightarrow> (bool \<times> int) res \<Rightarrow> trade_signal \<Rightarrow> trade_signal option res" where
  "buying_power_stage cfg dl answer signal =
     rbind answer (\<lambda>(ok, max_qty).
       if \<not> ok then Inr (Some signal)
       else if max_qty < min_buy_quantity cfg dl then Inr None
       else Inr (Some (if max_qty < opt_or (sig_quantity signal) 0 then signal\<lparr>sig_quantity := Some max_qty\<rparr> else signal)))"

record pipeline_state =
  ps_cfg :: settings
  ps_dm :: dm_state
  ps_detector :: detector
  ps_ledger :: "ledger option"

record pipeline_result =
  pr_signal :: bool
  pr_executed :: bool

definition no_signal :: pipeline_result where "no_signal = \<lparr>pr_signal = False, pr_executed = False\<rparr>"
definition signal_only :: pipeline_result where "signal_only = \<lparr>pr_signal = True, pr_executed = False\<rparr>"

definition pipeline_context :: "pipeline_agent \<Rightarrow> pipeline_env \<Rightarrow> stock_info \<Rightarrow> tier1_answer \<Rightarrow> trade_signal \<Rightarrow> analysis_context" where
  "pipeline_context ag env si t1 signal =
     \<lparr>ctx_stock_name = Some (st_name si), ctx_strategy_type = st_strategy si, ctx_ai_recommendation = t1_recommendation t1,
      ctx_ai_confidence = opt_or (t1_confidence t1) 0, ctx_ai_target = t1_target t1, ctx_ai_stop = t1_stop t1,
      ctx_entry_rsi = mv_entry_rsi (pe_market env), ctx_entry_macd_hist = mv_entry_macd_hist (pe_market env),
      ctx_entry_pattern = mv_entry_pattern (pe_market env), ctx_market_regime = pa_market_regime ag,
      ctx_horizon = sig_horizon signal, ctx_notes = pe_notes env\<rparr>"

text \<open>A buy: power, execution policy, reservation. The result is the signal to submit, if any, the
  reservation and the ledger.\<close>

definition prepare_buy ::
  "settings \<Rightarrow> pipeline_env \<Rightarrow> stock_info \<Rightarrow> dynamic_limits option \<Rightarrow> trade_signal \<Rightarrow> ledger option \<Rightarrow>
     (trade_signal option \<times> string option \<times> ledger option) res" where
  "prepare_buy cfg env si dl signal led =
     rbind (rbind (market_of (st_market si)) (\<lambda>m. buying_power_stage cfg dl (pe_buying_power env) signal)) (\<lambda>s.
       case s of
         None \<Rightarrow> Inr (None, None, led)
       | Some s1 \<Rightarrow>
           (let s2 = apply_buy_execution_policy cfg s1 (mv_price (pe_market env));
                (decision, s3, led') = reserve_buy_cash_for_cycle (pe_uuid env) s2 led
            in if \<not> rd_approved decision \<and> order_reservation_mode cfg = ''ENFORCE'' then Inr (None, None, led')
               else Inr (Some s3, rd_reservation_id decision, led')))"

definition executed_of :: "decision_outcome \<Rightarrow> bool" where
  "executed_of out = (case out of Executed r \<Rightarrow> ex_success r | Recommended _ \<Rightarrow> False)"

text \<open>The order, and the release of a buy's reservation when nothing was submitted.\<close>

definition submit_signal ::
  "pipeline_agent \<Rightarrow> pipeline_env \<Rightarrow> stock_info \<Rightarrow> tier1_answer \<Rightarrow> trade_signal \<Rightarrow> string option \<Rightarrow> pipeline_state \<Rightarrow>
     (pipeline_result \<times> pipeline_state) res" where
  "submit_signal ag env si t1 signal reservation st =
     rbind (execute_signal (ps_cfg st) (pe_dm env) signal [] (pipeline_context ag env si t1 signal) None (ps_dm st)) (\<lambda>(out, dm).
       let led = (case (sig_action signal, ps_ledger st, reservation) of
                    (BUY, Some l, Some rid) \<Rightarrow> Some (if rid \<noteq> [] \<and> \<not> executed_of out then snd (release (Some rid) l) else l)
                  | _ \<Rightarrow> ps_ledger st)
       in Inr (\<lparr>pr_signal = True, pr_executed = executed_of out\<rparr>, st\<lparr>ps_dm := dm, ps_ledger := led\<rparr>))"

definition order_stage ::
  "pipeline_agent \<Rightarrow> pipeline_env \<Rightarrow> stock_info \<Rightarrow> dynamic_limits option \<Rightarrow> portfolio \<Rightarrow> tier1_answer \<Rightarrow> trade_signal \<Rightarrow>
     pipeline_state \<Rightarrow> (pipeline_result \<times> pipeline_state) res" where
  "order_stage ag env si dl pf t1 signal st =
     (case sell_stage pf si signal of
        None \<Rightarrow> Inr (signal_only, st)
      | Some s1 \<Rightarrow>
          (let (risk, cfg) = risk_check (pa_risk_manager ag) (ps_cfg st) (env_now (pe_dm env)) (dm_db (ps_dm st)) s1
                 (pf_cash pf) (pf_total_asset pf) (pf_today_trades pf) 20 dl (pa_market_regime ag);
               st1 = st\<lparr>ps_cfg := cfg\<rparr>
           in if \<not> rk_approved risk then Inr (signal_only, st1)
              else
                let s2 = (if opt_or (rk_adjusted risk) 0 \<noteq> 0 then s1\<lparr>sig_quantity := rk_adjusted risk\<rparr> else s1)
                in if sig_action s2 = BUY then
                     rbind (prepare_buy cfg env si dl s2 (ps_ledger st1)) (\<lambda>(s3, reservation, led).
                       case s3 of
                         None \<Rightarrow> Inr (signal_only, st1\<lparr>ps_ledger := led\<rparr>)
                       | Some s \<Rightarrow> submit_signal ag env si t1 s reservation (st1\<lparr>ps_ledger := led\<rparr>))
                   else submit_signal ag env si t1 s2 None st1))"

definition analyze_and_trade ::
  "pipeline_agent \<Rightarrow> pipeline_env \<Rightarrow> stock_info \<Rightarrow> dynamic_limits option \<Rightarrow> portfolio \<Rightarrow> pipeline_state \<Rightarrow>
     (pipeline_result \<times> pipeline_state) res" where
  "analyze_and_trade ag env si dl pf st =
     (case tier1_stage (ps_cfg st) ag env si dl pf of
        None \<Rightarrow> Inr (no_signal, st)
      | Some t1 \<Rightarrow>
          (case pe_tier2 env of
             None \<Rightarrow> Inr (no_signal, st)
           | Some t2 \<Rightarrow>
               if \<not> t2_approved t2 then Inr (no_signal, st)
               else
                 case signal_of ag env si t1 t2 of
                   None \<Rightarrow> Inr (no_signal, st)
                 | Some signal \<Rightarrow>
                     (let st1 = st\<lparr>ps_detector := apply_trade_thresholds (st_symbol si)
                                   (tier_levels (t1_stop t1) (t1_target t1) (t1_trailing t1))
                                   (tier_levels (t2_stop t2) (t2_target t2) (t2_trailing t2))
                                   (mv_price (pe_market env)) (ostr (sig_horizon signal)) (ps_detector st)\<rparr>
                      in if sig_action signal = BUY \<and>
                            (\<not> cg_approved (evaluate_cost_gate (ps_cfg st) signal (mv_price (pe_market env)) (sig_horizon signal)) \<or>
                             \<not> pe_news_approved env)
                         then Inr (signal_only, st1)
                         else order_stage ag env si dl pf t1 signal st1)))"

section \<open>Lemmas\<close>

text \<open>What a run of the decision maker adds to the orders: nothing, or the signal's order.\<close>

lemma execute_signal_placed:
  assumes "execute_signal cfg env signal aid ctx cb dm = Inr (out, dm')"
  obtains (nothing) "dm_placed dm' = dm_placed dm"
  | (order) req where "dm_placed dm' = dm_placed dm @ [req]" and "build_order_request signal = Inr req"
      and "autonomy_mode_of (AUTONOMY_MODE cfg) = Inr AUTONOMOUS"
      and "sd_allowed (decide_order_submission cfg (action_value (sig_action signal)))"
      and "sig_action signal = BUY \<longrightarrow> find_existing_pending_buy env (sig_symbol signal) = None"
proof -
  consider (auto) r where "autonomy_mode_of (AUTONOMY_MODE cfg) = Inr AUTONOMOUS"
      "execute_autonomous cfg env signal ctx cb dm = Inr (r, dm')"
    | (semi) "dm_placed dm' = dm_placed dm"
    using assms by (auto simp: execute_signal_def rbind_eq_Inr Let_def split: if_splits)
  then show thesis
  proof cases
    case auto
    from auto(2) show thesis
    proof (cases rule: execute_autonomous_cases)
      case (1 reason)
      then have "dm_placed dm' = dm_placed dm" by simp
      then show thesis by (rule nothing)
    next
      case (2 req ores)
      from 2(6) have "dm_placed dm' = dm_placed dm @ [req]" by (cases rule: after_place_order_cases) auto
      then show thesis using order 2 auto(1) by blast
    qed
  qed (rule nothing)
qed

lemma build_order_requestD:
  "build_order_request signal = Inr req \<Longrightarrow> or_symbol req = sig_symbol signal \<and> or_quantity req = opt_or (sig_quantity signal) 0 \<and>
     (or_side req = Side_BUY \<longleftrightarrow> sig_action signal = BUY) \<and> (or_side req = Side_SELL \<longleftrightarrow> sig_action signal = SELL)"
  by (auto simp: build_order_request_def Let_def rbind_eq_Inr order_side_of_action validate_order_request_def
      split: if_splits signal_action.splits)

lemma tier1_stageD:
  "tier1_stage cfg ag env si dl pf = Some t1 \<Longrightarrow> pe_tier1 env = Some t1 \<and> \<not> loss_block env si pf \<and>
     \<not> no_cash_block cfg env si dl pf \<and> t1_recommendation t1 \<noteq> ''HOLD'' \<and> \<not> confidence_block ag si pf t1 \<and>
     \<not> reward_risk_block ag (mv_price (pe_market env)) t1 \<and> \<not> stop_required_block ag t1 \<and>
     \<not> buying_power_block cfg dl si t1 \<and> (t1_recommendation t1 = ''SELL'' \<longrightarrow> holds pf (st_symbol si))"
  by (auto simp: tier1_stage_def split: if_splits option.splits)

lemma signal_of_symbol: "signal_of ag env si t1 t2 = Some s \<Longrightarrow> sig_symbol s = st_symbol si"
  by (auto simp: signal_of_def direct_signal_def strategy_signal_of_def evaluate_strategy_def Let_def
      stable_evaluate_def aggressive_evaluate_def strategy_signal_def split: if_splits option.splits prod.splits)

lemma signal_of_action: "signal_of ag env si t1 t2 = Some s \<Longrightarrow> sig_action s \<noteq> HOLD"
  by (auto simp: signal_of_def direct_signal_def strategy_signal_of_def Let_def split: if_splits option.splits)

lemma reserve_cycle_signal:
  "reserve_buy_cash_for_cycle u s l = (d, s', l') \<Longrightarrow> sig_action s' = sig_action s \<and> sig_symbol s' = sig_symbol s \<and>
     sig_quantity s' = sig_quantity s"
  by (auto simp: reserve_buy_cash_for_cycle_def Let_def split: option.splits prod.splits if_splits)

lemma policy_signal:
  "sig_action (apply_buy_execution_policy cfg s p) = sig_action s" "sig_symbol (apply_buy_execution_policy cfg s p) = sig_symbol s"
  "sig_quantity (apply_buy_execution_policy cfg s p) = sig_quantity s"
  by (simp_all add: apply_buy_execution_policy_def Let_def)

lemma prepare_buyD:
  assumes "prepare_buy cfg env si dl s led = Inr (Some s3, res, led')"
  shows "\<exists>ok m. pe_buying_power env = Inr (ok, m) \<and> sig_action s3 = sig_action s \<and> sig_symbol s3 = sig_symbol s \<and>
    opt_or (sig_quantity s3) 0 = (if ok \<and> m < opt_or (sig_quantity s) 0 then m else opt_or (sig_quantity s) 0) \<and>
    (ok \<longrightarrow> min_buy_quantity cfg dl \<le> m)"
proof -
  obtain s1 ok m where s1: "pe_buying_power env = Inr (ok, m)" "ok \<longrightarrow> min_buy_quantity cfg dl \<le> m"
    "s1 = (if ok \<and> m < opt_or (sig_quantity s) 0 then s\<lparr>sig_quantity := Some m\<rparr> else s)"
    and s3: "s3 = fst (snd (reserve_buy_cash_for_cycle (pe_uuid env) (apply_buy_execution_policy cfg s1 (mv_price (pe_market env))) led))"
    using assms by (auto simp: prepare_buy_def buying_power_stage_def rbind_eq_Inr Let_def case_prod_beta split: if_splits)
  obtain d l' where "reserve_buy_cash_for_cycle (pe_uuid env) (apply_buy_execution_policy cfg s1 (mv_price (pe_market env))) led = (d, s3, l')"
    using s3 by (metis prod.collapse)
  from reserve_cycle_signal [OF this] show ?thesis using s1 by (auto simp: policy_signal num_or_def)
qed

text \<open>The order stage: when it adds an order, the risk check approved the signal (a sell with the
  holding's quantity) and a buy went through the buying power query and the reservation.\<close>

lemma submit_signal_placed:
  assumes "submit_signal ag env si t1 s res st = Inr (r, st')"
  shows "dm_placed (ps_dm st') = dm_placed (ps_dm st) \<or>
    (\<exists>req. dm_placed (ps_dm st') = dm_placed (ps_dm st) @ [req] \<and> build_order_request s = Inr req \<and>
       autonomy_mode_of (AUTONOMY_MODE (ps_cfg st)) = Inr AUTONOMOUS \<and>
       sd_allowed (decide_order_submission (ps_cfg st) (action_value (sig_action s))) \<and>
       (sig_action s = BUY \<longrightarrow> find_existing_pending_buy (pe_dm env) (sig_symbol s) = None))"
proof -
  obtain out dm where "execute_signal (ps_cfg st) (pe_dm env) s [] (pipeline_context ag env si t1 s) None (ps_dm st) = Inr (out, dm)"
    and st': "ps_dm st' = dm"
    using assms by (auto simp: submit_signal_def rbind_eq_Inr Let_def)
  from this(1) show ?thesis by (cases rule: execute_signal_placed) (auto simp: st')
qed

definition risk_of ::
  "pipeline_agent \<Rightarrow> pipeline_env \<Rightarrow> dynamic_limits option \<Rightarrow> portfolio \<Rightarrow> pipeline_state \<Rightarrow> trade_signal \<Rightarrow> risk_result \<times> settings" where
  "risk_of ag env dl pf st s = risk_check (pa_risk_manager ag) (ps_cfg st) (env_now (pe_dm env)) (dm_db (ps_dm st)) s
     (pf_cash pf) (pf_total_asset pf) (pf_today_trades pf) 20 dl (pa_market_regime ag)"

lemma sell_stageD:
  assumes "sell_stage pf si s = Some s1"
  shows "sig_action s1 = sig_action s \<and> sig_symbol s1 = sig_symbol s \<and> (sig_action s \<noteq> SELL \<longrightarrow> s1 = s) \<and>
    (sig_action s = SELL \<longrightarrow> holds pf (st_symbol si) \<and> 0 < resolve_sell_quantity pf s \<and>
       opt_or (sig_quantity s1) 0 = resolve_sell_quantity pf s)"
  using assms by (auto simp: sell_stage_def Let_def num_or_def split: if_splits)

lemma order_stage_placed:
  assumes run: "order_stage ag env si dl pf t1 s st = Inr (r, st')" and symbol: "sig_symbol s = st_symbol si"
    and new: "dm_placed (ps_dm st') \<noteq> dm_placed (ps_dm st)"
    and hold: "sig_action s \<noteq> HOLD"
  obtains req s1 risk cfg where "dm_placed (ps_dm st') = dm_placed (ps_dm st) @ [req]" and "sell_stage pf si s = Some s1"
    and "risk_of ag env dl pf st s1 = (risk, cfg)" and "rk_approved risk" and "or_symbol req = st_symbol si"
    and "autonomy_mode_of (AUTONOMY_MODE cfg) = Inr AUTONOMOUS"
    and "sd_allowed (decide_order_submission cfg (action_value (sig_action s)))"
    and "or_side req = (if sig_action s = BUY then Side_BUY else Side_SELL)"
    and "sig_action s = SELL \<Longrightarrow> or_quantity req = opt_or (rk_adjusted risk) (opt_or (sig_quantity s1) 0)"
    and "sig_action s = BUY \<Longrightarrow> find_existing_pending_buy (pe_dm env) (st_symbol si) = None \<and>
      (\<exists>ok m. pe_buying_power env = Inr (ok, m) \<and> (ok \<longrightarrow> min_buy_quantity cfg dl \<le> m) \<and>
         or_quantity req = (if ok then min m (opt_or (rk_adjusted risk) (opt_or (sig_quantity s1) 0))
                            else opt_or (rk_adjusted risk) (opt_or (sig_quantity s1) 0)))"
proof -
  obtain s1 where sell: "sell_stage pf si s = Some s1"
    using run new by (cases "sell_stage pf si s") (auto simp: order_stage_def)
  obtain risk cfg where risk: "risk_of ag env dl pf st s1 = (risk, cfg)" by fastforce
  note stage = run [unfolded order_stage_def sell option.case Let_def risk_of_def [symmetric] risk prod.case]
  have ok: "rk_approved risk" using stage new by (cases "rk_approved risk") auto
  define s2 where "s2 = (if opt_or (rk_adjusted risk) 0 \<noteq> 0 then s1\<lparr>sig_quantity := rk_adjusted risk\<rparr> else s1)"
  have s2: "sig_action s2 = sig_action s" "sig_symbol s2 = st_symbol si"
    "opt_or (sig_quantity s2) 0 = opt_or (rk_adjusted risk) (opt_or (sig_quantity s1) 0)"
    using sell_stageD [OF sell] symbol by (auto simp: s2_def opt_or_def num_or_def split: option.splits)
  show thesis
  proof (cases "sig_action s = BUY")
    case True
    from stage ok new True s2(1) obtain s3 res led where
      prep: "prepare_buy cfg env si dl s2 (ps_ledger st) = Inr (Some s3, res, led)"
      and sub: "submit_signal ag env si t1 s3 res (st\<lparr>ps_cfg := cfg, ps_ledger := led\<rparr>) = Inr (r, st')"
      by (auto simp: s2_def rbind_eq_Inr split: option.splits)
    from prepare_buyD [OF prep] obtain k m where p: "pe_buying_power env = Inr (k, m)" "sig_action s3 = sig_action s2"
      "sig_symbol s3 = sig_symbol s2" "k \<longrightarrow> min_buy_quantity cfg dl \<le> m"
      "opt_or (sig_quantity s3) 0 = (if k \<and> m < opt_or (sig_quantity s2) 0 then m else opt_or (sig_quantity s2) 0)" by blast
    from submit_signal_placed [OF sub] new obtain req where
      "dm_placed (ps_dm st') = dm_placed (ps_dm st) @ [req]" "build_order_request s3 = Inr req"
      "autonomy_mode_of (AUTONOMY_MODE cfg) = Inr AUTONOMOUS"
      "sd_allowed (decide_order_submission cfg (action_value (sig_action s3)))"
      "find_existing_pending_buy (pe_dm env) (sig_symbol s3) = None" using True p(2) s2(1) by auto
    with build_order_requestD [OF this(2)] show thesis
      using that [of req s1 risk cfg] sell risk ok True p s2 by (auto simp: min_def)
  next
    case False
    with hold have sell_action: "sig_action s = SELL" by (cases "sig_action s") auto
    from stage ok False s2(1) have sub: "submit_signal ag env si t1 s2 None (st\<lparr>ps_cfg := cfg\<rparr>) = Inr (r, st')"
      by (simp add: s2_def split: if_splits)
    from submit_signal_placed [OF sub] new obtain req where
      "dm_placed (ps_dm st') = dm_placed (ps_dm st) @ [req]" "build_order_request s2 = Inr req"
      "autonomy_mode_of (AUTONOMY_MODE cfg) = Inr AUTONOMOUS"
      "sd_allowed (decide_order_submission cfg (action_value (sig_action s2)))" by auto
    with build_order_requestD [OF this(2)] show thesis
      using that [of req s1 risk cfg] sell risk ok sell_action s2 by auto
  qed
qed

lemma analyze_placed:
  assumes run: "analyze_and_trade ag env si dl pf st = Inr (r, st')" and new: "dm_placed (ps_dm st') \<noteq> dm_placed (ps_dm st)"
  obtains t1 t2 s st1 where "tier1_stage (ps_cfg st) ag env si dl pf = Some t1" and "pe_tier2 env = Some t2" and "t2_approved t2"
    and "signal_of ag env si t1 t2 = Some s" and "ps_cfg st1 = ps_cfg st" and "ps_dm st1 = ps_dm st"
    and "sig_action s = BUY \<Longrightarrow>
      cg_approved (evaluate_cost_gate (ps_cfg st) s (mv_price (pe_market env)) (sig_horizon s)) \<and> pe_news_approved env"
    and "order_stage ag env si dl pf t1 s st1 = Inr (r, st')"
proof -
  obtain t1 where t1: "tier1_stage (ps_cfg st) ag env si dl pf = Some t1"
    using run new by (cases "tier1_stage (ps_cfg st) ag env si dl pf") (auto simp: analyze_and_trade_def)
  obtain t2 where t2: "pe_tier2 env = Some t2"
    using run new by (cases "pe_tier2 env") (auto simp: analyze_and_trade_def t1)
  have ok: "t2_approved t2" using run new by (cases "t2_approved t2") (auto simp: analyze_and_trade_def t1 t2)
  obtain s where s: "signal_of ag env si t1 t2 = Some s"
    using run new ok by (cases "signal_of ag env si t1 t2") (auto simp: analyze_and_trade_def t1 t2)
  show thesis
    using run new ok by (intro that [OF t1 t2 ok s])
      (auto simp: analyze_and_trade_def t1 t2 s Let_def split: if_splits)
qed

section \<open>Properties\<close>

text \<open>
  C3: A buy order leaves the analysis of a symbol only through every gate: neither model answer
  refused it, the loss rule, the cash check, the confidence, reward and stop rules, the cost gate and
  the news gate let it pass, the risk manager approved it, the agent is autonomous, the submission gate
  is open and no buy of the symbol is pending; it is the only order of the run, and its quantity is
  the risk manager's, cut to the buying power the broker reported.
\<close>

theorem pipeline_buy_passes_every_gate:
  assumes "analyze_and_trade ag env si dl pf st = Inr (r, st')" and "dm_placed (ps_dm st') \<noteq> dm_placed (ps_dm st)"
    and "or_side (last (dm_placed (ps_dm st'))) = Side_BUY"
  shows "\<exists>t1 t2 s req risk.
    dm_placed (ps_dm st') = dm_placed (ps_dm st) @ [req] \<and> or_symbol req = st_symbol si \<and>
    pe_tier1 env = Some t1 \<and> t1_recommendation t1 \<noteq> ''HOLD'' \<and> pe_tier2 env = Some t2 \<and> t2_approved t2 \<and>
    \<not> loss_block env si pf \<and> \<not> no_cash_block (ps_cfg st) env si dl pf \<and> \<not> confidence_block ag si pf t1 \<and>
    \<not> reward_risk_block ag (mv_price (pe_market env)) t1 \<and> \<not> stop_required_block ag t1 \<and>
    signal_of ag env si t1 t2 = Some s \<and> sig_action s = BUY \<and>
    cg_approved (evaluate_cost_gate (ps_cfg st) s (mv_price (pe_market env)) (sig_horizon s)) \<and> pe_news_approved env \<and>
    risk_of ag env dl pf st s = (risk, ps_cfg st) \<and> rk_approved risk \<and>
    autonomy_mode_of (AUTONOMY_MODE (ps_cfg st)) = Inr AUTONOMOUS \<and>
    sd_allowed (decide_order_submission (ps_cfg st) ''BUY'') \<and>
    find_existing_pending_buy (pe_dm env) (st_symbol si) = None \<and>
    or_quantity req \<le> opt_or (rk_adjusted risk) (opt_or (sig_quantity s) 0) \<and>
    (case pe_buying_power env of Inr (True, m) \<Rightarrow> min_buy_quantity (ps_cfg st) dl \<le> m \<and> or_quantity req \<le> m | _ \<Rightarrow> True)"
proof -
  obtain t1 t2 s st1 where a: "tier1_stage (ps_cfg st) ag env si dl pf = Some t1" "pe_tier2 env = Some t2" "t2_approved t2"
    "signal_of ag env si t1 t2 = Some s" and st1: "ps_cfg st1 = ps_cfg st" "ps_dm st1 = ps_dm st"
    and gates: "sig_action s = BUY \<Longrightarrow>
      cg_approved (evaluate_cost_gate (ps_cfg st) s (mv_price (pe_market env)) (sig_horizon s)) \<and> pe_news_approved env"
    and stage: "order_stage ag env si dl pf t1 s st1 = Inr (r, st')"
    by (rule analyze_placed [OF assms(1,2)]) blast
  have same: "risk_of ag env dl pf st1 x = risk_of ag env dl pf st x" for x by (simp add: risk_of_def st1)
  obtain req s1 risk cfg where o: "dm_placed (ps_dm st') = dm_placed (ps_dm st1) @ [req]" "sell_stage pf si s = Some s1"
    "risk_of ag env dl pf st1 s1 = (risk, cfg)" "rk_approved risk" "or_symbol req = st_symbol si"
    "autonomy_mode_of (AUTONOMY_MODE cfg) = Inr AUTONOMOUS"
    "sd_allowed (decide_order_submission cfg (action_value (sig_action s)))"
    "or_side req = (if sig_action s = BUY then Side_BUY else Side_SELL)"
    and buy: "sig_action s = BUY \<Longrightarrow> find_existing_pending_buy (pe_dm env) (st_symbol si) = None \<and>
      (\<exists>ok m. pe_buying_power env = Inr (ok, m) \<and> (ok \<longrightarrow> min_buy_quantity cfg dl \<le> m) \<and>
         or_quantity req = (if ok then min m (opt_or (rk_adjusted risk) (opt_or (sig_quantity s1) 0))
                            else opt_or (rk_adjusted risk) (opt_or (sig_quantity s1) 0)))"
    by (rule order_stage_placed [OF stage signal_of_symbol [OF a(4)] _ signal_of_action [OF a(4)]])
      (use assms(2) st1 in auto)
  have b: "sig_action s = BUY" using o(1,8) assms(3) by (auto split: if_splits)
  then have "s1 = s" using sell_stageD [OF o(2)] by auto
  moreover from this have "cfg = ps_cfg st"
    using risk_check_approved [OF o(3) [unfolded same risk_of_def] o(4)] b st1 by simp
  ultimately show ?thesis
    using tier1_stageD [OF a(1)] a(2-4) gates [OF b] o(1,3-7) st1 buy [OF b] b
    by (intro exI [of _ t1] exI [of _ t2] exI [of _ s] exI [of _ req] exI [of _ risk]) (auto simp: same split: bool.split)
qed

text \<open>
  C10: A sell order of the analysis is only ever sent for a symbol the portfolio holds, and always for
  the whole quantity held, whatever quantity the model proposed.
\<close>

theorem pipeline_sell_is_whole_holding:
  assumes "analyze_and_trade ag env si dl pf st = Inr (r, st')" and "dm_placed (ps_dm st') \<noteq> dm_placed (ps_dm st)"
    and "or_side (last (dm_placed (ps_dm st'))) = Side_SELL"
  shows "\<exists>req. dm_placed (ps_dm st') = dm_placed (ps_dm st) @ [req] \<and> or_symbol req = st_symbol si \<and>
    holds pf (st_symbol si) \<and> 0 < or_quantity req \<and>
    map_of (pf_holding_quantities pf) (normalize_krx_symbol (st_symbol si)) = Some (or_quantity req) \<and>
    sd_allowed (decide_order_submission (ps_cfg st) ''SELL'')"
proof -
  obtain t1 t2 s st1 where a: "tier1_stage (ps_cfg st) ag env si dl pf = Some t1"
    "signal_of ag env si t1 t2 = Some s" and st1: "ps_cfg st1 = ps_cfg st" "ps_dm st1 = ps_dm st"
    and stage: "order_stage ag env si dl pf t1 s st1 = Inr (r, st')"
    by (rule analyze_placed [OF assms(1,2)]) blast
  obtain req s1 risk cfg where o: "dm_placed (ps_dm st') = dm_placed (ps_dm st1) @ [req]" "sell_stage pf si s = Some s1"
    "risk_of ag env dl pf st1 s1 = (risk, cfg)" "or_symbol req = st_symbol si"
    "sd_allowed (decide_order_submission cfg (action_value (sig_action s)))"
    "or_side req = (if sig_action s = BUY then Side_BUY else Side_SELL)"
    and sell: "sig_action s = SELL \<Longrightarrow> or_quantity req = opt_or (rk_adjusted risk) (opt_or (sig_quantity s1) 0)"
    by (rule order_stage_placed [OF stage signal_of_symbol [OF a(2)] _ signal_of_action [OF a(2)]])
      (use assms(2) st1 in auto)
  have b: "sig_action s = SELL"
    using o(1,6) assms(3) signal_of_action [OF a(2)] by (cases "sig_action s") auto
  note sd = sell_stageD [OF o(2)]
  have "risk = approve Sell_order None" "cfg = ps_cfg st"
    using o(3) b sd by (auto simp: risk_of_def risk_check_def st1)
  then have q: "or_quantity req = resolve_sell_quantity pf s" "cfg = ps_cfg st" using sell b sd by auto
  have "map_of (pf_holding_quantities pf) (normalize_krx_symbol (st_symbol si)) = Some (resolve_sell_quantity pf s)"
    using sd b signal_of_symbol [OF a(2)] by (auto simp: resolve_sell_quantity_def get_default_def split: option.splits)
  then show ?thesis using o(1,4,5) q sd b st1 by auto
qed
text \<open>A concrete analysis: ten shares proposed at 70000 with ten million won of cash.\<close>

definition sample_pipeline_env :: "string \<Rightarrow> pipeline_env" where
  "sample_pipeline_env action =
     \<lparr>pe_dm = \<lparr>env_now = PyDT 0 True, env_db_up = True, env_place = (\<lambda>_. Inr \<lparr>ores_success = False, ores_order_id = None, ores_message = []\<rparr>),
         env_pending = Inr [], env_status = (\<lambda>_. Inr None)\<rparr>,
      pe_consecutive_losses = Inr 0,
      pe_market = \<lparr>mv_price = 70000, mv_change_rate = 1, mv_daily_empty = False, mv_entry_rsi = None,
         mv_entry_macd_hist = None, mv_entry_pattern = None, mv_cross_signal = None\<rparr>,
      pe_tier1 = Some \<lparr>t1_recommendation = action, t1_confidence = Some (8 / 10), t1_target = None, t1_stop = None, t1_trailing = None\<rparr>,
      pe_tier2 = Some \<lparr>t2_approved = True, t2_action = Some action, t2_quantity = Some 10, t2_entry = Some 70000,
         t2_target = Some 73500, t2_stop = Some 68250, t2_trailing = None\<rparr>,
      pe_news_approved = True, pe_buying_power = Inr (True, 8), pe_uuid = ''u1'', pe_notes = []\<rparr>"

definition sample_pipeline_agent :: pipeline_agent where
  "sample_pipeline_agent = \<lparr>pa_strategies = [], pa_rules = no_rules, pa_market_regime = ''BULL'',
     pa_risk_manager = new_risk_manager default_settings\<rparr>"

definition sample_stock :: stock_info where
  "sample_stock = \<lparr>st_symbol = ''005930'', st_name = ''Samsung'', st_stock_id = [], st_strategy = ''STABLE_SHORT'',
     st_direction = None, st_trigger = [], st_market = ''KRX'', st_buying_power = None\<rparr>"

definition sample_portfolio :: portfolio where
  "sample_portfolio = empty_portfolio\<lparr>pf_cash := 10000000, pf_total_asset := 10000000,
     pf_holding_symbols := [''005930''], pf_holding_quantities := [(''005930'', 7)]\<rparr>"

definition sample_pipeline_state :: pipeline_state where
  "sample_pipeline_state = \<lparr>ps_cfg = default_settings, ps_dm = fresh_dm, ps_detector = new_detector, ps_ledger = None\<rparr>"

definition sample_order :: "order_side \<Rightarrow> int \<Rightarrow> order_request" where
  "sample_order side qty = \<lparr>or_symbol = ''005930'', or_market = KRX, or_side = side, or_type = LIMIT,
     or_session = REGULAR, or_quantity = qty, or_price = Some 70000\<rparr>"

definition picked_signal :: "signal_action \<Rightarrow> trade_signal" where
  "picked_signal action = direct_signal sample_pipeline_agent (sample_pipeline_env (action_value action)) sample_stock
     (the (pe_tier1 (sample_pipeline_env (action_value action)))) (the (pe_tier2 (sample_pipeline_env (action_value action))))"

lemma sample_norm: "normalize_krx_symbol ''005930'' = ''005930''"
  by (simp add: normalize_krx_symbol_def prefixed_code_def strip_def is_space_def is_digit_def)

lemma sample_tier1: 
  "a = BUY \<or> a = SELL \<Longrightarrow> tier1_stage default_settings sample_pipeline_agent (sample_pipeline_env (action_value a)) sample_stock None sample_portfolio =
     pe_tier1 (sample_pipeline_env (action_value a))"
  by (auto simp: tier1_stage_def loss_block_def no_cash_block_def confidence_block_def rule_min_confidence_def
      scope_params_def get_default_def reward_risk_block_def flag_set_def stop_required_block_def buying_power_block_def
      sample_pipeline_env_def sample_pipeline_agent_def sample_stock_def sample_portfolio_def empty_portfolio_def no_rules_def
      holds_def Let_def min_buy_quantity_def default_settings_def)

lemma picked_signal_simps:
  "a \<noteq> HOLD \<Longrightarrow> sig_action (picked_signal a) = a" "sig_price (picked_signal a) = Some 70000" "sig_quantity (picked_signal a) = Some 10"
  "sig_target (picked_signal a) = Some 73500" "sig_stop (picked_signal a) = Some 68250" "sig_horizon (picked_signal a) = Some ''LONG''"
  "sig_symbol (picked_signal a) = ''005930''" "sig_strategy (picked_signal a) = ''STABLE_SHORT''" "sig_market (picked_signal a) = None"
  by (cases a; simp add: picked_signal_def direct_signal_def sample_pipeline_env_def sample_pipeline_agent_def sample_stock_def
      get_default_def truthy_or_def Let_def upper_char_def horizon_of_def decide_trade_horizon_def horizon_name_def)+

lemma picked_signal_of:
  "pe_tier1 (sample_pipeline_env (action_value a)) = Some t1 \<Longrightarrow> pe_tier2 (sample_pipeline_env (action_value a)) = Some t2 \<Longrightarrow>
   signal_of sample_pipeline_agent (sample_pipeline_env (action_value a)) sample_stock t1 t2 = Some (picked_signal a)"
  by (simp add: signal_of_def picked_signal_def) (auto simp: sample_pipeline_env_def)

lemma sample_cost: "cg_approved (evaluate_cost_gate default_settings (picked_signal BUY) 70000 (Some ''LONG''))"
  by (simp add: evaluate_cost_gate_def picked_signal_simps Let_def str_or_def total_cost_bps_def slippage_bps_def min_edge_ratio_def default_settings_def upper_char_def)

lemma sample_risk:
  "risk_check (new_risk_manager default_settings) default_settings (PyDT 0 True) empty_db (picked_signal BUY) 10000000 10000000
     0 20 None ''BULL'' = (approve Passed None, default_settings)"
proof -
  let ?ef = "effective_limits_of (new_risk_manager default_settings) default_settings 20 None"
  have ef: "ef_max_daily ?ef = 0" "ef_min_qty ?ef = 1" "ef_max_order ?ef = 0" "ef_min_cash_ratio ?ef = 0" "ef_max_pos_pct ?ef = 20"
    by (simp_all add: effective_limits_of_def new_risk_manager_def default_settings_def Let_def normalize_cash_ratio_def)
  have m: "resolve_horizon_multiplier default_settings (picked_signal BUY) = 12 / 10"
    by (simp add: resolve_horizon_multiplier_def picked_signal_simps Let_def upper_char_def default_settings_def)
  have "py_int (240 / 7) = 34" by (simp add: py_int_def floor_eq_iff)
  then have vol: "check_volatility default_settings ?ef (12 / 10) 10000000 70000 68250 10 = None"
    by (simp add: check_volatility_def ef Let_def) (simp add: default_settings_def)
  have am: "check_amounts ?ef 10000000 10000000 70000 10 = approve Passed None"
    by (simp add: check_amounts_def ef)
  have rr: "\<not> poor_reward_risk (new_risk_manager default_settings) ''BULL'' 70000 73500 68250"
    by (simp add: poor_reward_risk_def rr_floor_def new_risk_manager_def)
  have en: "TRADING_ENABLED default_settings" by (simp add: default_settings_def)
  show ?thesis
    unfolding risk_check_def Let_def picked_signal_simps guard_of_empty prod.case m
    using vol rr en ef am by (simp add: picked_signal_simps)
qed

definition sample_sized :: "signal_action \<Rightarrow> int \<Rightarrow> trade_signal" where
  "sample_sized a qty = (picked_signal a)\<lparr>sig_quantity := Some qty\<rparr>"

lemma sample_request:
  "a \<noteq> HOLD \<Longrightarrow> 0 < qty \<Longrightarrow> build_order_request (sample_sized a qty) = Inr (sample_order (if a = BUY then Side_BUY else Side_SELL) qty)"
  by (cases a) (simp_all add: build_order_request_def sample_sized_def picked_signal_simps sample_order_def market_of_def
      order_side_of_def validate_order_request_def upper_char_def num_or_def)

lemma sample_submission: "sd_allowed (decide_order_submission default_settings (action_value a))"
  by (simp add: submission_allowed_iff current_order_submission_mode_def normalize_order_submission_mode_def
      default_settings_def str_or_def upper_char_def valid_submission_modes_def)

lemma sample_execute:
  assumes "a \<noteq> HOLD" and "0 < qty"
  shows "\<exists>r dm. execute_signal default_settings (pe_dm (sample_pipeline_env x)) (sample_sized a qty) [] ctx None fresh_dm = Inr (Executed r, dm) \<and>
    dm_placed dm = [sample_order (if a = BUY then Side_BUY else Side_SELL) qty]"
proof -
  let ?dm = "pe_dm (sample_pipeline_env x)" and ?s = "sample_sized a qty"
  let ?req = "sample_order (if a = BUY then Side_BUY else Side_SELL) qty"
  let ?st = "fresh_dm\<lparr>dm_placed := dm_placed fresh_dm @ [?req]\<rparr>"
  let ?ores = "\<lparr>ores_success = False, ores_order_id = None, ores_message = []\<rparr>"
  have env: "env_pending ?dm = Inr []" "\<And>q. env_place ?dm q = Inr ?ores"
    by (simp_all add: sample_pipeline_env_def)
  have pend: "find_existing_pending_buy ?dm y = None" for y by (simp add: find_existing_pending_buy_def env)
  have sig: "sig_action ?s = a" "sig_quantity ?s = Some qty" using assms by (simp_all add: sample_sized_def picked_signal_simps)
  have req: "build_order_request ?s = Inr ?req" by (rule sample_request [OF assms])
  have mode: "autonomy_mode_of (AUTONOMY_MODE default_settings) = Inr AUTONOMOUS" by (simp add: default_settings_def autonomy_mode_of_def)
  have qty: "\<not> opt_or (sig_quantity ?s) 0 \<le> 0" using assms sig by simp
  have "execute_autonomous default_settings ?dm ?s ctx None fresh_dm = Inr (after_place_order ?dm ?s ctx None ?ores ?st)"
    unfolding execute_autonomous_def Let_def sig pend req env rbind_simps
    using assms(2) by (simp add: sample_submission num_or_def)
  then have e: "execute_signal default_settings ?dm ?s [] ctx None fresh_dm =
     Inr (Executed (fst (after_place_order ?dm ?s ctx None ?ores ?st)), snd (after_place_order ?dm ?s ctx None ?ores ?st))"
    by (simp add: execute_signal_def mode case_prod_beta)
  have "dm_placed (snd (after_place_order ?dm ?s ctx None ?ores ?st)) = dm_placed ?st"
    by (simp add: after_place_order_def Let_def)
  then show ?thesis using e by (simp add: fresh_dm_def)
qed

lemma sample_power: "apply_buy_execution_policy default_settings (sample_sized BUY 8) p = sample_sized BUY 8"
  by (simp add: apply_buy_execution_policy_def Let_def sample_sized_def picked_signal_simps default_settings_def str_or_def upper_char_def)

lemma sample_buy_stage:
  "\<exists>r st'. order_stage sample_pipeline_agent (sample_pipeline_env x) sample_stock None sample_portfolio t1 (picked_signal BUY)
      (sample_pipeline_state\<lparr>ps_detector := d\<rparr>) = Inr (r, st') \<and> dm_placed (ps_dm st') = [sample_order Side_BUY 8]"
proof -
  let ?env = "sample_pipeline_env x" and ?st = "sample_pipeline_state\<lparr>ps_detector := d\<rparr>"
  obtain r dm where e: "execute_signal default_settings (pe_dm ?env) (sample_sized BUY 8) []
      (pipeline_context sample_pipeline_agent ?env sample_stock t1 (sample_sized BUY 8)) None fresh_dm = Inr (Executed r, dm)"
    "dm_placed dm = [sample_order Side_BUY 8]"
    using sample_execute [of BUY 8 x "pipeline_context sample_pipeline_agent ?env sample_stock t1 (sample_sized BUY 8)"] by auto
  have sell: "sell_stage sample_portfolio sample_stock (picked_signal BUY) = Some (picked_signal BUY)"
    by (simp add: sell_stage_def picked_signal_simps)
  have risk: "risk_check (pa_risk_manager sample_pipeline_agent) (ps_cfg ?st) (env_now (pe_dm ?env))
      (dm_db (ps_dm ?st)) (picked_signal BUY) (pf_cash sample_portfolio) (pf_total_asset sample_portfolio)
      (pf_today_trades sample_portfolio) 20 None (pa_market_regime sample_pipeline_agent) = (approve Passed None, default_settings)"
    using sample_risk by (simp add: sample_pipeline_agent_def sample_pipeline_state_def sample_pipeline_env_def sample_portfolio_def
        empty_portfolio_def fresh_dm_def)
  have m: "market_of (st_market sample_stock) = Inr KRX" by (simp add: sample_stock_def market_of_def)
  have q: "min_buy_quantity default_settings None = 1" by (simp add: min_buy_quantity_def default_settings_def)
  have pw: "pe_buying_power ?env = Inr (True, 8)" by (simp add: sample_pipeline_env_def)
  have prep: "\<exists>d. prepare_buy default_settings ?env sample_stock None (picked_signal BUY) None = Inr (Some (sample_sized BUY 8), d, None)"
    unfolding prepare_buy_def m pw rbind_simps buying_power_stage_def prod.case q
    by (simp add: picked_signal_simps sample_sized_def [symmetric] sample_power reserve_buy_cash_for_cycle_def Let_def)
  then obtain rid where d: "prepare_buy default_settings ?env sample_stock None (picked_signal BUY) None = Inr (Some (sample_sized BUY 8), rid, None)" ..
  have led: "ps_ledger ?st = None" "ps_dm ?st = fresh_dm" "ps_cfg ?st = default_settings"
    "ps_ledger sample_pipeline_state = None" "ps_dm sample_pipeline_state = fresh_dm" "ps_cfg sample_pipeline_state = default_settings"
    by (simp_all add: sample_pipeline_state_def)
  show ?thesis
    unfolding order_stage_def sell option.case Let_def risk prod.case
    by (simp add: picked_signal_simps d led submit_signal_def e rbind_def)
qed

lemma sample_sell_stage:
  "\<exists>r st'. order_stage sample_pipeline_agent (sample_pipeline_env x) sample_stock None sample_portfolio t1 (picked_signal SELL)
      (sample_pipeline_state\<lparr>ps_detector := d\<rparr>) = Inr (r, st') \<and> dm_placed (ps_dm st') = [sample_order Side_SELL 7]"
proof -
  let ?env = "sample_pipeline_env x" and ?st = "sample_pipeline_state\<lparr>ps_detector := d\<rparr>"
  obtain r dm where e: "execute_signal default_settings (pe_dm ?env) (sample_sized SELL 7) []
      (pipeline_context sample_pipeline_agent ?env sample_stock t1 (sample_sized SELL 7)) None fresh_dm = Inr (Executed r, dm)"
    "dm_placed dm = [sample_order Side_SELL 7]"
    using sample_execute [of SELL 7 x "pipeline_context sample_pipeline_agent ?env sample_stock t1 (sample_sized SELL 7)"] by auto
  have "resolve_sell_quantity sample_portfolio (picked_signal SELL) = 7"
    by (simp add: resolve_sell_quantity_def picked_signal_simps sample_norm sample_portfolio_def get_default_def)
  moreover have "holds sample_portfolio (st_symbol sample_stock)"
    by (simp add: holds_def sample_portfolio_def sample_stock_def)
  ultimately have sell: "sell_stage sample_portfolio sample_stock (picked_signal SELL) = Some (sample_sized SELL 7)"
    by (simp add: sell_stage_def picked_signal_simps sample_sized_def num_or_def)
  have act: "sig_action (sample_sized SELL q) = SELL" for q by (simp add: sample_sized_def picked_signal_simps)
  have led: "ps_ledger ?st = None" "ps_dm ?st = fresh_dm" "ps_cfg ?st = default_settings"
    "ps_ledger sample_pipeline_state = None" "ps_dm sample_pipeline_state = fresh_dm" "ps_cfg sample_pipeline_state = default_settings"
    by (simp_all add: sample_pipeline_state_def)
  have risk: "risk_check rm cfg now db (sample_sized SELL q) c b n p None regime = (approve Sell_order None, cfg)" for rm cfg now db q c b n p regime
    by (simp add: risk_check_def act)
  show ?thesis
    unfolding order_stage_def sell option.case Let_def risk prod.case
    by (simp add: act led submit_signal_def e rbind_def)
qed

lemma sample_analysis_run:
  assumes "a = BUY \<or> a = SELL"
  shows "\<exists>r st'. analyze_and_trade sample_pipeline_agent (sample_pipeline_env (action_value a)) sample_stock None sample_portfolio
      sample_pipeline_state = Inr (r, st') \<and>
    dm_placed (ps_dm st') = [if a = BUY then sample_order Side_BUY 8 else sample_order Side_SELL 7]"
proof -
  let ?env = "sample_pipeline_env (action_value a)"
  obtain t1 t2 where t: "pe_tier1 ?env = Some t1" "pe_tier2 ?env = Some t2" "t2_approved t2" by (simp add: sample_pipeline_env_def)
  have tier1: "tier1_stage (ps_cfg sample_pipeline_state) sample_pipeline_agent ?env sample_stock None sample_portfolio = Some t1"
    using sample_tier1 [OF assms] t(1) by (simp add: sample_pipeline_state_def)
  have gates: "cg_approved (evaluate_cost_gate (ps_cfg sample_pipeline_state) (picked_signal BUY) (mv_price (pe_market ?env)) (sig_horizon (picked_signal BUY)))"
    "pe_news_approved ?env"
    using sample_cost by (simp_all add: sample_pipeline_state_def sample_pipeline_env_def picked_signal_simps)
  have act: "sig_action (picked_signal a) = a" using assms by (auto simp: picked_signal_simps)
  show ?thesis
    unfolding analyze_and_trade_def tier1 option.case t(2) picked_signal_of [OF t(1,2)] Let_def act
    using assms gates t(3) sample_buy_stage sample_sell_stage by auto
qed

lemma sample_fresh: "dm_placed (ps_dm sample_pipeline_state) = []" "ps_cfg sample_pipeline_state = default_settings"
  by (simp_all add: sample_pipeline_state_def fresh_dm_def)

lemma pipeline_buy_passes_every_gate_witness:
  "\<exists>r st' risk. analyze_and_trade sample_pipeline_agent (sample_pipeline_env ''BUY'') sample_stock None sample_portfolio
      sample_pipeline_state = Inr (r, st') \<and> dm_placed (ps_dm st') = [sample_order Side_BUY 8] \<and>
    or_quantity (sample_order Side_BUY 8) \<le> (8 :: int) \<and>
    risk_of sample_pipeline_agent (sample_pipeline_env ''BUY'') None sample_portfolio sample_pipeline_state (picked_signal BUY)
      = (risk, default_settings) \<and> rk_approved risk"
proof -
  obtain r st' where run: "analyze_and_trade sample_pipeline_agent (sample_pipeline_env ''BUY'') sample_stock None sample_portfolio
      sample_pipeline_state = Inr (r, st')" "dm_placed (ps_dm st') = [sample_order Side_BUY 8]"
    using sample_analysis_run [of BUY] by auto
  obtain t1 t2 s risk where g: "pe_tier1 (sample_pipeline_env ''BUY'') = Some t1" "pe_tier2 (sample_pipeline_env ''BUY'') = Some t2"
    "signal_of sample_pipeline_agent (sample_pipeline_env ''BUY'') sample_stock t1 t2 = Some s"
    "risk_of sample_pipeline_agent (sample_pipeline_env ''BUY'') None sample_portfolio sample_pipeline_state s = (risk, default_settings)"
    "rk_approved risk"
    using pipeline_buy_passes_every_gate [OF run(1)] run(2) unfolding sample_fresh by (auto simp: sample_order_def)
  have "s = picked_signal BUY" using picked_signal_of [of BUY t1 t2] g(1-3) by simp
  then show ?thesis using run g(4,5) by (auto simp: sample_order_def)
qed

lemma pipeline_sell_is_whole_holding_witness:
  "\<exists>r st'. analyze_and_trade sample_pipeline_agent (sample_pipeline_env ''SELL'') sample_stock None sample_portfolio
      sample_pipeline_state = Inr (r, st') \<and> length (dm_placed (ps_dm st')) = 1 \<and> holds sample_portfolio ''005930''"
proof -
  obtain r st' where run: "analyze_and_trade sample_pipeline_agent (sample_pipeline_env ''SELL'') sample_stock None sample_portfolio
      sample_pipeline_state = Inr (r, st')" "dm_placed (ps_dm st') = [sample_order Side_SELL 7]"
    using sample_analysis_run [of SELL] by auto
  have "st_symbol sample_stock = ''005930''" by (simp add: sample_stock_def)
  then show ?thesis using pipeline_sell_is_whole_holding [OF run(1)] run unfolding sample_fresh by (auto simp: sample_order_def)
qed

end
