(* ===== verification/Cycle.thy ===== *)
theory Cycle
  imports Pipeline
begin

text \<open>
  The agent at work during the session (\<open>agent/trading_agent.py\<close>): the trading cycle (snapshot, scan,
  one task per selected candidate over a shared cash ledger, the counters it reports), the handler of
  a price or volume event and the handler of a news item, each down to the order.

  The candidates' tasks run one after the other, as they do under the analysis semaphore when one call
  of the model is allowed at a time. The scan, the limits proposed by the model, the broker's answers
  and the text of the prompts' context are arguments; a context is \<open>unit\<close> or the exception that
  building it raised. \<open>_symbol_names\<close> and the session of the model are left out, they reach no decision.
\<close>

section \<open>An analysis with its exceptions\<close>

text \<open>
  \<open>analyze_and_trade\<close> gives the state of a run that returns. The two definitions below give the state
  of one that raises: the watched levels are set, the risk check may have switched trading off, the
  cash is reserved and stays so, and the order was handed to the broker if it could be built.
\<close>

definition order_stage_raised ::
  "pipeline_agent \<Rightarrow> pipeline_env \<Rightarrow> stock_info \<Rightarrow> dynamic_limits option \<Rightarrow> portfolio \<Rightarrow> trade_signal \<Rightarrow>
     pipeline_state \<Rightarrow> pipeline_state" where
  "order_stage_raised ag env si dl pf signal st =
     (case sell_stage pf si signal of
        None \<Rightarrow> st
      | Some s1 \<Rightarrow>
          (let (risk, cfg) = risk_of ag env dl pf st s1;
               st1 = st\<lparr>ps_cfg := cfg\<rparr>;
               s2 = (if opt_or (rk_adjusted risk) 0 \<noteq> 0 then s1\<lparr>sig_quantity := rk_adjusted risk\<rparr> else s1)
           in if sig_action s2 = BUY then
                (case prepare_buy cfg env si dl s2 (ps_ledger st1) of
                   Inr (Some s3, _, led) \<Rightarrow> st1\<lparr>ps_ledger := led, ps_dm := attempted_order cfg s3 (ps_dm st1)\<rparr>
                 | _ \<Rightarrow> st1)
              else st1\<lparr>ps_dm := attempted_order cfg s2 (ps_dm st1)\<rparr>))"

definition watch_levels ::
  "pipeline_env \<Rightarrow> stock_info \<Rightarrow> tier1_answer \<Rightarrow> tier2_answer \<Rightarrow> trade_signal \<Rightarrow> pipeline_state \<Rightarrow> pipeline_state" where
  "watch_levels env si t1 t2 signal st =
     st\<lparr>ps_detector := apply_trade_thresholds (st_symbol si)
          (tier_levels (t1_stop t1) (t1_target t1) (t1_trailing t1))
          (tier_levels (t2_stop t2) (t2_target t2) (t2_trailing t2))
          (mv_price (pe_market env)) (ostr (sig_horizon signal)) (ps_detector st)\<rparr>"

definition analysis_raised ::
  "pipeline_agent \<Rightarrow> pipeline_env \<Rightarrow> stock_info \<Rightarrow> dynamic_limits option \<Rightarrow> portfolio \<Rightarrow> pipeline_state \<Rightarrow> pipeline_state" where
  "analysis_raised ag env si dl pf st =
     (case (tier1_stage (ps_cfg st) ag env si dl pf, pe_tier2 env) of
        (Some t1, Some t2) \<Rightarrow>
          (case signal_of ag env si t1 t2 of
             None \<Rightarrow> st
           | Some signal \<Rightarrow> order_stage_raised ag env si dl pf signal (watch_levels env si t1 t2 signal st))
      | _ \<Rightarrow> st)"

definition run_analysis ::
  "pipeline_agent \<Rightarrow> pipeline_env \<Rightarrow> stock_info \<Rightarrow> dynamic_limits option \<Rightarrow> portfolio \<Rightarrow> pipeline_state \<Rightarrow>
     pipeline_result res \<times> pipeline_state" where
  "run_analysis ag env si dl pf st =
     (case analyze_and_trade ag env si dl pf st of
        Inl e \<Rightarrow> (Inl e, analysis_raised ag env si dl pf st)
      | Inr (r, st') \<Rightarrow> (Inr r, st'))"

section \<open>The state of the agent at work\<close>

record cycle_results =
  cr_scanned :: nat
  cr_analyzed :: nat
  cr_signals :: nat
  cr_executed :: nat
  cr_selected :: "(string \<times> string) list"

record agent_world =
  aw_pipe :: pipeline_state
  aw_agent :: agent_state
  aw_brain :: pipeline_agent
  aw_daily_start :: real
  aw_last_cycle :: "pydt option"
  aw_started :: nat
  aw_ended :: "cycle_results list"
  aw_subscribed :: "string list"

section \<open>The trading cycle\<close>

text \<open>A candidate of the scan, with what the program will hear about it: the first answer on the buying
  power and the inputs of its analysis.\<close>

record candidate =
  cd_stock :: stock_info
  cd_monitoring :: "(json_num \<times> json_num \<times> json_num) option"
  cd_power :: "(bool \<times> int) res"
  cd_env :: pipeline_env

record scan_answer =
  sa_selected :: "candidate list"
  sa_regime :: string

record cycle_env =
  ce_now :: pydt
  ce_limits :: "dynamic_limits option"
  ce_balance :: "account_balance res"
  ce_holdings :: "holding_info list res"
  ce_today_trades :: int
  ce_scan :: "scan_answer res"
  ce_context :: "unit res"

datatype task_outcome = Task_skipped | Task_done pipeline_result | Task_raised py_exn

text \<open>The snapshot the handlers work on: a \<open>RuntimeError\<close> (an invalid balance) ends them, any other
  exception leaves the empty default.\<close>

definition snapshot_or_default :: "portfolio res \<Rightarrow> portfolio option" where
  "snapshot_or_default answer =
     (case answer of
        Inr pf \<Rightarrow> Some pf
      | Inl e \<Rightarrow> if exn_kind e = RuntimeError then None else Some empty_portfolio)"

text \<open>\<open>snapshot.get("min_holding_price", 0)\<close>: no snapshot has the key.\<close>

definition min_holding_price :: "portfolio \<Rightarrow> real" where
  "min_holding_price pf = 0"

definition buy_blocked :: "portfolio \<Rightarrow> bool" where
  "buy_blocked pf \<longleftrightarrow> 0 < min_holding_price pf \<and> pf_cash pf < min_holding_price pf"

text \<open>\<open>_analyze_with_limit\<close>: a symbol that is neither held nor to be sold needs buying power first.\<close>

definition needs_power :: "portfolio \<Rightarrow> stock_info \<Rightarrow> bool" where
  "needs_power pf si \<longleftrightarrow> get_default (st_direction si) ''BUY'' \<noteq> ''SELL'' \<and> \<not> holds pf (st_symbol si)"

definition finish_task :: "pipeline_result res \<times> pipeline_state \<Rightarrow> task_outcome \<times> pipeline_state" where
  "finish_task p = (case fst p of Inl e \<Rightarrow> Task_raised e | Inr r \<Rightarrow> Task_done r, snd p)"

definition analyze_with_limit ::
  "pipeline_agent \<Rightarrow> dynamic_limits option \<Rightarrow> portfolio \<Rightarrow> candidate \<Rightarrow> pipeline_state \<Rightarrow> task_outcome \<times> pipeline_state" where
  "analyze_with_limit ag dl pf c st =
     (let si = cd_stock c
      in if \<not> needs_power pf si then finish_task (run_analysis ag (cd_env c) si dl pf st)
         else if buy_blocked pf then (Task_skipped, st)
         else
           case cd_power c of
             Inl e \<Rightarrow> (Task_raised e, st)
           | Inr (ok, max_qty) \<Rightarrow>
               if ok \<and> max_qty < min_buy_quantity (ps_cfg st) dl then (Task_skipped, st)
               else finish_task (run_analysis ag (cd_env c) (si\<lparr>st_buying_power := Some (ok, max_qty)\<rparr>) dl pf st))"

fun run_tasks ::
  "pipeline_agent \<Rightarrow> dynamic_limits option \<Rightarrow> portfolio \<Rightarrow> candidate list \<Rightarrow> pipeline_state \<Rightarrow>
     task_outcome list \<times> pipeline_state" where
  "run_tasks ag dl pf [] st = ([], st)"
| "run_tasks ag dl pf (c # cs) st =
     (let (out, st') = analyze_with_limit ag dl pf c st; (outs, st'') = run_tasks ag dl pf cs st'
      in (out # outs, st''))"

text \<open>The counters: every task that returned counts as analysed, one that was skipped included.\<close>

definition task_signal :: "task_outcome \<Rightarrow> bool" where
  "task_signal t = (case t of Task_done r \<Rightarrow> pr_signal r | _ \<Rightarrow> False)"

definition task_executed :: "task_outcome \<Rightarrow> bool" where
  "task_executed t = (case t of Task_done r \<Rightarrow> pr_executed r | _ \<Rightarrow> False)"

definition task_returned :: "task_outcome \<Rightarrow> bool" where
  "task_returned t = (case t of Task_raised e \<Rightarrow> False | _ \<Rightarrow> True)"

definition no_results :: cycle_results where
  "no_results = \<lparr>cr_scanned = 0, cr_analyzed = 0, cr_signals = 0, cr_executed = 0, cr_selected = []\<rparr>"

definition count_results :: "task_outcome list \<Rightarrow> cycle_results \<Rightarrow> cycle_results" where
  "count_results outs r = r\<lparr>cr_analyzed := length (filter task_returned outs),
     cr_signals := length (filter task_signal outs), cr_executed := length (filter task_executed outs)\<rparr>"

definition selected_symbols :: "candidate list \<Rightarrow> (string \<times> string) list" where
  "selected_symbols cs = map (\<lambda>c. (st_symbol (cd_stock c), st_market (cd_stock c)))
     (filter (\<lambda>c. st_symbol (cd_stock c) \<noteq> []) cs)"

definition scan_candidates :: "candidate list \<Rightarrow> scan_candidate list" where
  "scan_candidates = map (\<lambda>c. \<lparr>sc_symbol = st_symbol (cd_stock c), sc_monitoring = cd_monitoring c\<rparr>)"

text \<open>The part of the cycle inside the \<open>try\<close>, once the snapshot is there: the results so far, the state,
  and whether the cycle returns at once (nothing selected).\<close>

definition cycle_body ::
  "cycle_env \<Rightarrow> portfolio \<Rightarrow> agent_world \<Rightarrow> bool \<times> cycle_results \<times> agent_world" where
  "cycle_body env pf w =
     (case ce_scan env of
        Inl e \<Rightarrow> (False, no_results, w)
      | Inr scan \<Rightarrow>
          (let cs = sa_selected scan; found = no_results\<lparr>cr_scanned := length cs\<rparr>
           in if cs = [] then (True, found, w)
              else
                let w1 = w\<lparr>aw_brain := (aw_brain w)\<lparr>pa_market_regime := sa_regime scan\<rparr>\<rparr>
                in case ce_context env of
                     Inl e \<Rightarrow> (False, found, w1)
                   | Inr _ \<Rightarrow>
                       (let chosen = found\<lparr>cr_selected := selected_symbols cs\<rparr>;
                            (set, detector) = apply_scan_thresholds (scan_candidates cs) (ps_detector (aw_pipe w1));
                            st = (aw_pipe w1)\<lparr>ps_detector := detector\<rparr>
                        in case set of
                             Inl e \<Rightarrow> (False, chosen, w1\<lparr>aw_pipe := st\<rparr>)
                           | Inr _ \<Rightarrow>
                               (let (outs, st') = run_tasks (aw_brain w1) (ce_limits env) pf cs
                                      (st\<lparr>ps_ledger := Some (new_ledger (pf_cash pf))\<rparr>)
                                in (False, count_results outs chosen, w1\<lparr>aw_pipe := st'\<lparr>ps_ledger := None\<rparr>\<rparr>)))))"

definition cycle_snapshot :: "cycle_env \<Rightarrow> portfolio option" where
  "cycle_snapshot env =
     snapshot_or_default (build_portfolio_snapshot (ce_balance env) (ce_holdings env) (ce_today_trades env))"

definition note_start_balance :: "portfolio \<Rightarrow> agent_world \<Rightarrow> agent_world" where
  "note_start_balance pf w =
     (if aw_daily_start w = 0 \<and> 0 < pf_total_asset pf then w\<lparr>aw_daily_start := pf_total_asset pf\<rparr> else w)"

text \<open>\<open>_run_trading_cycle\<close>: the two early returns announce no end of the cycle.\<close>

definition run_trading_cycle :: "cycle_env \<Rightarrow> agent_world \<Rightarrow> cycle_results \<times> agent_world" where
  "run_trading_cycle env w =
     (let w0 = w\<lparr>aw_started := aw_started w + 1\<rparr>
      in case cycle_snapshot env of
           None \<Rightarrow> (no_results, w0\<lparr>aw_last_cycle := Some (ce_now env)\<rparr>)
         | Some pf \<Rightarrow>
                (let (early, results, w2) = cycle_body env pf (note_start_balance pf w0);
                  w3 = w2\<lparr>aw_last_cycle := Some (ce_now env)\<rparr>
              in (results, if early then w3 else w3\<lparr>aw_ended := aw_ended w3 @ [results]\<rparr>)))"

section \<open>The real time event\<close>

record event_env =
  ev_reconfiguring :: bool
  ev_trading_hours :: bool
  ev_now :: pydt
  ev_ts :: real
  ev_symbol :: string
  ev_name :: string
  ev_price :: real
  ev_change_rate :: real
  ev_type :: string
  ev_limits :: "dynamic_limits option"
  ev_balance :: "account_balance res"
  ev_holdings :: "holding_info list res"
  ev_today_trades :: int
  ev_context :: "unit res"
  ev_pipe :: pipeline_env

text \<open>The name is the event's or the cached one.\<close>

definition event_stock :: "string \<Rightarrow> string \<Rightarrow> string \<Rightarrow> string \<Rightarrow> stock_info" where
  "event_stock symbol name strategy trigger =
     \<lparr>st_symbol = symbol, st_name = name, st_stock_id = [], st_strategy = strategy, st_direction = None,
      st_trigger = trigger, st_market = ''KRX'', st_buying_power = None\<rparr>"

text \<open>Outside a cycle there is no ledger.\<close>

definition run_without_ledger ::
  "pipeline_agent \<Rightarrow> pipeline_env \<Rightarrow> stock_info \<Rightarrow> dynamic_limits option \<Rightarrow> portfolio \<Rightarrow> pipeline_state \<Rightarrow>
     pipeline_result res \<times> pipeline_state" where
  "run_without_ledger ag env si dl pf st =
     (let (r, st') = run_analysis ag env si dl pf (st\<lparr>ps_ledger := None\<rparr>)
      in (r, st'\<lparr>ps_ledger := ps_ledger st\<rparr>))"

definition event_strategy :: "real \<Rightarrow> string" where
  "event_strategy change_rate = (if 5 \<le> \<bar>change_rate\<bar> then ''AGGRESSIVE_SHORT'' else ''STABLE_SHORT'')"

definition event_analysis :: "event_env \<Rightarrow> agent_world \<Rightarrow> agent_world" where
  "event_analysis ev w =
     (let symbol = normalize_krx_symbol (ev_symbol ev)
      in case ev_context ev of
           Inl e \<Rightarrow> w
         | Inr _ \<Rightarrow>
             (case snapshot_or_default (build_portfolio_snapshot (ev_balance ev) (ev_holdings ev) (ev_today_trades ev)) of
                None \<Rightarrow> w
              | Some pf \<Rightarrow>
                  if \<not> holds pf symbol \<and> 0 < ev_price ev \<and> pf_cash pf < ev_price ev then w
                  else
                    let (r, st) = run_without_ledger (aw_brain w) (ev_pipe ev)
                          (event_stock symbol (ev_name ev) (event_strategy (ev_change_rate ev)) (ev_type ev)) (ev_limits ev) pf (aw_pipe w);
                        executed = (case r of Inr res \<Rightarrow> pr_executed res | Inl _ \<Rightarrow> False)
                    in w\<lparr>aw_pipe := st,
                         aw_subscribed := (if executed then aw_subscribed w @ [symbol] else aw_subscribed w)\<rparr>))"

definition on_market_event :: "event_env \<Rightarrow> agent_world \<Rightarrow> agent_world" where
  "on_market_event ev w =
     (let (ok, ag) = market_event_begin (ps_cfg (aw_pipe w)) (ev_reconfiguring ev) (ev_trading_hours ev) (ev_now ev)
            (ev_ts ev) (ev_symbol ev) (aw_agent w)
      in if \<not> ok then w
         else let w1 = event_analysis ev (w\<lparr>aw_agent := ag\<rparr>)
              in w1\<lparr>aw_agent := market_event_end (ev_symbol ev) (aw_agent w1)\<rparr>)"

section \<open>The news item\<close>

record news_env =
  nw_reconfiguring :: bool
  nw_trading_hours :: bool
  nw_ts :: real
  nw_symbols :: "string list"
  nw_symbol :: string
  nw_type :: string
  nw_name :: "string \<Rightarrow> string"
  nw_cooldown_setting :: int
  nw_balance :: "account_balance res"
  nw_holdings :: "holding_info list res"
  nw_today_trades :: int
  nw_context :: "unit res"
  nw_pipe :: "string \<Rightarrow> pipeline_env"

definition news_symbols :: "news_env \<Rightarrow> string list" where
  "news_symbols nw =
     (let listed = filter (\<lambda>s. s \<noteq> []) (map normalize_krx_symbol (nw_symbols nw));
          single = normalize_krx_symbol (nw_symbol nw)
      in if listed \<noteq> [] then listed else if single \<noteq> [] then [single] else [])"

definition impacted_symbols :: "news_env \<Rightarrow> portfolio \<Rightarrow> detector \<Rightarrow> string list" where
  "impacted_symbols nw pf d =
     filter (\<lambda>s. s \<in> normalize_krx_symbol ` set (pf_holding_symbols pf) \<or>
                 s \<in> normalize_krx_symbol ` set (monitored_symbols d)) (news_symbols nw)"

definition news_cooldown :: "int \<Rightarrow> real" where
  "news_cooldown setting = of_int (max (num_or setting 300) 1)"

definition news_key :: "string \<Rightarrow> string" where
  "news_key symbol = ''news:'' @ symbol"

text \<open>The guards of the loop: when they let a symbol pass, its news cooldown starts.\<close>

definition news_begin :: "real \<Rightarrow> string \<Rightarrow> real \<Rightarrow> agent_state \<Rightarrow> bool \<times> agent_state" where
  "news_begin cooldown symbol now_ts ag =
     (let last_ts = (case ag_cooldowns ag (news_key symbol) of None \<Rightarrow> 0 | Some t \<Rightarrow> t)
      in if now_ts - last_ts < cooldown \<or> symbol \<in> ag_selling ag \<or> symbol \<in> ag_analyzing ag then (False, ag)
         else (True, ag\<lparr>ag_cooldowns := (ag_cooldowns ag)(news_key symbol \<mapsto> now_ts),
                        ag_analyzing := insert symbol (ag_analyzing ag)\<rparr>))"

definition news_end :: "string \<Rightarrow> agent_state \<Rightarrow> agent_state" where
  "news_end symbol ag = ag\<lparr>ag_analyzing := ag_analyzing ag - {symbol}\<rparr>"

definition news_step :: "news_env \<Rightarrow> portfolio \<Rightarrow> string \<Rightarrow> agent_world \<Rightarrow> agent_world" where
  "news_step nw pf symbol w =
     (let (ok, ag) = news_begin (news_cooldown (nw_cooldown_setting nw)) symbol (nw_ts nw) (aw_agent w)
      in if \<not> ok then w
         else
           let (r, st) = run_without_ledger (aw_brain w) (nw_pipe nw symbol)
                 (event_stock symbol (nw_name nw symbol) ''STABLE_SHORT'' (nw_type nw)) None pf (aw_pipe w)
           in w\<lparr>aw_pipe := st, aw_agent := news_end symbol ag\<rparr>)"

definition on_news_item :: "news_env \<Rightarrow> agent_world \<Rightarrow> agent_world" where
  "on_news_item nw w =
     (if \<not> ag_running (aw_agent w) \<or> nw_reconfiguring nw \<or> \<not> nw_trading_hours nw \<or> news_symbols nw = [] then w
      else
        case build_portfolio_snapshot (nw_balance nw) (nw_holdings nw) (nw_today_trades nw) of
          Inl e \<Rightarrow> w
        | Inr pf \<Rightarrow>
            (let impacted = impacted_symbols nw pf (ps_detector (aw_pipe w))
             in if impacted = [] then w
                else case nw_context nw of
                    Inl e \<Rightarrow> w
                  | Inr _ \<Rightarrow> fold (news_step nw pf) impacted w))"

section \<open>What an analysis changes\<close>

lemma risk_check_settings:
  "risk_check rm cfg now s signal cash budget trades pct dl regime = (r, cfg') \<Longrightarrow>
     cfg' = cfg \<or> cfg' = cfg\<lparr>TRADING_ENABLED := False\<rparr>"
  by (auto simp: risk_check_def Let_def dest!: guard_switch split: if_split_asm option.split_asm prod.split_asm)

lemma risk_of_mode:
  "risk_of ag env dl pf st s = (r, cfg') \<Longrightarrow> order_reservation_mode cfg' = order_reservation_mode (ps_cfg st)"
  unfolding risk_of_def by (drule risk_check_settings) (auto simp: order_reservation_mode_def)

text \<open>The money a submitted order binds: nothing for a sell.\<close>

definition task_cost :: "confirm_task \<Rightarrow> real" where
  "task_cost t = (if ct_side t = ''BUY'' then ct_expected_price t * of_int (ct_quantity t) else 0)"

definition buy_spend :: "confirm_task list \<Rightarrow> real" where
  "buy_spend ts = sum_list (map task_cost ts)"

lemma buy_spend_simps [simp]: "buy_spend [] = 0" "buy_spend (ts @ [t]) = buy_spend ts + task_cost t"
  by (simp_all add: buy_spend_def)

definition signal_cost :: "trade_signal \<Rightarrow> real" where
  "signal_cost s = (if sig_action s = BUY then opt_or (sig_price s) 0 * of_int (opt_or (sig_quantity s) 0) else 0)"

lemma execute_signal_tasks:
  assumes "execute_signal cfg env s aid ctx cb dm = Inr (out, dm')"
  shows "(if executed_of out then \<exists>t. dm_tasks dm' = dm_tasks dm @ [t] \<and> task_cost t = signal_cost s
          else dm_tasks dm' = dm_tasks dm)"
proof -
  consider (auto) r where "execute_autonomous cfg env s ctx cb dm = Inr (r, dm')" "out = Executed r"
    | (semi) d where "dm_tasks dm' = dm_tasks dm" "out = Recommended d"
    using assms by (auto simp: execute_signal_def rbind_eq_Inr Let_def split: if_splits)
  then show ?thesis
  proof cases
    case auto
    from auto(1) show ?thesis
    proof (cases rule: execute_autonomous_cases)
      case (1 reason)
      then show ?thesis using auto(2) by (simp add: executed_of_def refusal_def publish_def)
    next
      case (2 req ores)
      have side: "(action_value (sig_action s) = ''BUY'') = (sig_action s = BUY)" by (cases "sig_action s") simp_all
      from 2(6) show ?thesis
        by (cases rule: after_place_order_cases)
          (simp_all add: auto(2) executed_of_def task_cost_def signal_cost_def side)
    qed
  qed (simp add: executed_of_def)
qed

lemma attempted_order_simps [simp]: "dm_tasks (attempted_order cfg s dm) = dm_tasks dm"
  by (simp add: attempted_order_def split: sum.splits autonomy_mode.splits prod.splits)

section \<open>The ledger covers what the cycle submits\<close>

lemma reserved_cash_reserve:
  assumes "ledger_ok l" and "uuid \<notin> known_ids l" and "rd_approved (fst (reserve uuid symbol amount quantity l))"
  shows "reserved_cash (snd (reserve uuid symbol amount quantity l)) = reserved_cash l + amount"
  using assms by (simp add: reserve_granted reserved_cash_def known_ids_def active_sum_update_fresh)

lemma reserved_cash_give_back:
  assumes "ledger_ok l" and "uuid \<notin> known_ids l" and "rd_approved (fst (reserve uuid symbol amount quantity l))"
  shows "reserved_cash (snd (release (Some uuid) (snd (reserve uuid symbol amount quantity l)))) = reserved_cash l"
proof -
  let ?l = "snd (reserve uuid symbol amount quantity l)"
  have ok: "ledger_ok ?l" by (rule ledger_ok_reserve [OF assms(1,2)])
  obtain r where r: "map_of (led_reservations ?l) uuid = Some r" "res_active r" "res_amount r = amount"
    by (simp add: reserve_granted [OF assms(3)] update_conv)
  have "uuid \<noteq> []" using assms(2) by (auto simp: known_ids_def)
  then have "release (Some uuid) ?l =
      (True, ?l\<lparr>led_reservations := AList.update uuid (r\<lparr>res_active := False\<rparr>) (led_reservations ?l)\<rparr>)"
    using r by (simp add: release_def)
  then show ?thesis
    using active_sum_release [OF ok r(1,2)] reserved_cash_reserve [OF assms] r(3) by simp
qed

lemma ledger_frame:
  "led_starting_cash (snd (reserve uuid symbol amount quantity l)) = led_starting_cash l"
  "led_starting_cash (snd (release i l)) = led_starting_cash l"
  "known_ids (snd (reserve uuid symbol amount quantity l)) \<subseteq> insert uuid (known_ids l)"
  "known_ids (snd (release i l)) = known_ids l"
  by (auto simp: reserve_def release_def Let_def known_ids_def dom_update map_of_eq_None_iff
      split: option.splits if_splits dest!: map_of_SomeD intro: rev_image_eqI)

text \<open>The state of a cycle whose reservations are enforced: what was submitted since its start is
  covered by active reservations.\<close>

definition ledger_covers :: "real \<Rightarrow> confirm_task list \<Rightarrow> string set \<Rightarrow> pipeline_state \<Rightarrow> bool" where
  "ledger_covers cash ts0 used st \<longleftrightarrow> order_reservation_mode (ps_cfg st) = ''ENFORCE'' \<and>
     (\<exists>l new. ps_ledger st = Some l \<and> ledger_ok l \<and> led_starting_cash l = cash \<and> known_ids l \<subseteq> insert [] used \<and>
        dm_tasks (ps_dm st) = ts0 @ new \<and> buy_spend new \<le> reserved_cash l)"

lemma covers_same:
  "ledger_covers cash ts0 used st \<Longrightarrow> order_reservation_mode (ps_cfg st') = order_reservation_mode (ps_cfg st) \<Longrightarrow>
     ps_ledger st' = ps_ledger st \<Longrightarrow> dm_tasks (ps_dm st') = dm_tasks (ps_dm st) \<Longrightarrow> used \<subseteq> used' \<Longrightarrow>
     ledger_covers cash ts0 used' st'"
  unfolding ledger_covers_def by (auto intro: subset_trans)

lemma covers_insert: "ledger_covers cash ts0 used st \<Longrightarrow> ledger_covers cash ts0 (insert u used) st"
  by (erule covers_same) auto

text \<open>A buy that goes on has its cost reserved under the run's identifier; one that does not left the
  ledger alone.\<close>

lemma prepare_buy_reserves:
  assumes "prepare_buy cfg env si dl s (Some l) = Inr (out, rid, led)" and "order_reservation_mode cfg = ''ENFORCE''"
    and "sig_action s = BUY"
  shows "case out of None \<Rightarrow> led = Some l
    | Some s3 \<Rightarrow> rid = Some (pe_uuid env) \<and> sig_action s3 = BUY \<and> (\<exists>symbol quantity.
        rd_approved (fst (reserve (pe_uuid env) symbol (signal_cost s3) quantity l)) \<and>
        led = Some (snd (reserve (pe_uuid env) symbol (signal_cost s3) quantity l)))"
proof -
  obtain s1 where power: "rbind (market_of (st_market si)) (\<lambda>m. buying_power_stage cfg dl (pe_buying_power env) s) = Inr s1"
    using assms(1) by (auto simp: prepare_buy_def rbind_eq_Inr)
  show ?thesis
  proof (cases s1)
    case None
    then show ?thesis using assms(1) power by (simp add: prepare_buy_def)
  next
    case (Some s2)
    have act: "sig_action s2 = BUY"
      using power Some assms(3) by (auto simp: rbind_eq_Inr buying_power_stage_def split: if_splits)
    define p where "p = apply_buy_execution_policy cfg s2 (mv_price (pe_market env))"
    have pact: "sig_action p = BUY" using act by (simp add: p_def policy_signal)
    let ?d = "reserve (pe_uuid env) (sig_symbol p) (signal_cost p) (opt_or (sig_quantity p) 0) l"
    have cost: "opt_or (sig_price p) 0 * of_int (opt_or (sig_quantity p) 0) = signal_cost p"
      using pact by (simp add: signal_cost_def)
    obtain d l' where d: "?d = (d, l')" by (cases ?d)
    have body: "(out, rid, led) = (if \<not> rd_approved d then (None, None, Some l')
        else (Some (p\<lparr>sig_reservation_id := rd_reservation_id d, sig_reserved_amount := rd_reserved_amount d\<rparr>),
              rd_reservation_id d, Some l'))"
      using assms(1,2) power Some d
      by (auto simp: prepare_buy_def p_def [symmetric] reserve_buy_cash_for_cycle_def cost Let_def split: if_splits)
    show ?thesis
    proof (cases "rd_approved d")
      case False
      then have "l' = l" using reserve_refused [of "pe_uuid env"] d by (metis fst_conv snd_conv)
      then show ?thesis using body False by simp
    next
      case True
      have id: "rd_reservation_id d = Some (pe_uuid env)"
        using d True by (auto simp: reserve_def Let_def split: if_splits)
      let ?s3 = "p\<lparr>sig_reservation_id := rd_reservation_id d, sig_reserved_amount := rd_reserved_amount d\<rparr>"
      have same: "signal_cost ?s3 = signal_cost p" "sig_action ?s3 = BUY" using pact by (simp_all add: signal_cost_def)
      have "rd_approved (fst ?d) \<and> Some l' = Some (snd ?d)" using d True by simp
      then show ?thesis using body True id same by auto
    qed
  qed
qed

lemma submit_signal_tasks:
  assumes "submit_signal ag env si t1 s res st = Inr (r, st')"
  shows "ps_cfg st' = ps_cfg st" and "pr_signal r"
    and "if pr_executed r then \<exists>t. dm_tasks (ps_dm st') = dm_tasks (ps_dm st) @ [t] \<and> task_cost t = signal_cost s
         else dm_tasks (ps_dm st') = dm_tasks (ps_dm st)"
    and "ps_ledger st' = (case (sig_action s, ps_ledger st, res) of
       (BUY, Some l, Some rid) \<Rightarrow> Some (if rid \<noteq> [] \<and> \<not> pr_executed r then snd (release (Some rid) l) else l)
     | _ \<Rightarrow> ps_ledger st)"
proof -
  obtain out dm where run: "execute_signal (ps_cfg st) (pe_dm env) s [] (pipeline_context ag env si t1 s) None (ps_dm st) = Inr (out, dm)"
    using assms by (auto simp: submit_signal_def rbind_eq_Inr)
  note body = assms [unfolded submit_signal_def run rbind_simps prod.case Let_def]
  show "ps_cfg st' = ps_cfg st" "pr_signal r" using body by auto
  show "if pr_executed r then \<exists>t. dm_tasks (ps_dm st') = dm_tasks (ps_dm st) @ [t] \<and> task_cost t = signal_cost s
         else dm_tasks (ps_dm st') = dm_tasks (ps_dm st)"
    using execute_signal_tasks [OF run] body by auto
  show "ps_ledger st' = (case (sig_action s, ps_ledger st, res) of
       (BUY, Some l, Some rid) \<Rightarrow> Some (if rid \<noteq> [] \<and> \<not> pr_executed r then snd (release (Some rid) l) else l)
     | _ \<Rightarrow> ps_ledger st)"
    using body by (auto split: signal_action.splits option.splits)
qed

lemma covers_reserved:
  assumes cov: "ledger_covers cash ts0 used st" and fresh: "u \<notin> used" "u \<noteq> []" and led: "ps_ledger st = Some l"
    and yes: "rd_approved (fst (reserve u symbol a q l))"
    and st': "ps_cfg st' = ps_cfg st" "ps_ledger st' = Some (snd (reserve u symbol a q l))"
    and tasks: "dm_tasks (ps_dm st') = dm_tasks (ps_dm st) \<or>
      (\<exists>t. dm_tasks (ps_dm st') = dm_tasks (ps_dm st) @ [t] \<and> task_cost t = a)"
  shows "ledger_covers cash ts0 (insert u used) st'"
proof -
  from cov led obtain new where l: "ledger_ok l" "led_starting_cash l = cash" "known_ids l \<subseteq> insert [] used"
    and new: "dm_tasks (ps_dm st) = ts0 @ new" "buy_spend new \<le> reserved_cash l"
    by (auto simp: ledger_covers_def)
  have u: "u \<notin> known_ids l" using l(3) fresh by blast
  have a: "0 < a" using yes by (simp add: reserve_approved_iff)
  note res = reserved_cash_reserve [OF l(1) u yes] ledger_ok_reserve [OF l(1) u]
  obtain new' where "dm_tasks (ps_dm st') = ts0 @ new'" "buy_spend new' \<le> buy_spend new + a"
    using tasks new(1) a by (metis append.assoc buy_spend_simps(2) less_eq_real_def less_add_same_cancel1)
  moreover have "known_ids (snd (reserve u symbol a q l)) \<subseteq> insert [] (insert u used)"
    using ledger_frame(3) [of u symbol a q l] l(3) by blast
  ultimately show ?thesis using cov st' l(2) new(2) res by (fastforce simp: ledger_covers_def ledger_frame)
qed

lemma covers_returned:
  assumes cov: "ledger_covers cash ts0 used st" and fresh: "u \<notin> used" "u \<noteq> []" and led: "ps_ledger st = Some l"
    and yes: "rd_approved (fst (reserve u symbol a q l))"
    and st': "ps_cfg st' = ps_cfg st" "ps_ledger st' = Some (snd (release (Some u) (snd (reserve u symbol a q l))))"
    and tasks: "dm_tasks (ps_dm st') = dm_tasks (ps_dm st)"
  shows "ledger_covers cash ts0 (insert u used) st'"
proof -
  from cov led obtain new where l: "ledger_ok l" "led_starting_cash l = cash" "known_ids l \<subseteq> insert [] used"
    and new: "dm_tasks (ps_dm st) = ts0 @ new" "buy_spend new \<le> reserved_cash l"
    by (auto simp: ledger_covers_def)
  have u: "u \<notin> known_ids l" using l(3) fresh by blast
  have "known_ids (snd (release (Some u) (snd (reserve u symbol a q l)))) \<subseteq> insert [] (insert u used)"
    using ledger_frame(3) [of u symbol a q l] l(3) unfolding ledger_frame(4) by blast
  then show ?thesis
    using cov st' l(2) new tasks reserved_cash_give_back [OF l(1) u yes]
      ledger_ok_release [OF ledger_ok_reserve [OF l(1) u]]
    by (auto simp: ledger_covers_def ledger_frame)
qed

lemma covers_risk:
  "ledger_covers cash ts0 used st \<Longrightarrow> risk_of ag env dl pf st s = (r, cfg) \<Longrightarrow>
     ledger_covers cash ts0 used (st\<lparr>ps_cfg := cfg\<rparr>)"
  by (rule covers_same) (auto dest: risk_of_mode)

lemma covers_order_stage:
  assumes cov: "ledger_covers cash ts0 used st" and fresh: "pe_uuid env \<notin> used" "pe_uuid env \<noteq> []"
    and run: "order_stage ag env si dl pf t1 s st = Inr (r, st')"
  shows "ledger_covers cash ts0 (insert (pe_uuid env) used) st'"
proof (cases "sell_stage pf si s")
  case None
  then show ?thesis using run covers_insert [OF cov] by (simp add: order_stage_def)
next
  case (Some s1)
  obtain risk cfg where risk: "risk_of ag env dl pf st s1 = (risk, cfg)" by (meson surj_pair)
  let ?st1 = "st\<lparr>ps_cfg := cfg\<rparr>"
  note cov1 = covers_risk [OF cov risk]
  have mode: "order_reservation_mode cfg = ''ENFORCE''" using cov1 by (simp add: ledger_covers_def)
  define s2 where "s2 = (if opt_or (rk_adjusted risk) 0 \<noteq> 0 then s1\<lparr>sig_quantity := rk_adjusted risk\<rparr> else s1)"
  obtain l where led: "ps_ledger st = Some l" using cov by (auto simp: ledger_covers_def)
  note body = run [unfolded order_stage_def Some option.case risk [unfolded risk_of_def] prod.case Let_def
      s2_def [symmetric] pipeline_state.simps]
  consider (refused) "st' = ?st1" | (buy) out rid led' where "sig_action s2 = BUY" "prepare_buy cfg env si dl s2 (Some l) = Inr (out, rid, led')"
      "(case out of None \<Rightarrow> Inr (signal_only, ?st1\<lparr>ps_ledger := led'\<rparr>)
        | Some s \<Rightarrow> submit_signal ag env si t1 s rid (?st1\<lparr>ps_ledger := led'\<rparr>)) = Inr (r, st')"
    | (other) "sig_action s2 \<noteq> BUY" "submit_signal ag env si t1 s2 None ?st1 = Inr (r, st')"
    using body led by (auto simp: rbind_eq_Inr split: if_splits)
  then show ?thesis
  proof cases
    case refused
    then show ?thesis using covers_insert [OF cov1] by simp
  next
    case buy
    note prep = prepare_buy_reserves [OF buy(2) mode buy(1)]
    show ?thesis
    proof (cases out)
      case None
      then show ?thesis using buy(3) prep led by (intro covers_same [OF cov1]) auto
    next
      case (Some s3)
      with prep obtain symbol q where rid: "rid = Some (pe_uuid env)" and act: "sig_action s3 = BUY"
        and yes: "rd_approved (fst (reserve (pe_uuid env) symbol (signal_cost s3) q l))"
        and led': "led' = Some (snd (reserve (pe_uuid env) symbol (signal_cost s3) q l))" by auto
      have sub: "submit_signal ag env si t1 s3 (Some (pe_uuid env)) (?st1\<lparr>ps_ledger := led'\<rparr>) = Inr (r, st')"
        using buy(3) Some rid by simp
      note sub' = submit_signal_tasks [OF sub, unfolded led' act pipeline_state.simps signal_action.case option.case prod.case]
      have led1: "ps_ledger ?st1 = Some l" using led by simp
      show ?thesis
      proof (cases "pr_executed r")
        case True
        then show ?thesis using sub' fresh(2)
          by (intro covers_reserved [OF cov1 fresh led1 yes]) auto
      next
        case False
        then show ?thesis using sub' fresh(2)
          by (intro covers_returned [OF cov1 fresh led1 yes]) auto
      qed
    qed
  next
    case other
    note sub' = submit_signal_tasks [OF other(2)]
    from cov1 obtain l new where l: "ps_ledger ?st1 = Some l" "ledger_ok l" "led_starting_cash l = cash" "known_ids l \<subseteq> insert [] used"
      and new: "dm_tasks (ps_dm ?st1) = ts0 @ new" "buy_spend new \<le> reserved_cash l"
      by (auto simp: ledger_covers_def)
    have "ps_ledger st' = Some l" using sub'(4) l(1) other(1) by (cases "sig_action s2") simp_all
    moreover obtain new' where "dm_tasks (ps_dm st') = ts0 @ new'" "buy_spend new' = buy_spend new"
      using sub'(3) new(1) other(1) by (cases "pr_executed r") (auto simp: signal_cost_def)
    ultimately show ?thesis using l new(2) mode sub'(1) by (auto simp: ledger_covers_def)
  qed
qed

lemma covers_order_raised:
  assumes cov: "ledger_covers cash ts0 used st" and fresh: "pe_uuid env \<notin> used" "pe_uuid env \<noteq> []"
  shows "ledger_covers cash ts0 (insert (pe_uuid env) used) (order_stage_raised ag env si dl pf s st)"
proof (cases "sell_stage pf si s")
  case None
  then show ?thesis using covers_insert [OF cov] by (simp add: order_stage_raised_def)
next
  case (Some s1)
  obtain risk cfg where risk: "risk_of ag env dl pf st s1 = (risk, cfg)" by (meson surj_pair)
  let ?st1 = "st\<lparr>ps_cfg := cfg\<rparr>"
  note cov1 = covers_risk [OF cov risk]
  have mode: "order_reservation_mode cfg = ''ENFORCE''" using cov1 by (simp add: ledger_covers_def)
  define s2 where "s2 = (if opt_or (rk_adjusted risk) 0 \<noteq> 0 then s1\<lparr>sig_quantity := rk_adjusted risk\<rparr> else s1)"
  obtain l where led: "ps_ledger st = Some l" using cov by (auto simp: ledger_covers_def)
  have body: "order_stage_raised ag env si dl pf s st =
      (if sig_action s2 = BUY then
         (case prepare_buy cfg env si dl s2 (Some l) of
            Inr (Some s3, _, led) \<Rightarrow> ?st1\<lparr>ps_ledger := led, ps_dm := attempted_order cfg s3 (ps_dm ?st1)\<rparr>
          | _ \<Rightarrow> ?st1)
       else ?st1\<lparr>ps_dm := attempted_order cfg s2 (ps_dm ?st1)\<rparr>)"
    by (simp add: order_stage_raised_def Some risk s2_def [symmetric] led Let_def)
  show ?thesis
  proof (cases "\<exists>s3 rid led'. sig_action s2 = BUY \<and> prepare_buy cfg env si dl s2 (Some l) = Inr (Some s3, rid, led')")
    case True
    then obtain s3 rid led' where act: "sig_action s2 = BUY" and prep: "prepare_buy cfg env si dl s2 (Some l) = Inr (Some s3, rid, led')"
      by blast
    from prepare_buy_reserves [OF prep mode act] obtain symbol q where
      yes: "rd_approved (fst (reserve (pe_uuid env) symbol (signal_cost s3) q l))"
      and led': "led' = Some (snd (reserve (pe_uuid env) symbol (signal_cost s3) q l))" by auto
    have led1: "ps_ledger ?st1 = Some l" using led by simp
    show ?thesis
      unfolding body using act prep led' by (intro covers_reserved [OF cov1 fresh led1 yes]) auto
  next
    case False
    then show ?thesis
      unfolding body
      by (intro covers_same [OF cov1]) (auto split: sum.splits option.splits prod.splits)
  qed
qed

text \<open>How an analysis that returns ends.\<close>

lemma analysis_cases:
  assumes "analyze_and_trade ag env si dl pf st = Inr (res, st')"
  obtains (stopped) "res = no_signal" and "st' = st"
  | (gated) t1 t2 signal where "res = signal_only" and "st' = watch_levels env si t1 t2 signal st"
  | (order) t1 t2 signal where "order_stage ag env si dl pf t1 signal (watch_levels env si t1 t2 signal st) = Inr (res, st')"
proof -
  have eq: "analyze_and_trade ag env si dl pf st =
      (case tier1_stage (ps_cfg st) ag env si dl pf of None \<Rightarrow> Inr (no_signal, st)
       | Some t1 \<Rightarrow> (case pe_tier2 env of None \<Rightarrow> Inr (no_signal, st)
         | Some t2 \<Rightarrow> if \<not> t2_approved t2 then Inr (no_signal, st)
             else case signal_of ag env si t1 t2 of None \<Rightarrow> Inr (no_signal, st)
               | Some signal \<Rightarrow>
                   if sig_action signal = BUY \<and>
                      (\<not> cg_approved (evaluate_cost_gate (ps_cfg st) signal (mv_price (pe_market env)) (sig_horizon signal)) \<or>
                       \<not> pe_news_approved env)
                   then Inr (signal_only, watch_levels env si t1 t2 signal st)
                   else order_stage ag env si dl pf t1 signal (watch_levels env si t1 t2 signal st)))"
    by (simp only: analyze_and_trade_def watch_levels_def Let_def)
  show thesis
  proof (cases "\<exists>t1 t2 signal. tier1_stage (ps_cfg st) ag env si dl pf = Some t1 \<and> pe_tier2 env = Some t2 \<and>
      t2_approved t2 \<and> signal_of ag env si t1 t2 = Some signal")
    case True
    then obtain t1 t2 signal where path: "tier1_stage (ps_cfg st) ag env si dl pf = Some t1" "pe_tier2 env = Some t2"
      "t2_approved t2" "signal_of ag env si t1 t2 = Some signal" by blast
    let ?blocked = "sig_action signal = BUY \<and>
      (\<not> cg_approved (evaluate_cost_gate (ps_cfg st) signal (mv_price (pe_market env)) (sig_horizon signal)) \<or> \<not> pe_news_approved env)"
    have run: "(if ?blocked then Inr (signal_only, watch_levels env si t1 t2 signal st)
        else order_stage ag env si dl pf t1 signal (watch_levels env si t1 t2 signal st)) = Inr (res, st')"
      using assms by (simp only: eq path option.case not_True_eq_False if_False)
    show thesis
    proof (cases ?blocked)
      case True
      from run have "Inr (signal_only, watch_levels env si t1 t2 signal st) = (Inr (res, st') :: (pipeline_result \<times> pipeline_state) res)"
        unfolding if_P [OF True] .
      then show thesis using gated by blast
    next
      case False
      from run show thesis unfolding if_not_P [OF False] by (rule order)
    qed
  next
    case False
    then have "analyze_and_trade ag env si dl pf st = Inr (no_signal, st)"
      unfolding eq by (simp split: option.splits)
    then show thesis using assms stopped by simp
  qed
qed

lemma covers_analysis:
  assumes cov: "ledger_covers cash ts0 used st" and fresh: "pe_uuid env \<notin> used" "pe_uuid env \<noteq> []"
    and run: "run_analysis ag env si dl pf st = (r, st')"
  shows "ledger_covers cash ts0 (insert (pe_uuid env) used) st'"
proof -
  have watched: "ledger_covers cash ts0 used (watch_levels env si t1 t2 signal st)" for t1 t2 signal
    by (rule covers_same [OF cov]) (simp_all add: watch_levels_def)
  show ?thesis
  proof (cases "analyze_and_trade ag env si dl pf st")
    case (Inl e)
    then have "st' = analysis_raised ag env si dl pf st" using run by (simp add: run_analysis_def)
    then show ?thesis
      using covers_insert [OF cov] covers_order_raised [OF watched fresh]
      by (auto simp: analysis_raised_def split: option.splits)
  next
    case (Inr p)
    then obtain res where res: "analyze_and_trade ag env si dl pf st = Inr (res, st')"
      using run by (auto simp: run_analysis_def split: prod.splits)
    from res show ?thesis
    proof (cases rule: analysis_cases)
      case (order t1 t2 signal)
      then show ?thesis by (rule covers_order_stage [OF watched fresh])
    qed (use covers_insert [OF cov] covers_insert [OF watched] in auto)
  qed
qed

text \<open>What a task may use: the identifier its analysis draws.\<close>

definition task_id :: "candidate \<Rightarrow> string" where "task_id c = pe_uuid (cd_env c)"

lemma covers_task:
  assumes "ledger_covers cash ts0 used st" and "task_id c \<notin> used" and "task_id c \<noteq> []"
  shows "ledger_covers cash ts0 (insert (task_id c) used) (snd (analyze_with_limit ag dl pf c st))"
proof -
  have "ledger_covers cash ts0 (insert (task_id c) used) (snd (run_analysis ag (cd_env c) si dl pf st))" for si
    unfolding task_id_def by (rule covers_analysis [OF assms(1) assms(2,3) [unfolded task_id_def] surjective_pairing])
  then show ?thesis
    using covers_insert [OF assms(1)] by (simp add: analyze_with_limit_def finish_task_def Let_def split: sum.splits prod.splits)
qed

lemma covers_tasks:
  "ledger_covers cash ts0 used st \<Longrightarrow> distinct (map task_id cs) \<Longrightarrow> [] \<notin> task_id ` set cs \<Longrightarrow>
     task_id ` set cs \<inter> used = {} \<Longrightarrow> \<exists>used'. ledger_covers cash ts0 used' (snd (run_tasks ag dl pf cs st))"
proof (induction cs arbitrary: st used)
  case (Cons c cs)
  have "ledger_covers cash ts0 (insert (task_id c) used) (snd (analyze_with_limit ag dl pf c st))"
    by (rule covers_task) (use Cons.prems in auto)
  then have "\<exists>used'. ledger_covers cash ts0 used' (snd (run_tasks ag dl pf cs (snd (analyze_with_limit ag dl pf c st))))"
    by (rule Cons.IH) (use Cons.prems in auto)
  then show ?case by (simp add: case_prod_beta Let_def)
qed auto

section \<open>One order per candidate\<close>

lemma order_stage_ends:
  assumes "order_stage ag env si dl pf t1 s st = Inr (r, st')"
  obtains (none) "r = signal_only" and "ps_dm st' = ps_dm st"
  | (submit) cfg led s3 rid where "submit_signal ag env si t1 s3 rid (st\<lparr>ps_cfg := cfg, ps_ledger := led\<rparr>) = Inr (r, st')"
proof (cases "sell_stage pf si s")
  case None
  then show ?thesis using assms none by (simp add: order_stage_def)
next
  case (Some s1)
  obtain risk cfg where risk: "risk_of ag env dl pf st s1 = (risk, cfg)" by (meson surj_pair)
  define s2 where "s2 = (if opt_or (rk_adjusted risk) 0 \<noteq> 0 then s1\<lparr>sig_quantity := rk_adjusted risk\<rparr> else s1)"
  note body = assms [unfolded order_stage_def Some option.case risk [unfolded risk_of_def] prod.case Let_def s2_def [symmetric]]
  have led: "st\<lparr>ps_cfg := cfg\<rparr> = st\<lparr>ps_cfg := cfg, ps_ledger := ps_ledger st\<rparr>" by simp
  show ?thesis
    using body none submit [where cfg = cfg] submit [where cfg = cfg and led = "ps_ledger st"]
    by (auto simp: rbind_eq_Inr led [symmetric] split: if_splits option.splits)
qed

text \<open>What a run adds: one confirmation task exactly when it says \<open>executed\<close>, and at most one order.\<close>

definition adds :: "bool \<Rightarrow> dm_state \<Rightarrow> dm_state \<Rightarrow> bool" where
  "adds executed dm dm' \<longleftrightarrow>
     (\<exists>new. dm_tasks dm' = dm_tasks dm @ new \<and> length new = (if executed then 1 else 0)) \<and>
     (\<exists>new. dm_placed dm' = dm_placed dm @ new \<and> length new \<le> 1)"

lemma adds_refl [simp]: "adds False dm dm"
  by (simp add: adds_def)

lemma adds_submit:
  assumes "submit_signal ag env si t1 s rid st = Inr (r, st')"
  shows "adds (pr_executed r) (ps_dm st) (ps_dm st') \<and> pr_signal r"
  using submit_signal_tasks [OF assms] submit_signal_placed [OF assms] by (auto simp: adds_def split: if_splits)

lemma adds_order_stage:
  assumes "order_stage ag env si dl pf t1 s st = Inr (r, st')"
  shows "adds (pr_executed r) (ps_dm st) (ps_dm st') \<and> pr_signal r"
  using assms
proof (cases rule: order_stage_ends)
  case none
  then show ?thesis by (simp add: signal_only_def)
next
  case (submit cfg led s3 rid)
  from adds_submit [OF this] show ?thesis by simp
qed

lemma adds_attempt: "adds False dm (attempted_order cfg s dm)"
  by (auto simp: adds_def attempted_order_def split: sum.splits autonomy_mode.splits)

lemma adds_raised: "adds False (ps_dm st) (ps_dm (analysis_raised ag env si dl pf st))"
proof -
  have "adds False (ps_dm st') (ps_dm (order_stage_raised ag env si dl pf s st'))" for s st'
  proof -
    have "ps_dm (order_stage_raised ag env si dl pf s st') = ps_dm st' \<or>
        (\<exists>cfg s3. ps_dm (order_stage_raised ag env si dl pf s st') = attempted_order cfg s3 (ps_dm st'))"
      unfolding order_stage_raised_def Let_def
      by (cases "sell_stage pf si s") (auto split: prod.split sum.split option.split)
    then show ?thesis using adds_attempt by auto
  qed
  moreover have "ps_dm (watch_levels env si t1 t2 s st) = ps_dm st" for t1 t2 s by (simp add: watch_levels_def)
  ultimately show ?thesis
    unfolding analysis_raised_def by (auto split: option.split prod.split) metis
qed

definition result_executed :: "pipeline_result res \<Rightarrow> bool" where
  "result_executed r = (case r of Inr p \<Rightarrow> pr_executed p | Inl e \<Rightarrow> False)"

lemma adds_analysis:
  assumes "run_analysis ag env si dl pf st = (r, st')"
  shows "adds (result_executed r) (ps_dm st) (ps_dm st')" and "\<And>p. r = Inr p \<Longrightarrow> pr_executed p \<Longrightarrow> pr_signal p"
proof -
  have "adds (result_executed r) (ps_dm st) (ps_dm st') \<and> (\<forall>p. r = Inr p \<longrightarrow> pr_executed p \<longrightarrow> pr_signal p)"
  proof (cases r)
    case (Inl e)
    then have "st' = analysis_raised ag env si dl pf st"
      using assms by (auto simp: run_analysis_def split: sum.splits prod.splits)
    then show ?thesis using Inl adds_raised by (simp add: result_executed_def)
  next
    case (Inr p)
    then have "analyze_and_trade ag env si dl pf st = Inr (p, st')"
      using assms by (auto simp: run_analysis_def split: sum.splits prod.splits)
    then show ?thesis
    proof (cases rule: analysis_cases)
      case stopped
      then show ?thesis using Inr by (simp add: no_signal_def result_executed_def)
    next
      case (gated t1 t2 signal)
      then show ?thesis using Inr by (simp add: signal_only_def result_executed_def watch_levels_def)
    next
      case (order t1 t2 signal)
      from adds_order_stage [OF this] show ?thesis using Inr by (simp add: result_executed_def watch_levels_def)
    qed
  qed
  then show "adds (result_executed r) (ps_dm st) (ps_dm st')" and "\<And>p. r = Inr p \<Longrightarrow> pr_executed p \<Longrightarrow> pr_signal p"
    by blast+
qed

lemma adds_task:
  assumes "analyze_with_limit ag dl pf c st = (out, st')"
  shows "adds (task_executed out) (ps_dm st) (ps_dm st') \<and> (task_executed out \<longrightarrow> task_signal out) \<and>
    (task_signal out \<longrightarrow> task_returned out)"
proof -
  have run: "adds (task_executed o') (ps_dm st) (ps_dm s') \<and> (task_executed o' \<longrightarrow> task_signal o')"
    if "finish_task (run_analysis ag (cd_env c) si dl pf st) = (o', s')" for si o' s'
  proof -
    define r where "r = fst (run_analysis ag (cd_env c) si dl pf st)"
    then have r: "run_analysis ag (cd_env c) si dl pf st = (r, s')" "o' = (case r of Inl e \<Rightarrow> Task_raised e | Inr p \<Rightarrow> Task_done p)"
      using that by (auto simp: finish_task_def prod_eq_iff)
    have "task_executed o' = result_executed r" "\<And>p. r = Inr p \<Longrightarrow> task_signal o' = pr_signal p"
      using r(2) by (simp_all add: task_executed_def task_signal_def result_executed_def split: sum.splits)
    then show ?thesis using adds_analysis [OF r(1)] by (cases r) (auto simp: result_executed_def)
  qed
  have "task_signal out \<longrightarrow> task_returned out"
    by (simp add: task_signal_def task_returned_def split: task_outcome.splits)
  moreover have "task_executed Task_skipped = False" "\<And>e. task_executed (Task_raised e) = False"
    by (simp_all add: task_executed_def)
  ultimately show ?thesis
    using assms run by (auto simp: analyze_with_limit_def Let_def split: if_splits sum.splits prod.splits)
qed

lemma adds_tasks:
  "run_tasks ag dl pf cs st = (outs, st') \<Longrightarrow>
     length outs = length cs \<and> (\<exists>new. dm_tasks (ps_dm st') = dm_tasks (ps_dm st) @ new \<and> length new = length (filter task_executed outs)) \<and>
     length (dm_placed (ps_dm st')) \<le> length (dm_placed (ps_dm st)) + length cs \<and>
     length (filter task_executed outs) \<le> length (filter task_signal outs) \<and>
     length (filter task_signal outs) \<le> length (filter task_returned outs)"
proof (induction cs arbitrary: st outs)
  case (Cons c cs)
  obtain out st1 where one: "analyze_with_limit ag dl pf c st = (out, st1)" by (meson surj_pair)
  obtain outs' where more: "run_tasks ag dl pf cs st1 = (outs', st')" and outs: "outs = out # outs'"
    using Cons.prems one by (auto simp: Let_def split: prod.splits)
  note IH = Cons.IH [OF more]
  obtain a b where new: "dm_tasks (ps_dm st1) = dm_tasks (ps_dm st) @ a" "length a = (if task_executed out then 1 else 0)"
    "dm_placed (ps_dm st1) = dm_placed (ps_dm st) @ b" "length b \<le> 1"
    using adds_task [OF one] by (auto simp: adds_def)
  obtain c' where "dm_tasks (ps_dm st') = dm_tasks (ps_dm st1) @ c'" "length c' = length (filter task_executed outs')"
    using IH by blast
  then have "\<exists>new. dm_tasks (ps_dm st') = dm_tasks (ps_dm st) @ new \<and> length new = length (filter task_executed outs)"
    using new by (intro exI [of _ "a @ c'"]) (simp add: outs)
  then show ?case using IH adds_task [OF one] new by (auto simp: outs)
qed simp

text \<open>How a cycle ends: without a task, or with the tasks of the scan over a fresh ledger.\<close>

lemma cycle_body_cases:
  assumes "cycle_body env pf w = (early, r, w')"
  obtains "cr_executed r = 0" "cr_signals r = 0" "cr_analyzed r = 0" "ps_dm (aw_pipe w') = ps_dm (aw_pipe w)"
  | scan ag st outs st' where "ce_scan env = Inr scan" "ps_dm st = ps_dm (aw_pipe w)" "ps_cfg st = ps_cfg (aw_pipe w)"
      "ps_ledger st = Some (new_ledger (pf_cash pf))" "run_tasks ag (ce_limits env) pf (sa_selected scan) st = (outs, st')"
      "cr_scanned r = length (sa_selected scan)" "cr_executed r = length (filter task_executed outs)"
      "cr_signals r = length (filter task_signal outs)" "cr_analyzed r = length (filter task_returned outs)"
      "ps_dm (aw_pipe w') = ps_dm st'"
proof (cases "ce_scan env")
  case (Inl e)
  then show ?thesis using assms by (intro that(1)) (auto simp: cycle_body_def no_results_def)
next
  case (Inr scan)
  obtain set det where thr: "apply_scan_thresholds (scan_candidates (sa_selected scan)) (ps_detector (aw_pipe w)) = (set, det)"
    by (meson surj_pair)
  let ?st = "(aw_pipe w)\<lparr>ps_detector := det, ps_ledger := Some (new_ledger (pf_cash pf))\<rparr>"
  obtain outs st' where run: "run_tasks ((aw_brain w)\<lparr>pa_market_regime := sa_regime scan\<rparr>) (ce_limits env) pf (sa_selected scan) ?st = (outs, st')"
    by (meson surj_pair)
  show ?thesis
  proof (cases "sa_selected scan = [] \<or> \<not> is_ok (ce_context env) \<or> \<not> is_ok set")
    case True
    then show ?thesis
      using assms Inr thr
      by (intro that(1)) (auto simp: cycle_body_def no_results_def Let_def is_ok_def split: if_splits sum.splits)
  next
    case False
    then have "r = count_results outs (no_results\<lparr>cr_scanned := length (sa_selected scan), cr_selected := selected_symbols (sa_selected scan)\<rparr>)"
      "ps_dm (aw_pipe w') = ps_dm st'"
      using assms Inr thr run by (auto simp: cycle_body_def Let_def is_ok_iff)
    then show ?thesis using Inr run by (intro that(2) [of scan ?st]) (simp_all add: count_results_def no_results_def)
  qed
qed

lemma trading_cycle_cases:
  assumes "run_trading_cycle env w = (r, w')"
  obtains (idle) "cr_executed r = 0" "cr_signals r = 0" "cr_analyzed r = 0" "ps_dm (aw_pipe w') = ps_dm (aw_pipe w)"
  | (tasks) pf scan ag st outs st' where "cycle_snapshot env = Some pf" "ce_scan env = Inr scan"
      "ps_dm st = ps_dm (aw_pipe w)" "ps_cfg st = ps_cfg (aw_pipe w)" "ps_ledger st = Some (new_ledger (pf_cash pf))"
      "run_tasks ag (ce_limits env) pf (sa_selected scan) st = (outs, st')"
      "cr_scanned r = length (sa_selected scan)" "cr_executed r = length (filter task_executed outs)"
      "cr_signals r = length (filter task_signal outs)" "cr_analyzed r = length (filter task_returned outs)"
      "ps_dm (aw_pipe w') = ps_dm st'"
proof (cases "cycle_snapshot env")
  case None
  then show ?thesis using assms idle by (auto simp: run_trading_cycle_def no_results_def)
next
  case (Some pf)
  let ?w1 = "note_start_balance pf (w\<lparr>aw_started := aw_started w + 1\<rparr>)"
  obtain early r' w2 where cb: "cycle_body env pf ?w1 = (early, r', w2)" by (metis prod_cases3)
  have same: "aw_pipe ?w1 = aw_pipe w" by (simp add: note_start_balance_def)
  have "run_trading_cycle env w = (r', if early then w2\<lparr>aw_last_cycle := Some (ce_now env)\<rparr>
      else w2\<lparr>aw_last_cycle := Some (ce_now env), aw_ended := aw_ended w2 @ [r']\<rparr>)"
    using Some cb by (simp add: run_trading_cycle_def)
  then have "r = r'" and w': "aw_pipe w' = aw_pipe w2" using assms by auto
  from cb show ?thesis
  proof (cases rule: cycle_body_cases)
    case 1
    then show ?thesis using \<open>r = r'\<close> w' same by (intro idle) simp_all
  next
    case (2 scan ag st outs st')
    then show ?thesis
      using \<open>r = r'\<close> w' same Some
      by (intro tasks [where pf = pf and scan = scan and ag = ag and st = st and outs = outs and st' = st']) simp_all
  qed
qed

section \<open>Whose orders\<close>

definition orders_for :: "string \<Rightarrow> dm_state \<Rightarrow> dm_state \<Rightarrow> bool" where
  "orders_for symbol dm dm' \<longleftrightarrow>
     (\<exists>new. dm_placed dm' = dm_placed dm @ new \<and> length new \<le> 1 \<and> (\<forall>r \<in> set new. or_symbol r = symbol))"

lemma orders_for_same: "dm_placed dm' = dm_placed dm \<Longrightarrow> orders_for symbol dm dm'"
  by (simp add: orders_for_def)

lemma attempted_orders_for: "sig_symbol s = symbol \<Longrightarrow> orders_for symbol dm (attempted_order cfg s dm)"
  by (auto simp: orders_for_def attempted_order_def dest: build_order_requestD split: sum.splits autonomy_mode.splits)

lemma raised_orders_for: "orders_for (st_symbol si) (ps_dm st) (ps_dm (analysis_raised ag env si dl pf st))"
proof -
  have order: "orders_for (st_symbol si) (ps_dm st') (ps_dm (order_stage_raised ag env si dl pf s st'))"
    if "sig_symbol s = st_symbol si" for s st'
  proof (cases "sell_stage pf si s")
    case None
    then show ?thesis by (simp add: order_stage_raised_def orders_for_same)
  next
    case (Some s1)
    obtain risk cfg where risk: "risk_of ag env dl pf st' s1 = (risk, cfg)" by (meson surj_pair)
    define s2 where "s2 = (if opt_or (rk_adjusted risk) 0 \<noteq> 0 then s1\<lparr>sig_quantity := rk_adjusted risk\<rparr> else s1)"
    have sym: "sig_symbol s2 = st_symbol si" using sell_stageD [OF Some] that by (simp add: s2_def)
    let ?st1 = "st'\<lparr>ps_cfg := cfg\<rparr>"
    have body: "order_stage_raised ag env si dl pf s st' =
        (if sig_action s2 = BUY then
           (case prepare_buy cfg env si dl s2 (ps_ledger ?st1) of
              Inr (Some s3, _, led) \<Rightarrow> ?st1\<lparr>ps_ledger := led, ps_dm := attempted_order cfg s3 (ps_dm ?st1)\<rparr>
            | _ \<Rightarrow> ?st1)
         else ?st1\<lparr>ps_dm := attempted_order cfg s2 (ps_dm ?st1)\<rparr>)"
      by (simp only: order_stage_raised_def Some option.case risk prod.case Let_def s2_def [symmetric])
    show ?thesis
    proof (cases "\<exists>s3 rid led. sig_action s2 = BUY \<and> prepare_buy cfg env si dl s2 (ps_ledger ?st1) = Inr (Some s3, rid, led)")
      case True
      then obtain s3 rid led where buy: "sig_action s2 = BUY" "prepare_buy cfg env si dl s2 (ps_ledger ?st1) = Inr (Some s3, rid, led)"
        by blast
      have "sig_symbol s3 = st_symbol si" using prepare_buyD [OF buy(2)] sym by auto
      then show ?thesis unfolding body using buy attempted_orders_for by simp
    next
      case False
      then have "order_stage_raised ag env si dl pf s st' = ?st1 \<or>
          order_stage_raised ag env si dl pf s st' = ?st1\<lparr>ps_dm := attempted_order cfg s2 (ps_dm ?st1)\<rparr>"
        unfolding body by (auto split: sum.split option.split prod.split)
      moreover have "orders_for (st_symbol si) (ps_dm st') (ps_dm ?st1)" by (simp add: orders_for_same)
      moreover have "orders_for (st_symbol si) (ps_dm st') (attempted_order cfg s2 (ps_dm ?st1))"
        using attempted_orders_for [OF sym] by simp
      ultimately show ?thesis by auto
    qed
  qed
  have "ps_dm (watch_levels env si t1 t2 s st) = ps_dm st" for t1 t2 s by (simp add: watch_levels_def)
  moreover have "orders_for (st_symbol si) (ps_dm st) (ps_dm st)" by (simp add: orders_for_same)
  ultimately show ?thesis
    unfolding analysis_raised_def by (auto split: option.split) (metis order signal_of_symbol)
qed

lemma analysis_orders_for:
  assumes run: "run_analysis ag env si dl pf st = (r, st')"
  shows "orders_for (st_symbol si) (ps_dm st) (ps_dm st')"
proof (cases "analyze_and_trade ag env si dl pf st")
  case (Inl e)
  then have "st' = analysis_raised ag env si dl pf st" using run by (simp add: run_analysis_def)
  then show ?thesis by (simp add: raised_orders_for)
next
  case (Inr p)
  then obtain res where res: "analyze_and_trade ag env si dl pf st = Inr (res, st')"
    using run by (auto simp: run_analysis_def split: prod.splits)
  show ?thesis
  proof (cases "dm_placed (ps_dm st') = dm_placed (ps_dm st)")
    case False
    from analyze_placed [OF res False] obtain t1 t2 s st1 where s: "signal_of ag env si t1 t2 = Some s"
      and st1: "ps_dm st1 = ps_dm st" and os: "order_stage ag env si dl pf t1 s st1 = Inr (res, st')" by metis
    from order_stage_placed [OF os signal_of_symbol [OF s]] False st1 signal_of_action [OF s]
    obtain req where "dm_placed (ps_dm st') = dm_placed (ps_dm st) @ [req]" "or_symbol req = st_symbol si" by metis
    then show ?thesis by (simp add: orders_for_def)
  qed (simp add: orders_for_same)
qed

section \<open>Properties\<close>

text \<open>
  The counters a cycle reports can be trusted: what it calls executed are exactly the orders the
  broker accepted, each with its confirmation task; executed, signals, analysed and scanned never
  shrink in that order, and at most one order leaves per scanned candidate, whatever the model, the
  broker and the database answer for each of them.
\<close>

lemma cycle_reports_orders:
  "case run_trading_cycle env w of (r, w') \<Rightarrow>
     cr_executed r \<le> cr_signals r \<and> cr_signals r \<le> cr_analyzed r \<and> cr_analyzed r \<le> cr_scanned r \<and>
     (\<exists>new. dm_tasks (ps_dm (aw_pipe w')) = dm_tasks (ps_dm (aw_pipe w)) @ new \<and> length new = cr_executed r) \<and>
     length (dm_placed (ps_dm (aw_pipe w'))) \<le> length (dm_placed (ps_dm (aw_pipe w))) + cr_scanned r"
proof -
  obtain r w' where run: "run_trading_cycle env w = (r, w')" by (meson surj_pair)
  from run show ?thesis
  proof (cases rule: trading_cycle_cases)
    case (tasks pf scan ag st outs st')
    from adds_tasks [OF tasks(6)] show ?thesis
      using tasks run le_trans [OF length_filter_le [of task_returned outs]] by auto
  qed (simp add: run)
qed

text \<open>
  C11: When reservations are enforced, the buys a cycle submits never cost more, all together, than the
  cash of the snapshot it started from: the ledger covers every accepted order, through refusals,
  exceptions and a kill switch in between.
\<close>

theorem enforced_cycle_spends_within_cash:
  assumes "order_reservation_mode (ps_cfg (aw_pipe w)) = ''ENFORCE''" and "cycle_snapshot env = Some pf"
    and "ce_scan env = Inr scan" and "distinct (map task_id (sa_selected scan))" and "[] \<notin> task_id ` set (sa_selected scan)"
  shows "\<exists>new. dm_tasks (ps_dm (aw_pipe (snd (run_trading_cycle env w)))) = dm_tasks (ps_dm (aw_pipe w)) @ new \<and>
    buy_spend new \<le> max (pf_cash pf) 0"
proof -
  obtain r w' where run: "run_trading_cycle env w = (r, w')" by (meson surj_pair)
  from run show ?thesis
  proof (cases rule: trading_cycle_cases)
    case idle
    then show ?thesis by (simp add: run)
  next
    case (tasks pf' scan' ag st outs st')
    have same: "pf' = pf" "scan' = scan" using tasks(1,2) assms(2,3) by auto
    have "ledger_covers (max (pf_cash pf) 0) (dm_tasks (ps_dm (aw_pipe w))) {} st"
      using tasks(3-5) assms(1) ledger_ok_new [of "pf_cash pf"]
      by (auto simp: ledger_covers_def same new_ledger_def known_ids_def num_or_def reserved_cash_def)
    from covers_tasks [OF this assms(4,5), of ag "ce_limits env" pf] obtain used where
      "ledger_covers (max (pf_cash pf) 0) (dm_tasks (ps_dm (aw_pipe w))) used st'"
      using tasks(6) by (auto simp: same)
    then show ?thesis using run tasks(11) by (fastforce simp: ledger_covers_def ledger_ok_def)
  qed
qed

text \<open>A concrete cycle: the sample analysis as its only candidate, reservations enforced.\<close>

definition sample_candidate :: candidate where
  "sample_candidate = \<lparr>cd_stock = sample_stock, cd_monitoring = None, cd_power = Inr (True, 8), cd_env = sample_pipeline_env ''BUY''\<rparr>"

definition sample_cycle_env :: cycle_env where
  "sample_cycle_env = \<lparr>ce_now = PyDT 0 True, ce_limits = None,
     ce_balance = Inr \<lparr>bal_total_asset = 10000000, bal_cash = 10000000, bal_stock_value = 0, bal_total_pnl = 0,
       bal_total_pnl_rate = 0, bal_is_valid = True\<rparr>,
     ce_holdings = Inr [], ce_today_trades = 0,
     ce_scan = Inr \<lparr>sa_selected = [sample_candidate], sa_regime = ''BULL''\<rparr>, ce_context = Inr ()\<rparr>"

definition sample_world :: agent_world where
  "sample_world = \<lparr>aw_pipe = sample_pipeline_state\<lparr>ps_cfg := default_settings\<lparr>ORDER_RESERVATION_ENFORCEMENT := ''ENFORCE''\<rparr>\<rparr>,
     aw_agent = agent_start new_agent, aw_brain = sample_pipeline_agent, aw_daily_start = 0, aw_last_cycle = None,
     aw_started = 0, aw_ended = [], aw_subscribed = []\<rparr>"

lemma enforced_cycle_spends_within_cash_witness:
  "\<exists>new. dm_tasks (ps_dm (aw_pipe (snd (run_trading_cycle sample_cycle_env sample_world)))) = new \<and> buy_spend new \<le> 10000000"
proof -
  have mode: "order_reservation_mode (ps_cfg (aw_pipe sample_world)) = ''ENFORCE''"
  proof -
    have "upper ''ENFORCE'' = ''ENFORCE''" by code_simp
    then show ?thesis by (simp add: sample_world_def order_reservation_mode_def str_or_def)
  qed
  obtain pf where pf: "cycle_snapshot sample_cycle_env = Some pf" "pf_cash pf = 10000000"
    by (simp add: cycle_snapshot_def snapshot_or_default_def sample_cycle_env_def build_portfolio_snapshot_def)
  have scan: "ce_scan sample_cycle_env = Inr \<lparr>sa_selected = [sample_candidate], sa_regime = ''BULL''\<rparr>"
    by (simp add: sample_cycle_env_def)
  have "dm_tasks (ps_dm (aw_pipe sample_world)) = []" by (simp add: sample_world_def sample_pipeline_state_def fresh_dm_def)
  then show ?thesis
    using enforced_cycle_spends_within_cash [OF mode pf(1) scan] pf(2)
    by (simp add: task_id_def sample_candidate_def sample_pipeline_env_def)
qed

section \<open>The news gate\<close>

lemma news_key_inj [simp]: "news_key a = news_key b \<longleftrightarrow> a = b"
  by (simp add: news_key_def)

interpretation news_gate: cooldown_gate "news_begin (news_cooldown setting)" "\<lambda>ag s. ag_cooldowns ag (news_key s)" "news_cooldown setting"
  for setting
proof unfold_locales
  show "0 < news_cooldown setting" by (simp add: news_cooldown_def max_def)
qed (auto simp: news_begin_def Let_def fun_eq_iff split: if_splits)

lemma news_symbols_normal: "s \<in> set (news_symbols nw) \<Longrightarrow> s \<noteq> []"
  by (auto simp: news_symbols_def Let_def split: if_splits)

lemma without_ledger_orders:
  assumes "run_without_ledger ag env si dl pf st = (r, st')"
  shows "orders_for (st_symbol si) (ps_dm st) (ps_dm st')"
proof -
  obtain st1 where "run_analysis ag env si dl pf (st\<lparr>ps_ledger := None\<rparr>) = (r, st1)" "ps_dm st' = ps_dm st1"
    using assms by (auto simp: run_without_ledger_def split: prod.splits)
  then show ?thesis using analysis_orders_for by fastforce
qed

text \<open>What one symbol of a news item does to the agent's marks.\<close>

definition same_marks :: "agent_state \<Rightarrow> agent_state \<Rightarrow> bool" where
  "same_marks ag ag' \<longleftrightarrow> ag_analyzing ag' = ag_analyzing ag \<and> ag_selling ag' = ag_selling ag \<and> ag_running ag' = ag_running ag \<and>
     ag_cycle_locked ag' = ag_cycle_locked ag"

lemma news_step_effect:
  "same_marks (aw_agent w) (aw_agent (news_step nw pf s w)) \<and>
   orders_for s (ps_dm (aw_pipe w)) (ps_dm (aw_pipe (news_step nw pf s w)))"
proof (cases "news_begin (news_cooldown (nw_cooldown_setting nw)) s (nw_ts nw) (aw_agent w)")
  case (Pair ok ag)
  obtain r st where run: "run_without_ledger (aw_brain w) (nw_pipe nw s) (event_stock s (nw_name nw s) ''STABLE_SHORT'' (nw_type nw)) None pf (aw_pipe w)
      = (r, st)" by (meson surj_pair)
  have "st_symbol (event_stock s n a b) = s" for n a b by (simp add: event_stock_def)
  then have "orders_for s (ps_dm (aw_pipe w)) (ps_dm st)" using without_ledger_orders [OF run] by simp
  then show ?thesis
    using Pair run
    by (auto simp: news_step_def same_marks_def news_begin_def news_end_def Let_def orders_for_def split: if_splits)
qed

text \<open>
  What the guards of the loop ask of a symbol, at the item's time; a symbol that has its turn in the
  loop already had it when the item came in.
\<close>

definition news_due :: "news_env \<Rightarrow> agent_state \<Rightarrow> string \<Rightarrow> bool" where
  "news_due nw ag symbol \<longleftrightarrow> symbol \<notin> ag_selling ag \<union> ag_analyzing ag \<and>
     (case ag_cooldowns ag (news_key symbol) of
        None \<Rightarrow> news_cooldown (nw_cooldown_setting nw) \<le> nw_ts nw
      | Some l \<Rightarrow> l + news_cooldown (nw_cooldown_setting nw) \<le> nw_ts nw)"

lemma news_begin_due:
  "fst (news_begin (news_cooldown (nw_cooldown_setting nw)) s (nw_ts nw) ag) \<longleftrightarrow> news_due nw ag s"
  by (auto simp: news_begin_def news_due_def Let_def split: option.splits)

lemma news_step_due:
  assumes "news_due nw (aw_agent (news_step nw pf s w)) t"
  shows "news_due nw (aw_agent w) t"
proof (cases "news_begin (news_cooldown (nw_cooldown_setting nw)) s (nw_ts nw) (aw_agent w)")
  case (Pair ok ag)
  have "0 < news_cooldown (nw_cooldown_setting nw)" by (simp add: news_cooldown_def max_def)
  then show ?thesis
    using assms Pair
    by (cases "t = s") (auto simp: news_step_def news_begin_def news_end_def news_due_def Let_def
        split: if_splits prod.splits option.splits)
qed

lemma news_step_not_due:
  "\<not> news_due nw (aw_agent w) s \<Longrightarrow> news_step nw pf s w = w"
  using news_begin_due [of nw s "aw_agent w"]
  by (cases "news_begin (news_cooldown (nw_cooldown_setting nw)) s (nw_ts nw) (aw_agent w)") (simp add: news_step_def)

lemma news_fold_effect:
  "same_marks (aw_agent w) (aw_agent (fold (news_step nw pf) ss w)) \<and>
   (\<exists>new. dm_placed (ps_dm (aw_pipe (fold (news_step nw pf) ss w))) = dm_placed (ps_dm (aw_pipe w)) @ new \<and>
      (\<forall>r \<in> set new. or_symbol r \<in> set ss \<and> news_due nw (aw_agent w) (or_symbol r)))"
proof (induction ss arbitrary: w)
  case (Cons s ss)
  let ?w = "news_step nw pf s w"
  from news_step_effect [of w nw pf s] obtain new1 where
    1: "same_marks (aw_agent w) (aw_agent ?w)" "dm_placed (ps_dm (aw_pipe ?w)) = dm_placed (ps_dm (aw_pipe w)) @ new1"
      "\<forall>r \<in> set new1. or_symbol r = s" by (auto simp: orders_for_def)
  have due: "\<forall>r \<in> set new1. news_due nw (aw_agent w) s"
    using 1(2) news_step_not_due [of nw w s pf] by (cases "news_due nw (aw_agent w) s") auto
  from Cons.IH [of ?w] obtain new2 where
    2: "same_marks (aw_agent ?w) (aw_agent (fold (news_step nw pf) ss ?w))"
      "dm_placed (ps_dm (aw_pipe (fold (news_step nw pf) ss ?w))) = dm_placed (ps_dm (aw_pipe ?w)) @ new2"
      "\<forall>r \<in> set new2. or_symbol r \<in> set ss \<and> news_due nw (aw_agent ?w) (or_symbol r)" by blast
  have "\<forall>r \<in> set (new1 @ new2). or_symbol r \<in> set (s # ss) \<and> news_due nw (aw_agent w) (or_symbol r)"
    using 1(3) due 2(3) news_step_due by fastforce
  then show ?case using 1(1,2) 2(1,2) by (auto simp: same_marks_def)
qed (simp add: same_marks_def)

lemma news_symbols_named:
  "s \<in> set (news_symbols nw) \<Longrightarrow> s \<noteq> [] \<and> s \<in> normalize_krx_symbol ` (set (nw_symbols nw) \<union> {nw_symbol nw})"
  by (auto simp: news_symbols_def Let_def split: if_splits)

text \<open>The symbols of the account's holdings and those the detector has a level for.\<close>

definition tracked :: "holding_info list \<Rightarrow> detector \<Rightarrow> string set" where
  "tracked hs d = normalize_krx_symbol ` hi_symbol ` set hs \<union> normalize_krx_symbol ` fst ` set (ed_thresholds d)"

lemma impacted_tracked:
  assumes "build_portfolio_snapshot balance (Inr hs) n = Inr pf"
  shows "set (impacted_symbols nw pf d) \<subseteq> set (news_symbols nw) \<inter> tracked hs d"
  using assms
  by (cases balance) (auto simp: impacted_symbols_def tracked_def build_portfolio_snapshot_def monitored_symbols_def split: if_splits)

text \<open>
  C13: A news item reaches only symbols the account holds or the detector watches: every order that
  follows from it is for a symbol the item names that is among the holdings the account answered
  with or has a level with the detector, whose last recheck after news lies at least the cooldown
  back and which was neither being sold nor analysed, in trading hours, with the agent running and
  no settings being applied; and when the handler is done, whatever its analyses raised, no symbol is
  left marked as being analysed or sold.
\<close>

theorem news_reaches_only_tracked:
  "same_marks (aw_agent w) (aw_agent (on_news_item nw w)) \<and>
   (\<exists>new. dm_placed (ps_dm (aw_pipe (on_news_item nw w))) = dm_placed (ps_dm (aw_pipe w)) @ new \<and> (\<forall>r \<in> set new.
      ag_running (aw_agent w) \<and> nw_trading_hours nw \<and> \<not> nw_reconfiguring nw \<and>
      or_symbol r \<noteq> [] \<and> or_symbol r \<in> normalize_krx_symbol ` (set (nw_symbols nw) \<union> {nw_symbol nw}) \<and>
      (\<exists>b hs. nw_balance nw = Inr b \<and> bal_is_valid b \<and> nw_holdings nw = Inr hs \<and>
         or_symbol r \<in> tracked hs (ps_detector (aw_pipe w))) \<and>
      news_due nw (aw_agent w) (or_symbol r)))"
proof (cases "\<exists>pf. on_news_item nw w = fold (news_step nw pf) (impacted_symbols nw pf (ps_detector (aw_pipe w))) w \<and>
    ag_running (aw_agent w) \<and> nw_trading_hours nw \<and> \<not> nw_reconfiguring nw \<and>
    build_portfolio_snapshot (nw_balance nw) (nw_holdings nw) (nw_today_trades nw) = Inr pf")
  case True
  then obtain pf where eq: "on_news_item nw w = fold (news_step nw pf) (impacted_symbols nw pf (ps_detector (aw_pipe w))) w"
    and ok: "ag_running (aw_agent w)" "nw_trading_hours nw" "\<not> nw_reconfiguring nw"
    and pf: "build_portfolio_snapshot (nw_balance nw) (nw_holdings nw) (nw_today_trades nw) = Inr pf" by blast
  from pf obtain b hs where b: "nw_balance nw = Inr b" "bal_is_valid b" "nw_holdings nw = Inr hs"
    by (cases "nw_balance nw"; cases "nw_holdings nw") (auto simp: build_portfolio_snapshot_def split: if_splits)
  note tr = impacted_tracked [OF pf [unfolded b(3)], of nw "ps_detector (aw_pipe w)"]
  show ?thesis
    using news_fold_effect [of w nw pf "impacted_symbols nw pf (ps_detector (aw_pipe w))"] ok b tr news_symbols_named
    unfolding eq by blast
next
  case False
  then have "on_news_item nw w = w"
    by (auto simp: on_news_item_def Let_def split: sum.splits if_splits)
  then show ?thesis by (simp add: same_marks_def)
qed

lemma news_reaches_only_tracked_witness:
  "set (dm_placed (ps_dm (aw_pipe (on_news_item
     \<lparr>nw_reconfiguring = False, nw_trading_hours = True, nw_ts = 1000, nw_symbols = [''A005930'', ''000660''], nw_symbol = [],
      nw_type = ''NEW_NEWS_ITEM'', nw_name = id, nw_cooldown_setting = 300, nw_balance = ce_balance sample_cycle_env,
      nw_holdings = Inr [sample_holding], nw_today_trades = 0, nw_context = Inr (), nw_pipe = (\<lambda>_. sample_pipeline_env ''SELL'')\<rparr>
     sample_world)))) \<subseteq> {r. or_symbol r = normalize_krx_symbol ''A005930''}"
proof -
  let ?nw = "\<lparr>nw_reconfiguring = False, nw_trading_hours = True, nw_ts = 1000, nw_symbols = [''A005930'', ''000660''], nw_symbol = [],
      nw_type = ''NEW_NEWS_ITEM'', nw_name = id, nw_cooldown_setting = 300, nw_balance = ce_balance sample_cycle_env,
      nw_holdings = Inr [sample_holding], nw_today_trades = 0, nw_context = Inr (), nw_pipe = (\<lambda>_. sample_pipeline_env ''SELL'')\<rparr>"
  have none: "dm_placed (ps_dm (aw_pipe sample_world)) = []" "monitored_symbols (ps_detector (aw_pipe sample_world)) = []"
    by (simp_all add: sample_world_def sample_pipeline_state_def fresh_dm_def new_detector_def monitored_symbols_def)
  have "tracked [sample_holding] (ps_detector (aw_pipe sample_world)) = {normalize_krx_symbol ''A005930''}"
    using none(2) by (auto simp: tracked_def sample_holding_def monitored_symbols_def)
  then show ?thesis using news_reaches_only_tracked [of sample_world ?nw] none(1) by auto
qed

section \<open>The event handler\<close>

text \<open>The account answers, and its cash covers the event's price unless it holds the symbol.\<close>

definition event_affordable :: "event_env \<Rightarrow> bool" where
  "event_affordable ev \<longleftrightarrow> ev_price ev \<le> 0 \<or>
     (\<exists>b hs. ev_balance ev = Inr b \<and> bal_is_valid b \<and> ev_holdings ev = Inr hs \<and>
        (ev_price ev \<le> bal_cash b \<or> normalize_krx_symbol (ev_symbol ev) \<in> normalize_krx_symbol ` hi_symbol ` set hs))"

lemma snapshot_affordable:
  assumes "snapshot_or_default (build_portfolio_snapshot (ev_balance ev) (ev_holdings ev) n) = Some pf"
    and "holds pf (normalize_krx_symbol (ev_symbol ev)) \<or> ev_price ev \<le> 0 \<or> ev_price ev \<le> pf_cash pf"
  shows "event_affordable ev"
  using assms
  by (cases "ev_balance ev"; cases "ev_holdings ev")
    (auto simp: snapshot_or_default_def build_portfolio_snapshot_def event_affordable_def holds_def empty_portfolio_def
      image_image split: if_splits)

lemma event_analysis_effect:
  "aw_agent (event_analysis ev w) = aw_agent w \<and>
   orders_for (normalize_krx_symbol (ev_symbol ev)) (ps_dm (aw_pipe w)) (ps_dm (aw_pipe (event_analysis ev w))) \<and>
   (aw_pipe (event_analysis ev w) = aw_pipe w \<or> event_affordable ev)"
proof (cases "event_analysis ev w = w")
  case True
  then show ?thesis by (simp add: orders_for_same)
next
  case False
  let ?s = "normalize_krx_symbol (ev_symbol ev)"
  let ?si = "event_stock ?s (ev_name ev) (event_strategy (ev_change_rate ev)) (ev_type ev)"
  obtain pf r st where run: "run_without_ledger (aw_brain w) (ev_pipe ev) ?si (ev_limits ev) pf (aw_pipe w) = (r, st)"
    and eq: "aw_pipe (event_analysis ev w) = st" "aw_agent (event_analysis ev w) = aw_agent w"
    and pf: "snapshot_or_default (build_portfolio_snapshot (ev_balance ev) (ev_holdings ev) (ev_today_trades ev)) = Some pf"
      "holds pf ?s \<or> ev_price ev \<le> 0 \<or> ev_price ev \<le> pf_cash pf"
    using False by (fastforce simp: event_analysis_def Let_def not_less split: sum.splits option.splits if_splits prod.splits)
  have "st_symbol ?si = ?s" by (simp add: event_stock_def)
  then show ?thesis using eq without_ledger_orders [OF run] snapshot_affordable [OF pf] by simp
qed

text \<open>
  C12: A price or volume event leads to at most one order, for the event's symbol, and to none unless the
  agent runs, the market is open, no settings are being applied, a day trading agent is before its
  last time to buy, the symbol is not being sold or analysed, its last analysis lies at least the
  cooldown back, and the account answered with the cash for the price or with a holding of the
  symbol; whatever the analysis meets, the symbol's mark is taken away again.
\<close>

theorem market_event_orders_gated:
  "same_marks (aw_agent w) (aw_agent (on_market_event ev w)) \<and>
   (\<exists>new. dm_placed (ps_dm (aw_pipe (on_market_event ev w))) = dm_placed (ps_dm (aw_pipe w)) @ new \<and> length new \<le> 1 \<and>
     (\<forall>r \<in> set new. or_symbol r = normalize_krx_symbol (ev_symbol ev)) \<and>
     (new \<noteq> [] \<longrightarrow> ag_running (aw_agent w) \<and> ev_trading_hours ev \<and> \<not> ev_reconfiguring ev \<and>
        (DAY_TRADING_ONLY (ps_cfg (aw_pipe w)) \<longrightarrow>
           dt_tod (ev_now ev) < (BUY_CUTOFF_HOUR (ps_cfg (aw_pipe w)) * 60 + BUY_CUTOFF_MINUTE (ps_cfg (aw_pipe w))) * minute_us) \<and>
        normalize_krx_symbol (ev_symbol ev) \<noteq> [] \<and>
        normalize_krx_symbol (ev_symbol ev) \<notin> ag_selling (aw_agent w) \<union> ag_analyzing (aw_agent w) \<and>
        (\<forall>l. ag_cooldowns (aw_agent w) (normalize_krx_symbol (ev_symbol ev)) = Some l \<longrightarrow> l + event_cooldown_sec \<le> ev_ts ev) \<and>
        event_affordable ev))"
proof (cases "market_event_begin (ps_cfg (aw_pipe w)) (ev_reconfiguring ev) (ev_trading_hours ev) (ev_now ev)
    (ev_ts ev) (ev_symbol ev) (aw_agent w)")
  case (Pair ok ag)
  show ?thesis
  proof (cases ok)
    case False
    then have "on_market_event ev w = w" using Pair by (simp add: on_market_event_def)
    then show ?thesis by (simp add: same_marks_def)
  next
    case True
    let ?w1 = "event_analysis ev (w\<lparr>aw_agent := ag\<rparr>)"
    have eq: "on_market_event ev w = ?w1\<lparr>aw_agent := market_event_end (ev_symbol ev) (aw_agent ?w1)\<rparr>"
      using Pair True by (simp add: on_market_event_def Let_def)
    have gate: "ag_running (aw_agent w)" "ev_trading_hours ev" "\<not> ev_reconfiguring ev" "normalize_krx_symbol (ev_symbol ev) \<noteq> []"
      "DAY_TRADING_ONLY (ps_cfg (aw_pipe w)) \<longrightarrow>
         dt_tod (ev_now ev) < (BUY_CUTOFF_HOUR (ps_cfg (aw_pipe w)) * 60 + BUY_CUTOFF_MINUTE (ps_cfg (aw_pipe w))) * minute_us"
      "normalize_krx_symbol (ev_symbol ev) \<notin> ag_selling (aw_agent w) \<union> ag_analyzing (aw_agent w)"
      "\<forall>l. ag_cooldowns (aw_agent w) (normalize_krx_symbol (ev_symbol ev)) = Some l \<longrightarrow> l + event_cooldown_sec \<le> ev_ts ev"
      "same_marks (aw_agent w) (market_event_end (ev_symbol ev) ag)"
      using Pair True
      by (auto simp: market_event_begin_def market_event_end_def same_marks_def buy_cutoff_def not_le Let_def split: if_splits)
    from event_analysis_effect [of ev "w\<lparr>aw_agent := ag\<rparr>"] obtain new where
      "dm_placed (ps_dm (aw_pipe ?w1)) = dm_placed (ps_dm (aw_pipe w)) @ new" "length new \<le> 1"
      "\<forall>r \<in> set new. or_symbol r = normalize_krx_symbol (ev_symbol ev)"
      "aw_agent ?w1 = ag" "new \<noteq> [] \<longrightarrow> event_affordable ev" by (auto simp: orders_for_def)
    then show ?thesis using gate unfolding eq by auto
  qed
qed

definition sample_event :: event_env where
  "sample_event = \<lparr>ev_reconfiguring = False, ev_trading_hours = True, ev_now = PyDT 0 True, ev_ts = 1000,
     ev_symbol = ''A005930'', ev_name = ''Samsung'', ev_price = 70000, ev_change_rate = 6, ev_type = ''PRICE_SURGE'',
     ev_limits = None, ev_balance = ce_balance sample_cycle_env, ev_holdings = Inr [sample_holding], ev_today_trades = 0,
     ev_context = Inr (), ev_pipe = sample_pipeline_env ''SELL''\<rparr>"

lemma market_event_orders_gated_witness:
  "length (dm_placed (ps_dm (aw_pipe (on_market_event sample_event sample_world)))) \<le> 1 \<and>
   set (map or_symbol (dm_placed (ps_dm (aw_pipe (on_market_event sample_event sample_world))))) \<subseteq> {normalize_krx_symbol ''A005930''}"
proof -
  have "dm_placed (ps_dm (aw_pipe sample_world)) = []" by (simp add: sample_world_def sample_pipeline_state_def fresh_dm_def)
  moreover have "ev_symbol sample_event = ''A005930''" by (simp add: sample_event_def)
  ultimately show ?thesis using market_event_orders_gated [of sample_world sample_event] by auto
qed

text \<open>Two rechecks of one symbol after news lie at least the configured cooldown apart.\<close>

lemma news_rechecks_spaced:
  "sorted_wrt (\<lambda>a b. a + news_cooldown setting \<le> b)
     (pass_times k (fst (gate_run (news_begin (news_cooldown setting)) es ag)))"
  by (rule news_gate.passes_spaced)

end
