(* ===== verification/Portfolio_Sync.thy ===== *)
theory Portfolio_Sync
  imports Decision
begin

text \<open>
  The settlement after the close (\<open>scheduler/jobs/portfolio_sync_job.py\<close>): recovery of the orders
  whose fill was never confirmed, back filling of holdings the table does not know, repair of
  entry prices that were recorded as zero, and the comparison of the account with the table.
  Each part is one transaction; its summary is a value the exception handler keeps, so it is
  returned beside the table also when the transaction rolls back. The broker's answers and the
  clock are arguments.
\<close>

section \<open>The notes of a failed recovery\<close>

text \<open>The two Korean causes behind the prefix \<open>CONFIRM_FAILED:\<close> (UTF-8).\<close>

definition kr_no_fill :: string where
  "kr_no_fill = [CHR 0xEC, CHR 0xB2, CHR 0xB4, CHR 0xEA, CHR 0xB2, CHR 0xB0, CHR 0xEC, CHR 0x88, CHR 0x98, CHR 0xEB,
     CHR 0x9F, CHR 0x89, CHR 0x20, CHR 0x30, CHR 0x20, CHR 0x28, CHR 0xEC, CHR 0xA0, CHR 0x95, CHR 0xEC,
     CHR 0x82, CHR 0xB0, CHR 0x20, CHR 0xEC, CHR 0x8B, CHR 0x9C, CHR 0x20, CHR 0xEB, CHR 0xB3, CHR 0xB5,
     CHR 0xEA, CHR 0xB5, CHR 0xAC, CHR 0x29]"

definition kr_not_found :: string where
  "kr_not_found = [CHR 0xEC, CHR 0xA3, CHR 0xBC, CHR 0xEB, CHR 0xAC, CHR 0xB8, CHR 0xEB, CHR 0x82, CHR 0xB4, CHR 0xEC,
     CHR 0x97, CHR 0xAD, CHR 0x2F, CHR 0xEB, CHR 0xB3, CHR 0xB4, CHR 0xEC, CHR 0x9C, CHR 0xA0, CHR 0xEC,
     CHR 0xA2, CHR 0x85, CHR 0xEB, CHR 0xAA, CHR 0xA9, CHR 0xEC, CHR 0x97, CHR 0x90, CHR 0xEC, CHR 0x84,
     CHR 0x9C, CHR 0x20, CHR 0xEB, CHR 0xAF, CHR 0xB8, CHR 0xEB, CHR 0xB0, CHR 0x9C, CHR 0xEA, CHR 0xB2,
     CHR 0xAC, CHR 0x20, CHR 0x28, CHR 0xEC, CHR 0xA0, CHR 0x95, CHR 0xEC, CHR 0x82, CHR 0xB0, CHR 0x20,
     CHR 0xEC, CHR 0x8B, CHR 0x9C, CHR 0x20, CHR 0xEB, CHR 0xB3, CHR 0xB5, CHR 0xEA, CHR 0xB5, CHR 0xAC,
     CHR 0x29]"

section \<open>What the broker says\<close>

record sync_env =
  se_now :: pydt
  se_provider :: broker_provider
  se_pending :: "pending_order_info list res"
  se_holdings :: "holding_info list res"

text \<open>\<open>str(order_id)\<close>: a missing id becomes the text \<open>None\<close>.\<close>

definition oid_text :: "string option \<Rightarrow> string" where
  "oid_text oid = (case oid of None \<Rightarrow> ''None'' | Some t \<Rightarrow> t)"

text \<open>The dictionaries built from the broker's lists: a later entry of a key replaces an earlier one.\<close>

definition order_lookup :: "pending_order_info list \<Rightarrow> string \<Rightarrow> pending_order_info option" where
  "order_lookup orders oid = find (\<lambda>m. po_order_id m = oid) (rev (filter (\<lambda>m. po_order_id m \<noteq> []) orders))"

definition holding_lookup :: "holding_info list \<Rightarrow> string \<Rightarrow> holding_info option" where
  "holding_lookup holdings symbol =
     find (\<lambda>h. normalize_krx_symbol (hi_symbol h) = symbol) (rev (filter (\<lambda>h. 0 < hi_quantity h) holdings))"

section \<open>Recovery of unconfirmed orders\<close>

record sync_summary =
  sy_provider :: "broker_provider option"
  sy_total :: nat
  sy_recovered :: nat
  sy_failed :: nat
  sy_skipped :: nat
  sy_error :: "string option"

definition new_summary :: sync_summary where
  "new_summary = \<lparr>sy_provider = None, sy_total = 0, sy_recovered = 0, sy_failed = 0, sy_skipped = 0,
     sy_error = None\<rparr>"

text \<open>The progress of the loop: summary, cancellations asked, the session's table.\<close>

record recovery =
  re_summary :: sync_summary
  re_cancelled :: "string list"
  re_db :: db

definition add_recovered :: "recovery \<Rightarrow> recovery" where
  "add_recovered a = a\<lparr>re_summary := (re_summary a)\<lparr>sy_recovered := Suc (sy_recovered (re_summary a))\<rparr>\<rparr>"

definition add_skipped :: "recovery \<Rightarrow> recovery" where
  "add_skipped a = a\<lparr>re_summary := (re_summary a)\<lparr>sy_skipped := Suc (sy_skipped (re_summary a))\<rparr>\<rparr>"

definition put_row :: "trade_result \<Rightarrow> recovery \<Rightarrow> recovery" where
  "put_row r a = a\<lparr>re_db := db_put r (re_db a)\<rparr>"

text \<open>The order is still in the broker's list, with a filled part.\<close>

definition confirm_matched :: "pending_order_info \<Rightarrow> trade_result \<Rightarrow> trade_result" where
  "confirm_matched m tr =
     (let price = po_order_price m
      in tr\<lparr>tr_status := CONFIRMED, tr_quantity := po_filled_qty m,
            tr_entry_price := (if 0 < price \<and> tr_side tr = ''BUY'' then price else tr_entry_price tr),
            tr_exit_price := (if 0 < price \<and> tr_side tr \<noteq> ''BUY'' \<and> tr_side tr = ''SELL'' then price else tr_exit_price tr),
            tr_notes := None\<rparr>)"

text \<open>\<open>CONFIRM_FAILED\<close> and an attempt to cancel the order; the outcome of the cancellation is only logged.\<close>

definition fail_unfilled :: "string \<Rightarrow> trade_result \<Rightarrow> recovery \<Rightarrow> recovery" where
  "fail_unfilled cause tr a =
     (let a' = put_row (tr\<lparr>tr_status := CONFIRM_FAILED, tr_notes := Some (Note_failed cause)\<rparr>) a;
          oid = oid_text (tr_order_id tr)
      in a'\<lparr>re_summary := (re_summary a')\<lparr>sy_failed := Suc (sy_failed (re_summary a'))\<rparr>,
            re_cancelled := (if oid = [] then re_cancelled a' else re_cancelled a' @ [oid])\<rparr>)"

text \<open>A sell that is no longer listed: the fill is what the account holds less than the table.\<close>

definition infers_sell :: "sync_env \<Rightarrow> int \<Rightarrow> int \<Rightarrow> bool" where
  "infers_sell env current_qty total_open_qty \<longleftrightarrow>
     se_provider env = KIWOOM \<and> 0 < total_open_qty \<and> 0 \<le> current_qty \<and> current_qty < total_open_qty"

definition recover_sell :: "sync_env \<Rightarrow> string \<Rightarrow> int \<Rightarrow> trade_result \<Rightarrow> recovery \<Rightarrow> recovery res" where
  "recover_sell env symbol inferred_qty tr a =
     (let exit_at = (case tr_exit_at tr of Some t \<Rightarrow> t | None \<Rightarrow> se_now env);
          reason = str_or (tr_exit_reason tr) ''SIGNAL'';
          tr' = tr\<lparr>tr_status := CONFIRMED, tr_quantity := inferred_qty, tr_exit_at := Some exit_at,
                   tr_exit_reason := reason\<rparr>
      in rbind (session_sell_fill (se_now env) symbol inferred_qty (tr_exit_price tr) reason exit_at
                  (db_put tr' (re_db a)))
           (\<lambda>(sf, s). Inr (add_recovered (put_row
              (tr'\<lparr>tr_notes := build_sell_fill_notes (sf_partial sf) (sf_applied sf)
                     (num_or (tr_quantity tr) inferred_qty) (sf_remaining_open sf) (sf_lots sf)\<rparr>)
              (a\<lparr>re_db := s\<rparr>)))))"

definition recover_buy :: "int \<Rightarrow> holding_info \<Rightarrow> trade_result \<Rightarrow> trade_result" where
  "recover_buy inferred_qty h tr =
     tr\<lparr>tr_status := CONFIRMED, tr_quantity := inferred_qty,
        tr_entry_price := (if tr_entry_price tr \<le> 0 \<and> 0 < hi_avg_buy_price h then hi_avg_buy_price h
                           else tr_entry_price tr),
        tr_notes := None\<rparr>"

definition recover_one ::
  "sync_env \<Rightarrow> pending_order_info list \<Rightarrow> holding_info list \<Rightarrow> trade_result \<Rightarrow> recovery \<Rightarrow> recovery res" where
  "recover_one env orders holdings tr a =
     (let symbol = normalize_krx_symbol (tr_symbol tr) in
      case order_lookup orders (oid_text (tr_order_id tr)) of
        Some m \<Rightarrow>
          Inr (if 0 < po_filled_qty m then add_recovered (put_row (confirm_matched m tr) a)
               else if se_provider env = KIWOOM then add_skipped a
               else fail_unfilled kr_no_fill tr a)
      | None \<Rightarrow>
          if tr_side tr = ''SELL'' then
            (let current_qty = (case holding_lookup holdings symbol of None \<Rightarrow> 0 | Some h \<Rightarrow> hi_quantity h);
                 total_open_qty = open_qty_of symbol (re_db a);
                 inferred_qty = total_open_qty - current_qty
             in if infers_sell env current_qty total_open_qty then
                  if inferred_qty \<le> 0 \<or> 0 < tr_quantity tr \<and> tr_quantity tr < inferred_qty
                  then Inr (add_skipped a)
                  else recover_sell env symbol inferred_qty tr a
                else Inr (fail_unfilled kr_not_found tr a))
          else if tr_side tr = ''BUY'' then
            (let skip_or_fail = (if se_provider env = KIWOOM then add_skipped a else fail_unfilled kr_not_found tr a)
             in case holding_lookup holdings symbol of
                  None \<Rightarrow> Inr skip_or_fail
                | Some h \<Rightarrow>
                    (let inferred_qty = min (hi_quantity h) (num_or (tr_quantity tr) (hi_quantity h))
                     in Inr (if 0 < inferred_qty then add_recovered (put_row (recover_buy inferred_qty h tr) a)
                             else skip_or_fail)))
          else if se_provider env = KIWOOM then Inr (add_skipped a)
          else Inr (fail_unfilled kr_not_found tr a))"

fun recover_all ::
  "sync_env \<Rightarrow> pending_order_info list \<Rightarrow> holding_info list \<Rightarrow> trade_result list \<Rightarrow> recovery \<Rightarrow>
     recovery \<times> py_exn option" where
  "recover_all env orders holdings [] a = (a, None)"
| "recover_all env orders holdings (tr # trs) a =
     (case recover_one env orders holdings tr a of
        Inl e \<Rightarrow> (a, Some e)
      | Inr a' \<Rightarrow> recover_all env orders holdings trs a')"

definition with_error :: "py_exn \<Rightarrow> sync_summary \<Rightarrow> sync_summary" where
  "with_error e sm = sm\<lparr>sy_error := Some (take 200 (exn_text e))\<rparr>"

text \<open>
  The whole of it: the summary, the cancellations asked for and the table. The exception of a row
  is caught outside the transaction, which is rolled back; what was cancelled stays cancelled.
\<close>

definition recover_pending_confirms :: "sync_env \<Rightarrow> db \<Rightarrow> sync_summary \<times> string list \<times> db" where
  "recover_pending_confirms env s =
     (let pending = get_pending_confirms s;
          sm = new_summary\<lparr>sy_total := length pending, sy_provider := Some (se_provider env)\<rparr>
      in if pending = [] then (sm, [], db_commit s)
         else case rbind (se_pending env) (\<lambda>orders. rbind (se_holdings env) (\<lambda>holdings. Inr (orders, holdings))) of
                Inl e \<Rightarrow> (with_error e sm, [], s)
              | Inr (orders, holdings) \<Rightarrow>
                  (case recover_all env orders holdings pending \<lparr>re_summary = sm, re_cancelled = [], re_db = s\<rparr> of
                     (a, None) \<Rightarrow> (re_summary a, re_cancelled a, db_commit (re_db a))
                   | (a, Some e) \<Rightarrow> (with_error e (re_summary a), re_cancelled a, s)))"

section \<open>Back filling\<close>

definition pending_buy_symbols :: "db \<Rightarrow> string set" where
  "pending_buy_symbols s =
     set (map (\<lambda>r. normalize_krx_symbol (tr_symbol r)) (filter (\<lambda>r. tr_side r = ''BUY'') (get_pending_confirms s)))"

definition backfill_row :: "pydt \<Rightarrow> string \<Rightarrow> int \<Rightarrow> int \<Rightarrow> holding_info \<Rightarrow> trade_result" where
  "backfill_row now symbol holding_qty open_qty h =
     (default_trade now)\<lparr>tr_symbol := symbol, tr_name := str_or (hi_name h) symbol, tr_side := ''BUY'',
        tr_strategy := ''HOLDING_SYNC'', tr_entry_price := hi_avg_buy_price h,
        tr_quantity := holding_qty - open_qty, tr_notes := Some (Note_backfill holding_qty open_qty),
        tr_status := CONFIRMED, tr_entry_at := Some now\<rparr>"

definition backfill_one :: "pydt \<Rightarrow> string set \<Rightarrow> holding_info \<Rightarrow> sync_summary \<times> db \<Rightarrow> (sync_summary \<times> db) res" where
  "backfill_one now pending_symbols h st =
     (let (sm, s) = st; symbol = normalize_krx_symbol (hi_symbol h); holding_qty = hi_quantity h;
          open_qty = open_qty_of symbol s;
          skip = Inr (sm\<lparr>sy_skipped := Suc (sy_skipped sm)\<rparr>, s)
      in if symbol = [] \<or> holding_qty \<le> 0 then Inr st
         else if symbol \<in> pending_symbols then skip
         else if holding_qty - open_qty \<le> 0 then Inr st
         else if hi_avg_buy_price h \<le> 0 then skip
         else rbind (db_insert (backfill_row now symbol holding_qty open_qty h) s) (\<lambda>(_, s').
                Inr (sm\<lparr>sy_recovered := Suc (sy_recovered sm)\<rparr>, s')))"

fun backfill_all :: "pydt \<Rightarrow> string set \<Rightarrow> holding_info list \<Rightarrow> sync_summary \<times> db \<Rightarrow> (sync_summary \<times> db) res" where
  "backfill_all now ps [] st = Inr st"
| "backfill_all now ps (h # hs) st = rbind (backfill_one now ps h st) (backfill_all now ps hs)"

text \<open>The key \<open>backfilled\<close> of this summary is kept in \<open>sy_recovered\<close>.\<close>

definition backfill_missing_open_buys :: "sync_env \<Rightarrow> db \<Rightarrow> sync_summary \<times> db" where
  "backfill_missing_open_buys env s =
     (let sm = new_summary\<lparr>sy_provider := Some (se_provider env)\<rparr>
      in case se_holdings env of
           Inl e \<Rightarrow> (with_error e sm, s)
         | Inr holdings \<Rightarrow>
             (case backfill_all (se_now env) (pending_buy_symbols s) holdings (sm, s) of
                Inl e \<Rightarrow> (with_error e sm, s)
              | Inr (sm', s') \<Rightarrow> (sm', db_commit s')))"

section \<open>Entry prices recorded as zero\<close>

text \<open>\<open>setdefault(key, []).append(row)\<close>: the groups in the order their first row appears.\<close>

fun group_insert :: "'k \<Rightarrow> 'a \<Rightarrow> ('k \<times> 'a list) list \<Rightarrow> ('k \<times> 'a list) list" where
  "group_insert k x [] = [(k, [x])]"
| "group_insert k x ((k', xs) # gs) = (if k' = k then (k', xs @ [x]) # gs else (k', xs) # group_insert k x gs)"

definition group_rows :: "trade_result list \<Rightarrow> (string \<times> trade_result list) list" where
  "group_rows trades = fold (\<lambda>r. group_insert (normalize_krx_symbol (tr_symbol r)) r) trades []"

definition known_value :: "trade_result list \<Rightarrow> real" where
  "known_value lots = sum_list (map (\<lambda>r. tr_entry_price r * of_int (tr_quantity r))
     (filter (\<lambda>r. 0 < tr_entry_price r) lots))"

definition unknown_qty :: "trade_result list \<Rightarrow> int" where
  "unknown_qty lots = sum_list (map tr_quantity (filter (\<lambda>r. tr_entry_price r \<le> 0) lots))"

definition repaired_price :: "holding_info \<Rightarrow> trade_result list \<Rightarrow> real" where
  "repaired_price h lots =
     (hi_avg_buy_price h * of_int (hi_quantity h) - known_value lots) / of_int (unknown_qty lots)"

definition set_entry_price :: "real \<Rightarrow> trade_result \<Rightarrow> db \<Rightarrow> db" where
  "set_entry_price p r = db_modify (tr_id r) (\<lambda>x. x\<lparr>tr_entry_price := p\<rparr>)"

definition repair_group ::
  "holding_info list \<Rightarrow> string set \<Rightarrow> string \<times> trade_result list \<Rightarrow> sync_summary \<times> db \<Rightarrow> sync_summary \<times> db" where
  "repair_group holdings pending_symbols g st =
     (let (symbol, trades) = g; (sm, s) = st;
          skip = (sm\<lparr>sy_skipped := sy_skipped sm + length trades\<rparr>, s);
          lots = get_all_open_buys symbol s
      in if symbol \<in> pending_symbols then skip
         else case holding_lookup holdings symbol of
           None \<Rightarrow> skip
         | Some h \<Rightarrow>
             if lots = [] then skip
             else if hi_quantity h \<noteq> lots_quantity lots then skip
             else if unknown_qty lots \<le> 0 then st
             else if repaired_price h lots \<le> 0 then skip
             else (sm\<lparr>sy_recovered := sy_recovered sm + length trades\<rparr>,
                   fold (set_entry_price (repaired_price h lots)) trades s))"

text \<open>The key \<open>repaired\<close> is kept in \<open>sy_recovered\<close>, \<open>candidates\<close> in \<open>sy_total\<close>.\<close>

definition repair_confirmed_zero_entry_prices :: "sync_env \<Rightarrow> db \<Rightarrow> sync_summary \<times> db" where
  "repair_confirmed_zero_entry_prices env s =
     (let zero_trades = get_confirmed_open_buys_with_zero_entry_price s;
          sm = new_summary\<lparr>sy_total := length zero_trades\<rparr>;
          sm' = sm\<lparr>sy_provider := Some (se_provider env)\<rparr>
      in if zero_trades = [] then (sm, db_commit s)
         else case se_holdings env of
           Inl e \<Rightarrow> (with_error e sm', s)
         | Inr holdings \<Rightarrow>
             (let (sm'', s') = fold (repair_group holdings (pending_buy_symbols s)) (group_rows zero_trades) (sm', s)
              in (sm'', db_commit s')))"

section \<open>Account and table compared\<close>

definition account_only :: "holding_info list \<Rightarrow> db \<Rightarrow> string set" where
  "account_only holdings s =
     set (map (\<lambda>h. normalize_krx_symbol (hi_symbol h)) (filter (\<lambda>h. 0 < hi_quantity h) holdings)) -
     set (map (\<lambda>r. normalize_krx_symbol (tr_symbol r)) (get_all_open s))"

definition table_only :: "holding_info list \<Rightarrow> db \<Rightarrow> string set" where
  "table_only holdings s =
     set (map (\<lambda>r. normalize_krx_symbol (tr_symbol r)) (get_all_open s)) -
     set (map (\<lambda>h. normalize_krx_symbol (hi_symbol h)) (filter (\<lambda>h. 0 < hi_quantity h) holdings))"

text \<open>The job: the three repairs in order, each asking the broker again.\<close>

definition portfolio_sync_job :: "sync_env \<Rightarrow> sync_env \<Rightarrow> sync_env \<Rightarrow> db \<Rightarrow> string list \<times> db" where
  "portfolio_sync_job recovering backfilling repairing s =
     (let (_, cancelled, s1) = recover_pending_confirms recovering s;
          (_, s2) = backfill_missing_open_buys backfilling s1;
          (_, s3) = repair_confirmed_zero_entry_prices repairing s2
      in (cancelled, s3))"

section \<open>Lemmas\<close>

lemma open_weight_stored [simp]: "open_weight code (stored_row r) = open_weight code r"
  by (simp add: open_weight_def)

lemma row_sum_commit: "(\<And>r. w (stored_row r) = w r) \<Longrightarrow> row_sum w (db_commit s) = row_sum w s"
  by (simp add: row_sum_def db_commit_def comp_def)

lemma open_qty_commit [simp]: "open_qty_of code (db_commit s) = open_qty_of code s"
  by (simp add: open_qty_row_sum row_sum_commit)

section \<open>A row before and after the settlement\<close>

text \<open>
  What the settlement may do to a row. A confirmed row that is not an open buy is not touched. An
  open buy keeps all but its quantity, its entry price and the fields of its exit: its price changes
  only when it was not known, to a positive one; while it stays open its quantity can only shrink;
  when it is closed, its profit is that of the quantity closed. An unconfirmed row stays, is marked
  failed, or is confirmed with a positive quantity. Rows in any other state stay.
\<close>

definition known_price_kept :: "trade_result \<Rightarrow> trade_result \<Rightarrow> bool" where
  "known_price_kept r r' \<longleftrightarrow>
     tr_entry_price r' = tr_entry_price r \<or> tr_entry_price r \<le> 0 \<and> 0 < tr_entry_price r'"

definition exit_booked :: "trade_result \<Rightarrow> bool" where
  "exit_booked r \<longleftrightarrow> tr_exit_at r \<noteq> None \<and> 0 < tr_quantity r \<and>
     tr_pnl r = (tr_exit_price r - tr_entry_price r) * of_int (tr_quantity r) \<and> (tr_is_win r \<longleftrightarrow> 0 < tr_pnl r)"

definition lot_fields :: "trade_result \<Rightarrow> trade_result \<Rightarrow> trade_result" where
  "lot_fields r' r = r\<lparr>tr_quantity := tr_quantity r', tr_entry_price := tr_entry_price r',
     tr_exit_price := tr_exit_price r', tr_pnl := tr_pnl r', tr_return_pct := tr_return_pct r',
     tr_is_win := tr_is_win r', tr_hold_days := tr_hold_days r', tr_exit_reason := tr_exit_reason r',
     tr_exit_at := tr_exit_at r'\<rparr>"

definition lot_changed :: "trade_result \<Rightarrow> trade_result \<Rightarrow> bool" where
  "lot_changed r r' \<longleftrightarrow> known_price_kept r r' \<and> tr_quantity r' \<le> tr_quantity r \<and>
     (r' = r\<lparr>tr_quantity := tr_quantity r', tr_entry_price := tr_entry_price r'\<rparr> \<and>
        (tr_quantity r' = tr_quantity r \<or> 0 < tr_quantity r') \<or>
      r' = lot_fields r' r \<and> exit_booked r')"

definition order_settled :: "trade_result \<Rightarrow> trade_result \<Rightarrow> bool" where
  "order_settled r r' \<longleftrightarrow> r' = r \<or>
     r' = r\<lparr>tr_status := CONFIRM_FAILED, tr_notes := tr_notes r'\<rparr> \<or>
     r' = (lot_fields r' r)\<lparr>tr_status := CONFIRMED, tr_notes := tr_notes r'\<rparr> \<and> 0 < tr_quantity r' \<and>
       (tr_entry_price r' = tr_entry_price r \<or> 0 < tr_entry_price r')"

definition row_settled :: "trade_result \<Rightarrow> trade_result \<Rightarrow> bool" where
  "row_settled r r' \<longleftrightarrow>
     (if is_open_buy r then lot_changed r r'
      else if tr_status r = PENDING_CONFIRM then order_settled r r' else r' = r)"

text \<open>What it may add: closed parts of lots, with their profit, and lots the account holds.\<close>

definition row_added :: "trade_result \<Rightarrow> bool" where
  "row_added r \<longleftrightarrow> tr_side r = ''BUY'' \<and> tr_status r = CONFIRMED \<and> tr_order_id r = None \<and> 0 < tr_quantity r \<and>
     (if tr_exit_at r = None then 0 < tr_entry_price r else exit_booked r)"

definition rows_settled :: "db \<Rightarrow> db \<Rightarrow> bool" where
  "rows_settled s s' \<longleftrightarrow> (\<forall>r \<in> set (db_rows s). \<exists>r' \<in> set (db_rows s'). row_settled r r') \<and>
     (\<forall>r' \<in> set (db_rows s'). (\<exists>r \<in> set (db_rows s). row_settled r r') \<or> row_added r')"

text \<open>Inside a session the rows may still carry time zones; they are compared as they are stored.\<close>

definition settles_to :: "trade_result \<Rightarrow> trade_result \<Rightarrow> bool" where
  "settles_to r r' \<longleftrightarrow> row_settled (stored_row r) (stored_row r')"

definition keeps_rows :: "db \<Rightarrow> db \<Rightarrow> bool" where
  "keeps_rows s s' \<longleftrightarrow> (\<forall>r \<in> set (db_rows s). \<exists>r' \<in> set (db_rows s'). settles_to r r') \<and>
     (\<forall>r' \<in> set (db_rows s'). (\<exists>r \<in> set (db_rows s). settles_to r r') \<or> row_added r')"

lemmas row_spec_defs = row_settled_def lot_changed_def order_settled_def lot_fields_def known_price_kept_def
  exit_booked_def

lemma row_settled_refl [intro, simp]: "row_settled r r"
  by (simp add: row_spec_defs)

lemma lot_changed_id: "lot_changed r r' \<Longrightarrow>
    tr_id r' = tr_id r \<and> tr_status r' = tr_status r \<and> tr_side r' = tr_side r \<and> tr_order_id r' = tr_order_id r"
  by (cases r; cases r') (auto simp: row_spec_defs)

lemma lot_changed_trans:
  "is_open_buy r' \<Longrightarrow> lot_changed r r' \<Longrightarrow> lot_changed r' r'' \<Longrightarrow> lot_changed r r''"
  by (cases r; cases r'; cases r'') (auto simp: row_spec_defs is_open_buy_def)

lemma order_then_lot:
  "tr_status r = PENDING_CONFIRM \<Longrightarrow> order_settled r r' \<Longrightarrow> is_open_buy r' \<Longrightarrow> lot_changed r' r'' \<Longrightarrow>
     order_settled r r''"
  by (cases r; cases r'; cases r'') (auto simp: row_spec_defs is_open_buy_def)

lemma order_settled_cases:
  "tr_status r = PENDING_CONFIRM \<Longrightarrow> order_settled r r' \<Longrightarrow> r' = r \<or> tr_status r' \<noteq> PENDING_CONFIRM"
  by (cases r; cases r') (auto simp: row_spec_defs)

lemma lot_changed_closed: "lot_changed r r' \<Longrightarrow> is_open_buy r \<Longrightarrow> \<not> is_open_buy r' \<Longrightarrow> exit_booked r'"
  by (cases r; cases r') (auto simp: row_spec_defs is_open_buy_def)

lemma row_settled_trans: "row_settled r r' \<Longrightarrow> row_settled r' r'' \<Longrightarrow> row_settled r r''"
proof -
  assume 1: "row_settled r r'" and 2: "row_settled r' r''"
  consider "is_open_buy r" | "\<not> is_open_buy r" "tr_status r = PENDING_CONFIRM"
    | "\<not> is_open_buy r" "tr_status r \<noteq> PENDING_CONFIRM" by blast
  then show ?thesis
  proof cases
    case 1
    then have lot: "lot_changed r r'" using \<open>row_settled r r'\<close> by (simp add: row_settled_def)
    have st: "tr_status r' = CONFIRMED" using lot_changed_id [OF lot] 1 by (simp add: is_open_buy_def)
    show ?thesis
    proof (cases "is_open_buy r'")
      case True
      then show ?thesis using 1 lot lot_changed_trans [of r' r r''] \<open>row_settled r' r''\<close>
        by (simp add: row_settled_def)
    next
      case False
      then have "r'' = r'" using st \<open>row_settled r' r''\<close> by (simp add: row_settled_def)
      then show ?thesis using \<open>row_settled r r'\<close> by simp
    qed
  next
    case 2
    then have ord: "order_settled r r'" using 1 by (simp add: row_settled_def)
    show ?thesis
    proof (cases "is_open_buy r'")
      case True
      then show ?thesis using 2 ord order_then_lot [of r r' r''] \<open>row_settled r' r''\<close>
        by (simp add: row_settled_def)
    next
      case False
      then show ?thesis using 2 ord order_settled_cases [of r r'] \<open>row_settled r' r''\<close>
        by (auto simp: row_settled_def split: if_splits)
    qed
  next
    case 3
    then show ?thesis using 1 2 by (simp add: row_settled_def)
  qed
qed

lemma settles_refl [intro, simp]: "settles_to r r"
  by (simp add: settles_to_def)

lemma settles_self_mem: "r \<in> A \<Longrightarrow> \<exists>x\<in>A. settles_to x r" "r \<in> A \<Longrightarrow> \<exists>x\<in>A. settles_to r x"
  by auto

lemma settles_trans: "settles_to r r' \<Longrightarrow> settles_to r' r'' \<Longrightarrow> settles_to r r''"
  unfolding settles_to_def by (rule row_settled_trans)

lemma settles_id: "settles_to r r' \<Longrightarrow> tr_id r' = tr_id r"
proof -
  have "row_settled x y \<Longrightarrow> tr_id y = tr_id x" for x y
    by (cases x; cases y) (auto simp: row_spec_defs split: if_splits)
  then show "settles_to r r' \<Longrightarrow> tr_id r' = tr_id r" by (force simp: settles_to_def)
qed

lemma settles_stored [simp]: "settles_to r (stored_row r') = settles_to r r'"
  by (simp add: settles_to_def stored_row_of_naive [OF stored_row_naive])

lemma added_stored [simp]: "row_added (stored_row r) = row_added r"
  by (simp add: row_added_def exit_booked_def stored_row_def)

lemma added_numbered [simp]: "row_added (r\<lparr>tr_id := i\<rparr>) = row_added r"
  by (simp add: row_added_def exit_booked_def)

lemma added_settles: "row_added r \<Longrightarrow> settles_to r r' \<Longrightarrow> row_added r'"
proof -
  have "row_added x \<Longrightarrow> row_settled x y \<Longrightarrow> row_added y" for x y
    by (cases x; cases y) (auto simp: row_added_def row_spec_defs is_open_buy_def split: if_splits)
  then show "row_added r \<Longrightarrow> settles_to r r' \<Longrightarrow> row_added r'"
    unfolding settles_to_def by (metis added_stored)
qed

lemma keeps_rows_refl [intro]: "keeps_rows s s"
  by (auto simp: keeps_rows_def)

lemma keeps_rows_trans [trans]: "keeps_rows s s' \<Longrightarrow> keeps_rows s' s'' \<Longrightarrow> keeps_rows s s''"
  unfolding keeps_rows_def by (meson settles_trans added_settles)

lemma keeps_rows_commit: "keeps_rows s s' \<Longrightarrow> keeps_rows s (db_commit s')"
  by (simp add: keeps_rows_def db_commit_def)

lemma keeps_rows_insert: "db_insert r s = Inr (i, s') \<Longrightarrow> row_added r \<Longrightarrow> keeps_rows s s'"
  by (auto simp: db_insert_def keeps_rows_def intro: settles_self_mem split: if_splits)

lemma keeps_rows_insert_all: "db_insert_all cs s = Inr s' \<Longrightarrow> list_all row_added cs \<Longrightarrow> keeps_rows s s'"
proof (induction cs arbitrary: s)
  case (Cons c cs)
  then obtain i s1 where "db_insert c s = Inr (i, s1)" "db_insert_all cs s1 = Inr s'" by (auto simp: rbind_eq_Inr)
  then show ?case using Cons by (auto intro: keeps_rows_trans keeps_rows_insert)
qed auto

lemma keeps_rows_modify:
  "(\<And>x. x \<in> set (db_rows s) \<Longrightarrow> tr_id x = i \<Longrightarrow> settles_to x (f x)) \<Longrightarrow> keeps_rows s (db_modify i f s)"
proof -
  assume f: "\<And>x. x \<in> set (db_rows s) \<Longrightarrow> tr_id x = i \<Longrightarrow> settles_to x (f x)"
  have "settles_to x (if tr_id x = i then f x else x)" if "x \<in> set (db_rows s)" for x using that f by simp
  then show ?thesis unfolding keeps_rows_def db_modify_def by (fastforce simp del: if_image_distrib)
qed

lemma keeps_rows_put:
  assumes "ids_ok s" and "tr \<in> set (db_rows s)" and "settles_to tr r"
  shows "keeps_rows s (db_put r s)"
  unfolding db_put_def
proof (rule keeps_rows_modify)
  fix x assume "x \<in> set (db_rows s)" "tr_id x = tr_id r"
  then have "x = tr" using assms settles_id [OF assms(3)] by (auto simp: ids_ok_def distinct_map dest: inj_onD)
  then show "settles_to x r" using assms(3) by simp
qed

lemma keeps_rows_puts:
  "list_all2 settles_to bs bs' \<Longrightarrow> ids_ok s \<Longrightarrow> distinct (map tr_id bs) \<Longrightarrow> set bs \<subseteq> set (db_rows s) \<Longrightarrow>
     keeps_rows s (fold db_put bs' s)"
proof (induction bs bs' arbitrary: s rule: list_all2_induct)
  case (Cons b bs b' bs')
  have "keeps_rows s (db_put b' s)" using Cons by (intro keeps_rows_put) auto
  moreover have "keeps_rows (db_put b' s) (fold db_put bs' (db_put b' s))"
  proof (rule Cons.IH)
    show "ids_ok (db_put b' s)" using Cons.prems(1) by (rule ids_ok_put)
    show "set bs \<subseteq> set (db_rows (db_put b' s))"
      using Cons.prems settles_id [OF Cons.hyps(1)] by (auto simp: db_put_def db_modify_def image_iff)
  qed (use Cons.prems in auto)
  ultimately show ?case by (auto intro: keeps_rows_trans)
qed auto


text \<open>A sell fill: the lots it closes, and the closed parts it adds.\<close>

lemma stored_lot:
  "is_open_buy b \<Longrightarrow> 0 < q \<Longrightarrow> q < tr_quantity b \<Longrightarrow> settles_to b (b\<lparr>tr_quantity := tr_quantity b - q\<rparr>)"
  by (simp add: settles_to_def row_settled_def lot_changed_def known_price_kept_def) (simp add: stored_row_def)

lemma stored_close:
  "is_open_buy b \<Longrightarrow> 0 < tr_quantity b \<Longrightarrow> q = tr_quantity b \<Longrightarrow>
     settles_to b (close_record p r t q (tr_entry_price b) d b)"
  by (simp add: settles_to_def row_settled_def lot_changed_def known_price_kept_def exit_booked_def)
    (simp add: stored_row_def close_record_def lot_fields_def)

lemma clone_added:
  "is_open_buy b \<Longrightarrow> 0 < q \<Longrightarrow>
     row_added (close_record p r t q (tr_entry_price b) d (build_partial_close_clone now symbol q b))"
  by (simp add: row_added_def exit_booked_def is_open_buy_def close_record_def)

lemma close_lots_settles:
  "close_lots now symbol price reason closed_at bs acc = Inr (bs', cs, acc') \<Longrightarrow> list_all is_open_buy bs \<Longrightarrow>
     list_all2 settles_to bs bs' \<and> list_all row_added cs"
proof (induction bs arbitrary: acc bs' cs acc')
  case (Cons b bs)
  consider "fa_remaining acc \<le> 0" | "0 < fa_remaining acc" "tr_quantity b \<le> 0"
    | "0 < fa_remaining acc" "0 < tr_quantity b" by linarith
  then show ?case
  proof cases
    case 3
    let ?q = "min (tr_quantity b) (fa_remaining acc)"
    from Cons.prems(1) 3 obtain b' c bs2 cs2 where
      lot: "close_lot now symbol price reason closed_at ?q b = Inr (b', c)"
      and rest: "close_lots now symbol price reason closed_at bs (acc_step price ?q b acc) = Inr (bs2, cs2, acc')"
      and eqs: "bs' = b' # bs2" "cs = c @ cs2"
      by (auto simp: rbind_eq_Inr Let_def)
    have b: "is_open_buy b" "0 < ?q" using Cons.prems(2) 3 by simp_all
    have "settles_to b b' \<and> list_all row_added c"
      using lot
    proof (cases rule: close_lot_cases)
      case (1 d)
      then show ?thesis using b stored_lot [OF b] clone_added [OF b] by simp
    next
      case (2 d)
      then have "?q = tr_quantity b" by simp
      then show ?thesis using b 2 stored_close [of b] 3 by simp
    qed
    then show ?thesis using Cons.IH [OF rest] Cons.prems(2) by (simp add: eqs)
  qed (use Cons in \<open>auto simp: rbind_eq_Inr intro: list_all2_refl\<close>)
qed simp

lemma keeps_rows_fill:
  assumes fill: "session_sell_fill now symbol qty price reason closed_at s = Inr (sf, s')"
    and ids: "ids_ok s" and sub: "set (get_all_open_buys symbol s) \<subseteq> set (db_rows t)" and "ids_ok t"
  obtains bs cs where "db_insert_all cs (fold db_put bs s) = Inr s'"
    "keeps_rows t (fold db_put bs t)" "list_all row_added cs"
    "tr_id ` set bs = tr_id ` set (get_all_open_buys symbol s)"
proof -
  from fill obtain bs cs acc where
    loop: "close_lots now symbol price reason closed_at (get_all_open_buys symbol s) (start_acc qty) = Inr (bs, cs, acc)"
    and ins: "db_insert_all cs (fold db_put bs s) = Inr s'"
    by (auto simp: session_sell_fill_def apply_sell_fill_to_open_buys_def rbind_eq_Inr)
  have "list_all is_open_buy (get_all_open_buys symbol s)"
    by (auto simp: list_all_iff mem_get_all_open_buys)
  note lots = close_lots_settles [OF loop this]
  have "keeps_rows t (fold db_put bs t)"
    using lots assms(4) distinct_open_buys [OF ids] sub by (intro keeps_rows_puts) auto
  moreover have "map tr_id bs = map tr_id (get_all_open_buys symbol s)"
    using lots settles_id by (auto simp: list_all2_conv_all_nth intro: nth_equalityI)
  then have "tr_id ` set bs = tr_id ` set (get_all_open_buys symbol s)" by (metis set_map)
  ultimately show thesis using that ins lots by blast
qed

text \<open>The row of the sell itself is put twice; the second is as if it had been put alone.\<close>

lemma put_put_same: "tr_id r2 = tr_id r1 \<Longrightarrow> db_put r2 (db_put r1 s) = db_put r2 s"
  by (auto simp: db_put_def db_modify_def)

lemma put_puts: "tr_id r \<notin> tr_id ` set bs \<Longrightarrow> db_put r (fold db_put bs s) = fold db_put bs (db_put r s)"
proof (induction bs arbitrary: s)
  case (Cons b bs)
  then have "db_put r (db_put b s) = db_put b (db_put r s)" by (auto simp: db_put_def db_modify_def)
  then show ?case using Cons.IH [of "db_put b s"] Cons.prems by simp
qed simp

lemma put_insert_all:
  "db_insert_all cs s = Inr s' \<Longrightarrow> tr_id r < db_seq s \<Longrightarrow> list_all (\<lambda>c. tr_order_id c = None) cs \<Longrightarrow>
     db_insert_all cs (db_put r s) = Inr (db_put r s')"
proof (induction cs arbitrary: s)
  case (Cons c cs)
  then obtain s1 where s1: "db_insert c s = Inr (db_seq s, s1)" "db_insert_all cs s1 = Inr s'"
    "db_seq s1 = Suc (db_seq s)"
    by (auto simp: rbind_eq_Inr db_insert_def split: if_splits)
  have "db_insert c (db_put r s) = Inr (db_seq s, db_put r s1)"
    using Cons.prems s1(1) by (auto simp: db_insert_def db_put_def db_modify_def split: if_splits)
  then show ?case using Cons.IH [OF s1(2)] Cons.prems s1(3) by simp
qed simp

section \<open>Back filling and recovery\<close>

text \<open>Back filling raises the open quantity to what the account holds, and never lowers it.\<close>

definition eligible :: "string set \<Rightarrow> string \<Rightarrow> holding_info \<Rightarrow> bool" where
  "eligible pending_symbols code h \<longleftrightarrow> normalize_krx_symbol (hi_symbol h) = code \<and> code \<noteq> [] \<and>
     0 < hi_quantity h \<and> code \<notin> pending_symbols \<and> 0 < hi_avg_buy_price h"

lemma backfill_insert:
  "db_insert (backfill_row now symbol q oq h) s = Inr (db_seq s, \<lparr>db_rows = db_rows s @
     [(backfill_row now symbol q oq h)\<lparr>tr_id := db_seq s\<rparr>], db_seq = Suc (db_seq s)\<rparr>)"
  by (simp add: db_insert_def backfill_row_def default_trade_def)

lemma open_weight_backfill:
  "open_weight code ((backfill_row now symbol q oq h)\<lparr>tr_id := i\<rparr>) = (if symbol = code then q - oq else 0)"
  by (simp add: open_weight_def backfill_row_def default_trade_def is_open_buy_def)

lemma backfill_one_qty:
  "\<exists>sm' s'. backfill_one now ps h (sm, s) = Inr (sm', s') \<and> sy_error sm' = sy_error sm \<and>
     open_qty_of code s' = (if eligible ps code h then max (hi_quantity h) (open_qty_of code s) else open_qty_of code s)"
  by (auto simp: backfill_one_def Let_def backfill_insert eligible_def open_qty_row_sum row_sum_def
      open_weight_backfill max_def split: if_splits)

lemma backfill_all_qty:
  "\<exists>sm' s'. backfill_all now ps hs (sm, s) = Inr (sm', s') \<and> sy_error sm' = sy_error sm \<and>
     open_qty_of code s' = fold max (map hi_quantity (filter (eligible ps code) hs)) (open_qty_of code s)"
proof (induction hs arbitrary: sm s)
  case (Cons h hs)
  obtain sm1 s1 where 1: "backfill_one now ps h (sm, s) = Inr (sm1, s1)" "sy_error sm1 = sy_error sm"
    "open_qty_of code s1 = (if eligible ps code h then max (hi_quantity h) (open_qty_of code s) else open_qty_of code s)"
    using backfill_one_qty by metis
  then show ?case using Cons.IH [of sm1 s1] by (auto split: if_splits)
qed simp

lemma backfill_one_ok:
  assumes "session_ok s" and "backfill_one now ps h (sm, s) = Inr (sm', s')"
  shows "session_ok s' \<and> keeps_rows s s'"
proof -
  have added: "row_added (backfill_row now code q oq h)" if "0 < q - oq" "0 < hi_avg_buy_price h" for code q oq
    using that by (simp add: row_added_def backfill_row_def default_trade_def)
  show ?thesis
    using assms by (auto simp: backfill_one_def Let_def rbind_eq_Inr added
        intro: session_ok_insert elim!: keeps_rows_insert split: if_splits)
qed

lemma backfill_all_ok:
  "session_ok s \<Longrightarrow> backfill_all now ps hs (sm, s) = Inr (sm', s') \<Longrightarrow> session_ok s' \<and> keeps_rows s s'"
proof (induction hs arbitrary: sm s)
  case (Cons h hs)
  from Cons.prems(2) obtain sm1 s1 where one: "backfill_one now ps h (sm, s) = Inr (sm1, s1)"
    and rest: "backfill_all now ps hs (sm1, s1) = Inr (sm', s')" by (auto simp: rbind_eq_Inr)
  have "session_ok s1 \<and> keeps_rows s s1" using backfill_one_ok [OF Cons.prems(1) one] .
  then show ?case using Cons.IH [OF _ rest] keeps_rows_trans [of s s1 s'] by simp
qed auto

text \<open>The loop of the recovery: each row is settled or skipped, none twice.\<close>

definition pending_weight :: "trade_result \<Rightarrow> int" where
  "pending_weight r = (if tr_status r = PENDING_CONFIRM then 1 else 0)"

definition settled_count :: "sync_summary \<Rightarrow> nat" where
  "settled_count sm = sy_recovered sm + sy_failed sm"

lemma pending_count: "int (length (get_pending_confirms s)) = row_sum pending_weight s"
proof -
  have "int (length (filter (\<lambda>r. tr_status r = PENDING_CONFIRM) xs)) = sum_list (map pending_weight xs)" for xs
    by (induction xs) (simp_all add: pending_weight_def)
  then show ?thesis by (simp add: get_pending_confirms_def row_sum_def)
qed

lemma pending_weight_puts:
  "list_all2 same_lot bs bs' \<Longrightarrow> sum_list (map pending_weight bs') = sum_list (map pending_weight bs)"
  by (induction bs bs' rule: list_all2_induct) (auto simp: pending_weight_def same_lot_def)

text \<open>The clone of a confirmed lot is confirmed, so a sell fill leaves the pending rows alone.\<close>

lemma close_lots_clones:
  "close_lots now symbol price reason closed_at bs acc = Inr (bs', cs, acc') \<Longrightarrow>
     list_all (\<lambda>r. tr_status r = CONFIRMED) bs \<Longrightarrow> list_all (\<lambda>c. tr_status c = CONFIRMED) cs"
proof (induction bs arbitrary: acc bs' cs acc')
  case (Cons b bs)
  consider "fa_remaining acc \<le> 0" | "0 < fa_remaining acc" "tr_quantity b \<le> 0"
    | "0 < fa_remaining acc" "0 < tr_quantity b" by linarith
  then show ?case
  proof cases
    case 3
    let ?q = "min (tr_quantity b) (fa_remaining acc)"
    from Cons.prems(1) 3 obtain b' c bs2 cs2 where
      lot: "close_lot now symbol price reason closed_at ?q b = Inr (b', c)"
      and rest: "close_lots now symbol price reason closed_at bs (acc_step price ?q b acc) = Inr (bs2, cs2, acc')"
      and eqs: "cs = c @ cs2"
      by (auto simp: rbind_eq_Inr Let_def)
    have "list_all (\<lambda>c. tr_status c = CONFIRMED) c"
      using lot Cons.prems(2) by (cases rule: close_lot_cases) simp_all
    then show ?thesis using Cons.IH [OF rest] Cons.prems(2) by (simp add: eqs)
  qed (use Cons in \<open>auto simp: rbind_eq_Inr\<close>)
qed simp

lemma sell_fill_parts:
  assumes "session_sell_fill now symbol qty price reason closed_at s = Inr (sf, s')"
  obtains bs cs where "list_all2 same_lot (get_all_open_buys symbol s) bs"
    "db_insert_all cs (fold db_put bs s) = Inr s'" "list_all (\<lambda>c. tr_status c = CONFIRMED) cs"
proof -
  from assms obtain bs cs acc where
    loop: "close_lots now symbol price reason closed_at (get_all_open_buys symbol s) (start_acc qty) = Inr (bs, cs, acc)"
    and ins: "db_insert_all cs (fold db_put bs s) = Inr s'"
    by (auto simp: session_sell_fill_def apply_sell_fill_to_open_buys_def rbind_eq_Inr)
  have "list_all (\<lambda>r. tr_status r = CONFIRMED) (get_all_open_buys symbol s)"
    by (simp add: list_all_iff mem_get_all_open_buys is_open_buy_def)
  then show thesis using that close_lots_same [OF loop] close_lots_clones [OF loop] ins by blast
qed

lemma sell_fill_pending:
  assumes "session_sell_fill now symbol qty price reason closed_at s = Inr (sf, s')" and "ids_ok s"
  shows "row_sum pending_weight s' = row_sum pending_weight s"
proof -
  from assms(1) obtain bs cs where same: "list_all2 same_lot (get_all_open_buys symbol s) bs"
    and ins: "db_insert_all cs (fold db_put bs s) = Inr s'" and cs: "list_all (\<lambda>c. tr_status c = CONFIRMED) cs"
    by (rule sell_fill_parts)
  have sub: "set (get_all_open_buys symbol s) \<subseteq> set (db_rows s)" by (auto simp: mem_get_all_open_buys)
  have "row_sum pending_weight s' = row_sum pending_weight (fold db_put bs s)"
    using cs by (intro row_sum_insert_all [OF ins]) (auto simp: pending_weight_def list_all_iff)
  also have "\<dots> = row_sum pending_weight s"
    using row_sum_puts [OF same assms(2) distinct_open_buys [OF assms(2)] sub] pending_weight_puts [OF same] by simp
  finally show ?thesis .
qed

lemma mem_put: "x \<in> set (db_rows s) \<Longrightarrow> tr_id x \<noteq> tr_id r \<Longrightarrow> x \<in> set (db_rows (db_put r s))"
  by (force simp: db_put_def db_modify_def)

lemma mem_puts: "x \<in> set (db_rows s) \<Longrightarrow> tr_id x \<notin> tr_id ` set rs \<Longrightarrow> x \<in> set (db_rows (fold db_put rs s))"
  by (induction rs arbitrary: s) (auto intro: mem_put)

lemma mem_insert_all: "db_insert_all cs s = Inr s' \<Longrightarrow> x \<in> set (db_rows s) \<Longrightarrow> x \<in> set (db_rows s')"
proof (induction cs arbitrary: s)
  case (Cons c cs)
  then obtain i s1 where "db_insert c s = Inr (i, s1)" "db_insert_all cs s1 = Inr s'" by (auto simp: rbind_eq_Inr)
  then show ?case using Cons by (auto simp: db_insert_def split: if_splits)
qed simp

lemma sell_fill_keeps:
  assumes "session_sell_fill now symbol qty price reason closed_at s = Inr (sf, s')" and "ids_ok s"
    and "x \<in> set (db_rows s)" and "\<not> is_open_buy x"
  shows "x \<in> set (db_rows s')"
proof -
  from assms(1) obtain bs cs where same: "list_all2 same_lot (get_all_open_buys symbol s) bs"
    and ins: "db_insert_all cs (fold db_put bs s) = Inr s'" by (rule sell_fill_parts)
  have "tr_id x \<notin> tr_id ` set (get_all_open_buys symbol s)"
  proof
    assume "tr_id x \<in> tr_id ` set (get_all_open_buys symbol s)"
    then obtain y where "y \<in> set (db_rows s)" "is_open_buy y" "tr_id y = tr_id x"
      by (auto simp: mem_get_all_open_buys)
    then have "y = x" using assms(2,3) by (auto simp: ids_ok_def distinct_map dest: inj_onD)
    then show False using \<open>is_open_buy y\<close> assms(4) by simp
  qed
  moreover have "tr_id ` set bs = tr_id ` set (get_all_open_buys symbol s)"
  proof -
    from same have "map tr_id bs = map tr_id (get_all_open_buys symbol s)"
      by (induction rule: list_all2_induct) (auto simp: same_lot_def)
    then show ?thesis by (metis set_map)
  qed
  ultimately have "tr_id x \<notin> tr_id ` set bs" by simp
  with assms(3) have "x \<in> set (db_rows (fold db_put bs s))" by (rule mem_puts)
  with ins show ?thesis by (rule mem_insert_all)
qed

text \<open>One row of the loop.\<close>

definition recovery_ok :: "trade_result list \<Rightarrow> recovery \<Rightarrow> bool" where
  "recovery_ok trs a \<longleftrightarrow> session_ok (re_db a) \<and> set trs \<subseteq> set (db_rows (re_db a)) \<and>
     distinct (map tr_id trs) \<and> list_all (\<lambda>r. tr_status r = PENDING_CONFIRM) trs \<and>
     row_sum pending_weight (re_db a) = int (sy_skipped (re_summary a) + length trs) \<and>
     length (re_cancelled a) \<le> sy_failed (re_summary a)"

lemma counters_simps [simp]:
  "re_db (add_recovered a) = re_db a" "re_db (add_skipped a) = re_db a" "re_db (put_row r a) = db_put r (re_db a)"
  "re_cancelled (add_recovered a) = re_cancelled a" "re_cancelled (add_skipped a) = re_cancelled a"
  "re_cancelled (put_row r a) = re_cancelled a" "re_summary (put_row r a) = re_summary a"
  "sy_skipped (re_summary (add_recovered a)) = sy_skipped (re_summary a)"
  "sy_skipped (re_summary (add_skipped a)) = Suc (sy_skipped (re_summary a))"
  "sy_failed (re_summary (add_recovered a)) = sy_failed (re_summary a)"
  "sy_failed (re_summary (add_skipped a)) = sy_failed (re_summary a)"
  "settled_count (re_summary (add_recovered a)) = Suc (settled_count (re_summary a))"
  "settled_count (re_summary (add_skipped a)) = settled_count (re_summary a)"
  by (simp_all add: add_recovered_def add_skipped_def put_row_def settled_count_def)

lemma fail_unfilled_simps [simp]:
  "re_db (fail_unfilled c tr a) = db_put (tr\<lparr>tr_status := CONFIRM_FAILED, tr_notes := Some (Note_failed c)\<rparr>) (re_db a)"
  "sy_skipped (re_summary (fail_unfilled c tr a)) = sy_skipped (re_summary a)"
  "settled_count (re_summary (fail_unfilled c tr a)) = Suc (settled_count (re_summary a))"
  "length (re_cancelled a) \<le> sy_failed (re_summary a) \<Longrightarrow>
     length (re_cancelled (fail_unfilled c tr a)) \<le> sy_failed (re_summary (fail_unfilled c tr a))"
  by (auto simp: fail_unfilled_def Let_def settled_count_def)

text \<open>Settling the first row of the rest: any update of it that leaves the pending state.\<close>

lemma recovery_ok_put:
  assumes "recovery_ok (tr # trs) a" and "tr_id r = tr_id tr" and "tr_order_id r = tr_order_id tr"
    and "tr_status r \<noteq> PENDING_CONFIRM"
  shows "session_ok (db_put r (re_db a)) \<and> set trs \<subseteq> set (db_rows (db_put r (re_db a))) \<and>
    row_sum pending_weight (db_put r (re_db a)) = int (sy_skipped (re_summary a) + length trs)"
proof (intro conjI)
  note ok = assms(1) [unfolded recovery_ok_def]
  have ids: "ids_ok (re_db a)" using ok by (simp add: session_ok_def)
  have mem: "tr \<in> set (db_rows (re_db a))" using ok by simp
  show "session_ok (db_put r (re_db a))"
  proof (rule session_ok_put)
    show "session_ok (re_db a)" using ok by simp
    fix x assume "x \<in> set (db_rows (re_db a))" "tr_id x = tr_id r"
    then have "x = tr" using mem ids assms(2) by (auto simp: ids_ok_def distinct_map dest: inj_onD)
    then show "tr_order_id x = tr_order_id r" by (simp add: assms(3))
  qed
  show "set trs \<subseteq> set (db_rows (db_put r (re_db a)))"
  proof
    fix x assume x: "x \<in> set trs"
    have "tr_id tr \<notin> tr_id ` set trs" using ok by simp
    then have "tr_id x \<noteq> tr_id r" using imageI [OF x, of tr_id] assms(2) by metis
    then show "x \<in> set (db_rows (db_put r (re_db a)))" using x ok by (intro mem_put) auto
  qed
  show "row_sum pending_weight (db_put r (re_db a)) = int (sy_skipped (re_summary a) + length trs)"
    using row_sum_put [OF ids mem assms(2), of pending_weight] ok assms(4) by (simp add: pending_weight_def)
qed

text \<open>What one row does to the books.\<close>

definition row_done :: "sync_env \<Rightarrow> trade_result list \<Rightarrow> recovery \<Rightarrow> recovery \<Rightarrow> bool" where
  "row_done env trs a a' \<longleftrightarrow> recovery_ok trs a' \<and> keeps_rows (re_db a) (re_db a') \<and>
     settled_count (re_summary a') + sy_skipped (re_summary a') =
       Suc (settled_count (re_summary a) + sy_skipped (re_summary a)) \<and>
     (if se_provider env = KIWOOM then sy_skipped (re_summary a) \<le> sy_skipped (re_summary a')
      else sy_skipped (re_summary a') = sy_skipped (re_summary a))"

text \<open>The updates of an unconfirmed row.\<close>

lemma failed_settles:
  "tr_status tr = PENDING_CONFIRM \<Longrightarrow> settles_to tr (tr\<lparr>tr_status := CONFIRM_FAILED, tr_notes := n\<rparr>)"
  by (simp add: settles_to_def row_settled_def is_open_buy_def order_settled_def) (simp add: stored_row_def)

lemma confirmed_settles:
  "tr_status tr = PENDING_CONFIRM \<Longrightarrow> r = (lot_fields r tr)\<lparr>tr_status := CONFIRMED, tr_notes := tr_notes r\<rparr> \<Longrightarrow>
     0 < tr_quantity r \<Longrightarrow> tr_entry_price r = tr_entry_price tr \<or> 0 < tr_entry_price r \<Longrightarrow> settles_to tr r"
  by (cases tr; cases r) (simp add: settles_to_def row_settled_def is_open_buy_def order_settled_def stored_row_def lot_fields_def)

lemma matched_settles:
  "tr_status tr = PENDING_CONFIRM \<Longrightarrow> 0 < po_filled_qty m \<Longrightarrow> settles_to tr (confirm_matched m tr)"
  by (rule confirmed_settles) (simp_all add: confirm_matched_def Let_def lot_fields_def)

lemma bought_settles:
  "tr_status tr = PENDING_CONFIRM \<Longrightarrow> 0 < q \<Longrightarrow> settles_to tr (recover_buy q h tr)"
  by (rule confirmed_settles) (simp_all add: recover_buy_def lot_fields_def)

lemma row_done_put:
  assumes "recovery_ok (tr # trs) a" and "tr_id r = tr_id tr" and "tr_order_id r = tr_order_id tr"
    and "tr_status r \<noteq> PENDING_CONFIRM" and settles: "settles_to tr r"
  shows "row_done env trs a (add_recovered (put_row r a))"
    and "re_db a' = db_put r (re_db a) \<Longrightarrow>
      sy_skipped (re_summary a') = sy_skipped (re_summary a) \<Longrightarrow>
      settled_count (re_summary a') = Suc (settled_count (re_summary a)) \<Longrightarrow>
      length (re_cancelled a') \<le> sy_failed (re_summary a') \<Longrightarrow> row_done env trs a a'"
proof -
  note ok = assms(1) [unfolded recovery_ok_def] and put = recovery_ok_put [OF assms(1-4)]
  have keep: "keeps_rows (re_db a) (db_put r (re_db a))"
    using ok settles by (intro keeps_rows_put [of _ tr]) (auto simp: session_ok_def)
  show "row_done env trs a (add_recovered (put_row r a))"
    using ok put keep by (simp add: row_done_def recovery_ok_def)
  show "row_done env trs a a'" if "re_db a' = db_put r (re_db a)"
      "sy_skipped (re_summary a') = sy_skipped (re_summary a)"
      "settled_count (re_summary a') = Suc (settled_count (re_summary a))"
      "length (re_cancelled a') \<le> sy_failed (re_summary a')"
    using ok put keep that by (simp add: row_done_def recovery_ok_def)
qed

lemma row_done_fail: "recovery_ok (tr # trs) a \<Longrightarrow> row_done env trs a (fail_unfilled c tr a)"
  by (rule row_done_put(2) [of tr _ _ "tr\<lparr>tr_status := CONFIRM_FAILED, tr_notes := Some (Note_failed c)\<rparr>"])
    (simp_all add: recovery_ok_def failed_settles)

lemma row_done_skip: "recovery_ok (tr # trs) a \<Longrightarrow> se_provider env = KIWOOM \<Longrightarrow> row_done env trs a (add_skipped a)"
  by (auto simp: row_done_def recovery_ok_def)

lemma recover_sell_parts:
  assumes "recover_sell env symbol q tr a = Inr a'"
  obtains r1 r2 sf s' closed reason where
    "tr_id r1 = tr_id tr" "tr_order_id r1 = tr_order_id tr" "tr_status r1 = CONFIRMED" "\<not> is_open_buy r1"
    "tr_quantity r1 = q" "tr_id r2 = tr_id tr" "tr_order_id r2 = tr_order_id tr" "tr_status r2 = CONFIRMED" "\<not> is_open_buy r2"
    "session_sell_fill (se_now env) symbol q (tr_exit_price tr) reason closed (db_put r1 (re_db a)) = Inr (sf, s')"
    "a' = add_recovered (put_row r2 (a\<lparr>re_db := s'\<rparr>))"
    "tr_status tr = PENDING_CONFIRM \<Longrightarrow> 0 < q \<Longrightarrow> settles_to tr r2"
proof -
  define closed where "closed = (case tr_exit_at tr of Some t \<Rightarrow> t | None \<Rightarrow> se_now env)"
  define r1 where "r1 = tr\<lparr>tr_status := CONFIRMED, tr_quantity := q, tr_exit_at := Some closed,
     tr_exit_reason := str_or (tr_exit_reason tr) ''SIGNAL''\<rparr>"
  from assms obtain sf s' where
    fill: "session_sell_fill (se_now env) symbol q (tr_exit_price tr) (str_or (tr_exit_reason tr) ''SIGNAL'') closed
      (db_put r1 (re_db a)) = Inr (sf, s')"
    and a': "a' = add_recovered (put_row (r1\<lparr>tr_notes := build_sell_fill_notes (sf_partial sf) (sf_applied sf)
        (num_or (tr_quantity tr) q) (sf_remaining_open sf) (sf_lots sf)\<rparr>) (a\<lparr>re_db := s'\<rparr>))"
    unfolding recover_sell_def Let_def closed_def [symmetric] r1_def [symmetric] by (auto simp: rbind_eq_Inr)
  have "settles_to tr (r1\<lparr>tr_notes := n\<rparr>)" if "tr_status tr = PENDING_CONFIRM" "0 < q" for n
    using that by (intro confirmed_settles) (simp_all add: r1_def lot_fields_def)
  then show thesis
    by (intro that [OF _ _ _ _ _ _ _ _ _ fill a']) (simp_all add: r1_def is_open_buy_def)
qed

text \<open>The recovered sell: as if its final row had been put before the lots are closed.\<close>

lemma recovered_sell_keeps:
  assumes ok: "session_ok s" and tr: "tr \<in> set (db_rows s)" and settles: "settles_to tr r2"
    and r1: "tr_id r1 = tr_id tr" "tr_order_id r1 = tr_order_id tr" "\<not> is_open_buy r1"
    and fill: "session_sell_fill now symbol q p reason closed_at (db_put r1 s) = Inr (sf, s')"
  shows "keeps_rows s (db_put r2 s')"
proof -
  have ids: "ids_ok s" "ids_ok (db_put r1 s)" "ids_ok (db_put r2 s)" using ok ids_ok_put by (auto simp: session_ok_def)
  have id2: "tr_id r2 = tr_id r1" using settles_id [OF settles] r1(1) by simp
  let ?lots = "get_all_open_buys symbol (db_put r1 s)"
  have lots: "x \<in> set (db_rows s) \<and> tr_id x \<noteq> tr_id r1" if "x \<in> set ?lots" for x
    using that r1(3) by (auto simp: mem_get_all_open_buys db_put_def db_modify_def split: if_splits)
  have sub: "set ?lots \<subseteq> set (db_rows (db_put r2 s))" using lots id2 by (auto intro: mem_put)
  obtain bs cs where ins: "db_insert_all cs (fold db_put bs (db_put r1 s)) = Inr s'"
    and kept: "keeps_rows (db_put r2 s) (fold db_put bs (db_put r2 s))" and cs: "list_all row_added cs"
    and bs: "tr_id ` set bs = tr_id ` set ?lots"
    by (rule keeps_rows_fill [OF fill ids(2) sub ids(3)])
  have free: "tr_id r2 \<notin> tr_id ` set bs" unfolding bs using lots id2 by (metis image_iff)
  have seq: "db_seq (fold db_put bs t) = db_seq t" for t
    by (induction bs arbitrary: t) (simp_all add: db_put_def db_modify_def)
  have "tr_id r2 < db_seq (fold db_put bs (db_put r1 s))"
    using ids(1) tr id2 r1(1) by (simp add: seq ids_ok_def) (simp add: db_put_def db_modify_def)
  then have "db_insert_all cs (db_put r2 (fold db_put bs (db_put r1 s))) = Inr (db_put r2 s')"
    using cs by (intro put_insert_all [OF ins]) (auto simp: list_all_iff row_added_def)
  then have "db_insert_all cs (fold db_put bs (db_put r2 s)) = Inr (db_put r2 s')"
    by (simp add: put_puts [OF free] put_put_same [OF id2])
  then have "keeps_rows (fold db_put bs (db_put r2 s)) (db_put r2 s')" using cs by (rule keeps_rows_insert_all)
  moreover have "keeps_rows s (db_put r2 s)" using ids(1) tr settles by (rule keeps_rows_put)
  ultimately show ?thesis using kept by (blast intro: keeps_rows_trans)
qed

lemma row_done_sell:
  assumes "recovery_ok (tr # trs) a" and run: "recover_sell env symbol q tr a = Inr a'" and q: "0 < q"
  shows "row_done env trs a a'"
proof -
  note ok = assms(1) [unfolded recovery_ok_def]
  from run obtain r1 r2 sf s' closed reason where
    r1: "tr_id r1 = tr_id tr" "tr_order_id r1 = tr_order_id tr" "tr_status r1 = CONFIRMED" "\<not> is_open_buy r1"
    and r2: "tr_id r2 = tr_id tr" "tr_order_id r2 = tr_order_id tr" "tr_status r2 = CONFIRMED" "\<not> is_open_buy r2"
    and fill: "session_sell_fill (se_now env) symbol q (tr_exit_price tr) reason closed (db_put r1 (re_db a)) = Inr (sf, s')"
    and a': "a' = add_recovered (put_row r2 (a\<lparr>re_db := s'\<rparr>))"
    and settles: "tr_status tr = PENDING_CONFIRM \<Longrightarrow> 0 < q \<Longrightarrow> settles_to tr r2"
    by (rule recover_sell_parts) blast
  let ?s1 = "db_put r1 (re_db a)"
  have st: "tr_status r1 \<noteq> PENDING_CONFIRM" using r1(3) by simp
  note put = recovery_ok_put [OF assms(1) r1(1,2) st]
  have ids1: "ids_ok ?s1" using put by (simp add: session_ok_def)
  have s': "session_ok s'" using session_ok_sell_fill [OF _ fill] put by blast
  then have ids': "ids_ok s'" by (simp add: session_ok_def)
  have "r1 \<in> set (db_rows ?s1)" using ok r1(1) by (auto simp: db_put_def db_modify_def image_iff)
  then have mem: "r1 \<in> set (db_rows s')" by (rule sell_fill_keeps [OF fill ids1 _ r1(4)])
  have sub: "set trs \<subseteq> set (db_rows s')"
  proof
    fix x assume x: "x \<in> set trs"
    then have "\<not> is_open_buy x" using ok by (auto simp: list_all_iff is_open_buy_def)
    then show "x \<in> set (db_rows s')" using x put by (intro sell_fill_keeps [OF fill ids1]) auto
  qed
  have id2: "tr_id r2 = tr_id r1" using r1 r2 by simp
  have "session_ok (db_put r2 s')"
  proof (rule session_ok_put [OF s'])
    fix x assume "x \<in> set (db_rows s')" "tr_id x = tr_id r2"
    then have "x = r1" using mem ids' id2 by (auto simp: ids_ok_def distinct_map dest: inj_onD)
    then show "tr_order_id x = tr_order_id r2" using r1 r2 by simp
  qed
  moreover have "set trs \<subseteq> set (db_rows (db_put r2 s'))"
  proof
    fix x assume x: "x \<in> set trs"
    have "tr_id tr \<notin> tr_id ` set trs" using ok by simp
    then have "tr_id x \<noteq> tr_id r2" using imageI [OF x, of tr_id] r2(1) by metis
    then show "x \<in> set (db_rows (db_put r2 s'))" using x sub by (intro mem_put) auto
  qed
  moreover have "row_sum pending_weight (db_put r2 s') = row_sum pending_weight ?s1"
    using row_sum_put [OF ids' mem id2, of pending_weight] sell_fill_pending [OF fill ids1] r1(3) r2(3)
    by (simp add: pending_weight_def)
  moreover have "keeps_rows (re_db a) (db_put r2 s')"
    using ok settles q r1 by (intro recovered_sell_keeps [OF _ _ _ _ _ _ fill]) auto
  ultimately show ?thesis using ok put by (simp add: row_done_def recovery_ok_def a')
qed

lemma recover_one_done:
  assumes ok: "recovery_ok (tr # trs) a" and run: "recover_one env orders holdings tr a = Inr a'"
  shows "row_done env trs a a'"
proof -
  note put = row_done_put(1) [OF ok]
  have pending: "tr_status tr = PENDING_CONFIRM" using ok by (simp add: recovery_ok_def)
  have conf: "0 < po_filled_qty m \<Longrightarrow> row_done env trs a (add_recovered (put_row (confirm_matched m tr) a))" for m
    by (rule put) (simp_all add: matched_settles [OF pending], simp_all add: confirm_matched_def Let_def)
  have buy: "0 < q \<Longrightarrow> row_done env trs a (add_recovered (put_row (recover_buy q h tr) a))" for q h
    by (rule put) (simp_all add: bought_settles [OF pending], simp_all add: recover_buy_def)
  note branches = conf buy row_done_fail [OF ok] row_done_skip [OF ok] row_done_sell [OF ok]
  show ?thesis
  proof (cases "order_lookup orders (oid_text (tr_order_id tr))")
    case None
    then show ?thesis using run branches
      by (auto simp: recover_one_def Let_def infers_sell_def split: if_splits option.splits)
  next
    case (Some m)
    then show ?thesis using run branches by (auto simp: recover_one_def Let_def split: if_splits)
  qed
qed

lemma recover_all_done:
  "recovery_ok trs a \<Longrightarrow> recover_all env orders holdings trs a = (a', None) \<Longrightarrow>
     recovery_ok [] a' \<and> keeps_rows (re_db a) (re_db a') \<and>
     settled_count (re_summary a') + sy_skipped (re_summary a') =
       length trs + settled_count (re_summary a) + sy_skipped (re_summary a) \<and>
     (se_provider env \<noteq> KIWOOM \<longrightarrow> sy_skipped (re_summary a') = sy_skipped (re_summary a))"
proof (induction trs arbitrary: a)
  case (Cons tr trs)
  then obtain a1 where one: "recover_one env orders holdings tr a = Inr a1"
    and rest: "recover_all env orders holdings trs a1 = (a', None)" by (auto split: sum.splits)
  have d: "row_done env trs a a1" using Cons.prems(1) one by (rule recover_one_done)
  then have "recovery_ok trs a1" by (simp add: row_done_def)
  note IH = Cons.IH [OF this rest]
  have "keeps_rows (re_db a) (re_db a')" using d IH keeps_rows_trans [of "re_db a" "re_db a1"] by (simp add: row_done_def)
  then show ?case using d IH by (auto simp: row_done_def split: if_splits)
qed auto

section \<open>The repair of entry prices\<close>

lemma group_insert_map: "map_of (group_insert k x gs) =
    (map_of gs)(k \<mapsto> (case map_of gs k of None \<Rightarrow> [] | Some xs \<Rightarrow> xs) @ [x])"
  by (induction gs) (auto simp: fun_eq_iff)

lemma group_insert_keys: "fst ` set (group_insert k x gs) = insert k (fst ` set gs)"
  by (induction k x gs rule: group_insert.induct) (simp_all add: insert_commute)

lemma group_insert_distinct: "distinct (map fst gs) \<Longrightarrow> distinct (map fst (group_insert k x gs))"
  by (induction gs) (auto simp: group_insert_keys)

lemma group_rows_spec:
  "distinct (map fst (group_rows trades)) \<and>
   map_of (group_rows trades) k =
     (let ts = filter (\<lambda>r. normalize_krx_symbol (tr_symbol r) = k) trades in if ts = [] then None else Some ts)"
proof (induction trades arbitrary: k rule: rev_induct)
  case Nil
  then show ?case by (simp add: group_rows_def)
next
  case (snoc r trades)
  have step: "group_rows (trades @ [r]) = group_insert (normalize_krx_symbol (tr_symbol r)) r (group_rows trades)"
    by (simp add: group_rows_def)
  show ?case
    using snoc.IH by (auto simp: step group_insert_map group_insert_distinct Let_def)
qed

text \<open>Everything a repair reads of a symbol is a function of the rows of that symbol.\<close>

definition view :: "string \<Rightarrow> db \<Rightarrow> trade_result list" where
  "view code s = filter (\<lambda>r. tr_symbol r = code) (db_rows s)"

lemma open_buys_view: "get_all_open_buys code s = sort_key tr_entry_at (filter is_open_buy (view code s))"
  by (simp add: get_all_open_buys_def view_def conj_commute)

lemma sum_open_buys:
  "sum_list (map f (get_all_open_buys code s)) = (sum_list (map f (filter is_open_buy (view code s))) :: 'a::comm_monoid_add)"
proof -
  have "mset (get_all_open_buys code s) = mset (filter is_open_buy (view code s))" by (simp add: open_buys_view)
  then show ?thesis by (metis mset_map sum_mset_sum_list)
qed

definition reprice :: "real \<Rightarrow> nat set \<Rightarrow> trade_result \<Rightarrow> trade_result" where
  "reprice p ids r = (if tr_id r \<in> ids then r\<lparr>tr_entry_price := p\<rparr> else r)"

lemma reprice_simps [simp]:
  "tr_id (reprice p ids r) = tr_id r" "tr_symbol (reprice p ids r) = tr_symbol r"
  "tr_quantity (reprice p ids r) = tr_quantity r" "is_open_buy (reprice p ids r) = is_open_buy r"
  "tr_order_id (reprice p ids r) = tr_order_id r" "tr_status (reprice p ids r) = tr_status r"
  by (simp_all add: reprice_def is_open_buy_def)

lemma rows_repriced: "db_rows (fold (set_entry_price p) ts s) = map (reprice p (tr_id ` set ts)) (db_rows s) \<and>
    db_seq (fold (set_entry_price p) ts s) = db_seq s"
proof (induction ts arbitrary: s)
  case (Cons t ts)
  have "db_rows (set_entry_price p t s) = map (reprice p {tr_id t}) (db_rows s)"
    by (simp add: set_entry_price_def db_modify_def reprice_def)
  moreover have "reprice p (tr_id ` set ts) \<circ> reprice p {tr_id t} = reprice p (tr_id ` set (t # ts))"
    by (auto simp: fun_eq_iff reprice_def)
  moreover have "db_seq (set_entry_price p t s) = db_seq s" by (simp add: set_entry_price_def db_modify_def)
  ultimately show ?case using Cons.IH [of "set_entry_price p t s"] by simp
qed (simp add: reprice_def map_idI)

lemma view_repriced: "view code (fold (set_entry_price p) ts s) = map (reprice p (tr_id ` set ts)) (view code s)"
  by (simp add: view_def rows_repriced filter_map comp_def)

definition repair_price_for :: "holding_info list \<Rightarrow> string set \<Rightarrow> string \<Rightarrow> db \<Rightarrow> real option" where
  "repair_price_for holdings ps code s =
     (let lots = get_all_open_buys code s
      in if code \<in> ps then None
         else case holding_lookup holdings code of None \<Rightarrow> None
              | Some h \<Rightarrow> if hi_quantity h = open_qty_of code s \<and> 0 < unknown_qty lots \<and> 0 < repaired_price h lots
                         then Some (repaired_price h lots) else None)"

lemma repair_group_db:
  "snd (repair_group holdings ps (k, ts) (sm, s)) =
     (case repair_price_for holdings ps k s of None \<Rightarrow> s | Some p \<Rightarrow> fold (set_entry_price p) ts s)"
  by (auto simp: repair_group_def repair_price_for_def Let_def open_qty_of_def unknown_qty_def split: option.splits)

lemma repair_price_view: "view k s = view k s' \<Longrightarrow> repair_price_for holdings ps k s = repair_price_for holdings ps k s'"
  by (simp only: repair_price_for_def open_qty_of_def open_buys_view)

text \<open>A group owns its rows: no row of another symbol carries one of its numbers.\<close>

definition owns :: "db \<Rightarrow> string \<times> trade_result list \<Rightarrow> bool" where
  "owns s g \<longleftrightarrow> (\<forall>r \<in> set (db_rows s). tr_id r \<in> tr_id ` set (snd g) \<longrightarrow> tr_symbol r = fst g)"

lemma owns_repriced: "owns s g \<Longrightarrow> owns (fold (set_entry_price p) ts s) g"
  by (auto simp: owns_def rows_repriced)

lemma owns_repaired: "owns s g \<Longrightarrow> owns (snd (repair_group holdings ps g' (sm, s))) g"
  by (cases g') (auto simp: repair_group_db owns_repriced split: option.splits)

lemma view_other: "owns s (k, ts) \<Longrightarrow> k \<noteq> code \<Longrightarrow> view code (fold (set_entry_price p) ts s) = view code s"
  by (subst view_repriced) (auto simp: view_def owns_def reprice_def intro!: map_idI)

lemma repair_other: "owns s (k, ts) \<Longrightarrow> k \<noteq> code \<Longrightarrow> view code (snd (repair_group holdings ps (k, ts) (sm, s))) = view code s"
  by (simp add: repair_group_db view_other split: option.split)

lemma repair_none:
  "list_all (owns s) gs \<Longrightarrow> code \<notin> fst ` set gs \<Longrightarrow>
     view code (snd (fold (repair_group holdings ps) gs (sm, s))) = view code s"
proof (induction gs arbitrary: sm s)
  case (Cons g gs)
  obtain k ts where g: "g = (k, ts)" by (cases g)
  obtain sm1 s1 where 1: "repair_group holdings ps g (sm, s) = (sm1, s1)" by fastforce
  then have s1: "s1 = snd (repair_group holdings ps g (sm, s))" by simp
  have "list_all (owns s1) gs" using Cons.prems(1) by (auto simp: s1 list_all_iff intro: owns_repaired)
  moreover have "view code s1 = view code s" using Cons.prems g unfolding s1 g by (intro repair_other) auto
  ultimately show ?case using Cons 1 by simp
qed simp

lemma repair_own:
  "list_all (owns s) gs \<Longrightarrow> distinct (map fst gs) \<Longrightarrow> map_of gs code = Some ts \<Longrightarrow>
     view code (snd (fold (repair_group holdings ps) gs (sm, s))) =
       (case repair_price_for holdings ps code s of None \<Rightarrow> view code s
        | Some p \<Rightarrow> map (reprice p (tr_id ` set ts)) (view code s))"
proof (induction gs arbitrary: sm s)
  case (Cons g gs)
  obtain k us where g: "g = (k, us)" by (cases g)
  obtain sm1 s1 where 1: "repair_group holdings ps g (sm, s) = (sm1, s1)" by fastforce
  then have s1: "s1 = snd (repair_group holdings ps g (sm, s))" by simp
  have own: "list_all (owns s1) gs" using Cons.prems(1) by (auto simp: s1 list_all_iff intro: owns_repaired)
  show ?case
  proof (cases "k = code")
    case True
    have "us = ts" using Cons.prems(3) g True by simp
    have "view code (snd (fold (repair_group holdings ps) gs (sm1, s1))) = view code s1"
      using own Cons.prems(2) g True by (intro repair_none) (auto simp: image_iff)
    then show ?thesis using 1 g True \<open>us = ts\<close>
      by (simp add: s1 repair_group_db view_repriced split: option.split)
  next
    case False
    have v: "view code s1 = view code s" using Cons.prems(1) False unfolding s1 g by (intro repair_other) auto
    have "view code (snd (fold (repair_group holdings ps) gs (sm1, s1))) =
        (case repair_price_for holdings ps code s1 of None \<Rightarrow> view code s1
         | Some p \<Rightarrow> map (reprice p (tr_id ` set ts)) (view code s1))"
      using own Cons.prems g False by (intro Cons.IH) auto
    then show ?thesis by (simp only: fold.simps comp_apply 1 v repair_price_view [OF v])
  qed
qed simp

text \<open>What a repair does to the cost and the quantities of the open lots.\<close>

definition cost_of :: "string \<Rightarrow> db \<Rightarrow> real" where
  "cost_of code s = sum_list (map (\<lambda>r. tr_entry_price r * of_int (tr_quantity r)) (get_all_open_buys code s))"

lemma sum_split_priced:
  "sum_list (map (\<lambda>r. (if tr_entry_price r \<le> 0 then p else tr_entry_price r) * of_int (tr_quantity r)) lots) =
     known_value lots + p * of_int (unknown_qty lots)"
  by (induction lots) (auto simp: known_value_def unknown_qty_def algebra_simps)

lemma zero_prices_mem:
  "r \<in> set (get_confirmed_open_buys_with_zero_entry_price s) \<longleftrightarrow>
     r \<in> set (db_rows s) \<and> is_open_buy r \<and> tr_entry_price r \<le> 0"
  by (auto simp: get_confirmed_open_buys_with_zero_entry_price_def)

lemma view_commit: "view code (db_commit s) = map stored_row (view code s)"
  by (simp add: view_def db_commit_def filter_map comp_def)

lemma cost_commit [simp]: "cost_of code (db_commit s) = cost_of code s"
  by (simp add: cost_of_def sum_open_buys view_commit filter_map comp_def)

text \<open>The rows with a zero price, grouped: each group is the zero priced rows of its symbol.\<close>

definition normalized :: "db \<Rightarrow> bool" where
  "normalized s \<longleftrightarrow> (\<forall>r \<in> set (db_rows s). normalize_krx_symbol (tr_symbol r) = tr_symbol r)"

definition zero_group :: "string \<Rightarrow> db \<Rightarrow> trade_result list" where
  "zero_group k s =
     filter (\<lambda>r. normalize_krx_symbol (tr_symbol r) = k) (get_confirmed_open_buys_with_zero_entry_price s)"

lemma row_unique: "ids_ok s \<Longrightarrow> x \<in> set (db_rows s) \<Longrightarrow> y \<in> set (db_rows s) \<Longrightarrow> tr_id x = tr_id y \<Longrightarrow> x = y"
  by (auto simp: ids_ok_def distinct_map dest: inj_onD)

lemma zero_group_mem: "normalized s \<Longrightarrow>
    r \<in> set (zero_group k s) \<longleftrightarrow> r \<in> set (db_rows s) \<and> tr_symbol r = k \<and> is_open_buy r \<and> tr_entry_price r \<le> 0"
  by (auto simp: zero_group_def zero_prices_mem normalized_def)

lemma zero_groups:
  "map_of (group_rows (get_confirmed_open_buys_with_zero_entry_price s)) k =
     (if zero_group k s = [] then None else Some (zero_group k s))"
  using group_rows_spec [of "get_confirmed_open_buys_with_zero_entry_price s" k]
  by (simp add: zero_group_def Let_def)

lemma groups_own:
  assumes "ids_ok s" and "normalized s"
  shows "list_all (owns s) (group_rows (get_confirmed_open_buys_with_zero_entry_price s))"
  unfolding list_all_iff
proof
  fix g assume g: "g \<in> set (group_rows (get_confirmed_open_buys_with_zero_entry_price s))"
  obtain k ts where kt: "g = (k, ts)" by (cases g)
  have "map_of (group_rows (get_confirmed_open_buys_with_zero_entry_price s)) k = Some ts"
    using g kt group_rows_spec by (intro map_of_is_SomeI) auto
  then have ts: "ts = zero_group k s" by (simp add: zero_groups split: if_splits)
  show "owns s g"
    unfolding owns_def kt
  proof (intro ballI impI)
    fix r assume r: "r \<in> set (db_rows s)" "tr_id r \<in> tr_id ` set (snd (k, ts))"
    then obtain t where t: "t \<in> set (zero_group k s)" "tr_id r = tr_id t" by (auto simp: ts)
    then have "r = t" using zero_group_mem [OF assms(2)] row_unique [OF assms(1) r(1)] by blast
    then show "tr_symbol r = fst (k, ts)" using t(1) zero_group_mem [OF assms(2)] by simp
  qed
qed

lemma reprice_zero_group:
  assumes "ids_ok s" and "normalized s" and "r \<in> set (filter is_open_buy (view k s))"
  shows "reprice p (tr_id ` set (zero_group k s)) r = (if tr_entry_price r \<le> 0 then r\<lparr>tr_entry_price := p\<rparr> else r)"
proof -
  have r: "r \<in> set (db_rows s)" "tr_symbol r = k" "is_open_buy r" using assms(3) by (auto simp: view_def)
  have "tr_id r \<in> tr_id ` set (zero_group k s) \<longleftrightarrow> r \<in> set (zero_group k s)"
    using r(1) row_unique [OF assms(1)] zero_group_mem [OF assms(2)] by (auto simp: image_iff)
  then show ?thesis using r by (simp add: reprice_def zero_group_mem [OF assms(2)])
qed

lemma nothing_to_repair:
  assumes "normalized s" and "zero_group k s = []"
  shows "repair_price_for holdings ps k s = None"
proof -
  have "r \<notin> set (zero_group k s)" for r using assms(2) by simp
  then have "0 < tr_entry_price r" if "r \<in> set (get_all_open_buys k s)" for r
    using that zero_group_mem [OF assms(1)] by (force simp: mem_get_all_open_buys)
  then have "filter (\<lambda>r. tr_entry_price r \<le> 0) (get_all_open_buys k s) = []"
    by (auto simp: filter_empty_conv not_le)
  then have "unknown_qty (get_all_open_buys k s) = 0" by (simp add: unknown_qty_def)
  then show ?thesis by (simp add: repair_price_for_def Let_def split: option.split)
qed

lemma repair_view:
  assumes "ids_ok s" and "normalized s"
    and s': "s' = snd (fold (repair_group holdings ps) (group_rows (get_confirmed_open_buys_with_zero_entry_price s)) (sm, s))"
  shows "view k s' = (case repair_price_for holdings ps k s of None \<Rightarrow> view k s
     | Some p \<Rightarrow> map (reprice p (tr_id ` set (zero_group k s))) (view k s))"
proof (cases "zero_group k s = []")
  case True
  have "map_of (group_rows (get_confirmed_open_buys_with_zero_entry_price s)) k = None"
    by (simp add: zero_groups True)
  then have "k \<notin> fst ` set (group_rows (get_confirmed_open_buys_with_zero_entry_price s))"
    by (rule map_of_eq_None_iff [THEN iffD1])
  then have "view k s' = view k s" unfolding s' by (rule repair_none [OF groups_own [OF assms(1,2)]])
  then show ?thesis by (simp add: nothing_to_repair [OF assms(2) True])
next
  case False
  then have "map_of (group_rows (get_confirmed_open_buys_with_zero_entry_price s)) k = Some (zero_group k s)"
    by (simp add: zero_groups)
  then show ?thesis
    unfolding s' using group_rows_spec by (intro repair_own groups_own assms(1,2)) auto
qed

lemma repair_cost:
  assumes "ids_ok s" and "normalized s"
    and "s' = snd (fold (repair_group holdings ps) (group_rows (get_confirmed_open_buys_with_zero_entry_price s)) (sm, s))"
  shows "cost_of k s' = (case repair_price_for holdings ps k s of None \<Rightarrow> cost_of k s
     | Some p \<Rightarrow> known_value (get_all_open_buys k s) + p * of_int (unknown_qty (get_all_open_buys k s)))"
proof (cases "repair_price_for holdings ps k s")
  case None
  then show ?thesis using repair_view [OF assms, of k] by (simp add: cost_of_def open_buys_view)
next
  case (Some p)
  let ?lots = "filter is_open_buy (view k s)" and ?f = "reprice p (tr_id ` set (zero_group k s))"
  have "filter is_open_buy (view k s') = map ?f ?lots"
    using repair_view [OF assms, of k] Some by (simp add: filter_map comp_def)
  then have "cost_of k s' = sum_list (map (\<lambda>r. tr_entry_price (?f r) * of_int (tr_quantity r)) ?lots)"
    by (simp add: cost_of_def sum_open_buys comp_def)
  also have "\<dots> = sum_list (map (\<lambda>r. (if tr_entry_price r \<le> 0 then p else tr_entry_price r) * of_int (tr_quantity r)) ?lots)"
    using reprice_zero_group [OF assms(1,2)] by (intro arg_cong [where f = sum_list] map_cong refl) simp
  also have "\<dots> = sum_list (map (\<lambda>r. (if tr_entry_price r \<le> 0 then p else tr_entry_price r) * of_int (tr_quantity r)) (get_all_open_buys k s))"
    by (simp add: sum_open_buys)
  finally show ?thesis by (simp add: sum_split_priced Some)
qed

section \<open>The books after the job\<close>

text \<open>The repair only prices open buys whose price was not known.\<close>

definition repriced :: "db \<Rightarrow> db \<Rightarrow> bool" where
  "repriced s s' \<longleftrightarrow> db_seq s' = db_seq s \<and> (\<exists>g. db_rows s' = map g (db_rows s) \<and>
     (\<forall>r \<in> set (db_rows s). g r = r \<or>
        is_open_buy r \<and> tr_entry_price r \<le> 0 \<and> (\<exists>p > 0. g r = r\<lparr>tr_entry_price := p\<rparr>)))"

lemma repriced_refl: "repriced s s"
  by (auto simp: repriced_def intro: exI [of _ id])

lemma repriced_fold:
  assumes "ids_ok s" and "repriced s s'" and "0 < p"
    and "set ts \<subseteq> set (get_confirmed_open_buys_with_zero_entry_price s)"
  shows "repriced s (fold (set_entry_price p) ts s')"
proof -
  from assms(2) obtain g where g: "db_rows s' = map g (db_rows s)" "db_seq s' = db_seq s"
    "\<forall>r \<in> set (db_rows s). g r = r \<or>
        is_open_buy r \<and> tr_entry_price r \<le> 0 \<and> (\<exists>p > 0. g r = r\<lparr>tr_entry_price := p\<rparr>)"
    by (auto simp: repriced_def)
  let ?g = "\<lambda>r. reprice p (tr_id ` set ts) (g r)"
  have "?g r = r \<or> is_open_buy r \<and> tr_entry_price r \<le> 0 \<and> (\<exists>p > 0. ?g r = r\<lparr>tr_entry_price := p\<rparr>)"
    if r: "r \<in> set (db_rows s)" for r
  proof (cases "tr_id r \<in> tr_id ` set ts")
    case True
    then obtain t where t: "t \<in> set ts" "tr_id r = tr_id t" by blast
    with assms(4) have "t \<in> set (db_rows s)" "is_open_buy t" "tr_entry_price t \<le> 0" by (auto simp: zero_prices_mem)
    with row_unique [OF assms(1) r] t(2) have z: "is_open_buy r" "tr_entry_price r \<le> 0" by auto
    have "?g r = r\<lparr>tr_entry_price := p\<rparr>" using g(3) r True by (auto simp: reprice_def)
    with z assms(3) show ?thesis by blast
  next
    case False
    have "tr_id (g r) = tr_id r" using g(3) r by auto
    then show ?thesis using g(3) r False by (auto simp: reprice_def)
  qed
  then show ?thesis using g by (auto simp: repriced_def rows_repriced intro!: exI [of _ ?g])
qed

lemma repriced_groups:
  "ids_ok s \<Longrightarrow> repriced s s' \<Longrightarrow>
     \<forall>g \<in> set gs. set (snd g) \<subseteq> set (get_confirmed_open_buys_with_zero_entry_price s) \<Longrightarrow>
     repriced s (snd (fold (repair_group holdings ps) gs (sm, s')))"
proof (induction gs arbitrary: sm s')
  case (Cons g gs)
  obtain k ts where g: "g = (k, ts)" by (cases g)
  obtain sm1 s1 where 1: "repair_group holdings ps g (sm, s') = (sm1, s1)" by fastforce
  then have s1: "s1 = snd (repair_group holdings ps (k, ts) (sm, s'))" by (simp add: g)
  have "repriced s s1"
    using Cons.prems g by (auto simp: s1 repair_group_db repair_price_for_def Let_def
        intro: repriced_fold split: option.split if_splits)
  then show ?case using Cons 1 by simp
qed simp

lemma repriced_keeps: "session_ok s \<Longrightarrow> repriced s s' \<Longrightarrow> session_ok s' \<and> keeps_rows s s'"
proof -
  assume ok: "session_ok s" and "repriced s s'"
  then obtain g where g: "db_rows s' = map g (db_rows s)" "db_seq s' = db_seq s"
    "\<forall>r \<in> set (db_rows s). g r = r \<or>
        is_open_buy r \<and> tr_entry_price r \<le> 0 \<and> (\<exists>p > 0. g r = r\<lparr>tr_entry_price := p\<rparr>)"
    by (auto simp: repriced_def)
  have priced: "settles_to r (r\<lparr>tr_entry_price := p\<rparr>)" if "is_open_buy r" "tr_entry_price r \<le> 0" "0 < p" for r p
    using that by (simp add: settles_to_def row_settled_def lot_changed_def known_price_kept_def) (simp add: stored_row_def)
  have "settles_to r (g r)" if "r \<in> set (db_rows s)" for r using g(3) that priced by (metis settles_refl)
  then have "keeps_rows s s'" by (auto simp: keeps_rows_def g(1))
  moreover have "map tr_id (db_rows s') = map tr_id (db_rows s)" "map tr_order_id (db_rows s') = map tr_order_id (db_rows s)"
    using g(3) by (auto simp: g(1))
  moreover have "tr_id r < db_seq s'" if "r \<in> set (db_rows s')" for r
    using that g ok by (force simp: session_ok_def ids_ok_def)
  ultimately have "session_ok s' \<and> keeps_rows s s'"
    using ok by (simp only: session_ok_def ids_ok_def orders_ok_def) blast
  then show ?thesis .
qed

lemma group_members:
  assumes "g \<in> set (group_rows trades)"
  shows "set (snd g) \<subseteq> set trades"
proof -
  have "map_of (group_rows trades) (fst g) = Some (snd g)"
    using assms group_rows_spec by (intro map_of_is_SomeI) auto
  then have "snd g = filter (\<lambda>r. normalize_krx_symbol (tr_symbol r) = fst g) trades"
    using group_rows_spec [of trades "fst g"] by (auto simp: Let_def split: if_splits)
  then show ?thesis by (metis filter_is_subset)
qed

definition keeps_books :: "db \<Rightarrow> db \<Rightarrow> bool" where
  "keeps_books s s' \<longleftrightarrow> db_ok s' \<and> keeps_rows s s'"

lemma keeps_books_commit: "session_ok s' \<Longrightarrow> keeps_rows s s' \<Longrightarrow> keeps_books s (db_commit s')"
  by (simp add: keeps_books_def session_ok_commit keeps_rows_commit)

lemma keeps_books_refl: "db_ok s \<Longrightarrow> keeps_books s s"
  by (auto simp: keeps_books_def)

lemma rows_settled_books: "db_ok s \<Longrightarrow> keeps_books s s' \<Longrightarrow> rows_settled s s'"
proof -
  assume "db_ok s" "keeps_books s s'"
  then have "stored_row r = r" if "r \<in> set (db_rows s) \<union> set (db_rows s')" for r
    using that by (auto simp: db_ok_def keeps_books_def list_all_iff intro!: stored_row_of_naive)
  then show ?thesis using \<open>keeps_books s s'\<close>
    by (simp add: rows_settled_def keeps_books_def keeps_rows_def settles_to_def)
qed

lemma recovery_start:
  assumes "db_ok s" and "sy_skipped sm = 0" and "sy_failed sm = 0"
  shows "recovery_ok (get_pending_confirms s) \<lparr>re_summary = sm, re_cancelled = [], re_db = s\<rparr>"
proof -
  have "distinct (map tr_id (filter (\<lambda>r. tr_status r = PENDING_CONFIRM) (db_rows s)))"
    using assms(1) by (simp add: db_ok_def session_ok_def ids_ok_def distinct_map_filter)
  then have "distinct (map tr_id (get_pending_confirms s))"
    by (auto simp: get_pending_confirms_def distinct_map)
  then show ?thesis using assms pending_count [of s]
    by (auto simp: recovery_ok_def db_ok_session list_all_iff mem_pending_confirms)
qed

lemma recover_one_error:
  "recover_one env orders holdings tr a = Inr a' \<Longrightarrow> sy_error (re_summary a') = sy_error (re_summary a)"
proof -
  have [simp]: "sy_error (re_summary (add_recovered b)) = sy_error (re_summary b)"
    "sy_error (re_summary (add_skipped b)) = sy_error (re_summary b)"
    "sy_error (re_summary (fail_unfilled c tr b)) = sy_error (re_summary b)" for b c
    by (simp_all add: add_recovered_def add_skipped_def fail_unfilled_def Let_def)
  have sell: "recover_sell env symbol q tr a = Inr a' \<Longrightarrow> sy_error (re_summary a') = sy_error (re_summary a)" for symbol q
    by (erule recover_sell_parts) simp
  assume "recover_one env orders holdings tr a = Inr a'"
  then show ?thesis using sell by (auto simp: recover_one_def Let_def split: if_splits option.splits)
qed

lemma recover_all_error:
  "recover_all env orders holdings trs a = (a', None) \<Longrightarrow> sy_error (re_summary a') = sy_error (re_summary a)"
  by (induction trs arbitrary: a) (auto dest: recover_one_error split: sum.splits)

text \<open>The recovery as a whole.\<close>

lemma recovery_books:
  assumes "db_ok s" and run: "recover_pending_confirms env s = (sm, cancelled, s')"
  shows "keeps_books s s' \<and>
    (case sy_error sm of
       Some e \<Rightarrow> s' = s
     | None \<Rightarrow> settled_count sm + sy_skipped sm = length (get_pending_confirms s) \<and>
         length (get_pending_confirms s') = sy_skipped sm \<and>
         (se_provider env \<noteq> KIWOOM \<longrightarrow> sy_skipped sm = 0))"
proof -
  let ?sm = "new_summary\<lparr>sy_total := length (get_pending_confirms s), sy_provider := Some (se_provider env)\<rparr>"
  consider "get_pending_confirms s = []"
    | e where "get_pending_confirms s \<noteq> []"
        "rbind (se_pending env) (\<lambda>orders. rbind (se_holdings env) (\<lambda>holdings. Inr (orders, holdings))) = Inl e"
    | orders holdings where "get_pending_confirms s \<noteq> []"
        "rbind (se_pending env) (\<lambda>orders. rbind (se_holdings env) (\<lambda>holdings. Inr (orders, holdings))) = Inr (orders, holdings)"
    by (metis old.sum.exhaust surj_pair)
  then show ?thesis
  proof cases
    case 1
    have "row_sum pending_weight (db_commit s) = row_sum pending_weight s"
      by (rule row_sum_commit) (simp add: pending_weight_def)
    then have "get_pending_confirms (db_commit s) = []"
      using 1 pending_count [of s] pending_count [of "db_commit s"] by simp
    with 1 run assms(1) show ?thesis
      by (auto simp: recover_pending_confirms_def Let_def new_summary_def settled_count_def
          intro: keeps_books_commit db_ok_session)
  next
    case 2
    with run assms(1) show ?thesis
      by (auto simp: recover_pending_confirms_def Let_def with_error_def intro: keeps_books_refl)
  next
    case 3
    let ?a = "\<lparr>re_summary = ?sm, re_cancelled = [], re_db = s\<rparr>"
    obtain a x where all: "recover_all env orders holdings (get_pending_confirms s) ?a = (a, x)" by fastforce
    show ?thesis
    proof (cases x)
      case (Some e)
      with run assms(1) 3 all show ?thesis
        by (auto simp: recover_pending_confirms_def Let_def with_error_def intro: keeps_books_refl)
    next
      case None
      have start: "recovery_ok (get_pending_confirms s) ?a"
        by (rule recovery_start [OF assms(1)]) (simp_all add: new_summary_def)
      note done1 = recover_all_done [OF start all [unfolded None]]
      have eqs: "sm = re_summary a" "s' = db_commit (re_db a)"
        using run 3 all None by (simp_all add: recover_pending_confirms_def Let_def)
      have pend: "row_sum pending_weight (db_commit (re_db a)) = row_sum pending_weight (re_db a)"
        by (rule row_sum_commit) (simp add: pending_weight_def)
      have books: "keeps_books s s'" using done1 eqs by (auto simp: recovery_ok_def intro!: keeps_books_commit)
      have "length (get_pending_confirms s') = sy_skipped sm"
        using done1 pend eqs pending_count [of s'] by (simp add: recovery_ok_def)
      with books done1 eqs recover_all_error [OF all [unfolded None]] show ?thesis
        by (simp add: new_summary_def settled_count_def)
    qed
  qed
qed

text \<open>The other two repairs.\<close>

lemma backfill_books: "db_ok s \<Longrightarrow> keeps_books s (snd (backfill_missing_open_buys env s))"
proof -
  assume ok: "db_ok s"
  show ?thesis
  proof (cases "se_holdings env")
    case (Inl e)
    then show ?thesis using ok by (simp add: backfill_missing_open_buys_def Let_def keeps_books_refl)
  next
    case (Inr holdings)
    obtain sm s' where run: "backfill_all (se_now env) (pending_buy_symbols s) holdings
        (new_summary\<lparr>sy_provider := Some (se_provider env)\<rparr>, s) = Inr (sm, s')"
      using backfill_all_qty by blast
    have "keeps_books s (db_commit s')"
      using backfill_all_ok [OF db_ok_session [OF ok] run] by (auto intro: keeps_books_commit)
    then show ?thesis using run Inr by (simp add: backfill_missing_open_buys_def Let_def)
  qed
qed

lemma repair_books: "db_ok s \<Longrightarrow> keeps_books s (snd (repair_confirmed_zero_entry_prices env s))"
proof -
  assume ok: "db_ok s"
  then have ids: "ids_ok s" by (simp add: db_ok_def session_ok_def)
  have "repriced s (snd (fold (repair_group holdings ps)
      (group_rows (get_confirmed_open_buys_with_zero_entry_price s)) (sm, s)))" for holdings ps sm
    using ids by (intro repriced_groups repriced_refl) (auto dest: group_members)
  note kept = repriced_keeps [OF db_ok_session [OF ok] this]
  show ?thesis
    using kept ok by (auto simp: repair_confirmed_zero_entry_prices_def Let_def split_beta db_ok_session
        intro: keeps_books_refl keeps_books_commit split: sum.split)
qed

section \<open>Properties\<close>

text \<open>
  C37: the settlement job keeps the books: whatever the broker answers to its three parts, the
  rows before and after correspond. A confirmed row that is not an open buy is untouched; an open
  buy keeps a price that was known, gets only a positive one otherwise, never grows, and is closed
  only with the profit of the quantity closed; an order that was not confirmed stays, is marked
  failed or is confirmed with a positive quantity; and every row that is new is a closed part of a
  lot with its profit or an open lot with a positive quantity and price.
\<close>

theorem settlement_keeps_books:
  assumes "db_ok s" and "portfolio_sync_job recovering backfilling repairing s = (cancelled, s')"
  shows "db_ok s' \<and> rows_settled s s'"
proof -
  obtain sm cancelled' s1 where 1: "recover_pending_confirms recovering s = (sm, cancelled', s1)" by (metis surj_pair)
  let ?s2 = "snd (backfill_missing_open_buys backfilling s1)"
  let ?s3 = "snd (repair_confirmed_zero_entry_prices repairing ?s2)"
  have b1: "keeps_books s s1" using recovery_books [OF assms(1) 1] by simp
  then have b2: "keeps_books s1 ?s2" by (simp add: keeps_books_def backfill_books [unfolded keeps_books_def])
  then have b3: "keeps_books ?s2 ?s3" by (simp add: keeps_books_def repair_books [unfolded keeps_books_def])
  have "keeps_books s ?s3"
    using b1 b2 b3 keeps_rows_trans unfolding keeps_books_def by meson
  moreover have "s' = ?s3" using assms(2) 1 by (auto simp: portfolio_sync_job_def split_beta)
  ultimately show ?thesis using rows_settled_books [OF assms(1)] by (simp add: keeps_books_def)
qed

text \<open>
  The recovery settles or skips every unconfirmed order exactly once: without an error the
  recovered, failed and skipped orders add up to all of them, those still unconfirmed are exactly
  the skipped ones, and at KIS none is skipped; with an error the table is what it was.
\<close>

lemma recovery_settles_pending:
  assumes "db_ok s" and "recover_pending_confirms env s = (sm, cancelled, s')"
  shows "case sy_error sm of
       Some e \<Rightarrow> s' = s
     | None \<Rightarrow> sy_recovered sm + sy_failed sm + sy_skipped sm = length (get_pending_confirms s) \<and>
         length (get_pending_confirms s') = sy_skipped sm \<and>
         (if se_provider env = KIWOOM then True else sy_skipped sm = 0)"
  using recovery_books [OF assms] by (auto simp: settled_count_def split: option.splits)

text \<open>
  Back filling makes the open quantity of every symbol exactly the largest quantity the
  account holds of it, when it holds more than the table: only holdings with a symbol, a quantity
  and an average price count, a symbol with an unconfirmed buy is left alone, and nothing is ever
  taken away. When the broker does not answer, nothing changes.
\<close>

lemma backfill_matches_account:
  "case se_holdings env of
     Inl e \<Rightarrow> backfill_missing_open_buys env s =
        (with_error e (new_summary\<lparr>sy_provider := Some (se_provider env)\<rparr>), s)
   | Inr holdings \<Rightarrow>
       sy_error (fst (backfill_missing_open_buys env s)) = None \<and>
       open_qty_of code (snd (backfill_missing_open_buys env s)) =
         fold max (map hi_quantity (filter (eligible (pending_buy_symbols s) code) holdings)) (open_qty_of code s)"
proof (cases "se_holdings env")
  case (Inl e)
  then show ?thesis by (simp add: backfill_missing_open_buys_def Let_def)
next
  case (Inr holdings)
  obtain sm' s' where "backfill_all (se_now env) (pending_buy_symbols s) holdings
      (new_summary\<lparr>sy_provider := Some (se_provider env)\<rparr>, s) = Inr (sm', s')" "sy_error sm' = None"
    "open_qty_of code s' = fold max (map hi_quantity (filter (eligible (pending_buy_symbols s) code) holdings)) (open_qty_of code s)"
    using backfill_all_qty [of "se_now env" "pending_buy_symbols s" holdings "new_summary\<lparr>sy_provider := Some (se_provider env)\<rparr>" s code]
    by (auto simp: new_summary_def)
  then show ?thesis using Inr by (simp add: backfill_missing_open_buys_def Let_def)
qed

definition sync_sample_db :: db where
  "sync_sample_db = \<lparr>db_rows = [sample_lot 1 10 70000 1,
     (sample_lot 2 6 0 2)\<lparr>tr_side := ''SELL'', tr_status := PENDING_CONFIRM, tr_order_id := Some ''7'',
        tr_exit_at := Some (PyDT (2 * day_us) False)\<rparr>], db_seq = 3\<rparr>"

definition sync_sample_env :: sync_env where
  "sync_sample_env = \<lparr>se_now = PyDT (3 * day_us) True, se_provider = KIWOOM, se_pending = Inr [],
     se_holdings = Inr [\<lparr>hi_symbol = ''A005930'', hi_name = [], hi_quantity = 4, hi_avg_buy_price = 70000,
       hi_current_price = 71000\<rparr>]\<rparr>"

lemma sync_sample_ok: "db_ok sync_sample_db"
  by (simp add: sync_sample_db_def db_ok_def session_ok_def ids_ok_def orders_ok_def row_naive_def
      sample_lot_def default_trade_def)

lemma settlement_keeps_books_witness:
  "rows_settled sync_sample_db (snd (portfolio_sync_job sync_sample_env sync_sample_env sync_sample_env sync_sample_db))"
  using settlement_keeps_books [OF sync_sample_ok prod.collapse [symmetric]] by simp

lemma recovery_settles_pending_witness:
  "case recover_pending_confirms sync_sample_env sync_sample_db of (sm, cancelled, s') \<Rightarrow>
     (case sy_error sm of Some e \<Rightarrow> s' = sync_sample_db
      | None \<Rightarrow> sy_recovered sm + sy_failed sm + sy_skipped sm = 1)"
proof -
  obtain sm cancelled s' where run: "recover_pending_confirms sync_sample_env sync_sample_db = (sm, cancelled, s')"
    by (metis surj_pair)
  have "length (get_pending_confirms sync_sample_db) = 1"
    by (simp add: get_pending_confirms_def sync_sample_db_def)
  then show ?thesis using recovery_settles_pending [OF sync_sample_ok run] run by (auto split: option.splits)
qed

lemma open_weight_closed [simp]: "\<not> is_open_buy r \<Longrightarrow> open_weight k r = 0"
  by (simp add: open_weight_def)

lemma ids_ok_puts: "ids_ok s \<Longrightarrow> ids_ok (fold db_put rs s)"
  by (induction rs arbitrary: s) (auto intro: ids_ok_put)

lemma ids_ok_insert_all: "db_insert_all cs s = Inr s' \<Longrightarrow> ids_ok s \<Longrightarrow> ids_ok s'"
proof (induction cs arbitrary: s)
  case (Cons c cs)
  then obtain i s1 where "db_insert c s = Inr (i, s1)" "db_insert_all cs s1 = Inr s'" by (auto simp: rbind_eq_Inr)
  moreover from this Cons.prems have "ids_ok s1"
    by (fastforce simp: db_insert_def ids_ok_def less_Suc_eq split: if_splits)
  ultimately show ?case by (intro Cons.IH)
qed simp

lemma ids_ok_sell_fill: "session_sell_fill now symbol qty price reason closed_at s = Inr (sf, s') \<Longrightarrow> ids_ok s \<Longrightarrow> ids_ok s'"
  by (erule sell_fill_parts) (blast intro: ids_ok_puts ids_ok_insert_all)

lemma recover_sell_quantity:
  assumes run: "recover_sell env symbol q tr a = Inr a'" and tr: "\<not> is_open_buy tr"
    and q: "0 < q" "q \<le> open_qty_of symbol (re_db a)"
    and row: "ids_ok (re_db a)" "tr \<in> set (db_rows (re_db a))" "\<forall>r \<in> set (db_rows (re_db a)). 0 \<le> tr_quantity r"
  shows "open_qty_of symbol (re_db a') = open_qty_of symbol (re_db a) - q"
proof -
  from run obtain r1 r2 sf s' closed reason where
    r1: "tr_id r1 = tr_id tr" "\<not> is_open_buy r1" "tr_quantity r1 = q"
    and r2: "tr_id r2 = tr_id tr" "\<not> is_open_buy r2"
    and fill: "session_sell_fill (se_now env) symbol q (tr_exit_price tr) reason closed (db_put r1 (re_db a)) = Inr (sf, s')"
    and a': "re_db a' = db_put r2 s'"
    by (rule recover_sell_parts) simp
  let ?s1 = "db_put r1 (re_db a)"
  have ids1: "ids_ok ?s1" using row(1) by (rule ids_ok_put)
  have nonneg: "\<forall>r \<in> set (db_rows ?s1). 0 \<le> tr_quantity r"
    using row(3) r1(3) q(1) by (auto simp: db_put_def db_modify_def)
  have same: "open_qty_of symbol ?s1 = open_qty_of symbol (re_db a)"
    using row_sum_put [OF row(1,2) r1(1), of "open_weight symbol"] tr r1 by (simp add: open_qty_row_sum)
  have "r1 \<in> set (db_rows ?s1)" using row(2) r1(1) by (auto simp: db_put_def db_modify_def image_iff)
  then have mem: "r1 \<in> set (db_rows s')" using sell_fill_keeps [OF fill ids1] r1(2) by blast
  have "tr_id r2 = tr_id r1" using r1 r2 by simp
  then have "open_qty_of symbol (db_put r2 s') = open_qty_of symbol s'"
    using row_sum_put [OF ids_ok_sell_fill [OF fill ids1] mem, of r2 "open_weight symbol"] r1 r2
    by (simp add: open_qty_row_sum)
  then show ?thesis using session_sell_fill_qty [OF fill ids1 nonneg] same q a' by simp
qed

lemma recover_sell_total:
  assumes "tr_exit_at tr = Some t" and "list_all (closable t) (get_all_open_buys symbol (re_db a))" and "tr_side tr = ''SELL''"
    and "ids_ok (re_db a)" "tr \<in> set (db_rows (re_db a))"
  shows "is_ok (recover_sell env symbol q tr a)"
proof -
  let ?r = "tr\<lparr>tr_status := CONFIRMED, tr_quantity := q, tr_exit_at := Some t, tr_exit_reason := str_or (tr_exit_reason tr) ''SIGNAL''\<rparr>"
  have "set (get_all_open_buys symbol (db_put ?r (re_db a))) \<subseteq> set (get_all_open_buys symbol (re_db a))"
    by (auto simp: mem_get_all_open_buys db_put_def db_modify_def is_open_buy_def)
  then have "list_all (closable t) (get_all_open_buys symbol (db_put ?r (re_db a)))"
    using assms(2) by (auto simp: list_all_iff)
  from session_sell_fill_total [OF this, of "se_now env" q "tr_exit_price tr" "str_or (tr_exit_reason tr) ''SIGNAL''"]
  show ?thesis using assms(1) by (auto simp: recover_sell_def Let_def is_ok_iff)
qed

text \<open>
  An unlisted sell at Kiwoom is settled by what the account still holds: when the account holds
  less than the open lots and not more is missing than was asked for, the lots are closed first in,
  first out until the open quantity of the symbol is exactly the quantity the account holds.
\<close>

lemma inferred_sell_matches_account:
  assumes run: "recover_one env orders holdings tr a = Inr a'"
    and unlisted: "order_lookup orders (oid_text (tr_order_id tr)) = None" "tr_side tr = ''SELL''"
    and infer: "infers_sell env (case holding_lookup holdings (normalize_krx_symbol (tr_symbol tr)) of
        None \<Rightarrow> 0 | Some h \<Rightarrow> hi_quantity h) (open_qty_of (normalize_krx_symbol (tr_symbol tr)) (re_db a))"
    and row: "ids_ok (re_db a)" "tr \<in> set (db_rows (re_db a))" "\<forall>r \<in> set (db_rows (re_db a)). 0 \<le> tr_quantity r"
  shows "(let symbol = normalize_krx_symbol (tr_symbol tr);
      current = (case holding_lookup holdings symbol of None \<Rightarrow> 0 | Some h \<Rightarrow> hi_quantity h)
    in if 0 < tr_quantity tr \<and> tr_quantity tr < open_qty_of symbol (re_db a) - current then a' = add_skipped a
       else open_qty_of symbol (re_db a') = current)"
proof -
  let ?symbol = "normalize_krx_symbol (tr_symbol tr)"
  let ?cur = "case holding_lookup holdings ?symbol of None \<Rightarrow> 0 | Some h \<Rightarrow> hi_quantity h"
  let ?q = "open_qty_of ?symbol (re_db a) - ?cur"
  have pos: "0 < ?q" "?q \<le> open_qty_of ?symbol (re_db a)" using infer by (simp_all add: infers_sell_def)
  have tr: "\<not> is_open_buy tr" using unlisted(2) by (simp add: is_open_buy_def)
  show ?thesis
  proof (cases "0 < tr_quantity tr \<and> tr_quantity tr < ?q")
    case True
    then show ?thesis using run unlisted infer by (simp add: recover_one_def Let_def)
  next
    case False
    with run unlisted infer pos have "recover_sell env ?symbol ?q tr a = Inr a'"
      by (simp add: recover_one_def Let_def split: if_splits)
    from recover_sell_quantity [OF this tr pos row] False show ?thesis by (auto simp: Let_def)
  qed
qed

lemma sync_sample_open: "get_all_open_buys ''005930'' sync_sample_db = [sample_lot 1 10 70000 1]"
  by (simp add: get_all_open_buys_def sync_sample_db_def is_open_buy_def)

definition sync_sample_row :: trade_result where
  "sync_sample_row = (sample_lot 2 6 0 2)\<lparr>tr_side := ''SELL'', tr_status := PENDING_CONFIRM,
     tr_order_id := Some ''7'', tr_exit_at := Some (PyDT (2 * day_us) False)\<rparr>"

definition sync_sample_run :: recovery where
  "sync_sample_run = \<lparr>re_summary = new_summary, re_cancelled = [], re_db = sync_sample_db\<rparr>"

definition sync_sample_holdings :: "holding_info list" where
  "sync_sample_holdings = [\<lparr>hi_symbol = ''A005930'', hi_name = [], hi_quantity = 4, hi_avg_buy_price = 70000,
     hi_current_price = 71000\<rparr>]"

lemma sync_sample_current: "holding_lookup sync_sample_holdings ''005930'' = Some (hd sync_sample_holdings)"
  by (simp add: holding_lookup_def sync_sample_holdings_def) code_simp

lemma inferred_sell_matches_account_witness:
  "\<exists>a'. recover_one sync_sample_env [] sync_sample_holdings sync_sample_row sync_sample_run = Inr a' \<and>
     open_qty_of ''005930'' (re_db a') = 4"
proof -
  let ?t = "PyDT (2 * day_us) False"
  have code: "normalize_krx_symbol (tr_symbol sync_sample_row) = ''005930''"
    by (simp add: sync_sample_row_def) code_simp
  have row: "tr_side sync_sample_row = ''SELL''" "tr_quantity sync_sample_row = 6" "tr_exit_at sync_sample_row = Some ?t"
    "tr_order_id sync_sample_row = Some ''7''"
    by (simp_all add: sync_sample_row_def)
  have open10: "open_qty_of ''005930'' (re_db sync_sample_run) = 10"
    by (simp add: open_qty_of_def sync_sample_run_def sync_sample_open)
  have cur: "hi_quantity (hd sync_sample_holdings) = 4" by (simp add: sync_sample_holdings_def)
  have kiwoom: "se_provider sync_sample_env = KIWOOM" by (simp add: sync_sample_env_def)
  have none: "order_lookup [] oid = None" for oid by (simp add: order_lookup_def)
  have ids: "ids_ok (re_db sync_sample_run)" using sync_sample_ok by (simp add: sync_sample_run_def db_ok_def session_ok_def)
  have mem: "sync_sample_row \<in> set (db_rows (re_db sync_sample_run))"
    by (simp add: sync_sample_run_def sync_sample_db_def sync_sample_row_def)
  have nonneg: "\<forall>r \<in> set (db_rows (re_db sync_sample_run)). 0 \<le> tr_quantity r"
    by (simp add: sync_sample_run_def sync_sample_db_def)
  have "list_all (closable ?t) (get_all_open_buys ''005930'' (re_db sync_sample_run))"
    by (simp add: sync_sample_run_def sync_sample_open closable_def)
  then have "is_ok (recover_sell sync_sample_env ''005930'' 6 sync_sample_row sync_sample_run)"
    by (rule recover_sell_total [OF row(3) _ row(1) ids mem])
  then obtain a' where "recover_sell sync_sample_env ''005930'' 6 sync_sample_row sync_sample_run = Inr a'"
    by (auto simp: is_ok_iff)
  then have run: "recover_one sync_sample_env [] sync_sample_holdings sync_sample_row sync_sample_run = Inr a'"
    by (simp add: recover_one_def Let_def none code row open10 cur sync_sample_current infers_sell_def kiwoom)
  show ?thesis
    using run inferred_sell_matches_account [OF run none row(1) _ ids mem nonneg]
    by (simp add: code row open10 cur sync_sample_current infers_sell_def kiwoom Let_def)
qed

text \<open>
  The repair of zero entry prices makes the cost of a symbol's open lots what the account says
  it paid, average price times quantity, exactly when the account and the table agree on the
  quantity, no buy of the symbol is unconfirmed and the price that remains is positive; otherwise
  the cost stays as it is. Repairs of several symbols do not disturb one another.
\<close>

lemma repaired_cost_matches_account:
  assumes "ids_ok s" and "normalized s" and "se_holdings env = Inr holdings"
  shows "cost_of k (snd (repair_confirmed_zero_entry_prices env s)) =
    (case repair_price_for holdings (pending_buy_symbols s) k s of
       None \<Rightarrow> cost_of k s
     | Some p \<Rightarrow> (case holding_lookup holdings k of
          None \<Rightarrow> 0 | Some h \<Rightarrow> hi_avg_buy_price h * of_int (hi_quantity h)))"
proof (cases "get_confirmed_open_buys_with_zero_entry_price s = []")
  case True
  then have "repair_price_for holdings (pending_buy_symbols s) k s = None"
    by (intro nothing_to_repair assms(2)) (simp add: zero_group_def)
  with True show ?thesis by (simp add: repair_confirmed_zero_entry_prices_def Let_def)
next
  case False
  let ?sm = "new_summary\<lparr>sy_total := length (get_confirmed_open_buys_with_zero_entry_price s), sy_provider := Some (se_provider env)\<rparr>"
  let ?r = "fold (repair_group holdings (pending_buy_symbols s)) (group_rows (get_confirmed_open_buys_with_zero_entry_price s)) (?sm, s)"
  have "snd (repair_confirmed_zero_entry_prices env s) = db_commit (snd ?r)"
    using False assms(3) by (simp add: repair_confirmed_zero_entry_prices_def Let_def split_beta)
  then show ?thesis
    using repair_cost [OF assms(1,2) refl, where k = k and holdings = holdings and ps = "pending_buy_symbols s" and sm = ?sm]
    by (auto simp: repair_price_for_def Let_def repaired_price_def split: option.splits if_splits)
qed

definition zero_sample_db :: db where
  "zero_sample_db = \<lparr>db_rows = [sample_lot 1 10 0 1, sample_lot 2 5 72000 2], db_seq = 3\<rparr>"

definition zero_sample_env :: sync_env where
  "zero_sample_env = \<lparr>se_now = PyDT (3 * day_us) True, se_provider = KIS, se_pending = Inr [],
     se_holdings = Inr [\<lparr>hi_symbol = ''005930'', hi_name = [], hi_quantity = 15, hi_avg_buy_price = 70000,
       hi_current_price = 71000\<rparr>]\<rparr>"

lemma normalize_sample: "normalize_krx_symbol ''005930'' = ''005930''"
  by code_simp

lemma repaired_cost_matches_account_witness:
  "cost_of ''005930'' (snd (repair_confirmed_zero_entry_prices zero_sample_env zero_sample_db)) = 70000 * 15"
proof -
  let ?h = "\<lparr>hi_symbol = ''005930'', hi_name = [], hi_quantity = 15, hi_avg_buy_price = 70000, hi_current_price = 71000\<rparr>"
  have ids: "ids_ok zero_sample_db" by (simp add: ids_ok_def zero_sample_db_def)
  have norm: "normalized zero_sample_db" by (simp add: normalized_def zero_sample_db_def normalize_sample)
  have answer: "se_holdings zero_sample_env = Inr [?h]" by (simp add: zero_sample_env_def)
  have hold: "holding_lookup [?h] ''005930'' = Some ?h" by (simp add: holding_lookup_def normalize_sample)
  have lots: "get_all_open_buys ''005930'' zero_sample_db = [sample_lot 1 10 0 1, sample_lot 2 5 72000 2]"
    by (simp add: get_all_open_buys_def zero_sample_db_def is_open_buy_def less_eq_pydt_def day_us_def)
  have none: "pending_buy_symbols zero_sample_db = {}"
    by (simp add: pending_buy_symbols_def get_pending_confirms_def zero_sample_db_def)
  have "repair_price_for [?h] {} ''005930'' zero_sample_db = Some 69000"
    by (simp add: repair_price_for_def Let_def lots hold open_qty_of_def unknown_qty_def repaired_price_def known_value_def)
  then show ?thesis
    using repaired_cost_matches_account [OF ids norm answer, of "''005930''"] by (simp add: none hold)
qed

end
