(* ===== verification/Reconcile.thy ===== *)
theory Reconcile
  imports Portfolio_Sync "HOL-Library.List_Lexorder" "HOL-Library.Char_ord" "HOL-Library.AList"
begin

text \<open>
  The comparison of the broker's open orders with the unconfirmed records
  (\<open>services/order_reconciliation_service.py\<close>) and the manual cleanup built on it
  (\<open>services/stale_pending_cleanup_service.py\<close>). Dictionaries are association lists in insertion
  order; the serialised items keep values where the code renders them (a time instead of its ISO
  text, a row number instead of its text).
\<close>

section \<open>The report\<close>

datatype order_class = Quantity_mismatch | Partial_fill_pending | Matched

record trade_item =
  ti_trade_id :: nat
  ti_order_id :: string
  ti_symbol :: string
  ti_name :: string
  ti_side :: string
  ti_quantity :: int
  ti_status :: order_confirm_status
  ti_created_at :: pydt
  ti_entry_at :: "pydt option"

record pair_item =
  pi_order_id :: string
  pi_symbol :: string
  pi_broker :: pending_order_info
  pi_trade :: trade_item

record reconciliation =
  rp_broker_count :: nat
  rp_db_count :: nat
  rp_matched :: "pair_item list"
  rp_broker_only :: "pending_order_info list"
  rp_db_only_stale :: "trade_item list"
  rp_quantity_mismatch :: "pair_item list"
  rp_partial_fill :: "pair_item list"

text \<open>A dictionary by order id; an empty id is left out, a later value replaces an earlier one.\<close>

definition by_order_id :: "('a \<Rightarrow> string) \<Rightarrow> 'a list \<Rightarrow> (string \<times> 'a) list" where
  "by_order_id key xs = fold (\<lambda>x. AList.update (key x) x) (filter (\<lambda>x. key x \<noteq> []) xs) []"

definition serialize_broker_order :: "pending_order_info \<Rightarrow> pending_order_info" where
  "serialize_broker_order m = m\<lparr>po_symbol := normalize_krx_symbol (po_symbol m)\<rparr>"

definition serialize_db_trade :: "trade_result \<Rightarrow> trade_item" where
  "serialize_db_trade tr = \<lparr>ti_trade_id = tr_id tr, ti_order_id = ostr (tr_order_id tr),
     ti_symbol = normalize_krx_symbol (tr_symbol tr), ti_name = tr_name tr, ti_side = tr_side tr,
     ti_quantity = tr_quantity tr, ti_status = tr_status tr, ti_created_at = tr_created_at tr,
     ti_entry_at = tr_entry_at tr\<rparr>"

definition serialize_pair :: "string \<Rightarrow> pending_order_info \<Rightarrow> trade_result \<Rightarrow> pair_item" where
  "serialize_pair order_id m tr = \<lparr>pi_order_id = order_id,
     pi_symbol = normalize_krx_symbol (str_or (po_symbol m) (tr_symbol tr)),
     pi_broker = serialize_broker_order m, pi_trade = serialize_db_trade tr\<rparr>"

text \<open>The clock is given the zone of the row before the two are subtracted, so it never raises.\<close>

definition comparable_now :: "pydt \<Rightarrow> pydt \<Rightarrow> pydt" where
  "comparable_now created now =
     (if aware created \<and> \<not> aware now then ensure_kst now
      else if \<not> aware created \<and> aware now then strip_tz now else now)"

definition is_stale :: "int \<Rightarrow> pydt \<Rightarrow> trade_result \<Rightarrow> bool res" where
  "is_stale stale_after now tr =
     rbind (dt_sub (comparable_now (tr_created_at tr) now) (tr_created_at tr)) (\<lambda>age. Inr (stale_after \<le> age))"

definition classify_pair :: "pending_order_info \<Rightarrow> trade_result \<Rightarrow> order_class" where
  "classify_pair m tr =
     (if po_order_qty m \<noteq> tr_quantity tr then Quantity_mismatch
      else if 0 < po_filled_qty m \<and> 0 < po_remaining_qty m then Partial_fill_pending else Matched)"

definition the_value :: "(string \<times> 'a) list \<Rightarrow> string \<Rightarrow> 'a" where
  "the_value d k = the (map_of d k)"

definition build_report :: "int \<Rightarrow> pydt \<Rightarrow> pending_order_info list \<Rightarrow> trade_result list \<Rightarrow> reconciliation" where
  "build_report stale_after now orders confirms =
     (let broker = by_order_id po_order_id orders;
          rows = by_order_id (\<lambda>tr. ostr (tr_order_id tr)) confirms;
          common = sort (filter (\<lambda>i. i \<in> fst ` set rows) (map fst broker));
          of_class = (\<lambda>c. map (\<lambda>i. serialize_pair i (the_value broker i) (the_value rows i))
             (filter (\<lambda>i. classify_pair (the_value broker i) (the_value rows i) = c) common))
      in \<lparr>rp_broker_count = length orders, rp_db_count = length confirms,
          rp_matched = of_class Matched,
          rp_broker_only = map (\<lambda>i. serialize_broker_order (the_value broker i))
             (filter (\<lambda>i. i \<notin> fst ` set rows) (sort (map fst broker))),
          rp_db_only_stale = map (\<lambda>i. serialize_db_trade (the_value rows i))
             (filter (\<lambda>i. i \<notin> fst ` set broker \<and> is_stale stale_after now (the_value rows i) = Inr True)
                (sort (map fst rows))),
          rp_quantity_mismatch = of_class Quantity_mismatch,
          rp_partial_fill = of_class Partial_fill_pending\<rparr>)"

section \<open>The cleanup\<close>

definition stale_prefix :: string where
  "stale_prefix = ''CONFIRM_FAILED: stale pending reconciliation cleanup''"

definition build_failure_note :: "string \<Rightarrow> string" where
  "build_failure_note previous_note =
     (let previous = strip previous_note
      in if previous = [] then stale_prefix
         else if contains stale_prefix previous then previous
         else stale_prefix @ '' | previous='' @ take 160 previous)"

datatype skip_reason = Non_buy_requires_holdings | Status_changed

record cleanup_result =
  cu_report :: reconciliation
  cu_candidates :: "trade_item list"
  cu_skipped :: "(trade_item \<times> skip_reason) list"
  cu_updated :: nat

text \<open>
  One pending row: the item of the report with its number (the last one, as in a dictionary), if
  it is stale. \<open>note_text\<close> is the text of the stored note.
\<close>

definition stale_item :: "reconciliation \<Rightarrow> nat \<Rightarrow> trade_item option" where
  "stale_item report i = find (\<lambda>t. ti_trade_id t = i) (rev (rp_db_only_stale report))"

definition cleanup_row ::
  "(trade_note \<Rightarrow> string) \<Rightarrow> bool \<Rightarrow> trade_result \<Rightarrow> cleanup_result \<times> db \<Rightarrow> cleanup_result \<times> db" where
  "cleanup_row note_text dry_run tr st =
     (let (cu, s) = st in
      case stale_item (cu_report cu) (tr_id tr) of
        None \<Rightarrow> st
      | Some item \<Rightarrow>
          if upper (tr_side tr) \<noteq> ''BUY''
          then (cu\<lparr>cu_skipped := cu_skipped cu @ [(item, Non_buy_requires_holdings)]\<rparr>, s)
          else
            (let cu' = cu\<lparr>cu_candidates := cu_candidates cu @ [item]\<rparr>
             in if dry_run then (cu', s)
                else if tr_status tr \<noteq> PENDING_CONFIRM
                then (cu'\<lparr>cu_skipped := cu_skipped cu' @ [(item, Status_changed)]\<rparr>, s)
                else (cu'\<lparr>cu_updated := Suc (cu_updated cu')\<rparr>,
                      db_put (tr\<lparr>tr_status := CONFIRM_FAILED, tr_notes := Some (Note_text (build_failure_note
                         (case tr_notes tr of None \<Rightarrow> [] | Some n \<Rightarrow> note_text n)))\<rparr>) s)))"

definition cleanup ::
  "(trade_note \<Rightarrow> string) \<Rightarrow> int \<Rightarrow> pydt \<Rightarrow> pending_order_info list \<Rightarrow> bool \<Rightarrow> db \<Rightarrow> cleanup_result \<times> db" where
  "cleanup note_text stale_after now orders dry_run s =
     (let confirms = get_pending_confirms s
      in fold (cleanup_row note_text dry_run) confirms
           (\<lparr>cu_report = build_report stale_after now orders confirms, cu_candidates = [], cu_skipped = [],
             cu_updated = 0\<rparr>, s))"

section \<open>Lemmas\<close>

lemma is_stale_total: "is_stale stale_after now tr = Inr (stale_after \<le> wall now - wall (tr_created_at tr))"
  by (simp add: is_stale_def comparable_now_def)

lemma by_order_id_keys: "fst ` set (by_order_id key xs) = key ` set xs - {[]}"
proof -
  have "fst ` set (fold (\<lambda>x. AList.update (key x) x) ys d) = key ` set ys \<union> fst ` set d" for ys d
    by (induction ys arbitrary: d) (auto simp: dom_update)
  then show ?thesis by (auto simp: by_order_id_def)
qed

lemma by_order_id_distinct: "distinct (map fst (by_order_id key xs))"
proof -
  have "distinct (map fst d) \<Longrightarrow> distinct (map fst (fold (\<lambda>x. AList.update (key x) x) ys d))" for ys d
    by (induction ys arbitrary: d) (auto intro: distinct_update)
  then show ?thesis by (simp add: by_order_id_def)
qed

lemma by_order_id_find:
  "map_of (by_order_id key xs) k = find (\<lambda>x. key x = k) (rev (filter (\<lambda>x. key x \<noteq> []) xs))"
proof -
  have "map_of (fold (\<lambda>x. AList.update (key x) x) ys d) k =
      (case find (\<lambda>x. key x = k) (rev ys) of None \<Rightarrow> map_of d k | Some x \<Rightarrow> Some x)" for ys d
  proof (induction ys arbitrary: d rule: rev_induct)
    case (snoc y ys)
    then show ?case by (simp add: update_conv)
  qed simp
  then show ?thesis by (simp add: by_order_id_def split: option.split)
qed

lemma find_mem: "find P xs = Some x \<Longrightarrow> x \<in> set xs \<and> P x"
  by (auto simp: find_Some_iff)

text \<open>The value of a key is an element with that key.\<close>

lemma the_value_mem:
  assumes "k \<in> fst ` set (by_order_id key xs)"
  shows "the_value (by_order_id key xs) k \<in> set xs \<and> key (the_value (by_order_id key xs) k) = k"
proof -
  from assms obtain x where "map_of (by_order_id key xs) k = Some x"
    by (cases "map_of (by_order_id key xs) k") (simp_all add: map_of_eq_None_iff)
  then have "x \<in> set xs \<and> key x = k" and "the_value (by_order_id key xs) k = x"
    using find_mem [of "\<lambda>x. key x = k" "rev (filter (\<lambda>x. key x \<noteq> []) xs)" x]
    by (simp_all add: the_value_def by_order_id_find)
  then show ?thesis by simp
qed

lemma sort_filter_set:
  fixes xs :: "'a::linorder list"
  assumes "distinct xs"
  shows "filter P (sort xs) = sorted_list_of_set {x \<in> set xs. P x}"
proof -
  have "sorted (filter P (sort xs))" by (rule sorted_wrt_filter) simp
  moreover have "distinct (filter P (sort xs))" using assms by simp
  ultimately have "sorted_list_of_set (set (filter P (sort xs))) = filter P (sort xs)"
    by (rule sorted_list_of_set.idem_if_sorted_distinct)
  then show ?thesis by (simp only: set_filter set_sort)
qed

lemma sort_set:
  fixes xs :: "'a::linorder list"
  shows "distinct xs \<Longrightarrow> sort xs = sorted_list_of_set (set xs)"
  using sort_filter_set [of xs "\<lambda>_. True"] by simp

lemma serialize_simps [simp]:
  "po_order_id (serialize_broker_order m) = po_order_id m" "po_order_qty (serialize_broker_order m) = po_order_qty m"
  "ti_order_id (serialize_db_trade tr) = ostr (tr_order_id tr)" "ti_quantity (serialize_db_trade tr) = tr_quantity tr"
  "ti_trade_id (serialize_db_trade tr) = tr_id tr" "pi_order_id (serialize_pair i m tr) = i"
  "pi_broker (serialize_pair i m tr) = serialize_broker_order m" "pi_trade (serialize_pair i m tr) = serialize_db_trade tr"
  by (simp_all add: serialize_broker_order_def serialize_db_trade_def serialize_pair_def)

text \<open>The three lists of common orders are the three classes of one sorted list.\<close>

lemma three_classes:
  "mset (filter (\<lambda>x. f x = Matched) xs @ filter (\<lambda>x. f x = Quantity_mismatch) xs @
     filter (\<lambda>x. f x = Partial_fill_pending) xs) = mset xs"
proof (induction xs)
  case (Cons x xs)
  then show ?case by (cases "f x") simp_all
qed simp

abbreviation row_key :: "trade_result \<Rightarrow> string" where
  "row_key tr \<equiv> ostr (tr_order_id tr)"

lemma report_common:
  "sort (map pi_order_id (rp_matched (build_report stale_after now orders confirms) @
      rp_quantity_mismatch (build_report stale_after now orders confirms) @
      rp_partial_fill (build_report stale_after now orders confirms))) =
   sorted_list_of_set ((po_order_id ` set orders - {[]}) \<inter> (row_key ` set confirms - {[]}))"
proof -
  let ?broker = "by_order_id po_order_id orders" and ?rows = "by_order_id row_key confirms"
  let ?r = "build_report stale_after now orders confirms"
  let ?f = "\<lambda>i. classify_pair (the_value ?broker i) (the_value ?rows i)"
  let ?common = "filter (\<lambda>i. i \<in> fst ` set ?rows) (map fst ?broker)"
  have ids: "map pi_order_id (map (\<lambda>i. serialize_pair i (a i) (b i)) xs) = xs" for a b xs
    by (induction xs) simp_all
  have "map pi_order_id (rp_matched ?r @ rp_quantity_mismatch ?r @ rp_partial_fill ?r) =
      filter (\<lambda>i. ?f i = Matched) (sort ?common) @ filter (\<lambda>i. ?f i = Quantity_mismatch) (sort ?common) @
      filter (\<lambda>i. ?f i = Partial_fill_pending) (sort ?common)"
    unfolding build_report_def Let_def reconciliation.simps map_append ids ..
  then have "mset (map pi_order_id (rp_matched ?r @ rp_quantity_mismatch ?r @ rp_partial_fill ?r)) = mset (sort ?common)"
    by (simp only: three_classes)
  then have "sort (map pi_order_id (rp_matched ?r @ rp_quantity_mismatch ?r @ rp_partial_fill ?r)) = sort ?common"
    by (intro properties_for_sort sorted_sort) (rule sym)
  also have "distinct ?common" using by_order_id_distinct [of po_order_id orders] by simp
  then have "sort ?common = sorted_list_of_set (set ?common)" by (rule sort_set)
  also have "set ?common = (po_order_id ` set orders - {[]}) \<inter> (row_key ` set confirms - {[]})"
    using by_order_id_keys [of po_order_id orders] by_order_id_keys [of row_key confirms] by auto
  finally show ?thesis .
qed

lemma report_broker_only:
  "map po_order_id (rp_broker_only (build_report stale_after now orders confirms)) =
     sorted_list_of_set ((po_order_id ` set orders - {[]}) - (row_key ` set confirms - {[]}))"
proof -
  let ?broker = "by_order_id po_order_id orders" and ?rows = "by_order_id row_key confirms"
  let ?only = "filter (\<lambda>i. i \<notin> fst ` set ?rows) (sort (map fst ?broker))"
  have "map po_order_id (rp_broker_only (build_report stale_after now orders confirms)) =
      map (\<lambda>i. po_order_id (the_value ?broker i)) ?only"
    by (simp add: build_report_def Let_def)
  also have "\<dots> = ?only" using the_value_mem [of _ po_order_id orders] by (intro map_idI) auto
  also have "\<dots> = sorted_list_of_set {i \<in> set (map fst ?broker). i \<notin> fst ` set ?rows}"
    by (rule sort_filter_set [OF by_order_id_distinct])
  also have "{i \<in> set (map fst ?broker). i \<notin> fst ` set ?rows} = (po_order_id ` set orders - {[]}) - (row_key ` set confirms - {[]})"
    by (simp add: by_order_id_keys set_diff_eq)
  finally show ?thesis .
qed

lemma report_stale:
  "rp_db_only_stale (build_report stale_after now orders confirms) =
     map (\<lambda>i. serialize_db_trade (the_value (by_order_id row_key confirms) i))
       (sorted_list_of_set {i \<in> (row_key ` set confirms - {[]}) - (po_order_id ` set orders - {[]}).
          stale_after \<le> wall now - wall (tr_created_at (the_value (by_order_id row_key confirms) i))})"
proof -
  let ?broker = "by_order_id po_order_id orders" and ?rows = "by_order_id row_key confirms"
  have "filter (\<lambda>i. i \<notin> fst ` set ?broker \<and> is_stale stale_after now (the_value ?rows i) = Inr True) (sort (map fst ?rows)) =
      sorted_list_of_set {i \<in> set (map fst ?rows). i \<notin> fst ` set ?broker \<and> is_stale stale_after now (the_value ?rows i) = Inr True}"
    by (rule sort_filter_set [OF by_order_id_distinct])
  also have "{i \<in> set (map fst ?rows). i \<notin> fst ` set ?broker \<and> is_stale stale_after now (the_value ?rows i) = Inr True} =
      {i \<in> (row_key ` set confirms - {[]}) - (po_order_id ` set orders - {[]}).
        stale_after \<le> wall now - wall (tr_created_at (the_value ?rows i))}"
    by (auto simp: by_order_id_keys is_stale_total)
  finally show ?thesis by (simp add: build_report_def Let_def)
qed

section \<open>Properties\<close>

text \<open>
  The report sorts the orders into disjoint lists that leave none out: the orders both sides
  know, once each, into matched, of another quantity, or partly filled; the orders only the broker
  knows; and of those only the table knows exactly the ones as old as the limit. No comparison of
  times raises, whether or not the clock and the row carry a zone.
\<close>

lemma report_partitions_orders:
  "(let r = build_report stale_after now orders confirms;
        B = po_order_id ` set orders - {[]};
        D = (\<lambda>tr. ostr (tr_order_id tr)) ` set confirms - {[]};
        row = the_value (by_order_id (\<lambda>tr. ostr (tr_order_id tr)) confirms)
    in sort (map pi_order_id (rp_matched r @ rp_quantity_mismatch r @ rp_partial_fill r)) = sorted_list_of_set (B \<inter> D) \<and>
       list_all (\<lambda>p. po_order_qty (pi_broker p) \<noteq> ti_quantity (pi_trade p)) (rp_quantity_mismatch r) \<and>
       list_all (\<lambda>p. po_order_qty (pi_broker p) = ti_quantity (pi_trade p)) (rp_matched r @ rp_partial_fill r) \<and>
       map po_order_id (rp_broker_only r) = sorted_list_of_set (B - D) \<and>
       map ti_order_id (rp_db_only_stale r) =
         sorted_list_of_set {i \<in> D - B. stale_after \<le> wall now - wall (tr_created_at (row i))})"
proof -
  let ?D = "row_key ` set confirms - {[]}" and ?B = "po_order_id ` set orders - {[]}"
  let ?row = "the_value (by_order_id row_key confirms)"
  let ?S = "{i \<in> ?D - ?B. stale_after \<le> wall now - wall (tr_created_at (?row i))}"
  have "map (\<lambda>i. ti_order_id (serialize_db_trade (?row i))) (sorted_list_of_set ?S) = sorted_list_of_set ?S"
    using the_value_mem [of _ row_key confirms] by (intro map_idI) (auto simp: by_order_id_keys)
  then have stale: "map ti_order_id (rp_db_only_stale (build_report stale_after now orders confirms)) = sorted_list_of_set ?S"
    by (simp add: report_stale comp_def)
  have "list_all (\<lambda>p. po_order_qty (pi_broker p) \<noteq> ti_quantity (pi_trade p))
      (rp_quantity_mismatch (build_report stale_after now orders confirms))"
    and "list_all (\<lambda>p. po_order_qty (pi_broker p) = ti_quantity (pi_trade p))
      (rp_matched (build_report stale_after now orders confirms) @ rp_partial_fill (build_report stale_after now orders confirms))"
    by (auto simp: build_report_def Let_def list_all_iff classify_pair_def split: if_splits)
  then show ?thesis unfolding Let_def by (intro conjI report_common report_broker_only stale)
qed

section \<open>What the cleanup writes\<close>

text \<open>Rows with an order id are told apart by it.\<close>

lemma order_unique:
  assumes "orders_ok s" and "x \<in> set (db_rows s)" and "y \<in> set (db_rows s)"
    and "row_key x = row_key y" and "row_key x \<noteq> []"
  shows "x = y"
proof -
  have *: "distinct (filter (\<lambda>i. i \<noteq> None) (map tr_order_id rows)) \<Longrightarrow> x \<in> set rows \<Longrightarrow> y \<in> set rows \<Longrightarrow>
      tr_order_id x = tr_order_id y \<Longrightarrow> tr_order_id x \<noteq> None \<Longrightarrow> x = y" for rows
    by (induction rows) (auto simp: image_iff split: if_splits)
  have "tr_order_id x = tr_order_id y" "tr_order_id x \<noteq> None"
    using assms(4,5) by (auto simp: ostr_def split: option.splits)
  then show ?thesis using * [of "db_rows s"] assms(1-3) by (simp add: orders_ok_def)
qed

definition stale_row :: "int \<Rightarrow> pydt \<Rightarrow> pending_order_info list \<Rightarrow> trade_result \<Rightarrow> bool" where
  "stale_row stale_after now orders tr \<longleftrightarrow> row_key tr \<noteq> [] \<and> row_key tr \<notin> po_order_id ` set orders \<and>
     stale_after \<le> wall now - wall (tr_created_at tr)"

lemma stale_item_iff:
  assumes "session_ok s" and "tr \<in> set confirms" and "set confirms \<subseteq> set (db_rows s)"
  shows "stale_item (build_report stale_after now orders confirms) (tr_id tr) \<noteq> None \<longleftrightarrow> stale_row stale_after now orders tr"
proof -
  let ?row = "the_value (by_order_id row_key confirms)"
  let ?S = "{i \<in> (row_key ` set confirms - {[]}) - (po_order_id ` set orders - {[]}).
      stale_after \<le> wall now - wall (tr_created_at (?row i))}"
  have row: "?row k \<in> set confirms \<and> row_key (?row k) = k" if "k \<in> row_key ` set confirms - {[]}" for k
    using the_value_mem [of k row_key confirms] that by (simp add: by_order_id_keys)
  have "finite ?S" by simp
  then have "stale_item (build_report stale_after now orders confirms) (tr_id tr) \<noteq> None \<longleftrightarrow> (\<exists>k \<in> ?S. tr_id (?row k) = tr_id tr)"
  proof -
    have "set (rp_db_only_stale (build_report stale_after now orders confirms)) = (\<lambda>i. serialize_db_trade (?row i)) ` ?S"
      unfolding report_stale set_map set_sorted_list_of_set [OF \<open>finite ?S\<close>] ..
    then have "stale_item (build_report stale_after now orders confirms) (tr_id tr) \<noteq> None \<longleftrightarrow>
        (\<exists>t \<in> (\<lambda>i. serialize_db_trade (?row i)) ` ?S. ti_trade_id t = tr_id tr)"
      unfolding stale_item_def find_None_iff set_rev by blast
    then show ?thesis by (simp only: bex_simps serialize_simps)
  qed
  also have "\<dots> \<longleftrightarrow> stale_row stale_after now orders tr"
  proof
    assume "\<exists>k \<in> ?S. tr_id (?row k) = tr_id tr"
    then obtain k where k: "k \<in> ?S" "tr_id (?row k) = tr_id tr" by blast
    then have "?row k = tr" "row_key (?row k) = k"
      using row [of k] row_unique [of s "?row k" tr] assms by (auto simp: session_ok_def)
    then show "stale_row stale_after now orders tr" using k(1) by (auto simp: stale_row_def)
  next
    assume st: "stale_row stale_after now orders tr"
    then have "row_key tr \<in> row_key ` set confirms - {[]}" using assms(2) by (auto simp: stale_row_def)
    moreover from row [OF this] have "?row (row_key tr) = tr"
      using order_unique [of s "?row (row_key tr)" tr] assms st by (auto simp: session_ok_def stale_row_def)
    ultimately show "\<exists>k \<in> ?S. tr_id (?row k) = tr_id tr" using st by (intro bexI [of _ "row_key tr"]) (auto simp: stale_row_def)
  qed
  finally show ?thesis .
qed

definition failed_row :: "(trade_note \<Rightarrow> string) \<Rightarrow> trade_result \<Rightarrow> trade_result" where
  "failed_row note_text tr = tr\<lparr>tr_status := CONFIRM_FAILED, tr_notes := Some (Note_text (build_failure_note
     (case tr_notes tr of None \<Rightarrow> [] | Some n \<Rightarrow> note_text n)))\<rparr>"

definition fails_row :: "reconciliation \<Rightarrow> bool \<Rightarrow> trade_result \<Rightarrow> bool" where
  "fails_row report dry_run tr \<longleftrightarrow> stale_item report (tr_id tr) \<noteq> None \<and> upper (tr_side tr) = ''BUY'' \<and> \<not> dry_run \<and>
     tr_status tr = PENDING_CONFIRM"

lemma cleanup_row_spec:
  "cu_report (fst (cleanup_row note_text dry_run tr (cu, s))) = cu_report cu \<and>
   snd (cleanup_row note_text dry_run tr (cu, s)) =
     (if fails_row (cu_report cu) dry_run tr then db_put (failed_row note_text tr) s else s)"
  by (auto simp: cleanup_row_def Let_def fails_row_def failed_row_def split: option.split)

lemma cleanup_fold:
  "snd (fold (cleanup_row note_text dry_run) trs (cu, s)) =
     fold db_put (map (failed_row note_text) (filter (fails_row (cu_report cu) dry_run) trs)) s"
proof (induction trs arbitrary: cu s)
  case (Cons tr trs)
  obtain cu1 s1 where 1: "cleanup_row note_text dry_run tr (cu, s) = (cu1, s1)" by fastforce
  then have "cu_report cu1 = cu_report cu"
    "s1 = (if fails_row (cu_report cu) dry_run tr then db_put (failed_row note_text tr) s else s)"
    using cleanup_row_spec [of note_text dry_run tr cu s] by simp_all
  then show ?case using Cons.IH [of cu1 s1] 1 by simp
qed simp

lemma rows_put: "db_rows (db_put x s) = map (\<lambda>r. if tr_id r = tr_id x then x else r) (db_rows s)"
  by (simp add: db_put_def db_modify_def)

lemma rows_puts:
  assumes "\<And>t. tr_id (f t) = tr_id t"
  shows "distinct (map tr_id ts) \<Longrightarrow> ids_ok s \<Longrightarrow> set ts \<subseteq> set (db_rows s) \<Longrightarrow>
     db_rows (fold db_put (map f ts) s) = map (\<lambda>r. if r \<in> set ts then f r else r) (db_rows s)"
proof (induction ts arbitrary: s rule: rev_induct)
  case (snoc t ts)
  have IH: "db_rows (fold db_put (map f ts) s) = map (\<lambda>r. if r \<in> set ts then f r else r) (db_rows s)"
    using snoc.prems by (intro snoc.IH) auto
  have "(if tr_id x = tr_id t then f t else x) = (if r \<in> set (ts @ [t]) then f r else r)"
    if r: "r \<in> set (db_rows s)" and x: "x = (if r \<in> set ts then f r else r)" for r x
  proof (cases "tr_id r = tr_id t")
    case True
    then have "r = t" using row_unique [OF snoc.prems(2) r] snoc.prems(3) by simp
    then show ?thesis using x assms by simp
  next
    case False
    then show ?thesis using x assms by auto
  qed
  then show ?case using IH assms by (simp add: rows_put)
qed simp

text \<open>
  The cleanup in apply mode fails exactly the unconfirmed buys with an order id that the
  broker does not list and that are as old as the limit; it writes nothing else into the table,
  and in a dry run nothing at all.
\<close>

lemma cleanup_fails_stale_buys:
  assumes "session_ok s"
  shows "db_rows (snd (cleanup note_text stale_after now orders dry_run s)) =
    map (\<lambda>r. if \<not> dry_run \<and> tr_status r = PENDING_CONFIRM \<and> upper (tr_side r) = ''BUY'' \<and>
            stale_row stale_after now orders r
         then failed_row note_text r else r) (db_rows s)"
proof -
  let ?confirms = "get_pending_confirms s"
  let ?report = "build_report stale_after now orders ?confirms"
  have sub: "set ?confirms \<subseteq> set (db_rows s)" by (auto simp: mem_pending_confirms)
  have ids: "ids_ok s" using assms by (simp add: session_ok_def)
  have "distinct (map tr_id (filter (\<lambda>r. tr_status r = PENDING_CONFIRM) (db_rows s)))"
    using ids by (simp add: ids_ok_def distinct_map_filter)
  then have dist: "distinct (map tr_id ?confirms)" by (auto simp: get_pending_confirms_def distinct_map)
  have iff: "fails_row ?report dry_run r \<longleftrightarrow> \<not> dry_run \<and> tr_status r = PENDING_CONFIRM \<and> upper (tr_side r) = ''BUY'' \<and>
      stale_row stale_after now orders r" if "r \<in> set ?confirms" for r
    using stale_item_iff [OF assms that sub] by (auto simp: fails_row_def)
  have "db_rows (snd (cleanup note_text stale_after now orders dry_run s)) =
      map (\<lambda>r. if r \<in> set (filter (fails_row ?report dry_run) ?confirms) then failed_row note_text r else r) (db_rows s)"
    unfolding cleanup_def Let_def cleanup_fold cleanup_result.simps
    using dist sub by (intro rows_puts ids) (auto simp: failed_row_def distinct_map_filter)
  also have "\<dots> = map (\<lambda>r. if \<not> dry_run \<and> tr_status r = PENDING_CONFIRM \<and> upper (tr_side r) = ''BUY'' \<and>
            stale_row stale_after now orders r then failed_row note_text r else r) (db_rows s)"
    using iff by (intro map_cong refl) (auto simp: mem_pending_confirms)
  finally show ?thesis .
qed

definition stale_sample_db :: db where
  "stale_sample_db = \<lparr>db_rows = [(sample_lot 1 10 70000 1)\<lparr>tr_status := PENDING_CONFIRM, tr_order_id := Some ''7''\<rparr>],
     db_seq = 2\<rparr>"

lemma cleanup_fails_stale_buys_witness:
  "map tr_status (db_rows (snd (cleanup (\<lambda>_. []) (30 * minute_us) (PyDT (2 * day_us) True) [] False stale_sample_db))) =
     [CONFIRM_FAILED]"
proof -
  have ok: "session_ok stale_sample_db"
    by (simp add: stale_sample_db_def session_ok_def ids_ok_def orders_ok_def)
  have "stale_row (30 * minute_us) (PyDT (2 * day_us) True) []
      ((sample_lot 1 10 70000 1)\<lparr>tr_status := PENDING_CONFIRM, tr_order_id := Some ''7''\<rparr>)"
    by (simp add: stale_row_def sample_lot_def default_trade_def day_us_def minute_us_def)
  moreover have "upper ''BUY'' = ''BUY''" by code_simp
  ultimately show ?thesis
    by (subst cleanup_fails_stale_buys [OF ok]) (simp add: stale_sample_db_def failed_row_def)
qed

text \<open>The failure note: its prefix is always there, and noting a failure twice adds nothing.\<close>

lemma strip_prefix:
  assumes "p \<noteq> []" and "\<not> is_space (hd p)" and "\<not> is_space (last p)"
  shows "\<exists>ys. strip (p @ x) = p @ ys"
proof -
  have "dropWhile is_space (p @ x) = p @ x" using assms by (cases p) auto
  moreover have "dropWhile is_space (rev x @ rev p) = dropWhile is_space (rev x) @ rev p"
  proof (cases "\<forall>c \<in> set x. is_space c")
    case True
    have "dropWhile is_space (rev p) = rev p" using assms by (simp add: dropWhile_eq_self_iff hd_rev)
    then show ?thesis using True by (simp add: dropWhile_append)
  next
    case False
    then obtain c where "c \<in> set (rev x)" "\<not> is_space c" by auto
    then show ?thesis by (rule dropWhile_append1)
  qed
  ultimately show ?thesis by (auto simp: strip_def)
qed

lemma stale_prefix_note: "contains stale_prefix (strip (stale_prefix @ x))"
proof -
  obtain ys where "strip (stale_prefix @ x) = stale_prefix @ ys"
    using strip_prefix [of stale_prefix x] by (auto simp: stale_prefix_def is_space_def)
  then show ?thesis using contains_append [of stale_prefix "[]" ys] by simp
qed

lemma failure_note_idem:
  "build_failure_note (build_failure_note n) = strip (build_failure_note n)"
proof -
  let ?m = "build_failure_note n"
  have c: "contains stale_prefix (strip ?m)"
    using stale_prefix_note [of "[]"] stale_prefix_note by (auto simp: build_failure_note_def Let_def)
  have "strip ?m \<noteq> []" using c by (auto simp: stale_prefix_def)
  with c show ?thesis by (simp add: build_failure_note_def [of ?m] Let_def)
qed

end
