(* ===== verification/Py_Text.thy ===== *)
theory Py_Text
  imports Py_Prelude
begin

text \<open>
  Numbers and their texts: lower case, the decimal text of an integer, and the texts \<open>int\<close> and \<open>float\<close>
  accept (sign, digits with single underscores between them, point, exponent; the texts of the
  infinities and NaN are no numbers here). Reading back the text of an integer gives the integer.
\<close>

definition lower_char :: "char \<Rightarrow> char" where
  "lower_char c = (let n = (of_char c :: nat) in if 65 \<le> n \<and> n \<le> 90 then char_of (n + 32) else c)"

definition lower :: "string \<Rightarrow> string" where "lower = map lower_char"

fun nat_digits :: "nat \<Rightarrow> string" where
  "nat_digits n = (if n < 10 then [char_of (48 + n)] else nat_digits (n div 10) @ [char_of (48 + n mod 10)])"

declare nat_digits.simps [simp del]

definition int_repr :: "int \<Rightarrow> string" where
  "int_repr i = (if i < 0 then CHR ''-'' # nat_digits (nat (- i)) else nat_digits (nat i))"

text \<open>A run of digits; single underscores may stand between digits.\<close>

fun digit_run :: "bool \<Rightarrow> nat \<Rightarrow> string \<Rightarrow> nat option" where
  "digit_run after_digit acc [] = (if after_digit then Some acc else None)"
| "digit_run after_digit acc (c # cs) =
     (if is_digit c then digit_run True (acc * 10 + (of_char c - 48)) cs
      else if c = CHR ''_'' \<and> after_digit then digit_run False acc cs else None)"

definition signed :: "string \<Rightarrow> bool \<times> string" where
  "signed s = (case s of [] \<Rightarrow> (False, [])
     | c # cs \<Rightarrow> if c = CHR ''-'' then (True, cs) else if c = CHR ''+'' then (False, cs) else (False, s))"

definition int_of_text :: "string \<Rightarrow> int option" where
  "int_of_text s = (let (neg, ds) = signed (strip s)
     in map_option (\<lambda>n. if neg then - int n else int n) (digit_run False 0 ds))"

definition mantissa_of_text :: "string \<Rightarrow> real option" where
  "mantissa_of_text s =
     (let ip = takeWhile (\<lambda>c. c \<noteq> CHR ''.'') s; rest = dropWhile (\<lambda>c. c \<noteq> CHR ''.'') s; fp = tl rest;
          whole = (if ip = [] then Some 0 else digit_run False 0 ip);
          frac = (if fp = [] then Some 0 else digit_run False 0 fp)
      in if ip = [] \<and> fp = [] then None
         else case (whole, frac) of
           (Some a, Some b) \<Rightarrow> Some (real a + real b / 10 ^ length (filter is_digit fp))
         | _ \<Rightarrow> None)"

definition float_of_text :: "string \<Rightarrow> real option" where
  "float_of_text s =
     (let (neg, t) = signed (strip s); is_e = (\<lambda>c. c = CHR ''e'' \<or> c = CHR ''E'');
          m = mantissa_of_text (takeWhile (\<lambda>c. \<not> is_e c) t);
          rest = dropWhile (\<lambda>c. \<not> is_e c) t;
          e = (if rest = [] then Some 0
               else let (eneg, ds) = signed (tl rest)
                    in map_option (\<lambda>n. if eneg then - int n else int n) (digit_run False 0 ds))
      in case (m, e) of
           (Some x, Some k) \<Rightarrow> Some ((if neg then - x else x) * (if 0 \<le> k then 10 ^ nat k else 1 / 10 ^ nat (- k)))
         | _ \<Rightarrow> None)"

section \<open>Round trip\<close>

lemma digit_char: "(n::nat) < 10 \<Longrightarrow> is_digit (char_of (48 + n)) \<and> of_char (char_of (48 + n) :: char) = 48 + n"
  by (simp add: is_digit_def Let_def)

lemma digit_run_snoc:
  "digit_run b acc ds = Some m \<Longrightarrow> n < 10 \<Longrightarrow> digit_run b acc (ds @ [char_of (48 + n)]) = Some (m * 10 + n)"
  using digit_char [of n] by (induction ds arbitrary: b acc) (auto split: if_splits)

lemma nat_digits_nonempty [simp]: "nat_digits n \<noteq> []"
  by (subst nat_digits.simps) simp

lemma nat_digits_digit: "list_all is_digit (nat_digits n)"
proof (induction n rule: nat_digits.induct)
  case (1 n)
  then show ?case using digit_char [of n] digit_char [of "n mod 10"] by (subst nat_digits.simps) auto
qed

lemma digit_run_nat: "digit_run False 0 (nat_digits n) = Some n"
proof (induction n rule: nat_digits.induct)
  case (1 n)
  show ?case
  proof (cases "n < 10")
    case True
    then show ?thesis using digit_char [of n] by (subst nat_digits.simps) simp
  next
    case False
    then show ?thesis using 1 digit_run_snoc [of False 0 "nat_digits (n div 10)" "n div 10" "n mod 10"]
      by (subst nat_digits.simps) simp
  qed
qed

lemma digit_not_sign: "is_digit c \<Longrightarrow> c \<noteq> CHR ''-'' \<and> c \<noteq> CHR ''+'' \<and> \<not> is_space c"
  by (auto simp: is_digit_def is_space_def Let_def)

lemma strip_no_space: "s \<noteq> [] \<Longrightarrow> \<not> is_space (hd s) \<Longrightarrow> \<not> is_space (last s) \<Longrightarrow> strip s = s"
proof -
  assume "s \<noteq> []" "\<not> is_space (hd s)" "\<not> is_space (last s)"
  then have "dropWhile is_space s = s" "dropWhile is_space (rev s) = rev s"
    by (auto simp: dropWhile_eq_self_iff hd_rev)
  then show "strip s = s" by (simp add: strip_def)
qed

lemma int_of_repr [simp]: "int_of_text (int_repr i) = Some i"
proof -
  have ends: "\<not> is_space (hd (nat_digits n))" "\<not> is_space (last (nat_digits n))" "hd (nat_digits n) \<noteq> CHR ''-''"
    "hd (nat_digits n) \<noteq> CHR ''+''" for n
    using nat_digits_digit [of n] digit_not_sign by (auto simp: list_all_iff)
  have plain: "strip (nat_digits n) = nat_digits n" for n using ends by (intro strip_no_space) auto
  have minus: "strip (CHR ''-'' # nat_digits n) = CHR ''-'' # nat_digits n" for n
    using ends(2) [of n] by (intro strip_no_space) (auto simp: is_space_def)
  have sign: "signed (nat_digits n) = (False, nat_digits n)" for n
    using ends [of n] by (cases "nat_digits n") (auto simp: signed_def)
  show ?thesis
    using plain minus sign digit_run_nat by (auto simp: int_repr_def int_of_text_def signed_def [of "CHR ''-'' # _"])
qed

end
