(* ===== verification/Runtime_Settings.thy ===== *)
theory Runtime_Settings
  imports Settings_Model Py_Text "HOL-Library.AList"
begin

text \<open>
  The settings an operator changes while the program runs: the coercion of a submitted value to
  the type of the setting (\<open>core/runtime_settings.py\<close>) and the service that applies, stores and
  restores them (\<open>services/runtime_settings_service.py\<close>). The settings object is a map from names
  to values; the table of stored settings is an association list in insertion order. JSON writes
  and reads back a scalar unchanged, so a stored row holds the value itself. \<open>repr\<close>, the text
  Python gives a float, is an argument; the texts of the infinities and NaN are no numbers here.
\<close>

section \<open>Python values and their conversions\<close>

datatype py_value = PNone | PBool bool | PInt int | PFloat real | PStr string | PObj string

definition py_str :: "(real \<Rightarrow> string) \<Rightarrow> py_value \<Rightarrow> string" where
  "py_str repr v = (case v of PNone \<Rightarrow> ''None'' | PBool b \<Rightarrow> (if b then ''True'' else ''False'')
     | PInt i \<Rightarrow> int_repr i | PFloat x \<Rightarrow> repr x | PStr s \<Rightarrow> s | PObj s \<Rightarrow> s)"

text \<open>\<open>int(value)\<close> and \<open>float(value)\<close>; a value that is no number raises one of the two caught exceptions.\<close>

definition to_int :: "py_value \<Rightarrow> int option" where
  "to_int v = (case v of PBool b \<Rightarrow> Some (if b then 1 else 0) | PInt i \<Rightarrow> Some i | PFloat x \<Rightarrow> Some (py_int x)
     | PStr s \<Rightarrow> int_of_text s | _ \<Rightarrow> None)"

definition to_float :: "py_value \<Rightarrow> real option" where
  "to_float v = (case v of PBool b \<Rightarrow> Some (if b then 1 else 0) | PInt i \<Rightarrow> Some (of_int i) | PFloat x \<Rightarrow> Some x
     | PStr s \<Rightarrow> float_of_text s | _ \<Rightarrow> None)"

text \<open>Truth of a value; an object (list or dict) is rendered, and empty iff its text is a pair of brackets.\<close>

definition py_truthy :: "py_value \<Rightarrow> bool" where
  "py_truthy v = (case v of PNone \<Rightarrow> False | PBool b \<Rightarrow> b | PInt i \<Rightarrow> i \<noteq> 0 | PFloat x \<Rightarrow> x \<noteq> 0
     | PStr s \<Rightarrow> s \<noteq> [] | PObj s \<Rightarrow> s \<noteq> ''[]'' \<and> s \<noteq> ''{}'')"

section \<open>Coercion\<close>

definition mutable_settings :: "string list" where
  "mutable_settings =
     [''TRADING_ENABLED'', ''ORDER_SUBMISSION_MODE'', ''AUTONOMY_MODE'',
     ''RECOMMENDATION_EXPIRE_MIN'', ''SCHEDULER_ENABLED'', ''RISK_APPETITE'',
     ''BUY_ORDER_EXECUTION_MODE'', ''BUY_SLIPPAGE_GUARD_BPS'', ''AUTO_RISK_KILL_SWITCH_ENABLED'',
     ''MAX_DAILY_DRAWDOWN_PCT'', ''MAX_CONSECUTIVE_LOSSES'', ''MIN_STRATEGY_EXPECTANCY'',
     ''EXPECTANCY_SAMPLE_SIZE'', ''VOLATILITY_POSITION_SIZING_ENABLED'', ''RISK_PER_TRADE_PCT'',
     ''RISK_MULTIPLIER_SHORT'', ''RISK_MULTIPLIER_MID'', ''RISK_MULTIPLIER_LONG'',
     ''COST_GATE_ENABLED'', ''ESTIMATED_ENTRY_COST_BPS'', ''ESTIMATED_EXIT_COST_BPS'',
     ''ESTIMATED_SLIPPAGE_BPS_SHORT'', ''ESTIMATED_SLIPPAGE_BPS_MID'',
     ''ESTIMATED_SLIPPAGE_BPS_LONG'', ''MIN_EDGE_TO_COST_RATIO_SHORT'',
     ''MIN_EDGE_TO_COST_RATIO_MID'', ''MIN_EDGE_TO_COST_RATIO_LONG'', ''LLM_PROVIDER_TIER1'',
     ''LLM_PROVIDER_TIER2'', ''LLM_FALLBACK_PROVIDER_TIER1'', ''LLM_FALLBACK_PROVIDER_TIER2'',
     ''LLM_FALLBACK_MODEL_TIER1'', ''LLM_FALLBACK_MODEL_TIER2'', ''CLAUDE_CODE_MODEL'',
     ''CLAUDE_CODE_MODEL_TIER1'', ''CLAUDE_CODE_MODEL_TIER2'', ''CODEX_MODEL'',
     ''CODEX_MODEL_TIER1'', ''CODEX_MODEL_TIER2'', ''CODEX_TIMEOUT_SEC_TIER1'',
     ''CODEX_TIMEOUT_SEC_TIER2'', ''LLM_TIER1_CONCURRENCY'', ''LLM_TIER2_CONCURRENCY'',
     ''OLLAMA_BASE_URL'', ''OLLAMA_MODEL'', ''OLLAMA_MODEL_TIER1'', ''OLLAMA_MODEL_TIER2'',
     ''MANUAL_LLM_PROVIDER'', ''MANUAL_LLM_MODEL'', ''MANUAL_LLM_FALLBACK_PROVIDER'',
     ''MANUAL_LLM_FALLBACK_MODEL'', ''NEWS_LLM_ENABLED'', ''NEWS_LLM_PROVIDER'', ''NEWS_LLM_MODEL'',
     ''NEWS_LLM_FALLBACK_PROVIDER'', ''NEWS_LLM_FALLBACK_MODEL'', ''NEWS_DOMESTIC_MEDIA_ENABLED'',
     ''NEWS_INCLUDE_FOREIGN'', ''NEWS_NASDAQ_ENABLED'', ''NEWS_GATE_ENABLED'',
     ''NEWS_LOOKBACK_HOURS'', ''NEWS_MAX_ITEMS_PER_SYMBOL'', ''NEWS_NEGATIVE_BLOCK_THRESHOLD'',
     ''NEWS_FRESHNESS_HALFLIFE_HOURS'', ''NEWS_POLL_ENABLED'', ''NEWS_POLL_INTERVAL_MIN_TRADING'',
     ''NEWS_POLL_INTERVAL_MIN_OFF_HOURS'', ''NEWS_POLL_PAGE_COUNT'', ''NEWS_FETCH_CONCURRENCY'',
     ''NEWS_SOURCE_FAILURE_THRESHOLD'', ''NEWS_SOURCE_FAILURE_COOLDOWN_MIN'',
     ''NEWS_TRANSLATION_CONCURRENCY'', ''NEWS_CLAUDE_SHARE_SESSION'', ''NEWS_RECHECK_COOLDOWN_SEC'',
     ''BROKER_BALANCE_RETRY_COUNT'', ''BROKER_BALANCE_RETRY_DELAY_MS'', ''NEWS_SHADOW_ENABLED'',
     ''NEWS_ROLLOUT_MIN_SAMPLE_SIZE'', ''NEWS_ROLLOUT_MIN_PROFIT_FACTOR'',
     ''NEWS_ROLLOUT_MIN_EXPECTANCY'', ''NEWS_ROLLOUT_MAX_DRAWDOWN_KRW'']"

definition concurrency_keys :: "string list" where
  "concurrency_keys =
     [''LLM_TIER1_CONCURRENCY'', ''LLM_TIER2_CONCURRENCY'', ''NEWS_FETCH_CONCURRENCY'',
     ''NEWS_TRANSLATION_CONCURRENCY'', ''NEWS_SOURCE_FAILURE_THRESHOLD'',
     ''BROKER_BALANCE_RETRY_COUNT'']"

definition timeout_keys :: "string list" where
  "timeout_keys =
     [''CODEX_TIMEOUT_SEC_TIER1'', ''CODEX_TIMEOUT_SEC_TIER2'']"

definition tier_provider_keys :: "string list" where
  "tier_provider_keys =
     [''LLM_PROVIDER_TIER1'', ''LLM_PROVIDER_TIER2'', ''LLM_FALLBACK_PROVIDER_TIER1'',
     ''LLM_FALLBACK_PROVIDER_TIER2'']"

definition provider_keys :: "string list" where
  "provider_keys =
     [''MANUAL_LLM_PROVIDER'', ''NEWS_LLM_PROVIDER'']"

definition fallback_provider_keys :: "string list" where
  "fallback_provider_keys =
     [''MANUAL_LLM_FALLBACK_PROVIDER'', ''NEWS_LLM_FALLBACK_PROVIDER'']"

definition model_keys :: "string list" where
  "model_keys =
     [''LLM_FALLBACK_MODEL_TIER1'', ''LLM_FALLBACK_MODEL_TIER2'', ''CLAUDE_CODE_MODEL'',
     ''CLAUDE_CODE_MODEL_TIER1'', ''CLAUDE_CODE_MODEL_TIER2'', ''CODEX_MODEL'',
     ''CODEX_MODEL_TIER1'', ''CODEX_MODEL_TIER2'', ''OLLAMA_MODEL'', ''OLLAMA_MODEL_TIER1'',
     ''OLLAMA_MODEL_TIER2'', ''MANUAL_LLM_MODEL'', ''MANUAL_LLM_FALLBACK_MODEL'',
     ''NEWS_LLM_MODEL'', ''NEWS_LLM_FALLBACK_MODEL'']"

definition llm_providers :: "string list" where
  "llm_providers = [''CLAUDE_CODE'', ''CODEX'', ''OLLAMA'']"

definition normalize_llm_model_value :: "string \<Rightarrow> string" where
  "normalize_llm_model_value val =
     (let t = strip val in if t = [] \<or> upper t = ''DEFAULT'' then ''DEFAULT'' else t)"

text \<open>The bounds of the integer settings; a value outside them is an HTTP error.\<close>

definition int_range :: "string \<Rightarrow> (int \<times> int) option" where
  "int_range key =
     (if key \<in> set concurrency_keys then Some (1, 8)
      else if key \<in> set timeout_keys then Some (30, 300)
      else if key = ''NEWS_SOURCE_FAILURE_COOLDOWN_MIN'' then Some (1, 240)
      else if key = ''BROKER_BALANCE_RETRY_DELAY_MS'' then Some (100, 5000) else None)"

definition http_400 :: "string \<Rightarrow> py_exn" where
  "http_400 detail = Exn ServiceException detail"

definition coerce_int :: "string \<Rightarrow> py_value \<Rightarrow> py_value option res" where
  "coerce_int key val =
     (case to_int val of
        None \<Rightarrow> Inl (http_400 (key @ '' must be an integer''))
      | Some i \<Rightarrow>
          (case int_range key of
             None \<Rightarrow> Inr (Some (PInt i))
           | Some (lo, hi) \<Rightarrow>
               if i < lo \<or> hi < i
               then Inl (http_400 (key @ '' must be between '' @ int_repr lo @ '' and '' @ int_repr hi))
               else Inr (Some (PInt i))))"

text \<open>\<open>None\<close> stands for the marker \<open>_SKIP\<close>.\<close>

definition choice :: "string list \<Rightarrow> string \<Rightarrow> py_value option" where
  "choice allowed normalized = (if normalized \<in> set allowed then Some (PStr normalized) else None)"

definition coerce_text :: "(real \<Rightarrow> string) \<Rightarrow> string \<Rightarrow> py_value option \<Rightarrow> py_value \<Rightarrow> py_value option" where
  "coerce_text repr key current val =
     (let normalized = upper (py_str repr val) in
      if key \<in> set tier_provider_keys then
        (if is_prefix ''LLM_FALLBACK_PROVIDER_'' key \<and> normalized \<in> {[], ''NONE''} then Some (PStr [])
         else choice llm_providers normalized)
      else if key \<in> set provider_keys then choice llm_providers normalized
      else if key \<in> set fallback_provider_keys then
        (if normalized \<in> {[], ''NONE''} then Some (PStr []) else choice llm_providers normalized)
      else if key = ''BUY_ORDER_EXECUTION_MODE'' then choice [''LIMIT_GUARD'', ''MARKET''] normalized
      else if key = ''ORDER_SUBMISSION_MODE'' then
        choice valid_submission_modes
          (normalize_order_submission_mode (if py_truthy val then py_str repr val else []))
      else if key \<in> set model_keys then Some (PStr (normalize_llm_model_value (py_str repr val)))
      else case current of Some (PStr _) \<Rightarrow> Some (PStr (py_str repr val)) | _ \<Rightarrow> Some val)"

definition true_words :: "string list" where
  "true_words = [''true'', ''1'', ''yes'', ''on'']"

definition coerce_runtime_setting_value ::
  "(real \<Rightarrow> string) \<Rightarrow> (string \<Rightarrow> py_value option) \<Rightarrow> string \<Rightarrow> py_value \<Rightarrow> py_value option res" where
  "coerce_runtime_setting_value repr cfg key val =
     (case cfg key of
        Some (PBool _) \<Rightarrow> Inr (Some (case val of PBool b \<Rightarrow> PBool b
          | _ \<Rightarrow> PBool (lower (py_str repr val) \<in> set true_words)))
      | Some (PInt _) \<Rightarrow> coerce_int key val
      | Some (PFloat _) \<Rightarrow>
          (case to_float val of None \<Rightarrow> Inl (http_400 (key @ '' must be a number''))
           | Some x \<Rightarrow> Inr (Some (PFloat x)))
      | current \<Rightarrow> Inr (coerce_text repr key current val))"

section \<open>The service\<close>

type_synonym config = "string \<Rightarrow> py_value option"
type_synonym setting_rows = "(string \<times> py_value) list"

text \<open>All values are coerced first: one bad value rejects the whole batch.\<close>

fun normalize_updates :: "(real \<Rightarrow> string) \<Rightarrow> config \<Rightarrow> (string \<times> py_value) list \<Rightarrow> (string \<times> py_value) list res" where
  "normalize_updates repr cfg [] = Inr []"
| "normalize_updates repr cfg ((key, val) # us) =
     (if key \<notin> set mutable_settings then normalize_updates repr cfg us
      else rbind (coerce_runtime_setting_value repr cfg key val) (\<lambda>normalized.
             rbind (normalize_updates repr cfg us) (\<lambda>rest.
               Inr (case normalized of None \<Rightarrow> rest | Some v \<Rightarrow> (key, v) # rest))))"

text \<open>The loop inside the transaction: the settings object is changed before the row is written.\<close>

fun store_updates :: "(string \<Rightarrow> bool) \<Rightarrow> (string \<times> py_value) list \<Rightarrow> config \<times> setting_rows \<Rightarrow>
    bool \<times> config \<times> setting_rows" where
  "store_updates db_fails [] st = (True, st)"
| "store_updates db_fails ((key, v) # us) (cfg, rows) =
     (if db_fails key then (False, cfg(key \<mapsto> v), rows)
      else store_updates db_fails us (cfg(key \<mapsto> v), AList.update key v rows))"

definition update_settings ::
  "(real \<Rightarrow> string) \<Rightarrow> (string \<Rightarrow> bool) \<Rightarrow> (string \<times> py_value) list \<Rightarrow> config \<times> setting_rows \<Rightarrow>
     unit res \<times> config \<times> setting_rows" where
  "update_settings repr db_fails updates st =
     (case normalize_updates repr (fst st) updates of
        Inl e \<Rightarrow> (Inl e, st)
      | Inr us \<Rightarrow>
          (case store_updates db_fails us st of
             (True, st') \<Rightarrow> (Inr (), st')
           | (False, cfg', rows') \<Rightarrow> (Inl (Exn ExternalError ''database''), cfg', snd st)))"

text \<open>At the start of the program the stored rows are applied, each coerced again.\<close>

fun apply_persisted_settings :: "(real \<Rightarrow> string) \<Rightarrow> setting_rows \<Rightarrow> config \<Rightarrow> unit res \<times> config" where
  "apply_persisted_settings repr [] cfg = (Inr (), cfg)"
| "apply_persisted_settings repr ((key, val) # rows) cfg =
     (if key \<notin> set mutable_settings then apply_persisted_settings repr rows cfg
      else case coerce_runtime_setting_value repr cfg key val of
        Inl e \<Rightarrow> (Inl e, cfg)
      | Inr None \<Rightarrow> apply_persisted_settings repr rows cfg
      | Inr (Some v) \<Rightarrow> apply_persisted_settings repr rows (cfg(key \<mapsto> v)))"

section \<open>Lemmas\<close>

datatype value_kind = Kind_none | Kind_bool | Kind_int | Kind_float | Kind_str | Kind_obj

fun kind_of :: "py_value \<Rightarrow> value_kind" where
  "kind_of PNone = Kind_none" | "kind_of (PBool b) = Kind_bool" | "kind_of (PInt i) = Kind_int"
| "kind_of (PFloat x) = Kind_float" | "kind_of (PStr s) = Kind_str" | "kind_of (PObj s) = Kind_obj"

text \<open>The declared types of the settings object: four kinds.\<close>

definition typed :: "config \<Rightarrow> bool" where
  "typed cfg \<longleftrightarrow> (\<forall>key \<in> set mutable_settings. \<exists>v. cfg key = Some v \<and>
     kind_of v \<in> {Kind_bool, Kind_int, Kind_float, Kind_str})"

definition same_kinds :: "config \<Rightarrow> config \<Rightarrow> bool" where
  "same_kinds cfg cfg' \<longleftrightarrow> (\<forall>key. map_option kind_of (cfg key) = map_option kind_of (cfg' key))"

lemma kind_of_simps [simp]:
  "kind_of v = Kind_bool \<longleftrightarrow> (\<exists>b. v = PBool b)" "kind_of v = Kind_int \<longleftrightarrow> (\<exists>i. v = PInt i)"
  "kind_of v = Kind_float \<longleftrightarrow> (\<exists>x. v = PFloat x)" "kind_of v = Kind_str \<longleftrightarrow> (\<exists>s. v = PStr s)"
  by (cases v; simp)+

text \<open>What a coerced value can be.\<close>

definition value_ok :: "string \<Rightarrow> py_value \<Rightarrow> bool" where
  "value_ok key v \<longleftrightarrow>
     (case v of
        PInt i \<Rightarrow> (case int_range key of None \<Rightarrow> True | Some (lo, hi) \<Rightarrow> lo \<le> i \<and> i \<le> hi)
      | PStr s \<Rightarrow>
          (if key \<in> set tier_provider_keys then s \<in> set llm_providers \<or> is_prefix ''LLM_FALLBACK_PROVIDER_'' key \<and> s = []
           else if key \<in> set provider_keys then s \<in> set llm_providers
           else if key \<in> set fallback_provider_keys then s \<in> set llm_providers \<or> s = []
           else if key = ''BUY_ORDER_EXECUTION_MODE'' then s \<in> {''LIMIT_GUARD'', ''MARKET''}
           else if key = ''ORDER_SUBMISSION_MODE'' then s \<in> set valid_submission_modes
           else if key \<in> set model_keys then normalize_llm_model_value s = s
           else True)
      | _ \<Rightarrow> True)"

lemma normalize_model_idem: "normalize_llm_model_value (normalize_llm_model_value s) = normalize_llm_model_value s"
proof -
  have "normalize_llm_model_value ''DEFAULT'' = ''DEFAULT''" by code_simp
  then show ?thesis by (auto simp: normalize_llm_model_value_def Let_def)
qed

lemma upper_words: "s \<in> set llm_providers \<Longrightarrow> upper s = s" "s \<in> {''LIMIT_GUARD'', ''MARKET''} \<Longrightarrow> upper s = s"
    "s \<in> set valid_submission_modes \<Longrightarrow> normalize_order_submission_mode s = s \<and> s \<noteq> []"
  by (auto simp: llm_providers_def valid_submission_modes_def; code_simp)+

lemma coerce_text_ok:
  assumes "coerce_text repr key (Some (PStr c)) val = Some w"
  shows "(\<exists>s. w = PStr s) \<and> value_ok key w"
  using assms by (auto simp: coerce_text_def Let_def value_ok_def choice_def normalize_model_idem split: if_splits)

lemma coerce_int_ok: "coerce_int key val = Inr (Some w) \<Longrightarrow> (\<exists>i. w = PInt i) \<and> value_ok key w"
  by (auto simp: coerce_int_def value_ok_def split: option.splits prod.splits if_splits)

text \<open>A coerced value has the type of the setting and keeps its bounds.\<close>

lemma coerce_ok:
  assumes "coerce_runtime_setting_value repr cfg key val = Inr (Some w)" and "cfg key = Some c"
    and "kind_of c \<in> {Kind_bool, Kind_int, Kind_float, Kind_str}"
  shows "kind_of w = kind_of c \<and> value_ok key w"
  using assms coerce_text_ok [of repr key _ val w] coerce_int_ok [of key val w]
  by (cases c) (auto simp: coerce_runtime_setting_value_def value_ok_def split: py_value.splits option.splits)

lemma upper_choice:
  "s \<in> set llm_providers \<Longrightarrow> choice llm_providers (upper s) = Some (PStr s)"
  "s \<in> {''LIMIT_GUARD'', ''MARKET''} \<Longrightarrow> choice [''LIMIT_GUARD'', ''MARKET''] (upper s) = Some (PStr s)"
  "s \<in> set valid_submission_modes \<Longrightarrow>
     choice valid_submission_modes (normalize_order_submission_mode (if s = [] then [] else s)) = Some (PStr s)"
  using upper_words by (simp_all add: choice_def)

lemma no_provider_empty: "s \<in> set llm_providers \<Longrightarrow> upper s \<noteq> [] \<and> upper s \<noteq> ''NONE''"
  by (auto simp: llm_providers_def; code_simp)

lemma coerce_text_fixed:
  assumes "value_ok key (PStr s)"
  shows "coerce_text repr key (Some (PStr c)) (PStr s) = Some (PStr s)"
proof -
  consider "key \<in> set tier_provider_keys" | "key \<in> set provider_keys" "key \<notin> set tier_provider_keys"
    | "key \<in> set fallback_provider_keys" "key \<notin> set tier_provider_keys" "key \<notin> set provider_keys"
    | "key \<notin> set tier_provider_keys" "key \<notin> set provider_keys" "key \<notin> set fallback_provider_keys" by blast
  then show ?thesis
  proof cases
    case 1
    then show ?thesis using assms no_provider_empty upper_choice(1)
      by (auto simp: coerce_text_def value_ok_def py_str_def Let_def)
  next
    case 2
    then show ?thesis using assms upper_choice(1) by (simp add: coerce_text_def value_ok_def py_str_def Let_def)
  next
    case 3
    then show ?thesis using assms no_provider_empty upper_choice(1)
      by (auto simp: coerce_text_def value_ok_def py_str_def Let_def)
  next
    case 4
    then show ?thesis using assms upper_choice(2,3)
      by (auto simp: coerce_text_def value_ok_def py_str_def py_truthy_def Let_def split: if_splits)
  qed
qed

text \<open>Coercing a coerced value changes nothing.\<close>

lemma coerce_fixed:
  assumes "value_ok key w" and "cfg key = Some c" and "kind_of w = kind_of c"
    and "kind_of c \<in> {Kind_bool, Kind_int, Kind_float, Kind_str}"
  shows "coerce_runtime_setting_value repr cfg key w = Inr (Some w)"
  using assms
  by (cases c; cases w)
    (auto simp: coerce_runtime_setting_value_def coerce_int_def to_int_def to_float_def value_ok_def coerce_text_fixed
      split: option.splits)

text \<open>What a batch of updates leaves behind.\<close>

definition update_ok :: "config \<Rightarrow> string \<times> py_value \<Rightarrow> bool" where
  "update_ok cfg u \<longleftrightarrow> fst u \<in> set mutable_settings \<and> value_ok (fst u) (snd u) \<and>
     (\<exists>c. cfg (fst u) = Some c \<and> kind_of (snd u) = kind_of c)"

lemma normalize_updates_ok:
  "typed cfg \<Longrightarrow> normalize_updates repr cfg us = Inr vs \<Longrightarrow> list_all (update_ok cfg) vs"
proof (induction us arbitrary: vs)
  case (Cons u us)
  obtain key val where u: "u = (key, val)" by (cases u)
  show ?case
  proof (cases "key \<in> set mutable_settings")
    case True
    with Cons.prems u obtain n rest where
      n: "coerce_runtime_setting_value repr cfg key val = Inr n" and rest: "normalize_updates repr cfg us = Inr rest"
      and vs: "vs = (case n of None \<Rightarrow> rest | Some v \<Rightarrow> (key, v) # rest)"
      by (auto simp: rbind_eq_Inr)
    obtain c where c: "cfg key = Some c" "kind_of c \<in> {Kind_bool, Kind_int, Kind_float, Kind_str}"
      using Cons.prems(1) True unfolding typed_def by blast
    have "update_ok cfg (key, v)" if "n = Some v" for v
      using coerce_ok [OF n [unfolded that] c] c True by (auto simp: update_ok_def)
    then show ?thesis using Cons.IH [OF Cons.prems(1) rest] vs by (auto split: option.splits)
  next
    case False
    then show ?thesis using Cons u by simp
  qed
qed simp

text \<open>The state of the service: what the settings object and the table know of the start values.\<close>

definition settings_inv :: "config \<Rightarrow> config \<times> setting_rows \<Rightarrow> bool" where
  "settings_inv d st \<longleftrightarrow> same_kinds d (fst st) \<and> distinct (map fst (snd st)) \<and>
     (\<forall>u \<in> set (snd st). update_ok d u) \<and>
     (\<forall>key. fst st key = d key \<or> (\<exists>v. fst st key = Some v \<and> update_ok d (key, v)))"

definition in_step :: "config \<Rightarrow> config \<times> setting_rows \<Rightarrow> bool" where
  "in_step d st \<longleftrightarrow> fst st = d ++ map_of (snd st)"

lemma same_kinds_update: "same_kinds d cfg \<Longrightarrow> update_ok d (key, v) \<Longrightarrow> same_kinds d (cfg(key \<mapsto> v))"
proof -
  assume same: "same_kinds d cfg" and ok: "update_ok d (key, v)"
  have "map_option kind_of (d key) = Some (kind_of v)" using ok by (auto simp: update_ok_def)
  with same show ?thesis by (simp add: same_kinds_def)
qed

lemma update_ok_same_kinds: "same_kinds d cfg \<Longrightarrow> update_ok cfg u \<Longrightarrow> update_ok d u"
proof -
  assume same: "same_kinds d cfg" and ok: "update_ok cfg u"
  then obtain c where "cfg (fst u) = Some c" "kind_of (snd u) = kind_of c" by (auto simp: update_ok_def)
  moreover from same have "map_option kind_of (d (fst u)) = map_option kind_of (cfg (fst u))" by (simp add: same_kinds_def)
  ultimately have "\<exists>c. d (fst u) = Some c \<and> kind_of (snd u) = kind_of c" by auto
  with ok show ?thesis by (simp add: update_ok_def)
qed

lemma store_updates_inv:
  "settings_inv d (cfg, rows) \<Longrightarrow> list_all (update_ok d) us \<Longrightarrow> store_updates fails us (cfg, rows) = (ok, cfg', rows') \<Longrightarrow>
     settings_inv d (cfg', rows') \<and> settings_inv d (cfg', rows) \<and>
     (in_step d (cfg, rows) \<longrightarrow> ok \<longrightarrow> in_step d (cfg', rows'))"
proof (induction us arbitrary: cfg rows)
  case (Cons u us)
  obtain key v where u: "u = (key, v)" by (cases u)
  have ok: "update_ok d (key, v)" using Cons.prems(2) u by simp
  have here: "settings_inv d (cfg(key \<mapsto> v), rows)"
    using Cons.prems(1) ok by (auto simp: settings_inv_def same_kinds_update)
  show ?case
  proof (cases "fails key")
    case True
    then show ?thesis using Cons.prems u here by auto
  next
    case False
    let ?rows = "AList.update key v rows"
    have "set ?rows \<subseteq> insert (key, v) (set rows)" by (induction rows) auto
    then have next_inv: "settings_inv d (cfg(key \<mapsto> v), ?rows)"
      using here ok by (auto simp: settings_inv_def distinct_update)
    have run: "store_updates fails us (cfg(key \<mapsto> v), ?rows) = (ok, cfg', rows')"
      using Cons.prems(3) u False by simp
    have rest: "settings_inv d (cfg', rows') \<and> settings_inv d (cfg', ?rows) \<and>
        (in_step d (cfg(key \<mapsto> v), ?rows) \<longrightarrow> ok \<longrightarrow> in_step d (cfg', rows'))"
      using Cons.prems(2) u by (intro Cons.IH next_inv run) simp
    then have "settings_inv d (cfg', rows)" using Cons.prems(1) by (auto simp: settings_inv_def)
    moreover have "in_step d (cfg, rows) \<Longrightarrow> in_step d (cfg(key \<mapsto> v), ?rows)"
      by (simp add: in_step_def update_conv')
    ultimately show ?thesis using rest by blast
  qed
qed (simp add: settings_inv_def)

text \<open>The runs of the service from its start values, with the database faults of a set.\<close>

inductive settings_run ::
  "(real \<Rightarrow> string) \<Rightarrow> (string \<Rightarrow> bool) set \<Rightarrow> config \<Rightarrow> config \<times> setting_rows \<Rightarrow> bool"
  for repr :: "real \<Rightarrow> string" and F :: "(string \<Rightarrow> bool) set" and d :: config where
  run_start: "settings_run repr F d (d, [])"
| run_update: "settings_run repr F d st \<Longrightarrow> fails \<in> F \<Longrightarrow> update_settings repr fails us st = (r, st') \<Longrightarrow>
     settings_run repr F d st'"

lemma typed_same: "typed d \<Longrightarrow> same_kinds d cfg \<Longrightarrow> typed cfg"
  unfolding typed_def same_kinds_def by (metis (no_types, lifting) map_option_eq_Some)

lemma update_settings_inv:
  assumes "typed d" and "settings_inv d st" and "update_settings repr fails us st = (r, st')"
  shows "settings_inv d st' \<and> (in_step d st \<longrightarrow> fails = (\<lambda>_. False) \<longrightarrow> in_step d st')"
proof (cases "normalize_updates repr (fst st) us")
  case (Inl e)
  then show ?thesis using assms by (auto simp: update_settings_def)
next
  case (Inr vs)
  obtain cfg rows where st: "st = (cfg, rows)" by (cases st)
  obtain ok cfg' rows' where run: "store_updates fails vs st = (ok, cfg', rows')" by (metis prod_cases3)
  have same: "same_kinds d cfg" using assms(2) st by (simp add: settings_inv_def)
  have "list_all (update_ok cfg) vs"
    using normalize_updates_ok [OF typed_same [OF assms(1) same]] Inr st by simp
  then have vs: "list_all (update_ok d) vs" using update_ok_same_kinds [OF same] by (auto simp: list_all_iff)
  note inv = store_updates_inv [OF assms(2) [unfolded st] vs run [unfolded st]]
  have "fst (store_updates (\<lambda>_. False) ws x)" for ws x
    by (induction ws arbitrary: x) auto
  then have "fails = (\<lambda>_. False) \<longrightarrow> ok" using run by (metis fst_conv)
  then show ?thesis using assms(3) Inr run inv st
    by (auto simp: update_settings_def split: bool.splits if_splits)
qed

lemma settings_run_inv: "settings_run repr F d st \<Longrightarrow> typed d \<Longrightarrow>
    settings_inv d st \<and> (F \<subseteq> {\<lambda>_. False} \<longrightarrow> in_step d st)"
proof (induction rule: settings_run.induct)
  case run_start
  then show ?case by (simp add: settings_inv_def in_step_def same_kinds_def)
next
  case (run_update st fails us r st')
  then show ?case using update_settings_inv [OF run_update.prems] by blast
qed

lemma apply_rows: "\<forall>u \<in> set rows. update_ok cfg u \<Longrightarrow> typed cfg \<Longrightarrow> distinct (map fst rows) \<Longrightarrow>
    apply_persisted_settings repr rows cfg = (Inr (), cfg ++ map_of rows)"
proof (induction rows arbitrary: cfg)
  case (Cons u rows)
  obtain key v where u: "u = (key, v)" by (cases u)
  have ok: "update_ok cfg (key, v)" using Cons.prems(1) u by simp
  then obtain c where c: "cfg key = Some c" "kind_of v = kind_of c" "key \<in> set mutable_settings" "value_ok key v"
    by (auto simp: update_ok_def)
  have kind: "kind_of c \<in> {Kind_bool, Kind_int, Kind_float, Kind_str}"
    using bspec [OF Cons.prems(2) [unfolded typed_def] c(3)] c(1) by simp
  have step: "coerce_runtime_setting_value repr cfg key v = Inr (Some v)"
    using c(4,1,2) kind by (rule coerce_fixed)
  have same: "same_kinds cfg (cfg(key \<mapsto> v))"
    using ok by (intro same_kinds_update) (auto simp: same_kinds_def)
  have converse: "same_kinds (cfg(key \<mapsto> v)) cfg" using same by (simp add: same_kinds_def)
  have "apply_persisted_settings repr rows (cfg(key \<mapsto> v)) = (Inr (), cfg(key \<mapsto> v) ++ map_of rows)"
  proof (rule Cons.IH)
    show "\<forall>u \<in> set rows. update_ok (cfg(key \<mapsto> v)) u"
      using Cons.prems(1) update_ok_same_kinds [OF converse] by (metis list.set_intros(2))
    show "typed (cfg(key \<mapsto> v))" by (rule typed_same [OF Cons.prems(2) same])
    show "distinct (map fst rows)" using Cons.prems(3) by simp
  qed
  moreover have "cfg(key \<mapsto> v) ++ map_of rows = cfg ++ map_of ((key, v) # rows)"
  proof -
    have "map_of rows key = None" using Cons.prems(3) u by (simp add: map_of_eq_None_iff)
    then show ?thesis by (auto simp: fun_eq_iff map_add_def split: option.split)
  qed
  moreover have "apply_persisted_settings repr (u # rows) cfg = apply_persisted_settings repr rows (cfg(key \<mapsto> v))"
    using c(3) step u by simp
  ultimately show ?case by (simp only: u)
qed simp

section \<open>Properties\<close>

text \<open>
  C39: the settings stay typed: whatever batches are submitted, and wherever the database fails
  under them, every setting keeps the type it was declared with, and a setting that no longer has
  its start value is within its bounds or one of its words.
\<close>

theorem settings_stay_typed:
  assumes "settings_run repr F d (cfg, rows)" and "typed d"
  shows "map_option kind_of (cfg key) = map_option kind_of (d key) \<and>
    (if cfg key = d key then True else case cfg key of None \<Rightarrow> False | Some v \<Rightarrow> value_ok key v)"
proof -
  have inv: "settings_inv d (cfg, rows)" using settings_run_inv [OF assms] by simp
  then have "map_option kind_of (d key) = map_option kind_of (cfg key)"
    by (simp add: settings_inv_def same_kinds_def)
  moreover have "cfg key = d key \<or> (\<exists>v. cfg key = Some v \<and> value_ok key v)"
    using inv by (auto simp: settings_inv_def update_ok_def)
  ultimately show ?thesis by (auto split: option.split)
qed

text \<open>
  A restart restores the settings: when the database answered, applying the stored rows to the
  start values raises nothing and gives exactly the settings the program had, since coercing a
  coerced value again changes nothing.
\<close>

lemma restart_restores_settings:
  assumes "settings_run repr {\<lambda>_. False} d (cfg, rows)" and "typed d"
  shows "apply_persisted_settings repr rows d = (Inr (), cfg)"
proof -
  have inv: "settings_inv d (cfg, rows)" and "in_step d (cfg, rows)"
    using settings_run_inv [OF assms] by simp_all
  then have "cfg = d ++ map_of rows" by (simp add: in_step_def)
  moreover have "apply_persisted_settings repr rows d = (Inr (), d ++ map_of rows)"
    using inv assms(2) by (intro apply_rows) (auto simp: settings_inv_def)
  ultimately show ?thesis by simp
qed

text \<open>
  An order submission mode that is none of the three words is not skipped, as an unknown word
  of the other settings is, but sets the mode to \<open>FULL\<close>, which allows every order; so the only
  values that ever restrict the orders are the two words, in any case.
\<close>

lemma unknown_mode_allows_all_orders:
  "case coerce_runtime_setting_value repr (\<lambda>_. Some (PStr current)) ''ORDER_SUBMISSION_MODE'' (PStr word) of
     Inr (Some (PStr mode)) \<Rightarrow>
       mode = (if upper word \<in> {''SELL_ONLY'', ''READ_ONLY''} then upper word else ''FULL'')
   | _ \<Rightarrow> False"
proof -
  have keys: "''ORDER_SUBMISSION_MODE'' \<notin> set tier_provider_keys" "''ORDER_SUBMISSION_MODE'' \<notin> set provider_keys"
    "''ORDER_SUBMISSION_MODE'' \<notin> set fallback_provider_keys"
    by (simp_all add: tier_provider_keys_def provider_keys_def fallback_provider_keys_def)
  let ?m = "normalize_order_submission_mode (if py_truthy (PStr word) then word else [])"
  have full: "upper ''FULL'' = ''FULL''" by code_simp
  have m: "?m = (if upper word \<in> {''SELL_ONLY'', ''READ_ONLY''} then upper word else ''FULL'')"
    by (auto simp: normalize_order_submission_mode_def Let_def str_or_def py_truthy_def valid_submission_modes_def full)
  have "coerce_runtime_setting_value repr (\<lambda>_. Some (PStr current)) ''ORDER_SUBMISSION_MODE'' (PStr word) = Inr (Some (PStr ?m))"
    using keys by (simp add: normalize_mode_valid coerce_runtime_setting_value_def coerce_text_def Let_def choice_def py_str_def)
  then show ?thesis by (simp add: m)
qed

text \<open>A run: the mode and a bounded integer are set, from start values of the declared types.\<close>

definition sample_config :: config where
  "sample_config key = (if key = ''ORDER_SUBMISSION_MODE'' then Some (PStr ''FULL'')
     else if key = ''LLM_TIER1_CONCURRENCY'' then Some (PInt 2) else Some (PStr ''DEFAULT''))"

lemma sample_typed: "typed sample_config"
  by (auto simp: typed_def sample_config_def)

definition mode_key :: string where "mode_key = ''ORDER_SUBMISSION_MODE''"

lemma sample_update: "update_settings repr (\<lambda>_. False) [(mode_key, PStr ''read_only'')] (sample_config, []) =
    (Inr (), sample_config(mode_key \<mapsto> PStr ''READ_ONLY''), [(mode_key, PStr ''READ_ONLY'')])"
proof -
  have "coerce_runtime_setting_value repr (\<lambda>_. Some (PStr ''FULL'')) mode_key (PStr ''read_only'') = Inr (Some (PStr ''READ_ONLY''))"
    by code_simp
  moreover have "coerce_runtime_setting_value repr sample_config mode_key (PStr ''read_only'') =
      coerce_runtime_setting_value repr (\<lambda>_. Some (PStr ''FULL'')) mode_key (PStr ''read_only'')"
    by (simp add: coerce_runtime_setting_value_def sample_config_def mode_key_def)
  moreover have "mode_key \<in> set mutable_settings" by code_simp
  ultimately show ?thesis by (simp add: update_settings_def)
qed

lemma settings_stay_typed_witness: "case (sample_config(mode_key \<mapsto> PStr ''READ_ONLY'')) mode_key of
    None \<Rightarrow> False | Some v \<Rightarrow> value_ok mode_key v"
proof -
  have "settings_run repr {\<lambda>_. False} sample_config (sample_config(mode_key \<mapsto> PStr ''READ_ONLY''), [(mode_key, PStr ''READ_ONLY'')])"
    for repr using run_update [OF run_start _ sample_update] by simp
  from settings_stay_typed [OF this sample_typed, of mode_key] show ?thesis
    by (simp add: sample_config_def mode_key_def)
qed

lemma restart_restores_settings_witness:
  "apply_persisted_settings (\<lambda>_. []) [(mode_key, PStr ''READ_ONLY'')] sample_config =
     (Inr (), sample_config(mode_key \<mapsto> PStr ''READ_ONLY''))"
proof -
  have "settings_run (\<lambda>_. []) {\<lambda>_. False} sample_config (sample_config(mode_key \<mapsto> PStr ''READ_ONLY''), [(mode_key, PStr ''READ_ONLY'')])"
    using run_update [OF run_start _ sample_update] by simp
  from restart_restores_settings [OF this sample_typed] show ?thesis .
qed

end
