(* ===== verification/Json.thy ===== *)
theory Json
  imports Py_Text
begin

text \<open>
  JSON values as Python sees them after \<open>json.loads\<close>, with the conversions the program applies to
  their fields: \<open>float(v)\<close>, \<open>int(v)\<close>, truth value and \<open>dict.get\<close>. Numbers are real; the tokens \<open>NaN\<close>
  and \<open>Infinity\<close> are one value that no conversion of the model accepts.
\<close>

section \<open>Values\<close>

datatype json =
  JNull | JBool bool | JNum real | JNan | JStr string | JList "json list" | JObj "(string \<times> json) list"

text \<open>Of two equal keys a dict keeps the value of the later one.\<close>

definition jget :: "string \<Rightarrow> (string \<times> json) list \<Rightarrow> json option" where
  "jget k kvs = map_of (rev kvs) k"

definition jget_or :: "string \<Rightarrow> json \<Rightarrow> (string \<times> json) list \<Rightarrow> json" where
  "jget_or k d kvs = (case jget k kvs of None \<Rightarrow> d | Some v \<Rightarrow> v)"

definition truthy :: "json \<Rightarrow> bool" where
  "truthy v = (case v of JNull \<Rightarrow> False | JBool b \<Rightarrow> b | JNum r \<Rightarrow> r \<noteq> 0 | JNan \<Rightarrow> True
     | JStr s \<Rightarrow> s \<noteq> [] | JList l \<Rightarrow> l \<noteq> [] | JObj kvs \<Rightarrow> kvs \<noteq> [])"

section \<open>Conversions\<close>

definition conversion_error :: "json \<Rightarrow> py_exn" where
  "conversion_error v =
     (case v of JStr s \<Rightarrow> Exn ValueError ''could not convert string to float''
      | JNan \<Rightarrow> Exn ValueError ''not a number''
      | _ \<Rightarrow> Exn TypeError ''float() argument must be a string or a real number'')"

definition py_float :: "json \<Rightarrow> real res" where
  "py_float v =
     (case v of
        JNum r \<Rightarrow> Inr r
      | JBool b \<Rightarrow> Inr (if b then 1 else 0)
      | JStr s \<Rightarrow> (case float_of_text s of None \<Rightarrow> Inl (conversion_error v) | Some r \<Rightarrow> Inr r)
      | _ \<Rightarrow> Inl (conversion_error v))"

definition py_int_of :: "json \<Rightarrow> int res" where
  "py_int_of v =
     (case v of
        JNum r \<Rightarrow> Inr (py_int r)
      | JBool b \<Rightarrow> Inr (if b then 1 else 0)
      | JStr s \<Rightarrow> (case int_of_text s of None \<Rightarrow> Inl (conversion_error v) | Some i \<Rightarrow> Inr i)
      | _ \<Rightarrow> Inl (conversion_error v))"

text \<open>A pydantic field of type \<open>str\<close> takes a string only.\<close>

definition str_field :: "json \<Rightarrow> string res" where
  "str_field v = (case v of JStr s \<Rightarrow> Inr s | _ \<Rightarrow> Inl (Exn ValueError ''Input should be a valid string''))"

lemma jget_Nil [simp]: "jget k [] = None"
  by (simp add: jget_def)

lemma py_float_simps [simp]:
  "py_float (JNum r) = Inr r" "py_float (JBool b) = Inr (if b then 1 else 0)" "\<not> is_ok (py_float JNull)"
  by (simp_all add: py_float_def)

lemma py_int_of_simps [simp]: "py_int_of (JNum r) = Inr (py_int r)" "\<not> is_ok (py_int_of JNull)"
  by (simp_all add: py_int_of_def)

end
