(* ===== verification/Accounts.thy ===== *)
theory Accounts
  imports Json Trade_Store
begin

text \<open>
  What the program knows of its account: the manager that parses and caches the broker's answers
  (\<open>trading/account_manager.py\<close>), the day's baseline and the snapshots of the account's equity with the
  metrics drawn from them (\<open>services/account_equity_service.py\<close>), the summary of realised and unrealised
  profit (\<open>services/pnl_truth_service.py\<close>) and the retry around their writes (\<open>core/database.py\<close>).

  The answer of the broker's MCP server is a JSON object; the calendar's answer whether the market is
  open and the clock are arguments. Log lines are left out; the \<open>detail\<close> of a snapshot is kept as the
  text it is stored as.
\<close>

section \<open>Parsing the broker's answers\<close>

record broker_holding = holding_info +
  bh_pnl :: real
  bh_pnl_rate :: real

record mcp_response =
  mr_success :: bool
  mr_data :: "(string \<times> json) list"

definition empty_balance :: account_balance where
  "empty_balance = \<lparr>bal_total_asset = 0, bal_cash = 0, bal_stock_value = 0, bal_total_pnl = 0,
     bal_total_pnl_rate = 0, bal_is_valid = False\<rparr>"

definition float_key_of :: "string \<Rightarrow> (string \<times> json) list \<Rightarrow> real res" where
  "float_key_of k kvs = py_float (jget_or k (JNum 0) kvs)"

definition int_key_of :: "string \<Rightarrow> (string \<times> json) list \<Rightarrow> int res" where
  "int_key_of k kvs = py_int_of (jget_or k (JNum 0) kvs)"

definition str_key_of :: "string \<Rightarrow> (string \<times> json) list \<Rightarrow> string res" where
  "str_key_of k kvs = str_field (jget_or k (JStr []) kvs)"

text \<open>\<open>item.get\<close> on what is no object raises.\<close>

definition as_dict :: "json \<Rightarrow> (string \<times> json) list res" where
  "as_dict v = (case v of JObj kvs \<Rightarrow> Inr kvs | _ \<Rightarrow> Inl (Exn TypeError ''object has no attribute get''))"

text \<open>\<open>output and isinstance(output, list)\<close>.\<close>

definition nonempty_list :: "string \<Rightarrow> (string \<times> json) list \<Rightarrow> json list option" where
  "nonempty_list k data = (case jget k data of Some (JList l) \<Rightarrow> if l = [] then None else Some l | _ \<Rightarrow> None)"

definition holdings_value :: "broker_holding list \<Rightarrow> real" where
  "holdings_value hs = sum_list (map (\<lambda>h. hi_current_price h * of_int (hi_quantity h)) hs)"

definition balance_of_summary :: "(string \<times> json) list \<Rightarrow> broker_holding list \<Rightarrow> account_balance res" where
  "balance_of_summary summary holdings =
     rbind (float_key_of ''tot_evlu_amt'' summary) (\<lambda>kis_total.
     rbind (if holdings \<noteq> [] then Inr (holdings_value holdings) else float_key_of ''scts_evlu_amt'' summary) (\<lambda>stock_value.
     rbind (float_key_of ''scts_evlu_amt'' summary) (\<lambda>kis_scts.
     rbind (float_key_of ''evlu_pfls_smtl_amt'' summary) (\<lambda>total_pnl.
     rbind (float_key_of ''pchs_amt_smtl_amt'' summary) (\<lambda>pchs_amt.
       let total_asset = (if 0 < kis_total then kis_total else stock_value)
       in Inr \<lparr>bal_total_asset = total_asset, bal_cash = total_asset - stock_value, bal_stock_value = stock_value,
               bal_total_pnl = total_pnl, bal_total_pnl_rate = (if 0 < pchs_amt then total_pnl / pchs_amt * 100 else 0),
               bal_is_valid = True\<rparr>)))))"

definition parse_balance :: "(string \<times> json) list \<Rightarrow> broker_holding list \<Rightarrow> account_balance res" where
  "parse_balance data holdings =
     (case nonempty_list ''output2'' data of
        Some l \<Rightarrow> rbind (as_dict (hd l)) (\<lambda>summary. balance_of_summary summary holdings)
      | None \<Rightarrow>
          rbind (float_key_of ''total_asset'' data) (\<lambda>a.
          rbind (float_key_of ''cash'' data) (\<lambda>c.
          rbind (float_key_of ''stock_value'' data) (\<lambda>s.
          rbind (float_key_of ''total_pnl'' data) (\<lambda>p.
          rbind (float_key_of ''total_pnl_rate'' data) (\<lambda>r.
            Inr \<lparr>bal_total_asset = a, bal_cash = c, bal_stock_value = s, bal_total_pnl = p, bal_total_pnl_rate = r,
                 bal_is_valid = True\<rparr>))))))"

text \<open>The fields of one holding under the names of its format.\<close>

definition holding_of :: "string \<Rightarrow> string \<Rightarrow> string \<Rightarrow> string \<Rightarrow> string \<Rightarrow> string \<Rightarrow> int \<Rightarrow> (string \<times> json) list \<Rightarrow> broker_holding res" where
  "holding_of k_symbol k_name k_avg k_price k_pnl k_rate qty item =
     rbind (float_key_of k_avg item) (\<lambda>avg.
     rbind (float_key_of k_price item) (\<lambda>price.
     rbind (float_key_of k_pnl item) (\<lambda>pnl.
     rbind (float_key_of k_rate item) (\<lambda>rate.
     rbind (str_key_of k_symbol item) (\<lambda>symbol.
     rbind (str_key_of k_name item) (\<lambda>name.
       Inr \<lparr>hi_symbol = symbol, hi_name = name, hi_quantity = qty, hi_avg_buy_price = avg, hi_current_price = price,
            bh_pnl = pnl, bh_pnl_rate = rate\<rparr>))))))"

fun kis_holdings :: "json list \<Rightarrow> broker_holding list res" where
  "kis_holdings [] = Inr []"
| "kis_holdings (v # vs) =
     rbind (as_dict v) (\<lambda>item.
     rbind (int_key_of ''hldg_qty'' item) (\<lambda>qty.
       if qty \<le> 0 then kis_holdings vs
       else rbind (holding_of ''pdno'' ''prdt_name'' ''pchs_avg_pric'' ''prpr'' ''evlu_pfls_amt'' ''evlu_pfls_rt'' qty item) (\<lambda>h.
            rbind (kis_holdings vs) (\<lambda>hs. Inr (h # hs)))))"

fun wrapped_holdings :: "json list \<Rightarrow> broker_holding list res" where
  "wrapped_holdings [] = Inr []"
| "wrapped_holdings (v # vs) =
     rbind (as_dict v) (\<lambda>item.
     rbind (int_key_of ''quantity'' item) (\<lambda>qty.
     rbind (holding_of ''symbol'' ''name'' ''avg_buy_price'' ''current_price'' ''pnl'' ''pnl_rate'' qty item) (\<lambda>h.
     rbind (wrapped_holdings vs) (\<lambda>hs. Inr (h # hs)))))"

definition parse_holdings :: "(string \<times> json) list \<Rightarrow> broker_holding list res" where
  "parse_holdings data =
     (case nonempty_list ''output1'' data of
        Some l \<Rightarrow> kis_holdings l
      | None \<Rightarrow> (case jget_or ''holdings'' (JList []) data of
            JList l \<Rightarrow> wrapped_holdings l
          | _ \<Rightarrow> Inl (Exn TypeError ''object is not iterable'')))"

definition kr_buy_side :: string where
  "kr_buy_side = map char_of [235, 167, 164, 236, 136, 152 :: nat]"

definition kr_sell_side :: string where
  "kr_sell_side = map char_of [235, 167, 164, 235, 143, 132 :: nat]"

fun pending_orders_of :: "json list \<Rightarrow> pending_order_info list res" where
  "pending_orders_of [] = Inr []"
| "pending_orders_of (v # vs) =
     rbind (as_dict v) (\<lambda>item.
     rbind (int_key_of ''rmn_qty'' item) (\<lambda>rmn_qty.
       if rmn_qty \<le> 0 then pending_orders_of vs
       else
         rbind (str_key_of ''odno'' item) (\<lambda>odno.
         rbind (str_key_of ''pdno'' item) (\<lambda>pdno.
         rbind (str_key_of ''prdt_name'' item) (\<lambda>name.
         rbind (int_key_of ''ord_qty'' item) (\<lambda>ord_qty.
         rbind (int_key_of ''tot_ccld_qty'' item) (\<lambda>filled.
         rbind (float_key_of ''ord_unpr'' item) (\<lambda>price.
         rbind (str_key_of ''ord_tmd'' item) (\<lambda>tmd.
         rbind (pending_orders_of vs) (\<lambda>os.
           Inr (\<lparr>po_order_id = odno, po_symbol = pdno, po_name = name,
                 po_side = (if jget_or ''sll_buy_dvsn_cd'' (JStr []) item = JStr ''02'' then kr_buy_side else kr_sell_side),
                 po_order_qty = ord_qty, po_filled_qty = filled, po_remaining_qty = rmn_qty, po_order_price = price,
                 po_order_time = tmd\<rparr> # os)))))))))))"

definition parse_pending_orders :: "(string \<times> json) list \<Rightarrow> pending_order_info list res" where
  "parse_pending_orders data =
     (case nonempty_list ''output'' data of None \<Rightarrow> Inr [] | Some l \<Rightarrow> pending_orders_of l)"

section \<open>The manager and its cache\<close>

record account_cache =
  ac_balance :: "account_balance option"
  ac_holdings :: "broker_holding list option"
  ac_pending :: "pending_order_info list option"

definition empty_cache :: account_cache where
  "empty_cache = \<lparr>ac_balance = None, ac_holdings = None, ac_pending = None\<rparr>"

definition invalidate_cache :: "account_cache \<Rightarrow> account_cache" where
  "invalidate_cache c = \<lparr>ac_balance = None, ac_holdings = None, ac_pending = None\<rparr>"

text \<open>A query gives its answer, whether the broker was asked, and the cache.\<close>

type_synonym 'v query = "'v res \<times> bool \<times> account_cache"

definition cached_snapshot :: "account_cache \<Rightarrow> (account_balance \<times> broker_holding list) option" where
  "cached_snapshot c = (case (ac_balance c, ac_holdings c) of (Some b, Some hs) \<Rightarrow> Some (b, hs) | _ \<Rightarrow> None)"

definition store_snapshot :: "account_balance \<Rightarrow> broker_holding list \<Rightarrow> account_cache \<Rightarrow> account_cache" where
  "store_snapshot b hs c = c\<lparr>ac_balance := Some b, ac_holdings := Some hs\<rparr>"

text \<open>\<open>get_account_snapshot\<close> over the MCP server: one call for both; a failed call answers from the cache,
  or with an invalid balance.\<close>

definition fallback_snapshot :: "account_cache \<Rightarrow> account_balance \<times> broker_holding list" where
  "fallback_snapshot c =
     (case ac_balance c of Some b \<Rightarrow> b | None \<Rightarrow> empty_balance, case ac_holdings c of Some hs \<Rightarrow> hs | None \<Rightarrow> [])"

definition mcp_account_snapshot ::
  "bool \<Rightarrow> mcp_response res \<Rightarrow> account_cache \<Rightarrow> (account_balance \<times> broker_holding list) query" where
  "mcp_account_snapshot market_open response c =
     (case (market_open, cached_snapshot c) of
        (False, Some p) \<Rightarrow> (Inr p, False, c)
      | _ \<Rightarrow>
          (case response of
             Inl e \<Rightarrow> (Inl e, True, c)
           | Inr r \<Rightarrow>
               if \<not> mr_success r then (Inr (fallback_snapshot c), True, c)
               else
                 case rbind (parse_holdings (mr_data r)) (\<lambda>hs. rbind (parse_balance (mr_data r) hs) (\<lambda>b. Inr (b, hs))) of
                   Inl e \<Rightarrow> (Inl e, True, c)
                 | Inr (b, hs) \<Rightarrow> (Inr (b, hs), True, store_snapshot b hs c)))"

definition adapter_account_snapshot ::
  "bool \<Rightarrow> account_balance res \<Rightarrow> broker_holding list res \<Rightarrow> account_cache \<Rightarrow> (account_balance \<times> broker_holding list) query" where
  "adapter_account_snapshot market_open balance holdings c =
     (case (market_open, cached_snapshot c) of
        (False, Some p) \<Rightarrow> (Inr p, False, c)
      | _ \<Rightarrow>
          (case rbind balance (\<lambda>b. rbind holdings (\<lambda>hs. Inr (b, hs))) of
             Inl e \<Rightarrow> (Inl e, True, c)
           | Inr (b, hs) \<Rightarrow> (Inr (b, hs), True, store_snapshot b hs c)))"

definition mcp_pending_orders :: "bool \<Rightarrow> mcp_response res \<Rightarrow> account_cache \<Rightarrow> pending_order_info list query" where
  "mcp_pending_orders market_open response c =
     (case (market_open, ac_pending c) of
        (False, Some os) \<Rightarrow> (Inr os, False, c)
      | _ \<Rightarrow>
          (case response of
             Inl e \<Rightarrow> (Inl e, True, c)
           | Inr r \<Rightarrow>
               if \<not> mr_success r then (Inr (case ac_pending c of Some os \<Rightarrow> os | None \<Rightarrow> []), True, c)
               else case parse_pending_orders (mr_data r) of
                   Inl e \<Rightarrow> (Inl e, True, c)
                 | Inr os \<Rightarrow> (Inr os, True, c\<lparr>ac_pending := Some os\<rparr>)))"

definition adapter_pending_orders :: "bool \<Rightarrow> pending_order_info list res \<Rightarrow> account_cache \<Rightarrow> pending_order_info list query" where
  "adapter_pending_orders market_open answer c =
     (case (market_open, ac_pending c) of
        (False, Some os) \<Rightarrow> (Inr os, False, c)
      | _ \<Rightarrow> (case answer of Inl e \<Rightarrow> (Inl e, True, c) | Inr os \<Rightarrow> (Inr os, True, c\<lparr>ac_pending := Some os\<rparr>)))"

record account_source =
  src_kis :: bool
  src_mcp_account :: "mcp_response res"
  src_mcp_orders :: "mcp_response res"
  src_balance :: "account_balance res"
  src_holdings :: "broker_holding list res"
  src_orders :: "pending_order_info list res"

definition get_account_snapshot ::
  "bool \<Rightarrow> account_source \<Rightarrow> account_cache \<Rightarrow> (account_balance \<times> broker_holding list) query" where
  "get_account_snapshot market_open src c =
     (if src_kis src then mcp_account_snapshot market_open (src_mcp_account src) c
      else adapter_account_snapshot market_open (src_balance src) (src_holdings src) c)"

definition get_balance :: "bool \<Rightarrow> account_source \<Rightarrow> account_cache \<Rightarrow> account_balance query" where
  "get_balance market_open src c =
     (let (r, asked, c') = get_account_snapshot market_open src c in (map_sum id fst r, asked, c'))"

definition get_holdings :: "bool \<Rightarrow> account_source \<Rightarrow> account_cache \<Rightarrow> broker_holding list query" where
  "get_holdings market_open src c =
     (let (r, asked, c') = get_account_snapshot market_open src c in (map_sum id snd r, asked, c'))"

definition get_pending_orders :: "bool \<Rightarrow> account_source \<Rightarrow> account_cache \<Rightarrow> pending_order_info list query" where
  "get_pending_orders market_open src c =
     (if src_kis src then mcp_pending_orders market_open (src_mcp_orders src) c
      else adapter_pending_orders market_open (src_orders src) c)"

definition get_available_cash :: "bool \<Rightarrow> account_source \<Rightarrow> account_cache \<Rightarrow> real query" where
  "get_available_cash market_open src c =
     (let (r, asked, c') = get_balance market_open src c in (map_sum id bal_cash r, asked, c'))"

section \<open>The contract of a cached query\<close>

text \<open>
  What the callers rely on, for the account and for the pending orders, over either source: while the
  market is closed a stored answer is given again without asking; an answer that was asked for is
  stored; a failure changes nothing. \<open>'x\<close> is what the source would say.
\<close>

locale cached_query =
  fixes ask :: "bool \<Rightarrow> 'x \<Rightarrow> account_cache \<Rightarrow> 'v query"
    and stored :: "account_cache \<Rightarrow> 'v option"
    and says :: "'x \<Rightarrow> 'v option"
  assumes closed_hit: "stored c = Some v \<Longrightarrow> ask False x c = (Inr v, False, c)"
    and asks: "market_open \<or> stored c = None \<Longrightarrow> fst (snd (ask market_open x c))"
    and answer: "market_open \<or> stored c = None \<Longrightarrow> says x = Some v \<Longrightarrow>
      fst (ask market_open x c) = Inr v \<and> stored (snd (snd (ask market_open x c))) = Some v"
    and failure: "says x = None \<Longrightarrow> snd (snd (ask market_open x c)) = c"

text \<open>The calls of a sequence of queries that reach the source, and the cache they leave.\<close>

fun asked_run :: "(bool \<Rightarrow> 'x \<Rightarrow> account_cache \<Rightarrow> 'v query) \<Rightarrow> (bool \<times> 'x) list \<Rightarrow> account_cache \<Rightarrow> (bool \<times> 'x) list \<times> account_cache" where
  "asked_run q [] c = ([], c)"
| "asked_run q ((market_open, x) # xs) c =
     (let (r, asked, c') = q market_open x c; (as, c'') = asked_run q xs c'
      in (if asked then (market_open, x) # as else as, c''))"

context cached_query begin

lemma closed_run_hit: "stored c = Some v \<Longrightarrow> asked_run ask (map (Pair False) xs) c = ([], c)"
  by (induction xs) (simp_all add: closed_hit)

text \<open>With the market closed, the source is asked until it has answered once, and never again.\<close>

lemma closed_run:
  "stored c = None \<Longrightarrow> fst (asked_run ask (map (Pair False) xs) c) =
     map (Pair False) (takeWhile (\<lambda>x. says x = None) xs @ take 1 (dropWhile (\<lambda>x. says x = None) xs))"
proof (induction xs)
  case (Cons x xs)
  obtain r c' where q: "ask False x c = (r, True, c')" using asks [of False c x] Cons.prems by (cases "ask False x c") auto
  show ?case
  proof (cases "says x")
    case None
    then have "c' = c" using failure [of x False c] q by simp
    then show ?thesis using Cons q None by (auto simp: Let_def split: prod.splits)
  next
    case (Some v)
    then have "stored c' = Some v" using answer [of False c x v] Cons.prems q by simp
    then show ?thesis using q Some by (simp add: closed_run_hit)
  qed
qed simp

end

text \<open>What each source says, when it says something the cache keeps.\<close>

definition mcp_says_account :: "mcp_response res \<Rightarrow> (account_balance \<times> broker_holding list) option" where
  "mcp_says_account response =
     (case response of Inl e \<Rightarrow> None
      | Inr r \<Rightarrow> if \<not> mr_success r then None
          else case rbind (parse_holdings (mr_data r)) (\<lambda>hs. rbind (parse_balance (mr_data r) hs) (\<lambda>b. Inr (b, hs))) of
              Inl e \<Rightarrow> None | Inr p \<Rightarrow> Some p)"

definition mcp_says_orders :: "mcp_response res \<Rightarrow> pending_order_info list option" where
  "mcp_says_orders response =
     (case response of Inl e \<Rightarrow> None
      | Inr r \<Rightarrow> if \<not> mr_success r then None
          else case parse_pending_orders (mr_data r) of Inl e \<Rightarrow> None | Inr os \<Rightarrow> Some os)"

definition res_option :: "'a res \<Rightarrow> 'a option" where
  "res_option r = (case r of Inl e \<Rightarrow> None | Inr x \<Rightarrow> Some x)"

lemma cached_store [simp]: "cached_snapshot (store_snapshot b hs c) = Some (b, hs)"
  by (simp add: cached_snapshot_def store_snapshot_def)

interpretation mcp_account: cached_query mcp_account_snapshot cached_snapshot mcp_says_account
  by unfold_locales
    (auto simp: mcp_account_snapshot_def mcp_says_account_def split: option.splits bool.splits sum.splits prod.splits if_splits)

interpretation adapter_account: cached_query "\<lambda>m p. adapter_account_snapshot m (fst p) (snd p)" cached_snapshot
    "\<lambda>p. res_option (rbind (fst p) (\<lambda>b. rbind (snd p) (\<lambda>hs. Inr (b, hs))))"
  by unfold_locales
    (auto simp: adapter_account_snapshot_def res_option_def split: option.splits bool.splits sum.splits prod.splits)

interpretation mcp_orders: cached_query mcp_pending_orders ac_pending mcp_says_orders
  by unfold_locales
    (auto simp: mcp_pending_orders_def mcp_says_orders_def split: option.splits bool.splits sum.splits if_splits)

interpretation adapter_orders: cached_query adapter_pending_orders ac_pending res_option
  by unfold_locales (auto simp: adapter_pending_orders_def res_option_def split: option.splits bool.splits sum.splits)

section \<open>Equity of the account\<close>

record equity_state =
  es_captured_at :: pydt
  es_trading_date :: int
  es_total_asset :: real
  es_cash :: real
  es_stock_value :: real
  es_unrealized_pnl :: real
  es_unrealized_rate :: real
  es_holding_count :: nat
  es_pending_count :: nat
  es_detail :: "string option"

text \<open>A row of \<open>account_day_baselines\<close> (unique by its date) and of \<open>account_equity_snapshots\<close>.\<close>

record day_baseline =
  bl_trading_date :: int
  bl_baseline_at :: pydt
  bl_total_asset :: real
  bl_cash :: real
  bl_stock_value :: real
  bl_unrealized_pnl :: real
  bl_holding_count :: nat
  bl_pending_count :: nat
  bl_source :: string

record equity_snapshot =
  sn_trading_date :: int
  sn_captured_at :: pydt
  sn_session_phase :: string
  sn_total_asset :: real
  sn_cash :: real
  sn_stock_value :: real
  sn_unrealized_pnl :: real
  sn_unrealized_rate :: real
  sn_holding_count :: nat
  sn_pending_count :: nat
  sn_detail :: "string option"

record equity_db =
  eq_baselines :: "day_baseline list"
  eq_snapshots :: "equity_snapshot list"

definition build_state ::
  "pydt \<Rightarrow> account_balance \<Rightarrow> nat \<Rightarrow> nat \<Rightarrow> pydt option \<Rightarrow> string option \<Rightarrow> equity_state" where
  "build_state now balance holding_count pending_count captured_at detail =
     (let timestamp = ensure_kst (case captured_at of None \<Rightarrow> now | Some t \<Rightarrow> t)
      in \<lparr>es_captured_at = timestamp, es_trading_date = dt_date timestamp, es_total_asset = bal_total_asset balance,
          es_cash = bal_cash balance, es_stock_value = bal_stock_value balance,
          es_unrealized_pnl = bal_total_pnl balance, es_unrealized_rate = bal_total_pnl_rate balance,
          es_holding_count = holding_count, es_pending_count = pending_count, es_detail = detail\<rparr>)"

definition get_by_trading_date :: "int \<Rightarrow> equity_db \<Rightarrow> day_baseline option" where
  "get_by_trading_date d s = find (\<lambda>b. bl_trading_date b = d) (eq_baselines s)"

text \<open>One transaction; the commit strips the zone of the time.\<close>

definition baseline_of_state :: "equity_state \<Rightarrow> string \<Rightarrow> day_baseline" where
  "baseline_of_state state baseline_source =
     \<lparr>bl_trading_date = es_trading_date state, bl_baseline_at = strip_tz (es_captured_at state),
      bl_total_asset = es_total_asset state, bl_cash = es_cash state, bl_stock_value = es_stock_value state,
      bl_unrealized_pnl = es_unrealized_pnl state, bl_holding_count = es_holding_count state,
      bl_pending_count = es_pending_count state, bl_source = str_or baseline_source ''UNKNOWN''\<rparr>"

definition ensure_day_baseline :: "equity_state \<Rightarrow> string \<Rightarrow> equity_db \<Rightarrow> day_baseline \<times> equity_db" where
  "ensure_day_baseline state baseline_source s =
     (case get_by_trading_date (es_trading_date state) s of
        Some b \<Rightarrow> (b, s)
      | None \<Rightarrow>
          (let b = baseline_of_state state baseline_source in (b, s\<lparr>eq_baselines := eq_baselines s @ [b]\<rparr>)))"

definition serialize_detail :: "string option \<Rightarrow> string option" where
  "serialize_detail detail = (if ostr detail = [] then None else detail)"

definition record_snapshot :: "equity_state \<Rightarrow> string \<Rightarrow> string option \<Rightarrow> equity_db \<Rightarrow> equity_snapshot \<times> equity_db" where
  "record_snapshot state session_phase baseline_source s =
     (let (_, s1) = ensure_day_baseline state (str_or (ostr baseline_source) session_phase) s;
          snap = \<lparr>sn_trading_date = es_trading_date state, sn_captured_at = strip_tz (es_captured_at state),
                  sn_session_phase = str_or session_phase ''INTRADAY'', sn_total_asset = es_total_asset state,
                  sn_cash = es_cash state, sn_stock_value = es_stock_value state,
                  sn_unrealized_pnl = es_unrealized_pnl state, sn_unrealized_rate = es_unrealized_rate state,
                  sn_holding_count = es_holding_count state, sn_pending_count = es_pending_count state,
                  sn_detail = serialize_detail (es_detail state)\<rparr>
      in (snap, s1\<lparr>eq_snapshots := eq_snapshots s1 @ [snap]\<rparr>))"

definition capture_and_record_current ::
  "pydt \<Rightarrow> account_balance res \<Rightarrow> broker_holding list res \<Rightarrow> pending_order_info list res \<Rightarrow> string \<Rightarrow> string option \<Rightarrow>
     string option \<Rightarrow> equity_db \<Rightarrow> equity_snapshot res \<times> equity_db" where
  "capture_and_record_current now balance holdings orders session_phase detail baseline_source s =
     (case rbind balance (\<lambda>b. rbind holdings (\<lambda>hs. rbind orders (\<lambda>os.
             Inr (build_state now b (length hs) (length os) None detail)))) of
        Inl e \<Rightarrow> (Inl e, s)
      | Inr state \<Rightarrow>
          (let (snap, s') = record_snapshot state session_phase (Some (str_or (ostr baseline_source) session_phase)) s
           in (Inr snap, s')))"

section \<open>The metrics of a day\<close>

record session_metrics =
  sm_available :: bool
  sm_reason :: "string option"
  sm_trading_date :: int
  sm_baseline_at :: "pydt option"
  sm_baseline_total_asset :: real
  sm_asset_delta :: real
  sm_asset_delta_rate :: real
  sm_realized_today_pnl :: real
  sm_daily_unrealized_delta :: real
  sm_high_asset :: real
  sm_low_asset :: real
  sm_latest_snapshot_at :: "pydt option"
  sm_is_stale :: bool

definition empty_session_metrics :: "account_balance \<Rightarrow> pydt \<Rightarrow> string \<Rightarrow> real \<Rightarrow> session_metrics" where
  "empty_session_metrics balance captured_at reason realized =
     \<lparr>sm_available = False, sm_reason = Some reason, sm_trading_date = dt_date (ensure_kst captured_at), sm_baseline_at = None,
      sm_baseline_total_asset = 0, sm_asset_delta = 0, sm_asset_delta_rate = 0, sm_realized_today_pnl = realized,
      sm_daily_unrealized_delta = 0, sm_high_asset = bal_total_asset balance, sm_low_asset = bal_total_asset balance,
      sm_latest_snapshot_at = None, sm_is_stale = False\<rparr>"

definition snapshots_of :: "int \<Rightarrow> equity_db \<Rightarrow> equity_snapshot list" where
  "snapshots_of d s = filter (\<lambda>sn. sn_trading_date sn = d) (eq_snapshots s)"

definition latest_snapshot :: "int \<Rightarrow> equity_db \<Rightarrow> equity_snapshot option" where
  "latest_snapshot d s = first_of (rev (sort_key sn_captured_at (snapshots_of d s)))"

definition asset_range :: "int \<Rightarrow> equity_db \<Rightarrow> (real \<times> real) option" where
  "asset_range d s =
     (let assets = map sn_total_asset (snapshots_of d s)
      in if assets = [] then None else Some (Max (set assets), Min (set assets)))"

definition realized_today :: "int \<Rightarrow> db \<Rightarrow> real" where
  "realized_today d trades = sum_list (map tr_pnl (get_completed_by_date d trades))"

definition stale_after_us :: int where "stale_after_us = 600000000"

definition build_session_metrics :: "account_balance \<Rightarrow> pydt \<Rightarrow> db \<Rightarrow> equity_db \<Rightarrow> session_metrics" where
  "build_session_metrics balance captured_at trades s =
     (let timestamp = ensure_kst captured_at; d = dt_date timestamp; realized = realized_today d trades;
          current = bal_total_asset balance
      in case get_by_trading_date d s of
           None \<Rightarrow> empty_session_metrics balance timestamp ''baseline_missing'' realized
         | Some b \<Rightarrow>
             (let base = bl_total_asset b; delta = current - base;
                  latest = map_option (\<lambda>sn. ensure_kst (sn_captured_at sn)) (latest_snapshot d s)
              in \<lparr>sm_available = True, sm_reason = None, sm_trading_date = d,
                  sm_baseline_at = Some (ensure_kst (bl_baseline_at b)), sm_baseline_total_asset = base,
                  sm_asset_delta = delta, sm_asset_delta_rate = (if 0 < base then delta / base * 100 else 0),
                  sm_realized_today_pnl = realized, sm_daily_unrealized_delta = delta - realized,
                  sm_high_asset = (case asset_range d s of None \<Rightarrow> max current base | Some (h, l) \<Rightarrow> max (max current h) base),
                  sm_low_asset = (case asset_range d s of None \<Rightarrow> min current base | Some (h, l) \<Rightarrow> min (min current l) base),
                  sm_latest_snapshot_at = latest,
                  sm_is_stale = (case latest of None \<Rightarrow> False | Some t \<Rightarrow> stale_after_us < wall timestamp - wall t)\<rparr>))"

record balance_payload =
  bp_total_asset :: real
  bp_cash :: real
  bp_stock_value :: real
  bp_total_pnl :: real
  bp_total_pnl_rate :: real
  bp_session_metrics :: session_metrics

text \<open>A failing database leaves the metrics empty.\<close>

definition build_balance_payload :: "bool \<Rightarrow> pydt \<Rightarrow> account_balance \<Rightarrow> pydt option \<Rightarrow> db \<Rightarrow> equity_db \<Rightarrow> balance_payload" where
  "build_balance_payload db_up now balance captured_at trades s =
     (let timestamp = ensure_kst (case captured_at of None \<Rightarrow> now | Some t \<Rightarrow> t)
      in \<lparr>bp_total_asset = bal_total_asset balance, bp_cash = bal_cash balance, bp_stock_value = bal_stock_value balance,
          bp_total_pnl = bal_total_pnl balance, bp_total_pnl_rate = bal_total_pnl_rate balance,
          bp_session_metrics = (if db_up then build_session_metrics balance timestamp trades s
                                else empty_session_metrics balance timestamp ''metrics_error'' 0)\<rparr>)"

section \<open>The profit summary\<close>

record pnl_summary =
  pt_trading_date :: int
  pt_sample_status :: string
  pt_realized :: real
  pt_closed_count :: nat
  pt_unrealized :: real
  pt_unrealized_rate :: real
  pt_total_asset :: real
  pt_baseline_total_asset :: real
  pt_asset_delta :: real
  pt_asset_delta_rate :: real
  pt_holding_count :: nat
  pt_pending_count :: nat

definition sample_status :: "nat \<Rightarrow> string" where
  "sample_status closed_count =
     (if closed_count = 0 then ''INSUFFICIENT_CLOSED_TRADE_SAMPLE''
      else if closed_count < 12 then ''LOW_CLOSED_TRADE_SAMPLE'' else ''OK'')"

text \<open>The aggregate query: \<open>func.date(exit_at)\<close> is the date of the stored wall clock.\<close>

definition realized_rows :: "int \<Rightarrow> db \<Rightarrow> trade_result list" where
  "realized_rows d trades = filter (\<lambda>r. tr_side r = ''BUY'' \<and> tr_status r = CONFIRMED \<and>
     (case tr_exit_at r of None \<Rightarrow> False | Some t \<Rightarrow> dt_date t = d)) (db_rows trades)"

definition fetch_realized_trade_pnl :: "int \<Rightarrow> db \<Rightarrow> real \<times> nat" where
  "fetch_realized_trade_pnl d trades = (sum_list (map tr_pnl (realized_rows d trades)), length (realized_rows d trades))"

definition build_summary :: "int \<Rightarrow> db \<Rightarrow> equity_db \<Rightarrow> pnl_summary" where
  "build_summary d trades s =
     (let (realized, closed) = fetch_realized_trade_pnl d trades;
          baseline = get_by_trading_date d s; snapshot = latest_snapshot d s;
          total = (case snapshot of None \<Rightarrow> 0 | Some sn \<Rightarrow> sn_total_asset sn);
          base = (case baseline of None \<Rightarrow> 0 | Some b \<Rightarrow> bl_total_asset b);
          delta = (if snapshot \<noteq> None \<and> baseline \<noteq> None then total - base else 0)
      in \<lparr>pt_trading_date = d, pt_sample_status = sample_status closed, pt_realized = realized, pt_closed_count = closed,
          pt_unrealized = (case snapshot of None \<Rightarrow> 0 | Some sn \<Rightarrow> sn_unrealized_pnl sn),
          pt_unrealized_rate = (case snapshot of None \<Rightarrow> 0 | Some sn \<Rightarrow> sn_unrealized_rate sn),
          pt_total_asset = total, pt_baseline_total_asset = base, pt_asset_delta = delta,
          pt_asset_delta_rate = (if 0 < base then py_round 2 (delta / base * 100) else 0),
          pt_holding_count = (case snapshot of None \<Rightarrow> 0 | Some sn \<Rightarrow> sn_holding_count sn),
          pt_pending_count = (case snapshot of None \<Rightarrow> 0 | Some sn \<Rightarrow> sn_pending_count sn)\<rparr>)"

section \<open>The retry around a write\<close>

text \<open>\<open>run_sqlite_write_with_retry\<close>: \<open>op n\<close> is the outcome of the \<open>n\<close>-th attempt; the waits in between are
  left out. The result comes with the number of attempts made.\<close>

definition locked_text :: string where "locked_text = ''database is locked''"

definition is_sqlite_database_locked :: "py_exn \<Rightarrow> bool" where
  "is_sqlite_database_locked e \<longleftrightarrow> exn_kind e = ExternalError \<and> contains (upper locked_text) (upper (exn_text e))"

fun write_attempts :: "(nat \<Rightarrow> 'a res) \<Rightarrow> nat \<Rightarrow> nat \<Rightarrow> 'a res \<times> nat" where
  "write_attempts op attempt 0 = (op attempt, attempt)"
| "write_attempts op attempt (Suc left) =
     (case op attempt of
        Inr x \<Rightarrow> (Inr x, attempt)
      | Inl e \<Rightarrow> if is_sqlite_database_locked e then write_attempts op (Suc attempt) left else (Inl e, attempt))"

definition run_sqlite_write_with_retry :: "int \<Rightarrow> (nat \<Rightarrow> 'a res) \<Rightarrow> 'a res \<times> nat" where
  "run_sqlite_write_with_retry retry_count op = write_attempts op 1 (nat (max retry_count 1) - 1)"

section \<open>Lemmas\<close>

lemma find_append: "find P (xs @ ys) = (case find P xs of None \<Rightarrow> find P ys | Some x \<Rightarrow> Some x)"
  by (induction xs) auto

lemma record_baselines:
  "eq_baselines (snd (record_snapshot state phase src s)) =
     (case get_by_trading_date (es_trading_date state) s of
        Some b \<Rightarrow> eq_baselines s
      | None \<Rightarrow> eq_baselines s @ [baseline_of_state state (str_or (ostr src) phase)])"
  by (simp add: record_snapshot_def ensure_day_baseline_def Let_def split: option.splits)

lemma record_get:
  "get_by_trading_date d (snd (record_snapshot state phase src s)) =
     (case get_by_trading_date d s of
        Some b \<Rightarrow> Some b
      | None \<Rightarrow> if es_trading_date state = d then Some (baseline_of_state state (str_or (ostr src) phase)) else None)"
  using record_baselines [of state phase src s]
  by (auto simp: get_by_trading_date_def find_append baseline_of_state_def split: option.splits)

lemma record_snapshots:
  "eq_snapshots (snd (record_snapshot state phase src s)) = eq_snapshots s @ [fst (record_snapshot state phase src s)]"
  "sn_trading_date (fst (record_snapshot state phase src s)) = es_trading_date state"
  by (simp_all add: record_snapshot_def ensure_day_baseline_def Let_def split: option.splits)

text \<open>The invariant of the two tables: one baseline per day, and one for every day with a snapshot.\<close>

definition equity_ok :: "equity_db \<Rightarrow> bool" where
  "equity_ok s \<longleftrightarrow> distinct (map bl_trading_date (eq_baselines s)) \<and>
     sn_trading_date ` set (eq_snapshots s) \<subseteq> bl_trading_date ` set (eq_baselines s)"

lemma get_baseline_mem:
  "get_by_trading_date d s = None \<longleftrightarrow> d \<notin> bl_trading_date ` set (eq_baselines s)"
  by (auto simp: get_by_trading_date_def find_None_iff)

lemma equity_ok_record: "equity_ok s \<Longrightarrow> equity_ok (snd (record_snapshot state phase src s))"
  using get_baseline_mem [of "es_trading_date state" s]
  by (auto simp: equity_ok_def record_baselines record_snapshots baseline_of_state_def split: option.splits)

lemma completed_rows: "mset (get_completed_by_date d trades) = mset (realized_rows d trades)"
proof -
  have "filter (\<lambda>r. tr_side r = ''BUY'' \<and> tr_exit_at r \<noteq> None \<and> on_day d (tr_exit_at r) \<and> tr_status r = CONFIRMED) (db_rows trades) =
      realized_rows d trades"
    unfolding realized_rows_def by (intro filter_cong) (auto simp: on_day_iff split: option.splits)
  then show ?thesis by (simp add: get_completed_by_date_def)
qed

section \<open>Properties\<close>

text \<open>
  The baseline of a day is the first state recorded on it and never changes again, however many
  snapshots follow; there is at most one per day, and none of the snapshots is without one.
\<close>

definition record_all :: "(equity_state \<times> string \<times> string option) list \<Rightarrow> equity_db \<Rightarrow> equity_db" where
  "record_all recs s = fold (\<lambda>(state, phase, src) s. snd (record_snapshot state phase src s)) recs s"

lemma day_baseline_is_first_state:
  assumes "equity_ok s"
  shows "equity_ok (record_all recs s) \<and>
    get_by_trading_date d (record_all recs s) =
      (case get_by_trading_date d s of
         Some b \<Rightarrow> Some b
       | None \<Rightarrow> map_option (\<lambda>(state, phase, src). baseline_of_state state (str_or (ostr src) phase))
           (find (\<lambda>(state, phase, src). es_trading_date state = d) recs))"
  using assms
proof (induction recs arbitrary: s)
  case Nil
  then show ?case by (simp add: record_all_def split: option.splits)
next
  case (Cons r recs)
  obtain state phase src where r: "r = (state, phase, src)" by (cases r)
  have step: "record_all (r # recs) s = record_all recs (snd (record_snapshot state phase src s))"
    by (simp add: record_all_def r)
  show ?case
    using Cons.IH [OF equity_ok_record [OF Cons.prems]] unfolding step
    by (auto simp: record_get r split: option.splits)
qed

definition sample_equity :: "real \<Rightarrow> equity_state" where
  "sample_equity asset = build_state (PyDT 1000 True) \<lparr>bal_total_asset = asset, bal_cash = asset, bal_stock_value = 0,
     bal_total_pnl = 0, bal_total_pnl_rate = 0, bal_is_valid = True\<rparr> 0 0 None None"

definition empty_equity :: equity_db where "empty_equity = \<lparr>eq_baselines = [], eq_snapshots = []\<rparr>"

lemma day_baseline_is_first_state_witness:
  "map_option bl_total_asset (get_by_trading_date 0 (record_all [(sample_equity 5, ''INTRADAY'', None), (sample_equity 7, ''INTRADAY'', None)]
     empty_equity)) = Some 5"
proof -
  have "equity_ok empty_equity" by (simp add: equity_ok_def empty_equity_def)
  moreover have "get_by_trading_date 0 empty_equity = None" by (simp add: get_by_trading_date_def empty_equity_def)
  moreover have "es_trading_date (sample_equity x) = 0" "es_total_asset (sample_equity x) = x" for x
    by (simp_all add: sample_equity_def build_state_def dt_date_def day_us_def)
  ultimately show ?thesis
    using day_baseline_is_first_state [of empty_equity "[(sample_equity 5, ''INTRADAY'', None), (sample_equity 7, ''INTRADAY'', None)]" 0]
    by (simp add: baseline_of_state_def)
qed

text \<open>
  The metrics of a day are consistent: the current asset and the baseline lie between the day's low
  and high, the change splits into realised and unrealised profit, and the realised part is the one
  the profit summary reports for that day.
\<close>

lemma session_metrics_consistent:
  "let m = build_session_metrics balance t trades s; p = build_summary (dt_date (ensure_kst t)) trades s
   in sm_low_asset m \<le> bal_total_asset balance \<and> bal_total_asset balance \<le> sm_high_asset m \<and>
      pt_realized p = sm_realized_today_pnl m \<and> pt_closed_count p = length (get_completed_by_date (dt_date (ensure_kst t)) trades) \<and>
      (sm_available m = (get_by_trading_date (dt_date (ensure_kst t)) s \<noteq> None)) \<and>
      (if sm_available m
       then sm_low_asset m \<le> sm_baseline_total_asset m \<and> sm_baseline_total_asset m \<le> sm_high_asset m \<and>
         sm_asset_delta m = bal_total_asset balance - sm_baseline_total_asset m \<and>
         sm_asset_delta m = sm_realized_today_pnl m + sm_daily_unrealized_delta m
       else sm_asset_delta m = 0)"
proof -
  let ?d = "dt_date (ensure_kst t)"
  have "mset (map tr_pnl (get_completed_by_date ?d trades)) = mset (map tr_pnl (realized_rows ?d trades))"
    by (simp add: completed_rows)
  then have sums: "sum_list (map tr_pnl (get_completed_by_date ?d trades)) = sum_list (map tr_pnl (realized_rows ?d trades))"
    by (metis sum_mset_sum_list)
  have count: "length (get_completed_by_date ?d trades) = length (realized_rows ?d trades)"
    by (metis completed_rows size_mset)
  show ?thesis
    by (auto simp: build_session_metrics_def build_summary_def fetch_realized_trade_pnl_def realized_today_def empty_session_metrics_def
        sums count Let_def split: option.splits)
qed

text \<open>
  With the market closed the broker is asked for the account only until it has answered once; from
  then on every query gives that answer without a call, until the cache is invalidated.
\<close>

lemma closed_market_asks_until_answered:
  "fst (asked_run mcp_account_snapshot (map (Pair False) rs) (invalidate_cache c)) =
     map (Pair False) (takeWhile (\<lambda>r. mcp_says_account r = None) rs @ take 1 (dropWhile (\<lambda>r. mcp_says_account r = None) rs))"
  by (rule mcp_account.closed_run) (simp add: cached_snapshot_def invalidate_cache_def)

text \<open>
  A failed account query is not told apart when the day's baseline is written: the zero balance it
  answers with becomes the baseline, and for the rest of the day the whole asset counts as its change.
\<close>

lemma failed_query_becomes_baseline:
  assumes "get_by_trading_date (dt_date now) s = None" and "dt_date t = dt_date now"
  shows "let s' = snd (capture_and_record_current now (Inr empty_balance) (Inr hs) (Inr orders) phase detail src s);
             m = build_session_metrics balance t trades s'
         in sm_available m \<and> sm_asset_delta m = bal_total_asset balance \<and> sm_asset_delta_rate m = 0"
proof -
  let ?st = "build_state now empty_balance (length hs) (length orders) None detail"
  have d: "es_trading_date ?st = dt_date now" "es_total_asset ?st = 0"
    by (simp_all add: build_state_def Let_def dt_date_def empty_balance_def)
  have "get_by_trading_date (dt_date now) (snd (capture_and_record_current now (Inr empty_balance) (Inr hs) (Inr orders) phase detail src s)) =
      Some (baseline_of_state ?st (str_or (ostr (Some (str_or (ostr src) phase))) phase))"
    using assms(1) d(1) record_get [of "dt_date now" ?st phase "Some (str_or (ostr src) phase)" s]
    by (simp add: capture_and_record_current_def case_prod_beta)
  moreover have "dt_date (ensure_kst t) = dt_date now" using assms(2) by (simp add: dt_date_def)
  ultimately show ?thesis using d(2) by (simp add: build_session_metrics_def baseline_of_state_def Let_def)
qed

lemma failed_query_becomes_baseline_witness:
  "sm_asset_delta (build_session_metrics \<lparr>bal_total_asset = 9, bal_cash = 9, bal_stock_value = 0, bal_total_pnl = 0,
     bal_total_pnl_rate = 0, bal_is_valid = True\<rparr> (PyDT 5 True) empty_db
     (snd (capture_and_record_current (PyDT 0 True) (Inr empty_balance) (Inr []) (Inr []) ''INTRADAY'' None None empty_equity))) = 9"
  using failed_query_becomes_baseline [of "PyDT 0 True" empty_equity "PyDT 5 True" "[]" "[]" "''INTRADAY''" None None
      "\<lparr>bal_total_asset = 9, bal_cash = 9, bal_stock_value = 0, bal_total_pnl = 0, bal_total_pnl_rate = 0, bal_is_valid = True\<rparr>" empty_db]
  by (simp add: empty_equity_def get_by_trading_date_def dt_date_def day_us_def Let_def)

text \<open>A write is tried at most as often as configured, stops at its first success or at the first error
  that is no lock, and reports the outcome of the last attempt.\<close>

lemma write_attempts_spec:
  "write_attempts op n left = (r, k) \<Longrightarrow> r = op k \<and> n \<le> k \<and> k \<le> n + left \<and>
     (\<forall>j. n \<le> j \<longrightarrow> j < k \<longrightarrow> (\<exists>e. op j = Inl e \<and> is_sqlite_database_locked e)) \<and>
     (k < n + left \<longrightarrow> (case r of Inr x \<Rightarrow> True | Inl e \<Rightarrow> \<not> is_sqlite_database_locked e))"
proof (induction left arbitrary: n)
  case (Suc left)
  show ?case
  proof (cases "\<exists>e. op n = Inl e \<and> is_sqlite_database_locked e")
    case True
    then have "write_attempts op (Suc n) left = (r, k)" using Suc.prems by auto
    note IH = Suc.IH [OF this]
    have "\<forall>j. n \<le> j \<longrightarrow> j < k \<longrightarrow> (\<exists>e. op j = Inl e \<and> is_sqlite_database_locked e)"
      using IH True by (metis Suc_leI le_neq_implies_less)
    moreover have "n \<le> k" "k \<le> n + Suc left" using IH by simp_all
    ultimately show ?thesis using IH by (simp only: add_Suc add_Suc_right) blast
  next
    case False
    then have "r = op n" "k = n" using Suc.prems by (auto split: sum.splits if_splits)
    then show ?thesis using False by (auto split: sum.splits)
  qed
qed auto

lemma write_retry_bounded:
  assumes "run_sqlite_write_with_retry retry_count op = (r, k)"
  shows "r = op k \<and> 1 \<le> k \<and> int k \<le> max retry_count 1 \<and>
    (\<forall>j. 1 \<le> j \<longrightarrow> j < k \<longrightarrow> (\<exists>e. op j = Inl e \<and> is_sqlite_database_locked e))"
  using write_attempts_spec [OF assms [unfolded run_sqlite_write_with_retry_def]] by auto

end
