(* ===== verification/Realtime.thy ===== *)
theory Realtime
  imports Interfaces "HOL-Library.AList"
begin

text \<open>
  The quote streams: the websocket client of the broker (\<open>trading/kis_websocket.py\<close>) and its two
  adapters (\<open>realtime/adapters/\<close>), the stream manager that keeps the subscriptions
  (\<open>realtime/stream_manager.py\<close>), the monitor that falls back to polling (\<open>realtime/monitor.py\<close>) and
  the event bus (\<open>core/events.py\<close>). Whether a connection can be opened and a message sent is an
  argument; a connection remembers what was sent over it. Each call is one step: calls that overlap
  at an \<open>await\<close> are not modelled.
\<close>

section \<open>The websocket client\<close>

record conn =
  cn_open :: bool
  cn_sent :: "(bool \<times> string) list"

record kis_ws =
  kw_running :: bool
  kw_domestic :: "conn option"
  kw_overseas :: "conn option"
  kw_subs :: "string set"

record ws_env =
  we_domestic_up :: bool
  we_overseas_up :: bool
  we_send_ok :: bool

definition new_ws :: kis_ws where
  "new_ws = \<lparr>kw_running = False, kw_domestic = None, kw_overseas = None, kw_subs = {}\<rparr>"

definition ws_connect :: "kis_ws \<Rightarrow> kis_ws" where
  "ws_connect w = w\<lparr>kw_running := True\<rparr>"

definition ws_disconnect :: "kis_ws \<Rightarrow> kis_ws" where
  "ws_disconnect w = w\<lparr>kw_running := False, kw_domestic := None, kw_overseas := None, kw_subs := {}\<rparr>"

definition session_limit :: nat where "session_limit = 41"

definition sub_key :: "string \<Rightarrow> string \<Rightarrow> string" where
  "sub_key symbol market = market @ '':'' @ symbol"

definition domestic :: "string \<Rightarrow> bool" where
  "domestic market \<longleftrightarrow> market \<in> {''KOSPI'', ''KOSDAQ'', ''KRX''}"

definition conn_of :: "string \<Rightarrow> kis_ws \<Rightarrow> conn option" where
  "conn_of market w = (if domestic market then kw_domestic w else kw_overseas w)"

definition set_conn :: "string \<Rightarrow> conn option \<Rightarrow> kis_ws \<Rightarrow> kis_ws" where
  "set_conn market c w = (if domestic market then w\<lparr>kw_domestic := c\<rparr> else w\<lparr>kw_overseas := c\<rparr>)"

definition is_open :: "conn option \<Rightarrow> bool" where
  "is_open c = (case c of None \<Rightarrow> False | Some c \<Rightarrow> cn_open c)"

text \<open>\<open>_get_ws\<close>: an open connection is used, otherwise a new one is made.\<close>

definition get_ws :: "ws_env \<Rightarrow> string \<Rightarrow> kis_ws \<Rightarrow> bool \<times> kis_ws" where
  "get_ws env market w =
     (if is_open (conn_of market w) then (True, w)
      else if (if domestic market then we_domestic_up env else we_overseas_up env)
      then (True, set_conn market (Some \<lparr>cn_open = True, cn_sent = []\<rparr>) w)
      else (False, w))"

definition send :: "string \<Rightarrow> bool \<times> string \<Rightarrow> kis_ws \<Rightarrow> kis_ws" where
  "send market msg w =
     set_conn market (map_option (\<lambda>c. c\<lparr>cn_sent := cn_sent c @ [msg]\<rparr>) (conn_of market w)) w"

definition ws_subscribe :: "ws_env \<Rightarrow> string \<Rightarrow> string \<Rightarrow> kis_ws \<Rightarrow> bool \<times> kis_ws" where
  "ws_subscribe env symbol market w =
     (if session_limit \<le> card (kw_subs w) then (False, w)
      else if sub_key symbol market \<in> kw_subs w then (True, w)
      else let (ok, w1) = get_ws env market w
           in if \<not> ok \<or> \<not> we_send_ok env then (False, w1)
              else (True, (send market (True, symbol) w1)\<lparr>kw_subs := insert (sub_key symbol market) (kw_subs w1)\<rparr>))"

definition ws_unsubscribe :: "ws_env \<Rightarrow> string \<Rightarrow> string \<Rightarrow> kis_ws \<Rightarrow> kis_ws" where
  "ws_unsubscribe env symbol market w =
     (if sub_key symbol market \<notin> kw_subs w then w
      else let (ok, w1) = get_ws env market w;
               w2 = (if ok \<and> we_send_ok env then send market (False, symbol) w1 else w1)
           in w2\<lparr>kw_subs := kw_subs w2 - {sub_key symbol market}\<rparr>)"

definition subscription_count :: "kis_ws \<Rightarrow> nat" where "subscription_count w = card (kw_subs w)"

definition is_connected :: "kis_ws \<Rightarrow> bool" where
  "is_connected w \<longleftrightarrow> is_open (kw_domestic w) \<or> is_open (kw_overseas w)"

text \<open>The adapter of a broker without quotes refuses every subscription; its state is trivial.\<close>

definition null_subscribe :: "string \<Rightarrow> string \<Rightarrow> unit \<Rightarrow> bool \<times> unit" where
  "null_subscribe symbol market a = (False, a)"

definition null_unsubscribe :: "string \<Rightarrow> string \<Rightarrow> unit \<Rightarrow> unit" where
  "null_unsubscribe symbol market a = a"

definition null_count :: "unit \<Rightarrow> nat" where "null_count a = 0"

section \<open>The stream manager\<close>

record 'a stream =
  sm_priority :: "(string \<times> string) list"
  sm_adapter :: 'a

fun subscribe_symbols ::
  "(string \<Rightarrow> string \<Rightarrow> 'a \<Rightarrow> bool \<times> 'a) \<Rightarrow> ('a \<Rightarrow> nat) \<Rightarrow> (string \<times> string) list \<Rightarrow> 'a stream \<Rightarrow> 'a stream" where
  "subscribe_symbols sub cnt [] s = s"
| "subscribe_symbols sub cnt ((symbol, market) # rest) s =
     (if 41 \<le> cnt (sm_adapter s) then s
      else let (ok, a) = sub symbol market (sm_adapter s)
           in subscribe_symbols sub cnt rest
                (s\<lparr>sm_adapter := a,
                   sm_priority := (if ok then AList.update symbol market (sm_priority s) else sm_priority s)\<rparr>))"

definition unsubscribe_symbol :: "(string \<Rightarrow> string \<Rightarrow> 'a \<Rightarrow> 'a) \<Rightarrow> string \<Rightarrow> 'a stream \<Rightarrow> 'a stream" where
  "unsubscribe_symbol unsub symbol s =
     (let market = (case map_of (sm_priority s) symbol of None \<Rightarrow> ''KRX'' | Some m \<Rightarrow> m)
      in s\<lparr>sm_priority := AList.delete symbol (sm_priority s), sm_adapter := unsub symbol market (sm_adapter s)\<rparr>)"

definition unsubscribe_symbols :: "(string \<Rightarrow> string \<Rightarrow> 'a \<Rightarrow> 'a) \<Rightarrow> string list \<Rightarrow> 'a stream \<Rightarrow> 'a stream" where
  "unsubscribe_symbols unsub = fold (unsubscribe_symbol unsub)"

text \<open>\<open>list(to_remove)\<close> has no defined order; here it is the order of the dict.\<close>

definition update_subscriptions ::
  "(string \<Rightarrow> string \<Rightarrow> 'a \<Rightarrow> bool \<times> 'a) \<Rightarrow> (string \<Rightarrow> string \<Rightarrow> 'a \<Rightarrow> 'a) \<Rightarrow> ('a \<Rightarrow> nat) \<Rightarrow>
     (string \<times> string) list \<Rightarrow> 'a stream \<Rightarrow> 'a stream" where
  "update_subscriptions sub unsub cnt new s =
     (let current = map fst (sm_priority s);
          to_remove = filter (\<lambda>x. x \<notin> fst ` set new) current;
          to_add = filter (\<lambda>(x, m). x \<notin> set current) new
      in subscribe_symbols sub cnt to_add (unsubscribe_symbols unsub to_remove s))"

text \<open>The restoration after an error of the listener: the answers of the adapter are not looked at.\<close>

definition restore :: "(string \<Rightarrow> string \<Rightarrow> 'a \<Rightarrow> bool \<times> 'a) \<Rightarrow> ('a \<Rightarrow> 'a) \<Rightarrow> 'a stream \<Rightarrow> 'a stream" where
  "restore sub start s =
     s\<lparr>sm_adapter := fold (\<lambda>(symbol, market) a. snd (sub symbol market a)) (sm_priority s) (start (sm_adapter s))\<rparr>"

text \<open>The list the scheduler subscribes after a cycle: the selection, then the holdings, one entry per
  symbol with the last market, at most 41.\<close>

definition merged_symbols :: "(string \<times> string) list \<Rightarrow> (string \<times> string) list \<Rightarrow> (string \<times> string) list" where
  "merged_symbols selected holdings = take 41 (fold (\<lambda>(s, m). AList.update s m) (selected @ holdings) [])"

section \<open>The monitor\<close>

record monitor =
  mo_running :: bool
  mo_last_data :: real
  mo_polling :: bool
  mo_poll_task :: bool

definition start_polling_task :: "monitor \<Rightarrow> monitor" where
  "start_polling_task m = m\<lparr>mo_polling := True, mo_poll_task := True\<rparr>"

definition stop_polling_task :: "monitor \<Rightarrow> monitor" where
  "stop_polling_task m = m\<lparr>mo_polling := False, mo_poll_task := False\<rparr>"

definition monitor_start :: "bool \<Rightarrow> bool \<Rightarrow> real \<Rightarrow> monitor \<Rightarrow> monitor" where
  "monitor_start supports_quotes trading_hours now m =
     (let m1 = m\<lparr>mo_running := True, mo_last_data := now\<rparr>
      in if supports_quotes then m1 else if trading_hours then start_polling_task m1 else m1)"

definition monitor_stop :: "monitor \<Rightarrow> monitor" where
  "monitor_stop m = stop_polling_task (m\<lparr>mo_running := False\<rparr>)"

definition monitor_price :: "real \<Rightarrow> monitor \<Rightarrow> monitor" where
  "monitor_price now m =
     (let m1 = m\<lparr>mo_last_data := now\<rparr> in if mo_polling m then stop_polling_task m1 else m1)"

definition ws_stale_threshold_sec :: real where "ws_stale_threshold_sec = 60"

definition health_tick :: "bool \<Rightarrow> bool \<Rightarrow> bool \<Rightarrow> real \<Rightarrow> monitor \<Rightarrow> monitor" where
  "health_tick supports_quotes trading_hours ws_up now m =
     (if \<not> mo_running m then m
      else if \<not> trading_hours then (if mo_polling m then stop_polling_task m else m)
      else if \<not> supports_quotes then (if \<not> mo_polling m then start_polling_task m else m)
      else if (\<not> ws_up \<or> ws_stale_threshold_sec < now - mo_last_data m) \<and> \<not> mo_polling m
      then start_polling_task m else m)"

text \<open>One round of the polling loop: which ticks it hands to the event detector.\<close>

record quote = qu_price :: real qu_volume :: int qu_change_rate :: real

definition poll_holding :: "(string \<Rightarrow> quote res) \<Rightarrow> string \<times> int \<Rightarrow> (string \<times> quote) list" where
  "poll_holding quotes h =
     (if fst h = [] \<or> snd h \<le> 0 then []
      else case quotes (fst h) of Inl e \<Rightarrow> [] | Inr q \<Rightarrow> if qu_price q \<le> 0 then [] else [(fst h, q)])"

definition poll_holdings_prices :: "(string \<Rightarrow> quote res) \<Rightarrow> (string \<times> int) list res \<Rightarrow> (string \<times> quote) list" where
  "poll_holdings_prices quotes holdings =
     (case holdings of Inl e \<Rightarrow> [] | Inr hs \<Rightarrow> concat (map (poll_holding quotes) hs))"

section \<open>The event bus\<close>

record ('t, 'h, 'e) bus =
  bus_handlers :: "'t \<Rightarrow> 'h list"
  bus_queue :: "'e list"

definition bus_subscribe :: "'t \<Rightarrow> 'h \<Rightarrow> ('t, 'h, 'e) bus \<Rightarrow> ('t, 'h, 'e) bus" where
  "bus_subscribe t h b = b\<lparr>bus_handlers := (bus_handlers b)(t := bus_handlers b t @ [h])\<rparr>"

definition bus_unsubscribe :: "'t \<Rightarrow> 'h \<Rightarrow> ('t, 'h, 'e) bus \<Rightarrow> ('t, 'h, 'e) bus" where
  "bus_unsubscribe t h b = b\<lparr>bus_handlers := (bus_handlers b)(t := remove1 h (bus_handlers b t))\<rparr>"

definition bus_publish :: "'e \<Rightarrow> ('t, 'h, 'e) bus \<Rightarrow> ('t, 'h, 'e) bus" where
  "bus_publish e b = b\<lparr>bus_queue := bus_queue b @ [e]\<rparr>"

text \<open>
  A handler works on the program's state, may raise, and answers the events it published. The loop
  takes one event and awaits its handlers in the order of their registration; an exception is logged.
\<close>

fun run_handlers ::
  "('h \<Rightarrow> 'e \<Rightarrow> 's \<Rightarrow> unit res \<times> 'e list \<times> 's) \<Rightarrow> 'e \<Rightarrow> 'h list \<Rightarrow> ('t, 'h, 'e) bus \<times> 's \<Rightarrow> ('t, 'h, 'e) bus \<times> 's" where
  "run_handlers run e [] bs = bs"
| "run_handlers run e (h # hs) (b, s) =
     (let (_, es, s') = run h e s in run_handlers run e hs (fold bus_publish es b, s'))"

definition process_event ::
  "('h \<Rightarrow> 'e \<Rightarrow> 's \<Rightarrow> unit res \<times> 'e list \<times> 's) \<Rightarrow> ('e \<Rightarrow> 't) \<Rightarrow> ('t, 'h, 'e) bus \<times> 's \<Rightarrow> ('t, 'h, 'e) bus \<times> 's" where
  "process_event run type_of bs =
     (case bus_queue (fst bs) of
        [] \<Rightarrow> bs
      | e # es \<Rightarrow> run_handlers run e (bus_handlers (fst bs) (type_of e)) ((fst bs)\<lparr>bus_queue := es\<rparr>, snd bs))"

section \<open>Interfaces\<close>

text \<open>What agreement between the manager's dict and the adapter's set means.\<close>

definition in_sync ::
  "('a \<Rightarrow> 'k set) \<Rightarrow> (string \<Rightarrow> string \<Rightarrow> 'k) \<Rightarrow> (string \<Rightarrow> string) \<Rightarrow> 'a stream \<Rightarrow> bool" where
  "in_sync feeds key mk s \<longleftrightarrow>
     (\<forall>x m. map_of (sm_priority s) x = Some m \<longrightarrow> m = mk x) \<and>
     feeds (sm_adapter s) = (\<lambda>x. key x (mk x)) ` fst ` set (sm_priority s)"

lemma delete_dom: "fst ` set (AList.delete x ps) = fst ` set ps - {x}"
  by (metis delete_keys set_map set_removeAll)

lemma image_minus_one:
  "(\<And>y. c = K y \<Longrightarrow> y = x) \<Longrightarrow> (x \<in> A \<Longrightarrow> c = K x) \<Longrightarrow> K ` A - {c} = K ` (A - {x})"
  by auto

context quote_feed begin

lemma sync_finite: "in_sync feeds key mk s \<Longrightarrow> finite (feeds (sm_adapter s))"
  by (simp add: in_sync_def)

lemma subscribe_sync:
  "in_sync feeds key mk s \<Longrightarrow> list_all (\<lambda>(x, m). m = mk x) new \<Longrightarrow>
     in_sync feeds key mk (subscribe_symbols sub cnt new s)"
proof (induction new arbitrary: s)
  case (Cons p new)
  obtain x m where p: "p = (x, m)" by (cases p)
  have m: "m = mk x" using Cons.prems(2) p by simp
  obtain ok a where r: "sub x m (sm_adapter s) = (ok, a)" by (cases "sub x m (sm_adapter s)")
  let ?s = "s\<lparr>sm_adapter := a, sm_priority := (if ok then AList.update x m (sm_priority s) else sm_priority s)\<rparr>"
  have "in_sync feeds key mk ?s"
    using Cons.prems(1) sub_feeds [of x m "sm_adapter s"] sub_refused [of x m "sm_adapter s"] r m
    by (auto simp: in_sync_def update_conv' dom_update)
  then have "in_sync feeds key mk (subscribe_symbols sub cnt new ?s)"
    using Cons.prems(2) by (intro Cons.IH) simp_all
  then show ?case using Cons.prems(1) p r by simp
qed simp

lemma subscribe_limit:
  "card (feeds (sm_adapter s)) \<le> limit \<Longrightarrow> card (feeds (sm_adapter (subscribe_symbols sub cnt new s))) \<le> limit"
proof (induction new arbitrary: s)
  case (Cons p new)
  obtain x m where p: "p = (x, m)" by (cases p)
  obtain ok a where r: "sub x m (sm_adapter s) = (ok, a)" by (cases "sub x m (sm_adapter s)")
  have "card (feeds a) \<le> limit" using sub_limit [OF Cons.prems, of x m] r by simp
  then show ?case using Cons p r by simp
qed simp

lemma unsubscribe_sync:
  assumes "in_sync feeds key mk s" and "\<And>x. fine (mk x)"
  shows "in_sync feeds key mk (unsubscribe_symbol unsub x s)"
    and "fst ` set (sm_priority (unsubscribe_symbol unsub x s)) = fst ` set (sm_priority s) - {x}"
    and "feeds (sm_adapter (unsubscribe_symbol unsub x s)) \<subseteq> feeds (sm_adapter s)"
proof -
  let ?m = "case map_of (sm_priority s) x of None \<Rightarrow> ''KRX'' | Some m \<Rightarrow> m"
  have same: "x' = x" if "key x ?m = key x' (mk x')" for x'
  proof -
    have "fine ?m" using assms krx_fine by (auto simp: in_sync_def split: option.splits)
    then show ?thesis using key_inj [OF _ assms(2) that] by simp
  qed
  have there: "?m = mk x" if "x \<in> fst ` set (sm_priority s)"
  proof -
    have "map_of (sm_priority s) x \<noteq> None" using that by (simp add: map_of_eq_None_iff)
    then obtain m where "map_of (sm_priority s) x = Some m" by blast
    then show ?thesis using assms(1) by (simp add: in_sync_def)
  qed
  show rest: "fst ` set (sm_priority (unsubscribe_symbol unsub x s)) = fst ` set (sm_priority s) - {x}"
    by (simp add: unsubscribe_symbol_def Let_def delete_dom)
  have "feeds (sm_adapter (unsubscribe_symbol unsub x s)) = feeds (sm_adapter s) - {key x ?m}"
    by (simp add: unsubscribe_symbol_def Let_def unsub_feeds)
  also have "feeds (sm_adapter s) = (\<lambda>x. key x (mk x)) ` fst ` set (sm_priority s)"
    using assms(1) by (simp add: in_sync_def)
  also have "\<dots> - {key x ?m} = (\<lambda>x. key x (mk x)) ` (fst ` set (sm_priority s) - {x})"
    using same there by (intro image_minus_one) (simp_all only:)
  finally have f: "feeds (sm_adapter (unsubscribe_symbol unsub x s)) = (\<lambda>x. key x (mk x)) ` (fst ` set (sm_priority s) - {x})" .
  then show "feeds (sm_adapter (unsubscribe_symbol unsub x s)) \<subseteq> feeds (sm_adapter s)"
    using assms(1) by (auto simp: in_sync_def)
  have "map_of (sm_priority (unsubscribe_symbol unsub x s)) y = Some m \<Longrightarrow> m = mk y" for y m
    using assms(1) by (simp add: unsubscribe_symbol_def Let_def in_sync_def delete_conv' split: if_splits)
  then show "in_sync feeds key mk (unsubscribe_symbol unsub x s)" using f rest by (simp add: in_sync_def)
qed

lemma unsubscribe_all_sync:
  assumes "\<And>x. fine (mk x)"
  shows "in_sync feeds key mk s \<Longrightarrow> in_sync feeds key mk (unsubscribe_symbols unsub xs s) \<and>
    fst ` set (sm_priority (unsubscribe_symbols unsub xs s)) = fst ` set (sm_priority s) - set xs \<and>
    feeds (sm_adapter (unsubscribe_symbols unsub xs s)) \<subseteq> feeds (sm_adapter s)"
proof (induction xs arbitrary: s)
  case (Cons x xs)
  note step = unsubscribe_sync [OF Cons.prems assms, of x]
  have "feeds (sm_adapter (unsubscribe_symbols unsub xs (unsubscribe_symbol unsub x s))) \<subseteq> feeds (sm_adapter s)"
    using Cons.IH [OF step(1)] step(3) by (meson order_trans)
  moreover have "A - {x} - set xs = A - set (x # xs)" for A by auto
  ultimately show ?case using Cons.IH [OF step(1)] step(2) by (simp add: unsubscribe_symbols_def)
qed (simp add: unsubscribe_symbols_def)

lemma update_sync:
  assumes "in_sync feeds key mk s" and "\<And>x. fine (mk x)" and "list_all (\<lambda>(x, m). m = mk x) new"
    and "card (feeds (sm_adapter s)) \<le> limit"
  shows "in_sync feeds key mk (update_subscriptions sub unsub cnt new s) \<and>
    card (feeds (sm_adapter (update_subscriptions sub unsub cnt new s))) \<le> limit"
proof -
  let ?rem = "filter (\<lambda>x. x \<notin> fst ` set new) (map fst (sm_priority s))"
  have 1: "in_sync feeds key mk (unsubscribe_symbols unsub ?rem s)"
    and 2: "feeds (sm_adapter (unsubscribe_symbols unsub ?rem s)) \<subseteq> feeds (sm_adapter s)"
    using unsubscribe_all_sync [OF assms(2,1)] by blast+
  have "card (feeds (sm_adapter (unsubscribe_symbols unsub ?rem s))) \<le> limit"
    using card_mono [OF sync_finite [OF assms(1)] 2] assms(4) by linarith
  moreover have "list_all (\<lambda>(x, m). m = mk x) (filter (\<lambda>(x, m). x \<notin> set (map fst (sm_priority s))) new)"
    using assms(3) by (auto simp: list_all_iff)
  ultimately show ?thesis
    using subscribe_sync [OF 1] subscribe_limit by (simp add: update_subscriptions_def Let_def)
qed

end

lemma conn_frame [simp]:
  "kw_subs (set_conn market c w) = kw_subs w" "kw_subs (send market msg w) = kw_subs w"
  "kw_subs (snd (get_ws env market w)) = kw_subs w"
  by (simp_all add: set_conn_def send_def get_ws_def)

lemma card_insert_le_Suc: "card A < n \<Longrightarrow> card (insert x A) \<le> n"
  by (cases "finite A") (simp_all add: card_insert_if)

lemma sub_key_inj:
  assumes "CHR '':'' \<notin> set m" and "CHR '':'' \<notin> set m'" and "sub_key s m = sub_key s' m'"
  shows "s = s' \<and> m = m'"
proof -
  have t: "takeWhile (\<lambda>c. c \<noteq> CHR '':'') (sub_key s m) = m" if "CHR '':'' \<notin> set m" for s m
    using that by (auto simp: sub_key_def takeWhile_append)
  have "m = m'" using t [OF assms(1), of s] t [OF assms(2), of s'] assms(3) by simp
  then show ?thesis using assms(3) by (simp add: sub_key_def)
qed

lemma ws_subscribe_subs:
  "kw_subs (snd (ws_subscribe env s m w)) =
     (if fst (ws_subscribe env s m w) then insert (sub_key s m) (kw_subs w) else kw_subs w)"
proof -
  obtain ok w1 where g: "get_ws env m w = (ok, w1)" by (cases "get_ws env m w")
  then have "kw_subs w1 = kw_subs w" using conn_frame(3) [of env m w] by simp
  then show ?thesis by (auto simp: ws_subscribe_def g)
qed

lemma ws_unsubscribe_subs: "kw_subs (ws_unsubscribe env s m w) = kw_subs w - {sub_key s m}"
proof -
  obtain ok w1 where g: "get_ws env m w = (ok, w1)" by (cases "get_ws env m w")
  then have "kw_subs w1 = kw_subs w" using conn_frame(3) [of env m w] by simp
  then show ?thesis by (simp add: ws_unsubscribe_def Let_def g)
qed

lemma ws_subscribe_accepts: "fst (ws_subscribe env s m w) \<Longrightarrow> card (kw_subs w) < session_limit"
  by (simp add: ws_subscribe_def split: if_splits)

interpretation kis_feed: quote_feed "ws_subscribe env" "ws_unsubscribe env" subscription_count kw_subs sub_key
    "\<lambda>m. CHR '':'' \<notin> set m" session_limit for env
proof unfold_locales
  fix w :: kis_ws and s m assume "card (kw_subs w) \<le> session_limit"
  then show "card (kw_subs (snd (ws_subscribe env s m w))) \<le> session_limit"
    using ws_subscribe_accepts [of env s m w] by (auto simp: ws_subscribe_subs intro: card_insert_le_Suc)
next
  fix m m' s s' assume "CHR '':'' \<notin> set m" "CHR '':'' \<notin> set m'" "sub_key s m = sub_key s' m'"
  then show "s = s' \<and> m = m'" by (rule sub_key_inj)
qed (simp_all add: subscription_count_def ws_subscribe_subs ws_unsubscribe_subs)

interpretation null_feed: quote_feed null_subscribe null_unsubscribe null_count "\<lambda>_. {}" "\<lambda>s m. (s, m)" "\<lambda>_. True" 0
  by unfold_locales (simp_all add: null_subscribe_def null_count_def)

section \<open>Runs of the stream manager\<close>

datatype feed_op =
  Subscribe ws_env "(string \<times> string) list" | Unsubscribe ws_env "string list" |
  Update ws_env "(string \<times> string) list" | Restore ws_env | Drop_domestic | Drop_overseas

definition closed :: "conn option \<Rightarrow> conn option" where
  "closed = map_option (\<lambda>c. c\<lparr>cn_open := False\<rparr>)"

fun feed_act :: "feed_op \<Rightarrow> kis_ws stream \<Rightarrow> kis_ws stream" where
  "feed_act (Subscribe env new) s = subscribe_symbols (ws_subscribe env) subscription_count new s"
| "feed_act (Unsubscribe env xs) s = unsubscribe_symbols (ws_unsubscribe env) xs s"
| "feed_act (Update env new) s =
     update_subscriptions (ws_subscribe env) (ws_unsubscribe env) subscription_count new s"
| "feed_act (Restore env) s = restore (ws_subscribe env) ws_connect s"
| "feed_act Drop_domestic s = s\<lparr>sm_adapter := (sm_adapter s)\<lparr>kw_domestic := closed (kw_domestic (sm_adapter s))\<rparr>\<rparr>"
| "feed_act Drop_overseas s = s\<lparr>sm_adapter := (sm_adapter s)\<lparr>kw_overseas := closed (kw_overseas (sm_adapter s))\<rparr>\<rparr>"

text \<open>Each symbol is always named with the same market.\<close>

fun op_markets :: "(string \<Rightarrow> string) \<Rightarrow> feed_op \<Rightarrow> bool" where
  "op_markets mk (Subscribe env new) \<longleftrightarrow> list_all (\<lambda>(x, m). m = mk x) new"
| "op_markets mk (Update env new) \<longleftrightarrow> list_all (\<lambda>(x, m). m = mk x) new"
| "op_markets mk _ \<longleftrightarrow> True"

definition feed_ok :: "(string \<Rightarrow> string) \<Rightarrow> kis_ws stream \<Rightarrow> bool" where
  "feed_ok mk s \<longleftrightarrow> in_sync kw_subs sub_key mk s \<and> card (kw_subs (sm_adapter s)) \<le> session_limit \<and>
     distinct (map fst (sm_priority s))"

lemma feed_ok_frame:
  "sm_priority s' = sm_priority s \<Longrightarrow> kw_subs (sm_adapter s') = kw_subs (sm_adapter s) \<Longrightarrow>
     feed_ok mk s' \<longleftrightarrow> feed_ok mk s"
  by (simp only: feed_ok_def in_sync_def)

lemma restore_subs:
  "(\<lambda>(x, m). sub_key x m) ` set ps \<subseteq> kw_subs w \<Longrightarrow>
     kw_subs (fold (\<lambda>(x, m) a. snd (ws_subscribe env x m a)) ps w) = kw_subs w"
proof (induction ps arbitrary: w)
  case (Cons p ps)
  obtain x m where p: "p = (x, m)" by (cases p)
  have "kw_subs (snd (ws_subscribe env x m w)) = kw_subs w"
    using Cons.prems p by (simp add: ws_subscribe_subs insert_absorb)
  then show ?case using Cons.IH [of "snd (ws_subscribe env x m w)"] Cons.prems p by simp
qed simp

lemma distinct_priority:
  "distinct (map fst (sm_priority s)) \<Longrightarrow> distinct (map fst (sm_priority (subscribe_symbols sub cnt new s)))"
  "distinct (map fst (sm_priority s)) \<Longrightarrow> distinct (map fst (sm_priority (unsubscribe_symbols unsub xs s)))"
proof -
  show "distinct (map fst (sm_priority s)) \<Longrightarrow> distinct (map fst (sm_priority (subscribe_symbols sub cnt new s)))"
    by (induction new arbitrary: s) (auto simp: Let_def distinct_update split: prod.splits)
  show "distinct (map fst (sm_priority s)) \<Longrightarrow> distinct (map fst (sm_priority (unsubscribe_symbols unsub xs s)))"
    by (induction xs arbitrary: s) (simp_all add: unsubscribe_symbols_def unsubscribe_symbol_def Let_def distinct_delete)
qed

lemma feed_act_ok:
  assumes "feed_ok mk s" and "\<And>x. CHR '':'' \<notin> set (mk x)" and "op_markets mk op"
  shows "feed_ok mk (feed_act op s)"
proof (cases op)
  case (Subscribe env new)
  then show ?thesis using assms kis_feed.subscribe_sync [of mk s new env] kis_feed.subscribe_limit [of s env new]
    by (simp add: feed_ok_def distinct_priority)
next
  case (Unsubscribe env xs)
  then show ?thesis
    using assms kis_feed.unsubscribe_all_sync [of mk s env xs] kis_feed.sync_finite [of mk s]
    by (auto simp: feed_ok_def distinct_priority intro: order_trans [OF card_mono])
next
  case (Update env new)
  then show ?thesis using assms kis_feed.update_sync [of mk s new env]
    by (simp add: feed_ok_def update_subscriptions_def Let_def distinct_priority)
next
  case (Restore env)
  have "(\<lambda>(x, m). sub_key x m) ` set (sm_priority s) \<subseteq> kw_subs (ws_connect (sm_adapter s))"
  proof clarify
    fix x m assume p: "(x, m) \<in> set (sm_priority s)"
    then have "map_of (sm_priority s) x = Some m" using assms(1) by (simp add: feed_ok_def)
    moreover have "\<forall>x m. map_of (sm_priority s) x = Some m \<longrightarrow> m = mk x"
      using assms(1) unfolding feed_ok_def in_sync_def by blast
    ultimately have m: "m = mk x" by blast
    have "kw_subs (sm_adapter s) = (\<lambda>x. sub_key x (mk x)) ` fst ` set (sm_priority s)"
      using assms(1) unfolding feed_ok_def in_sync_def by blast
    moreover have "x \<in> fst ` set (sm_priority s)" using p by (rule image_eqI [rotated]) simp
    ultimately show "sub_key x m \<in> kw_subs (ws_connect (sm_adapter s))" unfolding m by (simp add: ws_connect_def)
  qed
  then have "kw_subs (sm_adapter (feed_act op s)) = kw_subs (sm_adapter s)"
    using restore_subs Restore by (simp add: restore_def ws_connect_def)
  moreover have "sm_priority (feed_act op s) = sm_priority s" using Restore by (simp add: restore_def)
  ultimately show ?thesis using assms(1) feed_ok_frame [of "feed_act op s" s] by blast
next
  case Drop_domestic
  then show ?thesis using assms(1) feed_ok_frame [of "feed_act op s" s] by simp
next
  case Drop_overseas
  then show ?thesis using assms(1) feed_ok_frame [of "feed_act op s" s] by simp
qed

lemma feed_run_ok:
  assumes "\<And>x. CHR '':'' \<notin> set (mk x)"
  shows "feed_ok mk s \<Longrightarrow> list_all (op_markets mk) ops \<Longrightarrow> feed_ok mk (fold feed_act ops s)"
  by (induction ops arbitrary: s) (simp_all add: feed_act_ok [OF _ assms])

definition start_stream :: "kis_ws stream" where "start_stream = \<lparr>sm_priority = [], sm_adapter = new_ws\<rparr>"

lemma start_stream_ok: "feed_ok mk start_stream"
  by (simp add: feed_ok_def in_sync_def start_stream_def new_ws_def)

lemma feed_ok_market: "feed_ok mk s \<Longrightarrow> (x, m) \<in> set (sm_priority s) \<Longrightarrow> m = mk x"
proof -
  assume ok: "feed_ok mk s" and p: "(x, m) \<in> set (sm_priority s)"
  have "map_of (sm_priority s) x = Some m" using ok p by (simp add: feed_ok_def)
  moreover have "\<forall>x m. map_of (sm_priority s) x = Some m \<longrightarrow> m = mk x" using ok unfolding feed_ok_def in_sync_def by blast
  ultimately show ?thesis by blast
qed

lemma feed_ok_subs: "feed_ok mk s \<Longrightarrow> kw_subs (sm_adapter s) = (\<lambda>x. sub_key x (mk x)) ` fst ` set (sm_priority s)"
  unfolding feed_ok_def in_sync_def by blast

lemma keys_by_market: "(\<And>x m. (x, m) \<in> set ps \<Longrightarrow> m = mk x) \<Longrightarrow>
    (\<lambda>x. sub_key x (mk x)) ` fst ` set ps = (\<lambda>(x, m). sub_key x m) ` set ps"
  by (force simp: image_iff)

text \<open>With a working connection every symbol is accepted while there is room.\<close>

definition all_up :: "ws_env \<Rightarrow> bool" where
  "all_up env \<longleftrightarrow> we_domestic_up env \<and> we_overseas_up env \<and> we_send_ok env"

lemma ws_subscribe_up: "all_up env \<Longrightarrow> card (kw_subs w) < session_limit \<Longrightarrow> fst (ws_subscribe env s m w)"
  by (auto simp: ws_subscribe_def get_ws_def all_up_def split: prod.splits)

lemma subscribe_all:
  assumes up: "all_up env"
  shows "in_sync kw_subs sub_key mk s \<Longrightarrow> list_all (\<lambda>(x, m). m = mk x) new \<Longrightarrow>
    card (fst ` set (sm_priority s) \<union> fst ` set new) \<le> 41 \<Longrightarrow>
    fst ` set (sm_priority (subscribe_symbols (ws_subscribe env) subscription_count new s)) =
      fst ` set (sm_priority s) \<union> fst ` set new"
proof (induction new arbitrary: s)
  case (Cons p new)
  obtain x m where p: "p = (x, m)" by (cases p)
  let ?D = "fst ` set (sm_priority s)"
  let ?s = "s\<lparr>sm_adapter := snd (ws_subscribe env x m (sm_adapter s)), sm_priority := AList.update x m (sm_priority s)\<rparr>"
  have subs: "kw_subs (sm_adapter s) = (\<lambda>x. sub_key x (mk x)) ` ?D" using Cons.prems(1) by (simp add: in_sync_def)
  show ?case
  proof (cases "41 \<le> card (kw_subs (sm_adapter s))")
    case True
    have "card (kw_subs (sm_adapter s)) \<le> card ?D" unfolding subs by (rule card_image_le) simp
    then have "?D = ?D \<union> fst ` set (p # new)" using True Cons.prems(3) by (intro card_seteq) auto
    then have "?D \<union> fst ` set (p # new) = ?D" by (rule sym)
    moreover have "subscribe_symbols (ws_subscribe env) subscription_count (p # new) s = s"
      using True p by (simp add: subscription_count_def)
    ultimately show ?thesis by (simp only:)
  next
    case False
    then have ok: "fst (ws_subscribe env x m (sm_adapter s))"
      using up by (intro ws_subscribe_up) (simp_all add: session_limit_def)
    then have step: "subscribe_symbols (ws_subscribe env) subscription_count (p # new) s =
        subscribe_symbols (ws_subscribe env) subscription_count new ?s"
      using False p by (cases "ws_subscribe env x m (sm_adapter s)") (simp add: subscription_count_def)
    have "in_sync kw_subs sub_key mk ?s"
      using Cons.prems(1,2) ok p by (auto simp: in_sync_def update_conv' dom_update ws_subscribe_subs)
    moreover have "fst ` set (sm_priority ?s) \<union> fst ` set new = ?D \<union> fst ` set (p # new)"
      using p by (auto simp: dom_update)
    ultimately show ?thesis unfolding step using Cons.IH [of ?s] Cons.prems(2,3) by simp
  qed
qed simp

lemma dom_filter: "fst ` set (filter (\<lambda>(x, m). x \<notin> C) new) = fst ` set new - C"
  by (induction new) auto

text \<open>
  The subscriptions follow the selection. From the start, through any updates, refused or failed
  subscriptions, lost connections and restorations, the manager's table and the client's set agree
  and hold at most 41 entries; an update with a working connection leaves exactly the selected
  symbols subscribed. (Every symbol is named with one market; a market name has no colon.)
\<close>

lemma subscriptions_follow_selection:
  assumes "\<forall>x. CHR '':'' \<notin> set (mk x)" and "list_all (op_markets mk) ops"
    and "list_all (\<lambda>(x, m). m = mk x) new" and "card (fst ` set new) \<le> 41" and "all_up env"
  shows "let s = fold feed_act ops start_stream
    in card (kw_subs (sm_adapter s)) \<le> 41 \<and> kw_subs (sm_adapter s) = (\<lambda>(x, m). sub_key x m) ` set (sm_priority s) \<and>
       kw_subs (sm_adapter (feed_act (Update env new) s)) = (\<lambda>(x, m). sub_key x m) ` set new"
proof -
  have mk: "\<And>x. CHR '':'' \<notin> set (mk x)" using assms(1) by blast
  let ?s = "fold feed_act ops start_stream"
  have ok: "feed_ok mk ?s" by (rule feed_run_ok [OF mk start_stream_ok assms(2)])
  let ?cur = "map fst (sm_priority ?s)"
  let ?rem = "filter (\<lambda>x. x \<notin> fst ` set new) ?cur" and ?add = "filter (\<lambda>(x, m). x \<notin> set ?cur) new"
  let ?u = "unsubscribe_symbols (ws_unsubscribe env) ?rem ?s"
  have u: "in_sync kw_subs sub_key mk ?u" "fst ` set (sm_priority ?u) = set ?cur - set ?rem"
    using kis_feed.unsubscribe_all_sync [of mk ?s env ?rem] mk ok by (simp_all add: feed_ok_def)
  have dom: "fst ` set (sm_priority ?u) \<union> fst ` set ?add = fst ` set new"
    unfolding u(2) dom_filter by auto
  have add: "list_all (\<lambda>(x, m). m = mk x) ?add" using assms(3) by (auto simp: list_all_iff)
  have "fst ` set (sm_priority (feed_act (Update env new) ?s)) = fst ` set new"
    using subscribe_all [OF assms(5) u(1) add] dom assms(4) by (simp add: update_subscriptions_def Let_def)
  moreover have "feed_ok mk (feed_act (Update env new) ?s)" using ok mk assms(3) by (intro feed_act_ok) simp_all
  ultimately have "kw_subs (sm_adapter (feed_act (Update env new) ?s)) = (\<lambda>x. sub_key x (mk x)) ` fst ` set new"
    by (simp only: feed_ok_subs)
  also have "\<dots> = (\<lambda>(x, m). sub_key x m) ` set new" using assms(3) by (intro keys_by_market) (auto simp: list_all_iff)
  finally have new: "kw_subs (sm_adapter (feed_act (Update env new) ?s)) = (\<lambda>(x, m). sub_key x m) ` set new" .
  have "kw_subs (sm_adapter ?s) = (\<lambda>(x, m). sub_key x m) ` set (sm_priority ?s)"
    unfolding feed_ok_subs [OF ok] by (rule keys_by_market) (rule feed_ok_market [OF ok])
  moreover have "card (kw_subs (sm_adapter ?s)) \<le> 41" using ok by (simp add: feed_ok_def session_limit_def)
  ultimately show ?thesis using new by (simp only: Let_def)
qed

lemma subscriptions_follow_selection_witness:
  "kw_subs (sm_adapter (feed_act (Update \<lparr>we_domestic_up = True, we_overseas_up = True, we_send_ok = True\<rparr> [(''005930'', ''KRX'')])
     (fold feed_act [Subscribe \<lparr>we_domestic_up = True, we_overseas_up = True, we_send_ok = True\<rparr> [(''000660'', ''KRX'')], Drop_domestic]
       start_stream))) = {sub_key ''005930'' ''KRX''}"
  using subscriptions_follow_selection [of "\<lambda>_. ''KRX''"
      "[Subscribe \<lparr>we_domestic_up = True, we_overseas_up = True, we_send_ok = True\<rparr> [(''000660'', ''KRX'')], Drop_domestic]"
      "[(''005930'', ''KRX'')]" "\<lparr>we_domestic_up = True, we_overseas_up = True, we_send_ok = True\<rparr>"]
  by (simp add: all_up_def Let_def)

section \<open>A lost connection\<close>

text \<open>The updates and unsubscriptions that keep a symbol.\<close>

fun op_keeps :: "string \<Rightarrow> feed_op \<Rightarrow> bool" where
  "op_keeps x (Unsubscribe env xs) \<longleftrightarrow> x \<notin> set xs"
| "op_keeps x (Update env new) \<longleftrightarrow> x \<in> fst ` set new"
| "op_keeps x _ \<longleftrightarrow> True"

text \<open>The symbol counts as subscribed, but nothing asks for it on the domestic connection.\<close>

definition silent :: "string \<Rightarrow> string \<Rightarrow> kis_ws \<Rightarrow> bool" where
  "silent x market w \<longleftrightarrow> sub_key x market \<in> kw_subs w \<and>
     (\<forall>c. kw_domestic w = Some c \<longrightarrow> cn_open c \<longrightarrow> (True, x) \<notin> set (cn_sent c))"

lemma silent_get_ws: "silent x mx w \<Longrightarrow> silent x mx (snd (get_ws env m w))"
  by (auto simp: silent_def get_ws_def set_conn_def)

lemma silent_send: "silent x mx w \<Longrightarrow> msg \<noteq> (True, x) \<Longrightarrow> silent x mx (send m msg w)"
  by (auto simp: silent_def send_def set_conn_def conn_of_def)

lemma silent_subscribe:
  assumes "silent x mx w" and "y = x \<Longrightarrow> m = mx"
  shows "silent x mx (snd (ws_subscribe env y m w))"
proof (cases "y = x")
  case True
  then show ?thesis using assms by (simp add: ws_subscribe_def silent_def)
next
  case False
  obtain ok w1 where g: "get_ws env m w = (ok, w1)" by (cases "get_ws env m w")
  have w1: "silent x mx w1" using silent_get_ws [OF assms(1), of env m] g by simp
  then have "silent x mx (send m (True, y) w1)" using False by (intro silent_send) simp_all
  then show ?thesis using assms(1) w1 g by (auto simp: ws_subscribe_def silent_def)
qed

lemma silent_unsubscribe:
  assumes "silent x mx w" and "y \<noteq> x" and "CHR '':'' \<notin> set m" and "CHR '':'' \<notin> set mx"
  shows "silent x mx (ws_unsubscribe env y m w)"
proof -
  obtain ok w1 where g: "get_ws env m w = (ok, w1)" by (cases "get_ws env m w")
  have w1: "silent x mx w1" using silent_get_ws [OF assms(1), of env m] g by simp
  then have "silent x mx (send m (False, y) w1)" by (intro silent_send) simp_all
  moreover have "sub_key x mx \<noteq> sub_key y m" using sub_key_inj [OF assms(4,3)] assms(2) by blast
  ultimately show ?thesis using assms(1) w1 g by (auto simp: ws_unsubscribe_def Let_def silent_def)
qed

lemma silent_subscribe_symbols:
  "silent x (mk x) (sm_adapter s) \<Longrightarrow> list_all (\<lambda>(y, m). m = mk y) new \<Longrightarrow>
     silent x (mk x) (sm_adapter (subscribe_symbols (ws_subscribe env) subscription_count new s))"
proof (induction new arbitrary: s)
  case (Cons p new)
  obtain y m where p: "p = (y, m)" by (cases p)
  obtain ok a where r: "ws_subscribe env y m (sm_adapter s) = (ok, a)" by (cases "ws_subscribe env y m (sm_adapter s)")
  have "silent x (mk x) a" using silent_subscribe [OF Cons.prems(1), of y m env] Cons.prems(2) p r by simp
  then show ?case using Cons p r by simp
qed simp

lemma silent_unsubscribe_symbols:
  assumes mk: "\<And>x. CHR '':'' \<notin> set (mk x)"
  shows "feed_ok mk s \<Longrightarrow> silent x (mk x) (sm_adapter s) \<Longrightarrow> x \<notin> set xs \<Longrightarrow>
    silent x (mk x) (sm_adapter (unsubscribe_symbols (ws_unsubscribe env) xs s))"
proof (induction xs arbitrary: s)
  case (Cons y xs)
  let ?m = "case map_of (sm_priority s) y of None \<Rightarrow> ''KRX'' | Some m \<Rightarrow> m"
  have "CHR '':'' \<notin> set ?m"
    using mk feed_ok_market [OF Cons.prems(1)] by (auto split: option.splits dest!: map_of_SomeD)
  then have "silent x (mk x) (ws_unsubscribe env y ?m (sm_adapter s))"
    using Cons.prems mk by (intro silent_unsubscribe) auto
  moreover have "feed_ok mk (unsubscribe_symbol (ws_unsubscribe env) y s)"
    using feed_act_ok [OF Cons.prems(1) mk, of "Unsubscribe env [y]"] by (simp add: unsubscribe_symbols_def)
  ultimately show ?case using Cons.IH [of "unsubscribe_symbol (ws_unsubscribe env) y s"] Cons.prems(3)
    by (simp add: unsubscribe_symbols_def unsubscribe_symbol_def Let_def)
qed (simp add: unsubscribe_symbols_def)

lemma silent_restore:
  "silent x (mk x) w \<Longrightarrow> list_all (\<lambda>(y, m). m = mk y) ps \<Longrightarrow>
     silent x (mk x) (fold (\<lambda>(y, m) a. snd (ws_subscribe env y m a)) ps w)"
proof (induction ps arbitrary: w)
  case (Cons p ps)
  obtain y m where p: "p = (y, m)" by (cases p)
  have "silent x (mk x) (snd (ws_subscribe env y m w))"
    using silent_subscribe [OF Cons.prems(1), of y m env] Cons.prems(2) p by simp
  then show ?case using Cons.IH Cons.prems(2) p by simp
qed simp

lemma silent_act:
  assumes ok: "feed_ok mk s" and mk: "\<And>x. CHR '':'' \<notin> set (mk x)" and "op_markets mk op" "op_keeps x op"
    and "silent x (mk x) (sm_adapter s)"
  shows "silent x (mk x) (sm_adapter (feed_act op s))"
proof (cases op)
  case (Subscribe env new)
  then show ?thesis using assms silent_subscribe_symbols by simp
next
  case (Unsubscribe env xs)
  then show ?thesis using assms silent_unsubscribe_symbols [OF mk ok] by simp
next
  case (Update env new)
  let ?rem = "filter (\<lambda>x. x \<notin> fst ` set new) (map fst (sm_priority s))"
  have "silent x (mk x) (sm_adapter (unsubscribe_symbols (ws_unsubscribe env) ?rem s))"
    using assms Update by (intro silent_unsubscribe_symbols [OF mk ok]) simp_all
  moreover have "list_all (\<lambda>(y, m). m = mk y) (filter (\<lambda>(x, m). x \<notin> set (map fst (sm_priority s))) new)"
    using assms(3) Update by (auto simp: list_all_iff)
  ultimately show ?thesis using Update silent_subscribe_symbols by (simp add: update_subscriptions_def Let_def)
next
  case (Restore env)
  have "list_all (\<lambda>(y, m). m = mk y) (sm_priority s)" using feed_ok_market [OF ok] by (auto simp: list_all_iff)
  moreover have "silent x (mk x) (ws_connect (sm_adapter s))" using assms(5) by (simp add: silent_def ws_connect_def)
  ultimately show ?thesis using Restore silent_restore by (simp add: restore_def)
qed (use assms(5) in \<open>auto simp: silent_def closed_def\<close>)

lemma silent_run:
  assumes mk: "\<And>x. CHR '':'' \<notin> set (mk x)"
  shows "feed_ok mk s \<Longrightarrow> silent x (mk x) (sm_adapter s) \<Longrightarrow> list_all (\<lambda>op. op_markets mk op \<and> op_keeps x op) ops \<Longrightarrow>
    silent x (mk x) (sm_adapter (fold feed_act ops s))"
proof (induction ops arbitrary: s)
  case (Cons op ops)
  then have "op_markets mk op" "op_keeps x op" by simp_all
  then show ?case using Cons.IH [OF feed_act_ok [OF Cons.prems(1) mk] silent_act [OF Cons.prems(1) mk]] Cons.prems by simp
qed simp

text \<open>
  After the domestic connection is lost, a symbol that stays in the selection is never asked for
  again: whatever updates, subscriptions and restorations follow, the client still counts it as
  subscribed and no open connection has been sent a subscription for it.
\<close>

lemma lost_subscription_never_resent:
  assumes "\<forall>x. CHR '':'' \<notin> set (mk x)" and "list_all (op_markets mk) before"
    and "list_all (\<lambda>op. op_markets mk op \<and> op_keeps x op) after"
    and "x \<in> fst ` set (sm_priority (fold feed_act before start_stream))"
  shows "silent x (mk x) (sm_adapter (fold feed_act (before @ Drop_domestic # after) start_stream))"
proof -
  have mk: "\<And>x. CHR '':'' \<notin> set (mk x)" using assms(1) by blast
  let ?s = "fold feed_act before start_stream"
  have ok: "feed_ok mk ?s" by (rule feed_run_ok [OF mk start_stream_ok assms(2)])
  have "sub_key x (mk x) \<in> kw_subs (sm_adapter ?s)" unfolding feed_ok_subs [OF ok] using assms(4) by blast
  then have "silent x (mk x) (sm_adapter (feed_act Drop_domestic ?s))"
    by (auto simp: silent_def closed_def)
  moreover have "feed_ok mk (feed_act Drop_domestic ?s)" by (rule feed_act_ok [OF ok mk]) simp
  ultimately show ?thesis using silent_run [OF mk _ _ assms(3)] by simp
qed

lemma lost_subscription_never_resent_witness:
  "silent ''005930'' ''KRX'' (sm_adapter (fold feed_act
     ([Subscribe \<lparr>we_domestic_up = True, we_overseas_up = True, we_send_ok = True\<rparr> [(''005930'', ''KRX'')]] @ Drop_domestic #
      [Restore \<lparr>we_domestic_up = True, we_overseas_up = True, we_send_ok = True\<rparr>]) start_stream))"
proof -
  let ?env = "\<lparr>we_domestic_up = True, we_overseas_up = True, we_send_ok = True\<rparr>"
  have "''005930'' \<in> fst ` set (sm_priority (fold feed_act [Subscribe ?env [(''005930'', ''KRX'')]] start_stream))"
    by (simp add: start_stream_def new_ws_def subscription_count_def ws_subscribe_def get_ws_def session_limit_def)
  then show ?thesis
    using lost_subscription_never_resent [of "\<lambda>_. ''KRX''" "[Subscribe ?env [(''005930'', ''KRX'')]]" "''005930''" "[Restore ?env]"]
    by simp
qed

section \<open>The monitor\<close>

datatype monitor_op = Monitor_start bool bool real | Monitor_stop | Price real | Health bool bool bool real

fun monitor_act :: "monitor_op \<Rightarrow> monitor \<Rightarrow> monitor" where
  "monitor_act (Monitor_start q h now) m = monitor_start q h now m"
| "monitor_act Monitor_stop m = monitor_stop m"
| "monitor_act (Price now) m = monitor_price now m"
| "monitor_act (Health q h up now) m = health_tick q h up now m"

lemmas monitor_defs = monitor_start_def monitor_stop_def monitor_price_def health_tick_def
  start_polling_task_def stop_polling_task_def Let_def

lemma polling_iff_task: "mo_polling m = mo_poll_task m \<Longrightarrow> mo_polling (monitor_act op m) = mo_poll_task (monitor_act op m)"
  by (cases op) (simp_all add: monitor_defs)

text \<open>After any run, a health check during trading hours leaves the program with a price source.\<close>

lemma never_blind:
  assumes "mo_polling m = mo_poll_task m" and "m' = fold monitor_act ops m" and "mo_running m'"
  shows "let m'' = health_tick q True up now m'
    in mo_polling m'' = mo_poll_task m'' \<and> (mo_polling m'' \<or> q \<and> up \<and> now - mo_last_data m'' \<le> ws_stale_threshold_sec)"
proof -
  have "mo_polling (fold monitor_act ops m) = mo_poll_task (fold monitor_act ops m)"
    using assms(1) by (induction ops arbitrary: m) (simp_all add: polling_iff_task)
  then show ?thesis using assms(2,3) by (simp add: monitor_defs not_less)
qed

section \<open>The bus\<close>

text \<open>A handler together with the record of its calls.\<close>

definition logged ::
  "('h \<Rightarrow> 'e \<Rightarrow> 's \<Rightarrow> unit res \<times> 'e list \<times> 's) \<Rightarrow> 'h \<Rightarrow> 'e \<Rightarrow> ('e \<times> 'h) list \<times> 's \<Rightarrow> unit res \<times> 'e list \<times> ('e \<times> 'h) list \<times> 's" where
  "logged run h e ls = (let (r, es, s) = run h e (snd ls) in (r, es, fst ls @ [(e, h)], s))"

lemma publish_all: "bus_handlers (fold bus_publish es b) = bus_handlers b" "bus_queue (fold bus_publish es b) = bus_queue b @ es"
  by (induction es arbitrary: b) (simp_all add: bus_publish_def)

lemma run_handlers_log:
  "\<exists>es s. run_handlers (logged run) e hs (b, calls, s0) = (fold bus_publish es b, calls @ map (Pair e) hs, s)"
proof (induction hs arbitrary: b calls s0)
  case Nil
  have "run_handlers (logged run) e [] (b, calls, s0) = (fold bus_publish [] b, calls @ map (Pair e) [], s0)" by simp
  then show ?case by blast
next
  case (Cons h hs)
  obtain r es s1 where h: "run h e s0 = (r, es, s1)" by (metis prod_cases3)
  obtain es' s where "run_handlers (logged run) e hs (fold bus_publish es b, calls @ [(e, h)], s1) =
      (fold bus_publish es' (fold bus_publish es b), (calls @ [(e, h)]) @ map (Pair e) hs, s)"
    using Cons.IH by blast
  then have "run_handlers (logged run) e (h # hs) (b, calls, s0) =
      (fold bus_publish (es @ es') b, calls @ map (Pair e) (h # hs), s)"
    by (simp add: logged_def h)
  then show ?case by blast
qed

text \<open>
  Every event in the queue reaches every handler registered for it, once and in order, whatever the
  handlers raise and publish.
\<close>

lemma bus_delivers:
  assumes "bus_queue b = es @ later"
  shows "\<exists>new s. (process_event (logged run) type_of ^^ length es) (b, calls, s0) =
    (b\<lparr>bus_queue := later @ new\<rparr>, calls @ concat (map (\<lambda>e. map (Pair e) (bus_handlers b (type_of e))) es), s)"
  using assms
proof (induction es arbitrary: b calls s0 later)
  case Nil
  then have "(process_event (logged run) type_of ^^ length []) (b, calls, s0) =
    (b\<lparr>bus_queue := later @ []\<rparr>, calls @ concat (map (\<lambda>e. map (Pair e) (bus_handlers b (type_of e))) []), s0)" by simp
  then show ?case by blast
next
  case (Cons e es)
  let ?hs = "bus_handlers b (type_of e)"
  let ?b = "b\<lparr>bus_queue := es @ later\<rparr>"
  obtain new s where step: "run_handlers (logged run) e ?hs (?b, calls, s0) =
      (fold bus_publish new ?b, calls @ map (Pair e) ?hs, s)"
    using run_handlers_log [of run e ?hs ?b calls s0] by blast
  have same: "fold bus_publish new ?b = b\<lparr>bus_queue := es @ later @ new\<rparr>"
    by (induction new rule: rev_induct) (simp_all add: bus_publish_def)
  have one: "process_event (logged run) type_of (b, calls, s0) =
      (b\<lparr>bus_queue := es @ later @ new\<rparr>, calls @ map (Pair e) ?hs, s)"
    using Cons.prems step same by (simp add: process_event_def)
  obtain new' s' where "(process_event (logged run) type_of ^^ length es)
      (b\<lparr>bus_queue := es @ later @ new\<rparr>, calls @ map (Pair e) ?hs, s) =
      (b\<lparr>bus_queue := (later @ new) @ new'\<rparr>, (calls @ map (Pair e) ?hs) @
        concat (map (\<lambda>e. map (Pair e) (bus_handlers b (type_of e))) es), s')"
    using Cons.IH [of "b\<lparr>bus_queue := es @ later @ new\<rparr>" "later @ new" "calls @ map (Pair e) ?hs" s] by auto
  then show ?case using one by (simp add: funpow_Suc_right del: funpow.simps) blast
qed

end
