(* ===== verification/Liquidation.thy ===== *)
theory Liquidation
  imports Agent Realtime "HOL-Library.Sublist"
begin

text \<open>
  The scheduled jobs that sell (\<open>scheduler/scheduler.py\<close>): the check of the holdings' prices, the
  check for gaps at the opening, the review of the holdings by the model, the liquidation before the
  close with its choice of what to keep overnight, the check of the overnight positions, and the
  gate in front of a new scan after a sale. The broker's answers, the model's decisions, the clock
  and the calendar's answers are arguments; texts, alerts and activity records are left out.
\<close>

section \<open>A market sell\<close>

record market_sell =
  ms_success :: bool
  ms_order_id :: string
  ms_message :: string

datatype sell_outcome = In_progress | Answered market_sell | Raised py_exn

record sched_env =
  se_dm :: dm_env
  se_holdings :: "holding_info list res"
  se_pending :: "pending_order_info list res"
  se_price :: "string \<Rightarrow> real res"
  se_ws :: ws_env

record sched_state = exit_state +
  ss_stream :: "kis_ws stream"
  ss_rescans :: nat

definition place_market_sell ::
  "settings \<Rightarrow> dm_env \<Rightarrow> string \<Rightarrow> int \<Rightarrow> dm_state \<Rightarrow> market_sell res \<times> dm_state" where
  "place_market_sell cfg env symbol quantity st =
     (let sd = decide_order_submission cfg ''SELL''
      in if \<not> sd_allowed sd then (Inr \<lparr>ms_success = False, ms_order_id = [], ms_message = sd_reason sd\<rparr>, st)
         else case validate_order_request (exit_request symbol quantity) of
             Inl e \<Rightarrow> (Inl e, st)
           | Inr req \<Rightarrow>
               (case env_place env req of
                  Inl e \<Rightarrow> Inl e
                | Inr r \<Rightarrow> Inr \<lparr>ms_success = ores_success r, ms_order_id = ostr (ores_order_id r), ms_message = ores_message r\<rparr>,
                st\<lparr>dm_placed := dm_placed st @ [req]\<rparr>))"

text \<open>
  The block the three checks share: lock, sell, and after a success forget the watched levels and wait
  for the confirmation. The lock is released in every case; \<open>rescan\<close> says whether a success starts
  a new scan.
\<close>

definition sell_and_record ::
  "settings \<Rightarrow> dm_env \<Rightarrow> string \<Rightarrow> int \<Rightarrow> real \<Rightarrow> string \<Rightarrow> bool \<Rightarrow> sched_state \<Rightarrow> sell_outcome \<times> sched_state" where
  "sell_and_record cfg env symbol quantity price exit_reason rescan x =
     (let (ok, ag) = acquire_sell symbol (xs_agent x)
      in if \<not> ok then (In_progress, x)
         else
           let (r, dm) = place_market_sell cfg env symbol quantity (xs_dm x);
               x1 = x\<lparr>xs_agent := release_sell symbol ag, xs_dm := dm\<rparr>
           in case r of
                Inl e \<Rightarrow> (Raised e, x1)
              | Inr ms \<Rightarrow>
                  (Answered ms,
                   if ms_success ms
                   then x1\<lparr>xs_detector := remove_levels symbol (xs_detector x),
                           xs_dm := confirm_and_record env (exit_task symbol (ms_order_id ms) quantity price exit_reason) dm,
                           ss_rescans := ss_rescans x + (if rescan then 1 else 0)\<rparr>
                   else x1))"

section \<open>The check of the holdings\<close>

datatype sell_cause = Stop_reached | Profit_reached | Early_profit | Early_loss

definition minutes_left :: "int \<Rightarrow> int \<Rightarrow> pydt \<Rightarrow> int" where
  "minutes_left hour minute now =
     max 0 (py_int (of_int ((hour * 60 + minute) * minute_us - dt_tod now) / of_int minute_us))"

definition pnl_rate :: "real \<Rightarrow> real \<Rightarrow> real" where
  "pnl_rate avg current = (current - avg) / avg * 100"

definition check_cause :: "settings \<Rightarrow> int \<Rightarrow> stock_thresholds \<Rightarrow> real \<Rightarrow> real \<Rightarrow> sell_cause option" where
  "check_cause cfg mins th avg current =
     (let rate = pnl_rate avg current;
          stop_loss_pct = (if 0 < th_stop_loss th then pnl_rate avg (th_stop_loss th) else - 3);
          take_profit_pct = (if 0 < th_take_profit th then pnl_rate avg (th_take_profit th) else 5)
      in if rate \<le> stop_loss_pct then Some Stop_reached
         else if take_profit_pct \<le> rate then Some Profit_reached
         else if DAY_TRADING_ONLY cfg then
           (if mins \<le> 60 \<and> 1 < rate then Some Early_profit
            else if mins \<le> 30 \<and> rate < - 1 then Some Early_loss else None)
         else None)"

text \<open>A price that cannot be read ends the loop: the exception reaches the handler of the job.\<close>

fun check_each :: "settings \<Rightarrow> int \<Rightarrow> sched_env \<Rightarrow> holding_info list \<Rightarrow> sched_state \<Rightarrow> sched_state" where
  "check_each cfg mins env [] x = x"
| "check_each cfg mins env (h # hs) x =
     (if hi_avg_buy_price h \<le> 0 \<or> hi_quantity h \<le> 0 then check_each cfg mins env hs x
      else case se_price env (hi_symbol h) of
        Inl e \<Rightarrow> x
      | Inr current \<Rightarrow>
          if current \<le> 0 then check_each cfg mins env hs x
          else if check_cause cfg mins (get_thresholds (hi_symbol h) (xs_detector x)) (hi_avg_buy_price h) current \<noteq> None
               \<and> TRADING_ENABLED cfg
          then check_each cfg mins env hs
                 (snd (sell_and_record cfg (se_dm env) (hi_symbol h) (hi_quantity h) current ''HOLDINGS_CHECK'' True x))
          else check_each cfg mins env hs x)"

definition update_realtime_subscriptions :: "sched_env \<Rightarrow> sched_state \<Rightarrow> sched_state" where
  "update_realtime_subscriptions env x =
     (case se_holdings env of
        Inl e \<Rightarrow> x
      | Inr hs \<Rightarrow>
          if hs = [] then x
          else x\<lparr>ss_stream := update_subscriptions (ws_subscribe (se_ws env)) (ws_unsubscribe (se_ws env)) subscription_count
                   (map (\<lambda>h. (hi_symbol h, ''KRX'')) (filter (\<lambda>h. hi_symbol h \<noteq> []) hs)) (ss_stream x)\<rparr>)"

definition holdings_check :: "settings \<Rightarrow> int \<times> int \<Rightarrow> bool \<Rightarrow> sched_env \<Rightarrow> sched_state \<Rightarrow> sched_state" where
  "holdings_check cfg close session env x =
     (if \<not> session then x
      else case se_holdings env of
        Inl e \<Rightarrow> x
      | Inr hs \<Rightarrow>
          if hs = [] then x
          else check_each cfg (minutes_left (fst close) (snd close) (env_now (se_dm env))) env hs
                 (update_realtime_subscriptions env x))"

section \<open>The gap check\<close>

text \<open>The dict over the open rows, newest first: the last row of a symbol wins.\<close>

definition open_map :: "db \<Rightarrow> string \<Rightarrow> trade_result option" where
  "open_map s = map_of (rev (map (\<lambda>r. (tr_symbol r, r)) (get_all_open s)))"

definition gap_cause :: "trade_result \<Rightarrow> real \<Rightarrow> sell_cause option" where
  "gap_cause tr current =
     (if opt_or (tr_ai_stop tr) 0 \<noteq> 0 \<and> current \<le> opt_or (tr_ai_stop tr) 0 then Some Stop_reached
      else if opt_or (tr_ai_target tr) 0 \<noteq> 0 \<and> opt_or (tr_ai_target tr) 0 \<le> current then Some Profit_reached
      else None)"

text \<open>An order that raises ends the loop as well: there is no handler inside.\<close>

fun gap_each ::
  "settings \<Rightarrow> sched_env \<Rightarrow> (string \<Rightarrow> trade_result option) \<Rightarrow> holding_info list \<Rightarrow> sched_state \<Rightarrow> sched_state" where
  "gap_each cfg env rows [] x = x"
| "gap_each cfg env rows (h # hs) x =
     (if hi_quantity h \<le> 0 then gap_each cfg env rows hs x
      else case rows (hi_symbol h) of
        None \<Rightarrow> gap_each cfg env rows hs x
      | Some tr \<Rightarrow>
          (case se_price env (hi_symbol h) of
             Inl e \<Rightarrow> x
           | Inr current \<Rightarrow>
               if current \<le> 0 then gap_each cfg env rows hs x
               else if gap_cause tr current \<noteq> None \<and> TRADING_ENABLED cfg then
                 (let (r, x') = sell_and_record cfg (se_dm env) (hi_symbol h) (hi_quantity h) current ''GAP_CHECK'' False x
                  in case r of Raised e \<Rightarrow> x' | _ \<Rightarrow> gap_each cfg env rows hs x')
               else gap_each cfg env rows hs x))"

definition check_overnight_gap :: "settings \<Rightarrow> sched_env \<Rightarrow> sched_state \<Rightarrow> sched_state" where
  "check_overnight_gap cfg env x =
     (case se_holdings env of
        Inl e \<Rightarrow> x
      | Inr hs \<Rightarrow>
          if hs = [] \<or> \<not> env_db_up (se_dm env) then x
          else gap_each cfg env (open_map (dm_db (xs_dm x))) hs x)"

section \<open>Overnight positions\<close>

definition held_symbols :: "holding_info list \<Rightarrow> string set" where
  "held_symbols hs = hi_symbol ` set (filter (\<lambda>h. 0 < hi_quantity h) hs)"

text \<open>An open row without shares behind it is closed at the current price, if there is one.\<close>

definition close_orphan :: "pydt \<Rightarrow> (string \<Rightarrow> real res) \<Rightarrow> trade_result \<Rightarrow> trade_result res" where
  "close_orphan now price tr =
     (let tr1 = tr\<lparr>tr_exit_at := Some now, tr_exit_reason := ''ORPHAN_CLEANUP''\<rparr>;
          exit_price = (case price (tr_symbol tr) of Inl e \<Rightarrow> 0 | Inr p \<Rightarrow> p);
          pnl = (exit_price - tr_entry_price tr) * of_int (tr_quantity tr)
      in if 0 < exit_price \<and> 0 < tr_entry_price tr
         then rbind (hold_days_of now (tr_entry_at tr)) (\<lambda>days.
                Inr (tr1\<lparr>tr_exit_price := exit_price, tr_pnl := pnl,
                         tr_return_pct := py_round 2 ((exit_price - tr_entry_price tr) / tr_entry_price tr * 100),
                         tr_is_win := 0 < pnl, tr_hold_days := days\<rparr>))
         else Inr tr1)"

fun close_orphans ::
  "pydt \<Rightarrow> (string \<Rightarrow> real res) \<Rightarrow> string set \<Rightarrow> trade_result list \<Rightarrow> db \<Rightarrow> db res" where
  "close_orphans now price actual [] s = Inr s"
| "close_orphans now price actual (tr # trs) s =
     (if tr_symbol tr \<in> actual then close_orphans now price actual trs s
      else rbind (close_orphan now price tr) (\<lambda>tr'. close_orphans now price actual trs (db_put tr' s)))"

definition restored_levels :: "trade_result \<Rightarrow> (threshold_key \<times> real option) list" where
  "restored_levels tr =
     (if 0 < opt_or (tr_ai_stop tr) 0 then [(Stop_loss_price, tr_ai_stop tr)] else []) @
     (if 0 < opt_or (tr_ai_target tr) 0 then [(Take_profit_price, tr_ai_target tr)] else [])"

definition restore_levels :: "trade_result \<Rightarrow> detector \<Rightarrow> detector" where
  "restore_levels tr d = (if restored_levels tr = [] then d else set_thresholds (tr_symbol tr) (restored_levels tr) d)"

definition check_overnight_positions :: "sched_env \<Rightarrow> sched_state \<Rightarrow> sched_state" where
  "check_overnight_positions env x =
     (let dm = xs_dm x; s = dm_db dm; open_rows = get_all_open s;
          actual = (case se_holdings env of Inl e \<Rightarrow> tr_symbol ` set open_rows | Inr hs \<Rightarrow> held_symbols hs);
          kept = filter (\<lambda>tr. tr_symbol tr \<in> actual) open_rows
      in if \<not> env_db_up (se_dm env) \<or> open_rows = [] then x
         else case close_orphans (env_now (se_dm env)) (se_price env) actual open_rows s of
             Inl e \<Rightarrow> x
           | Inr s' \<Rightarrow>
               x\<lparr>xs_dm := dm\<lparr>dm_db := (if kept = open_rows then s else db_commit s')\<rparr>,
                 xs_detector := fold restore_levels kept (xs_detector x)\<rparr>)"

section \<open>What the program knows of a holding\<close>

type_synonym holding_data = "holding_info \<times> trade_result \<times> real"

fun collect_holdings_data ::
  "sched_env \<Rightarrow> db \<Rightarrow> holding_info list \<Rightarrow> holding_data list \<times> holding_info list" where
  "collect_holdings_data env s [] = ([], [])"
| "collect_holdings_data env s (h # hs) =
     (let (ds, fs) = collect_holdings_data env s hs
      in case se_price env (hi_symbol h) of
           Inl e \<Rightarrow> (ds, h # fs)
         | Inr p \<Rightarrow>
             if p \<le> 0 \<or> \<not> env_db_up (se_dm env) then (ds, h # fs)
             else case get_open_buy (hi_symbol h) s of
                 None \<Rightarrow> (ds, h # fs)
               | Some tr \<Rightarrow> ((h, tr, p) # ds, fs))"

definition data_symbol :: "holding_data \<Rightarrow> string" where "data_symbol d = hi_symbol (fst d)"

definition holdings_map :: "holding_data list \<Rightarrow> string \<Rightarrow> holding_data option" where
  "holdings_map ds = map_of (rev (map (\<lambda>d. (data_symbol d, d)) ds))"

section \<open>Liquidation\<close>

text \<open>
  The model's decisions, as far as they could be read: the symbol and the action, if given. A
  symbol it does not mention is decided by the rules of the overnight policy.
\<close>

type_synonym decisions = "(string \<times> string option) list"

definition action_for :: "string \<Rightarrow> decisions \<Rightarrow> string \<Rightarrow> string option" where
  "action_for default_action ds symbol =
     map_option (\<lambda>a. upper (case a of None \<Rightarrow> default_action | Some s \<Rightarrow> s)) (map_of (rev ds) symbol)"

definition keeps_overnight :: "settings \<Rightarrow> pydt \<Rightarrow> decisions \<Rightarrow> holding_data \<Rightarrow> bool" where
  "keeps_overnight cfg now llm d =
     (case action_for ''SELL'' llm (data_symbol d) of
        Some a \<Rightarrow> a = ''HOLD''
      | None \<Rightarrow> fst (evaluate_overnight_hold cfg now (fst d) (Some (fst (snd d))) (snd (snd d))) = Hold)"

definition smart_liquidation ::
  "settings \<Rightarrow> sched_env \<Rightarrow> decisions \<Rightarrow> db \<Rightarrow> holding_info list \<Rightarrow> holding_info list \<times> holding_info list" where
  "smart_liquidation cfg env llm s sellable =
     (let (ds, fallback_sell) = collect_holdings_data env s sellable;
          row = (\<lambda>d. case holdings_map ds (data_symbol d) of None \<Rightarrow> d | Some d' \<Rightarrow> d');
          keeps = (\<lambda>d. keeps_overnight cfg (env_now (se_dm env)) llm (row d))
      in (fallback_sell @ map (\<lambda>d. fst (row d)) (filter (\<lambda>d. \<not> keeps d) ds), map (\<lambda>d. fst (row d)) (filter keeps ds)))"

text \<open>The quantity of a symbol that open sell orders already claim (their side in Korean, UTF-8).\<close>

definition kr_sell :: string where
  "kr_sell = [CHR 0xEB, CHR 0xA7, CHR 0xA4, CHR 0xEB, CHR 0x8F, CHR 0x84]"

definition pending_sell_qty :: "pending_order_info list \<Rightarrow> string \<Rightarrow> int" where
  "pending_sell_qty orders symbol =
     sum_list (map (\<lambda>p. max (po_remaining_qty p) 0)
       (filter (\<lambda>p. po_side p = kr_sell \<and> po_symbol p = symbol \<and> po_symbol p \<noteq> [] \<and> 0 < max (po_remaining_qty p) 0) orders))"

definition adjust_sellable :: "pending_order_info list \<Rightarrow> holding_info list \<Rightarrow> holding_info list" where
  "adjust_sellable orders hs =
     concat (map (\<lambda>h. let available = max (hi_quantity h - pending_sell_qty orders (hi_symbol h)) 0
                      in if hi_quantity h \<le> 0 \<or> available \<le> 0 then [] else [h\<lparr>hi_quantity := available\<rparr>]) hs)"

text \<open>
  \<open>asyncio.gather\<close> over \<open>_sell_one\<close>: the tasks start in order, each runs until it waits for the
  broker, and the locks of those that wait are released when the answers have come. A task that is
  refused, blocked or fails before its order is sent releases at once.
\<close>

fun start_sells ::
  "settings \<Rightarrow> dm_env \<Rightarrow> holding_info list \<Rightarrow> agent_state \<times> dm_state \<Rightarrow>
     (sell_outcome \<times> holding_info) list \<times> string list \<times> agent_state \<times> dm_state" where
  "start_sells cfg env [] st = ([], [], st)"
| "start_sells cfg env (h # hs) (ag, dm) =
     (let (ok, ag1) = acquire_sell (hi_symbol h) ag
      in if \<not> ok then (let (rs, ls, st) = start_sells cfg env hs (ag, dm) in ((In_progress, h) # rs, ls, st))
         else
           let (r, dm1) = place_market_sell cfg env (hi_symbol h) (hi_quantity h) dm;
               waits = (dm_placed dm1 \<noteq> dm_placed dm);
               ag2 = (if waits then ag1 else release_sell (hi_symbol h) ag1);
               out = (case r of Inl e \<Rightarrow> Raised e | Inr ms \<Rightarrow> Answered ms);
               (rs, ls, st) = start_sells cfg env hs (ag2, dm1)
           in ((out, h) # rs, if waits then hi_symbol h # ls else ls, st))"

definition gather_sells ::
  "settings \<Rightarrow> dm_env \<Rightarrow> holding_info list \<Rightarrow> agent_state \<times> dm_state \<Rightarrow>
     (sell_outcome \<times> holding_info) list \<times> agent_state \<times> dm_state" where
  "gather_sells cfg env hs st = (let (rs, ls, ag, dm) = start_sells cfg env hs st in (rs, fold release_sell ls ag, dm))"

definition record_liquidation_sell :: "dm_env \<Rightarrow> holding_info \<Rightarrow> market_sell \<Rightarrow> dm_state \<Rightarrow> dm_state" where
  "record_liquidation_sell env h ms st =
     (if ms_order_id ms = [] then st
      else confirm_and_record env (exit_task (hi_symbol h) (ms_order_id ms) (hi_quantity h) (hi_current_price h) ''FORCE_LIQUIDATION'') st)"

text \<open>The answers of the first round: what was sold, and what failed and is tried again.\<close>

fun settle_first ::
  "dm_env \<Rightarrow> (sell_outcome \<times> holding_info) list \<Rightarrow> dm_state \<Rightarrow> nat \<times> holding_info list \<times> dm_state" where
  "settle_first env [] st = (0, [], st)"
| "settle_first env ((Answered ms, h) # rs) st =
     (if ms_success ms
      then (let (n, fs, st') = settle_first env rs (record_liquidation_sell env h ms st) in (n + 1, fs, st'))
      else (let (n, fs, st') = settle_first env rs st in (n, h # fs, st')))"
| "settle_first env (r # rs) st = settle_first env rs st"

text \<open>In the second round an order that found the lock taken has no answer, and reading its success
  raises: \<open>None\<close>.\<close>

fun settle_retry ::
  "dm_env \<Rightarrow> (sell_outcome \<times> holding_info) list \<Rightarrow> dm_state \<Rightarrow> nat option \<times> dm_state" where
  "settle_retry env [] st = (Some 0, st)"
| "settle_retry env ((Answered ms, h) # rs) st =
     (if ms_success ms
      then (let (n, st') = settle_retry env rs (record_liquidation_sell env h ms st) in (map_option Suc n, st'))
      else settle_retry env rs st)"
| "settle_retry env ((Raised e, h) # rs) st = settle_retry env rs st"
| "settle_retry env ((In_progress, h) # rs) st = (None, st)"

text \<open>\<open>retry\<close> is the broker five seconds later.\<close>

definition liquidate_all ::
  "settings \<Rightarrow> dm_env \<Rightarrow> dm_env \<Rightarrow> holding_info list \<Rightarrow> holding_info list \<Rightarrow> sched_state \<Rightarrow> sched_state" where
  "liquidate_all cfg env retry holdings to_sell x =
     (let (rs, ag1, dm1) = gather_sells cfg env to_sell (xs_agent x, xs_dm x);
          (sold, failed, dm2) = settle_first env rs dm1;
          (rs2, ag2, dm3) = (if failed = [] then ([], ag1, dm2) else gather_sells cfg retry failed (ag1, dm2));
          (more, dm4) = settle_retry retry rs2 dm3;
          x1 = x\<lparr>xs_agent := ag2, xs_dm := dm4\<rparr>
      in case more of
           None \<Rightarrow> x1
         | Some m \<Rightarrow>
             x1\<lparr>ss_rescans := ss_rescans x + (if \<not> DAY_TRADING_ONLY cfg \<and> 0 < sold + m then 1 else 0),
                xs_detector := fold remove_levels
                  (filter (\<lambda>s. s \<in> hi_symbol ` set to_sell) (map hi_symbol holdings)) (xs_detector x)\<rparr>)"

definition force_liquidation ::
  "settings \<Rightarrow> bool \<Rightarrow> sched_env \<Rightarrow> dm_env \<Rightarrow> decisions \<Rightarrow> sched_state \<Rightarrow> sched_state" where
  "force_liquidation cfg holiday env retry llm x =
     (if holiday \<or> \<not> TRADING_ENABLED cfg then x
      else case (se_holdings env, se_pending env) of
        (Inr hs, Inr orders) \<Rightarrow>
          (let sellable = adjust_sellable orders hs;
               (to_sell, to_hold) = (if DAY_TRADING_ONLY cfg then (sellable, [])
                                     else smart_liquidation cfg env llm (dm_db (xs_dm x)) sellable)
           in if hs = [] \<or> sellable = [] \<or> to_sell = [] then x else liquidate_all cfg (se_dm env) retry hs to_sell x)
      | _ \<Rightarrow> x)"

section \<open>The review of the holdings\<close>

record review_decision =
  rd_action :: "string option"
  rd_stop :: "real option"
  rd_target :: "real option"

text \<open>A level counts if the answer holds a number above zero.\<close>

definition positive_num :: "real option \<Rightarrow> real option" where
  "positive_num j = (case j of None \<Rightarrow> None | Some v \<Rightarrow> if 0 < v then Some v else None)"

definition review_levels :: "review_decision option \<Rightarrow> (threshold_key \<times> real option) list" where
  "review_levels d =
     (case d of None \<Rightarrow> [] | Some d \<Rightarrow>
       (case positive_num (rd_stop d) of None \<Rightarrow> [] | Some v \<Rightarrow> [(Stop_loss_price, Some v)]) @
       (case positive_num (rd_target d) of None \<Rightarrow> [] | Some v \<Rightarrow> [(Take_profit_price, Some v)]))"

definition review_row :: "review_decision \<Rightarrow> trade_result \<Rightarrow> trade_result" where
  "review_row d tr =
     tr\<lparr>tr_ai_stop := (case positive_num (rd_stop d) of None \<Rightarrow> tr_ai_stop tr | Some v \<Rightarrow> Some v),
        tr_ai_target := (case positive_num (rd_target d) of None \<Rightarrow> tr_ai_target tr | Some v \<Rightarrow> Some v)\<rparr>"

definition review_action :: "settings \<Rightarrow> pydt \<Rightarrow> review_decision option \<Rightarrow> holding_data \<Rightarrow> string" where
  "review_action cfg now decision d =
     (case decision of
        Some r \<Rightarrow> upper (case rd_action r of None \<Rightarrow> ''HOLD'' | Some a \<Rightarrow> a)
      | None \<Rightarrow> (if fst (evaluate_overnight_hold cfg now (fst d) (Some (fst (snd d))) (snd (snd d))) = Hold
                 then ''HOLD'' else ''SELL''))"

text \<open>The levels go to the event detector and to the newest open row of the symbol.\<close>

definition adjust_levels :: "dm_env \<Rightarrow> string \<Rightarrow> review_decision option \<Rightarrow> sched_state \<Rightarrow> sched_state" where
  "adjust_levels env symbol decision x =
     (case decision of
        None \<Rightarrow> x
      | Some r \<Rightarrow>
          if review_levels (Some r) = [] then x
          else x\<lparr>xs_detector := set_thresholds symbol (review_levels (Some r)) (xs_detector x),
                 xs_dm := (xs_dm x)\<lparr>dm_db := snd (db_session env (\<lambda>s.
                     case get_open_buy symbol s of
                       None \<Rightarrow> Inr ((), s)
                     | Some tr \<Rightarrow> Inr ((), db_put (review_row r tr) s)) (dm_db (xs_dm x)))\<rparr>\<rparr>)"

text \<open>
  The call for \<open>ADD_BUY\<close> passes keyword arguments that \<open>_analyze_and_trade\<close> does not have: it raises
  a \<open>TypeError\<close> and the handler of the whole job ends the loop.
\<close>

fun review_each ::
  "settings \<Rightarrow> dm_env \<Rightarrow> (string \<Rightarrow> review_decision option) \<Rightarrow> (string \<Rightarrow> holding_data option) \<Rightarrow> holding_data list \<Rightarrow>
     sched_state \<Rightarrow> sched_state" where
  "review_each cfg env llm hmap [] x = x"
| "review_each cfg env llm hmap (d # ds) x =
     (let symbol = data_symbol d; row = (case hmap symbol of None \<Rightarrow> d | Some d' \<Rightarrow> d'); decision = llm symbol;
          action = review_action cfg (env_now env) decision row
      in if action = ''SELL'' \<and> TRADING_ENABLED cfg then
           review_each cfg env llm hmap ds
             (snd (sell_and_record cfg env symbol (hi_quantity (fst row)) (snd (snd row)) ''HOLDINGS_REVIEW'' True x))
         else if action = ''HOLD'' then review_each cfg env llm hmap ds (adjust_levels env symbol decision x)
         else if action = ''ADD_BUY'' then x
         else review_each cfg env llm hmap ds x)"

definition intraday_holdings_review ::
  "settings \<Rightarrow> bool \<Rightarrow> sched_env \<Rightarrow> (string \<times> review_decision) list \<Rightarrow> sched_state \<Rightarrow> sched_state" where
  "intraday_holdings_review cfg session env llm x =
     (if \<not> session then x
      else case se_holdings env of
        Inl e \<Rightarrow> x
      | Inr hs \<Rightarrow>
          (let sellable = filter (\<lambda>h. 0 < hi_quantity h) hs;
               (ds, fallback_sell) = collect_holdings_data env (dm_db (xs_dm x)) sellable
           in review_each cfg (se_dm env) (map_of (rev llm)) (holdings_map ds) ds x))"

section \<open>The scan after a sale\<close>

definition rescan_allowed :: "settings \<Rightarrow> bool \<Rightarrow> pydt \<Rightarrow> real \<Rightarrow> bool" where
  "rescan_allowed cfg trading_hours now cash \<longleftrightarrow>
     TRADING_ENABLED cfg \<and> trading_hours \<and> dt_tod now < buy_cutoff cfg \<and> of_int (MIN_BUY_QUANTITY cfg * 1000) \<le> cash"

section \<open>Lemmas\<close>

abbreviation sell_allowed :: "settings \<Rightarrow> bool" where
  "sell_allowed cfg \<equiv> sd_allowed (decide_order_submission cfg ''SELL'')"

abbreviation sell_request :: "holding_info \<Rightarrow> order_request" where
  "sell_request h \<equiv> exit_request (hi_symbol h) (hi_quantity h)"

lemma exit_request_invalid: "q \<le> 0 \<Longrightarrow> \<exists>e. validate_order_request (exit_request s q) = Inl e"
  by (simp add: validate_order_request_def exit_request_def)

lemma place_sell_placed:
  "dm_placed (snd (place_market_sell cfg env s q st)) =
     dm_placed st @ (if sell_allowed cfg \<and> 0 < q then [exit_request s q] else [])"
proof (cases "0 < q")
  case True
  then show ?thesis by (simp add: place_market_sell_def Let_def exit_request_valid)
next
  case False
  then obtain e where "validate_order_request (exit_request s q) = Inl e" using exit_request_invalid [of q s] by auto
  then show ?thesis using False by (simp add: place_market_sell_def Let_def)
qed

lemma place_sell_frame: "dm_db (snd (place_market_sell cfg env s q st)) = dm_db st"
  by (simp add: place_market_sell_def Let_def split: sum.splits)

lemma place_sell_answer:
  assumes "place_market_sell cfg env s q st = (Inr ms, st')" and "sell_allowed cfg"
  shows "0 < q \<and> (\<exists>r. env_place env (exit_request s q) = Inr r \<and> ms_success ms = ores_success r)"
proof (cases "0 < q")
  case True
  then show ?thesis using assms by (auto simp: place_market_sell_def Let_def exit_request_valid split: sum.splits)
next
  case False
  then obtain e where "validate_order_request (exit_request s q) = Inl e" using exit_request_invalid [of q s] by auto
  then show ?thesis using assms by (simp add: place_market_sell_def Let_def)
qed

text \<open>No job keeps a lock it took.\<close>

lemma sell_releases: "xs_agent (snd (sell_and_record cfg env s q p reason rescan x)) = xs_agent x"
proof -
  obtain ok ag where a: "acquire_sell s (xs_agent x) = (ok, ag)" by (cases "acquire_sell s (xs_agent x)")
  have "ok \<Longrightarrow> release_sell s ag = xs_agent x" using release_acquired [of s "xs_agent x"] a by simp
  then show ?thesis by (auto simp: sell_and_record_def Let_def a split: prod.splits sum.splits)
qed

lemma sell_detector:
  "xs_detector (snd (sell_and_record cfg env s q p reason rescan x)) \<in>
     {xs_detector x, remove_levels s (xs_detector x)}"
  by (auto simp: sell_and_record_def Let_def split: prod.splits sum.splits)

lemma sell_placed:
  "\<exists>R. dm_placed (xs_dm (snd (sell_and_record cfg env s q p reason rescan x))) = dm_placed (xs_dm x) @ R \<and>
     set R \<subseteq> (if sell_allowed cfg \<and> 0 < q then {exit_request s q} else {})"
proof -
  obtain r dm where p: "place_market_sell cfg env s q (xs_dm x) = (r, dm)" by (cases "place_market_sell cfg env s q (xs_dm x)")
  have "dm_placed dm = dm_placed (xs_dm x) @ (if sell_allowed cfg \<and> 0 < q then [exit_request s q] else [])"
    using place_sell_placed [of cfg env s q "xs_dm x"] p by simp
  then show ?thesis
    by (auto simp: sell_and_record_def Let_def p confirm_frame split: prod.splits sum.splits)
qed

lemma check_each_agent: "xs_agent (check_each cfg mins env hs x) = xs_agent x"
  by (induction hs arbitrary: x) (simp_all add: sell_releases split: sum.splits)

lemma gap_each_agent: "xs_agent (gap_each cfg env rows hs x) = xs_agent x"
proof (induction hs arbitrary: x)
  case (Cons h hs)
  have "xs_agent x' = xs_agent x"
    if "sell_and_record cfg (se_dm env) (hi_symbol h) (hi_quantity h) p ''GAP_CHECK'' False x = (r, x')" for p r x'
    using sell_releases [of cfg "se_dm env" "hi_symbol h" "hi_quantity h" p "''GAP_CHECK''" False x] that by simp
  then show ?case using Cons.IH by (auto split: option.splits sum.splits prod.splits sell_outcome.splits)
qed simp

lemma review_each_agent: "xs_agent (review_each cfg env llm hmap ds x) = xs_agent x"
  by (induction ds arbitrary: x) (simp_all add: Let_def sell_releases adjust_levels_def split: option.splits)

lemma acquire_fields: "snd (acquire_sell s ag) = (if fst (acquire_sell s ag) then ag\<lparr>ag_selling := insert (normalize_krx_symbol s) (ag_selling ag)\<rparr> else ag)"
  by (simp add: acquire_sell_def Let_def)

lemma release_all: "fold release_sell ls ag = ag\<lparr>ag_selling := ag_selling ag - normalize_krx_symbol ` set ls\<rparr>"
  by (induction ls arbitrary: ag) (simp_all add: release_sell_def Diff_insert2 [symmetric])

lemma start_sells_agent:
  "start_sells cfg env hs (ag, dm) = (rs, ls, ag', dm') \<Longrightarrow>
     ag' = ag\<lparr>ag_selling := ag_selling ag \<union> normalize_krx_symbol ` set ls\<rparr> \<and>
     normalize_krx_symbol ` set ls \<inter> ag_selling ag = {}"
proof (induction hs arbitrary: ag dm rs ls)
  case (Cons h hs)
  let ?s = "normalize_krx_symbol (hi_symbol h)"
  obtain ok ag1 where a: "acquire_sell (hi_symbol h) ag = (ok, ag1)" by (cases "acquire_sell (hi_symbol h) ag")
  show ?case
  proof (cases ok)
    case False
    then obtain rs' where "start_sells cfg env hs (ag, dm) = (rs', ls, ag', dm')"
      using Cons.prems a by (auto split: prod.splits)
    then show ?thesis by (rule Cons.IH)
  next
    case True
    then have ag1: "ag1 = ag\<lparr>ag_selling := insert ?s (ag_selling ag)\<rparr>" "?s \<notin> ag_selling ag"
      using acquire_fields [of "hi_symbol h" ag] a by (auto simp: acquire_sell_def Let_def split: if_splits)
    obtain r dm1 where p: "place_market_sell cfg env (hi_symbol h) (hi_quantity h) dm = (r, dm1)"
      by (cases "place_market_sell cfg env (hi_symbol h) (hi_quantity h) dm")
    show ?thesis
    proof (cases "dm_placed dm1 = dm_placed dm")
      case same: True
      have "release_sell (hi_symbol h) ag1 = ag" using ag1 by (simp add: release_sell_def)
      then obtain rs' where "start_sells cfg env hs (ag, dm1) = (rs', ls, ag', dm')"
        using Cons.prems a True p same by (auto split: prod.splits)
      then show ?thesis by (rule Cons.IH)
    next
      case False
      then obtain rs' ls' where "start_sells cfg env hs (ag1, dm1) = (rs', ls', ag', dm')" and "ls = hi_symbol h # ls'"
        using Cons.prems a True p by (auto simp: Let_def split: prod.splits)
      with Cons.IH [OF this(1)] ag1 show ?thesis by auto
    qed
  qed
qed simp

lemma gather_agent: "gather_sells cfg env hs (ag, dm) = (rs, ag', dm') \<Longrightarrow> ag' = ag"
proof -
  assume g: "gather_sells cfg env hs (ag, dm) = (rs, ag', dm')"
  obtain rs0 ls ag1 dm1 where s: "start_sells cfg env hs (ag, dm) = (rs0, ls, ag1, dm1)"
    by (cases "start_sells cfg env hs (ag, dm)") auto
  have "ag_selling ag \<union> normalize_krx_symbol ` set ls - normalize_krx_symbol ` set ls = ag_selling ag"
    using start_sells_agent [OF s] by blast
  then show ?thesis using g s start_sells_agent [OF s] by (simp add: gather_sells_def release_all)
qed

lemma start_sells_orders:
  "start_sells cfg env hs (ag, dm) = (rs, ls, ag', dm') \<Longrightarrow>
     map snd rs = hs \<and> dm_db dm' = dm_db dm \<and>
     (\<exists>P. dm_placed dm' = dm_placed dm @ map sell_request P \<and> subseq P hs \<and>
       (\<forall>h \<in> set P. 0 < hi_quantity h \<and> sell_allowed cfg) \<and>
       (\<forall>ms h. (Answered ms, h) \<in> set rs \<longrightarrow> sell_allowed cfg \<longrightarrow>
          h \<in> set P \<and> (\<exists>r. env_place env (sell_request h) = Inr r \<and> ms_success ms = ores_success r)))"
proof (induction hs arbitrary: ag dm rs ls)
  case Nil
  then show ?case by auto
next
  case (Cons h hs)
  obtain ok ag1 where a: "acquire_sell (hi_symbol h) ag = (ok, ag1)" by (cases "acquire_sell (hi_symbol h) ag")
  show ?case
  proof (cases ok)
    case False
    then obtain rs' where rs: "start_sells cfg env hs (ag, dm) = (rs', ls, ag', dm')" "rs = (In_progress, h) # rs'"
      using Cons.prems a by (auto split: prod.splits)
    from Cons.IH [OF rs(1)] show ?thesis using rs(2) by (auto intro: list_emb_Cons)
  next
    case True
    obtain r dm1 where p: "place_market_sell cfg env (hi_symbol h) (hi_quantity h) dm = (r, dm1)"
      by (cases "place_market_sell cfg env (hi_symbol h) (hi_quantity h) dm")
    define sent where "sent = (if sell_allowed cfg \<and> 0 < hi_quantity h then [h] else [])"
    have dm1: "dm_placed dm1 = dm_placed dm @ map sell_request sent" "dm_db dm1 = dm_db dm"
      using place_sell_placed [of cfg env "hi_symbol h" "hi_quantity h" dm]
        place_sell_frame [of cfg env "hi_symbol h" "hi_quantity h" dm] p by (simp_all add: sent_def)
    obtain rs' ls' ag2 where rs: "start_sells cfg env hs (ag2, dm1) = (rs', ls', ag', dm')"
      "rs = ((case r of Inl e \<Rightarrow> Raised e | Inr ms \<Rightarrow> Answered ms), h) # rs'"
      using Cons.prems a True p by (auto simp: Let_def split: prod.splits)
    from Cons.IH [OF rs(1)] obtain P where P: "map snd rs' = hs" "dm_db dm' = dm_db dm1"
      "dm_placed dm' = dm_placed dm1 @ map sell_request P" "subseq P hs"
      "\<forall>h \<in> set P. 0 < hi_quantity h \<and> sell_allowed cfg"
      "\<forall>ms h. (Answered ms, h) \<in> set rs' \<longrightarrow> sell_allowed cfg \<longrightarrow>
          h \<in> set P \<and> (\<exists>r. env_place env (sell_request h) = Inr r \<and> ms_success ms = ores_success r)"
      by blast
    have answer: "h \<in> set sent \<and> (\<exists>r. env_place env (sell_request h) = Inr r \<and> ms_success ms = ores_success r)"
      if "r = Inr ms" "sell_allowed cfg" for ms
      using place_sell_answer [of cfg env "hi_symbol h" "hi_quantity h" dm ms dm1] that p by (simp add: sent_def)
    have "subseq (sent @ P) (h # hs)" using P(4) by (simp add: sent_def list_emb_Cons)
    moreover have "dm_placed dm' = dm_placed dm @ map sell_request (sent @ P)" using P(3) dm1 by simp
    moreover have "\<forall>h \<in> set (sent @ P). 0 < hi_quantity h \<and> sell_allowed cfg" using P(5) by (auto simp: sent_def)
    moreover have "\<forall>ms k. (Answered ms, k) \<in> set rs \<longrightarrow> sell_allowed cfg \<longrightarrow>
        k \<in> set (sent @ P) \<and> (\<exists>r. env_place env (sell_request k) = Inr r \<and> ms_success ms = ores_success r)"
      using P(6) answer rs(2) by (auto split: sum.splits)
    ultimately have "\<exists>P. dm_placed dm' = dm_placed dm @ map sell_request P \<and> subseq P (h # hs) \<and>
       (\<forall>h \<in> set P. 0 < hi_quantity h \<and> sell_allowed cfg) \<and>
       (\<forall>ms k. (Answered ms, k) \<in> set rs \<longrightarrow> sell_allowed cfg \<longrightarrow>
          k \<in> set P \<and> (\<exists>r. env_place env (sell_request k) = Inr r \<and> ms_success ms = ores_success r))"
      by (intro exI [of _ "sent @ P"] conjI)
    then show ?thesis using P(1,2) dm1(2) rs(2) by simp
  qed
qed

lemma settle_first_frame:
  "settle_first env rs st = (n, fs, st') \<Longrightarrow> dm_placed st' = dm_placed st \<and> subseq fs (map snd rs) \<and>
     (\<forall>h \<in> set fs. \<exists>ms. (Answered ms, h) \<in> set rs \<and> \<not> ms_success ms)"
proof (induction env rs st arbitrary: n fs rule: settle_first.induct)
  case (2 env ms h rs st)
  show ?case
  proof (cases "ms_success ms")
    case True
    then obtain n' where "settle_first env rs (record_liquidation_sell env h ms st) = (n', fs, st')"
      using 2(3) by (auto split: prod.splits)
    from 2(1) [OF True this] show ?thesis by (auto simp: record_liquidation_sell_def confirm_frame split: if_splits)
  next
    case False
    then obtain fs' where "settle_first env rs st = (n, fs', st')" "fs = h # fs'"
      using 2(3) by (auto split: prod.splits)
    with 2(2) [OF False this(1)] False show ?thesis by auto
  qed
qed auto

lemma settle_retry_frame: "settle_retry env rs st = (n, st') \<Longrightarrow> dm_placed st' = dm_placed st"
proof (induction env rs st arbitrary: n rule: settle_retry.induct)
  case (2 env ms h rs st)
  then show ?case
    by (auto simp: record_liquidation_sell_def confirm_frame split: if_splits prod.splits)
qed auto

lemma gather_orders:
  assumes "gather_sells cfg env hs (ag, dm) = (rs, ag', dm')"
  shows "map snd rs = hs \<and> dm_db dm' = dm_db dm \<and>
     (\<exists>P. dm_placed dm' = dm_placed dm @ map sell_request P \<and> subseq P hs \<and>
       (\<forall>h \<in> set P. 0 < hi_quantity h \<and> sell_allowed cfg) \<and>
       (\<forall>ms h. (Answered ms, h) \<in> set rs \<longrightarrow> sell_allowed cfg \<longrightarrow>
          h \<in> set P \<and> (\<exists>r. env_place env (sell_request h) = Inr r \<and> ms_success ms = ores_success r)))"
proof -
  obtain rs0 ls ag1 dm1 where s: "start_sells cfg env hs (ag, dm) = (rs0, ls, ag1, dm1)"
    by (cases "start_sells cfg env hs (ag, dm)") auto
  have "rs0 = rs" "dm1 = dm'" using assms s by (simp_all add: gather_sells_def)
  then show ?thesis using start_sells_orders [OF s] by simp
qed

lemma subseq_set: "subseq xs ys \<Longrightarrow> set xs \<subseteq> set ys"
  by (auto elim: list_emb_set)

lemma distinct_subseq: "subseq xs ys \<Longrightarrow> distinct ys \<Longrightarrow> distinct xs"
  by (induction rule: list_emb.induct) (use subseq_set in \<open>auto\<close>)

lemma liquidate_all_orders:
  "\<exists>P Q. dm_placed (xs_dm (liquidate_all cfg env retry holdings to_sell x)) =
       dm_placed (xs_dm x) @ map sell_request P @ map sell_request Q \<and>
     subseq P to_sell \<and> subseq Q to_sell \<and> set Q \<subseteq> set P \<and> (\<forall>h \<in> set P. 0 < hi_quantity h) \<and>
     (\<forall>h \<in> set Q. \<exists>r. env_place env (sell_request h) = Inr r \<and> \<not> ores_success r)"
proof -
  obtain rs ag1 dm1 where g: "gather_sells cfg env to_sell (xs_agent x, xs_dm x) = (rs, ag1, dm1)"
    by (metis prod_cases3)
  obtain sold failed dm2 where f: "settle_first env rs dm1 = (sold, failed, dm2)" by (metis prod_cases3)
  obtain rs2 ag2 dm3 where g2: "(if failed = [] then ([], ag1, dm2) else gather_sells cfg retry failed (ag1, dm2)) = (rs2, ag2, dm3)"
    by (metis prod_cases3)
  obtain more dm4 where r: "settle_retry retry rs2 dm3 = (more, dm4)" by (cases "settle_retry retry rs2 dm3")
  obtain P where P: "dm_placed dm1 = dm_placed (xs_dm x) @ map sell_request P" "subseq P to_sell"
    "\<forall>h \<in> set P. 0 < hi_quantity h \<and> sell_allowed cfg"
    "\<forall>ms h. (Answered ms, h) \<in> set rs \<longrightarrow> sell_allowed cfg \<longrightarrow>
          h \<in> set P \<and> (\<exists>r. env_place env (sell_request h) = Inr r \<and> ms_success ms = ores_success r)"
    and rs: "map snd rs = to_sell"
    using gather_orders [OF g] by blast
  note failed = settle_first_frame [OF f]
  have "\<exists>Q. dm_placed dm3 = dm_placed dm2 @ map sell_request Q \<and> subseq Q failed \<and> (\<forall>h \<in> set Q. sell_allowed cfg)"
  proof (cases "failed = []")
    case True
    then show ?thesis using g2 by auto
  next
    case False
    then have "gather_sells cfg retry failed (ag1, dm2) = (rs2, ag2, dm3)" using g2 by simp
    from gather_orders [OF this] show ?thesis by blast
  qed
  then obtain Q where Q: "dm_placed dm3 = dm_placed dm2 @ map sell_request Q" "subseq Q failed" "\<forall>h \<in> set Q. sell_allowed cfg"
    by blast
  have again: "h \<in> set P \<and> (\<exists>r. env_place env (sell_request h) = Inr r \<and> \<not> ores_success r)" if "h \<in> set Q" for h
  proof -
    have "h \<in> set failed" using subseq_set [OF Q(2)] that by blast
    then obtain ms where "(Answered ms, h) \<in> set rs" "\<not> ms_success ms" using failed by blast
    then show ?thesis using P(4) Q(3) that by blast
  qed
  have "dm_placed (xs_dm (liquidate_all cfg env retry holdings to_sell x)) = dm_placed dm4"
    by (simp add: liquidate_all_def g f g2 r Let_def split: option.splits)
  also have "\<dots> = dm_placed (xs_dm x) @ map sell_request P @ map sell_request Q"
    using settle_retry_frame [OF r] Q(1) failed P(1) by simp
  finally have "dm_placed (xs_dm (liquidate_all cfg env retry holdings to_sell x)) =
      dm_placed (xs_dm x) @ map sell_request P @ map sell_request Q" .
  moreover have "subseq Q to_sell" using Q(2) failed rs by (metis subseq_order.order_trans)
  ultimately show ?thesis using P(2,3) again by (intro exI [of _ P] exI [of _ Q]) auto
qed

lemma distinct_submset: "mset xs \<subseteq># mset ys \<Longrightarrow> distinct ys \<Longrightarrow> distinct xs"
proof -
  assume "mset xs \<subseteq># mset ys" and d: "distinct ys"
  then obtain zs where "mset ys = mset (xs @ zs)" by (metis ex_mset mset_append subset_mset.le_iff_add)
  then have "distinct (xs @ zs)" using d mset_eq_imp_distinct_iff by blast
  then show ?thesis by simp
qed

lemma collect_mset:
  "collect_holdings_data env s hs = (ds, fs) \<Longrightarrow> mset fs + mset (map fst ds) = mset hs"
  by (induction hs arbitrary: ds fs) (auto split: prod.splits sum.splits option.splits if_splits)

lemma smart_liquidation_sells:
  assumes "distinct (map hi_symbol hs)" and "smart_liquidation cfg env llm s hs = (to_sell, to_hold)"
  shows "mset to_sell + mset to_hold = mset hs"
proof -
  obtain ds fs where c: "collect_holdings_data env s hs = (ds, fs)" by (cases "collect_holdings_data env s hs")
  have m: "mset fs + mset (map fst ds) = mset hs" by (rule collect_mset [OF c])
  then have "mset (map hi_symbol fs) + mset (map data_symbol ds) = mset (map hi_symbol hs)"
    unfolding data_symbol_def by (metis (no_types, lifting) list.map_comp comp_def map_eq_conv image_mset_union mset_map)
  then have "distinct (map data_symbol ds)" using assms(1)
    by (metis distinct_submset mset_subset_eq_add_right)
  then have d: "distinct (map fst (rev (map (\<lambda>d. (data_symbol d, d)) ds)))" by (simp add: rev_map [symmetric] comp_def)
  have row: "(case holdings_map ds (data_symbol d) of None \<Rightarrow> d | Some d' \<Rightarrow> d') = d" if "d \<in> set ds" for d
    using map_of_is_SomeI [OF d, of "data_symbol d" d] that by (auto simp: holdings_map_def)
  let ?keeps = "keeps_overnight cfg (env_now (se_dm env)) llm"
  have "to_sell = fs @ map fst (filter (\<lambda>d. \<not> ?keeps d) ds)" and "to_hold = map fst (filter ?keeps ds)"
    using assms(2) c row by (auto simp: smart_liquidation_def Let_def intro!: map_cong filter_cong)
  moreover have "image_mset fst (mset ds) = image_mset fst (filter_mset ?keeps (mset ds)) +
      image_mset fst (filter_mset (\<lambda>d. \<not> ?keeps d) (mset ds))"
    by (metis multiset_partition image_mset_union)
  ultimately show ?thesis using m by (simp add: ac_simps)
qed

section \<open>What a liquidation sells\<close>

lemma adjust_sellable_mem:
  "h \<in> set (adjust_sellable orders hs) \<Longrightarrow>
     \<exists>k \<in> set hs. hi_symbol h = hi_symbol k \<and> hi_quantity h = hi_quantity k - pending_sell_qty orders (hi_symbol k) \<and> 0 < hi_quantity h"
  by (auto simp: adjust_sellable_def Let_def max_def split: if_splits)

lemma adjust_sellable_symbols:
  "distinct (map hi_symbol hs) \<Longrightarrow> distinct (map hi_symbol (adjust_sellable orders hs))"
proof -
  have "subseq (map hi_symbol (adjust_sellable orders hs)) (map hi_symbol hs)"
    by (induction hs) (auto simp: adjust_sellable_def Let_def intro: list_emb_Cons)
  then show "distinct (map hi_symbol hs) \<Longrightarrow> distinct (map hi_symbol (adjust_sellable orders hs))"
    by (rule distinct_subseq)
qed

text \<open>
  C15: a liquidation sells shares that are free. Every order it sends sells, for a symbol of the
  account, exactly what is held less what open sell orders already claim, and more than zero; the
  first round has one order per symbol, the second repeats only orders of the first that the
  broker refused, so no symbol is sold twice. (The account lists each symbol once.)
\<close>

theorem liquidation_sells_free_shares:
  assumes "se_holdings env = Inr hs" and "se_pending env = Inr orders" and "distinct (map hi_symbol hs)"
  shows "\<exists>R1 R2. dm_placed (xs_dm (force_liquidation cfg holiday env retry llm x)) = dm_placed (xs_dm x) @ R1 @ R2 \<and>
    distinct (map or_symbol R1) \<and> distinct (map or_symbol R2) \<and> set R2 \<subseteq> set R1 \<and>
    (\<forall>r \<in> set R2. \<exists>a. env_place (se_dm env) r = Inr a \<and> \<not> ores_success a) \<and>
    (\<forall>r \<in> set R1. or_side r = Side_SELL \<and> 0 < or_quantity r \<and> (\<exists>h \<in> set hs. or_symbol r = hi_symbol h \<and>
       or_quantity r = hi_quantity h - pending_sell_qty orders (hi_symbol h)))"
proof -
  let ?x' = "force_liquidation cfg holiday env retry llm x"
  let ?sellable = "adjust_sellable orders hs"
  have syms: "distinct (map hi_symbol ?sellable)" by (rule adjust_sellable_symbols [OF assms(3)])
  obtain to_sell to_hold where split: "(if DAY_TRADING_ONLY cfg then (?sellable, [])
      else smart_liquidation cfg env llm (dm_db (xs_dm x)) ?sellable) = (to_sell, to_hold)"
    by (meson surj_pair)
  have sub: "mset to_sell \<subseteq># mset ?sellable"
    using split smart_liquidation_sells [OF syms] by (auto split: if_splits) (metis mset_subset_eq_add_left)
  have "?x' = x \<or> ?x' = liquidate_all cfg (se_dm env) retry hs to_sell x"
    using assms(1,2) split by (simp add: force_liquidation_def)
  then show ?thesis
  proof
    assume "?x' = x"
    then show ?thesis by auto
  next
    assume x': "?x' = liquidate_all cfg (se_dm env) retry hs to_sell x"
    obtain P Q where PQ: "dm_placed (xs_dm ?x') = dm_placed (xs_dm x) @ map sell_request P @ map sell_request Q"
      "subseq P to_sell" "subseq Q to_sell" "set Q \<subseteq> set P"
      "\<forall>h \<in> set Q. \<exists>r. env_place (se_dm env) (sell_request h) = Inr r \<and> \<not> ores_success r"
      using liquidate_all_orders [of cfg "se_dm env" retry hs to_sell x] unfolding x' by blast
    have "mset (map hi_symbol to_sell) \<subseteq># mset (map hi_symbol ?sellable)"
      using image_mset_subseteq_mono [OF sub, of hi_symbol] by simp
    then have "distinct (map hi_symbol to_sell)" using distinct_submset syms by blast
    then have "distinct (map hi_symbol P)" "distinct (map hi_symbol Q)"
      using distinct_subseq subseq_map PQ(2,3) by blast+
    then have d: "distinct (map or_symbol (map sell_request P))" "distinct (map or_symbol (map sell_request Q))"
      by (simp_all add: exit_request_def comp_def)
    have "set P \<subseteq> set ?sellable" using subseq_set [OF PQ(2)] sub by (metis set_mset_mono set_mset_mset order_trans)
    then have "\<forall>r \<in> set (map sell_request P). or_side r = Side_SELL \<and> 0 < or_quantity r \<and> (\<exists>h \<in> set hs. or_symbol r = hi_symbol h \<and>
       or_quantity r = hi_quantity h - pending_sell_qty orders (hi_symbol h))"
      using adjust_sellable_mem by (fastforce simp: exit_request_def)
    with d PQ(1,4,5) show ?thesis by (intro exI [of _ "map sell_request P"] exI [of _ "map sell_request Q"]) auto
  qed
qed

text \<open>Two holdings of which one is partly claimed by an open sell order, and a broker that accepts.\<close>

definition sample_sched_env :: "(string \<Rightarrow> real res) \<Rightarrow> holding_info list \<Rightarrow> pending_order_info list \<Rightarrow> dm_env \<Rightarrow> sched_env" where
  "sample_sched_env price hs orders env = \<lparr>se_dm = env, se_holdings = Inr hs, se_pending = Inr orders, se_price = price,
     se_ws = \<lparr>we_domestic_up = True, we_overseas_up = True, we_send_ok = True\<rparr>\<rparr>"

definition sample_sched :: sched_state where
  "sample_sched = \<lparr>xs_agent = new_agent, xs_detector = new_detector, xs_dm = fresh_dm, ss_stream = start_stream, ss_rescans = 0\<rparr>"

lemma liquidation_sells_free_shares_witness:
  "set (map or_symbol (dm_placed (xs_dm (force_liquidation (default_settings\<lparr>DAY_TRADING_ONLY := True\<rparr>) False
       (sample_sched_env (\<lambda>_. Inr 100) [sample_holding] [] sample_env) sample_env [] sample_sched)))) \<subseteq>
     {hi_symbol sample_holding}"
proof -
  let ?env = "sample_sched_env (\<lambda>_. Inr 100) [sample_holding] [] sample_env"
  obtain R1 R2 where "dm_placed (xs_dm (force_liquidation (default_settings\<lparr>DAY_TRADING_ONLY := True\<rparr>) False ?env
      sample_env [] sample_sched)) = R1 @ R2" "set R2 \<subseteq> set R1" "\<forall>r \<in> set R1. or_symbol r = hi_symbol sample_holding"
    using liquidation_sells_free_shares [of ?env "[sample_holding]" "[]" "default_settings\<lparr>DAY_TRADING_ONLY := True\<rparr>" False sample_env "[]" sample_sched]
    by (auto simp: sample_sched_env_def sample_sched_def fresh_dm_def)
  then show ?thesis by auto
qed

section \<open>No job keeps a lock\<close>

lemma liquidate_all_agent: "xs_agent (liquidate_all cfg env retry holdings to_sell x) = xs_agent x"
proof -
  obtain rs ag1 dm1 where g: "gather_sells cfg env to_sell (xs_agent x, xs_dm x) = (rs, ag1, dm1)"
    by (metis prod_cases3)
  obtain sold failed dm2 where f: "settle_first env rs dm1 = (sold, failed, dm2)" by (metis prod_cases3)
  obtain rs2 ag2 dm3 where g2: "(if failed = [] then ([], ag1, dm2) else gather_sells cfg retry failed (ag1, dm2)) = (rs2, ag2, dm3)"
    by (metis prod_cases3)
  obtain more dm4 where r: "settle_retry retry rs2 dm3 = (more, dm4)" by (cases "settle_retry retry rs2 dm3")
  have "ag2 = ag1" using g2 gather_agent by (metis prod.inject)
  then have "ag2 = xs_agent x" using gather_agent [OF g] by simp
  then show ?thesis by (simp add: liquidate_all_def g f g2 r Let_def split: option.splits)
qed

text \<open>
  Whatever the scheduled jobs meet - refused orders, exceptions of the broker, prices that cannot
  be read, locks held by others - each of them leaves the agent's state and with it every sell lock as
  it was: a failed sale never blocks a later one.
\<close>

lemma jobs_release_locks:
  "xs_agent (holdings_check cfg close session env x) = xs_agent x \<and>
   xs_agent (check_overnight_gap cfg env x) = xs_agent x \<and>
   xs_agent (check_overnight_positions env x) = xs_agent x \<and>
   xs_agent (intraday_holdings_review cfg session env decisions x) = xs_agent x \<and>
   xs_agent (force_liquidation cfg holiday env retry llm x) = xs_agent x"
proof (intro conjI)
  show "xs_agent (holdings_check cfg close session env x) = xs_agent x"
    by (simp add: holdings_check_def check_each_agent update_realtime_subscriptions_def split: sum.splits)
  show "xs_agent (check_overnight_gap cfg env x) = xs_agent x"
    by (simp add: check_overnight_gap_def gap_each_agent split: sum.splits)
  show "xs_agent (check_overnight_positions env x) = xs_agent x"
    by (simp add: check_overnight_positions_def Let_def split: sum.splits)
  show "xs_agent (intraday_holdings_review cfg session env decisions x) = xs_agent x"
    by (simp add: intraday_holdings_review_def Let_def review_each_agent split: sum.splits prod.splits)
  show "xs_agent (force_liquidation cfg holiday env retry llm x) = xs_agent x"
    by (simp add: force_liquidation_def Let_def liquidate_all_agent split: sum.splits prod.splits)
qed

section \<open>Why a holding is sold\<close>

lemma get_thresholds_remove:
  "get_thresholds s (remove_levels s' d) = (if s = s' then default_thresholds else get_thresholds s d)"
  by (simp add: get_thresholds_def remove_levels_def delete_conv')

text \<open>
  When the check may sell, in prices: the price is at or below the watched stop, or, where no stop is
  watched, three percent below what was paid; it is at or above the watched target, or, where none is
  watched, five percent above what was paid; or positions may not stay overnight and it is one percent
  above within the last hour, or one percent below within the last half hour.
\<close>

definition sale_due :: "settings \<Rightarrow> int \<Rightarrow> stock_thresholds \<Rightarrow> real \<Rightarrow> real \<Rightarrow> bool" where
  "sale_due cfg mins th paid price \<longleftrightarrow>
     price \<le> (if 0 < th_stop_loss th then th_stop_loss th else paid * 97 / 100) \<or>
     (if 0 < th_take_profit th then th_take_profit th else paid * 105 / 100) \<le> price \<or>
     DAY_TRADING_ONLY cfg \<and> (mins \<le> 60 \<and> paid * 101 / 100 < price \<or> mins \<le> 30 \<and> price < paid * 99 / 100)"

lemma pnl_rate_le:
  assumes "0 < avg"
  shows "pnl_rate avg p \<le> pnl_rate avg q \<longleftrightarrow> p \<le> q" "pnl_rate avg p \<le> r \<longleftrightarrow> p \<le> avg * (100 + r) / 100"
    "r \<le> pnl_rate avg p \<longleftrightarrow> avg * (100 + r) / 100 \<le> p" "r < pnl_rate avg p \<longleftrightarrow> avg * (100 + r) / 100 < p"
    "pnl_rate avg p < r \<longleftrightarrow> p < avg * (100 + r) / 100"
  using assms by (simp_all add: pnl_rate_def field_simps)

lemma check_cause_due:
  assumes "0 < avg"
  shows "check_cause cfg mins th avg current \<noteq> None \<longleftrightarrow> sale_due cfg mins th avg current"
proof -
  note rate = pnl_rate_le [OF assms]
  have stop: "pnl_rate avg current \<le> (if 0 < l then pnl_rate avg l else - 3) \<longleftrightarrow> current \<le> (if 0 < l then l else avg * 97 / 100)" for l
    using rate(1) rate(2) [of current "- 3"] by simp
  have target: "(if 0 < l then pnl_rate avg l else 5) \<le> pnl_rate avg current \<longleftrightarrow> (if 0 < l then l else avg * 105 / 100) \<le> current" for l
    using rate(1) rate(3) [of 5 current] by simp
  have late: "1 < pnl_rate avg current \<longleftrightarrow> avg * 101 / 100 < current" "pnl_rate avg current < - 1 \<longleftrightarrow> current < avg * 99 / 100"
    using rate(4) [of 1 current] rate(5) [of current "- 1"] by simp_all
  show ?thesis unfolding check_cause_def sale_due_def Let_def stop target late by auto
qed

text \<open>
  The levels that count are the watched ones; only a further entry of a symbol, whose levels went
  with the sale of the entry before it, is held against the default limits.
\<close>

definition has_cause :: "settings \<Rightarrow> int \<Rightarrow> sched_env \<Rightarrow> detector \<Rightarrow> bool \<Rightarrow> holding_info \<Rightarrow> bool" where
  "has_cause cfg mins env d again h \<longleftrightarrow> 0 < hi_avg_buy_price h \<and> 0 < hi_quantity h \<and>
     (\<exists>current > 0. se_price env (hi_symbol h) = Inr current \<and>
        (sale_due cfg mins (get_thresholds (hi_symbol h) d) (hi_avg_buy_price h) current \<or>
         again \<and> sale_due cfg mins default_thresholds (hi_avg_buy_price h) current))"

lemma has_cause_after_sale:
  "has_cause cfg mins env (xs_detector (snd (sell_and_record cfg' env' s q p reason rescan x))) again h \<Longrightarrow>
     has_cause cfg mins env (xs_detector x) (again \<or> hi_symbol h = s) h"
  using sell_detector [of cfg' env' s q p reason rescan x]
  by (auto simp: has_cause_def get_thresholds_remove split: if_splits)

definition caused_sale :: "settings \<Rightarrow> int \<Rightarrow> sched_env \<Rightarrow> detector \<Rightarrow> holding_info list \<Rightarrow> order_request \<Rightarrow> bool" where
  "caused_sale cfg mins env d hs r \<longleftrightarrow> (\<exists>pre h post. hs = pre @ h # post \<and> r = sell_request h \<and>
     has_cause cfg mins env d (hi_symbol h \<in> hi_symbol ` set pre) h)"

lemma caused_sale_Cons:
  "caused_sale cfg mins env d hs r \<Longrightarrow> caused_sale cfg mins env d (h # hs) r"
proof -
  assume "caused_sale cfg mins env d hs r"
  then obtain pre k post where "hs = pre @ k # post" "r = sell_request k" "has_cause cfg mins env d (hi_symbol k \<in> hi_symbol ` set pre) k"
    by (auto simp: caused_sale_def)
  then show ?thesis unfolding caused_sale_def
    by (intro exI [of _ "h # pre"] exI [of _ k] exI [of _ post]) (auto simp: has_cause_def)
qed

lemma caused_sale_after:
  assumes "caused_sale cfg mins env (xs_detector (snd (sell_and_record cfg' env' (hi_symbol h) q p reason rescan x))) hs r"
  shows "caused_sale cfg mins env (xs_detector x) (h # hs) r"
proof -
  from assms obtain pre k post where k: "hs = pre @ k # post" "r = sell_request k"
    "has_cause cfg mins env (xs_detector (snd (sell_and_record cfg' env' (hi_symbol h) q p reason rescan x)))
       (hi_symbol k \<in> hi_symbol ` set pre) k" by (auto simp: caused_sale_def)
  have "(hi_symbol k \<in> hi_symbol ` set pre \<or> hi_symbol k = hi_symbol h) = (hi_symbol k \<in> hi_symbol ` set (h # pre))" by auto
  then show ?thesis using has_cause_after_sale [OF k(3)] k(1,2) unfolding caused_sale_def
    by (intro exI [of _ "h # pre"] exI [of _ k] exI [of _ post]) simp
qed

lemma check_each_orders:
  "\<exists>R. dm_placed (xs_dm (check_each cfg mins env hs x)) = dm_placed (xs_dm x) @ R \<and>
     (\<forall>r \<in> set R. TRADING_ENABLED cfg \<and> sell_allowed cfg \<and> caused_sale cfg mins env (xs_detector x) hs r)"
proof (induction hs arbitrary: x)
  case (Cons h hs)
  let ?goal = "\<lambda>x hs r. TRADING_ENABLED cfg \<and> sell_allowed cfg \<and> caused_sale cfg mins env (xs_detector x) hs r"
  have rest: "\<exists>R. dm_placed (xs_dm (check_each cfg mins env hs x)) = dm_placed (xs_dm x) @ R \<and> (\<forall>r \<in> set R. ?goal x (h # hs) r)"
    using Cons.IH [of x] caused_sale_Cons by blast
  show ?case
  proof (cases "check_each cfg mins env (h # hs) x \<in> {x, check_each cfg mins env hs x}")
    case True
    then show ?thesis using rest by (elim insertE) auto
  next
    case False
    then obtain current where c: "se_price env (hi_symbol h) = Inr current" "TRADING_ENABLED cfg"
      "check_cause cfg mins (get_thresholds (hi_symbol h) (xs_detector x)) (hi_avg_buy_price h) current \<noteq> None"
      "0 < hi_avg_buy_price h" "0 < hi_quantity h" "0 < current"
      and step: "check_each cfg mins env (h # hs) x = check_each cfg mins env hs
        (snd (sell_and_record cfg (se_dm env) (hi_symbol h) (hi_quantity h) current ''HOLDINGS_CHECK'' True x))"
      by (auto simp: not_le split: sum.splits if_splits)
    let ?x = "snd (sell_and_record cfg (se_dm env) (hi_symbol h) (hi_quantity h) current ''HOLDINGS_CHECK'' True x)"
    obtain R1 where R1: "dm_placed (xs_dm ?x) = dm_placed (xs_dm x) @ R1"
      "set R1 \<subseteq> (if sell_allowed cfg \<and> 0 < hi_quantity h then {sell_request h} else {})"
      using sell_placed [of cfg "se_dm env" "hi_symbol h" "hi_quantity h" current "''HOLDINGS_CHECK''" True x] by blast
    obtain R2 where R2: "dm_placed (xs_dm (check_each cfg mins env hs ?x)) = dm_placed (xs_dm ?x) @ R2" "\<forall>r \<in> set R2. ?goal ?x hs r"
      using Cons.IH [of ?x] by blast
    have "\<forall>r \<in> set R2. ?goal x (h # hs) r" using R2(2) caused_sale_after by blast
    moreover have "has_cause cfg mins env (xs_detector x) False h"
      using c check_cause_due by (auto simp: has_cause_def)
    then have "caused_sale cfg mins env (xs_detector x) (h # hs) (sell_request h)"
      unfolding caused_sale_def by (intro exI [of _ "[]"] exI [of _ h] exI [of _ hs]) simp
    then have "\<forall>r \<in> set R1. ?goal x (h # hs) r" using R1(2) c(2) by (auto split: if_splits)
    ultimately have "\<forall>r \<in> set (R1 @ R2). ?goal x (h # hs) r" by (simp only: set_append ball_Un)
    then show ?thesis unfolding step using R1(1) R2(1) by (intro exI [of _ "R1 @ R2"]) simp
  qed
qed simp

text \<open>
  C16: the check of the holdings sends an order only in an automated session, with trading enabled
  and not in the read-only mode, and only for the whole quantity of a holding whose current price is
  at its watched stop or target; three percent of loss or five of gain count only where no such
  level is watched (or went with the sale of an earlier entry of the symbol), and the limits of the
  last hour only when positions may not stay overnight.
\<close>

theorem scheduled_sales_have_cause:
  "\<exists>R. dm_placed (xs_dm (holdings_check cfg close session env x)) = dm_placed (xs_dm x) @ R \<and>
     (\<forall>r \<in> set R. session \<and> TRADING_ENABLED cfg \<and> current_order_submission_mode cfg \<noteq> ''READ_ONLY'' \<and>
       (\<exists>pre h post. se_holdings env = Inr (pre @ h # post) \<and> r = exit_request (hi_symbol h) (hi_quantity h) \<and>
          has_cause cfg (minutes_left (fst close) (snd close) (env_now (se_dm env))) env (xs_detector x)
            (hi_symbol h \<in> hi_symbol ` set pre) h))"
proof (cases "session \<and> (\<exists>hs. se_holdings env = Inr hs \<and> hs \<noteq> [])")
  case True
  then obtain hs where hs: "se_holdings env = Inr hs" "hs \<noteq> []" by blast
  let ?x = "update_realtime_subscriptions env x" and ?mins = "minutes_left (fst close) (snd close) (env_now (se_dm env))"
  have same: "xs_dm ?x = xs_dm x" "xs_detector ?x = xs_detector x"
    by (simp_all add: update_realtime_subscriptions_def split: sum.splits)
  have job: "holdings_check cfg close session env x = check_each cfg ?mins env hs ?x"
    using True hs by (simp add: holdings_check_def)
  have "sell_allowed cfg \<Longrightarrow> current_order_submission_mode cfg \<noteq> ''READ_ONLY''"
    by (simp add: submission_allowed_iff)
  then show ?thesis
    using check_each_orders [of cfg ?mins env hs ?x] True hs(1) unfolding job same caused_sale_def by auto
next
  case False
  then have "holdings_check cfg close session env x = x"
    by (simp add: holdings_check_def split: sum.splits)
  then show ?thesis by auto
qed

text \<open>Without a watched level a loss of a quarter is a cause, with a stop at half the price it is none.\<close>

lemma scheduled_sales_have_cause_witness:
  "set (dm_placed (xs_dm (holdings_check default_settings (15, 20) True
     (sample_sched_env (\<lambda>_. Inr 60000) [sample_holding] [] sample_env) sample_sched)))
   \<subseteq> {exit_request (hi_symbol sample_holding) 10} \<and>
   dm_placed (xs_dm (holdings_check default_settings (15, 20) True
     (sample_sched_env (\<lambda>_. Inr 60000) [sample_holding] [] sample_env)
     (sample_sched\<lparr>xs_detector := (xs_detector sample_sched)\<lparr>ed_thresholds :=
        [(hi_symbol sample_holding, default_thresholds\<lparr>th_stop_loss := 40000, th_take_profit := 90000\<rparr>)]\<rparr>\<rparr>))) = []"
proof -
  let ?env = "sample_sched_env (\<lambda>_. Inr 60000) [sample_holding] [] sample_env"
  let ?th = "default_thresholds\<lparr>th_stop_loss := 40000, th_take_profit := 90000\<rparr>"
  let ?x = "sample_sched\<lparr>xs_detector := (xs_detector sample_sched)\<lparr>ed_thresholds := [(hi_symbol sample_holding, ?th)]\<rparr>\<rparr>"
  obtain R where "dm_placed (xs_dm (holdings_check default_settings (15, 20) True ?env sample_sched)) = dm_placed (xs_dm sample_sched) @ R"
    "\<forall>r \<in> set R. r = exit_request (hi_symbol sample_holding) (hi_quantity sample_holding)"
    using scheduled_sales_have_cause [of default_settings "(15, 20)" True ?env sample_sched]
    by (auto simp: sample_sched_env_def Cons_eq_append_conv)
  moreover have "\<not> has_cause default_settings n ?env (xs_detector ?x) False sample_holding" for n
    by (simp add: has_cause_def sale_due_def get_thresholds_def sample_sched_env_def default_settings_def)
  then have "dm_placed (xs_dm (holdings_check default_settings (15, 20) True ?env ?x)) = []"
    using scheduled_sales_have_cause [of default_settings "(15, 20)" True ?env ?x]
    by (auto simp: sample_sched_env_def Cons_eq_append_conv sample_sched_def fresh_dm_def neq_Nil_conv)
  ultimately show ?thesis by (auto simp: sample_sched_def fresh_dm_def sample_holding_def)
qed

section \<open>A liquidation that fails\<close>

lemma start_sells_free:
  "start_sells cfg env hs (ag, dm) = (rs, ls, ag', dm') \<Longrightarrow>
     distinct (map (\<lambda>h. normalize_krx_symbol (hi_symbol h)) hs) \<Longrightarrow>
     (\<forall>h \<in> set hs. normalize_krx_symbol (hi_symbol h) \<notin> ag_selling ag) \<Longrightarrow>
     (\<forall>p \<in> set rs. fst p \<noteq> In_progress)"
proof (induction hs arbitrary: ag dm rs ls)
  case (Cons h hs)
  let ?s = "normalize_krx_symbol (hi_symbol h)"
  have a: "acquire_sell (hi_symbol h) ag = (True, ag\<lparr>ag_selling := insert ?s (ag_selling ag)\<rparr>)"
    using Cons.prems(3) by (simp add: acquire_sell_def)
  obtain r dm1 where p: "place_market_sell cfg env (hi_symbol h) (hi_quantity h) dm = (r, dm1)"
    by (cases "place_market_sell cfg env (hi_symbol h) (hi_quantity h) dm")
  define ag2 where "ag2 = (if dm_placed dm1 \<noteq> dm_placed dm then ag\<lparr>ag_selling := insert ?s (ag_selling ag)\<rparr>
      else release_sell (hi_symbol h) (ag\<lparr>ag_selling := insert ?s (ag_selling ag)\<rparr>))"
  obtain rs' ls' st where next_sells: "start_sells cfg env hs (ag2, dm1) = (rs', ls', st)" by (metis prod_cases3)
  then have rs: "start_sells cfg env hs (ag2, dm1) = (rs', ls', ag', dm')"
      "rs = ((case r of Inl e \<Rightarrow> Raised e | Inr ms \<Rightarrow> Answered ms), h) # rs'"
    using Cons.prems(1) a p by (simp_all add: Let_def ag2_def [symmetric])
  have "ag_selling ag2 \<subseteq> insert ?s (ag_selling ag)" by (auto simp: ag2_def release_sell_def)
  note rs = rs this
  have "normalize_krx_symbol (hi_symbol k) \<notin> insert ?s (ag_selling ag)" if "k \<in> set hs" for k
    using Cons.prems(2,3) that by (simp add: image_iff) metis
  then have "\<forall>k \<in> set hs. normalize_krx_symbol (hi_symbol k) \<notin> ag_selling ag2" using rs(3) by blast
  then have "\<forall>p \<in> set rs'. fst p \<noteq> In_progress" using Cons.IH [OF rs(1)] Cons.prems(2) by simp
  then show ?case using rs(2) by (auto split: sum.splits)
qed simp

lemma settle_retry_Some: "\<forall>p \<in> set rs. fst p \<noteq> In_progress \<Longrightarrow> \<exists>n st'. settle_retry env rs st = (Some n, st')"
proof (induction rs arbitrary: st)
  case (Cons p rs)
  obtain a h where p: "p = (a, h)" by (cases p)
  have IH: "\<exists>n st'. settle_retry env rs st = (Some n, st')" for st using Cons.IH Cons.prems by simp
  show ?case
  proof (cases a)
    case (Answered ms)
    then show ?thesis using p IH [of st] IH [of "record_liquidation_sell env h ms st"] by auto
  qed (use p IH Cons.prems in auto)
qed simp

lemma refused_settles_nothing:
  "(\<forall>ms h. (Answered ms, h) \<in> set rs \<longrightarrow> \<not> ms_success ms) \<Longrightarrow> snd (settle_retry env rs st) = st"
  "(\<forall>ms h. (Answered ms, h) \<in> set rs \<longrightarrow> \<not> ms_success ms) \<Longrightarrow> \<exists>fs. settle_first env rs st = (0, fs, st)"
proof -
  show "(\<forall>ms h. (Answered ms, h) \<in> set rs \<longrightarrow> \<not> ms_success ms) \<Longrightarrow> snd (settle_retry env rs st) = st"
  proof (induction rs)
    case (Cons p rs)
    obtain a h where p: "p = (a, h)" by (cases p)
    show ?case using Cons p by (cases a) auto
  qed simp
  show "(\<forall>ms h. (Answered ms, h) \<in> set rs \<longrightarrow> \<not> ms_success ms) \<Longrightarrow> \<exists>fs. settle_first env rs st = (0, fs, st)"
  proof (induction rs)
    case (Cons p rs)
    obtain a h where p: "p = (a, h)" by (cases p)
    obtain fs where "settle_first env rs st = (0, fs, st)" using Cons by auto
    then show ?case using Cons.prems p by (cases a) auto
  qed simp
qed

lemma start_sells_refused:
  assumes refuses: "\<And>r a. env_place env r = Inr a \<Longrightarrow> \<not> ores_success a"
  shows "start_sells cfg env hs (ag, dm) = (rs, ls, ag', dm') \<Longrightarrow> (Answered ms, h) \<in> set rs \<Longrightarrow> \<not> ms_success ms"
proof (induction hs arbitrary: ag dm rs ls)
  case (Cons k hs)
  obtain ok ag1 where a: "acquire_sell (hi_symbol k) ag = (ok, ag1)" by (cases "acquire_sell (hi_symbol k) ag")
  obtain r dm1 where p: "place_market_sell cfg env (hi_symbol k) (hi_quantity k) dm = (r, dm1)"
    by (cases "place_market_sell cfg env (hi_symbol k) (hi_quantity k) dm")
  have no: "\<not> ms_success m" if "r = Inr m" for m
    using p that refuses by (auto simp: place_market_sell_def Let_def split: if_splits sum.splits)
  obtain o1 ag2 dm2 rs' ls' where rs: "start_sells cfg env hs (ag2, dm2) = (rs', ls', ag', dm')" "rs = (o1, k) # rs'"
    "\<And>m. o1 = Answered m \<Longrightarrow> r = Inr m"
    using Cons.prems(1) a p by (cases ok) (auto simp: Let_def split: prod.splits sum.splits)
  show ?case using Cons.prems(2) rs(2,3) no Cons.IH [OF rs(1)] by auto
qed simp

lemma monitored_remove:
  "set (monitored_symbols (fold remove_levels ss d)) = set (monitored_symbols d) - set ss"
proof (induction ss arbitrary: d)
  case (Cons s ss)
  have "set (monitored_symbols (remove_levels s d)) = set (monitored_symbols d) - {s}"
    by (simp add: monitored_symbols_def remove_levels_def delete_dom)
  then show ?case using Cons.IH [of "remove_levels s d"] by auto
qed simp

text \<open>
  A liquidation forgets the stop loss of what it could not sell. When the broker refuses every
  order, in the first round and in the second, nothing is recorded as sold, and still no symbol that
  was to be sold is watched any more: the event detector will not sell it later either.
\<close>

lemma failed_sale_drops_levels:
  assumes "TRADING_ENABLED cfg" and "DAY_TRADING_ONLY cfg"
    and "se_holdings env = Inr hs" and "se_pending env = Inr orders"
    and "distinct (map (\<lambda>h. normalize_krx_symbol (hi_symbol h)) hs)"
    and "\<forall>h \<in> set hs. normalize_krx_symbol (hi_symbol h) \<notin> ag_selling (xs_agent x)"
    and "\<forall>r a. env_place (se_dm env) r = Inr a \<or> env_place retry r = Inr a \<longrightarrow> \<not> ores_success a"
    and "h \<in> set (adjust_sellable orders hs)"
  shows "let x' = force_liquidation cfg False env retry llm x
    in dm_db (xs_dm x') = dm_db (xs_dm x) \<and> hi_symbol h \<notin> set (monitored_symbols (xs_detector x'))"
proof -
  let ?sell = "adjust_sellable orders hs"
  have x': "force_liquidation cfg False env retry llm x = liquidate_all cfg (se_dm env) retry hs ?sell x"
    using assms(1-4,8) adjust_sellable_mem [OF assms(8)] by (auto simp: force_liquidation_def Let_def)
  obtain rs ag1 dm1 where g: "gather_sells cfg (se_dm env) ?sell (xs_agent x, xs_dm x) = (rs, ag1, dm1)"
    by (metis prod_cases3)
  have ag1: "ag1 = xs_agent x" by (rule gather_agent [OF g])
  have refused: "\<not> ms_success ms" if "gather_sells cfg e k (ag, dm) = (os, ag', dm')" "(Answered ms, h) \<in> set os"
    "\<And>r a. env_place e r = Inr a \<Longrightarrow> \<not> ores_success a" for e k ag dm os ag' dm' ms h
  proof -
    obtain rs0 ls ag1 dm1 where s: "start_sells cfg e k (ag, dm) = (rs0, ls, ag1, dm1)"
      by (cases "start_sells cfg e k (ag, dm)") auto
    then have "rs0 = os" using that(1) by (simp add: gather_sells_def)
    then show ?thesis using start_sells_refused [OF that(3) s] that(2) by simp
  qed
  then obtain failed where f: "settle_first (se_dm env) rs dm1 = (0, failed, dm1)"
    using refused_settles_nothing(2) g assms(7) by meson
  have failed: "subseq failed ?sell" using settle_first_frame [OF f] gather_orders [OF g] by simp
  obtain rs2 ag2 dm3 where g2: "(if failed = [] then ([], ag1, dm1) else gather_sells cfg retry failed (ag1, dm1)) = (rs2, ag2, dm3)"
    by (metis prod_cases3)
  have sub: "subseq (map (\<lambda>h. normalize_krx_symbol (hi_symbol h)) ?sell) (map (\<lambda>h. normalize_krx_symbol (hi_symbol h)) hs)"
    by (induction hs) (auto simp: adjust_sellable_def Let_def intro: list_emb_Cons)
  then have d: "distinct (map (\<lambda>h. normalize_krx_symbol (hi_symbol h)) failed)"
    using distinct_subseq [OF subseq_map [OF failed]] distinct_subseq assms(5) by blast
  have free: "\<forall>h \<in> set failed. normalize_krx_symbol (hi_symbol h) \<notin> ag_selling ag1"
  proof
    fix k assume "k \<in> set failed"
    then have "k \<in> set ?sell" using subseq_set [OF failed] by blast
    then obtain k' where "k' \<in> set hs" "hi_symbol k = hi_symbol k'" using adjust_sellable_mem by blast
    then show "normalize_krx_symbol (hi_symbol k) \<notin> ag_selling ag1" using assms(6) ag1 by simp
  qed
  have "\<forall>p \<in> set rs2. fst p \<noteq> In_progress"
  proof (cases "failed = []")
    case False
    obtain rs0 ls ag' dm' where s: "start_sells cfg retry failed (ag1, dm1) = (rs0, ls, ag', dm')"
      by (cases "start_sells cfg retry failed (ag1, dm1)") auto
    then have "rs0 = rs2" using g2 False by (simp add: gather_sells_def)
    then show ?thesis using start_sells_free [OF s d free] by simp
  qed (use g2 in simp)
  then obtain m dm4 where r: "settle_retry retry rs2 dm3 = (Some m, dm4)" using settle_retry_Some by blast
  have "\<forall>ms h. (Answered ms, h) \<in> set rs2 \<longrightarrow> \<not> ms_success ms"
    using refused [of retry failed ag1 dm1 rs2 ag2 dm3] g2 assms(7) by (cases "failed = []") auto
  then have "dm4 = dm3" using refused_settles_nothing(1) [of rs2 retry dm3] r by simp
  moreover have "dm_db dm3 = dm_db dm1" using g2 gather_orders [of cfg retry failed ag1 dm1 rs2 ag2 dm3] by (cases "failed = []") auto
  moreover have "dm_db dm1 = dm_db (xs_dm x)" using gather_orders [OF g] by simp
  ultimately have db: "dm_db dm4 = dm_db (xs_dm x)" by simp
  have "hi_symbol h \<in> hi_symbol ` set hs" using adjust_sellable_mem [OF assms(8)] by auto
  then have "hi_symbol h \<in> set (filter (\<lambda>s. s \<in> hi_symbol ` set ?sell) (map hi_symbol hs))" using assms(8) by auto
  then show ?thesis using db unfolding x' by (simp add: liquidate_all_def g f g2 r Let_def monitored_remove)
qed

lemma failed_sale_drops_levels_witness:
  "''A005930'' \<notin> set (monitored_symbols (xs_detector (force_liquidation (default_settings\<lparr>DAY_TRADING_ONLY := True\<rparr>) False
     (sample_sched_env (\<lambda>_. Inr 100) [sample_holding] [] (sample_env\<lparr>env_place := \<lambda>_. Inl (Exn ExternalError [])\<rparr>))
     (sample_env\<lparr>env_place := \<lambda>_. Inl (Exn ExternalError [])\<rparr>) []
     (sample_sched\<lparr>xs_detector := set_stop_loss ''A005930'' 67000 new_detector\<rparr>))))"
proof -
  have "sample_holding \<in> set (adjust_sellable [] [sample_holding])"
    by (simp add: adjust_sellable_def pending_sell_qty_def sample_holding_def)
  then show ?thesis
    using failed_sale_drops_levels [of "default_settings\<lparr>DAY_TRADING_ONLY := True\<rparr>"
        "sample_sched_env (\<lambda>_. Inr 100) [sample_holding] [] (sample_env\<lparr>env_place := \<lambda>_. Inl (Exn ExternalError [])\<rparr>)"
        "[sample_holding]" "[]" "sample_sched\<lparr>xs_detector := set_stop_loss ''A005930'' 67000 new_detector\<rparr>"
        "sample_env\<lparr>env_place := \<lambda>_. Inl (Exn ExternalError [])\<rparr>" sample_holding "[]"]
    by (simp add: sample_sched_env_def sample_sched_def new_agent_def default_settings_def Let_def) (simp add: sample_holding_def)
qed

section \<open>Overnight positions\<close>

lemma close_orphans_raises:
  assumes "tr \<in> set trs" and "tr_symbol tr \<notin> actual" and "\<exists>e. close_orphan now price tr = Inl e"
  shows "\<exists>e. close_orphans now price actual trs s = Inl e"
  using assms(1)
proof (induction trs arbitrary: s)
  case (Cons t trs)
  show ?case
  proof (cases "tr_symbol t \<in> actual")
    case True
    then show ?thesis using Cons assms(2) by auto
  next
    case False
    show ?thesis
    proof (cases "close_orphan now price t")
      case (Inr t')
      then have "tr \<noteq> t" using assms(3) by auto
      then show ?thesis using Cons False Inr by auto
    qed (use False in simp)
  qed
qed simp

text \<open>
  One position the account no longer holds stops the check of all overnight positions. As soon
  as an open row has no shares behind it, a current price and a purchase price can be had, and the
  row has a time of entry (as every confirmed buy has), the time difference raises; nothing is cleaned
  up, and no stop loss or target is restored for any position.
\<close>

lemma orphan_blocks_restore:
  assumes "db_ok (dm_db (xs_dm x))" and "aware (env_now (se_dm env))"
    and "se_holdings env = Inr hs" and "tr \<in> set (get_all_open (dm_db (xs_dm x)))" and "tr_symbol tr \<notin> held_symbols hs"
    and "se_price env (tr_symbol tr) = Inr p" and "0 < p" and "0 < tr_entry_price tr" and "tr_entry_at tr \<noteq> None"
  shows "check_overnight_positions env x = x"
proof -
  have "tr \<in> set (db_rows (dm_db (xs_dm x)))" using assms(4) by (auto simp: get_all_open_def newest_first_def)
  then have "row_naive tr" using assms(1) by (auto simp: db_ok_def list_all_iff)
  then obtain d where d: "tr_entry_at tr = Some d" "\<not> aware d" using assms(9) by (auto simp: row_naive_def)
  then have "\<exists>e. close_orphan (env_now (se_dm env)) (se_price env) tr = Inl e"
    using assms(2,6-8) by (simp add: close_orphan_def Let_def hold_days_of_def dt_sub_def)
  from close_orphans_raises [OF assms(4,5) this] obtain e where
    "close_orphans (env_now (se_dm env)) (se_price env) (held_symbols hs) (get_all_open (dm_db (xs_dm x))) (dm_db (xs_dm x)) = Inl e"
    by blast
  then show ?thesis using assms(3) by (simp add: check_overnight_positions_def Let_def)
qed

text \<open>A row whose shares are still held, with its levels.\<close>

definition sample_open :: trade_result where
  "sample_open = (default_trade (PyDT 0 False))\<lparr>tr_id := 1, tr_order_id := Some ''B1'', tr_symbol := ''A005930'', tr_side := ''BUY'',
     tr_entry_price := 70000, tr_quantity := 10, tr_entry_at := Some (PyDT 0 False), tr_ai_stop := Some 67000,
     tr_ai_target := Some 75000\<rparr>"

definition sample_open_sched :: sched_state where
  "sample_open_sched = sample_sched\<lparr>xs_dm := fresh_dm\<lparr>dm_db := \<lparr>db_rows = [sample_open], db_seq = 2\<rparr>\<rparr>\<rparr>"

lemma sample_open_rows:
  "db_ok (dm_db (xs_dm sample_open_sched))" "get_all_open (dm_db (xs_dm sample_open_sched)) = [sample_open]"
  by (simp_all add: sample_open_sched_def sample_open_def db_ok_def session_ok_def ids_ok_def orders_ok_def row_naive_def
      default_trade_def get_all_open_def newest_first_def is_open_buy_def)

lemma orphan_blocks_restore_witness:
  "check_overnight_positions (sample_sched_env (\<lambda>_. Inr 100) [] [] sample_env) sample_open_sched = sample_open_sched"
  using orphan_blocks_restore [of sample_open_sched "sample_sched_env (\<lambda>_. Inr 100) [] [] sample_env" "[]" sample_open 100]
  by (simp add: sample_open_rows) (simp add: sample_sched_env_def sample_env_def held_symbols_def sample_open_def)

lemma close_orphans_held:
  "tr_symbol ` set trs \<subseteq> actual \<Longrightarrow> close_orphans now price actual trs s = Inr s"
  by (induction trs) auto

lemma set_thresholds_other: "s \<noteq> s' \<Longrightarrow> get_thresholds s (set_thresholds s' kwargs d) = get_thresholds s d"
  by (simp add: get_thresholds_def set_thresholds_def Let_def update_conv')

lemma init_highest_levels [simp]:
  "th_stop_loss (init_highest th) = th_stop_loss th" "th_take_profit (init_highest th) = th_take_profit th"
  by (simp_all add: init_highest_def)

lemma restore_levels_set:
  "th_stop_loss (get_thresholds (tr_symbol tr) (restore_levels tr d)) =
     (if 0 < opt_or (tr_ai_stop tr) 0 then opt_or (tr_ai_stop tr) 0 else th_stop_loss (get_thresholds (tr_symbol tr) d))"
  "th_take_profit (get_thresholds (tr_symbol tr) (restore_levels tr d)) =
     (if 0 < opt_or (tr_ai_target tr) 0 then opt_or (tr_ai_target tr) 0 else th_take_profit (get_thresholds (tr_symbol tr) d))"
  by (auto simp: restore_levels_def restored_levels_def get_thresholds_def set_thresholds_def Let_def update_conv'
      validated_def set_threshold_key_def opt_or_def num_or_def split: option.splits if_splits)

lemma restore_levels_other: "s \<noteq> tr_symbol tr \<Longrightarrow> get_thresholds s (restore_levels tr d) = get_thresholds s d"
  by (simp add: restore_levels_def set_thresholds_other)

lemma restore_all_other:
  "s \<notin> tr_symbol ` set trs \<Longrightarrow> get_thresholds s (fold restore_levels trs d) = get_thresholds s d"
  by (induction trs arbitrary: d) (simp_all add: restore_levels_other)

text \<open>
  When every open position is still held, the check before the opening restores the watched
  levels of each: the stop loss and the target of its row where the row has them, the watched values
  where it has not; the table is untouched. (One open row per symbol.)
\<close>

lemma overnight_levels_restored:
  assumes "env_db_up (se_dm env)" and "se_holdings env = Inr hs"
    and "tr_symbol ` set (get_all_open (dm_db (xs_dm x))) \<subseteq> held_symbols hs"
    and "distinct (map tr_symbol (get_all_open (dm_db (xs_dm x))))" and "tr \<in> set (get_all_open (dm_db (xs_dm x)))"
  shows "let x' = check_overnight_positions env x; th = get_thresholds (tr_symbol tr) (xs_detector x');
             before = get_thresholds (tr_symbol tr) (xs_detector x)
    in dm_db (xs_dm x') = dm_db (xs_dm x) \<and>
       th_stop_loss th = (if 0 < opt_or (tr_ai_stop tr) 0 then opt_or (tr_ai_stop tr) 0 else th_stop_loss before) \<and>
       th_take_profit th = (if 0 < opt_or (tr_ai_target tr) 0 then opt_or (tr_ai_target tr) 0 else th_take_profit before)"
proof -
  let ?open = "get_all_open (dm_db (xs_dm x))"
  have kept: "filter (\<lambda>tr. tr_symbol tr \<in> held_symbols hs) ?open = ?open" using assms(3) by (auto simp: filter_id_conv)
  obtain ys zs where split: "?open = ys @ tr # zs" using assms(5) by (metis split_list)
  then have ys: "tr_symbol tr \<notin> tr_symbol ` set ys" and zs: "tr_symbol tr \<notin> tr_symbol ` set zs" using assms(4) by auto
  have x': "check_overnight_positions env x =
      x\<lparr>xs_dm := (xs_dm x)\<lparr>dm_db := dm_db (xs_dm x)\<rparr>, xs_detector := fold restore_levels ?open (xs_detector x)\<rparr>"
    using assms(1,2,5) close_orphans_held [OF assms(3)] kept by (auto simp: check_overnight_positions_def Let_def)
  have "get_thresholds (tr_symbol tr) (fold restore_levels ?open (xs_detector x)) =
      get_thresholds (tr_symbol tr) (restore_levels tr (fold restore_levels ys (xs_detector x)))"
    using restore_all_other [OF zs] by (simp add: split)
  then show ?thesis using restore_all_other [OF ys, of "xs_detector x"] by (simp add: x' Let_def restore_levels_set)
qed

lemma overnight_levels_restored_witness:
  "th_stop_loss (get_thresholds ''A005930'' (xs_detector (check_overnight_positions
     (sample_sched_env (\<lambda>_. Inr 100) [sample_holding] [] sample_env) sample_open_sched))) = 67000"
proof -
  have "tr_symbol sample_open = ''A005930''" "opt_or (tr_ai_stop sample_open) 0 = 67000" by (simp_all add: sample_open_def)
  moreover have "held_symbols [sample_holding] = {''A005930''}" by (simp add: held_symbols_def sample_holding_def)
  moreover have "env_db_up sample_env" by (simp add: sample_env_def)
  ultimately show ?thesis
    using overnight_levels_restored [of "sample_sched_env (\<lambda>_. Inr 100) [sample_holding] [] sample_env" "[sample_holding]"
        sample_open_sched sample_open]
    by (simp add: sample_open_rows sample_sched_env_def Let_def)
qed

section \<open>The review\<close>

text \<open>
  A decision to add to a position ends the review. The holdings after it are not looked at:
  whatever the model decided for them, to sell or to move a stop loss, nothing of it happens.
\<close>

lemma add_buy_ends_review:
  assumes "review_action cfg (env_now env) (llm (data_symbol d))
      (case hmap (data_symbol d) of None \<Rightarrow> d | Some d' \<Rightarrow> d') = ''ADD_BUY''"
  shows "review_each cfg env llm hmap (before @ d # after) x = review_each cfg env llm hmap before x"
proof (induction before arbitrary: x)
  case Nil
  show ?case using assms by (simp add: Let_def)
next
  case (Cons b bs)
  show ?case by (simp add: Let_def Cons.IH)
qed

lemma add_buy_ends_review_witness:
  "dm_placed (xs_dm (review_each default_settings sample_env
     (\<lambda>s. Some \<lparr>rd_action = Some (if s = ''A005930'' then ''add_buy'' else ''SELL''), rd_stop = None, rd_target = None\<rparr>) (\<lambda>_. None)
     ([] @ (sample_holding, sample_open, 100) # [(sample_holding\<lparr>hi_symbol := ''000660''\<rparr>, sample_open, 100)]) sample_sched)) = []"
proof -
  have "upper ''add_buy'' = ''ADD_BUY''" by code_simp
  then show ?thesis
    using add_buy_ends_review [of default_settings sample_env
        "\<lambda>s. Some \<lparr>rd_action = Some (if s = ''A005930'' then ''add_buy'' else ''SELL''), rd_stop = None, rd_target = None\<rparr>"
        "(sample_holding, sample_open, 100)" "\<lambda>_. None" "[]"
        "[(sample_holding\<lparr>hi_symbol := ''000660''\<rparr>, sample_open, 100)]" sample_sched]
    by (simp add: review_action_def data_symbol_def sample_holding_def sample_sched_def fresh_dm_def)
qed

end
