(* ===== verification/Timeline.thy ===== *)
theory Timeline
  imports Accounts Cycle Liquidation
begin

text \<open>
  The day of the program: the cycle's dispatch and the review after the close
  (\<open>run_cycle\<close>, \<open>_run_after_hours_cycle\<close>, \<open>_save_daily_report\<close> of \<open>agent/trading_agent.py\<close>), the report of
  a day (\<open>services/daily_report_service.py\<close>), and the scheduler's jobs around them: preparation before
  the opening, scans, review, the polls of news that events ask for, and the table of the jobs
  (\<open>scheduler/scheduler.py\<close>). The broker, the model's answers, the calendar and the clock are arguments;
  prompts, log entries and texts for display are left out.
\<close>

section \<open>The report of a day\<close>

record daily_report =
  dr_date :: int
  dr_total_cycles :: nat
  dr_total_analyses :: nat
  dr_total_recommendations :: nat
  dr_total_orders :: nat
  dr_buy_count :: nat
  dr_sell_count :: nat
  dr_win_count :: nat
  dr_loss_count :: nat
  dr_total_pnl :: real
  dr_unrealized_pnl :: real
  dr_open_position_count :: nat
  dr_market_summary :: "string option"
  dr_performance_review :: "string option"
  dr_lessons_learned :: "string option"
  dr_next_day_plan :: "string option"
  dr_top_picks :: "string option"
  dr_strategy_stats :: "string option"

definition new_report :: "int \<Rightarrow> daily_report" where
  "new_report d = \<lparr>dr_date = d, dr_total_cycles = 0, dr_total_analyses = 0, dr_total_recommendations = 0, dr_total_orders = 0,
     dr_buy_count = 0, dr_sell_count = 0, dr_win_count = 0, dr_loss_count = 0, dr_total_pnl = 0, dr_unrealized_pnl = 0,
     dr_open_position_count = 0, dr_market_summary = None, dr_performance_review = None, dr_lessons_learned = None,
     dr_next_day_plan = None, dr_top_picks = None, dr_strategy_stats = None\<rparr>"

text \<open>The table \<open>daily_reports\<close>, unique by its date.\<close>

definition report_of :: "int \<Rightarrow> daily_report list \<Rightarrow> daily_report option" where
  "report_of d reports = find (\<lambda>r. dr_date r = d) reports"

definition put_report :: "daily_report \<Rightarrow> daily_report list \<Rightarrow> daily_report list" where
  "put_report r reports =
     (if report_of (dr_date r) reports = None then reports @ [r]
      else map (\<lambda>x. if dr_date x = dr_date r then r else x) reports)"

record day_activity =
  da_cycles :: nat
  da_analyses :: nat
  da_recommendations :: nat
  da_orders :: nat

definition count_of :: "string \<Rightarrow> (string \<times> nat) list \<Rightarrow> nat" where
  "count_of k counts = (case map_of counts k of None \<Rightarrow> 0 | Some n \<Rightarrow> n)"

text \<open>Every cycle leaves two entries.\<close>

definition activity_of :: "(string \<times> nat) list \<Rightarrow> day_activity" where
  "activity_of counts = \<lparr>da_cycles = count_of ''CYCLE'' counts div 2, da_analyses = count_of ''TIER1_ANALYSIS'' counts,
     da_recommendations = count_of ''DECISION'' counts, da_orders = count_of ''ORDER'' counts\<rparr>"

text \<open>The numbers both writers of a report take from the table of trades.\<close>

record trade_counts =
  tc_buys :: nat
  tc_sells :: nat
  tc_wins :: nat
  tc_losses :: nat
  tc_pnl :: real
  tc_open_symbols :: nat

definition trade_counts_of :: "int \<Rightarrow> db \<Rightarrow> trade_counts" where
  "trade_counts_of d s =
     (let closed = get_completed_by_date d s
      in \<lparr>tc_buys = length (get_opened_by_date d s), tc_sells = get_sell_count_by_date d s,
          tc_wins = length (filter tr_is_win closed), tc_losses = length (filter (\<lambda>t. \<not> tr_is_win t) closed),
          tc_pnl = sum_list (map tr_pnl closed), tc_open_symbols = card (tr_symbol ` set (get_all_open s))\<rparr>)"

definition set_counts :: "day_activity \<Rightarrow> trade_counts \<Rightarrow> daily_report \<Rightarrow> daily_report" where
  "set_counts a c r = r\<lparr>dr_total_cycles := da_cycles a, dr_total_analyses := da_analyses a,
     dr_total_recommendations := da_recommendations a, dr_buy_count := tc_buys c, dr_sell_count := tc_sells c,
     dr_win_count := tc_wins c, dr_loss_count := tc_losses c, dr_total_pnl := tc_pnl c\<rparr>"

text \<open>The review of the model: the texts the report keeps, whether its summary can be put together, and
  its action items. \<open>Inl\<close> stands for the exception the odd answer raises there.\<close>

record review =
  rv_today :: string
  rv_trade_eval :: string
  rv_improvement :: string
  rv_stats :: string
  rv_summary :: "unit res"
  rv_items :: "action_item list"

definition save_daily_report :: "int \<Rightarrow> review \<Rightarrow> day_activity \<Rightarrow> db \<Rightarrow> daily_report list \<Rightarrow> daily_report list" where
  "save_daily_report d rv a s reports =
     (let c = trade_counts_of d s; orders = tc_buys c + tc_sells c;
          r = (case report_of d reports of None \<Rightarrow> new_report d | Some r \<Rightarrow> r)
      in put_report ((set_counts a c r)\<lparr>dr_total_orders := (if 0 < orders then orders else da_orders a),
           dr_open_position_count := tc_open_symbols c, dr_market_summary := Some (rv_today rv),
           dr_performance_review := Some (rv_trade_eval rv), dr_lessons_learned := Some (rv_improvement rv),
           dr_next_day_plan := Some [], dr_top_picks := Some ''[]'', dr_strategy_stats := Some (rv_stats rv)\<rparr>) reports)"

section \<open>The report service\<close>

record account_view =
  av_unrealized :: real
  av_holdings :: nat

text \<open>The account over the manager, else over the broker, else nothing.\<close>

definition account_view_of ::
  "(account_balance \<times> nat) res \<Rightarrow> (account_balance \<times> nat) res \<Rightarrow> account_view" where
  "account_view_of manager broker =
     (case manager of
        Inr (b, n) \<Rightarrow> \<lparr>av_unrealized = bal_total_pnl b, av_holdings = n\<rparr>
      | Inl _ \<Rightarrow> (case broker of
            Inr (b, n) \<Rightarrow> \<lparr>av_unrealized = bal_total_pnl b, av_holdings = n\<rparr>
          | Inl _ \<Rightarrow> \<lparr>av_unrealized = 0, av_holdings = 0\<rparr>))"

text \<open>The five texts of the report: the model's, or the fallback when it fails.\<close>

record report_texts =
  rt_market_summary :: string
  rt_performance_review :: string
  rt_lessons_learned :: string
  rt_next_day_plan :: string
  rt_top_picks :: string

definition set_texts :: "report_texts \<Rightarrow> daily_report \<Rightarrow> daily_report" where
  "set_texts t r = r\<lparr>dr_market_summary := Some (rt_market_summary t), dr_performance_review := Some (rt_performance_review t),
     dr_lessons_learned := Some (rt_lessons_learned t), dr_next_day_plan := Some (rt_next_day_plan t),
     dr_top_picks := Some (rt_top_picks t)\<rparr>"

definition fill_report ::
  "account_view \<Rightarrow> (string \<times> nat) list \<Rightarrow> int \<Rightarrow> string \<Rightarrow> report_texts option res \<Rightarrow> (daily_report \<Rightarrow> report_texts) \<Rightarrow>
     db \<Rightarrow> daily_report \<Rightarrow> daily_report" where
  "fill_report view counts d stats answer fallback s r =
     (let c = trade_counts_of d s;
          open_count = (if av_holdings view = 0 \<and> get_all_open s \<noteq> [] then tc_open_symbols c else av_holdings view);
          filled = (set_counts (activity_of counts) c r)\<lparr>dr_total_orders := tc_buys c + tc_sells c,
                     dr_unrealized_pnl := av_unrealized view, dr_open_position_count := open_count\<rparr>;
          texts = (case answer of Inr (Some t) \<Rightarrow> t | _ \<Rightarrow> fallback filled)
      in (set_texts texts filled)\<lparr>dr_strategy_stats := Some stats\<rparr>)"

text \<open>The answer and the table; \<open>None\<close> is a failed generation. \<open>fallback\<close> builds the texts from the numbers,
  \<open>stats\<close> is the text of the counts.\<close>

definition generate_daily_report ::
  "bool \<Rightarrow> bool \<Rightarrow> int \<Rightarrow> account_view \<Rightarrow> (string \<times> nat) list res \<Rightarrow> string \<Rightarrow> report_texts option res \<Rightarrow>
     (daily_report \<Rightarrow> report_texts) \<Rightarrow> db \<Rightarrow> daily_report list \<Rightarrow> daily_report option \<times> daily_report list" where
  "generate_daily_report db_up force d view counts stats answer fallback s reports =
     (if \<not> db_up then (None, reports)
      else case (report_of d reports, force, counts) of
        (Some r, False, _) \<Rightarrow> (Some r, reports)
      | (_, _, Inl e) \<Rightarrow> (None, reports)
      | (existing, _, Inr cs) \<Rightarrow>
          (let r = fill_report view cs d stats answer fallback s (get_default existing (new_report d))
           in (Some r, put_report r reports)))"

section \<open>The state of a day\<close>

record day_state =
  dy_world :: agent_world
  dy_stream :: "kis_ws stream"
  dy_rescans :: nat
  dy_rules :: rule_table
  dy_reports :: "daily_report list"
  dy_reviews :: "bool list"

text \<open>The part the selling jobs work on, and their result put back.\<close>

definition sched_view :: "day_state \<Rightarrow> sched_state" where
  "sched_view d = \<lparr>xs_agent = aw_agent (dy_world d), xs_detector = ps_detector (aw_pipe (dy_world d)),
     xs_dm = ps_dm (aw_pipe (dy_world d)), ss_stream = dy_stream d, ss_rescans = dy_rescans d\<rparr>"

definition put_sched :: "sched_state \<Rightarrow> day_state \<Rightarrow> day_state" where
  "put_sched x d = d\<lparr>dy_world := (dy_world d)\<lparr>aw_agent := xs_agent x,
       aw_pipe := (aw_pipe (dy_world d))\<lparr>ps_detector := xs_detector x, ps_dm := xs_dm x\<rparr>\<rparr>,
     dy_stream := ss_stream x, dy_rescans := ss_rescans x\<rparr>"

definition day_cfg :: "day_state \<Rightarrow> settings" where "day_cfg d = ps_cfg (aw_pipe (dy_world d))"
definition day_dm :: "day_state \<Rightarrow> dm_state" where "day_dm d = ps_dm (aw_pipe (dy_world d))"
definition day_db :: "day_state \<Rightarrow> db" where "day_db d = dm_db (day_dm d)"

definition put_db :: "db \<Rightarrow> day_state \<Rightarrow> day_state" where
  "put_db s d = d\<lparr>dy_world := (dy_world d)\<lparr>aw_pipe := (aw_pipe (dy_world d))\<lparr>ps_dm := (day_dm d)\<lparr>dm_db := s\<rparr>\<rparr>\<rparr>\<rparr>"

section \<open>The review after the close\<close>

record ah_env =
  ah_now :: pydt
  ah_db_up :: bool
  ah_balance :: "account_balance res"
  ah_counts :: "(string \<times> nat) list res"
  ah_holdings :: "holding_info list res"
  ah_price :: "string \<Rightarrow> real res"
  ah_review :: "review option res"

text \<open>Rows whose shares are gone are closed; the commit comes only after the loop, so an exception in it
  leaves the table as it was.\<close>

definition clean_orphans :: "ah_env \<Rightarrow> db \<Rightarrow> db" where
  "clean_orphans env s =
     (let open_rows = get_all_open s;
          actual = (case ah_holdings env of Inl e \<Rightarrow> tr_symbol ` set open_rows | Inr hs \<Rightarrow> held_symbols hs)
      in if \<not> ah_db_up env \<or> open_rows = [] \<or> list_all (\<lambda>tr. tr_symbol tr \<in> actual) open_rows then s
         else case close_orphans (ah_now env) (ah_price env) actual open_rows s of
             Inl e \<Rightarrow> s
           | Inr s' \<Rightarrow> db_commit s')"

definition day_counts :: "ah_env \<Rightarrow> day_activity" where
  "day_counts env =
     (case (ah_db_up env, ah_counts env) of
        (True, Inr cs) \<Rightarrow> activity_of cs
      | _ \<Rightarrow> \<lparr>da_cycles = 0, da_analyses = 0, da_recommendations = 0, da_orders = 0\<rparr>)"

text \<open>What follows a readable answer: the report and the rules, each only if the database answers.\<close>

definition keep_review :: "ah_env \<Rightarrow> review \<Rightarrow> day_state \<Rightarrow> day_state" where
  "keep_review env rv d =
     (if \<not> ah_db_up env then d
      else d\<lparr>dy_reports := save_daily_report (dt_date (ah_now env)) rv (day_counts env) (day_db d) (dy_reports d),
             dy_rules := generate_rules_from_review (ah_now env) (rv_items rv) (dy_rules d)\<rparr>)"

definition after_hours_body :: "ah_env \<Rightarrow> day_state \<Rightarrow> bool \<times> day_state" where
  "after_hours_body env d =
     (case ah_balance env of
        Inl e \<Rightarrow> (False, d)
      | Inr b \<Rightarrow>
          (let d1 = (if DAY_TRADING_ONLY (day_cfg d) then d else put_db (clean_orphans env (day_db d)) d)
           in case ah_review env of
                Inr (Some rv) \<Rightarrow> (True, case rv_summary rv of Inl e \<Rightarrow> d1 | Inr _ \<Rightarrow> keep_review env rv d1)
              | _ \<Rightarrow> (False, d1)))"

definition run_after_hours_cycle :: "ah_env \<Rightarrow> day_state \<Rightarrow> bool \<times> day_state" where
  "run_after_hours_cycle env d =
     (let (generated, d1) = after_hours_body env (d\<lparr>dy_world := (dy_world d)\<lparr>aw_started := aw_started (dy_world d) + 1\<rparr>\<rparr>)
      in (generated, d1\<lparr>dy_world := (dy_world d1)\<lparr>aw_last_cycle := Some (ah_now env)\<rparr>,
                        dy_reviews := dy_reviews d1 @ [generated]\<rparr>))"

section \<open>The dispatch of a cycle\<close>

datatype cycle_outcome = Skipped cycle_start | Traded cycle_results | Reviewed bool

record run_env =
  re_reconfiguring :: bool
  re_trading_hours :: bool
  re_now :: pydt
  re_cycle :: cycle_env
  re_after_hours :: ah_env

definition set_cycle_lock :: "bool \<Rightarrow> day_state \<Rightarrow> day_state" where
  "set_cycle_lock b d = d\<lparr>dy_world := (dy_world d)\<lparr>aw_agent := (aw_agent (dy_world d))\<lparr>ag_cycle_locked := b\<rparr>\<rparr>\<rparr>"

definition run_cycle :: "run_env \<Rightarrow> day_state \<Rightarrow> cycle_outcome \<times> day_state" where
  "run_cycle env d =
     (let start = run_cycle_start (day_cfg d) (re_reconfiguring env) (re_trading_hours env) (re_now env) (aw_agent (dy_world d));
          d1 = set_cycle_lock True d
      in case start of
           Trading_cycle \<Rightarrow>
             (let (r, w) = run_trading_cycle (re_cycle env) (dy_world d1)
              in (Traded r, set_cycle_lock False (d1\<lparr>dy_world := w\<rparr>)))
         | After_hours_cycle \<Rightarrow>
             (let (g, d2) = run_after_hours_cycle (re_after_hours env) d1 in (Reviewed g, set_cycle_lock False d2))
         | Buy_cutoff \<Rightarrow> (Skipped start, d\<lparr>dy_world := (dy_world d)\<lparr>aw_last_cycle := Some (re_now env)\<rparr>\<rparr>)
         | _ \<Rightarrow> (Skipped start, d))"

definition outcome_selected :: "cycle_outcome \<Rightarrow> (string \<times> string) list" where
  "outcome_selected r = (case r of Traded c \<Rightarrow> cr_selected c | _ \<Rightarrow> [])"

section \<open>The jobs\<close>

text \<open>\<open>dict\<close> by symbol over the pairs: the place of the first, the value of the last; then the first 41.\<close>

definition merge_symbols :: "(string \<times> string) list \<Rightarrow> (string \<times> string) list" where
  "merge_symbols ps = take 41 (fold (\<lambda>(s, m). AList.update s m) ps [])"

record job_env =
  je_holiday :: bool
  je_now :: pydt
  je_balance :: "account_balance res"
  je_sched :: sched_env
  je_run :: run_env
  je_holdings :: "holding_info list res"
  je_rules_up :: bool

definition watch_symbols :: "ws_env \<Rightarrow> (string \<times> string) list \<Rightarrow> day_state \<Rightarrow> day_state" where
  "watch_symbols env ps d =
     (if ps = [] then d
      else d\<lparr>dy_stream := update_subscriptions (ws_subscribe env) (ws_unsubscribe env) subscription_count ps (dy_stream d)\<rparr>)"

definition holding_pairs :: "holding_info list \<Rightarrow> (string \<times> string) list" where
  "holding_pairs hs = map (\<lambda>h. (hi_symbol h, ''KRX'')) (filter (\<lambda>h. hi_symbol h \<noteq> []) hs)"

text \<open>The rules of the day: when there are any they are applied over the parameters as they are; what
  applies is counted and what has expired is switched off.\<close>

definition apply_rules :: "pydt \<Rightarrow> day_state \<Rightarrow> day_state" where
  "apply_rules now d =
     (let (active, t) = load_active_rules now (dy_rules d);
          brain = aw_brain (dy_world d);
          applied = brain\<lparr>pa_strategies := apply_to_strategies active (pa_strategies brain),
                          pa_risk_manager := apply_to_risk_manager active (pa_risk_manager brain), pa_rules := active\<rparr>;
          ids = filter (\<lambda>i. ru_active (t ! i) \<and> wall now < wall (ru_expires_at (t ! i))) [0..<length t];
          t1 = (if ar_rules active = [] then t else record_application ids t)
      in d\<lparr>dy_world := (dy_world d)\<lparr>aw_brain := (if ar_rules active = [] then brain else applied)\<rparr>,
           dy_rules := snd (expire_old_rules now t1)\<rparr>)"

definition pre_market :: "job_env \<Rightarrow> day_state \<Rightarrow> day_state" where
  "pre_market env d =
     (if je_holiday env then d
      else
        let d1 = (case je_balance env of Inl e \<Rightarrow> d
                  | Inr b \<Rightarrow> d\<lparr>dy_world := (dy_world d)\<lparr>aw_daily_start := bal_total_asset b\<rparr>\<rparr>);
            d2 = (if DAY_TRADING_ONLY (day_cfg d1) then d1
                  else put_sched (check_overnight_positions (je_sched env) (sched_view d1)) d1)
        in if je_rules_up env then apply_rules (je_now env) d2 else d2)"

definition market_open_scan :: "job_env \<Rightarrow> day_state \<Rightarrow> day_state" where
  "market_open_scan env d =
     (if je_holiday env then d
      else
        let d1 = (if DAY_TRADING_ONLY (day_cfg d) then d
                  else put_sched (check_overnight_gap (day_cfg d) (je_sched env) (sched_view d)) d);
            (r, d2) = run_cycle (je_run env) d1
        in case je_holdings env of
             Inl e \<Rightarrow> d2
           | Inr hs \<Rightarrow> watch_symbols (se_ws (je_sched env)) (merge_symbols (outcome_selected r @ holding_pairs hs)) d2)"

definition intraday_rescan :: "job_env \<Rightarrow> day_state \<Rightarrow> day_state" where
  "intraday_rescan env d =
     (if je_holiday env \<or> DAY_TRADING_ONLY (day_cfg d) \<and> buy_cutoff (day_cfg d) \<le> dt_tod (je_now env) then d
      else
        let (r, d1) = run_cycle (je_run env) d; selected = outcome_selected r
        in if selected = [] then d1
           else case je_holdings env of
             Inl e \<Rightarrow> d1
           | Inr hs \<Rightarrow> watch_symbols (se_ws (je_sched env)) (merge_symbols (selected @ holding_pairs hs)) d1)"

definition post_market :: "job_env \<Rightarrow> day_state \<Rightarrow> day_state" where
  "post_market env d = (if je_holiday env then d else snd (run_cycle (je_run env) d))"

text \<open>At the start outside the session: \<open>trading_day\<close> is the calendar's answer.\<close>

definition post_market_if_needed :: "bool \<Rightarrow> bool \<Rightarrow> job_env \<Rightarrow> day_state \<Rightarrow> day_state" where
  "post_market_if_needed db_up trading_day env d =
     (if \<not> db_up then d
      else if report_of (dt_date (je_now env)) (dy_reports d) \<noteq> None then d
      else if trading_day \<and> (15 * 60 + 30) * minute_us < dt_tod (je_now env) then snd (run_cycle (je_run env) d)
      else d)"

definition on_startup :: "bool \<Rightarrow> bool \<Rightarrow> bool \<Rightarrow> job_env \<Rightarrow> day_state \<Rightarrow> day_state" where
  "on_startup trading_hours db_up trading_day env d =
     (if trading_hours then market_open_scan env d else post_market_if_needed db_up trading_day env d)"

section \<open>Polls of news on events\<close>

record poll_state =
  np_last :: real
  np_by_symbol :: "string \<Rightarrow> real option"

definition new_polls :: poll_state where
  "new_polls = \<lparr>np_last = 0, np_by_symbol = (\<lambda>_. None)\<rparr>"

definition global_poll_cooldown :: real where "global_poll_cooldown = 90"
definition symbol_poll_cooldown :: real where "symbol_poll_cooldown = 300"

text \<open>Whether the event starts a poll: the symbol is the stripped text of the event.\<close>

definition on_news_trigger_event :: "bool \<Rightarrow> string \<Rightarrow> real \<Rightarrow> poll_state \<Rightarrow> bool \<times> poll_state" where
  "on_news_trigger_event enabled raw_symbol now_mono st =
     (let symbol = strip raw_symbol; last_symbol = (case np_by_symbol st symbol of None \<Rightarrow> 0 | Some t \<Rightarrow> t)
      in if \<not> enabled \<or> now_mono - np_last st < global_poll_cooldown then (False, st)
         else if symbol \<noteq> [] \<and> now_mono - last_symbol < symbol_poll_cooldown then (False, st)
         else (True, st\<lparr>np_last := now_mono,
                 np_by_symbol := (if symbol = [] then np_by_symbol st else (np_by_symbol st)(symbol \<mapsto> now_mono))\<rparr>))"

text \<open>The scheduled poll runs only in the hours it is meant for.\<close>

definition news_poll_runs :: "bool \<Rightarrow> bool \<Rightarrow> bool option \<Rightarrow> bool" where
  "news_poll_runs enabled trading_hours wanted \<longleftrightarrow> enabled \<and> (wanted = None \<or> wanted = Some trading_hours)"

section \<open>The table of the jobs\<close>

datatype trigger = Cron "nat list" "nat list" bool | Every_minutes nat

record sched_settings =
  SCHEDULER_ENABLED :: bool
  NEWS_POLL_ENABLED :: bool
  NEWS_POLL_INTERVAL_MIN_TRADING :: int
  NEWS_POLL_INTERVAL_MIN_OFF_HOURS :: int
  METRICS_RESOURCE_SAMPLING_ENABLED :: bool
  METRICS_RESOURCE_INTERVAL_MIN :: int
  METRICS_MAINTENANCE_ENABLED :: bool
  METRICS_MAINTENANCE_INTERVAL_MIN :: int
  FORCE_LIQUIDATION_HOUR :: nat
  FORCE_LIQUIDATION_MINUTE :: nat

definition minutes_or :: "int \<Rightarrow> int \<Rightarrow> nat" where
  "minutes_or setting d = nat (max (num_or setting d) 1)"

text \<open>\<open>_setup_jobs\<close>, in its order; the flag of a \<open>Cron\<close> says that only week days count.\<close>

definition setup_jobs :: "sched_settings \<Rightarrow> bool \<Rightarrow> bool \<Rightarrow> (string \<times> trigger) list" where
  "setup_jobs ss include_trading include_news =
     (if include_trading then
        [(''pre_market'', Cron [8] [50] True), (''market_open_scan'', Cron [9] [5] True),
         (''intraday_rescan'', Cron [11, 13] [0] True)] else []) @
     (if include_news then
        [(''news_poll_trading'', Every_minutes (minutes_or (NEWS_POLL_INTERVAL_MIN_TRADING ss) 5)),
         (''news_poll_off_hours'', Every_minutes (minutes_or (NEWS_POLL_INTERVAL_MIN_OFF_HOURS ss) 30)),
         (''news_translation_backfill'', Every_minutes 5)] else []) @
     (if METRICS_RESOURCE_SAMPLING_ENABLED ss
      then [(''resource_snapshot'', Every_minutes (minutes_or (METRICS_RESOURCE_INTERVAL_MIN ss) 5))] else []) @
     (if METRICS_MAINTENANCE_ENABLED ss
      then [(''observability_maintenance'', Every_minutes (minutes_or (METRICS_MAINTENANCE_INTERVAL_MIN ss) 60))] else []) @
     (if include_trading then
        [(''account_equity_snapshot'', Cron [9..<16] (map (\<lambda>k. 5 * k) [0..<12]) True),
         (''holdings_check'', Cron [9..<15] [0, 15, 30, 45] True),
         (''intraday_holdings_review'', Cron [9..<15] [0, 30] True),
         (''force_liquidation'', Cron [FORCE_LIQUIDATION_HOUR ss] [FORCE_LIQUIDATION_MINUTE ss] True),
         (''post_market'', Cron [15] [40] True), (''portfolio_sync'', Cron [16] [0] False),
         (''market_data'', Cron [16] [30] False), (''expire_recommendations'', Every_minutes 60)] else [])"

record scheduler_state =
  sc_running :: bool
  sc_jobs :: "(string \<times> trigger) list"
  sc_spawned :: "string list"

text \<open>\<open>start\<close> builds a new scheduler with its jobs and spawns the first tasks; \<open>stop\<close> leaves an empty one.\<close>

definition scheduler_start :: "sched_settings \<Rightarrow> scheduler_state \<Rightarrow> scheduler_state" where
  "scheduler_start ss st =
     (if sc_running st \<or> \<not> SCHEDULER_ENABLED ss \<and> \<not> NEWS_POLL_ENABLED ss then st
      else \<lparr>sc_running = True, sc_jobs = setup_jobs ss (SCHEDULER_ENABLED ss) (NEWS_POLL_ENABLED ss),
            sc_spawned = sc_spawned st @ (if SCHEDULER_ENABLED ss then [''trading_startup''] else []) @
              (if NEWS_POLL_ENABLED ss then [''initial_news_poll'', ''initial_news_translation_backfill''] else [])\<rparr>)"

definition scheduler_stop :: "scheduler_state \<Rightarrow> scheduler_state" where
  "scheduler_stop st = (if sc_running st then st\<lparr>sc_running := False, sc_jobs := []\<rparr> else st)"

section \<open>Lemmas\<close>

lemma day_sel [simp]:
  "day_dm (put_db s d) = (day_dm d)\<lparr>dm_db := s\<rparr>" "day_db (put_db s d) = s" "dy_reports (put_db s d) = dy_reports d"
  "dy_rules (put_db s d) = dy_rules d" "dy_reviews (put_db s d) = dy_reviews d" "day_cfg (put_db s d) = day_cfg d"
  "aw_started (dy_world (put_db s d)) = aw_started (dy_world d)" "aw_agent (dy_world (put_db s d)) = aw_agent (dy_world d)"
  by (simp_all add: put_db_def day_dm_def day_db_def day_cfg_def)

lemma keep_review_sel [simp]:
  "dy_world (keep_review env rv d) = dy_world d" "dy_reviews (keep_review env rv d) = dy_reviews d"
  "dy_stream (keep_review env rv d) = dy_stream d" "dy_rescans (keep_review env rv d) = dy_rescans d"
  by (simp_all add: keep_review_def)

subsection \<open>Reports\<close>

lemma report_of_put: "report_of d' (put_report r reports) = (if d' = dr_date r then Some r else report_of d' reports)"
proof (cases "report_of (dr_date r) reports")
  case None
  then show ?thesis by (auto simp: put_report_def report_of_def find_append split: option.splits)
next
  case (Some x)
  then have "put_report r reports = map (\<lambda>x. if dr_date x = dr_date r then r else x) reports" by (simp add: put_report_def)
  moreover have "report_of d' (map (\<lambda>x. if dr_date x = dr_date r then r else x) reports) =
      (if d' = dr_date r then (if dr_date r \<in> dr_date ` set reports then Some r else None) else report_of d' reports)"
    by (induction reports) (auto simp: report_of_def)
  moreover have "dr_date r \<in> dr_date ` set reports" 
    using Some unfolding report_of_def find_Some_iff by (metis imageI nth_mem)
  ultimately show ?thesis by simp
qed

lemma put_report_dates:
  assumes "distinct (map dr_date reports)"
  shows "distinct (map dr_date (put_report r reports))"
proof (cases "report_of (dr_date r) reports")
  case None
  then show ?thesis using assms by (auto simp: put_report_def report_of_def find_None_iff)
next
  case (Some x)
  have "map dr_date (map (\<lambda>x. if dr_date x = dr_date r then r else x) reports) = map dr_date reports" by simp
  moreover have "put_report r reports = map (\<lambda>x. if dr_date x = dr_date r then r else x) reports"
    using Some by (simp add: put_report_def)
  ultimately show ?thesis using assms by metis
qed

lemma dr_date_sel [simp]:
  "dr_date (new_report d) = d" "dr_date (set_counts a c r) = dr_date r" "dr_date (set_texts t r) = dr_date r"
  "dr_date (fill_report view cs d stats answer fallback s r) = dr_date r"
  by (simp_all add: new_report_def set_counts_def set_texts_def fill_report_def Let_def)

lemma report_date: "report_of d reports = Some r \<Longrightarrow> dr_date r = d"
  by (auto simp: report_of_def find_Some_iff)

lemma win_loss_count: "tc_wins (trade_counts_of d s) + tc_losses (trade_counts_of d s) = length (get_completed_by_date d s)"
  using sum_length_filter_compl [of tr_is_win "get_completed_by_date d s"] by (simp add: trade_counts_of_def Let_def)

lemma counts_agree_with_summary:
  "tc_wins (trade_counts_of d s) + tc_losses (trade_counts_of d s) = pt_closed_count (build_summary d s eq)"
  "tc_pnl (trade_counts_of d s) = pt_realized (build_summary d s eq)"
proof -
  have rows: "mset (get_completed_by_date d s) = mset (realized_rows d s)" by (rule completed_rows)
  then have "length (get_completed_by_date d s) = length (realized_rows d s)" by (metis size_mset)
  then show "tc_wins (trade_counts_of d s) + tc_losses (trade_counts_of d s) = pt_closed_count (build_summary d s eq)"
    by (simp add: win_loss_count build_summary_def fetch_realized_trade_pnl_def Let_def)
  have "sum_list (map tr_pnl (get_completed_by_date d s)) = sum_list (map tr_pnl (realized_rows d s))"
    using rows by (metis mset_map sum_mset_sum_list)
  then show "tc_pnl (trade_counts_of d s) = pt_realized (build_summary d s eq)"
    by (simp add: trade_counts_of_def build_summary_def fetch_realized_trade_pnl_def Let_def)
qed

text \<open>
  The numbers of a report, whoever wrote it, counted over the rows of the table: a confirmed buy
  closed on the day is a win or a loss, a confirmed row of the day is a buy by its entry and a
  sell by its exit.
\<close>

definition dated :: "int \<Rightarrow> pydt option \<Rightarrow> bool" where
  "dated d t \<longleftrightarrow> map_option dt_date t = Some d"

definition closed_on :: "int \<Rightarrow> trade_result \<Rightarrow> bool" where
  "closed_on d t \<longleftrightarrow> tr_side t = ''BUY'' \<and> tr_status t = CONFIRMED \<and> dated d (tr_exit_at t)"

definition report_counts_ok :: "db \<Rightarrow> equity_db \<Rightarrow> int \<Rightarrow> daily_report \<Rightarrow> bool" where
  "report_counts_ok s eq d r \<longleftrightarrow> dr_date r = d \<and>
     dr_win_count r = length (filter (\<lambda>t. closed_on d t \<and> tr_is_win t) (db_rows s)) \<and>
     dr_loss_count r = length (filter (\<lambda>t. closed_on d t \<and> \<not> tr_is_win t) (db_rows s)) \<and>
     dr_buy_count r = length (filter (\<lambda>t. tr_side t = ''BUY'' \<and> tr_status t = CONFIRMED \<and> dated d (tr_entry_at t)) (db_rows s)) \<and>
     dr_sell_count r = length (filter (\<lambda>t. tr_side t = ''SELL'' \<and> tr_status t = CONFIRMED \<and> dated d (tr_exit_at t)) (db_rows s)) \<and>
     dr_total_pnl r = sum_list (map tr_pnl (filter (closed_on d) (db_rows s))) \<and>
     dr_win_count r + dr_loss_count r = pt_closed_count (build_summary d s eq) \<and>
     dr_total_pnl r = pt_realized (build_summary d s eq)"

lemma dated_iff: "dated d t \<longleftrightarrow> t \<noteq> None \<and> on_day d t"
  using on_day_iff by (cases t) (simp_all add: dated_def)

lemma realized_closed: "realized_rows d s = filter (closed_on d) (db_rows s)"
  unfolding realized_rows_def by (intro filter_cong) (auto simp: closed_on_def dated_def split: option.splits)

lemma completed_count: "length (filter P (get_completed_by_date d s)) = length (filter (\<lambda>t. closed_on d t \<and> P t) (db_rows s))"
proof -
  have "mset (filter P (get_completed_by_date d s)) = mset (filter P (realized_rows d s))"
    by (simp add: completed_rows)
  then show ?thesis by (metis (no_types, lifting) filter_cong filter_filter realized_closed size_mset)
qed

lemma trade_counts_rows:
  "tc_wins (trade_counts_of d s) = length (filter (\<lambda>t. closed_on d t \<and> tr_is_win t) (db_rows s))"
  "tc_losses (trade_counts_of d s) = length (filter (\<lambda>t. closed_on d t \<and> \<not> tr_is_win t) (db_rows s))"
  "tc_buys (trade_counts_of d s) =
     length (filter (\<lambda>t. tr_side t = ''BUY'' \<and> tr_status t = CONFIRMED \<and> dated d (tr_entry_at t)) (db_rows s))"
  "tc_sells (trade_counts_of d s) =
     length (filter (\<lambda>t. tr_side t = ''SELL'' \<and> tr_status t = CONFIRMED \<and> dated d (tr_exit_at t)) (db_rows s))"
proof -
  show "tc_wins (trade_counts_of d s) = length (filter (\<lambda>t. closed_on d t \<and> tr_is_win t) (db_rows s))"
    by (simp add: trade_counts_of_def Let_def completed_count)
  show "tc_losses (trade_counts_of d s) = length (filter (\<lambda>t. closed_on d t \<and> \<not> tr_is_win t) (db_rows s))"
    by (simp add: trade_counts_of_def Let_def completed_count)
  have "on_day d t \<Longrightarrow> t \<noteq> None" for t by (cases t) (simp_all add: on_day_def)
  then show "tc_buys (trade_counts_of d s) =
     length (filter (\<lambda>t. tr_side t = ''BUY'' \<and> tr_status t = CONFIRMED \<and> dated d (tr_entry_at t)) (db_rows s))"
    unfolding trade_counts_of_def Let_def get_opened_by_date_def
    by (simp add: dated_iff) (intro arg_cong [where f = length] filter_cong; blast)
  show "tc_sells (trade_counts_of d s) =
     length (filter (\<lambda>t. tr_side t = ''SELL'' \<and> tr_status t = CONFIRMED \<and> dated d (tr_exit_at t)) (db_rows s))"
    unfolding trade_counts_of_def Let_def get_sell_count_by_date_def
    by (simp add: dated_iff) (intro arg_cong [where f = length] filter_cong; blast)
qed

lemma trade_counts_pnl: "tc_pnl (trade_counts_of d s) = sum_list (map tr_pnl (filter (closed_on d) (db_rows s)))"
proof -
  have "sum_list (map tr_pnl (get_completed_by_date d s)) = sum_list (map tr_pnl (realized_rows d s))"
    using completed_rows by (metis mset_map sum_mset_sum_list)
  then show ?thesis by (simp add: trade_counts_of_def realized_closed Let_def)
qed

lemma set_counts_ok:
  "dr_date r = d \<Longrightarrow> report_counts_ok s eq d ((set_counts a (trade_counts_of d s) r)\<lparr>dr_total_orders := n,
     dr_open_position_count := m, dr_market_summary := t1, dr_performance_review := t2, dr_lessons_learned := t3,
     dr_next_day_plan := t4, dr_top_picks := t5, dr_strategy_stats := t6\<rparr>)"
  using counts_agree_with_summary [of d s eq]
  by (simp add: report_counts_ok_def set_counts_def trade_counts_rows trade_counts_pnl)

lemma fill_report_ok:
  "dr_date r = d \<Longrightarrow> report_counts_ok s eq d (fill_report view cs d stats answer fallback s r)"
  using counts_agree_with_summary [of d s eq]
  by (simp add: report_counts_ok_def fill_report_def set_counts_def set_texts_def Let_def trade_counts_rows trade_counts_pnl)

subsection \<open>Orphans\<close>

text \<open>Two tables agree except at some rows.\<close>

definition agree_except :: "nat set \<Rightarrow> trade_result list \<Rightarrow> trade_result list \<Rightarrow> bool" where
  "agree_except ids = list_all2 (\<lambda>r r'. tr_id r' = tr_id r \<and> (tr_id r \<notin> ids \<longrightarrow> r' = r))"

lemma agree_refl [simp]: "agree_except ids rs rs"
  by (simp add: agree_except_def list_all2_refl)

lemma agree_trans: "agree_except a rs rs' \<Longrightarrow> agree_except b rs' rs'' \<Longrightarrow> agree_except (a \<union> b) rs rs''"
  by (auto simp: agree_except_def list_all2_conv_all_nth)

lemma agree_put: "agree_except {tr_id r} (db_rows s) (db_rows (db_put r s))"
  by (auto simp: agree_except_def db_put_def db_modify_def list_all2_conv_all_nth)

lemma agree_mono: "agree_except a rs rs' \<Longrightarrow> a \<subseteq> b \<Longrightarrow> agree_except b rs rs'"
  unfolding agree_except_def by (erule list_all2_mono) auto

lemma close_orphan_ids: "close_orphan now price tr = Inr tr' \<Longrightarrow> tr_id tr' = tr_id tr \<and> tr_order_id tr' = tr_order_id tr"
  by (auto simp: close_orphan_def Let_def rbind_eq_Inr split: if_splits)

lemma close_orphans_frame:
  assumes "close_orphans now price actual trs s = Inr s'" and "session_ok s" and "distinct (map tr_id trs)"
    and "\<forall>t \<in> set trs. \<forall>x \<in> set (db_rows s). tr_id x = tr_id t \<longrightarrow> tr_order_id x = tr_order_id t"
  shows "session_ok s' \<and> agree_except (tr_id ` {t \<in> set trs. tr_symbol t \<notin> actual}) (db_rows s) (db_rows s')"
  using assms
proof (induction trs arbitrary: s)
  case (Cons t ts)
  show ?case
  proof (cases "tr_symbol t \<in> actual")
    case True
    then have "close_orphans now price actual ts s = Inr s'" using Cons.prems(1) by simp
    moreover have "distinct (map tr_id ts)" using Cons.prems(3) by simp
    moreover have "\<forall>u \<in> set ts. \<forall>x \<in> set (db_rows s). tr_id x = tr_id u \<longrightarrow> tr_order_id x = tr_order_id u"
      using Cons.prems(4) by (meson list.set_intros(2))
    ultimately have "session_ok s' \<and> agree_except (tr_id ` {u \<in> set ts. tr_symbol u \<notin> actual}) (db_rows s) (db_rows s')"
      using Cons.IH Cons.prems(2) by blast
    moreover have "tr_id ` {u \<in> set ts. tr_symbol u \<notin> actual} \<subseteq> tr_id ` {u \<in> set (t # ts). tr_symbol u \<notin> actual}" by auto
    ultimately show ?thesis by (blast intro: agree_mono)
  next
    case False
    from Cons.prems(1) False obtain t' where t': "close_orphan now price t = Inr t'"
        and rest: "close_orphans now price actual ts (db_put t' s) = Inr s'"
      by (auto simp: rbind_eq_Inr)
    note ids = close_orphan_ids [OF t']
    have ok: "session_ok (db_put t' s)" using Cons.prems(2,4) ids by (intro session_ok_put) auto
    have fresh: "\<forall>u \<in> set ts. \<forall>x \<in> set (db_rows (db_put t' s)). tr_id x = tr_id u \<longrightarrow> tr_order_id x = tr_order_id u"
      using Cons.prems(3,4) ids by (auto simp: db_put_def db_modify_def)
    have "distinct (map tr_id ts)" using Cons.prems(3) by simp
    then have IH: "session_ok s' \<and> agree_except (tr_id ` {u \<in> set ts. tr_symbol u \<notin> actual}) (db_rows (db_put t' s)) (db_rows s')"
      using Cons.IH [OF rest ok] fresh by blast
    have "agree_except {tr_id t} (db_rows s) (db_rows (db_put t' s))" using agree_put [of t' s] ids by simp
    from agree_trans [OF this conjunct2 [OF IH]]
    have "agree_except ({tr_id t} \<union> tr_id ` {u \<in> set ts. tr_symbol u \<notin> actual}) (db_rows s) (db_rows s')" .
    moreover have "{tr_id t} \<union> tr_id ` {u \<in> set ts. tr_symbol u \<notin> actual} \<subseteq> tr_id ` {u \<in> set (t # ts). tr_symbol u \<notin> actual}"
      using False by auto
    ultimately show ?thesis using IH by (blast intro: agree_mono)
  qed
qed auto

lemma agree_commit:
  assumes "agree_except ids rs rs'" and "list_all row_naive rs"
  shows "agree_except ids rs (map stored_row rs')"
  using assms unfolding agree_except_def
  by (induction rule: list_all2_induct) (auto simp: stored_row_of_naive)

lemma clean_orphans_frame:
  assumes "db_ok s"
  shows "db_ok (clean_orphans env s) \<and>
    agree_except (tr_id ` {t \<in> set (get_all_open s). ah_db_up env \<and>
        (case ah_holdings env of Inl e \<Rightarrow> False | Inr hs \<Rightarrow> tr_symbol t \<notin> held_symbols hs)})
      (db_rows s) (db_rows (clean_orphans env s))"
proof -
  define actual where "actual = (case ah_holdings env of Inl e \<Rightarrow> tr_symbol ` set (get_all_open s) | Inr hs \<Rightarrow> held_symbols hs)"
  have unique: "distinct (map tr_id (db_rows s))" using assms by (simp add: db_ok_def session_ok_def ids_ok_def)
  have open_ids: "distinct (map tr_id (get_all_open s))"
    using unique by (simp add: get_all_open_def newest_first_def distinct_map_filter rev_map distinct_map inj_on_def)
  have same: "\<forall>t \<in> set (get_all_open s). \<forall>x \<in> set (db_rows s). tr_id x = tr_id t \<longrightarrow> tr_order_id x = tr_order_id t"
    using unique by (auto simp: get_all_open_def newest_first_def distinct_map inj_on_def)
  show ?thesis
  proof (cases "ah_db_up env \<and> \<not> list_all (\<lambda>tr. tr_symbol tr \<in> actual) (get_all_open s)")
    case False
    then have "clean_orphans env s = s" by (auto simp: clean_orphans_def actual_def Let_def)
    then show ?thesis using assms by simp
  next
    case True
    then obtain hs where hs: "ah_holdings env = Inr hs" by (auto simp: actual_def list_all_iff split: sum.splits)
    show ?thesis
    proof (cases "close_orphans (ah_now env) (ah_price env) actual (get_all_open s) s")
      case (Inl e)
      then have "clean_orphans env s = s" by (simp add: clean_orphans_def actual_def Let_def)
      then show ?thesis using assms by simp
    next
      case (Inr s')
      have "clean_orphans env s = db_commit s'" using True Inr by (auto simp: clean_orphans_def actual_def Let_def)
      moreover note close_orphans_frame [OF Inr _ open_ids same]
      ultimately show ?thesis
        using assms True hs session_ok_commit [of s']
        by (auto simp: db_ok_def db_commit_def actual_def intro!: agree_commit)
    qed
  qed
qed

subsection \<open>Cycles and jobs\<close>

lemma after_hours_db:
  "day_db (snd (run_after_hours_cycle env d)) = day_db d \<or>
   day_db (snd (run_after_hours_cycle env d)) = clean_orphans env (day_db d) \<and> \<not> DAY_TRADING_ONLY (day_cfg d)"
  by (auto simp: run_after_hours_cycle_def after_hours_body_def Let_def day_db_def day_dm_def put_db_def day_cfg_def keep_review_def
      split: sum.splits option.splits)

lemma after_hours_frame:
  "day_dm (snd (run_after_hours_cycle env d)) = (day_dm d)\<lparr>dm_db := day_db (snd (run_after_hours_cycle env d))\<rparr>"
  "aw_started (dy_world (snd (run_after_hours_cycle env d))) = aw_started (dy_world d) + 1"
  "dy_reviews (snd (run_after_hours_cycle env d)) = dy_reviews d @ [fst (run_after_hours_cycle env d)]"
  "aw_last_cycle (dy_world (snd (run_after_hours_cycle env d))) = Some (ah_now env)"
  by (auto simp: run_after_hours_cycle_def after_hours_body_def Let_def day_db_def day_dm_def put_db_def day_cfg_def keep_review_def
      split: sum.splits option.splits)

text \<open>Whatever a cycle meets, it gives its lock back.\<close>

lemma run_trading_cycle_lock:
  "ag_cycle_locked (aw_agent (snd (run_trading_cycle env w))) = ag_cycle_locked (aw_agent w)"
  by (auto simp: run_trading_cycle_def cycle_body_def note_start_balance_def Let_def split: option.splits sum.splits prod.splits)

lemma run_cycle_releases:
  "\<not> ag_cycle_locked (aw_agent (dy_world d)) \<Longrightarrow> \<not> ag_cycle_locked (aw_agent (dy_world (snd (run_cycle env d))))"
  by (simp add: run_cycle_def run_cycle_start_def set_cycle_lock_def Let_def case_prod_beta)

lemma locked_cycle_skips:
  "ag_cycle_locked (aw_agent (dy_world d)) \<Longrightarrow> snd (run_cycle env d) = d"
  by (simp add: run_cycle_def run_cycle_start_def Let_def)

lemma holiday_jobs_rest:
  "je_holiday env \<Longrightarrow> pre_market env d = d \<and> market_open_scan env d = d \<and> intraday_rescan env d = d \<and> post_market env d = d"
  by (simp add: pre_market_def market_open_scan_def intraday_rescan_def post_market_def)

lemma review_once_per_day:
  "report_of (dt_date (je_now env)) (dy_reports d) \<noteq> None \<Longrightarrow> post_market_if_needed up trading_day env d = d"
  by (simp add: post_market_if_needed_def)

lemma merge_symbols_bounds: "length (merge_symbols ps) \<le> 41 \<and> distinct (map fst (merge_symbols ps))"
proof -
  have "distinct (map fst (fold (\<lambda>(s, m). AList.update s m) ps al))" if "distinct (map fst al)" for al :: "(string \<times> string) list"
    using that by (induction ps arbitrary: al) (auto simp: distinct_update)
  then have "distinct (map fst (fold (\<lambda>(s, m). AList.update s m) ps []))" by simp
  then show ?thesis unfolding merge_symbols_def take_map [symmetric] by simp
qed

lemma setup_jobs_distinct: "distinct (map fst (setup_jobs ss include_trading include_news))"
  by (cases include_trading; cases include_news; cases "METRICS_RESOURCE_SAMPLING_ENABLED ss";
      cases "METRICS_MAINTENANCE_ENABLED ss"; simp add: setup_jobs_def)

lemma scheduler_start_idem: "scheduler_start ss (scheduler_start ss st) = scheduler_start ss st"
  by (simp add: scheduler_start_def)

subsection \<open>Rules of the day\<close>

text \<open>Loading keeps no parameter that no active rule names.\<close>

definition no_param :: "string \<Rightarrow> active_rules \<Rightarrow> bool" where
  "no_param p ar \<longleftrightarrow> (\<forall>(scope, ps) \<in> set (ar_params ar). p \<notin> fst ` set ps)"

lemma scope_no_param: "no_param p ar \<Longrightarrow> p \<notin> fst ` set (scope_params scope ar)"
  by (cases "map_of (ar_params ar) scope") (auto simp: no_param_def scope_params_def get_default_def dest!: map_of_SomeD bspec)

lemma fst_update: "fst ` set (AList.update k v ps) = insert k (fst ` set ps)"
  using dom_update [of k v ps] by (simp add: dom_map_of_conv_image_fst)

lemma load_no_param: "no_param p ar \<Longrightarrow> ru_param r \<noteq> p \<Longrightarrow> no_param p (load_rule r ar)"
  using scope_no_param [of p ar "str_or (ru_strategy r) ''ALL''"]
  by (auto simp: load_rule_def Let_def no_param_def fst_update dest!: mem_update)

lemma loads_no_param: "no_param p ar \<Longrightarrow> \<forall>r \<in> set rs. ru_param r \<noteq> p \<Longrightarrow> no_param p (fold load_rule rs ar)"
  by (induction rs arbitrary: ar) (simp_all add: load_no_param)

lemma set_params_keep_stop:
  "''stop_loss_pct'' \<notin> fst ` set ps \<Longrightarrow> sp_stop_loss_pct (fold (\<lambda>(name, v). set_param name v) ps p) = sp_stop_loss_pct p"
  by (induction ps arbitrary: p) (auto simp: set_param_def)

lemma apply_keeps_stop:
  "no_param ''stop_loss_pct'' ar \<Longrightarrow> sp_stop_loss_pct (apply_to_strategy ar k p) = sp_stop_loss_pct p"
  unfolding apply_to_strategy_def by (rule set_params_keep_stop) (simp add: image_Un scope_no_param)

lemma map_of_apply: "map_of (apply_to_strategies ar ss) k = map_option (apply_to_strategy ar k) (map_of ss k)"
  by (induction ss) (auto simp: apply_to_strategies_def)

lemma bootstrap_mem:
  "r \<in> set (ensure_bootstrap_rules now t) \<Longrightarrow> r \<in> set t \<or> ru_param r \<in> {''revalidate_rr_ratio'', ''require_stop_loss_logging''}"
  by (auto simp: ensure_bootstrap_rules_def ensure_bootstrap_rule_def bootstrap_rule_def split: if_splits)

subsection \<open>Polls\<close>

text \<open>The events that start a poll, in a sequence of events at any times.\<close>

fun poll_run :: "(string \<times> real) list \<Rightarrow> poll_state \<Rightarrow> (string \<times> real) list" where
  "poll_run [] st = []"
| "poll_run ((s, t) # es) st =
     (if fst (on_news_trigger_event True s t st) then (s, t) # poll_run es (snd (on_news_trigger_event True s t st))
      else poll_run es (snd (on_news_trigger_event True s t st)))"

declare poll_run.simps(2) [simp del]

lemma poll_cases:
  "on_news_trigger_event True s t st = (False, st) \<or>
   on_news_trigger_event True s t st = (True, st\<lparr>np_last := t,
      np_by_symbol := (if strip s = [] then np_by_symbol st else (np_by_symbol st)(strip s \<mapsto> t))\<rparr>) \<and>
   np_last st + 90 \<le> t \<and> (\<forall>l. strip s \<noteq> [] \<longrightarrow> np_by_symbol st (strip s) = Some l \<longrightarrow> l + 300 \<le> t)"
  by (auto simp: on_news_trigger_event_def Let_def global_poll_cooldown_def symbol_poll_cooldown_def not_less)

lemma poll_run_after:
  assumes "(s', t') \<in> set (poll_run es st)"
  shows "np_last st + 90 \<le> t' \<and> (\<forall>l. strip s' \<noteq> [] \<longrightarrow> np_by_symbol st (strip s') = Some l \<longrightarrow> l + 300 \<le> t')"
  using assms
proof (induction es arbitrary: st)
  case (Cons e es)
  obtain s t where e: "e = (s, t)" by (cases e)
  from poll_cases [of s t st] show ?case
  proof (elim disjE conjE)
    assume "on_news_trigger_event True s t st = (False, st)"
    then show ?thesis using Cons by (simp add: e poll_run.simps)
  next
    assume pass: "on_news_trigger_event True s t st = (True, st\<lparr>np_last := t,
        np_by_symbol := (if strip s = [] then np_by_symbol st else (np_by_symbol st)(strip s \<mapsto> t))\<rparr>)"
      and wait: "np_last st + 90 \<le> t" "\<forall>l. strip s \<noteq> [] \<longrightarrow> np_by_symbol st (strip s) = Some l \<longrightarrow> l + 300 \<le> t"
    from Cons.prems pass consider "s' = s" "t' = t" | "(s', t') \<in> set (poll_run es (st\<lparr>np_last := t,
        np_by_symbol := (if strip s = [] then np_by_symbol st else (np_by_symbol st)(strip s \<mapsto> t))\<rparr>))"
      by (auto simp: e poll_run.simps)
    then show ?thesis
    proof cases
      case 1
      then show ?thesis using wait by simp
    next
      case 2
      from Cons.IH [OF 2] wait show ?thesis by (cases "strip s' = strip s"; cases "strip s = []") fastforce+
    qed
  qed
qed simp

section \<open>Properties\<close>

text \<open>
  C38: The report of a day: saving the review or generating the report leaves one report per day and the
  reports of other days alone, and whichever of the two wrote it last, its wins are the confirmed
  buys closed on that day that are marked as won, its losses those that are not, its buys and sells
  the confirmed rows entered and left on that day, its profit that of the closed buys, and wins,
  losses and profit together are those of the profit summary of the day.
\<close>

theorem daily_report_agrees_with_trades:
  assumes "distinct (map dr_date reports)"
    and "reports' = save_daily_report d rv a s reports \<or>
         generate_daily_report True True d view (Inr cs) stats answer fallback s reports = (Some r0, reports')"
  shows "distinct (map dr_date reports') \<and> (\<forall>d'. d' \<noteq> d \<longrightarrow> report_of d' reports' = report_of d' reports) \<and>
    (\<exists>r. report_of d reports' = Some r \<and> report_counts_ok s eq d r)"
proof -
  have old: "dr_date (case report_of d reports of None \<Rightarrow> new_report d | Some r \<Rightarrow> r) = d"
    using report_date by (auto split: option.splits)
  have base: "dr_date (get_default (report_of d reports) (new_report d)) = d"
    using report_date by (auto simp: get_default_def split: option.splits)
  have "\<exists>r. reports' = put_report r reports \<and> report_counts_ok s eq d r" using assms(2)
  proof
    assume "reports' = save_daily_report d rv a s reports"
    then show ?thesis using set_counts_ok [OF old, of s eq] unfolding save_daily_report_def Let_def by blast
  next
    assume "generate_daily_report True True d view (Inr cs) stats answer fallback s reports = (Some r0, reports')"
    then show ?thesis using fill_report_ok [OF base, of s eq]
      by (auto simp: generate_daily_report_def Let_def split: option.splits)
  qed
  then obtain r where r: "reports' = put_report r reports" "report_counts_ok s eq d r" by blast
  then show ?thesis
    using put_report_dates [OF assms(1)] by (auto simp: report_of_put report_counts_ok_def)
qed

text \<open>
  The review after the close sends no order and changes no position that the account still holds:
  of the table of trades only open rows whose symbol the account no longer holds may change, the
  table stays well formed, and the cycle ends exactly once, whatever fails on the way.
\<close>

lemma review_touches_only_orphans:
  assumes "db_ok (day_db d)" and "run_after_hours_cycle env d = (g, d')"
  shows "day_dm d' = (day_dm d)\<lparr>dm_db := day_db d'\<rparr> \<and> db_ok (day_db d') \<and>
    agree_except (tr_id ` {t \<in> set (get_all_open (day_db d)). ah_db_up env \<and> \<not> DAY_TRADING_ONLY (day_cfg d) \<and>
        (case ah_holdings env of Inl e \<Rightarrow> False | Inr hs \<Rightarrow> tr_symbol t \<notin> held_symbols hs)})
      (db_rows (day_db d)) (db_rows (day_db d')) \<and>
    dy_reviews d' = dy_reviews d @ [g] \<and> aw_started (dy_world d') = aw_started (dy_world d) + 1"
proof -
  have d': "d' = snd (run_after_hours_cycle env d)" "g = fst (run_after_hours_cycle env d)" using assms(2) by simp_all
  have frame: "day_dm d' = (day_dm d)\<lparr>dm_db := day_db d'\<rparr>" "dy_reviews d' = dy_reviews d @ [g]"
      "aw_started (dy_world d') = aw_started (dy_world d) + 1"
    unfolding d' by (rule after_hours_frame)+
  show ?thesis
  proof (cases "DAY_TRADING_ONLY (day_cfg d)")
    case True
    then have "day_db d' = day_db d" using after_hours_db [of env d] d' by simp
    then show ?thesis using frame assms(1) by simp
  next
    case False
    then show ?thesis using frame assms(1) after_hours_db [of env d] clean_orphans_frame [OF assms(1), of env] d' by auto
  qed
qed

text \<open>
  A trading rule that has expired is switched off but its effect stays: when the preparation before
  the opening finds no rule in force for the stop loss, the strategies keep the value the expired rule
  gave them.
\<close>

lemma expired_rule_keeps_effect:
  assumes "\<not> je_holiday env" and "je_rules_up env"
    and "r \<in> set (dy_rules d)" and "ru_param r = ''stop_loss_pct''"
    and "\<forall>x \<in> set (dy_rules d). ru_param x = ''stop_loss_pct'' \<longrightarrow> wall (ru_expires_at x) \<le> wall (je_now env)"
    and "map_of (pa_strategies (aw_brain (dy_world d))) k = Some p" and "sp_stop_loss_pct p = ru_value r"
  shows "(\<forall>x \<in> set (dy_rules (pre_market env d)). ru_param x = ''stop_loss_pct'' \<longrightarrow> \<not> ru_active x) \<and>
    (\<exists>p'. map_of (pa_strategies (aw_brain (dy_world (pre_market env d)))) k = Some p' \<and> sp_stop_loss_pct p' = ru_value r)"
proof -
  define now where "now = je_now env"
  obtain d2 where d2: "pre_market env d = apply_rules now d2" "dy_rules d2 = dy_rules d"
      "aw_brain (dy_world d2) = aw_brain (dy_world d)"
    using assms(1,2) by (auto simp: pre_market_def Let_def put_sched_def now_def split: sum.splits)
  obtain ar t where load: "load_active_rules now (dy_rules d) = (ar, t)" by fastforce
  have t: "t = ensure_bootstrap_rules now (dy_rules d)"
      and ar: "ar = fold load_rule (filter (\<lambda>r. ru_active r \<and> wall now < wall (ru_expires_at r)) t)
        (no_rules\<lparr>ar_rules := filter (\<lambda>r. ru_active r \<and> wall now < wall (ru_expires_at r)) t\<rparr>)"
    using load by (auto simp: load_active_rules_def Let_def)
  have expired: "wall (ru_expires_at x) \<le> wall now" if "x \<in> set t" "ru_param x = ''stop_loss_pct''" for x
    using bootstrap_mem [of x now "dy_rules d"] that assms(5) by (auto simp: t now_def)
  have "no_param ''stop_loss_pct'' ar"
    unfolding ar by (rule loads_no_param) (auto simp: no_param_def no_rules_def dest!: expired)
  then have keep: "sp_stop_loss_pct (apply_to_strategy ar k p) = ru_value r" using apply_keeps_stop assms(7) by simp
  have rows: "dy_rules (apply_rules now d2) = snd (expire_old_rules now t) \<or>
      (\<exists>ids. dy_rules (apply_rules now d2) = snd (expire_old_rules now (record_application ids t)))"
    by (auto simp: apply_rules_def d2(2) load Let_def)
  have counted: "\<exists>y \<in> set t. ru_param x = ru_param y \<and> ru_expires_at x = ru_expires_at y"
    if "x \<in> set (record_application ids t)" for x ids
    using that
  proof (induction ids arbitrary: x rule: rev_induct)
    case (snoc i ids)
    then show ?case
      by (auto simp: record_application_def split: if_splits dest!: set_update_subset_insert [THEN subsetD] nth_mem)
  qed (auto simp: record_application_def)
  have "\<not> ru_active x" if "x \<in> set (snd (expire_old_rules now u))" "ru_param x = ''stop_loss_pct''"
      "\<And>z. z \<in> set u \<Longrightarrow> ru_param z = ''stop_loss_pct'' \<Longrightarrow> wall (ru_expires_at z) \<le> wall now" for x u
    using that by (auto simp: expire_old_rules_def split: if_splits)
  moreover have "wall (ru_expires_at z) \<le> wall now"
    if "z \<in> set (record_application ids t)" "ru_param z = ''stop_loss_pct''" for z ids
    using counted [OF that(1)] that(2) expired by metis
  ultimately have "\<forall>x \<in> set (dy_rules (apply_rules now d2)). ru_param x = ''stop_loss_pct'' \<longrightarrow> \<not> ru_active x"
    using rows expired by metis
  moreover have "pa_strategies (aw_brain (dy_world (apply_rules now d2))) \<in>
      {pa_strategies (aw_brain (dy_world d)), apply_to_strategies ar (pa_strategies (aw_brain (dy_world d)))}"
    by (simp add: apply_rules_def d2(2,3) load Let_def)
  ultimately show ?thesis
    using d2(1) keep assms(6,7) by (auto simp: map_of_apply)
qed

text \<open>
  However many market events ask for it, and at whatever times, the polls of news they start are at
  least 90 seconds apart, and those for one symbol at least 300 seconds.
\<close>

lemma event_polls_spaced:
  "sorted_wrt (\<lambda>(s, t) (s', t'). t + 90 \<le> t' \<and> (strip s = strip s' \<longrightarrow> strip s \<noteq> [] \<longrightarrow> t + 300 \<le> t')) (poll_run es st)"
proof (induction es arbitrary: st)
  case (Cons e es)
  obtain s t where e: "e = (s, t)" by (cases e)
  show ?case
    using poll_cases [of s t st] Cons.IH
      poll_run_after [of _ _ es "st\<lparr>np_last := t, np_by_symbol := (if strip s = [] then np_by_symbol st else (np_by_symbol st)(strip s \<mapsto> t))\<rparr>"]
    by (auto simp: e poll_run.simps split: if_splits)
qed simp

definition sample_day :: "rule_table \<Rightarrow> day_state" where
  "sample_day rules = \<lparr>dy_world = sample_world\<lparr>aw_brain := (aw_brain sample_world)\<lparr>pa_strategies := [(''STABLE_SHORT'', stable_default)]\<rparr>\<rparr>,
     dy_stream = ss_stream sample_sched, dy_rescans = 0, dy_rules = rules, dy_reports = [], dy_reviews = []\<rparr>"

definition sample_review :: review where
  "sample_review = \<lparr>rv_today = ''calm'', rv_trade_eval = ''{}'', rv_improvement = [], rv_stats = ''{}'', rv_summary = Inr (), rv_items = []\<rparr>"

definition sample_ah :: ah_env where
  "sample_ah = \<lparr>ah_now = PyDT 0 True, ah_db_up = True, ah_balance = Inr empty_balance, ah_counts = Inr [], ah_holdings = Inr [],
     ah_price = (\<lambda>_. Inl (Exn ExternalError ''price'')), ah_review = Inr (Some sample_review)\<rparr>"

definition expired_stop_rule :: trading_rule where
  "expired_stop_rule = \<lparr>ru_rule_type = ''PARAM_OVERRIDE'', ru_strategy = ''ALL'', ru_param = ''stop_loss_pct'', ru_value = - (5 / 2),
     ru_source = ''DAILY_REVIEW'', ru_priority = ''LOW'', ru_active = True, ru_expires_at = PyDT 0 True, ru_created_at = PyDT 0 True,
     ru_applied_count = 0\<rparr>"

text \<open>A won and a lost trade, both closed on the day of the report.\<close>

definition closed_today :: "real \<Rightarrow> trade_result" where
  "closed_today pnl = (default_trade (PyDT 0 True))\<lparr>tr_side := ''BUY'', tr_exit_at := Some (PyDT 0 True),
     tr_pnl := pnl, tr_is_win := 0 < pnl\<rparr>"

definition won_and_lost :: db where
  "won_and_lost = empty_db\<lparr>db_rows := [closed_today 500, (closed_today (- 200))\<lparr>tr_id := 1\<rparr>]\<rparr>"

lemma daily_report_agrees_with_trades_witness:
  "\<exists>r. report_of 0 (save_daily_report 0 sample_review (day_counts sample_ah) won_and_lost []) = Some r \<and>
     dr_win_count r = 1 \<and> dr_loss_count r = 1 \<and> dr_total_pnl r = 300"
  using daily_report_agrees_with_trades [of "[]" "save_daily_report 0 sample_review (day_counts sample_ah) won_and_lost []" 0 sample_review
        "day_counts sample_ah" won_and_lost _ "[]" "[]" "Inr None" _ "new_report 0" empty_equity]
  by (auto simp: report_counts_ok_def won_and_lost_def closed_on_def dated_def dt_date_def
      closed_today_def default_trade_def)

lemma sample_day_db: "db_ok (day_db (sample_day rules))"
  by (simp add: sample_day_def sample_world_def day_db_def day_dm_def sample_pipeline_state_def fresh_dm_def empty_db_ok)

lemma review_touches_only_orphans_witness:
  "db_ok (day_db (snd (run_after_hours_cycle sample_ah (sample_day [])))) \<and>
   dm_placed (day_dm (snd (run_after_hours_cycle sample_ah (sample_day [])))) = dm_placed (day_dm (sample_day [])) \<and>
   length (dy_reviews (snd (run_after_hours_cycle sample_ah (sample_day [])))) = 1"
proof -
  obtain g d' where run: "run_after_hours_cycle sample_ah (sample_day []) = (g, d')" by fastforce
  from review_touches_only_orphans [OF sample_day_db run]
  have "day_dm d' = (day_dm (sample_day []))\<lparr>dm_db := day_db d'\<rparr>" "db_ok (day_db d')" "dy_reviews d' = dy_reviews (sample_day []) @ [g]"
    by blast+
  then show ?thesis using run by (metis (no_types, lifting) append_self_conv2 dm_state.ext_inject dm_state.surjective
      dm_state.update_convs(1) day_state.select_convs(6) length_0_conv length_Suc_conv One_nat_def sample_day_def snd_conv)
qed

lemma expired_rule_keeps_effect_witness:
  "\<exists>p'. map_of (pa_strategies (aw_brain (dy_world (pre_market \<lparr>je_holiday = False, je_now = PyDT 5 True, je_balance = Inr empty_balance,
      je_sched = sample_sched_env (\<lambda>_. Inr 100) [] [] sample_env, je_run = undefined, je_holdings = Inr [], je_rules_up = True\<rparr>
      (sample_day [expired_stop_rule]))))) ''STABLE_SHORT'' = Some p' \<and> sp_stop_loss_pct p' = - (5 / 2)"
  using expired_rule_keeps_effect [of "\<lparr>je_holiday = False, je_now = PyDT 5 True, je_balance = Inr empty_balance,
      je_sched = sample_sched_env (\<lambda>_. Inr 100) [] [] sample_env, je_run = undefined, je_holdings = Inr [], je_rules_up = True\<rparr>"
      expired_stop_rule "sample_day [expired_stop_rule]" "''STABLE_SHORT''" stable_default]
  by (simp add: sample_day_def expired_stop_rule_def stable_default_def)

lemma event_polls_spaced_witness:
  "poll_run [(''A'', 1000), (''A'', 1100), (''B'', 1100)] new_polls = [(''A'', 1000), (''B'', 1100)] \<and> (1000::real) + 90 \<le> 1100"
proof -
  have run: "poll_run [(''A'', 1000), (''A'', 1100), (''B'', 1100)] new_polls = [(''A'', 1000), (''B'', 1100)]"
    by (simp add: poll_run.simps on_news_trigger_event_def new_polls_def global_poll_cooldown_def symbol_poll_cooldown_def
        strip_def is_space_def Let_def)
  then show ?thesis using event_polls_spaced [of "[(''A'', 1000), (''A'', 1100), (''B'', 1100)]" new_polls] by simp
qed

end
