(* ===== verification/Positions.thy ===== *)
theory Positions
  imports Portfolio_Sync Timeline
begin

text \<open>
  What the table promises, without its rows: how many shares of each symbol are held. The abstract
  book is a function from symbols to quantities with one operation per fill or correction; every
  submission, confirmation, back fill and closing of orphans is shown to do to the rows what the
  abstract operations do to the book, so a run of the program refines a run of the book. The loop
  that closes lots is compared with a closed form that has no loop.
\<close>

section \<open>The abstract book\<close>

text \<open>
  A buy adds, a sell takes what is there; a lot counted with \<open>old\<close> shares is counted with \<open>new\<close> ones; the
  account holds at least so many; a symbol is held no more.
\<close>

datatype fill = Bought string int | Sold string int | Restated string int int | Raised_to string int | Dropped string

fun position_after :: "fill \<Rightarrow> (string \<Rightarrow> int) \<Rightarrow> (string \<Rightarrow> int)" where
  "position_after (Bought code q) P = P(code := P code + q)"
| "position_after (Sold code q) P = P(code := P code - min q (P code))"
| "position_after (Restated code old new) P = P(code := P code - old + new)"
| "position_after (Raised_to code q) P = P(code := max (P code) q)"
| "position_after (Dropped code) P = P(code := 0)"

definition positions :: "db \<Rightarrow> string \<Rightarrow> int" where
  "positions s = (\<lambda>code. open_qty_of code s)"

section \<open>What each operation means for the book\<close>

definition fill_of :: "string \<Rightarrow> string \<Rightarrow> int \<Rightarrow> fill list" where
  "fill_of side symbol q =
     (if side = ''BUY'' then [Bought symbol q] else if side = ''SELL'' then [Sold symbol q] else [])"

text \<open>
  A confirmed row counts with the filled quantity if it is a buy without an exit, whatever it counted
  with before: nothing, when it was waiting, its old quantity, when it is confirmed once more. The
  confirmation of a sell closes the row it is told to confirm and then takes from the lots.
\<close>

definition open_part :: "trade_result \<Rightarrow> int" where
  "open_part r = (if is_open_buy r then tr_quantity r else 0)"

definition row_fills :: "trade_result \<Rightarrow> string \<Rightarrow> string \<Rightarrow> int \<Rightarrow> fill list" where
  "row_fills r side symbol q =
     (if side = ''SELL'' then [Restated (tr_symbol r) (open_part r) 0, Sold symbol q]
      else [Restated (tr_symbol r) (open_part r) (if tr_side r = ''BUY'' \<and> tr_exit_at r = None then q else 0)])"

text \<open>A fill without a record: an order the table knows already, and a transaction that raises, count nothing.\<close>

definition record_fills :: "dm_env \<Rightarrow> confirm_task \<Rightarrow> string \<Rightarrow> int \<Rightarrow> real \<Rightarrow> db \<Rightarrow> fill list" where
  "record_fills env t oid q price s =
     (if \<not> env_db_up env \<or> oid \<noteq> [] \<and> get_by_order_id oid s \<noteq> None \<or>
         \<not> is_ok (record_body env (ct_symbol t) (ct_side t) oid q price (ct_context t) (ct_exit_reason t) s) then []
      else fill_of (ct_side t) (ct_symbol t) q)"

definition confirm_fills :: "dm_env \<Rightarrow> confirm_task \<Rightarrow> db \<Rightarrow> fill list" where
  "confirm_fills env t s =
     (case env_status env (ct_order_id t) of
        Inr (Some os) \<Rightarrow>
          (let q = (case os_filled_qty os of None \<Rightarrow> ct_quantity t | Some q \<Rightarrow> q);
               price = (if os_filled_price os > 0 then os_filled_price os else num_or (os_order_price os) (ct_expected_price t))
           in if q \<le> 0 then []
              else case ct_pending_id t of
                None \<Rightarrow> record_fills env t (ct_order_id t) q price s
              | Some i \<Rightarrow>
                  (case get_by_id i s of
                     None \<Rightarrow> record_fills env t [] q price s
                   | Some r \<Rightarrow>
                       if env_db_up env \<and>
                          is_ok (confirm_body env i (ct_symbol t) (ct_side t) q price (ct_context t) (ct_exit_reason t) s)
                       then row_fills r (ct_side t) (ct_symbol t) q else []))
      | _ \<Rightarrow> [])"

text \<open>Back filling: the account's holdings the table may lack.\<close>

definition backfill_fills :: "sync_env \<Rightarrow> db \<Rightarrow> fill list" where
  "backfill_fills env s =
     (case sync_env.se_holdings env of
        Inl e \<Rightarrow> []
      | Inr hs \<Rightarrow> map (\<lambda>h. Raised_to (normalize_krx_symbol (hi_symbol h)) (hi_quantity h))
          (filter (\<lambda>h. eligible (pending_buy_symbols s) (normalize_krx_symbol (hi_symbol h)) h) hs))"

text \<open>Orphans: the symbols of open rows the account has no shares of, unless closing one of them raises.\<close>

definition orphan_fills :: "ah_env \<Rightarrow> db \<Rightarrow> fill list" where
  "orphan_fills env s =
     (case ah_holdings env of
        Inl e \<Rightarrow> []
      | Inr hs \<Rightarrow>
          if ah_db_up env \<and> is_ok (close_orphans (ah_now env) (ah_price env) (held_symbols hs) (get_all_open s) s)
          then map (\<lambda>tr. Dropped (tr_symbol tr)) (filter (\<lambda>tr. tr_symbol tr \<notin> held_symbols hs) (get_all_open s))
          else [])"

section \<open>Runs\<close>

text \<open>
  Submissions, those that raise included, confirmations of any task at all (of an order confirmed
  before, of a record of another symbol or side), back filling and the closing of orphans, each with
  any answers of the broker and of the database.
\<close>

inductive booked :: "dm_state \<Rightarrow> fill list \<Rightarrow> dm_state \<Rightarrow> bool" where
  booked_submit: "execute_signal cfg env signal analysis_id ctx cb st = Inr (r, st') \<Longrightarrow> booked st [] st'"
| booked_raised: "execute_signal cfg env signal analysis_id ctx cb st = Inl e \<Longrightarrow> booked st [] (attempted_order cfg signal st)"
| booked_confirm: "booked st (confirm_fills env t (dm_db st)) (confirm_and_record env t st)"
| booked_backfill: "booked st (backfill_fills env (dm_db st)) (st\<lparr>dm_db := snd (backfill_missing_open_buys env (dm_db st))\<rparr>)"
| booked_orphans: "booked st (orphan_fills ah (dm_db st)) (st\<lparr>dm_db := clean_orphans ah (dm_db st)\<rparr>)"

inductive booked_run :: "dm_state \<Rightarrow> fill list \<Rightarrow> dm_state \<Rightarrow> bool" where
  booked_nil: "booked_run st [] st"
| booked_cons: "booked st fs st' \<Longrightarrow> booked_run st' gs st'' \<Longrightarrow> booked_run st (fs @ gs) st''"

inductive_cases bookedE: "booked st fs st'"

section \<open>What each write does to a weight\<close>

text \<open>The invariant of the run: the table's own, and no negative quantity.\<close>

definition nonneg_rows :: "db \<Rightarrow> bool" where
  "nonneg_rows s \<longleftrightarrow> list_all (\<lambda>r. 0 \<le> tr_quantity r) (db_rows s)"

definition book_ok :: "db \<Rightarrow> bool" where
  "book_ok s \<longleftrightarrow> db_ok s \<and> nonneg_rows s"

lemma positions_row_sum: "positions s code = row_sum (open_weight code) s"
  by (simp add: positions_def open_qty_row_sum)

lemma positions_commit [simp]: "positions (db_commit s) = positions s"
  by (simp add: positions_def)

lemma nonneg_commit [simp]: "nonneg_rows (db_commit s) = nonneg_rows s"
  by (simp add: nonneg_rows_def db_commit_def list_all_iff)

lemma positions_insert:
  "db_insert r s = Inr (i, s') \<Longrightarrow> positions s' = (\<lambda>code. positions s code + open_weight code r)"
  by (auto simp: db_insert_def positions_row_sum row_sum_def fun_eq_iff open_weight_def is_open_buy_def split: if_splits)

lemma nonneg_insert: "db_insert r s = Inr (i, s') \<Longrightarrow> nonneg_rows s \<Longrightarrow> 0 \<le> tr_quantity r \<Longrightarrow> nonneg_rows s'"
  by (auto simp: db_insert_def nonneg_rows_def split: if_splits)

text \<open>An update of one row changes a position by what it changes the weight of that row.\<close>

lemma sum_list_modify:
  "distinct (map tr_id rows) \<Longrightarrow> r \<in> set rows \<Longrightarrow>
     sum_list (map w (map (\<lambda>x. if tr_id x = tr_id r then f x else x) rows)) = sum_list (map w rows) - w r + (w (f r) :: int)"
proof (induction rows)
  case (Cons x rows)
  show ?case
  proof (cases "r = x")
    case True
    then have "map (\<lambda>y. if tr_id y = tr_id r then f y else y) rows = rows"
      using Cons.prems by (intro map_idI) (auto simp: image_iff)
    then show ?thesis using True Cons.prems by simp
  next
    case False
    then have "tr_id x \<noteq> tr_id r" using Cons.prems by auto
    with False Cons show ?thesis by simp
  qed
qed simp

lemma positions_modify:
  assumes "ids_ok s" and "get_by_id i s = Some r"
  shows "positions (db_modify i f s) = (\<lambda>code. positions s code - open_weight code r + open_weight code (f r))"
proof
  fix code
  have "r \<in> set (db_rows s)" "tr_id r = i" using get_by_id_Some [OF assms(2)] by auto
  then show "positions (db_modify i f s) code = positions s code - open_weight code r + open_weight code (f r)"
    using sum_list_modify [of "db_rows s" r "open_weight code" f] assms(1)
    by (simp add: positions_row_sum row_sum_def db_modify_def ids_ok_def)
qed

lemma positions_modify_same:
  assumes "\<And>r code. r \<in> set (db_rows s) \<Longrightarrow> tr_id r = i \<Longrightarrow> open_weight code (f r) = open_weight code r"
  shows "positions (db_modify i f s) = positions s"
proof
  fix code
  have "map (open_weight code) (map (\<lambda>r. if tr_id r = i then f r else r) (db_rows s)) = map (open_weight code) (db_rows s)"
    using assms by simp
  then show "positions (db_modify i f s) code = positions s code"
    by (simp add: positions_row_sum row_sum_def db_modify_def del: map_map)
qed

lemma nonneg_modify: "nonneg_rows s \<Longrightarrow> (\<And>r. 0 \<le> tr_quantity r \<Longrightarrow> 0 \<le> tr_quantity (f r)) \<Longrightarrow> nonneg_rows (db_modify i f s)"
  by (auto simp: nonneg_rows_def db_modify_def list_all_iff)

text \<open>A sell fill: its symbol loses what is applied, every other symbol nothing.\<close>

lemma close_lots_nonneg:
  "close_lots now symbol price reason closed_at bs acc = Inr (bs', cs, acc') \<Longrightarrow> list_all (\<lambda>r. 0 \<le> tr_quantity r) bs \<Longrightarrow>
     list_all (\<lambda>r. 0 \<le> tr_quantity r) (bs' @ cs)"
proof (induction bs arbitrary: acc bs' cs acc')
  case (Cons b bs)
  consider "fa_remaining acc \<le> 0" | "0 < fa_remaining acc" "tr_quantity b \<le> 0"
    | "0 < fa_remaining acc" "0 < tr_quantity b" by linarith
  then show ?case
  proof cases
    case 1
    then have "bs' = b # bs" "cs = []" using Cons.prems(1) by simp_all
    then show ?thesis using Cons.prems(2) by simp
  next
    case 2
    then obtain bs2 where rest: "close_lots now symbol price reason closed_at bs acc = Inr (bs2, cs, acc')"
      and eqs: "bs' = b # bs2" using Cons.prems(1) by (auto simp: rbind_eq_Inr)
    then show ?thesis using Cons.IH [OF rest] Cons.prems(2) by (simp add: eqs)
  next
    case 3
    let ?q = "min (tr_quantity b) (fa_remaining acc)"
    from Cons.prems(1) 3 obtain b' c bs2 cs2 where
      lot: "close_lot now symbol price reason closed_at ?q b = Inr (b', c)"
      and rest: "close_lots now symbol price reason closed_at bs (acc_step price ?q b acc) = Inr (bs2, cs2, acc')"
      and eqs: "bs' = b' # bs2" "cs = c @ cs2"
      by (auto simp: rbind_eq_Inr Let_def)
    have "list_all (\<lambda>r. 0 \<le> tr_quantity r) (b' # c)"
      using lot 3 by (cases rule: close_lot_cases) simp_all
    then show ?thesis using Cons.IH [OF rest] Cons.prems(2) by (simp add: eqs)
  qed
qed simp

lemma nonneg_puts: "nonneg_rows s \<Longrightarrow> list_all (\<lambda>r. 0 \<le> tr_quantity r) rs \<Longrightarrow> nonneg_rows (fold db_put rs s)"
proof (induction rs arbitrary: s)
  case (Cons r rs)
  from Cons.prems have "nonneg_rows (db_put r s)" by (auto simp: nonneg_rows_def db_put_def db_modify_def list_all_iff)
  then show ?case using Cons by simp
qed simp

lemma nonneg_insert_all: "db_insert_all cs s = Inr s' \<Longrightarrow> nonneg_rows s \<Longrightarrow> list_all (\<lambda>r. 0 \<le> tr_quantity r) cs \<Longrightarrow> nonneg_rows s'"
proof (induction cs arbitrary: s)
  case (Cons c cs)
  then obtain i s1 where "db_insert c s = Inr (i, s1)" "db_insert_all cs s1 = Inr s'" by (auto simp: rbind_eq_Inr)
  then show ?case using Cons nonneg_insert by auto
qed simp

lemma sum_list_zero: "\<forall>x \<in> set xs. f x = (0 :: int) \<Longrightarrow> sum_list (map f xs) = 0"
  by (induction xs) auto

lemma other_symbol_weight:
  "list_all2 same_lot xs ys \<Longrightarrow> code \<noteq> symbol \<Longrightarrow> \<forall>r \<in> set xs. tr_symbol r = symbol \<Longrightarrow>
     sum_list (map (open_weight code) ys) = 0"
  by (induction xs ys rule: list_all2_induct) (auto simp: open_weight_def same_lot_def)

lemma ids_ok_alt: "ids_ok s \<longleftrightarrow> distinct (map tr_id (db_rows s)) \<and> (\<forall>k \<in> set (map tr_id (db_rows s)). k < db_seq s)"
  by (simp add: ids_ok_def)

lemma ids_ok_modify:
  assumes "ids_ok s" and "\<And>r. tr_id (f r) = tr_id r"
  shows "ids_ok (db_modify i f s)"
proof -
  have "map tr_id (db_rows (db_modify i f s)) = map tr_id (db_rows s)" using assms(2) by (auto simp: db_modify_def)
  moreover have "db_seq (db_modify i f s) = db_seq s" by (simp add: db_modify_def)
  ultimately show ?thesis using assms(1) unfolding ids_ok_alt by presburger
qed

lemma sell_fill_positions:
  assumes run: "session_sell_fill now symbol qty price reason closed_at s = Inr (sf, s')"
    and ids: "ids_ok s" and nonneg: "nonneg_rows s"
  shows "positions s' = position_after (Sold symbol (max qty 0)) (positions s) \<and> nonneg_rows s' \<and> 0 \<le> sf_applied sf"
proof -
  let ?bs = "get_all_open_buys symbol s"
  have all: "\<forall>r \<in> set (db_rows s). 0 \<le> tr_quantity r" using nonneg by (simp add: nonneg_rows_def list_all_iff)
  note own = session_sell_fill_qty [OF run ids all]
  from run obtain bs cs acc where
    loop: "close_lots now symbol price reason closed_at ?bs (start_acc qty) = Inr (bs, cs, acc)"
    and ins: "db_insert_all cs (fold db_put bs s) = Inr s'"
    by (auto simp: session_sell_fill_def apply_sell_fill_to_open_buys_def rbind_eq_Inr)
  have same: "list_all2 same_lot ?bs bs" and closed: "list_all (\<lambda>c. tr_exit_at c \<noteq> None \<and> tr_order_id c = None) cs"
    using close_lots_same [OF loop] by simp_all
  have sub: "set ?bs \<subseteq> set (db_rows s)" by (auto simp: mem_get_all_open_buys)
  have "positions s' code = positions s code" if "code \<noteq> symbol" for code
  proof -
    let ?w = "open_weight code"
    have "\<forall>r \<in> set ?bs. ?w r = 0" using that by (auto simp: mem_get_all_open_buys open_weight_def)
    then have 1: "sum_list (map ?w ?bs) = 0" by (rule sum_list_zero)
    have 2: "sum_list (map ?w bs) = 0"
      using other_symbol_weight [OF same that] by (simp add: mem_get_all_open_buys)
    have 3: "row_sum ?w s' = row_sum ?w (fold db_put bs s)"
      using closed by (intro row_sum_insert_all [OF ins]) (auto simp: open_weight_def is_open_buy_def list_all_iff)
    show ?thesis
      using row_sum_puts [OF same ids distinct_open_buys [OF ids] sub, of ?w] 1 2 3 by (simp add: positions_row_sum)
  qed
  then have pos: "positions s' = position_after (Sold symbol (max qty 0)) (positions s)"
    using own by (auto simp: fun_eq_iff positions_def)
  have "list_all (\<lambda>r. 0 \<le> tr_quantity r) ?bs" using all by (auto simp: list_all_iff mem_get_all_open_buys)
  then have "list_all (\<lambda>r. 0 \<le> tr_quantity r) (bs @ cs)" using close_lots_nonneg [OF loop] by blast
  then have "nonneg_rows s'" using nonneg_insert_all [OF ins] nonneg_puts [OF nonneg] by simp
  moreover have "0 \<le> open_qty_of symbol s"
    using all unfolding open_qty_of_def lots_quantity_def by (intro sum_list_nonneg_map) (simp add: mem_get_all_open_buys)
  ultimately show ?thesis using pos own by simp
qed

section \<open>Every step refines the abstract one\<close>

lemma transaction_Inr: "transaction body s = (Inr a, s') \<Longrightarrow> \<exists>t. body s = Inr (a, t) \<and> s' = db_commit t"
  by (auto simp: transaction_def split: sum.splits prod.splits)

lemma record_refines:
  assumes "book_ok s" and "record_body env symbol side oid q price ctx reason s = Inr ((), t)"
    and "oid = [] \<or> get_by_order_id oid s = None" and "0 < q"
  shows "positions t = fold position_after (fill_of side symbol q) (positions s) \<and> nonneg_rows t"
proof -
  have ids: "ids_ok s" and nonneg: "nonneg_rows s" using assms(1) by (simp_all add: book_ok_def db_ok_def session_ok_def)
  consider "side = ''BUY''" | "side = ''SELL''" "get_all_open_buys symbol s = []"
    | "side = ''SELL''" "get_all_open_buys symbol s \<noteq> []" | "side \<noteq> ''BUY''" "side \<noteq> ''SELL''" by blast
  then show ?thesis
  proof cases
    case 1
    then obtain i where ins: "db_insert (buy_row env symbol oid q price ctx) s = Inr (i, t)"
      using assms by (auto simp: record_body_def rbind_eq_Inr)
    have "open_weight code (buy_row env symbol oid q price ctx) = (if symbol = code then q else 0)" for code
      by (simp add: open_weight_def buy_row_def default_trade_def is_open_buy_def)
    moreover have "tr_quantity (buy_row env symbol oid q price ctx) = q" by (simp add: buy_row_def)
    ultimately show ?thesis using positions_insert [OF ins] nonneg_insert [OF ins nonneg] 1 assms(4)
      by (auto simp: fill_of_def fun_eq_iff)
  next
    case 2
    then obtain i where ins: "db_insert (lone_sell_row env symbol oid q price reason ctx) s = Inr (i, t)"
      using assms by (auto simp: record_body_def rbind_eq_Inr)
    have "open_weight code (lone_sell_row env symbol oid q price reason ctx) = 0" for code
      by (simp add: open_weight_def lone_sell_row_def is_open_buy_def)
    moreover have "tr_quantity (lone_sell_row env symbol oid q price reason ctx) = q" by (simp add: lone_sell_row_def)
    moreover have "positions s symbol = 0" using 2 by (simp add: positions_def open_qty_of_def)
    ultimately show ?thesis using positions_insert [OF ins] nonneg_insert [OF ins nonneg] 2 assms(4)
      by (auto simp: fill_of_def fun_eq_iff)
  next
    case 3
    then obtain sf where "session_sell_fill (env_now env) symbol q price reason (env_now env) s = Inr (sf, t)"
      using assms by (auto simp: record_body_def rbind_eq_Inr)
    from sell_fill_positions [OF this ids nonneg] 3 assms(4) show ?thesis by (simp add: fill_of_def max_def)
  next
    case 4
    then have "t = s" using assms(2,3) by (auto simp: record_body_def split: if_splits)
    then show ?thesis using nonneg 4 by (simp add: fill_of_def)
  qed
qed

lemma get_modified:
  assumes "get_by_id i s = Some r" and "\<And>x. tr_id (f x) = tr_id x"
  shows "get_by_id i (db_modify i f s) = Some (f r)"
proof -
  have "find (\<lambda>x. tr_id x = i) (map (\<lambda>x. if tr_id x = i then f x else x) rows) = Some (f r)"
    if "find (\<lambda>x. tr_id x = i) rows = Some r" for rows
    using that assms(2) by (induction rows) (auto split: if_splits)
  then show ?thesis using assms(1) by (simp add: get_by_id_def first_of_filter db_modify_def)
qed

lemma open_weight_part: "open_weight code r = (if code = tr_symbol r then open_part r else 0)"
  by (auto simp: open_weight_def open_part_def)

text \<open>The first update of a confirmation, and the one of a sell on top of it.\<close>

lemma confirm_row_positions:
  assumes "ids_ok s" and "get_by_id i s = Some r" and "\<And>x. tr_id (f x) = tr_id x" and "tr_symbol (f r) = tr_symbol r"
  shows "positions (db_modify i f s) = position_after (Restated (tr_symbol r) (open_part r) (open_part (f r))) (positions s)"
  using positions_modify [OF assms(1,2), of f] assms(4) by (auto simp: fun_eq_iff open_weight_part)

lemma confirm_other_refines:
  assumes ok: "book_ok s" and run: "confirm_body env i symbol side q price ctx reason s = Inr ((), t)" and side: "side \<noteq> ''SELL''"
    and row: "get_by_id i s = Some r" and q: "0 < q"
  shows "positions t = fold position_after (row_fills r side symbol q) (positions s) \<and> nonneg_rows t"
proof -
  let ?f = "\<lambda>r. r\<lparr>tr_status := CONFIRMED, tr_quantity := q\<rparr>"
  let ?s1 = "db_modify i ?f s"
  have ids: "ids_ok s" and nonneg: "nonneg_rows s" using ok by (simp_all add: book_ok_def db_ok_def session_ok_def)
  have 1: "positions ?s1 = fold position_after (row_fills r side symbol q) (positions s)"
    using confirm_row_positions [OF ids row, of ?f] side by (simp add: row_fills_def open_part_def is_open_buy_def)
  have n1: "nonneg_rows ?s1" using nonneg q by (intro nonneg_modify) simp_all
  show ?thesis
  proof (cases "side = ''BUY''")
    case True
    then obtain g where t: "t = db_modify i g ?s1" and g: "\<And>x. tr_quantity (g x) = tr_quantity x"
        "\<And>x. is_open_buy (g x) = is_open_buy x" "\<And>x. tr_symbol (g x) = tr_symbol x"
      using run by (auto simp: confirm_body_def Let_def is_open_buy_def)
    have "positions t = positions ?s1"
      unfolding t by (rule positions_modify_same) (simp add: open_weight_def g)
    moreover have "nonneg_rows t" unfolding t by (rule nonneg_modify [OF n1]) (simp add: g)
    ultimately show ?thesis using 1 by simp
  next
    case False
    then have "t = ?s1" using run side by (simp add: confirm_body_def Let_def)
    then show ?thesis using 1 n1 by simp
  qed
qed

lemma confirm_sell_refines:
  assumes ok: "book_ok s" and run: "confirm_body env i symbol ''SELL'' q price ctx reason s = Inr ((), t)"
    and row: "get_by_id i s = Some r" and q: "0 < q"
  shows "positions t = fold position_after (row_fills r ''SELL'' symbol q) (positions s) \<and> nonneg_rows t"
proof -
  have ids: "ids_ok s" and nonneg: "nonneg_rows s" using ok by (simp_all add: book_ok_def db_ok_def session_ok_def)
  let ?f = "\<lambda>r. r\<lparr>tr_status := CONFIRMED, tr_quantity := q\<rparr>"
  let ?g = "\<lambda>r. r\<lparr>tr_exit_price := price, tr_exit_at := Some (env_now env), tr_exit_reason := str_or reason ''SIGNAL''\<rparr>"
  let ?s1 = "db_modify i ?f s"
  let ?s2 = "db_modify i ?g ?s1" and ?r2 = "?g (?f r)"
  from run obtain sf s3 h where
    fill: "session_sell_fill (env_now env) symbol q price reason (env_now env) ?s2 = Inr (sf, s3)"
    and t: "t = db_modify i h s3" and h: "h = (\<lambda>r. r\<lparr>tr_quantity := num_or (sf_applied sf) q,
        tr_notes := build_sell_fill_notes (sf_partial sf) (num_or (sf_applied sf) q) q (sf_remaining_open sf) (sf_lots sf)\<rparr>)"
    by (auto simp: confirm_body_def Let_def rbind_eq_Inr)
  have ids1: "ids_ok ?s1" and ids2: "ids_ok ?s2" using ids by (auto intro!: ids_ok_modify)
  have row1: "get_by_id i ?s1 = Some (?f r)" and row2: "get_by_id i ?s2 = Some ?r2"
    by (auto intro!: get_modified row)
  have n2: "nonneg_rows ?s2" using nonneg q by (intro nonneg_modify) simp_all
  have p2: "positions ?s2 = position_after (Restated (tr_symbol r) (open_part r) 0) (positions s)"
    using confirm_row_positions [OF ids row, of ?f] confirm_row_positions [OF ids1 row1, of ?g]
    by (simp add: open_part_def [of ?r2] is_open_buy_def)
  note sold = sell_fill_positions [OF fill ids2 n2]
  have "?r2 \<in> set (db_rows s3)"
    using get_by_id_Some [OF row2] by (intro sell_fill_keeps [OF fill ids2]) (simp_all add: is_open_buy_def)
  then have closed: "\<not> is_open_buy x" if "x \<in> set (db_rows s3)" "tr_id x = i" for x
    using row_unique [OF ids_ok_sell_fill [OF fill ids2] that(1)] that(2) get_by_id_Some [OF row]
    by (auto simp: is_open_buy_def)
  have "positions t = positions s3"
    unfolding t h
  proof (rule positions_modify_same)
    fix x code
    assume "x \<in> set (db_rows s3)" "tr_id x = i"
    then have "\<not> is_open_buy x" by (rule closed)
    then show "open_weight code (x\<lparr>tr_quantity := num_or (sf_applied sf) q,
        tr_notes := build_sell_fill_notes (sf_partial sf) (num_or (sf_applied sf) q) q (sf_remaining_open sf) (sf_lots sf)\<rparr>) = open_weight code x"
      by (auto simp: open_weight_def is_open_buy_def)
  qed
  moreover have "nonneg_rows t"
    unfolding t h using sold q by (intro nonneg_modify) (simp_all add: num_or_def)
  ultimately show ?thesis using sold p2 q by (simp add: row_fills_def max_def)
qed

lemma pending_refines:
  assumes ok: "book_ok s" and q: "0 \<le> qty"
  shows "positions (snd (create_pending_record env symbol side oid qty price ctx s)) = positions s \<and>
    nonneg_rows (snd (create_pending_record env symbol side oid qty price ctx s))"
proof -
  let ?row = "pending_row env symbol side oid qty price ctx"
  have w: "open_weight code ?row = 0" "tr_quantity ?row = qty" for code
    by (simp_all add: pending_row_def open_weight_def is_open_buy_def)
  have nonneg: "nonneg_rows s" using ok by (simp add: book_ok_def)
  have ins: "positions t = positions s \<and> nonneg_rows t" if "db_insert ?row s = Inr (i, t)" for i t
    using positions_insert [OF that] nonneg_insert [OF that nonneg] w q by simp
  show ?thesis
    using ins nonneg
    by (auto simp: create_pending_record_def db_session_def transaction_def split: option.splits sum.splits prod.splits)
qed

lemma failed_refines:
  assumes "book_ok s"
  shows "positions (mark_pending_failed env pid reason s) = positions s \<and> nonneg_rows (mark_pending_failed env pid reason s)"
proof -
  have f: "open_weight code (fail_row reason r) = open_weight code r" "tr_quantity (fail_row reason r) = tr_quantity r" for code r
    by (simp_all add: fail_row_def open_weight_def is_open_buy_def)
  have "positions (db_modify i (fail_row reason) s) = positions s" for i
    by (rule positions_modify_same) (simp add: f)
  moreover have "nonneg_rows (db_modify i (fail_row reason) s)" for i
    using assms by (intro nonneg_modify) (simp_all add: f book_ok_def)
  ultimately show ?thesis using assms
    by (simp add: mark_pending_failed_def db_session_def transaction_def book_ok_def split: option.split)
qed

lemma session_table:
  "snd (db_session env body s) =
     (if env_db_up env then (case body s of Inl e \<Rightarrow> s | Inr (a, t) \<Rightarrow> db_commit t) else s)"
  by (simp add: db_session_def transaction_def split: sum.split prod.split)

lemma book_okI: "positions t = P \<and> nonneg_rows t \<Longrightarrow> db_ok t \<Longrightarrow> positions t = P \<and> book_ok t"
  by (simp add: book_ok_def)

lemma record_books:
  assumes ok: "book_ok s" and q: "0 < q"
  shows "positions (record_trade_result env (ct_symbol t) (ct_side t) oid q price (ct_context t) (ct_exit_reason t) s) =
      fold position_after (record_fills env t oid q price s) (positions s) \<and>
    book_ok (record_trade_result env (ct_symbol t) (ct_side t) oid q price (ct_context t) (ct_exit_reason t) s)"
proof (rule book_okI)
  let ?body = "record_body env (ct_symbol t) (ct_side t) oid q price (ct_context t) (ct_exit_reason t)"
  have nonneg: "nonneg_rows s" and db: "db_ok s" using ok by (simp_all add: book_ok_def)
  show "db_ok (record_trade_result env (ct_symbol t) (ct_side t) oid q price (ct_context t) (ct_exit_reason t) s)"
    using db by (rule record_trade_result_ok)
  consider "\<not> env_db_up env" | "env_db_up env" "oid \<noteq> []" "get_by_order_id oid s \<noteq> None"
    | e where "env_db_up env" "?body s = Inl e"
    | u where "env_db_up env" "oid = [] \<or> get_by_order_id oid s = None" "?body s = Inr ((), u)"
    by (cases "?body s") auto
  then show "positions (record_trade_result env (ct_symbol t) (ct_side t) oid q price (ct_context t) (ct_exit_reason t) s) =
      fold position_after (record_fills env t oid q price s) (positions s) \<and>
    nonneg_rows (record_trade_result env (ct_symbol t) (ct_side t) oid q price (ct_context t) (ct_exit_reason t) s)"
  proof cases
    case 1
    then show ?thesis using nonneg by (simp add: record_trade_result_def session_table record_fills_def)
  next
    case 2
    then show ?thesis using nonneg by (auto simp: record_trade_result_def session_table record_fills_def record_body_def)
  next
    case 3
    then show ?thesis using nonneg by (simp add: record_trade_result_def session_table record_fills_def is_ok_def)
  next
    case 4
    from record_refines [OF ok 4(3,2) q] show ?thesis using 4
      by (auto simp: record_trade_result_def session_table record_fills_def is_ok_def)
  qed
qed

lemma confirm_pending_books:
  assumes ok: "book_ok s" and q: "0 < q" and row: "get_by_id i s = Some r"
  shows "positions (confirm_pending_record env i symbol side q price ctx reason s) =
      fold position_after (if env_db_up env \<and> is_ok (confirm_body env i symbol side q price ctx reason s)
        then row_fills r side symbol q else []) (positions s) \<and>
    book_ok (confirm_pending_record env i symbol side q price ctx reason s)"
proof (rule book_okI)
  have nonneg: "nonneg_rows s" and db: "db_ok s" using ok by (simp_all add: book_ok_def)
  show "db_ok (confirm_pending_record env i symbol side q price ctx reason s)"
    using db by (rule confirm_pending_record_ok)
  show "positions (confirm_pending_record env i symbol side q price ctx reason s) =
      fold position_after (if env_db_up env \<and> is_ok (confirm_body env i symbol side q price ctx reason s)
        then row_fills r side symbol q else []) (positions s) \<and>
    nonneg_rows (confirm_pending_record env i symbol side q price ctx reason s)"
  proof (cases "confirm_body env i symbol side q price ctx reason s")
    case (Inl e)
    then show ?thesis using nonneg by (simp add: confirm_pending_record_def row session_table is_ok_def)
  next
    case (Inr a)
    then obtain t where run: "confirm_body env i symbol side q price ctx reason s = Inr ((), t)" by (cases a) auto
    have "positions t = fold position_after (row_fills r side symbol q) (positions s) \<and> nonneg_rows t"
    proof (cases "side = ''SELL''")
      case True
      then show ?thesis using confirm_sell_refines [OF ok run [unfolded True] row q] by simp
    qed (rule confirm_other_refines [OF ok run _ row q])
    then show ?thesis using nonneg by (simp add: confirm_pending_record_def row session_table run is_ok_def)
  qed
qed

lemma failed_books:
  "book_ok s \<Longrightarrow> positions (mark_pending_failed env pid reason s) = positions s \<and> book_ok (mark_pending_failed env pid reason s)"
  using failed_refines mark_pending_failed_ok by (simp add: book_ok_def)

lemma settle_guarded_books:
  "book_ok (dm_db st) \<Longrightarrow> positions (dm_db (settle_guarded env t ok st)) = positions (dm_db st) \<and>
     book_ok (dm_db (settle_guarded env t ok st))"
  using settle_guarded_db [of env t ok st] failed_books by fastforce

lemma confirmation_failed_books:
  "book_ok (dm_db st) \<Longrightarrow> positions (dm_db (confirmation_failed env n t e st)) = positions (dm_db st) \<and>
     book_ok (dm_db (confirmation_failed env n t e st))"
  using failed_books by (simp add: confirmation_failed_def)

lemma confirm_books:
  assumes ok: "book_ok (dm_db st)"
  shows "positions (dm_db (confirm_and_record env t st)) =
      fold position_after (confirm_fills env t (dm_db st)) (positions (dm_db st)) \<and>
    book_ok (dm_db (confirm_and_record env t st))"
proof (cases "env_status env (ct_order_id t)")
  case (Inl e)
  then show ?thesis using confirmation_failed_books [OF ok] by (simp add: confirm_and_record_def confirm_fills_def)
next
  case (Inr status)
  show ?thesis
  proof (cases status)
    case None
    then show ?thesis using Inr settle_guarded_books [of "cancel_unfilled_order (ct_order_id t) st"] ok
      by (simp add: confirm_and_record_def confirm_fills_def)
  next
    case (Some os)
    define q where "q = (case os_filled_qty os of None \<Rightarrow> ct_quantity t | Some q \<Rightarrow> q)"
    define price where "price = (if os_filled_price os > 0 then os_filled_price os else num_or (os_order_price os) (ct_expected_price t))"
    show ?thesis
    proof (cases "q \<le> 0")
      case True
      then show ?thesis using Inr Some settle_guarded_books [of "cancel_unfilled_order (ct_order_id t) st"] ok
        by (simp add: confirm_and_record_def confirm_fills_def flip: q_def)
    next
      case False
      define s' where "s' = (case ct_pending_id t of
          Some i \<Rightarrow> confirm_pending_record env i (ct_symbol t) (ct_side t) q price (ct_context t) (ct_exit_reason t) (dm_db st)
        | None \<Rightarrow> record_trade_result env (ct_symbol t) (ct_side t) (ct_order_id t) q price (ct_context t) (ct_exit_reason t) (dm_db st))"
      have cr: "confirm_and_record env t st = settle_guarded env t True (st\<lparr>dm_db := s', dm_cache_invalidations := dm_cache_invalidations st + 1\<rparr>)"
        using Inr Some False by (simp add: confirm_and_record_def Let_def s'_def flip: q_def price_def)
      have fills: "confirm_fills env t (dm_db st) = (case ct_pending_id t of
            None \<Rightarrow> record_fills env t (ct_order_id t) q price (dm_db st)
          | Some i \<Rightarrow> (case get_by_id i (dm_db st) of
                None \<Rightarrow> record_fills env t [] q price (dm_db st)
              | Some r \<Rightarrow> if env_db_up env \<and>
                    is_ok (confirm_body env i (ct_symbol t) (ct_side t) q price (ct_context t) (ct_exit_reason t) (dm_db st))
                  then row_fills r (ct_side t) (ct_symbol t) q else []))"
        using Inr Some False by (simp add: confirm_fills_def Let_def flip: q_def price_def)
      have q: "0 < q" using False by simp
      have "positions s' = fold position_after (confirm_fills env t (dm_db st)) (positions (dm_db st)) \<and> book_ok s'"
      proof (cases "ct_pending_id t")
        case None
        then show ?thesis using record_books [OF ok q] by (simp add: s'_def fills)
      next
        case (Some i)
        show ?thesis
        proof (cases "get_by_id i (dm_db st)")
          case None
          then have "s' = (if env_db_up env then record_trade_result env (ct_symbol t) (ct_side t) [] q price (ct_context t)
              (ct_exit_reason t) (dm_db st) else dm_db st)" using Some by (simp add: s'_def confirm_pending_record_def)
          then show ?thesis using record_books [OF ok q, of env t "[]" price] ok Some None
            by (simp add: fills record_fills_def)
        next
          case (Some r)
          then show ?thesis using confirm_pending_books [OF ok q Some] \<open>ct_pending_id t = Some i\<close> by (simp add: s'_def fills)
        qed
      qed
      then show ?thesis unfolding cr
        using settle_guarded_books [of "st\<lparr>dm_db := s', dm_cache_invalidations := dm_cache_invalidations st + 1\<rparr>" env t True] by simp
    qed
  qed
qed

lemma execute_books:
  assumes "execute_signal cfg env signal analysis_id ctx cb st = Inr (r, st')" and ok: "book_ok (dm_db st)"
  shows "positions (dm_db st') = positions (dm_db st) \<and> book_ok (dm_db st')"
proof -
  have "positions (dm_db st') = positions (dm_db st) \<and> book_ok (dm_db st')"
    if "execute_autonomous cfg env signal ctx cb st = Inr (r2, st')" for r2
    using that
  proof (cases rule: execute_autonomous_cases)
    case (1 reason)
    then show ?thesis using ok by simp
  next
    case (2 req ores)
    have "0 \<le> opt_or (sig_quantity signal) 0" using 2(1) by simp
    note pending = pending_refines [OF ok this]
    from 2(6) show ?thesis
    proof (cases rule: after_place_order_cases)
      case (accepted oid)
      then show ?thesis using pending create_pending_record_ok [of "dm_db st"] ok by (simp add: book_ok_def)
    qed (use ok in simp)
  qed
  then show ?thesis using assms
    by (auto simp: execute_signal_def rbind_eq_Inr Let_def split: if_splits)
qed

subsection \<open>Back filling and orphans\<close>

lemma backfill_one_nonneg:
  "backfill_one now ps h (sm, s) = Inr (sm', s') \<Longrightarrow> nonneg_rows s \<Longrightarrow> nonneg_rows s'"
  by (auto simp: backfill_one_def Let_def rbind_eq_Inr backfill_row_def split: if_splits elim!: nonneg_insert)

lemma backfill_all_nonneg:
  "backfill_all now ps hs (sm, s) = Inr (sm', s') \<Longrightarrow> nonneg_rows s \<Longrightarrow> nonneg_rows s'"
proof (induction hs arbitrary: sm s)
  case (Cons h hs)
  from Cons.prems(1) obtain sm1 s1 where "backfill_one now ps h (sm, s) = Inr (sm1, s1)"
    "backfill_all now ps hs (sm1, s1) = Inr (sm', s')" by (auto simp: rbind_eq_Inr)
  then show ?case using Cons.IH backfill_one_nonneg Cons.prems(2) by blast
qed simp

lemma fold_raised:
  "fold position_after (map (\<lambda>h. Raised_to (f h) (g h)) hs) P code = fold max (map g (filter (\<lambda>h. f h = code) hs)) (P code)"
  by (induction hs arbitrary: P) (simp_all add: max.commute)

lemma backfilled_books:
  assumes ok: "book_ok s"
  shows "positions (snd (backfill_missing_open_buys env s)) = fold position_after (backfill_fills env s) (positions s) \<and>
    book_ok (snd (backfill_missing_open_buys env s))"
proof (cases "sync_env.se_holdings env")
  case (Inl e)
  then show ?thesis using ok by (simp add: backfill_missing_open_buys_def backfill_fills_def)
next
  case (Inr hs)
  let ?ps = "pending_buy_symbols s" and ?sm = "new_summary\<lparr>sy_provider := Some (se_provider env)\<rparr>"
  obtain sm' s' where run: "backfill_all (se_now env) ?ps hs (?sm, s) = Inr (sm', s')"
    using backfill_all_qty by blast
  then have res: "snd (backfill_missing_open_buys env s) = db_commit s'" using Inr by (simp add: backfill_missing_open_buys_def Let_def)
  have "positions s' code = fold max (map hi_quantity (filter (eligible ?ps code) hs)) (positions s code)" for code
    using backfill_all_qty [of "se_now env" ?ps hs ?sm s code] run by (auto simp: positions_def)
  moreover have "filter (eligible ?ps code) hs =
      filter (\<lambda>h. normalize_krx_symbol (hi_symbol h) = code) (filter (\<lambda>h. eligible ?ps (normalize_krx_symbol (hi_symbol h)) h) hs)" for code
    by (simp add: filter_filter) (intro filter_cong refl, auto simp: eligible_def)
  ultimately have "positions s' = fold position_after (backfill_fills env s) (positions s)"
    by (simp add: fun_eq_iff backfill_fills_def Inr fold_raised)
  moreover have "session_ok s'" using backfill_all_ok [OF _ run] ok by (simp add: book_ok_def db_ok_def)
  ultimately show ?thesis unfolding res
    using backfill_all_nonneg [OF run] ok session_ok_commit by (simp add: book_ok_def)
qed

lemma close_orphan_weight:
  "close_orphan now price tr = Inr tr' \<Longrightarrow> tr_id tr' = tr_id tr \<and> tr_symbol tr' = tr_symbol tr \<and>
     tr_quantity tr' = tr_quantity tr \<and> open_part tr' = 0"
  by (auto simp: close_orphan_def Let_def rbind_eq_Inr open_part_def is_open_buy_def split: if_splits)

lemma close_orphans_positions:
  assumes "close_orphans now price actual trs s = Inr s'" and "ids_ok s" and "distinct (map tr_id trs)"
    and "set trs \<subseteq> set (db_rows s)" and "nonneg_rows s"
  shows "positions s' code = positions s code - (if code \<in> actual then 0 else sum_list (map (open_weight code) trs)) \<and> nonneg_rows s'"
  using assms
proof (induction trs arbitrary: s)
  case (Cons t ts)
  show ?case
  proof (cases "tr_symbol t \<in> actual")
    case True
    then have run: "close_orphans now price actual ts s = Inr s'" using Cons.prems(1) by simp
    have "code \<in> actual \<or> open_weight code t = 0" using True by (auto simp: open_weight_part)
    then show ?thesis using Cons.IH [OF run] Cons.prems(2-5) by auto
  next
    case False
    from Cons.prems(1) False obtain t' where t': "close_orphan now price t = Inr t'"
        and rest: "close_orphans now price actual ts (db_put t' s) = Inr s'" by (auto simp: rbind_eq_Inr)
    note w = close_orphan_weight [OF t']
    have t: "t \<in> set (db_rows s)" using Cons.prems(4) by simp
    have ids: "ids_ok (db_put t' s)" using Cons.prems(2) by (rule ids_ok_put)
    have "0 \<le> tr_quantity t'" using w Cons.prems(5) t by (auto simp: nonneg_rows_def list_all_iff)
    then have nonneg: "nonneg_rows (db_put t' s)" using Cons.prems(5) by (auto simp: nonneg_rows_def db_put_def db_modify_def list_all_iff)
    have sub: "set ts \<subseteq> set (db_rows (db_put t' s))"
    proof
      fix u assume u: "u \<in> set ts"
      then have "tr_id u \<in> tr_id ` set ts" by simp
      then have "tr_id u \<noteq> tr_id t'" using Cons.prems(3) w by (metis distinct.simps(2) list.set_map list.simps(9))
      then show "u \<in> set (db_rows (db_put t' s))" using Cons.prems(4) u by (force simp: db_put_def db_modify_def)
    qed
    have "positions (db_put t' s) code = positions s code - open_weight code t"
      using row_sum_put [OF Cons.prems(2) t, of t' "open_weight code"] w by (simp add: positions_row_sum open_weight_part)
    moreover have "code \<in> actual \<longrightarrow> open_weight code t = 0" using False by (auto simp: open_weight_part)
    ultimately show ?thesis using Cons.IH [OF rest ids _ sub nonneg] Cons.prems(3) by auto
  qed
qed simp

lemma fold_dropped:
  "fold position_after (map (\<lambda>tr. Dropped (f tr)) trs) P = (\<lambda>code. if code \<in> f ` set trs then 0 else P code)"
  by (induction trs arbitrary: P) (auto simp: fun_eq_iff)

lemma open_rows_sum: "sum_list (map (open_weight code) (get_all_open s)) = positions s code"
proof -
  have "mset (get_all_open s) = mset (filter is_open_buy (db_rows s))" by (simp add: get_all_open_def newest_first_def)
  then have "sum_list (map (open_weight code) (get_all_open s)) = sum_list (map (open_weight code) (filter is_open_buy (db_rows s)))"
    by (metis mset_map sum_mset_sum_list)
  also have "\<dots> = sum_list (map (open_weight code) (db_rows s))"
    by (simp add: sum_list_map_filter open_weight_def)
  finally show ?thesis by (simp add: positions_row_sum row_sum_def)
qed

lemma orphans_books:
  assumes ok: "book_ok s"
  shows "positions (clean_orphans env s) = fold position_after (orphan_fills env s) (positions s) \<and> book_ok (clean_orphans env s)"
proof (rule book_okI)
  have nonneg: "nonneg_rows s" and db: "db_ok s" and ids: "ids_ok s"
    using ok by (simp_all add: book_ok_def db_ok_def session_ok_def)
  show "db_ok (clean_orphans env s)" using clean_orphans_frame [OF db] by blast
  show "positions (clean_orphans env s) = fold position_after (orphan_fills env s) (positions s) \<and> nonneg_rows (clean_orphans env s)"
  proof (cases "ah_holdings env")
    case (Inl e)
    then show ?thesis using nonneg by (simp add: clean_orphans_def orphan_fills_def list_all_iff Let_def)
  next
    case (Inr hs)
    let ?open = "get_all_open s" and ?held = "held_symbols hs"
    show ?thesis
    proof (cases "\<not> ah_db_up env \<or> list_all (\<lambda>tr. tr_symbol tr \<in> ?held) ?open")
      case True
      then have "filter (\<lambda>tr. tr_symbol tr \<notin> ?held) ?open = [] \<or> \<not> ah_db_up env" by (auto simp: list_all_iff filter_empty_conv)
      then show ?thesis using True nonneg Inr by (auto simp: clean_orphans_def orphan_fills_def Let_def)
    next
      case False
      then have some: "?open \<noteq> []" by auto
      show ?thesis
      proof (cases "close_orphans (ah_now env) (ah_price env) ?held ?open s")
        case (Inl e)
        then show ?thesis using nonneg Inr by (simp add: clean_orphans_def orphan_fills_def is_ok_def Let_def)
      next
        case (Inr s')
        have dist: "distinct (map tr_id ?open)"
          using ids by (simp add: ids_ok_def get_all_open_def newest_first_def distinct_map_filter rev_map distinct_map inj_on_def)
        have sub: "set ?open \<subseteq> set (db_rows s)" by (auto simp: get_all_open_def newest_first_def)
        note closed = close_orphans_positions [OF Inr ids dist sub nonneg, unfolded open_rows_sum]
        have "positions s code = 0" if "code \<notin> ?held" "code \<notin> tr_symbol ` set (filter (\<lambda>tr. tr_symbol tr \<notin> ?held) ?open)" for code
          using that by (subst open_rows_sum [symmetric], intro sum_list_zero) (auto simp: open_weight_part)
        then have "positions s' = fold position_after (orphan_fills env s) (positions s)"
          using closed Inr \<open>ah_holdings env = Inr hs\<close> False
          by (auto simp: fun_eq_iff orphan_fills_def is_ok_def fold_dropped)
        then show ?thesis using closed Inr \<open>ah_holdings env = Inr hs\<close> False some
          by (simp add: clean_orphans_def Let_def)
      qed
    qed
  qed
qed

text \<open>The simulation, one step.\<close>

lemma step_refines:
  "booked st fs st' \<Longrightarrow> book_ok (dm_db st) \<Longrightarrow>
     positions (dm_db st') = fold position_after fs (positions (dm_db st)) \<and> book_ok (dm_db st')"
proof (induction rule: booked.induct)
  case (booked_submit cfg env signal analysis_id ctx cb st r st')
  then show ?case using execute_books by simp
next
  case (booked_raised cfg env signal analysis_id ctx cb st e)
  then show ?case by (simp add: attempted_order_frame)
qed (simp_all add: confirm_books backfilled_books orphans_books)

lemma run_refines:
  "booked_run st fs st' \<Longrightarrow> book_ok (dm_db st) \<Longrightarrow>
     positions (dm_db st') = fold position_after fs (positions (dm_db st)) \<and> book_ok (dm_db st')"
  by (induction rule: booked_run.induct) (auto dest: step_refines)

lemma positions_nonneg: "nonneg_rows s \<Longrightarrow> 0 \<le> positions s code"
  by (auto simp: positions_row_sum row_sum_def nonneg_rows_def list_all_iff open_weight_def intro!: sum_list_nonneg_map)

lemma member_le_sum: "\<forall>x \<in> set xs. 0 \<le> (f x :: int) \<Longrightarrow> r \<in> set xs \<Longrightarrow> f r \<le> sum_list (map f xs)"
  by (induction xs) (auto intro: add_increasing add_increasing2 sum_list_nonneg_map)

lemma open_lot_counted:
  assumes "nonneg_rows s" and "r \<in> set (db_rows s)" and "is_open_buy r"
  shows "tr_quantity r \<le> positions s (tr_symbol r)"
proof -
  have "\<forall>x \<in> set (db_rows s). 0 \<le> open_weight (tr_symbol r) x"
    using assms(1) by (auto simp: nonneg_rows_def list_all_iff open_weight_def)
  from member_le_sum [OF this assms(2)] have "open_weight (tr_symbol r) r \<le> positions s (tr_symbol r)"
    by (simp add: positions_row_sum row_sum_def)
  then show ?thesis using assms(3) by (simp add: open_weight_def)
qed

text \<open>
  C32: The table refines an account of positions: along any run of submissions, confirmations of any
  task, back fillings and closings of orphans, with any answers, the open quantities of all symbols
  are what the fills and corrections alone make of the quantities at the start, and never negative.
  A confirmation counts the filled quantity for the row it confirms in the place of what that row
  counted before: nothing while it was waiting, so that a second confirmation does not count
  twice; a sell takes what was filled as far as it is there, a transaction that raises counts
  nothing, back filling only raises to what the account holds, and an orphan's symbol drops to nothing.
\<close>

theorem table_refines_positions:
  assumes "booked_run st fs st'" and "book_ok (dm_db st)"
  shows "positions (dm_db st') = fold position_after fs (positions (dm_db st)) \<and> (\<forall>code. 0 \<le> positions (dm_db st') code)"
proof -
  have "positions (dm_db st') = fold position_after fs (positions (dm_db st))" "nonneg_rows (dm_db st')"
    using run_refines [OF assms] by (simp_all add: book_ok_def)
  then show ?thesis using positions_nonneg by blast
qed

text \<open>One buy, confirmed twice with ten shares, counts ten.\<close>

lemma table_refines_positions_witness:
  "\<exists>fs st'. booked_run (sample_state [pending_sample ''BUY'' 1]) fs st' \<and> length fs = 2 \<and> positions (dm_db st') ''005930'' = 10"
proof -
  let ?st = "sample_state [pending_sample ''BUY'' 1]" and ?t = "sample_task ''BUY'' 1"
  let ?st1 = "confirm_and_record sample_env ?t ?st" and ?st2 = "confirm_and_record sample_env ?t (confirm_and_record sample_env ?t ?st)"
  let ?f1 = "confirm_fills sample_env ?t (dm_db ?st)" and ?f2 = "confirm_fills sample_env ?t (dm_db ?st1)"
  have run: "booked_run ?st (?f1 @ ?f2 @ []) ?st2" 
    by (rule booked_cons [OF booked_confirm booked_cons [OF booked_confirm booked_nil]])
  have ok: "book_ok (dm_db ?st)"
    by (simp add: book_ok_def nonneg_rows_def db_ok_def session_ok_def ids_ok_def orders_ok_def sample_state_def pending_sample_def
        row_naive_def default_trade_def)
  have row: "get_by_id 1 (dm_db ?st) = Some (pending_sample ''BUY'' 1)" by (simp add: sample_state_def get_by_id_def first_of_def)
  have sym: "tr_symbol (pending_sample ''BUY'' 1) = ''005930''" by (simp add: pending_sample_def)
  have is_ok: "is_ok (confirm_body sample_env 1 ''005930'' ''BUY'' 10 71000 (ct_context ?t) (ct_exit_reason ?t) s)" for s
    by (simp add: confirm_body_def is_ok_def Let_def)
  have f1: "?f1 = [Restated ''005930'' 0 10]"
    using row is_ok sym by (simp add: confirm_fills_def sample_status Let_def row_fills_def open_part_def is_open_buy_def)
  obtain r' where r': "get_by_id 1 (dm_db ?st1) = Some r'" "is_open_buy r'" "tr_quantity r' = 10"
    using buy_fill_opens_lot_witness by blast
  have p1: "positions (dm_db ?st1) = fold position_after ?f1 (positions (dm_db ?st))" using confirm_books [OF ok] by blast
  have p0: "positions (dm_db ?st) = (\<lambda>code. 0)"
    by (simp add: fun_eq_iff positions_row_sum row_sum_def sample_state_def open_weight_def is_open_buy_def)
  have p2: "positions (dm_db ?st1) = (\<lambda>code. 0)(''005930'' := 10)" unfolding p1 f1 p0 by simp
  have "tr_symbol r' = ''005930''"
  proof (rule ccontr)
    assume "tr_symbol r' \<noteq> ''005930''"
    then have "positions (dm_db ?st1) (tr_symbol r') = 0" unfolding p2 by simp
    moreover have "10 \<le> positions (dm_db ?st1) (tr_symbol r')"
    proof -
      have "nonneg_rows (dm_db ?st1)" using confirm_books [OF ok] by (simp add: book_ok_def)
      moreover have "r' \<in> set (db_rows (dm_db ?st1))" using get_by_id_Some [OF r'(1)] by simp
      ultimately show ?thesis using open_lot_counted r'(2,3) by metis
    qed
    ultimately show False by simp
  qed
  then have f2: "?f2 = [Restated ''005930'' 10 10]"
    using r' is_ok by (simp add: confirm_fills_def sample_status Let_def row_fills_def open_part_def is_open_buy_def)
  have "positions (dm_db ?st2) ''005930'' = 10"
    using table_refines_positions [OF run ok] unfolding f1 f2 p0 by simp
  with run f1 f2 show ?thesis by (intro exI [of _ "?f1 @ ?f2 @ []"] exI [of _ ?st2]) simp
qed

section \<open>The loop over the lots without a loop\<close>

text \<open>What stays open of each lot: what the fill leaves after all the lots before it.\<close>

definition rest_of_lots :: "int \<Rightarrow> int list \<Rightarrow> int list" where
  "rest_of_lots qty qs = map (\<lambda>i. qs ! i - min (qs ! i) (max 0 (qty - sum_list (take i qs)))) [0..<length qs]"

definition still_open :: "trade_result \<Rightarrow> int" where
  "still_open r = (if tr_exit_at r = None then tr_quantity r else 0)"

lemma rest_of_lots_simps:
  "rest_of_lots qty [] = []"
  "rest_of_lots qty (q # qs) = (q - min q (max 0 qty)) # rest_of_lots (qty - q) qs"
  by (simp_all add: rest_of_lots_def upt_conv_Cons map_Suc_upt [symmetric] algebra_simps del: upt_Suc)

lemma rest_of_lots_done: "qty \<le> 0 \<Longrightarrow> \<forall>q \<in> set qs. 0 \<le> q \<Longrightarrow> rest_of_lots qty qs = qs"
  by (induction qs arbitrary: qty) (auto simp: rest_of_lots_simps)

lemma close_lots_rest:
  "close_lots now symbol price reason closed_at bs acc = Inr (bs', cs, acc') \<Longrightarrow> lots_fresh bs \<Longrightarrow>
     map still_open bs' = rest_of_lots (fa_remaining acc) (map tr_quantity bs)"
proof (induction bs arbitrary: acc bs' cs acc')
  case Nil
  then show ?case by (simp add: rest_of_lots_simps)
next
  case (Cons b bs)
  have nonneg: "\<forall>q \<in> set (map tr_quantity bs). 0 \<le> q" "0 \<le> tr_quantity b" "tr_exit_at b = None"
    using Cons.prems(2) by (auto simp: lots_fresh_def list_all_iff)
  consider "fa_remaining acc \<le> 0" | "0 < fa_remaining acc" "tr_quantity b \<le> 0"
    | "0 < fa_remaining acc" "0 < tr_quantity b" by linarith
  then show ?case
  proof cases
    case 1
    have "map still_open (b # bs) = map tr_quantity (b # bs)"
      using Cons.prems(2) by (auto simp: still_open_def lots_fresh_def list_all_iff)
    moreover have "bs' = b # bs" using 1 Cons.prems(1) by simp
    ultimately show ?thesis using rest_of_lots_done [of "fa_remaining acc" "map tr_quantity (b # bs)"] 1 nonneg by simp
  next
    case 2
    then obtain bs2 where rest: "close_lots now symbol price reason closed_at bs acc = Inr (bs2, cs, acc')"
      and eqs: "bs' = b # bs2" using Cons.prems(1) by (auto simp: rbind_eq_Inr)
    have "tr_quantity b = 0" using 2 nonneg by simp
    then show ?thesis using Cons.IH [OF rest] Cons.prems(2) by (simp add: eqs rest_of_lots_simps still_open_def)
  next
    case 3
    let ?q = "min (tr_quantity b) (fa_remaining acc)"
    from Cons.prems(1) 3 obtain b' c bs2 cs2 where
      lot: "close_lot now symbol price reason closed_at ?q b = Inr (b', c)"
      and rest: "close_lots now symbol price reason closed_at bs (acc_step price ?q b acc) = Inr (bs2, cs2, acc')"
      and eqs: "bs' = b' # bs2"
      by (auto simp: rbind_eq_Inr Let_def)
    have head: "still_open b' = tr_quantity b - min (tr_quantity b) (max 0 (fa_remaining acc))"
      using lot 3 nonneg(3) by (cases rule: close_lot_cases) (auto simp: still_open_def)
    have rem: "fa_remaining (acc_step price ?q b acc) = fa_remaining acc - ?q" by (simp add: acc_step_def)
    have "rest_of_lots (fa_remaining acc - ?q) (map tr_quantity bs) = rest_of_lots (fa_remaining acc - tr_quantity b) (map tr_quantity bs)"
      using nonneg(1) rest_of_lots_done [of "fa_remaining acc - ?q" "map tr_quantity bs"]
        rest_of_lots_done [of "fa_remaining acc - tr_quantity b" "map tr_quantity bs"]
      by (cases "tr_quantity b \<le> fa_remaining acc") (simp_all add: min_def)
    then show ?thesis using Cons.IH [OF rest] Cons.prems(2) rem head by (simp add: eqs rest_of_lots_simps)
  qed
qed

text \<open>
  C33: the loop that closes the lots of a sell fill equals a closed form: lot by lot, what stays open
  is the lot less what the fill leaves after the quantities of all the lots before it.
\<close>

theorem closing_loop_closed_form:
  assumes "apply_sell_fill_to_open_buys now symbol qty price reason closed_at bs = Inr (bs', cs, sf)"
    and "lots_fresh bs"
  shows "map still_open bs' = rest_of_lots (max qty 0) (map tr_quantity bs)"
proof -
  from assms(1) obtain acc where
    "close_lots now symbol price reason closed_at bs (start_acc qty) = Inr (bs', cs, acc)"
    by (auto simp: apply_sell_fill_to_open_buys_def rbind_eq_Inr)
  from close_lots_rest [OF this assms(2)] show ?thesis by (simp add: start_acc_def)
qed

lemma closing_loop_closed_form_witness:
  "\<exists>bs' cs sf. apply_sell_fill_to_open_buys (PyDT 0 True) ''005930'' 12 75000 [] (PyDT (9 * day_us) False)
      [sample_lot 1 10 70000 1, sample_lot 2 5 72000 2] = Inr (bs', cs, sf) \<and> map still_open bs' = [0, 3]"
proof -
  have "list_all (closable (PyDT (9 * day_us) False)) [sample_lot 1 10 70000 1, sample_lot 2 5 72000 2]"
    by (simp add: closable_def)
  from close_lots_total [OF this, of "PyDT 0 True" "''005930''" 75000 "[]" "start_acc 12"]
  obtain bs' cs acc where "close_lots (PyDT 0 True) ''005930'' 75000 [] (PyDT (9 * day_us) False)
      [sample_lot 1 10 70000 1, sample_lot 2 5 72000 2] (start_acc 12) = Inr (bs', cs, acc)"
    unfolding is_ok_iff by (metis prod_cases3)
  then obtain sf where run: "apply_sell_fill_to_open_buys (PyDT 0 True) ''005930'' 12 75000 []
      (PyDT (9 * day_us) False) [sample_lot 1 10 70000 1, sample_lot 2 5 72000 2] = Inr (bs', cs, sf)"
    by (simp only: apply_sell_fill_to_open_buys_def rbind_simps prod.case)
  have "map still_open bs' = [0, 3]"
    using closing_loop_closed_form [OF run] by (simp add: rest_of_lots_simps)
  with run show ?thesis by (intro exI conjI)
qed

end
