(* ===== verification/Backtest.thy ===== *)
theory Backtest
  imports Strategies
begin

text \<open>
  The backtest: the simulation engine (\<open>backtesting/engine.py\<close>) and the performance figures
  computed from its trades and equity curve (\<open>backtesting/metrics.py\<close>). The technical indicators,
  computed with pandas, are an argument: a function from the bars seen so far. \<open>numpy\<close>'s mean and
  standard deviation are written out; the infinite profit factor is \<open>None\<close>.
\<close>

section \<open>Data\<close>

record bar =
  bar_date :: string
  bar_close :: real
  bar_high :: real
  bar_low :: real

record bt_indicators =
  ind_rsi :: "real option"
  ind_macd_hist :: "real option"
  ind_cross :: "string option"

record bt_config =
  bc_strategy_type :: string
  bc_initial_capital :: real
  bc_max_position_pct :: real
  bc_commission_rate :: real
  bc_slippage_rate :: real
  bc_stop_loss_pct :: real
  bc_take_profit_pct :: real
  bc_max_hold_days :: int

definition default_bt_config :: bt_config where
  "default_bt_config = \<lparr>bc_strategy_type = ''STABLE_SHORT'', bc_initial_capital = 10000000,
     bc_max_position_pct = 20, bc_commission_rate = 15 / 1000, bc_slippage_rate = 5 / 100,
     bc_stop_loss_pct = - 3, bc_take_profit_pct = 5, bc_max_hold_days = 5\<rparr>"

record bt_position =
  bp_symbol :: string
  bp_entry_date :: string
  bp_entry_price :: real
  bp_quantity :: int
  bp_strategy :: string
  bp_hold_days :: int
  bp_stop_loss :: real
  bp_take_profit :: real

record bt_trade =
  bt_symbol :: string
  bt_entry_date :: string
  bt_entry_price :: real
  bt_exit_date :: string
  bt_exit_price :: real
  bt_quantity :: int
  bt_pnl :: real
  bt_return_pct :: real
  bt_hold_days :: int
  bt_strategy :: string
  bt_reason :: string

record engine =
  en_cash :: real
  en_positions :: "bt_position list"
  en_trades :: "bt_trade list"
  en_equity :: "real list"

section \<open>The engine\<close>

definition close_position :: "bt_config \<Rightarrow> bt_position \<Rightarrow> string \<Rightarrow> real \<Rightarrow> string \<Rightarrow> engine \<Rightarrow> engine" where
  "close_position cfg pos date price reason en =
     (let actual_price = price * (1 - bc_slippage_rate cfg / 100);
          revenue = actual_price * of_int (bp_quantity pos);
          commission = revenue * (bc_commission_rate cfg / 100);
          net = revenue - commission;
          pnl = net - bp_entry_price pos * of_int (bp_quantity pos);
          return_pct = (actual_price - bp_entry_price pos) / bp_entry_price pos * 100
      in en\<lparr>en_cash := en_cash en + net,
            en_trades := en_trades en @
              [\<lparr>bt_symbol = bp_symbol pos, bt_entry_date = bp_entry_date pos, bt_entry_price = bp_entry_price pos,
                bt_exit_date = date, bt_exit_price = actual_price, bt_quantity = bp_quantity pos,
                bt_pnl = py_round 2 pnl, bt_return_pct = py_round 2 return_pct, bt_hold_days = bp_hold_days pos,
                bt_strategy = bp_strategy pos, bt_reason = reason\<rparr>],
            en_positions := remove1 pos (en_positions en)\<rparr>)"

definition check_position :: "bt_config \<Rightarrow> string \<Rightarrow> real \<Rightarrow> real \<Rightarrow> real \<Rightarrow> bt_position \<Rightarrow> engine \<Rightarrow> engine" where
  "check_position cfg date close high low pos en =
     (if low \<le> bp_stop_loss pos then close_position cfg pos date (bp_stop_loss pos) ''STOP_LOSS'' en
      else if bp_take_profit pos \<le> high then close_position cfg pos date (bp_take_profit pos) ''TAKE_PROFIT'' en
      else if bc_max_hold_days cfg \<le> bp_hold_days pos then close_position cfg pos date close ''MAX_HOLD_DAYS'' en
      else en)"

text \<open>The loop runs over a copy of the list.\<close>

definition check_positions :: "bt_config \<Rightarrow> string \<Rightarrow> real \<Rightarrow> real \<Rightarrow> real \<Rightarrow> engine \<Rightarrow> engine" where
  "check_positions cfg date close high low en = fold (check_position cfg date close high low) (en_positions en) en"

definition open_position :: "bt_config \<Rightarrow> string \<Rightarrow> string \<Rightarrow> real \<Rightarrow> int \<Rightarrow> engine \<Rightarrow> engine" where
  "open_position cfg symbol date actual_price quantity en =
     (let cost = actual_price * of_int quantity;
          commission = cost * (bc_commission_rate cfg / 100)
      in en\<lparr>en_cash := en_cash en - (cost + commission),
            en_positions := en_positions en @
              [\<lparr>bp_symbol = symbol, bp_entry_date = date, bp_entry_price = actual_price, bp_quantity = quantity,
                bp_strategy = bc_strategy_type cfg, bp_hold_days = 0,
                bp_stop_loss = actual_price * (1 + bc_stop_loss_pct cfg / 100),
                bp_take_profit = actual_price * (1 + bc_take_profit_pct cfg / 100)\<rparr>]\<rparr>)"

definition bt_buy :: "bt_config \<Rightarrow> string \<Rightarrow> string \<Rightarrow> real \<Rightarrow> engine \<Rightarrow> engine res" where
  "bt_buy cfg symbol date price en =
     (let max_amount = min (en_cash en * (bc_max_position_pct cfg / 100)) (en_cash en * (9 / 10));
          actual_price = price * (1 + bc_slippage_rate cfg / 100)
      in if actual_price = 0 then Inl (Exn ZeroDivisionError ''float division by zero'')
         else
           let quantity = py_int (max_amount / actual_price)
           in Inr (if quantity \<le> 0 then en
                   else
                     let cost = actual_price * of_int quantity;
                         commission = cost * (bc_commission_rate cfg / 100)
                     in if en_cash en < cost + commission then
                          (let quantity' = py_int ((en_cash en - commission) / actual_price)
                           in if quantity' \<le> 0 then en else open_position cfg symbol date actual_price quantity' en)
                        else open_position cfg symbol date actual_price quantity en))"

definition bt_sell :: "bt_config \<Rightarrow> string \<Rightarrow> string \<Rightarrow> real \<Rightarrow> string \<Rightarrow> engine \<Rightarrow> engine" where
  "bt_sell cfg symbol date price reason en =
     (case find (\<lambda>p. bp_symbol p = symbol) (en_positions en) of
        None \<Rightarrow> en | Some pos \<Rightarrow> close_position cfg pos date price reason en)"

definition has_position :: "string \<Rightarrow> engine \<Rightarrow> bool" where
  "has_position symbol en \<longleftrightarrow> (\<exists>p \<in> set (en_positions en). bp_symbol p = symbol)"

definition calculate_equity :: "real \<Rightarrow> engine \<Rightarrow> real" where
  "calculate_equity price en = en_cash en + sum_list (map (\<lambda>p. of_int (bp_quantity p) * price) (en_positions en))"

text \<open>The rules that stand in for the model: scores for and against.\<close>

definition buy_score :: "bt_indicators \<Rightarrow> int" where
  "buy_score ind =
     (case ind_rsi ind of None \<Rightarrow> 0 | Some r \<Rightarrow> if r < 30 then 2 else if r < 40 then 1 else 0) +
     (case ind_macd_hist ind of None \<Rightarrow> 0 | Some h \<Rightarrow> if 0 < h then 1 else 0) +
     (if ind_cross ind = Some ''GOLDEN_CROSS'' then 2 else 0)"

definition sell_score :: "bt_indicators \<Rightarrow> int" where
  "sell_score ind =
     (case ind_rsi ind of None \<Rightarrow> 0 | Some r \<Rightarrow> if 70 < r then 2 else if 60 < r then 1 else 0) +
     (case ind_macd_hist ind of None \<Rightarrow> 0 | Some h \<Rightarrow> if h < 0 then 1 else 0) +
     (if ind_cross ind = Some ''DEAD_CROSS'' then 2 else 0)"

definition build_rule_based_analysis :: "bt_indicators \<Rightarrow> string \<times> real" where
  "build_rule_based_analysis ind =
     (if 3 \<le> buy_score ind then (''BUY'', min (5 / 10 + of_int (buy_score ind) * (1 / 10)) (9 / 10))
      else if 3 \<le> sell_score ind then (''SELL'', min (5 / 10 + of_int (sell_score ind) * (1 / 10)) (9 / 10))
      else (''HOLD'', 5 / 10))"

definition bt_params :: "bt_config \<Rightarrow> strategy_params" where
  "bt_params cfg = \<lparr>sp_stop_loss_pct = bc_stop_loss_pct cfg, sp_take_profit_pct = bc_take_profit_pct cfg,
     sp_min_confidence = 5 / 10\<rparr>"

definition bt_evaluate :: "bt_config \<Rightarrow> string \<Rightarrow> real \<Rightarrow> bt_indicators \<Rightarrow> trade_signal option" where
  "bt_evaluate cfg symbol price ind =
     (let (recommendation, confidence) = build_rule_based_analysis ind;
          a = \<lparr>an_recommendation = recommendation, an_confidence = confidence, an_symbol = symbol,
               an_stock_id = [], an_price = price, an_cross_signal = ind_cross ind\<rparr>
      in if bc_strategy_type cfg = ''STABLE_SHORT'' then stable_evaluate (bt_params cfg) a []
         else aggressive_evaluate (bt_params cfg) a [])"

text \<open>One bar of the loop; \<open>seen\<close> holds the bars up to and including it.\<close>

definition trade_step :: "bt_config \<Rightarrow> string \<Rightarrow> bar \<Rightarrow> trade_signal option \<Rightarrow> engine \<Rightarrow> engine res" where
  "trade_step cfg symbol b signal en =
     (case signal of
        None \<Rightarrow> Inr en
      | Some s \<Rightarrow>
          if sig_action s = BUY \<and> \<not> has_position symbol en then bt_buy cfg symbol (bar_date b) (bar_close b) en
          else if sig_action s = SELL \<and> has_position symbol en
          then Inr (bt_sell cfg symbol (bar_date b) (bar_close b) ''SIGNAL'' en)
          else Inr en)"

definition bar_step :: "bt_config \<Rightarrow> (bar list \<Rightarrow> bt_indicators) \<Rightarrow> string \<Rightarrow> bar list \<Rightarrow> bar \<Rightarrow> engine \<Rightarrow> engine res" where
  "bar_step cfg calc symbol seen b en =
     (let en1 = check_positions cfg (bar_date b) (bar_close b) (bar_high b) (bar_low b) en
      in rbind (trade_step cfg symbol b (bt_evaluate cfg symbol (bar_close b) (calc seen)) en1) (\<lambda>en2.
           Inr (en2\<lparr>en_equity := en_equity en2 @ [calculate_equity (bar_close b) en2],
                    en_positions := map (\<lambda>p. p\<lparr>bp_hold_days := bp_hold_days p + 1\<rparr>) (en_positions en2)\<rparr>)))"

fun run_bars :: "bt_config \<Rightarrow> (bar list \<Rightarrow> bt_indicators) \<Rightarrow> string \<Rightarrow> bar list \<Rightarrow> nat list \<Rightarrow> engine \<Rightarrow> engine res" where
  "run_bars cfg calc symbol bars [] en = Inr en"
| "run_bars cfg calc symbol bars (i # is) en =
     rbind (bar_step cfg calc symbol (take (i + 1) bars) (bars ! i) en) (run_bars cfg calc symbol bars is)"

definition liquidate :: "bt_config \<Rightarrow> bar \<Rightarrow> engine \<Rightarrow> engine" where
  "liquidate cfg b en =
     fold (\<lambda>pos. close_position cfg pos (bar_date b) (bar_close b) ''END_OF_DATA'') (en_positions en) en"

definition start_engine :: "bt_config \<Rightarrow> engine" where
  "start_engine cfg = \<lparr>en_cash = bc_initial_capital cfg, en_positions = [], en_trades = [],
     en_equity = [bc_initial_capital cfg]\<rparr>"

section \<open>Performance figures\<close>

record bt_metrics =
  me_total_trades :: nat
  me_winning_trades :: nat
  me_losing_trades :: nat
  me_win_rate :: real
  me_total_return :: real
  me_total_pnl :: real
  me_avg_return_per_trade :: real
  me_max_single_win :: real
  me_max_single_loss :: real
  me_sharpe_ratio :: real
  me_max_drawdown :: real
  me_max_drawdown_duration :: nat
  me_profit_factor :: "real option"
  me_avg_hold_days :: real
  me_avg_win_return :: real
  me_avg_loss_return :: real
  me_initial_capital :: real
  me_final_capital :: real

definition np_mean :: "real list \<Rightarrow> real" where
  "np_mean xs = sum_list xs / real (length xs)"

definition std_dev :: "real list \<Rightarrow> real" where
  "std_dev xs = sqrt (np_mean (map (\<lambda>x. (x - np_mean xs)\<^sup>2) xs))"

definition mean_or_0 :: "real list \<Rightarrow> real" where
  "mean_or_0 xs = (if xs = [] then 0 else np_mean xs)"

definition sharpe :: "real list \<Rightarrow> real" where
  "sharpe returns =
     (let excess = map (\<lambda>r. r - 3 / 252) returns
      in if 1 < length returns \<and> 0 < std_dev excess
         then py_round 2 (np_mean excess / std_dev excess * sqrt 252) else 0)"

text \<open>\<open>np.maximum.accumulate\<close>.\<close>

fun accumulate_max :: "real \<Rightarrow> real list \<Rightarrow> real list" where
  "accumulate_max m [] = []"
| "accumulate_max m (x # xs) = max m x # accumulate_max (max m x) xs"

definition drawdowns :: "real list \<Rightarrow> real list" where
  "drawdowns curve = map (\<lambda>(c, p). (c - p) / p * 100) (zip curve (accumulate_max (hd curve) curve))"

fun drawdown_run :: "nat \<Rightarrow> bool \<Rightarrow> nat \<Rightarrow> nat \<Rightarrow> real list \<Rightarrow> nat" where
  "drawdown_run i in_dd dd_start max_duration [] =
     (if in_dd then max max_duration (i - dd_start) else max_duration)"
| "drawdown_run i in_dd dd_start max_duration (dd # dds) =
     (if dd < 0 then drawdown_run (Suc i) True (if in_dd then dd_start else i) max_duration dds
      else drawdown_run (Suc i) False dd_start (if in_dd then max max_duration (i - dd_start) else max_duration) dds)"

definition empty_metrics :: "real \<Rightarrow> real list \<Rightarrow> bt_metrics" where
  "empty_metrics initial_capital curve = \<lparr>me_total_trades = 0, me_winning_trades = 0, me_losing_trades = 0,
     me_win_rate = 0, me_total_return = 0, me_total_pnl = 0, me_avg_return_per_trade = 0,
     me_max_single_win = 0, me_max_single_loss = 0, me_sharpe_ratio = 0, me_max_drawdown = 0,
     me_max_drawdown_duration = 0, me_profit_factor = Some 0, me_avg_hold_days = 0, me_avg_win_return = 0,
     me_avg_loss_return = 0, me_initial_capital = initial_capital,
     me_final_capital = (if curve = [] then initial_capital else last curve)\<rparr>"

definition calculate_metrics :: "bt_trade list \<Rightarrow> real list \<Rightarrow> real \<Rightarrow> bt_metrics" where
  "calculate_metrics trades curve initial_capital =
     (let m = empty_metrics initial_capital curve;
          returns = map bt_return_pct trades; pnls = map bt_pnl trades;
          hold_days = map (\<lambda>t. of_int (bt_hold_days t)) (filter (\<lambda>t. 0 < bt_hold_days t) trades);
          wins = filter (\<lambda>r. 0 < r) returns; losses = filter (\<lambda>r. r < 0) returns;
          total_profit = sum_list (filter (\<lambda>p. 0 < p) pnls);
          total_loss = \<bar>sum_list (filter (\<lambda>p. p < 0) pnls)\<bar>
      in if trades = [] then m
         else m\<lparr>me_total_trades := length trades, me_winning_trades := length wins,
                me_losing_trades := length losses,
                me_win_rate := real (length wins) / real (length trades),
                me_total_pnl := sum_list pnls,
                me_total_return := (if 0 < initial_capital
                  then (me_final_capital m - initial_capital) / initial_capital * 100 else 0),
                me_avg_return_per_trade := mean_or_0 returns,
                me_max_single_win := Max (set returns), me_max_single_loss := Min (set returns),
                me_avg_win_return := mean_or_0 wins, me_avg_loss_return := mean_or_0 losses,
                me_avg_hold_days := mean_or_0 hold_days,
                me_profit_factor := (if 0 < total_loss then Some (total_profit / total_loss) else None),
                me_sharpe_ratio := sharpe returns,
                me_max_drawdown := (if 1 < length curve then py_round 2 (Min (set (drawdowns curve))) else 0),
                me_max_drawdown_duration := (if 1 < length curve then drawdown_run 0 False 0 0 (drawdowns curve) else 0)\<rparr>)"

text \<open>The whole run; \<open>None\<close> is the answer with the key \<open>error\<close> for fewer than thirty bars.\<close>

definition bt_run :: "bt_config \<Rightarrow> (bar list \<Rightarrow> bt_indicators) \<Rightarrow> string \<Rightarrow> bar list \<Rightarrow> (bt_metrics \<times> engine) option res" where
  "bt_run cfg calc symbol bars =
     (if length bars < 30 then Inr None
      else rbind (run_bars cfg calc symbol bars [30..<length bars] (start_engine cfg)) (\<lambda>en.
             let en' = liquidate cfg (last bars) en
             in Inr (Some (calculate_metrics (en_trades en') (en_equity en') (bc_initial_capital cfg), en'))))"

section \<open>The books of a run\<close>

text \<open>What the engine needs of its settings: rates that are percentages, levels above zero.\<close>

definition bt_config_ok :: "bt_config \<Rightarrow> bool" where
  "bt_config_ok cfg \<longleftrightarrow> 0 \<le> bc_initial_capital cfg \<and> 0 \<le> bc_slippage_rate cfg \<and> bc_slippage_rate cfg \<le> 100 \<and>
     0 \<le> bc_commission_rate cfg \<and> bc_commission_rate cfg \<le> 100 \<and>
     - 100 \<le> bc_stop_loss_pct cfg \<and> - 100 \<le> bc_take_profit_pct cfg"

definition net_of :: "bt_config \<Rightarrow> bt_trade \<Rightarrow> real" where
  "net_of cfg t = bt_exit_price t * of_int (bt_quantity t) * (1 - bc_commission_rate cfg / 100) -
     bt_entry_price t * of_int (bt_quantity t) * (1 + bc_commission_rate cfg / 100)"

definition entry_commission :: "bt_config \<Rightarrow> bt_trade \<Rightarrow> real" where
  "entry_commission cfg t = bt_entry_price t * of_int (bt_quantity t) * (bc_commission_rate cfg / 100)"

definition tied_up :: "bt_config \<Rightarrow> bt_position \<Rightarrow> real" where
  "tied_up cfg p = bp_entry_price p * of_int (bp_quantity p) * (1 + bc_commission_rate cfg / 100)"

definition position_ok :: "string \<Rightarrow> bt_position \<Rightarrow> bool" where
  "position_ok symbol p \<longleftrightarrow> bp_symbol p = symbol \<and> 0 < bp_quantity p \<and> 0 \<le> bp_stop_loss p \<and> 0 \<le> bp_take_profit p"

definition trade_ok :: "bt_config \<Rightarrow> bt_trade \<Rightarrow> bool" where
  "trade_ok cfg t \<longleftrightarrow> bt_pnl t = py_round 2 (net_of cfg t + entry_commission cfg t) \<and> 0 < bt_quantity t"

definition books :: "bt_config \<Rightarrow> string \<Rightarrow> engine \<Rightarrow> bool" where
  "books cfg symbol en \<longleftrightarrow>
     en_cash en + sum_list (map (tied_up cfg) (en_positions en)) =
       bc_initial_capital cfg + sum_list (map (net_of cfg) (en_trades en)) \<and>
     0 \<le> en_cash en \<and> length (en_positions en) \<le> 1 \<and> list_all (position_ok symbol) (en_positions en) \<and>
     list_all (trade_ok cfg) (en_trades en)"

lemma after_rate: "x - x * c / 100 = x * (1 - c / 100)" "x + x * c / 100 = x * (1 + c / 100)" for x c :: real
  by (simp_all add: algebra_simps)

lemma without_rate: "a - e * (1 + c / 100) + e * c / 100 = a - e" for a c e :: real
  by (simp add: algebra_simps)

lemma close_position_simps [simp]:
  "en_positions (close_position cfg pos date price reason en) = remove1 pos (en_positions en)"
  "en_cash (close_position cfg pos date price reason en) = en_cash en +
     price * (1 - bc_slippage_rate cfg / 100) * of_int (bp_quantity pos) * (1 - bc_commission_rate cfg / 100)"
  by (simp_all add: close_position_def Let_def after_rate)

lemma close_position_trade:
  "\<exists>t. en_trades (close_position cfg pos date price reason en) = en_trades en @ [t] \<and>
     net_of cfg t = price * (1 - bc_slippage_rate cfg / 100) * of_int (bp_quantity pos) * (1 - bc_commission_rate cfg / 100) -
       tied_up cfg pos \<and> (0 < bp_quantity pos \<longrightarrow> trade_ok cfg t)"
  by (simp add: close_position_def Let_def net_of_def tied_up_def trade_ok_def entry_commission_def after_rate without_rate)

lemma books_close:
  assumes cfg: "bt_config_ok cfg" and en: "books cfg symbol en" and pos: "en_positions en = [pos]" and price: "0 \<le> price"
  shows "books cfg symbol (close_position cfg pos date price reason en) \<and>
    en_positions (close_position cfg pos date price reason en) = []"
proof -
  have q: "0 < bp_quantity pos" using en pos by (simp add: books_def position_ok_def)
  then have "0 \<le> price * (1 - bc_slippage_rate cfg / 100) * of_int (bp_quantity pos) * (1 - bc_commission_rate cfg / 100)"
    using cfg price by (intro mult_nonneg_nonneg) (simp_all add: bt_config_ok_def)
  moreover obtain t where "en_trades (close_position cfg pos date price reason en) = en_trades en @ [t]"
    "net_of cfg t = price * (1 - bc_slippage_rate cfg / 100) * of_int (bp_quantity pos) * (1 - bc_commission_rate cfg / 100) -
       tied_up cfg pos" "trade_ok cfg t"
    using close_position_trade q by metis
  ultimately show ?thesis using en pos by (simp add: books_def)
qed

lemma books_positions: "books cfg symbol en \<Longrightarrow> en_positions en = [] \<or> (\<exists>p. en_positions en = [p] \<and> position_ok symbol p)"
  by (cases "en_positions en") (auto simp: books_def)

lemma books_check:
  assumes "bt_config_ok cfg" and "books cfg symbol en" and "0 \<le> close"
  shows "books cfg symbol (check_positions cfg date close high low en)"
  using books_positions [OF assms(2)]
proof
  assume "en_positions en = []"
  then show ?thesis using assms by (simp add: check_positions_def)
next
  assume "\<exists>p. en_positions en = [p] \<and> position_ok symbol p"
  then obtain p where p: "en_positions en = [p]" "position_ok symbol p" by blast
  then have "0 \<le> bp_stop_loss p" "0 \<le> bp_take_profit p" by (simp_all add: position_ok_def)
  then show ?thesis using books_close [OF assms(1,2) p(1)] assms p
    by (simp add: check_positions_def check_position_def)
qed

lemma books_open:
  assumes cfg: "bt_config_ok cfg" and en: "books cfg symbol en" and none: "en_positions en = []"
    and price: "0 < price" and q: "0 < quantity"
    and cost: "price * of_int quantity + price * of_int quantity * (bc_commission_rate cfg / 100) \<le> en_cash en"
  shows "books cfg symbol (open_position cfg symbol date price quantity en)"
proof -
  have "0 \<le> price * (1 + bc_stop_loss_pct cfg / 100)" "0 \<le> price * (1 + bc_take_profit_pct cfg / 100)"
    using cfg price by (auto intro!: mult_nonneg_nonneg simp: bt_config_ok_def)
  then show ?thesis using en none q cost
    by (simp add: books_def open_position_def Let_def tied_up_def position_ok_def algebra_simps)
qed

text \<open>The buy spends no more than the cash, also when the first quantity was too large.\<close>

lemma reduced_quantity_cost:
  fixes cash price c :: real and q :: int
  assumes "0 < price" and "0 \<le> c" and "0 \<le> cash" and "cash < price * of_int q + price * of_int q * c"
    and "q' = py_int ((cash - price * of_int q * c) / price)" and "0 < q'"
  shows "price * of_int q' + price * of_int q' * c \<le> cash"
proof -
  let ?left = "cash - price * of_int q * c"
  have nonneg: "0 \<le> ?left"
  proof (rule ccontr)
    assume "\<not> 0 \<le> ?left"
    then have "?left / price \<le> 0" using assms(1) by (simp add: divide_le_0_iff)
    then have "py_int (?left / price) \<le> py_int 0" by (rule py_int_mono)
    then show False using assms(5,6) by (simp add: py_int_def)
  qed
  have le: "price * of_int q' \<le> ?left" using py_int_div_cost [OF assms(1) nonneg] assms(5) by simp
  then have "price * of_int q' \<le> price * of_int q" using assms(4) by linarith
  then have "price * of_int q' * c \<le> price * of_int q * c" using assms(2) by (rule mult_right_mono)
  with le show ?thesis by linarith
qed

lemma books_buy:
  assumes cfg: "bt_config_ok cfg" and en: "books cfg symbol en" and none: "en_positions en = []" and price: "0 < price"
  shows "\<exists>en'. bt_buy cfg symbol date price en = Inr en' \<and> books cfg symbol en'"
proof -
  obtain p where p: "p = price * (1 + bc_slippage_rate cfg / 100)" by blast
  obtain c where c: "c = bc_commission_rate cfg / 100" by blast
  obtain q where q: "q = py_int (min (en_cash en * (bc_max_position_pct cfg / 100)) (en_cash en * (9 / 10)) / p)" by blast
  obtain q' where q': "q' = py_int ((en_cash en - p * of_int q * c) / p)" by blast
  have pos: "0 < p" unfolding p using cfg price by (intro mult_pos_pos) (auto simp: bt_config_ok_def)
  have c0: "0 \<le> c" and cash: "0 \<le> en_cash en" using cfg en by (simp_all add: c bt_config_ok_def books_def)
  have opened: "books cfg symbol (open_position cfg symbol date p k en)" if "0 < k" "p * of_int k + p * of_int k * c \<le> en_cash en" for k
    using that books_open [OF cfg en none pos] by (simp add: c)
  have buy: "bt_buy cfg symbol date price en = Inr (if q \<le> 0 then en
      else if en_cash en < p * of_int q + p * of_int q * c
      then (if q' \<le> 0 then en else open_position cfg symbol date p q' en)
      else open_position cfg symbol date p q en)"
    using pos unfolding bt_buy_def Let_def p [symmetric] c [symmetric] q [symmetric] q' [symmetric] by auto
  show ?thesis
    using buy en opened [of q'] opened [of q] reduced_quantity_cost [OF pos c0 cash _ q'] by (auto simp: not_less)
qed

lemma books_trade:
  assumes cfg: "bt_config_ok cfg" and en: "books cfg symbol en" and price: "0 < bar_close b"
  shows "\<exists>en'. trade_step cfg symbol b signal en = Inr en' \<and> books cfg symbol en'"
proof (cases signal)
  case None
  then show ?thesis using en by (simp add: trade_step_def)
next
  case (Some s)
  from books_positions [OF en] show ?thesis
  proof
    assume none: "en_positions en = []"
    then have "\<not> has_position symbol en" by (simp add: has_position_def)
    then show ?thesis using books_buy [OF cfg en none price] en Some by (auto simp: trade_step_def)
  next
    assume "\<exists>p. en_positions en = [p] \<and> position_ok symbol p"
    then obtain p where p: "en_positions en = [p]" "position_ok symbol p" by blast
    then have "has_position symbol en" "bp_symbol p = symbol" by (simp_all add: has_position_def position_ok_def)
    moreover have "books cfg symbol (close_position cfg p (bar_date b) (bar_close b) ''SIGNAL'' en)"
      using books_close [OF cfg en p(1)] price by simp
    ultimately show ?thesis using en Some p by (auto simp: trade_step_def bt_sell_def)
  qed
qed

lemma books_bar:
  assumes cfg: "bt_config_ok cfg" and en: "books cfg symbol en" and price: "0 < bar_close b"
  shows "\<exists>en'. bar_step cfg calc symbol seen b en = Inr en' \<and> books cfg symbol en'"
proof -
  let ?en1 = "check_positions cfg (bar_date b) (bar_close b) (bar_high b) (bar_low b) en"
  have "books cfg symbol ?en1" using price by (intro books_check cfg en) simp
  from books_trade [OF cfg this price] obtain en2 where
    2: "trade_step cfg symbol b (bt_evaluate cfg symbol (bar_close b) (calc seen)) ?en1 = Inr en2" "books cfg symbol en2"
    by blast
  have "map (tied_up cfg) (map (\<lambda>p. p\<lparr>bp_hold_days := bp_hold_days p + 1\<rparr>) ps) = map (tied_up cfg) ps" for ps
    by (simp add: tied_up_def)
  moreover have "list_all (position_ok symbol) (map (\<lambda>p. p\<lparr>bp_hold_days := bp_hold_days p + 1\<rparr>) ps) = list_all (position_ok symbol) ps" for ps
    by (simp add: list_all_iff position_ok_def)
  ultimately show ?thesis using 2 by (simp add: bar_step_def Let_def books_def del: map_map)
qed

lemma books_run:
  "bt_config_ok cfg \<Longrightarrow> books cfg symbol en \<Longrightarrow> list_all (\<lambda>i. 0 < bar_close (bars ! i)) is \<Longrightarrow>
     \<exists>en'. run_bars cfg calc symbol bars is en = Inr en' \<and> books cfg symbol en'"
proof (induction "is" arbitrary: en)
  case (Cons i "is")
  obtain en1 where "bar_step cfg calc symbol (take (i + 1) bars) (bars ! i) en = Inr en1" "books cfg symbol en1"
    using books_bar [OF Cons.prems(1,2)] Cons.prems(3) by fastforce
  then show ?case using Cons by simp
qed simp

text \<open>
  The books of a backtest balance: with sane rates and positive closing prices the engine never
  raises, never spends cash it does not have and ends without positions; its final cash is the
  initial capital plus, over all trades, what the exit brought less what the entry cost, both with
  commission. The profit it records for a trade leaves out the commission of the entry.
\<close>

lemma backtest_books_balance:
  assumes "bt_config_ok cfg" and "list_all (\<lambda>b. 0 < bar_close b) bars"
  shows "case bt_run cfg calc symbol bars of
      Inl e \<Rightarrow> False
    | Inr None \<Rightarrow> length bars < 30
    | Inr (Some (m, en)) \<Rightarrow> en_positions en = [] \<and> 0 \<le> en_cash en \<and>
        en_cash en = bc_initial_capital cfg + sum_list (map (net_of cfg) (en_trades en)) \<and>
        list_all (\<lambda>t. bt_pnl t = py_round 2 (net_of cfg t + entry_commission cfg t)) (en_trades en)"
proof (cases "length bars < 30")
  case True
  then show ?thesis by (simp add: bt_run_def)
next
  case False
  have start: "books cfg symbol (start_engine cfg)" using assms(1) by (simp add: books_def start_engine_def bt_config_ok_def)
  have "list_all (\<lambda>i. 0 < bar_close (bars ! i)) [30..<length bars]" using assms(2) by (simp add: list_all_iff)
  from books_run [OF assms(1) start this, of calc] obtain en where
    run: "run_bars cfg calc symbol bars [30..<length bars] (start_engine cfg) = Inr en" and en: "books cfg symbol en"
    by blast
  have "last bars \<in> set bars" using False by (intro last_in_set) auto
  then have close: "0 \<le> bar_close (last bars)" using assms(2) by (auto simp: list_all_iff less_imp_le)
  let ?en = "liquidate cfg (last bars) en"
  have "books cfg symbol ?en \<and> en_positions ?en = []"
    using books_positions [OF en]
  proof
    assume "en_positions en = []"
    then show ?thesis using en by (simp add: liquidate_def)
  next
    assume "\<exists>p. en_positions en = [p] \<and> position_ok symbol p"
    then obtain p where "en_positions en = [p]" by blast
    then show ?thesis using books_close [OF assms(1) en _ close] by (simp add: liquidate_def)
  qed
  then show ?thesis using run False by (auto simp: bt_run_def Let_def books_def list_all_iff trade_ok_def)
qed

lemma backtest_books_balance_witness:
  "case bt_run default_bt_config (\<lambda>_. \<lparr>ind_rsi = Some 20, ind_macd_hist = Some 1, ind_cross = None\<rparr>) ''005930''
      (replicate 40 \<lparr>bar_date = [], bar_close = 70000, bar_high = 70000, bar_low = 70000\<rparr>) of
     Inl e \<Rightarrow> False | Inr None \<Rightarrow> False | Inr (Some (m, en)) \<Rightarrow> en_positions en = [] \<and> 0 \<le> en_cash en"
proof -
  have "bt_config_ok default_bt_config" by (simp add: bt_config_ok_def default_bt_config_def)
  moreover have "list_all (\<lambda>b. 0 < bar_close b) (replicate 40 \<lparr>bar_date = [], bar_close = 70000, bar_high = 70000, bar_low = 70000\<rparr>)"
    by (simp add: list_all_iff)
  ultimately show ?thesis
    using backtest_books_balance [of default_bt_config _ "\<lambda>_. \<lparr>ind_rsi = Some 20, ind_macd_hist = Some 1, ind_cross = None\<rparr>" "''005930''"]
    by (fastforce split: sum.splits option.splits)
qed

section \<open>The figures\<close>

lemma mean_bounds:
  assumes "xs \<noteq> []"
  shows "Min (set xs) \<le> np_mean xs" and "np_mean xs \<le> Max (set xs)"
proof -
  have "of_nat (length xs) * Min (set xs) \<le> sum_list xs"
    using sum_list_mono [of xs "\<lambda>_. Min (set xs)" "\<lambda>x. x"] by (simp add: sum_list_triv)
  moreover have "sum_list xs \<le> of_nat (length xs) * Max (set xs)"
    using sum_list_mono [of xs "\<lambda>x. x" "\<lambda>_. Max (set xs)"] by (simp add: sum_list_triv)
  ultimately show "Min (set xs) \<le> np_mean xs" and "np_mean xs \<le> Max (set xs)"
    using assms by (simp_all add: np_mean_def field_simps)
qed

lemma mean_or_0_sign:
  "list_all (\<lambda>x. 0 < x) xs \<Longrightarrow> 0 \<le> mean_or_0 xs"
  "list_all (\<lambda>x. x < 0) xs \<Longrightarrow> mean_or_0 xs \<le> 0"
  by (auto simp: mean_or_0_def np_mean_def list_all_iff intro!: divide_nonneg_nonneg divide_nonpos_nonneg sum_list_nonneg sum_list_nonpos)

lemma length_two_filters:
  "(\<And>x. P x \<Longrightarrow> \<not> Q x) \<Longrightarrow> length (filter P xs) + length (filter Q xs) \<le> length xs"
  by (induction xs) auto

lemma drawdown_run_bound:
  "max_duration \<le> i \<Longrightarrow> dd_start \<le> i \<Longrightarrow> drawdown_run i in_dd dd_start max_duration dds \<le> i + length dds"
proof (induction dds arbitrary: i in_dd dd_start max_duration)
  case (Cons d dds)
  have "drawdown_run (Suc i) True (if in_dd then dd_start else i) max_duration dds \<le> Suc i + length dds"
    and "drawdown_run (Suc i) False dd_start (if in_dd then max max_duration (i - dd_start) else max_duration) dds \<le> Suc i + length dds"
    by (rule Cons.IH; use Cons.prems in auto)+
  then show ?case by simp
qed auto

lemma drawdown_run_zero:
  "(in_dd \<longrightarrow> dd_start < i) \<Longrightarrow>
     drawdown_run i in_dd dd_start max_duration dds = 0 \<longleftrightarrow> \<not> in_dd \<and> max_duration = 0 \<and> list_all (\<lambda>d. 0 \<le> d) dds"
proof (induction dds arbitrary: i in_dd dd_start max_duration)
  case (Cons d dds)
  show ?case
  proof (cases "d < 0")
    case True
    then show ?thesis using Cons.IH [of True "if in_dd then dd_start else i" "Suc i" max_duration] Cons.prems by auto
  next
    case False
    then show ?thesis
      using Cons.IH [of False dd_start "Suc i" "if in_dd then max max_duration (i - dd_start) else max_duration"] Cons.prems
      by auto
  qed
qed auto

lemma drawdown_at:
  "0 < p \<Longrightarrow> c \<le> p \<Longrightarrow> (c - p) / p * 100 \<le> (0::real)"
  "0 < p \<Longrightarrow> c \<le> p \<Longrightarrow> 0 \<le> (c - p) / p * 100 \<longleftrightarrow> c = (p::real)"
  by (auto simp: divide_le_0_iff zero_le_divide_iff)

lemma drawdowns_from:
  assumes "0 < m" and "list_all (\<lambda>c. 0 < c) curve"
  shows "list_all (\<lambda>d. d \<le> 0) (map (\<lambda>(c, p). (c - p) / p * 100) (zip curve (accumulate_max m curve)))"
    and "list_all (\<lambda>d. 0 \<le> d) (map (\<lambda>(c, p). (c - p) / p * 100) (zip curve (accumulate_max m curve))) \<longleftrightarrow> sorted (m # curve)"
  using assms
proof (induction curve arbitrary: m)
  case (Cons c curve)
  { case 1
    then show ?case using Cons.IH(1) [of "max m c"] drawdown_at(1) [of "max m c" c] by simp
  next
    case 2
    then have "0 \<le> (c - max m c) / max m c * 100 \<longleftrightarrow> m \<le> c"
      using drawdown_at(2) [of "max m c" c] by (auto simp: max_def)
    then show ?case using Cons.IH(2) [of "max m c"] 2 by (auto simp: max_def)
  }
qed auto

lemma round_nonpos: "x \<le> 0 \<Longrightarrow> py_round n x \<le> 0"
  using py_round_mono [of x 0 n] by simp

text \<open>
  The figures of a backtest are consistent: winning and losing trades are at most all trades, the
  win rate is a fraction, the average return lies between the worst and the best single one, average
  wins and losses have their sign; on a curve of positive values the maximum drawdown is never
  positive, its duration is at most the number of points, and it is zero exactly on a curve that
  never falls.
\<close>

lemma metrics_consistent:
  assumes "trades \<noteq> []" and "1 < length curve" and "list_all (\<lambda>c. 0 < c) curve"
  shows "let m = calculate_metrics trades curve capital in
    me_winning_trades m + me_losing_trades m \<le> me_total_trades m \<and>
    0 \<le> me_win_rate m \<and> me_win_rate m \<le> 1 \<and>
    me_max_single_loss m \<le> me_avg_return_per_trade m \<and> me_avg_return_per_trade m \<le> me_max_single_win m \<and>
    me_avg_loss_return m \<le> 0 \<and> 0 \<le> me_avg_win_return m \<and>
    me_max_drawdown m \<le> 0 \<and> me_max_drawdown_duration m \<le> length curve \<and>
    (me_max_drawdown_duration m = 0 \<longleftrightarrow> sorted curve)"
proof -
  let ?rs = "map bt_return_pct trades" and ?dds = "drawdowns curve"
  let ?m = "calculate_metrics trades curve capital"
  obtain c cs where curve: "curve = c # cs" using assms(2) by (cases curve) auto
  have c: "0 < c" using assms(3) curve by simp
  have len: "length (accumulate_max m xs) = length xs" for m xs by (induction xs arbitrary: m) auto
  have "length ?dds = length curve" by (simp add: drawdowns_def len)
  then have dds: "?dds \<noteq> []" "drawdown_run 0 False 0 0 ?dds \<le> length curve"
    using assms(2) drawdown_run_bound [of 0 0 0 False ?dds] by auto
  have neg: "list_all (\<lambda>d. d \<le> 0) ?dds"
    using drawdowns_from(1) [OF c assms(3)] curve by (simp add: drawdowns_def)
  have "list_all (\<lambda>d. 0 \<le> d) ?dds \<longleftrightarrow> sorted (c # curve)"
    using drawdowns_from(2) [OF c assms(3)] curve by (simp add: drawdowns_def)
  then have zero: "drawdown_run 0 False 0 0 ?dds = 0 \<longleftrightarrow> sorted curve"
    using drawdown_run_zero [of False 0 0 0 ?dds] curve by simp
  have "Min (set ?dds) \<le> 0" using neg dds by (auto simp: list_all_iff Min_le_iff neq_Nil_conv)
  then have mdd: "py_round 2 (Min (set ?dds)) \<le> 0" by (rule round_nonpos)
  have counts: "length (filter (\<lambda>r. 0 < r) ?rs) + length (filter (\<lambda>r. r < 0) ?rs) \<le> length trades"
    using length_two_filters [of "\<lambda>r. 0 < r" "\<lambda>r. r < 0" ?rs] by simp
  then have rate: "real (length (filter (\<lambda>r. 0 < r) ?rs)) / real (length trades) \<le> 1"
    using assms(1) by (simp add: divide_le_eq)
  have signs: "0 \<le> mean_or_0 (filter (\<lambda>r. 0 < r) ?rs)" "mean_or_0 (filter (\<lambda>r. r < 0) ?rs) \<le> 0"
    by (simp_all add: mean_or_0_sign list_all_iff)
  have avg: "Min (set ?rs) \<le> mean_or_0 ?rs" "mean_or_0 ?rs \<le> Max (set ?rs)"
    using mean_bounds [of ?rs] assms(1) by (simp_all add: mean_or_0_def)
  show ?thesis using counts rate signs avg mdd dds(2) zero assms(1,2)
    by (simp add: calculate_metrics_def Let_def empty_metrics_def)
qed

lemma metrics_consistent_witness:
  "let t = \<lparr>bt_symbol = ''005930'', bt_entry_date = [], bt_entry_price = 100, bt_exit_date = [], bt_exit_price = 110,
      bt_quantity = 1, bt_pnl = 10, bt_return_pct = 10, bt_hold_days = 1, bt_strategy = [], bt_reason = []\<rparr>;
      m = calculate_metrics [t] [1000, 1010] 1000
   in me_max_drawdown_duration m = 0"
  using metrics_consistent [of "[\<lparr>bt_symbol = ''005930'', bt_entry_date = [], bt_entry_price = 100, bt_exit_date = [], bt_exit_price = 110,
      bt_quantity = 1, bt_pnl = 10, bt_return_pct = 10, bt_hold_days = 1, bt_strategy = [], bt_reason = []\<rparr>]" "[1000, 1010]" 1000]
  by (simp add: Let_def)

end
