(* ===== verification/Reconfigure.thy ===== *)
theory Reconfigure
  imports Runtime_Settings
begin

text \<open>
  Changing settings while the program runs (\<open>services/runtime_reconfiguration_service.py\<close>) together
  with the start and stop of the scheduler (\<open>scheduler/scheduler.py\<close>): new work is held off, the
  scheduler stopped, the update applied, the scheduler started again. Whether agent and scheduler
  became idle in time is an argument; the registration of the timed jobs is not modelled.
\<close>

section \<open>The scheduler's switch\<close>

definition setting_on :: "config \<Rightarrow> string \<Rightarrow> bool" where
  "setting_on cfg key = (case cfg key of None \<Rightarrow> False | Some v \<Rightarrow> py_truthy v)"

definition scheduler_wanted :: "config \<Rightarrow> bool" where
  "scheduler_wanted cfg \<longleftrightarrow> setting_on cfg ''SCHEDULER_ENABLED'' \<or> setting_on cfg ''NEWS_POLL_ENABLED''"

definition start_if_wanted :: "config \<Rightarrow> bool \<Rightarrow> bool" where
  "start_if_wanted cfg running = (if running then running else scheduler_wanted cfg)"

definition stop_if_running :: "bool \<Rightarrow> bool" where
  "stop_if_running running = (if running then False else running)"

section \<open>The service\<close>

record reconf_state =
  rc_active :: bool
  rc_running :: bool
  rc_settings :: "config \<times> setting_rows"
  rc_llm_resets :: nat

record reconf_answer =
  ra_was_running :: bool
  ra_restarted :: bool
  ra_agent_idle :: bool
  ra_scheduler_idle :: bool

definition apply_settings ::
  "(real \<Rightarrow> string) \<Rightarrow> (string \<Rightarrow> bool) \<Rightarrow> bool \<Rightarrow> bool \<Rightarrow> (string \<times> py_value) list \<Rightarrow> reconf_state \<Rightarrow>
     reconf_answer res \<times> reconf_state" where
  "apply_settings repr db_fails agent_idle scheduler_idle updates st =
     (if rc_active st then (Inl (Exn ServiceException ''runtime_reconfiguration_in_progress''), st)
      else
        let was_running = rc_running st;
            st1 = st\<lparr>rc_active := True, rc_running := (if was_running then stop_if_running (rc_running st) else rc_running st)\<rparr>;
            (r, settings') = update_settings repr db_fails updates (rc_settings st1);
            st2 = st1\<lparr>rc_settings := settings'\<rparr>
        in case r of
             Inl e \<Rightarrow> (Inl e, st2\<lparr>rc_active := False\<rparr>)
           | Inr u \<Rightarrow>
               (let st3 = st2\<lparr>rc_llm_resets := rc_llm_resets st2 + 1\<rparr>;
                    should_run = scheduler_wanted (fst settings')
                in (Inr \<lparr>ra_was_running = was_running, ra_restarted = should_run, ra_agent_idle = agent_idle,
                         ra_scheduler_idle = scheduler_idle\<rparr>,
                    st3\<lparr>rc_running := (if should_run then start_if_wanted (fst settings') (rc_running st3) else rc_running st3),
                        rc_active := False\<rparr>)))"

text \<open>
  A settings update that fails, be it one invalid value or a database fault, leaves the
  scheduler stopped, whatever the settings say: afterwards it runs exactly if the update was
  accepted and the settings want it. The service never stays in its active phase.
\<close>

lemma rejected_update_stops_scheduler:
  assumes "\<not> rc_active st" and "apply_settings repr db_fails ai si updates st = (r, st')"
  shows "\<not> rc_active st' \<and> (rc_running st' \<longleftrightarrow> (\<exists>a. r = Inr a) \<and> scheduler_wanted (fst (rc_settings st')))"
  using assms
  by (auto simp: apply_settings_def Let_def stop_if_running_def start_if_wanted_def split: prod.splits sum.splits if_splits)

lemma rejected_update_stops_scheduler_witness:
  "\<not> rc_running (snd (apply_settings (\<lambda>_. []) (\<lambda>_. False) True True [(''LLM_TIER1_CONCURRENCY'', PInt 0)]
     \<lparr>rc_active = False, rc_running = True, rc_settings = (sample_config, []), rc_llm_resets = 0\<rparr>))"
proof -
  let ?st = "\<lparr>rc_active = False, rc_running = True, rc_settings = (sample_config, []), rc_llm_resets = 0\<rparr>"
  obtain r st' where a: "apply_settings (\<lambda>_. []) (\<lambda>_. False) True True [(''LLM_TIER1_CONCURRENCY'', PInt 0)] ?st = (r, st')"
    by (metis surj_pair)
  have "isl (coerce_runtime_setting_value (\<lambda>_. []) (\<lambda>_. Some (PInt 2)) ''LLM_TIER1_CONCURRENCY'' (PInt 0))"
    by code_simp
  moreover have "coerce_runtime_setting_value (\<lambda>_. []) sample_config ''LLM_TIER1_CONCURRENCY'' (PInt 0) =
      coerce_runtime_setting_value (\<lambda>_. []) (\<lambda>_. Some (PInt 2)) ''LLM_TIER1_CONCURRENCY'' (PInt 0)"
    by (simp add: coerce_runtime_setting_value_def sample_config_def)
  moreover have "''LLM_TIER1_CONCURRENCY'' \<in> set mutable_settings" by code_simp
  ultimately have "isl (normalize_updates (\<lambda>_. []) sample_config [(''LLM_TIER1_CONCURRENCY'', PInt 0)])"
    by (auto simp: isl_def)
  then obtain e where "update_settings (\<lambda>_. []) (\<lambda>_. False) [(''LLM_TIER1_CONCURRENCY'', PInt 0)] (sample_config, []) =
      (Inl e, sample_config, [])"
    by (auto simp: update_settings_def isl_def simp del: normalize_updates.simps)
  then have "\<not> (\<exists>a. r = Inr a)" using a by (auto simp: apply_settings_def)
  then show ?thesis using rejected_update_stops_scheduler [OF _ a] a by simp
qed

end
