(* ===== verification/Manual_Trade.thy ===== *)
theory Manual_Trade
  imports Liquidation
begin

text \<open>
  The actions of the administrator on positions and pending orders (\<open>services/manual_trade_service.py\<close>):
  sell a holding at once, cancel a pending buy, replace a pending sell by a market sell. A refusal is a
  \<open>ServiceException\<close>, kept as its HTTP status and its cause; any other exception is captured and
  escapes. The answers of the broker and the calendar are arguments; log entries and the texts for
  display are left out.
\<close>

section \<open>State and environment\<close>

datatype service_cause =
  Submission_blocked string
| Session_closed
| Session_unsupported
| No_holding
| No_such_order
| Sell_already_pending
| Only_buys
| Only_sells
| Order_refused string
| Cancelled_but_not_sold string

datatype service_error = Service nat service_cause | Escaped py_exn

record captured_error =
  ce_operation :: string
  ce_symbol :: "string option"
  ce_order_id :: "string option"

record manual_state =
  mt_dm :: dm_state
  mt_captured :: "captured_error list"

record manual_env =
  me_dm :: dm_env
  me_regular_open :: bool
  me_sessions :: "order_session list"
  me_holdings :: "holding_info list res"
  me_orders :: "pending_order_info list res"
  me_cancel :: "string \<Rightarrow> order_result res"

record manual_done =
  md_symbol :: string
  md_name :: string
  md_quantity :: int
  md_cancelled_id :: string
  md_order_id :: string

text \<open>A step answers or refuses, and leaves the decision maker's state.\<close>

type_synonym 'a manual_step = "(service_error + 'a) \<times> dm_state"

text \<open>A refusal ends an action.\<close>

definition ebind :: "service_error + 'a \<Rightarrow> ('a \<Rightarrow> service_error + 'b) \<Rightarrow> service_error + 'b" where
  "ebind m f = (case m of Inl e \<Rightarrow> Inl e | Inr x \<Rightarrow> f x)"

lemma ebind_simps [simp]: "ebind (Inl e) f = Inl e" "ebind (Inr x) f = f x"
  by (simp_all add: ebind_def)

lemma ebind_eq_Inr: "ebind m f = Inr y \<longleftrightarrow> (\<exists>x. m = Inr x \<and> f x = Inr y)"
  by (cases m) (auto simp: ebind_def)

section \<open>The checks\<close>

definition ensure_order_submission_allowed :: "settings \<Rightarrow> string \<Rightarrow> service_error + unit" where
  "ensure_order_submission_allowed cfg side =
     (let sd = decide_order_submission cfg side
      in if \<not> TRADING_ENABLED cfg then Inl (Service 400 (Submission_blocked ''TRADING_ENABLED=false''))
         else if \<not> sd_allowed sd then Inl (Service 400 (Submission_blocked (sd_reason sd)))
         else Inr ())"

definition ensure_regular_session_sell_supported :: "manual_env \<Rightarrow> service_error + unit" where
  "ensure_regular_session_sell_supported env =
     (if \<not> me_regular_open env then Inl (Service 400 Session_closed)
      else if REGULAR \<notin> set (me_sessions env) then Inl (Service 400 Session_unsupported)
      else Inr ())"

text \<open>An exception of the broker escapes.\<close>

definition escaping :: "'a res \<Rightarrow> service_error + 'a" where
  "escaping r = map_sum Escaped id r"

definition find_manual_holding :: "manual_env \<Rightarrow> string \<Rightarrow> service_error + holding_info" where
  "find_manual_holding env symbol =
     ebind (escaping (me_holdings env)) (\<lambda>hs.
       case find_holding (normalize_krx_symbol symbol) hs of
         None \<Rightarrow> Inl (Service 400 No_holding)
       | Some h \<Rightarrow> Inr h)"

definition find_pending_order :: "manual_env \<Rightarrow> string \<Rightarrow> service_error + pending_order_info" where
  "find_pending_order env order_id =
     ebind (escaping (me_orders env)) (\<lambda>os.
       case find (\<lambda>p. po_order_id p = order_id) os of
         None \<Rightarrow> Inl (Service 404 No_such_order)
       | Some p \<Rightarrow> Inr p)"

definition has_pending_sell :: "string \<Rightarrow> pending_order_info list \<Rightarrow> bool" where
  "has_pending_sell symbol os \<longleftrightarrow> (\<exists>p \<in> set os. normalize_krx_symbol (po_symbol p) = symbol \<and> po_side p = kr_sell)"

section \<open>Placing and recording the sale\<close>

definition place_manual_sell :: "manual_env \<Rightarrow> holding_info \<Rightarrow> dm_state \<Rightarrow> order_result manual_step" where
  "place_manual_sell env h st =
     (let symbol = normalize_krx_symbol (hi_symbol h); quantity = hi_quantity h
      in if quantity \<le> 0 then (Inl (Service 400 No_holding), st)
         else case validate_order_request (exit_request symbol quantity) of
             Inl e \<Rightarrow> (Inl (Escaped e), st)
           | Inr req \<Rightarrow> (escaping (env_place (me_dm env) req), st\<lparr>dm_placed := dm_placed st @ [req]\<rparr>))"

definition manual_task :: "string \<Rightarrow> string \<Rightarrow> string \<Rightarrow> string \<Rightarrow> string \<Rightarrow> holding_info \<Rightarrow> confirm_task" where
  "manual_task symbol order_id entry_pattern exit_reason stock_name h =
     \<lparr>ct_symbol = symbol, ct_side = ''SELL'', ct_order_id = order_id, ct_quantity = hi_quantity h,
      ct_expected_price = hi_current_price h,
      ct_context = empty_context\<lparr>ctx_stock_name := Some stock_name, ctx_strategy_type := ''MANUAL'',
        ctx_ai_recommendation := ''SELL'', ctx_entry_pattern := Some entry_pattern\<rparr>,
      ct_exit_reason = exit_reason, ct_pending_id = None, ct_callback = None\<rparr>"

definition invalidate_broker_cache :: "dm_state \<Rightarrow> dm_state" where
  "invalidate_broker_cache st = st\<lparr>dm_cache_invalidations := dm_cache_invalidations st + 1\<rparr>"

text \<open>What both selling actions do with the broker's answer; \<open>refused\<close> is the error of a refusal.\<close>

definition finish_manual_sell ::
  "manual_env \<Rightarrow> holding_info \<Rightarrow> string \<Rightarrow> string \<Rightarrow> string \<Rightarrow> (string \<Rightarrow> service_error) \<Rightarrow> dm_state \<Rightarrow> string manual_step" where
  "finish_manual_sell env h symbol entry_pattern exit_reason refused st =
     (let (r, st1) = place_manual_sell env h st
      in case r of
           Inl e \<Rightarrow> (Inl e, st1)
         | Inr ores \<Rightarrow>
             if \<not> ores_success ores \<or> ostr (ores_order_id ores) = [] then (Inl (refused (ores_message ores)), st1)
             else (Inr (ostr (ores_order_id ores)),
                   invalidate_broker_cache (confirm_and_record (me_dm env)
                     (manual_task symbol (ostr (ores_order_id ores)) entry_pattern exit_reason (hi_name h) h) st1)))"

section \<open>The three actions\<close>

definition sell_position_step :: "settings \<Rightarrow> manual_env \<Rightarrow> string \<Rightarrow> dm_state \<Rightarrow> manual_done manual_step" where
  "sell_position_step cfg env symbol st =
     (case ebind (ensure_order_submission_allowed cfg ''SELL'') (\<lambda>_.
           ebind (ensure_regular_session_sell_supported env) (\<lambda>_.
           ebind (find_manual_holding env symbol) (\<lambda>h.
           ebind (escaping (me_orders env)) (\<lambda>os.
             if has_pending_sell symbol os then Inl (Service 409 Sell_already_pending) else Inr h)))) of
        Inl e \<Rightarrow> (Inl e, st)
      | Inr h \<Rightarrow>
          (let (r, st') = finish_manual_sell env h symbol ''MANUAL_SELL'' ''MANUAL_SELL''
                            (\<lambda>m. Service 400 (Order_refused m)) st
           in (map_sum id (\<lambda>oid. \<lparr>md_symbol = symbol, md_name = hi_name h, md_quantity = hi_quantity h,
                 md_cancelled_id = [], md_order_id = oid\<rparr>) r, st')))"

text \<open>The broker is asked to cancel: the asked order is noted whatever the answer.\<close>

definition ask_cancel :: "manual_env \<Rightarrow> string \<Rightarrow> dm_state \<Rightarrow> unit manual_step" where
  "ask_cancel env order_id st =
     (let st' = st\<lparr>dm_cancelled := dm_cancelled st @ [order_id]\<rparr>
      in case me_cancel env order_id of
           Inl e \<Rightarrow> (Inl (Escaped e), st')
         | Inr r \<Rightarrow> (if ores_success r then Inr () else Inl (Service 400 (Order_refused (ores_message r))), st'))"

definition cancel_pending_buy_step :: "settings \<Rightarrow> manual_env \<Rightarrow> string \<Rightarrow> dm_state \<Rightarrow> manual_done manual_step" where
  "cancel_pending_buy_step cfg env order_id st =
     (case ebind (ensure_order_submission_allowed cfg ''CANCEL'') (\<lambda>_.
           ebind (find_pending_order env order_id) (\<lambda>p.
             if po_side p \<noteq> kr_buy then Inl (Service 400 Only_buys) else Inr p)) of
        Inl e \<Rightarrow> (Inl e, st)
      | Inr p \<Rightarrow>
          (let (r, st1) = ask_cancel env order_id st
           in case r of
                Inl e \<Rightarrow> (Inl e, st1)
              | Inr _ \<Rightarrow> (Inr \<lparr>md_symbol = normalize_krx_symbol (po_symbol p), md_name = po_name p, md_quantity = 0,
                              md_cancelled_id = order_id, md_order_id = []\<rparr>, invalidate_broker_cache st1)))"

definition replace_pending_sell_step :: "settings \<Rightarrow> manual_env \<Rightarrow> string \<Rightarrow> dm_state \<Rightarrow> manual_done manual_step" where
  "replace_pending_sell_step cfg env order_id st =
     (case ebind (ensure_order_submission_allowed cfg ''SELL'') (\<lambda>_.
           ebind (ensure_regular_session_sell_supported env) (\<lambda>_.
           ebind (find_pending_order env order_id) (\<lambda>p.
             if po_side p \<noteq> kr_sell then Inl (Service 400 Only_sells)
             else ebind (find_manual_holding env (po_symbol p)) (\<lambda>h. Inr (p, h))))) of
        Inl e \<Rightarrow> (Inl e, st)
      | Inr (p, h) \<Rightarrow>
          (let symbol = normalize_krx_symbol (po_symbol p); (r, st1) = ask_cancel env order_id st
           in case r of
                Inl e \<Rightarrow> (Inl e, st1)
              | Inr _ \<Rightarrow>
                  (let (r2, st2) = finish_manual_sell env h symbol ''CANCEL_AND_SELL'' ''MANUAL_REPLACE_SELL''
                                     (\<lambda>m. Service 500 (Cancelled_but_not_sold m)) st1
                   in (map_sum id (\<lambda>oid. \<lparr>md_symbol = symbol, md_name = po_name p, md_quantity = hi_quantity h,
                         md_cancelled_id = order_id, md_order_id = oid\<rparr>) r2, st2))))"

text \<open>The handler around each action: only what is no \<open>ServiceException\<close> is captured.\<close>

definition with_capture :: "captured_error \<Rightarrow> (dm_state \<Rightarrow> 'a manual_step) \<Rightarrow> manual_state \<Rightarrow> (service_error + 'a) \<times> manual_state" where
  "with_capture c body x =
     (let (r, dm) = body (mt_dm x)
      in (r, x\<lparr>mt_dm := dm,
               mt_captured := mt_captured x @ (case r of Inl (Escaped e) \<Rightarrow> [c] | _ \<Rightarrow> [])\<rparr>))"

text \<open>The order's symbol once it was found.\<close>

definition order_symbol :: "manual_env \<Rightarrow> string \<Rightarrow> string option" where
  "order_symbol env order_id =
     (case find_pending_order env order_id of
        Inl e \<Rightarrow> None
      | Inr p \<Rightarrow> if po_symbol p = [] then None else Some (normalize_krx_symbol (po_symbol p)))"

definition id_or_none :: "string \<Rightarrow> string option" where
  "id_or_none s = (if s = [] then None else Some s)"

definition sell_position ::
  "settings \<Rightarrow> manual_env \<Rightarrow> string \<Rightarrow> manual_state \<Rightarrow> (service_error + manual_done) \<times> manual_state" where
  "sell_position cfg env raw_symbol x =
     (let symbol = normalize_krx_symbol raw_symbol
      in with_capture \<lparr>ce_operation = ''sell_position'', ce_symbol = id_or_none symbol, ce_order_id = None\<rparr>
           (sell_position_step cfg env symbol) x)"

definition cancel_pending_buy ::
  "settings \<Rightarrow> manual_env \<Rightarrow> string \<Rightarrow> manual_state \<Rightarrow> (service_error + manual_done) \<times> manual_state" where
  "cancel_pending_buy cfg env order_id =
     with_capture \<lparr>ce_operation = ''cancel_pending_buy'', ce_symbol = order_symbol env order_id,
       ce_order_id = id_or_none order_id\<rparr> (cancel_pending_buy_step cfg env order_id)"

definition replace_pending_sell_with_market_order ::
  "settings \<Rightarrow> manual_env \<Rightarrow> string \<Rightarrow> manual_state \<Rightarrow> (service_error + manual_done) \<times> manual_state" where
  "replace_pending_sell_with_market_order cfg env order_id =
     with_capture \<lparr>ce_operation = ''replace_pending_sell_with_market_order'', ce_symbol = order_symbol env order_id,
       ce_order_id = id_or_none order_id\<rparr> (replace_pending_sell_step cfg env order_id)"

section \<open>Lemmas\<close>

lemma ensure_allowed_iff [simp]:
  "ensure_order_submission_allowed cfg side = Inr u \<longleftrightarrow> sd_allowed (decide_order_submission cfg side)"
  by (auto simp: ensure_order_submission_allowed_def decide_order_submission_def Let_def)

lemma ensure_session_iff [simp]:
  "ensure_regular_session_sell_supported env = Inr u \<longleftrightarrow> me_regular_open env \<and> REGULAR \<in> set (me_sessions env)"
  by (auto simp: ensure_regular_session_sell_supported_def)

lemma escaping_iff [simp]: "escaping r = Inr x \<longleftrightarrow> r = Inr x"
  by (cases r) (simp_all add: escaping_def)

lemma escaping_Inl [simp]: "escaping r = Inl e \<longleftrightarrow> (\<exists>x. r = Inl x \<and> e = Escaped x)"
  by (cases r) (auto simp: escaping_def)

lemma find_manual_holding_iff:
  "find_manual_holding env symbol = Inr h \<longleftrightarrow>
     (\<exists>hs. me_holdings env = Inr hs \<and> find_holding (normalize_krx_symbol symbol) hs = Some h)"
  by (auto simp: find_manual_holding_def ebind_eq_Inr split: option.splits)

lemma find_pending_order_iff:
  "find_pending_order env order_id = Inr p \<longleftrightarrow>
     (\<exists>os. me_orders env = Inr os \<and> find (\<lambda>p. po_order_id p = order_id) os = Some p)"
  by (auto simp: find_pending_order_def ebind_eq_Inr split: option.splits)

lemmas manual_checks = ebind_eq_Inr find_manual_holding_iff find_pending_order_iff

text \<open>A sale places one market order for the whole holding, or none when there are no shares; a refusal
  records nothing.\<close>

definition whole_sale :: "holding_info \<Rightarrow> order_request list" where
  "whole_sale h = (if 0 < hi_quantity h then [exit_request (normalize_krx_symbol (hi_symbol h)) (hi_quantity h)] else [])"

lemma confirm_cancelled:
  "dm_cancelled (confirm_and_record env t st) = dm_cancelled st \<or>
   dm_cancelled (confirm_and_record env t st) = dm_cancelled st @ [ct_order_id t]"
  using confirmation_outcome [of env t st] by auto

lemma finish_sell_cases:
  assumes "finish_manual_sell env h symbol pat why refused st = (r, st')"
  shows "dm_placed st' = dm_placed st @ whole_sale h"
    and "(\<exists>oid. r = Inr oid) \<longleftrightarrow> 0 < hi_quantity h \<and>
           (\<exists>ores. env_place (me_dm env) (exit_request (normalize_krx_symbol (hi_symbol h)) (hi_quantity h)) = Inr ores \<and>
              ores_success ores \<and> ostr (ores_order_id ores) \<noteq> [])"
    and "\<nexists>oid. r = Inr oid \<Longrightarrow> dm_db st' = dm_db st \<and> dm_cancelled st' = dm_cancelled st"
  using assms
  by (auto simp: finish_manual_sell_def place_manual_sell_def exit_request_valid whole_sale_def Let_def
      invalidate_broker_cache_def confirm_frame split: sum.splits if_splits)

lemma ask_cancel_cases:
  assumes "ask_cancel env order_id st = (r, st')"
  shows "st' = st\<lparr>dm_cancelled := dm_cancelled st @ [order_id]\<rparr>"
    and "r = Inr u \<longleftrightarrow> (\<exists>c. me_cancel env order_id = Inr c \<and> ores_success c)"
    and "(\<exists>u. r = Inr u) \<longleftrightarrow> (\<exists>c. me_cancel env order_id = Inr c \<and> ores_success c)"
  using assms by (auto simp: ask_cancel_def Let_def split: sum.splits if_splits)

lemma find_in: "find P xs = Some p \<Longrightarrow> p \<in> set xs \<and> P p"
  by (auto simp: find_Some_iff)

lemma found_symbol: "find_holding symbol hs = Some h \<Longrightarrow> normalize_krx_symbol (hi_symbol h) = symbol"
  by (auto simp: find_holding_def find_Some_iff)

text \<open>What lets a sale by hand through.\<close>

definition manual_sale_open :: "settings \<Rightarrow> manual_env \<Rightarrow> bool" where
  "manual_sale_open cfg env \<longleftrightarrow>
     sd_allowed (decide_order_submission cfg ''SELL'') \<and> me_regular_open env \<and> REGULAR \<in> set (me_sessions env)"

definition sale_answered :: "manual_env \<Rightarrow> holding_info \<Rightarrow> (order_result \<Rightarrow> bool) \<Rightarrow> bool" where
  "sale_answered env h P \<longleftrightarrow> 0 < hi_quantity h \<and>
     (\<exists>ores. env_place (me_dm env) (exit_request (normalize_krx_symbol (hi_symbol h)) (hi_quantity h)) = Inr ores \<and> P ores)"

definition order_accepted :: "order_result \<Rightarrow> bool" where
  "order_accepted ores \<longleftrightarrow> ores_success ores \<and> ostr (ores_order_id ores) \<noteq> []"

lemma sell_step_cases:
  assumes "sell_position_step cfg env symbol st = (r, st')"
  obtains (refused) e where "r = Inl e" and "st' = st"
  | (sold) h hs os r2 where "manual_sale_open cfg env" and "me_holdings env = Inr hs"
      and "find_holding (normalize_krx_symbol symbol) hs = Some h" and "me_orders env = Inr os" and "\<not> has_pending_sell symbol os"
      and "finish_manual_sell env h symbol ''MANUAL_SELL'' ''MANUAL_SELL'' (\<lambda>m. Service 400 (Order_refused m)) st = (r2, st')"
      and "(\<exists>d. r = Inr d) \<longleftrightarrow> (\<exists>oid. r2 = Inr oid)"
proof (cases "ebind (ensure_order_submission_allowed cfg ''SELL'') (\<lambda>_.
           ebind (ensure_regular_session_sell_supported env) (\<lambda>_.
           ebind (find_manual_holding env symbol) (\<lambda>h.
           ebind (escaping (me_orders env)) (\<lambda>os.
             if has_pending_sell symbol os then Inl (Service 409 Sell_already_pending) else Inr h))))")
  case (Inl e)
  then show ?thesis using assms by (intro refused [of e]) (simp_all add: sell_position_step_def)
next
  case (Inr h)
  obtain r2 st2 where fin: "finish_manual_sell env h symbol ''MANUAL_SELL'' ''MANUAL_SELL'' (\<lambda>m. Service 400 (Order_refused m)) st = (r2, st2)"
    by fastforce
  from Inr obtain hs os where h: "me_holdings env = Inr hs" "find_holding (normalize_krx_symbol symbol) hs = Some h"
      "me_orders env = Inr os" "\<not> has_pending_sell symbol os" and ok: "manual_sale_open cfg env"
    by (auto simp: manual_checks manual_sale_open_def split: if_splits)
  have "r = map_sum id (\<lambda>oid. \<lparr>md_symbol = symbol, md_name = hi_name h, md_quantity = hi_quantity h,
      md_cancelled_id = [], md_order_id = oid\<rparr>) r2" "st' = st2"
    using assms Inr fin by (simp_all add: sell_position_step_def)
  with h ok fin show ?thesis by (intro sold [of hs h os r2]) (cases r2; simp)+
qed

text \<open>The pending sell of that number and the holding of its symbol: what can be replaced.\<close>

definition replaceable :: "settings \<Rightarrow> manual_env \<Rightarrow> string \<Rightarrow> pending_order_info \<Rightarrow> holding_info \<Rightarrow> bool" where
  "replaceable cfg env order_id p h \<longleftrightarrow> manual_sale_open cfg env \<and>
     (\<exists>os hs. me_orders env = Inr os \<and> find (\<lambda>p. po_order_id p = order_id) os = Some p \<and> po_side p = kr_sell \<and>
        me_holdings env = Inr hs \<and> find_holding (normalize_krx_symbol (po_symbol p)) hs = Some h)"

lemma replaceable_unique: "replaceable cfg env oid p h \<Longrightarrow> replaceable cfg env oid p' h' \<Longrightarrow> p' = p \<and> h' = h"
  by (auto simp: replaceable_def)

definition order_unknown :: "settings \<Rightarrow> manual_env \<Rightarrow> string \<Rightarrow> bool" where
  "order_unknown cfg env order_id \<longleftrightarrow> manual_sale_open cfg env \<and> (\<exists>os. me_orders env = Inr os \<and> order_id \<notin> po_order_id ` set os)"

lemma replace_step_cases:
  assumes "replace_pending_sell_step cfg env order_id st = (r, st')"
  obtains (refused) e where "r = Inl e" and "st' = st" and "\<And>p h. \<not> replaceable cfg env order_id p h"
      and "\<forall>m. r \<noteq> Inl (Service 500 m)" and "(\<exists>m. r = Inl (Service 404 m)) \<longleftrightarrow> order_unknown cfg env order_id"
  | (asked) p h hs os where "manual_sale_open cfg env" and "me_orders env = Inr os"
      and "find (\<lambda>p. po_order_id p = order_id) os = Some p" and "po_side p = kr_sell" and "me_holdings env = Inr hs"
      and "find_holding (normalize_krx_symbol (po_symbol p)) hs = Some h"
      and "\<not> (\<exists>c. me_cancel env order_id = Inr c \<and> ores_success c) \<Longrightarrow>
             (\<exists>e. r = Inl e) \<and> st' = st\<lparr>dm_cancelled := dm_cancelled st @ [order_id]\<rparr> \<and>
             (\<forall>m. r \<noteq> Inl (Service 500 m) \<and> r \<noteq> Inl (Service 404 m))"
      and "\<exists>c. me_cancel env order_id = Inr c \<and> ores_success c \<Longrightarrow>
             \<exists>r2. finish_manual_sell env h (normalize_krx_symbol (po_symbol p)) ''CANCEL_AND_SELL'' ''MANUAL_REPLACE_SELL''
                (\<lambda>m. Service 500 (Cancelled_but_not_sold m)) (st\<lparr>dm_cancelled := dm_cancelled st @ [order_id]\<rparr>) = (r2, st') \<and>
                ((\<exists>d. r = Inr d) \<longleftrightarrow> (\<exists>oid. r2 = Inr oid)) \<and> (\<forall>e. r = Inl e \<longleftrightarrow> r2 = Inl e)"
proof (cases "ebind (ensure_order_submission_allowed cfg ''SELL'') (\<lambda>_.
           ebind (ensure_regular_session_sell_supported env) (\<lambda>_.
           ebind (find_pending_order env order_id) (\<lambda>p.
             if po_side p \<noteq> kr_sell then Inl (Service 400 Only_sells)
             else ebind (find_manual_holding env (po_symbol p)) (\<lambda>h. Inr (p, h)))))")
  case (Inl e)
  have none: "\<not> replaceable cfg env order_id p h" for p h
    using Inl by (cases "me_orders env"; cases "me_holdings env") (auto simp: replaceable_def manual_sale_open_def ensure_order_submission_allowed_def
        ensure_regular_session_sell_supported_def find_pending_order_def find_manual_holding_def
        decide_order_submission_def escaping_def Let_def ebind_def split: if_splits sum.splits)
  have codes: "e \<noteq> Service 500 m \<and> ((\<exists>m. e = Service 404 m) \<longleftrightarrow> order_unknown cfg env order_id)" for m
    using Inl by (cases "me_orders env"; cases "me_holdings env") (auto simp: order_unknown_def manual_sale_open_def ensure_order_submission_allowed_def
        ensure_regular_session_sell_supported_def find_pending_order_def find_manual_holding_def
        decide_order_submission_def escaping_def Let_def ebind_def find_None_iff
        dest!: find_in split: if_splits sum.splits option.splits)
  have "r = Inl e" "st' = st" using assms Inl by (simp_all add: replace_pending_sell_step_def)
  with none codes show ?thesis by (intro refused [of e]) auto
next
  case (Inr ph)
  obtain p h where ph: "ph = (p, h)" by (cases ph)
  from Inr obtain hs os where h: "me_orders env = Inr os" "find (\<lambda>p. po_order_id p = order_id) os = Some p" "po_side p = kr_sell"
      "me_holdings env = Inr hs" "find_holding (normalize_krx_symbol (po_symbol p)) hs = Some h" and ok: "manual_sale_open cfg env"
    by (auto simp: manual_checks ph manual_sale_open_def split: if_splits)
  show ?thesis
    using assms unfolding replace_pending_sell_step_def Inr ph
    by (intro asked [OF ok h])
      (auto simp: ask_cancel_def Let_def split: sum.splits if_splits prod.splits, auto simp: map_sum_def split: sum.splits)
qed

lemma finish_sell_lost:
  assumes "finish_manual_sell env h symbol pat why (\<lambda>m. Service 500 (c m)) st = (r, st')"
  shows "(\<exists>m. r = Inl (Service 500 m)) \<longleftrightarrow> sale_answered env h (\<lambda>ores. \<not> order_accepted ores)"
  using assms
  by (auto simp: finish_manual_sell_def place_manual_sell_def exit_request_valid Let_def sale_answered_def
      order_accepted_def split: sum.splits if_splits)

lemma finish_sell_codes:
  assumes "finish_manual_sell env h symbol pat why (\<lambda>m. Service 500 (c m)) st = (r, st')"
  shows "r \<noteq> Inl (Service 404 m)"
  using assms
  by (auto simp: finish_manual_sell_def place_manual_sell_def Let_def split: sum.splits if_splits)

section \<open>Properties\<close>

text \<open>
  C17: Selling by hand places at most one order: a market sell of the whole holding of that symbol, and
  only when submission is allowed, the regular session is open and supported, the symbol is held
  and no sell of it is pending. The action answers exactly when the broker accepted the order;
  otherwise the table of trades is untouched.
\<close>

theorem manual_sell_gated:
  assumes "sell_position cfg env raw_symbol x = (r, x')"
  shows "dm_placed (mt_dm x') = dm_placed (mt_dm x) \<and> (\<exists>e. r = Inl e) \<and> dm_db (mt_dm x') = dm_db (mt_dm x) \<or>
    (\<exists>h hs os. manual_sale_open cfg env \<and> me_holdings env = Inr hs \<and> h \<in> set hs \<and> me_orders env = Inr os \<and>
       normalize_krx_symbol (hi_symbol h) = normalize_krx_symbol raw_symbol \<and>
       \<not> has_pending_sell (normalize_krx_symbol raw_symbol) os \<and> 0 < hi_quantity h \<and>
       dm_placed (mt_dm x') = dm_placed (mt_dm x) @ [exit_request (normalize_krx_symbol raw_symbol) (hi_quantity h)] \<and>
       ((\<exists>d. r = Inr d) \<longleftrightarrow> sale_answered env h order_accepted) \<and>
       ((\<exists>e. r = Inl e) \<longrightarrow> dm_db (mt_dm x') = dm_db (mt_dm x)))"
proof -
  let ?s = "normalize_krx_symbol raw_symbol"
  have step: "sell_position_step cfg env ?s (mt_dm x) = (r, mt_dm x')"
    using assms by (auto simp: sell_position_def with_capture_def Let_def split: prod.splits)
  then show ?thesis
  proof (cases rule: sell_step_cases)
    case refused
    then show ?thesis by simp
  next
    case (sold h hs os r2)
    note fin = finish_sell_cases [OF sold(6)]
    have sym: "normalize_krx_symbol (hi_symbol h) = ?s" using found_symbol [OF sold(3)] by simp
    have mem: "h \<in> set hs" using sold(3) by (auto simp: find_holding_def find_Some_iff)
    show ?thesis
    proof (cases "0 < hi_quantity h")
      case True
      have "(\<exists>d. r = Inr d) \<longleftrightarrow> sale_answered env h order_accepted"
        using sold(7) fin(2) by (simp add: sale_answered_def order_accepted_def True)
      moreover have "(\<exists>e. r = Inl e) \<longrightarrow> dm_db (mt_dm x') = dm_db (mt_dm x)"
        using sold(7) fin(3) by (cases r) auto
      ultimately show ?thesis using sold(1,2,4,5) fin(1) sym mem True by (auto simp: whole_sale_def)
    next
      case False
      then have "\<nexists>oid. r2 = Inr oid" using fin(2) by simp
      then show ?thesis using sold(7) fin(1,3) False by (cases r) (auto simp: whole_sale_def)
    qed
  qed
qed

text \<open>
  C18: Replacing a pending sell cancels before it sells: an order is placed only after the broker has
  confirmed the cancellation of the pending sell of that number, and it is the market sell of the
  whole holding of its symbol. Without such a pending sell and holding nothing is asked of the broker.
  The action reports the loss of the old order (status 500) exactly when the cancellation succeeded
  and the broker refused the new order, and an unknown order (status 404) exactly when sales are
  possible and the order list has no order of that number.
\<close>

theorem replace_sells_after_cancel:
  assumes "replace_pending_sell_with_market_order cfg env order_id x = (r, x')"
  defines "cancelled \<equiv> \<exists>c. me_cancel env order_id = Inr c \<and> ores_success c"
  shows "((\<nexists>p h. replaceable cfg env order_id p h) \<longrightarrow> mt_dm x' = mt_dm x \<and> (\<exists>e. r = Inl e)) \<and>
    (\<forall>p h. replaceable cfg env order_id p h \<longrightarrow>
       (if cancelled
        then dm_placed (mt_dm x') = dm_placed (mt_dm x) @ whole_sale h \<and> ((\<exists>d. r = Inr d) \<longleftrightarrow> sale_answered env h order_accepted)
        else dm_placed (mt_dm x') = dm_placed (mt_dm x) \<and> (\<exists>e. r = Inl e) \<and> dm_db (mt_dm x') = dm_db (mt_dm x) \<and>
          dm_cancelled (mt_dm x') = dm_cancelled (mt_dm x) @ [order_id])) \<and>
    ((\<exists>m. r = Inl (Service 500 m)) \<longleftrightarrow> (\<exists>p h. replaceable cfg env order_id p h \<and> cancelled \<and>
       sale_answered env h (\<lambda>ores. \<not> order_accepted ores))) \<and>
    ((\<exists>m. r = Inl (Service 404 m)) \<longleftrightarrow> order_unknown cfg env order_id)"
proof -
  have "replace_pending_sell_step cfg env order_id (mt_dm x) = (r, mt_dm x')"
    using assms(1) by (auto simp: replace_pending_sell_with_market_order_def with_capture_def Let_def split: prod.splits)
  then show ?thesis
  proof (cases rule: replace_step_cases)
    case (refused e)
    then show ?thesis by auto
  next
    case (asked p h hs os)
    have rp: "replaceable cfg env order_id p h" using asked(1-6) by (auto simp: replaceable_def)
    then have only: "replaceable cfg env order_id p' h' \<longleftrightarrow> p' = p \<and> h' = h" for p' h'
      using replaceable_unique by blast
    have known: "\<not> order_unknown cfg env order_id"
      using asked(2) find_in [OF asked(3)] by (auto simp: order_unknown_def)
    show ?thesis
    proof (cases cancelled)
      case False
      from asked(7) [OF False [unfolded cancelled_def]] show ?thesis using False only known by auto
    next
      case True
      obtain r2 where fin: "finish_manual_sell env h (normalize_krx_symbol (po_symbol p)) ''CANCEL_AND_SELL'' ''MANUAL_REPLACE_SELL''
          (\<lambda>m. Service 500 (Cancelled_but_not_sold m)) ((mt_dm x)\<lparr>dm_cancelled := dm_cancelled (mt_dm x) @ [order_id]\<rparr>) = (r2, mt_dm x')"
        and r2: "(\<exists>d. r = Inr d) \<longleftrightarrow> (\<exists>oid. r2 = Inr oid)" "\<forall>e. r = Inl e \<longleftrightarrow> r2 = Inl e"
        using asked(8) [OF True [unfolded cancelled_def]] by (elim exE conjE) (rule that)
      have lost: "(\<exists>m. r = Inl (Service 500 m)) \<longleftrightarrow> sale_answered env h (\<lambda>ores. \<not> order_accepted ores)"
        using r2(2) finish_sell_lost [OF fin] by simp
      have "(\<exists>d. r = Inr d) \<longleftrightarrow> sale_answered env h order_accepted"
        using r2(1) finish_sell_cases(2) [OF fin] by (simp add: sale_answered_def order_accepted_def)
      moreover have "dm_placed (mt_dm x') = dm_placed (mt_dm x) @ whole_sale h" using finish_sell_cases(1) [OF fin] by simp
      moreover have "\<nexists>m. r = Inl (Service 404 m)" using r2(2) finish_sell_codes [OF fin] by simp
      ultimately show ?thesis using lost True only known by auto
    qed
  qed
qed

text \<open>A cancellation by hand is asked only for a pending buy of that number; it places nothing and
  leaves the table of trades alone.\<close>

lemma cancel_only_buys:
  assumes "cancel_pending_buy cfg env order_id x = (r, x')"
  shows "dm_placed (mt_dm x') = dm_placed (mt_dm x) \<and> dm_db (mt_dm x') = dm_db (mt_dm x) \<and>
    (dm_cancelled (mt_dm x') = dm_cancelled (mt_dm x) \<and> (\<exists>e. r = Inl e) \<or>
     dm_cancelled (mt_dm x') = dm_cancelled (mt_dm x) @ [order_id] \<and>
       (\<exists>os p. me_orders env = Inr os \<and> p \<in> set os \<and> po_order_id p = order_id \<and> po_side p = kr_buy) \<and>
       ((\<exists>d. r = Inr d) \<longleftrightarrow> (\<exists>c. me_cancel env order_id = Inr c \<and> ores_success c)))"
  using assms
  by (auto simp: cancel_pending_buy_def with_capture_def cancel_pending_buy_step_def Let_def ask_cancel_def manual_checks
      invalidate_broker_cache_def split: prod.splits sum.splits if_splits dest: find_in)

text \<open>A holding of ten shares and a pending sell of another symbol.\<close>

definition sample_pending_sell :: pending_order_info where
  "sample_pending_sell = \<lparr>po_order_id = ''7'', po_symbol = ''005930'', po_name = [], po_side = kr_sell, po_order_qty = 10,
     po_filled_qty = 0, po_remaining_qty = 10, po_order_price = 1, po_order_time = []\<rparr>"

definition sample_manual_env :: "pending_order_info list \<Rightarrow> order_result \<Rightarrow> manual_env" where
  "sample_manual_env os answer = \<lparr>me_dm = \<lparr>env_now = PyDT 0 True, env_db_up = True, env_place = (\<lambda>_. Inr answer),
      env_pending = Inr [], env_status = (\<lambda>_. Inr None)\<rparr>, me_regular_open = True, me_sessions = [REGULAR],
      me_holdings = Inr [sample_holding], me_orders = Inr os,
      me_cancel = (\<lambda>_. Inr \<lparr>ores_success = True, ores_order_id = None, ores_message = []\<rparr>)\<rparr>"

definition sample_manual :: manual_state where
  "sample_manual = \<lparr>mt_dm = fresh_dm, mt_captured = []\<rparr>"

definition refused_answer :: order_result where
  "refused_answer = \<lparr>ores_success = False, ores_order_id = None, ores_message = ''refused''\<rparr>"

lemma sample_normal: "normalize_krx_symbol ''005930'' = ''005930''" "normalize_krx_symbol ''A005930'' = ''005930''"
  by (simp_all add: normalize_krx_symbol_def prefixed_code_def strip_def is_space_def is_digit_def)

lemma sample_sale_open: "sd_allowed (decide_order_submission default_settings ''SELL'')"
  by (simp add: decide_order_submission_def current_order_submission_mode_def normalize_order_submission_mode_def
      default_settings_def str_or_def upper_char_def valid_submission_modes_def Let_def)

lemma sample_found: "find_holding ''005930'' [sample_holding] = Some sample_holding" "hi_quantity sample_holding = 10"
  "hi_symbol sample_holding = ''A005930''"
  by (simp_all add: find_holding_def sample_holding_def sample_normal)

lemma sample_manual_env_sel:
  "env_place (me_dm (sample_manual_env os answer)) req = Inr answer" "me_regular_open (sample_manual_env os answer)"
  "me_sessions (sample_manual_env os answer) = [REGULAR]" "me_holdings (sample_manual_env os answer) = Inr [sample_holding]"
  "me_orders (sample_manual_env os answer) = Inr os"
  "me_cancel (sample_manual_env os answer) oid = Inr \<lparr>ores_success = True, ores_order_id = None, ores_message = []\<rparr>"
  by (simp_all add: sample_manual_env_def)

lemma sample_manual_sel: "dm_placed (mt_dm sample_manual) = []" "dm_cancelled (mt_dm sample_manual) = []"
  by (simp_all add: sample_manual_def fresh_dm_def)

lemmas sample_manual_simps = sample_normal sample_found sample_sale_open sample_manual_env_sel sample_manual_sel

lemma manual_sell_gated_witness:
  "dm_placed (mt_dm (snd (sell_position default_settings
     (sample_manual_env [] \<lparr>ores_success = True, ores_order_id = Some ''9'', ores_message = []\<rparr>) ''A005930'' sample_manual)))
   = [exit_request ''005930'' 10]"
proof -
  let ?env = "sample_manual_env [] \<lparr>ores_success = True, ores_order_id = Some ''9'', ores_message = []\<rparr>"
  obtain r x' where run: "sell_position default_settings ?env ''A005930'' sample_manual = (r, x')" by fastforce
  have "ensure_order_submission_allowed default_settings ''SELL'' = Inr ()" "ensure_regular_session_sell_supported ?env = Inr ()"
    "find_manual_holding ?env ''005930'' = Inr sample_holding" "escaping (me_orders ?env) = Inr []"
    by (simp_all add: sample_manual_simps find_manual_holding_iff)
  then have "\<exists>d. fst (sell_position default_settings ?env ''A005930'' sample_manual) = Inr d"
    by (simp add: sell_position_def with_capture_def sell_position_step_def has_pending_sell_def finish_manual_sell_def
        place_manual_sell_def sample_manual_simps exit_request_valid escaping_def Let_def case_prod_beta del: ensure_allowed_iff ensure_session_iff)
  then show ?thesis
    using manual_sell_gated [OF run] run by (auto simp: sample_manual_simps)
qed

lemma replace_sells_after_cancel_witness:
  "\<exists>m. fst (replace_pending_sell_with_market_order default_settings (sample_manual_env [sample_pending_sell] refused_answer)
     ''7'' sample_manual) = Inl (Service 500 m)"
proof -
  let ?env = "sample_manual_env [sample_pending_sell] refused_answer"
  obtain r x' where run: "replace_pending_sell_with_market_order default_settings ?env ''7'' sample_manual = (r, x')" by fastforce
  have "find_holding ''005930'' [sample_holding] = Some sample_holding" using sample_manual_simps by (simp add: find_holding_def)
  then have "replaceable default_settings ?env ''7'' sample_pending_sell sample_holding"
    by (simp add: replaceable_def manual_sale_open_def sample_manual_simps sample_pending_sell_def)
  moreover have "me_cancel ?env ''7'' = Inr \<lparr>ores_success = True, ores_order_id = None, ores_message = []\<rparr>"
    "sale_answered ?env sample_holding (\<lambda>ores. \<not> order_accepted ores)"
    by (simp_all add: sample_manual_simps sale_answered_def order_accepted_def refused_answer_def)
  ultimately show ?thesis using replace_sells_after_cancel [OF run] run by fastforce
qed

end
