(* ===== verification/News_Gate.thy ===== *)
theory News_Gate
  imports Json Trading_Types
begin

text \<open>
  The gate that weighs the recent negative news of a symbol before it is bought
  (\<open>services/news_signal_service.py\<close>), with the query behind it (\<open>repositories/news_item_repository.py\<close>).
  The table of news, the clock and the answer whether the market is open are arguments; an item carries
  its metadata as the value \<open>json.loads\<close> gives for the stored text. In metadata a symbol or a label is a
  string or a whole number; other values are never equal to one. Reasons for display are left out.
\<close>

section \<open>Items and settings\<close>

record news_row =
  nr_source_code :: string
  nr_source_tier :: string
  nr_official :: bool
  nr_title :: string
  nr_published_at :: pydt
  nr_created_at :: pydt
  nr_sentiment_label :: "string option"
  nr_sentiment_score :: real
  nr_impact_score :: real
  nr_trust_score :: real
  nr_symbols_csv :: string
  nr_metadata :: "json option"

record news_settings =
  NEWS_GATE_ENABLED :: bool
  NEWS_LOOKBACK_HOURS :: int
  NEWS_MAX_ITEMS_PER_SYMBOL :: int
  NEWS_NEGATIVE_BLOCK_THRESHOLD :: real
  NEWS_FRESHNESS_HALFLIFE_HOURS :: real

definition default_news_settings :: news_settings where
  "default_news_settings = \<lparr>NEWS_GATE_ENABLED = True, NEWS_LOOKBACK_HOURS = 24, NEWS_MAX_ITEMS_PER_SYMBOL = 20,
     NEWS_NEGATIVE_BLOCK_THRESHOLD = 75 / 100, NEWS_FRESHNESS_HALFLIFE_HOURS = 8\<rparr>"

text \<open>The factors of a horizon: of the threshold, and of the half life.\<close>

definition horizon_profile :: "string \<Rightarrow> real \<times> real" where
  "horizon_profile key =
     (if key = ''SHORT'' then (9 / 10, 7 / 10) else if key = ''LONG'' then (112 / 100, 135 / 100) else (1, 1))"

definition severity_keywords :: "(string \<times> real) list" where
  "severity_keywords =
     [(map char_of [237, 154, 140, 234, 179, 132, 32, 236, 161, 176, 236, 130, 172 :: nat], 135 / 100),
      (''investigation'', 135 / 100),
      (''fraud'', 135 / 100),
      (map char_of [235, 182, 132, 236, 139, 157 :: nat], 135 / 100),
      (map char_of [235, 182, 128, 235, 143, 132 :: nat], 130 / 100),
      (''default'', 130 / 100),
      (map char_of [234, 177, 176, 235, 158, 152, 236, 160, 149, 236, 167, 128 :: nat], 125 / 100),
      (''suspension'', 125 / 100),
      (map char_of [236, 139, 164, 236, 160, 129, 32, 234, 178, 189, 234, 179, 160 :: nat], 118 / 100),
      (''profit warning'', 118 / 100),
      (''guidance cut'', 118 / 100),
      (map char_of [235, 166, 172, 236, 189, 156 :: nat], 115 / 100),
      (''recall'', 115 / 100),
      (map char_of [234, 179, 181, 234, 184, 137, 32, 236, 176, 168, 236, 167, 136 :: nat], 115 / 100),
      (''supply disruption'', 115 / 100),
      (''demand warning'', 112 / 100),
      (map char_of [236, 160, 149, 236, 160, 149, 32, 234, 179, 181, 236, 139, 156 :: nat], 108 / 100)]"

definition kr_news :: string where
  "kr_news = map char_of [235, 137, 180, 236, 138, 164 :: nat]"

section \<open>Reading the metadata\<close>

text \<open>\<open>str(v or "")\<close> as a symbol or label.\<close>

definition label_text :: "json option \<Rightarrow> string option" where
  "label_text v =
     (case v of None \<Rightarrow> Some [] | Some j \<Rightarrow>
        if \<not> truthy j then Some []
        else case j of JStr s \<Rightarrow> Some s
          | JNum r \<Rightarrow> if r = of_int (py_int r) then Some (int_repr (py_int r)) else None
          | _ \<Rightarrow> None)"

definition json_symbol :: "json option \<Rightarrow> string option" where
  "json_symbol v = map_option normalize_krx_symbol (label_text v)"

definition optional_key :: "string \<Rightarrow> (string \<times> json) list \<Rightarrow> json option" where
  "optional_key k kvs = (case jget k kvs of Some JNull \<Rightarrow> None | v \<Rightarrow> v)"

text \<open>\<open>float(v)\<close> with \<open>TypeError\<close> and \<open>ValueError\<close> caught.\<close>

definition float_or_none :: "json option \<Rightarrow> real option" where
  "float_or_none v = (case v of None \<Rightarrow> None | Some j \<Rightarrow> (case py_float j of Inl e \<Rightarrow> None | Inr r \<Rightarrow> Some r))"

text \<open>Iterating over \<open>v or []\<close>: a text gives its characters, an object its keys.\<close>

definition iterate :: "json option \<Rightarrow> json list res" where
  "iterate v =
     (case v of None \<Rightarrow> Inr [] | Some j \<Rightarrow>
        if \<not> truthy j then Inr []
        else case j of
            JList l \<Rightarrow> Inr l
          | JStr s \<Rightarrow> Inr (map (\<lambda>c. JStr [c]) s)
          | JObj kvs \<Rightarrow> Inr (map (\<lambda>kv. JStr (fst kv)) kvs)
          | _ \<Rightarrow> Inl (Exn TypeError ''object is not iterable''))"

definition clamp :: "real \<Rightarrow> real \<Rightarrow> real \<Rightarrow> real" where
  "clamp x low high = min (max x low) high"

definition clamp_multiplier :: "json option \<Rightarrow> real \<Rightarrow> real \<Rightarrow> real" where
  "clamp_multiplier v low high = (case float_or_none v of None \<Rightarrow> 1 | Some r \<Rightarrow> clamp r low high)"

fun first_float :: "string list \<Rightarrow> (string \<times> json) list \<Rightarrow> real option" where
  "first_float [] item = None"
| "first_float (k # ks) item = (case float_or_none (jget k item) of Some r \<Rightarrow> Some r | None \<Rightarrow> first_float ks item)"

fun list_weight :: "json list \<Rightarrow> string \<Rightarrow> real option" where
  "list_weight [] symbol = None"
| "list_weight (v # vs) symbol =
     (case v of
        JObj item \<Rightarrow>
          if json_symbol (jget ''symbol'' item) \<noteq> Some symbol then list_weight vs symbol
          else (case first_float [''weight'', ''relevance'', ''score''] item of
                  Some r \<Rightarrow> Some r | None \<Rightarrow> list_weight vs symbol)
      | _ \<Rightarrow> list_weight vs symbol)"

definition lookup_symbol_weight :: "json option \<Rightarrow> string \<Rightarrow> real option" where
  "lookup_symbol_weight raw symbol =
     (case raw of
        Some (JObj kvs) \<Rightarrow>
          float_or_none (case optional_key symbol kvs of Some v \<Rightarrow> Some v | None \<Rightarrow> jget (CHR ''A'' # symbol) kvs)
      | Some (JList l) \<Rightarrow> list_weight l symbol
      | _ \<Rightarrow> None)"

definition mentions_symbol :: "json list \<Rightarrow> string \<Rightarrow> bool" where
  "mentions_symbol l symbol \<longleftrightarrow> symbol \<noteq> [] \<and> Some symbol \<in> set (map (\<lambda>v. json_symbol (Some v)) l)"

section \<open>The multipliers\<close>

definition negative_score :: "string option \<Rightarrow> real \<Rightarrow> real" where
  "negative_score label score =
     (let bounded_score = min (max (num_or score (1 / 2)) 0) 1; base = max 0 ((1 / 2 - bounded_score) * 2)
      in if strip (upper (ostr label)) = ''NEGATIVE'' then min 1 (55 / 100 + base * (65 / 100)) else base)"

definition impact_score_of :: "real \<Rightarrow> bool \<Rightarrow> string \<Rightarrow> real" where
  "impact_score_of raw_impact official source_tier =
     (let tier = strip (upper source_tier);
          base = (if 0 < raw_impact then raw_impact
                  else if tier = ''A'' then 82 / 100 else if tier = ''B'' then 62 / 100 else 45 / 100)
      in min (if official then max base (9 / 10) else base) 1)"

definition load_metadata :: "news_row \<Rightarrow> (string \<times> json) list" where
  "load_metadata item = (case nr_metadata item of Some (JObj kvs) \<Rightarrow> kvs | _ \<Rightarrow> [])"

text \<open>The translated title may be no text; then it is taken as absent.\<close>

definition display_headline :: "news_row \<Rightarrow> string" where
  "display_headline item =
     (let translated = strip (ostr (label_text (jget ''translated_title'' (load_metadata item))))
      in str_or (str_or translated (strip (nr_title item))) kr_news)"

definition severity_multiplier :: "string \<Rightarrow> real" where
  "severity_multiplier headline =
     fold (\<lambda>(keyword, weight) severity. if contains (upper keyword) (upper headline) then max severity weight else severity)
       severity_keywords 1"

definition age_hours :: "pydt \<Rightarrow> pydt \<Rightarrow> real" where
  "age_hours now published_at = max (of_int (wall now - wall published_at) / 1000000 / 3600) 0"

definition session_multiplier :: "bool \<Rightarrow> pydt \<Rightarrow> pydt \<Rightarrow> real" where
  "session_multiplier market_open now published_at =
     (let age = age_hours now published_at
      in if 12 < age then 1
         else if market_open then (if age \<le> 15 / 10 then 103 / 100 else 1)
         else (if age \<le> 6 then 108 / 100 else 102 / 100))"

definition symbol_relevance_multiplier :: "(string \<times> json) list \<Rightarrow> string \<Rightarrow> real" where
  "symbol_relevance_multiplier metadata raw_symbol =
     (let symbol = normalize_krx_symbol raw_symbol
      in if symbol = [] then 1
         else case lookup_symbol_weight (jget ''symbol_weights'' metadata) symbol of
             Some w \<Rightarrow> clamp w (35 / 100) (125 / 100)
           | None \<Rightarrow>
               (case lookup_symbol_weight (jget ''related_symbol_weights'' metadata) symbol of
                  Some w \<Rightarrow> clamp w (35 / 100) (11 / 10)
                | None \<Rightarrow>
                    if json_symbol (jget ''primary_symbol'' metadata) = Some symbol then 1
                    else (case jget ''related_symbols'' metadata of
                            Some (JList l) \<Rightarrow> if mentions_symbol l symbol then 78 / 100 else 1
                          | _ \<Rightarrow> 1)))"

definition sector_relevance_multiplier :: "(string \<times> json) list \<Rightarrow> string \<Rightarrow> real" where
  "sector_relevance_multiplier metadata raw_symbol =
     (let symbol = normalize_krx_symbol raw_symbol
      in case lookup_symbol_weight (jget ''sector_weights'' metadata) symbol of
           Some w \<Rightarrow> clamp w (7 / 10) (12 / 10)
         | None \<Rightarrow>
             (case optional_key ''sector_relevance'' metadata of
                None \<Rightarrow> 1
              | Some relevance \<Rightarrow>
                  (case jget ''sector_symbols'' metadata of
                     Some (JList l) \<Rightarrow>
                       if mentions_symbol l symbol then clamp_multiplier (Some relevance) (7 / 10) (12 / 10) else 1
                   | _ \<Rightarrow> clamp_multiplier (Some relevance) (7 / 10) (12 / 10))))"

definition candidate_labels :: "(string \<times> json) list \<Rightarrow> string option list res" where
  "candidate_labels metadata =
     rbind (iterate (jget ''matched_sector_labels'' metadata)) (\<lambda>matched.
       Inr (filter (\<lambda>l. l \<noteq> Some [])
         (map_option strip (label_text (jget ''sector_label'' metadata)) #
          map (\<lambda>v. map_option strip (label_text (Some v))) matched)))"

definition theme_weights_of :: "(string \<times> json) list \<Rightarrow> string option list \<Rightarrow> real list" where
  "theme_weights_of raw labels =
     List.map_filter (\<lambda>l. case l of None \<Rightarrow> None | Some label \<Rightarrow> float_or_none (jget label raw)) labels"

definition theme_relevance_multiplier :: "(string \<times> json) list \<Rightarrow> string \<Rightarrow> real res" where
  "theme_relevance_multiplier metadata raw_symbol =
     (case jget ''theme_weights'' metadata of
        Some (JObj raw) \<Rightarrow>
          rbind (iterate (jget ''sector_symbols'' metadata)) (\<lambda>sector.
            if filter (\<lambda>v. json_symbol (Some v) \<noteq> Some []) sector \<noteq> [] \<and>
               \<not> mentions_symbol sector (normalize_krx_symbol raw_symbol) then Inr 1
            else rbind (candidate_labels metadata) (\<lambda>labels.
              let weights = theme_weights_of raw labels
              in Inr (if weights = [] then 1 else clamp (Max (set weights)) (85 / 100) (115 / 100))))
      | _ \<Rightarrow> Inr 1)"

definition market_reaction_multiplier :: "(string \<times> json) list \<Rightarrow> real" where
  "market_reaction_multiplier metadata = clamp_multiplier (jget ''market_reaction_weight'' metadata) (85 / 100) (12 / 10)"

section \<open>The pressure of an item\<close>

record contributor =
  co_headline :: string
  co_source_code :: string
  co_published_at :: pydt
  co_pressure :: real
  co_freshness :: real
  co_impact :: real
  co_trust :: real
  co_negative_score :: real
  co_severity :: real
  co_session_multiplier :: real
  co_symbol_relevance :: real
  co_sector_relevance :: real
  co_theme_relevance :: real
  co_market_reaction :: real
  co_relevance :: real
  co_pressure_base :: real

definition freshness_of :: "pydt \<Rightarrow> pydt \<Rightarrow> real \<Rightarrow> real" where
  "freshness_of now published_at halflife_hours = (1 / 2) powr (age_hours now published_at / max halflife_hours (1 / 10))"

definition evaluate_item_pressure ::
  "bool \<Rightarrow> string \<Rightarrow> pydt \<Rightarrow> pydt \<Rightarrow> real \<Rightarrow> news_row \<Rightarrow> contributor option res" where
  "evaluate_item_pressure market_open symbol cutoff now halflife_hours item =
     (let published_at = ensure_kst (nr_published_at item);
          negative = negative_score (nr_sentiment_label item) (num_or (nr_sentiment_score item) (1 / 2))
      in if wall published_at < wall cutoff then Inr None
         else if negative \<le> 0 then Inr None
         else
           let freshness = freshness_of now published_at halflife_hours;
               impact = impact_score_of (nr_impact_score item) (nr_official item) (nr_source_tier item);
               trust = max (nr_trust_score item) 0;
               headline = display_headline item;
               metadata = load_metadata item;
               severity = severity_multiplier headline;
               session = session_multiplier market_open now published_at;
               symbol_rel = symbol_relevance_multiplier metadata symbol;
               sector_rel = sector_relevance_multiplier metadata symbol
           in rbind (theme_relevance_multiplier metadata symbol) (\<lambda>theme_rel.
                let reaction = market_reaction_multiplier metadata;
                    relevance = symbol_rel * sector_rel;
                    pressure_base = negative * freshness * impact * trust * severity;
                    pressure = pressure_base * session * relevance * theme_rel * reaction
                in Inr (if pressure \<le> 0 then None
                        else Some \<lparr>co_headline = headline, co_source_code = upper (nr_source_code item),
                          co_published_at = published_at, co_pressure = py_round 4 pressure,
                          co_freshness = py_round 4 freshness, co_impact = py_round 4 impact, co_trust = py_round 4 trust,
                          co_negative_score = py_round 4 negative, co_severity = py_round 4 severity,
                          co_session_multiplier = py_round 4 session, co_symbol_relevance = py_round 4 symbol_rel,
                          co_sector_relevance = py_round 4 sector_rel, co_theme_relevance = py_round 4 theme_rel,
                          co_market_reaction = py_round 4 reaction, co_relevance = py_round 4 relevance,
                          co_pressure_base = py_round 4 pressure_base\<rparr>)))"

fun evaluate_items :: "(news_row \<Rightarrow> contributor option res) \<Rightarrow> news_row list \<Rightarrow> contributor list res" where
  "evaluate_items f [] = Inr []"
| "evaluate_items f (i # is) =
     rbind (f i) (\<lambda>c. rbind (evaluate_items f is) (\<lambda>cs. Inr (case c of None \<Rightarrow> cs | Some c' \<Rightarrow> c' # cs)))"

section \<open>The query and the gate\<close>

text \<open>\<open>LIKE\<close> of SQLite ignores the case of ASCII letters; a symbol has none of its wildcards.\<close>

definition names_symbol :: "string \<Rightarrow> news_row \<Rightarrow> bool" where
  "names_symbol symbol item \<longleftrightarrow>
     (let s = normalize_krx_symbol symbol in s = [] \<or> contains (upper ('','' @ s @ '','')) (upper (nr_symbols_csv item)))"

definition latest_news_first :: "news_row list \<Rightarrow> news_row list" where
  "latest_news_first items = sort_key (\<lambda>i. - wall (nr_published_at i)) (sort_key (\<lambda>i. - wall (nr_created_at i)) items)"

definition get_recent_news :: "nat \<Rightarrow> string \<Rightarrow> news_row list \<Rightarrow> news_row list" where
  "get_recent_news limit symbol table = take limit (latest_news_first (filter (names_symbol symbol) table))"

record news_gate =
  ng_approved :: bool
  ng_pressure :: real
  ng_pressure_base :: real
  ng_count :: nat
  ng_threshold :: real
  ng_headlines :: "string list"
  ng_contributors :: "contributor list"
  ng_source_count :: nat
  ng_source_boost :: real
  ng_horizon :: string

definition source_codes :: "contributor list \<Rightarrow> string set" where
  "source_codes cs = (\<lambda>c. upper (co_source_code c)) ` set (filter (\<lambda>c. strip (co_source_code c) \<noteq> []) cs)"

definition diversity_boost :: "nat \<Rightarrow> real" where
  "diversity_boost distinct_sources = min (1 + of_nat (distinct_sources - 1) * (8 / 100)) (124 / 100)"

definition judge_pressure :: "news_settings \<Rightarrow> string \<Rightarrow> contributor list \<Rightarrow> news_gate" where
  "judge_pressure ns horizon_key contributors =
     (let cs = sort_key (\<lambda>c. - co_pressure c) contributors;
          base_negative = sum_list (map co_pressure_base cs);
          weighted = sum_list (map co_pressure cs);
          distinct_sources = card (source_codes cs);
          boost = diversity_boost distinct_sources;
          pressure = weighted * boost;
          threshold = num_or (NEWS_NEGATIVE_BLOCK_THRESHOLD ns) (75 / 100) * fst (horizon_profile horizon_key)
      in \<lparr>ng_approved = pressure < threshold, ng_pressure = py_round 4 pressure, ng_pressure_base = py_round 4 base_negative,
          ng_count = length cs, ng_threshold = py_round 4 threshold,
          ng_headlines = map co_headline (filter (\<lambda>c. strip (co_headline c) \<noteq> []) (take 3 cs)),
          ng_contributors = take 3 cs, ng_source_count = distinct_sources, ng_source_boost = py_round 4 boost,
          ng_horizon = horizon_key\<rparr>)"

definition hour_us :: int where "hour_us = 3600000000"

definition news_cutoff :: "news_settings \<Rightarrow> pydt \<Rightarrow> pydt" where
  "news_cutoff ns now = PyDT (wall now - max (num_or (NEWS_LOOKBACK_HOURS ns) 24) 1 * hour_us) (aware now)"

definition halflife_of :: "news_settings \<Rightarrow> string \<Rightarrow> real" where
  "halflife_of ns horizon_key = max (num_or (NEWS_FRESHNESS_HALFLIFE_HOURS ns) 8) (1 / 10) * snd (horizon_profile horizon_key)"

definition horizon_key_of :: "string option \<Rightarrow> string" where
  "horizon_key_of horizon = upper (str_or (ostr horizon) ''MID'')"

text \<open>\<open>None\<close> when the gate is switched off.\<close>

definition evaluate_gate ::
  "news_settings \<Rightarrow> bool \<Rightarrow> pydt \<Rightarrow> string \<Rightarrow> string option \<Rightarrow> news_row list \<Rightarrow> news_gate option res" where
  "evaluate_gate ns market_open now symbol horizon table =
     (if \<not> NEWS_GATE_ENABLED ns then Inr None
      else
        let items = get_recent_news (nat (max (num_or (NEWS_MAX_ITEMS_PER_SYMBOL ns) 20) 1)) symbol table;
            key = horizon_key_of horizon
        in rbind (evaluate_items (evaluate_item_pressure market_open symbol (news_cutoff ns now) now (halflife_of ns key)) items)
             (\<lambda>cs. Inr (Some (judge_pressure ns key cs))))"

text \<open>The agent's use of it (\<open>_evaluate_news_gate\<close>): an exception lets the buy pass.\<close>

definition news_gate_approves ::
  "news_settings \<Rightarrow> bool \<Rightarrow> pydt \<Rightarrow> string \<Rightarrow> string option \<Rightarrow> news_row list res \<Rightarrow> bool" where
  "news_gate_approves ns market_open now symbol horizon table =
     (case rbind table (evaluate_gate ns market_open now symbol horizon) of
        Inr (Some g) \<Rightarrow> ng_approved g
      | _ \<Rightarrow> True)"

section \<open>Lemmas\<close>

lemma clamp_bounds: "low \<le> high \<Longrightarrow> low \<le> clamp x low high \<and> clamp x low high \<le> high"
  by (simp add: clamp_def)

lemma clamp_multiplier_bounds: "low \<le> 1 \<Longrightarrow> 1 \<le> high \<Longrightarrow> low \<le> clamp_multiplier v low high \<and> clamp_multiplier v low high \<le> high"
  by (auto simp: clamp_multiplier_def clamp_bounds split: option.splits)

lemma negative_score_bounds: "0 \<le> negative_score label score \<and> negative_score label score \<le> 1"
  by (simp add: negative_score_def Let_def)

lemma impact_bounds: "0 < impact_score_of raw official tier \<and> impact_score_of raw official tier \<le> 1"
  by (simp add: impact_score_of_def Let_def less_max_iff_disj)

lemma severity_fold_bounds:
  assumes "\<forall>(k, w) \<in> set kws. w \<le> h" and "1 \<le> sev" and "sev \<le> (h :: real)"
  shows "1 \<le> fold (\<lambda>(keyword, weight) severity. if contains (upper keyword) t then max severity weight else severity) kws sev \<and>
    fold (\<lambda>(keyword, weight) severity. if contains (upper keyword) t then max severity weight else severity) kws sev \<le> h"
  using assms
proof (induction kws arbitrary: sev)
  case (Cons kw kws)
  obtain k w where kw: "kw = (k, w)" by (cases kw)
  have "1 \<le> max sev w" "max sev w \<le> h" using Cons.prems kw by auto
  then show ?case using Cons kw by simp
qed simp

lemma severity_bounds: "1 \<le> severity_multiplier headline \<and> severity_multiplier headline \<le> 135 / 100"
  unfolding severity_multiplier_def by (rule severity_fold_bounds) (simp_all add: severity_keywords_def)

lemma session_bounds: "1 \<le> session_multiplier mo now t \<and> session_multiplier mo now t \<le> 108 / 100"
  by (simp add: session_multiplier_def Let_def)

lemma symbol_relevance_bounds:
  "35 / 100 \<le> symbol_relevance_multiplier md symbol \<and> symbol_relevance_multiplier md symbol \<le> 125 / 100"
  by (auto simp: symbol_relevance_multiplier_def Let_def clamp_def split: option.splits json.splits)

lemma sector_relevance_bounds:
  "7 / 10 \<le> sector_relevance_multiplier md symbol \<and> sector_relevance_multiplier md symbol \<le> 12 / 10"
  using clamp_multiplier_bounds [of "7 / 10" "12 / 10"]
  by (auto simp: sector_relevance_multiplier_def Let_def clamp_def split: option.splits json.splits)

lemma theme_relevance_bounds:
  "theme_relevance_multiplier md symbol = Inr r \<Longrightarrow> 85 / 100 \<le> r \<and> r \<le> 115 / 100"
  by (auto simp: theme_relevance_multiplier_def Let_def clamp_def rbind_eq_Inr split: option.splits json.splits if_splits)

lemma reaction_bounds: "85 / 100 \<le> market_reaction_multiplier md \<and> market_reaction_multiplier md \<le> 12 / 10"
  unfolding market_reaction_multiplier_def by (rule clamp_multiplier_bounds) simp_all

lemma freshness_bounds: "0 < freshness_of now t h \<and> freshness_of now t h \<le> 1"
proof -
  have "0 \<le> age_hours now t / max h (1 / 10)" by (simp add: age_hours_def)
  then show ?thesis by (simp add: freshness_of_def powr_le1)
qed

lemma pressure_sign:
  fixes neg :: real
  assumes "0 < neg" "0 < f" "0 < i" "0 < sev" "0 < m" "0 < y" "0 < z" "0 < th" "0 < re"
  shows "neg * f * i * max t 0 * sev * m * (y * z) * th * re \<le> 0 \<longleftrightarrow> t \<le> 0"
    and "0 < t \<Longrightarrow> \<not> neg * f * i * t * sev * m * (y * z) * th * re \<le> 0"
proof -
  show *: "0 < t \<Longrightarrow> \<not> neg * f * i * t * sev * m * (y * z) * th * re \<le> 0"
    using assms by (simp add: not_le)
  show "neg * f * i * max t 0 * sev * m * (y * z) * th * re \<le> 0 \<longleftrightarrow> t \<le> 0"
    using * by (cases "t \<le> 0") (simp_all add: max_absorb1 max_absorb2)
qed

text \<open>An item contributes exactly when it is recent, negative and trusted, whatever its metadata say.\<close>

definition counts_for :: "pydt \<Rightarrow> news_row \<Rightarrow> bool" where
  "counts_for cutoff item \<longleftrightarrow> wall cutoff \<le> wall (nr_published_at item) \<and> 0 < nr_trust_score item \<and>
     0 < negative_score (nr_sentiment_label item) (num_or (nr_sentiment_score item) (1 / 2))"

lemma contributes_iff:
  assumes "evaluate_item_pressure mo symbol cutoff now h item = Inr c"
  shows "c \<noteq> None \<longleftrightarrow> counts_for cutoff item"
proof -
  let ?md = "load_metadata item"
  have pos: "0 < symbol_relevance_multiplier ?md symbol" "0 < sector_relevance_multiplier ?md symbol"
      "0 < market_reaction_multiplier ?md" "0 < severity_multiplier (display_headline item)"
      "0 < session_multiplier mo now (ensure_kst (nr_published_at item))"
    using symbol_relevance_bounds [of ?md symbol] sector_relevance_bounds [of ?md symbol] reaction_bounds [of ?md]
      severity_bounds [of "display_headline item"] session_bounds [of mo now "ensure_kst (nr_published_at item)"] by auto
  have theme: "theme_relevance_multiplier ?md symbol = Inr r \<Longrightarrow> 0 < r" for r
    using theme_relevance_bounds [of ?md symbol r] by auto
  show ?thesis
    using assms
    by (auto simp: evaluate_item_pressure_def counts_for_def Let_def rbind_eq_Inr not_le not_less
        pressure_sign pos theme impact_bounds freshness_bounds split: if_splits)
qed

lemma evaluate_items_filter:
  assumes "\<And>i. \<not> P i \<Longrightarrow> f i = Inr None"
  shows "evaluate_items f (filter P xs) = evaluate_items f xs"
proof (induction xs)
  case (Cons x xs)
  then show ?case using assms [of x] by (cases "evaluate_items f xs") auto
qed simp

lemma evaluate_items_mem:
  "evaluate_items f xs = Inr cs \<Longrightarrow> c \<in> set cs \<Longrightarrow> \<exists>i \<in> set xs. f i = Inr (Some c)"
  by (induction xs arbitrary: cs) (auto simp: rbind_eq_Inr split: option.splits)

lemma evaluate_items_length: "evaluate_items f xs = Inr cs \<Longrightarrow> length cs \<le> length xs"
  by (induction xs arbitrary: cs) (auto simp: rbind_eq_Inr le_SucI split: option.splits)

text \<open>In a list that is sorted with what passes in front, taking commutes with filtering.\<close>

lemma filter_take_prefix:
  assumes "sorted (map k xs)" and "\<And>x y. P y \<Longrightarrow> k x \<le> k y \<Longrightarrow> P x"
  shows "filter P (take n xs) = take n (filter P xs)"
  using assms(1)
proof (induction xs arbitrary: n)
  case (Cons x xs)
  show ?case
  proof (cases "P x")
    case True
    then show ?thesis using Cons by (cases n) auto
  next
    case False
    then have none: "\<forall>y \<in> set (x # xs). \<not> P y" using Cons.prems assms(2) by auto
    then have "filter P (x # xs) = []" by (simp add: filter_empty_conv)
    moreover have "filter P (take n (x # xs)) = []"
      unfolding filter_empty_conv using none in_set_takeD by fast
    ultimately have "filter P (take n (x # xs)) = []" "filter P (x # xs) = []" by blast+
    then show ?thesis by simp
  qed
qed simp

lemma latest_news_first_filter: "filter P (latest_news_first xs) = latest_news_first (filter P xs)"
  by (simp add: latest_news_first_def filter_sort)

lemma latest_news_first_sorted: "sorted (map (\<lambda>i. - wall (nr_published_at i)) (latest_news_first xs))"
  by (simp add: latest_news_first_def)

definition in_window :: "pydt \<Rightarrow> news_row \<Rightarrow> bool" where
  "in_window cutoff item \<longleftrightarrow> wall cutoff \<le> wall (nr_published_at item)"

lemma recent_in_window:
  "filter (in_window cutoff) (get_recent_news n symbol table) = get_recent_news n symbol (filter (in_window cutoff) table)"
proof -
  have "filter (in_window cutoff) (take n (latest_news_first xs)) = take n (filter (in_window cutoff) (latest_news_first xs))" for xs
    by (rule filter_take_prefix [OF latest_news_first_sorted]) (simp add: in_window_def)
  then show ?thesis by (simp add: get_recent_news_def latest_news_first_filter conj_commute)
qed

lemma recent_mem: "i \<in> set (get_recent_news n symbol table) \<Longrightarrow> i \<in> set table \<and> names_symbol symbol i"
  by (auto simp: get_recent_news_def latest_news_first_def dest!: in_set_takeD)

lemma recent_length: "length (get_recent_news n symbol table) \<le> n"
  by (simp add: get_recent_news_def)

lemma contributor_nonneg:
  assumes "evaluate_item_pressure mo symbol cutoff now h item = Inr (Some c)"
  shows "0 \<le> co_pressure c"
proof -
  obtain p where "co_pressure c = py_round 4 p" "0 < p"
    using assms by (auto simp: evaluate_item_pressure_def Let_def rbind_eq_Inr not_le split: if_splits)
  then show ?thesis using py_round_nonneg by simp
qed

lemma boost_bounds: "1 \<le> diversity_boost n \<and> diversity_boost n \<le> 124 / 100"
  unfolding diversity_boost_def by (intro conjI min.boundedI min.cobounded2) simp_all

section \<open>Properties\<close>

text \<open>
  C9: The verdict of the gate depends on the news inside the look-back window only: items that are older
  can be taken out of the table, or added to it in any number, without changing the answer - the limit
  on the number of items never lets old news displace a recent item.
\<close>

theorem stale_news_irrelevant:
  "evaluate_gate ns mo now symbol horizon (filter (in_window (news_cutoff ns now)) table) =
   evaluate_gate ns mo now symbol horizon table"
proof -
  let ?c = "news_cutoff ns now" and ?f = "\<lambda>h. evaluate_item_pressure mo symbol (news_cutoff ns now) now h"
  have old: "\<not> in_window ?c i \<Longrightarrow> ?f h i = Inr None" for i h
    by (simp add: evaluate_item_pressure_def in_window_def Let_def)
  have "evaluate_items (?f h) (get_recent_news n symbol (filter (in_window ?c) table)) =
      evaluate_items (?f h) (get_recent_news n symbol table)" for h n
    by (simp flip: recent_in_window add: evaluate_items_filter old)
  then show ?thesis by (simp add: evaluate_gate_def Let_def)
qed

text \<open>
  C4: The gate refuses a buy only because of recent, negative and trusted news that names the symbol; it
  weighs no more items than the limit allows, its pressure is never negative, and the boost for news from
  several sources is at most 24 percent.
\<close>

theorem gate_blocks_only_on_negative_news:
  assumes "evaluate_gate ns mo now symbol horizon table = Inr (Some g)"
    and "0 \<le> NEWS_NEGATIVE_BLOCK_THRESHOLD ns"
  shows "ng_count g \<le> nat (max (num_or (NEWS_MAX_ITEMS_PER_SYMBOL ns) 20) 1) \<and> 0 \<le> ng_pressure g \<and>
    1 \<le> ng_source_boost g \<and> ng_source_boost g \<le> 124 / 100 \<and>
    (\<not> ng_approved g \<longrightarrow> (\<exists>item \<in> set table. names_symbol symbol item \<and> counts_for (news_cutoff ns now) item))"
proof -
  let ?n = "nat (max (num_or (NEWS_MAX_ITEMS_PER_SYMBOL ns) 20) 1)" and ?key = "horizon_key_of horizon"
  let ?f = "evaluate_item_pressure mo symbol (news_cutoff ns now) now (halflife_of ns ?key)"
  obtain cs where cs: "evaluate_items ?f (get_recent_news ?n symbol table) = Inr cs" and g: "g = judge_pressure ns ?key cs"
    using assms(1) by (auto simp: evaluate_gate_def Let_def rbind_eq_Inr split: if_splits)
  let ?b = "diversity_boost (card (source_codes (sort_key (\<lambda>c. - co_pressure c) cs)))"
  have nonneg: "0 \<le> sum_list (map co_pressure (sort_key (\<lambda>c. - co_pressure c) cs))"
    using evaluate_items_mem [OF cs] contributor_nonneg by (intro sum_list_nonneg) fastforce
  have b: "1 \<le> ?b" "?b \<le> 124 / 100" using boost_bounds by auto
  have "py_round 4 1 = 1" "py_round 4 (124 / 100) = 124 / 100"
    using round_even_of_int [of 10000] round_even_of_int [of 12400] by (simp_all add: py_round_def)
  then have boost: "1 \<le> ng_source_boost g" "ng_source_boost g \<le> 124 / 100"
    using py_round_mono [OF b(1), of 4] py_round_mono [OF b(2), of 4] by (simp_all add: g judge_pressure_def Let_def)
  have thr: "0 < num_or (NEWS_NEGATIVE_BLOCK_THRESHOLD ns) (75 / 100) * fst (horizon_profile ?key)"
    using assms(2) by (auto simp: num_or_def horizon_profile_def)
  have "\<exists>item \<in> set table. names_symbol symbol item \<and> counts_for (news_cutoff ns now) item" if "\<not> ng_approved g"
  proof -
    have "cs \<noteq> []" using that thr by (auto simp: g judge_pressure_def Let_def)
    then obtain i c where "i \<in> set (get_recent_news ?n symbol table)" "?f i = Inr (Some c)"
      using evaluate_items_mem [OF cs, of "hd cs"] by auto
    then show ?thesis using contributes_iff [of mo symbol "news_cutoff ns now" now "halflife_of ns ?key" i "Some c"] recent_mem
      by blast
  qed
  moreover have "ng_count g \<le> ?n"
    using evaluate_items_length [OF cs] recent_length [of ?n symbol table] by (simp add: g judge_pressure_def Let_def)
  moreover have "0 \<le> ng_pressure g"
    using nonneg b(1) by (simp add: g judge_pressure_def Let_def py_round_nonneg)
  ultimately show ?thesis using boost by blast
qed

text \<open>
  A news item with the most negative sentiment score, 0, weighs as much as a neutral one: without the
  label NEGATIVE it does not count at all, while any other score below one half makes the same item
  count; with the label it has just the weight the label alone gives.
\<close>

lemma worst_sentiment_counts_as_neutral:
  "negative_score label 0 = negative_score label (1 / 2) \<and>
   (counts_for cutoff (item\<lparr>nr_sentiment_score := 0\<rparr>) \<longleftrightarrow> counts_for cutoff (item\<lparr>nr_sentiment_score := 1 / 2\<rparr>)) \<and>
   (s \<in> {0 <..< 1 / 2} \<longrightarrow> negative_score label 0 < negative_score label s \<or> strip (upper (ostr label)) = ''NEGATIVE'') \<and>
   (s \<in> {0 <..< 1 / 2} \<longrightarrow> counts_for cutoff (item\<lparr>nr_sentiment_score := s\<rparr>) =
      (in_window cutoff item \<and> 0 < nr_trust_score item)) \<and>
   (counts_for cutoff (item\<lparr>nr_sentiment_score := 0\<rparr>) \<longrightarrow> strip (upper (ostr (nr_sentiment_label item))) = ''NEGATIVE'')"
  by (auto simp: negative_score_def counts_for_def in_window_def num_or_def Let_def field_simps)

definition sample_news :: news_row where
  "sample_news = \<lparr>nr_source_code = ''DART'', nr_source_tier = ''A'', nr_official = True, nr_title = ''fraud'',
     nr_published_at = PyDT 0 False, nr_created_at = PyDT 0 False, nr_sentiment_label = Some ''negative'',
     nr_sentiment_score = 1 / 10, nr_impact_score = 1, nr_trust_score = 1, nr_symbols_csv = '',005930,'', nr_metadata = None\<rparr>"

lemma gate_blocks_only_on_negative_news_witness:
  "case evaluate_gate default_news_settings False (PyDT 0 True) [] None [sample_news] of
     Inr (Some g) \<Rightarrow> ng_count g \<le> 20 \<and> ng_source_boost g \<le> 124 / 100
   | _ \<Rightarrow> False"
proof -
  let ?ns = default_news_settings
  have theme: "theme_relevance_multiplier (load_metadata sample_news) [] = Inr 1"
    by (simp add: theme_relevance_multiplier_def load_metadata_def sample_news_def)
  have "\<exists>c. evaluate_item_pressure False [] (news_cutoff ?ns (PyDT 0 True)) (PyDT 0 True) h sample_news = Inr c" for h
    by (auto simp: evaluate_item_pressure_def Let_def theme)
  moreover have "get_recent_news 20 [] [sample_news] = [sample_news]"
    by (simp add: get_recent_news_def latest_news_first_def names_symbol_def normalize_krx_symbol_def prefixed_code_def strip_def)
  moreover obtain c where "evaluate_item_pressure False [] (news_cutoff ?ns (PyDT 0 True)) (PyDT 0 True)
      (halflife_of ?ns (horizon_key_of None)) sample_news = Inr c" using calculation(1) by blast
  moreover have "NEWS_GATE_ENABLED ?ns" "num_or (NEWS_MAX_ITEMS_PER_SYMBOL ?ns) 20 = 20"
    by (simp_all add: default_news_settings_def)
  ultimately have "\<exists>g. evaluate_gate ?ns False (PyDT 0 True) [] None [sample_news] = Inr (Some g)"
    by (simp add: evaluate_gate_def Let_def)
  then obtain g where g: "evaluate_gate ?ns False (PyDT 0 True) [] None [sample_news] = Inr (Some g)" by blast
  show ?thesis
    using gate_blocks_only_on_negative_news [OF g] g by (simp add: default_news_settings_def)
qed

lemma worst_sentiment_counts_as_neutral_witness:
  "negative_score None 0 < negative_score None (1 / 4) \<and>
   counts_for (PyDT 0 True) (sample_news\<lparr>nr_sentiment_label := None, nr_sentiment_score := 1 / 4\<rparr>)"
  using worst_sentiment_counts_as_neutral [of None "PyDT 0 True" "sample_news\<lparr>nr_sentiment_label := None\<rparr>" "1 / 4"]
  by (simp add: in_window_def sample_news_def strip_def upper_def)

end
