(* ===== verification/Rate_Limit.thy ===== *)
theory Rate_Limit
  imports Py_Prelude
begin

text \<open>
  The contract of a limiter of requests, shared by the clients of both brokers: it keeps the times it
  let calls through and admits at most \<open>cap\<close> calls in any second. A call reads a monotonic clock
  in seconds; calls are admitted one at a time, under a lock.
\<close>

definition recent_stamps :: "real \<Rightarrow> real list \<Rightarrow> real list" where
  "recent_stamps t xs = filter (\<lambda>x. t - 1 < x) xs"

definition within_second :: "real \<Rightarrow> real list \<Rightarrow> nat" where
  "within_second u xs = length (filter (\<lambda>x. u - 1 < x \<and> x \<le> u) xs)"

text \<open>The stamps of a limiter at time \<open>t\<close>.\<close>

definition stamps_ok :: "nat \<Rightarrow> real \<Rightarrow> real list \<Rightarrow> bool" where
  "stamps_ok cap t ts \<longleftrightarrow> sorted ts \<and> (\<forall>x\<in>set ts. x \<le> t) \<and> (\<forall>u. within_second u ts \<le> cap)"

lemma stamps_ok_Nil [simp]: "stamps_ok cap t []"
  by (simp add: stamps_ok_def within_second_def)

lemma stamps_ok_window: "stamps_ok cap t ts \<Longrightarrow> t \<le> u \<Longrightarrow> length (recent_stamps u ts) \<le> cap"
proof -
  assume "stamps_ok cap t ts" and "t \<le> u"
  then have "recent_stamps u ts = filter (\<lambda>x. u - 1 < x \<and> x \<le> u) ts"
    by (auto simp: stamps_ok_def recent_stamps_def intro!: filter_cong)
  with \<open>stamps_ok cap t ts\<close> show ?thesis by (simp add: stamps_ok_def within_second_def)
qed

lemma stamps_ok_mono: "stamps_ok cap t ts \<Longrightarrow> t \<le> u \<Longrightarrow> stamps_ok cap u ts"
  by (auto simp: stamps_ok_def)

lemma recent_stamps_mono: "t \<le> u \<Longrightarrow> recent_stamps u (recent_stamps t xs) = recent_stamps u xs"
  by (auto simp: recent_stamps_def intro!: filter_cong)

lemma within_second_append [simp]: "within_second u (xs @ ys) = within_second u xs + within_second u ys"
  by (simp add: within_second_def)

lemma within_second_filter: "within_second u (filter P xs) \<le> within_second u xs"
  by (induction xs) (auto simp: within_second_def)

lemma within_second_le: "g \<le> u \<Longrightarrow> within_second u xs \<le> length (recent_stamps g xs)"
  by (induction xs) (auto simp: within_second_def recent_stamps_def)

text \<open>What follows the stamps with a delay: a second sees the delayed of all the seconds the delay spans.\<close>

lemma within_seconds:
  assumes "\<And>u. within_second u xs \<le> cap"
  shows "length (filter (\<lambda>x. u - real n < x \<and> x \<le> u) xs) \<le> n * cap"
proof (induction n)
  case 0
  then show ?case by (simp add: filter_empty_conv)
next
  case (Suc n)
  have "length (filter (\<lambda>x. u - real (Suc n) < x \<and> x \<le> u) xs) \<le>
      length (filter (\<lambda>x. u - real n < x \<and> x \<le> u) xs) + within_second (u - real n) xs" for xs
    by (induction xs) (auto simp: within_second_def)
  then show ?case using Suc assms [of "u - real n"] by (fastforce intro: order_trans)
qed

lemma within_second_delayed:
  assumes "\<And>u. within_second u xs \<le> cap" and "0 \<le> d"
    and "list_all (\<lambda>a. \<forall>x. length (f x a) \<le> 1 \<and> (\<forall>y \<in> set (f x a). x \<le> y \<and> y \<le> x + d)) as"
  shows "within_second u (concat (map2 f xs as)) \<le> (nat \<lceil>d\<rceil> + 1) * cap"
proof -
  define n where "n = nat \<lceil>d\<rceil> + 1"
  have n: "1 + d \<le> real n" using assms(2) by (simp add: n_def)
  have one: "within_second u ys \<le> (if u - 1 - d < x \<and> x \<le> u then 1 else 0)"
    if "length ys \<le> 1" "\<forall>y \<in> set ys. x \<le> y \<and> y \<le> x + d" for x ys
    using that by (cases ys) (auto simp: within_second_def)
  have "within_second u (concat (map2 f xs as)) \<le> length (filter (\<lambda>x. u - 1 - d < x \<and> x \<le> u) xs)"
    using assms(3)
  proof (induction xs as rule: list_induct2')
    case (4 x xs a as)
    then have a: "length (f x a) \<le> 1" "\<forall>y \<in> set (f x a). x \<le> y \<and> y \<le> x + d" by simp_all
    show ?case using 4 one [OF a] by (auto split: if_splits)
  qed (simp_all add: within_second_def)
  also have "\<dots> \<le> length (filter (\<lambda>x. u - real n < x \<and> x \<le> u) xs)"
  proof -
    have "filter (\<lambda>x. u - 1 - d < x \<and> x \<le> u) (filter (\<lambda>x. u - real n < x \<and> x \<le> u) xs) =
        filter (\<lambda>x. u - 1 - d < x \<and> x \<le> u) xs"
      using n by (auto intro!: filter_cong)
    then show ?thesis by (metis length_filter_le)
  qed
  also have "\<dots> \<le> n * cap" by (rule within_seconds [OF assms(1)])
  finally show ?thesis by (simp only: n_def)
qed

locale rate_limiter =
  fixes admit :: "'c \<Rightarrow> real list \<Rightarrow> (real \<times> real list) option"
    and enters :: "'c \<Rightarrow> real"
    and legal :: "'c \<Rightarrow> bool"
    and cap :: nat
  assumes admit_time: "legal c \<Longrightarrow> stamps_ok cap (enters c) ts \<Longrightarrow> admit c ts = Some (g, ts') \<Longrightarrow> enters c \<le> g"
    and admit_room: "legal c \<Longrightarrow> stamps_ok cap (enters c) ts \<Longrightarrow> admit c ts = Some (g, ts') \<Longrightarrow> length (recent_stamps g ts) < cap"
    and admit_stamps: "legal c \<Longrightarrow> stamps_ok cap (enters c) ts \<Longrightarrow> admit c ts = Some (g, ts') \<Longrightarrow>
      \<exists>P. ts' = filter P ts @ [g] \<and> (\<forall>x. g - 1 < x \<longrightarrow> P x)"
    and admit_returns: "legal c \<Longrightarrow> stamps_ok cap (enters c) ts \<Longrightarrow> admit c ts \<noteq> None"

text \<open>The times at which a sequence of calls is let through; each call reads the clock first when the
  one before it has been let through.\<close>

fun admissions :: "('c \<Rightarrow> real list \<Rightarrow> (real \<times> real list) option) \<Rightarrow> 'c list \<Rightarrow> real list \<Rightarrow> real list" where
  "admissions admit [] ts = []"
| "admissions admit (c # cs) ts =
     (case admit c ts of None \<Rightarrow> [] | Some (g, ts') \<Rightarrow> g # admissions admit cs ts')"

fun in_turn ::
  "('c \<Rightarrow> real list \<Rightarrow> (real \<times> real list) option) \<Rightarrow> ('c \<Rightarrow> real) \<Rightarrow> ('c \<Rightarrow> bool) \<Rightarrow> real \<Rightarrow> 'c list \<Rightarrow> real list \<Rightarrow> bool" where
  "in_turn admit enters legal t [] ts = True"
| "in_turn admit enters legal t (c # cs) ts =
     (legal c \<and> t \<le> enters c \<and>
      (case admit c ts of None \<Rightarrow> True | Some (g, ts') \<Rightarrow> in_turn admit enters legal g cs ts'))"

context rate_limiter begin

lemma admit_step:
  assumes "legal c" and ok: "stamps_ok cap (enters c) ts" and a: "admit c ts = Some (g, ts')"
  shows "stamps_ok cap g ts'" and "recent_stamps g ts' = recent_stamps g ts @ [g]"
    and "u < g \<Longrightarrow> within_second u ts' \<le> within_second u ts"
    and "g \<le> u \<Longrightarrow> within_second u ts' = within_second u ts + within_second u [g]"
proof -
  obtain P where ts': "ts' = filter P ts @ [g]" and P: "\<And>x. g - 1 < x \<Longrightarrow> P x"
    using admit_stamps [OF assms] by blast
  have le: "\<forall>x\<in>set ts. x \<le> g" using ok admit_time [OF assms] by (force simp: stamps_ok_def)
  have room: "length (recent_stamps g ts) < cap" using admit_room [OF assms] .
  show low: "within_second u ts' \<le> within_second u ts" if "u < g" for u
    using that within_second_filter [of u P ts] by (simp add: ts' within_second_def)
  have filt: "within_second u (filter P ts) = within_second u ts" if "g \<le> u" for u
    unfolding within_second_def filter_filter using that P
    by (intro arg_cong [where f = length] filter_cong) (auto intro!: P)
  then show high: "within_second u ts' = within_second u ts + within_second u [g]" if "g \<le> u" for u
    using that by (simp add: ts')
  show "recent_stamps g ts' = recent_stamps g ts @ [g]" using P by (auto simp: ts' recent_stamps_def intro!: filter_cong)
  have "within_second u ts' \<le> cap" for u
  proof (cases "u < g")
    case True
    then show ?thesis using low [OF True] ok by (meson stamps_ok_def le_trans)
  next
    case False
    then have "within_second u ts \<le> length (recent_stamps g ts)" by (simp add: within_second_le)
    moreover have "within_second u [g] \<le> 1" by (simp add: within_second_def)
    ultimately show ?thesis using room high [of u] False by simp
  qed
  then show "stamps_ok cap g ts'"
    using ok le by (auto simp: stamps_ok_def ts' sorted_append sorted_wrt_filter)
qed

lemma in_turn_ConsE:
  assumes "in_turn admit enters legal t (c # cs) ts" and "stamps_ok cap t ts"
  obtains g ts' where "admit c ts = Some (g, ts')" and "legal c" and "t \<le> enters c"
    and "in_turn admit enters legal g cs ts'" and "stamps_ok cap (enters c) ts" and "stamps_ok cap g ts'" and "t \<le> g"
proof -
  from assms have c: "legal c" "t \<le> enters c" by simp_all
  have ok: "stamps_ok cap (enters c) ts" using assms(2) c(2) by (rule stamps_ok_mono)
  obtain g ts' where a: "admit c ts = Some (g, ts')" using admit_returns [OF c(1) ok] by fastforce
  show thesis
    by (rule that [OF a c _ ok admit_step(1) [OF c(1) ok a]])
       (use assms(1) a c(2) admit_time [OF c(1) ok a] in auto)
qed

lemma admissions_after:
  "in_turn admit enters legal t cs ts \<Longrightarrow> stamps_ok cap t ts \<Longrightarrow> x \<in> set (admissions admit cs ts) \<Longrightarrow> t \<le> x"
proof (induction cs arbitrary: t ts)
  case (Cons c cs)
  obtain g ts' where a: "admit c ts = Some (g, ts')" "in_turn admit enters legal g cs ts'" "stamps_ok cap g ts'" "t \<le> g"
    using Cons.prems(1,2) by (rule in_turn_ConsE)
  then show ?case using Cons.prems(3) Cons.IH [OF a(2,3)] by auto
qed simp

lemma admissions_bounded:
  "in_turn admit enters legal t cs ts \<Longrightarrow> stamps_ok cap t ts \<Longrightarrow>
     within_second u (ts @ admissions admit cs ts) \<le> cap"
proof (induction cs arbitrary: t ts)
  case Nil
  then show ?case by (simp add: stamps_ok_def)
next
  case (Cons c cs)
  obtain g ts' where a: "admit c ts = Some (g, ts')" "legal c" "in_turn admit enters legal g cs ts'"
      "stamps_ok cap (enters c) ts" "stamps_ok cap g ts'"
    using Cons.prems by (rule in_turn_ConsE)
  have IH: "within_second u (ts' @ admissions admit cs ts') \<le> cap" by (rule Cons.IH [OF a(3,5)])
  show ?case
  proof (cases "u < g")
    case True
    have "\<forall>x\<in>set (g # admissions admit cs ts'). u < x"
      using admissions_after [OF a(3,5)] True by fastforce
    then have "within_second u (g # admissions admit cs ts') = 0" by (fastforce simp: within_second_def filter_empty_conv)
    then show ?thesis using Cons.prems(2) a(1) by (simp add: stamps_ok_def)
  next
    case False
    then have "within_second u (ts @ g # admissions admit cs ts') = within_second u (ts' @ admissions admit cs ts')"
      using admit_step(4) [OF a(2,4,1), of u] within_second_append [of u "[g]" "admissions admit cs ts'"] by simp
    then show ?thesis using IH a(1) by simp
  qed
qed

text \<open>At most \<open>cap\<close> calls in any second, counted over the whole run.\<close>

lemma at_most_cap_per_second:
  "in_turn admit enters legal t cs [] \<Longrightarrow> within_second u (admissions admit cs []) \<le> cap"
  using admissions_bounded [of t cs "[]" u] by simp

text \<open>No call of a run waits for ever.\<close>

lemma every_call_admitted:
  "in_turn admit enters legal t cs ts \<Longrightarrow> stamps_ok cap t ts \<Longrightarrow> length (admissions admit cs ts) = length cs"
proof (induction cs arbitrary: t ts)
  case (Cons c cs)
  obtain g ts' where "admit c ts = Some (g, ts')" "in_turn admit enters legal g cs ts'" "stamps_ok cap g ts'"
    using Cons.prems by (rule in_turn_ConsE)
  then show ?case using Cons.IH by simp
qed simp

end

end
