(* ===== verification/Kiwoom_Rest.thy ===== *)
theory Kiwoom_Rest
  imports Rate_Limit Json
begin

text \<open>
  The low-level client of the Kiwoom broker (\<open>trading/kiwoom_rest_client.py\<close>): its limiter of requests,
  its access token with the copies in memory and on disk, and the loop around one request, which asks
  again when the broker throttles it or refuses the token.

  What the network answers, the clocks and whether the disk takes a write are arguments, indexed by the
  attempt. The file of the token holds the time of expiry itself instead of its text. Error messages are
  rendered in English; the texts the code tests stand as their UTF-8 bytes.
\<close>

section \<open>Configuration and state\<close>

record kiwoom_config =
  kc_app_key :: string
  kc_secret_key :: string
  kc_paper_app_key :: string
  kc_paper_secret_key :: string
  kc_account_type :: string
  kc_has_file :: bool

record kiwoom_token =
  kt_access_token :: string
  kt_expires_at :: int

record token_file =
  tf_account_type :: string
  tf_token :: kiwoom_token

record kiwoom_rest =
  kr_token :: "kiwoom_token option"
  kr_file :: "token_file option"
  kr_stamps :: "real list"
  kr_posts :: "string list"

text \<open>\<open>kr_posts\<close> lists the tokens the requests were sent with, in order.\<close>

definition is_paper_trading :: "kiwoom_config \<Rightarrow> bool" where
  "is_paper_trading cfg \<longleftrightarrow> kc_account_type cfg = ''VIRTUAL''"

definition base_url :: "kiwoom_config \<Rightarrow> string" where
  "base_url cfg = (if is_paper_trading cfg then ''https://mockapi.kiwoom.com'' else ''https://api.kiwoom.com'')"

section \<open>The limiter\<close>

definition kiwoom_rate_limit :: "kiwoom_config \<Rightarrow> nat" where
  "kiwoom_rate_limit cfg = (if is_paper_trading cfg then 3 else 5)"

text \<open>
  One passage: \<open>now\<close> is the first reading of the clock, each sleep lasts as long as asked plus the next
  of the \<open>lags\<close>. None is a passage that still sleeps when the lags are used up.
\<close>

fun respect_rate_limit :: "nat \<Rightarrow> real \<Rightarrow> real list \<Rightarrow> real list \<Rightarrow> (real \<times> real list) option" where
  "respect_rate_limit limit now lags ts =
     (let ts1 = recent_stamps now ts
      in if length ts1 < limit then Some (now, ts1 @ [now])
         else case lags of
             [] \<Rightarrow> None
           | l # ls \<Rightarrow> respect_rate_limit limit (now + max (1 - (now - hd ts1)) (1 / 20) + l) ls ts1)"

declare respect_rate_limit.simps [simp del]

record passage =
  ps_now :: real
  ps_lags :: "real list"

definition pass_limiter :: "nat \<Rightarrow> passage \<Rightarrow> real list \<Rightarrow> (real \<times> real list) option" where
  "pass_limiter limit c ts = respect_rate_limit limit (ps_now c) (ps_lags c) ts"

definition legal_passage :: "passage \<Rightarrow> bool" where
  "legal_passage c \<longleftrightarrow> ps_lags c \<noteq> [] \<and> list_all ((\<le>) 0) (ps_lags c)"

section \<open>The token\<close>

definition one_minute :: int where "one_minute = 60000000"

record token_answer =
  ta_token :: string
  ta_expires :: string

text \<open>
  \<open>strptime(text, "%Y%m%d%H%M%S")\<close> on texts of fourteen digits: the wall clock in microseconds since
  the first of January of the year one, the day zero of the calendar. The shorter texts \<open>strptime\<close>
  also takes are none here.
\<close>

definition is_leap :: "int \<Rightarrow> bool" where
  "is_leap y \<longleftrightarrow> 4 dvd y \<and> (\<not> 100 dvd y \<or> 400 dvd y)"

definition month_lengths :: "int \<Rightarrow> int list" where
  "month_lengths y = [31, if is_leap y then 29 else 28, 31, 30, 31, 30, 31, 31, 30, 31, 30, 31]"

definition day_number :: "int \<Rightarrow> int \<Rightarrow> int \<Rightarrow> int option" where
  "day_number y m d =
     (if 1 \<le> y \<and> 1 \<le> m \<and> m \<le> 12 \<and> 1 \<le> d \<and> d \<le> month_lengths y ! nat (m - 1)
      then Some (365 * (y - 1) + (y - 1) div 4 - (y - 1) div 100 + (y - 1) div 400
                 + sum_list (take (nat (m - 1)) (month_lengths y)) + d - 1)
      else None)"

definition digits_at :: "nat \<Rightarrow> nat \<Rightarrow> string \<Rightarrow> int" where
  "digits_at i n s = foldl (\<lambda>acc c. acc * 10 + int (of_char c - 48)) 0 (take n (drop i s))"

definition strptime_digits :: "string \<Rightarrow> int res" where
  "strptime_digits s =
     (let bad = Exn ValueError ''time data does not match format'' in
      if length s = 14 \<and> list_all is_digit s
      then case day_number (digits_at 0 4 s) (digits_at 4 2 s) (digits_at 6 2 s) of
          None \<Rightarrow> Inl bad
        | Some day \<Rightarrow>
            let h = digits_at 8 2 s; mi = digits_at 10 2 s; sec = digits_at 12 2 s
            in if h < 24 \<and> mi < 60 \<and> sec < 60 then Inr (day * day_us + ((h * 60 + mi) * 60 + sec) * 1000000)
               else Inl bad
      else Inl bad)"

definition get_credentials :: "kiwoom_config \<Rightarrow> string \<times> string" where
  "get_credentials cfg =
     (if is_paper_trading cfg then (kc_paper_app_key cfg, kc_paper_secret_key cfg)
      else (kc_app_key cfg, kc_secret_key cfg))"

definition issue_token :: "kiwoom_config \<Rightarrow> token_answer res \<Rightarrow> kiwoom_token res" where
  "issue_token cfg answer =
     (let (app_key, secret_key) = get_credentials cfg
      in if app_key = [] \<or> secret_key = [] then Inl (Exn RuntimeError ''no API key is configured'')
         else rbind answer (\<lambda>a.
           if ta_token a = [] \<or> ta_expires a = [] then Inl (Exn RuntimeError ''malformed token answer'')
           else rbind (strptime_digits (ta_expires a)) (\<lambda>t. Inr \<lparr>kt_access_token = ta_token a, kt_expires_at = t\<rparr>)))"

definition load_cached_token :: "kiwoom_config \<Rightarrow> int \<Rightarrow> kiwoom_rest \<Rightarrow> kiwoom_token option" where
  "load_cached_token cfg now st =
     (if \<not> kc_has_file cfg then None
      else case kr_file st of
          None \<Rightarrow> None
        | Some f \<Rightarrow>
            if tf_account_type f \<noteq> kc_account_type cfg then None
            else if kt_expires_at (tf_token f) \<le> now + one_minute then None
            else Some (tf_token f))"

definition save_cached_token :: "kiwoom_config \<Rightarrow> bool \<Rightarrow> kiwoom_token \<Rightarrow> kiwoom_rest \<Rightarrow> kiwoom_rest" where
  "save_cached_token cfg disk tok st =
     (if kc_has_file cfg \<and> disk
      then st\<lparr>kr_file := Some \<lparr>tf_account_type = kc_account_type cfg, tf_token = tok\<rparr>\<rparr> else st)"

definition invalidate_cached_token :: "kiwoom_config \<Rightarrow> bool \<Rightarrow> kiwoom_rest \<Rightarrow> kiwoom_rest" where
  "invalidate_cached_token cfg disk st =
     (let st1 = st\<lparr>kr_token := None\<rparr> in if kc_has_file cfg \<and> disk then st1\<lparr>kr_file := None\<rparr> else st1)"

text \<open>What happens around the requests, by attempt.\<close>

datatype http_outcome = Http_status nat | Http_failed py_exn | Http_json json

record kiwoom_env =
  ke_passage :: "nat \<Rightarrow> passage"
  ke_now :: "nat \<Rightarrow> int"
  ke_disk :: "nat \<Rightarrow> bool"
  ke_issue :: "nat \<Rightarrow> token_answer res"
  ke_reply :: "nat \<Rightarrow> http_outcome"

definition token_in_memory :: "int \<Rightarrow> kiwoom_rest \<Rightarrow> kiwoom_token option" where
  "token_in_memory now st =
     (case kr_token st of
        Some t \<Rightarrow> if now + one_minute < kt_expires_at t then Some t else None
      | None \<Rightarrow> None)"

definition get_access_token :: "kiwoom_config \<Rightarrow> kiwoom_env \<Rightarrow> nat \<Rightarrow> kiwoom_rest \<Rightarrow> string res \<times> kiwoom_rest" where
  "get_access_token cfg env n st =
     (case token_in_memory (ke_now env n) st of
        Some t \<Rightarrow> (Inr (kt_access_token t), st)
      | None \<Rightarrow>
          (case load_cached_token cfg (ke_now env n) st of
             Some t \<Rightarrow> (Inr (kt_access_token t), st\<lparr>kr_token := Some t\<rparr>)
           | None \<Rightarrow>
               (case issue_token cfg (ke_issue env n) of
                  Inl e \<Rightarrow> (Inl e, st)
                | Inr t \<Rightarrow> (Inr (kt_access_token t), save_cached_token cfg (ke_disk env n) t (st\<lparr>kr_token := Some t\<rparr>)))))"

section \<open>The request\<close>

text \<open>A message is a text; in a list or an object it is taken not to be found.\<close>

definition text_of :: "json \<Rightarrow> string" where
  "text_of v = (case v of JStr s \<Rightarrow> s | _ \<Rightarrow> [])"

definition invalid_token_text :: string where
  "invalid_token_text = map char_of [84, 111, 107, 101, 110, 236, 157, 180, 32, 236, 156, 160, 237, 154, 168,
     237, 149, 152, 236, 167, 128, 32, 236, 149, 138, 236, 138, 181, 235, 139, 136, 235, 139, 164 :: nat]"

definition is_invalid_token_response :: "(string \<times> json) list \<Rightarrow> bool" where
  "is_invalid_token_response payload \<longleftrightarrow> jget ''return_code'' payload = Some (JNum 3) \<and>
     contains invalid_token_text (text_of (jget_or ''return_msg'' (JStr []) payload))"

definition invalid_token_reply :: "http_outcome \<Rightarrow> bool" where
  "invalid_token_reply r = (case r of Http_json (JObj kvs) \<Rightarrow> is_invalid_token_response kvs | _ \<Rightarrow> False)"

definition body_of :: "json \<Rightarrow> (string \<times> json) list" where
  "body_of payload = (case payload of JObj kvs \<Rightarrow> kvs | v \<Rightarrow> [(''data'', v)])"

definition status_error :: "nat \<Rightarrow> py_exn" where
  "status_error code = Exn ExternalError (''HTTP '' @ int_repr (int code))"

definition reply_result :: "http_outcome \<Rightarrow> (string \<times> json) list res" where
  "reply_result r =
     (case r of Http_status code \<Rightarrow> Inl (status_error code) | Http_failed e \<Rightarrow> Inl e
      | Http_json payload \<Rightarrow> Inr (body_of payload))"

text \<open>
  What an attempt puts on the wire once the limiter let it through at \<open>g\<close>: a request for a token
  when none is at hand, after \<open>ba_ask\<close> seconds, and the request itself when it has a token,
  after \<open>ba_send\<close>. The attempts of all requests at once pass the limiter one by one; each finds
  the client as the others left it.
\<close>

record broker_attempt =
  ba_passage :: passage
  ba_env :: kiwoom_env
  ba_turn :: nat
  ba_client :: kiwoom_rest
  ba_ask :: real
  ba_send :: real

definition token_at_hand :: "kiwoom_config \<Rightarrow> broker_attempt \<Rightarrow> bool" where
  "token_at_hand cfg a \<longleftrightarrow> token_in_memory (ke_now (ba_env a) (ba_turn a)) (ba_client a) \<noteq> None \<or>
     load_cached_token cfg (ke_now (ba_env a) (ba_turn a)) (ba_client a) \<noteq> None"

definition token_posts :: "kiwoom_config \<Rightarrow> real \<Rightarrow> broker_attempt \<Rightarrow> real list" where
  "token_posts cfg g a =
     (let (app_key, secret_key) = get_credentials cfg
      in if token_at_hand cfg a \<or> app_key = [] \<or> secret_key = [] then [] else [g + ba_ask a])"

definition request_posts :: "kiwoom_config \<Rightarrow> real \<Rightarrow> broker_attempt \<Rightarrow> real list" where
  "request_posts cfg g a =
     (case fst (get_access_token cfg (ba_env a) (ba_turn a) (ba_client a)) of
        Inl _ \<Rightarrow> [] | Inr _ \<Rightarrow> [g + ba_send a])"

definition admission_times :: "kiwoom_config \<Rightarrow> broker_attempt list \<Rightarrow> real list" where
  "admission_times cfg as = admissions (pass_limiter (kiwoom_rate_limit cfg)) (map ba_passage as) []"

definition requests_sent :: "kiwoom_config \<Rightarrow> broker_attempt list \<Rightarrow> real list" where
  "requests_sent cfg as = concat (map2 (request_posts cfg) (admission_times cfg as) as)"

definition tokens_asked :: "kiwoom_config \<Rightarrow> broker_attempt list \<Rightarrow> real list" where
  "tokens_asked cfg as = concat (map2 (token_posts cfg) (admission_times cfg as) as)"

text \<open>An attempt that sends at most \<open>d\<close> seconds after it was let through.\<close>

definition sends_within :: "real \<Rightarrow> broker_attempt \<Rightarrow> bool" where
  "sends_within d a \<longleftrightarrow> 0 \<le> ba_ask a \<and> ba_ask a \<le> ba_send a \<and> ba_send a \<le> d"

text \<open>
  The attempt number \<open>n\<close>, after \<open>retries\<close> throttled answers; \<open>renewed\<close> says whether a refused token has
  been replaced already. The outer None is a request that still waits in the limiter.
\<close>

function kiwoom_attempt ::
  "kiwoom_config \<Rightarrow> kiwoom_env \<Rightarrow> bool \<Rightarrow> nat \<Rightarrow> nat \<Rightarrow> kiwoom_rest \<Rightarrow> ((string \<times> json) list res \<times> kiwoom_rest) option" where
  "kiwoom_attempt cfg env renewed retries n st =
     (case pass_limiter (kiwoom_rate_limit cfg) (ke_passage env n) (kr_stamps st) of
        None \<Rightarrow> None
      | Some (_, stamps) \<Rightarrow>
          (let (tok, st1) = get_access_token cfg env n (st\<lparr>kr_stamps := stamps\<rparr>)
           in case tok of
                Inl e \<Rightarrow> Some (Inl e, st1)
              | Inr t \<Rightarrow>
                  (let st2 = st1\<lparr>kr_posts := kr_posts st1 @ [t]\<rparr>; reply = ke_reply env n
                   in if reply = Http_status 429 \<and> retries < 2
                      then kiwoom_attempt cfg env renewed (Suc retries) (Suc n) st2
                      else if \<not> renewed \<and> invalid_token_reply reply
                      then kiwoom_attempt cfg env True retries (Suc n) (invalidate_cached_token cfg (ke_disk env n) st2)
                      else Some (reply_result reply, st2))))"
  by pat_completeness auto
termination
  by (relation "measure (\<lambda>(cfg, env, renewed, retries, n, st). (2 - retries) + (if renewed then 0 else 1))") auto

declare kiwoom_attempt.simps [simp del]

definition kiwoom_request ::
  "kiwoom_config \<Rightarrow> kiwoom_env \<Rightarrow> kiwoom_rest \<Rightarrow> ((string \<times> json) list res \<times> kiwoom_rest) option" where
  "kiwoom_request cfg env st = kiwoom_attempt cfg env False 0 0 st"

section \<open>The limiter keeps its contract\<close>

lemma stamps_ok_recent: "stamps_ok cap t ts \<Longrightarrow> stamps_ok cap t (recent_stamps t ts)"
  unfolding stamps_ok_def recent_stamps_def
  by (auto simp: sorted_wrt_filter intro: order_trans [OF within_second_filter])

lemma respect_step:
  "respect_rate_limit limit now lags ts =
     (if length (recent_stamps now ts) < limit then Some (now, recent_stamps now ts @ [now])
      else case lags of
          [] \<Rightarrow> None
        | l # ls \<Rightarrow> respect_rate_limit limit (now + max (1 - (now - hd (recent_stamps now ts))) (1 / 20) + l) ls (recent_stamps now ts))"
  by (subst respect_rate_limit.simps) (simp add: Let_def)

lemma respect_admits:
  "respect_rate_limit limit now lags ts = Some (g, ts') \<Longrightarrow> list_all ((\<le>) 0) lags \<Longrightarrow>
     now \<le> g \<and> length (recent_stamps g ts) < limit \<and> ts' = recent_stamps g ts @ [g]"
proof (induction lags arbitrary: now ts)
  case Nil
  then show ?case by (subst (asm) respect_step) (auto split: if_splits)
next
  case (Cons l ls)
  let ?later = "now + max (1 - (now - hd (recent_stamps now ts))) (1 / 20) + l"
  show ?case
  proof (cases "length (recent_stamps now ts) < limit")
    case True
    with Cons.prems(1) show ?thesis by (subst (asm) respect_step) auto
  next
    case False
    then have "respect_rate_limit limit ?later ls (recent_stamps now ts) = Some (g, ts')"
      using Cons.prems(1) by (subst (asm) respect_step) simp
    from Cons.IH [OF this] Cons.prems(2) have "now \<le> ?later" and g: "?later \<le> g"
        "length (recent_stamps g (recent_stamps now ts)) < limit" "ts' = recent_stamps g (recent_stamps now ts) @ [g]" by auto
    then have "now \<le> g" by linarith
    with g show ?thesis by (simp add: recent_stamps_mono)
  qed
qed

lemma respect_returns:
  assumes "stamps_ok limit now ts" and "0 < limit" and "0 \<le> l"
  shows "respect_rate_limit limit now (l # ls) ts \<noteq> None"
proof (cases "length (recent_stamps now ts) < limit")
  case True
  then show ?thesis by (subst respect_step) simp
next
  case False
  let ?w = "recent_stamps now ts"
  define later where "later = now + max (1 - (now - hd ?w)) (1 / 20) + l"
  have len: "length ?w = limit" using False stamps_ok_window [OF assms(1), of now] by simp
  then obtain x xs where w: "?w = x # xs" using assms(2) by (cases ?w) auto
  have "later - 1 \<ge> x" using assms(3) by (simp add: w later_def)
  then have "length (recent_stamps later (x # xs)) \<le> length xs" by (simp add: recent_stamps_def)
  then have "length (recent_stamps later ?w) < limit" using len w by simp
  then have "respect_rate_limit limit later ls ?w \<noteq> None" by (subst respect_step) simp
  then show ?thesis using False by (subst respect_step) (simp add: later_def)
qed

interpretation kr: rate_limiter "pass_limiter (kiwoom_rate_limit cfg)" ps_now legal_passage "kiwoom_rate_limit cfg" for cfg
proof
  fix c :: passage and ts g ts'
  assume c: "legal_passage c" "stamps_ok (kiwoom_rate_limit cfg) (ps_now c) ts"
  show "pass_limiter (kiwoom_rate_limit cfg) c ts \<noteq> None"
    using c respect_returns [of "kiwoom_rate_limit cfg" "ps_now c" ts "hd (ps_lags c)" "tl (ps_lags c)"]
    by (cases "ps_lags c") (auto simp: pass_limiter_def legal_passage_def kiwoom_rate_limit_def)
  assume "pass_limiter (kiwoom_rate_limit cfg) c ts = Some (g, ts')"
  from respect_admits [OF this [unfolded pass_limiter_def]] c(1)
  have g: "ps_now c \<le> g" "length (recent_stamps g ts) < kiwoom_rate_limit cfg" "ts' = recent_stamps g ts @ [g]"
    by (auto simp: legal_passage_def)
  show "ps_now c \<le> g" "length (recent_stamps g ts) < kiwoom_rate_limit cfg" by fact+
  show "\<exists>P. ts' = filter P ts @ [g] \<and> (\<forall>x. g - 1 < x \<longrightarrow> P x)"
    using g(3) by (auto simp: recent_stamps_def)
qed

section \<open>Tokens\<close>

text \<open>The token of an answer outlives the call by a minute, unless the broker has just issued it.\<close>

lemma access_token_cases:
  assumes "get_access_token cfg env n st = (Inr tok, st')"
  obtains (kept) t where "kt_access_token t = tok" and "ke_now env n + one_minute < kt_expires_at t"
      and "kr_token st' = Some t" and "kr_token st = Some t \<or> kr_file st = Some \<lparr>tf_account_type = kc_account_type cfg, tf_token = t\<rparr>"
    | (issued) t where "issue_token cfg (ke_issue env n) = Inr t" and "kt_access_token t = tok" and "kr_token st' = Some t"
proof (cases "token_in_memory (ke_now env n) st")
  case (Some t)
  with assms kept show thesis
    by (auto simp: get_access_token_def token_in_memory_def split: option.splits if_splits)
next
  case None
  show thesis
  proof (cases "load_cached_token cfg (ke_now env n) st")
    case (Some t)
    then have "kr_file st = Some \<lparr>tf_account_type = kc_account_type cfg, tf_token = t\<rparr>" "ke_now env n + one_minute < kt_expires_at t"
      by (auto simp: load_cached_token_def split: if_splits option.splits)
    with assms None Some kept show thesis by (auto simp: get_access_token_def)
  next
    case none: None
    with assms None issued show thesis
      by (auto simp: get_access_token_def save_cached_token_def split: sum.splits if_splits)
  qed
qed

lemma access_token_frame:
  "kr_posts (snd (get_access_token cfg env n st)) = kr_posts st"
  "kr_stamps (snd (get_access_token cfg env n st)) = kr_stamps st"
  by (auto simp: get_access_token_def save_cached_token_def split: option.splits sum.splits)

lemma access_token_error:
  "get_access_token cfg env n st = (Inl e, st') \<Longrightarrow> issue_token cfg (ke_issue env n) = Inl e"
  by (auto simp: get_access_token_def split: option.splits sum.splits)

lemma invalidate_frame [simp]:
  "kr_posts (invalidate_cached_token cfg disk st) = kr_posts st"
  "kr_stamps (invalidate_cached_token cfg disk st) = kr_stamps st"
  by (simp_all add: invalidate_cached_token_def Let_def)

section \<open>The loop of a request\<close>

definition asks_again :: "http_outcome \<Rightarrow> bool" where
  "asks_again reply \<longleftrightarrow> reply = Http_status 429 \<or> invalid_token_reply reply"

text \<open>How many attempts may still follow.\<close>

definition attempts_left :: "bool \<Rightarrow> nat \<Rightarrow> nat" where
  "attempts_left renewed retries = (2 - retries) + (if renewed then 0 else 1)"

text \<open>One turn of the loop: it fails on the token, ends with the reply, or goes on with fewer attempts left.\<close>

lemma attempt_cases:
  assumes "pass_limiter (kiwoom_rate_limit cfg) (ke_passage env n) (kr_stamps st) = Some (g, stamps)"
  obtains (no_token) e st1 where "kiwoom_attempt cfg env renewed retries n st = Some (Inl e, st1)"
      and "issue_token cfg (ke_issue env n) = Inl e" and "kr_posts st1 = kr_posts st"
    | (ended) st1 t where "kiwoom_attempt cfg env renewed retries n st = Some (reply_result (ke_reply env n), st1)"
      and "kr_posts st1 = kr_posts st @ [t]"
    | (again) st1 t renewed' retries' where
      "kiwoom_attempt cfg env renewed retries n st = kiwoom_attempt cfg env renewed' retries' (Suc n) st1"
      and "kr_posts st1 = kr_posts st @ [t]" and "kr_stamps st1 = stamps" and "asks_again (ke_reply env n)"
      and "attempts_left renewed retries = Suc (attempts_left renewed' retries')"
proof (cases "get_access_token cfg env n (st\<lparr>kr_stamps := stamps\<rparr>)")
  case (Pair tok st1)
  have frame: "kr_posts st1 = kr_posts st" "kr_stamps st1 = stamps"
    using access_token_frame [of cfg env n "st\<lparr>kr_stamps := stamps\<rparr>"] by (simp_all add: Pair)
  note step = kiwoom_attempt.simps [of cfg env renewed retries n st]
  show thesis
  proof (cases tok)
    case (Inl e)
    with assms Pair no_token [of e st1] frame show thesis by (simp add: step access_token_error)
  next
    case (Inr t)
    let ?st2 = "st1\<lparr>kr_posts := kr_posts st1 @ [t]\<rparr>"
    consider "ke_reply env n = Http_status 429" "retries < 2"
      | "\<not> (ke_reply env n = Http_status 429 \<and> retries < 2)" "\<not> renewed" "invalid_token_reply (ke_reply env n)"
      | "\<not> (ke_reply env n = Http_status 429 \<and> retries < 2)" "\<not> (\<not> renewed \<and> invalid_token_reply (ke_reply env n))"
      by blast
    then show thesis
    proof cases
      case 1
      with assms Pair Inr frame again [of renewed "Suc retries" ?st2 t] show thesis
        by (simp add: step asks_again_def attempts_left_def)
    next
      case 2
      have "kiwoom_attempt cfg env renewed retries n st =
          kiwoom_attempt cfg env True retries (Suc n) (invalidate_cached_token cfg (ke_disk env n) ?st2)"
        by (subst step) (use 2 assms Pair Inr in \<open>auto simp: Let_def\<close>)
      then show thesis by (rule again) (use 2 frame in \<open>simp_all add: asks_again_def attempts_left_def\<close>)
    next
      case 3
      with assms Pair Inr frame ended [of ?st2 t] show thesis by (simp add: step)
    qed
  qed
qed

lemma attempt_settles:
  assumes "stamps_ok (kiwoom_rate_limit cfg) t (kr_stamps st)"
    and "in_turn (pass_limiter (kiwoom_rate_limit cfg)) ps_now legal_passage t
           (map (ke_passage env) [n..<Suc (n + attempts_left renewed retries)]) (kr_stamps st)"
  shows "\<exists>r st' k. kiwoom_attempt cfg env renewed retries n st = Some (r, st') \<and>
     length (kr_posts st') = length (kr_posts st) + k \<and> k \<le> Suc (attempts_left renewed retries) \<and>
     (\<forall>j. Suc j < k \<longrightarrow> asks_again (ke_reply env (n + j))) \<and>
     (case r of Inl e \<Rightarrow> issue_token cfg (ke_issue env (n + k)) = Inl e \<or> 0 < k \<and> reply_result (ke_reply env (n + k - 1)) = Inl e
      | Inr body \<Rightarrow> 0 < k \<and> reply_result (ke_reply env (n + k - 1)) = Inr body)"
  using assms
proof (induction "attempts_left renewed retries" arbitrary: renewed retries n st t rule: less_induct)
  case less
  have upt: "[n..<Suc (n + attempts_left renewed retries)] = n # [Suc n..<Suc (n + attempts_left renewed retries)]"
    by (simp add: upt_conv_Cons)
  obtain g stamps where a: "pass_limiter (kiwoom_rate_limit cfg) (ke_passage env n) (kr_stamps st) = Some (g, stamps)"
      "stamps_ok (kiwoom_rate_limit cfg) g stamps"
      "in_turn (pass_limiter (kiwoom_rate_limit cfg)) ps_now legal_passage g
         (map (ke_passage env) [Suc n..<Suc (n + attempts_left renewed retries)]) stamps"
    using kr.in_turn_ConsE [OF less.prems(2) [unfolded upt list.map] less.prems(1)] by metis
  from a(1) show ?case
  proof (cases rule: attempt_cases [where renewed = renewed and retries = retries])
    case (no_token e st1)
    then show ?thesis by (intro exI [of _ "Inl e"] exI [of _ st1] exI [of _ 0]) simp
  next
    case (ended st1 tok)
    then show ?thesis
      by (intro exI [of _ "reply_result (ke_reply env n)"] exI [of _ st1] exI [of _ 1]) (simp split: sum.splits)
  next
    case (again st1 tok renewed' retries')
    have shorter: "attempts_left renewed' retries' < attempts_left renewed retries" using again(5) by simp
    have rest: "[Suc n..<Suc (n + attempts_left renewed retries)] = [Suc n..<Suc (Suc n + attempts_left renewed' retries')]"
      by (simp add: again(5))
    obtain r st' k where IH: "kiwoom_attempt cfg env renewed' retries' (Suc n) st1 = Some (r, st')"
        "length (kr_posts st') = length (kr_posts st1) + k" "k \<le> Suc (attempts_left renewed' retries')"
        "\<forall>j. Suc j < k \<longrightarrow> asks_again (ke_reply env (Suc n + j))"
        "case r of Inl e \<Rightarrow> issue_token cfg (ke_issue env (Suc n + k)) = Inl e \<or>
              0 < k \<and> reply_result (ke_reply env (Suc n + k - 1)) = Inl e
          | Inr body \<Rightarrow> 0 < k \<and> reply_result (ke_reply env (Suc n + k - 1)) = Inr body"
      using less.hyps [OF shorter, of g st1 "Suc n"] a(2,3) again(3) rest by auto
    have "asks_again (ke_reply env (n + j))" if "Suc j < Suc k" for j
      using that again(4) IH(4) by (cases j) auto
    with IH again show ?thesis
      by (intro exI [of _ r] exI [of _ st'] exI [of _ "Suc k"]) (auto split: sum.splits)
  qed
qed

section \<open>Properties\<close>

text \<open>
  C20: A request to the broker comes to an end and is sent at most four times: every sending but the last
  was answered by the throttling status or by a refused token, so nothing the broker has taken in is
  sent again; the outcome is that of the last sending, or of a token that could not be had.
\<close>

theorem request_sent_again_only_when_refused:
  assumes "stamps_ok (kiwoom_rate_limit cfg) t (kr_stamps st)"
    and "in_turn (pass_limiter (kiwoom_rate_limit cfg)) ps_now legal_passage t (map (ke_passage env) [0..<4]) (kr_stamps st)"
  shows "\<exists>r st' k. kiwoom_request cfg env st = Some (r, st') \<and>
     length (kr_posts st') = length (kr_posts st) + k \<and> k \<le> 4 \<and>
     (\<forall>j. Suc j < k \<longrightarrow> asks_again (ke_reply env j)) \<and>
     (case r of Inl e \<Rightarrow> issue_token cfg (ke_issue env k) = Inl e \<or> 0 < k \<and> reply_result (ke_reply env (k - 1)) = Inl e
      | Inr body \<Rightarrow> 0 < k \<and> reply_result (ke_reply env (k - 1)) = Inr body)"
proof -
  have "attempts_left False 0 = 3" and "Suc (0 + 3) = 4" by (simp_all add: attempts_left_def)
  from attempt_settles [of cfg t st env 0 False 0, unfolded this, OF assms, unfolded add_0]
  show ?thesis by (simp add: kiwoom_request_def)
qed

definition sample_passage :: "nat \<Rightarrow> passage" where
  "sample_passage n = \<lparr>ps_now = 10 * real n, ps_lags = [0]\<rparr>"

definition sample_kiwoom :: kiwoom_config where
  "sample_kiwoom = \<lparr>kc_app_key = ''k'', kc_secret_key = ''s'', kc_paper_app_key = ''k'', kc_paper_secret_key = ''s'',
     kc_account_type = ''VIRTUAL'', kc_has_file = False\<rparr>"

definition throttled_env :: kiwoom_env where
  "throttled_env = \<lparr>ke_passage = sample_passage, ke_now = (\<lambda>_. 0), ke_disk = (\<lambda>_. True),
     ke_issue = (\<lambda>_. Inr \<lparr>ta_token = ''T'', ta_expires = ''20260301090000''\<rparr>),
     ke_reply = (\<lambda>n. if n = 0 then Http_status 429 else Http_json (JObj [(''return_code'', JNum 0)]))\<rparr>"

definition fresh_rest :: kiwoom_rest where
  "fresh_rest = \<lparr>kr_token = None, kr_file = None, kr_stamps = [], kr_posts = []\<rparr>"

lemma sample_turns:
  "in_turn (pass_limiter 3) ps_now legal_passage 0 (map sample_passage [0..<4]) []"
  by (simp add: upt_rec [of _ 4] upt_rec [of _ "Suc _"] eval_nat_numeral sample_passage_def pass_limiter_def legal_passage_def respect_rate_limit.simps
      recent_stamps_def Let_def)

lemma request_sent_again_only_when_refused_witness:
  "\<exists>r st' k. kiwoom_request sample_kiwoom throttled_env fresh_rest = Some (r, st') \<and> length (kr_posts st') = k \<and> k \<le> 4"
  using request_sent_again_only_when_refused [of sample_kiwoom 0 fresh_rest throttled_env] sample_turns
  by (fastforce simp: fresh_rest_def throttled_env_def sample_kiwoom_def kiwoom_rate_limit_def is_paper_trading_def)

lemma request_posts_window:
  "sends_within d a \<Longrightarrow> length (request_posts cfg g a) \<le> 1 \<and> (\<forall>y \<in> set (request_posts cfg g a). g \<le> y \<and> y \<le> g + d)"
  by (auto simp: request_posts_def sends_within_def split: sum.split)

lemma token_posts_window:
  "sends_within d a \<Longrightarrow> length (token_posts cfg g a) \<le> 1 \<and> (\<forall>y \<in> set (token_posts cfg g a). g \<le> y \<and> y \<le> g + d)"
  by (auto simp: token_posts_def sends_within_def split_beta)

lemma no_token_posts: "list_all (token_at_hand cfg) as \<Longrightarrow> tokens_asked cfg as = []"
proof -
  have "list_all (token_at_hand cfg) as \<Longrightarrow> concat (map2 (token_posts cfg) gs as) = []" for gs
    by (induction gs as rule: list_induct2') (auto simp: token_posts_def split_beta)
  then show "list_all (token_at_hand cfg) as \<Longrightarrow> tokens_asked cfg as = []" unfolding tokens_asked_def .
qed

text \<open>
  C21: Every attempt passes the limiter, and when each is sent at most \<open>d\<close> seconds after it passed,
  no second sees more requests to the broker than the limit (three with paper money, five else) for
  every second that \<open>d\<close> has begun and one more: the limit itself when nothing waits for a token. The
  requests for tokens go past the limiter: there can be as many again, and none while a token is
  at hand.
\<close>

theorem kiwoom_requests_within_limit:
  assumes "in_turn (pass_limiter (kiwoom_rate_limit cfg)) ps_now legal_passage t (map ba_passage as) []"
    and "list_all (sends_within d) as" and "0 \<le> d"
  shows "within_second u (requests_sent cfg as) \<le> (nat \<lceil>d\<rceil> + 1) * kiwoom_rate_limit cfg \<and>
    within_second u (tokens_asked cfg as) \<le> (nat \<lceil>d\<rceil> + 1) * kiwoom_rate_limit cfg \<and>
    (list_all (token_at_hand cfg) as \<longrightarrow> tokens_asked cfg as = []) \<and>
    length (admission_times cfg as) = length as"
proof (intro conjI impI)
  have cap: "within_second u (admission_times cfg as) \<le> kiwoom_rate_limit cfg" for u
    unfolding admission_times_def by (rule kr.at_most_cap_per_second [OF assms(1)])
  show "within_second u (requests_sent cfg as) \<le> (nat \<lceil>d\<rceil> + 1) * kiwoom_rate_limit cfg"
    unfolding requests_sent_def
    by (rule within_second_delayed [OF cap assms(3) list.pred_mono_strong [OF assms(2)]]) (blast dest: request_posts_window)
  show "within_second u (tokens_asked cfg as) \<le> (nat \<lceil>d\<rceil> + 1) * kiwoom_rate_limit cfg"
    unfolding tokens_asked_def
    by (rule within_second_delayed [OF cap assms(3) list.pred_mono_strong [OF assms(2)]]) (blast dest: token_posts_window)
  show "length (admission_times cfg as) = length as"
    unfolding admission_times_def using kr.every_call_admitted [OF assms(1)] by simp
qed (rule no_token_posts)

definition sample_attempt :: "real \<Rightarrow> real \<Rightarrow> broker_attempt" where
  "sample_attempt now late = \<lparr>ba_passage = \<lparr>ps_now = now, ps_lags = [0]\<rparr>, ba_env = throttled_env, ba_turn = 0,
     ba_client = fresh_rest, ba_ask = 0, ba_send = late\<rparr>"

lemma kiwoom_requests_within_limit_witness:
  "within_second 1 (requests_sent sample_kiwoom (map (\<lambda>now. sample_attempt now 0) [0, 1/4, 1/2, 3/4])) \<le> 3"
proof -
  have "in_turn (pass_limiter 3) ps_now legal_passage 0
      (map ba_passage (map (\<lambda>now. sample_attempt now 0) [0, 1/4, 1/2, 3/4])) []"
    by (simp add: sample_attempt_def pass_limiter_def legal_passage_def respect_rate_limit.simps recent_stamps_def Let_def)
  then show ?thesis
    using kiwoom_requests_within_limit [of sample_kiwoom 0 "map (\<lambda>now. sample_attempt now 0) [0, 1/4, 1/2, 3/4]" 0 1]
    by (simp add: kiwoom_rate_limit_def sample_kiwoom_def is_paper_trading_def sends_within_def sample_attempt_def)
qed

lemma strptime_sample: "\<not> isl (strptime_digits ''20260301090000'')"
  by code_simp

lemma sample_posts:
  "request_posts sample_kiwoom g (sample_attempt now late) = [g + late]"
  "token_posts sample_kiwoom g (sample_attempt now late) = [g]"
proof -
  have no_token: "token_in_memory x fresh_rest = None" "load_cached_token sample_kiwoom x fresh_rest = None" for x
    by (simp_all add: token_in_memory_def load_cached_token_def fresh_rest_def sample_kiwoom_def)
  have "\<exists>t. strptime_digits ''20260301090000'' = Inr t"
    by (cases "strptime_digits ''20260301090000''") (use strptime_sample in auto)
  then have "\<exists>t. issue_token sample_kiwoom (ke_issue throttled_env n) = Inr t" for n
    by (auto simp: issue_token_def throttled_env_def sample_kiwoom_def get_credentials_def is_paper_trading_def)
  then show "request_posts sample_kiwoom g (sample_attempt now late) = [g + late]"
    by (auto simp: request_posts_def sample_attempt_def get_access_token_def no_token split: sum.split) (metis sum.distinct(1))
  show "token_posts sample_kiwoom g (sample_attempt now late) = [g]"
    by (simp add: token_posts_def token_at_hand_def sample_attempt_def no_token get_credentials_def sample_kiwoom_def
        is_paper_trading_def no_token [unfolded sample_kiwoom_def])
qed

text \<open>A token that takes a second and a half: six requests reach the broker in the same second, three
  being allowed, and each has asked for a token of its own.\<close>

lemma late_token_bunches_requests:
  "let as = map (\<lambda>now. sample_attempt now (3/2 - now)) [0, 0, 0, 5/4, 5/4, 5/4]
   in in_turn (pass_limiter (kiwoom_rate_limit sample_kiwoom)) ps_now legal_passage 0 (map ba_passage as) [] \<and>
      within_second 2 (requests_sent sample_kiwoom as) = 6 \<and> kiwoom_rate_limit sample_kiwoom = 3 \<and>
      length (tokens_asked sample_kiwoom as) = 6"
proof -
  have cap: "kiwoom_rate_limit sample_kiwoom = 3"
    by (simp add: kiwoom_rate_limit_def sample_kiwoom_def is_paper_trading_def)
  have pass: "ba_passage (sample_attempt now late) = \<lparr>ps_now = now, ps_lags = [0]\<rparr>" for now late
    by (simp add: sample_attempt_def)
  show ?thesis
    by (simp add: Let_def requests_sent_def tokens_asked_def admission_times_def sample_posts cap pass pass_limiter_def
        legal_passage_def respect_rate_limit.simps recent_stamps_def within_second_def)
qed

end
