(* ===== verification/Broker_Api.thy ===== *)
theory Broker_Api
  imports Accounts Decision
begin

text \<open>
  What both broker adapters make of the answers of their market data clients: the envelope of an
  answer, candles, the current price, ranks (\<open>trading/models.py\<close>, \<open>trading/adapters/kis_adapter.py\<close>,
  \<open>trading/adapters/kiwoom_adapter.py\<close>; the two adapters share this code by copy). The key of a candle
  is kept as the JSON value whose text the code stores.
\<close>

section \<open>Models\<close>

record api_response = mcp_response +
  ar_error :: "string option"

record candle =
  cd_time_key :: json
  cd_open :: real
  cd_high :: real
  cd_low :: real
  cd_close :: real
  cd_volume :: int

record current_price =
  cp_symbol :: string
  cp_market :: market
  cp_price :: real
  cp_change :: real
  cp_change_rate :: real
  cp_volume :: int

record broker_order_result = order_result +
  br_filled_quantity :: int
  br_filled_price :: real

record buying_power =
  bp_success :: bool
  bp_max_qty :: int
  bp_available_cash :: real

fun market_value :: "market \<Rightarrow> string" where
  "market_value KRX = ''KRX''"
| "market_value NXT = ''NXT''"
| "market_value KOSPI = ''KOSPI''"
| "market_value KOSDAQ = ''KOSDAQ''"
| "market_value NASDAQ = ''NASDAQ''"
| "market_value NYSE = ''NYSE''"
| "market_value AMEX = ''AMEX''"

lemma market_of_value [simp]: "market_of (market_value m) = Inr m"
  by (cases m) (simp_all add: market_of_def)

definition api_ok :: "(string \<times> json) list \<Rightarrow> api_response" where
  "api_ok data = \<lparr>mr_success = True, mr_data = data, ar_error = None\<rparr>"

definition api_error :: "string \<Rightarrow> api_response" where
  "api_error e = \<lparr>mr_success = False, mr_data = [], ar_error = Some e\<rparr>"

section \<open>Fields\<close>

text \<open>\<open>a or b\<close> of values; \<open>d.get(k)\<close> of a missing key is null.\<close>

definition jor :: "json \<Rightarrow> json \<Rightarrow> json" where
  "jor a b = (if truthy a then a else b)"

definition jfield :: "string \<Rightarrow> (string \<times> json) list \<Rightarrow> json" where
  "jfield k kvs = jget_or k JNull kvs"

lemma jfield_update [simp]:
  "jfield k (kvs @ [(k', v)]) = (if k = k' then v else jfield k kvs)"
  by (auto simp: jfield_def jget_or_def jget_def)

lemma jget_append: "jget k (xs @ ys) = (case jget k ys of None \<Rightarrow> jget k xs | Some v \<Rightarrow> Some v)"
  by (auto simp: jget_def map_add_def split: option.splits)

text \<open>\<open>float(d.get(k) or 0.0)\<close> and \<open>int(d.get(k) or 0)\<close>.\<close>

definition float_or_zero :: "json \<Rightarrow> real res" where
  "float_or_zero v = py_float (jor v (JNum 0))"

definition int_or_zero :: "json \<Rightarrow> int res" where
  "int_or_zero v = py_int_of (jor v (JNum 0))"

lemma or_zero_num [simp]: "float_or_zero (JNum r) = Inr r" "int_or_zero (JNum r) = Inr (py_int r)"
  by (simp_all add: float_or_zero_def int_or_zero_def jor_def truthy_def)

section \<open>The adapters' side\<close>

definition ensure_api_success :: "api_response \<Rightarrow> unit res" where
  "ensure_api_success r =
     (if mr_success r then Inr () else Inl (Exn RuntimeError (str_or (ostr (ar_error r)) ''broker request failed'')))"

definition adapter_current_price :: "string \<Rightarrow> market \<Rightarrow> api_response \<Rightarrow> current_price res" where
  "adapter_current_price symbol m r =
     rbind (ensure_api_success r) (\<lambda>_.
     let d = mr_data r in
     rbind (float_or_zero (jor (jfield ''current_price'' d) (jfield ''price'' d))) (\<lambda>price.
     rbind (float_or_zero (jfield ''change'' d)) (\<lambda>change.
     rbind (float_or_zero (jfield ''change_rate'' d)) (\<lambda>rate.
     rbind (int_or_zero (jfield ''volume'' d)) (\<lambda>volume.
       Inr \<lparr>cp_symbol = symbol, cp_market = m, cp_price = price, cp_change = change, cp_change_rate = rate,
            cp_volume = volume\<rparr>)))))"

definition candle_of_row :: "string \<Rightarrow> json \<Rightarrow> candle res" where
  "candle_of_row time_key_field row =
     rbind (as_dict row) (\<lambda>item.
     rbind (float_or_zero (jfield ''open'' item)) (\<lambda>op.
     rbind (float_or_zero (jfield ''high'' item)) (\<lambda>hi.
     rbind (float_or_zero (jfield ''low'' item)) (\<lambda>lo.
     rbind (float_or_zero (jfield ''close'' item)) (\<lambda>cl.
     rbind (int_or_zero (jfield ''volume'' item)) (\<lambda>vol.
       Inr \<lparr>cd_time_key = jget_or time_key_field (JStr []) item, cd_open = op, cd_high = hi, cd_low = lo, cd_close = cl,
            cd_volume = vol\<rparr>))))))"

fun rmap :: "('a \<Rightarrow> 'b res) \<Rightarrow> 'a list \<Rightarrow> 'b list res" where
  "rmap f [] = Inr []"
| "rmap f (x # xs) = rbind (f x) (\<lambda>y. rbind (rmap f xs) (\<lambda>ys. Inr (y # ys)))"

lemma rmap_eq_Inr: "rmap f xs = Inr ys \<longleftrightarrow> list_all2 (\<lambda>x y. f x = Inr y) xs ys"
  by (induction xs arbitrary: ys) (auto simp: rbind_eq_Inr list_all2_Cons1)

text \<open>Iterating over what is no list raises, or meets keys that are no objects.\<close>

definition rows_of :: "json \<Rightarrow> json list res" where
  "rows_of v = (case v of JList l \<Rightarrow> Inr l | JObj [] \<Rightarrow> Inr [] | JStr [] \<Rightarrow> Inr []
     | _ \<Rightarrow> Inl (Exn TypeError ''no list of rows''))"

definition normalize_candles :: "(string \<times> json) list \<Rightarrow> string \<Rightarrow> candle list res" where
  "normalize_candles data time_key_field =
     rbind (rows_of (jget_or ''prices'' (JList []) data)) (rmap (candle_of_row time_key_field))"

definition adapter_candles :: "string \<Rightarrow> api_response \<Rightarrow> candle list res" where
  "adapter_candles time_key_field r =
     rbind (ensure_api_success r) (\<lambda>_. normalize_candles (mr_data r) time_key_field)"

text \<open>A rank is given on as it came; a failed query is an empty rank.\<close>

definition adapter_rank :: "api_response \<Rightarrow> json" where
  "adapter_rank r =
     (if mr_success r \<and> mr_data r \<noteq> [] then jget_or ''stocks'' (jget_or ''items'' (JList []) (mr_data r)) (mr_data r)
      else JList [])"

section \<open>What the decision maker expects of a status query\<close>

text \<open>A status carries the number that was asked for and says how much was filled.\<close>

locale status_source =
  fixes status :: "string \<Rightarrow> order_status_info option res"
  assumes own_number: "status oid = Inr (Some os) \<Longrightarrow> os_order_id os = oid"
    and known_fill: "status oid = Inr (Some os) \<Longrightarrow> os_filled_qty os \<noteq> None"
begin

text \<open>Then an order is confirmed exactly on a fill the broker reports for it, never on the ordered quantity.\<close>

lemma confirmed_on_reported_fill:
  "env_status env = status \<Longrightarrow> fill_seen env t \<longleftrightarrow>
     (\<exists>os q. status (ct_order_id t) = Inr (Some os) \<and> os_order_id os = ct_order_id t \<and> os_filled_qty os = Some q \<and> 0 < q)"
  using own_number known_fill by (fastforce simp: fill_seen_def split: sum.splits option.splits)

end

end
