(* ===== verification/Kiwoom.thy ===== *)
theory Kiwoom
  imports Kiwoom_Rest Broker_Api Decision "HOL-Library.AList"
begin

text \<open>
  The Kiwoom broker above its request loop: the clients that turn answers into balances, holdings,
  quotes, ranks and order results (\<open>trading/kiwoom_clients.py\<close>), and the adapter the program trades
  through (\<open>trading/adapters/kiwoom_adapter.py\<close>), which remembers the orders it sent and tells from the
  holdings what became of those the broker no longer lists.

  The answer of each request is an argument: the body of the answer, or the exception of the request.
\<close>

section \<open>Numbers of the broker\<close>

text \<open>
  \<open>_clean_number\<close> and the conversions on it: commas are dropped, what is no number counts as zero.
  Prices come with a sign for the direction of the day, which \<open>_abs_float\<close> drops.
\<close>

definition clean_number :: "string \<Rightarrow> string" where
  "clean_number s = strip (filter (\<lambda>c. c \<noteq> CHR '','') s)"

definition signed_float :: "json \<Rightarrow> real" where
  "signed_float v =
     (case v of
        JNum r \<Rightarrow> r
      | JStr s \<Rightarrow> (case float_of_text (clean_number s) of None \<Rightarrow> 0 | Some r \<Rightarrow> r)
      | _ \<Rightarrow> 0)"

definition abs_float :: "json \<Rightarrow> real" where
  "abs_float v = \<bar>signed_float v\<bar>"

definition signed_int :: "json \<Rightarrow> int" where
  "signed_int v = py_int (signed_float v)"

definition return_code :: "(string \<times> json) list \<Rightarrow> int" where
  "return_code data = (case py_int_of (jget_or ''return_code'' (JNum 0) data) of Inl _ \<Rightarrow> -1 | Inr i \<Rightarrow> i)"

definition return_message :: "string \<Rightarrow> (string \<times> json) list \<Rightarrow> string" where
  "return_message d data = text_of (jget_or ''return_msg'' (JStr d) data)"

section \<open>Markets\<close>

definition is_domestic_market :: "string \<Rightarrow> bool" where
  "is_domestic_market m \<longleftrightarrow> upper m \<in> {''KRX'', ''KOSPI'', ''KOSDAQ''}"

definition to_exchange :: "market \<Rightarrow> string" where
  "to_exchange m = (if m \<in> {KRX, KOSPI, KOSDAQ} then ''KRX'' else market_value m)"

definition to_rank_market_code :: "string \<Rightarrow> string" where
  "to_rank_market_code m =
     (if upper m = ''KOSPI'' then ''001'' else if upper m = ''KOSDAQ'' then ''101'' else ''000'')"

definition to_rank_exchange_code :: "string \<Rightarrow> string" where
  "to_rank_exchange_code m = (if upper m \<in> {''KRX'', ''KOSPI'', ''KOSDAQ''} then ''1'' else ''3'')"

definition foreign_error :: string where
  "foreign_error = ''Kiwoom supports domestic stocks only''"

section \<open>The account client\<close>

record kiwoom_account =
  ka_snapshot :: "((string \<times> json) list \<times> int) option"

text \<open>
  What one query meets: the clock at the first look, at the second look under the lock, and when the
  answer is stored; the settings of the retry; the answers to the attempts, and to the query of the
  fallback.
\<close>

record account_query =
  aq_first :: int
  aq_second :: int
  aq_stored :: int
  aq_retry_count :: int
  aq_paper :: bool
  aq_answers :: "nat \<Rightarrow> (string \<times> json) list res"
  aq_fallback :: "(string \<times> json) list res"

definition snapshot_ttl :: int where "snapshot_ttl = 1000000"

definition cached_account_snapshot :: "int \<Rightarrow> kiwoom_account \<Rightarrow> (string \<times> json) list option" where
  "cached_account_snapshot now c =
     (case ka_snapshot c of None \<Rightarrow> None | Some (body, since) \<Rightarrow> if snapshot_ttl < now - since then None else Some body)"

definition delay_text :: string where
  "delay_text = map char_of [236, 167, 128, 236, 151, 176 :: nat]"

definition should_retry_account_snapshot :: "(string \<times> json) list \<Rightarrow> bool" where
  "should_retry_account_snapshot data \<longleftrightarrow> return_code data \<noteq> 0 \<and>
     (contains ''RC9002'' (return_message [] data) \<or> contains delay_text (return_message [] data))"

definition should_use_mock_cash_fallback :: "bool \<Rightarrow> (string \<times> json) list \<Rightarrow> bool" where
  "should_use_mock_cash_fallback paper data \<longleftrightarrow>
     paper \<and> return_code data \<noteq> 0 \<and> contains ''RC9000'' (return_message [] data)"

fun snapshot_attempts :: "(nat \<Rightarrow> (string \<times> json) list res) \<Rightarrow> nat \<Rightarrow> nat \<Rightarrow> (string \<times> json) list res" where
  "snapshot_attempts answers n 0 = answers n"
| "snapshot_attempts answers n (Suc left) =
     rbind (answers n) (\<lambda>body.
       if should_retry_account_snapshot body then snapshot_attempts answers (Suc n) left else Inr body)"

definition request_account_snapshot_with_retry :: "account_query \<Rightarrow> (string \<times> json) list res" where
  "request_account_snapshot_with_retry q =
     snapshot_attempts (aq_answers q) 0 (nat (max (num_or (aq_retry_count q) 1) 1) - 1)"

definition ask_account_snapshot :: "account_query \<Rightarrow> (string \<times> json) list res" where
  "ask_account_snapshot q =
     rbind (request_account_snapshot_with_retry q) (\<lambda>body.
       if should_use_mock_cash_fallback (aq_paper q) body then aq_fallback q else Inr body)"

definition kiwoom_account_snapshot :: "account_query \<Rightarrow> kiwoom_account \<Rightarrow> (string \<times> json) list res \<times> kiwoom_account" where
  "kiwoom_account_snapshot q c =
     (case cached_account_snapshot (aq_first q) c of
        Some body \<Rightarrow> (Inr body, c)
      | None \<Rightarrow>
          (case cached_account_snapshot (aq_second q) c of
             Some body \<Rightarrow> (Inr body, c)
           | None \<Rightarrow>
               (case ask_account_snapshot q of
                  Inl e \<Rightarrow> (Inl e, c)
                | Inr body \<Rightarrow> (Inr body, if return_code body = 0 then c\<lparr>ka_snapshot := Some (body, aq_stored q)\<rparr> else c))))"

definition kiwoom_invalidate_cache :: "kiwoom_account \<Rightarrow> kiwoom_account" where
  "kiwoom_invalidate_cache c = c\<lparr>ka_snapshot := None\<rparr>"

definition ensure_return_code :: "(string \<times> json) list \<Rightarrow> unit res" where
  "ensure_return_code data =
     (if return_code data = 0 then Inr () else Inl (Exn RuntimeError (return_message ''account query failed'' data)))"

definition balance_of_snapshot :: "(string \<times> json) list \<Rightarrow> account_balance" where
  "balance_of_snapshot data =
     (let total_asset = abs_float (jfield ''prsm_dpst_aset_amt'' data);
          stock_value = abs_float (jfield ''tot_evlt_amt'' data);
          total1 = (if total_asset \<le> 0 \<and> 0 < stock_value then stock_value else total_asset);
          total2 = (if total1 < stock_value then stock_value else total1)
      in \<lparr>bal_total_asset = total2, bal_cash = max (total2 - stock_value) 0, bal_stock_value = stock_value,
          bal_total_pnl = signed_float (jfield ''tot_evlt_pl'' data),
          bal_total_pnl_rate = signed_float (jfield ''tot_prft_rt'' data), bal_is_valid = (return_code data = 0)\<rparr>)"

definition kiwoom_balance :: "account_query \<Rightarrow> kiwoom_account \<Rightarrow> account_balance res \<times> kiwoom_account" where
  "kiwoom_balance q c =
     (let (r, c') = kiwoom_account_snapshot q c
      in (rbind r (\<lambda>data. rbind (ensure_return_code data) (\<lambda>_. Inr (balance_of_snapshot data))), c'))"

definition kiwoom_holding_of :: "json \<Rightarrow> broker_holding res" where
  "kiwoom_holding_of v =
     rbind (as_dict v) (\<lambda>item.
     rbind (str_key_of ''stk_cd'' item) (\<lambda>symbol.
     rbind (str_key_of ''stk_nm'' item) (\<lambda>name.
       Inr \<lparr>hi_symbol = symbol, hi_name = name, hi_quantity = signed_int (jfield ''rmnd_qty'' item),
            hi_avg_buy_price = abs_float (jfield ''pur_pric'' item), hi_current_price = abs_float (jfield ''cur_prc'' item),
            bh_pnl = signed_float (jfield ''evltv_prft'' item), bh_pnl_rate = signed_float (jfield ''prft_rt'' item)\<rparr>)))"

definition kiwoom_holdings :: "account_query \<Rightarrow> kiwoom_account \<Rightarrow> broker_holding list res \<times> kiwoom_account" where
  "kiwoom_holdings q c =
     (let (r, c') = kiwoom_account_snapshot q c
      in (rbind r (\<lambda>data.
          rbind (ensure_return_code data) (\<lambda>_.
          rbind (rows_of (jget_or ''acnt_evlt_remn_indv_tot'' (JList []) data)) (rmap kiwoom_holding_of))), c'))"

definition kiwoom_pending_of :: "json \<Rightarrow> pending_order_info res" where
  "kiwoom_pending_of v =
     rbind (as_dict v) (\<lambda>item.
     rbind (str_key_of ''io_tp_nm'' item) (\<lambda>side.
     rbind (str_key_of ''ord_no'' item) (\<lambda>order_id.
     rbind (str_key_of ''stk_cd'' item) (\<lambda>symbol.
     rbind (str_key_of ''stk_nm'' item) (\<lambda>name.
     rbind (str_key_of ''tm'' item) (\<lambda>tm.
       Inr \<lparr>po_order_id = order_id, po_symbol = symbol, po_name = name,
            po_side = (if contains kr_buy_side side then kr_buy_side else kr_sell_side),
            po_order_qty = signed_int (jfield ''ord_qty'' item), po_filled_qty = signed_int (jfield ''cntr_qty'' item),
            po_remaining_qty = signed_int (jfield ''oso_qty'' item), po_order_price = abs_float (jfield ''ord_pric'' item),
            po_order_time = tm\<rparr>))))))"

definition kiwoom_pending_orders :: "(string \<times> json) list res \<Rightarrow> pending_order_info list res" where
  "kiwoom_pending_orders answer =
     rbind answer (\<lambda>data.
     rbind (ensure_return_code data) (\<lambda>_.
     rbind (rows_of (jget_or ''oso'' (JList []) data)) (rmap kiwoom_pending_of)))"

section \<open>The market data client\<close>

text \<open>Quotes are kept for a second, by symbol and market.\<close>

type_synonym quote_cache = "(string \<times> string) \<rightharpoonup> (int \<times> api_response)"

definition quote_ttl :: int where "quote_ttl = 1000000"

definition failed_answer :: "string \<Rightarrow> (string \<times> json) list \<Rightarrow> api_response" where
  "failed_answer d data = api_error (return_message d data)"

definition quote_of :: "(string \<times> json) list \<Rightarrow> api_response" where
  "quote_of data = api_ok (data @
     [(''price'', JNum (abs_float (jfield ''cur_prc'' data))), (''current_price'', JNum (abs_float (jfield ''cur_prc'' data))),
      (''change'', JNum (signed_float (jfield ''pred_pre'' data))), (''change_rate'', JNum (signed_float (jfield ''flu_rt'' data))),
      (''volume'', JNum (of_int (signed_int (jfield ''trde_qty'' data))))])"

definition kiwoom_current_price ::
  "string \<Rightarrow> string \<Rightarrow> int \<Rightarrow> int \<Rightarrow> (string \<times> json) list res \<Rightarrow> quote_cache \<Rightarrow> api_response res \<times> quote_cache" where
  "kiwoom_current_price symbol m now stored answer c =
     (if \<not> is_domestic_market m then (Inr (api_error foreign_error), c)
      else
        case c (symbol, m) of
          Some (since, r) \<Rightarrow> if now - since \<le> quote_ttl then (Inr r, c) else
            (case answer of
               Inl e \<Rightarrow> (Inl e, c)
             | Inr data \<Rightarrow>
                 if return_code data \<noteq> 0 then (Inr (failed_answer ''no quote'' data), c)
                 else (Inr (quote_of data), c((symbol, m) \<mapsto> (stored, quote_of data))))
        | None \<Rightarrow>
            (case answer of
               Inl e \<Rightarrow> (Inl e, c)
             | Inr data \<Rightarrow>
                 if return_code data \<noteq> 0 then (Inr (failed_answer ''no quote'' data), c)
                 else (Inr (quote_of data), c((symbol, m) \<mapsto> (stored, quote_of data)))))"

text \<open>The values of a dict: a later value of a key stands in the place of the first.\<close>

definition dict_of :: "(string \<times> json) list \<Rightarrow> (string \<times> json) list" where
  "dict_of kvs = fold (\<lambda>(k, v). AList.update k v) kvs []"

definition is_chart :: "json \<Rightarrow> bool" where
  "is_chart v =
     (case v of
        JList (JObj row # _) \<Rightarrow> {''dt'', ''tm'', ''close_pric'', ''cur_prc''} \<inter> fst ` set row \<noteq> {}
      | _ \<Rightarrow> False)"

definition find_chart_rows :: "(string \<times> json) list \<Rightarrow> json list" where
  "find_chart_rows data =
     (case find is_chart (map snd (dict_of data)) of Some (JList l) \<Rightarrow> l | _ \<Rightarrow> [])"

definition first_field :: "string list \<Rightarrow> (string \<times> json) list \<Rightarrow> json" where
  "first_field ks row = foldr (\<lambda>k v. jor (jfield k row) v) (butlast ks) (jfield (last ks) row)"

definition chart_row :: "string \<Rightarrow> json \<Rightarrow> json res" where
  "chart_row time_key v =
     rbind (as_dict v) (\<lambda>row. Inr (JObj
       [(time_key, jor (first_field [''dt'', ''tm'', ''date'', ''time''] row) (JStr [])),
        (''open'', JNum (abs_float (first_field [''open_pric'', ''open''] row))),
        (''high'', JNum (abs_float (first_field [''high_pric'', ''high''] row))),
        (''low'', JNum (abs_float (first_field [''low_pric'', ''low''] row))),
        (''close'', JNum (abs_float (first_field [''close_pric'', ''cur_prc'', ''close''] row))),
        (''volume'', JNum (of_int (signed_int (first_field [''trde_qty'', ''volume''] row))))]))"

definition normalize_chart_rows :: "(string \<times> json) list \<Rightarrow> int option \<Rightarrow> string \<Rightarrow> json list res" where
  "normalize_chart_rows data n time_key =
     (let rows = find_chart_rows data
      in rmap (chart_row time_key) (case n of None \<Rightarrow> rows
           | Some k \<Rightarrow> if 0 \<le> k then take (nat k) rows else take (length rows - nat (- k)) rows))"

definition chart_answer :: "string \<Rightarrow> int option \<Rightarrow> string \<Rightarrow> (string \<times> json) list res \<Rightarrow> string \<Rightarrow> api_response res" where
  "chart_answer m n time_key answer failure =
     (if \<not> is_domestic_market m then Inr (api_error foreign_error)
      else rbind answer (\<lambda>data.
        if return_code data \<noteq> 0 then Inr (failed_answer failure data)
        else rbind (normalize_chart_rows data n time_key) (\<lambda>rows. Inr (api_ok (data @ [(''prices'', JList rows)])))))"

definition kiwoom_daily_price :: "string \<Rightarrow> int \<Rightarrow> (string \<times> json) list res \<Rightarrow> api_response res" where
  "kiwoom_daily_price m n answer = chart_answer m (Some n) ''date'' answer ''no daily chart''"

definition kiwoom_minute_price :: "string \<Rightarrow> (string \<times> json) list res \<Rightarrow> api_response res" where
  "kiwoom_minute_price m answer = chart_answer m None ''time'' answer ''no minute chart''"

definition rank_row :: "json \<Rightarrow> json res" where
  "rank_row v =
     rbind (as_dict v) (\<lambda>row. Inr (JObj
       [(''symbol'', jget_or ''stk_cd'' (JStr []) row), (''name'', jget_or ''stk_nm'' (JStr []) row),
        (''price'', JNum (abs_float (jfield ''cur_prc'' row))), (''current_price'', JNum (abs_float (jfield ''cur_prc'' row))),
        (''change'', JNum (signed_float (jfield ''pred_pre'' row))), (''change_rate'', JNum (signed_float (jfield ''flu_rt'' row))),
        (''volume'', JNum (of_int (signed_int (first_field [''now_trde_qty'', ''trde_qty''] row)))),
        (''trade_amount'', JNum (of_int (signed_int (first_field [''acml_trde_prica'', ''trde_prica''] row))))]))"

definition rank_answer :: "string \<Rightarrow> string \<Rightarrow> (string \<times> json) list res \<Rightarrow> string \<Rightarrow> api_response res" where
  "rank_answer m rows_key answer failure =
     (if \<not> is_domestic_market m then Inr (api_error foreign_error)
      else rbind answer (\<lambda>data.
        if return_code data \<noteq> 0 then Inr (failed_answer failure data)
        else rbind (rbind (rows_of (jget_or rows_key (JList []) data)) (rmap rank_row)) (\<lambda>rows.
          Inr (api_ok (data @ [(''stocks'', JList rows)])))))"

record rank_query =
  rq_market :: string
  rq_exchange :: string
  rq_sort :: string

definition kiwoom_volume_query :: "string \<Rightarrow> rank_query" where
  "kiwoom_volume_query m = \<lparr>rq_market = to_rank_market_code m, rq_exchange = to_rank_exchange_code m, rq_sort = ''1''\<rparr>"

definition kiwoom_fluctuation_query :: "string \<Rightarrow> string \<Rightarrow> rank_query" where
  "kiwoom_fluctuation_query direction m = \<lparr>rq_market = to_rank_market_code m, rq_exchange = to_rank_exchange_code m,
     rq_sort = (if direction = ''top'' then ''1'' else ''3'')\<rparr>"

definition kiwoom_volume_rank :: "string \<Rightarrow> (string \<times> json) list res \<Rightarrow> api_response res" where
  "kiwoom_volume_rank m answer = rank_answer m ''trde_qty_sdnin'' answer ''no volume rank''"

definition kiwoom_fluctuation_rank :: "string \<Rightarrow> (string \<times> json) list res \<Rightarrow> api_response res" where
  "kiwoom_fluctuation_rank m answer = rank_answer m ''pred_pre_flu_rt_upper'' answer ''no fluctuation rank''"

section \<open>The order executor\<close>

text \<open>What is sent for an order and for a cancellation.\<close>

record order_body =
  ob_buy :: bool
  ob_exchange :: string
  ob_symbol :: string
  ob_quantity :: string
  ob_price :: string
  ob_trade_type :: string

record cancel_body =
  cb_exchange :: string
  cb_original :: string
  cb_symbol :: string
  cb_quantity :: string

definition order_body_of :: "order_request \<Rightarrow> order_body" where
  "order_body_of req =
     \<lparr>ob_buy = (or_side req = Side_BUY), ob_exchange = to_exchange (or_market req), ob_symbol = or_symbol req,
      ob_quantity = int_repr (or_quantity req),
      ob_price = (case or_price req of None \<Rightarrow> [] | Some p \<Rightarrow> if p = 0 then [] else int_repr (py_int p)),
      ob_trade_type = (if or_type req = LIMIT then ''0'' else ''3'')\<rparr>"

definition accepted_answer :: "(string \<times> json) list \<Rightarrow> bool" where
  "accepted_answer data \<longleftrightarrow> return_code data = 0 \<and> truthy (jfield ''ord_no'' data)"

text \<open>\<open>OrderResult\<close> takes texts for the order number and the message; None is no number.\<close>

definition optional_text :: "json \<Rightarrow> string option res" where
  "optional_text v = (case v of JNull \<Rightarrow> Inr None | v \<Rightarrow> rbind (str_field v) (\<lambda>s. Inr (Some s)))"

definition kiwoom_refusal :: "string option \<Rightarrow> string \<Rightarrow> broker_order_result" where
  "kiwoom_refusal order_id text =
     \<lparr>ores_success = False, ores_order_id = order_id, ores_message = text, br_filled_quantity = 0, br_filled_price = 0\<rparr>"

definition kiwoom_execute ::
  "(order_body \<Rightarrow> (string \<times> json) list res) \<Rightarrow> order_request \<Rightarrow> broker_order_result res" where
  "kiwoom_execute send req =
     (if \<not> is_domestic_market (market_value (or_market req)) then Inr (kiwoom_refusal None foreign_error)
      else rbind (send (order_body_of req)) (\<lambda>data.
        rbind (optional_text (jfield ''ord_no'' data)) (\<lambda>order_id.
        rbind (str_field (jget_or ''return_msg'' (JStr (if accepted_answer data then ''order executed'' else ''order failed'')) data)) (\<lambda>text.
          Inr \<lparr>ores_success = accepted_answer data, ores_order_id = order_id, ores_message = text,
               br_filled_quantity = 0, br_filled_price = abs_float (jfield ''ord_uv'' data)\<rparr>))))"

definition kiwoom_cancel ::
  "(cancel_body \<Rightarrow> (string \<times> json) list res) \<Rightarrow> string \<Rightarrow> market \<Rightarrow> string \<Rightarrow> int \<Rightarrow> broker_order_result res" where
  "kiwoom_cancel send order_id m symbol quantity =
     (if \<not> is_domestic_market (market_value m) then Inr (kiwoom_refusal (Some order_id) foreign_error)
      else if symbol = [] then Inr (kiwoom_refusal (Some order_id) ''a cancellation needs the symbol'')
      else rbind (send \<lparr>cb_exchange = to_exchange m, cb_original = order_id, cb_symbol = symbol, cb_quantity = int_repr quantity\<rparr>) (\<lambda>data.
        rbind (str_field (jor (jfield ''ord_no'' data) (JStr order_id))) (\<lambda>new_id.
        rbind (str_field (jget_or ''return_msg'' (JStr (if accepted_answer data then ''order cancelled'' else ''cancellation failed'')) data)) (\<lambda>text.
          Inr \<lparr>ores_success = accepted_answer data, ores_order_id = Some new_id, ores_message = text,
               br_filled_quantity = 0, br_filled_price = 0\<rparr>))))"

section \<open>The adapter\<close>

record submitted_order =
  so_symbol :: string
  so_side :: order_side
  so_quantity :: int
  so_order_price :: real
  so_baseline_qty :: int

type_synonym submitted_orders = "string \<rightharpoonup> submitted_order"

definition get_holding :: "string \<Rightarrow> broker_holding list \<Rightarrow> broker_holding option" where
  "get_holding symbol hs =
     find (\<lambda>h. normalize_krx_symbol (hi_symbol h) = normalize_krx_symbol symbol) hs"

definition holding_quantity :: "string \<Rightarrow> broker_holding list \<Rightarrow> int" where
  "holding_quantity symbol hs = (case get_holding symbol hs of None \<Rightarrow> 0 | Some h \<Rightarrow> hi_quantity h)"

definition kiwoom_place_order ::
  "broker_holding list res \<Rightarrow> (order_body \<Rightarrow> (string \<times> json) list res) \<Rightarrow> order_request \<Rightarrow> submitted_orders \<Rightarrow>
     broker_order_result res \<times> submitted_orders" where
  "kiwoom_place_order holdings send req sub =
     (let symbol = normalize_krx_symbol (or_symbol req)
      in case holdings of
           Inl e \<Rightarrow> (Inl e, sub)
         | Inr hs \<Rightarrow>
             (case kiwoom_execute send (req\<lparr>or_symbol := symbol\<rparr>) of
                Inl e \<Rightarrow> (Inl e, sub)
              | Inr r \<Rightarrow>
                  (Inr r, if ores_success r \<and> ostr (ores_order_id r) \<noteq> []
                          then sub(ostr (ores_order_id r) \<mapsto>
                            \<lparr>so_symbol = symbol, so_side = or_side req, so_quantity = or_quantity req,
                             so_order_price = opt_or (or_price req) 0, so_baseline_qty = holding_quantity symbol hs\<rparr>)
                          else sub)))"

definition kiwoom_cancel_order ::
  "pending_order_info list res \<Rightarrow> (cancel_body \<Rightarrow> (string \<times> json) list res) \<Rightarrow> string \<Rightarrow> market \<Rightarrow> broker_order_result res" where
  "kiwoom_cancel_order pending send order_id m =
     rbind pending (\<lambda>os.
       case find (\<lambda>p. po_order_id p = order_id) os of
         None \<Rightarrow> Inr (kiwoom_refusal (Some order_id) ''no such open order'')
       | Some p \<Rightarrow> kiwoom_cancel send order_id m (normalize_krx_symbol (po_symbol p)) (po_remaining_qty p))"

text \<open>\<open>quote\<close> is the answer of \<open>get_current_price\<close>, asked when no price is given.\<close>

definition kiwoom_buying_power :: "real option \<Rightarrow> current_price res \<Rightarrow> account_balance res \<Rightarrow> buying_power res" where
  "kiwoom_buying_power price quote balance =
     rbind (if opt_or price 0 \<le> 0 then rbind quote (\<lambda>qu. Inr (cp_price qu)) else Inr (opt_or price 0)) (\<lambda>resolved.
     rbind balance (\<lambda>b.
       let available = max (bal_cash b) 0
       in Inr \<lparr>bp_success = (0 < resolved), bp_max_qty = (if 0 < resolved then \<lfloor>available / resolved\<rfloor> else 0),
               bp_available_cash = available\<rparr>))"

text \<open>The price of a fill the broker still lists: the price of the order, or the average of the holding,
  or the price the order was sent with.\<close>

definition listed_fill_price :: "submitted_order option \<Rightarrow> broker_holding option \<Rightarrow> pending_order_info \<Rightarrow> real" where
  "listed_fill_price submitted holding p =
     (let price = (if 0 < po_filled_qty p then po_order_price p else 0)
      in if 0 < price then price
         else case holding of
             Some h \<Rightarrow> if 0 < hi_avg_buy_price h then hi_avg_buy_price h
                        else (case submitted of Some so \<Rightarrow> if 0 < so_order_price so then so_order_price so else price | None \<Rightarrow> price)
           | None \<Rightarrow> (case submitted of Some so \<Rightarrow> if 0 < so_order_price so then so_order_price so else price | None \<Rightarrow> price))"

definition listed_status ::
  "broker_holding list res \<Rightarrow> submitted_orders \<Rightarrow> string \<Rightarrow> pending_order_info \<Rightarrow> order_status_info option res" where
  "listed_status holdings sub order_id p =
     rbind (if 0 < po_filled_qty p \<and> 0 < po_order_price p then Inr None
            else rbind holdings (\<lambda>hs. Inr (get_holding (po_symbol p) hs))) (\<lambda>holding.
       let price = listed_fill_price (sub order_id) holding p
       in Inr (Some \<lparr>os_order_id = po_order_id p, os_symbol = po_symbol p, os_filled_qty = Some (po_filled_qty p),
            os_filled_price = price, os_remaining_qty = po_remaining_qty p,
            os_order_price = (if 0 < price then price else po_order_price p)\<rparr>))"

text \<open>An order no longer listed: what the holding has changed by since the order was sent.\<close>

definition filled_since :: "submitted_order \<Rightarrow> int \<Rightarrow> int" where
  "filled_since so current =
     (if so_side so = Side_BUY then max (min (current - so_baseline_qty so) (so_quantity so)) 0
      else max (min (so_baseline_qty so - current) (so_quantity so)) 0)"

definition vanished_status :: "broker_holding list \<Rightarrow> string \<Rightarrow> submitted_order \<Rightarrow> order_status_info option" where
  "vanished_status hs order_id so =
     (let filled = filled_since so (holding_quantity (so_symbol so) hs);
          price = (if so_order_price so \<le> 0
                   then (case get_holding (so_symbol so) hs of None \<Rightarrow> so_order_price so | Some h \<Rightarrow> hi_avg_buy_price h)
                   else so_order_price so)
      in if filled \<le> 0 then None
         else Some \<lparr>os_order_id = order_id, os_symbol = so_symbol so, os_filled_qty = Some filled, os_filled_price = price,
                os_remaining_qty = max (so_quantity so - filled) 0, os_order_price = price\<rparr>)"

definition kiwoom_order_status ::
  "pending_order_info list res \<Rightarrow> broker_holding list res \<Rightarrow> submitted_orders \<Rightarrow> string \<Rightarrow> order_status_info option res" where
  "kiwoom_order_status pending holdings sub order_id =
     rbind pending (\<lambda>os.
       case find (\<lambda>p. po_order_id p = order_id) os of
         Some p \<Rightarrow> listed_status holdings sub order_id p
       | None \<Rightarrow>
           (case sub order_id of
              None \<Rightarrow> Inr None
            | Some so \<Rightarrow> rbind holdings (\<lambda>hs. Inr (vanished_status hs order_id so))))"

section \<open>Lemmas\<close>

lemma abs_float_nonneg [simp]: "0 \<le> abs_float v" by (simp add: abs_float_def)

lemma find_Some_mem: "find P xs = Some x \<Longrightarrow> x \<in> set xs \<and> P x"
  by (induction xs) (auto split: if_splits)

text \<open>The parts of the balance add up, and none is negative.\<close>

lemma balance_adds_up:
  "let b = balance_of_snapshot data
   in bal_total_asset b = bal_cash b + bal_stock_value b \<and> 0 \<le> bal_cash b \<and> 0 \<le> bal_stock_value b"
  by (auto simp: balance_of_snapshot_def Let_def)

text \<open>The retry ends with an answer that needs none, or with the last one allowed.\<close>

lemma snapshot_attempts_spec:
  "\<exists>k. n \<le> k \<and> k \<le> n + left \<and> snapshot_attempts answers n left = answers k \<and>
     (\<forall>j. n \<le> j \<longrightarrow> j < k \<longrightarrow> (\<exists>body. answers j = Inr body \<and> should_retry_account_snapshot body)) \<and>
     (k < n + left \<longrightarrow> (\<forall>body. answers k = Inr body \<longrightarrow> \<not> should_retry_account_snapshot body))"
proof (induction left arbitrary: n)
  case (Suc left)
  show ?case
  proof (cases "\<exists>body. answers n = Inr body \<and> should_retry_account_snapshot body")
    case True
    then obtain k where "Suc n \<le> k" "k \<le> Suc n + left" "snapshot_attempts answers (Suc n) left = answers k"
        "\<forall>j. Suc n \<le> j \<longrightarrow> j < k \<longrightarrow> (\<exists>body. answers j = Inr body \<and> should_retry_account_snapshot body)"
        "k < Suc n + left \<longrightarrow> (\<forall>body. answers k = Inr body \<longrightarrow> \<not> should_retry_account_snapshot body)"
      using Suc.IH [of "Suc n"] by blast
    with True show ?thesis by (intro exI [of _ k]) (auto simp: not_less_eq_eq [symmetric] le_less_Suc_eq Suc_le_eq
        dest: le_neq_implies_less)
  next
    case False
    then show ?thesis by (intro exI [of _ n]) (auto simp: rbind_def split: sum.splits)
  qed
qed auto

text \<open>Within a second of a stored answer both the balance and the holdings come from it.\<close>

lemma balance_and_holdings_agree:
  assumes "ka_snapshot c = Some (body, since)" and "aq_first q - since \<le> snapshot_ttl"
  shows "kiwoom_account_snapshot q c = (Inr body, c)"
  using assms by (simp add: kiwoom_account_snapshot_def cached_account_snapshot_def)

text \<open>What can be bought costs no more than the cash.\<close>

lemma buying_power_affordable:
  "kiwoom_buying_power (Some price) quote balance = Inr bp \<Longrightarrow> 0 < price \<Longrightarrow>
     of_int (bp_max_qty bp) * price \<le> bp_available_cash bp"
  by (auto simp: kiwoom_buying_power_def rbind_eq_Inr Let_def num_or_def)
     (metis floor_divide_lower)

text \<open>Candles of a chart the client has normalised: every row gives one, no price is negative.\<close>

lemma chart_row_candle:
  assumes "chart_row tk v = Inr row" and "tk \<notin> {''open'', ''high'', ''low'', ''close'', ''volume''}"
  shows "\<exists>c. candle_of_row tk row = Inr c \<and> 0 \<le> cd_open c \<and> 0 \<le> cd_high c \<and> 0 \<le> cd_low c \<and> 0 \<le> cd_close c"
  using assms by (auto simp: chart_row_def rbind_eq_Inr candle_of_row_def as_dict_def jfield_def jget_or_def jget_def
      split: json.splits)

lemma chart_answer_candles:
  assumes "chart_answer m n tk answer failure = Inr r" and "mr_success r"
    and "tk \<notin> {''open'', ''high'', ''low'', ''close'', ''volume'', ''prices''}"
  shows "\<exists>cs. adapter_candles tk r = Inr cs \<and> (\<forall>c\<in>set cs. 0 \<le> cd_low c \<and> 0 \<le> cd_close c)"
proof -
  from assms(1,2) obtain data rows where r: "r = api_ok (data @ [(''prices'', JList rows)])"
      and rows: "normalize_chart_rows data n tk = Inr rows"
    by (auto simp: chart_answer_def rbind_eq_Inr failed_answer_def api_error_def split: if_splits)
  then obtain vs where "rmap (chart_row tk) vs = Inr rows" by (auto simp: normalize_chart_rows_def Let_def)
  then have "list_all2 (\<lambda>v row. chart_row tk v = Inr row) vs rows" by (simp add: rmap_eq_Inr)
  then have "\<exists>cs. rmap (candle_of_row tk) rows = Inr cs \<and> (\<forall>c\<in>set cs. 0 \<le> cd_low c \<and> 0 \<le> cd_close c)"
  proof (induction rule: list_all2_induct)
    case (Cons v vs row rows)
    then obtain cs where "rmap (candle_of_row tk) rows = Inr cs" "\<forall>c\<in>set cs. 0 \<le> cd_low c \<and> 0 \<le> cd_close c" by blast
    moreover obtain c where "candle_of_row tk row = Inr c" "0 \<le> cd_low c" "0 \<le> cd_close c"
      using chart_row_candle [OF Cons.hyps(1)] assms(3) by auto
    ultimately show ?case by simp
  qed simp
  then show ?thesis
    by (simp add: r adapter_candles_def ensure_api_success_def api_ok_def normalize_candles_def rows_of_def
        jget_or_def jget_append) (simp add: jget_def)
qed

lemma execute_accepted:
  "kiwoom_execute send req = Inr r \<Longrightarrow> ores_success r \<Longrightarrow>
     is_domestic_market (market_value (or_market req)) \<and>
     (\<exists>data. send (order_body_of req) = Inr data \<and> accepted_answer data \<and> optional_text (jfield ''ord_no'' data) = Inr (ores_order_id r))"
  by (auto simp: kiwoom_execute_def kiwoom_refusal_def rbind_eq_Inr split: if_splits)

lemma place_order_records:
  assumes "kiwoom_place_order (Inr hs) send req sub = (Inr r, sub')" and "ores_success r" and "ostr (ores_order_id r) = oid" and "oid \<noteq> []"
  shows "sub' = sub(oid \<mapsto> \<lparr>so_symbol = normalize_krx_symbol (or_symbol req), so_side = or_side req,
     so_quantity = or_quantity req, so_order_price = opt_or (or_price req) 0,
     so_baseline_qty = holding_quantity (or_symbol req) hs\<rparr>)"
  using assms by (auto simp: kiwoom_place_order_def Let_def holding_quantity_def get_holding_def split: sum.splits)

lemma listed_status_shape:
  "listed_status holdings sub oid q = Inr (Some st) \<Longrightarrow> os_order_id st = po_order_id q \<and> os_filled_qty st \<noteq> None"
  by (clarsimp simp only: listed_status_def Let_def rbind_eq_Inr sum.inject option.inject) simp

lemma vanished_status_shape:
  "vanished_status hs oid so = Some st \<Longrightarrow> os_order_id st = oid \<and> os_filled_qty st \<noteq> None"
  by (clarsimp simp: vanished_status_def Let_def split: if_splits)

interpretation kw: status_source "kiwoom_order_status pending holdings sub" for pending holdings sub
proof
  fix oid st
  assume "kiwoom_order_status pending holdings sub oid = Inr (Some st)"
  then have "os_order_id st = oid \<and> os_filled_qty st \<noteq> None"
    by (auto simp: kiwoom_order_status_def rbind_eq_Inr split: option.splits
        dest!: listed_status_shape vanished_status_shape dest: find_Some_mem)
  then show "os_order_id st = oid" "os_filled_qty st \<noteq> None" by simp_all
qed

section \<open>Properties\<close>

text \<open>
  C19: An order that passed the validator reaches the broker as it was asked: the symbol, the side and
  the quantity can be read back from what is sent, a market order carries no price, and the price of a
  limit order is cut to a whole one, never above the limit.
\<close>

theorem order_body_carries_request:
  assumes "validate_order_request req = Inr ok"
  shows "let b = order_body_of ok
    in ob_symbol b = or_symbol req \<and> ob_buy b = (or_side req = Side_BUY) \<and>
       int_of_text (ob_quantity b) = Some (or_quantity req) \<and> 0 < or_quantity req \<and>
       (if or_type req = MARKET then ob_trade_type b = ''3'' \<and> ob_price b = []
        else ob_trade_type b = ''0'' \<and>
          (case or_price req of None \<Rightarrow> False
           | Some p \<Rightarrow> int_of_text (ob_price b) = Some \<lfloor>p\<rfloor> \<and> of_int \<lfloor>p\<rfloor> \<le> p \<and> p < of_int \<lfloor>p\<rfloor> + 1))"
proof -
  have "0 < or_quantity req" using assms by (auto simp: validate_order_request_def split: if_splits)
  show ?thesis
  proof (cases "or_type req")
    case MARKET
    with assms have "ok = req\<lparr>or_price := None\<rparr>" by (simp add: validate_order_request_def split: if_splits)
    with MARKET \<open>0 < or_quantity req\<close> show ?thesis by (simp add: order_body_of_def Let_def)
  next
    case LIMIT
    then obtain p where "or_price req = Some p" "0 < p"
      using assms by (cases "or_price req") (simp_all add: validate_order_request_def split: if_splits)
    moreover from this LIMIT have "ok = req"
      using assms by (simp add: validate_order_request_def split: if_splits)
    ultimately have p: "or_price req = Some p" "0 < p" "ok = req" by simp_all
    then have "py_int p = \<lfloor>p\<rfloor>" by (simp add: py_int_nonneg)
    with LIMIT p \<open>0 < or_quantity req\<close> show ?thesis
      by (simp add: order_body_of_def Let_def)
  qed
qed

lemma order_body_carries_request_witness:
  "int_of_text (ob_price (order_body_of \<lparr>or_symbol = ''005930'', or_market = KRX, or_side = Side_BUY, or_type = LIMIT,
     or_session = REGULAR, or_quantity = 3, or_price = Some (141 / 2)\<rparr>)) = Some 70"
  using order_body_carries_request [of "\<lparr>or_symbol = ''005930'', or_market = KRX, or_side = Side_BUY, or_type = LIMIT,
     or_session = REGULAR, or_quantity = 3, or_price = Some (141 / 2)\<rparr>" "\<lparr>or_symbol = ''005930'', or_market = KRX, or_side = Side_BUY, or_type = LIMIT,
     or_session = REGULAR, or_quantity = 3, or_price = Some (141 / 2)\<rparr>"]
  by (simp add: validate_order_request_def Let_def)

text \<open>
  An order the broker no longer lists is taken for filled by what the holding has grown since it was
  sent: alone on its symbol its fill \<open>f\<close> is reported exactly; a fill \<open>g\<close> of other buys of the symbol is
  reported as its own, up to the ordered quantity, and the decision maker confirms the order on it - a
  buy that was cancelled unfilled counts as filled.
\<close>

lemma vanished_buy_takes_other_fills:
  assumes "find (\<lambda>p. po_order_id p = oid) os = None" and "sub oid = Some so" and "so_side so = Side_BUY"
    and "0 < so_quantity so" and "0 \<le> f" and "f \<le> so_quantity so" and "0 \<le> g"
    and "holding_quantity (so_symbol so) hs = so_baseline_qty so + f + g"
    and "env_status env = kiwoom_order_status (Inr os) (Inr hs) sub" and "ct_order_id t = oid"
  shows "map_sum id (map_option os_filled_qty) (kiwoom_order_status (Inr os) (Inr hs) sub oid) =
      Inr (if f + g = 0 then None else Some (Some (min (f + g) (so_quantity so)))) \<and>
    (fill_seen env t \<longleftrightarrow> 0 < f + g)"
  using assms by (auto simp: kiwoom_order_status_def vanished_status_def filled_since_def fill_seen_def Let_def)

definition kw_holding :: "string \<Rightarrow> int \<Rightarrow> real \<Rightarrow> broker_holding" where
  "kw_holding symbol q avg = \<lparr>hi_symbol = symbol, hi_name = symbol, hi_quantity = q, hi_avg_buy_price = avg,
     hi_current_price = avg, bh_pnl = 0, bh_pnl_rate = 0\<rparr>"

definition sample_submitted :: "order_side \<Rightarrow> int \<Rightarrow> int \<Rightarrow> submitted_order" where
  "sample_submitted side q base = \<lparr>so_symbol = ''005930'', so_side = side, so_quantity = q, so_order_price = 0,
     so_baseline_qty = base\<rparr>"

lemma sample_symbol: "normalize_krx_symbol ''005930'' = ''005930''"
  by code_simp

lemma vanished_buy_takes_other_fills_witness:
  "map_sum id (map_option os_filled_qty) (kiwoom_order_status (Inr []) (Inr [kw_holding ''005930'' 10 5])
     [''A'' \<mapsto> sample_submitted Side_BUY 10 0] ''A'') = Inr (Some (Some 10))"
  using vanished_buy_takes_other_fills [of "''A''" "[]" "[''A'' \<mapsto> sample_submitted Side_BUY 10 0]" "sample_submitted Side_BUY 10 0" 0 10
      "[kw_holding ''005930'' 10 5]" "sample_env\<lparr>env_status := kiwoom_order_status (Inr []) (Inr [kw_holding ''005930'' 10 5])
         [''A'' \<mapsto> sample_submitted Side_BUY 10 0]\<rparr>" "\<lparr>ct_symbol = [], ct_side = ''BUY'', ct_order_id = ''A'', ct_quantity = 10,
      ct_expected_price = 0, ct_context = empty_context, ct_exit_reason = [], ct_pending_id = None, ct_callback = None\<rparr>"]
  by (simp add: sample_submitted_def kw_holding_def holding_quantity_def get_holding_def sample_symbol)

text \<open>
  A market sale that was filled in part is reported at the average purchase price of what is left,
  never at a price of the market, so that its profit comes out as nothing.
\<close>

lemma partial_market_sale_priced_at_cost:
  assumes "kiwoom_place_order (Inr hs) send req sub = (Inr r, sub')" and "ores_success r" and "ostr (ores_order_id r) = oid" and "oid \<noteq> []"
    and "or_side req = Side_SELL" and "or_price req = None"
    and "find (\<lambda>p. po_order_id p = oid) os = None" and "get_holding (or_symbol req) later = Some h"
    and "0 < holding_quantity (or_symbol req) hs - hi_quantity h"
    and "holding_quantity (or_symbol req) hs - hi_quantity h \<le> or_quantity req"
  shows "kiwoom_order_status (Inr os) (Inr later) sub' oid =
    Inr (Some \<lparr>os_order_id = oid, os_symbol = normalize_krx_symbol (or_symbol req),
      os_filled_qty = Some (holding_quantity (or_symbol req) hs - hi_quantity h), os_filled_price = hi_avg_buy_price h,
      os_remaining_qty = or_quantity req - (holding_quantity (or_symbol req) hs - hi_quantity h),
      os_order_price = hi_avg_buy_price h\<rparr>)"
proof -
  have "get_holding (normalize_krx_symbol (or_symbol req)) later = Some h"
    using assms(8) by (simp add: get_holding_def)
  then show ?thesis
    using assms(5-10)
    by (simp add: place_order_records [OF assms(1-4)] kiwoom_order_status_def vanished_status_def filled_since_def
        holding_quantity_def [of _ later] Let_def)
qed

definition sample_market_sale :: order_request where
  "sample_market_sale = \<lparr>or_symbol = ''005930'', or_market = KRX, or_side = Side_SELL, or_type = MARKET,
     or_session = REGULAR, or_quantity = 10, or_price = None\<rparr>"

definition sample_accept :: "order_body \<Rightarrow> (string \<times> json) list res" where
  "sample_accept b = Inr [(''ord_no'', JStr ''A''), (''return_msg'', JStr [])]"

lemma partial_market_sale_priced_at_cost_witness:
  "map_sum id (map_option os_filled_price) (kiwoom_order_status (Inr []) (Inr [kw_holding ''005930'' 4 5])
     (snd (kiwoom_place_order (Inr [kw_holding ''005930'' 10 5]) sample_accept sample_market_sale Map.empty)) ''A'') = Inr (Some 5)"
proof -
  have placed: "kiwoom_place_order (Inr [kw_holding ''005930'' 10 5]) sample_accept sample_market_sale Map.empty =
      (Inr \<lparr>ores_success = True, ores_order_id = Some ''A'', ores_message = [], br_filled_quantity = 0, br_filled_price = 0\<rparr>,
       [''A'' \<mapsto> sample_submitted Side_SELL 10 10])"
    by (simp add: kiwoom_place_order_def kiwoom_execute_def sample_accept_def sample_market_sale_def sample_symbol Let_def
        accepted_answer_def return_code_def py_int_def jfield_def jget_or_def jget_def truthy_def optional_text_def str_field_def
        is_domestic_market_def upper_def upper_char_def abs_float_def signed_float_def sample_submitted_def
        kw_holding_def holding_quantity_def get_holding_def)
  have "map_sum id (map_option os_filled_price) (kiwoom_order_status (Inr []) (Inr [kw_holding ''005930'' 4 5])
      [''A'' \<mapsto> sample_submitted Side_SELL 10 10] ''A'') = Inr (Some 5)"
    using partial_market_sale_priced_at_cost [OF placed, of "''A''" "[]" "[kw_holding ''005930'' 4 5]" "kw_holding ''005930'' 4 5"]
    by (simp add: sample_market_sale_def kw_holding_def holding_quantity_def get_holding_def sample_symbol)
  then show ?thesis by (simp only: placed snd_conv)
qed

end
