(* ===== verification/Kis_Client.thy ===== *)
theory Kis_Client
  imports Kiwoom_Rest Broker_Api Decision
begin

text \<open>
  The client of the KIS broker: the calls of its MCP server with the futures they wait on, the stream
  that answers them and is connected again when it breaks, and the recovery of orders whose answer was
  lost (\<open>trading/mcp_client.py\<close>).

  The texts of answers are read by \<open>loads\<close>, which stands for \<open>json.loads\<close>; what the server answers, how
  a connection ends and the clock are arguments. Error messages are rendered in English; the
  text the code tests stands as its UTF-8 bytes. An entry of the list of lost orders keeps the number of
  its call.
\<close>

section \<open>Address of the server\<close>

text \<open>\<open>s.rstrip(chars)\<close> takes away characters, not a suffix.\<close>

definition rstrip_chars :: "string \<Rightarrow> string \<Rightarrow> string" where
  "rstrip_chars chars s = rev (dropWhile (\<lambda>c. c \<in> set chars) (rev s))"

definition mcp_base_url :: "string \<Rightarrow> string" where
  "mcp_base_url url = rstrip_chars ''/'' (rstrip_chars ''/sse'' url)"

section \<open>State\<close>

type_synonym message = "(string \<times> json) list"

record mcp_client =
  mc_open :: bool
  mc_stream :: bool
  mc_session :: "string option"
  mc_next :: nat
  mc_pending :: "nat list"
  mc_results :: "nat \<rightharpoonup> message"
  mc_meta :: "nat \<rightharpoonup> message"
  mc_unconfirmed :: "(nat \<times> message) list"
  mc_stopping :: bool
  mc_stamps :: "real list"

definition new_mcp_client :: mcp_client where
  "new_mcp_client = \<lparr>mc_open = False, mc_stream = False, mc_session = None, mc_next = 1, mc_pending = [],
     mc_results = Map.empty, mc_meta = Map.empty, mc_unconfirmed = [], mc_stopping = False, mc_stamps = []\<rparr>"

definition stream_connected :: "mcp_client \<Rightarrow> bool" where
  "stream_connected st \<longleftrightarrow> mc_open st \<and> mc_session st \<noteq> None"

definition lost_message :: "string \<Rightarrow> message" where
  "lost_message reason = [(''error'', JObj [(''message'', JStr reason)])]"

text \<open>A future that is resolved leaves the table of the pending ones; its result waits to be read.\<close>

definition fail_all_pending :: "string \<Rightarrow> mcp_client \<Rightarrow> mcp_client" where
  "fail_all_pending reason st =
     (if mc_pending st = [] then st
      else st\<lparr>mc_unconfirmed := mc_unconfirmed st @
                map (\<lambda>i. (i, the (mc_meta st i))) (filter (\<lambda>i. mc_meta st i \<noteq> None) (mc_pending st)),
              mc_meta := (\<lambda>i. if i \<in> set (mc_pending st) then None else mc_meta st i),
              mc_results := (\<lambda>i. if i \<in> set (mc_pending st) then Some (lost_message reason) else mc_results st i),
              mc_pending := []\<rparr>)"

definition message_id :: "message \<Rightarrow> nat option" where
  "message_id msg =
     (case jget ''id'' msg of
        Some (JNum r) \<Rightarrow> if 0 \<le> r \<and> r = of_int \<lfloor>r\<rfloor> then Some (nat \<lfloor>r\<rfloor>) else None
      | _ \<Rightarrow> None)"

definition deliver :: "message \<Rightarrow> mcp_client \<Rightarrow> mcp_client" where
  "deliver msg st =
     (case message_id msg of
        Some i \<Rightarrow>
          if i \<in> set (mc_pending st)
          then st\<lparr>mc_pending := removeAll i (mc_pending st), mc_results := (mc_results st)(i \<mapsto> msg)\<rparr> else st
      | None \<Rightarrow> st)"

text \<open>An event of the stream: the address of the session, a message, or one that is ignored.\<close>

definition handle_sse_event :: "(string \<Rightarrow> json option) \<Rightarrow> string \<Rightarrow> string \<Rightarrow> mcp_client \<Rightarrow> mcp_client" where
  "handle_sse_event loads event_type data st =
     (if contains ''/messages'' data then st\<lparr>mc_session := Some data\<rparr>
      else if event_type = ''message'' then
        (case loads data of Some (JObj msg) \<Rightarrow> deliver msg st | _ \<Rightarrow> st)
      else st)"

definition begin_call :: "string \<Rightarrow> message \<Rightarrow> mcp_client \<Rightarrow> nat \<times> mcp_client" where
  "begin_call tool args st =
     (let i = mc_next st
      in (i, st\<lparr>mc_next := Suc i, mc_pending := mc_pending st @ [i],
             mc_meta := (if tool = ''order-stock'' then (mc_meta st)(i \<mapsto> args) else mc_meta st)\<rparr>))"

definition drop_future :: "nat \<Rightarrow> mcp_client \<Rightarrow> mcp_client" where
  "drop_future i st = st\<lparr>mc_pending := removeAll i (mc_pending st)\<rparr>"

definition drop_meta :: "nat \<Rightarrow> mcp_client \<Rightarrow> mcp_client" where
  "drop_meta i st = st\<lparr>mc_meta := (mc_meta st)(i := None)\<rparr>"

section \<open>The connection\<close>

text \<open>A connection gives a session or fails within its time; the handshake takes one number.\<close>

definition connect_client :: "string option \<Rightarrow> mcp_client \<Rightarrow> bool \<times> mcp_client" where
  "connect_client answer st =
     (let st1 = st\<lparr>mc_stopping := False, mc_open := True, mc_stream := True\<rparr>
      in case answer of
           None \<Rightarrow> (False, st1)
         | Some session \<Rightarrow> (True, st1\<lparr>mc_session := Some session, mc_next := Suc (mc_next st1)\<rparr>))"

definition disconnect :: "mcp_client \<Rightarrow> mcp_client" where
  "disconnect st =
     (fail_all_pending ''connection closed'' (st\<lparr>mc_stopping := True, mc_stream := False, mc_open := False\<rparr>))\<lparr>mc_session := None\<rparr>"

definition has_stale_state :: "mcp_client \<Rightarrow> bool" where
  "has_stale_state st \<longleftrightarrow> mc_open st \<or> mc_stream st"

definition ensure_connected :: "bool \<Rightarrow> string option \<Rightarrow> mcp_client \<Rightarrow> bool \<times> mcp_client" where
  "ensure_connected force answer st =
     (if stream_connected st \<and> \<not> force then (True, st)
      else
        let st1 = (if force \<or> has_stale_state st then disconnect st else st);
            (ok, st2) = connect_client answer st1
        in (ok \<and> stream_connected st2, st2))"

section \<open>The limiter\<close>

text \<open>A passage reads the clock, sleeps if the second is full, and stamps the time of a second reading,
  \<open>kp_lag\<close> after the sleep.\<close>

record kis_passage =
  kp_now :: real
  kp_lag :: real

definition kis_rate_cap :: nat where "kis_rate_cap = 8"

definition kis_rate_limit :: "kis_passage \<Rightarrow> real list \<Rightarrow> real \<times> real list" where
  "kis_rate_limit c ts =
     (let now = kp_now c; ts1 = filter (\<lambda>t. now - t < 1) ts; wait = 1 - (now - hd ts1) + 1 / 20;
          stamp = (if kis_rate_cap \<le> length ts1 \<and> 0 < wait then now + wait else now) + kp_lag c
      in (stamp, ts1 @ [stamp]))"

section \<open>A call\<close>

definition throttle_text :: string where
  "throttle_text = map char_of [236, 180, 136, 235, 139, 185, 32, 234, 177, 176, 235, 158, 152, 234, 177, 180, 236, 136, 152 :: nat]"

datatype call_outcome =
  Refused_post nat | Timed_out | Connect_failed | Post_failed string | Lost string | Answered message

text \<open>\<open>text[:n]\<close> of a text in UTF-8: the bytes that continue a character go with it.\<close>

definition continues :: "char \<Rightarrow> bool" where
  "continues c \<longleftrightarrow> 128 \<le> (of_char c :: nat) \<and> (of_char c :: nat) < 192"

fun take_points :: "nat \<Rightarrow> string \<Rightarrow> string" where
  "take_points n [] = []"
| "take_points n (c # cs) =
     (if continues c then c # take_points n cs else if n = 0 then [] else c # take_points (n - 1) cs)"

text \<open>What the code makes of the message a call gets.\<close>

datatype answer_kind = Fine message | Refused string | Unreadable | No_content | Broken

fun classify_items :: "(string \<Rightarrow> json option) \<Rightarrow> bool \<Rightarrow> json list \<Rightarrow> answer_kind" where
  "classify_items loads is_error [] = No_content"
| "classify_items loads is_error (v # vs) =
     (case v of
        JObj item \<Rightarrow>
          if jget ''type'' item = Some (JStr ''text'') then
            (case jget_or ''text'' (JStr []) item of
               JStr t \<Rightarrow>
                 if is_error then Refused (take_points 300 t)
                 else (case loads t of
                     None \<Rightarrow> Unreadable
                   | Some (JObj kvs) \<Rightarrow> if kvs = [] then No_content else Fine kvs
                   | Some w \<Rightarrow> if truthy w then Broken else No_content)
             | _ \<Rightarrow> Broken)
          else classify_items loads is_error vs
      | _ \<Rightarrow> Broken)"

definition classify_message :: "(string \<Rightarrow> json option) \<Rightarrow> message \<Rightarrow> answer_kind" where
  "classify_message loads msg =
     (case jget ''error'' msg of
        Some (JObj e) \<Rightarrow> (case jget_or ''message'' (JStr ''tool call failed'') e of JStr t \<Rightarrow> Refused t | _ \<Rightarrow> Broken)
      | Some _ \<Rightarrow> Broken
      | None \<Rightarrow>
          (case jget_or ''result'' (JObj []) msg of
             JObj res \<Rightarrow>
               (case rows_of (jget_or ''content'' (JList []) res) of
                  Inl _ \<Rightarrow> Broken
                | Inr items \<Rightarrow> classify_items loads (truthy (jget_or ''isError'' (JBool False) res)) items)
           | _ \<Rightarrow> Broken))"

text \<open>The end of a call: its response, or None when it is to be tried again; \<open>retry\<close> counts the repetitions.\<close>

definition settle_call ::
  "(string \<Rightarrow> json option) \<Rightarrow> nat \<Rightarrow> nat \<Rightarrow> message \<Rightarrow> mcp_client \<Rightarrow> api_response option \<times> mcp_client" where
  "settle_call loads retry i msg st =
     (case classify_message loads msg of
        Fine data \<Rightarrow> (Some (api_ok data), drop_meta i st)
      | Refused t \<Rightarrow> (if contains throttle_text t \<and> retry < 2 then None else Some (api_error t), st)
      | Unreadable \<Rightarrow> (Some (api_error ''unreadable answer''), drop_meta i st)
      | No_content \<Rightarrow> (Some (api_error ''empty answer''), st)
      | Broken \<Rightarrow> (Some (api_error ''malformed answer''), drop_meta i (drop_future i st)))"

definition read_result :: "nat \<Rightarrow> mcp_client \<Rightarrow> mcp_client" where
  "read_result i st = st\<lparr>mc_results := (mc_results st)(i := None)\<rparr>"

definition conclude_call ::
  "(string \<Rightarrow> json option) \<Rightarrow> nat \<Rightarrow> nat \<Rightarrow> call_outcome \<Rightarrow> mcp_client \<Rightarrow> api_response option \<times> mcp_client" where
  "conclude_call loads retry i outcome st =
     (case outcome of
        Refused_post code \<Rightarrow> (Some (api_error (''HTTP '' @ int_repr (int code))), drop_future i st)
      | Timed_out \<Rightarrow> (Some (api_error ''timeout''), drop_meta i (drop_future i st))
      | Connect_failed \<Rightarrow> (Some (api_error ''server unreachable''), drop_meta i (drop_future i st))
      | Post_failed e \<Rightarrow> (Some (api_error e), drop_meta i (drop_future i st))
      | Lost reason \<Rightarrow> settle_call loads retry i (lost_message reason) (read_result i (fail_all_pending reason st))
      | Answered msg \<Rightarrow> settle_call loads retry i msg (read_result i (deliver (msg @ [(''id'', JNum (real i))]) st)))"

record call_env =
  ce_connect :: "string option"
  ce_passage :: "nat \<Rightarrow> kis_passage"
  ce_outcome :: "nat \<Rightarrow> call_outcome"

function call_tool_inner ::
  "(string \<Rightarrow> json option) \<Rightarrow> string \<Rightarrow> message \<Rightarrow> call_env \<Rightarrow> nat \<Rightarrow> mcp_client \<Rightarrow> api_response \<times> mcp_client" where
  "call_tool_inner loads tool args env retry st =
     (let st1 = st\<lparr>mc_stamps := snd (kis_rate_limit (ce_passage env retry) (mc_stamps st))\<rparr>;
          (i, st2) = begin_call tool args st1
      in case conclude_call loads retry i (ce_outcome env retry) st2 of
           (Some r, st3) \<Rightarrow> (r, st3)
         | (None, st3) \<Rightarrow> if retry < 2 then call_tool_inner loads tool args env (Suc retry) st3 else (api_error [], st3))"
  by pat_completeness auto
termination by (relation "measure (\<lambda>(loads, tool, args, env, retry, st). 2 - retry)") auto

declare call_tool_inner.simps [simp del]

definition call_tool ::
  "(string \<Rightarrow> json option) \<Rightarrow> string \<Rightarrow> message \<Rightarrow> call_env \<Rightarrow> mcp_client \<Rightarrow> api_response \<times> mcp_client" where
  "call_tool loads tool args env st =
     (let had_partial = has_stale_state st
      in if stream_connected st then call_tool_inner loads tool args env 0 st
         else
           let (ok, st1) = ensure_connected had_partial (ce_connect env) st
           in if ok then call_tool_inner loads tool args env 0 st1
              else (api_error (if had_partial then ''no session'' else ''not connected''), st1))"

section \<open>The stream and its reconnections\<close>

text \<open>
  How a connection of the loop goes: it stands until it ends, it does not come about, or it ends because
  the client is shutting down. The loop is followed over the connections so far; it returns the sleeps,
  whether it has given up, and how often a recovery was started.
\<close>

datatype stream_turn = Stood string | Never_stood | Shut_down

definition reconnect_limit :: nat where "reconnect_limit = 50"
definition first_delay :: real where "first_delay = 2"
definition longest_delay :: real where "longest_delay = 30"

record sse_loop =
  sl_first :: bool
  sl_count :: nat
  sl_delay :: real
  sl_sleeps :: "real list"
  sl_over :: bool
  sl_recoveries :: nat

definition new_loop :: sse_loop where
  "new_loop = \<lparr>sl_first = True, sl_count = 0, sl_delay = first_delay, sl_sleeps = [], sl_over = False, sl_recoveries = 0\<rparr>"

text \<open>What follows a connection that broke or did not come about.\<close>

definition count_failure :: "sse_loop \<Rightarrow> sse_loop" where
  "count_failure l =
     (let n = Suc (sl_count l)
      in if reconnect_limit < n then l\<lparr>sl_count := n, sl_over := True\<rparr>
         else l\<lparr>sl_count := n, sl_sleeps := sl_sleeps l @ [sl_delay l],
                sl_delay := min (sl_delay l * (3 / 2)) longest_delay, sl_first := False\<rparr>)"

definition stream_lost :: "string \<Rightarrow> mcp_client \<Rightarrow> mcp_client" where
  "stream_lost reason st = (fail_all_pending reason st)\<lparr>mc_session := None\<rparr>"

definition loop_turn :: "stream_turn \<Rightarrow> sse_loop \<times> mcp_client \<Rightarrow> sse_loop \<times> mcp_client" where
  "loop_turn t s =
     (let (l, st) = s in
      if sl_over l then s
      else case t of
          Shut_down \<Rightarrow> (l\<lparr>sl_over := True\<rparr>, st)
        | Never_stood \<Rightarrow>
            (count_failure l, stream_lost (if sl_first l then ''connection lost'' else ''reconnection failed'') st)
        | Stood session \<Rightarrow>
            (let l1 = (if sl_first l then l
                       else l\<lparr>sl_count := 0, sl_delay := first_delay,
                              sl_recoveries := sl_recoveries l + (if mc_unconfirmed st = [] then 0 else 1)\<rparr>)
             in (count_failure l1, stream_lost ''connection lost'' (st\<lparr>mc_session := Some session\<rparr>))))"

definition sse_loop_run :: "stream_turn list \<Rightarrow> sse_loop \<times> mcp_client \<Rightarrow> sse_loop \<times> mcp_client" where
  "sse_loop_run ts s = fold loop_turn ts s"

section \<open>Recovery of lost orders\<close>

definition kis_float :: "json \<Rightarrow> real" where
  "kis_float v = (case py_float v of Inl _ \<Rightarrow> 0 | Inr r \<Rightarrow> r)"

definition kis_int :: "json \<Rightarrow> int" where
  "kis_int v = py_int (kis_float v)"

text \<open>The rows of an order list; iterating over null raises.\<close>

definition recovery_rows :: "message \<Rightarrow> json list option" where
  "recovery_rows data =
     (case jor (jor (jget_or ''output'' (JList []) data) (jget_or ''output1'' (JList []) data))
             (jget_or ''orders'' (JList []) data) of
        JObj kvs \<Rightarrow> Some [JObj kvs]
      | JList l \<Rightarrow> Some l
      | JStr _ \<Rightarrow> Some []
      | _ \<Rightarrow> None)"

definition row_of_symbol :: "string \<Rightarrow> json \<Rightarrow> bool" where
  "row_of_symbol symbol v =
     (case v of
        JObj row \<Rightarrow> jor (jget_or ''pdno'' (JStr []) row) (jget_or ''symbol'' (JStr []) row) = JStr symbol
      | _ \<Rightarrow> False)"

definition recovery_task :: "message \<Rightarrow> string \<Rightarrow> confirm_task" where
  "recovery_task args order_id =
     \<lparr>ct_symbol = text_of (jget_or ''symbol'' (JStr []) args),
      ct_side = (if jget ''order_type'' args = Some (JStr ''buy'') then ''BUY'' else ''SELL''),
      ct_order_id = order_id, ct_quantity = kis_int (jget_or ''quantity'' (JNum 0) args),
      ct_expected_price = kis_float (jget_or ''price'' (JNum 0) args), ct_context = empty_context, ct_exit_reason = [],
      ct_pending_id = None, ct_callback = None\<rparr>"

definition recovered_number :: "message \<Rightarrow> string" where
  "recovered_number row = text_of (jor (jor (jfield ''odno'' row) (jfield ''ODNO'' row)) (jor (jfield ''order_id'' row) (JStr [])))"

definition recovered_quantity :: "message \<Rightarrow> int" where
  "recovered_quantity row = kis_int (jor (jor (jfield ''tot_ccld_qty'' row) (jfield ''filled_quantity'' row)) (JNum 0))"

definition recover_order :: "dm_env \<Rightarrow> json list \<Rightarrow> message \<Rightarrow> dm_state \<Rightarrow> dm_state" where
  "recover_order env rows args dm =
     (let symbol = text_of (jget_or ''symbol'' (JStr []) args)
      in if symbol = [] then dm
         else case find (row_of_symbol symbol) rows of
             Some (JObj row) \<Rightarrow>
               if recovered_number row \<noteq> [] \<and> 0 < recovered_quantity row
               then confirm_and_record env (recovery_task args (recovered_number row)) dm else dm
           | _ \<Rightarrow> dm)"

definition recover_unconfirmed_orders ::
  "api_response \<Rightarrow> dm_env \<Rightarrow> mcp_client \<times> dm_state \<Rightarrow> mcp_client \<times> dm_state" where
  "recover_unconfirmed_orders resp env s =
     (let (st, dm) = s; orders = map snd (mc_unconfirmed st); st1 = st\<lparr>mc_unconfirmed := []\<rparr>
      in if orders = [] then (st1, dm)
         else if \<not> mr_success resp then (st1, dm)
         else case recovery_rows (mr_data resp) of
             None \<Rightarrow> (st1, dm)
           | Some rows \<Rightarrow> (st1, fold (recover_order env rows) orders dm))"

section \<open>The limiter keeps its contract\<close>

interpretation ks: rate_limiter "\<lambda>c ts. Some (kis_rate_limit c ts)" kp_now "\<lambda>c. 0 \<le> kp_lag c" kis_rate_cap
proof
  fix c :: kis_passage and ts g ts'
  assume c: "0 \<le> kp_lag c" "stamps_ok kis_rate_cap (kp_now c) ts"
  show "Some (kis_rate_limit c ts) \<noteq> None" by simp
  assume "Some (kis_rate_limit c ts) = Some (g, ts')"
  then have pair: "kis_rate_limit c ts = (g, ts')" by simp
  have recent: "filter (\<lambda>t. kp_now c - t < 1) ts = recent_stamps (kp_now c) ts"
    unfolding recent_stamps_def by (rule filter_cong) auto
  have "snd (kis_rate_limit c ts) = filter (\<lambda>t. kp_now c - t < 1) ts @ [fst (kis_rate_limit c ts)]"
    by (simp add: kis_rate_limit_def Let_def)
  then have ts': "ts' = recent_stamps (kp_now c) ts @ [g]" unfolding pair recent by simp
  have g: "g = fst (kis_rate_limit c ts)" by (simp add: pair)
  show now: "kp_now c \<le> g" using c(1) by (auto simp: g kis_rate_limit_def Let_def)
  then show "\<exists>P. ts' = filter P ts @ [g] \<and> (\<forall>x. g - 1 < x \<longrightarrow> P x)"
    by (intro exI [of _ "\<lambda>x. kp_now c - 1 < x"]) (auto simp: ts' recent_stamps_def)
  show "length (recent_stamps g ts) < kis_rate_cap"
  proof (cases "length (recent_stamps (kp_now c) ts) < kis_rate_cap")
    case True
    have "length (recent_stamps g ts) \<le> length (recent_stamps (kp_now c) ts)"
      by (metis recent_stamps_mono [OF now] length_filter_le recent_stamps_def)
    with True show ?thesis by simp
  next
    case False
    let ?w = "recent_stamps (kp_now c) ts"
    have len: "length ?w = kis_rate_cap" using False stamps_ok_window [OF c(2)] by (simp add: le_antisym)
    then obtain x xs where w: "?w = x # xs" by (cases ?w) (auto simp: kis_rate_cap_def)
    have "x \<le> g - 1" using c(1) len by (auto simp: g kis_rate_limit_def recent w Let_def split: if_splits)
    then have "length (recent_stamps g (x # xs)) \<le> length xs" by (simp add: recent_stamps_def)
    then show ?thesis using len w recent_stamps_mono [OF now, of ts] by simp
  qed
qed

section \<open>The loop of the stream\<close>

definition trailing_failures :: "stream_turn list \<Rightarrow> nat" where
  "trailing_failures ts = length (takeWhile (\<lambda>t. t = Never_stood) (rev ts))"

lemma trailing_snoc [simp]:
  "trailing_failures (ts @ [t]) = (if t = Never_stood then Suc (trailing_failures ts) else 0)"
  by (simp add: trailing_failures_def)

lemma loop_turn_count:
  assumes "\<not> sl_over l" and "sl_count l \<le> Suc n" and "sl_first l \<longrightarrow> sl_count l = 0" and "t \<noteq> Shut_down"
    and "t = Never_stood \<longrightarrow> Suc n < reconnect_limit"
  shows "let l' = fst (loop_turn t (l, st))
    in \<not> sl_over l' \<and> sl_count l' \<le> Suc (if t = Never_stood then Suc n else 0) \<and> (sl_first l' \<longrightarrow> sl_count l' = 0)"
  using assms by (cases t) (auto simp: loop_turn_def count_failure_def reconnect_limit_def Let_def)

lemma loop_state:
  assumes "Shut_down \<notin> set ts" and "\<And>n. n \<le> length ts \<Longrightarrow> trailing_failures (take n ts) < reconnect_limit"
  shows "let l = fst (sse_loop_run ts (new_loop, st))
    in \<not> sl_over l \<and> sl_count l \<le> Suc (trailing_failures ts) \<and> (sl_first l \<longrightarrow> sl_count l = 0)"
  using assms
proof (induction ts rule: rev_induct)
  case Nil
  then show ?case by (simp add: sse_loop_run_def new_loop_def trailing_failures_def)
next
  case (snoc t ts)
  obtain l st' where run: "sse_loop_run ts (new_loop, st) = (l, st')" by (cases "sse_loop_run ts (new_loop, st)")
  have "trailing_failures (take n ts) < reconnect_limit" if "n \<le> length ts" for n
    using snoc.prems(2) [of n] that by simp
  with snoc have IH: "\<not> sl_over l" "sl_count l \<le> Suc (trailing_failures ts)" "sl_first l \<longrightarrow> sl_count l = 0"
    by (simp_all add: run)
  have next_run: "sse_loop_run (ts @ [t]) (new_loop, st) = loop_turn t (l, st')" using run by (simp add: sse_loop_run_def)
  have small: "t = Never_stood \<longrightarrow> Suc (trailing_failures ts) < reconnect_limit"
    using snoc.prems(2) [of "length (ts @ [t])"] by (simp split: if_splits)
  have "t \<noteq> Shut_down" using snoc.prems(1) by auto
  from loop_turn_count [OF IH this small] show ?case unfolding next_run trailing_snoc .
qed

text \<open>The loop gives up only after fifty connections in a row that never stood.\<close>

lemma loop_keeps_trying:
  assumes "Shut_down \<notin> set ts" and "\<And>n. n \<le> length ts \<Longrightarrow> trailing_failures (take n ts) < reconnect_limit"
  shows "\<not> sl_over (fst (sse_loop_run ts (new_loop, st)))"
  using loop_state [OF assms] by (simp add: Let_def)

text \<open>It sleeps between two and thirty seconds, longer after every failure.\<close>

definition sleeps_ok :: "sse_loop \<Rightarrow> bool" where
  "sleeps_ok l \<longleftrightarrow> first_delay \<le> sl_delay l \<and> sl_delay l \<le> longest_delay \<and>
     (\<forall>x\<in>set (sl_sleeps l). first_delay \<le> x \<and> x \<le> longest_delay)"

lemma count_failure_sleeps: "sleeps_ok l \<Longrightarrow> sleeps_ok (count_failure l)"
  by (auto simp: sleeps_ok_def count_failure_def first_delay_def longest_delay_def Let_def)

lemma sleeps_ok_reset [simp]:
  "sleeps_ok l \<Longrightarrow> sleeps_ok (l\<lparr>sl_count := n, sl_delay := first_delay, sl_recoveries := r\<rparr>)"
  "sleeps_ok (l\<lparr>sl_over := b\<rparr>) = sleeps_ok l"
  by (simp_all add: sleeps_ok_def first_delay_def longest_delay_def)

lemma loop_turn_sleeps: "sleeps_ok (fst s) \<Longrightarrow> sleeps_ok (fst (loop_turn t s))"
  by (cases s; cases t) (simp_all add: loop_turn_def count_failure_sleeps Let_def)

lemma loop_sleeps_bounded:
  "\<forall>x\<in>set (sl_sleeps (fst (sse_loop_run ts (new_loop, st)))). first_delay \<le> x \<and> x \<le> longest_delay"
proof -
  have "sleeps_ok (fst s) \<Longrightarrow> sleeps_ok (fst (fold loop_turn ts s))" for s
    by (induction ts arbitrary: s) (simp_all add: loop_turn_sleeps)
  from this [of "(new_loop, st)"] show ?thesis
    by (simp add: sse_loop_run_def new_loop_def sleeps_ok_def first_delay_def longest_delay_def)
qed

section \<open>Calls in flight\<close>

text \<open>
  Any interleaving of calls, messages, losses of the stream, reconnections and recoveries. The second
  component of a state holds the calls that have not returned, each with whether it is an order.
\<close>

type_synonym flight = "mcp_client \<times> (nat \<times> bool) set"

inductive mcp_step :: "flight \<Rightarrow> flight \<Rightarrow> bool" where
  call: "mcp_step (st, W) (snd (begin_call tool args st), insert (mc_next st, tool = ''order-stock'') W)"
| receive: "mcp_step (st, W) (deliver msg st, W)"
| lose: "mcp_step (st, W) (stream_lost reason st, W)"
| close: "mcp_step (st, W) (disconnect st, W)"
| reconnect: "mcp_step (st, W) (snd (connect_client answer st), W)"
| read: "(i, k) \<in> W \<Longrightarrow> mc_results st i = Some msg \<Longrightarrow>
    mcp_step (st, W) (snd (settle_call loads retry i msg (read_result i st)), W - {(i, k)})"
| give_up: "(i, k) \<in> W \<Longrightarrow> i \<in> set (mc_pending st) \<Longrightarrow>
    outcome \<in> {Refused_post code, Timed_out, Connect_failed, Post_failed e} \<Longrightarrow>
    mcp_step (st, W) (snd (conclude_call loads retry i outcome st), W - {(i, k)})"
| recover: "mcp_step (st, W) (st\<lparr>mc_unconfirmed := []\<rparr>, W)"

inductive mcp_run :: "flight \<Rightarrow> bool" where
  idle: "mcp_run (new_mcp_client, {})"
| step: "mcp_run c \<Longrightarrow> mcp_step c c' \<Longrightarrow> mcp_run c'"

inductive_cases mcp_stepE: "mcp_step (st, W) c'"

text \<open>Every call in flight either waits or has its result; its number is its own.\<close>

definition calls_ok :: "flight \<Rightarrow> bool" where
  "calls_ok c \<longleftrightarrow>
     (let (st, W) = c in
      (\<forall>i \<in> fst ` W. i < mc_next st) \<and> inj_on fst W \<and>
      distinct (mc_pending st) \<and> fst ` W = set (mc_pending st) \<union> dom (mc_results st) \<and>
      set (mc_pending st) \<inter> dom (mc_results st) = {})"

text \<open>What is known of orders: a waiting order has its entry, a waiting call that is none has not, and the
  lost ones are kept once.\<close>

definition kept_orders_ok :: "flight \<Rightarrow> bool" where
  "kept_orders_ok c \<longleftrightarrow>
     (let (st, W) = c in
      (\<forall>i k. (i, k) \<in> W \<longrightarrow> i \<in> set (mc_pending st) \<longrightarrow> (mc_meta st i \<noteq> None \<longleftrightarrow> k)) \<and>
      (\<forall>i. mc_meta st i \<noteq> None \<longrightarrow> i < mc_next st) \<and>
      distinct (map fst (mc_unconfirmed st)) \<and>
      (\<forall>i \<in> fst ` set (mc_unconfirmed st). i < mc_next st \<and> i \<notin> set (mc_pending st)))"

lemma settle_frame:
  "mc_next (snd (settle_call loads retry i msg st)) = mc_next st"
  "mc_results (snd (settle_call loads retry i msg st)) = mc_results st"
  "mc_unconfirmed (snd (settle_call loads retry i msg st)) = mc_unconfirmed st"
  "i \<notin> set (mc_pending st) \<Longrightarrow> mc_pending (snd (settle_call loads retry i msg st)) = mc_pending st"
  "j \<noteq> i \<Longrightarrow> mc_meta (snd (settle_call loads retry i msg st)) j = mc_meta st j"
  "mc_meta (snd (settle_call loads retry i msg st)) j \<noteq> None \<Longrightarrow> mc_meta st j \<noteq> None"
  by (auto simp: settle_call_def drop_meta_def drop_future_def split: answer_kind.splits if_splits)

lemma give_up_frame:
  assumes "outcome \<in> {Refused_post code, Timed_out, Connect_failed, Post_failed e}"
  shows "mc_next (snd (conclude_call loads retry i outcome st)) = mc_next st"
    "mc_results (snd (conclude_call loads retry i outcome st)) = mc_results st"
    "mc_unconfirmed (snd (conclude_call loads retry i outcome st)) = mc_unconfirmed st"
    "mc_pending (snd (conclude_call loads retry i outcome st)) = removeAll i (mc_pending st)"
    "j \<noteq> i \<Longrightarrow> mc_meta (snd (conclude_call loads retry i outcome st)) j = mc_meta st j"
    "mc_meta (snd (conclude_call loads retry i outcome st)) j \<noteq> None \<Longrightarrow> mc_meta st j \<noteq> None"
  using assms by (auto simp: conclude_call_def drop_meta_def drop_future_def split: if_splits)

lemmas flight_defs = begin_call_def deliver_def stream_lost_def disconnect_def connect_client_def fail_all_pending_def Let_def

lemma fail_all_flight:
  "calls_ok (st, W) \<Longrightarrow> calls_ok (fail_all_pending reason st, W)"
  "kept_orders_ok (st, W) \<Longrightarrow> calls_ok (st, W) \<Longrightarrow> kept_orders_ok (fail_all_pending reason st, W)"
   apply (force simp: calls_ok_def fail_all_pending_def dom_def)
  apply (auto simp: kept_orders_ok_def calls_ok_def fail_all_pending_def comp_def distinct_map inj_on_def)
  done

lemma flight_frame [simp]:
  "calls_ok (st\<lparr>mc_session := x\<rparr>, W) = calls_ok (st, W)" "kept_orders_ok (st\<lparr>mc_session := x\<rparr>, W) = kept_orders_ok (st, W)"
  "calls_ok (st\<lparr>mc_stopping := a, mc_stream := b, mc_open := b'\<rparr>, W) = calls_ok (st, W)"
  "kept_orders_ok (st\<lparr>mc_stopping := a, mc_stream := b, mc_open := b'\<rparr>, W) = kept_orders_ok (st, W)"
  by (simp_all add: calls_ok_def kept_orders_ok_def)

lemma calls_ok_return:
  assumes ok: "calls_ok (st, W)" and i: "(i, k) \<in> W" and "mc_next st' = mc_next st"
    and "mc_pending st' = removeAll i (mc_pending st)" and "mc_results st' = (mc_results st)(i := None)"
  shows "calls_ok (st', W - {(i, k)})"
proof -
  have "inj_on fst W" using ok by (simp add: calls_ok_def)
  then have "fst ` (W - {(i, k)}) = fst ` W - {i}" and "inj_on fst (W - {(i, k)})"
    using i by (simp_all add: inj_on_image_set_diff inj_on_diff)
  then show ?thesis using ok assms(3-5) by (auto simp: calls_ok_def distinct_removeAll)
qed

lemma calls_ok_fresh:
  "calls_ok (st, W) \<Longrightarrow> mc_next st \<notin> fst ` W \<and> mc_next st \<notin> set (mc_pending st) \<and> mc_results st (mc_next st) = None"
proof -
  assume "calls_ok (st, W)"
  then have "\<forall>i \<in> fst ` W. i < mc_next st" and all: "fst ` W = set (mc_pending st) \<union> dom (mc_results st)"
    unfolding calls_ok_def Let_def prod.case by blast+
  then have "mc_next st \<notin> fst ` W" by blast
  with all show ?thesis by (simp add: domIff)
qed

lemma step_calls: "mcp_step c c' \<Longrightarrow> calls_ok c \<Longrightarrow> calls_ok c'"
proof (induction rule: mcp_step.induct)
  case (call st W tool args)
  with calls_ok_fresh [OF this] show ?case by (auto simp: calls_ok_def begin_call_def Let_def less_Suc_eq)
next
  case (receive st W msg)
  then show ?case by (auto simp: calls_ok_def deliver_def distinct_removeAll split: option.splits)
next
  case (lose st W reason)
  then show ?case by (simp add: stream_lost_def fail_all_flight)
next
  case (close st W)
  then show ?case by (simp add: disconnect_def fail_all_flight)
next
  case (reconnect st W answer)
  then show ?case by (force simp: calls_ok_def connect_client_def Let_def split: option.splits)
next
  case (read i k W st msg loads retry)
  then have "i \<notin> set (mc_pending st)" by (auto simp: calls_ok_def)
  with read show ?case by (intro calls_ok_return [OF read(3,1)]) (simp_all add: settle_frame(1,2,4) read_result_def)
next
  case (give_up i k W st outcome code e loads retry)
  then have "mc_results st i = None" by (auto simp: calls_ok_def)
  then show ?case
    by (intro calls_ok_return [OF give_up(4,1)]) (auto simp: give_up_frame(1,2,4) [OF give_up(3)])
next
  case (recover st W)
  then show ?case by (simp add: calls_ok_def)
qed

lemma step_orders: "mcp_step c c' \<Longrightarrow> calls_ok c \<Longrightarrow> kept_orders_ok c \<Longrightarrow> kept_orders_ok c'"
proof (induction rule: mcp_step.induct)
  case (call st W tool args)
  then have "mc_meta st (mc_next st) = None" by (auto simp: kept_orders_ok_def)
  with calls_ok_fresh [OF call.prems(1)] call.prems(2) show ?case
    unfolding kept_orders_ok_def prod.case Let_def begin_call_def snd_conv by (auto simp: less_Suc_eq image_iff)
next
  case (receive st W msg)
  then show ?case by (auto simp: kept_orders_ok_def deliver_def split: option.splits)
next
  case (lose st W reason)
  then show ?case by (simp add: stream_lost_def fail_all_flight)
next
  case (close st W)
  then show ?case by (simp add: disconnect_def fail_all_flight)
next
  case (reconnect st W answer)
  then show ?case by (force simp: kept_orders_ok_def connect_client_def Let_def split: option.splits)
next
  case (read i k W st msg loads retry)
  then have i: "i \<notin> set (mc_pending (read_result i st))" by (auto simp: calls_ok_def read_result_def)
  have meta: "mc_meta (snd (settle_call loads retry i msg (read_result i st))) j = mc_meta st j" if "j \<in> set (mc_pending st)" for j
    using settle_frame(5) [of j i loads retry msg "read_result i st"] i that by (auto simp: read_result_def)
  have less: "j < mc_next st" if "mc_meta (snd (settle_call loads retry i msg (read_result i st))) j \<noteq> None" for j
    using settle_frame(6) [OF that] read.prems(2) by (simp add: read_result_def kept_orders_ok_def)
  show ?case
    using read.prems(2) meta less i
    by (auto simp: kept_orders_ok_def settle_frame(1,3,4) read_result_def)
next
  case (give_up i k W st outcome code e loads retry)
  note frame = give_up_frame [OF give_up.hyps(3)]
  have less: "j < mc_next st" if "mc_meta (snd (conclude_call loads retry i outcome st)) j \<noteq> None" for j
    using frame(6) [OF that] give_up.prems(2) by (simp add: kept_orders_ok_def)
  show ?case
    using give_up.prems(2) less by (auto simp: kept_orders_ok_def frame(1,3,4,5))
next
  case (recover st W)
  then show ?case by (simp add: kept_orders_ok_def)
qed

lemma run_flight: "mcp_run c \<Longrightarrow> calls_ok c \<and> kept_orders_ok c"
proof (induction rule: mcp_run.induct)
  case idle
  then show ?case by (simp add: calls_ok_def kept_orders_ok_def new_mcp_client_def)
next
  case (step c c')
  then show ?case by (blast intro: step_calls step_orders)
qed

text \<open>A call whose future is gone never reaches the list again: its number is not used twice.\<close>

definition off_list :: "nat \<Rightarrow> mcp_client \<Rightarrow> bool" where
  "off_list i st \<longleftrightarrow> i < mc_next st \<and> i \<notin> set (mc_pending st) \<and> i \<notin> fst ` set (mc_unconfirmed st)"

lemma off_list_fail_all: "off_list i st \<Longrightarrow> off_list i (fail_all_pending reason st)"
  by (auto simp: off_list_def fail_all_pending_def)

lemma off_list_frame [simp]:
  "off_list i (st\<lparr>mc_session := x\<rparr>) = off_list i st"
  "off_list i (st\<lparr>mc_stopping := a, mc_stream := b, mc_open := b'\<rparr>) = off_list i st"
  by (simp_all add: off_list_def)

lemma give_up_off_list:
  assumes "outcome \<in> {Refused_post code, Timed_out, Connect_failed, Post_failed e}"
    and "i < mc_next st" and "i \<notin> fst ` set (mc_unconfirmed st)" and "i = j \<or> i \<notin> set (mc_pending st)"
  shows "off_list i (snd (conclude_call loads retry j outcome st))"
  using assms(2-4) by (auto simp: off_list_def give_up_frame(1,3,4) [OF assms(1)])

lemma waiting_off_list:
  assumes "mcp_run (st, W)" and "i \<in> set (mc_pending st)"
  shows "i < mc_next st \<and> i \<notin> fst ` set (mc_unconfirmed st)"
proof -
  have ok: "calls_ok (st, W)" "kept_orders_ok (st, W)" using run_flight [OF assms(1)] by simp_all
  have "i \<in> fst ` W" using ok(1) assms(2) by (simp add: calls_ok_def)
  moreover have "\<forall>w \<in> W. fst w < mc_next st" using ok(1) by (simp add: calls_ok_def)
  ultimately have "i < mc_next st" by blast
  moreover have "i \<notin> fst ` set (mc_unconfirmed st)" using ok(2) assms(2) by (auto simp: kept_orders_ok_def)
  ultimately show ?thesis ..
qed

lemma step_off_list: "mcp_step c c' \<Longrightarrow> off_list i (fst c) \<Longrightarrow> off_list i (fst c')"
proof (induction rule: mcp_step.induct)
  case (call st W tool args)
  then show ?case by (auto simp: off_list_def begin_call_def Let_def)
next
  case (receive st W msg)
  then show ?case by (auto simp: off_list_def deliver_def split: option.splits)
next
  case (lose st W reason)
  then show ?case by (simp add: stream_lost_def off_list_fail_all)
next
  case (close st W)
  then show ?case by (simp add: disconnect_def off_list_fail_all)
next
  case (reconnect st W answer)
  then show ?case by (auto simp: off_list_def connect_client_def Let_def split: option.splits)
next
  case (read j k W st msg loads retry)
  have "set (mc_pending (snd (settle_call loads retry j msg (read_result j st)))) \<subseteq> set (mc_pending st)"
    by (auto simp: settle_call_def drop_meta_def drop_future_def read_result_def split: answer_kind.splits)
  then show ?case using read.prems by (auto simp: off_list_def settle_frame(1,3) read_result_def)
next
  case (give_up j k W st outcome code e loads retry)
  then have "i < mc_next st" "i \<notin> fst ` set (mc_unconfirmed st)" "i \<notin> set (mc_pending st)" by (auto simp: off_list_def)
  then show ?case unfolding fst_conv by (intro give_up_off_list [OF give_up.hyps(3)] disjI2)
next
  case (recover st W)
  then show ?case by (simp add: off_list_def)
qed

lemma steps_off_list: "mcp_step\<^sup>*\<^sup>* c c' \<Longrightarrow> off_list i (fst c) \<Longrightarrow> off_list i (fst c')"
  by (induction rule: rtranclp_induct) (auto intro: step_off_list)

section \<open>Repetitions\<close>

definition throttle_refusal :: "(string \<Rightarrow> json option) \<Rightarrow> message \<Rightarrow> bool" where
  "throttle_refusal loads msg = (case classify_message loads msg of Refused t \<Rightarrow> contains throttle_text t | _ \<Rightarrow> False)"

definition throttled :: "(string \<Rightarrow> json option) \<Rightarrow> call_outcome \<Rightarrow> bool" where
  "throttled loads outcome =
     (case outcome of Answered msg \<Rightarrow> throttle_refusal loads msg | Lost reason \<Rightarrow> throttle_refusal loads (lost_message reason)
      | _ \<Rightarrow> False)"

lemma settle_again:
  "fst (settle_call loads retry i msg st) = None \<longleftrightarrow> throttle_refusal loads msg \<and> retry < 2"
  by (auto simp: settle_call_def throttle_refusal_def split: answer_kind.splits)

lemma conclude_again:
  "fst (conclude_call loads retry i outcome st) = None \<longleftrightarrow> throttled loads outcome \<and> retry < 2"
  by (cases outcome) (simp_all add: conclude_call_def throttled_def settle_again)

lemma conclude_next: "mc_next (snd (conclude_call loads retry i outcome st)) = mc_next st"
  by (cases outcome) (auto simp: conclude_call_def settle_frame(1) drop_future_def drop_meta_def read_result_def
      fail_all_pending_def deliver_def split: option.splits)

lemma call_tool_turn:
  obtains (returned) r st' where "call_tool_inner loads tool args env retry st = (r, st')" and "mc_next st' = Suc (mc_next st)"
    | (again) st' where "call_tool_inner loads tool args env retry st = call_tool_inner loads tool args env (Suc retry) st'"
      and "mc_next st' = Suc (mc_next st)" and "throttled loads (ce_outcome env retry)" and "retry < 2"
proof -
  let ?st1 = "st\<lparr>mc_stamps := snd (kis_rate_limit (ce_passage env retry) (mc_stamps st))\<rparr>"
  obtain i st2 where b: "begin_call tool args ?st1 = (i, st2)" by (cases "begin_call tool args ?st1")
  then have st2: "mc_next st2 = Suc (mc_next st)" by (auto simp: begin_call_def Let_def)
  obtain res st3 where c: "conclude_call loads retry i (ce_outcome env retry) st2 = (res, st3)"
    by (cases "conclude_call loads retry i (ce_outcome env retry) st2")
  then have st3: "mc_next st3 = Suc (mc_next st)" using conclude_next [of loads retry i "ce_outcome env retry" st2] st2 by simp
  note step = call_tool_inner.simps [of loads tool args env retry st]
  show thesis
  proof (cases res)
    case None
    then have "throttled loads (ce_outcome env retry)" "retry < 2"
      using conclude_again [of loads retry i "ce_outcome env retry" st2] c by simp_all
    with b c None st3 again [of st3] show thesis by (simp add: step)
  next
    case (Some r)
    with b c st3 returned [of r st3] show thesis by (simp add: step)
  qed
qed

lemma call_tool_repeats:
  "retry \<le> 2 \<Longrightarrow> \<exists>k. k \<le> 2 - retry \<and>
     mc_next (snd (call_tool_inner loads tool args env retry st)) = mc_next st + Suc k \<and>
     (\<forall>j<k. throttled loads (ce_outcome env (retry + j)))"
proof (induction "2 - retry" arbitrary: retry st)
  case 0
  show ?case
    using 0 by (cases rule: call_tool_turn [of loads tool args env retry st]) auto
next
  case (Suc n)
  show ?case
  proof (cases rule: call_tool_turn [of loads tool args env retry st])
    case (returned r st')
    then show ?thesis by (intro exI [of _ 0]) simp
  next
    case (again st')
    then have n: "n = 2 - Suc retry" "Suc retry \<le> 2" using Suc.hyps(2) by simp_all
    obtain k where k: "k \<le> 2 - Suc retry"
        "mc_next (snd (call_tool_inner loads tool args env (Suc retry) st')) = mc_next st' + Suc k"
        "\<forall>j<k. throttled loads (ce_outcome env (Suc retry + j))"
      using Suc.hyps(1) [OF n, of st'] by blast
    have "throttled loads (ce_outcome env (retry + j))" if "j < Suc k" for j
      using that k(3) again(3) by (cases j) auto
    moreover have "Suc k \<le> 2 - retry" using k(1) n(2) by simp
    moreover have "mc_next (snd (call_tool_inner loads tool args env retry st)) = mc_next st + Suc (Suc k)"
      using k(2) again(1,2) by simp
    ultimately show ?thesis by blast
  qed
qed

section \<open>Properties\<close>

text \<open>
  C22: When the stream breaks, in any interleaving of calls, answers and reconnections, every order call
  in flight without an answer is put on the list of unconfirmed orders, no call that is no order, none
  twice; and every call in flight has a result, so that none waits for ever.
\<close>

theorem lost_stream_keeps_orders:
  assumes "mcp_run (st, W)"
  shows "let st' = fail_all_pending reason st
    in fst ` set (mc_unconfirmed st') = fst ` set (mc_unconfirmed st) \<union> {i. (i, True) \<in> W \<and> mc_results st i = None} \<and>
       distinct (map fst (mc_unconfirmed st')) \<and> mc_pending st' = [] \<and> fst ` W = dom (mc_results st')"
proof -
  have calls: "calls_ok (st, W)" and kept: "kept_orders_ok (st, W)" using run_flight [OF assms] by simp_all
  let ?st = "fail_all_pending reason st"
  have ok: "calls_ok (?st, W)" "kept_orders_ok (?st, W)" using fail_all_flight calls kept by blast+
  have waiting: "set (mc_pending st) = {i \<in> fst ` W. mc_results st i = None}"
    using calls unfolding calls_ok_def Let_def prod.case by (auto simp: dom_def)
  have kept_iff: "i \<in> set (mc_pending st) \<and> mc_meta st i \<noteq> None \<longleftrightarrow> (i, True) \<in> W \<and> mc_results st i = None" for i
  proof
    assume i: "i \<in> set (mc_pending st) \<and> mc_meta st i \<noteq> None"
    then obtain k where "(i, k) \<in> W" "mc_results st i = None" using waiting by auto
    moreover from this i kept have "k" unfolding kept_orders_ok_def Let_def prod.case by blast
    ultimately show "(i, True) \<in> W \<and> mc_results st i = None" by simp
  next
    assume i: "(i, True) \<in> W \<and> mc_results st i = None"
    then have "i \<in> set (mc_pending st)" using waiting by (force simp: image_iff)
    with i kept show "i \<in> set (mc_pending st) \<and> mc_meta st i \<noteq> None" by (auto simp: kept_orders_ok_def)
  qed
  have "fst ` set (mc_unconfirmed ?st) =
      fst ` set (mc_unconfirmed st) \<union> {i. i \<in> set (mc_pending st) \<and> mc_meta st i \<noteq> None}"
    by (auto simp: fail_all_pending_def image_Un image_image)
  then have "fst ` set (mc_unconfirmed ?st) = fst ` set (mc_unconfirmed st) \<union> {i. (i, True) \<in> W \<and> mc_results st i = None}"
    by (simp only: kept_iff)
  moreover have "mc_pending ?st = []" by (simp add: fail_all_pending_def)
  moreover have "fst ` W = dom (mc_results ?st)" using ok(1) \<open>mc_pending ?st = []\<close> by (simp add: calls_ok_def)
  ultimately show ?thesis using ok(2) by (simp add: kept_orders_ok_def Let_def)
qed

definition sample_flight :: flight where
  "sample_flight = (snd (begin_call ''order-stock'' [] new_mcp_client), {(1, True)})"

lemma sample_flight_run: "mcp_run sample_flight"
  using mcp_run.step [OF mcp_run.idle mcp_step.call [of new_mcp_client "{}" "''order-stock''" "[]"]]
  by (simp add: sample_flight_def new_mcp_client_def)

lemma lost_stream_keeps_orders_witness:
  "fst ` set (mc_unconfirmed (fail_all_pending [] (fst sample_flight))) = {1}"
  using lost_stream_keeps_orders [of "fst sample_flight" "snd sample_flight" "[]"] sample_flight_run
  by (simp add: sample_flight_def begin_call_def new_mcp_client_def Let_def)

text \<open>
  C23: An order call that returns because its answer took longer than thirty seconds, or because its
  request failed, is forgotten: however the client goes on (other calls, answers, breaks of the stream,
  reconnections, recoveries), the order is never on the list of unconfirmed orders. An order that was on
  the list when a recovery began is forgotten in the same way, also when the query of the order list
  failed and the recovery booked nothing.
\<close>

theorem unanswered_orders_forgotten:
  assumes "mcp_run (st, W)" and "recover_unconfirmed_orders (api_error e) env (st, dm) = (st1, dm1)"
    and "i \<in> fst ` set (mc_unconfirmed st) \<and> c = (st1, W) \<or>
      (i, True) \<in> W \<and> i \<in> set (mc_pending st) \<and> outcome \<in> {Timed_out, Connect_failed, Post_failed err} \<and>
      c = (snd (conclude_call loads retry i outcome st), W - {(i, True)})"
    and "mcp_step\<^sup>*\<^sup>* c (st', W')"
  shows "dm1 = dm \<and> i \<notin> fst ` set (mc_unconfirmed st')"
proof -
  have kept: "kept_orders_ok (st, W)" using run_flight [OF assms(1)] by simp
  have st1: "st1 = st\<lparr>mc_unconfirmed := []\<rparr>" "dm1 = dm"
    using assms(2) by (auto simp: recover_unconfirmed_orders_def api_error_def Let_def split: if_splits)
  have "off_list i (fst c)" using assms(3)
  proof
    assume "i \<in> fst ` set (mc_unconfirmed st) \<and> c = (st1, W)"
    then show ?thesis using kept by (auto simp: off_list_def kept_orders_ok_def st1)
  next
    assume "(i, True) \<in> W \<and> i \<in> set (mc_pending st) \<and> outcome \<in> {Timed_out, Connect_failed, Post_failed err} \<and>
      c = (snd (conclude_call loads retry i outcome st), W - {(i, True)})"
    then show ?thesis using waiting_off_list [OF assms(1)] give_up_off_list [of outcome 0 err] by auto
  qed
  then show ?thesis using steps_off_list [OF assms(4)] by (simp add: st1 off_list_def)
qed

lemma unanswered_orders_forgotten_witness:
  "1 \<notin> fst ` set (mc_unconfirmed (stream_lost [] (snd (conclude_call (\<lambda>_. None) 0 1 Timed_out (fst sample_flight)))))"
proof -
  let ?c = "(snd (conclude_call (\<lambda>_. None) 0 1 Timed_out (fst sample_flight)), snd sample_flight - {(1, True)})"
  have "mcp_step\<^sup>*\<^sup>* ?c (stream_lost [] (fst ?c), snd ?c)"
    using mcp_step.lose [of "fst ?c" "snd ?c" "[]"] by simp
  then show ?thesis
    using unanswered_orders_forgotten [of "fst sample_flight" "snd sample_flight" "[]" sample_env fresh_dm
        "(fst sample_flight)\<lparr>mc_unconfirmed := []\<rparr>" fresh_dm 1 ?c Timed_out "[]" "\<lambda>_. None" 0] sample_flight_run
    by (simp add: sample_flight_def begin_call_def new_mcp_client_def recover_unconfirmed_orders_def Let_def)
qed

text \<open>
  C24: A call of a tool starts at most three calls of the server, and repeats itself only after an answer
  that refused it for the number of calls in the second: no order is repeated after any other answer,
  nor after none.
\<close>

theorem call_repeated_only_when_throttled:
  "\<exists>k \<le> 2. mc_next (snd (call_tool_inner loads tool args env 0 st)) = mc_next st + Suc k \<and>
     {j. j < k} \<subseteq> {j. throttled loads (ce_outcome env j)}"
  using call_tool_repeats [of 0 loads tool args env st] by fastforce

text \<open>The recovery takes the first order of the symbol, whatever its side, for the lost one.\<close>

lemma recovery_takes_first_order:
  assumes "mc_unconfirmed st = [(i, args)]" and "recovery_rows data = Some rows"
    and "text_of (jget_or ''symbol'' (JStr []) args) = symbol" and "symbol \<noteq> []"
    and "find (row_of_symbol symbol) rows = Some (JObj row)" and "recovered_number row \<noteq> []" and "0 < recovered_quantity row"
  shows "recover_unconfirmed_orders (api_ok data) env (st, dm) =
     (st\<lparr>mc_unconfirmed := []\<rparr>, confirm_and_record env (recovery_task args (recovered_number row)) dm)"
  using assms by (simp add: recover_unconfirmed_orders_def recover_order_def api_ok_def Let_def)

text \<open>The address of the server loses the last letters of a host that ends in \<open>s\<close> or \<open>e\<close>.\<close>

lemma base_url_cut: "mcp_base_url ''http://trade-service/sse'' = ''http://trade-servic''"
  by code_simp

text \<open>An answer that contains \<open>/messages\<close> is taken for the address of a session and reaches no call.\<close>

lemma answer_taken_for_session:
  "contains ''/messages'' data \<Longrightarrow> handle_sse_event loads ''message'' data st = st\<lparr>mc_session := Some data\<rparr>"
  by (simp add: handle_sse_event_def)

end
