(* ===== verification/Kis.thy ===== *)
theory Kis
  imports Kis_Client Settings_Model
begin

text \<open>
  The KIS broker above the client of its MCP server: the tools the client wraps
  (\<open>trading/mcp_client.py\<close>), the executor of orders (\<open>trading/order_executor.py\<close>), the direct queries with
  their access token (\<open>trading/kis_api.py\<close>), the adapter (\<open>trading/adapters/kis_adapter.py\<close>) and the choice
  of the broker (\<open>trading/broker_factory.py\<close>).

  A tool is a function from its name and arguments to a response, as \<open>call_tool\<close> gives it; the answer of a
  direct query is an argument. The file of the token holds the time of expiry itself.
\<close>

section \<open>Tools\<close>

type_synonym tools = "string \<Rightarrow> message \<Rightarrow> api_response"

definition kis_domestic :: "string \<Rightarrow> bool" where
  "kis_domestic m \<longleftrightarrow> m \<in> {''KOSPI'', ''KOSDAQ'', ''KRX''}"

text \<open>\<open>if resp.success and resp.data\<close>.\<close>

definition has_data :: "api_response \<Rightarrow> bool" where
  "has_data r \<longleftrightarrow> mr_success r \<and> mr_data r \<noteq> []"

definition num_chain :: "real list \<Rightarrow> real" where
  "num_chain rs = foldr num_or (butlast rs) (last rs)"

definition normalize_quote :: "message \<Rightarrow> message" where
  "normalize_quote d =
     (let price = num_chain [kis_float (jfield ''stck_prpr'' d), kis_float (jfield ''last'' d), kis_float (jfield ''price'' d)]
      in d @ [(''price'', JNum price), (''current_price'', JNum price), (''change'', JNum (kis_float (jfield ''prdy_vrss'' d))),
              (''change_rate'', JNum (kis_float (jfield ''prdy_ctrt'' d))), (''volume'', JNum (of_int (kis_int (jfield ''acml_vol'' d)))),
              (''per'', jget_or ''per'' (JStr ''N/A'') d), (''pbr'', jget_or ''pbr'' (JStr ''N/A'') d)])"

definition kis_current_price :: "tools \<Rightarrow> string \<Rightarrow> string \<Rightarrow> api_response" where
  "kis_current_price tool symbol m =
     (let resp = (if kis_domestic m then tool ''inquery-stock-price'' [(''symbol'', JStr symbol)]
                  else tool ''inquery-overseas-stock-price'' [(''symbol'', JStr symbol), (''exchange'', JStr m)])
      in if has_data resp then resp\<lparr>mr_data := normalize_quote (mr_data resp)\<rparr> else resp)"

definition daily_row :: "json \<Rightarrow> json res" where
  "daily_row v =
     rbind (as_dict v) (\<lambda>item. Inr (JObj
       [(''date'', jget_or ''stck_bsop_date'' (JStr []) item), (''open'', JNum (kis_float (jfield ''stck_oprc'' item))),
        (''high'', JNum (kis_float (jfield ''stck_hgpr'' item))), (''low'', JNum (kis_float (jfield ''stck_lwpr'' item))),
        (''close'', JNum (kis_float (jfield ''stck_clpr'' item))), (''volume'', JNum (of_int (kis_int (jfield ''acml_vol'' item)))),
        (''change'', JNum (kis_float (jfield ''prdy_vrss'' item))), (''change_rate'', JNum (kis_float (jfield ''prdy_ctrt'' item)))]))"

text \<open>The dates are texts of the calendar, an argument; a row that is no object raises.\<close>

definition kis_daily_price :: "tools \<Rightarrow> string \<Rightarrow> string \<Rightarrow> string \<Rightarrow> string \<Rightarrow> api_response res" where
  "kis_daily_price tool symbol m start_date end_date =
     (let resp = (if kis_domestic m
          then tool ''inquery-stock-info'' [(''symbol'', JStr symbol), (''start_date'', JStr start_date), (''end_date'', JStr end_date)]
          else tool ''inquery-overseas-stock-price'' [(''symbol'', JStr symbol), (''exchange'', JStr m)])
      in if has_data resp
         then (case jor (jor (jor (jfield ''output2'' (mr_data resp)) (jfield ''output'' (mr_data resp))) (jfield ''prices'' (mr_data resp))) (JList []) of
             JList (v # vs) \<Rightarrow> rbind (rmap daily_row (v # vs)) (\<lambda>rows. Inr (resp\<lparr>mr_data := mr_data resp @ [(''prices'', JList rows)]\<rparr>))
           | _ \<Rightarrow> Inr resp)
         else Inr resp)"

section \<open>Orders\<close>

record order_call =
  oc_tool :: string
  oc_args :: message

text \<open>\<open>int(price) if price else 0\<close> for a domestic order, \<open>price or 0\<close> else.\<close>

definition order_call_of :: "string \<Rightarrow> order_side \<Rightarrow> int \<Rightarrow> real option \<Rightarrow> string \<Rightarrow> order_call" where
  "order_call_of symbol side quantity price m =
     (let kind = JStr (if side = Side_BUY then ''buy'' else ''sell'') in
      if kis_domestic m
      then \<lparr>oc_tool = ''order-stock'', oc_args = [(''symbol'', JStr symbol), (''quantity'', JNum (of_int quantity)),
             (''price'', JNum (of_int (py_int (opt_or price 0)))), (''order_type'', kind)]\<rparr>
      else \<lparr>oc_tool = ''order-overseas-stock'', oc_args = [(''symbol'', JStr symbol), (''exchange'', JStr m),
             (''quantity'', JNum (of_int quantity)), (''price'', JNum (opt_or price 0)), (''order_type'', kind)]\<rparr>)"

definition output_of :: "message \<Rightarrow> message" where
  "output_of d = (case jfield ''output'' d of JObj kvs \<Rightarrow> kvs | _ \<Rightarrow> [])"

definition order_number :: "message \<Rightarrow> json" where
  "order_number d =
     (let out = output_of d
      in jor (jor (jor (jor (jfield ''ODNO'' d) (jfield ''odno'' d)) (jfield ''ODNO'' out)) (jfield ''odno'' out))
             (jget_or ''order_id'' (JStr []) d))"

definition normalize_order_answer :: "message \<Rightarrow> message" where
  "normalize_order_answer d =
     (let out = output_of d
      in d @ [(''order_id'', order_number d),
              (''filled_quantity'', JNum (of_int (kis_int (jor (jor (jfield ''exec_qty'' d) (jfield ''exec_qty'' out)) (jfield ''filled_quantity'' d))))),
              (''filled_price'', JNum (kis_float (jor (jor (jfield ''exec_prc'' d) (jfield ''exec_prc'' out)) (jfield ''filled_price'' d))))])"

definition judge_order_answer :: "api_response \<Rightarrow> api_response" where
  "judge_order_answer resp =
     (if \<not> has_data resp then resp
      else if jfield ''rt_cd'' (mr_data resp) = JStr ''1''
      then resp\<lparr>mr_success := False, ar_error := Some (text_of (jget_or ''msg1'' (JStr ''order failed'') (mr_data resp)))\<rparr>
      else resp\<lparr>mr_data := normalize_order_answer (mr_data resp)\<rparr>)"

definition mcp_place_order :: "tools \<Rightarrow> string \<Rightarrow> order_side \<Rightarrow> int \<Rightarrow> real option \<Rightarrow> string \<Rightarrow> api_response" where
  "mcp_place_order tool symbol side quantity price m =
     (let c = order_call_of symbol side quantity price m in judge_order_answer (tool (oc_tool c) (oc_args c)))"

definition refused_order :: "string \<Rightarrow> broker_order_result" where
  "refused_order text = \<lparr>ores_success = False, ores_order_id = None, ores_message = text, br_filled_quantity = 0, br_filled_price = 0\<rparr>"

definition optional_str :: "json \<Rightarrow> string option res" where
  "optional_str v = (case v of JNull \<Rightarrow> Inr None | w \<Rightarrow> rbind (str_field w) (\<lambda>s. Inr (Some s)))"

definition executor_execute :: "settings \<Rightarrow> tools \<Rightarrow> order_request \<Rightarrow> broker_order_result res" where
  "executor_execute cfg tool req =
     (if \<not> TRADING_ENABLED cfg then Inr (refused_order ''trading is disabled'')
      else
        let resp = mcp_place_order tool (or_symbol req) (or_side req) (or_quantity req) (or_price req) (market_value (or_market req))
        in if \<not> mr_success resp then Inr (refused_order (str_or (ostr (ar_error resp)) ''order failed''))
           else
             rbind (optional_str (jfield ''order_id'' (mr_data resp))) (\<lambda>order_id.
             rbind (py_int_of (jget_or ''filled_quantity'' (JNum 0) (mr_data resp))) (\<lambda>qty.
             rbind (py_float (jget_or ''filled_price'' (JNum 0) (mr_data resp))) (\<lambda>price.
               Inr \<lparr>ores_success = True, ores_order_id = order_id, ores_message = ''order executed'',
                    br_filled_quantity = qty, br_filled_price = price\<rparr>))))"

definition executor_cancel :: "tools \<Rightarrow> string \<Rightarrow> string \<Rightarrow> broker_order_result" where
  "executor_cancel tool order_id m =
     (let resp = tool (if kis_domestic m then ''cancel_domestic_order'' else ''cancel_overseas_order'') [(''order_id'', JStr order_id)]
      in if \<not> mr_success resp then refused_order (str_or (ostr (ar_error resp)) ''cancellation failed'')
         else \<lparr>ores_success = True, ores_order_id = None, ores_message = ''order cancelled'', br_filled_quantity = 0, br_filled_price = 0\<rparr>)"

section \<open>The status of an order\<close>

text \<open>\<open>_to_int\<close> and \<open>_to_float\<close> of the adapter: commas are dropped, what is no number counts as zero.\<close>

definition adapter_float :: "json \<Rightarrow> real" where
  "adapter_float v =
     (case v of
        JNum r \<Rightarrow> r
      | JStr s \<Rightarrow> (case float_of_text (filter (\<lambda>c. c \<noteq> CHR '','') s) of None \<Rightarrow> 0 | Some r \<Rightarrow> r)
      | _ \<Rightarrow> 0)"

definition adapter_int :: "json \<Rightarrow> int" where
  "adapter_int v = py_int (adapter_float v)"

text \<open>\<open>str(v)\<close> of a field; a number is taken for a whole one.\<close>

definition str_of_field :: "json \<Rightarrow> string" where
  "str_of_field v = (case v of JStr s \<Rightarrow> s | JNum r \<Rightarrow> int_repr \<lfloor>r\<rfloor> | _ \<Rightarrow> [])"

definition dicts_of :: "json list \<Rightarrow> message list" where
  "dicts_of vs = concat (map (\<lambda>v. case v of JObj kvs \<Rightarrow> [kvs] | _ \<Rightarrow> []) vs)"

definition extract_orders :: "message \<Rightarrow> message list" where
  "extract_orders data =
     (case jor (jor (jor (jfield ''output'' data) (jfield ''output1'' data)) (jfield ''orders'' data)) (JList []) of
        JObj kvs \<Rightarrow> [kvs] | JList l \<Rightarrow> dicts_of l | _ \<Rightarrow> [])"

definition listed_number :: "message \<Rightarrow> string" where
  "listed_number row = str_of_field (jor (jor (jor (jfield ''odno'' row) (jfield ''ODNO'' row)) (jfield ''order_id'' row)) (JStr []))"

definition status_of_row :: "message \<Rightarrow> order_status_info" where
  "status_of_row row =
     (let order_qty = adapter_int (jor (jfield ''ord_qty'' row) (jfield ''order_qty'' row));
          filled = adapter_int (jor (jor (jfield ''tot_ccld_qty'' row) (jfield ''filled_quantity'' row)) (jfield ''ccld_qty'' row));
          remaining = adapter_int (jor (jfield ''rmn_qty'' row) (JNum (of_int (order_qty - filled))));
          price = adapter_float (jor (jor (jor (jfield ''avg_prvs'' row) (jfield ''ccld_pric'' row)) (jfield ''filled_price'' row)) (jfield ''ord_unpr'' row))
      in \<lparr>os_order_id = listed_number row,
          os_symbol = str_of_field (jor (jor (jfield ''pdno'' row) (jfield ''symbol'' row)) (JStr [])),
          os_filled_qty = Some filled, os_filled_price = price, os_remaining_qty = max remaining 0,
          os_order_price = adapter_float (jor (jfield ''ord_unpr'' row) (jfield ''order_price'' row))\<rparr>)"

definition kis_order_status :: "api_response \<Rightarrow> string \<Rightarrow> order_status_info option" where
  "kis_order_status resp order_id =
     (if \<not> mr_success resp then None
      else map_option status_of_row (find (\<lambda>row. listed_number row = order_id) (extract_orders (mr_data resp))))"

interpretation kis: status_source "\<lambda>oid. Inr (kis_order_status resp oid)" for resp
proof
  fix oid os
  assume "Inr (kis_order_status resp oid) = (Inr (Some os) :: order_status_info option res)"
  then obtain row where row: "find (\<lambda>row. listed_number row = oid) (extract_orders (mr_data resp)) = Some row"
      and os: "os = status_of_row row"
    by (auto simp: kis_order_status_def split: if_splits)
  from row have "listed_number row = oid" by (auto simp: find_Some_iff)
  then show "os_order_id os = oid" "os_filled_qty os \<noteq> None" by (simp_all add: os status_of_row_def Let_def)
qed

section \<open>Keys and the access token\<close>

record kis_config =
  kf_account_type :: string
  kf_app_key :: string
  kf_app_secret :: string
  kf_paper_app_key :: string
  kf_paper_app_secret :: string
  kf_account :: string
  kf_paper_account :: string
  kf_product :: string

definition is_virtual :: "kis_config \<Rightarrow> bool" where
  "is_virtual cfg \<longleftrightarrow> upper (kf_account_type cfg) = ''VIRTUAL''"

definition get_app_key :: "kis_config \<Rightarrow> string" where
  "get_app_key cfg = (if is_virtual cfg then str_or (kf_paper_app_key cfg) (kf_app_key cfg) else kf_app_key cfg)"

definition get_app_secret :: "kis_config \<Rightarrow> string" where
  "get_app_secret cfg = (if is_virtual cfg then str_or (kf_paper_app_secret cfg) (kf_app_secret cfg) else kf_app_secret cfg)"

definition get_account :: "kis_config \<Rightarrow> string \<times> string" where
  "get_account cfg = (if is_virtual cfg then kf_paper_account cfg else kf_account cfg, kf_product cfg)"

definition get_trading_domain :: "kis_config \<Rightarrow> string" where
  "get_trading_domain cfg = (if is_virtual cfg then ''https://openapivts.koreainvestment.com:29443''
     else ''https://openapi.koreainvestment.com:9443'')"

text \<open>A token with its expiry, in memory and on disk; the requests for a new one are counted.\<close>

record token_store =
  ts_cached :: "(string \<times> int) option"
  ts_file :: "(string \<times> int) option"
  ts_issued :: nat

datatype issue_answer = Issued string | Issue_limit | Issue_failed py_exn

record token_env =
  te_first :: int
  te_locked :: "nat \<Rightarrow> int"
  te_file :: "nat \<Rightarrow> int"
  te_done :: "nat \<Rightarrow> int"
  te_issue :: "nat \<Rightarrow> string \<Rightarrow> string \<Rightarrow> issue_answer"

definition token_lifetime :: int where "token_lifetime = 23 * 3600 * 1000000"

definition valid_token :: "int \<Rightarrow> (string \<times> int) option \<Rightarrow> string option" where
  "valid_token now t =
     (case t of Some (tok, expires) \<Rightarrow> if tok \<noteq> [] \<and> now < expires then Some tok else None | None \<Rightarrow> None)"

text \<open>The token of the file is taken whatever it is.\<close>

definition file_token :: "int \<Rightarrow> (string \<times> int) option \<Rightarrow> (string \<times> int) option" where
  "file_token now t = (case t of Some (tok, expires) \<Rightarrow> if now < expires then Some (tok, expires) else None | None \<Rightarrow> None)"

fun token_attempts :: "kis_config \<Rightarrow> token_env \<Rightarrow> nat \<Rightarrow> nat \<Rightarrow> token_store \<Rightarrow> string res \<times> token_store" where
  "token_attempts cfg env n 0 st = (Inl (Exn RuntimeError ''no token after all attempts''), st)"
| "token_attempts cfg env n (Suc left) st =
     (case valid_token (te_locked env n) (ts_cached st) of
        Some tok \<Rightarrow> (Inr tok, st)
      | None \<Rightarrow>
          (case file_token (te_file env n) (ts_file st) of
             Some (tok, expires) \<Rightarrow> (Inr tok, st\<lparr>ts_cached := Some (tok, expires)\<rparr>)
           | None \<Rightarrow>
               (let st1 = st\<lparr>ts_issued := Suc (ts_issued st)\<rparr>
                in case te_issue env n (get_app_key cfg) (get_app_secret cfg) of
                     Issued tok \<Rightarrow>
                       (let t = Some (tok, te_done env n + token_lifetime) in (Inr tok, st1\<lparr>ts_cached := t, ts_file := t\<rparr>))
                   | Issue_failed e \<Rightarrow> (Inl e, st1)
                   | Issue_limit \<Rightarrow> token_attempts cfg env (Suc n) left st1)))"

definition kis_access_token :: "kis_config \<Rightarrow> token_env \<Rightarrow> token_store \<Rightarrow> string res \<times> token_store" where
  "kis_access_token cfg env st =
     (case valid_token (te_first env) (ts_cached st) of
        Some tok \<Rightarrow> (Inr tok, st)
      | None \<Rightarrow> token_attempts cfg env 0 2 st)"

text \<open>A token that is stored and valid is given out without a request, whatever the type of the account is.\<close>

lemma token_attempts_issued:
  "ts_issued (snd (token_attempts cfg env n left st)) \<le> ts_issued st + left"
  by (induction cfg env n left st rule: token_attempts.induct)
     (auto simp: Let_def split: option.splits issue_answer.splits prod.splits)

lemma token_requests_bounded: "ts_issued (snd (kis_access_token cfg env st)) \<le> ts_issued st + 2"
  using token_attempts_issued [of cfg env 0 2 st] by (simp add: kis_access_token_def split: option.split)

lemma stored_token_for_any_account:
  assumes "file_token (te_file env 0) (ts_file st) = Some (tok, expires)" and "ts_cached st = None"
  shows "kis_access_token cfg env st = (Inr tok, st\<lparr>ts_cached := Some (tok, expires)\<rparr>)"
  using assms by (simp add: kis_access_token_def valid_token_def numeral_2_eq_2)

section \<open>Direct queries\<close>

text \<open>The answers: a status other than 200, an exception, or a JSON value. A query that fails is an
  empty answer; its error text is left out.\<close>

definition failed_query :: "string \<Rightarrow> message" where
  "failed_query rows = [(''success'', JBool False), (rows, JList [])]"

definition body_of_answer :: "http_outcome \<Rightarrow> message option" where
  "body_of_answer r = (case r of Http_json (JObj kvs) \<Rightarrow> Some kvs | _ \<Rightarrow> None)"

definition rank_fields :: "(string \<times> string) list" where
  "rank_fields = [(''price'', ''stck_prpr''), (''current_price'', ''stck_prpr''), (''change'', ''prdy_vrss''),
     (''change_rate'', ''prdy_ctrt''), (''volume'', ''acml_vol''), (''trade_amount'', ''acml_tr_pbmn'')]"

definition kis_rank_row :: "(string \<times> string) list \<Rightarrow> json \<Rightarrow> json res" where
  "kis_rank_row extra v =
     rbind (as_dict v) (\<lambda>item. Inr (JObj
       ([(''symbol'', jget_or ''mksc_shrn_iscd'' (jget_or ''stck_shrn_iscd'' (JStr []) item) item),
         (''name'', jget_or ''hts_kor_isnm'' (JStr []) item)]
        @ map (\<lambda>(k, field). (k, jget_or field (JStr ''0'') item)) (rank_fields @ extra)
        @ [(''change_sign'', jget_or ''prdy_vrss_sign'' (JStr []) item)])))"

definition kis_rank :: "(string \<times> string) list \<Rightarrow> http_outcome \<Rightarrow> message" where
  "kis_rank extra answer =
     (case body_of_answer answer of
        None \<Rightarrow> failed_query ''stocks''
      | Some result \<Rightarrow>
          (case jget_or ''output'' (JList []) result of
             JList (v # vs) \<Rightarrow>
               (case rmap (kis_rank_row extra) (take 30 (v # vs)) of
                  Inl _ \<Rightarrow> failed_query ''stocks''
                | Inr rows \<Rightarrow> [(''success'', JBool True), (''stocks'', JList rows)])
           | _ \<Rightarrow> failed_query ''stocks''))"

definition kis_volume_rank :: "http_outcome \<Rightarrow> message" where
  "kis_volume_rank = kis_rank [(''prev_volume'', ''prdy_vol''), (''volume_increase_rate'', ''vol_inrt'')]"

definition kis_fluctuation_rank :: "http_outcome \<Rightarrow> message" where
  "kis_fluctuation_rank = kis_rank []"

definition minute_fields :: "(string \<times> string) list" where
  "minute_fields = [(''open'', ''stck_oprc''), (''high'', ''stck_hgpr''), (''low'', ''stck_lwpr''), (''close'', ''stck_prpr''),
     (''volume'', ''cntg_vol'')]"

definition minute_row :: "json \<Rightarrow> json res" where
  "minute_row v =
     rbind (as_dict v) (\<lambda>item. Inr (JObj ((''time'', jget_or ''stck_cntg_hour'' (JStr []) item)
        # map (\<lambda>(k, field). (k, jget_or field (JStr ''0'') item)) minute_fields)))"

definition kis_minute_chart :: "string \<Rightarrow> string \<Rightarrow> http_outcome \<Rightarrow> message" where
  "kis_minute_chart symbol period answer =
     (case body_of_answer answer of
        None \<Rightarrow> failed_query ''prices''
      | Some result \<Rightarrow>
          if jget ''output2'' result = None then failed_query ''prices''
          else
            (case rbind (rows_of (jfield ''output2'' result)) (rmap minute_row) of
               Inl _ \<Rightarrow> failed_query ''prices''
             | Inr rows \<Rightarrow> [(''success'', JBool True), (''symbol'', JStr symbol), (''period'', JStr period), (''prices'', JList rows)]))"

text \<open>The client wraps an answer: its \<open>success\<close> is the response's.\<close>

definition wrap_query :: "message \<Rightarrow> api_response" where
  "wrap_query result = \<lparr>mr_success = (jget ''success'' result = Some (JBool True)), mr_data = result, ar_error = None\<rparr>"

text \<open>What can be bought; the account, the key and the trading domain go into the request.\<close>

definition no_buying_power :: buying_power where
  "no_buying_power = \<lparr>bp_success = False, bp_max_qty = 0, bp_available_cash = 0\<rparr>"

definition parse_buying_power :: "message \<Rightarrow> buying_power res" where
  "parse_buying_power result =
     (if jget_or ''rt_cd'' (JStr ''1'') result \<noteq> JStr ''0'' then Inr no_buying_power
      else
        rbind (as_dict (jget_or ''output'' (JObj []) result)) (\<lambda>out.
        rbind (py_int_of (jget_or ''nrcvb_buy_qty'' (JStr ''0'') out)) (\<lambda>qty.
        rbind (py_int_of (jget_or ''ord_psbl_cash'' (JStr ''0'') out)) (\<lambda>cash.
          Inr \<lparr>bp_success = True, bp_max_qty = qty, bp_available_cash = of_int cash\<rparr>))))"

definition kis_buying_power :: "http_outcome \<Rightarrow> buying_power" where
  "kis_buying_power answer =
     (case body_of_answer answer of
        None \<Rightarrow> no_buying_power
      | Some result \<Rightarrow> (case parse_buying_power result of Inl _ \<Rightarrow> no_buying_power | Inr bp \<Rightarrow> bp))"

section \<open>The choice of the broker\<close>

definition broker_of :: "string \<Rightarrow> broker_provider res" where
  "broker_of setting =
     (if upper setting = ''KIS'' then Inr KIS else if upper setting = ''KIWOOM'' then Inr KIWOOM
      else Inl (enum_error (upper setting)))"

end
