(* ===== verification/Llm_Json.thy ===== *)
theory Llm_Json
  imports Json
begin

text \<open>
  Reading the JSON object out of an answer of a language model (\<open>core/json_utils.py\<close>): the block between
  fences, the text between the outer braces, and the repairs of common faults, each tried only when what
  comes before it gives no object.

  \<open>loads\<close> stands for \<open>json.loads\<close>. Spaces are the ASCII ones. A substitution by regular expression is a pass
  over the text with a rule that says what a match at a place is replaced by.
\<close>

section \<open>Finding the object\<close>

type_synonym json_object = "(string \<times> json) list"

definition try_parse :: "(string \<Rightarrow> json option) \<Rightarrow> string \<Rightarrow> json_object option" where
  "try_parse loads s = (case loads s of Some (JObj kvs) \<Rightarrow> Some kvs | _ \<Rightarrow> None)"

text \<open>The text before and after the first occurrence.\<close>

fun split_at :: "string \<Rightarrow> string \<Rightarrow> (string \<times> string) option" where
  "split_at needle [] = (if needle = [] then Some ([], []) else None)"
| "split_at needle (c # cs) =
     (if is_prefix needle (c # cs) then Some ([], drop (length needle) (c # cs))
      else map_option (\<lambda>(before, after). (c # before, after)) (split_at needle cs))"

definition fence :: string where "fence = ''```''"

definition code_block :: "string \<Rightarrow> string option" where
  "code_block s =
     (case split_at fence s of
        None \<Rightarrow> None
      | Some (_, rest) \<Rightarrow>
          let rest1 = (if is_prefix ''json'' rest then drop 4 rest else rest)
          in map_option (\<lambda>(body, _). strip body) (split_at fence (dropWhile is_space rest1)))"

definition braced :: "string \<Rightarrow> string option" where
  "braced s =
     (let t = rev (dropWhile (\<lambda>c. c \<noteq> CHR ''}'') (rev (dropWhile (\<lambda>c. c \<noteq> CHR ''{'') s)))
      in if t = [] then None else Some t)"

section \<open>Repairs\<close>

definition newline :: char where "newline = char_of (10 :: nat)"
definition carriage_return :: char where "carriage_return = char_of (13 :: nat)"
definition tab_char :: char where "tab_char = char_of (9 :: nat)"
definition quote_char :: char where "quote_char = char_of (34 :: nat)"
definition single_quote :: char where "single_quote = char_of (39 :: nat)"
definition backslash :: char where "backslash = char_of (92 :: nat)"

lemmas special_chars = newline_def carriage_return_def tab_char_def quote_char_def single_quote_def backslash_def

text \<open>The flags say whether a string is open and whether the next character is escaped.\<close>

fun escape_newlines :: "bool \<Rightarrow> bool \<Rightarrow> string \<Rightarrow> string" where
  "escape_newlines in_string escaped [] = []"
| "escape_newlines in_string escaped (c # cs) =
     (if escaped then c # escape_newlines in_string False cs
      else if c = backslash \<and> in_string then c # escape_newlines in_string True cs
      else if c = quote_char then c # escape_newlines (\<not> in_string) False cs
      else if in_string \<and> c = newline then [backslash, CHR ''n''] @ escape_newlines in_string False cs
      else if in_string \<and> c = carriage_return then [backslash, CHR ''r''] @ escape_newlines in_string False cs
      else if in_string \<and> c = tab_char then [backslash, CHR ''t''] @ escape_newlines in_string False cs
      else c # escape_newlines in_string False cs)"

definition escape_newlines_in_strings :: "string \<Rightarrow> string" where
  "escape_newlines_in_strings = escape_newlines False False"

text \<open>
  A rule sees the character before the place and the text from the place on; a match gives the replacement,
  the last character that was matched, and the text after it.
\<close>

type_synonym rewrite_rule = "char option \<Rightarrow> string \<Rightarrow> (string \<times> char \<times> string) option"

function substitute :: "rewrite_rule \<Rightarrow> char option \<Rightarrow> string \<Rightarrow> string" where
  "substitute rule before [] = []"
| "substitute rule before (c # cs) =
     (case rule before (c # cs) of
        None \<Rightarrow> c # substitute rule (Some c) cs
      | Some (out, lst, rest) \<Rightarrow>
          if length rest \<le> length cs then out @ substitute rule (Some lst) rest else c # substitute rule (Some c) cs)"
  by pat_completeness auto
termination by (relation "measure (\<lambda>(rule, before, s). length s)") auto

definition trailing_comma :: rewrite_rule where
  "trailing_comma before s =
     (case s of
        c # cs \<Rightarrow>
          (case dropWhile is_space cs of
             d # ds \<Rightarrow> if c = CHR '','' \<and> (d = CHR ''}'' \<or> d = CHR '']'') then Some ([d], d, ds) else None
           | [] \<Rightarrow> None)
      | [] \<Rightarrow> None)"

definition quote_before_colon :: rewrite_rule where
  "quote_before_colon before s =
     (case s of
        c # cs \<Rightarrow>
          (case dropWhile is_space cs of
             d # ds \<Rightarrow>
               if c = single_quote \<and> before \<noteq> Some backslash \<and> d = CHR '':'' then Some ([quote_char, CHR '':''], d, ds) else None
           | [] \<Rightarrow> None)
      | [] \<Rightarrow> None)"

definition quote_after_colon :: rewrite_rule where
  "quote_after_colon before s =
     (case s of
        c # cs \<Rightarrow>
          (case dropWhile is_space cs of
             d # ds \<Rightarrow>
               if c = CHR '':'' \<and> d = single_quote \<and> take 1 ds \<noteq> [backslash]
               then Some ([CHR '':'', CHR '' '', quote_char], d, ds) else None
           | [] \<Rightarrow> None)
      | [] \<Rightarrow> None)"

definition quote_before_end :: rewrite_rule where
  "quote_before_end before s =
     (case s of
        c # cs \<Rightarrow>
          (case dropWhile is_space cs of
             d # ds \<Rightarrow>
               if c = single_quote \<and> before \<noteq> Some backslash \<and> (d = CHR '','' \<or> d = CHR ''}'' \<or> d = CHR '']'')
               then Some ([quote_char, d], d, ds) else None
           | [] \<Rightarrow> None)
      | [] \<Rightarrow> None)"

definition quote_after_open :: rewrite_rule where
  "quote_after_open before s =
     (case s of
        c # cs \<Rightarrow>
          (case dropWhile is_space cs of
             d # ds \<Rightarrow>
               if (c = CHR ''{'' \<or> c = CHR ''['' \<or> c = CHR '','') \<and> d = single_quote
               then Some ([c, CHR '' '', quote_char], d, ds) else None
           | [] \<Rightarrow> None)
      | [] \<Rightarrow> None)"

definition control_char :: "char \<Rightarrow> bool" where
  "control_char c = (let n = (of_char c :: nat) in n \<le> 8 \<or> n = 11 \<or> n = 12 \<or> (14 \<le> n \<and> n \<le> 31))"

definition fix_common_errors :: "string \<Rightarrow> string" where
  "fix_common_errors text =
     (let s0 = escape_newlines_in_strings text;
          s1 = substitute trailing_comma None s0;
          s2 = substitute quote_before_colon None s1;
          s3 = substitute quote_after_colon None s2;
          s4 = substitute quote_before_end None s3;
          s5 = substitute quote_after_open None s4
      in filter (\<lambda>c. \<not> control_char c) s5)"

definition count_char :: "char \<Rightarrow> string \<Rightarrow> nat" where
  "count_char c s = length (filter (\<lambda>d. d = c) s)"

fun count_escaped_quotes :: "string \<Rightarrow> nat" where
  "count_escaped_quotes (c # d # cs) =
     (if c = backslash \<and> d = quote_char then Suc (count_escaped_quotes cs) else count_escaped_quotes (d # cs))"
| "count_escaped_quotes _ = 0"

text \<open>A text that was cut off: the open string and the open brackets are closed.\<close>

definition close_truncated :: "string \<Rightarrow> string" where
  "close_truncated s =
     (let s1 = (if odd (count_char quote_char s - count_escaped_quotes s) then s @ [quote_char] else s)
      in s1 @ replicate (count_char (CHR ''['') s1 - count_char (CHR '']'') s1) (CHR '']'')
            @ replicate (count_char (CHR ''{'') s1 - count_char (CHR ''}'') s1) (CHR ''}''))"

definition try_recover_truncated :: "(string \<Rightarrow> json option) \<Rightarrow> string \<Rightarrow> json_object option" where
  "try_recover_truncated loads s = try_parse loads (close_truncated (fix_common_errors s))"

section \<open>The answer\<close>

definition first_parsed :: "(string \<Rightarrow> json option) \<Rightarrow> string list \<Rightarrow> json_object" where
  "first_parsed loads texts =
     (case find (\<lambda>t. try_parse loads t \<noteq> None) texts of None \<Rightarrow> [] | Some t \<Rightarrow> the (try_parse loads t))"

text \<open>The texts in the order in which they are tried.\<close>

definition json_candidates :: "string \<Rightarrow> string list" where
  "json_candidates text =
     (if strip text = [] then []
      else
        (case code_block text of None \<Rightarrow> [] | Some b \<Rightarrow> [b, escape_newlines_in_strings b]) @
        (case braced text of
           None \<Rightarrow> []
         | Some b \<Rightarrow> [b, fix_common_errors b, close_truncated (fix_common_errors b)]))"

definition parse_llm_json :: "(string \<Rightarrow> json option) \<Rightarrow> string \<Rightarrow> json_object" where
  "parse_llm_json loads text = first_parsed loads (json_candidates text)"

section \<open>Lemmas\<close>

lemma special_distinct [simp]:
  "backslash \<noteq> quote_char" "quote_char \<noteq> backslash" "newline \<noteq> backslash" "carriage_return \<noteq> backslash" "tab_char \<noteq> backslash"
  "newline \<noteq> quote_char" "carriage_return \<noteq> quote_char" "tab_char \<noteq> quote_char" "backslash \<noteq> newline" "backslash \<noteq> carriage_return" "backslash \<noteq> tab_char"
  by (simp_all add: special_chars)

text \<open>What is escaped once stays as it is.\<close>

lemma escape_newlines_idem:
  "escape_newlines in_string escaped (escape_newlines in_string escaped s) = escape_newlines in_string escaped s"
  by (induction in_string escaped s rule: escape_newlines.induct) simp_all

lemma escape_idem [simp]: "escape_newlines_in_strings (escape_newlines_in_strings s) = escape_newlines_in_strings s"
  by (simp add: escape_newlines_in_strings_def escape_newlines_idem)

text \<open>A text without line breaks and tabs is not touched.\<close>

lemma escape_clean:
  "newline \<notin> set s \<Longrightarrow> carriage_return \<notin> set s \<Longrightarrow> tab_char \<notin> set s \<Longrightarrow> escape_newlines in_string escaped s = s"
  by (induction in_string escaped s rule: escape_newlines.induct) auto

lemma substitute_unmatched: "(\<And>b t. rule b t = None) \<Longrightarrow> substitute rule before s = s"
  by (induction rule before s rule: substitute.induct) auto

text \<open>The rules ask for a character of their own; a text that has none of them is left alone.\<close>

lemma substitute_without:
  assumes "\<And>b t. rule b t \<noteq> None \<Longrightarrow> c \<in> set t" and "c \<notin> set s"
  shows "substitute rule before s = s"
  using assms(2)
proof (induction s arbitrary: before)
  case (Cons d s)
  then have "rule before (d # s) = None" using assms(1) [of before "d # s"] by blast
  with Cons show ?case by simp
qed simp

lemma dropWhile_head: "dropWhile P xs = y # ys \<Longrightarrow> y \<in> set xs"
  by (metis list.set_intros(1) set_dropWhileD)

lemma rules_need_their_char:
  "quote_before_colon b t \<noteq> None \<Longrightarrow> single_quote \<in> set t"
  "quote_after_colon b t \<noteq> None \<Longrightarrow> single_quote \<in> set t"
  "quote_before_end b t \<noteq> None \<Longrightarrow> single_quote \<in> set t"
  "quote_after_open b t \<noteq> None \<Longrightarrow> single_quote \<in> set t"
  "trailing_comma b t \<noteq> None \<Longrightarrow> CHR '','' \<in> set t"
  by (auto simp: quote_before_colon_def quote_after_colon_def quote_before_end_def quote_after_open_def trailing_comma_def
      split: list.splits if_splits dest: dropWhile_head)

text \<open>The repairs leave a text alone that has no comma, no single quote and no control character.\<close>

lemma repairs_leave_clean_text:
  assumes "CHR '','' \<notin> set s" and "single_quote \<notin> set s" and "\<forall>c \<in> set s. \<not> control_char c"
    and "newline \<notin> set s" and "tab_char \<notin> set s" and "carriage_return \<notin> set s"
  shows "fix_common_errors s = s"
proof -
  have "escape_newlines_in_strings s = s" using assms(4-6) by (simp add: escape_newlines_in_strings_def escape_clean)
  moreover have "substitute trailing_comma None s = s" "substitute quote_before_colon None s = s"
      "substitute quote_after_colon None s = s" "substitute quote_before_end None s = s" "substitute quote_after_open None s = s"
    using substitute_without [of _ single_quote s None] substitute_without [of _ "CHR '',''" s None] assms(1,2)
    by (blast intro: rules_need_their_char)+
  ultimately show ?thesis using assms(3) by (simp add: fix_common_errors_def filter_id_conv)
qed

lemma count_char_append [simp]: "count_char c (s @ t) = count_char c s + count_char c t"
  by (simp add: count_char_def)

lemma count_char_replicate [simp]: "count_char c (replicate n d) = (if c = d then n else 0)"
  by (simp add: count_char_def)

lemma count_char_Nil [simp]: "count_char c [] = 0" and count_char_Cons [simp]: "count_char c (d # s) = (if d = c then 1 else 0) + count_char c s"
  by (simp_all add: count_char_def)

lemma close_truncated_closes:
  "count_char (CHR ''{'') (close_truncated s) \<le> count_char (CHR ''}'') (close_truncated s) \<and>
   count_char (CHR ''['') (close_truncated s) \<le> count_char (CHR '']'') (close_truncated s)"
proof -
  have le: "a \<le> b + (a - b)" for a b :: nat by simp
  have q: "quote_char \<noteq> CHR ''{''" "quote_char \<noteq> CHR ''}''" "quote_char \<noteq> CHR ''[''" "quote_char \<noteq> CHR '']''" by code_simp+
  show ?thesis by (cases "odd (count_char quote_char s - count_escaped_quotes s)")
    (simp_all only: close_truncated_def Let_def if_True if_False, simp_all add: q le)
qed

lemma split_at_None: "split_at needle s = None \<longleftrightarrow> \<not> contains needle s"
  by (induction needle s rule: split_at.induct) auto

lemma braced_object:
  assumes "CHR ''{'' \<notin> set before" and "CHR ''}'' \<notin> set after"
  shows "braced (before @ CHR ''{'' # body @ CHR ''}'' # after) = Some (CHR ''{'' # body @ [CHR ''}''])"
proof -
  have "dropWhile (\<lambda>c. c \<noteq> CHR ''{'') (before @ CHR ''{'' # body @ CHR ''}'' # after) = CHR ''{'' # body @ CHR ''}'' # after"
    using assms(1) by (subst dropWhile_append2) auto
  moreover have "dropWhile (\<lambda>c. c \<noteq> CHR ''}'') (rev (CHR ''{'' # body @ CHR ''}'' # after)) = CHR ''}'' # rev body @ [CHR ''{'']"
    using assms(2) by (simp, subst dropWhile_append2) auto
  ultimately show ?thesis by (simp add: braced_def Let_def)
qed

text \<open>A fenced text inside a string of a good answer is taken for the answer.\<close>

lemma fence_inside_string:
  assumes "loads ''{}'' = Some (JObj [])"
  shows "parse_llm_json loads (''{'' @ [quote_char] @ ''a'' @ [quote_char] @ '':'' @ [quote_char] @ ''```{}```'' @ [quote_char] @ ''}'') = []"
proof -
  have "code_block (''{'' @ [quote_char] @ ''a'' @ [quote_char] @ '':'' @ [quote_char] @ ''```{}```'' @ [quote_char] @ ''}'') = Some ''{}''"
    by code_simp
  moreover have "strip (''{'' @ [quote_char] @ ''a'' @ [quote_char] @ '':'' @ [quote_char] @ ''```{}```'' @ [quote_char] @ ''}'') \<noteq> []" by code_simp
  ultimately show ?thesis using assms
    by (simp add: parse_llm_json_def json_candidates_def first_parsed_def try_parse_def)
qed

section \<open>Properties\<close>

text \<open>
  A good object in an answer comes back unrepaired, whatever prose stands around it: without fences and
  without braces outside, the result is what the JSON parser says of the text between the outer braces.
\<close>

lemma good_object_returned:
  assumes "loads (CHR ''{'' # body @ [CHR ''}'']) = Some (JObj kvs)"
    and "CHR ''{'' \<notin> set before" and "CHR ''}'' \<notin> set after"
    and "\<not> contains fence (before @ CHR ''{'' # body @ CHR ''}'' # after)"
  shows "parse_llm_json loads (before @ CHR ''{'' # body @ CHR ''}'' # after) = kvs"
proof -
  let ?t = "before @ CHR ''{'' # body @ CHR ''}'' # after"
  have "strip ?t \<noteq> []"
  proof
    assume "strip ?t = []"
    then have "dropWhile is_space ?t = []"
      by (metis dropWhile_eq_Nil_conv hd_dropWhile hd_in_set list.set_sel(1) rev.simps(1) rev_is_Nil_conv set_rev strip_def)
    then have "is_space (CHR ''{'')" by (auto simp: dropWhile_eq_Nil_conv)
    then show False by (simp add: is_space_def)
  qed
  then show ?thesis using assms(1,4) braced_object [OF assms(2,3), of body]
    by (simp add: parse_llm_json_def json_candidates_def code_block_def split_at_None [THEN iffD2] first_parsed_def try_parse_def)
qed

lemma good_object_returned_witness:
  "parse_llm_json (\<lambda>s. if s = ''{1}'' then Some (JObj [(''a'', JNum 1)]) else None) ''so: {1} .'' = [(''a'', JNum 1)]"
  using good_object_returned [of "\<lambda>s. if s = ''{1}'' then Some (JObj [(''a'', JNum 1)]) else None" "''1''" _ "''so: ''" "'' .''"]
  by (simp add: fence_def)

end
