(* ===== verification/Llm_Router.thy ===== *)
theory Llm_Router
  imports Trading_Types Json Runtime_Settings
begin

text \<open>
  Which language model answers a request: the selection of providers and models from the settings
  (\<open>analysis/llm/selection_policy.py\<close>), the routing with repetition and fallback
  (\<open>analysis/llm/llm_factory.py\<close>), the failures and the cooldown of the Codex provider
  (\<open>analysis/llm/codex_provider.py\<close>), and the sessions of the Claude provider
  (\<open>analysis/llm/claude_code_provider.py\<close>).

  The processes behind the providers, the clock, and the settings at each turn are arguments. Log
  entries, usage figures and the semaphores of concurrent calls are left out.
\<close>

section \<open>Providers and settings\<close>

datatype llm_provider = CLAUDE_CODE | CODEX | OLLAMA

datatype llm_tier = TIER1 | TIER2

definition llm_provider_value :: "llm_provider \<Rightarrow> string" where
  "llm_provider_value p = (case p of CLAUDE_CODE \<Rightarrow> ''CLAUDE_CODE'' | CODEX \<Rightarrow> ''CODEX'' | OLLAMA \<Rightarrow> ''OLLAMA'')"

definition llm_provider_of :: "string \<Rightarrow> llm_provider res" where
  "llm_provider_of s =
     (if s = ''CLAUDE_CODE'' then Inr CLAUDE_CODE else if s = ''CODEX'' then Inr CODEX
      else if s = ''OLLAMA'' then Inr OLLAMA else Inl (enum_error s))"

record llm_settings =
  LLM_PROVIDER :: string
  LLM_PROVIDER_TIER1 :: string
  LLM_PROVIDER_TIER2 :: string
  LLM_FALLBACK_PROVIDER_TIER1 :: string
  LLM_FALLBACK_PROVIDER_TIER2 :: string
  LLM_FALLBACK_MODEL_TIER1 :: string
  LLM_FALLBACK_MODEL_TIER2 :: string
  CLAUDE_CODE_MODEL :: string
  CLAUDE_CODE_MODEL_TIER1 :: string
  CLAUDE_CODE_MODEL_TIER2 :: string
  CODEX_MODEL :: string
  CODEX_MODEL_TIER1 :: string
  CODEX_MODEL_TIER2 :: string
  OLLAMA_MODEL :: string
  OLLAMA_MODEL_TIER1 :: string
  OLLAMA_MODEL_TIER2 :: string
  LLM_TIER1_CONCURRENCY :: int
  LLM_TIER2_CONCURRENCY :: int
  MANUAL_LLM_PROVIDER :: string
  MANUAL_LLM_MODEL :: string
  MANUAL_LLM_FALLBACK_PROVIDER :: string
  MANUAL_LLM_FALLBACK_MODEL :: string
  NEWS_LLM_ENABLED :: bool
  NEWS_LLM_PROVIDER :: string
  NEWS_LLM_MODEL :: string
  NEWS_LLM_FALLBACK_PROVIDER :: string
  NEWS_LLM_FALLBACK_MODEL :: string

definition default_model :: string where "default_model = ''DEFAULT''"

definition default_llm_settings :: llm_settings where
  "default_llm_settings = \<lparr>LLM_PROVIDER = ''CLAUDE_CODE'', LLM_PROVIDER_TIER1 = [], LLM_PROVIDER_TIER2 = [],
     LLM_FALLBACK_PROVIDER_TIER1 = [], LLM_FALLBACK_PROVIDER_TIER2 = [],
     LLM_FALLBACK_MODEL_TIER1 = default_model, LLM_FALLBACK_MODEL_TIER2 = default_model,
     CLAUDE_CODE_MODEL = default_model, CLAUDE_CODE_MODEL_TIER1 = default_model, CLAUDE_CODE_MODEL_TIER2 = default_model,
     CODEX_MODEL = default_model, CODEX_MODEL_TIER1 = default_model, CODEX_MODEL_TIER2 = default_model,
     OLLAMA_MODEL = ''llama3.1:8b'', OLLAMA_MODEL_TIER1 = default_model, OLLAMA_MODEL_TIER2 = default_model,
     LLM_TIER1_CONCURRENCY = 2, LLM_TIER2_CONCURRENCY = 1,
     MANUAL_LLM_PROVIDER = ''CLAUDE_CODE'', MANUAL_LLM_MODEL = default_model,
     MANUAL_LLM_FALLBACK_PROVIDER = [], MANUAL_LLM_FALLBACK_MODEL = default_model,
     NEWS_LLM_ENABLED = True, NEWS_LLM_PROVIDER = ''CLAUDE_CODE'', NEWS_LLM_MODEL = default_model,
     NEWS_LLM_FALLBACK_PROVIDER = [], NEWS_LLM_FALLBACK_MODEL = default_model\<rparr>"

definition llm_model_value :: "string option \<Rightarrow> string" where
  "llm_model_value v = normalize_llm_model_value (ostr v)"

section \<open>Selection\<close>

text \<open>The setting of a tier.\<close>

definition of_tier :: "llm_tier \<Rightarrow> 'a \<Rightarrow> 'a \<Rightarrow> 'a" where
  "of_tier t a b = (case t of TIER1 \<Rightarrow> a | TIER2 \<Rightarrow> b)"

definition provider_from_name :: "string \<Rightarrow> llm_provider res" where
  "provider_from_name v = (if v = [] then Inr CLAUDE_CODE else llm_provider_of (upper v))"

definition model_for_provider :: "llm_settings \<Rightarrow> llm_provider \<Rightarrow> llm_tier \<Rightarrow> string" where
  "model_for_provider cfg p t =
     llm_model_value (Some
       (case p of
          CODEX \<Rightarrow> str_or (of_tier t (CODEX_MODEL_TIER1 cfg) (CODEX_MODEL_TIER2 cfg)) (CODEX_MODEL cfg)
        | OLLAMA \<Rightarrow> str_or (of_tier t (OLLAMA_MODEL_TIER1 cfg) (OLLAMA_MODEL_TIER2 cfg)) (OLLAMA_MODEL cfg)
        | CLAUDE_CODE \<Rightarrow> str_or (of_tier t (CLAUDE_CODE_MODEL_TIER1 cfg) (CLAUDE_CODE_MODEL_TIER2 cfg)) (CLAUDE_CODE_MODEL cfg)))"

definition fallback_model_for_tier :: "llm_settings \<Rightarrow> llm_tier \<Rightarrow> string" where
  "fallback_model_for_tier cfg t =
     llm_model_value (Some (of_tier t (LLM_FALLBACK_MODEL_TIER1 cfg) (LLM_FALLBACK_MODEL_TIER2 cfg)))"

record tier_selection =
  tsel_provider :: llm_provider
  tsel_model :: string
  tsel_fallback_provider :: string
  tsel_fallback_model :: string

definition resolve_tier_selection :: "llm_settings \<Rightarrow> llm_tier \<Rightarrow> tier_selection res" where
  "resolve_tier_selection cfg t =
     (let primary_default = str_or (LLM_PROVIDER cfg) ''CLAUDE_CODE'';
          primary_name = str_or (of_tier t (LLM_PROVIDER_TIER1 cfg) (LLM_PROVIDER_TIER2 cfg)) primary_default
      in rbind (provider_from_name primary_name) (\<lambda>p. Inr
           \<lparr>tsel_provider = p, tsel_model = model_for_provider cfg p t,
            tsel_fallback_provider = upper (of_tier t (LLM_FALLBACK_PROVIDER_TIER1 cfg) (LLM_FALLBACK_PROVIDER_TIER2 cfg)),
            tsel_fallback_model = fallback_model_for_tier cfg t\<rparr>))"

record llm_selection =
  sel_provider :: string
  sel_model :: string
  sel_fallback_provider :: string
  sel_fallback_model :: string
  sel_chain :: "llm_provider list"
  sel_overrides :: "(llm_provider \<times> string) list"

definition build_explicit_selection :: "string \<Rightarrow> string \<Rightarrow> string \<Rightarrow> string \<Rightarrow> llm_selection res" where
  "build_explicit_selection primary_name primary_model fallback_name fallback_model =
     rbind (provider_from_name primary_name) (\<lambda>p.
       let model = llm_model_value (Some primary_model);
           fallback = upper fallback_name;
           fb_model = llm_model_value (Some fallback_model);
           own = (if model \<noteq> default_model then [(p, model)] else []);
           alone = \<lparr>sel_provider = llm_provider_value p, sel_model = model, sel_fallback_provider = [],
                    sel_fallback_model = default_model, sel_chain = [p], sel_overrides = own\<rparr>
       in if fallback = [] then Inr alone
          else rbind (provider_from_name fallback) (\<lambda>q. Inr
            (if q = p then alone
             else alone\<lparr>sel_fallback_provider := fallback, sel_fallback_model := fb_model, sel_chain := [p, q],
                        sel_overrides := own @ [(q, fb_model)]\<rparr>)))"

text \<open>\<open>AUTOMATIC\<close> takes the provider of the tier, and its fallback if none is set.\<close>

definition resolve_named :: "llm_settings \<Rightarrow> llm_tier \<Rightarrow> string \<Rightarrow> string \<Rightarrow> string \<Rightarrow> string \<Rightarrow> llm_selection res" where
  "resolve_named cfg t primary_name primary_model fallback_name fallback_model =
     (if primary_name = ''AUTOMATIC'' then
        rbind (resolve_tier_selection cfg t) (\<lambda>ts.
          build_explicit_selection (llm_provider_value (tsel_provider ts)) primary_model
            (if fallback_name = [] then tsel_fallback_provider ts else fallback_name)
            (if fallback_name = [] then tsel_fallback_model ts else fallback_model))
      else build_explicit_selection primary_name primary_model fallback_name fallback_model)"

definition resolve_manual_selection ::
  "llm_settings \<Rightarrow> llm_tier \<Rightarrow> string option \<Rightarrow> string option \<Rightarrow> llm_selection res" where
  "resolve_manual_selection cfg t provider_override model_override =
     resolve_named cfg t (upper (str_or (str_or (ostr provider_override) (MANUAL_LLM_PROVIDER cfg)) ''CLAUDE_CODE''))
       (str_or (ostr model_override) (MANUAL_LLM_MODEL cfg))
       (MANUAL_LLM_FALLBACK_PROVIDER cfg) (MANUAL_LLM_FALLBACK_MODEL cfg)"

record news_llm_selection =
  nsel_enabled :: bool
  nsel_selection :: llm_selection

definition resolve_news_selection :: "llm_settings \<Rightarrow> news_llm_selection res" where
  "resolve_news_selection cfg =
     rbind (resolve_named cfg TIER1 (upper (str_or (NEWS_LLM_PROVIDER cfg) ''CLAUDE_CODE'')) (NEWS_LLM_MODEL cfg)
       (NEWS_LLM_FALLBACK_PROVIDER cfg) (NEWS_LLM_FALLBACK_MODEL cfg)) (\<lambda>s.
         Inr \<lparr>nsel_enabled = NEWS_LLM_ENABLED cfg, nsel_selection = s\<rparr>)"

definition provider_chain :: "llm_settings \<Rightarrow> llm_tier \<Rightarrow> llm_provider list res" where
  "provider_chain cfg t =
     rbind (resolve_tier_selection cfg t) (\<lambda>ts.
       if tsel_fallback_provider ts = [] then Inr [tsel_provider ts]
       else rbind (provider_from_name (tsel_fallback_provider ts)) (\<lambda>q.
         Inr (if q = tsel_provider ts then [tsel_provider ts] else [tsel_provider ts, q])))"

text \<open>Where a request takes its providers from: the tier, a given list, the settings for manual work or for news.\<close>

datatype selection_mode =
  By_tier | Given "llm_provider list" "(llm_provider \<times> string) list" | By_manual "string option" "string option" |
  By_news "news_llm_selection option"

definition tier_or_given :: "selection_mode \<Rightarrow> llm_tier \<Rightarrow> llm_settings \<Rightarrow> llm_provider list res" where
  "tier_or_given mode t cfg = (case mode of Given (p # ps) _ \<Rightarrow> Inr (p # ps) | _ \<Rightarrow> provider_chain cfg t)"

definition chain_of ::
  "selection_mode \<Rightarrow> llm_tier \<Rightarrow> llm_settings \<Rightarrow> (llm_provider list \<times> (llm_provider \<times> string) list) res" where
  "chain_of mode t cfg =
     (case mode of
        By_manual p m \<Rightarrow> rbind (resolve_manual_selection cfg t p m) (\<lambda>s. Inr (sel_chain s, sel_overrides s))
      | By_news (Some n) \<Rightarrow> Inr (sel_chain (nsel_selection n), sel_overrides (nsel_selection n))
      | By_news None \<Rightarrow> rbind (resolve_news_selection cfg) (\<lambda>n.
          Inr (sel_chain (nsel_selection n), sel_overrides (nsel_selection n)))
      | Given ps ov \<Rightarrow> rbind (tier_or_given mode t cfg) (\<lambda>c. Inr (c, ov))
      | By_tier \<Rightarrow> rbind (provider_chain cfg t) (\<lambda>c. Inr (c, [])))"

definition tier_concurrency_limit :: "llm_settings \<Rightarrow> llm_tier \<Rightarrow> int" where
  "tier_concurrency_limit cfg t = max (num_or (of_tier t (LLM_TIER1_CONCURRENCY cfg) (LLM_TIER2_CONCURRENCY cfg)) 1) 1"

definition analysis_concurrency_limit :: "llm_settings \<Rightarrow> int" where
  "analysis_concurrency_limit cfg = max (tier_concurrency_limit cfg TIER1) (tier_concurrency_limit cfg TIER2)"

section \<open>The Codex provider and its cooldown\<close>

text \<open>How a call of a provider ends.\<close>

datatype model_call = Reply string | Call_timeout | Call_exit string | Call_empty | Call_raised string

definition call_result :: "model_call \<Rightarrow> string res" where
  "call_result c =
     (case c of
        Reply t \<Rightarrow> Inr t
      | Call_timeout \<Rightarrow> Inl (Exn RuntimeError ''timeout'')
      | Call_exit e \<Rightarrow> Inl (Exn RuntimeError e)
      | Call_empty \<Rightarrow> Inl (Exn RuntimeError ''empty answer'')
      | Call_raised e \<Rightarrow> Inl (Exn RuntimeError e))"

record codex_state =
  cx_disabled_until :: real
  cx_failure_kind :: string

definition fresh_codex :: codex_state where
  "fresh_codex = \<lparr>cx_disabled_until = 0, cx_failure_kind = []\<rparr>"

definition failure_cooldown :: real where "failure_cooldown = 300"

definition cooldown_active :: "real \<Rightarrow> codex_state \<Rightarrow> bool" where
  "cooldown_active now cs \<longleftrightarrow> cx_disabled_until cs \<noteq> 0 \<and> 0 < max 0 (py_int (cx_disabled_until cs - now))"

text \<open>What a call at the time \<open>now\<close> of its end leaves behind; the other providers keep no state.\<close>

definition after_call :: "llm_provider \<Rightarrow> real \<Rightarrow> model_call \<Rightarrow> codex_state \<Rightarrow> codex_state" where
  "after_call p now c cs =
     (if p \<noteq> CODEX then cs
      else case c of
          Reply _ \<Rightarrow> fresh_codex
        | Call_timeout \<Rightarrow> \<lparr>cx_disabled_until = now + failure_cooldown, cx_failure_kind = ''timeout''\<rparr>
        | Call_exit _ \<Rightarrow> \<lparr>cx_disabled_until = now + failure_cooldown, cx_failure_kind = ''exit_nonzero''\<rparr>
        | Call_empty \<Rightarrow> cs\<lparr>cx_failure_kind := ''empty_response''\<rparr>
        | Call_raised _ \<Rightarrow> cs)"

section \<open>The factory\<close>

text \<open>
  The providers of a tier live as long as the factory, with the model they were made with; only the Codex
  ones change. \<open>lf_calls\<close> records which provider was called with which model.
\<close>

record llm_factory =
  lf_codex :: "llm_tier \<Rightarrow> codex_state"
  lf_models :: "llm_tier \<Rightarrow> llm_provider \<Rightarrow> string"
  lf_calls :: "(llm_provider \<times> string) list"

definition new_factory :: "llm_settings \<Rightarrow> (llm_provider \<times> string) list \<Rightarrow> llm_factory" where
  "new_factory cfg calls = \<lparr>lf_codex = (\<lambda>_. fresh_codex), lf_models = (\<lambda>t p. model_for_provider cfg p t), lf_calls = calls\<rparr>"

text \<open>
  A turn of the loop is a provider that is tried. Of turn \<open>n\<close>: the settings as they are then, whether the
  program or the server of a provider is found at check \<open>k\<close>, the time of that check, how attempt \<open>k\<close> ends, and
  when.
\<close>

record llm_env =
  le_settings :: "nat \<Rightarrow> llm_settings"
  le_found :: "nat \<Rightarrow> nat \<Rightarrow> llm_provider \<Rightarrow> bool"
  le_checked :: "nat \<Rightarrow> nat \<Rightarrow> real"
  le_call :: "nat \<Rightarrow> nat \<Rightarrow> llm_provider \<Rightarrow> model_call"
  le_ended :: "nat \<Rightarrow> nat \<Rightarrow> real"

text \<open>\<open>_build_provider\<close>: the provider of the tier, or a new one with the model that is asked for.\<close>

definition own_provider :: "string option \<Rightarrow> bool" where
  "own_provider override \<longleftrightarrow> override = None \<or> llm_model_value override = default_model"

definition model_used :: "llm_tier \<Rightarrow> llm_provider \<Rightarrow> string option \<Rightarrow> llm_factory \<Rightarrow> string" where
  "model_used t p override st = (if own_provider override then lf_models st t p else llm_model_value override)"

definition codex_of :: "llm_tier \<Rightarrow> string option \<Rightarrow> llm_factory \<Rightarrow> codex_state" where
  "codex_of t override st = (if own_provider override then lf_codex st t else fresh_codex)"

definition put_codex :: "llm_tier \<Rightarrow> string option \<Rightarrow> codex_state \<Rightarrow> llm_factory \<Rightarrow> llm_factory" where
  "put_codex t override cs st = (if own_provider override then st\<lparr>lf_codex := (lf_codex st)(t := cs)\<rparr> else st)"

definition available :: "llm_provider \<Rightarrow> llm_env \<Rightarrow> nat \<Rightarrow> nat \<Rightarrow> codex_state \<Rightarrow> bool" where
  "available p env n k cs \<longleftrightarrow> le_found env n k p \<and> (p = CODEX \<longrightarrow> \<not> cooldown_active (le_checked env n k) cs)"

definition log_call :: "llm_provider \<Rightarrow> string \<Rightarrow> llm_factory \<Rightarrow> llm_factory" where
  "log_call p model st = st\<lparr>lf_calls := lf_calls st @ [(p, model)]\<rparr>"

definition unavailable_error :: "llm_provider \<Rightarrow> py_exn" where
  "unavailable_error p = Exn RuntimeError (llm_provider_value p @ '' is not available'')"

text \<open>A provider gets a second attempt if it is still available after the first failed.\<close>

definition try_provider ::
  "llm_tier \<Rightarrow> llm_provider \<Rightarrow> string option \<Rightarrow> llm_env \<Rightarrow> nat \<Rightarrow> llm_factory \<Rightarrow> string res \<times> llm_factory" where
  "try_provider t p override env n st =
     (let cs = codex_of t override st; model = model_used t p override st
      in if \<not> available p env n 0 cs then (Inl (unavailable_error p), st)
         else
           let cs1 = after_call p (le_ended env n 0) (le_call env n 0 p) cs; st1 = log_call p model st
           in case call_result (le_call env n 0 p) of
                Inr text \<Rightarrow> (Inr text, put_codex t override cs1 st1)
              | Inl e \<Rightarrow>
                  if available p env n 1 cs1
                  then (call_result (le_call env n 1 p),
                        put_codex t override (after_call p (le_ended env n 1) (le_call env n 1 p) cs1) (log_call p model st1))
                  else (Inl e, put_codex t override cs1 st1))"

definition next_candidate :: "llm_provider set \<Rightarrow> llm_provider list \<Rightarrow> (nat \<times> llm_provider) option" where
  "next_candidate tried chain = find (\<lambda>(i, p). p \<notin> tried) (enumerate 0 chain)"

definition model_override :: "llm_settings \<Rightarrow> llm_tier \<Rightarrow> (llm_provider \<times> string) list \<Rightarrow> nat \<Rightarrow> llm_provider \<Rightarrow> string option" where
  "model_override cfg t overrides i p =
     (case map_of overrides p of
        Some m \<Rightarrow> Some m
      | None \<Rightarrow> if 0 < i then Some (fallback_model_for_tier cfg t) else None)"

definition no_provider_error :: py_exn where "no_provider_error = Exn RuntimeError ''no provider is available''"

lemma llm_provider_UNIV: "(UNIV :: llm_provider set) = {CLAUDE_CODE, CODEX, OLLAMA}"
  using llm_provider.exhaust by auto

instantiation llm_provider :: finite
begin
instance by standard (simp add: llm_provider_UNIV)
end

lemma card_llm_provider: "card (UNIV :: llm_provider set) = 3"
  by (simp add: llm_provider_UNIV)

lemma next_candidate_new: "next_candidate tried chain = Some (i, p) \<Longrightarrow> p \<notin> tried"
  by (auto simp: next_candidate_def find_Some_iff)

text \<open>The chain is read again before each turn, so it can change while a request is served; no provider is tried twice.\<close>

function generate_loop ::
  "selection_mode \<Rightarrow> llm_tier \<Rightarrow> llm_env \<Rightarrow> nat \<Rightarrow> llm_provider set \<Rightarrow> py_exn option \<Rightarrow> llm_factory \<Rightarrow>
     (string \<times> llm_provider) res \<times> llm_factory" where
  "generate_loop mode t env n tried failure st =
     (case chain_of mode t (le_settings env n) of
        Inl e \<Rightarrow> (Inl e, st)
      | Inr (chain, overrides) \<Rightarrow>
          (case next_candidate tried chain of
             None \<Rightarrow> (Inl (case failure of None \<Rightarrow> no_provider_error | Some e \<Rightarrow> e), st)
           | Some (i, p) \<Rightarrow>
               (case try_provider t p (model_override (le_settings env n) t overrides i p) env n st of
                  (Inr text, st1) \<Rightarrow> (Inr (text, p), st1)
                | (Inl e, st1) \<Rightarrow> generate_loop mode t env (Suc n) (insert p tried) (Some e) st1)))"
  by pat_completeness auto
termination
  by (relation "measure (\<lambda>(mode, t, env, n, tried, failure, st). card (UNIV - tried))")
     (auto dest!: next_candidate_new intro!: psubset_card_mono)

declare generate_loop.simps [simp del]

text \<open>The chain of the tier is read first, even if the request brings a selection of its own.\<close>

definition generate_text ::
  "selection_mode \<Rightarrow> llm_tier \<Rightarrow> llm_env \<Rightarrow> llm_factory \<Rightarrow> (string \<times> llm_provider) res \<times> llm_factory" where
  "generate_text mode t env st =
     (case tier_or_given mode t (le_settings env 0) of
        Inl e \<Rightarrow> (Inl e, st)
      | Inr _ \<Rightarrow> generate_loop mode t env 0 {} None st)"

section \<open>What the processes give back\<close>

text \<open>
  The text of the error is not cut. \<open>loads\<close> stands for \<open>json.loads\<close>; the field \<open>result\<close> is a text.
\<close>

definition process_error :: "string \<Rightarrow> string \<Rightarrow> string" where
  "process_error out err = (if strip err = [] then out else err)"

definition claude_outcome :: "(string \<Rightarrow> json option) \<Rightarrow> int \<Rightarrow> string \<Rightarrow> string \<Rightarrow> model_call" where
  "claude_outcome loads code out err =
     (if code \<noteq> 0 then Call_exit (process_error out err)
      else
        let raw = strip out
        in if raw = [] then Call_empty
           else case loads raw of
               None \<Rightarrow> Reply raw
             | Some (JObj kvs) \<Rightarrow>
                 (case jget_or ''result'' (JStr []) kvs of
                    JStr text \<Rightarrow> if text = [] then Call_empty else Reply text
                  | _ \<Rightarrow> Call_raised ''no text'')
             | Some _ \<Rightarrow> Call_raised ''no object'')"

definition codex_outcome :: "int \<Rightarrow> string \<Rightarrow> string \<Rightarrow> string \<Rightarrow> model_call" where
  "codex_outcome code out err last_message =
     (if code \<noteq> 0 then Call_exit (process_error out err)
      else if strip last_message = [] then Call_empty else Reply (strip last_message))"

section \<open>Sessions of the Claude provider\<close>

record claude_session =
  cs_active :: "string option"
  cs_initialized :: bool

definition start_session :: "string \<Rightarrow> claude_session \<Rightarrow> claude_session" where
  "start_session sid s = \<lparr>cs_active = Some sid, cs_initialized = False\<rparr>"

definition end_session :: "claude_session \<Rightarrow> string option \<times> claude_session" where
  "end_session s = (cs_active s, \<lparr>cs_active = None, cs_initialized = False\<rparr>)"

definition pause_session :: "claude_session \<Rightarrow> string option \<times> claude_session" where
  "pause_session s = (cs_active s, s\<lparr>cs_active := None\<rparr>)"

definition resume_session :: "string \<Rightarrow> claude_session \<Rightarrow> claude_session" where
  "resume_session sid s = \<lparr>cs_active = Some sid, cs_initialized = True\<rparr>"

text \<open>The factory does all this only if a tier uses Claude.\<close>

definition uses_claude_sessions :: "llm_settings \<Rightarrow> bool res" where
  "uses_claude_sessions cfg =
     rbind (provider_chain cfg TIER1) (\<lambda>c1.
       if CLAUDE_CODE \<in> set c1 then Inr True
       else rbind (provider_chain cfg TIER2) (\<lambda>c2. Inr (CLAUDE_CODE \<in> set c2)))"

definition factory_start_session :: "llm_settings \<Rightarrow> string \<Rightarrow> claude_session \<Rightarrow> (string option \<times> claude_session) res" where
  "factory_start_session cfg sid s =
     rbind (uses_claude_sessions cfg) (\<lambda>u. Inr (if u then (Some sid, start_session sid s) else (None, s)))"

definition factory_pause_session :: "llm_settings \<Rightarrow> claude_session \<Rightarrow> (string option \<times> claude_session) res" where
  "factory_pause_session cfg s = rbind (uses_claude_sessions cfg) (\<lambda>u. Inr (if u then pause_session s else (None, s)))"

definition factory_resume_session :: "llm_settings \<Rightarrow> string option \<Rightarrow> claude_session \<Rightarrow> claude_session res" where
  "factory_resume_session cfg sid s =
     (case sid of
        Some (c # cs) \<Rightarrow> rbind (uses_claude_sessions cfg) (\<lambda>u. Inr (if u then resume_session (c # cs) s else s))
      | _ \<Rightarrow> Inr s)"

definition factory_end_session :: "llm_settings \<Rightarrow> claude_session \<Rightarrow> (string option \<times> claude_session) res" where
  "factory_end_session cfg s = rbind (uses_claude_sessions cfg) (\<lambda>u. Inr (if u then end_session s else (None, s)))"

text \<open>
  The session a call names: it is chosen when the command is built, before the lock of the session is
  taken; a call with a session that ends well marks the session as created.
\<close>

datatype cli_session = New_session string | Resume_of string | No_session

definition session_arg :: "claude_session \<Rightarrow> cli_session" where
  "session_arg s =
     (case cs_active s of
        None \<Rightarrow> No_session
      | Some sid \<Rightarrow> if cs_initialized s then Resume_of sid else New_session sid)"

definition call_ends :: "cli_session \<Rightarrow> bool \<Rightarrow> claude_session \<Rightarrow> claude_session" where
  "call_ends a ok s = (if ok \<and> a \<noteq> No_session then s\<lparr>cs_initialized := True\<rparr> else s)"

text \<open>The arguments and the text of the prompt; a session that goes on gets the role in the prompt.\<close>

definition role_text :: string where "role_text = map char_of [91, 236, 151, 173, 237, 149, 160, 93, 10 :: nat]"
definition request_text :: string where "request_text = map char_of [10, 10, 91, 236, 154, 148, 236, 178, 173, 93, 10 :: nat]"

definition claude_input :: "cli_session \<Rightarrow> string \<Rightarrow> string \<Rightarrow> string list \<times> string" where
  "claude_input a sys prompt =
     (let system_args = (if sys = [] then [] else [''--system-prompt'', sys])
      in case a of
           Resume_of sid \<Rightarrow> ([''--resume'', sid], if sys = [] then prompt else role_text @ sys @ request_text @ prompt)
         | New_session sid \<Rightarrow> ([''--session-id'', sid] @ system_args, prompt)
         | No_session \<Rightarrow> (''--no-session-persistence'' # system_args, prompt))"

section \<open>Lemmas\<close>

text \<open>The chain of a selection made from the settings names no provider twice, and its first one is not repeated as a fallback.\<close>

lemma explicit_chain_distinct: "build_explicit_selection a b c d = Inr s \<Longrightarrow> distinct (sel_chain s) \<and> sel_chain s \<noteq> []"
  by (auto simp: build_explicit_selection_def rbind_eq_Inr Let_def split: if_splits)

lemma named_chain_distinct: "resolve_named cfg t a b c d = Inr s \<Longrightarrow> distinct (sel_chain s) \<and> sel_chain s \<noteq> []"
  by (auto simp: resolve_named_def rbind_eq_Inr dest: explicit_chain_distinct split: if_splits)

lemma tier_chain_distinct: "provider_chain cfg t = Inr c \<Longrightarrow> distinct c \<and> c \<noteq> []"
  by (auto simp: provider_chain_def rbind_eq_Inr split: if_splits)

lemma settings_chain_distinct:
  assumes "chain_of mode t cfg = Inr (chain, overrides)" and "mode = By_tier \<or> mode = By_manual po mo \<or> mode = By_news None"
  shows "distinct chain \<and> chain \<noteq> []"
  using assms tier_chain_distinct [of cfg t]
  by (auto simp: chain_of_def resolve_manual_selection_def resolve_news_selection_def rbind_eq_Inr dest!: named_chain_distinct)

text \<open>A model of a provider is never taken for one of another: an override names the provider it is for.\<close>

lemma default_normal [simp]: "llm_model_value (Some default_model) = default_model"
  by code_simp

text \<open>The model of a tier hides the general one as soon as it is set, and its default is a value that is set.\<close>

lemma general_model_hidden:
  "CODEX_MODEL_TIER1 cfg = default_model \<Longrightarrow> CODEX_MODEL_TIER2 cfg = default_model \<Longrightarrow>
     model_for_provider cfg CODEX t = default_model"
  "CLAUDE_CODE_MODEL_TIER1 cfg = default_model \<Longrightarrow> CLAUDE_CODE_MODEL_TIER2 cfg = default_model \<Longrightarrow>
     model_for_provider cfg CLAUDE_CODE t = default_model"
  by (cases t; simp add: model_for_provider_def of_tier_def str_or_def; simp add: default_model_def)+

lemma put_codex_calls [simp]: "lf_calls (put_codex t ov cs st) = lf_calls st"
  by (simp add: put_codex_def)

lemma log_call_calls [simp]: "lf_calls (log_call p m st) = lf_calls st @ [(p, m)]" "lf_codex (log_call p m st) = lf_codex st"
  by (simp_all add: log_call_def)

lemma call_result_Inr [simp]: "call_result (Reply answer) = Inr answer" "call_result c = Inr answer \<longleftrightarrow> c = Reply answer"
  by (auto simp: call_result_def split: model_call.splits)

lemma try_provider_calls:
  "\<exists>cs. lf_calls (snd (try_provider t p ov env n st)) = lf_calls st @ cs \<and> set (map fst cs) \<subseteq> {p} \<and> length cs \<le> 2 \<and>
     (\<forall>text. fst (try_provider t p ov env n st) = Inr text \<longrightarrow> cs \<noteq> [] \<and> (\<exists>k<2. le_call env n k p = Reply text))"
proof (cases "available p env n 0 (codex_of t ov st)")
  case False
  then show ?thesis by (intro exI [of _ "[]"]) (simp add: try_provider_def)
next
  case True
  let ?m = "(p, model_used t p ov st)"
  let ?cs = "after_call p (le_ended env n 0) (le_call env n 0 p) (codex_of t ov st)"
  show ?thesis
  proof (cases "call_result (le_call env n 0 p)")
    case (Inr answer)
    then show ?thesis using True by (intro exI [of _ "[?m]"]) (auto simp: try_provider_def Let_def intro!: exI [of _ 0])
  next
    case (Inl e)
    show ?thesis
    proof (cases "available p env n 1 ?cs")
      case second: True
      then show ?thesis using True Inl
        by (intro exI [of _ "[?m, ?m]"]) (auto simp: try_provider_def Let_def intro!: exI [of _ 1])
    next
      case False
      then show ?thesis using True Inl by (intro exI [of _ "[?m]"]) (auto simp: try_provider_def Let_def)
    qed
  qed
qed

definition calls_to :: "llm_provider \<Rightarrow> (llm_provider \<times> string) list \<Rightarrow> nat" where
  "calls_to p cs = length (filter (\<lambda>c. fst c = p) cs)"

lemma calls_to_append [simp]: "calls_to p (xs @ ys) = calls_to p xs + calls_to p ys"
  by (simp add: calls_to_def)

lemma calls_to_one: "set (map fst cs) \<subseteq> {p} \<Longrightarrow> length cs \<le> 2 \<Longrightarrow> calls_to q cs \<le> (if q = p then 2 else 0)"
proof -
  assume cs: "set (map fst cs) \<subseteq> {p}" "length cs \<le> 2"
  show ?thesis
  proof (cases "q = p")
    case True
    then show ?thesis using cs(2) le_trans [OF length_filter_le cs(2)] by (simp add: calls_to_def)
  next
    case False
    then have "filter (\<lambda>c. fst c = q) cs = []" using cs(1) by (auto simp: filter_empty_conv)
    then show ?thesis using False by (simp add: calls_to_def)
  qed
qed

lemma generate_loop_calls:
  "\<exists>cs. lf_calls (snd (generate_loop mode t env n tried failure st)) = lf_calls st @ cs \<and>
     (\<forall>q. calls_to q cs \<le> (if q \<in> tried then 0 else 2)) \<and>
     (\<forall>text p. fst (generate_loop mode t env n tried failure st) = Inr (text, p) \<longrightarrow>
        cs \<noteq> [] \<and> fst (last cs) = p \<and> (\<exists>m k. k < 2 \<and> le_call env m k p = Reply text))"
proof (induction mode t env n tried failure st rule: generate_loop.induct)
  case (1 mode t env n tried failure st)
  show ?case
  proof (cases "chain_of mode t (le_settings env n)")
    case (Inl e)
    then show ?thesis by (intro exI [of _ "[]"]) (simp add: generate_loop.simps [of mode] calls_to_def)
  next
    case (Inr co)
    obtain chain ov where co: "co = (chain, ov)" by (cases co)
    show ?thesis
    proof (cases "next_candidate tried chain")
      case None
      then show ?thesis using Inr co
        by (intro exI [of _ "[]"]) (simp add: generate_loop.simps [of mode] calls_to_def)
    next
      case (Some ip)
      obtain i p where ip: "ip = (i, p)" by (cases ip)
      let ?o = "model_override (le_settings env n) t ov i p"
      have new: "p \<notin> tried" using Some ip next_candidate_new by blast
      obtain cs where cs: "lf_calls (snd (try_provider t p ?o env n st)) = lf_calls st @ cs" "set (map fst cs) \<subseteq> {p}"
          "length cs \<le> 2" "\<forall>text. fst (try_provider t p ?o env n st) = Inr text \<longrightarrow> cs \<noteq> [] \<and> (\<exists>k<2. le_call env n k p = Reply text)"
        using try_provider_calls [of t p ?o env n st] by blast
      have one: "calls_to q cs \<le> (if q = p then 2 else 0)" for q using calls_to_one [OF cs(2,3)] .
      obtain r st1 where r: "try_provider t p ?o env n st = (r, st1)" by (cases "try_provider t p ?o env n st")
      note step = generate_loop.simps [of mode t env n tried failure st]
      show ?thesis
      proof (cases r)
        case r': (Inr answer)
        have "fst (last cs) = p" using cs(2,4) r r' by (cases cs rule: rev_cases) auto
        moreover have "calls_to q cs \<le> (if q \<in> tried then 0 else 2)" for q using one [of q] new by (auto split: if_splits)
        ultimately show ?thesis using Inr co Some ip r r' cs(1,4) by (intro exI [of _ cs]) (auto simp: step)
      next
        case (Inl e)
        obtain ds where ds: "lf_calls (snd (generate_loop mode t env (Suc n) (insert p tried) (Some e) st1)) = lf_calls st1 @ ds"
            "\<forall>q. calls_to q ds \<le> (if q \<in> insert p tried then 0 else 2)"
            "\<forall>text q. fst (generate_loop mode t env (Suc n) (insert p tried) (Some e) st1) = Inr (text, q) \<longrightarrow>
               ds \<noteq> [] \<and> fst (last ds) = q \<and> (\<exists>m k. k < 2 \<and> le_call env m k q = Reply text)"
          using "1.IH" [OF Inr co [symmetric] Some ip [symmetric] r [symmetric] Inl] by blast
        have "calls_to q (cs @ ds) \<le> (if q \<in> tried then 0 else 2)" for q
          using one [of q] ds(2) [rule_format, of q] new by (auto split: if_splits)
        then show ?thesis using Inr co Some ip r Inl cs(1) ds by (intro exI [of _ "cs @ ds"]) (simp add: step)
      qed
    qed
  qed
qed

text \<open>The reference: the providers of the chain one after the other, the first that answers ends it.\<close>

fun walk_chain ::
  "llm_settings \<Rightarrow> llm_tier \<Rightarrow> llm_env \<Rightarrow> (llm_provider \<times> string) list \<Rightarrow> (nat \<times> llm_provider) list \<Rightarrow> py_exn option \<Rightarrow>
     llm_factory \<Rightarrow> (string \<times> llm_provider) res \<times> llm_factory" where
  "walk_chain cfg t env overrides [] failure st = (Inl (case failure of None \<Rightarrow> no_provider_error | Some e \<Rightarrow> e), st)"
| "walk_chain cfg t env overrides ((i, p) # rest) failure st =
     (case try_provider t p (model_override cfg t overrides i p) env i st of
        (Inr text, st1) \<Rightarrow> (Inr (text, p), st1)
      | (Inl e, st1) \<Rightarrow> walk_chain cfg t env overrides rest (Some e) st1)"

lemma next_in_chain:
  assumes "distinct chain" and "n < length chain"
  shows "next_candidate (set (take n chain)) chain = Some (n, chain ! n)"
proof -
  have "find (\<lambda>(i, p). p \<notin> set (take n chain)) (enumerate 0 chain) = Some (enumerate 0 chain ! n)"
    unfolding find_Some_iff
  proof (intro exI [of _ n] conjI allI impI)
    show "n < length (enumerate 0 chain)" using assms by simp
    show "case enumerate 0 chain ! n of (i, p) \<Rightarrow> p \<notin> set (take n chain)"
      using assms by (auto simp: nth_enumerate_eq in_set_conv_nth nth_eq_iff_index_eq)
    fix j assume "j < n"
    then show "\<not> (case enumerate 0 chain ! j of (i, p) \<Rightarrow> p \<notin> set (take n chain))"
      using assms by (auto simp: nth_enumerate_eq in_set_conv_nth intro!: exI [of _ j])
  qed simp
  then show ?thesis using assms by (simp add: next_candidate_def nth_enumerate_eq)
qed

lemma next_at_end: "next_candidate (set chain) chain = None"
  by (auto simp: next_candidate_def find_None_iff in_set_enumerate_eq)

lemma generate_loop_walk:
  assumes "chain_of mode t cfg = Inr (chain, overrides)" and "distinct chain" and "le_settings env = (\<lambda>_. cfg)"
  shows "n \<le> length chain \<Longrightarrow>
    generate_loop mode t env n (set (take n chain)) failure st = walk_chain cfg t env overrides (drop n (enumerate 0 chain)) failure st"
proof (induction "length chain - n" arbitrary: n failure st)
  case 0
  then show ?case using assms by (simp add: generate_loop.simps [of mode] next_at_end)
next
  case (Suc d)
  then have n: "n < length chain" by simp
  have drop: "drop n (enumerate 0 chain) = (n, chain ! n) # drop (Suc n) (enumerate 0 chain)"
    using n by (simp add: Cons_nth_drop_Suc [symmetric] nth_enumerate_eq)
  have take: "insert (chain ! n) (set (take n chain)) = set (take (Suc n) chain)"
    using n by (simp add: take_Suc_conv_app_nth)
  have "generate_loop mode t env (Suc n) (set (take (Suc n) chain)) f st' =
      walk_chain cfg t env overrides (drop (Suc n) (enumerate 0 chain)) f st'" for f st'
    using Suc.hyps(1) [of "Suc n"] Suc.hyps(2) n by simp
  then show ?case using assms n
    by (simp add: generate_loop.simps [of mode t env n] next_in_chain drop take split: sum.splits prod.splits)
qed

lemma walk_answers:
  "fst (walk_chain cfg t env overrides ips failure st) = Inr (answer, p) \<Longrightarrow> p \<in> snd ` set ips"
  by (induction cfg t env overrides ips failure st rule: walk_chain.induct) (auto split: prod.splits sum.splits)

text \<open>Two first calls of a session that overlap both ask for a new session of the same name.\<close>

lemma overlapping_first_calls:
  "session_arg (start_session sid s) = New_session sid \<and>
   session_arg (call_ends No_session ok (start_session sid s)) = New_session sid \<and>
   session_arg (call_ends (New_session sid) False (start_session sid s)) = New_session sid \<and>
   session_arg (call_ends (New_session sid) True (start_session sid s)) = Resume_of sid"
  by (simp add: session_arg_def start_session_def call_ends_def)

text \<open>A pause makes a session that no call has created look as if it existed.\<close>

lemma pause_before_first_call:
  assumes "pause_session (start_session sid s) = (Some paused, s1)"
  shows "paused = sid \<and> session_arg s1 = No_session \<and> session_arg (resume_session paused s1) = Resume_of sid"
  using assms by (auto simp: pause_session_def start_session_def resume_session_def session_arg_def)

text \<open>A session that ends while it is paused is active again after the pause.\<close>

lemma pause_outlives_end:
  assumes "pause_session s = (Some paused, s1)"
  shows "end_session s1 = (None, \<lparr>cs_active = None, cs_initialized = False\<rparr>) \<and>
    cs_active (resume_session paused (snd (end_session s1))) = cs_active s"
  using assms by (auto simp: pause_session_def end_session_def resume_session_def)

section \<open>Properties\<close>

text \<open>
  C25: However the settings change while a request is served, the language models are called at most twice
  per provider and the request ends; an answer is the text of one of these calls, of the provider that is
  named with it, and no call follows it.
\<close>

theorem model_calls_bounded:
  "\<exists>cs. lf_calls (snd (generate_text mode t env st)) = lf_calls st @ cs \<and> (\<forall>p. calls_to p cs \<le> 2) \<and>
     fst (generate_text mode t env st) \<in> range Inl \<union>
       {Inr (text, p) |text p. cs \<noteq> [] \<and> fst (last cs) = p \<and> (\<exists>n k. k < 2 \<and> le_call env n k p = Reply text)}"
proof (cases "tier_or_given mode t (le_settings env 0)")
  case (Inl e)
  then show ?thesis by (intro exI [of _ "[]"]) (simp add: generate_text_def calls_to_def)
next
  case (Inr c)
  then have eq: "generate_text mode t env st = generate_loop mode t env 0 {} None st" by (simp add: generate_text_def)
  obtain cs where "lf_calls (snd (generate_loop mode t env 0 {} None st)) = lf_calls st @ cs" "\<forall>q. calls_to q cs \<le> 2"
      "\<forall>text p. fst (generate_loop mode t env 0 {} None st) = Inr (text, p) \<longrightarrow>
        cs \<noteq> [] \<and> fst (last cs) = p \<and> (\<exists>m k. k < 2 \<and> le_call env m k p = Reply text)"
    using generate_loop_calls [of mode t env 0 "{}" None st] by auto
  then show ?thesis unfolding eq
    by (intro exI [of _ cs]) (cases "fst (generate_loop mode t env 0 {} None st)"; auto)
qed

text \<open>
  C26: As long as the settings stay the same, the loop that looks for a provider not yet tried, over a chain
  it reads again each time, is the plain walk over the chain: the first provider that answers serves the
  request, and an error means that every provider of the chain was tried.
\<close>

theorem routing_walks_the_chain:
  assumes "chain_of mode t cfg = Inr (chain, overrides)" and "distinct chain" and "le_settings env = (\<lambda>_. cfg)"
    and "tier_or_given mode t cfg = Inr c"
  shows "generate_text mode t env st = walk_chain cfg t env overrides (enumerate 0 chain) None st"
  using generate_loop_walk [OF assms(1-3), of 0 None st] assms(3,4) by (simp add: generate_text_def)

definition sample_llm_env :: llm_env where
  "sample_llm_env = \<lparr>le_settings = (\<lambda>_. default_llm_settings\<lparr>LLM_FALLBACK_PROVIDER_TIER1 := ''codex''\<rparr>),
     le_found = (\<lambda>n k p. True), le_checked = (\<lambda>n k. real n), le_call = (\<lambda>n k p. if p = CODEX then Reply ''yes'' else Call_empty),
     le_ended = (\<lambda>n k. real n)\<rparr>"

lemma routing_walks_the_chain_witness:
  "fst (generate_text By_tier TIER1 sample_llm_env (new_factory default_llm_settings [])) = Inr (''yes'', CODEX)"
proof -
  let ?cfg = "default_llm_settings\<lparr>LLM_FALLBACK_PROVIDER_TIER1 := ''codex''\<rparr>"
  have chain: "provider_chain ?cfg TIER1 = Inr [CLAUDE_CODE, CODEX]" by code_simp
  have none: "\<not> cooldown_active now fresh_codex" for now by (simp add: cooldown_active_def fresh_codex_def)
  have "generate_text By_tier TIER1 sample_llm_env (new_factory default_llm_settings []) =
      walk_chain ?cfg TIER1 sample_llm_env [] (enumerate 0 [CLAUDE_CODE, CODEX]) None (new_factory default_llm_settings [])"
    by (rule routing_walks_the_chain) (simp_all add: chain_of_def tier_or_given_def chain sample_llm_env_def)
  then show ?thesis using none
    by (simp add: try_provider_def available_def sample_llm_env_def call_result_def codex_of_def new_factory_def
        model_override_def after_call_def log_call_def put_codex_def Let_def)
qed

text \<open>
  After a call of the Codex provider that timed out, the tier's own provider is not called again for 299
  seconds; a provider that is asked for with a model of its own, as a fallback or by the settings for
  manual work and news, is called again at once, since its failure is forgotten with it.
\<close>

lemma codex_cooldown_kept_by_own_provider:
  assumes "le_call env n 0 CODEX = Call_timeout" and "le_found env n 0 CODEX"
    and "\<not> cooldown_active (le_checked env n 0) (codex_of t override st)" and "0 < le_ended env n 0"
    and "le_checked env n 1 \<le> le_ended env n 0 + 299"
    and "le_found later m 0 CODEX" and "le_checked later m 0 \<le> le_ended env n 0 + 299"
  shows "let st1 = snd (try_provider t CODEX override env n st); st2 = snd (try_provider t CODEX override later m st1)
    in length (lf_calls st1) = Suc (length (lf_calls st)) \<and>
       (if own_provider override then st2 = st1
        else length (lf_calls st1) < length (lf_calls st2) \<and> lf_codex st2 = lf_codex st)"
proof -
  let ?cs = "\<lparr>cx_disabled_until = le_ended env n 0 + failure_cooldown, cx_failure_kind = ''timeout''\<rparr>"
  have cool: "cooldown_active now ?cs" if "now \<le> le_ended env n 0 + 299" for now
  proof -
    have "1 \<le> le_ended env n 0 + 300 - now" using that by simp
    then have "1 \<le> py_int (le_ended env n 0 + 300 - now)" using py_int_mono [of 1] by (simp add: py_int_def)
    then show ?thesis using assms(4) by (simp add: cooldown_active_def failure_cooldown_def)
  qed
  have first: "try_provider t CODEX override env n st =
      (Inl (Exn RuntimeError ''timeout''), put_codex t override ?cs (log_call CODEX (model_used t CODEX override st) st))"
    using assms(1-3) cool [OF assms(5)]
    by (simp add: try_provider_def available_def call_result_def after_call_def)
  show ?thesis
  proof (cases "own_provider override")
    case True
    then show ?thesis using first cool [OF assms(7)]
      by (simp add: try_provider_def available_def codex_of_def put_codex_def)
  next
    case False
    have "\<not> cooldown_active now fresh_codex" for now by (simp add: cooldown_active_def fresh_codex_def)
    with False assms(6) have "available CODEX later m 0 (codex_of t override (snd (try_provider t CODEX override env n st)))"
      by (simp add: available_def codex_of_def)
    then show ?thesis using False first
      by (auto simp: try_provider_def put_codex_def Let_def split: sum.split)
  qed
qed

lemma codex_cooldown_kept_by_own_provider_witness:
  "let env = sample_llm_env\<lparr>le_call := \<lambda>n k p. Call_timeout, le_ended := \<lambda>n k. 1\<rparr>; st = new_factory default_llm_settings [];
     st1 = snd (try_provider TIER2 CODEX (Some ''o3'') env 0 st)
   in length (lf_calls st1) < length (lf_calls (snd (try_provider TIER2 CODEX (Some ''o3'') env 5 st1)))"
proof -
  let ?env = "sample_llm_env\<lparr>le_call := \<lambda>n k p. Call_timeout, le_ended := \<lambda>n k. 1\<rparr>"
  have "\<not> own_provider (Some ''o3'')" by code_simp
  then show ?thesis
    using codex_cooldown_kept_by_own_provider [of ?env 0 TIER2 "Some ''o3''" "new_factory default_llm_settings []" ?env 5]
    by (simp add: sample_llm_env_def codex_of_def cooldown_active_def fresh_codex_def Let_def)
qed

end
