(* ===== verification/Scanner.thy ===== *)
theory Scanner
  imports Llm_Json Llm_Router Broker_Api
begin

text \<open>
  The scan of the market (\<open>agent/market_scanner.py\<close>): the ranks without what cannot be traded, the prices they
  name, and the model's selection without buys the cash does not pay for.

  The answers of the broker and of the model are arguments; the texts for the prompt and the log are left
  out. A row is a JSON value; a field that is used as a key of a set or of a dict has to be hashable.
\<close>

section \<open>Ranks\<close>

definition excluded_names :: "string list" where
  "excluded_names = [''ETN'', map char_of [236, 138, 164, 237, 140, 169 :: nat], ''SPAC'']"

definition hashable :: "json \<Rightarrow> bool" where
  "hashable v \<longleftrightarrow> (case v of JList _ \<Rightarrow> False | JObj _ \<Rightarrow> False | _ \<Rightarrow> True)"

definition unhashable_error :: py_exn where "unhashable_error = Exn TypeError ''unhashable type''"

text \<open>\<open>kw in name\<close>.\<close>

definition name_contains :: "string \<Rightarrow> json \<Rightarrow> bool res" where
  "name_contains kw v =
     (case v of
        JStr s \<Rightarrow> Inr (contains kw s)
      | JList l \<Rightarrow> Inr (JStr kw \<in> set l)
      | JObj kvs \<Rightarrow> Inr (kw \<in> set (map fst kvs))
      | _ \<Rightarrow> Inl (Exn TypeError ''argument is not iterable''))"

fun any_keyword :: "string list \<Rightarrow> json \<Rightarrow> bool res" where
  "any_keyword [] v = Inr False"
| "any_keyword (k # ks) v = rbind (name_contains k v) (\<lambda>b. if b then Inr True else any_keyword ks v)"

definition add_untradeable :: "string \<Rightarrow> string set \<Rightarrow> string set" where
  "add_untradeable symbol blocked = insert symbol blocked"

definition is_blocked :: "string set \<Rightarrow> json \<Rightarrow> bool" where
  "is_blocked blocked v = (case v of JStr s \<Rightarrow> s \<in> blocked | _ \<Rightarrow> False)"

fun filter_untradeable :: "string set \<Rightarrow> json list \<Rightarrow> json list res" where
  "filter_untradeable blocked [] = Inr []"
| "filter_untradeable blocked (v # vs) =
     rbind (as_dict v) (\<lambda>s.
       let name = jget_or ''name'' (JStr []) s; symbol = jget_or ''symbol'' (JStr []) s
       in if \<not> hashable symbol then Inl unhashable_error
          else if is_blocked blocked symbol then filter_untradeable blocked vs
          else rbind (any_keyword excluded_names name) (\<lambda>excluded.
            rbind (filter_untradeable blocked vs) (\<lambda>rest. Inr (if excluded then rest else v # rest))))"

section \<open>Prices\<close>

text \<open>\<open>float(str(raw).replace(",", ""))\<close>.\<close>

definition listed_price :: "json \<Rightarrow> real option" where
  "listed_price v =
     (case v of JNum r \<Rightarrow> Some r | JStr s \<Rightarrow> float_of_text (filter (\<lambda>c. c \<noteq> CHR '','') s) | _ \<Rightarrow> None)"

definition add_price :: "json_object \<Rightarrow> (json \<rightharpoonup> real) \<Rightarrow> (json \<rightharpoonup> real)" where
  "add_price item lookup =
     (let key = jget_or ''symbol'' (jget_or ''code'' (JStr []) item) item;
          raw = jget_or ''price'' (jget_or ''current_price'' (JNum 0) item) item
      in if \<not> truthy key \<or> \<not> hashable key then lookup
         else case listed_price raw of
             Some price \<Rightarrow> if 0 < price then lookup(key \<mapsto> price) else lookup
           | None \<Rightarrow> lookup)"

fun build_price_lookup :: "json list \<Rightarrow> (json \<rightharpoonup> real) \<Rightarrow> (json \<rightharpoonup> real) res" where
  "build_price_lookup [] lookup = Inr lookup"
| "build_price_lookup (v # vs) lookup = rbind (as_dict v) (\<lambda>item. build_price_lookup vs (add_price item lookup))"

section \<open>The selection\<close>

text \<open>A buy stays if its price is not known or the cash pays for one share; other directions stay.\<close>

definition affordable :: "real \<Rightarrow> (json \<rightharpoonup> real) \<Rightarrow> json_object \<Rightarrow> bool" where
  "affordable cash lookup s =
     (jget ''direction'' s \<noteq> Some (JStr ''BUY'') \<or>
      opt_or (lookup (jget_or ''symbol'' (JStr []) s)) 0 \<le> 0 \<or>
      opt_or (lookup (jget_or ''symbol'' (JStr []) s)) 0 \<le> cash)"

fun filter_affordable :: "real \<Rightarrow> (json \<rightharpoonup> real) \<Rightarrow> json list \<Rightarrow> json list res" where
  "filter_affordable cash lookup [] = Inr []"
| "filter_affordable cash lookup (v # vs) =
     rbind (as_dict v) (\<lambda>s.
       if jget ''direction'' s = Some (JStr ''BUY'') \<and> \<not> hashable (jget_or ''symbol'' (JStr []) s) then Inl unhashable_error
       else rbind (filter_affordable cash lookup vs) (\<lambda>rest. Inr (if affordable cash lookup s then v # rest else rest)))"

text \<open>What is selected has to be a list whose first eight rows are objects: they are summed up for the log.\<close>

definition selected_rows :: "json \<Rightarrow> json list res" where
  "selected_rows v = (case v of JList l \<Rightarrow> Inr l | JStr [] \<Rightarrow> Inr [] | _ \<Rightarrow> Inl (Exn TypeError ''no list''))"

definition select_rows :: "real \<Rightarrow> json list \<Rightarrow> json \<Rightarrow> json list res" where
  "select_rows cash ranks selected =
     rbind (selected_rows selected) (\<lambda>rows.
       rbind (if 0 < cash \<and> rows \<noteq> [] then rbind (build_price_lookup ranks Map.empty) (\<lambda>lookup. filter_affordable cash lookup rows)
              else Inr rows) (\<lambda>kept.
         rbind (rmap as_dict (take 8 kept)) (\<lambda>_. Inr kept)))"

record scan_report =
  rep_selected :: "json list"
  rep_analysis :: json
  rep_regime :: json
  rep_sectors :: json
  rep_max_per_stock :: real
  rep_provider :: llm_provider

record scan_inputs =
  sci_balance :: "account_balance res"
  sci_holdings :: "broker_holding list res"
  sci_volume :: "json list res"
  sci_surge :: "json list res"
  sci_drop :: "json list res"
  sci_max_pct :: "real option option"

text \<open>\<open>dynamic_limits\<close> may be missing, or lack the entry.\<close>

definition max_position_share :: "real option option \<Rightarrow> real" where
  "max_position_share limits =
     (case limits of None \<Rightarrow> 1 / 5 | Some None \<Rightarrow> 20 / 100 | Some (Some pct) \<Rightarrow> pct / 100)"

definition rotation_needed :: "real \<Rightarrow> real \<Rightarrow> broker_holding list \<Rightarrow> bool" where
  "rotation_needed total_asset cash hs \<longleftrightarrow> 0 < total_asset \<and> cash < total_asset * (1 / 10) \<and> hs \<noteq> []"

definition minutes_until_cutoff :: "int \<Rightarrow> int \<Rightarrow> int" where
  "minutes_until_cutoff now cutoff = max 0 (py_int (of_int (cutoff - now) / 60000000))"

definition ranked :: "string set \<Rightarrow> json list res \<Rightarrow> json list res" where
  "ranked blocked stocks = rbind stocks (filter_untradeable blocked)"

text \<open>
  A query that raises ends the scan with its exception; after the model was asked, an exception makes the
  scan an empty one (the left side), with the cash.
\<close>

definition market_scan ::
  "(string \<Rightarrow> json option) \<Rightarrow> string set \<Rightarrow> scan_inputs \<Rightarrow> (string \<times> llm_provider) res \<Rightarrow> (real + scan_report) res" where
  "market_scan loads blocked inp answer =
     rbind (sci_balance inp) (\<lambda>balance.
     rbind (sci_holdings inp) (\<lambda>hs.
     rbind (ranked blocked (sci_volume inp)) (\<lambda>volume.
     rbind (ranked blocked (sci_surge inp)) (\<lambda>surge.
     rbind (ranked blocked (sci_drop inp)) (\<lambda>drops.
       let cash = bal_cash balance
       in case answer of
            Inl _ \<Rightarrow> Inr (Inl cash)
          | Inr (text, provider) \<Rightarrow>
              let parsed = parse_llm_json loads text
              in case select_rows cash (volume @ surge @ drops) (jget_or ''selected'' (JList []) parsed) of
                   Inl _ \<Rightarrow> Inr (Inl cash)
                 | Inr rows \<Rightarrow> Inr (Inr
                     \<lparr>rep_selected = rows, rep_analysis = jget_or ''market_analysis'' (JStr []) parsed,
                      rep_regime = jget_or ''market_regime'' (JStr []) parsed,
                      rep_sectors = jget_or ''leading_sectors'' (JList []) parsed,
                      rep_max_per_stock = cash * max_position_share (sci_max_pct inp), rep_provider = provider\<rparr>))))))"

section \<open>Lemmas\<close>

lemma filter_untradeable_spec:
  "filter_untradeable blocked vs = Inr ws \<Longrightarrow> v \<in> set ws \<Longrightarrow>
     v \<in> set vs \<and> (\<exists>s. v = JObj s \<and> \<not> is_blocked blocked (jget_or ''symbol'' (JStr []) s) \<and>
       any_keyword excluded_names (jget_or ''name'' (JStr []) s) = Inr False)"
  by (induction vs arbitrary: ws)
     (auto simp: Let_def rbind_eq_Inr as_dict_def split: json.splits if_splits)

lemma filter_affordable_spec:
  "filter_affordable cash lookup vs = Inr ws \<Longrightarrow>
     ws = filter (\<lambda>v. case v of JObj s \<Rightarrow> affordable cash lookup s | _ \<Rightarrow> True) vs \<and> (\<forall>v \<in> set vs. \<exists>s. v = JObj s)"
  by (induction vs arbitrary: ws) (auto simp: rbind_eq_Inr as_dict_def split: json.splits if_splits)

text \<open>A price of the lookup is one that a row of the ranks names for the symbol, and it is positive.\<close>

definition names_price :: "json \<Rightarrow> json \<Rightarrow> real \<Rightarrow> bool" where
  "names_price v key price =
     (case v of
        JObj item \<Rightarrow> jget_or ''symbol'' (jget_or ''code'' (JStr []) item) item = key \<and>
          listed_price (jget_or ''price'' (jget_or ''current_price'' (JNum 0) item) item) = Some price \<and> 0 < price
      | _ \<Rightarrow> False)"

lemma price_lookup_sound:
  assumes "build_price_lookup vs lookup = Inr lookup'" and "lookup' key = Some price"
  shows "lookup key = Some price \<or> (\<exists>v \<in> set vs. names_price v key price)"
  using assms
proof (induction vs arbitrary: lookup)
  case (Cons v vs)
  from Cons.prems(1) obtain item where item: "v = JObj item" "build_price_lookup vs (add_price item lookup) = Inr lookup'"
    by (auto simp: rbind_eq_Inr as_dict_def split: json.splits)
  from Cons.IH [OF item(2) Cons.prems(2)] show ?case
  proof
    assume "add_price item lookup key = Some price"
    then show ?thesis using item(1)
      by (auto simp: add_price_def names_price_def Let_def split: if_splits option.splits)
  qed auto
qed simp

text \<open>The prices the rows name for a symbol, and the last of them, which decides.\<close>

definition named_price :: "json \<Rightarrow> json \<Rightarrow> real option" where
  "named_price key v =
     (case v of
        JObj item \<Rightarrow>
          if jget_or ''symbol'' (jget_or ''code'' (JStr []) item) item \<noteq> key then None
          else (case listed_price (jget_or ''price'' (jget_or ''current_price'' (JNum 0) item) item) of
                  Some p \<Rightarrow> if 0 < p then Some p else None
                | None \<Rightarrow> None)
      | _ \<Rightarrow> None)"

definition last_named :: "json list \<Rightarrow> json \<Rightarrow> real option" where
  "last_named vs key = (if truthy key then first_of (rev (List.map_filter (named_price key) vs)) else None)"

lemma named_price_iff: "named_price key v = Some p \<longleftrightarrow> names_price v key p"
  by (auto simp: named_price_def names_price_def split: json.splits option.splits)

lemma add_price_named:
  assumes "truthy key" and "hashable key"
  shows "add_price item lookup key = (case named_price key (JObj item) of None \<Rightarrow> lookup key | Some p \<Rightarrow> Some p)"
proof (cases "named_price key (JObj item)")
  case None
  then have "\<not> names_price (JObj item) key p" for p by (simp flip: named_price_iff)
  then show ?thesis using None by (auto simp: add_price_def names_price_def Let_def split: option.splits)
next
  case (Some p)
  then have "names_price (JObj item) key p" by (simp add: named_price_iff)
  then show ?thesis using assms Some by (auto simp: add_price_def names_price_def Let_def)
qed

lemma price_lookup_named:
  assumes "truthy key" and "hashable key"
  shows "build_price_lookup vs lookup = Inr lookup' \<Longrightarrow>
    lookup' key = (case last_named vs key of None \<Rightarrow> lookup key | Some p \<Rightarrow> Some p)"
proof (induction vs arbitrary: lookup)
  case (Cons v vs)
  then obtain item where v: "v = JObj item" "build_price_lookup vs (add_price item lookup) = Inr lookup'"
    by (auto simp: rbind_eq_Inr as_dict_def split: json.splits)
  show ?case
    using Cons.IH [OF v(2)] add_price_named [OF assms, of item lookup] assms(1) v(1)
    by (cases "rev (List.map_filter (named_price key) vs)")
      (auto simp: last_named_def first_of_def map_filter_simps split: option.splits)
qed (simp add: last_named_def first_of_def map_filter_simps)

lemma price_lookup_falsy:
  "\<not> truthy key \<Longrightarrow> build_price_lookup vs lookup = Inr lookup' \<Longrightarrow> lookup' key = lookup key"
  by (induction vs arbitrary: lookup) (auto simp: rbind_eq_Inr add_price_def Let_def split: option.splits if_splits)

lemma last_named_pos: "last_named vs key = Some p \<Longrightarrow> 0 < p \<and> (\<exists>v \<in> set vs. names_price v key p)"
proof -
  assume "last_named vs key = Some p"
  then have "p \<in> set (List.map_filter (named_price key) vs)"
    by (auto simp: last_named_def first_of_def split: list.splits if_splits)
  then obtain v where "v \<in> set vs" "named_price key v = Some p" by (auto simp: map_filter_def)
  then show ?thesis by (auto simp: named_price_iff names_price_def split: json.splits)
qed

text \<open>A buy whose symbol has a last named price above the cash.\<close>

definition symbol_of :: "json_object \<Rightarrow> json" where
  "symbol_of s = jget_or ''symbol'' (JStr []) s"

definition too_dear :: "real \<Rightarrow> json list \<Rightarrow> json \<Rightarrow> bool" where
  "too_dear cash ranks v \<longleftrightarrow> (\<exists>s p. v = JObj s \<and> jget ''direction'' s = Some (JStr ''BUY'') \<and>
     last_named ranks (symbol_of s) = Some p \<and> cash < p)"

lemma filter_affordable_hashable:
  "filter_affordable cash lookup vs = Inr ws \<Longrightarrow> JObj s \<in> set vs \<Longrightarrow> jget ''direction'' s = Some (JStr ''BUY'') \<Longrightarrow>
     hashable (symbol_of s)"
  by (induction vs arbitrary: ws) (auto simp: rbind_eq_Inr as_dict_def symbol_of_def split: json.splits if_splits)

lemma filter_affordable_dear:
  assumes "build_price_lookup ranks Map.empty = Inr lookup" and "filter_affordable cash lookup vs = Inr ws"
  shows "ws = filter (\<lambda>v. \<not> too_dear cash ranks v) vs"
proof -
  have "(case v of JObj s \<Rightarrow> affordable cash lookup s | _ \<Rightarrow> True) \<longleftrightarrow> \<not> too_dear cash ranks v" if "v \<in> set vs" for v
  proof -
    from filter_affordable_spec [OF assms(2)] that obtain s where v: "v = JObj s" by blast
    show ?thesis
    proof (cases "jget ''direction'' s = Some (JStr ''BUY'')")
      case True
      have "lookup (symbol_of s) = last_named ranks (symbol_of s)"
      proof (cases "truthy (symbol_of s)")
        case T: True
        then show ?thesis
          using price_lookup_named [OF T filter_affordable_hashable [OF assms(2) that [unfolded v] True] assms(1)]
          by (auto split: option.splits)
      next
        case False
        then show ?thesis using price_lookup_falsy [OF False assms(1)] by (simp add: last_named_def)
      qed
      then show ?thesis using v True last_named_pos [of ranks "symbol_of s"]
        by (cases "last_named ranks (symbol_of s)") (auto simp: affordable_def too_dear_def symbol_of_def num_or_def)
    qed (simp add: v affordable_def too_dear_def)
  qed
  then show ?thesis using filter_affordable_spec [OF assms(2)] by (auto intro: filter_cong)
qed

lemma price_lookup_last:
  assumes "build_price_lookup (vs @ [JObj item]) Map.empty = Inr lookup"
    and "names_price (JObj item) (JStr symbol) price" and "symbol \<noteq> []"
  shows "lookup (JStr symbol) = Some price"
proof -
  have step: "build_price_lookup (us @ [JObj item]) m = Inr lookup \<Longrightarrow> \<exists>m'. lookup = add_price item m'" for us m
    by (induction us arbitrary: m) (auto simp: rbind_eq_Inr as_dict_def)
  from step [OF assms(1)] obtain m where "lookup = add_price item m" by blast
  then show ?thesis using assms(2,3)
    by (auto simp: names_price_def add_price_def truthy_def hashable_def Let_def)
qed

lemma scan_reports:
  assumes "market_scan loads blocked inp (Inr (answer, provider)) = Inr (Inr rep)" and "sci_balance inp = Inr b"
  shows "\<exists>volume surge drops. ranked blocked (sci_volume inp) = Inr volume \<and> ranked blocked (sci_surge inp) = Inr surge \<and>
    ranked blocked (sci_drop inp) = Inr drops \<and>
    select_rows (bal_cash b) (volume @ surge @ drops) (jget_or ''selected'' (JList []) (parse_llm_json loads answer)) =
      Inr (rep_selected rep)"
proof -
  from assms obtain volume surge drops where r: "ranked blocked (sci_volume inp) = Inr volume"
      "ranked blocked (sci_surge inp) = Inr surge" "ranked blocked (sci_drop inp) = Inr drops"
    by (auto simp: market_scan_def rbind_eq_Inr)
  with assms show ?thesis
    by (cases "select_rows (bal_cash b) (volume @ surge @ drops) (jget_or ''selected'' (JList []) (parse_llm_json loads answer))")
       (auto simp: market_scan_def rbind_eq_Inr Let_def)
qed

text \<open>Without cash nothing is filtered, and a symbol that cannot be traded is kept out of the ranks only, not out of the selection.\<close>

lemma selection_not_checked_against_block:
  assumes "ranked (insert symbol blocked) (sci_volume inp) = Inr []" and "ranked (insert symbol blocked) (sci_surge inp) = Inr []"
    and "ranked (insert symbol blocked) (sci_drop inp) = Inr []" and "sci_balance inp = Inr b" and "sci_holdings inp = Inr hs"
    and "parse_llm_json loads answer = [(''selected'', JList [JObj [(''symbol'', JStr symbol), (''direction'', JStr ''BUY'')]])]"
  shows "\<exists>rep. market_scan loads (add_untradeable symbol blocked) inp (Inr (answer, p)) = Inr (Inr rep) \<and>
    rep_selected rep = [JObj [(''symbol'', JStr symbol), (''direction'', JStr ''BUY'')]]"
  using assms by (simp add: market_scan_def add_untradeable_def Let_def jget_or_def jget_def select_rows_def selected_rows_def
      as_dict_def hashable_def affordable_def)

section \<open>Properties\<close>

text \<open>
  C27: A scan with cash offers exactly the rows the model selected without the buys that cannot be paid for:
  a buy is left out iff the rows of the ranks, by volume, then by gain, then by loss, after the stocks
  that cannot be traded were taken out, name a price for its symbol and the last price they name is
  above the cash of the account.
\<close>

theorem scan_offers_affordable_buys:
  assumes "market_scan loads blocked inp (Inr (answer, provider)) = Inr (Inr rep)" and "sci_balance inp = Inr b" and "0 < bal_cash b"
  shows "\<exists>volume surge drops given.
    ranked blocked (sci_volume inp) = Inr volume \<and> ranked blocked (sci_surge inp) = Inr surge \<and>
    ranked blocked (sci_drop inp) = Inr drops \<and>
    (\<forall>v \<in> set (volume @ surge @ drops). \<exists>row. v = JObj row \<and> \<not> is_blocked blocked (symbol_of row)) \<and>
    selected_rows (jget_or ''selected'' (JList []) (parse_llm_json loads answer)) = Inr given \<and>
    rep_selected rep = filter (\<lambda>v. \<not> too_dear (bal_cash b) (volume @ surge @ drops) v) given"
proof -
  obtain volume surge drops where
      ranks: "ranked blocked (sci_volume inp) = Inr volume" "ranked blocked (sci_surge inp) = Inr surge"
        "ranked blocked (sci_drop inp) = Inr drops"
      and rows: "select_rows (bal_cash b) (volume @ surge @ drops)
          (jget_or ''selected'' (JList []) (parse_llm_json loads answer)) = Inr (rep_selected rep)"
    using scan_reports [OF assms(1,2)] by blast
  have tradeable: "\<exists>row. v = JObj row \<and> \<not> is_blocked blocked (symbol_of row)" if "v \<in> set (volume @ surge @ drops)" for v
  proof -
    from that ranks obtain vs ws where "filter_untradeable blocked vs = Inr ws" "v \<in> set ws"
      by (auto simp: ranked_def rbind_eq_Inr)
    then show ?thesis using filter_untradeable_spec unfolding symbol_of_def by blast
  qed
  from rows obtain given where given: "selected_rows (jget_or ''selected'' (JList []) (parse_llm_json loads answer)) = Inr given"
    by (auto simp: select_rows_def rbind_eq_Inr)
  have "rep_selected rep = filter (\<lambda>v. \<not> too_dear (bal_cash b) (volume @ surge @ drops) v) given"
  proof (cases "given = []")
    case False
    with rows given assms(3) obtain lookup where "build_price_lookup (volume @ surge @ drops) Map.empty = Inr lookup"
        "filter_affordable (bal_cash b) lookup given = Inr (rep_selected rep)"
      by (auto simp: select_rows_def rbind_eq_Inr)
    then show ?thesis by (rule filter_affordable_dear)
  qed (use rows given in \<open>simp add: select_rows_def rbind_eq_Inr\<close>)
  then show ?thesis using ranks tradeable given by blast
qed

definition sample_rank :: json where
  "sample_rank = JObj [(''symbol'', JStr ''005930''), (''name'', JStr ''stock''), (''price'', JNum 70)]"

definition sample_choice :: json_object where
  "sample_choice = [(''symbol'', JStr ''005930''), (''direction'', JStr ''BUY'')]"

definition sample_scan :: scan_inputs where
  "sample_scan = \<lparr>sci_balance = Inr \<lparr>bal_total_asset = 50, bal_cash = 50, bal_stock_value = 0, bal_total_pnl = 0,
       bal_total_pnl_rate = 0, bal_is_valid = True\<rparr>, sci_holdings = Inr [], sci_volume = Inr [sample_rank], sci_surge = Inr [],
     sci_drop = Inr [], sci_max_pct = None\<rparr>"

text \<open>With 50 won of cash a share at 70 won is not offered.\<close>

lemma scan_offers_affordable_buys_witness:
  "\<exists>loads rep. market_scan loads {} sample_scan (Inr (''{}'', CODEX)) = Inr (Inr rep) \<and>
     parse_llm_json loads ''{}'' = [(''selected'', JList [JObj sample_choice])] \<and> rep_selected rep = []"
proof -
  let ?loads = "\<lambda>t. if t = ''{}'' then Some (JObj [(''selected'', JList [JObj sample_choice])]) else None"
  let ?rep = "\<lparr>rep_selected = [], rep_analysis = JStr [], rep_regime = JStr [], rep_sectors = JList [],
     rep_max_per_stock = 10, rep_provider = CODEX\<rparr>"
  have braces: "json_candidates ''{}'' = [''{}'', ''{}'', ''{}'']" by code_simp
  have kw: "any_keyword excluded_names (JStr ''stock'') = Inr False" by code_simp
  have parsed: "parse_llm_json ?loads ''{}'' = [(''selected'', JList [JObj sample_choice])]"
    using braces by (simp add: parse_llm_json_def first_parsed_def try_parse_def)
  then have run: "market_scan ?loads {} sample_scan (Inr (''{}'', CODEX)) = Inr (Inr ?rep)"
    by (simp add: market_scan_def sample_scan_def ranked_def sample_rank_def as_dict_def jget_or_def jget_def hashable_def
        is_blocked_def kw select_rows_def selected_rows_def add_price_def listed_price_def truthy_def affordable_def
        sample_choice_def num_or_def max_position_share_def Let_def)
  have rank: "ranked {} (Inr [sample_rank]) = Inr [sample_rank]" "ranked {} (Inr []) = Inr []"
    by (simp_all add: ranked_def sample_rank_def as_dict_def jget_or_def jget_def is_blocked_def hashable_def kw Let_def)
  have "named_price (symbol_of sample_choice) sample_rank = Some 70"
    by (simp add: named_price_iff names_price_def sample_rank_def sample_choice_def symbol_of_def jget_or_def jget_def listed_price_def)
  then have "too_dear 50 [sample_rank] (JObj sample_choice)"
    by (simp add: too_dear_def last_named_def first_of_def map_filter_simps)
      (simp add: sample_choice_def symbol_of_def jget_or_def jget_def truthy_def)
  then have "\<exists>given. selected_rows (JList [JObj sample_choice]) = Inr given \<and>
      filter (\<lambda>v. \<not> too_dear 50 [sample_rank] v) given = []" by (simp add: selected_rows_def)
  moreover have "rep_selected ?rep = []"
    using scan_offers_affordable_buys [OF run] rank parsed calculation
    by (auto simp: sample_scan_def jget_or_def jget_def selected_rows_def)
  ultimately show ?thesis using run parsed by blast
qed

end
