(* ===== verification/News_Ingest.thy ===== *)
theory News_Ingest
  imports Llm_Json Llm_Router News_Gate Broker_Api Kiwoom_Rest
begin

text \<open>
  How news get into the table: the translation of an item (\<open>services/news_translation_service.py\<close>), the
  symbols it is about, its normal form, and the check for duplicates (\<open>services/news_ingest_service.py\<close>).

  A raw item is a record of what the fetchers put into their dicts; a text that is missing is empty.
  The hash, the reading and the writing of a time are parameters, as is \<open>json.loads\<close>; times are of KST, as the
  fetchers give them. The members of an object keep no order: a member that is set again moves to the end. The table holds what the session sees, with rows written before.
\<close>

section \<open>Items\<close>

record raw_news =
  rw_source_code :: string
  rw_title :: string
  rw_summary :: string
  rw_body :: string
  rw_url :: string
  rw_external_id :: string
  rw_language :: string
  rw_published :: string
  rw_sentiment_label :: "string option"
  rw_sentiment_score :: "real option"
  rw_impact_score :: "real option"
  rw_trust_score :: "real option"
  rw_symbols :: "string list"
  rw_metadata :: json_object

record news_item =
  ni_source_code :: string
  ni_source_name :: string
  ni_source_tier :: string
  ni_region :: string
  ni_official :: bool
  ni_language :: string
  ni_title :: string
  ni_summary :: "string option"
  ni_body :: "string option"
  ni_url :: "string option"
  ni_external_id :: "string option"
  ni_published :: pydt
  ni_sentiment_label :: "string option"
  ni_sentiment_score :: real
  ni_impact_score :: real
  ni_trust_score :: real
  ni_symbols_csv :: string
  ni_metadata :: "json_object option"
  ni_dedupe_hash :: string

record news_source =
  so_code :: string
  so_name :: string
  so_tier :: string
  so_region :: string
  so_official :: bool
  so_trust :: real
  so_language :: string

definition dart_name :: string where
  "dart_name = map char_of [234, 184, 136, 236, 156, 181, 234, 176, 144, 235, 143, 133, 236, 155, 144, 32, 236, 160, 132, 236, 158, 144,
     234, 179, 181, 236, 139, 156 :: nat]"

definition krx_name :: string where
  "krx_name = map char_of [237, 149, 156, 234, 181, 173, 234, 177, 176, 235, 158, 152, 236, 134, 140, 32, 234, 179, 181, 236, 139, 156, 47,
     236, 139, 156, 236, 158, 165, 234, 179, 181, 236, 167, 128 :: nat]"

definition yonhap_name :: string where
  "yonhap_name = map char_of [236, 151, 176, 237, 149, 169, 235, 137, 180, 236, 138, 164, 32, 234, 178, 189, 236, 160, 156 :: nat]"

definition foreign_source :: "string \<Rightarrow> string \<Rightarrow> bool \<Rightarrow> real \<Rightarrow> news_source" where
  "foreign_source code name official trust =
     \<lparr>so_code = code, so_name = name, so_tier = ''B'', so_region = ''GLOBAL'', so_official = official, so_trust = trust, so_language = ''en''\<rparr>"

definition news_catalog :: "news_source list" where
  "news_catalog =
     [\<lparr>so_code = ''DART'', so_name = dart_name, so_tier = ''A'', so_region = ''KR'', so_official = True, so_trust = 1, so_language = ''ko''\<rparr>,
      \<lparr>so_code = ''KRX'', so_name = krx_name, so_tier = ''A'', so_region = ''KR'', so_official = True, so_trust = 1, so_language = ''ko''\<rparr>,
      \<lparr>so_code = ''YONHAP'', so_name = yonhap_name, so_tier = ''B'', so_region = ''KR'', so_official = False, so_trust = 82 / 100,
       so_language = ''ko''\<rparr>,
      foreign_source ''REUTERS'' ''Reuters Markets'' False (90 / 100),
      foreign_source ''BLOOMBERG'' ''Bloomberg Markets'' False (88 / 100),
      foreign_source ''CNBC'' ''CNBC Markets'' False (84 / 100),
      foreign_source ''NASDAQ'' ''Nasdaq Markets'' True (86 / 100),
      foreign_source ''INVESTING'' ''Investing.com Stock Market News'' False (83 / 100),
      foreign_source ''SEEKING_ALPHA'' ''Seeking Alpha All News'' False (81 / 100)]"

section \<open>Translation\<close>

definition jset :: "string \<Rightarrow> json \<Rightarrow> json_object \<Rightarrow> json_object" where
  "jset k v kvs = filter (\<lambda>(k', _). k' \<noteq> k) kvs @ [(k, v)]"

definition jsetdefault :: "string \<Rightarrow> json \<Rightarrow> json_object \<Rightarrow> json_object" where
  "jsetdefault k v kvs = (if jget k kvs = None then kvs @ [(k, v)] else kvs)"

definition jdrop :: "string \<Rightarrow> json_object \<Rightarrow> json_object" where
  "jdrop k kvs = filter (\<lambda>(k', _). k' \<noteq> k) kvs"

text \<open>The fields of the payload are texts and a score that \<open>float\<close> accepts or not.\<close>

definition payload_text :: "string \<Rightarrow> json_object \<Rightarrow> string" where
  "payload_text k payload = strip (text_of (jget_or k (JStr []) payload))"

text \<open>\<open>te_refusal\<close> is what \<open>json\<close> says of a text it refuses, \<open>te_class\<close> the name of an exception's class.\<close>

record translate_env =
  te_loads :: "string \<Rightarrow> json option"
  te_refusal :: "string \<Rightarrow> string"
  te_class :: "py_exn \<Rightarrow> string"

definition answer_payload :: "translate_env \<Rightarrow> string \<Rightarrow> json_object res" where
  "answer_payload env result =
     (case braced result of
        None \<Rightarrow> Inl (Exn ValueError ''translation JSON parse failed'')
      | Some t \<Rightarrow> (case try_parse (te_loads env) t of
            None \<Rightarrow> Inl (Exn ValueError (te_refusal env t))
          | Some [] \<Rightarrow> Inl (Exn ValueError ''translation JSON parse failed'')
          | Some payload \<Rightarrow> Inr payload))"

definition translated_metadata :: "json_object \<Rightarrow> string \<Rightarrow> json_object \<Rightarrow> json_object" where
  "translated_metadata payload provider metadata =
     (let m1 = (if payload_text ''translated_title'' payload = [] then metadata
                else jset ''translated_title'' (JStr (payload_text ''translated_title'' payload)) metadata);
          m2 = (if payload_text ''translated_summary'' payload = [] then m1
                else jset ''translated_summary'' (JStr (payload_text ''translated_summary'' payload)) m1)
      in jdrop ''translation_error'' (jset ''translation_status'' (JStr ''SUCCESS'') (jset ''translation_provider'' (JStr provider) m2)))"

definition failed_metadata :: "translate_env \<Rightarrow> py_exn \<Rightarrow> json_object \<Rightarrow> json_object" where
  "failed_metadata env e metadata =
     jset ''translation_error'' (JStr (take 120 (str_or (strip (exn_text e)) (te_class env e))))
       (jset ''translation_status'' (JStr ''FAILED'') metadata)"

definition translate_item :: "translate_env \<Rightarrow> bool \<Rightarrow> (string \<times> llm_provider) res \<Rightarrow> raw_news \<Rightarrow> raw_news" where
  "translate_item env enabled answer item =
     (if strip (rw_title item) = [] \<or> \<not> enabled then item
      else case rbind answer (\<lambda>(result, provider). rbind (answer_payload env result) (\<lambda>payload. Inr (payload, provider))) of
          Inl e \<Rightarrow> item\<lparr>rw_metadata := failed_metadata env e (rw_metadata item)\<rparr>
        | Inr (payload, provider) \<Rightarrow>
            let metadata = translated_metadata payload (llm_provider_value provider) (rw_metadata item);
                label = jget_or ''sentiment_label'' JNull payload; score = jget_or ''sentiment_score'' JNull payload;
                labelled = (if truthy label then item\<lparr>rw_sentiment_label := Some (upper (text_of label))\<rparr> else item)
            in if score = JNull then labelled\<lparr>rw_metadata := metadata\<rparr>
               else (case py_float score of
                   Inr s \<Rightarrow> labelled\<lparr>rw_metadata := metadata, rw_sentiment_score := Some s\<rparr>
                 | Inl e \<Rightarrow> labelled\<lparr>rw_metadata := failed_metadata env e metadata\<rparr>))"

text \<open>Korean items and, without the model, all are passed on as they are.\<close>

definition needs_translation :: "bool \<Rightarrow> raw_news \<Rightarrow> bool" where
  "needs_translation enabled item \<longleftrightarrow> enabled \<and> \<not> is_prefix ''ko'' (lower (rw_language item))"

definition translate_items ::
  "translate_env \<Rightarrow> bool \<Rightarrow> (raw_news \<Rightarrow> (string \<times> llm_provider) res) \<Rightarrow> raw_news list \<Rightarrow> raw_news list" where
  "translate_items env enabled answers items =
     map (\<lambda>i. if needs_translation enabled i then translate_item env enabled (answers i) i else i) items"

section \<open>The stocks an item is about\<close>

record stock_row =
  sk_symbol :: string
  sk_name :: string
  sk_category :: string

text \<open>The number of characters of a UTF-8 text.\<close>

definition char_len :: "string \<Rightarrow> nat" where
  "char_len s = length (filter (\<lambda>c. \<not> (128 \<le> (of_char c :: nat) \<and> (of_char c :: nat) < 192)) s)"

text \<open>The first occurrences, in order.\<close>

definition first_only :: "'a list \<Rightarrow> 'a list" where "first_only xs = rev (remdups (rev xs))"

definition stock_rows :: "(string \<times> string \<times> string) list \<Rightarrow> stock_row list" where
  "stock_rows rows =
     sort_key (\<lambda>r. - int (char_len (sk_name r)))
       (map (\<lambda>(s, n, c). \<lparr>sk_symbol = normalize_krx_symbol s, sk_name = strip n, sk_category = strip c\<rparr>)
          (filter (\<lambda>(s, n, c). strip n \<noteq> []) rows))"

definition stock_by_symbol :: "stock_row list \<Rightarrow> string \<Rightarrow> stock_row option" where
  "stock_by_symbol rows s = (if s = [] then None else find (\<lambda>r. sk_symbol r = s) (rev rows))"

definition category_symbols :: "stock_row list \<Rightarrow> string \<Rightarrow> string list" where
  "category_symbols rows c =
     first_only (map sk_symbol (filter (\<lambda>r. sk_category r = c \<and> c \<noteq> [] \<and> sk_symbol r \<noteq> []) rows))"

definition category_rows :: "stock_row list \<Rightarrow> string list" where
  "category_rows rows =
     sort_key (\<lambda>c. - int (char_len c))
       (first_only (map sk_category (filter (\<lambda>r. sk_category r \<noteq> [] \<and> sk_symbol r \<noteq> []) rows)))"

definition normalize_symbols :: "string list \<Rightarrow> string list" where
  "normalize_symbols symbols = first_only (filter (\<lambda>s. s \<noteq> []) (map (\<lambda>s. normalize_krx_symbol (strip s)) symbols))"

definition position_in :: "string \<Rightarrow> string \<Rightarrow> nat option" where
  "position_in hay needle = map_option (\<lambda>(before, _). length before) (split_at needle hay)"

text \<open>The places where a name of at least two characters occurs, by place and, at one place, the longer first.\<close>

definition found_at :: "('a \<Rightarrow> string) \<Rightarrow> string \<Rightarrow> 'a list \<Rightarrow> (nat \<times> 'a) list" where
  "found_at name hay xs =
     sort_key fst (sort_key (\<lambda>(_, x). - int (char_len (name x)))
       (concat (map (\<lambda>x. if char_len (name x) < 2 then []
                         else case position_in hay (name x) of None \<Rightarrow> [] | Some p \<Rightarrow> [(p, x)]) xs)))"

fun pick_stocks :: "nat \<Rightarrow> string set \<Rightarrow> stock_row list \<Rightarrow> stock_row list" where
  "pick_stocks n seen [] = []"
| "pick_stocks n seen (r # rs) =
     (if n = 0 then []
      else if sk_name r \<in> seen then pick_stocks n seen rs
      else r # pick_stocks (n - 1) (insert (sk_name r) seen) rs)"

fun pick_categories :: "nat \<Rightarrow> string set \<Rightarrow> (nat \<times> nat) list \<Rightarrow> (nat \<times> string) list \<Rightarrow> string list" where
  "pick_categories n seen occupied [] = []"
| "pick_categories n seen occupied ((p, c) # rest) =
     (if n = 0 then []
      else if c \<in> seen \<or> list_ex (\<lambda>(a, b). \<not> (p + length c \<le> a \<or> b \<le> p)) occupied then pick_categories n seen occupied rest
      else c # pick_categories (n - 1) (insert c seen) ((p, p + length c) # occupied) rest)"

definition haystack :: "raw_news \<Rightarrow> string" where
  "haystack item =
     rw_title item @ '' '' @ rw_summary item @ '' '' @ text_of (jget_or ''translated_title'' (JStr []) (rw_metadata item))
     @ '' '' @ text_of (jget_or ''translated_summary'' (JStr []) (rw_metadata item))"

section \<open>What the metadata say of the symbols\<close>

definition texts :: "string list \<Rightarrow> json" where "texts ss = JList (map JStr ss)"

definition weights :: "real \<Rightarrow> string list \<Rightarrow> json" where "weights w ss = JObj (map (\<lambda>s. (s, JNum w)) ss)"

definition string_items :: "json \<Rightarrow> string list" where
  "string_items v = (case v of JList l \<Rightarrow> map text_of l | JStr t \<Rightarrow> [t] | _ \<Rightarrow> [])"

definition source_reaction_weights :: "(string \<times> real) list" where
  "source_reaction_weights =
     [(''DART'', 112 / 100), (''KRX'', 110 / 100), (''YONHAP'', 103 / 100), (''REUTERS'', 105 / 100), (''BLOOMBERG'', 106 / 100),
      (''CNBC'', 105 / 100), (''NASDAQ'', 105 / 100), (''INVESTING'', 104 / 100), (''SEEKING_ALPHA'', 102 / 100)]"

definition theme_base_weights :: "(string \<times> real) list" where
  "theme_base_weights =
     [(map char_of [65, 73, 235, 176, 152, 235, 143, 132, 236, 178, 180 :: nat], 108 / 100),
      (map char_of [235, 176, 152, 235, 143, 132, 236, 178, 180 :: nat], 106 / 100),
      (map char_of [237, 148, 140, 235, 158, 171, 237, 143, 188, 236, 157, 184, 237, 132, 176, 235, 132, 183 :: nat], 104 / 100),
      (map char_of [236, 157, 184, 237, 132, 176, 235, 132, 183 :: nat], 103 / 100)]"

definition map_or :: "'b \<Rightarrow> ('a \<times> 'b) list \<Rightarrow> 'a \<Rightarrow> 'b" where
  "map_or d kvs k = (case map_of kvs k of None \<Rightarrow> d | Some v \<Rightarrow> v)"

definition theme_weights :: "string list \<Rightarrow> (string \<times> real) list" where
  "theme_weights cats =
     map (\<lambda>(i, c). (c, py_round 2 (max (map_or (102 / 100) theme_base_weights c - real i * (2 / 100)) 1))) (enumerate 0 cats)"

definition market_reaction_weight :: "string \<Rightarrow> string list \<Rightarrow> real" where
  "market_reaction_weight source_code cats =
     py_round 2 (max (map_or 1 source_reaction_weights (upper source_code))
       (foldr max (map snd (theme_weights cats)) (if cats = [] then 1 else 0)))"

text \<open>The sector of the first symbol, with the symbols of the item that share it and then the others of the sector.\<close>

definition sector_of :: "stock_row list \<Rightarrow> string \<Rightarrow> string" where
  "sector_of rows s = (case stock_by_symbol rows s of None \<Rightarrow> [] | Some r \<Rightarrow> strip (sk_category r))"

definition sector_members :: "stock_row list \<Rightarrow> string \<Rightarrow> string list \<Rightarrow> string list" where
  "sector_members rows category symbols =
     first_only (filter (\<lambda>s. sector_of rows s = category) symbols @ category_symbols rows category)"

definition sector_metadata :: "stock_row list \<Rightarrow> string \<Rightarrow> string list \<Rightarrow> json_object \<Rightarrow> json_object" where
  "sector_metadata rows category symbols m =
     (let members = sector_members rows category symbols
      in if members = [] then m
         else
           let m1 = jsetdefault ''sector_symbols'' (texts (take 8 members)) (jsetdefault ''sector_label'' (JStr category) m)
           in if length members \<le> 1 then m1
              else jsetdefault ''sector_weights'' (weights (108 / 100) (take 8 members)) (jsetdefault ''sector_relevance'' (JNum (108 / 100)) m1))"

text \<open>The symbols of the matched categories, category by category until there are eight, with the weight of the first that names them.\<close>

fun merged_sectors ::
  "(string \<Rightarrow> string list) \<Rightarrow> nat \<Rightarrow> string list \<Rightarrow> (string \<times> real) list \<Rightarrow> string list \<Rightarrow> string list \<times> (string \<times> real) list" where
  "merged_sectors members i acc ws [] = (acc, ws)"
| "merged_sectors members i acc ws (c # cs) =
     (let acc1 = acc @ first_only (filter (\<lambda>s. s \<notin> set acc) (members c));
          ws1 = ws @ map (\<lambda>s. (s, if i = 0 then 108 / 100 else 104 / 100)) (filter (\<lambda>s. s \<notin> fst ` set ws) (members c))
      in if 8 \<le> length acc1 then (acc1, ws1) else merged_sectors members (Suc i) acc1 ws1 cs)"

definition sector_weight_dict :: "json \<Rightarrow> json_object" where
  "sector_weight_dict v = (case v of JObj kvs \<Rightarrow> kvs | _ \<Rightarrow> [])"

text \<open>\<open>float(x or 1.0)\<close>.\<close>

definition weight_or_one :: "json \<Rightarrow> real res" where
  "weight_or_one v = (if truthy v then py_float v else Inr 1)"

definition combined_weights :: "string list \<Rightarrow> (string \<times> real) list \<Rightarrow> string list \<Rightarrow> json_object \<Rightarrow> json_object" where
  "combined_weights combined ws existing kvs =
     fold (\<lambda>s kvs. case map_of ws s of
         Some w \<Rightarrow> jset s (JNum w) kvs
       | None \<Rightarrow> if s \<in> set existing then jsetdefault s (JNum (108 / 100)) kvs else kvs) combined kvs"

definition matched_sector_metadata :: "stock_row list \<Rightarrow> string list \<Rightarrow> json_object \<Rightarrow> json_object res" where
  "matched_sector_metadata rows cats m =
     (let (merged, ws) = merged_sectors (category_symbols rows) 0 [] [] cats;
          existing = normalize_symbols (string_items (jget_or ''sector_symbols'' JNull m));
          combined = take 8 (first_only (existing @ merged))
      in if merged = [] then Inr m
         else rbind (weight_or_one (jget_or ''sector_relevance'' JNull m)) (\<lambda>r. Inr
           (jset ''sector_weights'' (JObj (combined_weights combined ws existing (sector_weight_dict (jget_or ''sector_weights'' JNull m))))
             (jset ''sector_relevance'' (JNum (max r (if length cats = 1 then 108 / 100 else 106 / 100)))
               (jset ''sector_symbols'' (texts combined)
                 (jset ''sector_label'' (if truthy (jget_or ''sector_label'' JNull m) then jget_or ''sector_label'' JNull m else JStr (hd cats)) m))))))"

definition theme_metadata :: "string \<Rightarrow> string list \<Rightarrow> json_object \<Rightarrow> json_object res" where
  "theme_metadata source_code cats m =
     (if cats = [] then Inr m
      else rbind (weight_or_one (jget_or ''market_reaction_weight'' JNull m)) (\<lambda>w. Inr
        (jset ''market_reaction_weight'' (JNum (max w (market_reaction_weight source_code cats)))
          (jset ''theme_weights'' (JObj (map (\<lambda>(c, x). (c, JNum x)) (theme_weights cats))) m))))"

definition enrich_symbol_metadata ::
  "stock_row list \<Rightarrow> string \<Rightarrow> string list \<Rightarrow> string list \<Rightarrow> string list \<Rightarrow> json_object \<Rightarrow> json_object res" where
  "enrich_symbol_metadata rows source_code symbols names cats metadata =
     (case normalize_symbols symbols of
        [] \<Rightarrow> Inr metadata
      | primary # others \<Rightarrow>
          let m1 = (if names = [] then metadata else jset ''matched_stock_names'' (texts names) metadata);
              m2 = (if cats = [] then m1 else jset ''matched_sector_labels'' (texts cats) m1);
              m3 = jset ''related_symbols'' (texts (primary # others)) m2;
              m4 = jsetdefault ''symbol_weights'' (weights 1 [primary]) (jsetdefault ''primary_symbol'' (JStr primary) m3);
              m5 = (if others = [] then m4 else jsetdefault ''related_symbol_weights'' (weights (72 / 100) others) m4);
              category = sector_of rows primary
          in if category = [] then Inr m5
             else
               let m6 = sector_metadata rows category (primary # others) m5
               in rbind (if cats = [] then Inr m6 else matched_sector_metadata rows cats m6) (theme_metadata source_code cats))"

text \<open>
  An item with symbols keeps them; else the stocks it names are its symbols, or the stocks of the first
  category it names.
\<close>

definition attach_symbols :: "stock_row list \<Rightarrow> raw_news \<Rightarrow> raw_news res" where
  "attach_symbols rows item =
     (case normalize_symbols (rw_symbols item) of
        s # ss \<Rightarrow>
          rbind (enrich_symbol_metadata rows (rw_source_code item) (s # ss) [] [] (rw_metadata item)) (\<lambda>m.
            Inr (item\<lparr>rw_symbols := s # ss, rw_metadata := m\<rparr>))
      | [] \<Rightarrow>
          let stocks = pick_stocks 5 {} (map snd (found_at sk_name (haystack item) rows));
              cats = pick_categories 3 {} [] (found_at id (haystack item) (category_rows rows));
              inferred = (if stocks = [] \<and> cats \<noteq> [] then take 8 (category_symbols rows (hd cats)) else map sk_symbol stocks)
          in rbind (enrich_symbol_metadata rows (rw_source_code item) inferred (map sk_name stocks) cats (rw_metadata item)) (\<lambda>m.
               Inr (item\<lparr>rw_symbols := inferred,
                 rw_metadata := (if cats = [] then m else jsetdefault ''matched_sector_labels'' (texts cats) m)\<rparr>)))"

section \<open>The normal form\<close>

fun collapse_spaces :: "string \<Rightarrow> string" where
  "collapse_spaces (c # d # cs) =
     (if is_space c then (if is_space d then collapse_spaces (d # cs) else CHR '' '' # collapse_spaces (d # cs))
      else c # collapse_spaces (d # cs))"
| "collapse_spaces [c] = (if is_space c then [CHR '' ''] else [c])"
| "collapse_spaces [] = []"

definition normalize_title :: "string \<Rightarrow> string" where "normalize_title v = collapse_spaces (strip v)"

definition clean_text :: "string \<Rightarrow> string option" where
  "clean_text v = (if strip v = [] then None else Some (collapse_spaces (strip v)))"

definition none_if_empty :: "string \<Rightarrow> string option" where
  "none_if_empty s = (if s = [] then None else Some s)"

definition initialize_translation_metadata :: "json_object \<Rightarrow> string \<Rightarrow> json_object" where
  "initialize_translation_metadata m language =
     (if truthy (jget_or ''translated_title'' JNull m) \<or> truthy (jget_or ''translated_summary'' JNull m)
      then jsetdefault ''translation_status'' (JStr ''SUCCESS'') m
      else if truthy (jget_or ''translation_status'' JNull m) then m
      else if is_prefix ''ko'' (lower language) then jset ''translation_status'' (JStr ''SKIPPED'') m
      else jsetdefault ''translation_attempts'' (JNum 0) (jset ''translation_status'' (JStr ''PENDING'') m))"

text \<open>The time of an item without one is the time at which it is read.\<close>

definition published_time :: "(string \<Rightarrow> pydt option) \<Rightarrow> pydt \<Rightarrow> string \<Rightarrow> pydt res" where
  "published_time parse now v =
     (if strip v = [] then Inr now
      else case parse (strip v) of None \<Rightarrow> Inl (Exn ValueError ''Invalid isoformat string'') | Some t \<Rightarrow> Inr (ensure_kst t))"

definition symbols_to_csv :: "string list \<Rightarrow> string" where
  "symbols_to_csv ss = (if ss = [] then [] else '','' @ concat (map (\<lambda>s. s @ '','') ss))"

fun split_commas :: "string \<Rightarrow> string \<Rightarrow> string list" where
  "split_commas acc [] = [rev acc]"
| "split_commas acc (c # cs) = (if c = CHR '','' then rev acc # split_commas [] cs else split_commas (c # acc) cs)"

definition strip_commas :: "string \<Rightarrow> string" where
  "strip_commas s = rev (dropWhile (\<lambda>c. c = CHR '','') (rev (dropWhile (\<lambda>c. c = CHR '','') s)))"

definition symbols_from_csv :: "string \<Rightarrow> string list" where
  "symbols_from_csv csv = filter (\<lambda>s. s \<noteq> []) (split_commas [] (strip_commas csv))"

text \<open>What makes two items the same: the source, the number or else the address or else the title, and the time.\<close>

definition dedupe_payload :: "(pydt \<Rightarrow> string) \<Rightarrow> string \<Rightarrow> string option \<Rightarrow> string option \<Rightarrow> string \<Rightarrow> pydt \<Rightarrow> string" where
  "dedupe_payload isofmt source_code external_id url title published =
     source_code @ ''|'' @ (case external_id of Some e \<Rightarrow> e | None \<Rightarrow> (case url of Some u \<Rightarrow> u | None \<Rightarrow> lower title)) @ ''|'' @ isofmt published"

definition unknown_source :: "string \<Rightarrow> string \<Rightarrow> news_source" where
  "unknown_source code language =
     \<lparr>so_code = code, so_name = code, so_tier = ''C'', so_region = ''UNKNOWN'', so_official = False, so_trust = 1 / 2,
      so_language = str_or language ''ko''\<rparr>"

definition source_named :: "string \<Rightarrow> string \<Rightarrow> news_source" where
  "source_named code language =
     (case find (\<lambda>s. so_code s = code) news_catalog of Some s \<Rightarrow> s | None \<Rightarrow> unknown_source code language)"

record ingest_env =
  ie_parse :: "string \<Rightarrow> pydt option"
  ie_iso :: "pydt \<Rightarrow> string"
  ie_digest :: "string \<Rightarrow> string"

text \<open>An item without a source or a title is skipped (None).\<close>

definition normalize_item :: "ingest_env \<Rightarrow> pydt \<Rightarrow> raw_news \<Rightarrow> news_item option res" where
  "normalize_item env now raw =
     (let code = strip (upper (rw_source_code raw)); title = normalize_title (rw_title raw)
      in if code = [] \<or> title = [] then Inr None
         else
           let source = source_named code (rw_language raw);
               language = str_or (rw_language raw) (str_or (so_language source) ''ko'');
               external_id = none_if_empty (strip (rw_external_id raw));
               url = none_if_empty (strip (rw_url raw));
               metadata = initialize_translation_metadata (rw_metadata raw) language
           in rbind (published_time (ie_parse env) now (rw_published raw)) (\<lambda>published. Inr (Some
             \<lparr>ni_source_code = so_code source, ni_source_name = so_name source, ni_source_tier = so_tier source,
              ni_region = so_region source, ni_official = so_official source, ni_language = language, ni_title = title,
              ni_summary = clean_text (rw_summary raw), ni_body = clean_text (rw_body raw), ni_url = url,
              ni_external_id = external_id, ni_published = published, ni_sentiment_label = rw_sentiment_label raw,
              ni_sentiment_score = opt_or (rw_sentiment_score raw) (1 / 2), ni_impact_score = opt_or (rw_impact_score raw) 0,
              ni_trust_score = opt_or (rw_trust_score raw) (so_trust source),
              ni_symbols_csv = symbols_to_csv (normalize_symbols (rw_symbols raw)),
              ni_metadata = (if metadata = [] then None else Some metadata),
              ni_dedupe_hash = ie_digest env (dedupe_payload (ie_iso env) (so_code source) external_id url title published)\<rparr>)))"

section \<open>Taking items in\<close>

record ingest_counts =
  ic_received :: nat
  ic_created :: nat
  ic_duplicates :: nat
  ic_skipped :: nat

definition no_counts :: ingest_counts where
  "no_counts = \<lparr>ic_received = 0, ic_created = 0, ic_duplicates = 0, ic_skipped = 0\<rparr>"

record ingest_state =
  is_table :: "news_item list"
  is_summary :: ingest_counts
  is_sources :: "string \<Rightarrow> ingest_counts option"
  is_created :: "news_item list"

definition source_key :: "raw_news \<Rightarrow> string" where
  "source_key raw = str_or (strip (upper (rw_source_code raw))) ''UNKNOWN''"

definition bump :: "(ingest_counts \<Rightarrow> ingest_counts) \<Rightarrow> string \<Rightarrow> ingest_state \<Rightarrow> ingest_state" where
  "bump f key st =
     st\<lparr>is_summary := f (is_summary st),
        is_sources := (is_sources st)(key \<mapsto> f (case is_sources st key of None \<Rightarrow> no_counts | Some c \<Rightarrow> c))\<rparr>"

definition got_skipped :: "ingest_counts \<Rightarrow> ingest_counts" where
  "got_skipped c = c\<lparr>ic_received := Suc (ic_received c), ic_skipped := Suc (ic_skipped c)\<rparr>"

definition got_duplicate :: "ingest_counts \<Rightarrow> ingest_counts" where
  "got_duplicate c = c\<lparr>ic_received := Suc (ic_received c), ic_duplicates := Suc (ic_duplicates c)\<rparr>"

definition got_created :: "ingest_counts \<Rightarrow> ingest_counts" where
  "got_created c = c\<lparr>ic_received := Suc (ic_received c), ic_created := Suc (ic_created c)\<rparr>"

definition ingest_one :: "ingest_env \<Rightarrow> pydt \<Rightarrow> raw_news \<Rightarrow> ingest_state \<Rightarrow> ingest_state res" where
  "ingest_one env now raw st =
     rbind (normalize_item env now raw) (\<lambda>r. Inr
       (case r of
          None \<Rightarrow> bump got_skipped (source_key raw) st
        | Some item \<Rightarrow>
            if ni_dedupe_hash item \<in> set (map ni_dedupe_hash (is_table st)) then bump got_duplicate (source_key raw) st
            else (bump got_created (source_key raw) st)\<lparr>is_table := is_table st @ [item], is_created := is_created st @ [item]\<rparr>))"

fun ingest_all :: "ingest_env \<Rightarrow> (nat \<Rightarrow> pydt) \<Rightarrow> nat \<Rightarrow> raw_news list \<Rightarrow> ingest_state \<Rightarrow> ingest_state res" where
  "ingest_all env clock n [] st = Inr st"
| "ingest_all env clock n (raw # raws) st =
     rbind (ingest_one env (clock n) raw st) (ingest_all env clock (Suc n) raws)"

definition fresh_ingest :: "news_item list \<Rightarrow> ingest_state" where
  "fresh_ingest table = \<lparr>is_table = table, is_summary = no_counts, is_sources = Map.empty, is_created = []\<rparr>"

text \<open>An item that raises ends the whole call.\<close>

definition ingest_items_detailed ::
  "ingest_env \<Rightarrow> (nat \<Rightarrow> pydt) \<Rightarrow> (string \<times> string \<times> string) list \<Rightarrow> raw_news list \<Rightarrow> news_item list \<Rightarrow> ingest_state res" where
  "ingest_items_detailed env clock stocks items table =
     (if items = [] then Inr (fresh_ingest table)
      else rbind (rmap (attach_symbols (stock_rows stocks)) items) (\<lambda>attached.
        ingest_all env clock 0 attached (fresh_ingest table)))"

text \<open>The row the news gate reads: SQLite keeps the wall clock of the times.\<close>

definition gate_row :: "pydt \<Rightarrow> news_item \<Rightarrow> news_row" where
  "gate_row created i =
     \<lparr>nr_source_code = ni_source_code i, nr_source_tier = ni_source_tier i, nr_official = ni_official i, nr_title = ni_title i,
      nr_published_at = strip_tz (ni_published i), nr_created_at = strip_tz created, nr_sentiment_label = ni_sentiment_label i,
      nr_sentiment_score = ni_sentiment_score i, nr_impact_score = ni_impact_score i, nr_trust_score = ni_trust_score i,
      nr_symbols_csv = ni_symbols_csv i, nr_metadata = map_option JObj (ni_metadata i)\<rparr>"

section \<open>Lemmas\<close>

lemma first_only_set [simp]: "set (first_only xs) = set xs" and first_only_distinct [simp]: "distinct (first_only xs)"
  by (simp_all add: first_only_def)

lemma normalize_symbols_props: "distinct (normalize_symbols ss)" "s \<in> set (normalize_symbols ss) \<Longrightarrow> s \<noteq> [] \<and> normalize_krx_symbol s = s"
  by (auto simp: normalize_symbols_def)

text \<open>The weights of the themes lie between one and the highest base weight, and those of the market at or above one.\<close>

lemma theme_weights_bounds:
  assumes "(c, w) \<in> set (theme_weights cats)"
  shows "1 \<le> w \<and> w \<le> 108 / 100"
proof -
  have base: "map_or (102 / 100) theme_base_weights c' \<le> 108 / 100" for c'
    by (auto simp: map_or_def theme_base_weights_def split: option.splits dest!: map_of_SomeD)
  from assms obtain i where w: "w = py_round 2 (max (map_or (102 / 100) theme_base_weights c - real i * (2 / 100)) 1)"
    by (auto simp: theme_weights_def)
  let ?x = "max (map_or (102 / 100) theme_base_weights c - real i * (2 / 100)) (1 :: real)"
  have "?x \<le> 108 / 100" using base [of c] by (simp add: max_def field_simps)
  then have "py_round 2 ?x \<le> py_round 2 (108 / 100)" by (rule py_round_mono)
  moreover have "py_round 2 1 \<le> py_round 2 ?x" by (rule py_round_mono) simp
  moreover have "py_round 2 1 = 1" "py_round 2 (108 / 100) = 108 / 100" by (simp_all add: py_round_def round_even_def Let_def)
  ultimately show ?thesis using w by simp
qed

text \<open>Attaching symbols changes nothing else.\<close>

lemma attach_frame:
  "attach_symbols rows item = Inr item' \<Longrightarrow> \<exists>ss m. item' = item\<lparr>rw_symbols := ss, rw_metadata := m\<rparr>"
  by (auto simp: attach_symbols_def rbind_eq_Inr Let_def split: list.splits)

text \<open>Whether an item is taken, and under which hash, depends neither on its symbols nor on its metadata nor, if it has a time, on the clock.\<close>

definition item_hash :: "news_item option res \<Rightarrow> string option res" where
  "item_hash r = map_sum id (map_option ni_dedupe_hash) r"

definition same_news :: "raw_news \<Rightarrow> raw_news \<Rightarrow> bool" where
  "same_news a b \<longleftrightarrow>
     rw_source_code a = rw_source_code b \<and> rw_title a = rw_title b \<and> rw_url a = rw_url b \<and> rw_external_id a = rw_external_id b \<and>
     rw_language a = rw_language b \<and> rw_published a = rw_published b"

lemma same_news_refl [simp]: "same_news a a"
  by (simp add: same_news_def)

lemma attach_same: "attach_symbols rows item = Inr item' \<Longrightarrow> same_news item' item"
  by (auto dest!: attach_frame simp: same_news_def)

lemma translate_same: "same_news (translate_item env enabled answer item) item"
  by (auto simp: translate_item_def same_news_def Let_def split: sum.split)

lemma hash_same:
  assumes "same_news a b" and "strip (rw_published a) \<noteq> []"
  shows "item_hash (normalize_item env now a) = item_hash (normalize_item env now' b)"
  using assms by (simp add: item_hash_def normalize_item_def published_time_def same_news_def Let_def split: option.split)

lemma ingest_one_cases:
  assumes "ingest_one env now raw st = Inr st'"
  obtains (skipped) "item_hash (normalize_item env now raw) = Inr None" "st' = bump got_skipped (source_key raw) st"
  | (duplicate) h where "item_hash (normalize_item env now raw) = Inr (Some h)" "h \<in> set (map ni_dedupe_hash (is_table st))"
      "st' = bump got_duplicate (source_key raw) st"
  | (created) item where "normalize_item env now raw = Inr (Some item)" "ni_dedupe_hash item \<notin> set (map ni_dedupe_hash (is_table st))"
      "st' = (bump got_created (source_key raw) st)\<lparr>is_table := is_table st @ [item], is_created := is_created st @ [item]\<rparr>"
proof -
  from assms obtain r where r: "normalize_item env now raw = Inr r" by (auto simp: ingest_one_def rbind_eq_Inr)
  show thesis
  proof (cases r)
    case None
    with r assms show ?thesis by (intro skipped) (auto simp: ingest_one_def item_hash_def)
  next
    case (Some item)
    with r assms show ?thesis
      by (cases "ni_dedupe_hash item \<in> set (map ni_dedupe_hash (is_table st))")
         (auto simp: ingest_one_def item_hash_def intro: duplicate created)
  qed
qed

lemma bump_simps [simp]: "is_table (bump f k st) = is_table st" "is_created (bump f k st) = is_created st" "is_summary (bump f k st) = f (is_summary st)"
  by (simp_all add: bump_def)

definition counts_add_up :: "ingest_counts \<Rightarrow> bool" where
  "counts_add_up c \<longleftrightarrow> ic_received c = ic_created c + ic_duplicates c + ic_skipped c"

definition sources_ok :: "ingest_state \<Rightarrow> bool" where
  "sources_ok st \<longleftrightarrow>
     counts_add_up (is_summary st) \<and> finite (dom (is_sources st)) \<and> (\<forall>c \<in> ran (is_sources st). counts_add_up c) \<and>
     (\<Sum>k \<in> dom (is_sources st). ic_received (the (is_sources st k))) = ic_received (is_summary st) \<and>
     (\<Sum>k \<in> dom (is_sources st). ic_created (the (is_sources st k))) = ic_created (is_summary st)"

definition ingest_ok :: "news_item list \<Rightarrow> ingest_state \<Rightarrow> bool" where
  "ingest_ok table st \<longleftrightarrow>
     is_table st = table @ is_created st \<and> distinct (map ni_dedupe_hash (is_table st)) \<and>
     ic_created (is_summary st) = length (is_created st) \<and> sources_ok st"

lemma sum_bumped:
  fixes m :: "string \<Rightarrow> ingest_counts option" and g :: "ingest_counts \<Rightarrow> nat"
  assumes "finite (dom m)" and "g (f c) = d + g c" and "c = (case m k of None \<Rightarrow> no_counts | Some c \<Rightarrow> c)" and "g no_counts = 0"
  shows "(\<Sum>j \<in> dom (m(k \<mapsto> f c)). g (the ((m(k \<mapsto> f c)) j))) = d + (\<Sum>j \<in> dom m. g (the (m j)))"
proof -
  have "(\<Sum>j \<in> insert k (dom m). g (the ((m(k \<mapsto> f c)) j))) = g (f c) + (\<Sum>j \<in> dom m - {k}. g (the (m j)))"
    using assms(1) by (subst sum.insert_remove) (auto intro!: sum.cong)
  moreover have "g c + (\<Sum>j \<in> dom m - {k}. g (the (m j))) = (\<Sum>j \<in> dom m. g (the (m j)))"
  proof (cases "k \<in> dom m")
    case True
    with assms(1,3) show ?thesis by (subst (2) sum.remove [of _ k]) auto
  next
    case False
    with assms(3,4) show ?thesis by (simp add: domIff)
  qed
  ultimately show ?thesis using assms(2) by simp
qed

lemma bump_sources_ok:
  assumes "sources_ok st" and "f = got_skipped \<or> f = got_duplicate \<or> f = got_created"
  shows "sources_ok (bump f k st)"
proof -
  let ?c = "case is_sources st k of None \<Rightarrow> no_counts | Some c \<Rightarrow> c"
  obtain d where f: "ic_received (f c) = 1 + ic_received c" "ic_created (f c) = d + ic_created c" "counts_add_up c \<Longrightarrow> counts_add_up (f c)" for c
    using assms(2) by (auto simp: got_skipped_def got_duplicate_def got_created_def counts_add_up_def intro: that [of 0] that [of 1])
  have "counts_add_up ?c" using assms(1) by (auto simp: sources_ok_def counts_add_up_def no_counts_def ran_def split: option.split)
  moreover have "ran ((is_sources st)(k \<mapsto> f ?c)) \<subseteq> insert (f ?c) (ran (is_sources st))" by (auto simp: ran_def)
  ultimately have "\<forall>c \<in> ran ((is_sources st)(k \<mapsto> f ?c)). counts_add_up c" using assms(1) f(3) by (auto simp: sources_ok_def)
  moreover have "(\<Sum>j \<in> dom ((is_sources st)(k \<mapsto> f ?c)). ic_received (the (((is_sources st)(k \<mapsto> f ?c)) j))) =
      1 + (\<Sum>j \<in> dom (is_sources st). ic_received (the (is_sources st j)))"
    using assms(1) by (intro sum_bumped) (simp_all only: f sources_ok_def, simp_all add: no_counts_def)
  moreover have "(\<Sum>j \<in> dom ((is_sources st)(k \<mapsto> f ?c)). ic_created (the (((is_sources st)(k \<mapsto> f ?c)) j))) =
      d + (\<Sum>j \<in> dom (is_sources st). ic_created (the (is_sources st j)))"
    using assms(1) by (intro sum_bumped) (simp_all only: f sources_ok_def, simp_all add: no_counts_def)
  ultimately show ?thesis using assms(1) f
    unfolding sources_ok_def bump_def ingest_state.simps by (simp only: dom_fun_upd finite_insert option.distinct if_False) simp
qed

lemma ingest_okD:
  assumes "ingest_ok table st"
  shows "is_table st = table @ is_created st" "distinct (map ni_dedupe_hash (is_table st))"
    "ic_created (is_summary st) = length (is_created st)" "sources_ok st"
  using assms unfolding ingest_ok_def by blast+

lemma bump_ok:
  assumes "ingest_ok table st" and "f = got_skipped \<or> f = got_duplicate"
  shows "ingest_ok table (bump f k st)"
proof -
  have "ic_created (f (is_summary st)) = ic_created (is_summary st)"
    using assms(2) by (auto simp: got_skipped_def got_duplicate_def)
  moreover have "sources_ok (bump f k st)" using assms by (intro bump_sources_ok) (auto simp only: ingest_okD)
  ultimately show ?thesis using ingest_okD [OF assms(1)] unfolding ingest_ok_def bump_simps by (metis (full_types))
qed

lemma created_ok:
  assumes "ingest_ok table st" and "ni_dedupe_hash item \<notin> set (map ni_dedupe_hash (is_table st))"
  shows "ingest_ok table ((bump got_created k st)\<lparr>is_table := is_table st @ [item], is_created := is_created st @ [item]\<rparr>)"
proof -
  have "sources_ok (bump got_created k st)" using assms(1) by (intro bump_sources_ok) (auto simp only: ingest_okD)
  then have "sources_ok ((bump got_created k st)\<lparr>is_table := is_table st @ [item], is_created := is_created st @ [item]\<rparr>)"
    unfolding sources_ok_def by simp
  moreover have "distinct (map ni_dedupe_hash (is_table st @ [item]))"
    using ingest_okD(2) [OF assms(1)] assms(2) by simp
  ultimately show ?thesis using ingest_okD [OF assms(1)] unfolding ingest_ok_def by (auto simp: got_created_def)
qed

lemma ingest_one_ok:
  assumes "ingest_ok table st" and "ingest_one env now raw st = Inr st'"
  shows "ingest_ok table st' \<and> ic_received (is_summary st') = Suc (ic_received (is_summary st))"
  using assms(2)
proof (cases rule: ingest_one_cases)
  case skipped
  then show ?thesis using bump_ok [OF assms(1), of got_skipped] by (simp add: got_skipped_def)
next
  case duplicate
  then show ?thesis using bump_ok [OF assms(1), of got_duplicate] by (simp add: got_duplicate_def)
next
  case (created item)
  show ?thesis using created_ok [OF assms(1) created(2)] unfolding created(3) by (simp add: got_created_def)
qed

lemma ingest_all_ok:
  "ingest_all env clock n raws st = Inr st' \<Longrightarrow> ingest_ok table st \<Longrightarrow>
     ingest_ok table st' \<and> ic_received (is_summary st') = ic_received (is_summary st) + length raws"
proof (induction raws arbitrary: n st)
  case (Cons raw raws)
  from Cons.prems(1) obtain st1 where st1: "ingest_one env (clock n) raw st = Inr st1" "ingest_all env clock (Suc n) raws st1 = Inr st'"
    by (auto simp: rbind_eq_Inr)
  with ingest_one_ok [OF Cons.prems(2)] Cons.IH show ?case by fastforce
qed simp


lemma fresh_ok: "distinct (map ni_dedupe_hash table) \<Longrightarrow> ingest_ok table (fresh_ingest table)"
  by (simp add: ingest_ok_def fresh_ingest_def sources_ok_def counts_add_up_def no_counts_def)

text \<open>An item is known when the table has its hash, whatever the time, or when it is not an item at all.\<close>

definition known :: "ingest_env \<Rightarrow> news_item list \<Rightarrow> raw_news \<Rightarrow> bool" where
  "known env table raw \<longleftrightarrow>
     (\<forall>now. item_hash (normalize_item env now raw) = Inr None \<or>
        (\<exists>h \<in> ni_dedupe_hash ` set table. item_hash (normalize_item env now raw) = Inr (Some h)))"

lemma known_mono: "known env table raw \<Longrightarrow> set table \<subseteq> set table' \<Longrightarrow> known env table' raw"
  unfolding known_def by (meson image_mono subsetD)

lemma known_same: "same_news a b \<Longrightarrow> strip (rw_published a) \<noteq> [] \<Longrightarrow> known env table a = known env table b"
  unfolding known_def using hash_same [of a b env] by metis

lemma hash_any_time:
  "strip (rw_published raw) \<noteq> [] \<Longrightarrow> item_hash (normalize_item env now raw) = item_hash (normalize_item env now' raw)"
  by (rule hash_same) simp_all

lemma ingest_one_known:
  assumes "ingest_one env now raw st = Inr st'" and "strip (rw_published raw) \<noteq> []"
  shows "known env (is_table st') raw \<and> set (is_table st) \<subseteq> set (is_table st')"
  using assms(1)
proof (cases rule: ingest_one_cases)
  case skipped
  then show ?thesis using hash_any_time [OF assms(2), of env _ now] by (simp add: known_def)
next
  case (duplicate h)
  then show ?thesis using hash_any_time [OF assms(2), of env _ now] by (simp add: known_def)
next
  case (created item)
  then have "item_hash (normalize_item env now raw) = Inr (Some (ni_dedupe_hash item))" by (simp add: item_hash_def)
  then show ?thesis using created(3) hash_any_time [OF assms(2), of env _ now] by (auto simp: known_def)
qed

lemma ingest_all_known:
  "ingest_all env clock n raws st = Inr st' \<Longrightarrow> \<forall>raw \<in> set raws. strip (rw_published raw) \<noteq> [] \<Longrightarrow>
     (\<forall>raw \<in> set raws. known env (is_table st') raw) \<and> set (is_table st) \<subseteq> set (is_table st')"
proof (induction raws arbitrary: n st)
  case (Cons raw raws)
  from Cons.prems(1) obtain st1 where st1: "ingest_one env (clock n) raw st = Inr st1" "ingest_all env clock (Suc n) raws st1 = Inr st'"
    by (auto simp: rbind_eq_Inr)
  with Cons.prems(2) have "known env (is_table st1) raw \<and> set (is_table st) \<subseteq> set (is_table st1)"
    by (intro ingest_one_known) auto
  with Cons.IH [OF st1(2)] Cons.prems(2) show ?case by (auto intro: known_mono)
qed simp

lemma ingest_one_of_known:
  assumes "known env (is_table st) raw"
  shows "\<exists>f. ingest_one env now raw st = Inr (bump f (source_key raw) st)"
proof (cases "normalize_item env now raw")
  case (Inl e)
  with assms show ?thesis unfolding known_def by (metis Inl_Inr_False item_hash_def map_sum.simps(1))
next
  case (Inr r)
  show ?thesis
  proof (cases r)
    case None
    with Inr show ?thesis by (auto simp: ingest_one_def)
  next
    case (Some item)
    with assms Inr have "ni_dedupe_hash item \<in> set (map ni_dedupe_hash (is_table st))"
      by (fastforce simp: known_def item_hash_def dest: spec [of _ now])
    with Inr Some show ?thesis by (auto simp: ingest_one_def)
  qed
qed

lemma ingest_all_of_known:
  "\<forall>raw \<in> set raws. known env (is_table st) raw \<Longrightarrow>
     \<exists>st'. ingest_all env clock n raws st = Inr st' \<and> is_table st' = is_table st \<and> is_created st' = is_created st"
proof (induction raws arbitrary: n st)
  case (Cons raw raws)
  obtain f where f: "ingest_one env (clock n) raw st = Inr (bump f (source_key raw) st)"
    using ingest_one_of_known [of env st raw "clock n"] Cons.prems by auto
  with Cons.IH [of "bump f (source_key raw) st" "Suc n"] Cons.prems show ?case by simp
qed simp

text \<open>The items after their symbols are attached are the same items.\<close>

lemma same_known:
  assumes "list_all2 same_news bs as" and "\<forall>a \<in> set as. strip (rw_published a) \<noteq> []"
  shows "(\<forall>b \<in> set bs. known env table b) \<longleftrightarrow> (\<forall>a \<in> set as. known env table a)" and "\<forall>b \<in> set bs. strip (rw_published b) \<noteq> []"
proof -
  have "\<forall>(b, a) \<in> set (zip bs as). known env table b = known env table a \<and> strip (rw_published b) \<noteq> []"
  proof (intro ballI, clarsimp)
    fix b a assume m: "(b, a) \<in> set (zip bs as)"
    then have "same_news b a" "strip (rw_published a) \<noteq> []" using assms by (auto simp: list_all2_iff dest: set_zip_rightD)
    moreover from this have "strip (rw_published b) \<noteq> []" by (simp add: same_news_def)
    ultimately show "known env table b = known env table a \<and> strip (rw_published b) \<noteq> []" using known_same by blast
  qed
  then have "list_all2 (\<lambda>b a. known env table b = known env table a \<and> strip (rw_published b) \<noteq> []) bs as"
    using assms(1) by (simp add: list_all2_iff)
  then show "(\<forall>b \<in> set bs. known env table b) \<longleftrightarrow> (\<forall>a \<in> set as. known env table a)" "\<forall>b \<in> set bs. strip (rw_published b) \<noteq> []"
    by (auto simp: list_all2_conv_all_nth set_conv_nth)
qed

lemma attached_same: "rmap (attach_symbols rows) items = Inr attached \<Longrightarrow> list_all2 same_news attached items"
  by (auto simp: rmap_eq_Inr list_all2_conv_all_nth attach_same)

lemma translated_same: "list_all2 same_news (translate_items env enabled answers items) items"
  by (simp add: translate_items_def list_all2_conv_all_nth translate_same)

text \<open>After a batch its items are known, and a batch of known items adds nothing.\<close>

lemma batch_known:
  assumes "ingest_items_detailed env clock stocks items table = Inr st" and "\<forall>i \<in> set items. strip (rw_published i) \<noteq> []"
  shows "\<forall>i \<in> set items. known env (is_table st) i"
proof (cases "items = []")
  case False
  with assms(1) obtain attached where a: "rmap (attach_symbols (stock_rows stocks)) items = Inr attached"
      "ingest_all env clock 0 attached (fresh_ingest table) = Inr st"
    by (auto simp: ingest_items_detailed_def rbind_eq_Inr)
  from ingest_all_known [OF a(2)] same_known [OF attached_same [OF a(1)] assms(2)] show ?thesis by blast
qed simp

lemma batch_attached:
  "ingest_items_detailed env clock stocks items table = Inr st \<Longrightarrow>
     items = [] \<or> (\<exists>attached. rmap (attach_symbols (stock_rows stocks)) items = Inr attached)"
  by (auto simp: ingest_items_detailed_def rbind_eq_Inr split: if_splits)

lemma known_batch:
  assumes "\<forall>i \<in> set items. known env table i" and "\<forall>i \<in> set items. strip (rw_published i) \<noteq> []"
    and "items = [] \<or> (\<exists>attached. rmap (attach_symbols (stock_rows stocks)) items = Inr attached)"
  shows "\<exists>st. ingest_items_detailed env clock stocks items table = Inr st \<and> is_table st = table \<and> is_created st = []"
proof (cases "items = []")
  case True
  then show ?thesis by (simp add: ingest_items_detailed_def fresh_ingest_def)
next
  case False
  with assms(3) obtain attached where a: "rmap (attach_symbols (stock_rows stocks)) items = Inr attached" by blast
  have "\<forall>i \<in> set attached. known env (is_table (fresh_ingest table)) i"
    using same_known(1) [OF attached_same [OF a] assms(2)] assms(1) by (simp add: fresh_ingest_def)
  from ingest_all_of_known [OF this] a False show ?thesis by (auto simp: ingest_items_detailed_def fresh_ingest_def)
qed

lemma known_batch_result:
  assumes "\<forall>i \<in> set items. known env table i" and "\<forall>i \<in> set items. strip (rw_published i) \<noteq> []"
    and "ingest_items_detailed env clock stocks items table = Inr st"
  shows "is_table st = table \<and> is_created st = []"
  using known_batch [OF assms(1,2) batch_attached [OF assms(3)], of clock] assms(3) by auto

text \<open>A comma separated text with a comma at both ends gives back what it was made of.\<close>

lemma split_commas_append:
  "CHR '','' \<notin> set s \<Longrightarrow> split_commas acc (s @ CHR '','' # rest) = (rev acc @ s) # split_commas [] rest"
  by (induction s arbitrary: acc) auto

lemma split_commas_plain: "CHR '','' \<notin> set s \<Longrightarrow> split_commas acc s = [rev acc @ s]"
  by (induction s arbitrary: acc) auto

lemma split_commas_joined:
  "\<forall>s \<in> set ss. CHR '','' \<notin> set s \<Longrightarrow> CHR '','' \<notin> set z \<Longrightarrow>
     split_commas [] (concat (map (\<lambda>s. s @ '','') ss) @ z) = ss @ [z]"
  by (induction ss) (simp_all add: split_commas_append split_commas_plain)

lemma strip_commas_joined:
  assumes "\<forall>s \<in> set (ss @ [z]). s \<noteq> [] \<and> CHR '','' \<notin> set s"
  shows "strip_commas (symbols_to_csv (ss @ [z])) = concat (map (\<lambda>s. s @ '','') ss) @ z"
proof -
  let ?body = "concat (map (\<lambda>s. s @ '','') ss) @ z"
  have keep: "dropWhile (\<lambda>c. c = CHR '','') xs = xs" if "hd xs \<noteq> CHR '',''" for xs :: string
    using that by (cases xs) auto
  have ne: "?body \<noteq> []" using assms by simp
  have "hd ?body \<noteq> CHR '',''" "hd (rev ?body) \<noteq> CHR '',''"
    using assms by (cases ss; auto simp: neq_Nil_conv hd_append; fail | cases z rule: rev_cases; auto)+
  then have "dropWhile (\<lambda>c. c = CHR '','') (?body @ '','') = ?body @ '',''" "dropWhile (\<lambda>c. c = CHR '','') (rev ?body) = rev ?body"
    using hd_append2 [OF ne, of "'',''"] by (metis keep)+
  then show ?thesis by (simp add: strip_commas_def symbols_to_csv_def)
qed

lemma csv_roundtrip:
  assumes "\<forall>s \<in> set ss. s \<noteq> [] \<and> CHR '','' \<notin> set s"
  shows "symbols_from_csv (symbols_to_csv ss) = ss"
proof (cases ss rule: rev_cases)
  case Nil
  then show ?thesis by (simp add: symbols_to_csv_def symbols_from_csv_def strip_commas_def)
next
  case (snoc xs z)
  have "filter (\<lambda>s. s \<noteq> []) ss = ss" using assms by (simp add: filter_id_conv)
  with snoc assms show ?thesis
    by (simp add: symbols_from_csv_def strip_commas_joined split_commas_joined)
qed


text \<open>The news gate finds a stored item under each of its symbols.\<close>

lemma csv_names:
  assumes "s \<in> set ss" and "normalize_krx_symbol s = s" and "nr_symbols_csv row = symbols_to_csv ss"
  shows "names_symbol s row"
proof -
  from assms(1) obtain xs ys where ss: "ss = xs @ s # ys" by (auto simp: in_set_conv_decomp)
  have "\<exists>p q. symbols_to_csv ss = p @ ('','' @ s @ '','') @ q"
  proof (cases xs rule: rev_cases)
    case Nil
    then show ?thesis by (intro exI [of _ "[]"] exI [of _ "concat (map (\<lambda>s. s @ '','') ys)"]) (simp add: ss symbols_to_csv_def)
  next
    case (snoc xs' x)
    then show ?thesis
      by (intro exI [of _ "'','' @ concat (map (\<lambda>s. s @ '','') xs') @ x"] exI [of _ "concat (map (\<lambda>s. s @ '','') ys)"]) (simp add: ss symbols_to_csv_def)
  qed
  then obtain p q where "symbols_to_csv ss = p @ ('','' @ s @ '','') @ q" by blast
  then have "upper (symbols_to_csv ss) = upper p @ upper ('','' @ s @ '','') @ upper q" by (simp add: upper_def)
  with assms(2,3) contains_append show ?thesis by (simp add: names_symbol_def del: append.simps)
qed


lemma ingest_items_ok:
  assumes "distinct (map ni_dedupe_hash table)" and "ingest_items_detailed env clock stocks items table = Inr st"
  shows "ingest_ok table st \<and> ic_received (is_summary st) = length items"
proof (cases "items = []")
  case True
  with assms fresh_ok show ?thesis by (auto simp: ingest_items_detailed_def fresh_ingest_def no_counts_def)
next
  case False
  with assms(2) obtain attached where a: "rmap (attach_symbols (stock_rows stocks)) items = Inr attached"
      "ingest_all env clock 0 attached (fresh_ingest table) = Inr st"
    by (auto simp: ingest_items_detailed_def rbind_eq_Inr)
  with ingest_all_ok [OF a(2) fresh_ok [OF assms(1)]] show ?thesis
    by (auto simp: rmap_eq_Inr fresh_ingest_def no_counts_def dest: list_all2_lengthD)
qed

text \<open>A batch of items with a time, read again at any later time, is taken without an error and creates no row.\<close>

lemma reread_news:
  assumes "ingest_items_detailed env clock stocks items table = Inr st" and "\<forall>i \<in> set items. strip (rw_published i) \<noteq> []"
    and "set (is_table st) \<subseteq> set table'"
  shows "\<exists>st'. ingest_items_detailed env clock' stocks items table' = Inr st' \<and> is_table st' = table' \<and> is_created st' = []"
proof -
  have "\<forall>i \<in> set items. known env table' i" using batch_known [OF assms(1,2)] assms(3) known_mono by metis
  then show ?thesis using assms(2) batch_attached [OF assms(1)] by (rule known_batch)
qed

section \<open>Properties\<close>

definition ingest_sample :: ingest_env where
  "ingest_sample = \<lparr>ie_parse = (\<lambda>_. Some (PyDT 60 True)), ie_iso = (\<lambda>_. ''60''), ie_digest = id\<rparr>"

definition raw_sample :: raw_news where
  "raw_sample =
     \<lparr>rw_source_code = ''dart'', rw_title = ''a  b'', rw_summary = [], rw_body = [], rw_url = [], rw_external_id = ''7'', rw_language = ''ko'',
      rw_published = ''60'', rw_sentiment_label = None, rw_sentiment_score = None, rw_impact_score = None, rw_trust_score = None,
      rw_symbols = [''A005930'', ''000660''], rw_metadata = []\<rparr>"

lemma source_named_code [simp]: "so_code (source_named code language) = code"
  by (auto simp: source_named_def unknown_source_def find_Some_iff split: option.split)

lemma raw_sample_symbols: "normalize_symbols [''A005930'', ''000660''] = [''005930'', ''000660'']"
  by code_simp

lemma raw_sample_normal:
  "\<exists>item. normalize_item ingest_sample now raw_sample = Inr (Some item) \<and> ni_dedupe_hash item = ''DART|7|60''"
proof -
  have "strip (upper ''dart'') = ''DART''" "normalize_title ''a  b'' = ''a b''" "strip ''7'' = ''7''" "strip ''60'' = ''60''"
    "strip [] = []"
    by code_simp+
  then show ?thesis
    by (simp add: normalize_item_def raw_sample_def ingest_sample_def published_time_def dedupe_payload_def none_if_empty_def Let_def)
qed

lemma raw_sample_attached: "\<exists>m. attach_symbols [] raw_sample = Inr (raw_sample\<lparr>rw_symbols := [''005930'', ''000660''], rw_metadata := m\<rparr>)"
proof -
  have "normalize_symbols [''005930'', ''000660''] = [''005930'', ''000660'']" by code_simp
  then show ?thesis
    using raw_sample_symbols
    by (simp add: attach_symbols_def raw_sample_def enrich_symbol_metadata_def sector_of_def stock_by_symbol_def Let_def)
qed

lemma raw_sample_ingest:
  "\<exists>st. ingest_items_detailed ingest_sample clock [] [raw_sample, raw_sample] [] = Inr st \<and> length (is_created st) = 1"
proof -
  obtain m where m: "attach_symbols [] raw_sample = Inr (raw_sample\<lparr>rw_symbols := [''005930'', ''000660''], rw_metadata := m\<rparr>)"
    (is "_ = Inr ?raw") using raw_sample_attached by blast
  have "strip (rw_published raw_sample) \<noteq> []" by (simp add: raw_sample_def) code_simp
  then have "item_hash (normalize_item ingest_sample now ?raw) = item_hash (normalize_item ingest_sample now raw_sample)" for now
    by (intro hash_same) (simp_all add: same_news_def)
  moreover have "item_hash (normalize_item ingest_sample now raw_sample) = Inr (Some ''DART|7|60'')" for now
    using raw_sample_normal [of now] by (auto simp: item_hash_def)
  ultimately have h: "item_hash (normalize_item ingest_sample now ?raw) = Inr (Some ''DART|7|60'')" for now by simp
  have ex: "\<exists>item. normalize_item ingest_sample now ?raw = Inr (Some item) \<and> ni_dedupe_hash item = ''DART|7|60''" for now
    using h [of now] by (cases "normalize_item ingest_sample now ?raw") (auto simp: item_hash_def)
  obtain i j where i: "normalize_item ingest_sample (clock 0) ?raw = Inr (Some i)" "ni_dedupe_hash i = ''DART|7|60''"
      and j: "normalize_item ingest_sample (clock (Suc 0)) ?raw = Inr (Some j)" "ni_dedupe_hash j = ''DART|7|60''"
    using ex by blast
  have "stock_rows [] = []" by (simp add: stock_rows_def)
  with m i j show ?thesis by (simp add: ingest_items_detailed_def ingest_one_def fresh_ingest_def)
qed

text \<open>
  C5: A batch of news adds to the table: the rows of before stay, in their order, and the new ones follow, no
  two rows with the same hash; every item of the batch is counted once, as created, as a duplicate or as skipped,
  and the counts of the sources add up to those of the batch.
\<close>

theorem ingested_news_distinct:
  assumes "distinct (map ni_dedupe_hash table)" and "ingest_items_detailed env clock stocks items table = Inr st"
  shows "is_table st = table @ is_created st \<and> distinct (map ni_dedupe_hash (is_table st)) \<and>
    ic_created (is_summary st) = length (is_created st) \<and> ic_received (is_summary st) = length items \<and>
    length items = ic_created (is_summary st) + ic_duplicates (is_summary st) + ic_skipped (is_summary st) \<and>
    (\<Sum>k \<in> dom (is_sources st). ic_received (the (is_sources st k))) = length items"
  using ingest_items_ok [OF assms] unfolding ingest_ok_def sources_ok_def counts_add_up_def by metis

theorem ingested_news_distinct_witness:
  "\<exists>st. ingest_items_detailed ingest_sample (\<lambda>n. PyDT (int n) True) [] [raw_sample, raw_sample] [] = Inr st \<and>
     is_table st = is_created st \<and> 2 = ic_created (is_summary st) + ic_duplicates (is_summary st) + ic_skipped (is_summary st) \<and>
     ic_created (is_summary st) = 1"
proof -
  obtain st where st: "ingest_items_detailed ingest_sample (\<lambda>n. PyDT (int n) True) [] [raw_sample, raw_sample] [] = Inr st" "length (is_created st) = 1"
    using raw_sample_ingest by blast
  with ingested_news_distinct [OF _ st(1)] show ?thesis by auto
qed

text \<open>
  C8: What is stored of an item's symbols is read back as it was, and the check for news before a purchase
  finds the row under each of them: for symbols without a comma.
\<close>

theorem stored_symbols_found:
  assumes "normalize_item env now raw = Inr (Some item)"
    and "\<forall>s \<in> set (normalize_symbols (rw_symbols raw)). CHR '','' \<notin> set s"
  shows "symbols_from_csv (ni_symbols_csv item) = normalize_symbols (rw_symbols raw) \<and>
    (\<forall>s \<in> set (normalize_symbols (rw_symbols raw)). names_symbol s (gate_row created item))"
proof -
  have csv: "ni_symbols_csv item = symbols_to_csv (normalize_symbols (rw_symbols raw))"
    using assms(1) by (auto simp: normalize_item_def rbind_eq_Inr Let_def split: if_splits)
  then have "nr_symbols_csv (gate_row created item) = symbols_to_csv (normalize_symbols (rw_symbols raw))" by (simp add: gate_row_def)
  with csv assms(2) normalize_symbols_props(2) show ?thesis by (auto intro!: csv_roundtrip csv_names)
qed

theorem stored_symbols_found_witness:
  "\<exists>item. normalize_item ingest_sample (PyDT 0 True) raw_sample = Inr (Some item) \<and> symbols_from_csv (ni_symbols_csv item) = [''005930'', ''000660''] \<and>
     names_symbol ''000660'' (gate_row (PyDT 0 True) item)"
proof -
  obtain item where i: "normalize_item ingest_sample (PyDT 0 True) raw_sample = Inr (Some item)" using raw_sample_normal by blast
  have n: "normalize_symbols (rw_symbols raw_sample) = [''005930'', ''000660'']" using raw_sample_symbols by (simp add: raw_sample_def)
  show ?thesis using i stored_symbols_found [OF i] by (auto simp: n)
qed

text \<open>Without a time an item is stored again at each reading: its hash holds the time at which it was read.\<close>

lemma undated_news_stored_again:
  assumes "strip (rw_published raw) = []" and "normalize_item env now raw = Inr (Some item)"
    and "inj (ie_digest env)" and "ie_iso env now \<noteq> ie_iso env later"
  shows "\<exists>item'. normalize_item env later raw = Inr (Some item') \<and> ni_dedupe_hash item' \<noteq> ni_dedupe_hash item \<and>
    ni_title item' = ni_title item \<and> ni_url item' = ni_url item \<and> ni_external_id item' = ni_external_id item"
  using assms by (auto simp: normalize_item_def published_time_def dedupe_payload_def inj_eq Let_def split: if_splits option.splits)

text \<open>A score of zero, the most negative, is stored as the neutral one.\<close>

lemma zero_sentiment_becomes_neutral:
  assumes "normalize_item env now raw = Inr (Some item)" and "rw_sentiment_score raw = Some 0"
  shows "ni_sentiment_score item = 1 / 2"
  using assms by (auto simp: normalize_item_def opt_or_def rbind_eq_Inr Let_def split: if_splits)

end
