(* ===== verification/News_Poll.thy ===== *)
theory News_Poll
  imports News_Ingest
begin

text \<open>
  The polling of the news sources (\<open>services/news_polling_service.py\<close>) and what is remembered of each source
  between two polls (\<open>services/news_runtime_service.py\<close>): its last result, its failures in a row, and the pause
  that follows them.

  Times are microseconds of KST. What the sources answer, the answers of the model, and the clock are
  arguments. A source's state is not written while the sources are read, so the order in which they are read
  does not matter. The texts of the messages are constructors with the numbers they show.
\<close>

section \<open>State\<close>

datatype poll_status = IDLE | SUCCESS | EMPTY | SKIPPED | ERROR | PARTIAL_ERROR

datatype poll_message =
    Never_polled
  | Waiting
  | Not_connected
  | Said string
  | Pause_left int
  | No_data
  | Taken_in
  | Stored_new nat nat nat
  | Only_duplicates nat
  | Only_skipped nat
  | Nothing_stored
  | Some_sources_failed nat nat nat nat
  | Default_of poll_status

record source_state =
  ss_status :: poll_status
  ss_mode :: "string option"
  ss_message :: poll_message
  ss_updated :: "int option"
  ss_last_success :: "int option"
  ss_last_error :: "int option"
  ss_failures :: nat
  ss_counts :: ingest_counts

record overall_state =
  os_status :: poll_status
  os_mode :: "string option"
  os_message :: poll_message
  os_source :: "string option"
  os_run :: "int option"
  os_success :: "int option"

record poll_runtime =
  pr_overall :: overall_state
  pr_sources :: "string \<Rightarrow> source_state option"

definition implemented_sources :: "string list" where
  "implemented_sources = [''DART'', ''KRX'', ''YONHAP'', ''BLOOMBERG'', ''CNBC'', ''NASDAQ'', ''INVESTING'', ''SEEKING_ALPHA'']"

definition default_source_state :: "string \<Rightarrow> source_state" where
  "default_source_state code =
     \<lparr>ss_status = IDLE, ss_mode = None, ss_message = (if code \<in> set implemented_sources then Waiting else Not_connected), ss_updated = None,
      ss_last_success = None, ss_last_error = None, ss_failures = 0, ss_counts = no_counts\<rparr>"

definition fresh_runtime :: poll_runtime where
  "fresh_runtime =
     \<lparr>pr_overall = \<lparr>os_status = IDLE, os_mode = None, os_message = Never_polled, os_source = None, os_run = None, os_success = None\<rparr>,
      pr_sources = Map.empty\<rparr>"

definition source_code_of :: "string \<Rightarrow> string" where "source_code_of s = strip (upper s)"

definition source_state_of :: "string \<Rightarrow> poll_runtime \<Rightarrow> source_state" where
  "source_state_of source rt =
     (case pr_sources rt (source_code_of source) of None \<Rightarrow> default_source_state (source_code_of source) | Some s \<Rightarrow> s)"

record poll_settings =
  NEWS_POLL_ENABLED :: bool
  NEWS_POLL_PAGE_COUNT :: int
  NEWS_SOURCE_FAILURE_THRESHOLD :: int
  NEWS_SOURCE_FAILURE_COOLDOWN_MIN :: int
  OPEN_DART_API_KEY :: string
  NEWS_DOMESTIC_MEDIA_ENABLED :: bool
  NEWS_INCLUDE_FOREIGN :: bool
  NEWS_NASDAQ_ENABLED :: bool

definition at_least_one :: "int \<Rightarrow> int" where
  "at_least_one v = max (if v = 0 then 1 else v) 1"

section \<open>The pause of a source\<close>

definition second_us :: int where "second_us = 1000000"

definition whole_seconds :: "int \<Rightarrow> int" where
  "whole_seconds us = (if 0 \<le> us then us div second_us else - (- us div second_us))"

text \<open>Whether the source pauses, and for how many seconds still.\<close>

definition source_pause :: "poll_settings \<Rightarrow> int \<Rightarrow> string \<Rightarrow> poll_runtime \<Rightarrow> bool \<times> int" where
  "source_pause cfg now source rt =
     (let s = source_state_of source rt
      in case ss_last_error s of
          None \<Rightarrow> (False, 0)
        | Some t \<Rightarrow>
            if int (ss_failures s) < at_least_one (NEWS_SOURCE_FAILURE_THRESHOLD cfg) then (False, 0)
            else let left = whole_seconds (t + at_least_one (NEWS_SOURCE_FAILURE_COOLDOWN_MIN cfg) * minute_us - now)
                 in if left \<le> 0 then (False, 0) else (True, left))"

definition failures_after :: "poll_status \<Rightarrow> nat \<Rightarrow> nat" where
  "failures_after status n = (if status = ERROR then Suc n else if status \<in> {SUCCESS, EMPTY, SKIPPED} then 0 else n)"

definition record_source_result ::
  "int \<Rightarrow> string \<Rightarrow> poll_status \<Rightarrow> string \<Rightarrow> poll_message \<Rightarrow> ingest_counts \<Rightarrow> bool \<Rightarrow> poll_runtime \<Rightarrow> poll_runtime" where
  "record_source_result now source status mode message counts update_overall rt =
     (let code = source_code_of source; s = source_state_of source rt;
          message = (if message = Said [] then Default_of status else message);
          s' = s\<lparr>ss_status := status, ss_mode := Some mode, ss_message := message, ss_updated := Some now, ss_counts := counts,
                 ss_failures := failures_after status (ss_failures s),
                 ss_last_success := (if status = SUCCESS then Some now else ss_last_success s),
                 ss_last_error := (if status = ERROR then Some now else ss_last_error s)\<rparr>;
          overall = (pr_overall rt)\<lparr>os_status := status, os_mode := Some mode, os_message := message, os_source := Some code, os_run := Some now,
                 os_success := (if status = SUCCESS then Some now else os_success (pr_overall rt))\<rparr>
      in if code = [] then rt
         else rt\<lparr>pr_sources := (pr_sources rt)(code \<mapsto> s'), pr_overall := (if update_overall then overall else pr_overall rt)\<rparr>)"

definition record_overall_result :: "int \<Rightarrow> poll_status \<Rightarrow> string \<Rightarrow> poll_message \<Rightarrow> poll_runtime \<Rightarrow> poll_runtime" where
  "record_overall_result now status mode message rt =
     rt\<lparr>pr_overall := (pr_overall rt)\<lparr>os_status := status, os_mode := Some mode, os_message := message, os_source := None, os_run := Some now,
          os_success := (if status \<in> {SUCCESS, PARTIAL_ERROR} then Some now else os_success (pr_overall rt))\<rparr>\<rparr>"

section \<open>Reading one source\<close>

record poll_spec =
  ps_source :: string
  ps_enabled :: bool
  ps_skip_message :: string

definition foreign_spec :: "poll_settings \<Rightarrow> string \<Rightarrow> poll_spec" where
  "foreign_spec cfg code = \<lparr>ps_source = code, ps_enabled = NEWS_INCLUDE_FOREIGN cfg, ps_skip_message = ''NEWS_INCLUDE_FOREIGN disabled''\<rparr>"

definition build_source_specs :: "poll_settings \<Rightarrow> poll_spec list" where
  "build_source_specs cfg =
     [\<lparr>ps_source = ''DART'', ps_enabled = (OPEN_DART_API_KEY cfg \<noteq> []), ps_skip_message = ''OPEN_DART_API_KEY missing''\<rparr>,
      \<lparr>ps_source = ''KRX'', ps_enabled = True, ps_skip_message = []\<rparr>,
      \<lparr>ps_source = ''YONHAP'', ps_enabled = NEWS_DOMESTIC_MEDIA_ENABLED cfg, ps_skip_message = ''NEWS_DOMESTIC_MEDIA_ENABLED disabled''\<rparr>,
      foreign_spec cfg ''BLOOMBERG'', foreign_spec cfg ''CNBC'',
      \<lparr>ps_source = ''NASDAQ'', ps_enabled = (NEWS_INCLUDE_FOREIGN cfg \<and> NEWS_NASDAQ_ENABLED cfg),
       ps_skip_message = (if NEWS_INCLUDE_FOREIGN cfg then ''NEWS_NASDAQ_ENABLED disabled'' else ''NEWS_INCLUDE_FOREIGN disabled'')\<rparr>,
      foreign_spec cfg ''INVESTING'', foreign_spec cfg ''SEEKING_ALPHA'']"

record poll_result =
  po_source :: string
  po_status :: poll_status
  po_message :: poll_message
  po_counts :: "ingest_counts option"
  po_items :: "raw_news list"

definition skipped_counts :: ingest_counts where "skipped_counts = no_counts\<lparr>ic_skipped := 1\<rparr>"

definition poll_single_source ::
  "poll_settings \<Rightarrow> int \<Rightarrow> poll_runtime \<Rightarrow> (string \<Rightarrow> raw_news list res) \<Rightarrow> poll_spec \<Rightarrow> poll_result" where
  "poll_single_source cfg now rt fetch spec =
     (if \<not> ps_enabled spec
      then \<lparr>po_source = ps_source spec, po_status = SKIPPED, po_message = Said (ps_skip_message spec), po_counts = Some skipped_counts, po_items = []\<rparr>
      else
        let (active, left) = source_pause cfg now (ps_source spec) rt
        in if active
           then \<lparr>po_source = ps_source spec, po_status = SKIPPED, po_message = Pause_left (max 1 (left div 60)), po_counts = Some skipped_counts,
                 po_items = []\<rparr>
           else case fetch (ps_source spec) of
               Inl e \<Rightarrow> \<lparr>po_source = ps_source spec, po_status = ERROR, po_message = Said (exn_text e), po_counts = None, po_items = []\<rparr>
             | Inr items \<Rightarrow>
                 \<lparr>po_source = ps_source spec, po_status = (if items = [] then EMPTY else SUCCESS),
                  po_message = (if items = [] then No_data else Taken_in), po_counts = Some (no_counts\<lparr>ic_received := length items\<rparr>),
                  po_items = items\<rparr>)"

section \<open>What is reported\<close>

definition merged_counts :: "ingest_counts option \<Rightarrow> ingest_counts option \<Rightarrow> ingest_counts" where
  "merged_counts base ingested = (case ingested of Some c \<Rightarrow> c | None \<Rightarrow> (case base of Some c \<Rightarrow> c | None \<Rightarrow> no_counts))"

definition final_counts :: "poll_result \<Rightarrow> (string \<Rightarrow> ingest_counts option) \<Rightarrow> ingest_counts" where
  "final_counts r ingested =
     (if po_status r \<in> {ERROR, SKIPPED} then (case po_counts r of None \<Rightarrow> no_counts | Some c \<Rightarrow> c)
      else merged_counts (po_counts r) (ingested (po_source r)))"

definition runtime_status :: "poll_result \<Rightarrow> ingest_counts \<Rightarrow> poll_status" where
  "runtime_status r counts =
     (if po_status r \<in> {ERROR, SKIPPED} then po_status r else if ic_received counts = 0 then EMPTY else SUCCESS)"

definition counts_message :: "ingest_counts \<Rightarrow> poll_message" where
  "counts_message c =
     (if ic_received c = 0 then No_data
      else if 0 < ic_created c then Stored_new (ic_created c) (ic_duplicates c) (ic_skipped c)
      else if 0 < ic_duplicates c then Only_duplicates (ic_duplicates c)
      else if 0 < ic_skipped c then Only_skipped (ic_skipped c)
      else Nothing_stored)"

definition source_message :: "poll_result \<Rightarrow> ingest_counts \<Rightarrow> poll_message" where
  "source_message r counts = (if po_status r \<in> {ERROR, SKIPPED} then po_message r else counts_message counts)"

definition overall_status :: "ingest_counts \<Rightarrow> nat \<Rightarrow> poll_status" where
  "overall_status c errors = (if 0 < errors then PARTIAL_ERROR else if ic_received c = 0 then EMPTY else SUCCESS)"

definition overall_message :: "ingest_counts \<Rightarrow> nat \<Rightarrow> poll_message" where
  "overall_message c errors =
     (if 0 < errors then Some_sources_failed (ic_created c) (ic_duplicates c) (ic_skipped c) errors else counts_message c)"

section \<open>The poll\<close>

record poll_env =
  pe_fetch :: "string \<Rightarrow> raw_news list res"
  pe_clock :: "string \<Rightarrow> int"
  pe_now :: int
  pe_translate :: translate_env
  pe_llm_enabled :: bool
  pe_answers :: "raw_news \<Rightarrow> (string \<times> llm_provider) res"
  pe_ingest :: ingest_env
  pe_ingest_clock :: "nat \<Rightarrow> pydt"
  pe_stocks :: "(string \<times> string \<times> string) list"

record news_event =
  ne_symbols :: "string list"
  ne_title :: string
  ne_source_code :: string
  ne_published :: pydt

definition news_events :: "news_item list \<Rightarrow> news_event list" where
  "news_events created =
     map (\<lambda>i. \<lparr>ne_symbols = symbols_from_csv (ni_symbols_csv i), ne_title = ni_title i, ne_source_code = ni_source_code i, ne_published = ni_published i\<rparr>)
       (filter (\<lambda>i. symbols_from_csv (ni_symbols_csv i) \<noteq> []) created)"

record poll_report =
  pp_table :: "news_item list"
  pp_runtime :: poll_runtime
  pp_events :: "news_event list"
  pp_summary :: "ingest_counts option"

definition skip_poll :: "poll_settings \<Rightarrow> string \<Rightarrow> int \<Rightarrow> poll_runtime \<Rightarrow> poll_runtime" where
  "skip_poll cfg mode now rt =
     record_overall_result now SKIPPED mode (Said ''NEWS_POLL_ENABLED disabled'')
       (fold (\<lambda>spec. record_source_result now (ps_source spec) SKIPPED mode (Said ''NEWS_POLL_ENABLED disabled'') skipped_counts False)
         (build_source_specs cfg) rt)"

definition source_results :: "poll_settings \<Rightarrow> poll_env \<Rightarrow> poll_runtime \<Rightarrow> poll_result list" where
  "source_results cfg env rt =
     map (\<lambda>spec. poll_single_source cfg (pe_clock env (ps_source spec)) rt (pe_fetch env) spec) (build_source_specs cfg)"

definition record_poll :: "int \<Rightarrow> string \<Rightarrow> (string \<Rightarrow> ingest_counts option) \<Rightarrow> poll_result list \<Rightarrow> poll_runtime \<Rightarrow> poll_runtime" where
  "record_poll now mode ingested =
     fold (\<lambda>r. let counts = final_counts r ingested
               in record_source_result now (po_source r) (runtime_status r counts) mode (source_message r counts) counts False)"

definition poll_sources ::
  "poll_settings \<Rightarrow> poll_env \<Rightarrow> string \<Rightarrow> poll_runtime \<Rightarrow> news_item list \<Rightarrow> poll_report res" where
  "poll_sources cfg env mode rt table =
     (if \<not> NEWS_POLL_ENABLED cfg
      then Inr \<lparr>pp_table = table, pp_runtime = skip_poll cfg mode (pe_now env) rt, pp_events = [], pp_summary = None\<rparr>
      else
        let results = source_results cfg env rt;
            items = translate_items (pe_translate env) (pe_llm_enabled env) (pe_answers env) (concat (map po_items results))
        in rbind (ingest_items_detailed (pe_ingest env) (pe_ingest_clock env) (pe_stocks env) items table) (\<lambda>st.
             let errors = length (filter (\<lambda>r. po_status r = ERROR) results);
                 rt1 = record_poll (pe_now env) mode (is_sources st) results rt
             in Inr \<lparr>pp_table = is_table st,
                     pp_runtime = record_overall_result (pe_now env) (overall_status (is_summary st) errors) mode
                       (overall_message (is_summary st) errors) rt1,
                     pp_events = news_events (is_created st), pp_summary = Some (is_summary st)\<rparr>))"

section \<open>Lemmas\<close>

lemma recorded_state:
  "source_code_of source \<noteq> [] \<Longrightarrow>
     source_state_of source' (record_source_result now source status mode message counts u rt) =
       (if source_code_of source' = source_code_of source
        then (source_state_of source rt)\<lparr>ss_status := status, ss_mode := Some mode,
               ss_message := (if message = Said [] then Default_of status else message), ss_updated := Some now, ss_counts := counts,
               ss_failures := failures_after status (ss_failures (source_state_of source rt)),
               ss_last_success := (if status = SUCCESS then Some now else ss_last_success (source_state_of source rt)),
               ss_last_error := (if status = ERROR then Some now else ss_last_error (source_state_of source rt))\<rparr>
        else source_state_of source' rt)"
  by (simp add: record_source_result_def source_state_of_def Let_def)

lemma recorded_nothing: "source_code_of source = [] \<Longrightarrow> record_source_result now source status mode message counts u rt = rt"
  by (simp add: record_source_result_def)

lemma overall_keeps_sources [simp]: "source_state_of s (record_overall_result now status mode m rt) = source_state_of s rt"
  by (simp add: source_state_of_def record_overall_result_def)

lemma no_pause: "ss_failures (source_state_of s rt) = 0 \<Longrightarrow> source_pause cfg now s rt = (False, 0)"
  by (auto simp: source_pause_def at_least_one_def Let_def split: option.split)

lemma pause_active:
  "fst (source_pause cfg now s rt) \<longleftrightarrow>
     (\<exists>t. ss_last_error (source_state_of s rt) = Some t \<and>
        at_least_one (NEWS_SOURCE_FAILURE_THRESHOLD cfg) \<le> int (ss_failures (source_state_of s rt)) \<and>
        now + second_us \<le> t + at_least_one (NEWS_SOURCE_FAILURE_COOLDOWN_MIN cfg) * minute_us)"
proof -
  have "0 < whole_seconds d \<longleftrightarrow> second_us \<le> d" for d
    by (auto simp: whole_seconds_def second_us_def)
  then have "whole_seconds (t + k - now) \<le> 0 \<longleftrightarrow> \<not> now + second_us \<le> t + k" for t k
    by (simp add: not_less [symmetric] algebra_simps)
  then show ?thesis by (auto simp: source_pause_def Let_def split: option.split)
qed

section \<open>Histories\<close>

record result_note =
  rn_now :: int
  rn_source :: string
  rn_status :: poll_status
  rn_mode :: string
  rn_message :: poll_message
  rn_counts :: ingest_counts
  rn_overall :: bool

definition note_result :: "result_note \<Rightarrow> poll_runtime \<Rightarrow> poll_runtime" where
  "note_result n = record_source_result (rn_now n) (rn_source n) (rn_status n) (rn_mode n) (rn_message n) (rn_counts n) (rn_overall n)"

text \<open>The errors of a source since its last result of another kind, the latest first.\<close>

definition errors_in_a_row :: "string \<Rightarrow> result_note list \<Rightarrow> result_note list" where
  "errors_in_a_row source hist =
     takeWhile (\<lambda>n. rn_status n = ERROR)
       (rev (filter (\<lambda>n. source_code_of (rn_source n) = source_code_of source \<and> rn_status n \<in> {SUCCESS, EMPTY, SKIPPED, ERROR}) hist))"

lemma history_state:
  assumes "source_code_of source \<noteq> []"
  shows "ss_failures (source_state_of source (fold note_result hist fresh_runtime)) = length (errors_in_a_row source hist) \<and>
    (errors_in_a_row source hist \<noteq> [] \<longrightarrow>
       ss_last_error (source_state_of source (fold note_result hist fresh_runtime)) = Some (rn_now (hd (errors_in_a_row source hist))))"
proof (induction hist rule: rev_induct)
  case Nil
  show ?case by (simp add: errors_in_a_row_def source_state_of_def fresh_runtime_def default_source_state_def)
next
  case (snoc n hist)
  show ?case
  proof (cases "source_code_of (rn_source n) = source_code_of source")
    case False
    with snoc show ?thesis
      by (cases "source_code_of (rn_source n) = []") (auto simp: note_result_def errors_in_a_row_def recorded_state recorded_nothing)
  next
    case True
    with assms have c: "source_code_of (rn_source n) \<noteq> []" by simp
    have "source_state_of (rn_source n) rt = source_state_of source rt" for rt by (simp only: source_state_of_def True)
    with True c snoc show ?thesis
      by (cases "rn_status n") (auto simp: note_result_def errors_in_a_row_def recorded_state failures_after_def)
  qed
qed

section \<open>A poll and its sources\<close>

lemma spec_codes:
  "map ps_source (build_source_specs cfg) = implemented_sources" "distinct implemented_sources"
  "s \<in> set implemented_sources \<Longrightarrow> source_code_of s = s \<and> s \<noteq> []"
proof -
  show "map ps_source (build_source_specs cfg) = implemented_sources"
    by (simp add: build_source_specs_def foreign_spec_def implemented_sources_def)
  show "distinct implemented_sources" by code_simp
  have "list_all (\<lambda>s. source_code_of s = s \<and> s \<noteq> []) implemented_sources" by code_simp
  then show "s \<in> set implemented_sources \<Longrightarrow> source_code_of s = s \<and> s \<noteq> []" by (auto simp: list_all_iff)
qed

lemma polled_source [simp]: "po_source (poll_single_source cfg now rt fetch spec) = ps_source spec"
  by (auto simp: poll_single_source_def split: prod.split sum.split)

lemma polled_status: "po_status (poll_single_source cfg now rt fetch spec) \<in> {SKIPPED, ERROR, EMPTY, SUCCESS}"
  by (auto simp: poll_single_source_def split: prod.split sum.split)

lemma source_results_codes: "map po_source (source_results cfg env rt) = implemented_sources"
  using spec_codes(1) [of cfg] by (simp add: source_results_def comp_def)

lemma other_source_kept:
  "s \<notin> po_source ` set rs \<Longrightarrow> source_code_of s = s \<Longrightarrow> \<forall>r \<in> set rs. source_code_of (po_source r) = po_source r \<and> po_source r \<noteq> [] \<Longrightarrow>
     source_state_of s (record_poll now mode ingested rs rt) = source_state_of s rt"
  by (induction rs arbitrary: rt) (auto simp: record_poll_def recorded_state Let_def)

lemma record_poll_failures:
  assumes "r \<in> set rs" and "distinct (map po_source rs)"
    and "\<forall>r \<in> set rs. source_code_of (po_source r) = po_source r \<and> po_source r \<noteq> []"
  shows "ss_failures (source_state_of (po_source r) (record_poll now mode ingested rs rt)) =
    failures_after (runtime_status r (final_counts r ingested)) (ss_failures (source_state_of (po_source r) rt))"
  using assms
proof (induction rs arbitrary: rt)
  case (Cons r' rs)
  show ?case
  proof (cases "r = r'")
    case True
    with Cons.prems have "po_source r' \<notin> po_source ` set rs" "source_code_of (po_source r') = po_source r'" "po_source r' \<noteq> []" by auto
    with True Cons.prems(3) other_source_kept [of "po_source r'" rs] show ?thesis
      by (simp add: record_poll_def recorded_state Let_def)
  next
    case False
    with Cons.prems have "r \<in> set rs" "po_source r' \<notin> po_source ` set rs" by auto
    then have "po_source r \<noteq> po_source r'" by (metis image_eqI)
    note this \<open>r \<in> set rs\<close>
    with Cons show ?thesis by (auto simp: record_poll_def recorded_state Let_def)
  qed
qed simp

lemma runtime_failures:
  "po_status r \<in> {SKIPPED, ERROR, EMPTY, SUCCESS} \<Longrightarrow>
     failures_after (runtime_status r counts) n = (if po_status r = ERROR then Suc n else 0)"
  by (auto simp: runtime_status_def failures_after_def)

lemma poll_ran:
  assumes "poll_sources cfg env mode rt table = Inr rep" and "NEWS_POLL_ENABLED cfg"
  shows "\<exists>st. ingest_items_detailed (pe_ingest env) (pe_ingest_clock env) (pe_stocks env)
        (translate_items (pe_translate env) (pe_llm_enabled env) (pe_answers env) (concat (map po_items (source_results cfg env rt)))) table = Inr st \<and>
      pp_table rep = is_table st \<and> pp_events rep = news_events (is_created st) \<and>
      (\<forall>s. source_state_of s (pp_runtime rep) = source_state_of s (record_poll (pe_now env) mode (is_sources st) (source_results cfg env rt) rt))"
  using assms by (auto simp: poll_sources_def rbind_eq_Inr Let_def)

lemma poll_failures:
  assumes "poll_sources cfg env mode rt table = Inr rep" and "NEWS_POLL_ENABLED cfg" and "spec \<in> set (build_source_specs cfg)"
  shows "ss_failures (source_state_of (ps_source spec) (pp_runtime rep)) =
    (if po_status (poll_single_source cfg (pe_clock env (ps_source spec)) rt (pe_fetch env) spec) = ERROR
     then Suc (ss_failures (source_state_of (ps_source spec) rt)) else 0)"
proof -
  let ?r = "poll_single_source cfg (pe_clock env (ps_source spec)) rt (pe_fetch env) spec" and ?rs = "source_results cfg env rt"
  have mem: "?r \<in> set ?rs" using assms(3) by (auto simp: source_results_def)
  have codes: "distinct (map po_source ?rs)" "\<forall>r \<in> set ?rs. source_code_of (po_source r) = po_source r \<and> po_source r \<noteq> []"
    using source_results_codes [of cfg env rt] spec_codes(2,3) by (metis, metis image_eqI set_map)
  from poll_ran [OF assms(1,2)] obtain st :: ingest_state where
      "\<forall>s. source_state_of s (pp_runtime rep) = source_state_of s (record_poll (pe_now env) mode (is_sources st) ?rs rt)"
    by blast
  then show ?thesis using record_poll_failures [OF mem codes] runtime_failures polled_status by simp
qed

section \<open>Samples\<close>

definition poll_sample_settings :: poll_settings where
  "poll_sample_settings =
     \<lparr>NEWS_POLL_ENABLED = True, NEWS_POLL_PAGE_COUNT = 25, NEWS_SOURCE_FAILURE_THRESHOLD = 3, NEWS_SOURCE_FAILURE_COOLDOWN_MIN = 30,
      OPEN_DART_API_KEY = [], NEWS_DOMESTIC_MEDIA_ENABLED = False, NEWS_INCLUDE_FOREIGN = False, NEWS_NASDAQ_ENABLED = False\<rparr>"

definition poll_sample_env :: "raw_news list \<Rightarrow> poll_env" where
  "poll_sample_env items =
     \<lparr>pe_fetch = (\<lambda>_. Inr items), pe_clock = (\<lambda>_. 60000000), pe_now = 60000000,
      pe_translate = \<lparr>te_loads = (\<lambda>_. None), te_refusal = id, te_class = (\<lambda>_. [])\<rparr>, pe_llm_enabled = False,
      pe_answers = (\<lambda>_. Inr ([], CODEX)), pe_ingest = ingest_sample, pe_ingest_clock = (\<lambda>n. PyDT (int n) True), pe_stocks = []\<rparr>"

definition krx_error :: result_note where
  "krx_error = \<lparr>rn_now = 0, rn_source = ''KRX'', rn_status = ERROR, rn_mode = ''AUTO'', rn_message = Said ''timeout'', rn_counts = no_counts,
     rn_overall = False\<rparr>"

lemma krx_code: "source_code_of ''KRX'' = ''KRX''"
  by code_simp

lemma krx_errors: "errors_in_a_row ''KRX'' [krx_error, krx_error, krx_error] = [krx_error, krx_error, krx_error]"
  by (simp add: errors_in_a_row_def krx_error_def krx_code)

lemma sample_items:
  "concat (map po_items (source_results poll_sample_settings (poll_sample_env items) fresh_runtime)) = items"
proof -
  have "source_pause cfg now s fresh_runtime = (False, 0)" for cfg now s
    by (rule no_pause) (simp add: source_state_of_def fresh_runtime_def default_source_state_def)
  then show ?thesis
    by (simp add: source_results_def build_source_specs_def foreign_spec_def poll_single_source_def poll_sample_settings_def poll_sample_env_def)
qed

lemma sample_untranslated [simp]: "translate_items env False answers items = items"
  by (simp add: translate_items_def needs_translation_def)

lemma sample_poll:
  "\<exists>rep. poll_sources poll_sample_settings (poll_sample_env [raw_sample, raw_sample]) ''AUTO'' fresh_runtime [] = Inr rep"
proof -
  obtain st where "ingest_items_detailed ingest_sample (\<lambda>n. PyDT (int n) True) [] [raw_sample, raw_sample] [] = Inr st"
    using raw_sample_ingest by blast
  with sample_items [of "[raw_sample, raw_sample]"] show ?thesis
    by (simp add: poll_sources_def Let_def) (simp add: poll_sample_env_def poll_sample_settings_def)
qed

section \<open>Properties\<close>

text \<open>
  C7: A news source pauses exactly when its latest results were errors, at least as many in a row as the
  threshold, and the last of them lies back less than the pause by at least a second: whatever results of all the
  sources were recorded since the start.
\<close>

theorem source_pauses_after_errors_in_a_row:
  assumes "source_code_of source \<noteq> []"
  shows "fst (source_pause cfg now source (fold note_result hist fresh_runtime)) \<longleftrightarrow>
    (let errors = errors_in_a_row source hist
     in at_least_one (NEWS_SOURCE_FAILURE_THRESHOLD cfg) \<le> int (length errors) \<and>
        now + second_us \<le> rn_now (hd errors) + at_least_one (NEWS_SOURCE_FAILURE_COOLDOWN_MIN cfg) * minute_us)"
proof -
  have "1 \<le> at_least_one v" for v by (simp add: at_least_one_def)
  then have "at_least_one (NEWS_SOURCE_FAILURE_THRESHOLD cfg) \<le> int (length (errors_in_a_row source hist)) \<Longrightarrow> errors_in_a_row source hist \<noteq> []"
    by (metis int_ops(1) list.size(3) not_one_le_zero of_nat_0 order_trans)
  with history_state [OF assms, of hist] show ?thesis unfolding pause_active Let_def by auto
qed

theorem source_pauses_after_errors_in_a_row_witness:
  "fst (source_pause poll_sample_settings 60000000 ''KRX'' (fold note_result [krx_error, krx_error, krx_error] fresh_runtime))"
  using source_pauses_after_errors_in_a_row [of "''KRX''" poll_sample_settings 60000000 "[krx_error, krx_error, krx_error]"]
  unfolding krx_errors Let_def krx_code
  by (simp add: krx_error_def poll_sample_settings_def at_least_one_def second_us_def minute_us_def)

text \<open>
  The pause of a source ends with the first poll that it skips: the skip is recorded as a result, which ends
  the row of failures, so the poll after it reads the source again, however long the pause was to last.
\<close>

theorem pause_ends_at_first_skip:
  assumes "poll_sources cfg env mode rt table = Inr rep" and "NEWS_POLL_ENABLED cfg" and "spec \<in> set (build_source_specs cfg)"
    and "fst (source_pause cfg (pe_clock env (ps_source spec)) (ps_source spec) rt)"
  shows "source_pause cfg later (ps_source spec) (pp_runtime rep) = (False, 0)"
proof (rule no_pause)
  have "po_status (poll_single_source cfg (pe_clock env (ps_source spec)) rt (pe_fetch env) spec) = SKIPPED"
    using assms(4) by (auto simp: poll_single_source_def split: prod.split)
  then show "ss_failures (source_state_of (ps_source spec) (pp_runtime rep)) = 0" by (simp add: poll_failures [OF assms(1-3)])
qed

theorem pause_ends_at_first_skip_witness:
  "\<exists>rep. poll_sources poll_sample_settings (poll_sample_env []) ''AUTO'' (fold note_result [krx_error, krx_error, krx_error] fresh_runtime) [] = Inr rep \<and>
     source_pause poll_sample_settings 60000001 ''KRX'' (pp_runtime rep) = (False, 0)"
proof -
  let ?rt = "fold note_result [krx_error, krx_error, krx_error] fresh_runtime" and ?env = "poll_sample_env []"
  have on: "NEWS_POLL_ENABLED poll_sample_settings" by (simp add: poll_sample_settings_def)
  have "concat (map po_items (source_results poll_sample_settings ?env ?rt)) = []"
    by (auto simp: source_results_def poll_single_source_def poll_sample_env_def split: prod.split)
  then obtain rep where rep: "poll_sources poll_sample_settings ?env ''AUTO'' ?rt [] = Inr rep"
    using on by (auto simp: poll_sources_def ingest_items_detailed_def translate_items_def Let_def)
  have spec: "\<lparr>ps_source = ''KRX'', ps_enabled = True, ps_skip_message = []\<rparr> \<in> set (build_source_specs poll_sample_settings)"
    by (simp add: build_source_specs_def)
  have "fst (source_pause poll_sample_settings 60000000 ''KRX'' ?rt)"
    unfolding pause_active using history_state [of "''KRX''" "[krx_error, krx_error, krx_error]"] unfolding krx_errors krx_code
    by (simp add: krx_error_def poll_sample_settings_def at_least_one_def second_us_def minute_us_def)
  then have "source_pause poll_sample_settings 60000001 ''KRX'' (pp_runtime rep) = (False, 0)"
    using pause_ends_at_first_skip [OF rep _ spec, of 60000001] by (simp add: poll_sample_env_def poll_sample_settings_def)
  with rep show ?thesis by blast
qed

text \<open>
  C6: News are announced once: a poll that reads nothing but items an earlier poll has read, each with a time,
  publishes no event and leaves the table as it is, whatever the model answers and whatever else the table got meanwhile.
\<close>

theorem read_news_not_announced_again:
  assumes "poll_sources cfg env mode rt table = Inr rep" and "NEWS_POLL_ENABLED cfg"
    and "poll_sources cfg' env' mode' rt' table' = Inr rep'" and "set (pp_table rep) \<subseteq> set table'"
    and "pe_ingest env' = pe_ingest env"
    and "\<forall>r' \<in> set (source_results cfg' env' rt'). \<forall>i \<in> set (po_items r').
           strip (rw_published i) \<noteq> [] \<and> (\<exists>r \<in> set (source_results cfg env rt). i \<in> set (po_items r))"
    and "\<forall>r \<in> set (source_results cfg env rt). \<forall>i \<in> set (po_items r). strip (rw_published i) \<noteq> []"
  shows "pp_events rep' = [] \<and> pp_table rep' = table'"
proof (cases "NEWS_POLL_ENABLED cfg'")
  case False
  with assms(3) show ?thesis by (auto simp: poll_sources_def)
next
  case True
  let ?read = "concat (map po_items (source_results cfg env rt))" and ?read' = "concat (map po_items (source_results cfg' env' rt'))"
  let ?items = "translate_items (pe_translate env) (pe_llm_enabled env) (pe_answers env) ?read"
    and ?items' = "translate_items (pe_translate env') (pe_llm_enabled env') (pe_answers env') ?read'"
  from poll_ran [OF assms(1,2)] obtain st where st: "ingest_items_detailed (pe_ingest env) (pe_ingest_clock env) (pe_stocks env) ?items table = Inr st"
    "pp_table rep = is_table st" by blast
  from poll_ran [OF assms(3) True] obtain st' where
    st': "ingest_items_detailed (pe_ingest env) (pe_ingest_clock env') (pe_stocks env') ?items' table' = Inr st'"
    and rep': "pp_table rep' = is_table st'" "pp_events rep' = news_events (is_created st')" unfolding assms(5) by blast
  have dated: "\<forall>i \<in> set ?read. strip (rw_published i) \<noteq> []" "\<forall>i \<in> set ?read'. strip (rw_published i) \<noteq> []" using assms(6,7) by auto
  have "\<forall>i \<in> set ?items. known (pe_ingest env) (is_table st) i"
    using batch_known [OF st(1)] same_known(2) [OF translated_same dated(1)] by blast
  then have "\<forall>i \<in> set ?read. known (pe_ingest env) (is_table st) i"
    using same_known(1) [OF translated_same dated(1)] by metis
  then have "\<forall>i \<in> set ?read. known (pe_ingest env) table' i"
    using known_mono assms(4) st(2) by metis
  moreover have "set ?read' \<subseteq> set ?read" using assms(6) by auto
  ultimately have "\<forall>i \<in> set ?read'. known (pe_ingest env) table' i" by blast
  then have "\<forall>i \<in> set ?items'. known (pe_ingest env) table' i"
    using same_known(1) [OF translated_same dated(2)] by metis
  then have "is_table st' = table' \<and> is_created st' = []"
    using same_known(2) [OF translated_same dated(2)] st' by (rule known_batch_result)
  then show ?thesis by (simp add: rep' news_events_def)
qed

theorem read_news_not_announced_again_witness:
  "\<exists>rep rep'. poll_sources poll_sample_settings (poll_sample_env [raw_sample, raw_sample]) ''AUTO'' fresh_runtime [] = Inr rep \<and>
     poll_sources poll_sample_settings (poll_sample_env [raw_sample, raw_sample]) ''AUTO'' fresh_runtime (pp_table rep) = Inr rep' \<and>
     pp_events rep' = [] \<and> pp_table rep' = pp_table rep"
proof -
  let ?env = "poll_sample_env [raw_sample, raw_sample]"
  obtain rep where rep: "poll_sources poll_sample_settings ?env ''AUTO'' fresh_runtime [] = Inr rep" using sample_poll by blast
  have dated: "strip (rw_published raw_sample) \<noteq> []" by (simp add: raw_sample_def) code_simp
  have items: "concat (map po_items (source_results poll_sample_settings ?env fresh_runtime)) = [raw_sample, raw_sample]" by (rule sample_items)
  have on: "NEWS_POLL_ENABLED poll_sample_settings" by (simp add: poll_sample_settings_def)
  have mem: "\<exists>r \<in> set (source_results poll_sample_settings ?env fresh_runtime). raw_sample \<in> set (po_items r)"
    and all: "\<forall>r \<in> set (source_results poll_sample_settings ?env fresh_runtime). \<forall>i \<in> set (po_items r). i = raw_sample"
    using arg_cong [OF items, of set] by (auto simp: set_eq_iff)
  obtain st where "ingest_items_detailed ingest_sample (\<lambda>n. PyDT (int n) True) [] [raw_sample, raw_sample] [] = Inr st" "pp_table rep = is_table st"
    using poll_ran [OF rep on] unfolding items by (auto simp: poll_sample_env_def)
  then have "\<exists>st'. ingest_items_detailed ingest_sample (\<lambda>n. PyDT (int n) True) [] [raw_sample, raw_sample] (pp_table rep) = Inr st' \<and>
      is_table st' = pp_table rep \<and> is_created st' = []"
    using dated by (intro reread_news) auto
  then obtain st' where "ingest_items_detailed ingest_sample (\<lambda>n. PyDT (int n) True) [] [raw_sample, raw_sample] (pp_table rep) = Inr st'"
    by blast
  then obtain rep' where rep': "poll_sources poll_sample_settings ?env ''AUTO'' fresh_runtime (pp_table rep) = Inr rep'"
    using items on by (simp add: poll_sources_def Let_def) (auto simp: poll_sample_env_def)
  have "pp_events rep' = [] \<and> pp_table rep' = pp_table rep"
    by (rule read_news_not_announced_again [OF rep on rep']) (use dated mem all in auto)
  with rep rep' show ?thesis by blast
qed

end
