(* ===== verification/Least_Squares.thy ===== *)
theory Least_Squares
  imports Py_Prelude
begin

text \<open>
  What the chart analysis relies on of \<open>numpy\<close> and \<open>pandas\<close>: the mean of numbers and the slope of the line of
  least squares through them (\<open>np.polyfit(np.arange(n), ys, 1)\<close>). Both are parameters; \<open>np_documented\<close> is what
  their documentation says of them. It determines the slope, and with it how the slope changes with the unit
  of the numbers and with their order.
\<close>

record np_lib =
  np_mean :: "real list \<Rightarrow> real"
  np_slope :: "real list \<Rightarrow> real"

text \<open>The sum of the squared distances of a line from the numbers.\<close>

definition sq_err :: "real list \<Rightarrow> real \<Rightarrow> real \<Rightarrow> real" where
  "sq_err ys s b = (\<Sum>i<length ys. (ys ! i - (s * real i + b))\<^sup>2)"

definition np_documented :: "np_lib \<Rightarrow> bool" where
  "np_documented lib \<longleftrightarrow>
     (\<forall>ys. ys \<noteq> [] \<longrightarrow> np_mean lib ys = sum_list ys / real (length ys)) \<and>
     (\<forall>ys. 2 \<le> length ys \<longrightarrow> (\<exists>b. \<forall>s' b'. sq_err ys (np_slope lib ys) b \<le> sq_err ys s' b'))"

section \<open>The closed form\<close>

definition mid :: "nat \<Rightarrow> real" where "mid n = (\<Sum>i<n. real i) / real n"

definition avg :: "real list \<Rightarrow> real" where "avg ys = (\<Sum>i<length ys. ys ! i) / real (length ys)"

definition sxx :: "nat \<Rightarrow> real" where "sxx n = (\<Sum>i<n. (real i - mid n)\<^sup>2)"

definition sxy :: "real list \<Rightarrow> real" where
  "sxy ys = (\<Sum>i<length ys. (real i - mid (length ys)) * (ys ! i - avg ys))"

definition ls_slope :: "real list \<Rightarrow> real" where "ls_slope ys = sxy ys / sxx (length ys)"

lemma centred: "0 < n \<Longrightarrow> (\<Sum>i<n. real i - mid n) = 0"
  by (simp add: mid_def sum_subtractf)

lemma centred_values: "ys \<noteq> [] \<Longrightarrow> (\<Sum>i<length ys. ys ! i - avg ys) = 0"
  by (simp add: avg_def sum_subtractf)

lemma mid_closed: "0 < n \<Longrightarrow> mid n = (real n - 1) / 2"
proof -
  have "2 * (\<Sum>i<n. real i) = real n * (real n - 1)" by (induction n) (simp_all add: algebra_simps)
  then show "0 < n \<Longrightarrow> mid n = (real n - 1) / 2" by (simp add: mid_def field_simps)
qed

lemma sxx_pos: "2 \<le> n \<Longrightarrow> 0 < sxx n"
proof -
  assume n: "2 \<le> n"
  then have "0 < (real 0 - mid n)\<^sup>2" by (simp add: mid_closed)
  also have "\<dots> \<le> sxx n" unfolding sxx_def by (rule member_le_sum) (use n in auto)
  finally show ?thesis .
qed

text \<open>The error of a line is that of the closed form and two squares.\<close>

lemma sq_err_split:
  assumes "2 \<le> length ys"
  shows "sq_err ys s b =
    sq_err ys (ls_slope ys) (avg ys - ls_slope ys * mid (length ys)) +
    (ls_slope ys - s)\<^sup>2 * sxx (length ys) + real (length ys) * (avg ys - s * mid (length ys) - b)\<^sup>2"
proof -
  let ?n = "length ys" and ?S = "ls_slope ys"
  let ?x = "\<lambda>i. real i - mid ?n" and ?d = "?S - s" and ?c = "avg ys - s * mid ?n - b"
  let ?r = "\<lambda>i. ys ! i - avg ys - ?S * ?x i"
  have ne: "ys \<noteq> []" "0 < ?n" using assms by auto
  have r0: "(\<Sum>i<?n. ?r i) = 0"
    using centred [OF ne(2)] centred_values [OF ne(1)] by (simp add: sum_subtractf flip: sum_distrib_left)
  have rx: "(\<Sum>i<?n. ?x i * ?r i) = 0"
  proof -
    have "(\<Sum>i<?n. ?x i * ?r i) = (\<Sum>i<?n. ?x i * (ys ! i - avg ys) - ?S * (?x i)\<^sup>2)"
      by (intro sum.cong refl) (simp add: power2_eq_square algebra_simps)
    also have "\<dots> = sxy ys - ?S * sxx ?n" by (simp only: sum_subtractf sum_distrib_left sxy_def sxx_def)
    finally have "(\<Sum>i<?n. ?x i * ?r i) = sxy ys - ?S * sxx ?n" .
    then show ?thesis using sxx_pos [OF assms] by (simp add: ls_slope_def)
  qed
  have "sq_err ys s b = (\<Sum>i<?n. (?r i + (?d * ?x i + ?c))\<^sup>2)"
    unfolding sq_err_def by (intro sum.cong refl arg_cong [where f = "\<lambda>x. x\<^sup>2"]) (simp add: algebra_simps)
  also have "\<dots> = (\<Sum>i<?n. (?r i)\<^sup>2 + (2 * ?d * (?x i * ?r i) + 2 * ?c * ?r i) + (?d\<^sup>2 * (?x i)\<^sup>2 + 2 * ?d * ?c * ?x i + ?c\<^sup>2))"
    by (intro sum.cong refl) (simp add: power2_eq_square algebra_simps)
  also have "\<dots> = (\<Sum>i<?n. (?r i)\<^sup>2) + (2 * ?d * (\<Sum>i<?n. ?x i * ?r i) + 2 * ?c * (\<Sum>i<?n. ?r i)) +
      (?d\<^sup>2 * (\<Sum>i<?n. (?x i)\<^sup>2) + 2 * ?d * ?c * (\<Sum>i<?n. ?x i) + real ?n * ?c\<^sup>2)"
    by (simp only: sum.distrib sum_distrib_left sum_constant card_lessThan)
  also have "\<dots> = (\<Sum>i<?n. (?r i)\<^sup>2) + (?d\<^sup>2 * sxx ?n + real ?n * ?c\<^sup>2)"
    by (simp only: rx r0 centred [OF ne(2)] sxx_def mult_zero_right add_0_left add_0_right)
  also have "(\<Sum>i<?n. (?r i)\<^sup>2) = sq_err ys ?S (avg ys - ?S * mid ?n)"
    unfolding sq_err_def by (intro sum.cong refl arg_cong [where f = "\<lambda>x. x\<^sup>2"]) (simp add: algebra_simps)
  finally show ?thesis by simp
qed

lemma slope_determined:
  assumes "np_documented lib" and "2 \<le> length ys"
  shows "np_slope lib ys = ls_slope ys"
proof -
  obtain b where "sq_err ys (np_slope lib ys) b \<le> sq_err ys (ls_slope ys) (avg ys - ls_slope ys * mid (length ys))"
    using assms unfolding np_documented_def by blast
  then have "(ls_slope ys - np_slope lib ys)\<^sup>2 * sxx (length ys) + real (length ys) * (avg ys - np_slope lib ys * mid (length ys) - b)\<^sup>2 \<le> 0"
    using sq_err_split [OF assms(2), of "np_slope lib ys" b] by simp
  moreover have "0 \<le> real (length ys) * (avg ys - np_slope lib ys * mid (length ys) - b)\<^sup>2" by simp
  ultimately have "(ls_slope ys - np_slope lib ys)\<^sup>2 * sxx (length ys) \<le> 0" by linarith
  then show ?thesis using sxx_pos [OF assms(2)] by (simp add: mult_le_0_iff)
qed

lemma mean_determined: "np_documented lib \<Longrightarrow> ys \<noteq> [] \<Longrightarrow> np_mean lib ys = avg ys"
  by (simp add: np_documented_def avg_def sum_list_sum_nth atLeast0LessThan)

definition plain_lib :: np_lib where
  "plain_lib = \<lparr>np_mean = (\<lambda>ys. sum_list ys / real (length ys)), np_slope = ls_slope\<rparr>"

lemma plain_documented: "np_documented plain_lib"
  unfolding np_documented_def plain_lib_def
proof (intro conjI allI impI)
  fix ys :: "real list" assume "2 \<le> length ys"
  moreover from this have "0 < sxx (length ys)" by (rule sxx_pos)
  ultimately have "sq_err ys (ls_slope ys) (avg ys - ls_slope ys * mid (length ys)) \<le> sq_err ys s' b'" for s' b'
    unfolding sq_err_split [OF \<open>2 \<le> length ys\<close>, of s' b'] by (simp add: add.assoc)
  then show "\<exists>b. \<forall>s' b'. sq_err ys (np_slope \<lparr>np_mean = \<lambda>ys. sum_list ys / real (length ys), np_slope = ls_slope\<rparr> ys) b \<le> sq_err ys s' b'"
    by (auto intro!: exI [of _ "avg ys - ls_slope ys * mid (length ys)"])
qed simp

section \<open>Unit and order\<close>

lemma avg_scale: "avg (map ((*) k) ys) = k * avg ys"
  by (simp add: avg_def sum_distrib_left)

lemma slope_scale: "ls_slope (map ((*) k) ys) = k * ls_slope ys"
proof -
  have "sxy (map ((*) k) ys) = k * sxy ys"
    by (simp add: sxy_def avg_scale sum_distrib_left algebra_simps)
  then show ?thesis by (simp add: ls_slope_def)
qed

lemma avg_rev: "avg (rev ys) = avg ys"
proof -
  have "(\<Sum>i<length ys. rev ys ! i) = (\<Sum>i<length ys. ys ! (length ys - Suc i))" by (simp add: rev_nth)
  then show ?thesis by (simp add: avg_def sum.nat_diff_reindex)
qed

lemma slope_rev: "ls_slope (rev ys) = - ls_slope ys"
proof (cases "ys = []")
  case False
  let ?n = "length ys" and ?f = "\<lambda>i. (real i - mid (length ys)) * (ys ! i - avg ys)"
  have "sxy (rev ys) = (\<Sum>i<?n. (real i - mid ?n) * (ys ! (?n - Suc i) - avg ys))"
    by (simp add: sxy_def avg_rev rev_nth)
  also have "\<dots> = (\<Sum>i<?n. - ?f (?n - Suc i))"
    using False by (intro sum.cong refl) (simp add: mid_closed of_nat_diff field_simps)
  also have "\<dots> = - sxy ys" by (simp only: sum_negf sum.nat_diff_reindex [of ?f] sxy_def)
  finally show ?thesis by (simp add: ls_slope_def)
qed (simp add: ls_slope_def sxy_def)

lemma slope_increasing:
  assumes "sorted_wrt (<) ys" and "2 \<le> length ys"
  shows "0 < ls_slope ys"
proof -
  let ?n = "length ys" and ?p = "\<lambda>i j. (real i - real j) * (ys ! i - ys ! j)"
  have nonneg: "0 \<le> ?p i j" if "i < ?n" "j < ?n" for i j
  proof (cases i j rule: linorder_cases)
    case less
    then have "ys ! i < ys ! j" using assms(1) that by (simp add: sorted_wrt_nth_less)
    with less show ?thesis by (simp add: zero_le_mult_iff)
  next
    case greater
    then have "ys ! j < ys ! i" using assms(1) that by (simp add: sorted_wrt_nth_less)
    with greater show ?thesis by (simp add: zero_le_mult_iff)
  qed simp
  have sxy: "sxy ys = (\<Sum>i<?n. real i * ys ! i) - (\<Sum>i<?n. real i) * (\<Sum>i<?n. ys ! i) / real ?n"
  proof -
    have "sxy ys = (\<Sum>i<?n. real i * ys ! i - mid ?n * ys ! i - avg ys * real i + mid ?n * avg ys)"
      unfolding sxy_def by (intro sum.cong refl) (simp add: algebra_simps)
    also have "\<dots> = (\<Sum>i<?n. real i * ys ! i) - mid ?n * (\<Sum>i<?n. ys ! i) - avg ys * (\<Sum>i<?n. real i) + real ?n * (mid ?n * avg ys)"
      by (simp only: sum.distrib sum_subtractf sum_distrib_left sum_constant card_lessThan)
    finally show ?thesis using assms(2) by (simp add: mid_def avg_def)
  qed
  have "(\<Sum>i<?n. \<Sum>j<?n. ?p i j) = 2 * (real ?n * (\<Sum>i<?n. real i * ys ! i) - (\<Sum>i<?n. real i) * (\<Sum>i<?n. ys ! i))"
    by (simp only: one_add_one [symmetric] algebra_simps)
       (simp add: algebra_simps sum_subtractf sum.distrib sum.swap [of "\<lambda>i j. real i * ys ! j"] sum_distrib_left)
  then have pairs: "(\<Sum>i<?n. \<Sum>j<?n. ?p i j) = 2 * real ?n * sxy ys" using assms(2) by (simp add: sxy field_simps)
  have "ys ! 0 < ys ! 1" using assms by (simp add: sorted_wrt_nth_less)
  then have "0 < ?p 1 0" by simp
  also have "\<dots> \<le> (\<Sum>j<?n. ?p 1 j)" by (rule member_le_sum) (use assms(2) nonneg [of 1] in auto)
  also have "\<dots> \<le> (\<Sum>i<?n. \<Sum>j<?n. ?p i j)" by (rule member_le_sum) (use assms(2) nonneg in \<open>auto intro!: sum_nonneg\<close>)
  finally have "0 < sxy ys" using assms(2) pairs by (simp add: zero_less_mult_iff)
  then show ?thesis using sxx_pos [OF assms(2)] by (simp add: ls_slope_def)
qed

end
