(* ===== verification/Chart_Trend.thy ===== *)
theory Chart_Trend
  imports Least_Squares
begin

text \<open>
  The trend of a chart over several windows (\<open>analysis/technical/trend_analyzer.py\<close>): slopes, the order of the moving
  averages, changes of momentum, crossings, volatility, the trend of the day, and the score that sums them up.

  A row of a frame is a record of numbers; rows whose fields are not numbers are left out of the model. \<open>lib\<close>
  stands for \<open>numpy\<close>; a rolling mean at a row is the mean of the window that ends there. \<open>Up_order\<close> and \<open>Down_order\<close>
  are the values BULLISH and BEARISH of the order of the averages, \<open>Steady\<close> is the momentum NEUTRAL.
\<close>

section \<open>Frames\<close>

record price_row =
  cr_open :: real
  cr_high :: real
  cr_low :: real
  cr_close :: real
  cr_volume :: real

definition closes :: "price_row list \<Rightarrow> real list" where "closes df = map cr_close df"

definition last_n :: "nat \<Rightarrow> 'a list \<Rightarrow> 'a list" where "last_n n xs = drop (length xs - n) xs"

text \<open>The moving average over \<open>n\<close> rows, \<open>k\<close> rows before the end.\<close>

definition sma_at :: "np_lib \<Rightarrow> nat \<Rightarrow> nat \<Rightarrow> real list \<Rightarrow> real" where
  "sma_at lib n k xs = np_mean lib (last_n n (take (length xs - k) xs))"

datatype direction = BULLISH | BEARISH | NEUTRAL
datatype strength = STRONG | MODERATE | WEAK
datatype arrangement = Up_order | Down_order | MIXED
datatype momentum = ACCELERATING | DECELERATING | REVERSING | Steady
datatype reversal = GOLDEN_CROSS | DEAD_CROSS | VOLUME_SPIKE_UP | VOLUME_SPIKE_DOWN
datatype volatility = EXPANDING | CONTRACTING | NORMAL
datatype volume_trend = INCREASING | DECREASING | STABLE
datatype vwap_position = ABOVE_VWAP | BELOW_VWAP | AT_VWAP

record intraday =
  it_slope :: real
  it_vol_trend :: volume_trend
  it_vwap :: vwap_position
  it_direction :: direction

record trend_report =
  tr_score :: real
  tr_direction :: direction
  tr_strength :: strength
  tr_slope5 :: real
  tr_slope10 :: real
  tr_slope20 :: real
  tr_slope60 :: real
  tr_alignment :: real
  tr_arrangement :: arrangement
  tr_momentum :: momentum
  tr_reversals :: "reversal list"
  tr_volatility :: volatility
  tr_atr_ratio :: real
  tr_intraday :: "intraday option"

definition no_trend :: trend_report where
  "no_trend =
     \<lparr>tr_score = 0, tr_direction = NEUTRAL, tr_strength = WEAK, tr_slope5 = 0, tr_slope10 = 0, tr_slope20 = 0, tr_slope60 = 0,
      tr_alignment = 0, tr_arrangement = MIXED, tr_momentum = Steady, tr_reversals = [], tr_volatility = NORMAL, tr_atr_ratio = 0,
      tr_intraday = None\<rparr>"

section \<open>The parts of the report\<close>

text \<open>The slope in per cent of the mean price a day.\<close>

definition trend_slope :: "np_lib \<Rightarrow> nat \<Rightarrow> real list \<Rightarrow> real" where
  "trend_slope lib period xs =
     (let n = min period (length xs)
      in if n < 3 then 0
         else let ys = last_n n xs in if np_mean lib ys = 0 then 0 else np_slope lib ys / np_mean lib ys * 100)"

definition slope_sign :: "real \<Rightarrow> int" where
  "slope_sign s = (if 5 / 100 < s then 1 else if s < - (5 / 100) then - 1 else 0)"

definition calc_alignment :: "real list \<Rightarrow> real" where
  "calc_alignment slopes =
     (let signs = map slope_sign slopes; ups = length (filter (\<lambda>s. s = 1) signs); downs = length (filter (\<lambda>s. s = - 1) signs)
      in if slopes = [] \<or> ups + downs = 0 then 0 else py_round 3 (real (max ups downs) / real (length slopes)))"

definition check_ma_arrangement :: "np_lib \<Rightarrow> real list \<Rightarrow> arrangement" where
  "check_ma_arrangement lib xs =
     (let s5 = sma_at lib 5 0 xs; s10 = sma_at lib 10 0 xs; s20 = sma_at lib 20 0 xs; s60 = sma_at lib 60 0 xs
      in if length xs < 20 then MIXED
         else if length xs < 60 then (if s20 < s5 then Up_order else if s5 < s20 then Down_order else MIXED)
         else if s10 < s5 \<and> s20 < s10 \<and> s60 < s20 then Up_order
         else if s5 < s10 \<and> s10 < s20 \<and> s20 < s60 then Down_order
         else MIXED)"

definition momentum_of :: "real \<Rightarrow> real \<Rightarrow> momentum" where
  "momentum_of recent prev =
     (let diff = recent - prev
      in if \<bar>diff\<bar> < 5 / 100 then Steady
         else if 0 < recent \<and> 1 / 10 < diff then ACCELERATING
         else if recent < 0 \<and> diff < - (1 / 10) then ACCELERATING
         else if \<bar>recent\<bar> < \<bar>prev\<bar> \<and> 1 / 10 < \<bar>diff\<bar> then DECELERATING
         else if (5 / 100 < recent \<and> prev < - (5 / 100)) \<or> (recent < - (5 / 100) \<and> 5 / 100 < prev) then REVERSING
         else Steady)"

definition detect_momentum_shift :: "np_lib \<Rightarrow> real list \<Rightarrow> momentum" where
  "detect_momentum_shift lib xs =
     (if length xs < 10 then Steady else momentum_of (trend_slope lib 5 xs) (trend_slope lib 5 (take (length xs - 5) xs)))"

text \<open>A crossing needs the longer average one row before the end, so 21 rows.\<close>

definition crossing :: "np_lib \<Rightarrow> real list \<Rightarrow> reversal list" where
  "crossing lib xs =
     (if length xs < 21 then []
      else if sma_at lib 5 1 xs < sma_at lib 20 1 xs \<and> sma_at lib 20 0 xs < sma_at lib 5 0 xs then [GOLDEN_CROSS]
      else if sma_at lib 20 1 xs < sma_at lib 5 1 xs \<and> sma_at lib 5 0 xs < sma_at lib 20 0 xs then [DEAD_CROSS]
      else [])"

text \<open>A price of zero the day before makes the change infinite, which exceeds the bound, or undefined, which does not.\<close>

definition large_change :: "real \<Rightarrow> real \<Rightarrow> bool" where
  "large_change prev now = (if prev = 0 then now \<noteq> 0 else 2 < \<bar>(now - prev) / prev * 100\<bar>)"

definition rising_change :: "real \<Rightarrow> real \<Rightarrow> bool" where
  "rising_change prev now = (if prev = 0 then 0 < now else 0 < (now - prev) / prev * 100)"

definition volume_spike :: "np_lib \<Rightarrow> price_row list \<Rightarrow> reversal list" where
  "volume_spike lib df =
     (let vol = map cr_volume (last_n 5 df); avg_vol = np_mean lib (take 4 vol); prev = closes df ! (length df - 2); now = closes df ! (length df - 1)
      in if 0 < avg_vol \<and> avg_vol * 2 < vol ! 4 \<and> large_change prev now
         then [if rising_change prev now then VOLUME_SPIKE_UP else VOLUME_SPIKE_DOWN] else [])"

definition detect_reversal_signals :: "np_lib \<Rightarrow> price_row list \<Rightarrow> reversal list" where
  "detect_reversal_signals lib df = (if length df < 20 then [] else crossing lib (closes df) @ volume_spike lib df)"

definition true_range :: "price_row \<Rightarrow> price_row \<Rightarrow> real" where
  "true_range before r =
     max (cr_high r - cr_low r) (max \<bar>cr_high r - cr_close before\<bar> \<bar>cr_low r - cr_close before\<bar>)"

definition true_ranges :: "price_row list \<Rightarrow> real list" where
  "true_ranges df = map2 true_range df (tl df)"

definition atr_ratio_of :: "np_lib \<Rightarrow> price_row list \<Rightarrow> real" where
  "atr_ratio_of lib df =
     (let avg_price = np_mean lib (last_n 14 (closes df))
      in if 0 < avg_price then np_mean lib (last_n 14 (true_ranges df)) / avg_price * 100 else 0)"

definition analyze_volatility :: "np_lib \<Rightarrow> price_row list \<Rightarrow> volatility \<times> real" where
  "analyze_volatility lib df =
     (let tr = true_ranges df; recent = np_mean lib (last_n 7 tr); prev = np_mean lib (take 14 (last_n 21 tr))
      in if length df < 15 then (NORMAL, 0)
         else (if 28 \<le> length tr \<and> 0 < prev \<and> 13 / 10 < recent / prev then EXPANDING
               else if 28 \<le> length tr \<and> 0 < prev \<and> recent / prev < 7 / 10 then CONTRACTING
               else NORMAL,
               py_round 3 (atr_ratio_of lib df)))"

definition typical_price :: "price_row \<Rightarrow> real" where
  "typical_price r = (cr_high r + cr_low r + cr_close r) / 3"

text \<open>The average weighted by volume; without volume it is undefined.\<close>

definition vwap_of :: "price_row list \<Rightarrow> real option" where
  "vwap_of df =
     (let vol = sum_list (map cr_volume df)
      in if vol = 0 then None else Some (sum_list (map (\<lambda>r. typical_price r * cr_volume r) df) / vol))"

definition volume_trend_of :: "np_lib \<Rightarrow> price_row list \<Rightarrow> volume_trend" where
  "volume_trend_of lib df =
     (let vol = map cr_volume df; first = np_mean lib (take (length vol div 2) vol); second = np_mean lib (drop (length vol div 2) vol)
      in if length df < 6 \<or> first \<le> 0 then STABLE
         else if 15 / 10 < second / first then INCREASING
         else if second / first < 5 / 10 then DECREASING
         else STABLE)"

definition vwap_position_of :: "price_row list \<Rightarrow> vwap_position" where
  "vwap_position_of df =
     (case vwap_of df of
        None \<Rightarrow> AT_VWAP
      | Some v \<Rightarrow>
          if v \<le> 0 then AT_VWAP
          else let d = (closes df ! (length df - 1) - v) / v * 100
               in if 5 / 10 < d then ABOVE_VWAP else if d < - (5 / 10) then BELOW_VWAP else AT_VWAP)"

definition analyze_intraday :: "np_lib \<Rightarrow> price_row list \<Rightarrow> intraday" where
  "analyze_intraday lib df =
     (let slope = trend_slope lib (length df) (closes df)
      in \<lparr>it_slope = py_round 4 slope, it_vol_trend = volume_trend_of lib df, it_vwap = vwap_position_of df,
          it_direction = (if 1 / 10 < slope then BULLISH else if slope < - (1 / 10) then BEARISH else NEUTRAL)\<rparr>)"

section \<open>The score\<close>

definition reversal_points :: "reversal \<Rightarrow> real" where
  "reversal_points s = (case s of GOLDEN_CROSS \<Rightarrow> 10 | DEAD_CROSS \<Rightarrow> - 10 | _ \<Rightarrow> 0)"

definition raw_score :: "trend_report \<Rightarrow> real" where
  "raw_score r =
     (let sign = (if 0 < tr_slope5 r then 1 else - 1)
      in tr_slope5 r * 8 + tr_slope10 r * 5 + tr_slope20 r * 3 + tr_slope60 r * 2
         + (if 7 / 10 < tr_alignment r then sign * tr_alignment r * 15 else 0)
         + (case tr_arrangement r of Up_order \<Rightarrow> 10 | Down_order \<Rightarrow> - 10 | MIXED \<Rightarrow> 0)
         + (case tr_momentum r of ACCELERATING \<Rightarrow> sign * 8 | DECELERATING \<Rightarrow> - (sign * 5) | REVERSING \<Rightarrow> - (sign * 10) | Steady \<Rightarrow> 0)
         + sum_list (map reversal_points (tr_reversals r))
         + (case tr_intraday r of
              None \<Rightarrow> 0
            | Some i \<Rightarrow> it_slope i * 3 + (case it_vwap i of ABOVE_VWAP \<Rightarrow> 3 | BELOW_VWAP \<Rightarrow> - 3 | AT_VWAP \<Rightarrow> 0)))"

definition compute_trend_score :: "trend_report \<Rightarrow> real" where
  "compute_trend_score r = max (- 100) (min 100 (py_round 2 (raw_score r)))"

definition score_direction :: "real \<Rightarrow> direction" where
  "score_direction s = (if 30 < s then BULLISH else if s < - 30 then BEARISH else NEUTRAL)"

definition score_strength :: "real \<Rightarrow> strength" where
  "score_strength s = (if 60 < \<bar>s\<bar> then STRONG else if 30 < \<bar>s\<bar> then MODERATE else WEAK)"

definition trend_parts :: "np_lib \<Rightarrow> price_row list \<Rightarrow> price_row list option \<Rightarrow> trend_report" where
  "trend_parts lib df minutes =
     (let xs = closes df; s5 = trend_slope lib 5 xs; s10 = trend_slope lib 10 xs; s20 = trend_slope lib 20 xs;
          s60 = trend_slope lib (min 60 (length xs)) xs; (vol, ratio) = analyze_volatility lib df
      in no_trend\<lparr>tr_slope5 := s5, tr_slope10 := s10, tr_slope20 := s20, tr_slope60 := s60,
           tr_alignment := calc_alignment [s5, s10, s20, s60], tr_arrangement := check_ma_arrangement lib xs,
           tr_momentum := detect_momentum_shift lib xs, tr_reversals := detect_reversal_signals lib df,
           tr_volatility := vol, tr_atr_ratio := ratio,
           tr_intraday := (case minutes of None \<Rightarrow> None | Some m \<Rightarrow> if 10 \<le> length m then Some (analyze_intraday lib m) else None)\<rparr>)"

definition analyze_trend :: "np_lib \<Rightarrow> price_row list \<Rightarrow> price_row list option \<Rightarrow> trend_report" where
  "analyze_trend lib df minutes =
     (if length df < 5 then no_trend
      else let r = trend_parts lib df minutes; score = compute_trend_score r
           in r\<lparr>tr_score := score, tr_direction := score_direction score, tr_strength := score_strength score\<rparr>)"

section \<open>Lemmas\<close>

lemma last_n_map: "last_n n (map f xs) = map f (last_n n xs)"
  by (simp add: last_n_def drop_map)

lemma last_n_length [simp]: "length (last_n n xs) = min n (length xs)"
  by (simp add: last_n_def)

lemma last_n_Nil [simp]: "last_n n xs = [] \<longleftrightarrow> n = 0 \<or> xs = []"
  by (cases xs) (auto simp: last_n_def)

lemma last_n_all: "length xs \<le> n \<Longrightarrow> last_n n xs = xs"
  by (simp add: last_n_def)

lemma closes_length [simp]: "length (closes df) = length df"
  by (simp add: closes_def)

subsection \<open>The unit of the prices\<close>

definition scale_row :: "real \<Rightarrow> price_row \<Rightarrow> price_row" where
  "scale_row k r = r\<lparr>cr_open := k * cr_open r, cr_high := k * cr_high r, cr_low := k * cr_low r, cr_close := k * cr_close r\<rparr>"

lemma scale_row_simps [simp]:
  "cr_open (scale_row k r) = k * cr_open r" "cr_high (scale_row k r) = k * cr_high r" "cr_low (scale_row k r) = k * cr_low r"
  "cr_close (scale_row k r) = k * cr_close r" "cr_volume (scale_row k r) = cr_volume r"
  by (simp_all add: scale_row_def)

lemma closes_scale: "closes (map (scale_row k) df) = map ((*) k) (closes df)"
  by (simp add: closes_def)

lemma volumes_scale: "map cr_volume (map (scale_row k) df) = map cr_volume df"
  by simp

lemma mean_scale: "np_documented lib \<Longrightarrow> ys \<noteq> [] \<Longrightarrow> np_mean lib (map ((*) k) ys) = k * np_mean lib ys"
  by (simp add: mean_determined avg_scale)

lemma sma_scale:
  "np_documented lib \<Longrightarrow> 0 < n \<Longrightarrow> k < length xs \<Longrightarrow> sma_at lib n k (map ((*) c) xs) = c * sma_at lib n k xs"
  by (cases "xs = []") (simp_all add: sma_at_def take_map last_n_map mean_scale)

text \<open>The slope by the closed form.\<close>

lemma trend_slope_closed:
  "np_documented lib \<Longrightarrow>
     trend_slope lib n xs =
       (let ys = last_n (min n (length xs)) xs in if length ys < 3 \<or> avg ys = 0 then 0 else ls_slope ys / avg ys * 100)"
proof (cases "min n (length xs) < 3")
  case False
  assume "np_documented lib"
  moreover have "last_n (min n (length xs)) xs \<noteq> []" "2 \<le> length (last_n (min n (length xs)) xs)" using False by auto
  ultimately show ?thesis using False by (simp add: trend_slope_def Let_def mean_determined slope_determined)
qed (simp add: trend_slope_def Let_def)

lemma trend_slope_scale:
  "np_documented lib \<Longrightarrow> 0 < k \<Longrightarrow> trend_slope lib n (map ((*) k) xs) = trend_slope lib n xs"
  by (simp add: trend_slope_closed Let_def last_n_map avg_scale slope_scale)

lemma arrangement_scale:
  "np_documented lib \<Longrightarrow> 0 < k \<Longrightarrow> check_ma_arrangement lib (map ((*) k) xs) = check_ma_arrangement lib xs"
  by (cases "length xs < 20"; cases "xs = []") (auto simp: check_ma_arrangement_def Let_def sma_scale)

lemma momentum_scale:
  "np_documented lib \<Longrightarrow> 0 < k \<Longrightarrow> detect_momentum_shift lib (map ((*) k) xs) = detect_momentum_shift lib xs"
  by (simp add: detect_momentum_shift_def trend_slope_scale take_map)

lemma crossing_scale: "np_documented lib \<Longrightarrow> 0 < k \<Longrightarrow> crossing lib (map ((*) k) xs) = crossing lib xs"
  by (cases "length xs < 21"; cases "xs = []") (simp_all add: crossing_def sma_scale)

lemma change_scale:
  assumes "0 < k"
  shows "large_change (k * p) (k * q) = large_change p q" and "rising_change (k * p) (k * q) = rising_change p q"
proof -
  have "(k * q - k * p) / (k * p) = (q - p) / p" using assms by (simp add: right_diff_distrib [symmetric])
  then show "large_change (k * p) (k * q) = large_change p q" "rising_change (k * p) (k * q) = rising_change p q"
    using assms by (simp_all add: large_change_def rising_change_def zero_less_mult_iff)
qed

lemma spike_scale:
  "2 \<le> length df \<Longrightarrow> 0 < k \<Longrightarrow> volume_spike lib (map (scale_row k) df) = volume_spike lib df"
  by (simp add: volume_spike_def Let_def last_n_map closes_scale change_scale comp_def)

lemma reversals_scale:
  "np_documented lib \<Longrightarrow> 0 < k \<Longrightarrow> detect_reversal_signals lib (map (scale_row k) df) = detect_reversal_signals lib df"
  by (simp add: detect_reversal_signals_def closes_scale crossing_scale spike_scale)

lemma true_range_scale: "0 < k \<Longrightarrow> true_range (scale_row k a) (scale_row k b) = k * true_range a b"
proof -
  assume k: "0 < k"
  have "\<bar>k * x - k * y\<bar> = k * \<bar>x - y\<bar>" for x y using k by (simp add: abs_mult right_diff_distrib [symmetric])
  moreover have "max (k * x) (k * y) = k * max x y" for x y using k by (simp add: max_def)
  ultimately show ?thesis by (simp add: true_range_def right_diff_distrib [symmetric])
qed

lemma true_ranges_scale: "0 < k \<Longrightarrow> true_ranges (map (scale_row k) df) = map ((*) k) (true_ranges df)"
  by (simp add: true_ranges_def map_tl [symmetric] zip_map_map comp_def true_range_scale case_prod_unfold)

lemma true_ranges_length [simp]: "length (true_ranges df) = length df - 1"
  by (simp add: true_ranges_def)

lemma atr_scale:
  assumes "np_documented lib" and "0 < k" and "15 \<le> length df"
  shows "atr_ratio_of lib (map (scale_row k) df) = atr_ratio_of lib df"
proof -
  have "last_n 14 (closes df) \<noteq> []" "last_n 14 (true_ranges df) \<noteq> []"
    using assms(3) by (simp_all flip: length_greater_0_conv)
  then show ?thesis using assms
    by (simp add: atr_ratio_of_def Let_def closes_scale true_ranges_scale last_n_map mean_scale zero_less_mult_iff)
qed

lemma volatility_scale:
  assumes "np_documented lib" and "0 < k"
  shows "analyze_volatility lib (map (scale_row k) df) = analyze_volatility lib df"
proof (cases "length df < 15")
  case True
  then show ?thesis by (simp add: analyze_volatility_def Let_def)
next
  case False
  have ne: "last_n 7 (true_ranges df) \<noteq> []" "take 14 (last_n 21 (true_ranges df)) \<noteq> []"
    using False by (simp_all flip: length_greater_0_conv)
  show ?thesis using False assms ne
    by (simp add: analyze_volatility_def Let_def true_ranges_scale last_n_map take_map mean_scale atr_scale zero_less_mult_iff)
qed

lemma vwap_scale: "vwap_of (map (scale_row k) df) = map_option ((*) k) (vwap_of df)"
proof -
  have "(\<lambda>r. typical_price (scale_row k r) * cr_volume r) = (\<lambda>r. k * (typical_price r * cr_volume r))"
    by (auto simp: typical_price_def algebra_simps)
  then show ?thesis by (simp add: vwap_of_def Let_def comp_def sum_list_const_mult)
qed

lemma vwap_position_scale:
  assumes "0 < k" and "df \<noteq> []"
  shows "vwap_position_of (map (scale_row k) df) = vwap_position_of df"
proof (cases "vwap_of df")
  case (Some v)
  have "(k * q - k * v) / (k * v) = (q - v) / v" for q using assms(1) by (simp add: right_diff_distrib [symmetric])
  with Some assms show ?thesis by (simp add: vwap_position_of_def vwap_scale Let_def closes_scale mult_le_0_iff)
qed (simp add: vwap_position_of_def vwap_scale)

lemma intraday_scale:
  "np_documented lib \<Longrightarrow> 0 < k \<Longrightarrow> m \<noteq> [] \<Longrightarrow> analyze_intraday lib (map (scale_row k) m) = analyze_intraday lib m"
  by (simp add: analyze_intraday_def Let_def closes_scale trend_slope_scale vwap_position_scale volume_trend_of_def volumes_scale comp_def)

subsection \<open>Falling prices\<close>

lemma avg_list: "avg ys = sum_list ys / real (length ys)"
  by (simp add: avg_def sum_list_sum_nth atLeast0LessThan)

lemma sum_list_bounds:
  fixes xs :: "real list"
  shows "\<forall>x \<in> set xs. x \<le> m \<Longrightarrow> sum_list xs \<le> real (length xs) * m" and "\<forall>x \<in> set xs. m \<le> x \<Longrightarrow> real (length xs) * m \<le> sum_list xs"
  by (induction xs) (auto simp: algebra_simps)

lemma fraction_less: "0 < m \<Longrightarrow> 0 < d \<Longrightarrow> a * d < b * m \<Longrightarrow> a / m < b / (d :: real)"
  by (simp add: field_simps)

text \<open>The mean of the end of falling prices is below the mean of a longer end.\<close>

lemma falling_means:
  assumes "sorted_wrt (>) (xs @ ys)" and "xs \<noteq> []" and "ys \<noteq> []"
  shows "avg ys < avg (xs @ ys :: real list)"
proof -
  let ?m = "real (length ys)" and ?n = "real (length xs)"
  have pos: "0 < ?m" "0 < ?n" using assms by auto
  have le: "\<forall>y \<in> set ys. y \<le> hd ys" using assms(1,3) by (cases ys) (auto simp: sorted_wrt_append)
  have gt: "\<forall>x \<in> set xs. hd ys < x" using assms(1,3) by (cases ys) (auto simp: sorted_wrt_append)
  have s: "sum_list ys \<le> ?m * hd ys" using sum_list_bounds(1) [OF le] .
  have x: "hd ys < last xs" "?n * last xs \<le> sum_list xs"
  proof -
    show "hd ys < last xs" using gt assms(2) by simp
    have "\<forall>x \<in> set xs. last xs \<le> x"
      using assms(1,2) by (cases xs rule: rev_cases) (auto simp: sorted_wrt_append)
    then show "?n * last xs \<le> sum_list xs" by (rule sum_list_bounds(2))
  qed
  have "?n * sum_list ys \<le> ?n * (?m * hd ys)" using s pos by (intro mult_left_mono) auto
  also have "\<dots> < ?m * (?n * last xs)" using x(1) pos by (simp add: mult.left_commute)
  also have "\<dots> \<le> ?m * sum_list xs" using x(2) pos by (intro mult_left_mono) auto
  finally have "sum_list ys * (?n + ?m) < (sum_list xs + sum_list ys) * ?m" by (simp add: algebra_simps)
  then have "sum_list ys * real (length (xs @ ys)) < sum_list (xs @ ys) * ?m" by simp
  moreover have "0 < real (length (xs @ ys))" using assms(2) by (cases xs) simp_all
  ultimately show ?thesis unfolding avg_list using fraction_less [OF pos(1)] by blast
qed

lemma last_n_split: "a \<le> b \<Longrightarrow> last_n b xs = take (length (last_n b xs) - a) (last_n b xs) @ last_n a xs"
proof -
  assume "a \<le> b"
  then have "last_n a xs = drop (length (last_n b xs) - a) (last_n b xs)" by (cases "b \<le> length xs") (simp_all add: last_n_def)
  then show ?thesis by (metis append_take_drop_id)
qed

lemma sorted_last_n: "sorted_wrt P xs \<Longrightarrow> sorted_wrt P (last_n n xs)"
  by (simp add: last_n_def sorted_wrt_drop)

lemma falling_sma:
  assumes "np_documented lib" and "sorted_wrt (>) xs" and "0 < a" and "a < b" and "b \<le> length xs"
  shows "sma_at lib a 0 xs < sma_at lib b 0 xs"
proof -
  have "avg (last_n a xs) < avg (take (length (last_n b xs) - a) (last_n b xs) @ last_n a xs)"
    using assms sorted_last_n [OF assms(2), of b] last_n_split [of a b xs]
    by (intro falling_means) auto
  moreover have "xs \<noteq> []" using assms by auto
  ultimately show ?thesis using assms last_n_split [of a b xs] by (simp add: sma_at_def mean_determined)
qed

lemma falling_slope:
  assumes "np_documented lib" and "sorted_wrt (>) xs" and "\<forall>x \<in> set xs. 0 < x" and "3 \<le> n" and "3 \<le> length xs"
  shows "trend_slope lib n xs < 0"
proof -
  let ?ys = "last_n (min n (length xs)) xs"
  have len: "3 \<le> length ?ys" using assms by simp
  have "sorted_wrt (<) (rev ?ys)" using sorted_last_n [OF assms(2)] by (simp add: sorted_wrt_rev)
  with len have "0 < ls_slope (rev ?ys)" by (intro slope_increasing) auto
  then have neg: "ls_slope ?ys < 0" by (simp add: slope_rev)
  have ne: "?ys \<noteq> []" using len by auto
  have "\<forall>y \<in> set ?ys. 0 < y" using assms(3) by (auto simp: last_n_def dest: in_set_dropD)
  with ne have "0 < sum_list ?ys" by (cases ?ys) (auto intro!: add_pos_nonneg sum_list_nonneg simp: less_imp_le)
  with ne have "0 < avg ?ys" by (simp add: avg_list)
  with neg len show ?thesis
    by (simp add: trend_slope_closed [OF assms(1)] Let_def not_less divide_neg_pos mult_neg_pos)
qed

lemma momentum_not_reversing: "momentum_of recent prev \<noteq> REVERSING"
  by (auto simp: momentum_of_def Let_def)

lemma falling_order:
  assumes "np_documented lib" and "sorted_wrt (>) xs"
  shows "check_ma_arrangement lib xs \<noteq> Up_order" and "GOLDEN_CROSS \<notin> set (crossing lib xs)"
proof -
  have s: "sma_at lib 5 0 xs < sma_at lib 20 0 xs" if "20 \<le> length xs" using falling_sma [OF assms] that by simp
  have t: "sma_at lib 5 0 xs < sma_at lib 10 0 xs" if "10 \<le> length xs" using falling_sma [OF assms] that by simp
  show "check_ma_arrangement lib xs \<noteq> Up_order" using s t by (cases "length xs < 20") (simp_all add: check_ma_arrangement_def Let_def)
  show "GOLDEN_CROSS \<notin> set (crossing lib xs)" using s by (cases "length xs < 21") (simp_all add: crossing_def)
qed

section \<open>Properties\<close>

definition rising_rows :: "price_row list" where
  "rising_rows = map (\<lambda>i. \<lparr>cr_open = i, cr_high = i + 1, cr_low = i, cr_close = i, cr_volume = 10\<rparr>) [1, 2, 3, 4, 5]"

text \<open>
  C28: The report on a trend does not depend on the unit of the prices: with all prices multiplied by one positive
  number, as after a split of the stock or in another currency, every part of it and the score stay the same.
\<close>

theorem trend_unit_free:
  assumes "np_documented lib" and "0 < k"
  shows "analyze_trend lib (map (scale_row k) df) (map_option (map (scale_row k)) minutes) = analyze_trend lib df minutes"
proof -
  have "(case map_option (map (scale_row k)) minutes of None \<Rightarrow> None
          | Some m \<Rightarrow> if 10 \<le> length m then Some (analyze_intraday lib m) else None) =
        (case minutes of None \<Rightarrow> None | Some m \<Rightarrow> if 10 \<le> length m then Some (analyze_intraday lib m) else None)"
  proof (cases minutes)
    case (Some m)
    then show ?thesis using intraday_scale [OF assms, of m] by (cases "m = []") simp_all
  qed simp
  then have "trend_parts lib (map (scale_row k) df) (map_option (map (scale_row k)) minutes) = trend_parts lib df minutes"
    using assms
    by (simp add: trend_parts_def Let_def closes_scale trend_slope_scale arrangement_scale momentum_scale reversals_scale volatility_scale)
  then show ?thesis by (simp add: analyze_trend_def)
qed

theorem trend_unit_free_witness:
  "analyze_trend plain_lib (map (scale_row 2) rising_rows) (Some (map (scale_row 2) rising_rows)) = analyze_trend plain_lib rising_rows (Some rising_rows)"
  using trend_unit_free [OF plain_documented, of 2 rising_rows "Some rising_rows"] by simp

text \<open>
  C29: The newest row must come last. The daily rows of the brokers come newest first and nothing turns them round: a
  stock whose closing prices rise day by day, read in that order, is reported with falling slopes over all
  windows, never with averages in rising order, never with a golden cross, and never as a rising trend.
\<close>

theorem rising_prices_read_newest_first:
  assumes "np_documented lib" and "sorted_wrt (<) (closes df)" and "\<forall>r \<in> set df. 0 < cr_close r" and "5 \<le> length df"
  shows "let r = analyze_trend lib (rev df) None
    in tr_slope5 r < 0 \<and> tr_slope10 r < 0 \<and> tr_slope20 r < 0 \<and> tr_slope60 r < 0 \<and> tr_arrangement r \<noteq> Up_order \<and>
       GOLDEN_CROSS \<notin> set (tr_reversals r) \<and> tr_direction r \<noteq> BULLISH"
proof -
  let ?xs = "closes (rev df)" and ?p = "trend_parts lib (rev df) None"
  have falling: "sorted_wrt (>) ?xs" using assms(2) by (simp add: closes_def sorted_wrt_rev flip: rev_map)
  have pos: "\<forall>x \<in> set ?xs. 0 < x" using assms(3) by (auto simp: closes_def)
  have slope: "trend_slope lib n ?xs < 0" if "3 \<le> n" for n
    using falling_slope [OF assms(1) falling pos that] assms(4) by simp
  have parts: "tr_slope5 ?p < 0" "tr_slope10 ?p < 0" "tr_slope20 ?p < 0" "tr_slope60 ?p < 0" "tr_intraday ?p = None"
      "tr_arrangement ?p = check_ma_arrangement lib ?xs" "tr_momentum ?p = detect_momentum_shift lib ?xs"
      "tr_reversals ?p = detect_reversal_signals lib (rev df)" "0 \<le> tr_alignment ?p"
    using slope assms(4) by (simp_all add: trend_parts_def Let_def case_prod_unfold calc_alignment_def py_round_nonneg)
  have order: "tr_arrangement ?p \<noteq> Up_order" using falling_order(1) [OF assms(1) falling] parts by simp
  have golden: "GOLDEN_CROSS \<notin> set (tr_reversals ?p)"
    using falling_order(2) [OF assms(1) falling]
    by (auto simp: parts detect_reversal_signals_def volume_spike_def Let_def split: if_splits)
  have points: "sum_list (map reversal_points (tr_reversals ?p)) \<le> 0"
    using golden by (intro sum_list_nonpos) (auto simp: reversal_points_def split: reversal.splits)
  have "raw_score ?p \<le> 5"
  proof -
    have "(case tr_arrangement ?p of Up_order \<Rightarrow> 10 | Down_order \<Rightarrow> - 10 | MIXED \<Rightarrow> 0) \<le> (0 :: real)"
      using order by (simp split: arrangement.split)
    moreover have "tr_momentum ?p \<noteq> REVERSING"
      using parts(7) momentum_not_reversing by (simp add: detect_momentum_shift_def)
    then have "(case tr_momentum ?p of ACCELERATING \<Rightarrow> - 1 * 8 | DECELERATING \<Rightarrow> - (- 1 * 5) | REVERSING \<Rightarrow> - (- 1 * 10) | Steady \<Rightarrow> 0) \<le> (5 :: real)"
      by (simp split: momentum.split)
    moreover have "(if 7 / 10 < tr_alignment ?p then - 1 * tr_alignment ?p * 15 else 0) \<le> 0" using parts(9) by simp
    ultimately show ?thesis using parts(1-5) points unfolding raw_score_def Let_def by simp
  qed
  then have "py_round 2 (raw_score ?p) \<le> py_round 2 5" by (rule py_round_mono)
  also have "\<dots> = 5" by (simp add: py_round_def round_even_def)
  finally have "compute_trend_score ?p \<le> 30" by (simp add: compute_trend_score_def)
  then have "score_direction (compute_trend_score ?p) \<noteq> BULLISH" by (simp add: score_direction_def)
  with parts order golden assms(4) show ?thesis by (simp add: analyze_trend_def Let_def)
qed

theorem rising_prices_read_newest_first_witness:
  "map cr_close rising_rows = [1, 2, 3, 4, 5] \<and> tr_slope5 (analyze_trend plain_lib (rev rising_rows) None) < 0 \<and>
     tr_direction (analyze_trend plain_lib (rev rising_rows) None) \<noteq> BULLISH"
  using rising_prices_read_newest_first [OF plain_documented, of rising_rows] by (simp add: rising_rows_def closes_def Let_def)

text \<open>
  No momentum is ever reported as reversing: a slope that changes its sign beyond the bounds has changed by more than a
  tenth in its own direction, which is reported as acceleration first.
\<close>

lemma reversal_never_reported: "tr_momentum (analyze_trend lib df minutes) \<noteq> REVERSING"
  using momentum_not_reversing
  by (simp add: analyze_trend_def no_trend_def trend_parts_def Let_def case_prod_unfold detect_momentum_shift_def)

lemma trend_score_bounds: "- 100 \<le> tr_score (analyze_trend lib df minutes) \<and> tr_score (analyze_trend lib df minutes) \<le> 100"
  by (simp add: analyze_trend_def no_trend_def compute_trend_score_def Let_def)

end
