(* ===== verification/Chart_Signals.thy ===== *)
theory Chart_Signals
  imports Chart_Trend
begin

text \<open>
  The patterns of candles and prices (\<open>analysis/technical/chart_patterns.py\<close>), the indicators
  (\<open>analysis/technical/indicators.py\<close>), and the points that both and the trend give to either side
  (\<open>analysis/chart_analyzer.py\<close>).

  \<open>pandas_ta\<close> is a parameter: each of its functions gives nothing, or a series, or a table of columns, whose
  values may be missing (\<open>NaN\<close>). The texts for the prompt are left out.
\<close>

section \<open>Patterns\<close>

datatype chart_pattern = HAMMER | INVERTED_HAMMER | BULLISH_ENGULFING | BEARISH_ENGULFING | DOJI | DOUBLE_BOTTOM | DOUBLE_TOP
datatype reliability = HIGH | MEDIUM | LOW
datatype price_trend = UPTREND | DOWNTREND | SIDEWAYS | UNKNOWN

definition pattern_signal :: "chart_pattern \<Rightarrow> direction" where
  "pattern_signal p =
     (case p of HAMMER \<Rightarrow> BULLISH | INVERTED_HAMMER \<Rightarrow> BULLISH | BULLISH_ENGULFING \<Rightarrow> BULLISH | BEARISH_ENGULFING \<Rightarrow> BEARISH
      | DOJI \<Rightarrow> NEUTRAL | DOUBLE_BOTTOM \<Rightarrow> BULLISH | DOUBLE_TOP \<Rightarrow> BEARISH)"

definition pattern_reliability :: "chart_pattern \<Rightarrow> reliability" where
  "pattern_reliability p =
     (case p of HAMMER \<Rightarrow> MEDIUM | INVERTED_HAMMER \<Rightarrow> LOW | DOJI \<Rightarrow> MEDIUM | _ \<Rightarrow> HIGH)"

definition candle_body :: "price_row \<Rightarrow> real" where "candle_body r = \<bar>cr_close r - cr_open r\<bar>"

definition lower_shadow :: "price_row \<Rightarrow> real" where "lower_shadow r = min (cr_open r) (cr_close r) - cr_low r"

definition upper_shadow :: "price_row \<Rightarrow> real" where "upper_shadow r = cr_high r - max (cr_open r) (cr_close r)"

definition detect_hammer :: "price_row list \<Rightarrow> chart_pattern list" where
  "detect_hammer df =
     (if length df < 2 \<or> cr_high (last df) - cr_low (last df) = 0 then []
      else let b = candle_body (last df); lo = lower_shadow (last df); up = upper_shadow (last df)
           in (if 0 < b \<and> b * 2 \<le> lo \<and> up \<le> b * (3 / 10) then [HAMMER] else [])
              @ (if 0 < b \<and> b * 2 \<le> up \<and> lo \<le> b * (3 / 10) then [INVERTED_HAMMER] else []))"

definition detect_engulfing :: "price_row list \<Rightarrow> chart_pattern list" where
  "detect_engulfing df =
     (if length df < 2 then []
      else let prev = df ! (length df - 2); curr = last df; pb = cr_close prev - cr_open prev; cb = cr_close curr - cr_open curr
           in (if pb < 0 \<and> 0 < cb \<and> cr_open curr \<le> cr_close prev \<and> cr_open prev \<le> cr_close curr then [BULLISH_ENGULFING] else [])
              @ (if 0 < pb \<and> cb < 0 \<and> cr_close prev \<le> cr_open curr \<and> cr_close curr \<le> cr_open prev then [BEARISH_ENGULFING] else []))"

definition detect_doji :: "price_row list \<Rightarrow> chart_pattern list" where
  "detect_doji df =
     (if df = [] then []
      else let full = cr_high (last df) - cr_low (last df)
           in if full = 0 then [] else if candle_body (last df) / full < 5 / 100 then [DOJI] else [])"

text \<open>The place of the first smallest and of the first greatest number.\<close>

definition argmin :: "real list \<Rightarrow> nat" where "argmin xs = length (takeWhile (\<lambda>x. x \<noteq> Min (set xs)) xs)"

definition argmax :: "real list \<Rightarrow> nat" where "argmax xs = length (takeWhile (\<lambda>x. x \<noteq> Max (set xs)) xs)"

definition double_bottom_in :: "real list \<Rightarrow> bool" where
  "double_bottom_in lows =
     (let i = argmin (take 10 lows); j = argmin (drop 10 lows) + 10; a = lows ! i; b = lows ! j
      in a \<noteq> 0 \<and> \<bar>a - b\<bar> / a < 2 / 100 \<and> 5 \<le> int j - int i \<and> a * (102 / 100) < Max (set (take (j - i) (drop i lows))))"

definition double_top_in :: "real list \<Rightarrow> bool" where
  "double_top_in highs =
     (let i = argmax (take 10 highs); j = argmax (drop 10 highs) + 10; a = highs ! i; b = highs ! j
      in a \<noteq> 0 \<and> \<bar>a - b\<bar> / a < 2 / 100 \<and> 5 \<le> int j - int i \<and> Min (set (take (j - i) (drop i highs))) < a * (98 / 100))"

definition detect_double_bottom :: "price_row list \<Rightarrow> chart_pattern list" where
  "detect_double_bottom df = (if length df < 20 then [] else if double_bottom_in (map cr_low (last_n 20 df)) then [DOUBLE_BOTTOM] else [])"

definition detect_double_top :: "price_row list \<Rightarrow> chart_pattern list" where
  "detect_double_top df = (if length df < 20 then [] else if double_top_in (map cr_high (last_n 20 df)) then [DOUBLE_TOP] else [])"

definition detect_price_trend :: "np_lib \<Rightarrow> price_row list \<Rightarrow> price_trend" where
  "detect_price_trend lib df =
     (let n = min 20 (length df); xs = last_n n (closes df); mean = np_mean lib xs
      in if n < 5 then UNKNOWN
         else if mean = 0 then SIDEWAYS
         else let s = np_slope lib xs / mean * 100
              in if 3 / 10 < s then UPTREND else if s < - (3 / 10) then DOWNTREND else SIDEWAYS)"

definition detect_chart_patterns :: "np_lib \<Rightarrow> price_row list \<Rightarrow> chart_pattern list \<times> price_trend" where
  "detect_chart_patterns lib df =
     (if length df < 5 then ([], UNKNOWN)
      else (detect_hammer df @ detect_engulfing df @ detect_doji df @ detect_double_bottom df @ detect_double_top df, detect_price_trend lib df))"

section \<open>Indicators\<close>

type_synonym series = "real option list"

record ta_lib =
  ta_rsi :: "real list \<Rightarrow> series option"
  ta_macd :: "real list \<Rightarrow> series list option"
  ta_sma :: "nat \<Rightarrow> real list \<Rightarrow> series option"
  ta_ema :: "nat \<Rightarrow> real list \<Rightarrow> series option"
  ta_bbands :: "real list \<Rightarrow> series list option"
  ta_stoch :: "price_row list \<Rightarrow> series list option"
  ta_atr :: "price_row list \<Rightarrow> series option"
  ta_ichimoku :: "price_row list \<Rightarrow> (string \<times> series) list option"
  ta_willr :: "price_row list \<Rightarrow> series option"
  ta_cci :: "price_row list \<Rightarrow> series option"
  ta_obv :: "price_row list \<Rightarrow> series option"
  ta_adx :: "price_row list \<Rightarrow> series list option"
  ta_mfi :: "price_row list \<Rightarrow> series option"

record indicator_set =
  in_rsi :: "real option"
  in_macd :: "real option"
  in_macd_signal :: "real option"
  in_macd_histogram :: "real option"
  in_sma5 :: "real option"
  in_sma20 :: "real option"
  in_sma60 :: "real option"
  in_ema5 :: "real option"
  in_ema20 :: "real option"
  in_bb_upper :: "real option"
  in_bb_middle :: "real option"
  in_bb_lower :: "real option"
  in_stoch_k :: "real option"
  in_stoch_d :: "real option"
  in_atr :: "real option"
  in_squeeze_ratio :: "real option"
  in_squeeze :: "bool option"
  in_vwap :: "real option"
  in_fib :: "real list"
  in_ichimoku :: "(string \<times> real) list"
  in_williams :: "real option"
  in_cci :: "real option"
  in_obv :: "int option"
  in_obv_rising :: "bool option"
  in_adx :: "real option"
  in_strong :: "bool option"
  in_mfi :: "real option"
  in_price :: "real option"
  in_above_sma20 :: "bool option"
  in_cross :: "reversal option"

definition no_indicators :: indicator_set where
  "no_indicators =
     \<lparr>in_rsi = None, in_macd = None, in_macd_signal = None, in_macd_histogram = None, in_sma5 = None, in_sma20 = None, in_sma60 = None,
      in_ema5 = None, in_ema20 = None, in_bb_upper = None, in_bb_middle = None, in_bb_lower = None, in_stoch_k = None, in_stoch_d = None,
      in_atr = None, in_squeeze_ratio = None, in_squeeze = None, in_vwap = None, in_fib = [], in_ichimoku = [], in_williams = None,
      in_cci = None, in_obv = None, in_obv_rising = None, in_adx = None, in_strong = None, in_mfi = None, in_price = None,
      in_above_sma20 = None, in_cross = None\<rparr>"

text \<open>The value \<open>k\<close> rows before the end; the last value of a series and of a column, rounded.\<close>

definition value_at :: "nat \<Rightarrow> series option \<Rightarrow> real option" where
  "value_at k s = (case s of None \<Rightarrow> None | Some xs \<Rightarrow> if k < length xs then xs ! (length xs - Suc k) else None)"

definition last_value :: "nat \<Rightarrow> series option \<Rightarrow> real option" where
  "last_value n s = map_option (py_round n) (value_at 0 s)"

definition column :: "nat \<Rightarrow> series list option \<Rightarrow> series option" where
  "column i t = (case t of None \<Rightarrow> None | Some cols \<Rightarrow> if i < length cols then Some (cols ! i) else None)"

definition mean_of_present :: "np_lib \<Rightarrow> series \<Rightarrow> real option" where
  "mean_of_present lib s =
     (let xs = map the (filter (\<lambda>x. x \<noteq> None) s) in if xs = [] then None else Some (np_mean lib xs))"

definition band_widths :: "series \<Rightarrow> series \<Rightarrow> series" where
  "band_widths hi lo = map2 (\<lambda>a b. case (a, b) of (Some x, Some y) \<Rightarrow> Some (x - y) | _ \<Rightarrow> None) hi lo"

text \<open>The width of the bands against its mean over 20 rows: the width is column 0 less column 2.\<close>

definition squeeze_of :: "np_lib \<Rightarrow> series list option \<Rightarrow> (real option \<times> bool) option" where
  "squeeze_of lib bands =
     (case (column 0 bands, column 2 bands) of
        (Some hi, Some lo) \<Rightarrow>
          if length hi < 20 then None
          else (case mean_of_present lib (last_n 20 (band_widths hi lo)) of
              None \<Rightarrow> None
            | Some mean \<Rightarrow>
                if mean \<le> 0 then None
                else (case value_at 0 (Some (band_widths hi lo)) of
                    None \<Rightarrow> Some (None, False)
                  | Some w \<Rightarrow> Some (Some (py_round 3 (w / mean)), w / mean < 5 / 10)))
      | _ \<Rightarrow> None)"

definition fib_levels :: "price_row list \<Rightarrow> real list" where
  "fib_levels df =
     (if length df < 20 then []
      else let high = Max (set (map cr_high (last_n 20 df))); low = Min (set (map cr_low (last_n 20 df))); range = high - low
           in if range \<le> 0 then []
              else map (py_round 2) [low, low + range * (236 / 1000), low + range * (382 / 1000), low + range * (500 / 1000),
                  low + range * (618 / 1000), high])"

definition below :: "real option \<Rightarrow> real option \<Rightarrow> bool" where
  "below a b = (case (a, b) of (Some x, Some y) \<Rightarrow> x < y | _ \<Rightarrow> False)"

definition cross_of :: "series option \<Rightarrow> series option \<Rightarrow> reversal option" where
  "cross_of s5 s20 =
     (if below (value_at 1 s5) (value_at 1 s20) \<and> below (value_at 0 s20) (value_at 0 s5) then Some GOLDEN_CROSS
      else if below (value_at 1 s20) (value_at 1 s5) \<and> below (value_at 0 s5) (value_at 0 s20) then Some DEAD_CROSS
      else None)"

definition obv_rising_of :: "series option \<Rightarrow> bool option" where
  "obv_rising_of s =
     (case (s, value_at 0 s) of
        (Some xs, Some _) \<Rightarrow> if 5 \<le> length xs then Some (below (value_at 4 s) (value_at 0 s)) else None
      | _ \<Rightarrow> None)"

definition truthy_number :: "real option \<Rightarrow> bool" where "truthy_number v \<longleftrightarrow> v \<noteq> None \<and> v \<noteq> Some 0"

definition calculate_indicators :: "np_lib \<Rightarrow> ta_lib \<Rightarrow> price_row list \<Rightarrow> indicator_set" where
  "calculate_indicators lib ta df =
     (if length df < 5 then no_indicators
      else
        let xs = closes df; macd = ta_macd ta xs; bands = ta_bbands ta xs; stoch = ta_stoch ta df; adx = last_value 2 (column 0 (ta_adx ta df));
            sma5 = last_value 2 (ta_sma ta 5 xs); sma20 = last_value 2 (ta_sma ta 20 xs); price = last xs;
            obv = ta_obv ta df; squeeze = squeeze_of lib bands
        in no_indicators\<lparr>
             in_rsi := last_value 2 (ta_rsi ta xs),
             in_macd := last_value 4 (column 0 macd), in_macd_signal := last_value 4 (column 1 macd), in_macd_histogram := last_value 4 (column 2 macd),
             in_sma5 := sma5, in_sma20 := sma20, in_sma60 := last_value 2 (ta_sma ta 60 xs),
             in_ema5 := last_value 2 (ta_ema ta 5 xs), in_ema20 := last_value 2 (ta_ema ta 20 xs),
             in_bb_upper := last_value 2 (column 0 bands), in_bb_middle := last_value 2 (column 1 bands), in_bb_lower := last_value 2 (column 2 bands),
             in_stoch_k := last_value 2 (column 0 stoch), in_stoch_d := last_value 2 (column 1 stoch),
             in_atr := last_value 2 (ta_atr ta df),
             in_squeeze_ratio := Option.bind squeeze fst, in_squeeze := map_option snd squeeze,
             in_vwap := map_option (py_round 2) (vwap_of df), in_fib := fib_levels df,
             in_ichimoku := (case ta_ichimoku ta df of None \<Rightarrow> []
               | Some cols \<Rightarrow> concat (map (\<lambda>(name, s). case last_value 2 (Some s) of None \<Rightarrow> [] | Some v \<Rightarrow> [(name, v)]) cols)),
             in_williams := last_value 2 (ta_willr ta df), in_cci := last_value 2 (ta_cci ta df),
             in_obv := map_option py_int (value_at 0 obv), in_obv_rising := obv_rising_of obv,
             in_adx := adx, in_strong := map_option (\<lambda>v. 25 \<le> v) (value_at 0 (column 0 (ta_adx ta df))),
             in_mfi := last_value 2 (ta_mfi ta df), in_price := Some (py_round 2 price),
             in_above_sma20 := (if truthy_number sma20 then Some (the sma20 < price) else None),
             in_cross := (if truthy_number sma5 \<and> truthy_number sma20 then cross_of (ta_sma ta 5 xs) (ta_sma ta 20 xs) else None)\<rparr>)"

section \<open>Points for either side\<close>

record signal_summary =
  su_bullish :: int
  su_bearish :: int
  su_net :: int
  su_direction :: direction
  su_confidence :: real

definition points_when :: "bool \<Rightarrow> int \<Rightarrow> int" where "points_when b n = (if b then n else 0)"

definition pattern_weight :: "chart_pattern \<Rightarrow> int" where
  "pattern_weight p = (case pattern_reliability p of HIGH \<Rightarrow> 3 | MEDIUM \<Rightarrow> 2 | LOW \<Rightarrow> 1)"

definition pattern_points :: "direction \<Rightarrow> chart_pattern list \<Rightarrow> int" where
  "pattern_points d ps = sum_list (map (\<lambda>p. points_when (pattern_signal p = d) (pattern_weight p)) ps)"

definition bullish_points :: "real option \<Rightarrow> real option \<Rightarrow> reversal option \<Rightarrow> real option \<Rightarrow> chart_pattern list \<Rightarrow> real \<Rightarrow> int" where
  "bullish_points rsi hist cross k ps score =
     points_when (below rsi (Some 30)) 2 + points_when (below (Some 0) hist) 1 + points_when (cross = Some GOLDEN_CROSS) 2
     + points_when (below k (Some 20)) 1 + pattern_points BULLISH ps + (if 30 < score then 4 else if 10 < score then 2 else 0)"

definition bearish_points :: "real option \<Rightarrow> real option \<Rightarrow> reversal option \<Rightarrow> real option \<Rightarrow> chart_pattern list \<Rightarrow> real \<Rightarrow> int" where
  "bearish_points rsi hist cross k ps score =
     points_when (below (Some 70) rsi) 2 + points_when (below hist (Some 0)) 1 + points_when (cross = Some DEAD_CROSS) 2
     + points_when (below (Some 80) k) 1 + pattern_points BEARISH ps + (if score < - 30 then 4 else if score < - 10 then 2 else 0)"

definition summary_of :: "int \<Rightarrow> int \<Rightarrow> signal_summary" where
  "summary_of up down =
     \<lparr>su_bullish = up, su_bearish = down, su_net = up - down,
      su_direction = (if 3 < up - down then BULLISH else if up - down < - 3 then BEARISH else NEUTRAL),
      su_confidence = min (\<bar>real_of_int (up - down)\<bar> / 15) 1\<rparr>"

definition aggregate_signals :: "indicator_set \<Rightarrow> chart_pattern list \<Rightarrow> real \<Rightarrow> signal_summary" where
  "aggregate_signals ind ps score =
     summary_of (bullish_points (in_rsi ind) (in_macd_histogram ind) (in_cross ind) (in_stoch_k ind) ps score)
       (bearish_points (in_rsi ind) (in_macd_histogram ind) (in_cross ind) (in_stoch_k ind) ps score)"

record chart_result =
  ch_indicators :: indicator_set
  ch_patterns :: "chart_pattern list \<times> price_trend"
  ch_trend :: trend_report
  ch_summary :: "signal_summary option"

definition analyze_chart :: "np_lib \<Rightarrow> ta_lib \<Rightarrow> price_row list \<Rightarrow> price_row list option \<Rightarrow> chart_result" where
  "analyze_chart lib ta daily minutes =
     (if length daily < 5 then \<lparr>ch_indicators = no_indicators, ch_patterns = ([], UNKNOWN), ch_trend = no_trend, ch_summary = None\<rparr>
      else
        let ind = calculate_indicators lib ta daily; ps = detect_chart_patterns lib daily; trend = analyze_trend lib daily minutes
        in \<lparr>ch_indicators = ind, ch_patterns = ps, ch_trend = trend, ch_summary = Some (aggregate_signals ind (fst ps) (tr_score trend))\<rparr>)"

section \<open>Lemmas\<close>

text \<open>A candle is not both kinds of hammer, and two candles do not engulf each other both ways.\<close>

lemma hammers_exclusive: "length (detect_hammer df) \<le> 1"
  by (auto simp: detect_hammer_def Let_def)

lemma engulfing_exclusive: "length (detect_engulfing df) \<le> 1"
  by (auto simp: detect_engulfing_def Let_def)

text \<open>Reading the market upside down turns the points round.\<close>

definition mirror_direction :: "direction \<Rightarrow> direction" where
  "mirror_direction d = (case d of BULLISH \<Rightarrow> BEARISH | BEARISH \<Rightarrow> BULLISH | NEUTRAL \<Rightarrow> NEUTRAL)"

definition mirror_cross :: "reversal \<Rightarrow> reversal" where
  "mirror_cross c = (case c of GOLDEN_CROSS \<Rightarrow> DEAD_CROSS | DEAD_CROSS \<Rightarrow> GOLDEN_CROSS | _ \<Rightarrow> c)"

definition mirror_indicators :: "indicator_set \<Rightarrow> indicator_set" where
  "mirror_indicators ind =
     ind\<lparr>in_rsi := map_option (\<lambda>x. 100 - x) (in_rsi ind), in_macd_histogram := map_option uminus (in_macd_histogram ind),
         in_cross := map_option mirror_cross (in_cross ind), in_stoch_k := map_option (\<lambda>x. 100 - x) (in_stoch_k ind)\<rparr>"

definition mirror_summary :: "signal_summary \<Rightarrow> signal_summary" where
  "mirror_summary s =
     \<lparr>su_bullish = su_bearish s, su_bearish = su_bullish s, su_net = - su_net s, su_direction = mirror_direction (su_direction s),
      su_confidence = su_confidence s\<rparr>"

lemma mirror_cross_eq:
  "mirror_cross c = GOLDEN_CROSS \<longleftrightarrow> c = DEAD_CROSS" "mirror_cross c = DEAD_CROSS \<longleftrightarrow> c = GOLDEN_CROSS"
  by (cases c; simp add: mirror_cross_def)+

lemma summary_mirror: "summary_of down up = mirror_summary (summary_of up down)"
proof -
  have "real_of_int (down - up) = - real_of_int (up - down)" by simp
  then have "\<bar>real_of_int (down - up)\<bar> = \<bar>real_of_int (up - down)\<bar>" by (simp only: abs_minus_cancel)
  then show ?thesis by (simp add: summary_of_def mirror_summary_def mirror_direction_def)
qed

lemma signals_mirror:
  assumes "pattern_points BULLISH ps' = pattern_points BEARISH ps" and "pattern_points BEARISH ps' = pattern_points BULLISH ps"
  shows "aggregate_signals (mirror_indicators ind) ps' (- score) = mirror_summary (aggregate_signals ind ps score)"
proof -
  have "below (map_option (\<lambda>x. 100 - x) v) (Some b) = below (Some (100 - b)) v" "below (Some b) (map_option (\<lambda>x. 100 - x) v) = below v (Some (100 - b))"
      "below (Some 0) (map_option uminus v) = below v (Some 0)" "below (map_option uminus v) (Some 0) = below (Some 0) v" for v b
    by (cases v; simp add: below_def algebra_simps)+
  moreover have "map_option mirror_cross c = Some GOLDEN_CROSS \<longleftrightarrow> c = Some DEAD_CROSS"
      "map_option mirror_cross c = Some DEAD_CROSS \<longleftrightarrow> c = Some GOLDEN_CROSS" for c
    by (cases c; simp add: mirror_cross_eq)+
  ultimately have "bullish_points (in_rsi (mirror_indicators ind)) (in_macd_histogram (mirror_indicators ind)) (in_cross (mirror_indicators ind))
        (in_stoch_k (mirror_indicators ind)) ps' (- score) =
      bearish_points (in_rsi ind) (in_macd_histogram ind) (in_cross ind) (in_stoch_k ind) ps score"
    "bearish_points (in_rsi (mirror_indicators ind)) (in_macd_histogram (mirror_indicators ind)) (in_cross (mirror_indicators ind))
        (in_stoch_k (mirror_indicators ind)) ps' (- score) =
      bullish_points (in_rsi ind) (in_macd_histogram ind) (in_cross ind) (in_stoch_k ind) ps score"
    using assms by (simp_all add: bullish_points_def bearish_points_def mirror_indicators_def)
  then show ?thesis unfolding aggregate_signals_def by (simp only: summary_mirror [symmetric])
qed

lemma confidence_bounds: "0 \<le> su_confidence (aggregate_signals ind ps score) \<and> su_confidence (aggregate_signals ind ps score) \<le> 1"
  by (simp add: aggregate_signals_def summary_of_def)

text \<open>
  The columns of the bands are the lower, the middle and the upper one (documentation of \<open>pandas_ta.bbands\<close>):
  the names of the upper and the lower band are exchanged, and the width is never positive, so that a
  squeeze is never looked for.
\<close>

lemma squeeze_never_seen:
  assumes "np_documented lib" and "ta_bbands ta (closes df) = Some (low # middle # high # rest)" and "length low = length high"
    and "\<forall>i < length low. \<forall>x y. low ! i = Some x \<and> high ! i = Some y \<longrightarrow> x \<le> y" and "5 \<le> length df"
  shows "in_squeeze (calculate_indicators lib ta df) = None" and "in_squeeze_ratio (calculate_indicators lib ta df) = None"
    and "in_bb_upper (calculate_indicators lib ta df) = last_value 2 (Some low)"
proof -
  have neg: "\<forall>w \<in> set (band_widths low high). \<forall>x. w = Some x \<longrightarrow> x \<le> 0"
    using assms(3,4) by (fastforce simp: band_widths_def set_zip split: option.splits)
  have "squeeze_of lib (Some (low # middle # high # rest)) = None"
  proof (cases "mean_of_present lib (last_n 20 (band_widths low high))")
    case (Some m)
    let ?xs = "map the (filter (\<lambda>x. x \<noteq> None) (last_n 20 (band_widths low high)))"
    have m: "?xs \<noteq> []" "m = np_mean lib ?xs" using Some by (auto simp: mean_of_present_def Let_def split: if_splits)
    have "\<forall>x \<in> set ?xs. x \<le> 0" using neg by (auto simp: last_n_def dest: in_set_dropD)
    then have "sum_list ?xs \<le> 0" by (intro sum_list_nonpos) auto
    then have "m \<le> 0" using mean_determined [OF assms(1) m(1)] m by (simp add: avg_list divide_nonpos_nonneg)
    with Some show ?thesis by (simp add: squeeze_of_def column_def)
  qed (simp add: squeeze_of_def column_def)
  then show "in_squeeze (calculate_indicators lib ta df) = None" "in_squeeze_ratio (calculate_indicators lib ta df) = None"
    "in_bb_upper (calculate_indicators lib ta df) = last_value 2 (Some low)"
    using assms(2,5) by (simp_all add: calculate_indicators_def Let_def column_def)
qed

text \<open>The columns of the MACD are the line, the histogram and the signal line: the last two are exchanged.\<close>

lemma macd_names_exchanged:
  assumes "ta_macd ta (closes df) = Some [line, histogram, signal]" and "5 \<le> length df"
  shows "in_macd_histogram (calculate_indicators lib ta df) = last_value 4 (Some signal)"
    and "in_macd_signal (calculate_indicators lib ta df) = last_value 4 (Some histogram)"
  using assms by (simp_all add: calculate_indicators_def Let_def column_def)

section \<open>Properties\<close>

text \<open>A row as a market gives it: the close lies between the extremes, and the volume is not negative.\<close>

definition sane_row :: "price_row \<Rightarrow> bool" where
  "sane_row r \<longleftrightarrow> cr_low r \<le> cr_close r \<and> cr_close r \<le> cr_high r \<and> 0 \<le> cr_volume r"

lemma weighted_bounds:
  assumes "\<forall>r \<in> set df. 0 \<le> cr_volume r \<and> a \<le> typical_price r \<and> typical_price r \<le> b"
  shows "a * sum_list (map cr_volume df) \<le> sum_list (map (\<lambda>r. typical_price r * cr_volume r) df) \<and>
    sum_list (map (\<lambda>r. typical_price r * cr_volume r) df) \<le> b * sum_list (map cr_volume df)"
  using assms by (induction df) (auto simp: distrib_left intro!: add_mono mult_right_mono)

lemma vwap_between:
  assumes "\<forall>r \<in> set df. sane_row r" and "vwap_of df = Some v"
  shows "Min (cr_low ` set df) \<le> v \<and> v \<le> Max (cr_high ` set df)"
proof -
  let ?a = "Min (cr_low ` set df)" and ?b = "Max (cr_high ` set df)"
  have "0 \<le> cr_volume r \<and> ?a \<le> typical_price r \<and> typical_price r \<le> ?b" if r: "r \<in> set df" for r
  proof -
    have "?a \<le> cr_low r" "cr_high r \<le> ?b" using r by simp_all
    moreover have "cr_low r \<le> cr_close r" "cr_close r \<le> cr_high r" "0 \<le> cr_volume r" using assms(1) r by (auto simp: sane_row_def)
    ultimately show ?thesis by (simp add: typical_price_def)
  qed
  then have w: "?a * sum_list (map cr_volume df) \<le> sum_list (map (\<lambda>r. typical_price r * cr_volume r) df)"
      "sum_list (map (\<lambda>r. typical_price r * cr_volume r) df) \<le> ?b * sum_list (map cr_volume df)"
    using weighted_bounds [of df ?a ?b] by blast+
  have "0 \<le> sum_list (map cr_volume df)" using assms(1) by (intro sum_list_nonneg) (auto simp: sane_row_def)
  moreover have "sum_list (map cr_volume df) \<noteq> 0" "v = sum_list (map (\<lambda>r. typical_price r * cr_volume r) df) / sum_list (map cr_volume df)"
    using assms(2) by (auto simp: vwap_of_def Let_def split: if_splits)
  ultimately show ?thesis using w by (simp add: pos_le_divide_eq pos_divide_le_eq)
qed

lemma sorted_six: "a \<le> b \<Longrightarrow> b \<le> c \<Longrightarrow> c \<le> d \<Longrightarrow> d \<le> e \<Longrightarrow> e \<le> f \<Longrightarrow> sorted [a, b, c, d, e, f :: real]"
  by simp

lemma levels_sorted:
  assumes "a < b"
  shows "sorted (map (py_round 2) [a, a + (b - a) * (236 / 1000), a + (b - a) * (382 / 1000), a + (b - a) * (500 / 1000), a + (b - a) * (618 / 1000), b])"
proof -
  have "sorted [a, a + (b - a) * (236 / 1000), a + (b - a) * (382 / 1000), a + (b - a) * (500 / 1000), a + (b - a) * (618 / 1000), b]"
  proof (rule sorted_six)
    have d: "0 < b - a" using assms by simp
    from d show "a \<le> a + (b - a) * (236 / 1000)" by simp
    from d show "a + (b - a) * (236 / 1000) \<le> a + (b - a) * (382 / 1000)" by simp
    from d show "a + (b - a) * (382 / 1000) \<le> a + (b - a) * (500 / 1000)" by simp
    from d show "a + (b - a) * (500 / 1000) \<le> a + (b - a) * (618 / 1000)" by simp
    have "a + (b - a) * (618 / 1000) \<le> a + (b - a) * 1" using d by (intro add_left_mono mult_left_mono) auto
    also have "\<dots> = b" by simp
    finally show "a + (b - a) * (618 / 1000) \<le> b" .
  qed
  then show ?thesis by (rule sorted_map_mono) (simp add: mono_on_def py_round_mono)
qed

lemma fib_sorted:
  "sorted (fib_levels df) \<and> (fib_levels df \<noteq> [] \<longrightarrow>
     hd (fib_levels df) = py_round 2 (Min (cr_low ` set (last_n 20 df))) \<and> last (fib_levels df) = py_round 2 (Max (cr_high ` set (last_n 20 df))))"
proof (cases "length df < 20 \<or> Max (cr_high ` set (last_n 20 df)) \<le> Min (cr_low ` set (last_n 20 df))")
  case False
  then have "fib_levels df =
      map (py_round 2) (let a = Min (cr_low ` set (last_n 20 df)); b = Max (cr_high ` set (last_n 20 df))
        in [a, a + (b - a) * (236 / 1000), a + (b - a) * (382 / 1000), a + (b - a) * (500 / 1000), a + (b - a) * (618 / 1000), b])"
    unfolding fib_levels_def Let_def by simp
  with levels_sorted [of "Min (cr_low ` set (last_n 20 df))" "Max (cr_high ` set (last_n 20 df))"] False show ?thesis
    by (simp add: Let_def)
qed (auto simp: fib_levels_def Let_def)

text \<open>
  C30: The levels of a chart lie within its prices: the average weighted by volume is between the lowest low and the
  highest high, to the cent to which it is rounded, and the levels of the retracement rise from the lowest low
  of the last twenty days to their highest high.
\<close>

theorem chart_levels_within_prices:
  assumes "\<forall>r \<in> set df. sane_row r"
  shows "(\<forall>v. in_vwap (calculate_indicators lib ta df) = Some v \<longrightarrow>
      py_round 2 (Min (cr_low ` set df)) \<le> v \<and> v \<le> py_round 2 (Max (cr_high ` set df))) \<and>
    sorted (in_fib (calculate_indicators lib ta df)) \<and>
    (\<forall>level \<in> set (in_fib (calculate_indicators lib ta df)).
      py_round 2 (Min (cr_low ` set (last_n 20 df))) \<le> level \<and> level \<le> py_round 2 (Max (cr_high ` set (last_n 20 df))))"
proof (cases "length df < 5")
  case True
  then show ?thesis by (simp add: calculate_indicators_def no_indicators_def)
next
  case False
  then have ind: "in_vwap (calculate_indicators lib ta df) = map_option (py_round 2) (vwap_of df)" "in_fib (calculate_indicators lib ta df) = fib_levels df"
    by (simp_all add: calculate_indicators_def Let_def)
  have "hd xs \<le> x \<and> x \<le> last xs" if "sorted xs" "x \<in> set xs" for x and xs :: "real list"
  proof
    show "hd xs \<le> x" using that by (cases xs) auto
    show "x \<le> last xs" using that by (cases xs rule: rev_cases) (auto simp: sorted_append)
  qed
  then have levels: "py_round 2 (Min (cr_low ` set (last_n 20 df))) \<le> level \<and> level \<le> py_round 2 (Max (cr_high ` set (last_n 20 df)))"
    if "level \<in> set (fib_levels df)" for level
    using fib_sorted [of df] that by (metis empty_iff list.set(1))
  have "py_round 2 (Min (cr_low ` set df)) \<le> v \<and> v \<le> py_round 2 (Max (cr_high ` set df))" if "map_option (py_round 2) (vwap_of df) = Some v" for v
    using that vwap_between [OF assms] by (auto intro: py_round_mono)
  with levels fib_sorted [of df] show ?thesis unfolding ind by blast
qed

definition no_ta :: ta_lib where
  "no_ta = \<lparr>ta_rsi = (\<lambda>_. None), ta_macd = (\<lambda>_. None), ta_sma = (\<lambda>_ _. None), ta_ema = (\<lambda>_ _. None), ta_bbands = (\<lambda>_. None),
     ta_stoch = (\<lambda>_. None), ta_atr = (\<lambda>_. None), ta_ichimoku = (\<lambda>_. None), ta_willr = (\<lambda>_. None), ta_cci = (\<lambda>_. None),
     ta_obv = (\<lambda>_. None), ta_adx = (\<lambda>_. None), ta_mfi = (\<lambda>_. None)\<rparr>"

definition flat_rows :: "price_row list" where
  "flat_rows = replicate 20 \<lparr>cr_open = 1, cr_high = 3, cr_low = 1, cr_close = 2, cr_volume = 5\<rparr>"

theorem chart_levels_within_prices_witness:
  "length flat_rows = 20 \<and> length (in_fib (calculate_indicators plain_lib no_ta flat_rows)) = 6 \<and>
     sorted (in_fib (calculate_indicators plain_lib no_ta flat_rows))"
proof -
  have "\<forall>r \<in> set flat_rows. sane_row r" by (simp add: flat_rows_def sane_row_def)
  from chart_levels_within_prices [OF this, of plain_lib no_ta]
  have "sorted (in_fib (calculate_indicators plain_lib no_ta flat_rows))" by blast
  moreover have "in_fib (calculate_indicators plain_lib no_ta flat_rows) = fib_levels flat_rows" "length (fib_levels flat_rows) = 6"
    by (simp_all add: calculate_indicators_def flat_rows_def Let_def fib_levels_def last_n_def)
  ultimately show ?thesis by (simp add: flat_rows_def)
qed

text \<open>The unit of the prices does not matter to the patterns.\<close>

lemma argmin_scale: "0 < k \<Longrightarrow> argmin (map ((*) k) xs) = argmin xs" and argmax_scale: "0 < k \<Longrightarrow> argmax (map ((*) k) xs) = argmax xs"
proof -
  assume k: "0 < k"
  have "xs \<noteq> [] \<Longrightarrow> Min ((*) k ` set xs) = k * Min (set xs)" "xs \<noteq> [] \<Longrightarrow> Max ((*) k ` set xs) = k * Max (set xs)"
    using k by (simp_all add: mono_Min_commute [of "(*) k"] mono_Max_commute [of "(*) k"] mono_def)
  with k show "argmin (map ((*) k) xs) = argmin xs" "argmax (map ((*) k) xs) = argmax xs"
    by (cases "xs = []"; simp add: argmin_def argmax_def takeWhile_map comp_def)+
qed

lemma arg_bounds: "xs \<noteq> [] \<Longrightarrow> argmin xs < length xs" "xs \<noteq> [] \<Longrightarrow> argmax xs < length xs"
proof -
  have "length (takeWhile (\<lambda>x. x \<noteq> m) xs) < length xs" if "m \<in> set xs" for m
    using that by (induction xs) auto
  then show "xs \<noteq> [] \<Longrightarrow> argmin xs < length xs" "xs \<noteq> [] \<Longrightarrow> argmax xs < length xs"
    by (simp_all add: argmin_def argmax_def)
qed

lemma min_max_scale:
  fixes k :: real
  assumes "0 < k"
  shows "min (k * a) (k * b) = k * min a b" and "max (k * a) (k * b) = k * max a b"
    and "finite A \<Longrightarrow> A \<noteq> {} \<Longrightarrow> Min ((*) k ` A) = k * Min A" and "finite A \<Longrightarrow> A \<noteq> {} \<Longrightarrow> Max ((*) k ` A) = k * Max A"
  using assms by (simp_all add: min_def max_def mono_Min_commute [of "(*) k"] mono_Max_commute [of "(*) k"] mono_def)

lemma shadows_scale:
  assumes "0 < k"
  shows "candle_body (scale_row k r) = k * candle_body r" and "lower_shadow (scale_row k r) = k * lower_shadow r"
    and "upper_shadow (scale_row k r) = k * upper_shadow r"
  using assms by (simp_all add: candle_body_def lower_shadow_def upper_shadow_def min_max_scale right_diff_distrib [symmetric] abs_mult)

lemma candles_scale:
  assumes "0 < k"
  shows "detect_hammer (map (scale_row k) df) = detect_hammer df" and "detect_engulfing (map (scale_row k) df) = detect_engulfing df"
    and "detect_doji (map (scale_row k) df) = detect_doji df"
proof -
  have diff: "k * a - k * b = k * (a - b)" for a b :: real by (simp add: right_diff_distrib)
  show "detect_hammer (map (scale_row k) df) = detect_hammer df"
    using assms by (cases "df = []") (simp_all add: detect_hammer_def last_map shadows_scale diff mult.assoc zero_less_mult_iff Let_def)
  show "detect_engulfing (map (scale_row k) df) = detect_engulfing df"
    using assms by (cases "length df < 2"; cases "df = []") (simp_all add: detect_engulfing_def last_map diff zero_less_mult_iff mult_less_0_iff Let_def)
  show "detect_doji (map (scale_row k) df) = detect_doji df"
    using assms by (cases "df = []") (simp_all add: detect_doji_def last_map shadows_scale diff Let_def)
qed

text \<open>The tests for two equal lows and for two equal highs.\<close>

lemma double_scale:
  assumes "0 < k" and "length xs = 20"
  shows "double_bottom_in (map ((*) k) xs) = double_bottom_in xs" and "double_top_in (map ((*) k) xs) = double_top_in xs"
proof -
  have core: "\<bar>k * a - k * b\<bar> = k * \<bar>a - b\<bar>" for a b :: real
    using assms(1) by (simp add: right_diff_distrib [symmetric] abs_mult)
  have ne: "take 10 xs \<noteq> []" "drop 10 xs \<noteq> []" using assms(2) by auto
  have lt: "argmin (take 10 xs) < 10" "argmax (take 10 xs) < 10" "argmin (drop 10 xs) < 10" "argmax (drop 10 xs) < 10"
    using arg_bounds [OF ne(1)] arg_bounds [OF ne(2)] assms(2) by simp_all
  have seg: "set (take (j + 10 - i) (drop i xs)) \<noteq> {}" if "i < 10" for i j using that assms(2) by simp
  have nth: "map ((*) k) xs ! i = k * xs ! i" if "i < 20" for i using that assms(2) by simp
  have k: "k * a * c < k * m \<longleftrightarrow> a * c < m" "k * m < k * a * c \<longleftrightarrow> m < a * c" for a c m :: real
    using assms(1) by (simp_all add: mult.assoc)
  have img: "set (take n (drop i (map ((*) k) xs))) = (*) k ` set (take n (drop i xs))" for n i
    by (simp add: take_map drop_map)
  show "double_bottom_in (map ((*) k) xs) = double_bottom_in xs"
    using lt assms(1) seg unfolding double_bottom_in_def take_map drop_map argmin_scale [OF assms(1)]
    by (simp add: Let_def nth core img k min_max_scale flip: take_map drop_map)
  show "double_top_in (map ((*) k) xs) = double_top_in xs"
    using lt assms(1) seg unfolding double_top_in_def take_map drop_map argmax_scale [OF assms(1)]
    by (simp add: Let_def nth core img k min_max_scale flip: take_map drop_map)
qed

lemma patterns_unit_free:
  assumes "np_documented lib" and "0 < k"
  shows "detect_chart_patterns lib (map (scale_row k) df) = detect_chart_patterns lib df"
proof -
  have "detect_price_trend lib (map (scale_row k) df) = detect_price_trend lib df"
  proof (cases "length df < 5")
    case False
    then have ne: "last_n (min 20 (length df)) (closes df) \<noteq> []" "2 \<le> length (last_n (min 20 (length df)) (closes df))"
      by (auto simp: closes_def)
    from assms ne False show ?thesis
      by (simp add: detect_price_trend_def Let_def closes_scale last_n_map mean_scale slope_determined slope_scale)
  qed (simp add: detect_price_trend_def Let_def)
  moreover have "detect_double_bottom (map (scale_row k) df) = detect_double_bottom df" "detect_double_top (map (scale_row k) df) = detect_double_top df"
    using double_scale [OF assms(2), of "map cr_low (last_n 20 df)"] double_scale [OF assms(2), of "map cr_high (last_n 20 df)"]
    by (simp_all add: detect_double_bottom_def detect_double_top_def last_n_map comp_def)
  ultimately show ?thesis by (simp add: detect_chart_patterns_def candles_scale [OF assms(2)])
qed

end
