(* ===== verification/Spec2Isabelle.thy ===== *)
theory Spec2Isabelle
  imports Reservation Decision Risk Event_Detector Calendar Strategies Performance Agent Trading_Rules Pipeline Cycle Portfolio_Sync Reconcile Runtime_Settings Positions Backtest Realtime Liquidation Reconfigure Accounts Manual_Trade News_Gate Timeline Kiwoom Kis Scanner News_Poll Chart_Signals
begin

text \<open>
  The trading core of the repository: an agent that scans the Korean market, lets a language model
  judge candidates, and sends orders to a broker behind a chain of guards.

  \<^bold>\<open>The program and how its parts interact\<close>

  A scheduler (\<open>scheduler/scheduler.py\<close>) runs the jobs of a day: preparation, scans, checks of the
  holdings, liquidation, review, settlement. A scan runs a cycle of the agent
  (\<open>agent/trading_agent.py\<close>): it takes a snapshot of the account, asks the scanner for candidates and
  analyses each of them. The analysis of one symbol passes the rules learned from reviews
  (\<open>analysis/feedback/trading_rules.py\<close>), two answers of the model, a strategy (\<open>strategy/\<close>), the cost and the
  news gate (\<open>services/news_signal_service.py\<close>), the risk manager with its guards, the reservation ledger
  (\<open>agent/order_reservation.py\<close>), and ends in the decision maker (\<open>agent/decision_maker.py\<close>), which
  places the order, records it as unconfirmed and confirms it when the fill is known; a confirmed sell
  closes the oldest open lots. Quote streams (\<open>realtime/\<close>) feed an event detector whose events start
  further analyses and the sales at a stop loss or target. After the close the settlement
  (\<open>scheduler/jobs/portfolio_sync_job.py\<close>) compares the records with the broker. An administrator can sell
  and cancel by hand, change settings while the program runs, and repair what was left behind.

  \<^bold>\<open>Theories\<close>

  \<^item> \<open>Py_Prelude\<close>, \<open>Py_Text\<close>, \<open>Json\<close>: Python values - results with exceptions, rounding, \<open>x or d\<close>, strings, dates with or
    without a zone, numbers and their texts, JSON values and their conversions. \<open>Interfaces\<close>: the contracts
    as locales (bounded window, cooldown gate, cash ledger, lock per key, feed of quotes), with the lemmas
    proved once inside them; each is interpreted where its operations are defined.
  \<^item> \<open>Trading_Types\<close>, \<open>Settings_Model\<close>: enums, orders, balances, holdings, symbols; settings and the gate on
    order submission (\<open>trading/models.py\<close>, \<open>trading/enums.py\<close>, \<open>core/config.py\<close>, \<open>core/order_submission.py\<close>).
  \<^item> \<open>Trade_Store\<close>, \<open>Sell_Fill\<close>, \<open>Decision\<close>: the table of trades with its queries, the closing of lots, and the
    decision maker; \<open>Positions\<close>: the table refines a book of quantities, and the closing loop equals a closed form.
  \<^item> \<open>Reservation\<close>, \<open>Risk\<close>, \<open>Performance\<close>, \<open>Strategies\<close>, \<open>Trading_Rules\<close>: ledger, limits and kill switch, statistics
    and tuning, the two strategies with the overnight policy, the rules from reviews.
  \<^item> \<open>Event_Detector\<close>, \<open>Realtime\<close>, \<open>Calendar\<close>: events with their windows and cooldowns, subscriptions and their
    loss, sessions and the search for the next opening.
  \<^item> \<open>Agent\<close>, \<open>News_Gate\<close>, \<open>Pipeline\<close>, \<open>Cycle\<close>: locks, cooldowns and exits; the weighing of negative news; the path of one
    symbol; the cycle with its tasks and the handlers of market events and news.
  \<^item> \<open>Liquidation\<close>, \<open>Timeline\<close>: the selling jobs; the dispatch of a cycle, the review after the close, the daily
    report, the other jobs of the day and their table.
  \<^item> \<open>Portfolio_Sync\<close>, \<open>Reconcile\<close>: settlement, repair of costs and quantities, comparison with the broker's open orders.
  \<^item> \<open>Accounts\<close>: parsing and caching of what the broker says of the account, the equity of a day, the profit summary.
  \<^item> \<open>Manual_Trade\<close>: the actions of the administrator. \<open>Runtime_Settings\<close>, \<open>Reconfigure\<close>: typed settings, their
    storage, and the stop and start around a change. \<open>Backtest\<close>: simulation and figures.
  \<^item> \<open>Broker_Api\<close>: what both adapters make of an answer, and the contract of a status query. \<open>Rate_Limit\<close>: the
    sliding second as a locale. \<open>Kiwoom_Rest\<close>, \<open>Kiwoom\<close>: requests, tokens, clients and the adapter of the first
    broker (\<open>trading/kiwoom_rest_client.py\<close>, \<open>trading/kiwoom_clients.py\<close>). \<open>Kis_Client\<close>, \<open>Kis\<close>: calls, stream,
    recovery and the tools of the second (\<open>trading/mcp_client.py\<close>, \<open>trading/kis_api.py\<close>).
  \<^item> \<open>Llm_Router\<close>, \<open>Llm_Json\<close>, \<open>Scanner\<close>: which model answers (\<open>analysis/llm/\<close>), the JSON object in its answer
    (\<open>core/json_utils.py\<close>), the scan for candidates (\<open>agent/market_scanner.py\<close>). \<open>News_Ingest\<close>, \<open>News_Poll\<close>: translation,
    symbols and duplicates of news, the polls of the sources and their pauses (\<open>services/news_*_service.py\<close>).
  \<^item> \<open>Least_Squares\<close>, \<open>Chart_Trend\<close>, \<open>Chart_Signals\<close>: what is relied on of \<open>numpy\<close>, the report on the trend of a
    chart, its patterns and indicators, and the points they give (\<open>analysis/technical/\<close>, \<open>analysis/chart_analyzer.py\<close>).

  \<^bold>\<open>Conventions\<close>

  A \<open>float\<close> is a \<open>real\<close> and an \<open>int\<close> an \<open>int\<close> (Python's do not wrap), a \<open>str\<close> a \<open>string\<close> of UTF-8 bytes, a dict an
  association list or a map, an exception the left side of a sum. A time is a wall clock in
  microseconds with a flag that says whether it carries a zone; storing it in SQLite strips the zone,
  and the difference of two times of different kind raises, as in Python. A table is the list of its
  rows; \<open>order_by\<close> is a stable sort; a transaction either commits or leaves the table. Effects on the
  outside (orders, cancellations, events, started tasks) are lists in the state, in order. The clock, the
  calendar's answers, the broker's and the model's answers, database faults and settings are arguments
  of the definitions, so a theorem holds for all of them. \<open>gather\<close> starts its tasks in order; the tasks of a
  cycle run one after the other, and calls that overlap at an \<open>await\<close> are modelled where a lock or a cooldown
  is about them (the locales \<open>keyed_lock\<close>, \<open>cooldown_gate\<close>, the runs of the decision maker). No loop needs
  fuel: all are structural, except the search for the next opening, a partial function that is proved to return.

  \<^bold>\<open>What the lemmas show\<close>

  Safety of orders: what reaches the broker passed every guard, a sale is of shares that are held,
  replaced orders are cancelled first. Books: the table of trades stays well formed, closes
  the oldest lots first, refines a book of positions, and agrees with the reports of the day; the
  settlement touches no closed row and no known price. Cash and
  limits: reservations and approved buys stay within the cash and the limits. News are stored and announced once, and the pause of a source follows its failures. State: subscriptions follow
  the selection, baselines do not change, calls of a broker keep within its limits and orders in flight are kept, settings stay typed and survive a restart. Errors: several
  theorems state what the code does against its intention; the manifest lists them as findings.

  \<^bold>\<open>How far the runs reach\<close>

  The sell lock excludes two sales of a symbol only between the tasks that take it (exits and sells of the
  scheduler); sales by hand and sells of the analysis do not take it, and a stop of the agent clears it,
  which the runs of \<open>lock_run\<close> include: such a symbol is excepted from then on. The runs of the
  decision maker include submissions that raise at the broker and callbacks that raise, which are then
  called a second time. The book of positions follows submissions, confirmations of any task (double
  and mismatched ones too), back filling and the closing of orphans; the recovery of unconfirmed orders and
  the repair of prices are not among its steps and have lemmas of their own in \<open>Portfolio_Sync\<close>. The
  limiter of the first broker bounds the times at which requests are let through; what is sent follows
  by the delay of the token, and the bound on the requests carries that delay.

  \<^bold>\<open>Not modelled\<close>

  HTTP routes, schemas and migrations (declarations), prompts and the processes behind the language
  models, the HTTP transport under the clients of the brokers, the reading of news feeds, the texts made of charts and indicators for
  prompts, metrics and log entries, backups and smoke tests. Their answers enter as arguments.
\<close>

end
